(* ===== verification/Net_Prelude.thy ===== *)
theory Net_Prelude
  imports Complex_Main "HOL-Library.Word" "HOL-Library.Sublist"
begin

text \<open>
  Shared vocabulary of the development.

  Bytes are \<open>8 word\<close>, a \<open>ByteArray\<close> is a list of bytes and a \<open>std::string\<close> is a HOL
  \<open>string\<close>. Methods that read and write their object and may throw are programs
  \<open>'s \<Rightarrow> ('e + 'a) \<times> 's\<close>: the left summand is the exception that leaves the method, and
  the state is returned on both ways out. A method body is a list of statements run by
  \<open>doM\<close>; the predicate \<open>preserves\<close> (a state predicate is kept, on normal and on
  exceptional exit) and \<open>evolves\<close> (a relation holds between the states before and after)
  come with one rule per combinator, so that the invariants of a component are proved
  by one lemma per method.
\<close>

type_synonym byte = "8 word"
type_synonym bytes = "byte list"

named_theorems preserves_intros \<open>one rule per combinator or method: a state predicate is kept\<close>
named_theorems evolves_intros \<open>one rule per combinator or method: a state relation is respected\<close>
named_theorems prog_simps \<open>unfolding of the program combinators\<close>

section \<open>Programs with state and exceptions\<close>

type_synonym ('e, 's, 'a) prog = "'s \<Rightarrow> ('e + 'a) \<times> 's"

definition returnM :: "'a \<Rightarrow> ('e, 's, 'a) prog" where
  [prog_simps]: "returnM x = (\<lambda>s. (Inr x, s))"

definition throwM :: "'e \<Rightarrow> ('e, 's, 'a) prog" where
  [prog_simps]: "throwM e = (\<lambda>s. (Inl e, s))"

definition bindM :: "('e, 's, 'a) prog \<Rightarrow> ('a \<Rightarrow> ('e, 's, 'b) prog) \<Rightarrow> ('e, 's, 'b) prog" where
  [prog_simps]: "bindM m f =
     (\<lambda>s. case m s of (Inl e, s') \<Rightarrow> (Inl e, s') | (Inr x, s') \<Rightarrow> f x s')"

definition modifyM :: "('s \<Rightarrow> 's) \<Rightarrow> ('e, 's, unit) prog" where
  [prog_simps]: "modifyM f = (\<lambda>s. (Inr (), f s))"

definition getsM :: "('s \<Rightarrow> 'a) \<Rightarrow> ('e, 's, 'a) prog" where
  [prog_simps]: "getsM f = (\<lambda>s. (Inr (f s), s))"

text \<open>A program whose text depends on the current state.\<close>

definition withM :: "('s \<Rightarrow> ('e, 's, 'a) prog) \<Rightarrow> ('e, 's, 'a) prog" where
  [prog_simps]: "withM f = (\<lambda>s. f s s)"

fun doM :: "('e, 's, unit) prog list \<Rightarrow> ('e, 's, unit) prog" where
  "doM [] = returnM ()"
| "doM (m # ms) = bindM m (\<lambda>_. doM ms)"

definition whenM :: "bool \<Rightarrow> ('e, 's, unit) prog \<Rightarrow> ('e, 's, unit) prog" where
  [prog_simps]: "whenM b m = (if b then m else returnM ())"

text \<open>Statements followed by the value the method returns.\<close>

definition retM :: "('e, 's, unit) prog list \<Rightarrow> 'a \<Rightarrow> ('e, 's, 'a) prog" where
  [prog_simps]: "retM ms x = bindM (doM ms) (\<lambda>_. returnM x)"

definition thenM :: "('e, 's, unit) prog list \<Rightarrow> ('e, 's, 'a) prog \<Rightarrow> ('e, 's, 'a) prog" where
  [prog_simps]: "thenM ms m = bindM (doM ms) (\<lambda>_. m)"

text \<open>\<open>try { m } catch (...) { h }\<close>.\<close>

definition tryM :: "('e, 's, 'a) prog \<Rightarrow> ('e \<Rightarrow> ('e, 's, 'a) prog) \<Rightarrow> ('e, 's, 'a) prog" where
  [prog_simps]: "tryM m h =
     (\<lambda>s. case m s of (Inl e, s') \<Rightarrow> h e s' | (Inr x, s') \<Rightarrow> (Inr x, s'))"

abbreviation okM :: "('e + 'a) \<times> 's \<Rightarrow> bool" where
  "okM r \<equiv> \<not> isl (fst r)"

text \<open>A loop body run at most \<open>n\<close> times, while it returns \<open>True\<close>; \<open>False\<close> says that the fuel ran out.\<close>

fun loopM :: "nat \<Rightarrow> ('e, 's, bool) prog \<Rightarrow> ('e, 's, bool) prog" where
  "loopM 0 m = returnM False"
| "loopM (Suc n) m = bindM m (\<lambda>b. if b then loopM n m else returnM True)"

section \<open>Runs at a known state\<close>

text \<open>Symbolic execution: a program applied to a state is rewritten from its first statement on.\<close>

lemma run_simps:
  "returnM x s = (Inr x, s)" "throwM e s = (Inl e, s)" "modifyM h s = (Inr (), h s)"
  "getsM g s = (Inr (g s), s)" "withM f s = f s s" "whenM b m s = (if b then m s else (Inr (), s))"
  by (simp_all add: prog_simps)

lemma bindM_run:
  "bindM (returnM x) k s = k x s" "bindM (throwM e) k s = (Inl e, s)"
  "bindM (getsM g) k1 s = k1 (g s) s" "bindM (modifyM h) k2 s = k2 () (h s)"
  "bindM (withM f) k3 s = bindM (f s) k3 s" "bindM (whenM b u) k4 s = (if b then bindM u k4 s else k4 () s)"
  "bindM (bindM m l) k5 s = bindM m (\<lambda>x. bindM (l x) k5) s"
  "bindM (if b then m6 else n6) k6 s = (if b then bindM m6 k6 s else bindM n6 k6 s)"
  by (simp_all add: prog_simps split: prod.split sum.split)

lemma list_run:
  "doM [] s = (Inr (), s)" "doM (u # us) s = bindM u (\<lambda>_. doM us) s"
  "bindM (doM []) w s = w () s" "bindM (doM (u # us)) w s = bindM u (\<lambda>_. bindM (doM us) w) s"
  "retM us x s = bindM (doM us) (\<lambda>_. returnM x) s"
  "bindM (retM us x1) k1 s = bindM (doM us) (\<lambda>_. k1 x1) s"
  "thenM us m2 s = bindM (doM us) (\<lambda>_. m2) s"
  "bindM (thenM us m3) k3 s = bindM (doM us) (\<lambda>_. bindM m3 k3) s"
  by (simp_all add: prog_simps split: prod.split sum.split)

lemma bindM_unit: "bindM m (\<lambda>_. doM []) = m" "bindM n returnM = n"
  by (auto simp: bindM_def returnM_def split: prod.split sum.split)

text \<open>The same laws for programs not yet applied, to be used below a binding.\<close>

lemma prog_laws:
  "doM [] = returnM ()" "doM (u # us) = bindM u (\<lambda>_. doM us)"
  "retM us x = bindM (doM us) (\<lambda>_. returnM x)" "thenM us m2 = bindM (doM us) (\<lambda>_. m2)"
  "bindM (returnM x3) k3 = k3 x3" "bindM (bindM m l) k4 = bindM m (\<lambda>x. bindM (l x) k4)"
  "bindM (throwM e) k5 = throwM e"
  by (simp_all add: prog_simps fun_eq_iff split: prod.split sum.split)

lemmas runs = run_simps bindM_run list_run

text \<open>A call already run.\<close>

lemma bindM_after: "m s = (Inr x, t) \<Longrightarrow> bindM m k s = k x t"
  by (simp add: bindM_def)

lemma bindM_fails: "m s = (Inl e, t) \<Longrightarrow> bindM m k s = (Inl e, t)"
  by (simp add: bindM_def)

lemma bindM_okE:
  assumes "bindM m f s = (Inr x, t)"
  obtains y s' where "m s = (Inr y, s')" "f y s' = (Inr x, t)"
  using assms by (auto simp: bindM_def split: prod.splits sum.splits)

lemma thenM_okE:
  assumes "thenM ms m s = (Inr x, t)"
  obtains s' where "doM ms s = (Inr (), s')" "m s' = (Inr x, t)"
  using assms by (auto simp: thenM_def elim: bindM_okE)

lemma loopM_enough:
  assumes "\<And>s t. m s = (Inr True, t) \<Longrightarrow> f t < (f s :: nat)"
  shows "f s < n \<Longrightarrow> fst (loopM n m s) \<noteq> Inr False"
proof (induction n arbitrary: s)
  case (Suc n)
  show ?case
  proof (cases "m s")
    case (Pair r t)
    then show ?thesis
      using Suc assms [of s t] by (cases r) (auto simp: bindM_def returnM_def)
  qed
qed simp

section \<open>Programs that never throw\<close>

definition succeeds :: "('e, 's, 'a) prog \<Rightarrow> bool" where
  "succeeds m \<longleftrightarrow> (\<forall>s. okM (m s))"

lemma succeedsE:
  assumes "succeeds m"
  obtains x t where "m s = (Inr x, t)"
proof (cases "m s")
  case (Pair r t)
  then show thesis using assms that by (cases r) (auto simp: succeeds_def dest: spec [of _ s])
qed

lemma succeeds_bindM: "succeeds m \<Longrightarrow> (\<And>x. succeeds (f x)) \<Longrightarrow> succeeds (bindM m f)"
  unfolding succeeds_def bindM_def
  by (auto split: prod.split sum.split) (metis fst_conv isl_def)

lemma succeeds_base:
  "succeeds (returnM x)" "succeeds (modifyM h)" "succeeds (getsM g)"
  by (simp_all add: succeeds_def prog_simps)

lemma succeeds_withM: "(\<And>s. succeeds (f s)) \<Longrightarrow> succeeds (withM f)"
  by (simp add: succeeds_def withM_def)

lemma succeeds_doM: "list_all succeeds ms \<Longrightarrow> succeeds (doM ms)"
  by (induction ms) (auto intro: succeeds_bindM succeeds_base)

lemma succeeds_doM_Cons: "succeeds m \<Longrightarrow> succeeds (doM ms) \<Longrightarrow> succeeds (doM (m # ms))"
  "succeeds (doM [])"
  by (simp_all add: succeeds_bindM succeeds_base)

lemma succeeds_if: "(b \<Longrightarrow> succeeds m) \<Longrightarrow> (\<not> b \<Longrightarrow> succeeds n) \<Longrightarrow> succeeds (if b then m else n)"
  by simp

lemma succeeds_whenM: "(b \<Longrightarrow> succeeds m) \<Longrightarrow> succeeds (whenM b m)"
  by (simp add: whenM_def succeeds_base)

lemma succeeds_blocks:
  "succeeds (doM ms) \<Longrightarrow> succeeds (retM ms x)"
  "succeeds (doM ms) \<Longrightarrow> succeeds m \<Longrightarrow> succeeds (thenM ms m)"
  by (simp_all add: retM_def thenM_def succeeds_bindM succeeds_base)

lemma succeeds_tryM: "(\<And>e. succeeds (h e)) \<Longrightarrow> succeeds (tryM m h)"
  unfolding succeeds_def tryM_def by (auto split: prod.split sum.split)

lemmas succeeds_rules = succeeds_base succeeds_bindM succeeds_withM succeeds_doM_Cons succeeds_if
  succeeds_whenM succeeds_blocks succeeds_tryM

section \<open>State predicates kept by a program\<close>

definition preserves :: "('s \<Rightarrow> bool) \<Rightarrow> ('e, 's, 'a) prog \<Rightarrow> bool" where
  "preserves P m \<longleftrightarrow> (\<forall>s. P s \<longrightarrow> P (snd (m s)))"

lemma preservesI: "(\<And>s. P s \<Longrightarrow> P (snd (m s))) \<Longrightarrow> preserves P m"
  by (simp add: preserves_def)

lemma preservesD: "preserves P m \<Longrightarrow> P s \<Longrightarrow> P (snd (m s))"
  by (simp add: preserves_def)

lemma preserves_returnM [preserves_intros]: "preserves P (returnM x)"
  by (simp add: preserves_def returnM_def)

lemma preserves_throwM [preserves_intros]: "preserves P (throwM e)"
  by (simp add: preserves_def throwM_def)

lemma preserves_getsM [preserves_intros]: "preserves P (getsM f)"
  by (simp add: preserves_def getsM_def)

lemma preserves_modifyM [preserves_intros]:
  "(\<And>s. P s \<Longrightarrow> P (f s)) \<Longrightarrow> preserves P (modifyM f)"
  by (simp add: preserves_def modifyM_def)

lemma preserves_bindM [preserves_intros]:
  "preserves P m \<Longrightarrow> (\<And>x. preserves P (f x)) \<Longrightarrow> preserves P (bindM m f)"
  unfolding preserves_def bindM_def
  by (force split: prod.split sum.split)

lemma preserves_withM [preserves_intros]:
  "(\<And>s. P s \<Longrightarrow> P (snd (f s s))) \<Longrightarrow> preserves P (withM f)"
  by (simp add: preserves_def withM_def)

lemma preserves_withM_all: "(\<And>s. preserves P (f s)) \<Longrightarrow> preserves P (withM f)"
  by (simp add: preserves_def withM_def)

lemma preserves_doM_Nil [preserves_intros]: "preserves P (doM [])"
  by (simp add: preserves_returnM)

lemma preserves_doM_Cons [preserves_intros]:
  "preserves P m \<Longrightarrow> preserves P (doM ms) \<Longrightarrow> preserves P (doM (m # ms))"
  by (simp add: preserves_bindM)

lemma preserves_whenM [preserves_intros]:
  "(b \<Longrightarrow> preserves P m) \<Longrightarrow> preserves P (whenM b m)"
  by (simp add: whenM_def preserves_returnM)

lemma preserves_retM [preserves_intros]: "preserves P (doM ms) \<Longrightarrow> preserves P (retM ms x)"
  by (simp add: retM_def preserves_bindM preserves_returnM)

lemma preserves_thenM [preserves_intros]:
  "preserves P (doM ms) \<Longrightarrow> preserves P m \<Longrightarrow> preserves P (thenM ms m)"
  by (simp add: thenM_def preserves_bindM)

lemma preserves_tryM [preserves_intros]:
  "preserves P m \<Longrightarrow> (\<And>e. preserves P (h e)) \<Longrightarrow> preserves P (tryM m h)"
  unfolding preserves_def tryM_def
  by (force split: prod.split sum.split)

lemma preserves_if [preserves_intros]:
  "(b \<Longrightarrow> preserves P m) \<Longrightarrow> (\<not> b \<Longrightarrow> preserves P n) \<Longrightarrow> preserves P (if b then m else n)"
  by simp

section \<open>State relations respected by a program\<close>

definition evolves :: "('s \<Rightarrow> 's \<Rightarrow> bool) \<Rightarrow> ('e, 's, 'a) prog \<Rightarrow> bool" where
  "evolves R m \<longleftrightarrow> (\<forall>s. R s (snd (m s)))"

lemma evolvesD: "evolves R m \<Longrightarrow> R s (snd (m s))"
  by (simp add: evolves_def)

lemma evolvesI: "(\<And>s. R s (snd (m s))) \<Longrightarrow> evolves R m"
  by (simp add: evolves_def)

lemma evolves_modifyM: "(\<And>s. R s (f s)) \<Longrightarrow> evolves R (modifyM f)"
  by (simp add: evolves_def modifyM_def)

lemma evolves_whenM_raw:
  "(b \<Longrightarrow> evolves R m) \<Longrightarrow> (\<And>s. R s s) \<Longrightarrow> evolves R (whenM b m)"
  by (simp add: evolves_def whenM_def returnM_def)

lemma evolves_mono: "evolves R m \<Longrightarrow> (\<And>s t. R s t \<Longrightarrow> Q s t) \<Longrightarrow> evolves Q m"
  by (simp add: evolves_def)

lemma ev_case_option:
  "(x = None \<Longrightarrow> evolves R a) \<Longrightarrow> (\<And>y. x = Some y \<Longrightarrow> evolves R (f y)) \<Longrightarrow>
   evolves R (case x of None \<Rightarrow> a | Some y \<Rightarrow> f y)"
  by (cases x) simp_all

lemma ev_case_list:
  "(x = [] \<Longrightarrow> evolves R a) \<Longrightarrow> (\<And>y ys. x = y # ys \<Longrightarrow> evolves R (f y ys)) \<Longrightarrow>
   evolves R (case x of [] \<Rightarrow> a | y # ys \<Rightarrow> f y ys)"
  by (cases x) simp_all

lemma ev_case_prod: "(\<And>y z. x = (y, z) \<Longrightarrow> evolves R (f y z)) \<Longrightarrow> evolves R (case x of (y, z) \<Rightarrow> f y z)"
  by (cases x) simp

lemma ev_case_sum:
  "(\<And>y. x = Inl y \<Longrightarrow> evolves R (f y)) \<Longrightarrow> (\<And>y. x = Inr y \<Longrightarrow> evolves R (g y)) \<Longrightarrow>
   evolves R (case x of Inl y \<Rightarrow> f y | Inr y \<Rightarrow> g y)"
  by (cases x) simp_all

lemma ev_Let: "evolves R (f x) \<Longrightarrow> evolves R (Let x f)"
  by simp

lemmas ev_cases = ev_case_option ev_case_list ev_case_prod ev_case_sum ev_Let

text \<open>
  The contract of a state relation: reflexive and transitive. Every program built from
  steps that respect such a relation respects it.
\<close>

locale state_rel =
  fixes R :: "'s \<Rightarrow> 's \<Rightarrow> bool"
  assumes rel_refl: "R s s"
    and rel_trans: "R s t \<Longrightarrow> R t u \<Longrightarrow> R s u"
begin

lemma ev_returnM: "evolves R (returnM x)"
  by (simp add: evolves_def returnM_def rel_refl)

lemma ev_throwM: "evolves R (throwM e)"
  by (simp add: evolves_def throwM_def rel_refl)

lemma ev_getsM: "evolves R (getsM f)"
  by (simp add: evolves_def getsM_def rel_refl)

lemma ev_modifyM: "(\<And>s. R s (f s)) \<Longrightarrow> evolves R (modifyM f)"
  by (rule evolves_modifyM)

lemma ev_bindM:
  assumes "evolves R m" and "\<And>x. evolves R (f x)"
  shows "evolves R (bindM m f)"
proof (rule evolvesI)
  fix s
  obtain r s' where m: "m s = (r, s')" by (cases "m s")
  have "R s s'" using evolvesD [OF assms(1), of s] m by simp
  moreover have "R s' (snd (f x s'))" for x using evolvesD [OF assms(2)] .
  ultimately show "R s (snd (bindM m f s))"
    by (auto simp: bindM_def m split: sum.split intro: rel_trans)
qed

lemma ev_withM: "(\<And>s. R s (snd (f s s))) \<Longrightarrow> evolves R (withM f)"
  by (simp add: evolves_def withM_def)

lemma ev_withM_all: "(\<And>s. evolves R (f s)) \<Longrightarrow> evolves R (withM f)"
  by (simp add: evolves_def withM_def)

lemma ev_doM: "list_all (evolves R) ms \<Longrightarrow> evolves R (doM ms)"
  by (induction ms) (auto intro: ev_bindM ev_returnM)

lemma ev_doM_Nil: "evolves R (doM [])"
  by (simp add: ev_returnM)

lemma ev_doM_Cons: "evolves R m \<Longrightarrow> evolves R (doM ms) \<Longrightarrow> evolves R (doM (m # ms))"
  by (simp add: ev_bindM)

lemma ev_whenM: "(b \<Longrightarrow> evolves R m) \<Longrightarrow> evolves R (whenM b m)"
  by (simp add: whenM_def ev_returnM)

lemma ev_retM: "evolves R (doM ms) \<Longrightarrow> evolves R (retM ms x)"
  by (simp add: retM_def ev_bindM ev_returnM)

lemma ev_thenM: "evolves R (doM ms) \<Longrightarrow> evolves R m \<Longrightarrow> evolves R (thenM ms m)"
  by (simp add: thenM_def ev_bindM)

lemma ev_tryM:
  assumes "evolves R m" and "\<And>e. evolves R (h e)"
  shows "evolves R (tryM m h)"
proof (rule evolvesI)
  fix s
  obtain r s' where m: "m s = (r, s')" by (cases "m s")
  have "R s s'" using evolvesD [OF assms(1), of s] m by simp
  moreover have "R s' (snd (h e s'))" for e using evolvesD [OF assms(2)] .
  ultimately show "R s (snd (tryM m h s))"
    by (auto simp: tryM_def m split: sum.split intro: rel_trans)
qed

lemma ev_if: "(b \<Longrightarrow> evolves R m) \<Longrightarrow> (\<not> b \<Longrightarrow> evolves R n) \<Longrightarrow> evolves R (if b then m else n)"
  by simp

lemma ev_loopM: "evolves R m \<Longrightarrow> evolves R (loopM n m)"
  by (induction n) (auto intro!: ev_bindM ev_returnM)

text \<open>Bind at a known state, for methods whose later steps rely on what the earlier ones left.\<close>

lemma bindM_at:
  assumes "R s (snd (m s))" and "\<And>x s'. m s = (Inr x, s') \<Longrightarrow> R s' (snd (f x s'))"
  shows "R s (snd (bindM m f s))"
proof (cases "m s")
  case (Pair r s')
  then show ?thesis
    using assms by (cases r) (auto simp: bindM_def intro: rel_trans)
qed

lemma doM_at:
  "R s (snd (m s)) \<Longrightarrow> (\<And>s'. m s = (Inr (), s') \<Longrightarrow> R s' (snd (doM ms s'))) \<Longrightarrow> R s (snd (doM (m # ms) s))"
  by (auto intro: bindM_at)

lemmas ev_rules = ev_returnM ev_throwM ev_getsM ev_bindM ev_withM_all ev_doM_Nil ev_doM_Cons
  ev_whenM ev_retM ev_thenM ev_tryM ev_if

end

section \<open>Lists\<close>

lemma take_drop_append_cases:
  "take n (xs @ ys) = (if n \<le> length xs then take n xs else xs @ take (n - length xs) ys)"
  by simp

lemma prefix_append_mono: "prefix xs ys \<Longrightarrow> prefix xs (ys @ zs)"
  by (simp add: prefix_def) (metis append.assoc)

lemma foldl_append_last: "foldl f a (xs @ [x]) = f (foldl f a xs) x"
  by simp

section \<open>Big-endian and little-endian numbers\<close>

text \<open>\<open>be_encode k n\<close>: the \<open>k\<close> low bytes of \<open>n\<close>, most significant first.\<close>

fun be_encode :: "nat \<Rightarrow> nat \<Rightarrow> bytes" where
  "be_encode 0 n = []"
| "be_encode (Suc k) n = be_encode k (n div 256) @ [word_of_nat n]"

definition be_decode :: "bytes \<Rightarrow> nat" where
  "be_decode bs = foldl (\<lambda>a b. a * 256 + unat b) 0 bs"

definition le_encode :: "nat \<Rightarrow> nat \<Rightarrow> bytes" where
  "le_encode k n = rev (be_encode k n)"

definition le_decode :: "bytes \<Rightarrow> nat" where
  "le_decode bs = be_decode (rev bs)"

lemma length_be_encode [simp]: "length (be_encode k n) = k"
  by (induction k arbitrary: n) auto

lemma length_le_encode [simp]: "length (le_encode k n) = k"
  by (simp add: le_encode_def)

lemma be_encode_2: "be_encode 2 n = [word_of_nat (n div 256), word_of_nat n]"
  by (simp add: numeral_2_eq_2)

lemma be_encode_4:
  "be_encode 4 n = [word_of_nat (n div 256 div 256 div 256), word_of_nat (n div 256 div 256),
     word_of_nat (n div 256), word_of_nat n]"
proof -
  have four: "(4 :: nat) = Suc (Suc (Suc (Suc 0)))" by simp
  show ?thesis by (subst four) simp
qed

lemma be_encode_8_split: "be_encode 8 n = be_encode 4 (n div 256 ^ 4) @ be_encode 4 n"
proof -
  have eight: "(8 :: nat) = Suc (Suc (Suc (Suc 4)))" by simp
  show ?thesis
    by (subst eight, simp only: be_encode.simps be_encode_4) (simp add: div_mult2_eq [symmetric])
qed

lemma be_decode_Nil [simp]: "be_decode [] = 0"
  by (simp add: be_decode_def)

lemma be_decode_snoc [simp]: "be_decode (bs @ [b]) = be_decode bs * 256 + unat b"
  by (simp add: be_decode_def)

lemma unat_byte_of_nat [simp]: "unat (word_of_nat n :: byte) = n mod 256"
  by (simp add: unat_of_nat)

lemma be_decode_encode_mod: "be_decode (be_encode k n) = n mod 256 ^ k"
proof (induction k arbitrary: n)
  case 0
  then show ?case by simp
next
  case (Suc k)
  have "n mod 256 ^ Suc k = 256 * (n div 256 mod 256 ^ k) + n mod 256"
    by (simp add: mod_mult2_eq)
  then show ?case using Suc by simp
qed

lemma be_decode_encode: "n < 256 ^ k \<Longrightarrow> be_decode (be_encode k n) = n"
  by (simp add: be_decode_encode_mod)

lemma le_decode_encode: "n < 256 ^ k \<Longrightarrow> le_decode (le_encode k n) = n"
  by (simp add: le_decode_def le_encode_def be_decode_encode)

lemma byte_lt_256: "unat (b :: byte) < 256"
  using unsigned_less [of b] by simp

lemma byte_256: "(256 :: byte) = 0"
  by (simp add: word_eq_iff_unsigned)

lemma be_decode_less: "be_decode bs < 256 ^ length bs"
proof (induction bs rule: rev_induct)
  case Nil
  then show ?case by simp
next
  case (snoc b bs)
  have "be_decode bs * 256 + unat b < (be_decode bs + 1) * 256"
    using byte_lt_256 [of b] by simp
  also have "\<dots> \<le> 256 ^ length bs * 256"
    using snoc by (simp add: Suc_le_eq)
  finally show ?case by simp
qed

lemma be_encode_decode: "be_encode (length bs) (be_decode bs) = bs"
proof (induction bs rule: rev_induct)
  case Nil
  then show ?case by simp
next
  case (snoc b bs)
  have "(be_decode bs * 256 + unat b) div 256 = be_decode bs"
    using byte_lt_256 [of b] by simp
  moreover have "(word_of_nat (be_decode bs * 256 + unat b) :: byte) = b"
    by (simp add: byte_256)
  ultimately show ?case using snoc by (simp del: of_nat_add of_nat_mult)
qed

lemma le_decode_less: "le_decode bs < 256 ^ length bs"
  using be_decode_less [of "rev bs"] by (simp add: le_decode_def)

section \<open>Strings and bytes\<close>

definition byte_of_char :: "char \<Rightarrow> byte" where
  "byte_of_char c = word_of_nat (of_char c)"

definition char_of_byte :: "byte \<Rightarrow> char" where
  "char_of_byte b = char_of (unat b)"

definition bytes_of_string :: "string \<Rightarrow> bytes" where
  "bytes_of_string s = map byte_of_char s"

definition string_of_bytes :: "bytes \<Rightarrow> string" where
  "string_of_bytes bs = map char_of_byte bs"

lemma char_of_byte_of_char [simp]: "char_of_byte (byte_of_char c) = c"
proof -
  have "of_char c < (256 :: nat)"
    using of_char_mod_256 [of c, where 'a = nat] by (metis mod_less_divisor zero_less_numeral)
  then show ?thesis
    by (simp add: char_of_byte_def byte_of_char_def)
qed

lemma byte_of_char_of_byte [simp]: "byte_of_char (char_of_byte b) = b"
  using byte_lt_256 [of b] by (simp add: char_of_byte_def byte_of_char_def)

lemma string_of_bytes_of_string [simp]: "string_of_bytes (bytes_of_string s) = s"
  by (simp add: string_of_bytes_def bytes_of_string_def comp_def)

lemma bytes_of_string_of_bytes [simp]: "bytes_of_string (string_of_bytes bs) = bs"
  by (simp add: string_of_bytes_def bytes_of_string_def comp_def)

lemma length_bytes_of_string [simp]: "length (bytes_of_string s) = length s"
  by (simp add: bytes_of_string_def)

lemma length_string_of_bytes [simp]: "length (string_of_bytes bs) = length bs"
  by (simp add: string_of_bytes_def)

lemma bytes_of_string_append [simp]:
  "bytes_of_string (s @ t) = bytes_of_string s @ bytes_of_string t"
  by (simp add: bytes_of_string_def)

lemma string_of_bytes_append [simp]:
  "string_of_bytes (s @ t) = string_of_bytes s @ string_of_bytes t"
  by (simp add: string_of_bytes_def)

section \<open>Decimal numbers\<close>

definition digit_char :: "nat \<Rightarrow> char" where
  "digit_char n = char_of (48 + n)"

fun to_string :: "nat \<Rightarrow> string" where
  "to_string n = (if n < 10 then [digit_char n] else to_string (n div 10) @ [digit_char (n mod 10)])"

declare to_string.simps [simp del]

definition is_digit :: "char \<Rightarrow> bool" where
  "is_digit c \<longleftrightarrow> (48 :: nat) \<le> of_char c \<and> of_char c \<le> (57 :: nat)"

definition digit_value :: "char \<Rightarrow> nat" where
  "digit_value c = of_char c - 48"

definition parse_decimal :: "string \<Rightarrow> nat" where
  "parse_decimal s = foldl (\<lambda>a c. a * 10 + digit_value c) 0 s"

text \<open>\<open>std::to_string\<close> of an \<open>int\<close>.\<close>

definition int_string :: "int \<Rightarrow> string" where
  "int_string i = (if i < 0 then CHR ''-'' # to_string (nat (- i)) else to_string (nat i))"

lemma of_char_digit: "n < 10 \<Longrightarrow> of_char (digit_char n) = 48 + n"
  by (simp add: digit_char_def)

lemma digit_of_char [simp]: "n < 10 \<Longrightarrow> digit_value (digit_char n) = n" "n < 10 \<Longrightarrow> is_digit (digit_char n)"
  by (simp_all add: digit_value_def is_digit_def of_char_digit)

lemma to_string_digits: "list_all is_digit (to_string n) \<and> to_string n \<noteq> []"
  by (induction n rule: to_string.induct) (subst (1 2) to_string.simps, simp)

lemma parse_to_string [simp]: "parse_decimal (to_string n) = n"
proof (induction n rule: to_string.induct)
  case (1 n)
  then show ?case by (subst to_string.simps) (simp add: parse_decimal_def)
qed

end
