(* ===== verification/UInt_Receiver.thy ===== *)
theory UInt_Receiver
  imports Net_Prelude
begin

text \<open>
  \<open>core/protocols/uintnreceiver.h\<close> (the five length-prefixed receivers) and the part of
  \<open>common/serialization/byteconvert.h\<close> they use. The five \<open>dataReceived\<close> bodies are one loop
  over five header parsers: the parser looks at the bytes from \<open>consumed\<close> on and either asks
  for more data or gives the offset of the payload, its length and the increment of
  \<open>consumed\<close>, the last one with the wrap-around of the type the source adds in.
\<close>

section \<open>\<open>ByteConvert\<close>\<close>

datatype byte_order = ByteOrderNative | ByteOrderNetwork | ByteOrderLittleEndian | ByteOrderBigEndian

text \<open>
  \<open>little\<close> says whether the host is little-endian; \<open>load\<close> and \<open>store\<close> are the casts between a
  \<open>uintN_t\<close> and its bytes in memory.
\<close>

definition swap_bytes :: "nat \<Rightarrow> nat \<Rightarrow> nat" where
  "swap_bytes k v = be_decode (le_encode k v)"

definition mem_load :: "bool \<Rightarrow> bytes \<Rightarrow> nat" where
  "mem_load little bs = (if little then le_decode bs else be_decode bs)"

definition mem_store :: "bool \<Rightarrow> nat \<Rightarrow> nat \<Rightarrow> bytes" where
  "mem_store little k v = (if little then le_encode k v else be_encode k v)"

definition native_to_big :: "bool \<Rightarrow> nat \<Rightarrow> nat \<Rightarrow> nat" where
  "native_to_big little k v = (if little then swap_bytes k v else v)"

definition native_to_little :: "bool \<Rightarrow> nat \<Rightarrow> nat \<Rightarrow> nat" where
  "native_to_little little k v = (if little then v else swap_bytes k v)"

definition convertTo :: "bool \<Rightarrow> byte_order \<Rightarrow> nat \<Rightarrow> nat \<Rightarrow> nat" where
  "convertTo little bo k v = (case bo of
      ByteOrderNative \<Rightarrow> v
    | ByteOrderNetwork \<Rightarrow> native_to_big little k v
    | ByteOrderLittleEndian \<Rightarrow> native_to_little little k v
    | ByteOrderBigEndian \<Rightarrow> native_to_big little k v)"

definition convertFrom :: "bool \<Rightarrow> byte_order \<Rightarrow> nat \<Rightarrow> nat \<Rightarrow> nat" where
  "convertFrom little bo k v = (case bo of
      ByteOrderNative \<Rightarrow> v
    | ByteOrderNetwork \<Rightarrow> native_to_big little k v
    | ByteOrderLittleEndian \<Rightarrow> native_to_little little k v
    | ByteOrderBigEndian \<Rightarrow> native_to_big little k v)"

section \<open>The receivers\<close>

datatype recv_exn = LengthLimitExceededError | HandlerError

text \<open>
  The receiver keeps \<open>_unprocessed\<close>; \<open>'u\<close> is the state of the subclass, whose
  \<open>messageReceived\<close> is a program that may throw. \<open>lost\<close> records \<open>loseConnection()\<close>.
\<close>

record 'u receiver =
  rc_unprocessed :: bytes
  rc_lost :: bool
  rc_user :: 'u

type_synonym 'u handler = "bytes \<Rightarrow> 'u \<Rightarrow> (recv_exn + unit) \<times> 'u"

datatype header = Incomplete | Frame (hd_offset: nat) (hd_length: nat) (hd_step: nat)

type_synonym header_parser = "bytes \<Rightarrow> header"

definition uint8_header :: header_parser where
  "uint8_header bs =
     (if 1 \<le> length bs then let len = unat (bs ! 0) in Frame 1 len (1 + len) else Incomplete)"

definition uint8_ext_header :: "bool \<Rightarrow> byte_order \<Rightarrow> header_parser" where
  "uint8_ext_header little bo bs =
     (if 1 \<le> length bs then
        (let len = unat (bs ! 0) in
         if len = 0xff then
           (if 1 + 4 \<le> length bs
            then let len = mem_load little (take 4 (drop 1 bs)) in Frame (1 + 4) len (1 + 4 + len)
            else Incomplete)
         else Frame 1 len (1 + len))
      else Incomplete)"

definition uint16_header :: "bool \<Rightarrow> byte_order \<Rightarrow> header_parser" where
  "uint16_header little bo bs =
     (if 2 \<le> length bs
      then let len = convertFrom little bo 2 (mem_load little (take 2 bs)) in Frame 2 len (2 + len)
      else Incomplete)"

definition uint16_ext_header :: "bool \<Rightarrow> byte_order \<Rightarrow> header_parser" where
  "uint16_ext_header little bo bs =
     (if 2 \<le> length bs then
        (let len = convertFrom little bo 2 (mem_load little (take 2 bs)) in
         if len = 0xffff then
           (if 2 + 4 \<le> length bs
            then let len = mem_load little (take 4 (drop 2 bs)) in Frame (2 + 4) len (2 + 4 + len)
            else Incomplete)
         else Frame 2 len (2 + len))
      else Incomplete)"

text \<open>\<open>consumed += 4 + len\<close> adds in \<open>uint32_t\<close> before it widens.\<close>

definition uint32_header :: "bool \<Rightarrow> byte_order \<Rightarrow> header_parser" where
  "uint32_header little bo bs =
     (if 4 \<le> length bs
      then let len = convertFrom little bo 4 (mem_load little (take 4 bs))
           in Frame 4 len ((4 + len) mod 2 ^ 32)
      else Incomplete)"

text \<open>
  The loop of \<open>dataReceived\<close>: the new value of \<open>consumed\<close>, whether \<open>messageReceived\<close> threw, and
  the subclass state. \<open>None\<close> is a loop that is still running after \<open>fuel\<close> rounds.
\<close>

fun recv_loop ::
  "header_parser \<Rightarrow> 'u handler \<Rightarrow> nat \<Rightarrow> bytes \<Rightarrow> nat \<Rightarrow> 'u \<Rightarrow> (nat \<times> bool \<times> 'u) option" where
  "recv_loop hdr h 0 buf consumed u = None"
| "recv_loop hdr h (Suc fuel) buf consumed u =
     (case hdr (drop consumed buf) of
        Incomplete \<Rightarrow> Some (consumed, False, u)
      | Frame off len stp \<Rightarrow>
          (if consumed + off + len \<le> length buf then
             (case h (take len (drop (consumed + off) buf)) u of
                (Inr _, u') \<Rightarrow> recv_loop hdr h fuel buf (consumed + stp) u'
              | (Inl _, u') \<Rightarrow> Some (consumed + stp, True, u'))
           else Some (consumed, False, u)))"

definition recv_data ::
  "header_parser \<Rightarrow> 'u handler \<Rightarrow> nat \<Rightarrow> bytes \<Rightarrow> 'u receiver \<Rightarrow> 'u receiver option" where
  "recv_data hdr h fuel data r =
     (let stashed = rc_unprocessed r \<noteq> [];
          buf = (if stashed then rc_unprocessed r @ data else data)
      in case recv_loop hdr h fuel buf 0 (rc_user r) of
           None \<Rightarrow> None
         | Some (consumed, threw, u) \<Rightarrow>
             Some (r\<lparr> rc_lost := rc_lost r \<or> threw, rc_user := u,
                      rc_unprocessed :=
                        (if stashed
                         then (if consumed < length buf then drop consumed buf else [])
                         else (if consumed < length buf then rc_unprocessed r @ drop consumed buf
                               else rc_unprocessed r)) \<rparr>))"

definition uint8_dataReceived where
  "uint8_dataReceived h fuel data r = recv_data uint8_header h fuel data r"

definition uint8_ext_dataReceived where
  "uint8_ext_dataReceived little bo h fuel data r = recv_data (uint8_ext_header little bo) h fuel data r"

definition uint16_dataReceived where
  "uint16_dataReceived little bo h fuel data r = recv_data (uint16_header little bo) h fuel data r"

definition uint16_ext_dataReceived where
  "uint16_ext_dataReceived little bo h fuel data r = recv_data (uint16_ext_header little bo) h fuel data r"

definition uint32_dataReceived where
  "uint32_dataReceived little bo h fuel data r = recv_data (uint32_header little bo) h fuel data r"

section \<open>The senders\<close>

text \<open>\<open>sendMessage\<close>: the bytes handed to \<open>write\<close>, or the exception.\<close>

definition uint8_sendMessage :: "bytes \<Rightarrow> recv_exn + bytes" where
  "uint8_sendMessage data =
     (if length data > 0xff then Inl LengthLimitExceededError
      else Inr (word_of_nat (length data) # data))"

definition uint8_ext_sendMessage :: "bool \<Rightarrow> byte_order \<Rightarrow> bytes \<Rightarrow> bytes" where
  "uint8_ext_sendMessage little bo data =
     (if length data \<ge> 0xff
      then 0xff # mem_store little 4 (convertTo little bo 4 (length data mod 2 ^ 32))
      else [word_of_nat (length data)]) @ data"

definition uint16_sendMessage :: "bool \<Rightarrow> byte_order \<Rightarrow> bytes \<Rightarrow> recv_exn + bytes" where
  "uint16_sendMessage little bo data =
     (if length data > 0xffff then Inl LengthLimitExceededError
      else Inr (mem_store little 2 (convertTo little bo 2 (length data)) @ data))"

definition uint16_ext_sendMessage :: "bool \<Rightarrow> byte_order \<Rightarrow> bytes \<Rightarrow> bytes" where
  "uint16_ext_sendMessage little bo data =
     (if length data \<ge> 0xffff
      then [0xff, 0xff] @ mem_store little 4 (convertTo little bo 4 (length data mod 2 ^ 32))
      else mem_store little 2 (convertTo little bo 2 (length data))) @ data"

definition uint32_sendMessage :: "bool \<Rightarrow> byte_order \<Rightarrow> bytes \<Rightarrow> recv_exn + bytes" where
  "uint32_sendMessage little bo data =
     (if length data > 0xffffffff then Inl LengthLimitExceededError
      else Inr (mem_store little 4 (convertTo little bo 4 (length data)) @ data))"

section \<open>Byte order\<close>

lemma le_encode_be_decode: "le_encode (length bs) (be_decode bs) = rev bs"
  by (simp add: le_encode_def be_encode_decode)

lemma be_decode_mod: "be_decode (be_encode k (v mod 256 ^ k)) = v mod 256 ^ k"
  by (simp add: be_decode_encode_mod)

lemma swap_bytes_less: "swap_bytes k v < 256 ^ k"
  using be_decode_less [of "le_encode k v"] by (simp add: swap_bytes_def)

lemma le_encode_swap_bytes: "le_encode k (swap_bytes k v) = be_encode k v"
  using le_encode_be_decode [of "le_encode k v"] by (simp add: swap_bytes_def) (simp add: le_encode_def)

lemma be_encode_swap_bytes: "be_encode k (swap_bytes k v) = le_encode k v"
  using le_encode_swap_bytes [of k v] by (simp add: le_encode_def rev_swap)

lemma swap_bytes_twice: "v < 256 ^ k \<Longrightarrow> swap_bytes k (swap_bytes k v) = v"
  by (subst swap_bytes_def) (simp add: le_encode_swap_bytes be_decode_encode)

lemma convert_roundtrip: "v < 256 ^ k \<Longrightarrow> convertFrom little bo k (convertTo little bo k v) = v"
  by (simp add: convertFrom_def convertTo_def native_to_big_def native_to_little_def swap_bytes_twice
      split: byte_order.split)

lemma convertTo_less: "v < 256 ^ k \<Longrightarrow> convertTo little bo k v < 256 ^ k"
  by (simp add: convertTo_def native_to_big_def native_to_little_def swap_bytes_less split: byte_order.split)

lemma length_mem_store [simp]: "length (mem_store little k v) = k"
  by (simp add: mem_store_def)

lemma mem_load_store: "v < 256 ^ k \<Longrightarrow> mem_load little (mem_store little k v) = v"
  by (simp add: mem_load_def mem_store_def be_decode_encode le_decode_encode)

lemma mem_load_less: "mem_load little bs < 256 ^ length bs"
  by (simp add: mem_load_def be_decode_less le_decode_less)

lemma mem_store_network: "mem_store little k (convertTo little ByteOrderNetwork k v) = be_encode k v"
  by (simp add: mem_store_def convertTo_def native_to_big_def le_encode_swap_bytes)

lemma mem_store_little_endian:
  "mem_store little k (convertTo little ByteOrderLittleEndian k v) = le_encode k v"
  by (simp add: mem_store_def convertTo_def native_to_little_def be_encode_swap_bytes)

lemma wire_roundtrip:
  "v < 256 ^ k \<Longrightarrow>
   convertFrom little bo k (mem_load little (mem_store little k (convertTo little bo k v))) = v"
  by (simp add: mem_load_store convertTo_less convert_roundtrip)

section \<open>The interface of the header parsers\<close>

text \<open>The reference: the complete frames of a buffer and what is left.\<close>

fun frames :: "header_parser \<Rightarrow> nat \<Rightarrow> bytes \<Rightarrow> bytes list \<times> bytes" where
  "frames hdr 0 buf = ([], buf)"
| "frames hdr (Suc fuel) buf =
     (case hdr buf of
        Incomplete \<Rightarrow> ([], buf)
      | Frame off len stp \<Rightarrow>
          (if off + len \<le> length buf
           then (take len (drop off buf) # fst (frames hdr fuel (drop (off + len) buf)),
                 snd (frames hdr fuel (drop (off + len) buf)))
           else ([], buf)))"

definition all_frames :: "header_parser \<Rightarrow> bytes \<Rightarrow> bytes list \<times> bytes" where
  "all_frames hdr buf = frames hdr (length buf) buf"

definition deliver :: "'u handler \<Rightarrow> bytes list \<Rightarrow> 'u \<Rightarrow> 'u" where
  "deliver h ms u = foldl (\<lambda>u m. snd (h m u)) u ms"

definition never_throws :: "'u handler \<Rightarrow> bool" where
  "never_throws h \<longleftrightarrow> (\<forall>m u. \<not> isl (fst (h m u)))"

lemma deliver_simps [simp]:
  "deliver h [] u = u" "deliver h (m # ms) u = deliver h ms (snd (h m u))"
  "deliver h (ms @ ms') u = deliver h ms' (deliver h ms u)"
  by (simp_all add: deliver_def)

locale framing =
  fixes hdr :: header_parser
  assumes hdr_offset: "hdr bs = Frame off len stp \<Longrightarrow> 0 < off \<and> off \<le> length bs"
    and hdr_stp: "hdr bs = Frame off len stp \<Longrightarrow> off + len < 2 ^ 32 \<Longrightarrow> stp = off + len"
    and hdr_stable: "hdr bs = Frame off len stp \<Longrightarrow> hdr (bs @ ys) = Frame off len stp"
begin

lemma frames_enough: "length buf \<le> fuel \<Longrightarrow> frames hdr fuel buf = all_frames hdr buf"
  unfolding all_frames_def
proof (induction fuel arbitrary: buf rule: less_induct)
  case (less fuel)
  show ?case
  proof (cases "hdr buf")
    case Incomplete
    then show ?thesis by (cases fuel; cases "length buf") auto
  next
    case (Frame off len stp)
    then have off: "0 < off" "off \<le> length buf" using hdr_offset by auto
    obtain f where f: "fuel = Suc f" using off less.prems by (cases fuel) auto
    obtain n where n: "length buf = Suc n" using off by (cases "length buf") auto
    have "frames hdr f (drop (off + len) buf) = frames hdr n (drop (off + len) buf)"
    proof -
      have "frames hdr f (drop (off + len) buf)
          = frames hdr (length (drop (off + len) buf)) (drop (off + len) buf)"
        using f n off less.prems by (intro less.IH) auto
      also have "\<dots> = frames hdr n (drop (off + len) buf)"
        using f n off less.prems by (intro less.IH [symmetric]) auto
      finally show ?thesis .
    qed
    then show ?thesis using Frame f n by simp
  qed
qed

lemma all_frames_Incomplete: "hdr buf = Incomplete \<Longrightarrow> all_frames hdr buf = ([], buf)"
  by (cases "length buf") (simp_all add: all_frames_def)

lemma all_frames_partial:
  "hdr buf = Frame off len stp \<Longrightarrow> length buf < off + len \<Longrightarrow> all_frames hdr buf = ([], buf)"
  by (cases "length buf") (simp_all add: all_frames_def)

lemma all_frames_Frame:
  assumes "hdr buf = Frame off len stp" and "off + len \<le> length buf"
  shows "all_frames hdr buf =
    (take len (drop off buf) # fst (all_frames hdr (drop (off + len) buf)),
     snd (all_frames hdr (drop (off + len) buf)))"
proof -
  have "0 < off" using hdr_offset assms(1) by blast
  then obtain n where n: "length buf = Suc n" using assms(2) by (cases "length buf") auto
  have "frames hdr n (drop (off + len) buf) = all_frames hdr (drop (off + len) buf)"
    using n \<open>0 < off\<close> by (intro frames_enough) auto
  with n assms show ?thesis by (simp add: all_frames_def [of hdr buf])
qed

lemma all_frames_append:
  "all_frames hdr (a @ b) =
    (fst (all_frames hdr a) @ fst (all_frames hdr (snd (all_frames hdr a) @ b)),
     snd (all_frames hdr (snd (all_frames hdr a) @ b)))"
proof (induction "length a" arbitrary: a rule: less_induct)
  case less
  show ?case
  proof (cases "hdr a")
    case Incomplete
    then show ?thesis by (simp add: all_frames_Incomplete)
  next
    case (Frame off len stp)
    note fr = hdr_stable [OF Frame, of b]
    show ?thesis
    proof (cases "off + len \<le> length a")
      case True
      have "length (drop (off + len) a) < length a"
        using True hdr_offset [OF Frame] by simp
      from less.hyps [OF this] show ?thesis
        using True by (simp add: all_frames_Frame [OF fr] all_frames_Frame [OF Frame])
    next
      case False
      then show ?thesis by (simp add: all_frames_partial [OF Frame])
    qed
  qed
qed

lemma all_frames_rest_suffix: "\<exists>k \<le> length buf. snd (all_frames hdr buf) = drop k buf"
proof (induction "length buf" arbitrary: buf rule: less_induct)
  case less
  show ?case
  proof (cases "hdr buf")
    case Incomplete
    then show ?thesis by (intro exI [of _ 0]) (simp add: all_frames_Incomplete)
  next
    case (Frame off len stp)
    show ?thesis
    proof (cases "off + len \<le> length buf")
      case True
      have "length (drop (off + len) buf) < length buf"
        using True hdr_offset [OF Frame] by simp
      from less.hyps [OF this] obtain k where
        "k \<le> length buf - (off + len)" "snd (all_frames hdr (drop (off + len) buf)) = drop k (drop (off + len) buf)"
        by auto
      with True show ?thesis
        by (intro exI [of _ "k + (off + len)"]) (simp add: all_frames_Frame [OF Frame])
    next
      case False
      then show ?thesis by (intro exI [of _ 0]) (simp add: all_frames_partial [OF Frame])
    qed
  qed
qed

text \<open>The loop over a buffer below 4 GiB ends, whatever \<open>messageReceived\<close> does.\<close>

lemma recv_loop_total:
  "length buf < 2 ^ 32 \<Longrightarrow> c \<le> length buf \<Longrightarrow> length buf - c < fuel \<Longrightarrow>
   \<exists>c' threw u'. recv_loop hdr h fuel buf c u = Some (c', threw, u') \<and> c \<le> c' \<and> c' \<le> length buf"
proof (induction fuel arbitrary: c u)
  case (Suc fuel)
  show ?case
  proof (cases "hdr (drop c buf)")
    case (Frame off len stp)
    show ?thesis
    proof (cases "c + off + len \<le> length buf")
      case True
      then have stp: "stp = off + len" using hdr_stp [OF Frame] Suc.prems(1) by simp
      have off: "0 < off" using hdr_offset [OF Frame] by simp
      obtain r u' where h: "h (take len (drop (c + off) buf)) u = (r, u')" by fastforce
      show ?thesis
      proof (cases r)
        case (Inl e)
        then show ?thesis using Frame True h stp by (auto simp: add.commute)
      next
        case (Inr x)
        have "\<exists>c' threw u''. recv_loop hdr h fuel buf (c + stp) u' = Some (c', threw, u'')
          \<and> c + stp \<le> c' \<and> c' \<le> length buf"
          using Suc.prems stp True off by (intro Suc.IH) auto
        then show ?thesis using Frame True h Inr stp by (auto simp: add.commute)
      qed
    next
      case False
      then show ?thesis using Frame Suc.prems by auto
    qed
  qed (use Suc.prems in auto)
qed simp

lemma recv_loop_frames:
  "never_throws h \<Longrightarrow> length buf < 2 ^ 32 \<Longrightarrow> c \<le> length buf \<Longrightarrow> length buf - c < fuel \<Longrightarrow>
   \<exists>c'. recv_loop hdr h fuel buf c u =
      Some (c', False, deliver h (fst (all_frames hdr (drop c buf))) u)
     \<and> c' \<le> length buf \<and> drop c' buf = snd (all_frames hdr (drop c buf))"
proof (induction fuel arbitrary: c u)
  case (Suc fuel)
  show ?case
  proof (cases "hdr (drop c buf)")
    case Incomplete
    then show ?thesis using Suc.prems by (simp add: all_frames_Incomplete)
  next
    case (Frame off len stp)
    show ?thesis
    proof (cases "c + off + len \<le> length buf")
      case True
      then have stp: "stp = off + len" using hdr_stp [OF Frame] Suc.prems(2) by simp
      have off: "0 < off" using hdr_offset [OF Frame] by simp
      let ?m = "take len (drop (c + off) buf)"
      obtain r u' where h: "h ?m u = (r, u')" by fastforce
      then have "\<not> isl r" using Suc.prems(1) unfolding never_throws_def by (metis fst_conv)
      then obtain x where r: "r = Inr x" by (cases r) auto
      have "\<exists>c'. recv_loop hdr h fuel buf (c + stp) u' =
          Some (c', False, deliver h (fst (all_frames hdr (drop (c + stp) buf))) u')
         \<and> c' \<le> length buf \<and> drop c' buf = snd (all_frames hdr (drop (c + stp) buf))"
        using Suc.prems stp True off by (intro Suc.IH) auto
      moreover have "all_frames hdr (drop c buf) =
          (?m # fst (all_frames hdr (drop (c + stp) buf)), snd (all_frames hdr (drop (c + stp) buf)))"
        using all_frames_Frame [OF Frame] True stp by (simp add: add.commute add.left_commute)
      ultimately show ?thesis using Frame True h r by simp
    next
      case False
      then have "all_frames hdr (drop c buf) = ([], drop c buf)"
        using Suc.prems by (intro all_frames_partial [OF Frame]) simp
      then show ?thesis using Frame False Suc.prems by simp
    qed
  qed
qed simp

lemma recv_data_frames:
  assumes "never_throws h" and "length (rc_unprocessed r @ data) < 2 ^ 32"
    and "length (rc_unprocessed r @ data) < fuel"
  shows "recv_data hdr h fuel data r =
    Some (r\<lparr> rc_user := deliver h (fst (all_frames hdr (rc_unprocessed r @ data))) (rc_user r),
             rc_unprocessed := snd (all_frames hdr (rc_unprocessed r @ data)) \<rparr>)"
proof -
  let ?buf = "rc_unprocessed r @ data"
  obtain c where c: "recv_loop hdr h fuel ?buf 0 (rc_user r) =
      Some (c, False, deliver h (fst (all_frames hdr ?buf)) (rc_user r))"
    "c \<le> length ?buf" "drop c ?buf = snd (all_frames hdr ?buf)"
    using recv_loop_frames [OF assms(1,2), of 0 fuel "rc_user r"] assms(3) by auto
  have "c < length ?buf \<or> snd (all_frames hdr ?buf) = []"
    unfolding c(3) [symmetric] using c(2) by (cases "c < length ?buf") auto
  then show ?thesis
    using c by (cases "rc_unprocessed r = []") (auto simp: recv_data_def Let_def)
qed

lemma recv_data_total:
  assumes "length (rc_unprocessed r @ data) < 2 ^ 32" and "length (rc_unprocessed r @ data) < fuel"
  shows "\<exists>r'. recv_data hdr h fuel data r = Some r'"
proof -
  have "(if rc_unprocessed r \<noteq> [] then rc_unprocessed r @ data else data) = rc_unprocessed r @ data"
    by simp
  then show ?thesis
    using recv_loop_total [OF assms(1), of 0 fuel h "rc_user r"] assms(2)
    by (auto simp: recv_data_def Let_def)
qed

text \<open>Data split over two calls is received like data in one call.\<close>

lemma recv_data_split:
  assumes "never_throws h" and "length (rc_unprocessed r @ a @ b) < 2 ^ 32"
    and "length (rc_unprocessed r @ a @ b) < fuel"
  shows "Option.bind (recv_data hdr h fuel a r) (recv_data hdr h fuel b) = recv_data hdr h fuel (a @ b) r"
proof -
  let ?r = "snd (all_frames hdr (rc_unprocessed r @ a))"
  have "length ?r \<le> length (rc_unprocessed r @ a)"
    using all_frames_rest_suffix [of "rc_unprocessed r @ a"] by auto
  then show ?thesis
    using assms all_frames_append [of "rc_unprocessed r @ a" b]
    by (simp add: recv_data_frames)
qed

end

section \<open>The five header parsers\<close>

lemma mem_load_less2: "length bs = 2 \<Longrightarrow> mem_load little bs < 65536"
  using mem_load_less [of little bs] by simp

lemma convertFrom_less: "v < 256 ^ k \<Longrightarrow> convertFrom little bo k v < 256 ^ k"
  by (simp add: convertFrom_def native_to_big_def native_to_little_def swap_bytes_less split: byte_order.split)

interpretation u8: framing uint8_header
  by unfold_locales (auto simp: uint8_header_def nth_append Let_def split: if_splits)

interpretation u8x: framing "uint8_ext_header little bo" for little bo
  by unfold_locales (auto simp: uint8_ext_header_def nth_append Let_def take_append drop_append split: if_splits)

interpretation u16: framing "uint16_header little bo" for little bo
  by unfold_locales (auto simp: uint16_header_def Let_def split: if_splits)

interpretation u16x: framing "uint16_ext_header little bo" for little bo
  by unfold_locales (auto simp: uint16_ext_header_def Let_def split: if_splits)

interpretation u32: framing "uint32_header little bo" for little bo
  by unfold_locales (auto simp: uint32_header_def Let_def split: if_splits)

section \<open>What is sent is what is received\<close>

text \<open>A sender writes one complete frame: the parser finds exactly its payload.\<close>

definition writes_frame :: "header_parser \<Rightarrow> bytes \<Rightarrow> bytes \<Rightarrow> bool" where
  "writes_frame hdr data wire \<longleftrightarrow>
     (\<exists>off stp. hdr wire = Frame off (length data) stp \<and> drop off wire = data \<and> off \<le> length wire)"

context framing begin

lemma frames_of_wire:
  assumes "writes_frame hdr data wire"
  shows "all_frames hdr (wire @ rest) = (data # fst (all_frames hdr rest), snd (all_frames hdr rest))"
proof -
  obtain off stp where fr: "hdr wire = Frame off (length data) stp" and d: "drop off wire = data"
    "off \<le> length wire" using assms by (auto simp: writes_frame_def)
  then have len: "length wire = off + length data" by auto
  have "all_frames hdr wire = ([data], [])"
    using all_frames_Frame [OF fr] len d by (simp add: all_frames_def [of hdr "[]"])
  then show ?thesis using all_frames_append [of wire rest] by simp
qed

lemma frames_of_wires:
  "list_all2 (writes_frame hdr) ms wires \<Longrightarrow> all_frames hdr (concat wires) = (ms, [])"
  by (induction rule: list_all2_induct) (simp_all add: frames_of_wire all_frames_def [of hdr "[]"])

end

lemma uint8_writes: "uint8_sendMessage data = Inr w \<Longrightarrow> writes_frame uint8_header data w"
  by (auto simp: uint8_sendMessage_def writes_frame_def uint8_header_def Let_def split: if_splits
      intro!: exI [of _ 1])

lemma uint16_writes:
  "uint16_sendMessage little bo data = Inr w \<Longrightarrow> writes_frame (uint16_header little bo) data w"
  using wire_roundtrip [of "length data" 2 little bo]
  by (auto simp: uint16_sendMessage_def writes_frame_def uint16_header_def Let_def split: if_splits)

lemma uint32_writes:
  "uint32_sendMessage little bo data = Inr w \<Longrightarrow> writes_frame (uint32_header little bo) data w"
  using wire_roundtrip [of "length data" 4 little bo]
  by (auto simp: uint32_sendMessage_def writes_frame_def uint32_header_def Let_def split: if_splits)

text \<open>The extended receivers do not convert the long length: only the host's own order works.\<close>

definition host_order :: "bool \<Rightarrow> byte_order \<Rightarrow> bool" where
  "host_order little bo \<longleftrightarrow> bo = ByteOrderNative \<or>
     bo = (if little then ByteOrderLittleEndian else ByteOrderBigEndian) \<or>
     (\<not> little \<and> bo = ByteOrderNetwork)"

lemma convertTo_host: "host_order little bo \<Longrightarrow> convertTo little bo k v = v"
  by (auto simp: host_order_def convertTo_def native_to_big_def native_to_little_def split: if_splits)

lemma uint8_ext_writes:
  assumes "length data < 0xff \<or> (host_order little bo \<and> length data < 2 ^ 32)"
  shows "writes_frame (uint8_ext_header little bo) data (uint8_ext_sendMessage little bo data)"
proof (cases "length data < 0xff")
  case True
  then show ?thesis
    by (auto simp: uint8_ext_sendMessage_def writes_frame_def uint8_ext_header_def Let_def)
next
  case False
  then show ?thesis
    using assms mem_load_store [of "length data" 4 little]
    by (auto simp: uint8_ext_sendMessage_def writes_frame_def uint8_ext_header_def Let_def convertTo_host)
qed

lemma uint16_ext_writes:
  assumes "length data < 0xffff \<or> (host_order little bo \<and> length data < 2 ^ 32)"
  shows "writes_frame (uint16_ext_header little bo) data (uint16_ext_sendMessage little bo data)"
proof (cases "length data < 0xffff")
  case True
  then show ?thesis using wire_roundtrip [of "length data" 2 little bo]
    by (auto simp: uint16_ext_sendMessage_def writes_frame_def uint16_ext_header_def Let_def)
next
  case False
  have m: "mem_load little [0xff, 0xff] = 0xffff"
    by (simp add: mem_load_def le_decode_def be_decode_def)
  have c: "convertFrom little bo 2 0xffff = 0xffff"
    using False assms
    by (auto simp: host_order_def convertFrom_def native_to_big_def native_to_little_def split: if_splits)
  have ml: "mem_load little (mem_store little 4 (length data)) = length data"
    using False assms by (intro mem_load_store) auto
  show ?thesis
    using False assms ml m c
    by (auto simp: uint16_ext_sendMessage_def writes_frame_def uint16_ext_header_def Let_def convertTo_host
        numeral_2_eq_2)
qed

section \<open>Properties\<close>

text \<open>A handler that collects the messages; it serves the concrete instances below.\<close>

definition collect :: "bytes list handler" where
  "collect m u = (Inr (), u @ [m])"

lemma collect_never_throws: "never_throws collect"
  by (simp add: never_throws_def collect_def)

lemma deliver_collect [simp]: "deliver collect ms u = u @ ms"
  by (induction ms arbitrary: u) (simp_all add: collect_def)

text \<open>How the stream is cut into calls of \<open>dataReceived\<close> does not matter.\<close>

lemma receiver_chunk_invariance:
  assumes "never_throws h" and "length (rc_unprocessed r @ a @ b) < 2 ^ 32"
    and "length (rc_unprocessed r @ a @ b) < fuel"
  shows "Option.bind (uint8_dataReceived h fuel a r) (uint8_dataReceived h fuel b)
      = uint8_dataReceived h fuel (a @ b) r
    \<and> Option.bind (uint8_ext_dataReceived little bo h fuel a r) (uint8_ext_dataReceived little bo h fuel b)
      = uint8_ext_dataReceived little bo h fuel (a @ b) r
    \<and> Option.bind (uint16_dataReceived little bo h fuel a r) (uint16_dataReceived little bo h fuel b)
      = uint16_dataReceived little bo h fuel (a @ b) r
    \<and> Option.bind (uint16_ext_dataReceived little bo h fuel a r) (uint16_ext_dataReceived little bo h fuel b)
      = uint16_ext_dataReceived little bo h fuel (a @ b) r
    \<and> Option.bind (uint32_dataReceived little bo h fuel a r) (uint32_dataReceived little bo h fuel b)
      = uint32_dataReceived little bo h fuel (a @ b) r"
  using u8.recv_data_split [OF assms] u8x.recv_data_split [OF assms] u16.recv_data_split [OF assms]
    u16x.recv_data_split [OF assms] u32.recv_data_split [OF assms]
  by (simp add: uint8_dataReceived_def [abs_def] uint8_ext_dataReceived_def [abs_def]
      uint16_dataReceived_def [abs_def] uint16_ext_dataReceived_def [abs_def] uint32_dataReceived_def [abs_def])

lemma receiver_chunk_invariance_witness:
  "Option.bind (uint8_dataReceived collect 10 [2, 7] \<lparr> rc_unprocessed = [], rc_lost = False, rc_user = [] \<rparr>)
     (uint8_dataReceived collect 10 [8, 1]) = uint8_dataReceived collect 10 [2, 7, 8, 1]
     \<lparr> rc_unprocessed = [], rc_lost = False, rc_user = [] \<rparr>"
  using receiver_chunk_invariance [of collect "\<lparr> rc_unprocessed = [], rc_lost = False, rc_user = [] \<rparr>"
      "[2, 7]" "[8, 1]" 10 True ByteOrderNetwork]
  by (simp add: collect_never_throws)

text \<open>C35: whatever \<open>messageReceived\<close> does, the loop over less than 4 GiB ends.\<close>

theorem receiver_terminates:
  assumes "length (rc_unprocessed r @ data) < 2 ^ 32" and "length (rc_unprocessed r @ data) < fuel"
  shows "(\<exists>r'. uint8_dataReceived h fuel data r = Some r')
    \<and> (\<exists>r'. uint8_ext_dataReceived little bo h fuel data r = Some r')
    \<and> (\<exists>r'. uint16_dataReceived little bo h fuel data r = Some r')
    \<and> (\<exists>r'. uint16_ext_dataReceived little bo h fuel data r = Some r')
    \<and> (\<exists>r'. uint32_dataReceived little bo h fuel data r = Some r')"
  using u8.recv_data_total [OF assms, of h] u8x.recv_data_total [OF assms, of _ _ h]
    u16.recv_data_total [OF assms, of _ _ h] u16x.recv_data_total [OF assms, of _ _ h]
    u32.recv_data_total [OF assms, of _ _ h]
  by (simp add: uint8_dataReceived_def uint8_ext_dataReceived_def uint16_dataReceived_def
      uint16_ext_dataReceived_def uint32_dataReceived_def)

lemma receiver_terminates_witness:
  "\<exists>r'. uint32_dataReceived True ByteOrderNetwork collect 5 [0, 0, 0, 9]
     \<lparr> rc_unprocessed = [], rc_lost = False, rc_user = [] \<rparr> = Some r'"
  using receiver_terminates [of "\<lparr> rc_unprocessed = [], rc_lost = False, rc_user = [] \<rparr>" "[0, 0, 0, 9]" 5
      collect True ByteOrderNetwork] by simp

definition idle :: "'u receiver \<Rightarrow> bool" where
  "idle r \<longleftrightarrow> rc_unprocessed r = []"

lemma recv_of_wires:
  assumes "framing hdr" and "list_all2 (writes_frame hdr) ms ws" and "never_throws h" and "idle r"
    and "length (concat ws) < 2 ^ 32" and "length (concat ws) < fuel"
  shows "recv_data hdr h fuel (concat ws) r = Some (r\<lparr> rc_user := deliver h ms (rc_user r) \<rparr>)"
  using framing.recv_data_frames [OF assms(1,3), of r "concat ws" fuel]
    framing.frames_of_wires [OF assms(1,2)] assms(4-6)
  by (simp add: idle_def)

text \<open>
  C32: the messages sent are the messages received, in order, with nothing left over. The octets of all of
  them reach the peer in one call of \<open>dataReceived\<close>, whose buffer was empty, and are fewer than \<open>2^32\<close>
  headers included, \<open>messageReceived\<close> does not throw, and the extended protocols run in host byte order.
  (Cuts into several calls are covered by \<open>receiver_chunk_invariance\<close>. The bound is needed:
  \<open>uint32_never_returns\<close>.)
\<close>

theorem sent_is_received:
  assumes "never_throws h" and "idle r" and "length (concat ws) < 2 ^ 32" and "length (concat ws) < fuel"
  shows "(list_all2 (\<lambda>m w. uint8_sendMessage m = Inr w) ms ws \<longrightarrow>
        uint8_dataReceived h fuel (concat ws) r = Some (r\<lparr> rc_user := deliver h ms (rc_user r) \<rparr>))
    \<and> (list_all2 (\<lambda>m w. uint16_sendMessage little bo m = Inr w) ms ws \<longrightarrow>
        uint16_dataReceived little bo h fuel (concat ws) r = Some (r\<lparr> rc_user := deliver h ms (rc_user r) \<rparr>))
    \<and> (list_all2 (\<lambda>m w. uint32_sendMessage little bo m = Inr w) ms ws \<longrightarrow>
        uint32_dataReceived little bo h fuel (concat ws) r = Some (r\<lparr> rc_user := deliver h ms (rc_user r) \<rparr>))
    \<and> (host_order little bo \<longrightarrow> list_all2 (\<lambda>m w. length m < 2 ^ 32 \<and> uint8_ext_sendMessage little bo m = w) ms ws \<longrightarrow>
        uint8_ext_dataReceived little bo h fuel (concat ws) r = Some (r\<lparr> rc_user := deliver h ms (rc_user r) \<rparr>))
    \<and> (host_order little bo \<longrightarrow> list_all2 (\<lambda>m w. length m < 2 ^ 32 \<and> uint16_ext_sendMessage little bo m = w) ms ws \<longrightarrow>
        uint16_ext_dataReceived little bo h fuel (concat ws) r = Some (r\<lparr> rc_user := deliver h ms (rc_user r) \<rparr>))"
proof (intro conjI impI)
  note recv = recv_of_wires [OF _ _ assms]
  show "uint8_dataReceived h fuel (concat ws) r = Some (r\<lparr> rc_user := deliver h ms (rc_user r) \<rparr>)"
    if "list_all2 (\<lambda>m w. uint8_sendMessage m = Inr w) ms ws"
    unfolding uint8_dataReceived_def
    by (rule recv [OF u8.framing_axioms]) (use that in \<open>auto elim: list_all2_mono intro: uint8_writes\<close>)
  show "uint16_dataReceived little bo h fuel (concat ws) r = Some (r\<lparr> rc_user := deliver h ms (rc_user r) \<rparr>)"
    if "list_all2 (\<lambda>m w. uint16_sendMessage little bo m = Inr w) ms ws"
    unfolding uint16_dataReceived_def
    by (rule recv [OF u16.framing_axioms]) (use that in \<open>auto elim: list_all2_mono intro: uint16_writes\<close>)
  show "uint32_dataReceived little bo h fuel (concat ws) r = Some (r\<lparr> rc_user := deliver h ms (rc_user r) \<rparr>)"
    if "list_all2 (\<lambda>m w. uint32_sendMessage little bo m = Inr w) ms ws"
    unfolding uint32_dataReceived_def
    by (rule recv [OF u32.framing_axioms]) (use that in \<open>auto elim: list_all2_mono intro: uint32_writes\<close>)
  show "uint8_ext_dataReceived little bo h fuel (concat ws) r = Some (r\<lparr> rc_user := deliver h ms (rc_user r) \<rparr>)"
    if "host_order little bo"
      "list_all2 (\<lambda>m w. length m < 2 ^ 32 \<and> uint8_ext_sendMessage little bo m = w) ms ws"
    unfolding uint8_ext_dataReceived_def
    by (rule recv [OF u8x.framing_axioms])
       (use that in \<open>auto elim!: list_all2_mono intro!: uint8_ext_writes\<close>)
  show "uint16_ext_dataReceived little bo h fuel (concat ws) r = Some (r\<lparr> rc_user := deliver h ms (rc_user r) \<rparr>)"
    if "host_order little bo"
      "list_all2 (\<lambda>m w. length m < 2 ^ 32 \<and> uint16_ext_sendMessage little bo m = w) ms ws"
    unfolding uint16_ext_dataReceived_def
    by (rule recv [OF u16x.framing_axioms])
       (use that in \<open>auto elim!: list_all2_mono intro!: uint16_ext_writes\<close>)
qed

lemma sent_is_received_witness:
  "uint16_dataReceived True ByteOrderNetwork collect 20 (concat [[0, 2, 65, 66], [0, 0]])
     \<lparr> rc_unprocessed = [], rc_lost = False, rc_user = [] \<rparr>
   = Some \<lparr> rc_unprocessed = [], rc_lost = False, rc_user = [[65, 66], []] \<rparr>"
  using sent_is_received [of collect "\<lparr> rc_unprocessed = [], rc_lost = False, rc_user = [] \<rparr>"
      "[[0, 2, 65, 66], [0, 0]]" 20 "[[65, 66], []]" True ByteOrderNetwork]
  by (simp add: collect_never_throws idle_def uint16_sendMessage_def mem_store_network be_encode_2 collect_def)

text \<open>
  On a little-endian host with network byte order, a 256-byte message sent by
  \<open>UInt8ExtReceiver\<close> is announced in big-endian order but read back in host order: the peer
  waits for 65536 bytes and delivers nothing.
\<close>

lemma uint8_ext_network_order_lost:
  "uint8_ext_header True ByteOrderNetwork (uint8_ext_sendMessage True ByteOrderNetwork (replicate 256 b))
     = Frame 5 65536 65541
   \<and> all_frames (uint8_ext_header True ByteOrderNetwork)
       (uint8_ext_sendMessage True ByteOrderNetwork (replicate 256 b))
     = ([], uint8_ext_sendMessage True ByteOrderNetwork (replicate 256 b))"
proof -
  have w: "uint8_ext_sendMessage True ByteOrderNetwork (replicate 256 b) = [0xff, 0, 0, 1, 0] @ replicate 256 b"
    by (simp add: uint8_ext_sendMessage_def mem_store_network be_encode_4)
  have h: "uint8_ext_header True ByteOrderNetwork ([0xff, 0, 0, 1, 0] @ replicate 256 b) = Frame 5 65536 65541"
    by (simp add: uint8_ext_header_def mem_load_def le_decode_def be_decode_def)
  show ?thesis unfolding w using h by (auto intro: u8x.all_frames_partial)
qed

text \<open>
  \<open>UInt32Receiver\<close> adds the length of the header to that of the message in 32 bits: a message of
  \<open>2^32 - 4\<close> octets, which \<open>sendMessage\<close> accepts, does not move \<open>consumed\<close>, and is delivered again and again.
\<close>

lemma uint32_never_returns:
  assumes "uint32_sendMessage little bo m = Inr w" "length m = 2 ^ 32 - 4" "never_throws h" "idle r"
  shows "uint32_dataReceived little bo h fuel w r = None"
proof -
  have w: "w = mem_store little 4 (convertTo little bo 4 (length m)) @ m"
    using assms(1) by (simp add: uint32_sendMessage_def split: if_splits)
  then have len: "length w = 4 + length m" and header: "uint32_header little bo w = Frame 4 (length m) 0"
    using wire_roundtrip [of "length m" 4 little bo] assms(2) by (simp_all add: uint32_header_def Let_def)
  have "recv_loop (uint32_header little bo) h n w 0 u = None" for n u
  proof (induction n arbitrary: u)
    case (Suc n)
    obtain x u' where h: "h (take (length m) (drop 4 w)) u = (x, u')" by fastforce
    then have "\<not> isl x" using assms(3) unfolding never_throws_def by (metis fst_conv)
    then obtain y where "x = Inr y" by (cases x) auto
    then show ?case using h header len Suc.IH by simp
  qed simp
  then show ?thesis
    using assms(4) by (simp add: uint32_dataReceived_def recv_data_def idle_def)
qed

end
