(* ===== verification/Xor_Masker.thy ===== *)
theory Xor_Masker
  imports Net_Prelude
begin

text \<open>
  \<open>plugins/websocket/xormasker.h\<close> and \<open>xormasker.cpp\<close>: the three frame maskers. The loop
  counters of \<open>process\<close> become list recursion; the stream position \<open>_ptr\<close> is a \<open>64 word\<close>
  and wraps. The interface \<open>XorMasker\<close> is the locale \<open>masker\<close>: what the frame code relies
  on is that masking a message chunk by chunk is masking it at once, and that masking
  keeps the length. Each class of the source is an interpretation.
\<close>

unbundle bit_operations_syntax

type_synonym ws_mask = "byte list"

section \<open>The classes\<close>

datatype xor_masker =
    XorMaskerNull "64 word"
  | XorMaskerSimple "64 word" ws_mask
  | XorMaskerShifted1 "64 word" "ws_mask list"

definition shifted1_array :: "ws_mask \<Rightarrow> ws_mask list" where
  "shifted1_array msk =
     map (\<lambda>i. map (\<lambda>j. msk ! ((j + i) mod 4)) [0..<length msk]) [0..<4]"

definition createXorMasker :: "ws_mask \<Rightarrow> 64 word \<Rightarrow> xor_masker" where
  "createXorMasker msk len =
     (if len < 128 then XorMaskerSimple 0 msk else XorMaskerShifted1 0 (shifted1_array msk))"

definition null_process :: "64 word \<Rightarrow> bytes \<Rightarrow> bytes \<times> 64 word" where
  "null_process ptr data = (data, ptr + word_of_nat (length data))"

fun simple_process :: "ws_mask \<Rightarrow> 64 word \<Rightarrow> bytes \<Rightarrow> bytes \<times> 64 word" where
  "simple_process msk ptr [] = ([], ptr)"
| "simple_process msk ptr (b # data) =
     (let (out, ptr') = simple_process msk (ptr + 1) data
      in ((b XOR msk ! unat (ptr AND 3)) # out, ptr'))"

fun xor_cycle :: "ws_mask \<Rightarrow> nat \<Rightarrow> bytes \<Rightarrow> bytes" where
  "xor_cycle msk k [] = []"
| "xor_cycle msk k (b # data) = (b XOR msk ! (k mod 4)) # xor_cycle msk (Suc k) data"

definition shifted1_process :: "ws_mask list \<Rightarrow> 64 word \<Rightarrow> bytes \<Rightarrow> bytes \<times> 64 word" where
  "shifted1_process arr ptr data =
     (xor_cycle (arr ! unat (ptr AND 3)) 0 data, ptr + word_of_nat (length data))"

fun masker_pointer :: "xor_masker \<Rightarrow> 64 word" where
  "masker_pointer (XorMaskerNull p) = p"
| "masker_pointer (XorMaskerSimple p _) = p"
| "masker_pointer (XorMaskerShifted1 p _) = p"

fun masker_reset :: "xor_masker \<Rightarrow> xor_masker" where
  "masker_reset (XorMaskerNull _) = XorMaskerNull 0"
| "masker_reset (XorMaskerSimple _ m) = XorMaskerSimple 0 m"
| "masker_reset (XorMaskerShifted1 _ a) = XorMaskerShifted1 0 a"

fun masker_process :: "xor_masker \<Rightarrow> bytes \<Rightarrow> bytes \<times> xor_masker" where
  "masker_process (XorMaskerNull p) data =
     map_prod id XorMaskerNull (null_process p data)"
| "masker_process (XorMaskerSimple p m) data =
     map_prod id (\<lambda>p'. XorMaskerSimple p' m) (simple_process m p data)"
| "masker_process (XorMaskerShifted1 p a) data =
     map_prod id (\<lambda>p'. XorMaskerShifted1 p' a) (shifted1_process a p data)"

section \<open>Both loops are one position-indexed xor\<close>

lemma and_3_eq_mod: "unat (p AND 3 :: 64 word) = unat p mod 4"
proof -
  have "p AND 3 = take_bit 2 p" by (simp add: take_bit_eq_mask mask_eq_exp_minus_1)
  then show ?thesis by (simp only: unsigned_take_bit_eq) (simp add: take_bit_eq_mod)
qed

lemma unat_plus_mod_4: "unat (p + q :: 64 word) mod 4 = (unat p mod 4 + unat q mod 4) mod 4"
  by (simp add: unat_word_ariths mod_mod_cancel mod_add_eq)

lemma unat_word_of_nat_mod_4: "unat (word_of_nat n :: 64 word) mod 4 = n mod 4"
  by (simp add: unat_of_nat mod_mod_cancel)

lemma length_xor_cycle [simp]: "length (xor_cycle msk k data) = length data"
  by (induction data arbitrary: k) auto

lemma mod_Suc_cong: "k mod n = k' mod n \<Longrightarrow> Suc k mod n = Suc k' mod n"
  by (metis mod_Suc_eq)

lemma xor_cycle_cong: "k mod 4 = k' mod 4 \<Longrightarrow> xor_cycle msk k data = xor_cycle msk k' data"
proof (induction data arbitrary: k k')
  case (Cons b data)
  have "Suc k mod 4 = Suc k' mod 4"
    using Cons.prems by (rule mod_Suc_cong)
  from Cons.IH [OF this] show ?case by (simp only: xor_cycle.simps Cons.prems)
qed simp

lemma xor_cycle_append:
  "xor_cycle msk k (xs @ ys) = xor_cycle msk k xs @ xor_cycle msk (k + length xs) ys"
  by (induction xs arbitrary: k) simp_all

lemma xor_cycle_involutive: "xor_cycle msk k (xor_cycle msk k data) = data"
  by (induction data arbitrary: k) (simp_all add: xor.assoc)

lemma nth_xor_cycle:
  "i < length data \<Longrightarrow> xor_cycle msk k data ! i = data ! i XOR msk ! ((k + i) mod 4)"
  by (induction data arbitrary: k i) (auto simp: nth_Cons split: nat.split)

lemma simple_process_eq:
  "simple_process msk p data = (xor_cycle msk (unat p) data, p + word_of_nat (length data))"
proof (induction data arbitrary: p)
  case (Cons b data)
  have "xor_cycle msk (unat (p + 1)) data = xor_cycle msk (Suc (unat p)) data"
    by (rule xor_cycle_cong) (simp add: unat_plus_mod_4 mod_simps)
  then show ?case
    using Cons [of "p + 1"] by (simp add: and_3_eq_mod add.assoc)
qed simp

lemma xor_cycle_rotate:
  assumes "length msk = 4"
  shows "xor_cycle (map (\<lambda>j. msk ! ((j + i) mod 4)) [0..<4]) k data = xor_cycle msk (k + i) data"
proof (induction data arbitrary: k)
  case (Cons b data)
  have "map (\<lambda>j. msk ! ((j + i) mod 4)) [0..<4] ! (k mod 4) = msk ! ((k + i) mod 4)"
    by (simp add: mod_add_left_eq del: upt_rec_numeral)
  with Cons show ?case by (simp del: upt_rec_numeral)
qed simp

lemma shifted1_process_eq:
  assumes "length msk = 4"
  shows "shifted1_process (shifted1_array msk) p data
    = (xor_cycle msk (unat p) data, p + word_of_nat (length data))"
proof -
  have "shifted1_array msk ! (unat p mod 4)
      = map (\<lambda>j. msk ! ((j + unat p mod 4) mod 4)) [0..<4]"
    using assms by (simp add: shifted1_array_def del: upt_rec_numeral)
  moreover have "xor_cycle msk (unat p mod 4) data = xor_cycle msk (unat p) data"
    by (rule xor_cycle_cong) simp
  ultimately show ?thesis
    using xor_cycle_rotate [OF assms, of "unat p mod 4" 0 data]
    by (simp add: shifted1_process_def and_3_eq_mod)
qed

section \<open>The interface of the maskers\<close>

text \<open>
  \<open>ok\<close> is the class invariant; \<open>process\<close> returns the bytes as the buffer holds them afterwards
  and the masker's new state.
\<close>

locale masker =
  fixes ok :: "'m \<Rightarrow> bool" and process :: "'m \<Rightarrow> bytes \<Rightarrow> bytes \<times> 'm"
  assumes process_ok: "ok m \<Longrightarrow> ok (snd (process m xs))"
    and process_length: "ok m \<Longrightarrow> length (fst (process m xs)) = length xs"
    and process_append: "ok m \<Longrightarrow> process m (xs @ ys) =
      (fst (process m xs) @ fst (process (snd (process m xs)) ys),
       snd (process (snd (process m xs)) ys))"
    and process_nil: "ok m \<Longrightarrow> process m [] = ([], m)"
    and process_twice: "ok m \<Longrightarrow> fst (process m (fst (process m xs))) = xs"
begin

primrec process_chunks :: "'m \<Rightarrow> bytes list \<Rightarrow> bytes \<times> 'm" where
  "process_chunks m [] = ([], m)"
| "process_chunks m (c # cs) =
     (let (out, m') = process m c; (outs, m'') = process_chunks m' cs in (out @ outs, m''))"

lemma chunks_concat: "ok m \<Longrightarrow> process_chunks m cs = process m (concat cs)"
  by (induction cs arbitrary: m)
     (simp_all add: process_nil process_append process_ok Let_def split_beta)

lemma chunked_unmask:
  assumes "ok m"
  shows "concat cs = fst (process m data) \<Longrightarrow> fst (process_chunks m cs) = data"
  using assms by (simp add: chunks_concat process_twice)

lemma process_take:
  assumes "ok m"
  shows "fst (process m (take n xs)) = take n (fst (process m xs))"
proof -
  have "fst (process m xs) = fst (process m (take n xs)) @ fst (process (snd (process m (take n xs))) (drop n xs))"
    using process_append [OF assms, of "take n xs" "drop n xs"] by (simp only: append_take_drop_id fst_conv)
  moreover have "length (fst (process m (take n xs))) = min n (length xs)"
    using assms by (simp add: process_length min.commute)
  ultimately show ?thesis
    by (metis append_eq_conv_conj assms length_take min.commute nat_le_linear process_length take_all min.absorb2)
qed

end

fun wf_masker :: "xor_masker \<Rightarrow> bool" where
  "wf_masker (XorMaskerNull _) = True"
| "wf_masker (XorMaskerSimple _ msk) = (length msk = 4)"
| "wf_masker (XorMaskerShifted1 _ arr) = (\<exists>msk. length msk = 4 \<and> arr = shifted1_array msk)"

lemma null_laws:
  "masker (\<lambda>_. True) null_process"
  by unfold_locales (simp_all add: null_process_def algebra_simps)

lemma simple_laws:
  "masker (\<lambda>_. True) (simple_process msk)"
proof
  fix p :: "64 word" and xs ys :: bytes
  show "simple_process msk p (xs @ ys) =
      (fst (simple_process msk p xs) @ fst (simple_process msk (snd (simple_process msk p xs)) ys),
       snd (simple_process msk (snd (simple_process msk p xs)) ys))"
    by (simp add: simple_process_eq xor_cycle_append algebra_simps)
       (rule xor_cycle_cong, simp add: unat_plus_mod_4 unat_word_of_nat_mod_4 mod_simps add.commute)
qed (simp_all add: simple_process_eq xor_cycle_involutive)

interpretation null_masker: masker "\<lambda>_. True" null_process
  by (rule null_laws)

interpretation simple_masker: masker "\<lambda>_. True" "simple_process msk" for msk
  by (rule simple_laws)

lemma masker_process_shifted [simp]:
  "length msk = 4 \<Longrightarrow> masker_process (XorMaskerShifted1 p (shifted1_array msk)) data =
     (fst (simple_process msk p data),
      XorMaskerShifted1 (snd (simple_process msk p data)) (shifted1_array msk))"
  by (simp add: simple_process_eq shifted1_process_eq)

interpretation xm: masker wf_masker masker_process
proof
  fix m and xs ys :: bytes
  assume wf: "wf_masker m"
  show "wf_masker (snd (masker_process m xs))"
    using wf by (cases m) auto
  show "length (fst (masker_process m xs)) = length xs"
    using wf by (cases m) (auto simp: simple_process_eq shifted1_process_eq null_process_def)
  show "masker_process m [] = ([], m)"
    using wf by (cases m) (auto simp: null_process_def shifted1_process_eq)
  show "fst (masker_process m (fst (masker_process m xs))) = xs"
    using wf by (cases m) (auto simp: simple_process_eq shifted1_process_eq xor_cycle_involutive null_process_def)
  show "masker_process m (xs @ ys) =
      (fst (masker_process m xs) @ fst (masker_process (snd (masker_process m xs)) ys),
       snd (masker_process (snd (masker_process m xs)) ys))"
    using wf by (cases m)
      (auto simp: null_process_def algebra_simps simple_masker.process_append simp del: masker_process.simps(3))
qed

lemma wf_createXorMasker: "length msk = 4 \<Longrightarrow> wf_masker (createXorMasker msk len)"
  by (auto simp: createXorMasker_def)

text \<open>The choice between the two classes by the frame length does not show.\<close>

lemma createXorMasker_process:
  "length msk = 4 \<Longrightarrow> fst (masker_process (createXorMasker msk len) data) = xor_cycle msk 0 data"
  by (simp add: createXorMasker_def simple_process_eq shifted1_process_eq)

lemma masker_pointer_process:
  "masker_pointer (snd (masker_process m data)) = masker_pointer m + word_of_nat (length data)"
  by (cases m) (simp_all add: null_process_def simple_process_eq shifted1_process_def)

lemma masker_reset_create:
  "length msk = 4 \<Longrightarrow>
   masker_reset (snd (masker_process (createXorMasker msk len) data)) = createXorMasker msk len"
  by (simp add: createXorMasker_def simple_process_eq shifted1_process_eq)

end
