(* ===== verification/Utf8_Validator.thy ===== *)
theory Utf8_Validator
  imports Net_Prelude
begin

text \<open>
  \<open>plugins/websocket/utf8validator.h\<close> and \<open>utf8validator.cpp\<close>: the table-driven UTF-8
  automaton. The table is the source's, entry by entry (all of its values and hence all
  states are below 16, so they are kept as \<open>nat\<close>); \<open>_codepoint\<close> is a \<open>32 word\<close>. The
  reference is the UTF-8 encoding itself: \<open>utf8_encode\<close> is the encoder of RFC 3629, and a
  byte string is well-formed when it is a concatenation of encodings of Unicode scalar
  values. The automaton accepts exactly the well-formed strings, rejects at the first byte
  that no well-formed string can have there, and \<open>decode\<close> computes the scalar value.
\<close>

unbundle bit_operations_syntax

section \<open>The class\<close>

definition UTF8VALIDATOR_DFA :: "nat list" where
  "UTF8VALIDATOR_DFA = [
    0, 0, 0, 0, 0, 0, 0, 0, 0, 0, 0, 0, 0, 0, 0, 0, 0, 0, 0, 0, 0, 0, 0, 0, 0, 0, 0, 0, 0, 0, 0, 0,
    0, 0, 0, 0, 0, 0, 0, 0, 0, 0, 0, 0, 0, 0, 0, 0, 0, 0, 0, 0, 0, 0, 0, 0, 0, 0, 0, 0, 0, 0, 0, 0,
    0, 0, 0, 0, 0, 0, 0, 0, 0, 0, 0, 0, 0, 0, 0, 0, 0, 0, 0, 0, 0, 0, 0, 0, 0, 0, 0, 0, 0, 0, 0, 0,
    0, 0, 0, 0, 0, 0, 0, 0, 0, 0, 0, 0, 0, 0, 0, 0, 0, 0, 0, 0, 0, 0, 0, 0, 0, 0, 0, 0, 0, 0, 0, 0,
    1, 1, 1, 1, 1, 1, 1, 1, 1, 1, 1, 1, 1, 1, 1, 1, 9, 9, 9, 9, 9, 9, 9, 9, 9, 9, 9, 9, 9, 9, 9, 9,
    7, 7, 7, 7, 7, 7, 7, 7, 7, 7, 7, 7, 7, 7, 7, 7, 7, 7, 7, 7, 7, 7, 7, 7, 7, 7, 7, 7, 7, 7, 7, 7,
    8, 8, 2, 2, 2, 2, 2, 2, 2, 2, 2, 2, 2, 2, 2, 2, 2, 2, 2, 2, 2, 2, 2, 2, 2, 2, 2, 2, 2, 2, 2, 2,
    0xa, 0x3, 0x3, 0x3, 0x3, 0x3, 0x3, 0x3, 0x3, 0x3, 0x3, 0x3, 0x3, 0x4, 0x3, 0x3,
    0xb, 0x6, 0x6, 0x6, 0x5, 0x8, 0x8, 0x8, 0x8, 0x8, 0x8, 0x8, 0x8, 0x8, 0x8, 0x8,
    0x0, 0x1, 0x2, 0x3, 0x5, 0x8, 0x7, 0x1, 0x1, 0x1, 0x4, 0x6, 0x1, 0x1, 0x1, 0x1,
    1, 1, 1, 1, 1, 1, 1, 1, 1, 1, 1, 1, 1, 1, 1, 1, 1, 0, 1, 1, 1, 1, 1, 0, 1, 0, 1, 1, 1, 1, 1, 1,
    1, 2, 1, 1, 1, 1, 1, 2, 1, 2, 1, 1, 1, 1, 1, 1, 1, 1, 1, 1, 1, 1, 1, 2, 1, 1, 1, 1, 1, 1, 1, 1,
    1, 2, 1, 1, 1, 1, 1, 1, 1, 2, 1, 1, 1, 1, 1, 1, 1, 1, 1, 1, 1, 1, 1, 3, 1, 3, 1, 1, 1, 1, 1, 1,
    1, 3, 1, 1, 1, 1, 1, 3, 1, 3, 1, 1, 1, 1, 1, 1, 1, 3, 1, 1, 1, 1, 1, 1, 1, 1, 1, 1, 1, 1, 1, 1]"

record utf8_validator =
  uv_codepoint :: "32 word"
  uv_state :: nat
  uv_index :: nat

definition utf8_init :: utf8_validator where
  "utf8_init = \<lparr> uv_codepoint = 0, uv_state = 0, uv_index = 0 \<rparr>"

definition utf8_reset :: "utf8_validator \<Rightarrow> utf8_validator" where
  "utf8_reset v = v\<lparr> uv_codepoint := 0, uv_state := 0, uv_index := 0 \<rparr>"

definition utf8_decode :: "utf8_validator \<Rightarrow> byte \<Rightarrow> nat \<times> utf8_validator" where
  "utf8_decode v b =
     (let tt = UTF8VALIDATOR_DFA ! unat b;
          cp = (if uv_state v \<noteq> 0
                then (ucast b AND 0x3f) OR push_bit 6 (uv_codepoint v)
                else drop_bit tt 0xff AND ucast b);
          st = UTF8VALIDATOR_DFA ! (256 + uv_state v * 16 + tt)
      in (st, v\<lparr> uv_codepoint := cp, uv_state := st \<rparr>))"

text \<open>The loop of \<open>validate\<close>: the state after the last byte read and, on rejection, its position.\<close>

fun utf8_loop :: "nat \<Rightarrow> nat \<Rightarrow> bytes \<Rightarrow> nat \<times> nat option" where
  "utf8_loop state i [] = (state, None)"
| "utf8_loop state i (b # bs) =
     (let state' = UTF8VALIDATOR_DFA ! (256 + state * 16 + UTF8VALIDATOR_DFA ! unat b)
      in if state' = 1 then (state', Some i) else utf8_loop state' (Suc i) bs)"

definition utf8_validate ::
  "utf8_validator \<Rightarrow> bytes \<Rightarrow> (bool \<times> bool \<times> nat \<times> nat) \<times> utf8_validator" where
  "utf8_validate v bs =
     (case utf8_loop (uv_state v) 0 bs of
        (st, Some i) \<Rightarrow>
          ((False, False, i, uv_index v + i), v\<lparr> uv_state := st, uv_index := uv_index v + i \<rparr>)
      | (st, None) \<Rightarrow>
          ((True, st = 0, length bs, uv_index v + length bs),
           v\<lparr> uv_state := st, uv_index := uv_index v + length bs \<rparr>))"

section \<open>The encoding as the reference\<close>

definition unicode_scalar :: "nat \<Rightarrow> bool" where
  "unicode_scalar c \<longleftrightarrow> c < 0xd800 \<or> (0xe000 \<le> c \<and> c < 0x110000)"

definition utf8_encode_nat :: "nat \<Rightarrow> nat list" where
  "utf8_encode_nat c =
     (if c < 0x80 then [c]
      else if c < 0x800 then [0xc0 + c div 64, 0x80 + c mod 64]
      else if c < 0x10000 then [0xe0 + c div 4096, 0x80 + c div 64 mod 64, 0x80 + c mod 64]
      else [0xf0 + c div 262144, 0x80 + c div 4096 mod 64, 0x80 + c div 64 mod 64, 0x80 + c mod 64])"

definition utf8_encode :: "nat \<Rightarrow> bytes" where
  "utf8_encode c = map word_of_nat (utf8_encode_nat c)"

definition utf8_well_formed :: "bytes \<Rightarrow> bool" where
  "utf8_well_formed bs \<longleftrightarrow>
     (\<exists>cs. list_all unicode_scalar cs \<and> bs = concat (map utf8_encode cs))"

section \<open>The table as a transition function\<close>

definition utf8_class :: "nat \<Rightarrow> nat" where
  "utf8_class n =
     (if n < 0x80 then 0 else if n < 0x90 then 1 else if n < 0xa0 then 9 else if n < 0xc0 then 7
      else if n < 0xc2 then 8 else if n < 0xe0 then 2 else if n = 0xe0 then 10
      else if n < 0xed then 3 else if n = 0xed then 4 else if n < 0xf0 then 3
      else if n = 0xf0 then 11 else if n < 0xf4 then 6 else if n = 0xf4 then 5 else 8)"

definition utf8_trans :: "nat \<Rightarrow> nat \<Rightarrow> nat" where
  "utf8_trans q c =
     (if q = 0 then
        (if c = 0 then 0 else if c = 2 then 2 else if c = 3 then 3 else if c = 4 then 5
         else if c = 5 then 8 else if c = 6 then 7 else if c = 10 then 4 else if c = 11 then 6 else 1)
      else if q = 2 then (if c \<in> {1, 7, 9} then 0 else 1)
      else if q = 3 then (if c \<in> {1, 7, 9} then 2 else 1)
      else if q = 4 then (if c = 7 then 2 else 1)
      else if q = 5 then (if c \<in> {1, 9} then 2 else 1)
      else if q = 6 then (if c \<in> {7, 9} then 3 else 1)
      else if q = 7 then (if c \<in> {1, 7, 9} then 3 else 1)
      else if q = 8 then (if c = 1 then 3 else 1)
      else 1)"

lemma dfa_split:
  "UTF8VALIDATOR_DFA = map utf8_class [0..<256] @ concat (map (\<lambda>q. map (utf8_trans q) [0..<16]) [0..<9])"
  by code_simp

lemma dfa_class: "n < 256 \<Longrightarrow> UTF8VALIDATOR_DFA ! n = utf8_class n"
  by (simp add: dfa_split nth_append del: upt_rec_numeral)

lemma concat_map_nth_16:
  "q < n \<Longrightarrow> c < 16 \<Longrightarrow> concat (map (\<lambda>q. map (f q) [0..<16]) [0..<n]) ! (q * 16 + c) = f q c"
proof (induction n)
  case (Suc n)
  have len: "length (concat (map (\<lambda>q. map (f q) [0..<16]) [0..<n])) = n * 16"
    by (induction n) (simp_all del: upt_rec_numeral)
  show ?case
  proof (cases "q < n")
    case True
    then have "q * 16 + c < n * 16" using Suc.prems by linarith
    then show ?thesis using Suc True len
      by (simp add: nth_append del: upt_rec_numeral concat_append)
         (simp add: nth_append del: upt_rec_numeral)
  next
    case False
    then have "q = n" using Suc.prems by simp
    then show ?thesis using Suc.prems len by (simp add: nth_append del: upt_rec_numeral)
  qed
qed simp

lemma dfa_trans:
  assumes "q < 9" and "c < 16"
  shows "UTF8VALIDATOR_DFA ! (256 + q * 16 + c) = utf8_trans q c"
proof -
  have "UTF8VALIDATOR_DFA ! (256 + (q * 16 + c)) = utf8_trans q c"
    unfolding dfa_split
    by (simp only: nth_append length_map length_upt) (simp add: concat_map_nth_16 assms del: upt_rec_numeral)
  then show ?thesis by (simp add: add.assoc)
qed

definition utf8_step :: "nat \<Rightarrow> nat \<Rightarrow> nat" where
  "utf8_step q n = utf8_trans q (utf8_class n)"

definition utf8_run :: "nat \<Rightarrow> nat list \<Rightarrow> nat" where
  "utf8_run q ns = foldl utf8_step q ns"

lemma utf8_class_less: "utf8_class n < 16"
  by (simp add: utf8_class_def)

lemma utf8_trans_less: "utf8_trans q c < 9"
  by (simp add: utf8_trans_def)

lemma dfa_step:
  "q < 9 \<Longrightarrow> UTF8VALIDATOR_DFA ! (256 + q * 16 + UTF8VALIDATOR_DFA ! unat (b :: byte))
    = utf8_step q (unat b)"
  using dfa_class [OF byte_lt_256] dfa_trans utf8_class_less by (simp add: utf8_step_def)

lemma utf8_run_Nil [simp]: "utf8_run q [] = q"
  by (simp add: utf8_run_def)

lemma utf8_run_Cons [simp]: "utf8_run q (n # ns) = utf8_run (utf8_step q n) ns"
  by (simp add: utf8_run_def)

lemma utf8_run_append: "utf8_run q (xs @ ys) = utf8_run (utf8_run q xs) ys"
  by (simp add: utf8_run_def)

lemma utf8_step_less: "utf8_step q n < 9"
  by (simp add: utf8_step_def utf8_trans_less)

lemma utf8_run_less: "q < 9 \<Longrightarrow> utf8_run q ns < 9"
  by (induction ns arbitrary: q) (auto simp: utf8_step_less)

definition utf8_cont :: "nat \<Rightarrow> bool" where
  "utf8_cont n \<longleftrightarrow> 0x80 \<le> n \<and> n < 0xc0"

lemma utf8_step_0:
  "utf8_step 0 n = (if n < 0x80 then 0 else if n < 0xc2 then 1 else if n < 0xe0 then 2
    else if n = 0xe0 then 4 else if n = 0xed then 5 else if n < 0xf0 then 3
    else if n = 0xf0 then 6 else if n < 0xf4 then 7 else if n = 0xf4 then 8 else 1)"
  by (simp add: utf8_step_def utf8_class_def utf8_trans_def)

lemma utf8_step_tail:
  "utf8_step 1 n = 1" "utf8_step (Suc 0) n = 1"
  "utf8_step 2 n = (if utf8_cont n then 0 else 1)"
  "utf8_step 3 n = (if utf8_cont n then 2 else 1)"
  "utf8_step 4 n = (if 0xa0 \<le> n \<and> n < 0xc0 then 2 else 1)"
  "utf8_step 5 n = (if 0x80 \<le> n \<and> n < 0xa0 then 2 else 1)"
  "utf8_step 6 n = (if 0x90 \<le> n \<and> n < 0xc0 then 3 else 1)"
  "utf8_step 7 n = (if utf8_cont n then 3 else 1)"
  "utf8_step 8 n = (if 0x80 \<le> n \<and> n < 0x90 then 3 else 1)"
  by (simp_all add: utf8_step_def utf8_class_def utf8_trans_def utf8_cont_def)

lemmas utf8_steps = utf8_step_0 utf8_step_tail

lemma utf8_run_reject [simp]: "utf8_run 1 ns = 1" "utf8_run (Suc 0) ns = 1"
  by (induction ns) (simp_all add: utf8_step_tail)

lemma utf8_accept_tail:
  "utf8_run 2 ns = 0 \<longleftrightarrow> (\<exists>c r. ns = c # r \<and> utf8_cont c \<and> utf8_run 0 r = 0)"
  "utf8_run 3 ns = 0 \<longleftrightarrow> (\<exists>c r. ns = c # r \<and> utf8_cont c \<and> utf8_run 2 r = 0)"
  "utf8_run 4 ns = 0 \<longleftrightarrow> (\<exists>c r. ns = c # r \<and> 0xa0 \<le> c \<and> c < 0xc0 \<and> utf8_run 2 r = 0)"
  "utf8_run 5 ns = 0 \<longleftrightarrow> (\<exists>c r. ns = c # r \<and> 0x80 \<le> c \<and> c < 0xa0 \<and> utf8_run 2 r = 0)"
  "utf8_run 6 ns = 0 \<longleftrightarrow> (\<exists>c r. ns = c # r \<and> 0x90 \<le> c \<and> c < 0xc0 \<and> utf8_run 3 r = 0)"
  "utf8_run 7 ns = 0 \<longleftrightarrow> (\<exists>c r. ns = c # r \<and> utf8_cont c \<and> utf8_run 3 r = 0)"
  "utf8_run 8 ns = 0 \<longleftrightarrow> (\<exists>c r. ns = c # r \<and> 0x80 \<le> c \<and> c < 0x90 \<and> utf8_run 3 r = 0)"
  by (cases ns; auto simp: utf8_step_tail)+

text \<open>Base-64 digits of a code point.\<close>

lemma base64_div: "(c :: nat) div 4096 = c div 64 div 64" "c div 262144 = c div 4096 div 64"
  using div_mult2_eq [of c 64 64] div_mult2_eq [of c 4096 64] by simp_all

lemma base64_digit: "(c :: nat) = c div 64 * 64 + c mod 64" "c mod 64 < 64"
  by simp_all

lemma base64_digits_3:
  "(c :: nat) = c div 4096 * 4096 + c div 64 mod 64 * 64 + c mod 64"
  using base64_digit(1) [of c] base64_digit(1) [of "c div 64"] unfolding base64_div by linarith

lemma base64_digits_4:
  "(c :: nat) = c div 262144 * 262144 + c div 4096 mod 64 * 4096 + c div 64 mod 64 * 64 + c mod 64"
  using base64_digits_3 [of c] base64_digit(1) [of "c div 4096"] unfolding base64_div by linarith

lemma base64_compose_3:
  fixes x y z :: nat
  assumes "y < 64" "z < 64"
  shows "(x * 4096 + y * 64 + z) div 4096 = x"
    "(x * 4096 + y * 64 + z) div 64 mod 64 = y" "(x * 4096 + y * 64 + z) mod 64 = z"
proof -
  have c: "x * 4096 + y * 64 + z = (x * 64 + y) * 64 + z" by simp
  have d: "(x * 4096 + y * 64 + z) div 64 = x * 64 + y" unfolding c using assms(2) by simp
  show "(x * 4096 + y * 64 + z) mod 64 = z" unfolding c mod_mult_self3 using assms(2) by simp
  show "(x * 4096 + y * 64 + z) div 64 mod 64 = y" unfolding d using assms(1) by simp
  show "(x * 4096 + y * 64 + z) div 4096 = x" using assms by (intro div_nat_eqI) simp_all
qed

lemma base64_compose_4:
  fixes w x y z :: nat
  assumes "x < 64" "y < 64" "z < 64"
  shows "(w * 262144 + x * 4096 + y * 64 + z) div 262144 = w"
    "(w * 262144 + x * 4096 + y * 64 + z) div 4096 mod 64 = x"
    "(w * 262144 + x * 4096 + y * 64 + z) div 64 mod 64 = y"
    "(w * 262144 + x * 4096 + y * 64 + z) mod 64 = z"
proof -
  have c: "w * 262144 + x * 4096 + y * 64 + z = (w * 64 + x) * 4096 + y * 64 + z" by simp
  show "(w * 262144 + x * 4096 + y * 64 + z) mod 64 = z"
    and "(w * 262144 + x * 4096 + y * 64 + z) div 64 mod 64 = y"
    unfolding c using base64_compose_3 assms by blast+
  show "(w * 262144 + x * 4096 + y * 64 + z) div 4096 mod 64 = x"
    unfolding c using base64_compose_3(1) [OF assms(2,3), of "w * 64 + x"] assms(1) by simp
  show "(w * 262144 + x * 4096 + y * 64 + z) div 262144 = w"
    using assms by (intro div_nat_eqI) simp_all
qed

text \<open>Completeness on one scalar value.\<close>

lemma utf8_run_encode:
  assumes "unicode_scalar c"
  shows "utf8_run 0 (utf8_encode_nat c) = 0"
proof -
  consider "c < 0x80" | "0x80 \<le> c" "c < 0x800" | "0x800 \<le> c" "c < 0x10000" | "0x10000 \<le> c" "c < 0x110000"
    using assms by (force simp: unicode_scalar_def)
  then show ?thesis
  proof cases
    case 1
    then show ?thesis by (simp add: utf8_encode_nat_def utf8_steps)
  next
    case 2
    then have "2 \<le> c div 64" "c div 64 < 32" using base64_digit [of c] by linarith+
    with 2 base64_digit(2) [of c] show ?thesis
      by (auto simp: utf8_encode_nat_def utf8_steps utf8_cont_def)
  next
    case 3
    note c = base64_digits_3 [of c]
    have m: "c div 64 mod 64 < 64" "c mod 64 < 64" by simp_all
    have d: "c div 4096 < 16" using 3 c by linarith
    have z: "c div 4096 = 0 \<Longrightarrow> 32 \<le> c div 64 mod 64" using 3 c m by linarith
    have e: "c div 4096 = 13 \<Longrightarrow> c div 64 mod 64 < 32"
      using assms 3 c m unfolding unicode_scalar_def by linarith
    show ?thesis using 3 d z e m
      by (auto simp: utf8_encode_nat_def utf8_steps utf8_cont_def)
  next
    case 4
    note c = base64_digits_4 [of c]
    have m: "c div 4096 mod 64 < 64" "c div 64 mod 64 < 64" "c mod 64 < 64" by simp_all
    have d: "c div 262144 < 5" using 4 c by linarith
    have z: "c div 262144 = 0 \<Longrightarrow> 16 \<le> c div 4096 mod 64" using 4 c m by linarith
    have e: "c div 262144 = 4 \<Longrightarrow> c div 4096 mod 64 < 16" using 4 c m by linarith
    show ?thesis using 4 d z e m
      by (auto simp: utf8_encode_nat_def utf8_steps utf8_cont_def)
  qed
qed

lemma utf8_run_encodes:
  "list_all unicode_scalar cs \<Longrightarrow> utf8_run 0 (concat (map utf8_encode_nat cs)) = 0"
  by (induction cs) (simp_all add: utf8_run_append utf8_run_encode)

text \<open>Soundness on one scalar value: an accepted non-empty string starts with an encoding.\<close>

lemma utf8_decode_2:
  assumes "0xc2 \<le> a" "a < 0xe0" "utf8_cont b"
  obtains c where "unicode_scalar c" "utf8_encode_nat c = [a, b]"
proof
  let ?c = "(a - 0xc0) * 64 + (b - 0x80)"
  have lt: "b - 0x80 < 64" using assms unfolding utf8_cont_def by linarith
  have c: "?c div 64 = a - 0xc0" "?c mod 64 = b - 0x80"
    using lt unfolding mod_mult_self3 by simp_all
  have r: "0x80 \<le> ?c" "?c < 0x800"
    using assms unfolding utf8_cont_def by linarith+
  then show "unicode_scalar ?c" unfolding unicode_scalar_def by linarith
  have "\<not> ?c < 0x80" using r by linarith
  then show "utf8_encode_nat ?c = [a, b]"
    using assms r unfolding utf8_encode_nat_def c utf8_cont_def by simp
qed

lemma utf8_decode_3:
  assumes "0xe0 \<le> a" "a < 0xf0" "utf8_cont b" "utf8_cont d"
    and "a = 0xe0 \<Longrightarrow> 0xa0 \<le> b" "a = 0xed \<Longrightarrow> b < 0xa0"
  obtains c where "unicode_scalar c" "utf8_encode_nat c = [a, b, d]"
proof
  let ?c = "(a - 0xe0) * 4096 + (b - 0x80) * 64 + (d - 0x80)"
  have lt: "b - 0x80 < 64" "d - 0x80 < 64" using assms unfolding utf8_cont_def by linarith+
  note c = base64_compose_3 [OF lt, of "a - 0xe0"]
  have r: "0x800 \<le> ?c" "?c < 0x10000"
    using assms unfolding utf8_cont_def by linarith+
  consider "a < 0xed" | "a = 0xed" | "0xee \<le> a" by linarith
  then have "?c < 0xd800 \<or> 0xe000 \<le> ?c"
  proof cases
    case 1
    then have "?c < 0xd800" using lt by linarith
    then show ?thesis ..
  next
    case 2
    then have "?c < 0xd800" using lt assms(6) by linarith
    then show ?thesis ..
  next
    case 3
    then have "0xe000 \<le> ?c" by linarith
    then show ?thesis ..
  qed
  then show "unicode_scalar ?c" using r(2) unfolding unicode_scalar_def by linarith
  have "\<not> ?c < 0x80" "\<not> ?c < 0x800" using r by linarith+
  then show "utf8_encode_nat ?c = [a, b, d]"
    using assms r unfolding utf8_encode_nat_def c utf8_cont_def by simp
qed

lemma utf8_decode_4:
  assumes "0xf0 \<le> a" "a \<le> 0xf4" "utf8_cont b" "utf8_cont d" "utf8_cont e"
    and "a = 0xf0 \<Longrightarrow> 0x90 \<le> b" "a = 0xf4 \<Longrightarrow> b < 0x90"
  obtains c where "unicode_scalar c" "utf8_encode_nat c = [a, b, d, e]"
proof
  let ?c = "(a - 0xf0) * 262144 + (b - 0x80) * 4096 + (d - 0x80) * 64 + (e - 0x80)"
  have lt: "b - 0x80 < 64" "d - 0x80 < 64" "e - 0x80 < 64" using assms unfolding utf8_cont_def by linarith+
  note c = base64_compose_4 [OF lt, of "a - 0xf0"]
  have r: "0x10000 \<le> ?c" "?c < 0x110000"
    using assms unfolding utf8_cont_def by linarith+
  then show "unicode_scalar ?c" unfolding unicode_scalar_def by linarith
  have "\<not> ?c < 0x80" "\<not> ?c < 0x800" "\<not> ?c < 0x10000" using r by linarith+
  then show "utf8_encode_nat ?c = [a, b, d, e]"
    using assms r unfolding utf8_encode_nat_def c utf8_cont_def by simp
qed

lemma utf8_accept_head:
  assumes "utf8_run 0 ns = 0" and "ns \<noteq> []"
  obtains c r where "unicode_scalar c" "ns = utf8_encode_nat c @ r" "utf8_run 0 r = 0"
proof -
  from assms obtain n r where ns: "ns = n # r" and acc: "utf8_run (utf8_step 0 n) r = 0"
    by (cases ns) auto
  consider "n < 0x80" | "0xc2 \<le> n" "n < 0xe0" | "0xe0 \<le> n" "n < 0xf0" | "0xf0 \<le> n" "n \<le> 0xf4"
    using acc by (force simp: utf8_step_0 split: if_splits)
  then show thesis
  proof cases
    case 1
    then show thesis using that [of n r] acc ns
      by (simp add: unicode_scalar_def utf8_encode_nat_def utf8_step_0)
  next
    case 2
    then obtain b t where "r = b # t" "utf8_cont b" "utf8_run 0 t = 0"
      using acc by (auto simp: utf8_step_0 utf8_accept_tail)
    with 2 that ns show thesis by (auto elim: utf8_decode_2)
  next
    case 3
    then obtain b d t where t: "r = b # d # t" "utf8_cont b" "utf8_cont d" "utf8_run 0 t = 0"
      "n = 0xe0 \<longrightarrow> 0xa0 \<le> b" "n = 0xed \<longrightarrow> b < 0xa0"
      using acc by (auto simp: utf8_step_0 utf8_accept_tail utf8_cont_def split: if_splits)
    obtain c where "unicode_scalar c" "utf8_encode_nat c = [n, b, d]"
      using utf8_decode_3 [of n b d] 3 t by blast
    with that [of c t] ns t show thesis by simp
  next
    case 4
    then obtain b d e t where t: "r = b # d # e # t" "utf8_cont b" "utf8_cont d" "utf8_cont e"
      "utf8_run 0 t = 0" "n = 0xf0 \<longrightarrow> 0x90 \<le> b" "n = 0xf4 \<longrightarrow> b < 0x90"
      using acc by (auto simp: utf8_step_0 utf8_accept_tail utf8_cont_def split: if_splits)
    obtain c where "unicode_scalar c" "utf8_encode_nat c = [n, b, d, e]"
      using utf8_decode_4 [of n b d e] 4 t by blast
    with that [of c t] ns t show thesis by simp
  qed
qed

theorem utf8_run_accept:
  "utf8_run 0 ns = 0 \<longleftrightarrow> (\<exists>cs. list_all unicode_scalar cs \<and> ns = concat (map utf8_encode_nat cs))"
proof
  show "\<exists>cs. list_all unicode_scalar cs \<and> ns = concat (map utf8_encode_nat cs)" if "utf8_run 0 ns = 0"
    using that
  proof (induction "length ns" arbitrary: ns rule: less_induct)
    case less
    show ?case
    proof (cases "ns = []")
      case True
      then show ?thesis by (intro exI [of _ "[]"]) simp
    next
      case False
      obtain c r where c: "unicode_scalar c" "ns = utf8_encode_nat c @ r" "utf8_run 0 r = 0"
        by (rule utf8_accept_head [OF less.prems False])
      have "length r < length ns" using c by (simp add: utf8_encode_nat_def)
      from less.hyps [OF this c(3)] obtain cs where
        "list_all unicode_scalar cs" "r = concat (map utf8_encode_nat cs)" by blast
      with c show ?thesis by (intro exI [of _ "c # cs"]) simp
    qed
  qed
qed (auto simp: utf8_run_encodes)

lemma utf8_step_byte: "utf8_step q n \<noteq> 1 \<Longrightarrow> n < 256"
  by (auto simp: utf8_step_def utf8_trans_def utf8_class_def split: if_splits)

lemma utf8_run_bytes: "utf8_run q ns \<noteq> 1 \<Longrightarrow> n \<in> set ns \<Longrightarrow> n < 256"
proof (induction ns arbitrary: q)
  case (Cons m ns)
  then have "utf8_step q m \<noteq> 1" by (metis utf8_run_Cons utf8_run_reject(1))
  with Cons utf8_step_byte [of q m] show ?case by auto
qed simp

lemma utf8_encode_nat_byte: "unicode_scalar c \<Longrightarrow> n \<in> set (utf8_encode_nat c) \<Longrightarrow> n < 256"
  by (rule utf8_run_bytes [of 0 "utf8_encode_nat c"]) (simp_all add: utf8_run_encode)

lemma map_unat_encode: "unicode_scalar c \<Longrightarrow> map unat (utf8_encode c) = utf8_encode_nat c"
  unfolding utf8_encode_def map_map
  by (rule map_idI) (use utf8_encode_nat_byte in force)

lemma map_unat_encodes:
  "list_all unicode_scalar cs \<Longrightarrow>
   map unat (concat (map utf8_encode cs)) = concat (map utf8_encode_nat cs)"
  by (induction cs) (simp_all add: map_unat_encode)

lemma utf8_well_formed_run: "utf8_well_formed bs \<longleftrightarrow> utf8_run 0 (map unat bs) = 0"
proof
  show "utf8_well_formed bs \<Longrightarrow> utf8_run 0 (map unat bs) = 0"
    by (auto simp: utf8_well_formed_def map_unat_encodes utf8_run_encodes)
next
  assume "utf8_run 0 (map unat bs) = 0"
  then obtain cs where cs: "list_all unicode_scalar cs" "map unat bs = concat (map utf8_encode_nat cs)"
    by (auto simp: utf8_run_accept)
  have "map (word_of_nat :: nat \<Rightarrow> byte) (map unat bs) = concat (map utf8_encode cs)"
    unfolding cs(2) by (simp add: map_concat utf8_encode_def [abs_def] comp_def)
  then have "bs = concat (map utf8_encode cs)" by (simp add: comp_def)
  with cs(1) show "utf8_well_formed bs" by (auto simp: utf8_well_formed_def)
qed

text \<open>A string is viable when it can be completed to a well-formed one.\<close>

definition utf8_viable :: "bytes \<Rightarrow> bool" where
  "utf8_viable bs \<longleftrightarrow> (\<exists>cont. utf8_well_formed (bs @ cont))"

lemma utf8_completable: "q < 9 \<Longrightarrow> q \<noteq> 1 \<Longrightarrow> \<exists>cont :: bytes. utf8_run q (map unat cont) = 0"
proof -
  assume "q < 9" "q \<noteq> 1"
  then consider "q = 0" | "q = 2" | "q = 3" | "q = 4" | "q = 5" | "q = 6" | "q = 7" | "q = 8"
    by linarith
  then show ?thesis
  proof cases
    case 1 then show ?thesis by (intro exI [of _ "[]"]) simp
  next
    case 2 then show ?thesis by (intro exI [of _ "[0x80]"]) (simp add: utf8_steps utf8_cont_def)
  next
    case 3 then show ?thesis by (intro exI [of _ "[0x80, 0x80]"]) (simp add: utf8_steps utf8_cont_def)
  next
    case 4 then show ?thesis by (intro exI [of _ "[0xa0, 0x80]"]) (simp add: utf8_steps utf8_cont_def)
  next
    case 5 then show ?thesis by (intro exI [of _ "[0x80, 0x80]"]) (simp add: utf8_steps utf8_cont_def)
  next
    case 6 then show ?thesis by (intro exI [of _ "[0x90, 0x80, 0x80]"]) (simp add: utf8_steps utf8_cont_def)
  next
    case 7 then show ?thesis by (intro exI [of _ "[0x80, 0x80, 0x80]"]) (simp add: utf8_steps utf8_cont_def)
  next
    case 8 then show ?thesis by (intro exI [of _ "[0x80, 0x80, 0x80]"]) (simp add: utf8_steps utf8_cont_def)
  qed
qed

lemma utf8_viable_run: "utf8_viable bs \<longleftrightarrow> utf8_run 0 (map unat bs) \<noteq> 1"
proof -
  have "utf8_run 0 (map unat bs) < 9" by (rule utf8_run_less) simp
  then show ?thesis
    using utf8_completable [of "utf8_run 0 (map unat bs)"]
    by (auto simp: utf8_viable_def utf8_well_formed_run utf8_run_append)
qed

section \<open>\<open>validate\<close>\<close>

text \<open>
  The interface of an incremental checker: after the bytes \<open>seen\<close>, a call tells whether the
  input can still be completed, whether it ends a code point, and how many bytes were read.
\<close>

lemma utf8_loop_run:
  "q < 9 \<Longrightarrow> q \<noteq> 1 \<Longrightarrow> fst (utf8_loop q i bs) = utf8_run q (map unat bs)"
  by (induction bs arbitrary: q i) (auto simp: dfa_step utf8_step_less Let_def simp del: One_nat_def)

lemma utf8_loop_None:
  "q < 9 \<Longrightarrow> q \<noteq> 1 \<Longrightarrow> snd (utf8_loop q i bs) = None \<longleftrightarrow> utf8_run q (map unat bs) \<noteq> 1"
  by (induction bs arbitrary: q i) (auto simp: dfa_step utf8_step_less Let_def simp del: One_nat_def)

lemma utf8_loop_Some:
  "q < 9 \<Longrightarrow> q \<noteq> 1 \<Longrightarrow> snd (utf8_loop q i bs) = Some j \<Longrightarrow>
   i \<le> j \<and> j < i + length bs \<and> utf8_run q (map unat (take (j - i) bs)) \<noteq> 1
   \<and> utf8_run q (map unat (take (Suc (j - i)) bs)) = 1"
proof (induction bs arbitrary: q i)
  case (Cons b bs)
  let ?q = "utf8_step q (unat b)"
  show ?case
  proof (cases "?q = 1")
    case True
    then show ?thesis using Cons.prems by (simp add: dfa_step)
  next
    case False
    then have "snd (utf8_loop ?q (Suc i) bs) = Some j" using Cons.prems by (simp add: dfa_step)
    note IH = Cons.IH [OF utf8_step_less False this]
    then have "j - i = Suc (j - Suc i)" by linarith
    with IH False show ?thesis by simp
  qed
qed simp

text \<open>\<open>uv_after seen v\<close>: the validator has read \<open>seen\<close> and not rejected yet.\<close>

definition uv_after :: "bytes \<Rightarrow> utf8_validator \<Rightarrow> bool" where
  "uv_after seen v \<longleftrightarrow> uv_state v = utf8_run 0 (map unat seen) \<and> uv_state v \<noteq> 1
     \<and> uv_index v = length seen"

lemma uv_after_init: "uv_after [] utf8_init" "uv_after [] (utf8_reset v)"
  by (simp_all add: uv_after_def utf8_init_def utf8_reset_def)

lemma uv_after_less: "uv_after seen v \<Longrightarrow> uv_state v < 9"
  by (simp add: uv_after_def utf8_run_less)

lemma utf8_validate_ok:
  assumes "uv_after seen v" and "utf8_viable (seen @ bs)"
  shows "fst (utf8_validate v bs) =
      (True, utf8_well_formed (seen @ bs), length bs, length (seen @ bs))"
    and "uv_after (seen @ bs) (snd (utf8_validate v bs))"
proof -
  have q: "uv_state v < 9" "uv_state v \<noteq> 1" "uv_state v = utf8_run 0 (map unat seen)"
    "uv_index v = length seen"
    using assms(1) uv_after_less by (auto simp: uv_after_def)
  have r: "utf8_run (uv_state v) (map unat bs) = utf8_run 0 (map unat (seen @ bs))"
    using q by (simp add: utf8_run_append)
  then have ok: "utf8_run (uv_state v) (map unat bs) \<noteq> 1"
    using assms(2) by (simp only: utf8_viable_run) simp
  obtain st where l: "utf8_loop (uv_state v) 0 bs = (st, None)"
    using utf8_loop_None [OF q(1,2), of 0 bs] ok by (cases "utf8_loop (uv_state v) 0 bs") auto
  have st: "st = utf8_run 0 (map unat (seen @ bs))"
    using utf8_loop_run [OF q(1,2), of 0 bs] l r by simp
  show "fst (utf8_validate v bs) =
      (True, utf8_well_formed (seen @ bs), length bs, length (seen @ bs))"
    using l st q by (simp add: utf8_validate_def utf8_well_formed_run)
  show "uv_after (seen @ bs) (snd (utf8_validate v bs))"
    using l st q ok r by (simp add: utf8_validate_def uv_after_def)
qed

lemma utf8_validate_reject:
  assumes "uv_after seen v" and "\<not> utf8_viable (seen @ bs)"
  obtains i where "i < length bs"
    and "fst (utf8_validate v bs) = (False, False, i, length seen + i)"
    and "utf8_viable (seen @ take i bs)" and "\<not> utf8_viable (seen @ take (Suc i) bs)"
proof -
  have q: "uv_state v < 9" "uv_state v \<noteq> 1" "uv_state v = utf8_run 0 (map unat seen)"
    "uv_index v = length seen"
    using assms(1) uv_after_less by (auto simp: uv_after_def)
  have run: "utf8_run (uv_state v) (map unat xs) = utf8_run 0 (map unat (seen @ xs))" for xs
    using q by (simp add: utf8_run_append)
  have "utf8_run (uv_state v) (map unat bs) = 1"
    using assms(2) unfolding run utf8_viable_run by simp
  then obtain st i where l: "utf8_loop (uv_state v) 0 bs = (st, Some i)"
    using utf8_loop_None [OF q(1,2), of 0 bs] by (cases "utf8_loop (uv_state v) 0 bs") auto
  have "snd (utf8_loop (uv_state v) 0 bs) = Some i" by (simp add: l)
  from utf8_loop_Some [OF q(1,2) this] have i: "i < length bs"
    "utf8_run 0 (map unat (seen @ take i bs)) \<noteq> 1"
    "utf8_run 0 (map unat (seen @ take (Suc i) bs)) = 1"
    unfolding run by simp_all
  show thesis
  proof (rule that [of i])
    show "fst (utf8_validate v bs) = (False, False, i, length seen + i)"
      using l q by (simp add: utf8_validate_def)
    show "utf8_viable (seen @ take i bs)" "\<not> utf8_viable (seen @ take (Suc i) bs)"
      using i(2,3) by (simp_all only: utf8_viable_run simp_thms)
  qed (rule i(1))
qed

section \<open>\<open>decode\<close>\<close>

lemma or_push_bit_nat: "d < 64 \<Longrightarrow> d OR push_bit 6 k = k * 64 + (d :: nat)"
proof -
  assume "d < 64"
  then have d: "take_bit 6 d = d" by (simp add: take_bit_eq_mod)
  have "d AND push_bit 6 k = take_bit 6 d AND push_bit 6 k" using d by simp
  also have "\<dots> = 0" by (rule bit_eqI) (auto simp: bit_simps)
  finally have "d + push_bit 6 k = d OR push_bit 6 k" by (rule disjunctive_add_eq_or)
  then show ?thesis by (simp add: push_bit_eq_mult)
qed

lemma or_push_bit_word:
  "d < 64 \<Longrightarrow> (word_of_nat d :: 32 word) OR push_bit 6 (word_of_nat k) = word_of_nat (k * 64 + d)"
  using or_push_bit_nat [of d k] by (simp only: flip: of_nat_or_eq of_nat_push_bit)

lemma ucast_byte_nat: "unat (b :: byte) = k \<Longrightarrow> (ucast b :: 32 word) = word_of_nat k"
  by (drule sym) simp

lemma ucast_byte_and_mask:
  "(ucast (b :: byte) AND mask k :: 32 word) = word_of_nat (unat b mod 2 ^ k)"
proof -
  have "(ucast b AND mask k :: 32 word) = take_bit k (word_of_nat (unat b))"
    by (simp add: take_bit_eq_mask)
  also have "\<dots> = word_of_nat (take_bit k (unat b))" by (simp only: of_nat_take_bit)
  finally show ?thesis by (simp add: take_bit_eq_mod)
qed

lemma ucast_byte_and_low:
  "(ucast (b :: byte) AND 0x3f :: 32 word) = word_of_nat (unat b mod 64)"
  "(0xff AND ucast (b :: byte) :: 32 word) = word_of_nat (unat b)"
  "(0x3f AND ucast (b :: byte) :: 32 word) = word_of_nat (unat b mod 64)"
  "(0x1f AND ucast (b :: byte) :: 32 word) = word_of_nat (unat b mod 32)"
  "(0xf AND ucast (b :: byte) :: 32 word) = word_of_nat (unat b mod 16)"
  "(7 AND ucast (b :: byte) :: 32 word) = word_of_nat (unat b mod 8)"
  "(3 AND ucast (b :: byte) :: 32 word) = word_of_nat (unat b mod 4)"
  using ucast_byte_and_mask [of b 6] ucast_byte_and_mask [of b 8] ucast_byte_and_mask [of b 5]
    ucast_byte_and_mask [of b 4] ucast_byte_and_mask [of b 3] ucast_byte_and_mask [of b 2] byte_lt_256 [of b]
  by (simp_all add: mask_eq_exp_minus_1 and.commute)

definition utf8_decode_all :: "utf8_validator \<Rightarrow> bytes \<Rightarrow> utf8_validator" where
  "utf8_decode_all v bs = foldl (\<lambda>v b. snd (utf8_decode v b)) v bs"

lemma utf8_decode_state:
  "uv_state v < 9 \<Longrightarrow> uv_state (snd (utf8_decode v b)) = utf8_step (uv_state v) (unat b)"
  by (simp add: utf8_decode_def Let_def dfa_step)

lemma utf8_decode_tail:
  assumes "uv_state v \<noteq> 0" and "uv_codepoint v = word_of_nat k"
  shows "uv_codepoint (snd (utf8_decode v b)) = word_of_nat (k * 64 + unat b mod 64)"
  using assms or_push_bit_word [of "unat b mod 64" k]
  by (simp add: utf8_decode_def Let_def ucast_byte_and_low)

lemma utf8_decode_head:
  assumes "uv_state v = 0"
  shows "uv_codepoint (snd (utf8_decode v b)) =
    drop_bit (utf8_class (unat b)) 0xff AND ucast b"
  using assms by (simp add: utf8_decode_def Let_def dfa_class byte_lt_256)

lemma utf8_decode_head_cases:
  assumes "uv_state v = 0" and "uv_codepoint (snd (utf8_decode v b)) = cp"
  shows "unat b < 0x80 \<Longrightarrow> cp = word_of_nat (unat b)"
    and "0xc2 \<le> unat b \<Longrightarrow> unat b < 0xe0 \<Longrightarrow> cp = word_of_nat (unat b - 0xc0)"
    and "0xe0 \<le> unat b \<Longrightarrow> unat b < 0xf0 \<Longrightarrow> cp = word_of_nat (unat b - 0xe0)"
    and "0xf0 \<le> unat b \<Longrightarrow> unat b \<le> 0xf4 \<Longrightarrow> cp = word_of_nat (unat b - 0xf0)"
proof -
  have cp: "cp = drop_bit (utf8_class (unat b)) 0xff AND ucast b"
    using assms utf8_decode_head by metis
  have m: "n mod k = n - i * k" if "i * k \<le> n" "n < Suc i * k" for n k i :: nat
    by (rule mod_nat_eqI) (use that in auto)
  show "cp = word_of_nat (unat b)" if "unat b < 0x80"
    using that ucast_byte_and_low(2) [of b] by (simp add: cp utf8_class_def)
  show "cp = word_of_nat (unat b - 0xc0)" if "0xc2 \<le> unat b" "unat b < 0xe0"
    using that m [of 3 64 "unat b"] by (simp add: cp utf8_class_def ucast_byte_and_low)
  show "cp = word_of_nat (unat b - 0xe0)" if "0xe0 \<le> unat b" "unat b < 0xf0"
    using that m [of 7 32 "unat b"] m [of 14 16 "unat b"] ucast_byte_nat [of b "0xe0"] ucast_byte_nat [of b "0xed"]
    by (auto simp: cp utf8_class_def ucast_byte_and_low)
  show "cp = word_of_nat (unat b - 0xf0)" if "0xf0 \<le> unat b" "unat b \<le> 0xf4"
    using that m [of 60 4 "unat b"] m [of 30 8 "unat b"] ucast_byte_nat [of b "0xf0"] ucast_byte_nat [of b "0xf4"]
    by (auto simp: cp utf8_class_def ucast_byte_and_low)
qed

lemma utf8_decode_all_state:
  "uv_state v < 9 \<Longrightarrow> uv_state (utf8_decode_all v bs) = utf8_run (uv_state v) (map unat bs)"
  by (induction bs arbitrary: v) (simp_all add: utf8_decode_all_def utf8_decode_state utf8_step_less)

text \<open>The continuation bytes of a code point append base-64 digits.\<close>

lemma utf8_decode_digits:
  assumes "uv_codepoint v = word_of_nat k" and "uv_state v < 9"
    and "\<And>xs. strict_prefix xs ns \<Longrightarrow> utf8_run (uv_state v) xs \<noteq> 0"
    and "list_all (\<lambda>n. n < 256) ns"
  shows "uv_codepoint (utf8_decode_all v (map word_of_nat ns))
    = word_of_nat (foldl (\<lambda>a n. a * 64 + n mod 64) k ns)"
  using assms
proof (induction ns arbitrary: v k)
  case (Cons n ns)
  let ?v = "snd (utf8_decode v (word_of_nat n))"
  have n: "unat (word_of_nat n :: byte) = n" using Cons.prems(4) by simp
  have st: "uv_state v \<noteq> 0" using Cons.prems(3) [of "[]"] by simp
  have "uv_codepoint (utf8_decode_all ?v (map word_of_nat ns))
    = word_of_nat (foldl (\<lambda>a n. a * 64 + n mod 64) (k * 64 + n mod 64) ns)"
  proof (rule Cons.IH)
    show "uv_codepoint ?v = word_of_nat (k * 64 + n mod 64)"
      using utf8_decode_tail [OF st Cons.prems(1), of "word_of_nat n"] unfolding n .
    have q: "uv_state ?v = utf8_step (uv_state v) n"
      using utf8_decode_state [OF Cons.prems(2), of "word_of_nat n"] unfolding n .
    show "uv_state ?v < 9" unfolding q by (rule utf8_step_less)
    show "utf8_run (uv_state ?v) xs \<noteq> 0" if "strict_prefix xs ns" for xs
      using Cons.prems(3) [of "n # xs"] that unfolding q by simp
    show "list_all (\<lambda>n. n < 256) ns" using Cons.prems(4) by simp
  qed
  then show ?case by (simp add: utf8_decode_all_def)
qed (simp add: utf8_decode_all_def)

text \<open>No proper non-empty prefix of an encoding is accepted.\<close>

lemma utf8_head_digits:
  assumes "unicode_scalar c" and "0x80 \<le> c"
  obtains n k ns where "utf8_encode_nat c = n # ns" "n < 256"
    "foldl (\<lambda>a n. a * 64 + n mod 64) k ns = c"
    "\<And>v b. uv_state v = 0 \<Longrightarrow> unat b = n \<Longrightarrow> uv_codepoint (snd (utf8_decode v b)) = word_of_nat k"
    "\<And>xs. strict_prefix xs ns \<Longrightarrow> utf8_run (utf8_step 0 n) xs \<noteq> 0"
proof -
  have dig: "(128 + x mod 64) mod 64 = x mod 64" for x :: nat
    using mod_add_left_eq [of 128 64 "x mod 64"] by simp
  consider "c < 0x800" | "0x800 \<le> c" "c < 0x10000" | "0x10000 \<le> c" "c < 0x110000"
    using assms by (force simp: unicode_scalar_def)
  then show thesis
  proof cases
    case 1
    have r: "2 \<le> c div 64" "c div 64 < 32" "c div 64 * 64 + c mod 64 = c"
      using 1 assms(2) base64_digit [of c] by linarith+
    show thesis
    proof (rule that)
      show "utf8_encode_nat c = (0xc0 + c div 64) # [0x80 + c mod 64]"
        using 1 assms(2) by (simp add: utf8_encode_nat_def)
      show "0xc0 + c div 64 < 256" using r by linarith
      show "foldl (\<lambda>a n. a * 64 + n mod 64) (c div 64) [0x80 + c mod 64] = c"
        using r by (simp add: dig)
      show "uv_codepoint (snd (utf8_decode v b)) = word_of_nat (c div 64)"
        if "uv_state v = 0" "unat b = 0xc0 + c div 64" for v b
        using utf8_decode_head_cases(2) [OF that(1) refl, of b] that(2) r by simp
      show "utf8_run (utf8_step 0 (0xc0 + c div 64)) xs \<noteq> 0"
        if "strict_prefix xs [0x80 + c mod 64]" for xs
        using that r by (auto simp: strict_prefix_def prefix_Cons utf8_step_0)
    qed
  next
    case 2
    note d = base64_digits_3 [of c]
    have r: "c div 4096 < 16" "c div 64 mod 64 < 64" "c mod 64 < 64"
      using 2 d by linarith+
    have e: "c div 4096 * 64 + c div 64 mod 64 = c div 64"
      using base64_digit(1) [of "c div 64"] by (simp add: base64_div)
    show thesis
    proof (rule that)
      show "utf8_encode_nat c = (0xe0 + c div 4096) # [0x80 + c div 64 mod 64, 0x80 + c mod 64]"
        using 2 by (simp add: utf8_encode_nat_def)
      show "0xe0 + c div 4096 < 256" using r by linarith
      show "foldl (\<lambda>a n. a * 64 + n mod 64) (c div 4096) [0x80 + c div 64 mod 64, 0x80 + c mod 64] = c"
        by (simp add: dig e)
      show "uv_codepoint (snd (utf8_decode v b)) = word_of_nat (c div 4096)"
        if "uv_state v = 0" "unat b = 0xe0 + c div 4096" for v b
        using utf8_decode_head_cases(3) [OF that(1) refl, of b] that(2) r by simp
      show "utf8_run (utf8_step 0 (0xe0 + c div 4096)) xs \<noteq> 0"
        if "strict_prefix xs [0x80 + c div 64 mod 64, 0x80 + c mod 64]" for xs
        using that r by (auto simp: strict_prefix_def prefix_Cons utf8_steps split: if_splits)
    qed
  next
    case 3
    note d = base64_digits_4 [of c]
    have r: "c div 262144 < 5" "c div 4096 mod 64 < 64" "c div 64 mod 64 < 64" "c mod 64 < 64"
      using 3 d by linarith+
    have e: "c div 262144 * 64 + c div 4096 mod 64 = c div 4096"
      "c div 4096 * 64 + c div 64 mod 64 = c div 64"
      using base64_digit(1) [of "c div 4096"] base64_digit(1) [of "c div 64"] by (simp_all add: base64_div)
    let ?ns = "[0x80 + c div 4096 mod 64, 0x80 + c div 64 mod 64, 0x80 + c mod 64]"
    show thesis
    proof (rule that)
      show "utf8_encode_nat c = (0xf0 + c div 262144) # ?ns"
        using 3 by (simp add: utf8_encode_nat_def)
      show "0xf0 + c div 262144 < 256" using r by linarith
      show "foldl (\<lambda>a n. a * 64 + n mod 64) (c div 262144) ?ns = c"
        by (simp add: dig e)
      show "uv_codepoint (snd (utf8_decode v b)) = word_of_nat (c div 262144)"
        if "uv_state v = 0" "unat b = 0xf0 + c div 262144" for v b
        using utf8_decode_head_cases(4) [OF that(1) refl, of b] that(2) r by simp
      show "utf8_run (utf8_step 0 (0xf0 + c div 262144)) xs \<noteq> 0"
        if "strict_prefix xs ?ns" for xs
        using that r by (auto simp: strict_prefix_def prefix_Cons utf8_steps split: if_splits)
    qed
  qed
qed

lemma utf8_decode_encode:
  assumes "unicode_scalar c" and "uv_state v = 0"
  shows "uv_state (utf8_decode_all v (utf8_encode c)) = 0
    \<and> uv_codepoint (utf8_decode_all v (utf8_encode c)) = word_of_nat c"
proof
  show "uv_state (utf8_decode_all v (utf8_encode c)) = 0"
    using assms utf8_decode_all_state [of v] by (simp add: map_unat_encode utf8_run_encode)
  show "uv_codepoint (utf8_decode_all v (utf8_encode c)) = word_of_nat c"
  proof (cases "c < 0x80")
    case True
    then have "unat (word_of_nat c :: byte) = c" by simp
    with True show ?thesis
      using utf8_decode_head_cases(1) [OF assms(2) refl, of "word_of_nat c"]
      by (simp add: utf8_encode_def utf8_encode_nat_def utf8_decode_all_def)
  next
    case False
    then have "0x80 \<le> c" by simp
    from utf8_head_digits [OF assms(1) this] obtain n k ns where h:
      "utf8_encode_nat c = n # ns" "n < 256" "foldl (\<lambda>a n. a * 64 + n mod 64) k ns = c"
      "\<And>v b. uv_state v = 0 \<Longrightarrow> unat b = n \<Longrightarrow> uv_codepoint (snd (utf8_decode v b)) = word_of_nat k"
      "\<And>xs. strict_prefix xs ns \<Longrightarrow> utf8_run (utf8_step 0 n) xs \<noteq> 0" by metis
    let ?v = "snd (utf8_decode v (word_of_nat n))"
    have n: "unat (word_of_nat n :: byte) = n" using h(2) by simp
    have st: "uv_state ?v = utf8_step 0 n"
      using utf8_decode_state [of v "word_of_nat n"] assms(2) n by simp
    have "uv_codepoint (utf8_decode_all ?v (map word_of_nat ns)) = word_of_nat c"
      unfolding h(3) [symmetric]
    proof (rule utf8_decode_digits)
      show "uv_codepoint ?v = word_of_nat k" by (rule h(4) [OF assms(2) n])
      show "uv_state ?v < 9" unfolding st by (rule utf8_step_less)
      show "utf8_run (uv_state ?v) xs \<noteq> 0" if "strict_prefix xs ns" for xs
        unfolding st by (rule h(5) [OF that])
      show "list_all (\<lambda>n. n < 256) ns"
        using utf8_encode_nat_byte [OF assms(1)] h(1) by (auto simp: list_all_iff)
    qed
    then show ?thesis by (simp add: utf8_encode_def h(1) utf8_decode_all_def)
  qed
qed

end
