(* ===== verification/Ws_State.thy ===== *)
theory Ws_State
  imports Xor_Masker Utf8_Validator
begin

text \<open>
  The data of \<open>plugins/websocket/protocol.h\<close>: close codes, connection states, the
  configuration a protocol object copies from its factory in \<open>connectionMade\<close>, its run-time
  state and what it does to the outside. \<open>TrafficStats\<close>, \<open>FrameHeader\<close>, \<open>truncate\<close> and
  \<open>newid\<close> come from \<open>plugins/websocket/util.h\<close> and \<open>util.cpp\<close>.

  The virtual callbacks (\<open>onOpen\<close>, \<open>onMessage\<close>, \<open>onPing\<close>, \<open>onPong\<close>, \<open>onClose\<close>) have the bodies of
  the base class; that they are called is an event of the trace. Calls of the transport
  and of the reactor are events, too. Logging is left out.
\<close>

section \<open>Enumerations and constants\<close>

type_synonym close_code = "16 word"

definition CLOSE_STATUS_CODE_NORMAL :: close_code where "CLOSE_STATUS_CODE_NORMAL = 1000"
definition CLOSE_STATUS_CODE_GOING_AWAY :: close_code where "CLOSE_STATUS_CODE_GOING_AWAY = 1001"
definition CLOSE_STATUS_CODE_PROTOCOL_ERROR :: close_code where "CLOSE_STATUS_CODE_PROTOCOL_ERROR = 1002"
definition CLOSE_STATUS_CODE_UNSUPPORTED_DATA :: close_code where "CLOSE_STATUS_CODE_UNSUPPORTED_DATA = 1003"
definition CLOSE_STATUS_CODE_NULL :: close_code where "CLOSE_STATUS_CODE_NULL = 1005"
definition CLOSE_STATUS_CODE_ABNORMAL_CLOSE :: close_code where "CLOSE_STATUS_CODE_ABNORMAL_CLOSE = 1006"
definition CLOSE_STATUS_CODE_INVALID_PAYLOAD :: close_code where "CLOSE_STATUS_CODE_INVALID_PAYLOAD = 1007"
definition CLOSE_STATUS_CODE_POLICY_VIOLATION :: close_code where "CLOSE_STATUS_CODE_POLICY_VIOLATION = 1008"
definition CLOSE_STATUS_CODE_MESSAGE_TOO_BIG :: close_code where "CLOSE_STATUS_CODE_MESSAGE_TOO_BIG = 1009"
definition CLOSE_STATUS_CODE_MANDATORY_EXTENSION :: close_code where "CLOSE_STATUS_CODE_MANDATORY_EXTENSION = 1010"
definition CLOSE_STATUS_CODE_INTERNAL_ERROR :: close_code where "CLOSE_STATUS_CODE_INTERNAL_ERROR = 1011"
definition CLOSE_STATUS_CODE_SERVICE_RESTART :: close_code where "CLOSE_STATUS_CODE_SERVICE_RESTART = 1012"
definition CLOSE_STATUS_CODE_TRY_AGAIN_LATER :: close_code where "CLOSE_STATUS_CODE_TRY_AGAIN_LATER = 1013"

lemmas close_codes = CLOSE_STATUS_CODE_NORMAL_def CLOSE_STATUS_CODE_GOING_AWAY_def
  CLOSE_STATUS_CODE_PROTOCOL_ERROR_def CLOSE_STATUS_CODE_UNSUPPORTED_DATA_def CLOSE_STATUS_CODE_NULL_def
  CLOSE_STATUS_CODE_ABNORMAL_CLOSE_def CLOSE_STATUS_CODE_INVALID_PAYLOAD_def
  CLOSE_STATUS_CODE_POLICY_VIOLATION_def CLOSE_STATUS_CODE_MESSAGE_TOO_BIG_def
  CLOSE_STATUS_CODE_MANDATORY_EXTENSION_def CLOSE_STATUS_CODE_INTERNAL_ERROR_def
  CLOSE_STATUS_CODE_SERVICE_RESTART_def CLOSE_STATUS_CODE_TRY_AGAIN_LATER_def

definition CLOSE_STATUS_CODES_ALLOWED :: "close_code list" where
  "CLOSE_STATUS_CODES_ALLOWED =
    [CLOSE_STATUS_CODE_NORMAL, CLOSE_STATUS_CODE_GOING_AWAY, CLOSE_STATUS_CODE_PROTOCOL_ERROR,
     CLOSE_STATUS_CODE_UNSUPPORTED_DATA, CLOSE_STATUS_CODE_INVALID_PAYLOAD,
     CLOSE_STATUS_CODE_POLICY_VIOLATION, CLOSE_STATUS_CODE_MESSAGE_TOO_BIG,
     CLOSE_STATUS_CODE_MANDATORY_EXTENSION, CLOSE_STATUS_CODE_INTERNAL_ERROR,
     CLOSE_STATUS_CODE_SERVICE_RESTART, CLOSE_STATUS_CODE_TRY_AGAIN_LATER]"

datatype ws_state = CLOSED | CONNECTING | CLOSING | OPEN | PROXY_CONNECTING

datatype send_state = GROUND | MESSAGE_BEGIN | INSIDE_MESSAGE | INSIDE_MESSAGE_FRAME

definition MESSAGE_TYPE_TEXT :: byte where "MESSAGE_TYPE_TEXT = 1"
definition MESSAGE_TYPE_BINARY :: byte where "MESSAGE_TYPE_BINARY = 2"

definition QUEUED_WRITE_DELAY :: real where "QUEUED_WRITE_DELAY = 1 / 100000"

section \<open>Data of the helper classes\<close>

record frame_header =
  fh_opcode :: byte
  fh_fin :: bool
  fh_rsv :: byte
  fh_length :: "64 word"
  fh_mask :: "ws_mask option"

record traffic_stats =
  ts_outgoingOctetsWireLevel :: nat
  ts_outgoingOctetsWebSocketLevel :: nat
  ts_outgoingOctetsAppLevel :: nat
  ts_outgoingWebSocketFrames :: nat
  ts_outgoingWebSocketMessages :: nat
  ts_incomingOctetsWireLevel :: nat
  ts_incomingOctetsWebSocketLevel :: nat
  ts_incomingOctetsAppLevel :: nat
  ts_incomingWebSocketFrames :: nat
  ts_incomingWebSocketMessages :: nat
  ts_preopenOutgoingOctetsWireLevel :: nat
  ts_preopenIncomingOctetsWireLevel :: nat

definition traffic_reset :: "traffic_stats \<Rightarrow> traffic_stats" where
  "traffic_reset t = \<lparr>
     ts_outgoingOctetsWireLevel = 0, ts_outgoingOctetsWebSocketLevel = 0,
     ts_outgoingOctetsAppLevel = 0, ts_outgoingWebSocketFrames = 0,
     ts_outgoingWebSocketMessages = 0, ts_incomingOctetsWireLevel = 0,
     ts_incomingOctetsWebSocketLevel = 0, ts_incomingOctetsAppLevel = 0,
     ts_incomingWebSocketFrames = 0, ts_incomingWebSocketMessages = 0,
     ts_preopenOutgoingOctetsWireLevel = 0, ts_preopenIncomingOctetsWireLevel = 0 \<rparr>"

definition truncate_text :: "string option \<Rightarrow> nat \<Rightarrow> string option" where
  "truncate_text text limit =
     (case text of None \<Rightarrow> None
      | Some t \<Rightarrow> if length t > limit then Some (take limit t) else Some t)"

text \<open>
  \<open>PerMessageCompress\<close> is an abstract class; a protocol object holds an instance \<open>'c\<close> and calls
  these six methods. An exception carries its message.
\<close>

record 'c pmce_ops =
  pm_getExtensionName :: string
  pm_startCompressMessage :: "(string, 'c, unit) prog"
  pm_compressMessageData :: "bytes \<Rightarrow> (string, 'c, bytes) prog"
  pm_endCompressMessage :: "(string, 'c, bytes) prog"
  pm_startDecompressMessage :: "(string, 'c, unit) prog"
  pm_decompressMessageData :: "bytes \<Rightarrow> (string, 'c, bytes) prog"
  pm_endDecompressMessage :: "(string, 'c, unit) prog"

section \<open>Configuration and environment\<close>

text \<open>
  The fields are fixed by \<open>connectionMade\<close> and never written afterwards. \<open>cf_random\<close> is the
  stream of \<open>Random::randBytes\<close>, \<open>cf_base64\<close> the Boost iterator pipeline inside
  \<open>Base64::b64encode\<close>, \<open>cf_pmce\<close> the methods of the negotiated compressor class.
\<close>

record 'c ws_config =
  cf_isServer :: bool
  cf_utf8validateIncoming :: bool
  cf_applyMask :: bool
  cf_maxFramePayloadSize :: nat
  cf_maxMessagePayloadSize :: nat
  cf_autoFragmentSize :: nat
  cf_failByDrop :: bool
  cf_echoCloseCodeReason :: bool
  cf_openHandshakeTimeout :: real
  cf_closeHandshakeTimeout :: real
  cf_tcpNoDelay :: bool
  cf_trackTimings :: bool
  cf_autoPingInterval :: real
  cf_autoPingTimeout :: real
  cf_autoPingSize :: nat
  cf_requireMaskedClientFrames :: bool
  cf_maskServerFrames :: bool
  cf_acceptMaskedServerFrames :: bool
  cf_maskClientFrames :: bool
  cf_serverConnectionDropTimeout :: real
  cf_random :: "nat \<Rightarrow> byte"
  cf_base64 :: "bytes \<Rightarrow> bytes"
  cf_pmce :: "'c pmce_ops"

section \<open>Run-time state\<close>

datatype ws_timer = ServerConnectionDropTimer | OpenHandshakeTimer | CloseHandshakeTimer
  | AutoPingTimeoutTimer | AutoPingPendingTimer | QueuedWriteTimer

text \<open>
  A \<open>DelayedCall\<close> is a weak pointer to a \<open>Timeout\<close>, which the pending wait keeps alive:
  \<open>Pending\<close>; \<open>Cancelling\<close> between \<open>cancel()\<close> and the run of the aborted handler, still alive;
  \<open>Expired\<close> when the pointer is empty or dead.
\<close>

datatype delayed_call = Expired | Pending | Cancelling

definition call_cancelled :: "delayed_call \<Rightarrow> bool" where
  "call_cancelled c \<longleftrightarrow> c = Expired"

datatype ws_event =
    Write bytes
  | LoseConnection
  | AbortConnection
  | SetNoDelay bool
  | CallLater ws_timer real
  | CancelTimer ws_timer
  | Track string
  | OnOpen
  | OnMessage bytes bool
  | OnPing bytes
  | OnPong bytes
  | OnClose bool "close_code option" "string option"

datatype ws_exn = WsException string | AlreadyCancelled | NullDereference

text \<open>Connection state, send side and trace.\<close>

record 'c ws_core =
  ws_state :: ws_state
  ws_sendState :: send_state
  ws_data :: bytes
  ws_sendQueue :: "(bytes \<times> bool) list"
  ws_triggered :: bool
  ws_stats :: traffic_stats
  ws_tracked :: bool
  ws_pmce :: "'c option"
  ws_calls :: "ws_timer \<Rightarrow> delayed_call"
  ws_autoPingPending :: bytes
  ws_randomPos :: nat
  ws_out :: "ws_event list"

text \<open>How the connection ends.\<close>

record 'c ws_close = "'c ws_core" +
  ws_wasMaxFramePayloadSizeExceeded :: bool
  ws_wasMaxMessagePayloadSizeExceeded :: bool
  ws_closedByMe :: bool
  ws_failedByMe :: bool
  ws_droppedByMe :: bool
  ws_wasClean :: bool
  ws_wasNotCleanReason :: "string option"
  ws_wasServerConnectionDropTimeout :: bool
  ws_wasOpenHandshakeTimeout :: bool
  ws_wasCloseHandshakeTimeout :: bool
  ws_wasServingFlashSocketPolicyFile :: bool
  ws_localCloseCode :: "close_code option"
  ws_localCloseReason :: "string option"
  ws_remoteCloseCode :: "close_code option"
  ws_remoteCloseReason :: "string option"

text \<open>The message and the frame being received.\<close>

record 'c ws_conn = "'c ws_close" +
  ws_webSocketVersion :: int
  ws_insideMessage :: bool
  ws_isMessageCompressed :: bool
  ws_utf8validateIncomingCurrentMessage :: bool
  ws_utf8validator :: utf8_validator
  ws_utf8validateLast :: "bool \<times> bool \<times> nat \<times> nat"
  ws_messageIsBinary :: bool
  ws_messageDataTotalLength :: "64 word"
  ws_frameLength :: "64 word"
  ws_currentFrame :: "frame_header option"
  ws_currentFrameMasker :: xor_masker
  ws_controlFrameData :: bytes
  ws_messageData :: bytes
  ws_frameData :: bytes

type_synonym ('c, 'm, 'a) ws_prog = "(ws_exn, ('c, 'm) ws_conn_scheme, 'a) prog"

section \<open>Transport, reactor and callbacks\<close>

definition emitM :: "ws_event \<Rightarrow> ('c, 'm, unit) ws_prog" where
  "emitM e = modifyM (\<lambda>s. s\<lparr> ws_out := ws_out s @ [e] \<rparr>)"

definition callLaterM :: "ws_timer \<Rightarrow> real \<Rightarrow> ('c, 'm, unit) ws_prog" where
  "callLaterM t d = doM [
     modifyM (\<lambda>s. s\<lparr> ws_calls := (ws_calls s)(t := Pending) \<rparr>),
     emitM (CallLater t d)]"

text \<open>\<open>DelayedCall::cancel\<close> throws when there is nothing left to cancel.\<close>

definition cancelM :: "ws_timer \<Rightarrow> ('c, 'm, unit) ws_prog" where
  "cancelM t = withM (\<lambda>s.
     if call_cancelled (ws_calls s t) then throwM AlreadyCancelled
     else doM [
       modifyM (\<lambda>s. s\<lparr> ws_calls := (ws_calls s)(t := Cancelling) \<rparr>),
       emitM (CancelTimer t)])"

definition resetM :: "ws_timer \<Rightarrow> ('c, 'm, unit) ws_prog" where
  "resetM t = modifyM (\<lambda>s. s\<lparr> ws_calls := (ws_calls s)(t := Expired) \<rparr>)"

text \<open>\<open>closeConnection\<close> of the header.\<close>

definition closeConnection :: "bool \<Rightarrow> ('c, 'm, unit) ws_prog" where
  "closeConnection abort = (if abort then emitM AbortConnection else emitM LoseConnection)"

definition trackM :: "string \<Rightarrow> ('c, 'm, unit) ws_prog" where
  "trackM key = withM (\<lambda>s. whenM (ws_tracked s) (emitM (Track key)))"

definition randBytesM :: "'c ws_config \<Rightarrow> nat \<Rightarrow> ('c, 'm, bytes) ws_prog" where
  "randBytesM cf n = withM (\<lambda>s.
     retM [modifyM (\<lambda>s. s\<lparr> ws_randomPos := ws_randomPos s + n \<rparr>)]
       (map (cf_random cf) [ws_randomPos s..<ws_randomPos s + n]))"

text \<open>A call of a method of \<open>_perMessageCompress\<close>; the callers have checked the pointer.\<close>

definition pmceM :: "(string, 'c, 'a) prog \<Rightarrow> ('c, 'm, 'a) ws_prog" where
  "pmceM m = withM (\<lambda>s. case ws_pmce s of
      None \<Rightarrow> throwM NullDereference
    | Some c \<Rightarrow> (case m c of
          (Inl msg, c') \<Rightarrow> bindM (modifyM (\<lambda>s. s\<lparr> ws_pmce := Some c' \<rparr>)) (\<lambda>_. throwM (WsException msg))
        | (Inr x, c') \<Rightarrow> bindM (modifyM (\<lambda>s. s\<lparr> ws_pmce := Some c' \<rparr>)) (\<lambda>_. returnM x)))"

definition has_pmce :: "('c, 'm) ws_conn_scheme \<Rightarrow> bool" where
  "has_pmce s \<longleftrightarrow> ws_pmce s \<noteq> None"

definition statsM :: "(traffic_stats \<Rightarrow> traffic_stats) \<Rightarrow> ('c, 'm, unit) ws_prog" where
  "statsM f = modifyM (\<lambda>s. s\<lparr> ws_stats := f (ws_stats s) \<rparr>)"

section \<open>Initial values\<close>

text \<open>
  The member initialisers, with \<open>_state\<close> as \<open>connectionMade\<close> sets it. \<open>_currentFrameMasker\<close> starts
  as a null pointer, which is read only while \<open>_currentFrame\<close> is set; the model has a null
  masker there.
\<close>

definition ws_fresh :: "ws_state \<Rightarrow> 'c ws_conn" where
  "ws_fresh st = \<lparr>
     ws_state = st, ws_sendState = GROUND, ws_data = [], ws_sendQueue = [], ws_triggered = False,
     ws_stats = \<lparr> ts_outgoingOctetsWireLevel = 0, ts_outgoingOctetsWebSocketLevel = 0,
       ts_outgoingOctetsAppLevel = 0, ts_outgoingWebSocketFrames = 0,
       ts_outgoingWebSocketMessages = 0, ts_incomingOctetsWireLevel = 0,
       ts_incomingOctetsWebSocketLevel = 0, ts_incomingOctetsAppLevel = 0,
       ts_incomingWebSocketFrames = 0, ts_incomingWebSocketMessages = 0,
       ts_preopenOutgoingOctetsWireLevel = 0, ts_preopenIncomingOctetsWireLevel = 0 \<rparr>,
     ws_tracked = False, ws_pmce = None, ws_calls = (\<lambda>_. Expired), ws_autoPingPending = [],
     ws_randomPos = 0, ws_out = [],
     ws_wasMaxFramePayloadSizeExceeded = False, ws_wasMaxMessagePayloadSizeExceeded = False,
     ws_closedByMe = False, ws_failedByMe = False, ws_droppedByMe = False, ws_wasClean = False,
     ws_wasNotCleanReason = None, ws_wasServerConnectionDropTimeout = False,
     ws_wasOpenHandshakeTimeout = False, ws_wasCloseHandshakeTimeout = False,
     ws_wasServingFlashSocketPolicyFile = False, ws_localCloseCode = None,
     ws_localCloseReason = None, ws_remoteCloseCode = None, ws_remoteCloseReason = None,
     ws_webSocketVersion = 0, ws_insideMessage = False, ws_isMessageCompressed = False,
     ws_utf8validateIncomingCurrentMessage = False, ws_utf8validator = utf8_init,
     ws_utf8validateLast = (False, False, 0, 0), ws_messageIsBinary = False,
     ws_messageDataTotalLength = 0, ws_frameLength = 0, ws_currentFrame = None,
     ws_currentFrameMasker = XorMaskerNull 0, ws_controlFrameData = [], ws_messageData = [],
     ws_frameData = [] \<rparr>"

text \<open>\<open>resetProtocolOptions\<close> of the two factories; the options of the other side keep their initial value.\<close>

definition server_options ::
  "(nat \<Rightarrow> byte) \<Rightarrow> (bytes \<Rightarrow> bytes) \<Rightarrow> 'c pmce_ops \<Rightarrow> 'c ws_config" where
  "server_options rnd b64 pm = \<lparr>
     cf_isServer = True, cf_utf8validateIncoming = True, cf_applyMask = True,
     cf_maxFramePayloadSize = 0, cf_maxMessagePayloadSize = 0, cf_autoFragmentSize = 0,
     cf_failByDrop = True, cf_echoCloseCodeReason = False, cf_openHandshakeTimeout = 5,
     cf_closeHandshakeTimeout = 1, cf_tcpNoDelay = True, cf_trackTimings = False,
     cf_autoPingInterval = 0, cf_autoPingTimeout = 0, cf_autoPingSize = 4,
     cf_requireMaskedClientFrames = True, cf_maskServerFrames = False,
     cf_acceptMaskedServerFrames = False, cf_maskClientFrames = False,
     cf_serverConnectionDropTimeout = 0,
     cf_random = rnd, cf_base64 = b64, cf_pmce = pm \<rparr>"

definition client_options ::
  "(nat \<Rightarrow> byte) \<Rightarrow> (bytes \<Rightarrow> bytes) \<Rightarrow> 'c pmce_ops \<Rightarrow> 'c ws_config" where
  "client_options rnd b64 pm = \<lparr>
     cf_isServer = False, cf_utf8validateIncoming = True, cf_applyMask = True,
     cf_maxFramePayloadSize = 0, cf_maxMessagePayloadSize = 0, cf_autoFragmentSize = 0,
     cf_failByDrop = True, cf_echoCloseCodeReason = False, cf_openHandshakeTimeout = 5,
     cf_closeHandshakeTimeout = 1, cf_tcpNoDelay = True, cf_trackTimings = False,
     cf_autoPingInterval = 0, cf_autoPingTimeout = 0, cf_autoPingSize = 4,
     cf_requireMaskedClientFrames = False, cf_maskServerFrames = False,
     cf_acceptMaskedServerFrames = False, cf_maskClientFrames = True,
     cf_serverConnectionDropTimeout = 1,
     cf_random = rnd, cf_base64 = b64, cf_pmce = pm \<rparr>"

end
