(* ===== verification/Ws_Send.thy ===== *)
theory Ws_Send
  imports Ws_State
begin

text \<open>
  The sending half of \<open>plugins/websocket/protocol.cpp\<close>: frames and their octets, the write
  queue with its paced flush, the message, ping, pong and close calls, and the ways a
  connection is failed or dropped, timeouts included. Each method is one definition with
  the name it has in the source.
\<close>

unbundle bit_operations_syntax

section \<open>Writing octets\<close>

text \<open>What \<open>write\<close> and the counters after it do; \<open>logTxOctets\<close> is left out.\<close>

definition countWire :: "nat \<Rightarrow> ('c, 'm, unit) ws_prog" where
  "countWire n = withM (\<lambda>s.
     if ws_state s = OPEN then
       statsM (\<lambda>t. t\<lparr> ts_outgoingOctetsWireLevel := ts_outgoingOctetsWireLevel t + n \<rparr>)
     else if ws_state s = CONNECTING \<or> ws_state s = PROXY_CONNECTING then
       statsM (\<lambda>t. t\<lparr> ts_preopenOutgoingOctetsWireLevel := ts_preopenOutgoingOctetsWireLevel t + n \<rparr>)
     else doM [])"

definition send :: "('c, 'm, unit) ws_prog" where
  "send = withM (\<lambda>s. case ws_sendQueue s of
      [] \<Rightarrow> modifyM (\<lambda>s. s\<lparr> ws_triggered := False \<rparr>)
    | e # rest \<Rightarrow> doM [
        modifyM (\<lambda>s. s\<lparr> ws_sendQueue := rest \<rparr>),
        whenM (ws_state s \<noteq> CLOSED) (doM [emitM (Write (fst e)), countWire (length (fst e))]),
        callLaterM QueuedWriteTimer QUEUED_WRITE_DELAY])"

definition trigger :: "('c, 'm, unit) ws_prog" where
  "trigger = withM (\<lambda>s. whenM (\<not> ws_triggered s) (doM [
     modifyM (\<lambda>s. s\<lparr> ws_triggered := True \<rparr>), send]))"

fun chops :: "nat \<Rightarrow> bytes \<Rightarrow> bytes list" where
  "chops c data =
     (if c = 0 \<or> length data \<le> c then [data] else take c data # chops c (drop c data))"

declare chops.simps [simp del]

definition enqueue :: "bytes \<Rightarrow> bool \<Rightarrow> ('c, 'm, unit) ws_prog" where
  "enqueue data sync = modifyM (\<lambda>s. s\<lparr> ws_sendQueue := ws_sendQueue s @ [(data, sync)] \<rparr>)"

definition sendData :: "bytes \<Rightarrow> bool \<Rightarrow> nat \<Rightarrow> ('c, 'm, unit) ws_prog" where
  "sendData data sync chopsize =
     (if chopsize > 0 then
        doM (map (\<lambda>c. enqueue c True) (chops chopsize data) @ [trigger])
      else withM (\<lambda>s.
        if sync \<or> ws_sendQueue s \<noteq> [] then doM [enqueue data sync, trigger]
        else doM [emitM (Write data), countWire (length data)]))"

section \<open>Frames\<close>

definition frame_b0 :: "byte \<Rightarrow> bool \<Rightarrow> byte \<Rightarrow> byte" where
  "frame_b0 opcode fin rsv =
     (if fin then 0x80 else 0) OR push_bit 4 (rsv mod 8) OR opcode mod 128"

definition frame_len7 :: "nat \<Rightarrow> byte" where
  "frame_len7 l = (if l \<le> 125 then word_of_nat l else if l \<le> 0xffff then 126 else 127)"

definition frame_ext :: "nat \<Rightarrow> bytes" where
  "frame_ext l = (if l \<le> 125 then [] else if l \<le> 0xffff then be_encode 2 l else be_encode 8 l)"

definition repeat_payload :: "bytes \<Rightarrow> nat \<Rightarrow> bytes" where
  "repeat_payload payload n =
     concat (replicate (n div length payload) payload) @ take (n mod length payload) payload"

definition wants_mask :: "'c ws_config \<Rightarrow> bool" where
  "wants_mask cf \<longleftrightarrow>
     (\<not> cf_isServer cf \<and> cf_maskClientFrames cf) \<or> (cf_isServer cf \<and> cf_maskServerFrames cf)"

text \<open>The octets of a frame: \<open>used\<close> is the key the payload is xored with, \<open>mv\<close> the key octets put on the wire.\<close>

definition frame_octets ::
  "'c ws_config \<Rightarrow> byte \<Rightarrow> bool \<Rightarrow> byte \<Rightarrow> bytes \<Rightarrow> ws_mask option \<Rightarrow> bytes \<Rightarrow> bytes" where
  "frame_octets cf opcode fin rsv pl used mv =
     (let l = length pl;
          b1 = (if used \<noteq> None then 0x80 else 0) OR frame_len7 l;
          pl' = (case used of None \<Rightarrow> pl
                 | Some msk \<Rightarrow>
                     (if l > 0 \<and> cf_applyMask cf
                      then fst (masker_process (createXorMasker msk (word_of_nat l)) pl) else pl))
      in [frame_b0 opcode fin rsv, b1] @ frame_ext l @ mv @ pl')"

definition sendFrame ::
  "'c ws_config \<Rightarrow> byte \<Rightarrow> bytes \<Rightarrow> bool \<Rightarrow> byte \<Rightarrow> ws_mask option \<Rightarrow> nat \<Rightarrow> nat \<Rightarrow> bool
     \<Rightarrow> ('c, 'm, unit) ws_prog" where
  "sendFrame cf opcode payload fin rsv msk payloadLen chopsize sync =
     (if payloadLen > 0 \<and> payload = [] then
        throwM (WsException (''cannot construct repeated payload with length '' @ to_string payloadLen
                @ '' from payload of length 0''))
      else
        (let pl = (if payloadLen > 0 then repeat_payload payload payloadLen else payload)
         in bindM
           (case msk of
              Some m \<Rightarrow> returnM (Some m, [])
            | None \<Rightarrow>
                (if wants_mask cf then bindM (randBytesM cf 4) (\<lambda>m. returnM (Some m, m))
                 else returnM (None, [])))
           (\<lambda>(used, mv).
              if length pl > 0x7fffffffffffffff then throwM (WsException ''invalid payload length'')
              else doM [
                whenM (opcode = 0 \<or> opcode = 1 \<or> opcode = 2)
                  (statsM (\<lambda>t. t\<lparr> ts_outgoingWebSocketFrames := ts_outgoingWebSocketFrames t + 1 \<rparr>)),
                sendData (frame_octets cf opcode fin rsv pl used mv) sync chopsize])))"

text \<open>The call with the default arguments.\<close>

abbreviation sendFrame0 :: "'c ws_config \<Rightarrow> byte \<Rightarrow> bytes \<Rightarrow> ('c, 'm, unit) ws_prog" where
  "sendFrame0 cf opcode payload \<equiv> sendFrame cf opcode payload True 0 None 0 0 False"

section \<open>Messages, pings and pongs\<close>

text \<open>The fragments of a long message, each with the flag of the last one.\<close>

fun fragments :: "nat \<Rightarrow> bytes \<Rightarrow> (bytes \<times> bool) list" where
  "fragments pfs data =
     (if pfs = 0 \<or> length data < pfs then [(data, True)]
      else (take pfs data, False) # fragments pfs (drop pfs data))"

declare fragments.simps [simp del]

definition send_fragments ::
  "'c ws_config \<Rightarrow> byte \<Rightarrow> byte \<Rightarrow> bool \<Rightarrow> (bytes \<times> bool) list \<Rightarrow> ('c, 'm, unit) ws_prog" where
  "send_fragments cf opcode rsv sync frs =
     doM (map (\<lambda>(i, chunk, fin).
            if i = 0 then sendFrame cf opcode chunk fin rsv None 0 0 sync
            else sendFrame cf 0 chunk fin 0 None 0 0 sync)
          (enumerate (0 :: nat) frs))"

definition compress_message :: "'c ws_config \<Rightarrow> bytes \<Rightarrow> ('c, 'm, bytes) ws_prog" where
  "compress_message cf payload =
     thenM [pmceM (pm_startCompressMessage (cf_pmce cf)),
            statsM (\<lambda>t. t\<lparr> ts_outgoingOctetsAppLevel := ts_outgoingOctetsAppLevel t + length payload \<rparr>)]
       (bindM (pmceM (pm_compressMessageData (cf_pmce cf) payload)) (\<lambda>p1.
        bindM (pmceM (pm_endCompressMessage (cf_pmce cf))) (\<lambda>p2.
        retM [statsM (\<lambda>t. t\<lparr> ts_outgoingOctetsWebSocketLevel :=
                 ts_outgoingOctetsWebSocketLevel t + length (p1 @ p2) \<rparr>)] (p1 @ p2))))"

definition sendMessage ::
  "'c ws_config \<Rightarrow> bytes \<Rightarrow> bool \<Rightarrow> nat \<Rightarrow> bool \<Rightarrow> bool \<Rightarrow> ('c, 'm, unit) ws_prog" where
  "sendMessage cf payload isBinary fragmentSize sync doNotCompress = withM (\<lambda>s.
     if ws_state s \<noteq> OPEN then doM []
     else
       (let opcode = (if isBinary then 2 else 1);
            sendCompressed = (has_pmce s \<and> \<not> doNotCompress);
            pfs = (if fragmentSize > 0 then fragmentSize
                   else if cf_autoFragmentSize cf > 0 then cf_autoFragmentSize cf else 0)
        in thenM [trackM ''sendMessage'',
                  statsM (\<lambda>t. t\<lparr> ts_outgoingWebSocketMessages := ts_outgoingWebSocketMessages t + 1 \<rparr>)]
          (bindM
            (if sendCompressed then compress_message cf payload
             else retM [statsM (\<lambda>t. t\<lparr>
                 ts_outgoingOctetsAppLevel := ts_outgoingOctetsAppLevel t + length payload,
                 ts_outgoingOctetsWebSocketLevel := ts_outgoingOctetsWebSocketLevel t + length payload \<rparr>)]
               payload)
            (\<lambda>data.
               if pfs = 0 \<or> length data \<le> pfs
               then sendFrame cf opcode data True (if sendCompressed then 4 else 0) None 0 0 sync
               else send_fragments cf opcode (if sendCompressed then 4 else 0) sync (fragments pfs data)))))"

definition sendPing :: "'c ws_config \<Rightarrow> bytes \<Rightarrow> ('c, 'm, unit) ws_prog" where
  "sendPing cf payload = withM (\<lambda>s.
     if ws_state s \<noteq> OPEN then doM []
     else if payload \<noteq> [] then
       (if length payload > 125 then
          throwM (WsException (''invalid payload for PING (payload length must be <= 125, was ''
                  @ to_string (length payload) @ '')''))
        else sendFrame0 cf 9 payload)
     else sendFrame0 cf 9 [])"

definition sendPong :: "'c ws_config \<Rightarrow> bytes \<Rightarrow> ('c, 'm, unit) ws_prog" where
  "sendPong cf payload = withM (\<lambda>s.
     if ws_state s \<noteq> OPEN then doM []
     else if payload \<noteq> [] then
       (if length payload > 125 then
          throwM (WsException (''invalid payload for PONG (payload length must be <= 125, was ''
                  @ to_string (length payload) @ '')''))
        else sendFrame0 cf 10 payload)
     else sendFrame0 cf 10 [])"

section \<open>Closing, failing and dropping\<close>

definition close_payload :: "close_code option \<Rightarrow> string option \<Rightarrow> bytes" where
  "close_payload code reason =
     (case code of None \<Rightarrow> [] | Some c \<Rightarrow> be_encode 2 (unat c))
     @ (case reason of None \<Rightarrow> [] | Some r \<Rightarrow> bytes_of_string r)"

definition sendCloseFrame ::
  "'c ws_config \<Rightarrow> close_code option \<Rightarrow> string option \<Rightarrow> bool \<Rightarrow> ('c, 'm, unit) ws_prog" where
  "sendCloseFrame cf code reason isReply = withM (\<lambda>s. case ws_state s of
      CLOSING \<Rightarrow> doM []
    | CLOSED \<Rightarrow> doM []
    | PROXY_CONNECTING \<Rightarrow> throwM (WsException ''cannot close a connection not yet connected'')
    | CONNECTING \<Rightarrow> throwM (WsException ''cannot close a connection not yet connected'')
    | OPEN \<Rightarrow> doM [
        sendFrame0 cf 8 (close_payload code reason),
        modifyM (\<lambda>s. s\<lparr> ws_state := CLOSING, ws_closedByMe := \<not> isReply,
                       ws_localCloseCode := code, ws_localCloseReason := reason \<rparr>),
        whenM (\<not> isReply \<and> cf_closeHandshakeTimeout cf > 0)
          (callLaterM CloseHandshakeTimer (cf_closeHandshakeTimeout cf))])"

definition sendClose ::
  "'c ws_config \<Rightarrow> close_code option \<Rightarrow> string option \<Rightarrow> ('c, 'm, unit) ws_prog" where
  "sendClose cf code reason =
     (case code of
        Some c \<Rightarrow>
          (if c \<noteq> 1000 \<and> \<not> (3000 \<le> c \<and> c \<le> 4999) then
             throwM (WsException (''invalid close code '' @ to_string (unat c)
                     @ '' (must be 1000 or from [3000, 4999])''))
           else sendCloseFrame cf code (truncate_text reason 123) False)
      | None \<Rightarrow>
          (if reason \<noteq> None then throwM (WsException ''close reason without close code'')
           else sendCloseFrame cf None None False))"

definition dropConnection :: "bool \<Rightarrow> ('c, 'm, unit) ws_prog" where
  "dropConnection abort = withM (\<lambda>s.
     whenM (ws_state s \<noteq> CLOSED) (doM [
       modifyM (\<lambda>s. s\<lparr> ws_droppedByMe := True, ws_state := CLOSED \<rparr>),
       closeConnection abort]))"

definition failConnection :: "'c ws_config \<Rightarrow> close_code \<Rightarrow> string \<Rightarrow> ('c, 'm, unit) ws_prog" where
  "failConnection cf code reason = withM (\<lambda>s.
     whenM (ws_state s \<noteq> CLOSED) (doM [
       modifyM (\<lambda>s. s\<lparr> ws_failedByMe := True \<rparr>),
       (if cf_failByDrop cf then doM [
          modifyM (\<lambda>s. s\<lparr> ws_wasClean := False,
             ws_wasNotCleanReason := Some (''I dropped the WebSocket TCP connection: '' @ reason) \<rparr>),
          dropConnection True]
        else if ws_state s \<noteq> CLOSING then
          sendCloseFrame cf (Some code) (truncate_text (Some reason) 123) False
        else dropConnection False)]))"

definition protocolViolation :: "'c ws_config \<Rightarrow> string \<Rightarrow> ('c, 'm, bool) ws_prog" where
  "protocolViolation cf reason =
     retM [failConnection cf CLOSE_STATUS_CODE_PROTOCOL_ERROR reason] (cf_failByDrop cf)"

definition invalidPayload :: "'c ws_config \<Rightarrow> string \<Rightarrow> ('c, 'm, bool) ws_prog" where
  "invalidPayload cf reason =
     retM [failConnection cf CLOSE_STATUS_CODE_INVALID_PAYLOAD reason] (cf_failByDrop cf)"

section \<open>Timers\<close>

definition onServerConnectionDropTimeout :: "('c, 'm, unit) ws_prog" where
  "onServerConnectionDropTimeout = doM [
     resetM ServerConnectionDropTimer,
     withM (\<lambda>s. whenM (ws_state s \<noteq> CLOSED) (doM [
       modifyM (\<lambda>s. s\<lparr> ws_wasClean := False,
         ws_wasNotCleanReason := Some
           ''WebSocket closing handshake timeout (server did not drop TCP connection in time)'',
         ws_wasServerConnectionDropTimeout := True \<rparr>),
       dropConnection True]))]"

definition onOpenHandshakeTimeout :: "('c, 'm, unit) ws_prog" where
  "onOpenHandshakeTimeout = doM [
     resetM OpenHandshakeTimer,
     withM (\<lambda>s. whenM (ws_state s = CONNECTING \<or> ws_state s = PROXY_CONNECTING) (doM [
       modifyM (\<lambda>s. s\<lparr> ws_wasClean := False,
         ws_wasNotCleanReason := Some
           ''WebSocket opening handshake timeout (peer did not finish the opening handshake in time)'',
         ws_wasOpenHandshakeTimeout := True \<rparr>),
       dropConnection True]))]"

definition onCloseHandshakeTimeout :: "('c, 'm, unit) ws_prog" where
  "onCloseHandshakeTimeout = doM [
     resetM CloseHandshakeTimer,
     withM (\<lambda>s. whenM (ws_state s \<noteq> CLOSED) (doM [
       modifyM (\<lambda>s. s\<lparr> ws_wasClean := False,
         ws_wasNotCleanReason := Some
           ''WebSocket closing handshake timeout (peer did not finish the opening handshake in time)'',
         ws_wasCloseHandshakeTimeout := True \<rparr>),
       dropConnection True]))]"

definition onAutoPingTimeout :: "('c, 'm, unit) ws_prog" where
  "onAutoPingTimeout = doM [
     modifyM (\<lambda>s. s\<lparr> ws_wasClean := False,
       ws_wasNotCleanReason := Some ''WebSocket ping timeout (peer did not respond with pong in time)'' \<rparr>),
     resetM AutoPingTimeoutTimer,
     dropConnection True]"

text \<open>\<open>WebSocketUtil::newid\<close>: random bytes, Base64 with padding, cut to the length.\<close>

definition b64encode :: "(bytes \<Rightarrow> bytes) \<Rightarrow> bytes \<Rightarrow> bytes" where
  "b64encode raw bs =
     raw bs @ replicate (if length bs mod 3 = 0 then 0 else 3 - length bs mod 3) 61"

definition resize_bytes :: "nat \<Rightarrow> bytes \<Rightarrow> bytes" where
  "resize_bytes n bs = take n bs @ replicate (n - length bs) 0"

definition newid :: "'c ws_config \<Rightarrow> nat \<Rightarrow> ('c, 'm, bytes) ws_prog" where
  "newid cf len =
     bindM (randBytesM cf ((len * 6 + 7) div 8)) (\<lambda>temp.
       returnM (resize_bytes len (b64encode (cf_base64 cf) temp)))"

definition sendAutoPing :: "'c ws_config \<Rightarrow> ('c, 'm, unit) ws_prog" where
  "sendAutoPing cf =
     thenM [resetM AutoPingPendingTimer]
       (bindM (newid cf (cf_autoPingSize cf)) (\<lambda>ping. doM [
          modifyM (\<lambda>s. s\<lparr> ws_autoPingPending := ping \<rparr>),
          sendPing cf ping,
          whenM (cf_autoPingTimeout cf \<noteq> 0) (callLaterM AutoPingTimeoutTimer (cf_autoPingTimeout cf))]))"

end
