(* ===== verification/Ws_Receive.thy ===== *)
theory Ws_Receive
  imports Ws_Send
begin

text \<open>
  The receiving half of \<open>plugins/websocket/protocol.cpp\<close>: \<open>dataReceived\<close>, the frame parser
  \<open>processData\<close>, reassembly of messages, control frames, the closing handshake and
  \<open>connectionLost\<close>. The \<open>while\<close> loop of \<open>consumeData\<close> runs with the fuel
  \<open>2 * size of the buffer + 2\<close>; that this is always enough is proved below.
\<close>

unbundle bit_operations_syntax

section \<open>Messages\<close>

definition onMessageBegin :: "bool \<Rightarrow> ('c, 'm, unit) ws_prog" where
  "onMessageBegin isBinary = modifyM (\<lambda>s. s\<lparr>
     ws_messageIsBinary := isBinary, ws_messageData := [], ws_messageDataTotalLength := 0 \<rparr>)"

definition too_big_reason :: "string \<Rightarrow> nat \<Rightarrow> string" where
  "too_big_reason what limit = what @ '' exceeds payload limit of '' @ to_string limit @ '' octets''"

definition onMessageFrameBegin :: "'c ws_config \<Rightarrow> 64 word \<Rightarrow> ('c, 'm, unit) ws_prog" where
  "onMessageFrameBegin cf len = doM [
     modifyM (\<lambda>s. s\<lparr> ws_frameLength := len, ws_frameData := [],
                    ws_messageDataTotalLength := ws_messageDataTotalLength s + len \<rparr>),
     withM (\<lambda>s. whenM (\<not> ws_failedByMe s)
       (if 0 < cf_maxMessagePayloadSize cf
           \<and> cf_maxMessagePayloadSize cf < unat (ws_messageDataTotalLength s) then doM [
          modifyM (\<lambda>s. s\<lparr> ws_wasMaxMessagePayloadSizeExceeded := True \<rparr>),
          failConnection cf CLOSE_STATUS_CODE_MESSAGE_TOO_BIG
            (too_big_reason ''message'' (cf_maxMessagePayloadSize cf))]
        else if 0 < cf_maxFramePayloadSize cf \<and> cf_maxFramePayloadSize cf < unat len then doM [
          modifyM (\<lambda>s. s\<lparr> ws_wasMaxFramePayloadSizeExceeded := True \<rparr>),
          failConnection cf CLOSE_STATUS_CODE_POLICY_VIOLATION
            (too_big_reason ''frame'' (cf_maxFramePayloadSize cf))]
        else doM []))]"

text \<open>A dereference of \<open>_currentFrame\<close>.\<close>

definition currentFrameM :: "(frame_header \<Rightarrow> ('c, 'm, 'a) ws_prog) \<Rightarrow> ('c, 'm, 'a) ws_prog" where
  "currentFrameM f = withM (\<lambda>s. case ws_currentFrame s of
      None \<Rightarrow> throwM NullDereference | Some fh \<Rightarrow> f fh)"

definition onFrameBegin :: "'c ws_config \<Rightarrow> ('c, 'm, bool) ws_prog" where
  "onFrameBegin cf = currentFrameM (\<lambda>fh. retM [
     (if fh_opcode fh > 7 then modifyM (\<lambda>s. s\<lparr> ws_controlFrameData := [] \<rparr>)
      else doM [
        withM (\<lambda>s. whenM (\<not> ws_insideMessage s) (doM [
          modifyM (\<lambda>s. s\<lparr> ws_insideMessage := True \<rparr>),
          (if has_pmce s \<and> fh_rsv fh = 4 then doM [
             modifyM (\<lambda>s. s\<lparr> ws_isMessageCompressed := True \<rparr>),
             pmceM (pm_startDecompressMessage (cf_pmce cf))]
           else modifyM (\<lambda>s. s\<lparr> ws_isMessageCompressed := False \<rparr>)),
          (if fh_opcode fh = MESSAGE_TYPE_TEXT \<and> cf_utf8validateIncoming cf then
             modifyM (\<lambda>s. s\<lparr> ws_utf8validator := utf8_reset (ws_utf8validator s),
                ws_utf8validateIncomingCurrentMessage := True,
                ws_utf8validateLast := (True, True, 0, 0) \<rparr>)
           else modifyM (\<lambda>s. s\<lparr> ws_utf8validateIncomingCurrentMessage := False \<rparr>)),
          trackM ''onMessageBegin'',
          onMessageBegin (fh_opcode fh = MESSAGE_TYPE_BINARY)])),
        onMessageFrameBegin cf (fh_length fh)])] True)"

definition onMessageFrameData :: "'c ws_config \<Rightarrow> bytes \<Rightarrow> ('c, 'm, unit) ws_prog" where
  "onMessageFrameData cf payload = withM (\<lambda>s. whenM (\<not> ws_failedByMe s)
     (if ws_webSocketVersion s = 0 then doM [
        modifyM (\<lambda>s. s\<lparr> ws_messageDataTotalLength :=
           ws_messageDataTotalLength s + word_of_nat (length payload) \<rparr>),
        withM (\<lambda>s. whenM (0 < cf_maxMessagePayloadSize cf
             \<and> cf_maxMessagePayloadSize cf < unat (ws_messageDataTotalLength s)) (doM [
          modifyM (\<lambda>s. s\<lparr> ws_wasMaxMessagePayloadSizeExceeded := True \<rparr>),
          failConnection cf CLOSE_STATUS_CODE_MESSAGE_TOO_BIG
            (too_big_reason ''message'' (cf_maxMessagePayloadSize cf))])),
        modifyM (\<lambda>s. s\<lparr> ws_messageData := ws_messageData s @ payload \<rparr>)]
      else modifyM (\<lambda>s. s\<lparr> ws_frameData := ws_frameData s @ payload \<rparr>)))"

definition validate_utf8 :: "'c ws_config \<Rightarrow> bytes \<Rightarrow> ('c, 'm, bool) ws_prog" where
  "validate_utf8 cf payload =
     thenM [modifyM (\<lambda>s. let (r, v) = utf8_validate (ws_utf8validator s) payload
                          in s\<lparr> ws_utf8validateLast := r, ws_utf8validator := v \<rparr>)]
       (withM (\<lambda>s. case ws_utf8validateLast s of (valid, _, _, idx) \<Rightarrow>
          if valid then returnM False
          else invalidPayload cf
            (''encountered invalid UTF-8 while processing text message at payload octet index ''
             @ to_string idx)))"

definition onFrameData :: "'c ws_config \<Rightarrow> bytes \<Rightarrow> ('c, 'm, bool) ws_prog" where
  "onFrameData cf payload0 = currentFrameM (\<lambda>fh.
     if fh_opcode fh > 7 then
       retM [modifyM (\<lambda>s. s\<lparr> ws_controlFrameData := ws_controlFrameData s @ payload0 \<rparr>)] True
     else withM (\<lambda>s.
       bindM (if ws_isMessageCompressed s
              then pmceM (pm_decompressMessageData (cf_pmce cf) payload0)
              else returnM payload0) (\<lambda>payload.
       thenM [withM (\<lambda>s. whenM (ws_state s = OPEN) (statsM (\<lambda>t. t\<lparr>
                ts_incomingOctetsWebSocketLevel := ts_incomingOctetsWebSocketLevel t + length payload0,
                ts_incomingOctetsAppLevel := ts_incomingOctetsAppLevel t + length payload \<rparr>)))]
         (bindM (if ws_utf8validateIncomingCurrentMessage s then validate_utf8 cf payload
                 else returnM False) (\<lambda>stop.
            if stop then returnM False
            else retM [onMessageFrameData cf payload] True)))))"

definition onMessageFrameEnd :: "('c, 'm, unit) ws_prog" where
  "onMessageFrameEnd = modifyM (\<lambda>s.
     if \<not> ws_failedByMe s then s\<lparr> ws_messageData := ws_messageData s @ ws_frameData s, ws_frameData := [] \<rparr>
     else s\<lparr> ws_frameData := [] \<rparr>)"

definition onMessageEnd :: "('c, 'm, unit) ws_prog" where
  "onMessageEnd = doM [
     withM (\<lambda>s. whenM (\<not> ws_failedByMe s) (doM [
       trackM ''onMessage'',
       emitM (OnMessage (ws_messageData s) (ws_messageIsBinary s))])),
     modifyM (\<lambda>s. s\<lparr> ws_messageData := [] \<rparr>)]"

section \<open>Control frames\<close>

definition onPing :: "'c ws_config \<Rightarrow> bytes \<Rightarrow> ('c, 'm, unit) ws_prog" where
  "onPing cf payload = doM [
     emitM (OnPing payload),
     withM (\<lambda>s. whenM (ws_state s = OPEN) (sendPong cf payload))]"

definition invalid_close_code :: "close_code \<Rightarrow> bool" where
  "invalid_close_code c \<longleftrightarrow> c < 1000
     \<or> (1000 \<le> c \<and> c \<le> 2999 \<and> c \<notin> set CLOSE_STATUS_CODES_ALLOWED) \<or> c \<ge> 5000"

definition reply_close :: "'c ws_config \<Rightarrow> ('c, 'm, unit) ws_prog" where
  "reply_close cf = withM (\<lambda>s.
     if ws_webSocketVersion s = 0 then sendCloseFrame cf None None True
     else if cf_echoCloseCodeReason cf then
       sendCloseFrame cf (ws_remoteCloseCode s) (truncate_text (ws_remoteCloseReason s) 123) True
     else sendCloseFrame cf (Some CLOSE_STATUS_CODE_NORMAL) None True)"

text \<open>The part of \<open>onCloseFrame\<close> after the code and the reason are recorded.\<close>

definition finish_close :: "'c ws_config \<Rightarrow> ('c, 'm, bool) ws_prog" where
  "finish_close cf = withM (\<lambda>s. case ws_state s of
      CLOSING \<Rightarrow> retM [
        whenM (\<not> call_cancelled (ws_calls s CloseHandshakeTimer))
          (doM [cancelM CloseHandshakeTimer, resetM CloseHandshakeTimer]),
        modifyM (\<lambda>s. s\<lparr> ws_wasClean := True \<rparr>),
        (if cf_isServer cf then dropConnection True
         else whenM (cf_serverConnectionDropTimeout cf > 0)
           (callLaterM ServerConnectionDropTimer (cf_serverConnectionDropTimeout cf)))] False
    | OPEN \<Rightarrow> retM [
        modifyM (\<lambda>s. s\<lparr> ws_wasClean := True \<rparr>),
        reply_close cf,
        whenM (cf_isServer cf) (dropConnection False)] False
    | CLOSED \<Rightarrow> retM [modifyM (\<lambda>s. s\<lparr> ws_wasClean := False \<rparr>)] False
    | CONNECTING \<Rightarrow> throwM (WsException ''logic error'')
    | PROXY_CONNECTING \<Rightarrow> throwM (WsException ''logic error''))"

text \<open>\<open>True\<close> when the method returned early, with the connection already dropped.\<close>

definition record_close_code :: "'c ws_config \<Rightarrow> close_code option \<Rightarrow> ('c, 'm, bool) ws_prog" where
  "record_close_code cf code =
     (case code of
        Some c \<Rightarrow>
          (if invalid_close_code c then
             bindM (protocolViolation cf (''invalid close code '' @ to_string (unat c))) (\<lambda>stop.
               if stop then returnM True
               else retM [modifyM (\<lambda>s. s\<lparr> ws_remoteCloseCode := Some CLOSE_STATUS_CODE_NORMAL \<rparr>)] False)
           else retM [modifyM (\<lambda>s. s\<lparr> ws_remoteCloseCode := Some c \<rparr>)] False)
      | None \<Rightarrow> retM [modifyM (\<lambda>s. s\<lparr> ws_remoteCloseCode := None \<rparr>)] False)"

definition record_close_reason :: "'c ws_config \<Rightarrow> string option \<Rightarrow> ('c, 'm, bool) ws_prog" where
  "record_close_reason cf reasonRaw =
     (case reasonRaw of
        None \<Rightarrow> returnM False
      | Some r \<Rightarrow>
          (case fst (utf8_validate utf8_init (bytes_of_string r)) of (valid, ends, _, _) \<Rightarrow>
             if \<not> (valid \<and> ends) then
               invalidPayload cf ''invalid close reason (non-UTF8 payload)''
             else retM [modifyM (\<lambda>s. s\<lparr> ws_remoteCloseReason := Some r \<rparr>)] False))"

definition onCloseFrame ::
  "'c ws_config \<Rightarrow> close_code option \<Rightarrow> string option \<Rightarrow> ('c, 'm, bool) ws_prog" where
  "onCloseFrame cf code reasonRaw =
     thenM [modifyM (\<lambda>s. s\<lparr> ws_remoteCloseCode := None, ws_remoteCloseReason := None \<rparr>)]
       (bindM (record_close_code cf code) (\<lambda>stop.
          if stop then returnM True
          else bindM (record_close_reason cf reasonRaw) (\<lambda>stop.
            if stop then returnM True else finish_close cf)))"

definition close_frame_code :: "bytes \<Rightarrow> close_code option" where
  "close_frame_code payload =
     (if length payload > 1 then Some (word_of_nat (be_decode (take 2 payload))) else None)"

definition close_frame_reason :: "bytes \<Rightarrow> string option" where
  "close_frame_reason payload =
     (if length payload > 2 then Some (string_of_bytes (drop 2 payload)) else None)"

definition match_autoPing :: "'c ws_config \<Rightarrow> bytes \<Rightarrow> ('c, 'm, unit) ws_prog" where
  "match_autoPing cf payload = withM (\<lambda>s. whenM (ws_autoPingPending s \<noteq> [])
     (tryM (whenM (payload = ws_autoPingPending s) (doM [
        whenM (\<not> call_cancelled (ws_calls s AutoPingTimeoutTimer)) (cancelM AutoPingTimeoutTimer),
        modifyM (\<lambda>s. s\<lparr> ws_autoPingPending := [] \<rparr>),
        resetM AutoPingTimeoutTimer,
        whenM (cf_autoPingInterval cf \<noteq> 0)
          (callLaterM AutoPingPendingTimer (cf_autoPingInterval cf))]))
      (\<lambda>e. doM [])))"

definition processControlFrame :: "'c ws_config \<Rightarrow> ('c, 'm, bool) ws_prog" where
  "processControlFrame cf = withM (\<lambda>s. currentFrameM (\<lambda>fh.
     (let payload = ws_controlFrameData s in
      thenM [modifyM (\<lambda>s. s\<lparr> ws_controlFrameData := [] \<rparr>)]
        (if fh_opcode fh = 8 then
           bindM (onCloseFrame cf (close_frame_code payload) (close_frame_reason payload)) (\<lambda>stop.
             returnM (\<not> stop))
         else if fh_opcode fh = 9 then retM [onPing cf payload] True
         else if fh_opcode fh = 10 then retM [match_autoPing cf payload, emitM (OnPong payload)] True
         else returnM True))))"

text \<open>The body of \<open>onFrameEnd\<close> before it clears the current frame; \<open>False\<close> is its early return.\<close>

definition finish_frame :: "'c ws_config \<Rightarrow> frame_header \<Rightarrow> ('c, 'm, bool) ws_prog" where
  "finish_frame cf fh =
     (if fh_opcode fh > 7 then bindM (processControlFrame cf) (\<lambda>_. returnM True)
      else
        thenM [withM (\<lambda>s. whenM (ws_state s = OPEN) (statsM (\<lambda>t. t\<lparr>
                  ts_incomingWebSocketFrames := ts_incomingWebSocketFrames t + 1 \<rparr>))),
               onMessageFrameEnd]
          (if fh_fin fh then
             thenM [withM (\<lambda>s. whenM (ws_isMessageCompressed s)
                      (pmceM (pm_endDecompressMessage (cf_pmce cf))))]
               (bindM (withM (\<lambda>s.
                   if ws_utf8validateIncomingCurrentMessage s then
                     (case ws_utf8validateLast s of (_, ends, _, idx) \<Rightarrow>
                        if \<not> ends then invalidPayload cf
                          (''UTF-8 text message payload ended within Unicode code point at payload octet ''
                           @ ''index '' @ to_string idx)
                        else returnM False)
                   else returnM False)) (\<lambda>stop.
                  if stop then returnM False
                  else retM [
                    withM (\<lambda>s. whenM (ws_state s = OPEN) (statsM (\<lambda>t. t\<lparr>
                      ts_incomingWebSocketMessages := ts_incomingWebSocketMessages t + 1 \<rparr>))),
                    onMessageEnd,
                    modifyM (\<lambda>s. s\<lparr> ws_insideMessage := False \<rparr>)] True))
           else returnM True))"

definition onFrameEnd :: "'c ws_config \<Rightarrow> ('c, 'm, bool) ws_prog" where
  "onFrameEnd cf = currentFrameM (\<lambda>fh. bindM (finish_frame cf fh) (\<lambda>go.
     if go then retM [modifyM (\<lambda>s. s\<lparr> ws_currentFrame := None \<rparr>)] True
     else returnM False))"

section \<open>The frame parser\<close>

definition b0_fin :: "byte \<Rightarrow> bool" where "b0_fin b \<longleftrightarrow> b AND 0x80 \<noteq> 0"
definition b0_rsv :: "byte \<Rightarrow> byte" where "b0_rsv b = drop_bit 4 (b AND 0x70)"
definition b0_opcode :: "byte \<Rightarrow> byte" where "b0_opcode b = b AND 0x0f"
definition b1_masked :: "byte \<Rightarrow> bool" where "b1_masked b \<longleftrightarrow> b AND 0x80 \<noteq> 0"
definition b1_len :: "byte \<Rightarrow> byte" where "b1_len b = b AND 0x7f"

text \<open>The violations \<open>processData\<close> tests for before it knows the length, in its order.\<close>

definition header_checks ::
  "'c ws_config \<Rightarrow> ('c, 'm) ws_conn_scheme \<Rightarrow> byte \<Rightarrow> byte \<Rightarrow> (bool \<times> string) list" where
  "header_checks cf s b0 b1 =
     (let fin = b0_fin b0; rsv = b0_rsv b0; opcode = b0_opcode b0;
          masked = b1_masked b1; len1 = b1_len b1;
          name = pm_getExtensionName (cf_pmce cf)
      in [(rsv \<noteq> 0 \<and> \<not> (has_pmce s \<and> rsv = 4),
             ''RSV = '' @ to_string (unat rsv) @ '' and no extension negotiated''),
          (cf_isServer cf \<and> cf_requireMaskedClientFrames cf \<and> \<not> masked, ''unmasked client-to-server frame''),
          (\<not> cf_isServer cf \<and> \<not> cf_acceptMaskedServerFrames cf \<and> masked, ''masked server-to-client frame'')]
         @ (if opcode > 7 then
              [(\<not> fin, ''fragmented control frame''),
               (len1 > 125, ''control frame with payload length > 125 octets''),
               (opcode \<noteq> 8 \<and> opcode \<noteq> 9 \<and> opcode \<noteq> 10,
                  ''control frame using reserved opcode '' @ to_string (unat opcode)),
               (opcode = 8 \<and> len1 = 1, ''received close control frame with payload len 1''),
               (has_pmce s \<and> rsv = 4, ''received compressed control frame ['' @ name @ '']'')]
            else
              [(opcode \<noteq> 0 \<and> opcode \<noteq> 1 \<and> opcode \<noteq> 2,
                  ''data frame using reserved opcode '' @ to_string (unat opcode)),
               (\<not> ws_insideMessage s \<and> opcode = 0,
                  ''received continuation data frame outside fragmented message''),
               (ws_insideMessage s \<and> opcode \<noteq> 0,
                  ''received non-continuation data frame while inside fragmented message''),
               (has_pmce s \<and> rsv = 4 \<and> ws_insideMessage s,
                  ''received continuation data frame with compress bit set ['' @ name @ '']'')]))"

definition header_len :: "byte \<Rightarrow> nat" where
  "header_len b1 =
     (if b1_len b1 < 126 then 2 else if b1_len b1 = 126 then 2 + 2 else 2 + 8)
     + (if b1_masked b1 then 4 else 0)"

definition payload_len :: "bytes \<Rightarrow> 64 word" where
  "payload_len data =
     (let len1 = b1_len (data ! 1)
      in if len1 = 126 then word_of_nat (be_decode (take 2 (drop 2 data)))
         else if len1 = 127 then word_of_nat (be_decode (take 8 (drop 2 data)))
         else ucast len1)"

definition length_checks :: "byte \<Rightarrow> 64 word \<Rightarrow> (bool \<times> string) list" where
  "length_checks len1 plen =
     (if len1 = 126 then
        [(plen < 126, ''invalid data frame length (not using minimal length encoding)'')]
      else if len1 = 127 then
        [(plen > 0x7fffffffffffffff, ''invalid data frame length (>2^63)''),
         (plen < 65536, ''invalid data frame length (not using minimal length encoding)'')]
      else [])"

definition frame_mask :: "bytes \<Rightarrow> ws_mask option" where
  "frame_mask data =
     (if b1_masked (data ! 1) then Some (take 4 (drop (header_len (data ! 1) - 4) data)) else None)"

text \<open>\<open>if (violated && protocolViolation(reason)) return false;\<close>, one after the other.\<close>

fun guardsM ::
  "'c ws_config \<Rightarrow> (bool \<times> string) list \<Rightarrow> ('c, 'm, bool) ws_prog \<Rightarrow> ('c, 'm, bool) ws_prog" where
  "guardsM cf [] m = m"
| "guardsM cf ((violated, reason) # gs) m =
     (if violated then
        bindM (protocolViolation cf reason) (\<lambda>stop. if stop then returnM False else guardsM cf gs m)
      else guardsM cf gs m)"

definition beginFrame :: "'c ws_config \<Rightarrow> bytes \<Rightarrow> ('c, 'm, bool) ws_prog" where
  "beginFrame cf data =
     (let b0 = data ! 0; plen = payload_len data; msk = frame_mask data
      in thenM [
           modifyM (\<lambda>s. s\<lparr>
             ws_currentFrameMasker :=
               (case msk of
                  Some m \<Rightarrow> if plen > 0 \<and> cf_applyMask cf then createXorMasker m plen else XorMaskerNull 0
                | None \<Rightarrow> XorMaskerNull 0),
             ws_data := drop (header_len (data ! 1)) data,
             ws_currentFrame := Some \<lparr> fh_opcode = b0_opcode b0, fh_fin = b0_fin b0,
               fh_rsv = b0_rsv b0, fh_length = plen, fh_mask = msk \<rparr> \<rparr>)]
         (bindM (onFrameBegin cf) (\<lambda>_. getsM (\<lambda>s. plen = 0 \<or> ws_data s \<noteq> []))))"

definition processHeader :: "'c ws_config \<Rightarrow> ('c, 'm, bool) ws_prog" where
  "processHeader cf = withM (\<lambda>s.
     (let data = ws_data s in
      if length data \<ge> 2 then
        guardsM cf (header_checks cf s (data ! 0) (data ! 1))
          (if length data \<ge> header_len (data ! 1) then
             guardsM cf (length_checks (b1_len (data ! 1)) (payload_len data)) (beginFrame cf data)
           else returnM False)
      else returnM False))"

definition processPayload :: "'c ws_config \<Rightarrow> frame_header \<Rightarrow> ('c, 'm, bool) ws_prog" where
  "processPayload cf fh = withM (\<lambda>s.
     (let rest = unat (fh_length fh - masker_pointer (ws_currentFrameMasker s));
          payload = take rest (ws_data s);
          (payload', masker') =
            (if payload \<noteq> [] then masker_process (ws_currentFrameMasker s) payload
             else (payload, ws_currentFrameMasker s))
      in thenM [modifyM (\<lambda>s. s\<lparr> ws_data := drop rest (ws_data s), ws_currentFrameMasker := masker' \<rparr>)]
           (bindM (onFrameData cf payload') (\<lambda>go.
              if \<not> go then returnM False
              else withM (\<lambda>s.
                bindM (if masker_pointer (ws_currentFrameMasker s) = fh_length fh then onFrameEnd cf
                       else returnM True) (\<lambda>go.
                  if \<not> go then returnM False else getsM (\<lambda>s. ws_data s \<noteq> [])))))))"

definition processData :: "'c ws_config \<Rightarrow> ('c, 'm, bool) ws_prog" where
  "processData cf = withM (\<lambda>s. case ws_currentFrame s of
      None \<Rightarrow> processHeader cf
    | Some fh \<Rightarrow> processPayload cf fh)"

section \<open>Entry points\<close>

text \<open>\<open>while (processData() && _state != State::CLOSED)\<close>; the result says that the loop ended.\<close>

definition frame_round :: "'c ws_config \<Rightarrow> ('c, 'm, bool) ws_prog" where
  "frame_round cf =
     bindM (processData cf) (\<lambda>go. if go then getsM (\<lambda>s. ws_state s \<noteq> CLOSED) else returnM False)"

definition consumeFrames :: "'c ws_config \<Rightarrow> ('c, 'm, bool) ws_prog" where
  "consumeFrames cf = withM (\<lambda>s. loopM (2 * length (ws_data s) + 2) (frame_round cf))"

text \<open>\<open>processProxyConnect\<close> and \<open>processHandshake\<close> are virtual.\<close>

definition consumeData ::
  "'c ws_config \<Rightarrow> ('c, 'm, unit) ws_prog \<Rightarrow> ('c, 'm, unit) ws_prog \<Rightarrow> ('c, 'm, unit) ws_prog" where
  "consumeData cf proxyConnect handshake = withM (\<lambda>s. case ws_state s of
      OPEN \<Rightarrow> bindM (consumeFrames cf) (\<lambda>_. doM [])
    | CLOSING \<Rightarrow> bindM (consumeFrames cf) (\<lambda>_. doM [])
    | PROXY_CONNECTING \<Rightarrow> proxyConnect
    | CONNECTING \<Rightarrow> handshake
    | CLOSED \<Rightarrow> doM [])"

definition countReceived :: "nat \<Rightarrow> ('c, 'm, unit) ws_prog" where
  "countReceived n = withM (\<lambda>s.
     if ws_state s = OPEN then
       statsM (\<lambda>t. t\<lparr> ts_incomingOctetsWireLevel := ts_incomingOctetsWireLevel t + n \<rparr>)
     else if ws_state s = CONNECTING \<or> ws_state s = PROXY_CONNECTING then
       statsM (\<lambda>t. t\<lparr> ts_preopenIncomingOctetsWireLevel := ts_preopenIncomingOctetsWireLevel t + n \<rparr>)
     else doM [])"

definition dataReceived ::
  "'c ws_config \<Rightarrow> ('c, 'm, unit) ws_prog \<Rightarrow> ('c, 'm, unit) ws_prog \<Rightarrow> bytes \<Rightarrow> ('c, 'm, unit) ws_prog" where
  "dataReceived cf proxyConnect handshake data = doM [
     countReceived (length data),
     modifyM (\<lambda>s. s\<lparr> ws_data := ws_data s @ data \<rparr>),
     consumeData cf proxyConnect handshake]"

definition cancelResetM :: "ws_timer \<Rightarrow> ('c, 'm, unit) ws_prog" where
  "cancelResetM t = withM (\<lambda>s. whenM (\<not> call_cancelled (ws_calls s t)) (doM [cancelM t, resetM t]))"

definition peer_dropped_reason :: string where
  "peer_dropped_reason = ''peer dropped the TCP connection without previous WebSocket closing handshake''"

definition connectionLost :: "'c ws_config \<Rightarrow> ('c, 'm, unit) ws_prog" where
  "connectionLost cf = doM [
     whenM (\<not> cf_isServer cf) (cancelResetM ServerConnectionDropTimer),
     cancelResetM AutoPingPendingTimer,
     modifyM (\<lambda>s. s\<lparr> ws_state := CLOSED \<rparr>),
     withM (\<lambda>s. whenM (\<not> ws_wasServingFlashSocketPolicyFile s)
       (if \<not> ws_wasClean s then doM [
          whenM (\<not> ws_droppedByMe s \<and> ws_wasNotCleanReason s = None)
            (modifyM (\<lambda>s. s\<lparr> ws_wasNotCleanReason := Some peer_dropped_reason \<rparr>)),
          withM (\<lambda>s. case ws_wasNotCleanReason s of
              None \<Rightarrow> throwM NullDereference
            | Some r \<Rightarrow> emitM (OnClose (ws_wasClean s) (Some CLOSE_STATUS_CODE_ABNORMAL_CLOSE)
                 (Some (''connection was closed uncleanly ('' @ r @ '')''))))]
        else emitM (OnClose (ws_wasClean s) (ws_remoteCloseCode s) (ws_remoteCloseReason s))))]"

definition base_connectionMade :: "'c ws_config \<Rightarrow> ('c, 'm, unit) ws_prog" where
  "base_connectionMade cf = doM [
     modifyM (\<lambda>s. s\<lparr> ws_tracked := cf_trackTimings cf, ws_sendState := GROUND \<rparr>),
     whenM (cf_openHandshakeTimeout cf > 0) (callLaterM OpenHandshakeTimer (cf_openHandshakeTimeout cf)),
     emitM (SetNoDelay (cf_tcpNoDelay cf))]"

end
