(* ===== verification/Ws_Frame.thy ===== *)
theory Ws_Frame
  imports Ws_Receive
begin

text \<open>
  The wire format of a frame: what \<open>sendFrame\<close> writes is what \<open>processData\<close> reads back, field by
  field, in the shortest length encoding, and with none of the length violations.
\<close>

unbundle bit_operations_syntax

section \<open>The two header octets\<close>

lemma all_bytes_below:
  assumes "list_all P (map word_of_nat [0..<n])" and "unat (b :: byte) < n"
  shows "P b"
proof -
  have "\<forall>x\<in>set [0..<n]. P (word_of_nat x)" using assms(1) unfolding list_all_iff by simp
  moreover have "unat b \<in> set [0..<n]" using assms(2) by simp
  ultimately have "P (word_of_nat (unat b))" by blast
  then show ?thesis by simp
qed

lemma b0_table:
  "list_all (\<lambda>opcode :: byte. list_all (\<lambda>rsv :: byte. list_all (\<lambda>fin.
      b0_fin (frame_b0 opcode fin rsv) = fin \<and> b0_opcode (frame_b0 opcode fin rsv) = opcode
    \<and> b0_rsv (frame_b0 opcode fin rsv) = rsv) [False, True]) (map word_of_nat [0..<8])) (map word_of_nat [0..<16])"
  by code_simp

lemma b0_roundtrip:
  assumes "unat opcode < 16" and "unat rsv < 8"
  shows "b0_fin (frame_b0 opcode fin rsv) = fin" "b0_opcode (frame_b0 opcode fin rsv) = opcode"
    "b0_rsv (frame_b0 opcode fin rsv) = rsv"
  using all_bytes_below [OF all_bytes_below [OF b0_table assms(1)] assms(2)] by (cases fin; simp)+

lemma b1_table:
  "list_all (\<lambda>l :: byte. b1_len l = l \<and> \<not> b1_masked l \<and> b1_len (0x80 OR l) = l \<and> b1_masked (0x80 OR l))
     (map word_of_nat [0..<128])"
  by code_simp

lemma b1_roundtrip:
  assumes "unat l < 128"
  shows "b1_len ((if m then 0x80 else 0) OR l) = l" "b1_masked ((if m then 0x80 else 0) OR l) = m"
  using all_bytes_below [OF b1_table assms] by (cases m; simp)+

lemma frame_len7_less: "unat (frame_len7 l) < 128"
  by (simp add: frame_len7_def)

lemma frame_len7_cases:
  "l \<le> 125 \<Longrightarrow> frame_len7 l < 126" "125 < l \<Longrightarrow> l \<le> 0xffff \<Longrightarrow> frame_len7 l = 126"
  "0xffff < l \<Longrightarrow> frame_len7 l = 127"
  by (simp_all add: frame_len7_def word_less_nat_alt)

lemma length_frame_ext:
  "length (frame_ext l) = (if l \<le> 125 then 0 else if l \<le> 0xffff then 2 else 8)"
  by (simp add: frame_ext_def)

section \<open>The header as a whole\<close>

definition key_octets :: "ws_mask option \<Rightarrow> bytes" where
  "key_octets used = (case used of None \<Rightarrow> [] | Some m \<Rightarrow> m)"

definition masked_payload :: "'c ws_config \<Rightarrow> ws_mask option \<Rightarrow> bytes \<Rightarrow> bytes" where
  "masked_payload cf used pl =
     (case used of None \<Rightarrow> pl
      | Some msk \<Rightarrow> if pl \<noteq> [] \<and> cf_applyMask cf
          then fst (masker_process (createXorMasker msk (word_of_nat (length pl))) pl) else pl)"

definition valid_key :: "ws_mask option \<Rightarrow> bool" where
  "valid_key used \<longleftrightarrow> (case used of None \<Rightarrow> True | Some m \<Rightarrow> length m = 4)"

lemma length_masked_payload [simp]:
  "valid_key used \<Longrightarrow> length (masked_payload cf used pl) = length pl"
  by (auto simp: masked_payload_def valid_key_def xm.process_length wf_createXorMasker split: option.splits)

lemma frame_octets_eq:
  "frame_octets cf opcode fin rsv pl used (key_octets used) =
     frame_b0 opcode fin rsv # ((if used \<noteq> None then 0x80 else 0) OR frame_len7 (length pl))
     # frame_ext (length pl) @ key_octets used @ masked_payload cf used pl"
  by (simp add: frame_octets_def masked_payload_def Let_def split: option.split)

lemma header_len_octets:
  assumes "valid_key used" and "data = frame_octets cf opcode fin rsv pl used (key_octets used) @ tail"
  shows "header_len (data ! 1) = 2 + length (frame_ext (length pl)) + length (key_octets used)"
    and "drop (header_len (data ! 1)) data = masked_payload cf used pl @ tail"
    and "2 + length (frame_ext (length pl)) + length (key_octets used) \<le> length data"
proof -
  let ?l7 = "frame_len7 (length pl)"
  have d1: "data ! 1 = (if used \<noteq> None then 0x80 else 0) OR ?l7"
    using assms(2) by (simp add: frame_octets_eq)
  have b: "b1_len (data ! 1) = ?l7" "b1_masked (data ! 1) = (used \<noteq> None)"
    unfolding d1 by (rule b1_roundtrip [OF frame_len7_less])+
  have k: "length (key_octets used) = (if used \<noteq> None then 4 else 0)"
    using assms(1) by (auto simp: valid_key_def key_octets_def split: option.splits)
  show h: "header_len (data ! 1) = 2 + length (frame_ext (length pl)) + length (key_octets used)"
  proof -
    consider "length pl \<le> 125" | "125 < length pl" "length pl \<le> 0xffff" | "0xffff < length pl" by linarith
    then show ?thesis
    proof cases
      case 1
      then show ?thesis unfolding header_len_def b k length_frame_ext using frame_len7_cases(1) by simp
    next
      case 2
      then show ?thesis unfolding header_len_def b k length_frame_ext by (simp add: frame_len7_cases(2))
    next
      case 3
      then show ?thesis unfolding header_len_def b k length_frame_ext by (simp add: frame_len7_cases(3))
    qed
  qed
  show "drop (header_len (data ! 1)) data = masked_payload cf used pl @ tail"
    unfolding h unfolding assms(2) by (simp add: frame_octets_eq)
  show "2 + length (frame_ext (length pl)) + length (key_octets used) \<le> length data"
    unfolding assms(2) by (simp add: frame_octets_eq)
qed

lemma payload_len_octets:
  assumes "data = frame_octets cf opcode fin rsv pl used (key_octets used) @ tail"
    and "length pl < 2 ^ 63"
  shows "payload_len data = word_of_nat (length pl)"
    and "\<not> list_ex fst (length_checks (b1_len (data ! 1)) (payload_len data))"
proof -
  let ?l = "length pl"
  have b: "b1_len (data ! 1) = frame_len7 ?l"
    unfolding assms(1) using b1_roundtrip [OF frame_len7_less] by (simp add: frame_octets_eq)
  have w: "unat (word_of_nat ?l :: 64 word) = ?l"
    using assms(2) by (simp add: unat_of_nat)
  have e: "drop 2 data = frame_ext ?l @ key_octets used @ masked_payload cf used pl @ tail"
    unfolding assms(1) by (simp add: frame_octets_eq numeral_2_eq_2)
  consider "?l \<le> 125" | "125 < ?l" "?l \<le> 0xffff" | "0xffff < ?l" by linarith
  then have "payload_len data = word_of_nat ?l
    \<and> \<not> list_ex fst (length_checks (b1_len (data ! 1)) (payload_len data))"
  proof cases
    case 1
    then have "frame_len7 ?l \<noteq> 126" "frame_len7 ?l \<noteq> 127" using frame_len7_cases(1) by force+
    moreover have "(ucast (frame_len7 ?l) :: 64 word) = word_of_nat ?l"
      using 1 by (simp add: frame_len7_def) (simp add: word_eq_iff_unsigned unsigned_ucast_eq unsigned_of_nat take_bit_nat_eq_self)
    ultimately show ?thesis by (simp add: payload_len_def b length_checks_def Let_def del: One_nat_def)
  next
    case 2
    then have "payload_len data = word_of_nat ?l"
      by (simp add: payload_len_def b e frame_len7_cases frame_ext_def be_decode_encode Let_def del: One_nat_def)
    then show ?thesis using 2 w
      by (simp add: b frame_len7_cases length_checks_def word_less_nat_alt del: One_nat_def)
  next
    case 3
    then have "payload_len data = word_of_nat ?l"
      using assms(2) by (simp add: payload_len_def b e frame_len7_cases frame_ext_def be_decode_encode Let_def del: One_nat_def)
    then show ?thesis using 3 w assms(2)
      by (simp add: b frame_len7_cases length_checks_def word_less_nat_alt del: One_nat_def)
  qed
  then show "payload_len data = word_of_nat ?l"
    "\<not> list_ex fst (length_checks (b1_len (data ! 1)) (payload_len data))" by blast+
qed

lemma frame_mask_octets:
  assumes "valid_key used" and "data = frame_octets cf opcode fin rsv pl used (key_octets used) @ tail"
  shows "frame_mask data = used" and "b1_masked (data ! 1) = (used \<noteq> None)"
proof -
  show b: "b1_masked (data ! 1) = (used \<noteq> None)"
    unfolding assms(2) using b1_roundtrip [OF frame_len7_less] by (simp add: frame_octets_eq)
  show "frame_mask data = used"
  proof (cases used)
    case None
    with b show ?thesis by (simp add: frame_mask_def)
  next
    case (Some m)
    have "drop (2 + length (frame_ext (length pl))) data = m @ masked_payload cf used pl @ tail"
      unfolding assms(2) frame_octets_eq using Some by (simp add: key_octets_def)
    moreover have "length m = 4" using assms(1) Some by (simp add: valid_key_def)
    ultimately show ?thesis
      using b Some header_len_octets(1) [OF assms] by (simp add: frame_mask_def key_octets_def)
  qed
qed

lemma opcode_octets:
  assumes "data = frame_octets cf opcode fin rsv pl used mv @ tail" and "unat opcode < 16" "unat rsv < 8"
  shows "b0_fin (data ! 0) = fin" "b0_opcode (data ! 0) = opcode" "b0_rsv (data ! 0) = rsv"
  using b0_roundtrip [OF assms(2,3)] by (simp_all add: assms(1) frame_octets_def Let_def)

text \<open>The receiver's masker undoes the sender's.\<close>

definition frame_masker :: "'c ws_config \<Rightarrow> ws_mask option \<Rightarrow> 64 word \<Rightarrow> xor_masker" where
  "frame_masker cf used plen =
     (case used of Some m \<Rightarrow> if plen > 0 \<and> cf_applyMask cf then createXorMasker m plen else XorMaskerNull 0
      | None \<Rightarrow> XorMaskerNull 0)"

lemma unmask_masked_payload:
  assumes "valid_key used" and "cf_applyMask cf = cf_applyMask cf'" and "length pl < 2 ^ 64"
  shows "fst (masker_process (frame_masker cf used (word_of_nat (length pl))) (masked_payload cf' used pl)) = pl"
proof (cases used)
  case None
  then show ?thesis by (simp add: frame_masker_def masked_payload_def null_process_def)
next
  case (Some m)
  have pos: "0 < (word_of_nat (length pl) :: 64 word) \<longleftrightarrow> pl \<noteq> []"
    using assms(3) by (simp add: word_less_nat_alt unat_of_nat)
  have "length m = 4" using assms(1) Some by (simp add: valid_key_def)
  note tw = xm.process_twice [OF wf_createXorMasker [OF this], of "word_of_nat (length pl)" pl]
  show ?thesis
    unfolding frame_masker_def masked_payload_def Some option.case pos assms(2)
    using tw by (simp add: null_process_def)
qed

end
