(* ===== verification/Ws_Lifecycle.thy ===== *)
theory Ws_Lifecycle
  imports Ws_Frame
begin

text \<open>
  What no method of the base protocol does: go back in the life of a connection, take back
  something already sent or reported, or touch the receive side while sending. The first
  relation, \<open>send_rel\<close>, is the frame condition of the sending methods; the second,
  \<open>life_rel\<close>, orders the connection states and the trace. Both are state relations, so each
  method needs one line.
\<close>

section \<open>The frame condition of sending\<close>

definition scrub :: "('c, 'm) ws_conn_scheme \<Rightarrow> ('c, 'm) ws_conn_scheme" where
  "scrub s = s\<lparr> ws_sendQueue := [], ws_triggered := False, ws_stats := traffic_reset (ws_stats s),
     ws_calls := (\<lambda>_. Expired), ws_randomPos := 0, ws_pmce := None, ws_out := [] \<rparr>"

text \<open>Events of the transport and the reactor that do not end the connection.\<close>

fun is_io :: "ws_event \<Rightarrow> bool" where
  "is_io (Write _) = True"
| "is_io (SetNoDelay _) = True"
| "is_io (CallLater _ _) = True"
| "is_io (CancelTimer _) = True"
| "is_io (Track _) = True"
| "is_io _ = False"

definition notable :: "('c, 'm) ws_conn_scheme \<Rightarrow> ws_event list" where
  "notable s = filter (\<lambda>e. \<not> is_io e) (ws_out s)"

definition send_rel :: "('c, 'm) ws_conn_scheme \<Rightarrow> ('c, 'm) ws_conn_scheme \<Rightarrow> bool" where
  "send_rel s t \<longleftrightarrow> scrub t = scrub s \<and> prefix (ws_out s) (ws_out t) \<and> has_pmce t = has_pmce s
     \<and> notable t = notable s"

interpretation sr: state_rel send_rel
  by unfold_locales (auto simp: send_rel_def)

lemma scrub_fields:
  "ws_state (scrub s) = ws_state s" "ws_data (scrub s) = ws_data s"
    "ws_autoPingPending (scrub s) = ws_autoPingPending s" "ws_tracked (scrub s) = ws_tracked s"
    "ws_closedByMe (scrub s) = ws_closedByMe s" "ws_failedByMe (scrub s) = ws_failedByMe s"
    "ws_droppedByMe (scrub s) = ws_droppedByMe s" "ws_wasClean (scrub s) = ws_wasClean s"
    "ws_wasNotCleanReason (scrub s) = ws_wasNotCleanReason s"
    "ws_localCloseCode (scrub s) = ws_localCloseCode s"
    "ws_localCloseReason (scrub s) = ws_localCloseReason s"
    "ws_remoteCloseCode (scrub s) = ws_remoteCloseCode s"
    "ws_remoteCloseReason (scrub s) = ws_remoteCloseReason s"
    "ws_wasServingFlashSocketPolicyFile (scrub s) = ws_wasServingFlashSocketPolicyFile s"
    "ws_webSocketVersion (scrub s) = ws_webSocketVersion s"
    "ws_insideMessage (scrub s) = ws_insideMessage s"
    "ws_currentFrame (scrub s) = ws_currentFrame s"
    "ws_currentFrameMasker (scrub s) = ws_currentFrameMasker s"
    "ws_messageData (scrub s) = ws_messageData s" "ws_frameData (scrub s) = ws_frameData s"
    "ws_controlFrameData (scrub s) = ws_controlFrameData s"
    "ws_messageIsBinary (scrub s) = ws_messageIsBinary s"
    "ws_messageDataTotalLength (scrub s) = ws_messageDataTotalLength s"
    "ws_utf8validator (scrub s) = ws_utf8validator s"
    "ws_utf8validateLast (scrub s) = ws_utf8validateLast s"
    "ws_utf8validateIncomingCurrentMessage (scrub s) = ws_utf8validateIncomingCurrentMessage s"
    "ws_isMessageCompressed (scrub s) = ws_isMessageCompressed s"
  by (simp_all add: scrub_def)

lemma send_rel_fields:
  assumes "send_rel s t"
  shows
    "ws_state t = ws_state s" "ws_data t = ws_data s" "ws_autoPingPending t = ws_autoPingPending s"
    "ws_tracked t = ws_tracked s" "ws_closedByMe t = ws_closedByMe s"
    "ws_failedByMe t = ws_failedByMe s" "ws_droppedByMe t = ws_droppedByMe s"
    "ws_wasClean t = ws_wasClean s" "ws_wasNotCleanReason t = ws_wasNotCleanReason s"
    "ws_localCloseCode t = ws_localCloseCode s" "ws_localCloseReason t = ws_localCloseReason s"
    "ws_remoteCloseCode t = ws_remoteCloseCode s" "ws_remoteCloseReason t = ws_remoteCloseReason s"
    "ws_wasServingFlashSocketPolicyFile t = ws_wasServingFlashSocketPolicyFile s"
    "ws_webSocketVersion t = ws_webSocketVersion s" "ws_insideMessage t = ws_insideMessage s"
    "ws_currentFrame t = ws_currentFrame s" "ws_currentFrameMasker t = ws_currentFrameMasker s"
    "ws_messageData t = ws_messageData s" "ws_frameData t = ws_frameData s"
    "ws_controlFrameData t = ws_controlFrameData s" "ws_messageIsBinary t = ws_messageIsBinary s"
    "ws_messageDataTotalLength t = ws_messageDataTotalLength s"
    "ws_utf8validator t = ws_utf8validator s" "ws_utf8validateLast t = ws_utf8validateLast s"
    "ws_utf8validateIncomingCurrentMessage t = ws_utf8validateIncomingCurrentMessage s"
    "ws_isMessageCompressed t = ws_isMessageCompressed s"
    "has_pmce t = has_pmce s" "prefix (ws_out s) (ws_out t)" "notable t = notable s"
  using assms unfolding send_rel_def by (metis scrub_fields)+

lemmas send_rel_defs = send_rel_def scrub_def has_pmce_def notable_def traffic_reset_def

lemma send_emitM: "is_io e \<Longrightarrow> evolves send_rel (emitM e)"
  unfolding emitM_def by (rule sr.ev_modifyM) (simp add: send_rel_defs)

lemma send_emit_io [evolves_intros]:
  "evolves send_rel (emitM (Write d))" "evolves send_rel (emitM (SetNoDelay b))"
  "evolves send_rel (emitM (CallLater t r))" "evolves send_rel (emitM (CancelTimer t))"
  "evolves send_rel (emitM (Track k))"
  by (simp_all add: send_emitM)

lemma send_statsM [evolves_intros]: "evolves send_rel (statsM f)"
  unfolding statsM_def
  by (rule sr.ev_modifyM) (simp add: send_rel_defs)

lemma send_callLaterM [evolves_intros]: "evolves send_rel (callLaterM t d)"
  unfolding callLaterM_def
  by (intro sr.ev_rules evolves_intros sr.ev_modifyM) (simp add: send_rel_defs)

lemma send_cancelM [evolves_intros]: "evolves send_rel (cancelM t)"
  unfolding cancelM_def
  by (intro sr.ev_rules evolves_intros sr.ev_modifyM) (simp add: send_rel_defs)

lemma send_resetM [evolves_intros]: "evolves send_rel (resetM t)"
  unfolding resetM_def by (rule sr.ev_modifyM) (simp add: send_rel_defs)

lemma send_trackM [evolves_intros]: "evolves send_rel (trackM k)"
  unfolding trackM_def by (intro sr.ev_rules evolves_intros)

lemma send_randBytesM [evolves_intros]: "evolves send_rel (randBytesM cf n)"
  unfolding randBytesM_def
  by (intro sr.ev_rules evolves_intros sr.ev_modifyM) (simp add: send_rel_defs)

lemma send_pmceM [evolves_intros]: "evolves send_rel (pmceM m :: ('c, 'm, 'a) ws_prog)"
proof (rule evolvesI)
  fix s :: "('c, 'm) ws_conn_scheme"
  have "send_rel s (s\<lparr> ws_pmce := Some c \<rparr>)" if "ws_pmce s \<noteq> None" for c
    using that by (simp add: send_rel_defs)
  then show "send_rel s (snd (pmceM m s))"
    by (auto simp: pmceM_def prog_simps sr.rel_refl split: option.split prod.split sum.split)
qed

lemma send_enqueue [evolves_intros]: "evolves send_rel (enqueue d b)"
  unfolding enqueue_def by (rule sr.ev_modifyM) (simp add: send_rel_defs)

lemma send_countWire [evolves_intros]: "evolves send_rel (countWire n)"
  unfolding countWire_def by (intro sr.ev_rules evolves_intros)

lemma send_send [evolves_intros]: "evolves send_rel send"
  unfolding send_def
  by (intro sr.ev_rules ev_cases evolves_intros sr.ev_modifyM)
     (simp_all add: send_rel_defs)

lemma send_trigger [evolves_intros]: "evolves send_rel trigger"
  unfolding trigger_def
  by (intro sr.ev_rules evolves_intros sr.ev_modifyM) (simp add: send_rel_defs)

lemma send_sendData [evolves_intros]: "evolves send_rel (sendData d b n)"
  unfolding sendData_def
  by (intro sr.ev_rules evolves_intros sr.ev_doM) (auto simp: list_all_iff intro: evolves_intros)

lemma send_sendFrame [evolves_intros]:
  "evolves send_rel (sendFrame cf opcode payload fin rsv msk payloadLen chopsize sync)"
  unfolding sendFrame_def
  by (intro sr.ev_rules ev_cases evolves_intros)

lemma send_fragments_rel [evolves_intros]: "evolves send_rel (send_fragments cf opcode rsv sync frs)"
  unfolding send_fragments_def
  by (rule sr.ev_doM) (auto simp: list_all_iff intro: evolves_intros)

lemma send_compress_message [evolves_intros]: "evolves send_rel (compress_message cf payload)"
  unfolding compress_message_def by (intro sr.ev_rules evolves_intros)

lemma send_sendMessage [evolves_intros]: "evolves send_rel (sendMessage cf payload b n sync nc)"
  unfolding sendMessage_def by (intro sr.ev_rules ev_cases evolves_intros)

lemma send_sendPing [evolves_intros]: "evolves send_rel (sendPing cf payload)"
  unfolding sendPing_def by (intro sr.ev_rules evolves_intros)

lemma send_sendPong [evolves_intros]: "evolves send_rel (sendPong cf payload)"
  unfolding sendPong_def by (intro sr.ev_rules evolves_intros)

section \<open>Bookkeeping: neither written nor queued\<close>

definition written :: "('c, 'm) ws_conn_scheme \<Rightarrow> bytes list" where
  "written s = List.map_filter (\<lambda>e. case e of Write d \<Rightarrow> Some d | _ \<Rightarrow> None) (ws_out s)"

text \<open>Everything handed to the transport, and after it everything waiting for it.\<close>

definition outgoing :: "('c, 'm) ws_conn_scheme \<Rightarrow> bytes list" where
  "outgoing s = written s @ map fst (ws_sendQueue s)"

definition io_rel :: "('c, 'm) ws_conn_scheme \<Rightarrow> ('c, 'm) ws_conn_scheme \<Rightarrow> bool" where
  "io_rel s t \<longleftrightarrow> send_rel s t \<and> written t = written s \<and> ws_sendQueue t = ws_sendQueue s"

interpretation ir: state_rel io_rel
  by unfold_locales (auto simp: io_rel_def sr.rel_refl intro: sr.rel_trans)

lemma written_append [simp]: "written (s\<lparr> ws_out := ws_out s @ [e] \<rparr>) =
    written s @ (case e of Write d \<Rightarrow> [d] | _ \<Rightarrow> [])"
  by (cases e) (simp_all add: written_def map_filter_simps List.map_filter_def)

lemmas io_rel_defs = io_rel_def send_rel_defs written_def List.map_filter_def

lemma io_emit [evolves_intros]:
  "evolves io_rel (emitM (SetNoDelay b))" "evolves io_rel (emitM (CallLater t r))"
  "evolves io_rel (emitM (CancelTimer t))" "evolves io_rel (emitM (Track k))"
  unfolding emitM_def by (rule ir.ev_modifyM; simp add: io_rel_defs)+

lemma io_statsM [evolves_intros]: "evolves io_rel (statsM f)"
  unfolding statsM_def by (rule ir.ev_modifyM) (simp add: io_rel_defs)

lemma io_timers [evolves_intros]:
  "evolves io_rel (callLaterM t d)" "evolves io_rel (cancelM t)" "evolves io_rel (resetM t)"
  unfolding callLaterM_def cancelM_def resetM_def
  by (intro ir.ev_rules evolves_intros ir.ev_modifyM; simp add: io_rel_defs)+

lemma io_trackM [evolves_intros]: "evolves io_rel (trackM k)"
  unfolding trackM_def by (intro ir.ev_rules evolves_intros)

lemma io_randBytesM [evolves_intros]: "evolves io_rel (randBytesM cf n)"
  unfolding randBytesM_def by (intro ir.ev_rules ir.ev_modifyM) (simp add: io_rel_defs)

lemma io_pmceM [evolves_intros]: "evolves io_rel (pmceM m :: ('c, 'm, 'a) ws_prog)"
proof (rule evolvesI)
  fix s :: "('c, 'm) ws_conn_scheme"
  have "io_rel s (s\<lparr> ws_pmce := Some c \<rparr>)" if "ws_pmce s \<noteq> None" for c
    using that by (simp add: io_rel_defs)
  then show "io_rel s (snd (pmceM m s))"
    by (auto simp: pmceM_def prog_simps ir.rel_refl split: option.split prod.split sum.split)
qed

lemma io_countWire [evolves_intros]: "evolves io_rel (countWire n)"
  unfolding countWire_def by (intro ir.ev_rules evolves_intros)

section \<open>Relations respected by every method\<close>

text \<open>
  Three parts of the receive side: the message being assembled, the position of the parser,
  and the rest. The three relations below change only the rest, also the message, also the
  parser; none touches the connection state or the trace.
\<close>

definition msg_part :: "('c, 'm) ws_conn_scheme \<Rightarrow>
    (bool \<times> bool \<times> bool \<times> bool) \<times> utf8_validator \<times> (bool \<times> bool \<times> nat \<times> nat) \<times> 64 word \<times> bytes \<times> bytes" where
  "msg_part s = ((ws_insideMessage s, ws_isMessageCompressed s, ws_utf8validateIncomingCurrentMessage s,
     ws_messageIsBinary s), ws_utf8validator s, ws_utf8validateLast s, ws_messageDataTotalLength s,
     ws_messageData s, ws_frameData s)"

definition parse_part :: "('c, 'm) ws_conn_scheme \<Rightarrow> bytes \<times> frame_header option \<times> xor_masker" where
  "parse_part s = (ws_data s, ws_currentFrame s, ws_currentFrameMasker s)"

definition same_rest :: "('c, 'm) ws_conn_scheme \<Rightarrow> ('c, 'm) ws_conn_scheme \<Rightarrow> bool" where
  "same_rest s t \<longleftrightarrow> ws_state t = ws_state s \<and> ws_out t = ws_out s \<and> ws_droppedByMe t = ws_droppedByMe s
     \<and> (ws_failedByMe s \<longrightarrow> ws_failedByMe t) \<and> ws_sendQueue t = ws_sendQueue s
     \<and> ws_webSocketVersion t = ws_webSocketVersion s"

definition quiet_rel :: "('c, 'm) ws_conn_scheme \<Rightarrow> ('c, 'm) ws_conn_scheme \<Rightarrow> bool" where
  "quiet_rel s t \<longleftrightarrow> same_rest s t \<and> msg_part t = msg_part s \<and> parse_part t = parse_part s"

definition message_rel :: "('c, 'm) ws_conn_scheme \<Rightarrow> ('c, 'm) ws_conn_scheme \<Rightarrow> bool" where
  "message_rel s t \<longleftrightarrow> same_rest s t \<and> parse_part t = parse_part s"

definition parser_rel :: "('c, 'm) ws_conn_scheme \<Rightarrow> ('c, 'm) ws_conn_scheme \<Rightarrow> bool" where
  "parser_rel s t \<longleftrightarrow> same_rest s t \<and> msg_part t = msg_part s"

lemmas part_defs = quiet_rel_def message_rel_def parser_rel_def same_rest_def msg_part_def parse_part_def

fun is_delivery :: "ws_event \<Rightarrow> bool" where
  "is_delivery (OnMessage _ _) = True"
| "is_delivery _ = False"

text \<open>
  The contract of a relation between connection states that the methods respect: it is
  enough to look at the places where the state or the notable part of the trace changes. The
  first locale covers the methods that leave message and parser alone, the second the ones
  that assemble messages, the third all.
\<close>

locale conn_rel = state_rel R for R :: "('c, 'm) ws_conn_scheme \<Rightarrow> ('c, 'm) ws_conn_scheme \<Rightarrow> bool" +
  assumes rel_io: "io_rel s t \<Longrightarrow> R s t"
    and rel_open_send: "ws_state s = OPEN \<Longrightarrow> send_rel s t \<Longrightarrow> R s t"
    and rel_flush: "R s (snd (send s))"
    and rel_quiet: "quiet_rel s t \<Longrightarrow> R s t"
    and rel_report: "\<not> is_io e \<Longrightarrow> \<not> is_delivery e \<Longrightarrow> e \<notin> {LoseConnection, AbortConnection} \<Longrightarrow>
      R s (s\<lparr> ws_out := ws_out s @ [e] \<rparr>)"
    and rel_drop: "ws_state s \<noteq> CLOSED \<Longrightarrow> e \<in> {LoseConnection, AbortConnection} \<Longrightarrow>
      R s (s\<lparr> ws_droppedByMe := True, ws_state := CLOSED, ws_out := ws_out s @ [e] \<rparr>)"
    and rel_closing: "ws_state s = OPEN \<Longrightarrow>
      R s (s\<lparr> ws_state := CLOSING, ws_closedByMe := b, ws_localCloseCode := code, ws_localCloseReason := reason \<rparr>)"
    and rel_lost: "R s (s\<lparr> ws_state := CLOSED \<rparr>)"
begin

lemma of_io: "evolves io_rel m \<Longrightarrow> evolves R m"
  by (erule evolves_mono) (erule rel_io)

text \<open>The four methods that build frames do so in \<open>OPEN\<close> only.\<close>

lemma of_open:
  assumes "evolves send_rel m"
  shows "evolves R (withM (\<lambda>s. if ws_state s \<noteq> OPEN then doM [] else m))"
proof (rule evolvesI)
  fix s
  show "R s (snd (withM (\<lambda>s. if ws_state s \<noteq> OPEN then doM [] else m) s))"
    using rel_open_send [OF _ evolvesD [OF assms, of s]] by (simp add: prog_simps rel_refl)
qed

lemma send: "evolves R send"
  by (rule evolvesI) (rule rel_flush)

lemma sendMessage: "evolves R (sendMessage cf payload b n sync nc)"
proof (rule evolvesI)
  fix s
  show "R s (snd (sendMessage cf payload b n sync nc s))"
  proof (cases "ws_state s = OPEN")
    case True
    then show ?thesis by (rule rel_open_send) (rule evolvesD [OF send_sendMessage])
  next
    case False
    then show ?thesis by (simp add: sendMessage_def prog_simps rel_refl)
  qed
qed

lemma sendPing: "evolves R (sendPing cf payload)" "evolves R (sendPong cf payload)"
  unfolding sendPing_def sendPong_def by (intro of_open sr.ev_rules evolves_intros)+

lemmas sends = of_io [OF io_statsM] of_io [OF io_timers(1)] of_io [OF io_timers(2)]
  of_io [OF io_timers(3)] of_io [OF io_trackM] of_io [OF io_randBytesM] of_io [OF io_pmceM]
  sendMessage sendPing send

lemma quiet_modifyM: "(\<And>s. quiet_rel s (f s)) \<Longrightarrow> evolves R (modifyM f)"
  by (rule ev_modifyM) (rule rel_quiet)

lemma report: "\<not> is_io e \<Longrightarrow> \<not> is_delivery e \<Longrightarrow> e \<notin> {LoseConnection, AbortConnection} \<Longrightarrow> evolves R (emitM e)"
  unfolding emitM_def by (rule ev_modifyM) (rule rel_report)

lemma reports:
  "evolves R (emitM (OnPing d))" "evolves R (emitM (OnPong d))" "evolves R (emitM (OnClose w c r))"
  "evolves R (emitM OnOpen)"
  by (simp_all add: report)

lemma dropConnection: "evolves R (dropConnection b)"
proof (rule evolvesI)
  fix s
  show "R s (snd (dropConnection b s))"
    using rel_drop [of s AbortConnection] rel_drop [of s LoseConnection]
    by (simp add: dropConnection_def closeConnection_def emitM_def prog_simps rel_refl)
qed

lemma sendCloseFrame: "evolves R (sendCloseFrame cf code reason isReply)"
proof (rule evolvesI)
  fix s
  show "R s (snd (sendCloseFrame cf code reason isReply s))"
  proof (cases "ws_state s")
    case OPEN
    let ?f = "\<lambda>s. s\<lparr> ws_state := CLOSING, ws_closedByMe := \<not> isReply,
       ws_localCloseCode := code, ws_localCloseReason := reason \<rparr>"
    have "R s (snd (doM [sendFrame0 cf 8 (close_payload code reason), modifyM ?f,
        whenM (\<not> isReply \<and> cf_closeHandshakeTimeout cf > 0)
          (callLaterM CloseHandshakeTimer (cf_closeHandshakeTimeout cf))] s))"
    proof (rule doM_at)
      show "R s (snd (sendFrame0 cf 8 (close_payload code reason) s))"
        by (rule rel_open_send [OF OPEN]) (rule evolvesD [OF send_sendFrame])
    next
      fix t
      assume t: "sendFrame0 cf 8 (close_payload code reason) s = (Inr (), t)"
      have "send_rel s (snd (sendFrame0 cf 8 (close_payload code reason) s))"
        by (rule evolvesD [OF send_sendFrame])
      then have "ws_state t = OPEN" using t OPEN by (simp add: send_rel_fields)
      then have step: "R t (snd (modifyM ?f t))"
        unfolding modifyM_def snd_conv by (rule rel_closing)
      have rest: "evolves R (doM [whenM (\<not> isReply \<and> cf_closeHandshakeTimeout cf > 0)
          (callLaterM CloseHandshakeTimer (cf_closeHandshakeTimeout cf))])"
        by (intro ev_rules sends)
      show "R t (snd (doM [modifyM ?f,
        whenM (\<not> isReply \<and> cf_closeHandshakeTimeout cf > 0)
          (callLaterM CloseHandshakeTimer (cf_closeHandshakeTimeout cf))] t))"
        by (rule doM_at) (rule step, rule evolvesD [OF rest])
    qed
    with OPEN show ?thesis by (simp add: sendCloseFrame_def withM_def)
  qed (simp_all add: sendCloseFrame_def prog_simps rel_refl)
qed

lemma ev_currentFrameM: "(\<And>fh. evolves R (f fh)) \<Longrightarrow> evolves R (currentFrameM f)"
  by (auto simp: evolves_def currentFrameM_def prog_simps rel_refl split: option.split)

lemma ev_case_ws_state:
  "(st = CLOSED \<Longrightarrow> evolves R a) \<Longrightarrow> (st = CONNECTING \<Longrightarrow> evolves R b) \<Longrightarrow> (st = CLOSING \<Longrightarrow> evolves R c) \<Longrightarrow>
   (st = OPEN \<Longrightarrow> evolves R d) \<Longrightarrow> (st = PROXY_CONNECTING \<Longrightarrow> evolves R e) \<Longrightarrow>
   evolves R (case st of CLOSED \<Rightarrow> a | CONNECTING \<Rightarrow> b | CLOSING \<Rightarrow> c | OPEN \<Rightarrow> d | PROXY_CONNECTING \<Rightarrow> e)"
  by (cases st) simp_all

lemmas rules = ev_rules ev_cases ev_case_ws_state ev_currentFrameM quiet_modifyM
  sends reports dropConnection sendCloseFrame

lemma sendClose: "evolves R (sendClose cf code reason)"
  unfolding sendClose_def by (intro rules)

lemma failConnection: "evolves R (failConnection cf code reason)"
  unfolding failConnection_def by (intro rules) (simp_all add: part_defs)

lemma violations: "evolves R (protocolViolation cf reason)" "evolves R (invalidPayload cf reason)"
  unfolding protocolViolation_def invalidPayload_def by (intro rules failConnection)+

lemma timeouts:
  "evolves R onServerConnectionDropTimeout" "evolves R onOpenHandshakeTimeout"
  "evolves R onCloseHandshakeTimeout" "evolves R onAutoPingTimeout" "evolves R (sendAutoPing cf)"
  unfolding onServerConnectionDropTimeout_def onOpenHandshakeTimeout_def onCloseHandshakeTimeout_def
    onAutoPingTimeout_def sendAutoPing_def newid_def
  by (intro rules; simp add: part_defs)+

lemma close_handling:
  "evolves R (reply_close cf)" "evolves R (finish_close cf)"
  "evolves R (record_close_code cf code)" "evolves R (record_close_reason cf reason)"
  unfolding reply_close_def finish_close_def record_close_code_def record_close_reason_def
  by (intro rules violations; simp add: part_defs)+

lemma onCloseFrame: "evolves R (onCloseFrame cf code reason)"
  unfolding onCloseFrame_def by (intro rules close_handling; simp add: part_defs)

lemma processControlFrame:
  "evolves R (onPing cf payload)" "evolves R (match_autoPing cf payload)" "evolves R (processControlFrame cf)"
  unfolding onPing_def match_autoPing_def processControlFrame_def
  by (intro rules onCloseFrame; simp add: part_defs)+

lemma guardsM: "evolves R m \<Longrightarrow> evolves R (guardsM cf gs m)"
  by (induction gs) (auto intro!: ev_bindM ev_returnM violations)

lemma ev_lost: "evolves R (modifyM (\<lambda>s. s\<lparr> ws_state := CLOSED \<rparr>))"
  by (rule ev_modifyM) (rule rel_lost)

lemma connectionLost: "evolves R (connectionLost cf)"
  unfolding connectionLost_def cancelResetM_def by (intro ev_lost rules; simp add: part_defs)

end

locale conn_message_rel = conn_rel R for R :: "('c, 'm) ws_conn_scheme \<Rightarrow> ('c, 'm) ws_conn_scheme \<Rightarrow> bool" +
  assumes rel_message: "message_rel s t \<Longrightarrow> R s t"
    and rel_deliver: "R s (s\<lparr> ws_out := ws_out s @ [OnMessage d b] \<rparr>)"
begin

lemma message_modifyM: "(\<And>s. message_rel s (f s)) \<Longrightarrow> evolves R (modifyM f)"
  by (rule ev_modifyM) (rule rel_message)

lemma deliver: "evolves R (emitM (OnMessage d b))"
  unfolding emitM_def by (rule ev_modifyM) (rule rel_deliver)

lemmas message_rules = message_modifyM deliver ev_rules ev_cases ev_case_ws_state ev_currentFrameM
  sends reports dropConnection sendCloseFrame

lemma messages:
  "evolves R (onMessageBegin b)" "evolves R (onMessageFrameBegin cf len)"
  "evolves R (onMessageFrameData cf payload)" "evolves R onMessageFrameEnd" "evolves R onMessageEnd"
  unfolding onMessageBegin_def onMessageFrameBegin_def onMessageFrameData_def onMessageFrameEnd_def
    onMessageEnd_def
  by (intro message_rules failConnection; simp add: part_defs)+

lemma onFrameBegin: "evolves R (onFrameBegin cf)"
  unfolding onFrameBegin_def by (intro message_rules messages; simp add: part_defs)

lemma onFrameData: "evolves R (onFrameData cf payload)"
  unfolding onFrameData_def validate_utf8_def
  by (intro message_rules violations messages; simp add: Let_def split_beta part_defs)

lemma finish_frame: "evolves R (finish_frame cf fh)"
  unfolding finish_frame_def
  by (intro message_rules messages violations processControlFrame; simp add: part_defs)

end

locale conn_parse_rel = conn_message_rel R for R :: "('c, 'm) ws_conn_scheme \<Rightarrow> ('c, 'm) ws_conn_scheme \<Rightarrow> bool" +
  assumes rel_parser: "parser_rel s t \<Longrightarrow> R s t"
begin

lemma parser_modifyM: "(\<And>s. parser_rel s (f s)) \<Longrightarrow> evolves R (modifyM f)"
  by (rule ev_modifyM) (rule rel_parser)

lemmas parser_rules = parser_modifyM deliver ev_rules ev_cases ev_case_ws_state ev_currentFrameM
  sends reports dropConnection sendCloseFrame

lemma onFrameEnd: "evolves R (onFrameEnd cf)"
  unfolding onFrameEnd_def by (intro parser_rules finish_frame) (simp add: part_defs)

lemma processData: "evolves R (processData cf)"
  unfolding processData_def processHeader_def processPayload_def beginFrame_def
  by (intro parser_rules guardsM onFrameBegin onFrameData onFrameEnd; simp add: part_defs)

lemma consumeFrames: "evolves R (consumeFrames cf)"
  unfolding consumeFrames_def frame_round_def by (intro parser_rules ev_loopM processData)

lemma consumeData:
  "evolves R proxyConnect \<Longrightarrow> evolves R handshake \<Longrightarrow> evolves R (consumeData cf proxyConnect handshake)"
  unfolding consumeData_def by (intro parser_rules consumeFrames)

lemma dataReceived:
  "evolves R proxyConnect \<Longrightarrow> evolves R handshake \<Longrightarrow> evolves R (dataReceived cf proxyConnect handshake data)"
  unfolding dataReceived_def countReceived_def by (intro parser_rules consumeData; simp add: part_defs)

end

section \<open>Runs of a connection\<close>

text \<open>The calls the reactor, the transport and the application make on an established connection.\<close>

datatype ws_call =
    DataReceived bytes
  | SendMessage bytes bool nat bool bool
  | SendPing bytes
  | SendPong bytes
  | SendClose "close_code option" "string option"
  | QueuedWrite
  | ServerConnectionDropTimeout
  | OpenHandshakeTimeout
  | CloseHandshakeTimeout
  | AutoPingTimeout
  | AutoPing
  | ConnectionLost

fun run_call ::
  "'c ws_config \<Rightarrow> ('c, 'm, unit) ws_prog \<Rightarrow> ('c, 'm, unit) ws_prog \<Rightarrow> ws_call \<Rightarrow> ('c, 'm, unit) ws_prog" where
  "run_call cf px hs (DataReceived d) = dataReceived cf px hs d"
| "run_call cf px hs (SendMessage d b n sync nc) = sendMessage cf d b n sync nc"
| "run_call cf px hs (SendPing d) = sendPing cf d"
| "run_call cf px hs (SendPong d) = sendPong cf d"
| "run_call cf px hs (SendClose c r) = sendClose cf c r"
| "run_call cf px hs QueuedWrite = send"
| "run_call cf px hs ServerConnectionDropTimeout = onServerConnectionDropTimeout"
| "run_call cf px hs OpenHandshakeTimeout = onOpenHandshakeTimeout"
| "run_call cf px hs CloseHandshakeTimeout = onCloseHandshakeTimeout"
| "run_call cf px hs AutoPingTimeout = onAutoPingTimeout"
| "run_call cf px hs AutoPing = sendAutoPing cf"
| "run_call cf px hs ConnectionLost = connectionLost cf"

inductive ws_reach ::
  "'c ws_config \<Rightarrow> ('c, 'm, unit) ws_prog \<Rightarrow> ('c, 'm, unit) ws_prog \<Rightarrow>
   ('c, 'm) ws_conn_scheme \<Rightarrow> ('c, 'm) ws_conn_scheme \<Rightarrow> bool"
  for cf px hs s0 where
  reach_start: "ws_reach cf px hs s0 s0"
| reach_call: "ws_reach cf px hs s0 s \<Longrightarrow> ws_reach cf px hs s0 (snd (run_call cf px hs c s))"

inductive_cases ws_reach_cases: "ws_reach cf px hs s0 s"

context conn_parse_rel begin

lemma run_call: "evolves R px \<Longrightarrow> evolves R hs \<Longrightarrow> evolves R (run_call cf px hs c)"
  by (cases c) (auto intro: sends sendClose timeouts connectionLost dataReceived)

lemma reach:
  assumes "evolves R px" and "evolves R hs" and "ws_reach cf px hs s0 s"
  shows "R s0 s"
  using assms(3)
proof induction
  case reach_start
  show ?case by (rule rel_refl)
next
  case (reach_call s c)
  then show ?case using evolvesD [OF run_call [OF assms(1,2)]] rel_trans by blast
qed

end

section \<open>The life of a connection\<close>

fun state_rank :: "ws_state \<Rightarrow> nat" where
  "state_rank PROXY_CONNECTING = 0"
| "state_rank CONNECTING = 1"
| "state_rank OPEN = 2"
| "state_rank CLOSING = 3"
| "state_rank CLOSED = 4"

lemma state_rank_le_4: "state_rank st \<le> 4"
  by (cases st) simp_all

lemma state_rank_closed: "state_rank st = 4 \<longleftrightarrow> st = CLOSED" "4 \<le> state_rank st \<longleftrightarrow> st = CLOSED"
  by (cases st; simp)+

definition life_rel :: "('c, 'm) ws_conn_scheme \<Rightarrow> ('c, 'm) ws_conn_scheme \<Rightarrow> bool" where
  "life_rel s t \<longleftrightarrow> state_rank (ws_state s) \<le> state_rank (ws_state t) \<and> prefix (ws_out s) (ws_out t)
     \<and> (ws_droppedByMe s \<longrightarrow> ws_droppedByMe t) \<and> (ws_failedByMe s \<longrightarrow> ws_failedByMe t)"

interpretation lr: conn_parse_rel life_rel
  by unfold_locales
     (auto simp: life_rel_def io_rel_def send_rel_fields send_rel_fields [OF evolvesD [OF send_send]]
       part_defs state_rank_le_4 intro: prefix_order.trans)

text \<open>The number of times the transport was told to end the connection.\<close>

definition drop_count :: "('c, 'm) ws_conn_scheme \<Rightarrow> nat" where
  "drop_count s = length (filter (\<lambda>e. e \<in> {LoseConnection, AbortConnection}) (notable s))"

definition drop_rel :: "('c, 'm) ws_conn_scheme \<Rightarrow> ('c, 'm) ws_conn_scheme \<Rightarrow> bool" where
  "drop_rel s t \<longleftrightarrow> (ws_state s = CLOSED \<longrightarrow> ws_state t = CLOSED \<and> drop_count t = drop_count s)
     \<and> (ws_state t \<noteq> CLOSED \<longrightarrow> drop_count t = drop_count s)
     \<and> drop_count s \<le> drop_count t \<and> drop_count t \<le> Suc (drop_count s)"

lemma drop_count_append [simp]:
  "drop_count (s\<lparr> ws_out := ws_out s @ [e] \<rparr>) =
     drop_count s + (if e \<in> {LoseConnection, AbortConnection} then 1 else 0)"
  by (cases e) (simp_all add: drop_count_def notable_def)

lemma drop_count_cong: "notable t = notable s \<Longrightarrow> drop_count t = drop_count s"
  by (simp add: drop_count_def)

lemma notable_out: "ws_out t = ws_out s \<Longrightarrow> notable t = notable s"
  by (simp add: notable_def)

lemma drop_relI:
  "notable t = notable s \<Longrightarrow> (ws_state s = CLOSED \<Longrightarrow> ws_state t = CLOSED) \<Longrightarrow> drop_rel s t"
  using drop_count_cong [of t s] by (simp add: drop_rel_def)

lemma drop_rel_trans:
  assumes "drop_rel s t" and "drop_rel t u"
  shows "drop_rel s u"
proof (cases "ws_state t = CLOSED")
  case True
  then have "ws_state u = CLOSED" "drop_count u = drop_count t" using assms(2) by (simp_all add: drop_rel_def)
  with True assms(1) show ?thesis by (simp add: drop_rel_def)
next
  case False
  then have "ws_state s \<noteq> CLOSED" "drop_count t = drop_count s" using assms(1) by (auto simp: drop_rel_def)
  with False assms(2) show ?thesis by (simp add: drop_rel_def)
qed

interpretation dr: conn_parse_rel drop_rel
proof
  fix s t u :: "('c, 'm) ws_conn_scheme" and e
  show "drop_rel s s" by (rule drop_relI) simp_all
  show "drop_rel s t \<Longrightarrow> drop_rel t u \<Longrightarrow> drop_rel s u" by (rule drop_rel_trans)
  have send: "send_rel s t \<Longrightarrow> drop_rel s t" by (rule drop_relI) (simp_all add: send_rel_fields)
  show "send_rel s t \<Longrightarrow> drop_rel s t" by (rule send)
  show "io_rel s t \<Longrightarrow> drop_rel s t" by (rule send) (simp add: io_rel_def)
  show "drop_rel s (snd (send s))"
    by (rule drop_relI) (simp_all add: send_rel_fields [OF evolvesD [OF send_send]])
  have same: "same_rest s t \<Longrightarrow> drop_rel s t" by (rule drop_relI) (simp_all add: same_rest_def notable_def)
  show "quiet_rel s t \<Longrightarrow> drop_rel s t" "message_rel s t \<Longrightarrow> drop_rel s t" "parser_rel s t \<Longrightarrow> drop_rel s t"
    by (simp_all add: same quiet_rel_def message_rel_def parser_rel_def)
  show "drop_rel s (s\<lparr> ws_state := CLOSING, ws_closedByMe := b, ws_localCloseCode := code, ws_localCloseReason := reason \<rparr>)"
    if "ws_state s = OPEN" for b code reason using that by (intro drop_relI) (simp_all add: notable_def)
  show "drop_rel s (s\<lparr> ws_state := CLOSED \<rparr>)" by (rule drop_relI) (simp_all add: notable_def)
  show "drop_rel s (s\<lparr> ws_out := ws_out s @ [OnMessage d b] \<rparr>)" for d b
    by (simp add: drop_rel_def)
  show "drop_rel s (s\<lparr> ws_out := ws_out s @ [e] \<rparr>)" if "e \<notin> {LoseConnection, AbortConnection}"
    using that by (simp add: drop_rel_def)
  show "drop_rel s (s\<lparr> ws_droppedByMe := True, ws_state := CLOSED, ws_out := ws_out s @ [e] \<rparr>)"
    if "ws_state s \<noteq> CLOSED" "e \<in> {LoseConnection, AbortConnection}"
    using that by (auto simp: drop_rel_def drop_count_def notable_def)
qed

section \<open>After the close frame\<close>

text \<open>Once the closing handshake has begun, what is written was queued before.\<close>

definition ending :: "('c, 'm) ws_conn_scheme \<Rightarrow> bool" where
  "ending s \<longleftrightarrow> ws_state s = CLOSING \<or> ws_state s = CLOSED"

definition ending_rel :: "('c, 'm) ws_conn_scheme \<Rightarrow> ('c, 'm) ws_conn_scheme \<Rightarrow> bool" where
  "ending_rel s t \<longleftrightarrow> (ending s \<longrightarrow> ending t \<and> subseq (outgoing t) (outgoing s))"

lemma io_rel_outgoing: "io_rel s t \<Longrightarrow> outgoing t = outgoing s"
  by (simp add: io_rel_def outgoing_def)

lemma outgoing_cong: "ws_out t = ws_out s \<Longrightarrow> ws_sendQueue t = ws_sendQueue s \<Longrightarrow> outgoing t = outgoing s"
  by (simp add: outgoing_def written_def)

lemma send_outgoing:
  "outgoing (snd (send s)) =
     (case ws_sendQueue s of [] \<Rightarrow> outgoing s
      | e # q \<Rightarrow> written s @ (if ws_state s \<noteq> CLOSED then [fst e] else []) @ map fst q)"
  by (cases "ws_sendQueue s"; cases "ws_state s")
     (simp_all add: send_def prog_simps callLaterM_def emitM_def countWire_def statsM_def
       outgoing_def written_def List.map_filter_def)

lemma subseq_send: "subseq (outgoing (snd (send s))) (outgoing s)"
  unfolding send_outgoing by (auto simp: outgoing_def split: list.split intro!: list_emb_append_mono)

lemma send_state [simp]: "ws_state (snd (send s)) = ws_state s"
  by (rule send_rel_fields [OF evolvesD [OF send_send]])

interpretation er: conn_parse_rel ending_rel
proof
  fix s t u :: "('c, 'm) ws_conn_scheme" and e
  show "ending_rel s s" by (simp add: ending_rel_def)
  show "ending_rel s t \<Longrightarrow> ending_rel t u \<Longrightarrow> ending_rel s u"
    by (auto simp: ending_rel_def intro: subseq_order.trans)
  show "io_rel s t \<Longrightarrow> ending_rel s t"
    using io_rel_outgoing [of s t] by (auto simp: ending_rel_def ending_def io_rel_def send_rel_fields)
  show "ending_rel s t" if "ws_state s = OPEN" using that by (simp add: ending_rel_def ending_def)
  show "ending_rel s (s\<lparr> ws_state := CLOSING, ws_closedByMe := b, ws_localCloseCode := code, ws_localCloseReason := reason \<rparr>)"
    if "ws_state s = OPEN" for b code reason using that by (simp add: ending_rel_def ending_def)
  show "ending_rel s (snd (send s))" by (simp add: ending_rel_def ending_def subseq_send)
  have same: "same_rest s t \<Longrightarrow> ending_rel s t"
    using outgoing_cong [of t s] by (simp add: ending_rel_def ending_def same_rest_def)
  show "quiet_rel s t \<Longrightarrow> ending_rel s t" "message_rel s t \<Longrightarrow> ending_rel s t" "parser_rel s t \<Longrightarrow> ending_rel s t"
    by (simp_all add: same quiet_rel_def message_rel_def parser_rel_def)
  show "ending_rel s (s\<lparr> ws_state := CLOSED \<rparr>)"
    using outgoing_cong [of "s\<lparr> ws_state := CLOSED \<rparr>" s] by (simp add: ending_rel_def ending_def)
  show "ending_rel s (s\<lparr> ws_out := ws_out s @ [OnMessage d b] \<rparr>)" for d b
    by (simp add: ending_rel_def ending_def outgoing_def)
  show "ending_rel s (s\<lparr> ws_out := ws_out s @ [e] \<rparr>)" if "\<not> is_io e"
    using that by (cases e) (simp_all add: ending_rel_def ending_def outgoing_def written_def List.map_filter_def)
  show "ending_rel s (s\<lparr> ws_droppedByMe := True, ws_state := CLOSED, ws_out := ws_out s @ [e] \<rparr>)"
    if "ws_state s \<noteq> CLOSED" "e \<in> {LoseConnection, AbortConnection}"
    using that by (auto simp: ending_rel_def ending_def outgoing_def written_def List.map_filter_def)
qed

section \<open>Properties\<close>

text \<open>Past the opening handshake the virtual methods of the handshake are not called.\<close>

definition established :: "('c, 'm) ws_conn_scheme \<Rightarrow> bool" where
  "established s \<longleftrightarrow> 2 \<le> state_rank (ws_state s)"

lemma established_cases: "established s \<longleftrightarrow> ws_state s = OPEN \<or> ws_state s = CLOSING \<or> ws_state s = CLOSED"
  by (cases "ws_state s") (simp_all add: established_def)

lemma consumeData_established:
  "established s \<Longrightarrow> consumeData cf px hs s = consumeData cf (doM []) (doM []) s"
  unfolding established_cases by (elim disjE) (simp_all add: consumeData_def withM_def)

lemma dataReceived_established:
  assumes "established s"
  shows "dataReceived cf px hs d s = dataReceived cf (doM []) (doM []) d s"
proof -
  obtain t where t: "countReceived (length d) s = (Inr (), t)" "ws_state t = ws_state s"
    by (cases "ws_state s") (simp_all add: countReceived_def prog_simps statsM_def)
  have "established (t\<lparr> ws_data := ws_data t @ d \<rparr>)"
    using assms t(2) by (simp add: established_def)
  note c = consumeData_established [OF this, of cf px hs]
  have step: "dataReceived cf px hs d s =
      bindM (consumeData cf px hs) (\<lambda>_. doM []) (t\<lparr> ws_data := ws_data t @ d \<rparr>)" for px hs
    unfolding dataReceived_def doM.simps bindM_def t(1) by (simp add: modifyM_def)
  show ?thesis unfolding step unfolding bindM_def c ..
qed

lemma run_call_established:
  assumes "established s"
  shows "run_call cf px hs c s = run_call cf (doM []) (doM []) c s"
proof (cases c)
  case (DataReceived d)
  then show ?thesis by (simp only: run_call.simps) (rule dataReceived_established [OF assms])
qed simp_all

lemma reach_established:
  assumes "ws_reach cf px hs s0 s" and "established s0"
  shows "ws_reach cf (doM []) (doM []) s0 s \<and> established s"
  using assms(1)
proof induction
  case reach_start
  with assms(2) show ?case by (auto intro: ws_reach.intros)
next
  case (reach_call s c)
  have "life_rel s (snd (run_call cf (doM []) (doM []) c s))"
    by (intro evolvesD [OF lr.run_call] lr.ev_doM_Nil)
  then have "established (snd (run_call cf (doM []) (doM []) c s))"
    using reach_call.IH by (auto simp: established_def life_rel_def)
  moreover have "run_call cf px hs c s = run_call cf (doM []) (doM []) c s"
    using reach_call.IH by (intro run_call_established) simp
  moreover have "ws_reach cf (doM []) (doM []) s0 (snd (run_call cf (doM []) (doM []) c s))"
    using reach_call.IH by (intro ws_reach.reach_call) simp
  ultimately show ?case by simp
qed

context conn_parse_rel begin

lemma reach_from_established: "ws_reach cf px hs s0 s \<Longrightarrow> established s0 \<Longrightarrow> R s0 s"
  using reach_established reach [OF ev_doM_Nil ev_doM_Nil] by blast

end

text \<open>C7: an established connection only moves from \<open>OPEN\<close> over \<open>CLOSING\<close> to \<open>CLOSED\<close>, whatever is
  called, received or times out in whatever order, and its trace only grows.\<close>

theorem ws_lifecycle:
  assumes "ws_reach cf px hs s0 s" and "established s0"
  shows "state_rank (ws_state s0) \<le> state_rank (ws_state s) \<and> prefix (ws_out s0) (ws_out s)
    \<and> (ws_state s0 = CLOSED \<longrightarrow> ws_state s = CLOSED)"
  using lr.reach_from_established [OF assms] by (auto simp: life_rel_def state_rank_closed)

text \<open>The transport is told to end the connection at most once, and never after \<open>CLOSED\<close>.\<close>

lemma ws_dropped_at_most_once:
  assumes "ws_reach cf px hs s0 s" and "established s0"
  shows "drop_count s \<le> Suc (drop_count s0) \<and> (ws_state s0 = CLOSED \<longrightarrow> drop_count s = drop_count s0)"
  using dr.reach_from_established [OF assms] by (auto simp: drop_rel_def)

text \<open>C6: once the closing handshake has begun nothing new is written; the queue may still drain.\<close>

theorem ws_nothing_written_after_close:
  assumes "ws_reach cf px hs s0 s" and "ending s0"
  shows "ending s \<and> subseq (outgoing s) (outgoing s0)"
proof -
  have "established s0" using assms(2) by (auto simp: ending_def established_cases)
  from er.reach_from_established [OF assms(1) this] assms(2) show ?thesis by (simp add: ending_rel_def)
qed

text \<open>Concrete instances: a client and a server with the default options and no extension.\<close>

definition no_pmce :: "unit pmce_ops" where
  "no_pmce = \<lparr> pm_getExtensionName = [], pm_startCompressMessage = returnM (),
     pm_compressMessageData = returnM, pm_endCompressMessage = returnM [],
     pm_startDecompressMessage = returnM (), pm_decompressMessageData = returnM,
     pm_endDecompressMessage = returnM () \<rparr>"

definition plain_server :: "unit ws_config" where
  "plain_server = server_options (\<lambda>_. 0) (\<lambda>bs. bs) no_pmce"

definition plain_client :: "unit ws_config" where
  "plain_client = client_options (\<lambda>_. 0) (\<lambda>bs. bs) no_pmce"

lemma ws_fresh_simps [simp]:
  "ws_state (ws_fresh st) = st" "outgoing (ws_fresh st) = []" "drop_count (ws_fresh st) = 0"
  by (simp_all add: ws_fresh_def outgoing_def written_def drop_count_def notable_def List.map_filter_def)

lemma reach_two:
  "ws_reach cf px hs s0 (snd (run_call cf px hs c2 (snd (run_call cf px hs c1 s0))))"
  by (intro ws_reach.intros)

lemma ws_lifecycle_witness:
  "2 \<le> state_rank (ws_state (snd (run_call plain_client (doM []) (doM []) (SendClose None None)
     (snd (run_call plain_client (doM []) (doM []) (SendPing [1]) (ws_fresh OPEN))))))"
  using ws_lifecycle [OF reach_two, of "ws_fresh OPEN" plain_client "doM []" "doM []" "SendClose None None" "SendPing [1]"]
  by (simp add: established_def del: run_call.simps)

lemma ws_dropped_at_most_once_witness:
  "drop_count (snd (run_call plain_server (doM []) (doM []) CloseHandshakeTimeout
     (snd (run_call plain_server (doM []) (doM []) AutoPingTimeout (ws_fresh OPEN))))) \<le> 1"
  using ws_dropped_at_most_once [OF reach_two, of "ws_fresh OPEN" plain_server "doM []" "doM []"
      CloseHandshakeTimeout AutoPingTimeout]
  by (simp add: established_def del: run_call.simps)

lemma ws_nothing_written_after_close_witness:
  "outgoing (snd (run_call plain_server (doM []) (doM []) (SendPing [2])
     (snd (run_call plain_server (doM []) (doM []) (SendMessage [1] True 0 False False) (ws_fresh CLOSING))))) = []"
  using ws_nothing_written_after_close [OF reach_two, of "ws_fresh CLOSING" plain_server "doM []" "doM []"
      "SendPing [2]" "SendMessage [1] True 0 False False"]
  by (auto simp: ending_def dest: list_emb_length simp del: run_call.simps)

end
