(* ===== verification/Ws_Parser.thy ===== *)
theory Ws_Parser
  imports Ws_Lifecycle
begin

text \<open>
  The frame parser: every round that asks for another one consumes octets of the buffer or
  finishes the current frame, so the loop of \<open>consumeData\<close> ends.
\<close>

section \<open>The parser position\<close>

definition parse_keep :: "('c, 'm) ws_conn_scheme \<Rightarrow> ('c, 'm) ws_conn_scheme \<Rightarrow> bool" where
  "parse_keep s t \<longleftrightarrow> parse_part t = parse_part s"

lemma send_rel_parse: "send_rel s t \<Longrightarrow> parse_part t = parse_part s"
  by (simp add: parse_part_def send_rel_fields)

interpretation pk: conn_message_rel parse_keep
proof
  fix s t u :: "('c, 'm) ws_conn_scheme"
  show "io_rel s t \<Longrightarrow> parse_keep s t" by (simp add: parse_keep_def io_rel_def send_rel_parse)
  show "send_rel s t \<Longrightarrow> parse_keep s t" by (simp add: parse_keep_def send_rel_parse)
  show "parse_keep s (snd (send s))"
    by (simp add: parse_keep_def send_rel_parse [OF evolvesD [OF send_send]])
qed (simp_all add: parse_keep_def part_defs)

lemma parse_keepD: "evolves parse_keep m \<Longrightarrow> m s = (r, t) \<Longrightarrow> parse_part t = parse_part s"
  using evolvesD [of parse_keep m s] by (simp add: parse_keep_def)

definition parse_measure :: "('c, 'm) ws_conn_scheme \<Rightarrow> nat" where
  "parse_measure s = 2 * length (ws_data s) + (if ws_currentFrame s = None then 0 else 1)"

lemma protocolViolation_parse: "protocolViolation cf reason s = (r, t) \<Longrightarrow> parse_part t = parse_part s"
  by (erule parse_keepD [OF pk.violations(1)])

text \<open>The guards pass or fail without moving the parser.\<close>

lemma guardsM_okE:
  assumes "guardsM cf gs m s = (Inr True, t)"
  obtains s' where "parse_part s' = parse_part s" "m s' = (Inr True, t)"
  using assms
proof (induction gs arbitrary: s thesis)
  case (Cons g gs)
  obtain b reason where g: "g = (b, reason)" by (cases g)
  show ?case
  proof (cases b)
    case True
    then obtain y s1 where y: "protocolViolation cf reason s = (Inr y, s1)"
      "(if y then returnM False else guardsM cf gs m) s1 = (Inr True, t)"
      using Cons.prems(2) g by (auto elim: bindM_okE)
    then have "guardsM cf gs m s1 = (Inr True, t)" by (cases y) (simp_all add: returnM_def)
    from Cons.IH [OF _ this] obtain s' where "parse_part s' = parse_part s1" "m s' = (Inr True, t)" by blast
    with protocolViolation_parse [OF y(1)] Cons.prems(1) show thesis by simp
  next
    case False
    then have "guardsM cf gs m s = (Inr True, t)" using Cons.prems(2) g by simp
    from Cons.IH [OF _ this] Cons.prems(1) show thesis by blast
  qed
qed auto

lemma header_len_ge_2: "2 \<le> header_len b"
  by (simp add: header_len_def)

text \<open>The state \<open>beginFrame\<close> leaves to \<open>onFrameBegin\<close>, and the one \<open>processPayload\<close> leaves to \<open>onFrameData\<close>.\<close>

definition header_of :: "bytes \<Rightarrow> frame_header" where
  "header_of data = \<lparr> fh_opcode = b0_opcode (data ! 0), fh_fin = b0_fin (data ! 0),
     fh_rsv = b0_rsv (data ! 0), fh_length = payload_len data, fh_mask = frame_mask data \<rparr>"

definition begun :: "'c ws_config \<Rightarrow> bytes \<Rightarrow> ('c, 'm) ws_conn_scheme \<Rightarrow> ('c, 'm) ws_conn_scheme" where
  "begun cf data s = s\<lparr>
     ws_currentFrameMasker := frame_masker cf (frame_mask data) (payload_len data),
     ws_data := drop (header_len (data ! 1)) data, ws_currentFrame := Some (header_of data) \<rparr>"

lemma beginFrame_run:
  "beginFrame cf data s =
     bindM (onFrameBegin cf) (\<lambda>_. getsM (\<lambda>s. payload_len data = 0 \<or> ws_data s \<noteq> [])) (begun cf data s)"
  by (simp add: beginFrame_def begun_def header_of_def frame_masker_def Let_def runs cong: option.case_cong)

lemma begun_parse:
  "parse_part (begun cf data s) = (drop (header_len (data ! 1)) data, Some (header_of data),
     frame_masker cf (frame_mask data) (payload_len data))"
  by (simp add: begun_def parse_part_def)

lemma beginFrame_parse:
  assumes "beginFrame cf data s = (Inr x, t)"
  shows "ws_data t = drop (header_len (data ! 1)) data" "ws_currentFrame t \<noteq> None"
    "x \<longleftrightarrow> payload_len data = 0 \<or> ws_data t \<noteq> []"
proof -
  obtain y where y: "onFrameBegin cf (begun cf data s) = (Inr y, t)"
      "x \<longleftrightarrow> payload_len data = 0 \<or> ws_data t \<noteq> []"
    using assms unfolding beginFrame_run by (auto elim!: bindM_okE simp: runs)
  from parse_keepD [OF pk.onFrameBegin y(1)] y(2)
  show "ws_data t = drop (header_len (data ! 1)) data" "ws_currentFrame t \<noteq> None"
    "x \<longleftrightarrow> payload_len data = 0 \<or> ws_data t \<noteq> []"
    unfolding begun_parse by (simp_all add: parse_part_def)
qed

lemma processHeader_measure:
  assumes "processHeader cf s = (Inr True, t)" and "ws_currentFrame s = None"
  shows "parse_measure t < parse_measure s"
proof -
  let ?data = "ws_data s"
  have "header_len (?data ! 1) \<le> length ?data \<and> (\<exists>s1. beginFrame cf ?data s1 = (Inr True, t))"
    using assms(1) unfolding processHeader_def withM_def Let_def
    by (auto simp: returnM_def split: if_splits elim!: guardsM_okE simp del: One_nat_def)
  then show ?thesis
    using beginFrame_parse(1,2) [of cf ?data] header_len_ge_2 [of "?data ! 1"] assms(2)
    by (fastforce simp: parse_measure_def simp del: One_nat_def)
qed

lemma onFrameEnd_parse:
  assumes "onFrameEnd cf s = (Inr True, t)"
  shows "ws_currentFrame t = None" "ws_data t = ws_data s" "ws_currentFrame s \<noteq> None"
proof -
  obtain fh s1 where fh: "ws_currentFrame s = Some fh" "finish_frame cf fh s = (Inr True, s1)"
    "t = s1\<lparr> ws_currentFrame := None \<rparr>"
    using assms unfolding onFrameEnd_def currentFrameM_def withM_def
    by (auto simp: throwM_def retM_def modifyM_def returnM_def split: option.splits if_splits elim!: bindM_okE)
  show "ws_currentFrame t = None" "ws_data t = ws_data s" "ws_currentFrame s \<noteq> None"
    using fh parse_keepD [OF pk.finish_frame fh(2)] by (simp_all add: parse_part_def)
qed

definition frame_rest :: "frame_header \<Rightarrow> ('c, 'm) ws_conn_scheme \<Rightarrow> nat" where
  "frame_rest fh s = unat (fh_length fh - masker_pointer (ws_currentFrameMasker s))"

definition unmasked :: "frame_header \<Rightarrow> ('c, 'm) ws_conn_scheme \<Rightarrow> bytes \<times> xor_masker" where
  "unmasked fh s =
     (if take (frame_rest fh s) (ws_data s) \<noteq> []
      then masker_process (ws_currentFrameMasker s) (take (frame_rest fh s) (ws_data s))
      else ([], ws_currentFrameMasker s))"

definition consumed :: "frame_header \<Rightarrow> ('c, 'm) ws_conn_scheme \<Rightarrow> ('c, 'm) ws_conn_scheme" where
  "consumed fh s = s\<lparr> ws_data := drop (frame_rest fh s) (ws_data s),
     ws_currentFrameMasker := snd (unmasked fh s) \<rparr>"

definition after_data :: "'c ws_config \<Rightarrow> frame_header \<Rightarrow> bool \<Rightarrow> ('c, 'm, bool) ws_prog" where
  "after_data cf fh go =
     (if \<not> go then returnM False
      else withM (\<lambda>s. bindM (if masker_pointer (ws_currentFrameMasker s) = fh_length fh then onFrameEnd cf
                             else returnM True) (\<lambda>go.
             if \<not> go then returnM False else getsM (\<lambda>s. ws_data s \<noteq> []))))"

lemma processPayload_run:
  "processPayload cf fh s = bindM (onFrameData cf (fst (unmasked fh s))) (after_data cf fh) (consumed fh s)"
proof -
  have eq: "take (unat (fh_length fh - masker_pointer (ws_currentFrameMasker s))) (ws_data s) = []
     \<longleftrightarrow> take (frame_rest fh s) (ws_data s) = []" by (simp add: frame_rest_def)
  show ?thesis
    unfolding processPayload_def withM_def [of "\<lambda>s. _ s"] Let_def after_data_def [abs_def]
    by (auto simp: consumed_def unmasked_def frame_rest_def Let_def split_beta list_run bindM_run)
qed

lemma masker_pointer_consumed:
  "masker_pointer (ws_currentFrameMasker (consumed fh s))
     = masker_pointer (ws_currentFrameMasker s) + word_of_nat (length (take (frame_rest fh s) (ws_data s)))"
  by (auto simp: consumed_def unmasked_def masker_pointer_process)

lemma processPayload_measure:
  assumes "processPayload cf fh s = (Inr True, t)" and "ws_currentFrame s = Some fh"
  shows "parse_measure t < parse_measure s"
proof -
  obtain s2 where s2: "onFrameData cf (fst (unmasked fh s)) (consumed fh s) = (Inr True, s2)"
    "(if masker_pointer (ws_currentFrameMasker s2) = fh_length fh then onFrameEnd cf else returnM True) s2 = (Inr True, t)"
    "ws_data t \<noteq> []"
    using assms(1) unfolding processPayload_run after_data_def
    by (auto elim!: bindM_okE split: if_splits simp: runs)
  from parse_keepD [OF pk.onFrameData s2(1)]
  have p: "ws_data s2 = drop (frame_rest fh s) (ws_data s)" "ws_currentFrame s2 = Some fh"
    "ws_currentFrameMasker s2 = ws_currentFrameMasker (consumed fh s)"
    using assms(2) by (simp_all add: parse_part_def consumed_def)
  show ?thesis
  proof (cases "masker_pointer (ws_currentFrameMasker s2) = fh_length fh")
    case True
    with s2(2) have "onFrameEnd cf s2 = (Inr True, t)" by simp
    from onFrameEnd_parse [OF this] show ?thesis
      using p assms(2) by (simp add: parse_measure_def)
  next
    case False
    then have "t = s2" using s2(2) by (simp add: returnM_def)
    with s2(3) p(1) have "frame_rest fh s < length (ws_data s)" by simp
    then have "length (take (frame_rest fh s) (ws_data s)) = frame_rest fh s" by simp
    with False have False
      unfolding p(3) masker_pointer_consumed by (simp add: frame_rest_def)
    then show ?thesis ..
  qed
qed

lemma processData_measure: "processData cf s = (Inr True, t) \<Longrightarrow> parse_measure t < parse_measure s"
  unfolding processData_def withM_def
  by (cases "ws_currentFrame s") (auto intro: processHeader_measure processPayload_measure)

text \<open>
  C33: the loop of \<open>consumeData\<close> ends on every input and in every state: the model's bound on
  the number of rounds is never reached.
\<close>

theorem consumeFrames_terminates: "fst (consumeFrames cf s) \<noteq> Inr False"
proof -
  have "parse_measure t < parse_measure s" if "frame_round cf s = (Inr True, t)" for s t :: "('a, 'b) ws_conn_scheme"
    using that unfolding frame_round_def
    by (auto elim!: bindM_okE split: if_splits simp: returnM_def getsM_def dest: processData_measure)
  note loop = loopM_enough [of "frame_round cf" parse_measure, OF this]
  show ?thesis
    unfolding consumeFrames_def withM_def by (rule loop) (simp_all add: parse_measure_def)
qed

end
