(* ===== verification/Ws_Stream.thy ===== *)
theory Ws_Stream
  imports Ws_Parser
begin

text \<open>
  From a message to its delivery. The reference is the sequence of frames on the wire: what
  \<open>sendMessage\<close> puts out is a sequence of frames, and a receiver that is fed the octets of a
  sequence of frames, cut into pieces in any way, reports the messages, pings and pongs of
  that sequence, in order and once each.
\<close>

section \<open>Frames put out\<close>

lemma succeeds_unit: "succeeds (m :: ('e, 's, unit) prog) \<Longrightarrow> \<exists>t. m s = (Inr (), t)"
  by (erule succeedsE [of _ s]) auto

lemma succeeds_emitM: "succeeds (emitM e)" "succeeds (statsM f)" "succeeds (callLaterM t d)"
  "succeeds (randBytesM cf n)" "succeeds (countWire k)" "succeeds (enqueue data sync)" "succeeds (resetM t)"
  unfolding emitM_def statsM_def callLaterM_def randBytesM_def countWire_def enqueue_def resetM_def
  by (intro succeeds_rules)+

lemma succeeds_send: "succeeds send" "succeeds trigger"
proof -
  show s: "succeeds send"
    unfolding send_def by (auto intro!: succeeds_rules succeeds_emitM split: list.split)
  show "succeeds trigger"
    unfolding trigger_def by (intro succeeds_rules s)
qed

lemma succeeds_sendData: "succeeds (sendData data sync chopsize)"
  unfolding sendData_def
  by (auto intro!: succeeds_rules succeeds_doM succeeds_emitM succeeds_send simp: list_all_iff)

lemma succeeds_sendFrame:
  "length payload < 2 ^ 63 \<Longrightarrow> succeeds (sendFrame cf opcode payload fin rsv None 0 0 sync)"
  unfolding sendFrame_def
  by (auto intro!: succeeds_rules succeeds_emitM succeeds_sendData simp: Let_def)

lemma succeeds_sendPong: "length payload \<le> 125 \<Longrightarrow> succeeds (sendPong cf payload)"
  unfolding sendPong_def by (auto intro!: succeeds_rules succeeds_sendFrame)

lemma outgoing_same: "ws_out t = ws_out s \<Longrightarrow> ws_sendQueue t = ws_sendQueue s \<Longrightarrow> outgoing t = outgoing s"
  by (rule outgoing_cong)

lemma outgoing_trigger:
  assumes "ws_state s \<noteq> CLOSED"
  shows "outgoing (snd (trigger s)) = outgoing s"
proof -
  have "outgoing (snd (send s)) = outgoing s" if "ws_state s \<noteq> CLOSED" for s :: "('a, 'b) ws_conn_scheme"
    unfolding send_outgoing using that by (auto simp: outgoing_def split: list.split)
  from this [of "s\<lparr> ws_triggered := True \<rparr>"] show ?thesis
    using assms outgoing_cong [of "s\<lparr> ws_triggered := True \<rparr>" s]
    by (auto simp: trigger_def runs bindM_def split: prod.split sum.split)
qed

text \<open>What is handed to the transport or queued grows by the octets, in order, whatever the queue holds.\<close>

lemma outgoing_sendData:
  assumes "ws_state s \<noteq> CLOSED"
  shows "outgoing (snd (sendData data sync 0 s)) = outgoing s @ [data]"
proof (cases "sync \<or> ws_sendQueue s \<noteq> []")
  case True
  let ?t = "s\<lparr> ws_sendQueue := ws_sendQueue s @ [(data, sync)] \<rparr>"
  obtain u where u: "trigger ?t = (Inr (), u)" by (rule succeedsE [OF succeeds_send(2)]) auto
  have "outgoing ?t = outgoing s @ [data]" by (simp add: outgoing_def written_def)
  then show ?thesis
    using True u outgoing_trigger [of ?t] assms
    by (simp add: sendData_def enqueue_def runs bindM_def u)
next
  case False
  obtain u where u: "countWire (length data) (s\<lparr> ws_out := ws_out s @ [Write data] \<rparr>) = (Inr (), u)"
    by (rule succeedsE [OF succeeds_emitM(5)]) auto
  have "io_rel (s\<lparr> ws_out := ws_out s @ [Write data] \<rparr>) u"
    using evolvesD [OF io_countWire] u by (metis snd_conv)
  then show ?thesis
    using False u by (simp add: sendData_def emitM_def runs bindM_def u outgoing_def io_rel_def)
qed

lemma sendFrame_outgoing:
  assumes "ws_state s \<noteq> CLOSED" and "length pl < 2 ^ 63" and "sendFrame cf opcode pl fin rsv None 0 0 sync s = (r, t)"
  obtains used where "r = Inr ()" "send_rel s t" "valid_key used" "used \<noteq> None \<longleftrightarrow> wants_mask cf"
    "outgoing t = outgoing s @ [frame_octets cf opcode fin rsv pl used (key_octets used)]"
proof -
  define key where "key = (if wants_mask cf then Some (map (cf_random cf) [ws_randomPos s..<ws_randomPos s + 4]) else None)"
  define s1 where "s1 = (if wants_mask cf then s\<lparr> ws_randomPos := ws_randomPos s + 4 \<rparr> else s)"
  define s2 where "s2 = (if opcode = 0 \<or> opcode = 1 \<or> opcode = 2 then s1\<lparr> ws_stats := (ws_stats s1)\<lparr>
      ts_outgoingWebSocketFrames := ts_outgoingWebSocketFrames (ws_stats s1) + 1 \<rparr> \<rparr> else s1)"
  have key: "bindM (if wants_mask cf then bindM (randBytesM cf 4) (\<lambda>m. returnM (Some m, m)) else returnM (None, []))
      k s = k (key, key_octets key) s1" for k :: "_ \<Rightarrow> ('a, 'b, unit) ws_prog"
    by (simp add: runs randBytesM_def key_def s1_def key_octets_def)
  have "\<not> length pl > 0x7fffffffffffffff" using assms(2) by simp
  then have "sendFrame cf opcode pl fin rsv None 0 0 sync s = doM [
      whenM (opcode = 0 \<or> opcode = 1 \<or> opcode = 2)
        (statsM (\<lambda>t. t\<lparr> ts_outgoingWebSocketFrames := ts_outgoingWebSocketFrames t + 1 \<rparr>)),
      sendData (frame_octets cf opcode fin rsv pl key (key_octets key)) sync 0] s1"
    by (simp add: sendFrame_def Let_def key del: doM.simps)
  also have "\<dots> = sendData (frame_octets cf opcode fin rsv pl key (key_octets key)) sync 0 s2"
    by (simp add: runs statsM_def s2_def bindM_unit)
  finally have run: "sendFrame cf opcode pl fin rsv None 0 0 sync s
      = sendData (frame_octets cf opcode fin rsv pl key (key_octets key)) sync 0 s2" .
  have s2: "outgoing s2 = outgoing s" "ws_state s2 = ws_state s"
    by (simp_all add: s1_def s2_def outgoing_def written_def)
  show thesis
  proof (rule that)
    show "r = Inr ()"
      using succeeds_sendFrame [OF assms(2), of cf opcode fin rsv sync] assms(3)
      by (auto elim: succeedsE [of _ s])
    show "send_rel s t" using evolvesD [OF send_sendFrame] assms(3) by (metis snd_conv)
    show "valid_key key" "key \<noteq> None \<longleftrightarrow> wants_mask cf" by (simp_all add: key_def valid_key_def)
    show "outgoing t = outgoing s @ [frame_octets cf opcode fin rsv pl key (key_octets key)]"
      using assms(1,3) outgoing_sendData [of s2] unfolding run s2 by (metis snd_conv)
  qed
qed

section \<open>Sequences of frames\<close>

record wire_frame =
  fr_opcode :: byte
  fr_fin :: bool
  fr_key :: "ws_mask option"
  fr_payload :: bytes

definition wire :: "'c ws_config \<Rightarrow> wire_frame \<Rightarrow> bytes" where
  "wire cf f = frame_octets cf (fr_opcode f) (fr_fin f) 0 (fr_payload f) (fr_key f) (key_octets (fr_key f))"

definition wires :: "'c ws_config \<Rightarrow> wire_frame list \<Rightarrow> bytes" where
  "wires cf fs = concat (map (wire cf) fs)"

lemma wires_simps [simp]: "wires cf [] = []" "wires cf (f # fs) = wire cf f @ wires cf fs"
  "wires cf (fs @ gs) = wires cf fs @ wires cf gs"
  by (simp_all add: wires_def)

text \<open>A key is present when the configuration of the sender asks for masking.\<close>

definition keyed :: "'c ws_config \<Rightarrow> wire_frame \<Rightarrow> bool" where
  "keyed cf f \<longleftrightarrow> valid_key (fr_key f) \<and> (fr_key f \<noteq> None \<longleftrightarrow> wants_mask cf)"

text \<open>The fragments of a message: the first has the opcode of the message, the others zero.\<close>

fun fragment_frames :: "byte \<Rightarrow> (bytes \<times> bool) list \<Rightarrow> wire_frame list \<Rightarrow> bool" where
  "fragment_frames opcode [] fs = (fs = [])"
| "fragment_frames opcode ((d, fin) # frs) fs =
     (case fs of [] \<Rightarrow> False
      | f # fs' \<Rightarrow> fr_opcode f = opcode \<and> fr_fin f = fin \<and> fr_payload f = d \<and> fragment_frames 0 frs fs')"

lemma fragments_concat: "concat (map fst (fragments pfs data)) = data"
  by (induction pfs data rule: fragments.induct) (subst fragments.simps, simp)

lemma fragments_fin:
  "\<exists>frs d. fragments pfs data = frs @ [(d, True)] \<and> (\<forall>(c, fin) \<in> set frs. \<not> fin \<and> length c = pfs)
     \<and> (pfs > 0 \<longrightarrow> length d < pfs)"
proof (induction pfs data rule: fragments.induct)
  case (1 pfs data)
  show ?case
  proof (cases "pfs = 0 \<or> length data < pfs")
    case True
    then show ?thesis by (subst fragments.simps) auto
  next
    case False
    with 1 obtain frs d where "fragments pfs (drop pfs data) = frs @ [(d, True)]"
      "\<forall>(c, fin) \<in> set frs. \<not> fin \<and> length c = pfs" "pfs > 0 \<longrightarrow> length d < pfs" by blast
    then show ?thesis using False
      by (subst fragments.simps) (auto intro!: exI [of _ "(take pfs data, False) # frs"])
  qed
qed

text \<open>The frames a message is cut into.\<close>

definition message_pfs :: "'c ws_config \<Rightarrow> nat \<Rightarrow> nat" where
  "message_pfs cf fragmentSize =
     (if fragmentSize > 0 then fragmentSize else if cf_autoFragmentSize cf > 0 then cf_autoFragmentSize cf else 0)"

definition message_chunks :: "nat \<Rightarrow> bytes \<Rightarrow> (bytes \<times> bool) list" where
  "message_chunks pfs data = (if pfs = 0 \<or> length data \<le> pfs then [(data, True)] else fragments pfs data)"

lemma message_chunks_concat: "concat (map fst (message_chunks pfs data)) = data"
  by (simp add: message_chunks_def fragments_concat)

lemma message_chunks_fin:
  obtains frs d where "message_chunks pfs data = frs @ [(d, True)]" "list_all (\<lambda>(c, fin). \<not> fin) frs"
proof (cases "pfs = 0 \<or> length data \<le> pfs")
  case True
  with that [of "[]" data] show thesis by (simp add: message_chunks_def)
next
  case False
  with fragments_fin [of pfs data] that show thesis
    by (fastforce simp: message_chunks_def list_all_iff)
qed

lemma length_concat_mem: "x \<in> set xs \<Longrightarrow> length x \<le> length (concat xs)"
  by (induction xs) auto

lemma send_frames_outgoing:
  assumes "ws_state s \<noteq> CLOSED" and "list_all (\<lambda>(c, fin). length c < 2 ^ 63) frs"
    and "doM (map (\<lambda>(i, chunk, fin).
            if i = 0 then sendFrame cf opcode chunk fin 0 None 0 0 sync
            else sendFrame cf 0 chunk fin 0 None 0 0 sync) (enumerate n frs)) s = (r, t)"
  shows "\<exists>fs. r = Inr () \<and> send_rel s t \<and> fragment_frames (if n = 0 then opcode else 0) frs fs
    \<and> list_all (keyed cf) fs \<and> outgoing t = outgoing s @ map (wire cf) fs"
  using assms
proof (induction frs arbitrary: n s)
  case Nil
  then show ?case by (auto simp: runs sr.rel_refl intro!: exI [of _ "[]"])
next
  case (Cons fr frs)
  obtain c fin where fr: "fr = (c, fin)" by (cases fr)
  let ?op = "if n = 0 then opcode else 0"
  obtain r1 s1 where s1: "sendFrame cf ?op c fin 0 None 0 0 sync s = (r1, s1)" by fastforce
  obtain used where used: "r1 = Inr ()" "send_rel s s1" "valid_key used" "used \<noteq> None \<longleftrightarrow> wants_mask cf"
    "outgoing s1 = outgoing s @ [frame_octets cf ?op fin 0 c used (key_octets used)]"
    by (rule sendFrame_outgoing [OF Cons.prems(1) _ s1]) (use Cons.prems(2) fr in auto)
  define f where "f = \<lparr> fr_opcode = ?op, fr_fin = fin, fr_key = used, fr_payload = c \<rparr>"
  have "ws_state s1 \<noteq> CLOSED" using used(2) Cons.prems(1) by (simp add: send_rel_fields)
  moreover have "doM (map (\<lambda>(i, chunk, fin).
            if i = 0 then sendFrame cf opcode chunk fin 0 None 0 0 sync
            else sendFrame cf 0 chunk fin 0 None 0 0 sync) (enumerate (Suc n) frs)) s1 = (r, t)"
    using Cons.prems(3) s1 used(1) fr by (cases n) (auto simp: bindM_def)
  ultimately obtain fs where fs: "r = Inr ()" "send_rel s1 t" "fragment_frames 0 frs fs"
      "list_all (keyed cf) fs" "outgoing t = outgoing s1 @ map (wire cf) fs"
    using Cons.IH [of s1 "Suc n"] Cons.prems(2) by auto
  show ?case
    using fs used sr.rel_trans [OF used(2) fs(2)]
    by (intro exI [of _ "f # fs"]) (simp add: f_def keyed_def [of _ "\<lparr> fr_opcode = _, fr_fin = _, fr_key = _, fr_payload = _ \<rparr>"] wire_def fr)
qed

lemma sendMessage_outgoing:
  assumes "ws_state s = OPEN" and "length data < 2 ^ 63" and "nc \<or> \<not> has_pmce s"
    and "sendMessage cf data isBinary fragmentSize sync nc s = (r, t)"
  shows "\<exists>fs. r = Inr () \<and> send_rel s t
    \<and> fragment_frames (if isBinary then 2 else 1) (message_chunks (message_pfs cf fragmentSize) data) fs
    \<and> list_all (keyed cf) fs \<and> outgoing t = outgoing s @ map (wire cf) fs"
proof -
  let ?op = "(if isBinary then 2 else 1) :: byte" and ?pfs = "message_pfs cf fragmentSize"
  let ?body = "doM (map (\<lambda>(i, chunk, fin).
            if i = 0 then sendFrame cf ?op chunk fin 0 None 0 0 sync
            else sendFrame cf 0 chunk fin 0 None 0 0 sync) (enumerate 0 (message_chunks ?pfs data)))"
  let ?pre = "doM [trackM ''sendMessage'',
      statsM (\<lambda>t. t\<lparr> ts_outgoingWebSocketMessages := ts_outgoingWebSocketMessages t + 1 \<rparr>),
      statsM (\<lambda>t. t\<lparr> ts_outgoingOctetsAppLevel := ts_outgoingOctetsAppLevel t + length data,
        ts_outgoingOctetsWebSocketLevel := ts_outgoingOctetsWebSocketLevel t + length data \<rparr>)]"
  have plain: "(has_pmce s \<and> \<not> nc) = False" using assms(3) by blast
  have run: "sendMessage cf data isBinary fragmentSize sync nc s = bindM ?pre (\<lambda>_. ?body) s"
    unfolding sendMessage_def withM_def Let_def plain
    using assms(1) by (simp add: message_pfs_def message_chunks_def send_fragments_def
        prog_laws bindM_unit)
  obtain s1 where s1: "?pre s = (Inr (), s1)"
  proof -
    have "succeeds ?pre" unfolding trackM_def by (intro succeeds_rules succeeds_emitM)
    from succeeds_unit [OF this, of s] show thesis using that by blast
  qed
  have body: "?body s1 = (r, t)"
    using assms(4) unfolding run bindM_after [where m = "?pre" and s = s and k = "\<lambda>_. ?body", OF s1] .
  have "evolves io_rel ?pre" by (intro ir.ev_rules evolves_intros)
  from evolvesD [OF this, of s] have io: "io_rel s s1" unfolding s1 by simp
  have "length c < 2 ^ 63" if "(c, fin) \<in> set (message_chunks ?pfs data)" for c fin
  proof -
    have "c \<in> set (map fst (message_chunks ?pfs data))" using image_eqI [of c fst, OF _ that] by simp
    from length_concat_mem [OF this] show ?thesis unfolding message_chunks_concat using assms(2) by linarith
  qed
  then have len: "list_all (\<lambda>(c, fin). length c < 2 ^ 63) (message_chunks ?pfs data)"
    unfolding list_all_iff by blast
  have st: "ws_state s1 \<noteq> CLOSED" "outgoing s1 = outgoing s" "send_rel s s1"
    using io assms(1) by (auto simp: io_rel_def outgoing_def send_rel_fields)
  from send_frames_outgoing [OF st(1) len body] show ?thesis
    using st sr.rel_trans [OF st(3)] by auto
qed

end
