(* ===== verification/Ws_Delivery.thy ===== *)
theory Ws_Delivery
  imports Ws_Stream
begin

text \<open>
  What a receiver makes of a sequence of frames. The reference is \<open>deliveries\<close>: the messages,
  pings and pongs of the sequence. The refinement relation \<open>rx_at\<close> ties a state of the protocol
  object to the part of the sequence still to come, at any octet of it.
\<close>

section \<open>The reference\<close>

definition is_control :: "wire_frame \<Rightarrow> bool" where
  "is_control f \<longleftrightarrow> fr_opcode f > 7"

text \<open>A frame the receiver accepts inside or outside a message.\<close>

definition frame_ok :: "'c ws_config \<Rightarrow> bool \<Rightarrow> wire_frame \<Rightarrow> bool" where
  "frame_ok cf inside f \<longleftrightarrow> valid_key (fr_key f) \<and> length (fr_payload f) < 2 ^ 63
     \<and> (cf_isServer cf \<and> cf_requireMaskedClientFrames cf \<longrightarrow> fr_key f \<noteq> None)
     \<and> (\<not> cf_isServer cf \<and> \<not> cf_acceptMaskedServerFrames cf \<longrightarrow> fr_key f = None)
     \<and> (if is_control f then (fr_opcode f = 9 \<or> fr_opcode f = 10) \<and> fr_fin f \<and> length (fr_payload f) \<le> 125
        else if inside then fr_opcode f = 0
        else fr_opcode f = 1 \<or> fr_opcode f = 2)"

text \<open>The message under way: its kind and its data so far.\<close>

type_synonym message = "bool \<times> bytes"

fun msg_start :: "message option \<Rightarrow> wire_frame \<Rightarrow> message" where
  "msg_start None f = (fr_opcode f = 2, [])"
| "msg_start (Some m) f = m"

definition msg_add :: "message \<Rightarrow> bytes \<Rightarrow> message" where
  "msg_add m d = (fst m, snd m @ d)"

definition is_checked :: "'c ws_config \<Rightarrow> message \<Rightarrow> bool" where
  "is_checked cf m \<longleftrightarrow> \<not> fst m \<and> cf_utf8validateIncoming cf"

fun stream_ok :: "'c ws_config \<Rightarrow> message option \<Rightarrow> wire_frame list \<Rightarrow> bool" where
  "stream_ok cf cur [] = True"
| "stream_ok cf cur (f # fs) =
     (frame_ok cf (cur \<noteq> None) f \<and>
      (if is_control f then stream_ok cf cur fs
       else (let m = msg_add (msg_start cur f) (fr_payload f) in
         (is_checked cf m \<longrightarrow> (if fr_fin f then utf8_well_formed (snd m) else utf8_viable (snd m)))
         \<and> (cf_maxMessagePayloadSize cf > 0 \<longrightarrow> length (snd m) \<le> cf_maxMessagePayloadSize cf)
         \<and> (cf_maxFramePayloadSize cf > 0 \<longrightarrow> length (fr_payload f) \<le> cf_maxFramePayloadSize cf)
         \<and> stream_ok cf (if fr_fin f then None else Some m) fs)))"

fun deliveries :: "message option \<Rightarrow> wire_frame list \<Rightarrow> ws_event list" where
  "deliveries cur [] = []"
| "deliveries cur (f # fs) =
     (if is_control f then
        (if fr_opcode f = 9 then OnPing (fr_payload f) else OnPong (fr_payload f)) # deliveries cur fs
      else (let m = msg_add (msg_start cur f) (fr_payload f) in
        if fr_fin f then OnMessage (snd m) (fst m) # deliveries None fs else deliveries (Some m) fs))"

section \<open>The refinement relation\<close>

definition rx_open :: "('c, 'm) ws_conn_scheme \<Rightarrow> bool" where
  "rx_open s \<longleftrightarrow> ws_state s = OPEN \<and> \<not> ws_failedByMe s \<and> ws_webSocketVersion s \<noteq> 0"

definition utf8_at :: "'c ws_config \<Rightarrow> message \<Rightarrow> ('c, 'm) ws_conn_scheme \<Rightarrow> bool" where
  "utf8_at cf m s \<longleftrightarrow> ws_utf8validateIncomingCurrentMessage s = is_checked cf m
     \<and> (is_checked cf m \<longrightarrow> uv_after (snd m) (ws_utf8validator s)
          \<and> fst (snd (ws_utf8validateLast s)) = utf8_well_formed (snd m))"

definition message_at :: "'c ws_config \<Rightarrow> message \<Rightarrow> ('c, 'm) ws_conn_scheme \<Rightarrow> bool" where
  "message_at cf m s \<longleftrightarrow> ws_insideMessage s \<and> \<not> ws_isMessageCompressed s
     \<and> ws_messageIsBinary s = fst m \<and> ws_messageData s = snd m"

definition between_frames :: "'c ws_config \<Rightarrow> message option \<Rightarrow> ('c, 'm) ws_conn_scheme \<Rightarrow> bool" where
  "between_frames cf cur s \<longleftrightarrow> (case cur of None \<Rightarrow> \<not> ws_insideMessage s
     | Some m \<Rightarrow> message_at cf m s \<and> utf8_at cf m s \<and> ws_messageDataTotalLength s = word_of_nat (length (snd m)))"

definition frame_header_of :: "wire_frame \<Rightarrow> frame_header" where
  "frame_header_of f = \<lparr> fh_opcode = fr_opcode f, fh_fin = fr_fin f, fh_rsv = 0,
     fh_length = word_of_nat (length (fr_payload f)), fh_mask = fr_key f \<rparr>"

definition payload_masker :: "'c ws_config \<Rightarrow> wire_frame \<Rightarrow> xor_masker" where
  "payload_masker cf f = frame_masker cf (fr_key f) (word_of_nat (length (fr_payload f)))"

definition wire_payload :: "'c ws_config \<Rightarrow> wire_frame \<Rightarrow> bytes" where
  "wire_payload cf f = masked_payload cf (fr_key f) (fr_payload f)"

text \<open>\<open>k\<close> octets of the payload of \<open>f\<close> have been consumed.\<close>

definition inside_frame ::
  "'c ws_config \<Rightarrow> message option \<Rightarrow> wire_frame \<Rightarrow> nat \<Rightarrow> ('c, 'm) ws_conn_scheme \<Rightarrow> bool" where
  "inside_frame cf cur f k s \<longleftrightarrow> ws_currentFrame s = Some (frame_header_of f) \<and> k \<le> length (fr_payload f)
     \<and> ws_currentFrameMasker s = snd (masker_process (payload_masker cf f) (take k (wire_payload cf f)))
     \<and> (if is_control f then ws_controlFrameData s = take k (fr_payload f) \<and> between_frames cf cur s
        else message_at cf (msg_start cur f) s \<and> ws_frameData s = take k (fr_payload f)
          \<and> utf8_at cf (msg_add (msg_start cur f) (take k (fr_payload f))) s
          \<and> ws_messageDataTotalLength s =
              word_of_nat (length (snd (msg_start cur f)) + length (fr_payload f)))"

definition rx_at ::
  "'c ws_config \<Rightarrow> bytes \<Rightarrow> message option \<Rightarrow> wire_frame list \<Rightarrow> ('c, 'm) ws_conn_scheme \<Rightarrow> bool" where
  "rx_at cf R cur todo s \<longleftrightarrow> rx_open s \<and> stream_ok cf cur todo
     \<and> (ws_currentFrame s = None \<and> between_frames cf cur s \<and> ws_data s @ R = wires cf todo
        \<or> (\<exists>f fs k. todo = f # fs \<and> inside_frame cf cur f k s
             \<and> ws_data s @ R = drop k (wire_payload cf f) @ wires cf fs))"

section \<open>The header of a frame\<close>

lemma header_prefix:
  assumes "2 \<le> length d" and "header_len (d ! 1) \<le> length d"
  shows "(d @ R) ! 0 = d ! 0" "(d @ R) ! 1 = d ! 1" "payload_len (d @ R) = payload_len d"
    "frame_mask (d @ R) = frame_mask d"
proof -
  show n: "(d @ R) ! 0 = d ! 0" "(d @ R) ! 1 = d ! 1" using assms(1) by (auto simp: nth_append)
  have l: "b1_len (d ! 1) = 126 \<Longrightarrow> 4 \<le> length d" "b1_len (d ! 1) = 127 \<Longrightarrow> 10 \<le> length d"
    using assms(2) by (auto simp: header_len_def simp del: One_nat_def split: if_splits)
  show "payload_len (d @ R) = payload_len d"
    using l by (auto simp: payload_len_def n Let_def simp del: One_nat_def)
  show "frame_mask (d @ R) = frame_mask d"
    using assms(2) unfolding frame_mask_def n
    by (auto simp: header_len_def simp del: One_nat_def split: if_splits)
qed

lemma guardsM_pass: "\<not> list_ex fst gs \<Longrightarrow> guardsM cf gs m = m"
  by (induction gs) auto

lemma wire_octets: "wire cf f = frame_octets cf (fr_opcode f) (fr_fin f) 0 (fr_payload f) (fr_key f) (key_octets (fr_key f))"
  by (simp add: wire_def)

lemma frame_ok_opcode: "frame_ok cf inside f \<Longrightarrow> unat (fr_opcode f) < 16"
  by (auto simp: frame_ok_def split: if_splits)

text \<open>No violation is found in an acceptable header.\<close>

lemma header_checks_pass:
  assumes "frame_ok cf (ws_insideMessage s) f" and "b0_fin b0 = fr_fin f" "b0_rsv b0 = 0" "b0_opcode b0 = fr_opcode f"
    "b1_masked b1 = (fr_key f \<noteq> None)" "b1_len b1 = frame_len7 (length (fr_payload f))"
  shows "\<not> list_ex fst (header_checks cf s b0 b1)"
proof -
  have "length (fr_payload f) \<le> 125 \<Longrightarrow> \<not> frame_len7 (length (fr_payload f)) > 125"
    by (simp add: frame_len7_def word_less_nat_alt)
  then show ?thesis
    using assms(1) unfolding header_checks_def Let_def assms(2-)
    by (auto simp: frame_ok_def is_control_def split: if_splits)
qed

lemma header_of_wire:
  assumes "frame_ok cf inside f" and "d @ R = wire cf f @ tail" and "2 \<le> length d" "header_len (d ! 1) \<le> length d"
  shows "header_of d = frame_header_of f"
    "drop (header_len (d ! 1)) d @ R = wire_payload cf f @ tail"
    "\<not> list_ex fst (length_checks (b1_len (d ! 1)) (payload_len d))"
proof -
  note w = assms(2) [unfolded wire_octets]
  note pre = header_prefix [OF assms(3,4), of R]
  have ok: "valid_key (fr_key f)" "length (fr_payload f) < 2 ^ 63" using assms(1) by (simp_all add: frame_ok_def)
  show "header_of d = frame_header_of f"
    using opcode_octets [OF w frame_ok_opcode [OF assms(1)]] payload_len_octets(1) [OF w ok(2)]
      frame_mask_octets(1) [OF ok(1) w] unfolding pre header_of_def frame_header_of_def by simp
  have "drop (header_len (d ! 1)) d @ R = drop (header_len (d ! 1)) (d @ R)" using assms(4) by simp
  also have "\<dots> = wire_payload cf f @ tail"
    using header_len_octets(2) [OF ok(1) w] unfolding pre wire_payload_def .
  finally show "drop (header_len (d ! 1)) d @ R = wire_payload cf f @ tail" .
  show "\<not> list_ex fst (length_checks (b1_len (d ! 1)) (payload_len d))"
    using payload_len_octets(2) [OF w ok(2)] unfolding pre .
qed

lemma first_octets:
  assumes "frame_ok cf inside f" and "d @ R = wire cf f @ tail" and "2 \<le> length d"
  shows "b0_fin (d ! 0) = fr_fin f" "b0_rsv (d ! 0) = 0" "b0_opcode (d ! 0) = fr_opcode f"
    "b1_masked (d ! 1) = (fr_key f \<noteq> None)" "b1_len (d ! 1) = frame_len7 (length (fr_payload f))"
proof -
  have n: "(d @ R) ! 0 = d ! 0" "(d @ R) ! 1 = d ! 1" using assms(3) by (auto simp: nth_append)
  note w = assms(2) [unfolded wire_octets]
  show "b0_fin (d ! 0) = fr_fin f" "b0_rsv (d ! 0) = 0" "b0_opcode (d ! 0) = fr_opcode f"
    using opcode_octets [OF w frame_ok_opcode [OF assms(1)]] unfolding n by simp_all
  have "(d @ R) ! 1 = (if fr_key f \<noteq> None then 0x80 else 0) OR frame_len7 (length (fr_payload f))"
    unfolding w by (simp add: frame_octets_eq)
  then show "b1_masked (d ! 1) = (fr_key f \<noteq> None)" "b1_len (d ! 1) = frame_len7 (length (fr_payload f))"
    unfolding n using b1_roundtrip [OF frame_len7_less, of "fr_key f \<noteq> None"] by simp_all
qed

text \<open>Either the header is not complete, and nothing happens, or the frame begins.\<close>

lemma processHeader_run:
  assumes "frame_ok cf (ws_insideMessage s) f" and "ws_data s @ R = wire cf f @ tail"
  shows "processHeader cf s =
    (if 2 \<le> length (ws_data s) \<and> header_len (ws_data s ! 1) \<le> length (ws_data s)
     then beginFrame cf (ws_data s) s else (Inr False, s))"
proof (cases "2 \<le> length (ws_data s)")
  case True
  have "\<not> list_ex fst (header_checks cf s (ws_data s ! 0) (ws_data s ! 1))"
    by (rule header_checks_pass [OF assms(1)]) (rule first_octets [OF assms True])+
  note checks = guardsM_pass [OF this]
  show ?thesis
    using True header_of_wire(3) [OF assms True]
    by (auto simp: processHeader_def runs Let_def checks guardsM_pass simp del: One_nat_def)
next
  case False
  then show ?thesis by (simp add: processHeader_def runs Let_def)
qed

section \<open>The beginning of a frame\<close>

definition tracked :: "string \<Rightarrow> ('c, 'm) ws_conn_scheme \<Rightarrow> ('c, 'm) ws_conn_scheme" where
  "tracked k s = (if ws_tracked s then s\<lparr> ws_out := ws_out s @ [Track k] \<rparr> else s)"

lemma trackM_run: "trackM k s = (Inr (), tracked k s)"
  by (simp add: trackM_def emitM_def runs tracked_def)

lemma tracked_io: "io_rel s (tracked k s)"
  using evolvesD [OF io_trackM, of s k] by (simp add: trackM_run)

lemmas tracked_fields = send_rel_fields [OF tracked_io [unfolded io_rel_def, THEN conjunct1]]

lemma onMessageFrameBegin_run:
  assumes "\<not> ws_failedByMe s"
    and "0 < cf_maxMessagePayloadSize cf \<Longrightarrow>
      unat (ws_messageDataTotalLength s + len) \<le> cf_maxMessagePayloadSize cf"
    and "0 < cf_maxFramePayloadSize cf \<Longrightarrow> unat len \<le> cf_maxFramePayloadSize cf"
  shows "onMessageFrameBegin cf len s = (Inr (), s\<lparr> ws_frameLength := len, ws_frameData := [],
     ws_messageDataTotalLength := ws_messageDataTotalLength s + len \<rparr>)"
  using assms by (auto simp: onMessageFrameBegin_def runs)

definition message_begun :: "'c ws_config \<Rightarrow> frame_header \<Rightarrow> ('c, 'm) ws_conn_scheme \<Rightarrow> ('c, 'm) ws_conn_scheme" where
  "message_begun cf fh s =
     (let s1 = s\<lparr> ws_insideMessage := True, ws_isMessageCompressed := False \<rparr>;
          s2 = (if fh_opcode fh = MESSAGE_TYPE_TEXT \<and> cf_utf8validateIncoming cf
            then s1\<lparr> ws_utf8validator := utf8_reset (ws_utf8validator s1),
              ws_utf8validateIncomingCurrentMessage := True, ws_utf8validateLast := (True, True, 0, 0) \<rparr>
            else s1\<lparr> ws_utf8validateIncomingCurrentMessage := False \<rparr>)
      in (tracked ''onMessageBegin'' s2)\<lparr> ws_messageIsBinary := fh_opcode fh = MESSAGE_TYPE_BINARY,
           ws_messageData := [], ws_messageDataTotalLength := 0 \<rparr>)"

lemma bindM_trackM: "bindM (trackM key) k s = k () (tracked key s)"
  by (simp add: bindM_def trackM_run)

lemma onFrameBegin_control:
  assumes "ws_currentFrame s = Some fh" and "fh_opcode fh > 7"
  shows "onFrameBegin cf s = (Inr True, s\<lparr> ws_controlFrameData := [] \<rparr>)"
  using assms by (simp add: onFrameBegin_def currentFrameM_def runs)

lemma onFrameBegin_data:
  assumes "ws_currentFrame s = Some fh" and "\<not> fh_opcode fh > 7" and "fh_rsv fh = 0"
  shows "onFrameBegin cf s = bindM (onMessageFrameBegin cf (fh_length fh)) (\<lambda>_. returnM True)
     (if ws_insideMessage s then s else message_begun cf fh s)"
proof (cases "ws_insideMessage s")
  case True
  then show ?thesis using assms by (simp add: onFrameBegin_def currentFrameM_def runs prog_laws) (simp add: returnM_def)
next
  case False
  show ?thesis
  proof (cases "fh_opcode fh = MESSAGE_TYPE_TEXT \<and> cf_utf8validateIncoming cf")
    case True
    then show ?thesis using False assms
      by (simp add: onFrameBegin_def currentFrameM_def runs prog_laws bindM_trackM onMessageBegin_def message_begun_def Let_def) (simp add: returnM_def)
  next
    case nc: False
    show ?thesis using False nc assms
      by (cases "fh_opcode fh = MESSAGE_TYPE_TEXT"; cases "cf_utf8validateIncoming cf")
         (simp_all add: onFrameBegin_def currentFrameM_def runs prog_laws bindM_trackM onMessageBegin_def message_begun_def Let_def,
          simp_all add: returnM_def)
  qed
qed

lemma notable_update [simp]:
  "notable (s\<lparr> ws_out := ws_out s @ [e] \<rparr>) = notable s @ (if is_io e then [] else [e])"
  by (simp add: notable_def)

lemma limits_of_stream:
  assumes "stream_ok cf cur (f # fs)" and "\<not> is_control f"
  shows "0 < cf_maxMessagePayloadSize cf \<Longrightarrow>
      unat (word_of_nat (length (snd (msg_start cur f)) + length (fr_payload f)) :: 64 word) \<le> cf_maxMessagePayloadSize cf"
    and "0 < cf_maxFramePayloadSize cf \<Longrightarrow>
      unat (word_of_nat (length (fr_payload f)) :: 64 word) \<le> cf_maxFramePayloadSize cf"
proof -
  have m: "unat (word_of_nat n :: 64 word) \<le> n" for n by (simp add: unat_of_nat)
  show "unat (word_of_nat (length (snd (msg_start cur f)) + length (fr_payload f)) :: 64 word) \<le> cf_maxMessagePayloadSize cf"
    if "0 < cf_maxMessagePayloadSize cf"
    using assms that m [of "length (snd (msg_start cur f)) + length (fr_payload f)"]
    by (simp add: Let_def msg_add_def del: of_nat_add)
  show "unat (word_of_nat (length (fr_payload f)) :: 64 word) \<le> cf_maxFramePayloadSize cf"
    if "0 < cf_maxFramePayloadSize cf"
    using assms that m [of "length (fr_payload f)"] by (simp add: Let_def)
qed

lemma opcode_control [simp]: "fr_opcode f > 7 \<longleftrightarrow> is_control f"
  by (simp add: is_control_def)

lemma opcode_fields [simp]: "fh_rsv (frame_header_of f) = 0" "fh_fin (frame_header_of f) = fr_fin f" "fh_opcode (frame_header_of f) = fr_opcode f"
  "fh_length (frame_header_of f) = word_of_nat (length (fr_payload f))" "fh_mask (frame_header_of f) = fr_key f"
  by (simp_all add: frame_header_of_def)

text \<open>\<open>onFrameBegin\<close> reaches the beginning of the payload.\<close>

lemma onFrameBegin_reaches:
  assumes "rx_open s" and "stream_ok cf cur (f # fs)" and "between_frames cf cur s"
    and "ws_currentFrame s = Some (frame_header_of f)" and "ws_currentFrameMasker s = payload_masker cf f"
  obtains t where "onFrameBegin cf s = (Inr True, t)" "inside_frame cf cur f 0 t" "rx_open t"
    "notable t = notable s"
proof (cases "is_control f")
  case True
  have wf: "valid_key (fr_key f)" using assms(2) by (simp add: frame_ok_def)
  then have wfm: "wf_masker (payload_masker cf f)"
    by (auto simp: payload_masker_def frame_masker_def valid_key_def wf_createXorMasker split: option.splits)
  let ?t = "s\<lparr> ws_controlFrameData := [] \<rparr>"
  show thesis
  proof (rule that)
    show "onFrameBegin cf s = (Inr True, ?t)"
      by (rule onFrameBegin_control [OF assms(4)]) (simp add: True)
    show "inside_frame cf cur f 0 ?t"
      using assms(3-5) True xm.process_nil [OF wfm]
      by (auto simp: inside_frame_def between_frames_def message_at_def utf8_at_def split: option.splits)
    show "rx_open ?t" using assms(1) by (simp add: rx_open_def)
    show "notable ?t = notable s" by (simp add: notable_def)
  qed
next
  case False
  have wf: "valid_key (fr_key f)" using assms(2) by (simp add: frame_ok_def)
  then have wfm: "wf_masker (payload_masker cf f)"
    by (auto simp: payload_masker_def frame_masker_def valid_key_def wf_createXorMasker split: option.splits)
  let ?s = "if ws_insideMessage s then s else message_begun cf (frame_header_of f) s"
  have rx: "rx_open ?s" "notable ?s = notable s" "ws_currentFrame ?s = ws_currentFrame s"
    "ws_currentFrameMasker ?s = ws_currentFrameMasker s"
    using assms(1) by (auto simp: rx_open_def message_begun_def Let_def tracked_fields
        notable_def tracked_def)
  let ?t = "?s\<lparr> ws_frameLength := word_of_nat (length (fr_payload f)), ws_frameData := [],
     ws_messageDataTotalLength := ws_messageDataTotalLength ?s + word_of_nat (length (fr_payload f)) \<rparr>"
  have at: "message_at cf (msg_start cur f) ?s" "utf8_at cf (msg_start cur f) ?s"
    "ws_messageDataTotalLength ?s = word_of_nat (length (snd (msg_start cur f)))"
  proof -
    have "message_at cf (msg_start cur f) ?s \<and> utf8_at cf (msg_start cur f) ?s
      \<and> ws_messageDataTotalLength ?s = word_of_nat (length (snd (msg_start cur f)))"
    proof (cases cur)
      case None
      then have "fr_opcode f = 1 \<or> fr_opcode f = 2" "\<not> ws_insideMessage s"
        using assms(2,3) False by (auto simp: frame_ok_def between_frames_def split: if_splits)
      then show ?thesis
        using None uv_after_init(2)
        by (auto simp: message_at_def utf8_at_def message_begun_def Let_def tracked_fields
            is_checked_def MESSAGE_TYPE_TEXT_def MESSAGE_TYPE_BINARY_def utf8_well_formed_run)
    next
      case (Some m)
      then show ?thesis using assms(3) by (simp add: between_frames_def message_at_def)
    qed
    then show "message_at cf (msg_start cur f) ?s" "utf8_at cf (msg_start cur f) ?s"
      "ws_messageDataTotalLength ?s = word_of_nat (length (snd (msg_start cur f)))" by blast+
  qed
  show thesis
  proof (rule that)
    have "onMessageFrameBegin cf (word_of_nat (length (fr_payload f))) ?s = (Inr (), ?t)"
      by (rule onMessageFrameBegin_run)
         (use limits_of_stream [OF assms(2) False] rx(1) at(3) in \<open>simp_all add: rx_open_def\<close>)
    then show "onFrameBegin cf s = (Inr True, ?t)"
      using onFrameBegin_data [OF assms(4)] False by (simp add: runs bindM_def)
    show "inside_frame cf cur f 0 ?t"
      using assms(4,5) rx(3,4) at False xm.process_nil [OF wfm]
      by (simp add: inside_frame_def message_at_def utf8_at_def msg_add_def)
    show "rx_open ?t" using rx(1) by (simp add: rx_open_def)
    show "notable ?t = notable s" using rx(2) by (simp add: notable_def)
  qed
qed

section \<open>The payload of a frame\<close>

lemma payload_masker_wf:
  assumes "valid_key (fr_key f)"
  shows "wf_masker (payload_masker cf f)" "masker_pointer (payload_masker cf f) = 0"
  using assms
  by (auto simp: payload_masker_def frame_masker_def valid_key_def createXorMasker_def
      wf_createXorMasker [unfolded createXorMasker_def] split: option.splits)

lemma wire_payload_unmask:
  assumes "valid_key (fr_key f)" and "length (fr_payload f) < 2 ^ 63"
  shows "fst (masker_process (payload_masker cf f) (wire_payload cf f)) = fr_payload f"
    "length (wire_payload cf f) = length (fr_payload f)"
  using assms unmask_masked_payload [of "fr_key f" cf cf "fr_payload f"]
  by (simp_all add: payload_masker_def wire_payload_def)

lemma unmask_chunk:
  fixes cf :: "'c ws_config"
  assumes "valid_key (fr_key f)" and "length (fr_payload f) < 2 ^ 63" and "k \<le> length (fr_payload f)"
  defines "M \<equiv> \<lambda>k. snd (masker_process (payload_masker cf f) (take k (wire_payload cf f)))"
  shows "masker_process (M k) (take j (drop k (wire_payload cf f))) = (take j (drop k (fr_payload f)), M (k + j))"
proof -
  let ?wp = "wire_payload cf f" and ?M0 = "payload_masker cf f"
  note wf = payload_masker_wf(1) [OF assms(1), of cf]
  have whole: "fst (masker_process ?M0 (take n ?wp)) = take n (fr_payload f)" for n
    unfolding xm.process_take [OF wf] wire_payload_unmask(1) [OF assms(1,2)] ..
  have "take (k + j) ?wp = take k ?wp @ take j (drop k ?wp)" by (rule take_add)
  then have "masker_process ?M0 (take (k + j) ?wp) =
      (fst (masker_process ?M0 (take k ?wp)) @ fst (masker_process (M k) (take j (drop k ?wp))),
       snd (masker_process (M k) (take j (drop k ?wp))))"
    using xm.process_append [OF wf] unfolding M_def by metis
  then have "take k (fr_payload f) @ fst (masker_process (M k) (take j (drop k ?wp))) = take (k + j) (fr_payload f)"
    "snd (masker_process (M k) (take j (drop k ?wp))) = M (k + j)"
    using whole unfolding M_def by (metis fst_conv, metis snd_conv)
  moreover have "take (k + j) (fr_payload f) = take k (fr_payload f) @ take j (drop k (fr_payload f))"
    by (rule take_add)
  ultimately show ?thesis by (metis prod.collapse same_append_eq)
qed

lemma frame_rest_at:
  assumes "valid_key (fr_key f)" and "length (fr_payload f) < 2 ^ 63" and "inside_frame cf cur f k s"
  shows "frame_rest (frame_header_of f) s = length (fr_payload f) - k"
    "masker_pointer (ws_currentFrameMasker s) = word_of_nat k"
proof -
  have k: "k \<le> length (fr_payload f)" using assms(3) by (simp add: inside_frame_def)
  then show p: "masker_pointer (ws_currentFrameMasker s) = word_of_nat k"
    using assms(3)
    by (simp add: inside_frame_def masker_pointer_process payload_masker_wf(2) [OF assms(1)]
        wire_payload_unmask(2) [OF assms(1,2)] min_absorb2)
  have eq: "(word_of_nat (length (fr_payload f)) - word_of_nat k :: 64 word) = word_of_nat (length (fr_payload f) - k)"
    using k by simp
  then show "frame_rest (frame_header_of f) s = length (fr_payload f) - k"
    unfolding frame_rest_def p opcode_fields eq unat_of_nat using assms(2) by simp
qed

lemma utf8_viable_prefix: "utf8_viable (xs @ ys) \<Longrightarrow> utf8_viable xs"
  by (auto simp: utf8_viable_def)

lemma utf8_well_formed_viable: "utf8_well_formed xs \<Longrightarrow> utf8_viable xs"
  by (auto simp: utf8_viable_def intro: exI [of _ "[]"])

lemma stream_viable:
  assumes "stream_ok cf cur (f # fs)" and "\<not> is_control f" and "is_checked cf (msg_start cur f)"
  shows "utf8_viable (snd (msg_start cur f) @ take n (fr_payload f))"
proof -
  have "utf8_viable (snd (msg_start cur f) @ fr_payload f)"
    using assms by (auto simp: Let_def msg_add_def is_checked_def utf8_well_formed_viable split: if_splits)
  then have "utf8_viable ((snd (msg_start cur f) @ take n (fr_payload f)) @ drop n (fr_payload f))" by simp
  then show ?thesis by (rule utf8_viable_prefix)
qed

lemma onMessageFrameData_run:
  "\<not> ws_failedByMe s \<Longrightarrow> ws_webSocketVersion s \<noteq> 0 \<Longrightarrow>
   onMessageFrameData cf payload s = (Inr (), s\<lparr> ws_frameData := ws_frameData s @ payload \<rparr>)"
  by (simp add: onMessageFrameData_def runs)

lemma validate_utf8_ok:
  assumes "uv_after seen (ws_utf8validator s)" and "utf8_viable (seen @ p)"
  shows "validate_utf8 cf p s = (Inr False, s\<lparr>
      ws_utf8validateLast := fst (utf8_validate (ws_utf8validator s) p),
      ws_utf8validator := snd (utf8_validate (ws_utf8validator s) p) \<rparr>)"
  using utf8_validate_ok(1) [OF assms]
  by (simp add: validate_utf8_def runs split_beta)

lemma frame_ok_of_stream: "stream_ok cf cur (f # fs) \<Longrightarrow> frame_ok cf (cur \<noteq> None) f"
  by simp

lemma frame_ok_lengths:
  "frame_ok cf inside f \<Longrightarrow> valid_key (fr_key f)" "frame_ok cf inside f \<Longrightarrow> length (fr_payload f) < 2 ^ 63"
  by (simp_all add: frame_ok_def)

text \<open>The octets of a buffered payload, unmasked.\<close>

lemma unmasked_at:
  assumes "frame_ok cf inside f" and "inside_frame cf cur f k s"
    and "ws_data s @ R = drop k (wire_payload cf f) @ tail"
  defines "j \<equiv> min (length (ws_data s)) (length (fr_payload f) - k)"
  shows "unmasked (frame_header_of f) s = (take j (drop k (fr_payload f)),
      snd (masker_process (payload_masker cf f) (take (k + j) (wire_payload cf f))))"
    "drop (frame_rest (frame_header_of f) s) (ws_data s) @ R = drop (k + j) (wire_payload cf f) @ tail"
proof -
  note ok = frame_ok_lengths [OF assms(1)]
  note rest = frame_rest_at(1) [OF ok assms(2)]
  have len: "length (drop k (wire_payload cf f)) = length (fr_payload f) - k"
    by (simp add: wire_payload_unmask(2) [OF ok])
  have k: "k \<le> length (fr_payload f)" using assms(2) by (simp add: inside_frame_def)
  have "take j (ws_data s @ R) = take j (ws_data s)" by (simp add: j_def)
  moreover have "take j (drop k (wire_payload cf f) @ tail) = take j (drop k (wire_payload cf f))"
    unfolding take_append len by (simp add: j_def)
  ultimately have c: "take (length (fr_payload f) - k) (ws_data s) = take j (drop k (wire_payload cf f))"
    using assms(3) by (simp add: j_def min_def split: if_splits)
  have m: "ws_currentFrameMasker s = snd (masker_process (payload_masker cf f) (take k (wire_payload cf f)))"
    using assms(2) by (simp add: inside_frame_def)
  note chunk = unmask_chunk [OF ok k, of cf j]
  show "unmasked (frame_header_of f) s = (take j (drop k (fr_payload f)),
      snd (masker_process (payload_masker cf f) (take (k + j) (wire_payload cf f))))"
  proof (cases "take j (drop k (wire_payload cf f)) = []")
    case True
    then have "j = 0 \<or> drop k (wire_payload cf f) = []" by simp
    then have "j = 0" using len unfolding j_def by (metis length_0_conv min_0R)
    then show ?thesis unfolding unmasked_def rest c m by simp
  next
    case False
    then show ?thesis unfolding unmasked_def rest c m chunk by simp
  qed
  show "drop (frame_rest (frame_header_of f) s) (ws_data s) @ R = drop (k + j) (wire_payload cf f) @ tail"
  proof -
    have "drop (length (fr_payload f) - k) (ws_data s) = drop j (ws_data s)"
      by (simp add: j_def min_def)
    moreover have "drop j (ws_data s) @ R = drop j (ws_data s @ R)" by (simp add: j_def)
    moreover have "drop j (drop k (wire_payload cf f) @ tail) = drop (k + j) (wire_payload cf f) @ tail"
      unfolding drop_append len by (simp add: j_def add.commute)
    ultimately show ?thesis unfolding rest assms(3) [symmetric] by (metis assms(3))
  qed
qed

lemma onFrameData_control:
  assumes "ws_currentFrame s = Some (frame_header_of f)" and "is_control f"
  shows "onFrameData cf p s = (Inr True, s\<lparr> ws_controlFrameData := ws_controlFrameData s @ p \<rparr>)"
  using assms by (simp add: onFrameData_def currentFrameM_def runs)

definition count_payload :: "nat \<Rightarrow> ('c, 'm) ws_conn_scheme \<Rightarrow> ('c, 'm) ws_conn_scheme" where
  "count_payload n s = (if ws_state s = OPEN then s\<lparr> ws_stats := (ws_stats s)\<lparr>
     ts_incomingOctetsWebSocketLevel := ts_incomingOctetsWebSocketLevel (ws_stats s) + n,
     ts_incomingOctetsAppLevel := ts_incomingOctetsAppLevel (ws_stats s) + n \<rparr> \<rparr> else s)"

lemma onFrameData_data:
  assumes "ws_currentFrame s = Some (frame_header_of f)" and "\<not> is_control f" and "\<not> ws_isMessageCompressed s"
    and "\<not> ws_failedByMe s" and "ws_webSocketVersion s \<noteq> 0"
    and "ws_utf8validateIncomingCurrentMessage s \<Longrightarrow> uv_after seen (ws_utf8validator s) \<and> utf8_viable (seen @ p)"
  shows "onFrameData cf p s = (Inr True, let s1 = count_payload (length p) s;
      s2 = (if ws_utf8validateIncomingCurrentMessage s
            then s1\<lparr> ws_utf8validateLast := fst (utf8_validate (ws_utf8validator s) p),
                     ws_utf8validator := snd (utf8_validate (ws_utf8validator s) p) \<rparr> else s1)
    in s2\<lparr> ws_frameData := ws_frameData s @ p \<rparr>)"
proof -
  have mfd: "\<not> ws_failedByMe s \<Longrightarrow> ws_webSocketVersion s \<noteq> 0 \<Longrightarrow>
      bindM (onMessageFrameData cf p) k s = k () (s\<lparr> ws_frameData := ws_frameData s @ p \<rparr>)"
    for s :: "('a, 'b) ws_conn_scheme" and k :: "unit \<Rightarrow> ('a, 'b, bool) ws_prog"
    by (simp add: bindM_def onMessageFrameData_run)
  have vu: "fst (fst (utf8_validate (ws_utf8validator s) p)) \<Longrightarrow> bindM (validate_utf8 cf p) k s = k False (s\<lparr>
      ws_utf8validateLast := fst (utf8_validate (ws_utf8validator s) p),
      ws_utf8validator := snd (utf8_validate (ws_utf8validator s) p) \<rparr>)"
    for s :: "('a, 'b) ws_conn_scheme" and k :: "bool \<Rightarrow> ('a, 'b, bool) ws_prog"
    by (simp add: validate_utf8_def runs split_beta)
  have valid: "ws_utf8validateIncomingCurrentMessage s \<Longrightarrow> fst (fst (utf8_validate (ws_utf8validator s) p))"
    using assms(6) utf8_validate_ok(1) [of seen "ws_utf8validator s" p] by simp
  show ?thesis
    by (cases "ws_state s = OPEN"; cases "ws_utf8validateIncomingCurrentMessage s")
       (simp_all add: assms(1-5) onFrameData_def currentFrameM_def runs statsM_def count_payload_def vu valid mfd Let_def)
qed

text \<open>\<open>onFrameData\<close> moves the frame on by the octets of the buffer, at most to its end.\<close>

lemma onFrameData_reaches:
  assumes "rx_open s" and "stream_ok cf cur (f # fs)" and "inside_frame cf cur f k s"
    and "ws_data s @ R = drop k (wire_payload cf f) @ tail"
  defines "j \<equiv> min (length (ws_data s)) (length (fr_payload f) - k)"
  obtains t where
    "onFrameData cf (fst (unmasked (frame_header_of f) s)) (consumed (frame_header_of f) s) = (Inr True, t)"
    "inside_frame cf cur f (k + j) t" "rx_open t" "notable t = notable s"
    "ws_data t = drop j (ws_data s)" "ws_data t @ R = drop (k + j) (wire_payload cf f) @ tail"
proof -
  let ?fh = "frame_header_of f" and ?s = "consumed (frame_header_of f) s"
  note fok = frame_ok_of_stream [OF assms(2)]
  note ok = frame_ok_lengths [OF fok]
  note un = unmasked_at [OF fok assms(3,4), folded j_def]
  have k: "k + j \<le> length (fr_payload f)" using assms(3) by (auto simp: inside_frame_def j_def)
  have s: "ws_currentFrame ?s = Some ?fh" "ws_data ?s @ R = drop (k + j) (wire_payload cf f) @ tail"
    "ws_currentFrameMasker ?s = snd (masker_process (payload_masker cf f) (take (k + j) (wire_payload cf f)))"
    using assms(3) un by (simp_all add: inside_frame_def consumed_def)
  have d: "ws_data ?s = drop j (ws_data s)"
    unfolding consumed_def frame_rest_at(1) [OF ok assms(3)] by (simp add: j_def min_def)
  have p: "fst (unmasked ?fh s) = take j (drop k (fr_payload f))" using un(1) by simp
  have next_k: "take k (fr_payload f) @ take j (drop k (fr_payload f)) = take (k + j) (fr_payload f)"
    by (rule take_add [symmetric])
  show thesis
  proof (cases "is_control f")
    case True
    show thesis
    proof (rule that)
      show "onFrameData cf (fst (unmasked ?fh s)) ?s = (Inr True, ?s\<lparr> ws_controlFrameData :=
          ws_controlFrameData ?s @ fst (unmasked ?fh s) \<rparr>)" (is "_ = (_, ?t)")
        by (rule onFrameData_control [OF s(1) True])
      show "inside_frame cf cur f (k + j) ?t"
        using True assms(3) s k next_k unfolding p
        by (auto simp: inside_frame_def between_frames_def message_at_def utf8_at_def consumed_def split: option.splits)
      show "rx_open ?t" using assms(1) by (simp add: rx_open_def consumed_def)
      show "notable ?t = notable s" by (simp add: notable_def consumed_def)
      show "ws_data ?t = drop j (ws_data s)" "ws_data ?t @ R = drop (k + j) (wire_payload cf f) @ tail"
        using d s(2) by simp_all
    qed
  next
    case False
    let ?m = "msg_start cur f" and ?p = "take j (drop k (fr_payload f))"
    let ?seen = "snd ?m @ take k (fr_payload f)"
    let ?v = "utf8_validate (ws_utf8validator s) ?p"
    have ins: "message_at cf ?m s" "ws_frameData s = take k (fr_payload f)"
      "utf8_at cf (msg_add ?m (take k (fr_payload f))) s"
      "ws_messageDataTotalLength s = word_of_nat (length (snd ?m) + length (fr_payload f))"
      using assms(3) False by (simp_all add: inside_frame_def)
    have chk: "is_checked cf (msg_add m d) = is_checked cf m" for m d
      by (simp add: is_checked_def msg_add_def)
    have flag: "ws_utf8validateIncomingCurrentMessage s = is_checked cf ?m" using ins(3) by (simp add: utf8_at_def chk)
    have uv: "uv_after ?seen (ws_utf8validator s) \<and> utf8_viable (?seen @ ?p)"
      if "ws_utf8validateIncomingCurrentMessage s"
      using ins(3) that stream_viable [OF assms(2) False, of "k + j"] flag
      by (simp add: utf8_at_def msg_add_def take_add is_checked_def)
    have st: "ws_state ?s = ws_state s" "ws_failedByMe ?s = ws_failedByMe s"
      "ws_webSocketVersion ?s = ws_webSocketVersion s" "ws_isMessageCompressed ?s = ws_isMessageCompressed s"
      "ws_utf8validateIncomingCurrentMessage ?s = ws_utf8validateIncomingCurrentMessage s"
      "ws_utf8validator ?s = ws_utf8validator s" "ws_frameData ?s = ws_frameData s"
      by (simp_all add: consumed_def)
    define s2 where "s2 = (let s1 = count_payload (length ?p) ?s in
      if ws_utf8validateIncomingCurrentMessage s
      then s1\<lparr> ws_utf8validateLast := fst ?v, ws_utf8validator := snd ?v \<rparr> else s1)"
    let ?t = "s2\<lparr> ws_frameData := ws_frameData s @ ?p \<rparr>"
    have run: "onFrameData cf (fst (unmasked ?fh s)) ?s = (Inr True, ?t)"
      unfolding p using onFrameData_data [OF s(1) False, of ?seen ?p cf] ins(1) assms(1) uv
      by (simp add: st message_at_def rx_open_def s2_def Let_def)
    have keep: "ws_currentFrame ?t = ws_currentFrame ?s" "ws_currentFrameMasker ?t = ws_currentFrameMasker ?s"
      "message_at cf ?m ?t" "ws_messageDataTotalLength ?t = ws_messageDataTotalLength s" "ws_data ?t = ws_data ?s"
      "rx_open ?t" "notable ?t = notable s"
      "ws_utf8validateIncomingCurrentMessage ?t = ws_utf8validateIncomingCurrentMessage s"
      using ins(1) assms(1)
      by (simp_all add: s2_def Let_def count_payload_def consumed_def message_at_def rx_open_def notable_def)
    have utf: "utf8_at cf (msg_add ?m (take (k + j) (fr_payload f))) ?t"
    proof (cases "ws_utf8validateIncomingCurrentMessage s")
      case True
      note u = uv [OF True]
      have "ws_utf8validator ?t = snd ?v" "ws_utf8validateLast ?t = fst ?v"
        using True by (simp_all add: s2_def Let_def)
      then show ?thesis
        using utf8_validate_ok [OF u [THEN conjunct1] u [THEN conjunct2]] True flag keep(8)
        by (simp add: utf8_at_def is_checked_def msg_add_def take_add)
    next
      case False
      then show ?thesis using flag keep(8) by (simp add: utf8_at_def chk)
    qed
    show thesis
    proof (rule that [OF run])
      show "inside_frame cf cur f (k + j) ?t"
        using False s keep k ins(2,4) next_k utf by (simp add: inside_frame_def)
      show "ws_data ?t = drop j (ws_data s)" "ws_data ?t @ R = drop (k + j) (wire_payload cf f) @ tail"
        unfolding keep(5) using d s(2) by simp_all
    qed (rule keep(6), rule keep(7))
  qed
qed

section \<open>The end of a frame\<close>

text \<open>What answering a ping or matching a pong leaves alone.\<close>

definition calm_rel :: "('c, 'm) ws_conn_scheme \<Rightarrow> ('c, 'm) ws_conn_scheme \<Rightarrow> bool" where
  "calm_rel s t \<longleftrightarrow> ws_state t = ws_state s \<and> ws_failedByMe t = ws_failedByMe s
     \<and> ws_webSocketVersion t = ws_webSocketVersion s \<and> msg_part t = msg_part s \<and> parse_part t = parse_part s
     \<and> notable t = notable s"

interpretation cr: state_rel calm_rel
  by unfold_locales (auto simp: calm_rel_def)

lemma calm_send: "send_rel s t \<Longrightarrow> calm_rel s t"
  by (simp add: calm_rel_def msg_part_def parse_part_def send_rel_fields)

lemma calm_match_autoPing: "evolves calm_rel (match_autoPing cf payload)"
proof -
  note timers = send_callLaterM send_cancelM send_resetM
  note lift = timers [THEN evolves_mono, OF calm_send]
  show ?thesis
    unfolding match_autoPing_def
    by (intro cr.ev_rules lift cr.ev_modifyM; simp add: calm_rel_def msg_part_def parse_part_def notable_def)
qed

lemma succeeds_match_autoPing: "succeeds (match_autoPing cf payload)"
  unfolding match_autoPing_def by (intro succeeds_rules)

lemma between_frames_cong: "msg_part t = msg_part s \<Longrightarrow> between_frames cf cur t = between_frames cf cur s"
  by (simp add: between_frames_def message_at_def utf8_at_def msg_part_def split: option.split)

lemma calm_keeps:
  assumes "calm_rel s t"
  shows "rx_open t = rx_open s" "between_frames cf cur t = between_frames cf cur s"
    "ws_currentFrame t = ws_currentFrame s" "ws_data t = ws_data s" "notable t = notable s"
  using assms
  by (simp_all add: calm_rel_def rx_open_def between_frames_cong [of t s] parse_part_def)

lemma onFrameEnd_control:
  assumes "rx_open s" and "frame_ok cf inside f" and "is_control f"
    and "inside_frame cf cur f (length (fr_payload f)) s"
  obtains t where "onFrameEnd cf s = (Inr True, t)" "ws_currentFrame t = None" "between_frames cf cur t"
    "rx_open t" "ws_data t = ws_data s"
    "notable t = notable s @ [if fr_opcode f = 9 then OnPing (fr_payload f) else OnPong (fr_payload f)]"
proof -
  let ?p = "fr_payload f" and ?fh = "frame_header_of f"
  have f: "ws_currentFrame s = Some ?fh" "ws_controlFrameData s = ?p" "between_frames cf cur s"
    using assms(3,4) by (simp_all add: inside_frame_def)
  have op: "fr_opcode f = 9 \<or> fr_opcode f = 10" "length ?p \<le> 125" using assms(2,3) by (simp_all add: frame_ok_def)
  let ?s = "s\<lparr> ws_controlFrameData := [] \<rparr>"
  have s: "calm_rel s ?s" by (simp add: calm_rel_def msg_part_def parse_part_def notable_def)
  obtain u v where u: "processControlFrame cf s = (Inr True, u)" and v: "calm_rel s v"
    "calm_rel (v\<lparr> ws_out := ws_out v @ [if fr_opcode f = 9 then OnPing ?p else OnPong ?p] \<rparr>) u" (is "calm_rel (?w v) u")
  proof (cases "fr_opcode f = 9")
    case True
    let ?w = "?s\<lparr> ws_out := ws_out ?s @ [OnPing ?p] \<rparr>"
    obtain u where u: "sendPong cf ?p ?w = (Inr (), u)"
      using succeeds_unit [OF succeeds_sendPong [OF op(2)]] by blast
    have "send_rel ?w u" using evolvesD [OF send_sendPong, of ?w cf ?p] u by simp
    then have "calm_rel ?w u" by (rule calm_send)
    moreover have "processControlFrame cf s = (Inr True, u)"
      using True f assms(1) u
      by (simp add: processControlFrame_def currentFrameM_def onPing_def emitM_def runs rx_open_def Let_def)
         (simp add: bindM_def returnM_def)
    ultimately show thesis using True s by (intro that [of u ?s]) simp_all
  next
    case False
    obtain v where v: "match_autoPing cf ?p ?s = (Inr (), v)"
      using succeeds_unit [OF succeeds_match_autoPing] by blast
    have "calm_rel s v" using evolvesD [OF calm_match_autoPing, of ?s cf ?p] v cr.rel_trans [OF s] by simp
    moreover have "processControlFrame cf s = (Inr True, v\<lparr> ws_out := ws_out v @ [OnPong ?p] \<rparr>)"
      using False f op(1) v
      by (simp add: processControlFrame_def currentFrameM_def emitM_def runs Let_def)
         (simp add: bindM_def returnM_def modifyM_def)
    ultimately show thesis using False by (intro that [of "v\<lparr> ws_out := ws_out v @ [OnPong ?p] \<rparr>" v]) (simp_all add: cr.rel_refl)
  qed
  have run: "onFrameEnd cf s = (Inr True, u\<lparr> ws_currentFrame := None \<rparr>)"
    using f(1) u assms(3) by (simp add: onFrameEnd_def currentFrameM_def finish_frame_def runs bindM_def)
  show thesis
  proof (rule that [OF run])
    have w: "between_frames cf cur (?w v) = between_frames cf cur v" "rx_open (?w v) = rx_open v"
      by (rule between_frames_cong) (simp_all add: msg_part_def rx_open_def)
    have e: "between_frames cf cur (u\<lparr> ws_currentFrame := None \<rparr>) = between_frames cf cur u"
      by (rule between_frames_cong) (simp add: msg_part_def)
    show "between_frames cf cur (u\<lparr> ws_currentFrame := None \<rparr>)"
      unfolding e calm_keeps(2) [OF v(2)] w calm_keeps(2) [OF v(1)] by (rule f(3))
    have "rx_open u" unfolding calm_keeps(1) [OF v(2)] w calm_keeps(1) [OF v(1)] by (rule assms(1))
    then show "rx_open (u\<lparr> ws_currentFrame := None \<rparr>)" by (simp add: rx_open_def)
    show "ws_data (u\<lparr> ws_currentFrame := None \<rparr>) = ws_data s"
      using calm_keeps(4) [OF v(1)] calm_keeps(4) [OF v(2)] by simp
    show "notable (u\<lparr> ws_currentFrame := None \<rparr>)
        = notable s @ [if fr_opcode f = 9 then OnPing ?p else OnPong ?p]"
      using calm_keeps(5) [OF v(1)] calm_keeps(5) [OF v(2)]
      by (simp add: notable_def)
  qed simp
qed

text \<open>\<open>onMessageFrameEnd\<close> and \<open>onMessageEnd\<close> of a connection that has not failed.\<close>

definition fragment_joined :: "('c, 'm) ws_conn_scheme \<Rightarrow> ('c, 'm) ws_conn_scheme" where
  "fragment_joined s = s\<lparr> ws_messageData := ws_messageData s @ ws_frameData s, ws_frameData := [],
     ws_stats := (ws_stats s)\<lparr> ts_incomingWebSocketFrames := ts_incomingWebSocketFrames (ws_stats s) + 1 \<rparr> \<rparr>"

definition message_reported :: "('c, 'm) ws_conn_scheme \<Rightarrow> ('c, 'm) ws_conn_scheme" where
  "message_reported s =
     (let s1 = tracked ''onMessage'' (s\<lparr> ws_stats := (ws_stats s)\<lparr>
           ts_incomingWebSocketMessages := ts_incomingWebSocketMessages (ws_stats s) + 1 \<rparr> \<rparr>)
      in s1\<lparr> ws_out := ws_out s1 @ [OnMessage (ws_messageData s1) (ws_messageIsBinary s1)],
             ws_messageData := [], ws_insideMessage := False \<rparr>)"

lemma onMessageFrameEnd_run:
  "\<not> ws_failedByMe s \<Longrightarrow> onMessageFrameEnd s =
     (Inr (), s\<lparr> ws_messageData := ws_messageData s @ ws_frameData s, ws_frameData := [] \<rparr>)"
  by (simp add: onMessageFrameEnd_def runs)

lemma finish_frame_data:
  assumes "rx_open s" and "\<not> fh_opcode fh > 7" and "\<not> ws_isMessageCompressed s"
    and "fh_fin fh \<Longrightarrow> ws_utf8validateIncomingCurrentMessage s \<Longrightarrow> fst (snd (ws_utf8validateLast s))"
  shows "finish_frame cf fh s = (Inr True,
     if fh_fin fh then message_reported (fragment_joined s) else fragment_joined s)"
proof -
  have open_s: "ws_state s = OPEN" "\<not> ws_failedByMe s" using assms(1) by (simp_all add: rx_open_def)
  show ?thesis
  proof (cases "fh_fin fh")
    case False
    then show ?thesis using assms(2) open_s
      by (simp add: finish_frame_def runs statsM_def onMessageFrameEnd_def fragment_joined_def)
  next
    case True
    show ?thesis
    proof (cases "ws_utf8validateIncomingCurrentMessage s")
      case False
      then show ?thesis using True assms(2,3) open_s
        by (simp add: finish_frame_def runs statsM_def onMessageFrameEnd_def fragment_joined_def onMessageEnd_def
            bindM_trackM tracked_fields emitM_def message_reported_def Let_def)
    next
      case utf: True
      obtain v i j where l: "ws_utf8validateLast s = (v, True, i, j)"
        using assms(4) [OF True utf] by (cases "ws_utf8validateLast s") auto
      then show ?thesis using True utf assms(2,3) open_s
        by (simp add: finish_frame_def runs statsM_def onMessageFrameEnd_def fragment_joined_def onMessageEnd_def
            bindM_trackM tracked_fields emitM_def message_reported_def Let_def)
    qed
  qed
qed

lemma onFrameEnd_data:
  assumes "rx_open s" and "stream_ok cf cur (f # fs)" and "\<not> is_control f"
    and "inside_frame cf cur f (length (fr_payload f)) s"
  defines "m \<equiv> msg_add (msg_start cur f) (fr_payload f)"
  obtains t where "onFrameEnd cf s = (Inr True, t)" "ws_currentFrame t = None"
    "between_frames cf (if fr_fin f then None else Some m) t" "rx_open t" "ws_data t = ws_data s"
    "notable t = notable s @ (if fr_fin f then [OnMessage (snd m) (fst m)] else [])"
proof -
  let ?fh = "frame_header_of f" and ?j = "fragment_joined s"
  have ins: "message_at cf (msg_start cur f) s" "ws_frameData s = fr_payload f" "utf8_at cf m s"
    "ws_messageDataTotalLength s = word_of_nat (length (snd m))" "ws_currentFrame s = Some ?fh"
    using assms(3,4) by (simp_all add: inside_frame_def m_def msg_add_def)
  have chk: "ws_utf8validateIncomingCurrentMessage s = is_checked cf m"
    using ins(3) by (simp add: utf8_at_def)
  have "fst (snd (ws_utf8validateLast s))" if "fr_fin f" "ws_utf8validateIncomingCurrentMessage s"
    using ins(3) that assms(2,3) chk by (simp add: utf8_at_def m_def Let_def)
  then have "finish_frame cf ?fh s = (Inr True, if fr_fin f then message_reported ?j else ?j)"
    using finish_frame_data [OF assms(1), of ?fh cf] assms(3) ins(1) by (simp add: message_at_def)
  then have run: "onFrameEnd cf s = (Inr True, (if fr_fin f then message_reported ?j else ?j)\<lparr> ws_currentFrame := None \<rparr>)"
    using ins(5) by (simp add: onFrameEnd_def currentFrameM_def runs bindM_def)
  have joined: "ws_messageData ?j = snd m" "ws_messageIsBinary ?j = fst m" "notable ?j = notable s" "ws_data ?j = ws_data s"
    "rx_open ?j"
    using ins assms(1) by (simp_all add: fragment_joined_def message_at_def m_def msg_add_def notable_def rx_open_def)
  show thesis
  proof (rule that [OF run])
    show "between_frames cf (if fr_fin f then None else Some m)
        ((if fr_fin f then message_reported ?j else ?j)\<lparr> ws_currentFrame := None \<rparr>)"
      using ins joined by (simp add: between_frames_def message_reported_def Let_def fragment_joined_def
          message_at_def utf8_at_def m_def msg_add_def)
    show "rx_open ((if fr_fin f then message_reported ?j else ?j)\<lparr> ws_currentFrame := None \<rparr>)"
      using joined(5) by (simp add: rx_open_def message_reported_def Let_def tracked_fields)
    show "ws_data ((if fr_fin f then message_reported ?j else ?j)\<lparr> ws_currentFrame := None \<rparr>) = ws_data s"
      using joined(4) by (simp add: message_reported_def Let_def tracked_fields)
    show "notable ((if fr_fin f then message_reported ?j else ?j)\<lparr> ws_currentFrame := None \<rparr>)
        = notable s @ (if fr_fin f then [OnMessage (snd m) (fst m)] else [])"
      using joined(1-3) by (simp add: message_reported_def Let_def tracked_fields notable_def tracked_def)
  qed simp
qed

section \<open>One round, the loop, a call, a sequence of calls\<close>

lemma wire_nonempty: "wire cf f \<noteq> []"
  by (simp add: wire_def frame_octets_def Let_def)

text \<open>
  A round keeps the refinement relation, and what is reported and what is still to be reported
  make up the same sequence; with the whole stream in the buffer it stops at the end only.
\<close>

definition rx_step ::
  "'c ws_config \<Rightarrow> bytes \<Rightarrow> message option \<Rightarrow> wire_frame list \<Rightarrow> ('c, 'm) ws_conn_scheme \<Rightarrow> bool
     \<Rightarrow> ('c, 'm) ws_conn_scheme \<Rightarrow> bool" where
  "rx_step cf R cur todo s go t \<longleftrightarrow> (\<exists>cur' todo'. rx_at cf R cur' todo' t
     \<and> notable t @ deliveries cur' todo' = notable s @ deliveries cur todo \<and> (\<not> go \<longrightarrow> R = [] \<longrightarrow> todo' = []))"

lemma rx_stepI:
  "rx_at cf R cur' todo' t \<Longrightarrow> notable t @ deliveries cur' todo' = notable s @ deliveries cur todo \<Longrightarrow>
   (\<not> go \<Longrightarrow> R = [] \<Longrightarrow> todo' = []) \<Longrightarrow> rx_step cf R cur todo s go t"
  unfolding rx_step_def by blast

lemma round_between:
  assumes "rx_open s" and "stream_ok cf cur todo" and "ws_currentFrame s = None" and "between_frames cf cur s"
    and "ws_data s @ R = wires cf todo"
  shows "\<exists>go t. processData cf s = (Inr go, t) \<and> rx_step cf R cur todo s go t"
proof (cases todo)
  case Nil
  then have run: "processData cf s = (Inr False, s)" using assms(3,5) by (simp add: processData_def processHeader_def runs Let_def)
  have "rx_at cf R cur todo s" using assms by (simp add: rx_at_def)
  then have "rx_step cf R cur todo s False s" by (rule rx_stepI) (simp_all add: Nil)
  with run show ?thesis by blast
next
  case (Cons f fs)
  note so = assms(2) [unfolded Cons]
  have ins: "ws_insideMessage s = (cur \<noteq> None)"
    using assms(4) by (auto simp: between_frames_def message_at_def split: option.splits)
  have fok: "frame_ok cf (ws_insideMessage s) f" using so by (simp add: ins)
  have data: "ws_data s @ R = wire cf f @ wires cf fs" using assms(5) Cons by simp
  let ?complete = "2 \<le> length (ws_data s) \<and> header_len (ws_data s ! 1) \<le> length (ws_data s)"
  have head: "processData cf s = (if ?complete then beginFrame cf (ws_data s) s else (Inr False, s))"
    using processHeader_run [OF fok data] assms(3) by (simp add: processData_def withM_def)
  show ?thesis
  proof (cases ?complete)
    case False
    have ne: "R \<noteq> []"
    proof
      assume "R = []"
      then have w: "ws_data s = wire cf f @ wires cf fs" using data by simp
      have l: "2 + length (frame_ext (length (fr_payload f))) + length (key_octets (fr_key f)) \<le> length (ws_data s)"
        "header_len (ws_data s ! 1) = 2 + length (frame_ext (length (fr_payload f))) + length (key_octets (fr_key f))"
        using header_len_octets(1,3) [OF frame_ok_lengths(1) [OF fok] w [unfolded wire_octets]] by simp_all
      have ?complete unfolding l(2) using l(1) by linarith
      with False show False by blast
    qed
    have run: "processData cf s = (Inr False, s)" by (subst head, subst if_not_P [OF False]) (rule refl)
    have "rx_at cf R cur todo s" using assms by (simp add: rx_at_def)
    then have "rx_step cf R cur todo s False s" by (rule rx_stepI) (use ne in simp_all)
    with run show ?thesis by blast
  next
    case True
    note h = header_of_wire [OF fok data True [THEN conjunct1] True [THEN conjunct2]]
    let ?s = "begun cf (ws_data s) s"
    have pm: "ws_currentFrameMasker ?s = payload_masker cf f" "ws_currentFrame ?s = Some (frame_header_of f)"
    proof -
      have "frame_mask (ws_data s) = fr_key f" "payload_len (ws_data s) = word_of_nat (length (fr_payload f))"
        using h(1) by (simp_all add: header_of_def frame_header_of_def)
      then show "ws_currentFrameMasker ?s = payload_masker cf f" "ws_currentFrame ?s = Some (frame_header_of f)"
        using h(1) by (simp_all add: begun_def payload_masker_def)
    qed
    have bs: "rx_open ?s" "between_frames cf cur ?s" "notable ?s = notable s"
      using assms(1,4) between_frames_cong [of ?s s cf cur]
      by (simp_all add: begun_def rx_open_def msg_part_def notable_def)
    obtain t where t: "onFrameBegin cf ?s = (Inr True, t)" "inside_frame cf cur f 0 t" "rx_open t" "notable t = notable ?s"
      by (rule onFrameBegin_reaches [OF bs(1) so bs(2) pm(2,1)])
    have "ws_data t = ws_data ?s" using parse_keepD [OF pk.onFrameBegin t(1)] by (simp add: parse_part_def)
    then have dt: "ws_data t @ R = wire_payload cf f @ wires cf fs" using h(2) by (simp add: begun_def)
    have plen: "payload_len (ws_data s) = word_of_nat (length (fr_payload f))"
      using h(1) by (simp add: header_of_def frame_header_of_def)
    have run: "processData cf s = (Inr (payload_len (ws_data s) = 0 \<or> ws_data t \<noteq> []), t)"
      using head True t(1) by (simp add: beginFrame_run bindM_def getsM_def)
    have go: "payload_len (ws_data s) = 0 \<or> ws_data t \<noteq> []" if "R = []"
    proof (cases "fr_payload f = []")
      case False
      then have "wire_payload cf f \<noteq> []"
        using wire_payload_unmask(2) [OF frame_ok_lengths(1) [OF fok] frame_ok_lengths(2) [OF fok], of cf] by auto
      then show ?thesis using dt that by simp
    qed (simp add: plen)
    have "rx_at cf R cur todo t"
      unfolding rx_at_def Cons using t(2,3) so dt by (intro conjI disjI2 exI [of _ f] exI [of _ fs] exI [of _ 0]) simp_all
    then have "rx_step cf R cur todo s (payload_len (ws_data s) = 0 \<or> ws_data t \<noteq> []) t"
      by (rule rx_stepI) (use t(4) bs(3) go in auto)
    with run show ?thesis by blast
  qed
qed

lemma onFrameEnd_reaches:
  assumes "rx_open s" and "stream_ok cf cur (f # fs)" and "inside_frame cf cur f (length (fr_payload f)) s"
  obtains t cur' where "onFrameEnd cf s = (Inr True, t)" "ws_currentFrame t = None" "between_frames cf cur' t"
    "rx_open t" "ws_data t = ws_data s" "stream_ok cf cur' fs"
    "notable t @ deliveries cur' fs = notable s @ deliveries cur (f # fs)"
proof (cases "is_control f")
  case True
  obtain t where t: "onFrameEnd cf s = (Inr True, t)" "ws_currentFrame t = None" "between_frames cf cur t"
    "rx_open t" "ws_data t = ws_data s"
    "notable t = notable s @ [if fr_opcode f = 9 then OnPing (fr_payload f) else OnPong (fr_payload f)]"
    by (rule onFrameEnd_control [OF assms(1) frame_ok_of_stream [OF assms(2)] True assms(3)])
  show thesis
    by (rule that [OF t(1-5)]) (use assms(2) True in \<open>simp_all add: t(6)\<close>)
next
  case False
  obtain t where t: "onFrameEnd cf s = (Inr True, t)" "ws_currentFrame t = None"
    "between_frames cf (if fr_fin f then None else Some (msg_add (msg_start cur f) (fr_payload f))) t" "rx_open t"
    "ws_data t = ws_data s" "notable t = notable s @ (if fr_fin f
       then [OnMessage (snd (msg_add (msg_start cur f) (fr_payload f))) (fst (msg_add (msg_start cur f) (fr_payload f)))]
       else [])"
    by (rule onFrameEnd_data [OF assms(1,2) False assms(3)])
  show thesis
    by (rule that [OF t(1-5)]) (use assms(2) False in \<open>simp_all add: t(6) Let_def\<close>)
qed

lemma round_inside:
  assumes "rx_open s" and "stream_ok cf cur (f # fs)" and "inside_frame cf cur f k s"
    and "ws_data s @ R = drop k (wire_payload cf f) @ wires cf fs"
  shows "\<exists>go t. processData cf s = (Inr go, t) \<and> rx_step cf R cur (f # fs) s go t"
proof -
  let ?fh = "frame_header_of f" and ?n = "length (fr_payload f)"
  let ?j = "min (length (ws_data s)) (?n - k)"
  note ok = frame_ok_lengths [OF frame_ok_of_stream [OF assms(2)]]
  have len: "length (wire_payload cf f) = ?n" by (rule wire_payload_unmask(2) [OF ok])
  obtain t where t: "onFrameData cf (fst (unmasked ?fh s)) (consumed ?fh s) = (Inr True, t)"
    "inside_frame cf cur f (k + ?j) t" "rx_open t" "notable t = notable s"
    "ws_data t = drop ?j (ws_data s)" "ws_data t @ R = drop (k + ?j) (wire_payload cf f) @ wires cf fs"
    by (rule onFrameData_reaches [OF assms])
  have cur: "ws_currentFrame s = Some ?fh" using assms(3) by (simp add: inside_frame_def)
  have run: "processData cf s = after_data cf ?fh True t"
    using cur t(1) by (simp add: processData_def withM_def processPayload_run bindM_def)
  have le: "k + ?j \<le> ?n" using assms(3) by (auto simp: inside_frame_def)
  have ptr: "masker_pointer (ws_currentFrameMasker t) = fh_length ?fh \<longleftrightarrow> k + ?j = ?n"
  proof -
    have "masker_pointer (ws_currentFrameMasker t) = fh_length ?fh \<longleftrightarrow> (k + ?j) mod 2 ^ 64 = ?n mod 2 ^ 64"
      unfolding frame_rest_at(2) [OF ok t(2)] opcode_fields by (simp add: word_of_nat_eq_iff take_bit_eq_mod del: of_nat_add)
    then show ?thesis using le ok(2) by simp
  qed
  show ?thesis
  proof (cases "k + ?j = ?n")
    case False
    have "processData cf s = (Inr (ws_data t \<noteq> []), t)"
      unfolding run after_data_def using ptr False by (simp add: runs)
    moreover have "rx_at cf R cur (f # fs) t"
      unfolding rx_at_def using t(2,3,6) assms(2)
      by (intro conjI disjI2 exI [of _ f] exI [of _ fs] exI [of _ "k + ?j"]) simp_all
    then have "rx_step cf R cur (f # fs) s (ws_data t \<noteq> []) t"
    proof (rule rx_stepI)
      show "f # fs = []" if "\<not> ws_data t \<noteq> []" "R = []"
        using t(6) that False le len by simp
    qed (use t(4) in simp)
    ultimately show ?thesis by blast
  next
    case True
    have ins: "inside_frame cf cur f ?n t" using t(2) unfolding True .
    obtain u cur' where u: "onFrameEnd cf t = (Inr True, u)" "ws_currentFrame u = None" "between_frames cf cur' u"
      "rx_open u" "ws_data u = ws_data t" "stream_ok cf cur' fs"
      "notable u @ deliveries cur' fs = notable t @ deliveries cur (f # fs)"
      by (rule onFrameEnd_reaches [OF t(3) assms(2) ins])
    have data: "ws_data u @ R = wires cf fs" using t(6) u(5) True len by simp
    have "masker_pointer (ws_currentFrameMasker t) = fh_length ?fh" using ptr True by blast
    then have "processData cf s = (Inr (ws_data u \<noteq> []), u)"
      unfolding run after_data_def using u(1) by (simp add: run_simps bindM_def)
    moreover have "rx_at cf R cur' fs u"
      unfolding rx_at_def using u data by blast
    then have "rx_step cf R cur (f # fs) s (ws_data u \<noteq> []) u"
    proof (rule rx_stepI)
      show "fs = []" if "\<not> ws_data u \<noteq> []" "R = []"
        using data that wire_nonempty by (cases fs) auto
    qed (use u(7) t(4) in simp)
    ultimately show ?thesis by blast
  qed
qed

lemma rx_at_open: "rx_at cf R cur todo s \<Longrightarrow> ws_state s = OPEN"
  by (simp add: rx_at_def rx_open_def)

lemma rx_step_trans:
  assumes "rx_at cf R cur' todo' t" and "notable t @ deliveries cur' todo' = notable s @ deliveries cur todo"
    and "rx_step cf R cur' todo' t go u"
  shows "rx_step cf R cur todo s go u"
  using assms unfolding rx_step_def by auto

lemma processData_step:
  assumes "rx_at cf R cur todo s"
  shows "\<exists>go t. processData cf s = (Inr go, t) \<and> rx_step cf R cur todo s go t"
  using assms round_between [of s cf cur todo R] round_inside [of s cf cur _ _ _ R] unfolding rx_at_def by blast

lemma frame_round_step:
  assumes "rx_at cf R cur todo s"
  shows "\<exists>go t. frame_round cf s = (Inr go, t) \<and> rx_step cf R cur todo s go t"
proof -
  obtain go t where t: "processData cf s = (Inr go, t)" "rx_step cf R cur todo s go t"
    using processData_step [OF assms] by blast
  then have "ws_state t = OPEN" by (auto simp: rx_step_def rx_at_open)
  then have "frame_round cf s = (Inr go, t)"
    using t(1) by (simp add: frame_round_def bindM_def run_simps)
  with t(2) show ?thesis by blast
qed

lemma loop_step:
  assumes "rx_at cf R cur todo s"
  shows "\<exists>b t. loopM n (frame_round cf) s = (Inr b, t) \<and> rx_step cf R cur todo s (\<not> b) t"
  using assms
proof (induction n arbitrary: cur todo s)
  case 0
  then show ?case by (auto simp: run_simps rx_step_def)
next
  case (Suc n)
  obtain go t where t: "frame_round cf s = (Inr go, t)" "rx_step cf R cur todo s go t"
    using frame_round_step [OF Suc.prems] by blast
  show ?case
  proof (cases go)
    case False
    then have "loopM (Suc n) (frame_round cf) s = (Inr True, t)" using t(1) by (simp add: bindM_def run_simps)
    moreover have "rx_step cf R cur todo s (\<not> True) t" using t(2) False by simp
    ultimately show ?thesis by blast
  next
    case True
    from t(2) obtain cur' todo' where at: "rx_at cf R cur' todo' t"
      "notable t @ deliveries cur' todo' = notable s @ deliveries cur todo" by (auto simp: rx_step_def)
    obtain b u where u: "loopM n (frame_round cf) t = (Inr b, u)" "rx_step cf R cur' todo' t (\<not> b) u"
      using Suc.IH [OF at(1)] by blast
    have "loopM (Suc n) (frame_round cf) s = (Inr b, u)" using t(1) True u(1) by (simp add: bindM_def)
    with rx_step_trans [OF at u(2)] show ?thesis by blast
  qed
qed

lemma consumeFrames_step:
  assumes "rx_at cf R cur todo s"
  shows "\<exists>t. consumeFrames cf s = (Inr True, t) \<and> rx_step cf R cur todo s False t"
proof -
  obtain b t where t: "consumeFrames cf s = (Inr b, t)" "rx_step cf R cur todo s (\<not> b) t"
    using loop_step [OF assms] unfolding consumeFrames_def withM_def by blast
  have b: "b = True" using consumeFrames_terminates [of cf s] t(1) by (cases b) simp_all
  have "rx_step cf R cur todo s False t" using t(2) unfolding b by simp
  with t(1) show ?thesis unfolding b by blast
qed

lemma inside_frame_cong:
  assumes "msg_part t = msg_part s" and "ws_currentFrame t = ws_currentFrame s"
    and "ws_currentFrameMasker t = ws_currentFrameMasker s" and "ws_controlFrameData t = ws_controlFrameData s"
  shows "inside_frame cf cur f k t = inside_frame cf cur f k s"
proof -
  have "message_at cf m t = message_at cf m s" "utf8_at cf m t = utf8_at cf m s"
    "ws_frameData t = ws_frameData s" "ws_messageDataTotalLength t = ws_messageDataTotalLength s" for m
    using assms(1) by (simp_all add: message_at_def utf8_at_def msg_part_def)
  then show ?thesis unfolding inside_frame_def between_frames_cong [OF assms(1)] assms(2-4) by simp
qed

text \<open>Octets arrive: they move from the rest of the stream to the buffer.\<close>

lemma rx_at_arrive:
  assumes "rx_at cf (d @ R) cur todo s"
  shows "rx_at cf R cur todo (s\<lparr> ws_stats := x, ws_data := ws_data s @ d \<rparr>)"
proof -
  let ?t = "s\<lparr> ws_stats := x, ws_data := ws_data s @ d \<rparr>"
  have m: "msg_part ?t = msg_part s" "rx_open ?t = rx_open s" by (simp_all add: msg_part_def rx_open_def)
  have i: "inside_frame cf cur f k ?t = inside_frame cf cur f k s" for f k
    by (rule inside_frame_cong) (simp_all add: msg_part_def)
  show ?thesis
    using assms unfolding rx_at_def m(2) between_frames_cong [OF m(1)] i by simp
qed

lemma dataReceived_step:
  assumes "rx_at cf (d @ R) cur todo s"
  shows "\<exists>t. dataReceived cf px hs d s = (Inr (), t) \<and> rx_step cf R cur todo s False t"
proof -
  note op = rx_at_open [OF assms]
  let ?s1 = "s\<lparr> ws_stats := (ws_stats s)\<lparr> ts_incomingOctetsWireLevel :=
      ts_incomingOctetsWireLevel (ws_stats s) + length d \<rparr> \<rparr>"
  let ?s2 = "s\<lparr> ws_stats := ws_stats ?s1, ws_data := ws_data s @ d \<rparr>"
  have at: "rx_at cf R cur todo ?s2" by (rule rx_at_arrive [OF assms])
  obtain t where t: "consumeFrames cf ?s2 = (Inr True, t)" "rx_step cf R cur todo ?s2 False t"
    using consumeFrames_step [OF at] by blast
  have c: "consumeData cf px hs ?s2 = (Inr (), t)"
    using op t(1) by (simp add: consumeData_def withM_def bindM_def returnM_def)
  have "dataReceived cf px hs d s = bindM (consumeData cf px hs) (\<lambda>_. doM []) ?s2"
    using op by (simp add: dataReceived_def countReceived_def runs statsM_def)
  then have "dataReceived cf px hs d s = (Inr (), t)"
    unfolding bindM_unit c .
  moreover have "notable ?s2 = notable s" by (simp add: notable_def)
  then have "rx_step cf R cur todo s False t" using t(2) by (simp add: rx_step_def)
  ultimately show ?thesis by blast
qed

text \<open>A sequence of calls of \<open>dataReceived\<close>.\<close>

definition receive_all ::
  "'c ws_config \<Rightarrow> ('c, 'm, unit) ws_prog \<Rightarrow> ('c, 'm, unit) ws_prog \<Rightarrow> bytes list \<Rightarrow> ('c, 'm, unit) ws_prog" where
  "receive_all cf px hs cs = doM (map (dataReceived cf px hs) cs)"

lemma receive_all_step:
  "rx_at cf (concat cs @ R) cur todo s \<Longrightarrow> cs \<noteq> [] \<Longrightarrow>
   \<exists>t. receive_all cf px hs cs s = (Inr (), t) \<and> rx_step cf R cur todo s False t"
proof (induction cs arbitrary: cur todo s)
  case (Cons c cs)
  from Cons.prems have "rx_at cf (c @ concat cs @ R) cur todo s" by simp
  from dataReceived_step [OF this] obtain t where t: "dataReceived cf px hs c s = (Inr (), t)"
    "rx_step cf (concat cs @ R) cur todo s False t" by blast
  then obtain cur' todo' where at: "rx_at cf (concat cs @ R) cur' todo' t"
    "notable t @ deliveries cur' todo' = notable s @ deliveries cur todo" by (auto simp: rx_step_def)
  show ?case
  proof (cases "cs = []")
    case True
    then have "receive_all cf px hs (c # cs) s = (Inr (), t)"
      using t(1) by (simp add: receive_all_def bindM_def returnM_def)
    moreover have "rx_step cf R cur todo s False t" using t(2) True by simp
    ultimately show ?thesis by blast
  next
    case False
    obtain u where u: "receive_all cf px hs cs t = (Inr (), u)" "rx_step cf R cur' todo' t False u"
      using Cons.IH [OF at(1) False] by blast
    have "rx_step cf R cur todo s False u"
      using at u(2) unfolding rx_step_def by auto
    moreover have "receive_all cf px hs (c # cs) s = (Inr (), u)"
      using t(1) u(1) by (simp add: receive_all_def bindM_def)
    ultimately show ?thesis by blast
  qed
qed simp

section \<open>Properties\<close>

definition rx_ready :: "('c, 'm) ws_conn_scheme \<Rightarrow> bool" where
  "rx_ready s \<longleftrightarrow> rx_open s \<and> ws_currentFrame s = None \<and> \<not> ws_insideMessage s \<and> ws_data s = []"

lemma rx_ready_at: "rx_ready s \<Longrightarrow> stream_ok cf None fs \<Longrightarrow> rx_at cf (wires cf fs) None fs s"
  by (simp add: rx_ready_def rx_at_def between_frames_def)

text \<open>
  C3: any sequence of acceptable frames, its octets cut into calls of \<open>dataReceived\<close> in any way, is
  received without an error, the connection stays open, and exactly the messages, pings and
  pongs of the sequence are reported, in order.
\<close>

theorem frames_delivered:
  assumes "rx_ready s" and "stream_ok cf None fs" and "concat cs = wires cf fs"
  shows "\<exists>t. receive_all cf px hs cs s = (Inr (), t) \<and> notable t = notable s @ deliveries None fs
    \<and> ws_state t = OPEN \<and> ws_currentFrame t = None \<and> ws_data t = []"
proof (cases "cs = []")
  case True
  then have "fs = []" using assms(3) wire_nonempty by (cases fs) auto
  with True assms(1) show ?thesis by (simp add: receive_all_def run_simps rx_ready_def rx_open_def)
next
  case False
  have "rx_at cf (concat cs @ []) None fs s" using rx_ready_at [OF assms(1,2)] assms(3) by simp
  from receive_all_step [OF this False] obtain t where
    t: "receive_all cf px hs cs s = (Inr (), t)" "rx_step cf [] None fs s False t" by blast
  from t(2) obtain cur' where "rx_at cf [] cur' [] t" "notable t = notable s @ deliveries None fs"
    by (auto simp: rx_step_def)
  with t(1) show ?thesis by (auto simp: rx_at_def rx_open_def)
qed

text \<open>The configurations of the two ends fit.\<close>

definition masking_fits :: "'c ws_config \<Rightarrow> 'd ws_config \<Rightarrow> bool" where
  "masking_fits cfs cfr \<longleftrightarrow> cf_applyMask cfs = cf_applyMask cfr
     \<and> (cf_isServer cfr \<and> cf_requireMaskedClientFrames cfr \<longrightarrow> wants_mask cfs)
     \<and> (\<not> cf_isServer cfr \<and> \<not> cf_acceptMaskedServerFrames cfr \<longrightarrow> \<not> wants_mask cfs)"

lemma wires_fits: "cf_applyMask cfs = cf_applyMask cfr \<Longrightarrow> wires cfs fs = wires cfr fs"
  by (induction fs) (simp_all add: wire_def frame_octets_def cong: option.case_cong)

lemma fragments_stream:
  assumes "fragment_frames opcode (frs @ [(d, True)]) fs" and "list_all (\<lambda>(c, fin). \<not> fin) frs"
    and "list_all (keyed cfs) fs" and "masking_fits cfs cfr"
    and "(cur = None \<and> (opcode = 1 \<or> opcode = 2)) \<or> (cur \<noteq> None \<and> opcode = 0)"
    and "m = (case cur of None \<Rightarrow> (opcode = 2, []) | Some m \<Rightarrow> m)"
    and "is_checked cfr m \<Longrightarrow> utf8_well_formed (snd m @ concat (map fst frs) @ d)"
    and "0 < cf_maxMessagePayloadSize cfr \<Longrightarrow>
      length (snd m @ concat (map fst frs) @ d) \<le> cf_maxMessagePayloadSize cfr"
    and "list_all (\<lambda>(c, fin). length c < 2 ^ 63
      \<and> (0 < cf_maxFramePayloadSize cfr \<longrightarrow> length c \<le> cf_maxFramePayloadSize cfr)) (frs @ [(d, True)])"
  shows "stream_ok cfr cur fs \<and> deliveries cur fs = [OnMessage (snd m @ concat (map fst frs) @ d) (fst m)]"
  using assms(1-3,5-)
proof (induction frs arbitrary: opcode fs cur m)
  case Nil
  then obtain f where f: "fs = [f]" "fr_opcode f = opcode" "fr_fin f" "fr_payload f = d"
    by (cases fs) auto
  have ctl: "\<not> is_control f" using Nil.prems(4) f(2) by (auto simp: is_control_def)
  have fok: "frame_ok cfr (cur \<noteq> None) f"
    using Nil.prems assms(4) f ctl by (auto simp: frame_ok_def keyed_def masking_fits_def)
  have m: "msg_add (msg_start cur f) d = (fst m, snd m @ d)"
    using Nil.prems(5) f(2) by (cases cur) (simp_all add: msg_add_def)
  show ?case
    using Nil.prems(6-8) f ctl fok m by (simp add: Let_def is_checked_def)
next
  case (Cons fr frs)
  obtain c where fr: "fr = (c, False)" using Cons.prems(2) by (cases fr) auto
  from Cons.prems(1) obtain f fs' where f: "fs = f # fs'" "fr_opcode f = opcode" "\<not> fr_fin f" "fr_payload f = c"
    "fragment_frames 0 (frs @ [(d, True)]) fs'"
    unfolding fr by (cases fs) auto
  have ctl: "\<not> is_control f" using Cons.prems(4) f(2) by (auto simp: is_control_def)
  have fok: "frame_ok cfr (cur \<noteq> None) f"
    using Cons.prems assms(4) f ctl fr by (auto simp: frame_ok_def keyed_def masking_fits_def)
  let ?m = "(fst m, snd m @ c)"
  have m: "msg_add (msg_start cur f) c = ?m"
    using Cons.prems(5) f(2) by (cases cur) (simp_all add: msg_add_def)
  have IH: "stream_ok cfr (Some ?m) fs' \<and> deliveries (Some ?m) fs' =
      [OnMessage (snd ?m @ concat (map fst frs) @ d) (fst ?m)]"
  proof (rule Cons.IH [OF f(5)])
    show "?m = (case Some ?m of None \<Rightarrow> (0 = (2 :: byte), []) | Some m \<Rightarrow> m)" by simp
  qed (use Cons.prems f(1) fr in \<open>auto simp: is_checked_def\<close>)
  have "utf8_viable (snd m @ c)" if "is_checked cfr m"
    using Cons.prems(6) [OF that] fr utf8_viable_prefix [of "snd m @ c" "concat (map fst frs) @ d"]
    by (simp add: utf8_well_formed_viable)
  moreover have "0 < cf_maxMessagePayloadSize cfr \<Longrightarrow> length (snd m @ c) \<le> cf_maxMessagePayloadSize cfr"
    "0 < cf_maxFramePayloadSize cfr \<Longrightarrow> length c \<le> cf_maxFramePayloadSize cfr"
    using Cons.prems(7,8) fr by simp_all
  moreover have "is_checked cfr ?m = is_checked cfr m" by (simp add: is_checked_def)
  ultimately have "stream_ok cfr cur fs"
    using f(1,3,4) ctl fok m IH by (simp add: Let_def)
  moreover have "deliveries cur fs = [OnMessage (snd m @ concat (map fst (fr # frs)) @ d) (fst m)]"
    using f(1,3,4) ctl m IH fr by (simp add: Let_def)
  ultimately show ?case by blast
qed

lemma message_chunk_lengths:
  assumes "(c, fin) \<in> set (message_chunks pfs data)"
  shows "length c \<le> length data" "0 < pfs \<Longrightarrow> length c \<le> pfs"
proof -
  have "c \<in> set (map fst (message_chunks pfs data))" using image_eqI [of c fst, OF _ assms] by simp
  from length_concat_mem [OF this] show "length c \<le> length data" unfolding message_chunks_concat .
  show "length c \<le> pfs" if "0 < pfs"
    using assms that fragments_fin [of pfs data] by (auto simp: message_chunks_def split: if_splits)
qed

text \<open>
  C1: a message handed to \<open>sendMessage\<close> of one end, fragmented, masked and queued as the options say,
  is reported once and unchanged by the other end, however the transport cuts the octets.
\<close>

theorem message_delivered:
  assumes "ws_state s = OPEN" and "nc \<or> \<not> has_pmce s" and "length data < 2 ^ 63"
    and "sendMessage cfs data isBinary fragmentSize sync nc s = (r, s')"
    and "concat (outgoing s') = concat (outgoing s) @ concat cs"
    and "masking_fits cfs cfr" and "rx_ready u"
    and "isBinary \<or> \<not> cf_utf8validateIncoming cfr \<or> utf8_well_formed data"
    and "cf_maxMessagePayloadSize cfr = 0 \<or> length data \<le> cf_maxMessagePayloadSize cfr"
    and "cf_maxFramePayloadSize cfr = 0 \<or> length data \<le> cf_maxFramePayloadSize cfr
      \<or> 0 < message_pfs cfs fragmentSize \<and> message_pfs cfs fragmentSize \<le> cf_maxFramePayloadSize cfr"
  shows "r = Inr () \<and> (\<exists>t. receive_all cfr px hs cs u = (Inr (), t)
    \<and> notable t = notable u @ [OnMessage data isBinary] \<and> ws_state t = OPEN \<and> ws_data t = [])"
proof -
  let ?op = "(if isBinary then 2 else 1) :: byte" and ?chunks = "message_chunks (message_pfs cfs fragmentSize) data"
  obtain fs where fs: "r = Inr ()" "fragment_frames ?op ?chunks fs" "list_all (keyed cfs) fs"
    "outgoing s' = outgoing s @ map (wire cfs) fs"
    using sendMessage_outgoing [OF assms(1,3,2,4)] by blast
  obtain frs d where ch: "?chunks = frs @ [(d, True)]" "list_all (\<lambda>(c, fin). \<not> fin) frs"
    by (rule message_chunks_fin)
  have whole: "concat (map fst frs) @ d = data"
    using message_chunks_concat [of "message_pfs cfs fragmentSize" data] ch(1) by simp
  have len: "list_all (\<lambda>(c, fin). length c < 2 ^ 63
      \<and> (0 < cf_maxFramePayloadSize cfr \<longrightarrow> length c \<le> cf_maxFramePayloadSize cfr)) (frs @ [(d, True)])"
    unfolding ch(1) [symmetric] list_all_iff using message_chunk_lengths assms(3,10) by fastforce
  let ?m = "(isBinary, []) :: message"
  have "stream_ok cfr None fs \<and> deliveries None fs = [OnMessage (snd ?m @ concat (map fst frs) @ d) (fst ?m)]"
  proof (rule fragments_stream [OF fs(2) [unfolded ch(1)] ch(2) fs(3) assms(6) _ _ _ _ len, where cur = None and m = ?m])
    show "?m = (case None of None \<Rightarrow> (?op = 2, []) | Some m \<Rightarrow> m)" by simp
  qed (use assms(8,9) in \<open>simp_all add: whole is_checked_def\<close>)
  then have st: "stream_ok cfr None fs" "deliveries None fs = [OnMessage data isBinary]"
    by (simp_all add: whole)
  have "concat cs = wires cfs fs" using assms(5) fs(4) by (simp add: wires_def)
  then have "concat cs = wires cfr fs"
    using wires_fits [of cfs cfr fs] assms(6) by (simp add: masking_fits_def)
  from frames_delivered [OF assms(7) st(1) this, of px hs] st(2) fs(1) show ?thesis by auto
qed

text \<open>Instances: a text message in two fragments with a ping between them, and a message sent by a server.\<close>

definition open_client :: "unit ws_conn" where
  "open_client = (ws_fresh OPEN)\<lparr> ws_webSocketVersion := 18 \<rparr>"

lemma open_client_ready: "rx_ready open_client" "notable open_client = []"
  by (simp_all add: open_client_def ws_fresh_def rx_ready_def rx_open_def notable_def)

definition sample_frames :: "wire_frame list" where
  "sample_frames = [\<lparr> fr_opcode = 1, fr_fin = False, fr_key = None, fr_payload = [0xc3] \<rparr>,
     \<lparr> fr_opcode = 9, fr_fin = True, fr_key = None, fr_payload = [7] \<rparr>,
     \<lparr> fr_opcode = 0, fr_fin = True, fr_key = None, fr_payload = [0xa9] \<rparr>]"

lemma sample_frames_ok: "stream_ok plain_client None sample_frames"
  by (simp add: sample_frames_def frame_ok_def is_control_def Let_def msg_add_def is_checked_def plain_client_def
      client_options_def valid_key_def utf8_viable_run utf8_well_formed_run utf8_step_0 utf8_step_tail utf8_cont_def)

lemma sample_frames_wire: "wires plain_client sample_frames = [1, 1, 0xc3, 0x89, 1, 7, 0x80, 1, 0xa9]"
  by (simp add: sample_frames_def wire_def frame_octets_def frame_b0_def frame_len7_def frame_ext_def key_octets_def)

lemma frames_delivered_witness:
  "\<exists>t. receive_all plain_client (doM []) (doM []) [[1], [1, 0xc3, 0x89, 1], [7, 0x80], [1, 0xa9]] open_client = (Inr (), t)
     \<and> notable t = [OnPing [7], OnMessage [0xc3, 0xa9] False] \<and> ws_state t = OPEN"
proof -
  have "concat [[1], [1, 0xc3, 0x89, 1], [7, 0x80], [1, 0xa9]] = wires plain_client sample_frames"
    unfolding sample_frames_wire by simp
  from frames_delivered [OF open_client_ready(1) sample_frames_ok this, of "doM []" "doM []"]
  show ?thesis
    by (auto simp: sample_frames_def is_control_def open_client_ready Let_def msg_add_def)
qed

lemma message_delivered_witness:
  "\<exists>t. receive_all plain_client (doM []) (doM []) [[2], [2, 1, 2, 0x80], [1, 3]] open_client = (Inr (), t)
     \<and> notable t = [OnMessage [1, 2, 3] True] \<and> ws_state t = OPEN"
proof -
  obtain r s' where s: "sendMessage plain_server [1, 2, 3] True 2 False False (ws_fresh OPEN) = (r, s')" by fastforce
  have st: "ws_state (ws_fresh OPEN :: unit ws_conn) = OPEN" "\<not> has_pmce (ws_fresh OPEN :: unit ws_conn)"
    "length [1, 2, 3 :: byte] < 2 ^ 63"
    by (simp_all add: has_pmce_def ws_fresh_def)
  have ch: "message_chunks (message_pfs plain_server 2) [1, 2, 3] = [([1, 2], False), ([3], True)]"
    by (simp add: message_chunks_def message_pfs_def fragments.simps)
  obtain fs where fs: "fragment_frames 2 [([1, 2], False), ([3], True)] fs" "list_all (keyed plain_server) fs"
    "outgoing s' = map (wire plain_server) fs"
    using sendMessage_outgoing [OF st(1,3) _ s] st(2) unfolding ch by auto
  have "\<not> wants_mask plain_server" by (simp add: wants_mask_def plain_server_def server_options_def)
  then have "concat (outgoing s') = [2, 2, 1, 2, 0x80, 1, 3]"
    using fs by (auto simp: keyed_def wire_def frame_octets_def frame_b0_def frame_len7_def frame_ext_def
        key_octets_def split: list.splits)
  then have out: "concat (outgoing s') = concat (outgoing (ws_fresh OPEN :: unit ws_conn)) @ concat [[2], [2, 1, 2, 0x80], [1, 3]]"
    by simp
  show ?thesis
    using message_delivered [OF _ _ _ s out _ open_client_ready(1), of plain_client "doM []" "doM []"]
    by (auto simp: open_client_ready masking_fits_def plain_client_def client_options_def plain_server_def
        server_options_def wants_mask_def has_pmce_def ws_fresh_def)
qed

end
