(* ===== verification/Str_Util.thy ===== *)
theory Str_Util
  imports Net_Prelude
begin

text \<open>
  \<open>StrUtil\<close> of \<open>common/utilities/strutil.h\<close> and \<open>strutil.cpp\<close>: searching, counting,
  partitioning, splitting and translating strings.

  A position is a \<open>nat\<close> and \<open>npos\<close> is \<open>None\<close>. \<open>count\<close> of a substring may run forever (for
  the empty substring), so it is a partial function whose value \<open>None\<close> says that the
  call does not return. \<open>translate\<close> indexes an array of 256 entries by a signed
  \<open>char\<close> converted to \<open>size_t\<close>; an index out of range is undefined in C++ and is \<open>None\<close>
  here. Boost.StringAlgo is not part of the sources: its functions are the record
  \<open>boost_str\<close>, an argument of the definitions that use it; \<open>boost_split\<close> takes the
  predicate, whether adjacent delimiters are merged (\<open>token_compress_on\<close>) and the
  string. \<open>format\<close> is Boost.Format and left out.
\<close>

section \<open>Searching (\<open>std::string::find\<close>, \<open>std::search\<close>)\<close>

fun search :: "'a list \<Rightarrow> 'a list \<Rightarrow> nat option" where
  "search sub s =
     (if take (length sub) s = sub then Some 0
      else (case s of [] \<Rightarrow> None | _ # s' \<Rightarrow> map_option Suc (search sub s')))"

declare search.simps [simp del]

definition find_from :: "string \<Rightarrow> string \<Rightarrow> nat \<Rightarrow> nat option" where
  "find_from s sub i =
     (if length s < i then None else map_option (\<lambda>k. i + k) (search sub (drop i s)))"

text \<open>What the search promises: the first position at which the pattern stands.\<close>

definition stands_at :: "'a list \<Rightarrow> 'a list \<Rightarrow> nat \<Rightarrow> bool" where
  "stands_at sub s k \<longleftrightarrow> k \<le> length s \<and> take (length sub) (drop k s) = sub"

lemma stands_at_0: "stands_at sub s 0 \<longleftrightarrow> take (length sub) s = sub"
  by (simp add: stands_at_def)

lemma stands_at_Suc: "stands_at sub (x # s) (Suc k) \<longleftrightarrow> stands_at sub s k"
  by (simp add: stands_at_def)

lemma search_Some:
  "search sub s = Some k \<longleftrightarrow> stands_at sub s k \<and> (\<forall>j<k. \<not> stands_at sub s j)"
proof (induction s arbitrary: k)
  case Nil
  then show ?case by (subst search.simps) (auto simp: stands_at_def)
next
  case (Cons x s)
  show ?case
  proof (cases "stands_at sub (x # s) 0")
    case True
    then show ?thesis by (subst search.simps) (auto simp: stands_at_0)
  next
    case False
    then show ?thesis
      using Cons.IH by (subst search.simps, cases k) (auto simp: stands_at_0 stands_at_Suc less_Suc_eq_0_disj)
  qed
qed

lemma search_None: "search sub s = None \<longleftrightarrow> (\<forall>k. \<not> stands_at sub s k)"
proof (cases "\<exists>k. stands_at sub s k")
  case True
  then have "search sub s = Some (LEAST k. stands_at sub s k)"
    unfolding search_Some using LeastI_ex not_less_Least by blast
  then show ?thesis using True by auto
next
  case False
  then show ?thesis using search_Some by (metis not_None_eq)
qed

lemma stands_at_split:
  "stands_at sub s k \<Longrightarrow> s = take k s @ sub @ drop (k + length sub) s"
  by (metis append_take_drop_id drop_drop stands_at_def add.commute)

lemma stands_at_bound:
  assumes "stands_at sub s k"
  shows "k + length sub \<le> length s"
proof -
  have "length (take (length sub) (drop k s)) = length sub" and "k \<le> length s"
    using assms by (auto simp: stands_at_def)
  then show ?thesis by simp
qed

lemma search_cut:
  assumes "search sub s = Some k"
  shows "s = take k s @ sub @ drop (k + length sub) s" "k + length sub \<le> length s"
  using assms stands_at_split stands_at_bound by (auto simp: search_Some)

lemma find_from_Some:
  assumes "find_from s sub i = Some j"
  shows "i \<le> j" "j + length sub \<le> length s"
  using assms search_cut(2) [of sub "drop i s"] by (auto simp: find_from_def split: if_splits)

section \<open>Case and padding\<close>

definition toupper :: "char \<Rightarrow> char" where
  "toupper c = (let n = of_char c :: nat in if 97 \<le> n \<and> n \<le> 122 then char_of (n - 32) else c)"

definition tolower :: "char \<Rightarrow> char" where
  "tolower c = (let n = of_char c :: nat in if 65 \<le> n \<and> n \<le> 90 then char_of (n + 32) else c)"

fun capitalize :: "string \<Rightarrow> string" where
  "capitalize [] = []"
| "capitalize (c # s) = toupper c # map tolower s"

definition ljust :: "string \<Rightarrow> nat \<Rightarrow> char \<Rightarrow> string" where
  "ljust s width fillchar = (if length s < width then s @ replicate (width - length s) fillchar else s)"

definition rjust :: "string \<Rightarrow> nat \<Rightarrow> char \<Rightarrow> string" where
  "rjust s width fillchar = (if length s < width then replicate (width - length s) fillchar @ s else s)"

section \<open>Boost.StringAlgo\<close>

text \<open>
  The functions of Boost.StringAlgo that the sources call. They are not part of the
  sources, so every definition that uses one takes this record as its first argument.
\<close>

record boost_str =
  boost_split :: "(char \<Rightarrow> bool) \<Rightarrow> bool \<Rightarrow> string \<Rightarrow> string list"
  boost_join :: "string list \<Rightarrow> string \<Rightarrow> string"
  boost_to_lower :: "string \<Rightarrow> string"
  boost_trim :: "string \<Rightarrow> string"
  boost_trim_right_any_of :: "string \<Rightarrow> string \<Rightarrow> string"
  boost_replace_all :: "string \<Rightarrow> string \<Rightarrow> string \<Rightarrow> string"
  boost_starts_with :: "string \<Rightarrow> string \<Rightarrow> bool"
  boost_iequals :: "string \<Rightarrow> string \<Rightarrow> bool"
  boost_ilexicographical_compare :: "string \<Rightarrow> string \<Rightarrow> bool"

text \<open>
  What their documentation says of them: the pieces between the characters that satisfy
  the predicate, the parts joined by a separator, white space removed at both ends, every occurrence of a character
  replaced, the characters of a set removed at the end, a prefix test.
\<close>

fun pieces :: "(char \<Rightarrow> bool) \<Rightarrow> string \<Rightarrow> string list" where
  "pieces p [] = [[]]"
| "pieces p (c # s) =
     (if p c then [] # pieces p s
      else (case pieces p s of [] \<Rightarrow> [[c]] | q # qs \<Rightarrow> (c # q) # qs))"

fun join_with :: "string \<Rightarrow> string list \<Rightarrow> string" where
  "join_with d [] = []"
| "join_with d [p] = p"
| "join_with d (p # q # ps) = p @ d @ join_with d (q # ps)"

definition replace_char :: "char \<Rightarrow> char \<Rightarrow> string \<Rightarrow> string" where
  "replace_char a b s = map (\<lambda>c. if c = a then b else c) s"

definition is_space :: "char \<Rightarrow> bool" where
  "is_space c \<longleftrightarrow> (of_char c :: nat) = 32 \<or> 9 \<le> (of_char c :: nat) \<and> (of_char c :: nat) \<le> 13"

definition boost_documented :: "boost_str \<Rightarrow> bool" where
  "boost_documented B \<longleftrightarrow>
     (\<forall>p s. boost_split B p False s = pieces p s) \<and>
     (\<forall>ps d. boost_join B ps d = join_with d ps) \<and>
     (\<forall>s. boost_to_lower B s = map tolower s) \<and>
     (\<forall>s. boost_trim B s = rev (dropWhile is_space (rev (dropWhile is_space s)))) \<and>
     (\<forall>s a. boost_trim_right_any_of B s a = rev (dropWhile (\<lambda>c. c \<in> set a) (rev s))) \<and>
     (\<forall>s a b. boost_replace_all B s [a] [b] = replace_char a b s) \<and>
     (\<forall>s t. boost_starts_with B s t \<longleftrightarrow> take (length t) s = t)"

section \<open>Counting\<close>

definition count_end :: "string \<Rightarrow> nat \<Rightarrow> nat \<Rightarrow> nat" where
  "count_end s start len = (if len \<noteq> 0 then min (start + len) (length s) else length s)"

function count_char_loop :: "string \<Rightarrow> char \<Rightarrow> nat \<Rightarrow> nat \<Rightarrow> nat" where
  "count_char_loop s c e i =
     (case find_from s [c] i of
        None \<Rightarrow> 0
      | Some j \<Rightarrow> if e < j + 1 then 0 else Suc (count_char_loop s c e (j + 1)))"
  by auto
termination
proof (relation "measure (\<lambda>(s, c, e, i). Suc (length s) - i)", goal_cases)
  case (2 s c e i j)
  then show ?case using find_from_Some [of s "[c]" i j] by simp
qed simp

declare count_char_loop.simps [simp del]

definition count_char :: "string \<Rightarrow> char \<Rightarrow> nat \<Rightarrow> nat \<Rightarrow> nat" where
  "count_char s c start len =
     (let e = count_end s start len in
      if e \<le> start then 0 else count_char_loop s c e start)"

partial_function (option) count_sub_loop :: "string \<Rightarrow> string \<Rightarrow> nat \<Rightarrow> nat \<Rightarrow> nat \<Rightarrow> nat option" where
  "count_sub_loop s sub e i r =
     (case find_from s sub i of
        None \<Rightarrow> Some r
      | Some j \<Rightarrow> if e < j + length sub then Some r
                  else count_sub_loop s sub e (j + length sub) (r + 1))"

definition count_sub :: "string \<Rightarrow> string \<Rightarrow> nat \<Rightarrow> nat \<Rightarrow> nat option" where
  "count_sub s sub start len =
     (let e = count_end s start len in
      if e \<le> start then Some 0 else count_sub_loop s sub e start 0)"

fun count_pred :: "string \<Rightarrow> (char \<Rightarrow> bool) \<Rightarrow> nat" where
  "count_pred [] pred = 0"
| "count_pred (c # s) pred = (if pred c then Suc (count_pred s pred) else count_pred s pred)"

section \<open>Partitioning and splitting\<close>

definition partition_str :: "string \<Rightarrow> string \<Rightarrow> string \<times> string \<times> string" where
  "partition_str s sep =
     (case find_from s sep 0 of
        None \<Rightarrow> (s, '''', '''')
      | Some pos \<Rightarrow> (take pos s, sep, drop (pos + length sep) s))"

definition rpartition_str :: "string \<Rightarrow> string \<Rightarrow> string \<times> string \<times> string" where
  "rpartition_str s sep =
     (case find_from s sep 0 of
        None \<Rightarrow> ('''', '''', s)
      | Some pos \<Rightarrow> (take pos s, sep, drop (pos + length sep) s))"

definition split_space :: "boost_str \<Rightarrow> (char \<Rightarrow> bool) \<Rightarrow> string \<Rightarrow> bool \<Rightarrow> string list" where
  "split_space B space s keepEmpty = boost_split B space (\<not> keepEmpty) s"

definition split_char :: "boost_str \<Rightarrow> string \<Rightarrow> char \<Rightarrow> bool \<Rightarrow> string list" where
  "split_char B s delim keepEmpty = boost_split B (\<lambda>c. c = delim) (\<not> keepEmpty) s"

text \<open>
  \<open>split\<close> by a string: each round cuts off the piece before the next delimiter; the
  round in which the search fails takes the rest and is the last.
\<close>

definition cut_piece :: "string \<Rightarrow> string \<Rightarrow> string \<times> string option" where
  "cut_piece s delim =
     (case search delim s of
        None \<Rightarrow> (s, None) | Some k \<Rightarrow> (take k s, Some (drop (k + length delim) s)))"

lemma cut_piece_None: "cut_piece s delim = (temp, None) \<Longrightarrow> s = temp \<and> search delim s = None"
  by (simp add: cut_piece_def split: option.splits)

lemma cut_piece_Some:
  assumes "cut_piece s delim = (temp, Some rest)"
  shows "s = temp @ delim @ rest" "search delim s = Some (length temp)"
proof -
  obtain k where k: "search delim s = Some k" "temp = take k s" "rest = drop (k + length delim) s"
    using assms by (auto simp: cut_piece_def split: option.splits)
  with search_cut [OF k(1)] show "s = temp @ delim @ rest" "search delim s = Some (length temp)"
    by simp_all
qed

function split_str :: "string \<Rightarrow> string \<Rightarrow> bool \<Rightarrow> string list" where
  "split_str s delim keepEmpty =
     (if delim = [] then [s]
      else (case cut_piece s delim of
              (temp, None) \<Rightarrow> (if keepEmpty \<or> temp \<noteq> [] then [temp] else [])
            | (temp, Some rest) \<Rightarrow>
                (if keepEmpty \<or> temp \<noteq> [] then [temp] else []) @ split_str rest delim keepEmpty))"
  by auto
termination
proof (relation "measure (\<lambda>(s, d, k). length s)", goal_cases)
  case prems: (2 s delim keepEmpty temp rest_option rest)
  then have "length s = length (temp @ delim @ rest)" using cut_piece_Some(1) [of s delim temp rest] by simp
  with prems show ?case by simp
qed simp

declare split_str.simps [simp del]

definition not_eol :: "char \<Rightarrow> bool" where
  "not_eol c \<longleftrightarrow> c \<noteq> CHR 0x0D \<and> c \<noteq> CHR 0x0A"

text \<open>The line end at the front of the rest: \<open>CR LF\<close> counts as one.\<close>

fun cut_eol :: "string \<Rightarrow> string \<times> string" where
  "cut_eol [] = ([], [])"
| "cut_eol (c # r) =
     (case r of
        d # r' \<Rightarrow> if c = CHR 0x0D \<and> d = CHR 0x0A then ([c, d], r') else ([c], r)
      | [] \<Rightarrow> ([c], r))"

lemma cut_eol_append: "cut_eol s = (eol, rest) \<Longrightarrow> s = eol @ rest"
  by (cases s) (auto split: list.splits if_splits)

lemma cut_eol_shorter: "s \<noteq> [] \<Longrightarrow> cut_eol s = (eol, rest) \<Longrightarrow> length rest < length s"
  by (cases s) (auto split: list.splits if_splits)

function splitLines :: "string \<Rightarrow> bool \<Rightarrow> string list" where
  "splitLines s keepends =
     (if s = [] then []
      else (case cut_eol (dropWhile not_eol s) of
              (eol, rest) \<Rightarrow>
                (if keepends then takeWhile not_eol s @ eol else takeWhile not_eol s)
                # splitLines rest keepends))"
  by auto
termination
proof (relation "measure (\<lambda>(s, k). length s)", goal_cases)
  case prems: (2 s keepends eol rest)
  show ?case
  proof (cases "dropWhile not_eol s = []")
    case True
    with prems show ?thesis by simp
  next
    case False
    then have "length rest < length (dropWhile not_eol s)"
      using cut_eol_shorter [OF _ prems(2) [symmetric]] by simp
    also have "\<dots> \<le> length s" by (rule length_dropWhile_le)
    finally show ?thesis by simp
  qed
qed simp

declare splitLines.simps [simp del]

section \<open>Translating and filtering\<close>

text \<open>
  \<open>static_cast<size_t>(c)\<close> of a signed \<open>char\<close>: the octets from 128 on are negative and
  become indexes far beyond the table. The table of \<open>int\<close>s is modelled as an option, \<open>-1\<close>
  being \<open>None\<close>; a table entry of octet 255 is the \<open>char\<close> \<open>-1\<close> and so reads as deleted.
\<close>

definition char_index :: "char \<Rightarrow> nat option" where
  "char_index c = (let n = of_char c :: nat in if n < 128 then Some n else None)"

definition table_entry :: "char \<Rightarrow> char option" where
  "table_entry c = (if (of_char c :: nat) = 255 then None else Some c)"

fun delete_chars :: "char option list \<Rightarrow> char list \<Rightarrow> char option list option" where
  "delete_chars tab [] = Some tab"
| "delete_chars tab (c # cs) =
     (case char_index c of None \<Rightarrow> None | Some n \<Rightarrow> delete_chars (tab[n := None]) cs)"

fun translate_chars :: "char option list \<Rightarrow> string \<Rightarrow> string option" where
  "translate_chars tab [] = Some []"
| "translate_chars tab (c # s) =
     (case char_index c of
        None \<Rightarrow> None
      | Some n \<Rightarrow>
          map_option (\<lambda>r. (case tab ! n of None \<Rightarrow> r | Some d \<Rightarrow> d # r)) (translate_chars tab s))"

definition translate_str :: "string \<Rightarrow> char list \<Rightarrow> char list \<Rightarrow> string option" where
  "translate_str s table deleteChars =
     (case delete_chars (map table_entry table) deleteChars of
        None \<Rightarrow> None | Some tab \<Rightarrow> translate_chars tab s)"

fun filter_str :: "string \<Rightarrow> (char \<Rightarrow> bool) \<Rightarrow> string" where
  "filter_str [] pred = []"
| "filter_str (c # s) pred = (if pred c then c # filter_str s pred else filter_str s pred)"

section \<open>Lemmas: splitting\<close>

lemma join_with_Cons: "ps \<noteq> [] \<Longrightarrow> join_with d (p # ps) = p @ d @ join_with d ps"
  by (cases ps) simp_all

lemma split_str_not_Nil: "split_str s d True \<noteq> []"
  by (subst split_str.simps) (auto split: prod.splits option.splits)

lemma split_str_join: "d \<noteq> [] \<Longrightarrow> join_with d (split_str s d True) = s"
proof (induction s d True rule: split_str.induct)
  case (1 s d)
  show ?case
  proof (cases "cut_piece s d")
    case (Pair temp r)
    with 1 show ?thesis
      by (subst split_str.simps)
         (cases r, auto simp: join_with_Cons split_str_not_Nil dest: cut_piece_None cut_piece_Some)
  qed
qed

lemma stands_at_prefix:
  "stands_at d t k \<Longrightarrow> stands_at d (t @ u) k"
  using stands_at_bound [of d t k] by (auto simp: stands_at_def)

lemma split_str_piece: "d \<noteq> [] \<Longrightarrow> p \<in> set (split_str s d b) \<Longrightarrow> search d p = None"
proof (induction s d b rule: split_str.induct)
  case (1 s d b)
  obtain temp r where cut: "cut_piece s d = (temp, r)" by force
  show ?case
  proof (cases r)
    case None
    then have "split_str s d b = (if b \<or> temp \<noteq> [] then [temp] else [])"
      using 1(2) cut by (subst split_str.simps) simp
    then have p: "p = temp" using 1(3) by (simp split: if_splits)
    have "s = temp" and "search d s = None" using cut_piece_None [OF cut [unfolded None]] by blast+
    with p show ?thesis by simp
  next
    case (Some rest)
    note c = cut_piece_Some [OF cut [unfolded Some]]
    have first: "search d temp = None"
    proof (rule ccontr)
      assume "search d temp \<noteq> None"
      then obtain k where k: "stands_at d temp k" by (auto simp: search_Some)
      then have "k < length temp" using stands_at_bound [OF k] 1(2) by (cases d) auto
      moreover have "stands_at d s k" using k c(1) stands_at_prefix by metis
      ultimately show False using c(2) by (auto simp: search_Some)
    qed
    have "p = temp \<or> p \<in> set (split_str rest d b)"
      using 1(3) cut Some 1(2) by (subst (asm) split_str.simps) (auto split: if_splits)
    then show ?thesis using first 1 cut Some by auto
  qed
qed

lemma split_str_nonempty: "d \<noteq> [] \<Longrightarrow> split_str s d False = filter (\<lambda>p. p \<noteq> []) (split_str s d True)"
proof (induction s d False rule: split_str.induct)
  case (1 s d)
  show ?case
  proof (cases "cut_piece s d")
    case (Pair temp r)
    with 1 show ?thesis
      by (cases r) (simp_all add: split_str.simps [of s d True] split_str.simps [of s d False])
  qed
qed

lemma splitLines_concat: "concat (splitLines s True) = s"
proof (induction s True rule: splitLines.induct)
  case (1 s)
  show ?case
  proof (cases "cut_eol (dropWhile not_eol s)")
    case (Pair eol rest)
    have "takeWhile not_eol s @ eol @ rest = s"
      using cut_eol_append [OF Pair] takeWhile_dropWhile_id [of not_eol s] by metis
    with 1 Pair show ?thesis by (subst splitLines.simps) (cases "s = []", auto)
  qed
qed

lemma splitLines_piece: "p \<in> set (splitLines s False) \<Longrightarrow> list_all not_eol p"
proof (induction s False rule: splitLines.induct)
  case (1 s)
  then show ?case
    by (subst (asm) (2) splitLines.simps)
       (auto split: if_splits prod.splits simp: list_all_iff dest: set_takeWhileD)
qed

section \<open>Lemmas: counting\<close>

lemma search_char: "search [c] s = Some k \<Longrightarrow> k < length s \<and> s ! k = c \<and> c \<notin> set (take k s)"
proof -
  assume a: "search [c] s = Some k"
  have s: "s = take k s @ [c] @ drop (k + 1) s" and k: "k + 1 \<le> length s"
    using search_cut [OF a] by simp_all
  have "\<not> stands_at [c] s j" if "j < k" for j using a that by (auto simp: search_Some)
  then have "s ! j \<noteq> c" if "j < k" for j
    using that k by (auto simp: stands_at_def take_Suc_conv_app_nth Cons_nth_drop_Suc [symmetric])
  then have "c \<notin> set (take k s)" using k by (auto simp: in_set_conv_nth)
  moreover have "s ! k = c" using s k
    by (metis append_Cons length_take min.absorb2 nth_append_length Suc_eq_plus1 Suc_leD)
  ultimately show ?thesis using k by simp
qed

lemma search_char_None: "search [c] s = None \<Longrightarrow> c \<notin> set s"
proof
  assume n: "search [c] s = None" and "c \<in> set s"
  then obtain k where "k < length s" "s ! k = c" by (auto simp: in_set_conv_nth)
  then have "stands_at [c] s k" by (auto simp: stands_at_def Cons_nth_drop_Suc [symmetric])
  with n show False by (simp add: search_None)
qed

definition occurrences :: "char \<Rightarrow> string \<Rightarrow> nat" where
  "occurrences c s = length (filter (\<lambda>d. d = c) s)"

lemma occurrences_simps [simp]:
  "occurrences c [] = 0" "occurrences c (s @ t) = occurrences c s + occurrences c t"
  "occurrences c (d # s) = (if d = c then 1 else 0) + occurrences c s"
  "c \<notin> set s \<Longrightarrow> occurrences c s = 0"
  by (auto simp: occurrences_def filter_empty_conv)

lemma count_char_loop_occurrences:
  "i \<le> e \<Longrightarrow> e \<le> length s \<Longrightarrow>
   count_char_loop s c e i = occurrences c (take (e - i) (drop i s))"
proof (induction s c e i rule: count_char_loop.induct)
  case (1 s c e i)
  show ?case
  proof (cases "search [c] (drop i s)")
    case None
    then have "c \<notin> set (take (e - i) (drop i s))" 
      using search_char_None [OF None] by (auto dest: in_set_takeD)
    with None show ?thesis by (subst count_char_loop.simps) (simp add: find_from_def)
  next
    case (Some k)
    have k: "k < length s - i" "s ! (i + k) = c" "c \<notin> set (take k (drop i s))"
      using search_char [OF Some] 1(2,3) by auto
    have find: "find_from s [c] i = Some (i + k)" using Some 1(2,3) by (simp add: find_from_def)
    show ?thesis
    proof (cases "e < i + k + 1")
      case True
      then have "take (e - i) (drop i s) = take (e - i) (take k (drop i s))" by (simp add: min_def)
      then have "c \<notin> set (take (e - i) (drop i s))" using k(3) by (metis in_set_takeD)
      with find True show ?thesis by (subst count_char_loop.simps) simp
    next
      case False
      have "drop i s = take k (drop i s) @ c # drop (i + k + 1) s"
        using k(1,2) by (metis Cons_nth_drop_Suc add.commute append_take_drop_id drop_drop
            less_diff_conv Suc_eq_plus1)
      then have "take (e - i) (drop i s)
          = take (e - i) (take k (drop i s) @ c # drop (i + k + 1) s)" by simp
      also have "\<dots> = take k (drop i s) @ c # take (e - (i + k + 1)) (drop (i + k + 1) s)"
        using k(1) False by (simp add: take_Cons' min_def)
      finally have "take (e - i) (drop i s)
          = take k (drop i s) @ c # take (e - (i + k + 1)) (drop (i + k + 1) s)" .
      with find False k(3) 1 show ?thesis by (subst count_char_loop.simps) simp
    qed
  qed
qed

lemma count_char_occurrences:
  "count_char s c start len = occurrences c (take (count_end s start len - start) (drop start s))"
proof (cases "count_end s start len \<le> start")
  case False
  then show ?thesis
    by (simp add: count_char_def Let_def count_char_loop_occurrences count_end_def)
qed (simp add: count_char_def Let_def)

lemma count_sub_loop_split:
  assumes "sub \<noteq> []" "i \<le> length s"
  shows "count_sub_loop s sub (length s) i r
           = Some (r + (length (split_str (drop i s) sub True) - 1))"
  using assms(2)
proof (induction "length s - i" arbitrary: i r rule: less_induct)
  case less
  show ?case
  proof (cases "search sub (drop i s)")
    case None
    then have "split_str (drop i s) sub True = [drop i s]"
      using assms(1) by (subst split_str.simps) (simp add: cut_piece_def)
    with None less(2) show ?thesis
      by (subst count_sub_loop.simps) (simp add: find_from_def)
  next
    case (Some k)
    have k: "i + k + length sub \<le> length s" using search_cut(2) [OF Some] less(2) by simp
    have "split_str (drop i s) sub True
            = take k (drop i s) # split_str (drop (i + k + length sub) s) sub True"
      using assms(1) Some by (subst split_str.simps) (simp add: cut_piece_def ac_simps)
    moreover have "count_sub_loop s sub (length s) i r
                     = count_sub_loop s sub (length s) (i + k + length sub) (r + 1)"
      using Some less(2) k by (subst count_sub_loop.simps) (simp add: find_from_def)
    moreover have "length s - (i + k + length sub) < length s - i"
      using assms(1) less(2) k by (cases sub) auto
    ultimately show ?thesis
      using less(1) [of "i + k + length sub" "r + 1"] k less(2)
        split_str_not_Nil [of "drop (i + k + length sub) s" sub]
      by (cases "split_str (drop (i + k + length sub) s) sub True") simp_all
  qed
qed

text \<open>Over the whole string the substring count is the number of cuts that \<open>split\<close> makes.\<close>

lemma count_sub_split:
  "sub \<noteq> [] \<Longrightarrow> s \<noteq> [] \<Longrightarrow> count_sub s sub 0 0 = Some (length (split_str s sub True) - 1)"
  by (simp add: count_sub_def count_end_def Let_def count_sub_loop_split)

lemma partition_str_found:
  assumes "partition_str s sep = (a, sep', b)" "sep' \<noteq> []"
  shows "s = a @ sep @ b \<and> sep' = sep \<and> (\<forall>j < length a. \<not> stands_at sep s j)"
proof (cases "search sep s")
  case None
  with assms show ?thesis by (simp add: partition_str_def find_from_def)
next
  case (Some k)
  then have k: "a = take k s" "b = drop (k + length sep) s" "sep' = sep"
    using assms(1) unfolding partition_str_def find_from_def by auto
  have "length a = k" unfolding k(1) using search_cut(2) [OF Some] by simp
  moreover have "s = a @ sep @ b" unfolding k(1,2) by (rule search_cut(1) [OF Some])
  moreover have "\<forall>j<k. \<not> stands_at sep s j" using Some by (simp add: search_Some)
  ultimately show ?thesis using k(3) by blast
qed

text \<open>\<open>rpartition\<close> uses the first occurrence as \<open>partition\<close> does, not the last.\<close>

lemma rpartition_is_first:
  "search sep s = Some k \<Longrightarrow> rpartition_str s sep = partition_str s sep"
  by (simp add: rpartition_str_def partition_str_def find_from_def)

text \<open>Counting the empty substring never returns: the position does not advance.\<close>

lemma count_sub_loop_empty:
  assumes "count_sub_loop s sub e i r = Some z"
  shows "\<not> (sub = [] \<and> i < e \<and> e \<le> length s)"
  using assms
proof (rule count_sub_loop.raw_induct
    [where P = "\<lambda>s sub e i r z. \<not> (sub = [] \<and> i < e \<and> e \<le> length s)", rotated])
  fix f :: "string \<Rightarrow> string \<Rightarrow> nat \<Rightarrow> nat \<Rightarrow> nat \<Rightarrow> nat option" and s sub e i r z
  assume "\<And>s sub e i r z. f s sub e i r = Some z \<Longrightarrow> \<not> (sub = [] \<and> i < e \<and> e \<le> length s)"
    and "(case find_from s sub i of None \<Rightarrow> Some r
          | Some j \<Rightarrow> if e < j + length sub then Some r
                      else f s sub e (j + length sub) (r + 1)) = Some z"
  then show "\<not> (sub = [] \<and> i < e \<and> e \<le> length s)"
    by (auto simp: find_from_def search.simps [of "[]"] split: if_splits option.splits)
qed

lemma count_sub_empty:
  assumes "start < count_end s start len"
  shows "count_sub s [] start len = None"
proof (rule ccontr)
  assume "count_sub s [] start len \<noteq> None"
  then obtain z where "count_sub_loop s [] (count_end s start len) start 0 = Some z"
    using assms by (auto simp: count_sub_def Let_def)
  moreover have "count_end s start len \<le> length s" by (simp add: count_end_def)
  ultimately show False using count_sub_loop_empty assms by blast
qed

end
