(* ===== verification/Url_Parse.thy ===== *)
theory Url_Parse
  imports Str_Util
begin

text \<open>
  \<open>common/httputils/urlparse.h\<close> and \<open>urlparse.cpp\<close>: splitting a URL into its parts and
  putting it together again, relative references, percent encoding and query strings.

  The two result classes are records; their getters for user, password, host and port
  have the same text over the network location and are shared. A thrown exception is the left
  summand. \<open>std::map\<close> arguments of \<open>urlEncode\<close> are given by their entries in iteration order.
\<close>

datatype lib_error = ValueError string | OutOfRange | GeneralException string

section \<open>Standard library\<close>

definition find_char :: "string \<Rightarrow> char \<Rightarrow> nat \<Rightarrow> nat option" where
  "find_char s c i = find_from s [c] i"

definition rfind_char :: "string \<Rightarrow> char \<Rightarrow> nat option" where
  "rfind_char s c = map_option (\<lambda>k. length s - 1 - k) (search [c] (rev s))"

text \<open>\<open>std::stoi\<close>: leading space, a sign, digits; what follows is ignored. \<open>None\<close> is an exception.\<close>

definition stoi :: "string \<Rightarrow> int option" where
  "stoi s =
     (let t = dropWhile is_space s;
          (neg, u) = (case t of c # t' \<Rightarrow> if c = CHR ''-'' then (True, t')
                                         else if c = CHR ''+'' then (False, t') else (False, t)
                      | [] \<Rightarrow> (False, []));
          ds = takeWhile is_digit u;
          v = (if neg then - int (parse_decimal ds) else int (parse_decimal ds)) in
      if ds = [] \<or> v < - (2 ^ 31) \<or> 2 ^ 31 \<le> v then None else Some v)"

text \<open>\<open>std::stoul\<close>: a sign is allowed here, too.\<close>

definition stoul :: "string \<Rightarrow> nat option" where
  "stoul s =
     (let t = dropWhile is_space s;
          (neg, u) = (case t of c # t' \<Rightarrow> if c = CHR ''-'' then (True, t')
                                         else if c = CHR ''+'' then (False, t') else (False, t)
                      | [] \<Rightarrow> (False, []));
          ds = takeWhile is_digit u;
          v = parse_decimal ds in
      if ds = [] \<or> 2 ^ 64 \<le> v then None
      else Some (if neg then nat ((- int v) mod 2 ^ 64) else v))"

section \<open>The parts of a network location\<close>

record url_split_result =
  us_scheme :: string
  us_netloc :: string
  us_path :: string
  us_query :: string
  us_fragment :: string

record url_parse_result =
  up_scheme :: string
  up_netloc :: string
  up_path :: string
  up_params :: string
  up_query :: string
  up_fragment :: string

definition netloc_userName :: "string \<Rightarrow> string option" where
  "netloc_userName netloc =
     (case rfind_char netloc CHR ''@'' of
        None \<Rightarrow> None
      | Some pos \<Rightarrow>
          let userInfo = take pos netloc in
          Some (case find_char userInfo CHR '':'' 0 of None \<Rightarrow> userInfo | Some p \<Rightarrow> take p userInfo))"

definition netloc_password :: "string \<Rightarrow> string option" where
  "netloc_password netloc =
     (case rfind_char netloc CHR ''@'' of
        None \<Rightarrow> None
      | Some pos \<Rightarrow>
          let userInfo = take pos netloc in
          Some (case find_char userInfo CHR '':'' 0 of None \<Rightarrow> userInfo | Some p \<Rightarrow> drop (p + 1) userInfo))"

definition after_user :: "string \<Rightarrow> string" where
  "after_user netloc =
     (case rfind_char netloc CHR ''@'' of None \<Rightarrow> netloc | Some pos \<Rightarrow> drop (pos + 1) netloc)"

text \<open>\<open>netloc.substr(1, pos)\<close> takes \<open>pos\<close> characters from position 1 on.\<close>

definition netloc_hostName :: "boost_str \<Rightarrow> string \<Rightarrow> string option" where
  "netloc_hostName B netloc =
     (let n = after_user netloc in
      case (find_char n CHR ''['' 0, find_char n CHR '']'' 0) of
        (Some _, Some pos) \<Rightarrow> Some (boost_to_lower B (take pos (drop 1 n)))
      | _ \<Rightarrow>
          (case find_char n CHR '':'' 0 of
             Some pos \<Rightarrow> Some (boost_to_lower B (take pos n))
           | None \<Rightarrow> if n = [] then None else Some (boost_to_lower B n)))"

definition netloc_port :: "string \<Rightarrow> nat option" where
  "netloc_port netloc =
     (let n = after_user netloc;
          m = (case find_char n CHR '']'' 0 of None \<Rightarrow> n | Some pos \<Rightarrow> drop (pos + 1) n) in
      case find_char m CHR '':'' 0 of
        None \<Rightarrow> None
      | Some pos \<Rightarrow>
          (case stoi (drop (pos + 1) m) of
             None \<Rightarrow> None
           | Some port \<Rightarrow> if 0 \<le> port \<and> port \<le> 65535 then Some (nat port) else None))"

definition split_getUserName :: "url_split_result \<Rightarrow> string option" where
  "split_getUserName r = netloc_userName (us_netloc r)"

definition split_getPassword :: "url_split_result \<Rightarrow> string option" where
  "split_getPassword r = netloc_password (us_netloc r)"

definition split_getHostName :: "boost_str \<Rightarrow> url_split_result \<Rightarrow> string option" where
  "split_getHostName B r = netloc_hostName B (us_netloc r)"

definition split_getPort :: "url_split_result \<Rightarrow> nat option" where
  "split_getPort r = netloc_port (us_netloc r)"

definition parse_getUserName :: "url_parse_result \<Rightarrow> string option" where
  "parse_getUserName r = netloc_userName (up_netloc r)"

definition parse_getPassword :: "url_parse_result \<Rightarrow> string option" where
  "parse_getPassword r = netloc_password (up_netloc r)"

definition parse_getHostName :: "boost_str \<Rightarrow> url_parse_result \<Rightarrow> string option" where
  "parse_getHostName B r = netloc_hostName B (up_netloc r)"

definition parse_getPort :: "url_parse_result \<Rightarrow> nat option" where
  "parse_getPort r = netloc_port (up_netloc r)"

section \<open>Tables\<close>

definition usesRelative :: "string list" where
  "usesRelative =
     [''ftp'', ''http'', ''gopher'', ''nntp'', ''imap'', ''wais'', ''file'', ''https'', ''shttp'', ''mms'',
      ''prospero'', ''rtsp'', ''rtspu'', '''', ''sftp'', ''svn'', ''svn+ssh'', ''ws'', ''wss'']"

definition usesNetloc :: "string list" where
  "usesNetloc =
     [''ftp'', ''http'', ''gopher'', ''nntp'', ''telnet'', ''imap'', ''wais'', ''file'', ''mms'', ''https'',
      ''shttp'', ''snews'', ''prospero'', ''rtsp'', ''rtspu'', ''rsync'', '''', ''svn'', ''svn+ssh'', ''sftp'',
      ''nfs'', ''git'', ''git+ssh'', ''ws'', ''wss'']"

definition usesParams :: "string list" where
  "usesParams =
     [''ftp'', ''hdl'', ''prospero'', ''http'', ''imap'', ''https'', ''shttp'', ''rtsp'', ''rtspu'', ''sip'',
      ''sips'', ''mms'', '''', ''sftp'', ''tel'', ''ws'', ''wss'']"

definition schemeChars :: string where
  "schemeChars = ''abcdefghijklmnopqrstuvwxyzABCDEFGHIJKLMNOPQRSTUVWXYZ0123456789+-.''"

definition alwaysSafe :: string where
  "alwaysSafe = ''abcdefghijklmnopqrstuvwxyzABCDEFGHIJKLMNOPQRSTUVWXYZ0123456789_.-''"

definition nibbles :: "(char \<times> nat) list" where
  "nibbles = zip ''0123456789ABCDEFabcdef'' ([0..<16] @ [10..<16])"

text \<open>The table of 484 entries, row by row: every pair of hexadecimal digits in either case.\<close>

definition hexToChar :: "(string \<times> char) list" where
  "hexToChar = concat (map (\<lambda>(h, v). map (\<lambda>(l, w). ([h, l], char_of (16 * v + w))) nibbles) nibbles)"

definition hex_digit :: "nat \<Rightarrow> char" where
  "hex_digit n = ''0123456789ABCDEF'' ! n"

text \<open>The table of 256 entries: itself for the characters that are always safe, else the escape.\<close>

definition safeMap :: "char \<Rightarrow> string" where
  "safeMap c =
     (if c \<in> set alwaysSafe then [c]
      else [CHR ''%'', hex_digit (of_char c div 16), hex_digit (of_char c mod 16)])"

section \<open>Splitting and joining\<close>

text \<open>The first of the three delimiters from \<open>start\<close> on ends the network location.\<close>

definition splitNetloc :: "string \<Rightarrow> nat \<Rightarrow> string \<times> string" where
  "splitNetloc url start =
     (let delim = foldl (\<lambda>d c. case find_char url c start of None \<Rightarrow> d | Some w \<Rightarrow> min d w)
                    (length url) [CHR ''/'', CHR ''?'', CHR ''#''] in
      (take (delim - start) (drop start url), drop delim url))"

text \<open>With no slash and no semicolon, \<open>npos + 1\<close> is 0 and the second part is the whole string.\<close>

definition splitParams :: "string \<Rightarrow> string \<times> string" where
  "splitParams url =
     (case rfind_char url CHR ''/'' of
        Some i \<Rightarrow>
          (case find_char url CHR '';'' i of
             None \<Rightarrow> (url, '''') | Some j \<Rightarrow> (take j url, drop (j + 1) url))
      | None \<Rightarrow>
          (case find_char url CHR '';'' 0 of
             None \<Rightarrow> (url, url) | Some j \<Rightarrow> (take j url, drop (j + 1) url)))"

definition cut_at :: "string \<Rightarrow> char \<Rightarrow> string \<times> string" where
  "cut_at url c =
     (case find_char url c 0 of None \<Rightarrow> (url, '''') | Some pos \<Rightarrow> (take pos url, drop (pos + 1) url))"

text \<open>The part of \<open>urlSplit\<close> after the scheme, which the source has twice.\<close>

definition split_rest :: "boost_str \<Rightarrow> string \<Rightarrow> string \<Rightarrow> bool \<Rightarrow> lib_error + url_split_result" where
  "split_rest B scheme url allowFragments =
     (let (netloc, url1) = (if boost_starts_with B url ''//'' then splitNetloc url 2 else ('''', url));
          leftBracket = find_char netloc CHR ''['' 0;
          rightBracket = find_char netloc CHR '']'' 0 in
      if boost_starts_with B url ''//'' \<and>
         (leftBracket \<noteq> None \<and> rightBracket = None \<or> leftBracket = None \<and> rightBracket \<noteq> None)
      then Inl (ValueError ''Invalid IPv6 URL'')
      else let (url2, fragment) = (if allowFragments then cut_at url1 CHR ''#'' else (url1, ''''));
               (url3, query) = cut_at url2 CHR ''?'' in
           Inr \<lparr> us_scheme = scheme, us_netloc = netloc, us_path = url3, us_query = query,
                 us_fragment = fragment \<rparr>)"

definition urlSplit :: "boost_str \<Rightarrow> string \<Rightarrow> string \<Rightarrow> bool \<Rightarrow> lib_error + url_split_result" where
  "urlSplit B url scheme allowFragments =
     (case find_char url CHR '':'' 0 of
        None \<Rightarrow> split_rest B scheme url allowFragments
      | Some i \<Rightarrow>
          let temp = take i url; rest = drop (i + 1) url in
          if boost_ilexicographical_compare B temp ''http''
          then split_rest B (boost_to_lower B temp) rest allowFragments
          else if list_all (\<lambda>c. c \<in> set schemeChars) temp \<and>
                  (rest = [] \<or> \<not> list_all (\<lambda>c. c \<in> set ''0123456789'') rest)
          then split_rest B (boost_to_lower B temp) rest allowFragments
          else split_rest B scheme url allowFragments)"

definition urlParse :: "boost_str \<Rightarrow> string \<Rightarrow> string \<Rightarrow> bool \<Rightarrow> lib_error + url_parse_result" where
  "urlParse B url scheme allowFragments =
     (case urlSplit B url scheme allowFragments of
        Inl e \<Rightarrow> Inl e
      | Inr r \<Rightarrow>
          let (path, params) =
                (if us_scheme r \<in> set usesParams \<and> find_char (us_path r) CHR '';'' 0 \<noteq> None
                 then splitParams (us_path r) else (us_path r, '''')) in
          Inr \<lparr> up_scheme = us_scheme r, up_netloc = us_netloc r, up_path = path, up_params = params,
                up_query = us_query r, up_fragment = us_fragment r \<rparr>)"

definition urlUnsplit :: "boost_str \<Rightarrow> url_split_result \<Rightarrow> string" where
  "urlUnsplit B d =
     (let url1 =
            (if us_netloc d \<noteq> [] \<or>
                us_scheme d \<noteq> [] \<and> us_scheme d \<in> set usesNetloc \<and> \<not> boost_starts_with B (us_path d) ''//''
             then ''//'' @ us_netloc d @
                  (if us_path d \<noteq> [] \<and> hd (us_path d) \<noteq> CHR ''/'' then ''/'' @ us_path d else us_path d)
             else us_path d);
          url2 = (if us_scheme d \<noteq> [] then us_scheme d @ '':'' @ url1 else url1);
          url3 = (if us_query d \<noteq> [] then url2 @ ''?'' @ us_query d else url2) in
      if us_fragment d \<noteq> [] then url3 @ ''#'' @ us_fragment d else url3)"

definition urlUnparse :: "boost_str \<Rightarrow> url_parse_result \<Rightarrow> string" where
  "urlUnparse B d =
     urlUnsplit B \<lparr> us_scheme = up_scheme d, us_netloc = up_netloc d,
       us_path = (if up_params d \<noteq> [] then up_path d @ '';'' @ up_params d else up_path d),
       us_query = up_query d, us_fragment = up_fragment d \<rparr>"

definition urlDefrag :: "boost_str \<Rightarrow> string \<Rightarrow> lib_error + string \<times> string" where
  "urlDefrag B url =
     (if find_char url CHR ''#'' 0 \<noteq> None
      then (case urlParse B url '''' True of
              Inl e \<Rightarrow> Inl e
            | Inr r \<Rightarrow> Inr (urlUnparse B (r\<lparr> up_fragment := '''' \<rparr>), up_fragment r))
      else Inr (url, ''''))"

section \<open>Relative references\<close>

text \<open>One round of the loop removes the first directory that is followed by \<open>..\<close>.\<close>

definition updir_at :: "string list \<Rightarrow> nat \<Rightarrow> bool" where
  "updir_at segments i \<longleftrightarrow>
     segments ! i = ''..'' \<and> segments ! (i - 1) \<noteq> '''' \<and> segments ! (i - 1) \<noteq> ''..''"

function remove_updirs :: "string list \<Rightarrow> string list" where
  "remove_updirs segments =
     (case List.find (updir_at segments) [1..<length segments - 1] of
        None \<Rightarrow> segments
      | Some i \<Rightarrow> remove_updirs (take (i - 1) segments @ drop (i + 1) segments))"
  by auto
termination
proof (relation "measure length", goal_cases)
  case (2 segments i)
  then show ?case by (auto simp: find_Some_iff)
qed simp

declare remove_updirs.simps [simp del]

definition join_segments :: "string list \<Rightarrow> string list \<Rightarrow> string list" where
  "join_segments bpathSplit pathSplit =
     (let s1 = butlast bpathSplit @ pathSplit;
          s2 = (if last s1 = ''.'' then butlast s1 @ [''''] else s1);
          s3 = remove_updirs (filter (\<lambda>p. p \<noteq> ''.'') s2) in
      if length s3 = 2 \<and> s3 ! 0 = '''' \<and> s3 ! 1 = ''..'' then ['''', '''']
      else if length s3 > 2 \<and> last s3 = ''..'' then butlast (butlast s3) @ ['''']
      else s3)"

definition urlJoin :: "boost_str \<Rightarrow> string \<Rightarrow> string \<Rightarrow> bool \<Rightarrow> lib_error + string" where
  "urlJoin B base url allowFragments =
     (if base = [] then Inr url else if url = [] then Inr base
      else (case urlParse B base '''' allowFragments of
        Inl e \<Rightarrow> Inl e
      | Inr b \<Rightarrow>
        (case urlParse B url (up_scheme b) allowFragments of
          Inl e \<Rightarrow> Inl e
        | Inr u \<Rightarrow>
          if up_scheme u \<noteq> up_scheme b \<or> up_scheme u \<notin> set usesRelative then Inr url
          else if up_scheme u \<in> set usesNetloc \<and> up_netloc u \<noteq> [] then Inr (urlUnparse B u)
          else let v = (if up_scheme u \<in> set usesNetloc then u\<lparr> up_netloc := up_netloc b \<rparr> else u) in
            if up_path v \<noteq> [] \<and> hd (up_path v) = CHR ''/'' then Inr (urlUnparse B v)
            else if up_path v = [] \<and> up_params v = []
            then Inr (urlUnparse B (v\<lparr> up_path := up_path b, up_params := up_params b,
                        up_query := (if up_query v = [] then up_query b else up_query v) \<rparr>))
            else Inr (urlUnparse B (v\<lparr> up_path :=
                        boost_join B (join_segments (split_char B (up_path b) CHR ''/'' True)
                                       (split_char B (up_path v) CHR ''/'' True)) ''/'' \<rparr>)))))"

section \<open>Percent encoding\<close>

definition unquote_bit :: "string \<Rightarrow> string list" where
  "unquote_bit b =
     (if length b < 2 then [''%'', b]
      else (case map_of hexToChar (take 2 b) of
              None \<Rightarrow> [''%'', b] | Some c \<Rightarrow> [[c], drop 2 b]))"

definition unquote :: "boost_str \<Rightarrow> string \<Rightarrow> string" where
  "unquote B s =
     (let bits = split_char B s CHR ''%'' True in
      if length bits = 1 then s
      else (case bits of
              [] \<Rightarrow> boost_join B [] ''''
            | b # bs \<Rightarrow> boost_join B (b # concat (map unquote_bit bs)) ''''))"

definition unquotePlus :: "boost_str \<Rightarrow> string \<Rightarrow> string" where
  "unquotePlus B s = unquote B (boost_replace_all B s ''+'' '' '')"

definition quote :: "boost_str \<Rightarrow> string \<Rightarrow> string \<Rightarrow> string" where
  "quote B s safe =
     (if s = [] then s
      else let safe' = safe @ alwaysSafe in
           if boost_trim_right_any_of B s safe' = [] then s
           else boost_join B (map (\<lambda>c. if c \<in> set safe' then [c] else safeMap c) s) '''')"

definition quotePlus :: "boost_str \<Rightarrow> string \<Rightarrow> string \<Rightarrow> string" where
  "quotePlus B s safe =
     (if CHR '' '' \<in> set s then boost_replace_all B (quote B s (safe @ '' '')) '' '' ''+''
      else quote B s safe)"

section \<open>Query strings\<close>

definition urlEncode :: "boost_str \<Rightarrow> (string \<times> string) list \<Rightarrow> string" where
  "urlEncode B query =
     boost_join B (map (\<lambda>(k, v). quotePlus B k '''' @ ''='' @ quotePlus B v '''') query) ''&''"

definition urlEncode_lists :: "boost_str \<Rightarrow> (string \<times> string list) list \<Rightarrow> string" where
  "urlEncode_lists B query =
     boost_join B (concat (map (\<lambda>(k, vs). map (\<lambda>v. quotePlus B k '''' @ ''='' @ quotePlus B v '''') vs) query))
       ''&''"

text \<open>One field: skipped (\<open>Inr None\<close>), an error, or its name and value.\<close>

definition parse_field ::
  "boost_str \<Rightarrow> bool \<Rightarrow> bool \<Rightarrow> string \<Rightarrow> lib_error + (string \<times> string) option" where
  "parse_field B keepBlankValues strictParsing nameValue =
     (let field = (\<lambda>name value.
            if keepBlankValues \<or> value \<noteq> []
            then Some (unquote B (boost_replace_all B name ''+'' '' ''),
                       unquote B (boost_replace_all B value ''+'' '' ''))
            else None) in
      if nameValue = [] \<and> \<not> strictParsing then Inr None
      else (case find_char nameValue CHR ''='' 0 of
              None \<Rightarrow>
                if strictParsing then Inl (ValueError (''bad query field:'' @ nameValue))
                else if keepBlankValues then Inr (field nameValue '''') else Inr None
            | Some pos \<Rightarrow> Inr (field (take pos nameValue) (drop (pos + 1) nameValue))))"

fun parse_fields ::
  "boost_str \<Rightarrow> bool \<Rightarrow> bool \<Rightarrow> string list \<Rightarrow> lib_error + (string \<times> string) list" where
  "parse_fields B keep strict [] = Inr []"
| "parse_fields B keep strict (p # ps) =
     (case parse_field B keep strict p of
        Inl e \<Rightarrow> Inl e
      | Inr f \<Rightarrow>
          (case parse_fields B keep strict ps of
             Inl e \<Rightarrow> Inl e
           | Inr r \<Rightarrow> Inr (case f of None \<Rightarrow> r | Some nv \<Rightarrow> nv # r)))"

definition parseQSL :: "boost_str \<Rightarrow> string \<Rightarrow> bool \<Rightarrow> bool \<Rightarrow> lib_error + (string \<times> string) list" where
  "parseQSL B queryString keepBlankValues strictParsing =
     parse_fields B keepBlankValues strictParsing
       (concat (map (\<lambda>v. split_char B v CHR '';'' True) (split_char B queryString CHR ''&'' True)))"

definition add_arg :: "(string \<rightharpoonup> string list) \<Rightarrow> string \<times> string \<Rightarrow> (string \<rightharpoonup> string list)" where
  "add_arg dict nv =
     (case dict (fst nv) of
        Some vs \<Rightarrow> dict(fst nv \<mapsto> vs @ [snd nv])
      | None \<Rightarrow> dict(fst nv \<mapsto> [snd nv]))"

definition parseQS :: "boost_str \<Rightarrow> string \<Rightarrow> bool \<Rightarrow> bool \<Rightarrow> lib_error + (string \<rightharpoonup> string list)" where
  "parseQS B queryString keepBlankValues strictParsing =
     (case parseQSL B queryString keepBlankValues strictParsing of
        Inl e \<Rightarrow> Inl e | Inr r \<Rightarrow> Inr (foldl add_arg Map.empty r))"

end
