(* ===== verification/Url_Coding.thy ===== *)
theory Url_Coding
  imports Url_Parse
begin

text \<open>
  Percent encoding and query strings: \<open>unquote\<close> equals a one-pass decoder, it undoes
  \<open>quote\<close>, and \<open>parseQSL\<close> reads back what \<open>urlEncode\<close> wrote. The functions of
  Boost.StringAlgo are assumed to do what their documentation says
  (\<open>boost_documented\<close>); \<open>boost_ref\<close> is an instance, on which the witnesses evaluate.
\<close>

section \<open>Boost.StringAlgo by its documentation\<close>

lemma boostD:
  assumes "boost_documented B"
  shows "split_char B s d True = pieces (\<lambda>c. c = d) s"
    and "boost_join B ps t = join_with t ps"
    and "boost_to_lower B u = map tolower u"
    and "boost_trim B z = rev (dropWhile is_space (rev (dropWhile is_space z)))"
    and "boost_trim_right_any_of B v a = rev (dropWhile (\<lambda>c. c \<in> set a) (rev v))"
    and "boost_replace_all B w [e] [f] = replace_char e f w"
    and "boost_starts_with B x y \<longleftrightarrow> take (length y) x = y"
  using assms by (auto simp: boost_documented_def split_char_def)

definition boost_ref :: boost_str where
  "boost_ref = \<lparr>
     boost_split = (\<lambda>p compress s. if compress then filter (\<lambda>q. q \<noteq> []) (pieces p s) else pieces p s),
     boost_join = (\<lambda>ps d. join_with d ps),
     boost_to_lower = map tolower,
     boost_trim = (\<lambda>s. rev (dropWhile is_space (rev (dropWhile is_space s)))),
     boost_trim_right_any_of = (\<lambda>s a. rev (dropWhile (\<lambda>c. c \<in> set a) (rev s))),
     boost_replace_all = (\<lambda>s a b. join_with b (split_str s a True)),
     boost_starts_with = (\<lambda>s t. take (length t) s = t),
     boost_iequals = (\<lambda>s t. map tolower s = map tolower t),
     boost_ilexicographical_compare =
       (\<lambda>s t. ord.lexordp (\<lambda>a b. (of_char a :: nat) < of_char b) (map tolower s) (map tolower t)) \<rparr>"

lemma pieces_not_Nil [simp]: "pieces p s \<noteq> []"
  by (cases s) (auto split: list.splits)

lemma piecesE:
  obtains q qs where "pieces p s = q # qs"
  using pieces_not_Nil by (metis neq_Nil_conv)

lemma pieces_Cons:
  "p c \<Longrightarrow> pieces p (c # s) = [] # pieces p s"
  "\<not> p c \<Longrightarrow> pieces p (c # s) = (c # hd (pieces p s)) # tl (pieces p s)"
  by (auto split: list.splits)

lemma pieces_none: "list_all (\<lambda>c. \<not> p c) s \<Longrightarrow> pieces p s = [s]"
  by (induction s) auto

lemma pieces_append:
  "list_all (\<lambda>c. \<not> p c) s \<Longrightarrow> pieces p (s @ t) = (s @ hd (pieces p t)) # tl (pieces p t)"
  by (induction s) (auto simp: pieces_Cons simp del: pieces.simps)

lemma pieces_join:
  assumes "\<forall>x\<in>set ps. list_all (\<lambda>c. \<not> p c) x" "p d" "ps \<noteq> []"
  shows "pieces p (join_with [d] ps) = ps"
  using assms
proof (induction ps)
  case (Cons x xs)
  show ?case
  proof (cases xs)
    case Nil
    then show ?thesis using Cons(2) by (simp add: pieces_none)
  next
    case (Cons y ys)
    then show ?thesis using Cons.IH Cons.prems pieces_append [of p x "[d] @ join_with [d] xs"]
      by (simp add: join_with_Cons)
  qed
qed simp

lemma join_with_Nil: "join_with [] ps = concat ps"
  by (induction "[] :: string" ps rule: join_with.induct) simp_all

lemma search_char_pieces:
  "list_all (\<lambda>c. c \<noteq> d) s \<Longrightarrow> find_char (s @ d # t) d 0 = Some (length s)"
proof -
  assume a: "list_all (\<lambda>c. c \<noteq> d) s"
  have "stands_at [d] (s @ d # t) (length s)" by (simp add: stands_at_def)
  moreover have "\<not> stands_at [d] (s @ d # t) j" if "j < length s" for j
    using that a by (auto simp: stands_at_def list_all_length Cons_nth_drop_Suc [symmetric] nth_append)
  ultimately show ?thesis by (simp add: find_char_def find_from_def search_Some)
qed

section \<open>The tables\<close>

lemma map_of_row:
  "map_of (map (\<lambda>(l, w). ([h, l], f w)) ys) [a, b] = (if a = h then map_option f (map_of ys b) else None)"
  by (induction ys) auto

lemma map_of_rows:
  assumes "distinct (map fst xs)"
  shows "map_of (concat (map (\<lambda>(h, v). map (\<lambda>(l, w). ([h, l], f v w)) ys) xs)) [a, b]
           = (case map_of xs a of None \<Rightarrow> None | Some v \<Rightarrow> map_option (f v) (map_of ys b))"
  using assms
proof (induction xs)
  case (Cons x xs)
  obtain h v where x: "x = (h, v)" by (cases x)
  have "map_of xs h = None" using Cons.prems x by (simp add: map_of_eq_None_iff)
  then show ?case using Cons x
    by (auto simp: map_add_def map_of_row split: option.splits)
qed simp

lemma hexToChar_lookup:
  "map_of hexToChar [a, b] =
     (case map_of nibbles a of None \<Rightarrow> None | Some v \<Rightarrow> map_option (\<lambda>w. char_of (16 * v + w)) (map_of nibbles b))"
  unfolding hexToChar_def by (rule map_of_rows) (simp add: nibbles_def upt_rec)

lemma nibble_digit: "n < 16 \<Longrightarrow> map_of nibbles (hex_digit n) = Some n"
proof -
  have "\<forall>n\<in>set [0..<16]. map_of nibbles (hex_digit n) = Some n"
    by (simp add: nibbles_def hex_digit_def upt_rec)
  then show "n < 16 \<Longrightarrow> map_of nibbles (hex_digit n) = Some n" by simp
qed

lemma of_char_nibble: "of_char c div 16 < (16 :: nat)"
proof -
  have "of_char c < (256 :: nat)" by (metis of_char_mod_256 mod_less_divisor zero_less_numeral)
  then show ?thesis by (intro less_mult_imp_div_less) simp
qed

lemma hexToChar_safeMap:
  "map_of hexToChar [hex_digit (of_char c div 16), hex_digit (of_char c mod 16)] = Some c"
proof -
  have "of_char c div 16 < (16 :: nat)" by (rule of_char_nibble)
  then show ?thesis by (simp add: hexToChar_lookup nibble_digit)
qed

lemma nibble_not_percent: "map_of nibbles CHR ''%'' = None"
  by (simp add: nibbles_def upt_rec)

section \<open>The instance\<close>

lemma split_str_pieces: "split_str s [d] True = pieces (\<lambda>c. c = d) s"
proof (induction s "[d]" True rule: split_str.induct)
  case (1 s)
  show ?case
  proof (cases "search [d] s")
    case None
    then have "pieces (\<lambda>c. c = d) s = [s]"
      using search_char_None [OF None] by (intro pieces_none) (auto simp: list_all_iff)
    with None show ?thesis by (subst split_str.simps) (simp add: cut_piece_def)
  next
    case (Some k)
    have split: "split_str s [d] True = take k s # split_str (drop (k + 1) s) [d] True"
      using Some by (subst split_str.simps) (simp add: cut_piece_def)
    have IH: "split_str (drop (k + 1) s) [d] True = pieces (\<lambda>c. c = d) (drop (k + 1) s)"
      using 1 Some by (simp add: cut_piece_def)
    have "s = take k s @ d # drop (k + 1) s" using search_cut(1) [OF Some] by simp
    then have "pieces (\<lambda>c. c = d) s = pieces (\<lambda>c. c = d) (take k s @ d # drop (k + 1) s)" by simp
    also have "\<dots> = take k s # pieces (\<lambda>c. c = d) (drop (k + 1) s)"
      using search_char [OF Some] by (subst pieces_append) (auto simp: list_all_iff)
    finally show ?thesis using split IH by simp
  qed
qed

lemma join_pieces: "join_with [b] (pieces (\<lambda>c. c = a) s) = replace_char a b s"
proof (induction s)
  case (Cons c s)
  obtain q qs where p: "pieces (\<lambda>c. c = a) s = q # qs" by (rule piecesE)
  with Cons show ?case by (cases qs) (auto simp: replace_char_def)
qed (simp add: replace_char_def)

lemma boost_ref_documented: "boost_documented boost_ref"
  by (simp add: boost_documented_def boost_ref_def split_str_pieces join_pieces)

section \<open>A one-pass decoder\<close>

fun decode_percent :: "string \<Rightarrow> string" where
  "decode_percent (CHR ''%'' # a # b # s) =
     (case map_of hexToChar [a, b] of
        Some c \<Rightarrow> c # decode_percent s
      | None \<Rightarrow> CHR ''%'' # decode_percent (a # b # s))"
| "decode_percent (c # s) = c # decode_percent s"
| "decode_percent [] = []"

lemma decode_percent_plain: "c \<noteq> CHR ''%'' \<Longrightarrow> decode_percent (c # s) = c # decode_percent s"
  by (cases "(c # s)" rule: decode_percent.cases) auto

abbreviation percent_pieces :: "string \<Rightarrow> string list" where
  "percent_pieces \<equiv> pieces (\<lambda>c. c = CHR ''%'')"

definition decode_pieces :: "string list \<Rightarrow> string" where
  "decode_pieces ps = hd ps @ concat (concat (map unquote_bit (tl ps)))"

lemma decode_pieces_Cons:
  "ps \<noteq> [] \<Longrightarrow> decode_pieces ((c # hd ps) # tl ps) = c # decode_pieces ps"
  "decode_pieces ([] # ps) = concat (concat (map unquote_bit ps))"
  by (simp_all add: decode_pieces_def)

lemma decode_pieces_plain: "c \<noteq> CHR ''%'' \<Longrightarrow> decode_pieces (percent_pieces (c # s)) = c # decode_pieces (percent_pieces s)"
  by (simp add: pieces_Cons decode_pieces_Cons del: pieces.simps)

text \<open>The three shapes of what follows a percent sign.\<close>

lemma decode_pieces_percent:
  "decode_pieces (percent_pieces (CHR ''%'' # t)) =
     (case t of
        a # b # s \<Rightarrow>
          (case map_of hexToChar [a, b] of
             Some c \<Rightarrow> c # decode_pieces (percent_pieces s)
           | None \<Rightarrow> CHR ''%'' # decode_pieces (percent_pieces t))
      | _ \<Rightarrow> CHR ''%'' # decode_pieces (percent_pieces t))"
proof -
  obtain q qs where p: "percent_pieces t = q # qs" by (rule piecesE)
  have unfold: "decode_pieces (percent_pieces (CHR ''%'' # t)) = concat (unquote_bit q) @ concat (concat (map unquote_bit qs))"
    by (simp add: pieces_Cons decode_pieces_Cons p del: pieces.simps)
  have short: "length q < 2 \<Longrightarrow> decode_pieces (percent_pieces (CHR ''%'' # t)) = CHR ''%'' # decode_pieces (percent_pieces t)"
    by (simp add: unfold unquote_bit_def decode_pieces_def p)
  show ?thesis
  proof (cases "\<exists>a b s. t = a # b # s \<and> a \<noteq> CHR ''%'' \<and> b \<noteq> CHR ''%''")
    case True
    then obtain a b s where t: "t = a # b # s" "a \<noteq> CHR ''%''" "b \<noteq> CHR ''%''" by blast
    obtain r rs where s: "percent_pieces s = r # rs" by (rule piecesE)
    have "q = a # b # r" "qs = rs" using p t s by (simp_all split: if_splits)
    then show ?thesis
      by (subst unfold, cases "map_of hexToChar [a, b]")
         (simp_all add: p [unfolded t(1)] t(1) unquote_bit_def decode_pieces_def s del: pieces.simps)
  next
    case False
    then have "length q < 2"
      using p by (auto split: list.splits if_splits elim!: pieces.elims)
    moreover have "case t of a # b # s \<Rightarrow> map_of hexToChar [a, b] = None | _ \<Rightarrow> True"
      using False by (auto simp: hexToChar_lookup nibble_not_percent split: list.splits option.splits)
    ultimately show ?thesis using short by (auto split: list.splits)
  qed
qed

lemma decode_pieces_eq: "decode_pieces (percent_pieces s) = decode_percent s"
proof (induction s rule: length_induct)
  case (1 s)
  show ?case
  proof (cases s)
    case (Cons c t)
    show ?thesis
    proof (cases "c = CHR ''%''")
      case True
      show ?thesis
      proof (cases t rule: list.exhaust [case_names Nil Cons])
        case Nil
        with Cons True show ?thesis by (simp add: decode_pieces_def unquote_bit_def)
      next
        case t: (Cons a t')
        then show ?thesis using Cons True 1
          by (cases t') (simp_all add: decode_pieces_percent split: option.splits del: pieces.simps)
      qed
    next
      case False
      then show ?thesis
        using Cons 1 by (simp add: decode_pieces_plain decode_percent_plain del: pieces.simps)
    qed
  qed (simp add: decode_pieces_def)
qed

lemma unquote_decode:
  assumes "boost_documented B"
  shows "unquote B s = decode_percent s"
proof -
  obtain q qs where p: "percent_pieces s = q # qs" by (rule piecesE)
  have "s = q" if "qs = []"
    using p that join_with_Nil [of "percent_pieces s"] join_pieces [of "CHR ''%''" "CHR ''%''" s]
    by (simp add: replace_char_def)
  with p show ?thesis unfolding decode_pieces_eq [symmetric]
    by (cases qs)
       (simp_all add: unquote_def Let_def boostD [OF assms] decode_pieces_def join_with_Nil)
qed

section \<open>Encoding and decoding again\<close>

text \<open>The escape of each character on its own.\<close>

definition quote_char :: "string \<Rightarrow> char \<Rightarrow> string" where
  "quote_char safe c = (if c \<in> set (safe @ alwaysSafe) then [c] else safeMap c)"

lemma dropWhile_all: "dropWhile p (rev s) = [] \<Longrightarrow> list_all p s"
  by (simp add: dropWhile_eq_Nil_conv list_all_iff)

lemma quote_chars:
  assumes "boost_documented B"
  shows "quote B s safe = concat (map (quote_char safe) s)"
proof -
  have "concat (map (quote_char safe) s) = s" if "list_all (\<lambda>c. c \<in> set (safe @ alwaysSafe)) s"
    using that by (induction s) (simp_all add: quote_char_def)
  then show ?thesis
    using dropWhile_all [of "\<lambda>c. c \<in> set (safe @ alwaysSafe)" s]
    by (auto simp: quote_def Let_def boostD [OF assms] join_with_Nil quote_char_def [abs_def])
qed

lemma decode_percent_escape:
  "decode_percent (CHR ''%'' # hex_digit (of_char c div 16) # hex_digit (of_char c mod 16) # s)
     = c # decode_percent s"
  by (simp add: hexToChar_safeMap)

lemma decode_quote_char:
  "CHR ''%'' \<notin> set safe \<Longrightarrow> decode_percent (quote_char safe c @ s) = c # decode_percent s"
proof -
  assume "CHR ''%'' \<notin> set safe"
  then have "c \<in> set (safe @ alwaysSafe) \<Longrightarrow> c \<noteq> CHR ''%''" by (auto simp: alwaysSafe_def)
  then show ?thesis
    by (simp add: quote_char_def decode_percent_plain safeMap_def decode_percent_escape
        del: decode_percent.simps)
qed

lemma decode_quoted: "CHR ''%'' \<notin> set safe \<Longrightarrow> decode_percent (concat (map (quote_char safe) s)) = s"
  by (induction s) (simp_all add: decode_quote_char)

lemma unquote_quote_raw:
  "boost_documented B \<Longrightarrow> CHR ''%'' \<notin> set safe \<Longrightarrow> unquote B (quote B s safe) = s"
  by (simp add: unquote_decode quote_chars decode_quoted)

text \<open>The alphabet of the output.\<close>

definition quoted_chars :: string where
  "quoted_chars = alwaysSafe @ ''%0123456789ABCDEF''"

lemma in_quoted_chars:
  "n < 16 \<Longrightarrow> hex_digit n \<in> set quoted_chars" "CHR ''%'' \<in> set quoted_chars"
  "c \<in> set alwaysSafe \<Longrightarrow> c \<in> set quoted_chars"
proof -
  have "n < 16 \<Longrightarrow> hex_digit n \<in> set ''0123456789ABCDEF''"
    unfolding hex_digit_def by (rule nth_mem) simp
  then show "n < 16 \<Longrightarrow> hex_digit n \<in> set quoted_chars" by (auto simp: quoted_chars_def)
qed (simp_all add: quoted_chars_def)

lemma quote_char_alphabet: "set (quote_char safe c) \<subseteq> set (safe @ quoted_chars)"
  by (auto simp: quote_char_def safeMap_def in_quoted_chars of_char_nibble)

lemma replace_char_append: "replace_char a b (s @ t) = replace_char a b s @ replace_char a b t"
  by (simp add: replace_char_def)

lemma replace_char_none: "a \<notin> set s \<Longrightarrow> replace_char a b s = s"
  by (auto simp: replace_char_def intro: map_idI)

text \<open>\<open>quotePlus\<close> and the replacement of the plus signs that comes before decoding.\<close>

lemma quotePlus_chars:
  assumes "boost_documented B"
  shows "quotePlus B s '''' = replace_char CHR '' '' CHR ''+'' (concat (map (quote_char '' '') s))"
proof (cases "CHR '' '' \<in> set s")
  case False
  then have "concat (map (quote_char '''') s) = concat (map (quote_char '' '') s)"
    by (induction s) (auto simp: quote_char_def)
  moreover have "CHR '' '' \<notin> set (concat (map (quote_char '''') s))"
  proof -
    have "CHR '' '' \<notin> set (quote_char '''' c)" for c
      using quote_char_alphabet [of "''''" c] by (auto simp: quoted_chars_def alwaysSafe_def)
    then show ?thesis by simp
  qed
  ultimately show ?thesis
    using False by (simp add: quotePlus_def quote_chars [OF assms] replace_char_none)
qed (simp add: quotePlus_def quote_chars [OF assms] boostD [OF assms])

lemma quotePlus_alphabet:
  assumes "boost_documented B"
  shows "set (quotePlus B s '''') \<subseteq> set (''+'' @ quoted_chars)"
proof -
  have "set (concat (map (quote_char '' '') s)) \<subseteq> set ('' '' @ quoted_chars)"
    using quote_char_alphabet [of "'' ''"] by fastforce
  then show ?thesis by (auto simp: quotePlus_chars [OF assms] replace_char_def)
qed

lemma plus_undone:
  assumes "boost_documented B"
  shows "replace_char CHR ''+'' CHR '' '' (quotePlus B s '''') = concat (map (quote_char '' '') s)"
proof -
  have "CHR ''+'' \<notin> set (concat (map (quote_char '' '') s))"
  proof -
    have "CHR ''+'' \<notin> set (quote_char '' '' c)" for c
      using quote_char_alphabet [of "'' ''" c] by (auto simp: quoted_chars_def alwaysSafe_def)
    then show ?thesis by simp
  qed
  then show ?thesis
    unfolding quotePlus_chars [OF assms] replace_char_def map_map
    by (intro map_idI) auto
qed

lemma unquote_plus:
  "boost_documented B \<Longrightarrow> unquote B (replace_char CHR ''+'' CHR '' '' (quotePlus B s '''')) = s"
  by (simp add: plus_undone unquote_decode decode_quoted)

section \<open>Query strings\<close>

definition plain_query_char :: "char \<Rightarrow> bool" where
  "plain_query_char c \<longleftrightarrow> c \<noteq> CHR ''&'' \<and> c \<noteq> CHR '';'' \<and> c \<noteq> CHR ''=''"

lemma quotePlus_plain:
  assumes "boost_documented B"
  shows "list_all plain_query_char (quotePlus B s '''')"
  using quotePlus_alphabet [OF assms, of s]
  by (auto simp: list_all_iff plain_query_char_def quoted_chars_def alwaysSafe_def)

definition encode_pair :: "boost_str \<Rightarrow> string \<times> string \<Rightarrow> string" where
  "encode_pair B kv = quotePlus B (fst kv) '''' @ ''='' @ quotePlus B (snd kv) ''''"

lemma parse_encode_pair:
  assumes "boost_documented B" "snd kv \<noteq> []"
  shows "parse_field B keep strict (encode_pair B kv) = Inr (Some kv)"
proof -
  have "find_char (quotePlus B (fst kv) '''' @ CHR ''='' # quotePlus B (snd kv) '''') CHR ''='' 0
          = Some (length (quotePlus B (fst kv) ''''))"
    using quotePlus_plain [OF assms(1), of "fst kv"]
    by (intro search_char_pieces) (auto simp: list_all_iff plain_query_char_def)
  moreover have "quotePlus B (snd kv) '''' \<noteq> []"
    using unquote_plus [OF assms(1), of "snd kv"] assms by (auto simp: replace_char_def unquote_decode)
  ultimately show ?thesis
    using assms by (simp add: parse_field_def encode_pair_def Let_def boostD [OF assms(1)] unquote_plus)
qed

lemma encode_pair_chars:
  assumes "boost_documented B"
  shows "list_all (\<lambda>c. c \<noteq> CHR ''&'') (encode_pair B kv)" "list_all (\<lambda>c. c \<noteq> CHR '';'') (encode_pair B kv)"
  using quotePlus_plain [OF assms, of "fst kv"] quotePlus_plain [OF assms, of "snd kv"]
  by (auto simp: list_all_iff plain_query_char_def encode_pair_def)

lemma parse_fields_pairs:
  assumes "boost_documented B" "\<forall>kv\<in>set q. snd kv \<noteq> []"
  shows "parse_fields B keep strict (map (encode_pair B) q) = Inr q"
  using assms(2) by (induction q) (simp_all add: parse_encode_pair [OF assms(1)])

lemma urlEncode_pairs: "boost_documented B \<Longrightarrow> urlEncode B q = join_with ''&'' (map (encode_pair B) q)"
  by (simp add: urlEncode_def boostD encode_pair_def [abs_def] case_prod_unfold)

lemma parseQSL_urlEncode_raw:
  assumes B: "boost_documented B" and q: "\<forall>kv\<in>set q. snd kv \<noteq> []"
  shows "parseQSL B (urlEncode B q) keep False = Inr q"
proof (cases "q = []")
  case True
  then show ?thesis
    by (simp add: parseQSL_def urlEncode_pairs [OF B] boostD [OF B] parse_field_def)
next
  case False
  have amp: "pieces (\<lambda>c. c = CHR ''&'') (join_with ''&'' (map (encode_pair B) q)) = map (encode_pair B) q"
    using False encode_pair_chars(1) [OF B] by (intro pieces_join) auto
  have semi: "concat (map (\<lambda>v. pieces (\<lambda>c. c = CHR '';'') v) (map (encode_pair B) q)) = map (encode_pair B) q"
    using encode_pair_chars(2) [OF B] by (induction q) (simp_all add: pieces_none)
  show ?thesis
    using amp semi parse_fields_pairs [OF B q] by (simp add: parseQSL_def urlEncode_pairs [OF B] boostD [OF B])
qed

end
