(* ===== verification/Url_Props.thy ===== *)
theory Url_Props
  imports Url_Coding
begin

text \<open>
  The properties of the URL functions: percent encoding and query strings are undone by
  their inverses, \<open>urlSplit\<close> undoes \<open>urlUnsplit\<close> on well-formed URLs, and the path that
  \<open>urlJoin\<close> computes is in normal form.
\<close>

section \<open>Splitting what was put together\<close>

lemma find_char_none: "c \<notin> set s \<Longrightarrow> find_char s c 0 = None"
  using search_char [of c s]
  by (cases "search [c] s") (auto simp: find_char_def find_from_def dest: nth_mem)

lemma find_char_first: "c \<notin> set s \<Longrightarrow> find_char (s @ c # t) c 0 = Some (length s)"
  by (rule search_char_pieces) (auto simp: list_all_iff)

lemma find_char_after: "c \<notin> set s \<Longrightarrow> find_char (s @ t) c 0 = map_option (\<lambda>k. length s + k) (find_char t c 0)"
proof -
  assume s: "c \<notin> set s"
  show ?thesis
  proof (cases "search [c] t")
    case None
    then have "c \<notin> set (s @ t)" using s search_char_None by simp
    then show ?thesis using None by (simp add: find_char_none find_char_def [of t] find_from_def)
  next
    case (Some k)
    then have k: "k < length t" "t ! k = c" "c \<notin> set (take k t)"
      using search_char [OF Some] by simp_all
    then have "t = take k t @ c # drop (Suc k) t" by (metis id_take_nth_drop)
    then have "find_char (s @ t) c 0 = find_char ((s @ take k t) @ c # drop (Suc k) t) c 0" by simp
    also have "\<dots> = Some (length s + k)" using s k by (subst find_char_first) auto
    finally show ?thesis using Some by (simp add: find_char_def find_from_def)
  qed
qed

lemma find_char_shift: "find_char (u @ s) c (length u) = map_option (\<lambda>k. length u + k) (find_char s c 0)"
  by (simp add: find_char_def find_from_def option.map_comp comp_def)

lemma cut_at_simps:
  "c \<notin> set s \<Longrightarrow> cut_at s c = (s, '''')"
  "c \<notin> set s \<Longrightarrow> cut_at (s @ c # t) c = (s, t)"
  by (simp_all add: cut_at_def find_char_none find_char_first)

definition netloc_char :: "char \<Rightarrow> bool" where
  "netloc_char c \<longleftrightarrow> c \<notin> set ''/?#''"

lemma splitNetloc_exact:
  assumes n: "list_all netloc_char n" and rest: "rest = [] \<or> \<not> netloc_char (hd rest)"
  shows "splitNetloc (''//'' @ n @ rest) 2 = (n, rest)"
proof -
  define url where "url = ''//'' @ n @ rest"
  have find: "find_char url c 2 = map_option (\<lambda>k. 2 + length n + k) (find_char rest c 0)"
    if "c \<in> set ''/?#''" for c
  proof -
    have "c \<notin> set n" using n that by (auto simp: list_all_iff netloc_char_def)
    then show ?thesis
      using find_char_shift [of "''//''" "n @ rest" c]
      by (simp add: url_def find_char_after option.map_comp comp_def numeral_2_eq_2)
  qed
  have url: "length url = 2 + length n + length rest" "drop (2 + length n) url = rest"
    "take (length n) (drop 2 url) = n"
    by (simp_all add: url_def)
  have delim: "foldl (\<lambda>d c. case find_char url c 2 of None \<Rightarrow> d | Some w \<Rightarrow> min d w)
          (length url) [CHR ''/'', CHR ''?'', CHR ''#''] = 2 + length n"
  proof (cases rest)
    case Nil
    then show ?thesis using find url(1) by (simp add: find_char_none)
  next
    case (Cons c t)
    then have c: "c = CHR ''/'' \<or> c = CHR ''?'' \<or> c = CHR ''#''" using rest by (simp add: netloc_char_def)
    have "find_char rest c 0 = Some 0" using Cons find_char_first [of c "[]" t] by simp
    with c find url(1) show ?thesis by (elim disjE) (auto split: option.split)
  qed
  show ?thesis unfolding splitNetloc_def Let_def url_def [symmetric] delim using url by simp
qed

definition brackets_match :: "string \<Rightarrow> bool" where
  "brackets_match n \<longleftrightarrow> (CHR ''['' \<in> set n \<longleftrightarrow> CHR '']'' \<in> set n)"

lemma find_char_iff: "find_char s c 0 = None \<longleftrightarrow> c \<notin> set s"
  using find_char_none [of c s] search_char_None [of c s]
  by (auto simp: find_char_def find_from_def)

text \<open>
  A URL in its parts: a lower-case scheme, a non-empty network location without delimiters
  and with matching brackets, an absolute or empty path, and the delimiters only where
  they separate.
\<close>

definition well_formed_url :: "url_split_result \<Rightarrow> bool" where
  "well_formed_url d \<longleftrightarrow>
     us_scheme d \<noteq> [] \<and> list_all (\<lambda>c. c \<in> set schemeChars) (us_scheme d) \<and>
     map tolower (us_scheme d) = us_scheme d \<and>
     us_netloc d \<noteq> [] \<and> list_all netloc_char (us_netloc d) \<and> brackets_match (us_netloc d) \<and>
     (us_path d = [] \<or> hd (us_path d) = CHR ''/'') \<and>
     CHR ''?'' \<notin> set (us_path d) \<and> CHR ''#'' \<notin> set (us_path d) \<and> CHR ''#'' \<notin> set (us_query d)"

lemma schemeChars_no_colon: "CHR '':'' \<notin> set schemeChars"
  by (simp add: schemeChars_def)

definition url_tail :: "url_split_result \<Rightarrow> string" where
  "url_tail d = us_path d @ (if us_query d \<noteq> [] then CHR ''?'' # us_query d else []) @
     (if us_fragment d \<noteq> [] then CHR ''#'' # us_fragment d else [])"

lemma urlUnsplit_form:
  assumes "well_formed_url d"
  shows "urlUnsplit B d = us_scheme d @ '':'' @ ''//'' @ us_netloc d @ url_tail d"
  using assms by (auto simp: urlUnsplit_def Let_def well_formed_url_def url_tail_def)

lemma split_rest_form:
  assumes B: "boost_documented B" and d: "well_formed_url d"
  shows "split_rest B (us_scheme d) (''//'' @ us_netloc d @ url_tail d) True = Inr d"
proof -
  have "url_tail d = [] \<or> \<not> netloc_char (hd (url_tail d))"
    using d by (auto simp: url_tail_def well_formed_url_def netloc_char_def hd_append)
  then have net: "splitNetloc (''//'' @ us_netloc d @ url_tail d) 2 = (us_netloc d, url_tail d)"
    using d by (intro splitNetloc_exact) (simp_all add: well_formed_url_def)
  have frag: "cut_at (url_tail d) CHR ''#''
      = (us_path d @ (if us_query d \<noteq> [] then CHR ''?'' # us_query d else []), us_fragment d)"
    using d cut_at_simps [of "CHR ''#''" "us_path d @ (if us_query d \<noteq> [] then CHR ''?'' # us_query d else [])"]
    by (auto simp: url_tail_def well_formed_url_def)
  have query: "cut_at (us_path d @ (if us_query d \<noteq> [] then CHR ''?'' # us_query d else [])) CHR ''?''
      = (us_path d, us_query d)"
    using d by (auto simp: cut_at_simps well_formed_url_def)
  show ?thesis
    using d net frag query
    by (simp add: split_rest_def Let_def boostD [OF B] find_char_iff well_formed_url_def brackets_match_def)
qed

text \<open>C34: A URL put together by \<open>urlUnsplit\<close> is taken apart by \<open>urlSplit\<close> into the same parts,
  whatever the case-insensitive comparison of the scheme with \<open>http\<close> answers.\<close>

theorem urlSplit_urlUnsplit:
  assumes "boost_documented B" and "well_formed_url d"
  shows "urlSplit B (urlUnsplit B d) '''' True = Inr d"
proof -
  let ?rest = "''//'' @ us_netloc d @ url_tail d"
  have "CHR '':'' \<notin> set (us_scheme d)"
    using assms(2) schemeChars_no_colon by (auto simp: well_formed_url_def list_all_iff)
  then have "find_char (us_scheme d @ CHR '':'' # ?rest) CHR '':'' 0 = Some (length (us_scheme d))"
    by (rule find_char_first)
  then show ?thesis
    using split_rest_form [OF assms] assms(2)
    by (simp add: urlSplit_def urlUnsplit_form Let_def boostD [OF assms(1)] well_formed_url_def)
qed

lemma urlSplit_urlUnsplit_witness:
  "urlSplit boost_ref (urlUnsplit boost_ref \<lparr> us_scheme = ''wss'', us_netloc = ''example.com:8443'',
      us_path = ''/chat'', us_query = ''room=1'', us_fragment = '''' \<rparr>) '''' True
   = Inr \<lparr> us_scheme = ''wss'', us_netloc = ''example.com:8443'',
      us_path = ''/chat'', us_query = ''room=1'', us_fragment = '''' \<rparr>"
  by (rule urlSplit_urlUnsplit [OF boost_ref_documented])
     (simp add: well_formed_url_def schemeChars_def tolower_def netloc_char_def brackets_match_def)

section \<open>Percent encoding\<close>

text \<open>\<open>unquote\<close> undoes \<open>quote\<close> for every set of safe characters without the percent sign.\<close>

lemma unquote_quote:
  assumes "boost_documented B" and "CHR ''%'' \<notin> set safe"
  shows "unquote B (quote B s safe) = s"
  by (rule unquote_quote_raw [OF assms])

lemma unquote_quote_witness:
  "unquote boost_ref (quote boost_ref ''a b/100%'' ''/'') = ''a b/100%'' \<and>
   quote boost_ref ''a b/100%'' ''/'' = ''a%20b/100%25''"
proof -
  have "unquote boost_ref (quote boost_ref ''a b/100%'' ''/'') = ''a b/100%''"
    by (rule unquote_quote [OF boost_ref_documented]) simp
  moreover have "quote boost_ref ''a b/100%'' ''/'' = ''a%20b/100%25''"
    by (simp add: quote_chars [OF boost_ref_documented] quote_char_def safeMap_def alwaysSafe_def hex_digit_def)
  ultimately show ?thesis by simp
qed

text \<open>\<open>unquote\<close>, which splits at the percent signs and joins the pieces again, equals a decoder
  that reads the string once from left to right and leaves malformed escapes as they are.\<close>

theorem unquote_one_pass:
  assumes "boost_documented B"
  shows "unquote B s = decode_percent s"
  by (rule unquote_decode [OF assms])

lemma unquote_one_pass_witness: "unquote boost_ref ''%41%4%zz%2'' = decode_percent ''%41%4%zz%2''"
  by (rule unquote_one_pass [OF boost_ref_documented])

text \<open>\<open>parseQSL\<close> reads back the names and values that \<open>urlEncode\<close> wrote, in order, with any
  characters in them, provided no value is empty (empty values are dropped by default).\<close>

lemma parseQSL_urlEncode:
  assumes "boost_documented B" and "\<forall>kv\<in>set query. snd kv \<noteq> []"
  shows "parseQSL B (urlEncode B query) keepBlankValues False = Inr query"
  by (rule parseQSL_urlEncode_raw [OF assms])

lemma parseQSL_urlEncode_witness:
  "parseQSL boost_ref (urlEncode boost_ref [(''q'', ''a&b=c d+e''), (''q'', ''2'')]) False False
     = Inr [(''q'', ''a&b=c d+e''), (''q'', ''2'')]"
  by (rule parseQSL_urlEncode [OF boost_ref_documented]) simp

section \<open>Relative references\<close>

lemma remove_updirs_done: "List.find (updir_at (remove_updirs p)) [1..<length (remove_updirs p) - 1] = None"
proof (induction p rule: remove_updirs.induct)
  case (1 p)
  then show ?case
    by (cases "List.find (updir_at p) [1..<length p - 1]") (simp_all add: remove_updirs.simps [of p])
qed

lemma remove_updirs_subset: "set (remove_updirs p) \<subseteq> set p"
proof (induction p rule: remove_updirs.induct)
  case (1 p)
  then show ?case
    by (cases "List.find (updir_at p) [1..<length p - 1]")
       (auto simp: remove_updirs.simps [of p] dest: in_set_takeD in_set_dropD)
qed

text \<open>The path that \<open>urlJoin\<close> computes for a relative reference has no single-dot segment and no
  directory followed by a double-dot segment, the last segment apart.\<close>

theorem join_segments_normal:
  shows "''.'' \<notin> set (join_segments bpathSplit pathSplit) \<and>
     (\<forall>i. 0 < i \<and> i < length (join_segments bpathSplit pathSplit) - 1 \<longrightarrow>
        \<not> updir_at (join_segments bpathSplit pathSplit) i)"
proof -
  define s3 where "s3 = remove_updirs (filter (\<lambda>p. p \<noteq> ''.'')
     (if last (butlast bpathSplit @ pathSplit) = ''.''
      then butlast (butlast bpathSplit @ pathSplit) @ [''''] else butlast bpathSplit @ pathSplit))"
  have dots: "''.'' \<notin> set s3"
    using remove_updirs_subset by (fastforce simp: s3_def)
  have updirs: "\<not> updir_at s3 i" if "0 < i" "i < length s3 - 1" for i
  proof -
    have "List.find (updir_at s3) [1..<length s3 - 1] = None"
      unfolding s3_def by (rule remove_updirs_done)
    with that show ?thesis by (auto simp: find_None_iff)
  qed
  have join: "join_segments bpathSplit pathSplit =
     (if length s3 = 2 \<and> s3 ! 0 = '''' \<and> s3 ! 1 = ''..'' then ['''', '''']
      else if length s3 > 2 \<and> last s3 = ''..'' then butlast (butlast s3) @ ['''']
      else s3)"
    by (simp add: join_segments_def Let_def s3_def)
  show ?thesis
  proof (cases "length s3 > 2 \<and> last s3 = ''..''")
    case True
    let ?t = "butlast (butlast s3) @ ['''']"
    have "updir_at ?t i \<longleftrightarrow> updir_at s3 i" if "0 < i" "i < length ?t - 1" for i
      using that by (simp add: updir_at_def nth_append nth_butlast)
    moreover have "''.'' \<notin> set ?t" using dots by (auto dest: in_set_butlastD)
    ultimately show ?thesis using True updirs join by auto
  next
    case False
    then show ?thesis using dots updirs join by auto
  qed
qed

lemma join_segments_normal_witness:
  "join_segments ['''', ''a'', ''b''] [''..'', ''.'', ''c'', ''d''] = ['''', ''c'', ''d''] \<and>
   \<not> updir_at ['''', ''c'', ''d''] 1"
proof -
  have j: "join_segments ['''', ''a'', ''b''] [''..'', ''.'', ''c'', ''d''] = ['''', ''c'', ''d'']"
    by code_simp
  show ?thesis
    using join_segments_normal [of "['''', ''a'', ''b'']" "[''..'', ''.'', ''c'', ''d'']"] j by simp
qed

section \<open>What the getters return\<close>

text \<open>
  The host name of a bracketed address keeps the closing bracket, and the password of a
  location with a user and no password is the user.
\<close>

lemma ipv6_host_keeps_bracket:
  assumes "boost_documented B"
  shows "netloc_hostName B ''[::1]:80'' = Some ''::1]''"
proof -
  have "after_user ''[::1]:80'' = ''[::1]:80''"
    and "find_char ''[::1]:80'' CHR ''['' 0 = Some 0" and "find_char ''[::1]:80'' CHR '']'' 0 = Some 4"
    by code_simp+
  then show ?thesis by (simp add: netloc_hostName_def boostD [OF assms] tolower_def)
qed

lemma password_of_user_only: "netloc_password ''bob@example.com'' = Some ''bob''"
  by code_simp

end
