(* ===== verification/Ws_Pmce.thy ===== *)
theory Ws_Pmce
  imports Ws_State Url_Parse "HOL-Library.List_Lexorder" "HOL-Library.Char_ord"
begin

text \<open>
  Extension negotiation and per-message compression: \<open>parseExtensionsHeader\<close> of
  \<open>plugins/websocket/protocol.cpp\<close>, and \<open>plugins/websocket/compress.h\<close>, \<open>compress.cpp\<close>.

  \<open>WebSocketExtensionParams\<close> is a \<open>std::map\<close> and is iterated in key order: an association
  list sorted by key. The pointers to offers and responses are down-cast in the
  constructors of the accept objects; \<open>None\<close> is a pointer that is null or of another class. The
  compressor and decompressor objects (\<open>CompressObj\<close>, \<open>DecompressObj\<close>, wrappers of
  zlib) are the parameter \<open>zlib_ops\<close>.
\<close>

section \<open>The extensions header\<close>

type_synonym ext_params = "(string \<times> string option list) list"
type_synonym ext_list = "(string \<times> ext_params) list"

text \<open>\<open>params[key].emplace_back(value)\<close>.\<close>

fun add_param :: "string \<Rightarrow> string option \<Rightarrow> ext_params \<Rightarrow> ext_params" where
  "add_param k v [] = [(k, [v])]"
| "add_param k v ((k', vs) # ps) =
     (if k = k' then (k', vs @ [v]) # ps
      else if k < k' then (k, [v]) # (k', vs) # ps
      else (k', vs) # add_param k v ps)"

definition remove_quotes :: "string \<Rightarrow> string" where
  "remove_quotes value =
     (let v = (if value \<noteq> [] \<and> hd value = CHR 0x22 then tl value else value) in
      if v \<noteq> [] \<and> last v = CHR 0x22 then butlast v else v)"

definition parse_param :: "boost_str \<Rightarrow> bool \<Rightarrow> string \<Rightarrow> string \<times> string option" where
  "parse_param B removeQuotes part =
     (let p = map (boost_trim B) (split_char B (boost_trim B part) CHR ''='' True);
          value = (if length p > 1
                   then Some (let v = boost_join B (tl p) ''='' in
                              if removeQuotes then remove_quotes v else v)
                   else None) in
      (boost_to_lower B (hd p), value))"

definition parse_extension :: "boost_str \<Rightarrow> bool \<Rightarrow> string \<Rightarrow> string \<times> ext_params" where
  "parse_extension B removeQuotes e =
     (let ext = split_char B e CHR '';'' True in
      (boost_to_lower B (boost_trim B (hd ext)),
       foldl (\<lambda>params part. case parse_param B removeQuotes part of (k, v) \<Rightarrow> add_param k v params)
         [] (tl ext)))"

definition parseExtensionsHeader :: "boost_str \<Rightarrow> string \<Rightarrow> bool \<Rightarrow> ext_list" where
  "parseExtensionsHeader B header removeQuotes =
     map (parse_extension B removeQuotes)
       (filter (\<lambda>e. e \<noteq> []) (map (boost_trim B) (split_char B header CHR '','' True)))"

section \<open>Offers, responses and what is accepted\<close>

definition EXTENSION_NAME :: string where
  "EXTENSION_NAME = ''permessage-deflate''"

definition WINDOW_SIZE_PERMISSIBLE_VALUES :: "int list" where
  "WINDOW_SIZE_PERMISSIBLE_VALUES = [8, 9, 10, 11, 12, 13, 14, 15]"

definition MEM_LEVEL_PERMISSIBLE_VALUES :: "int list" where
  "MEM_LEVEL_PERMISSIBLE_VALUES = [1, 2, 3, 4, 5, 6, 7, 8, 9]"

text \<open>\<open>TypeCast\<close> of a \<open>bool\<close>.\<close>

definition bool_string :: "bool \<Rightarrow> string" where
  "bool_string b = (if b then ''true'' else ''false'')"

record pmd_offer =
  of_acceptNoContextTakeover :: bool
  of_acceptMaxWindowBits :: bool
  of_requestNoContextTakeover :: bool
  of_requestMaxWindowBits :: int

record pmd_offer_accept =
  oa_offer :: pmd_offer
  oa_requestNoContextTakeover :: bool
  oa_requestMaxWindowBits :: int
  oa_noContextTakeover :: "bool option"
  oa_windowBits :: "int option"
  oa_memLevel :: "int option"
  oa_maxMessageSize :: "nat option"

record pmd_response =
  re_clientMaxWindowBits :: int
  re_clientNoContextTakeover :: bool
  re_serverMaxWindowBits :: int
  re_serverNoContextTakeover :: bool

record pmd_response_accept =
  ra_response :: pmd_response
  ra_noContextTakeover :: "bool option"
  ra_windowBits :: "int option"
  ra_memLevel :: "int option"
  ra_maxMessageSize :: "nat option"

definition offer_getExtensionString :: "pmd_offer \<Rightarrow> string" where
  "offer_getExtensionString f =
     EXTENSION_NAME
     @ (if of_acceptNoContextTakeover f then ''; client_no_context_takeover'' else [])
     @ (if of_acceptMaxWindowBits f then ''; client_max_window_bits'' else [])
     @ (if of_requestNoContextTakeover f then ''; server_no_context_takeover'' else [])
     @ (if of_requestMaxWindowBits f \<noteq> 0
        then ''; server_max_window_bits='' @ int_string (of_requestMaxWindowBits f) else [])"

definition accept_getExtensionString :: "pmd_offer_accept \<Rightarrow> string" where
  "accept_getExtensionString a =
     EXTENSION_NAME
     @ (if of_requestNoContextTakeover (oa_offer a) then ''; server_no_context_takeover'' else [])
     @ (if of_requestMaxWindowBits (oa_offer a) \<noteq> 0
        then ''; server_max_window_bits='' @ int_string (of_requestMaxWindowBits (oa_offer a)) else [])
     @ (if oa_requestNoContextTakeover a then ''; client_no_context_takeover'' else [])
     @ (if oa_requestMaxWindowBits a \<noteq> 0
        then ''; client_max_window_bits='' @ int_string (oa_requestMaxWindowBits a) else [])"

text \<open>A sequence of checks, the first that fails throws.\<close>

fun checks :: "(bool \<times> string) list \<Rightarrow> 'a \<Rightarrow> lib_error + 'a" where
  "checks [] x = Inr x"
| "checks ((bad, msg) # cs) x = (if bad then Inl (GeneralException msg) else checks cs x)"

definition newOfferAccept ::
  "pmd_offer option \<Rightarrow> bool \<Rightarrow> int \<Rightarrow> bool option \<Rightarrow> int option \<Rightarrow> int option \<Rightarrow> nat option
     \<Rightarrow> lib_error + pmd_offer_accept" where
  "newOfferAccept offer requestNoContextTakeover requestMaxWindowBits noContextTakeover windowBits
     memLevel maxMessageSize =
     (case offer of
        None \<Rightarrow> Inl (GeneralException ''Invalid type for offer'')
      | Some f \<Rightarrow> checks [
          (requestNoContextTakeover \<and> \<not> of_acceptNoContextTakeover f,
             ''invalid value '' @ bool_string requestNoContextTakeover
             @ '' for request_no_context_takeover - feature unsupported by client''),
          (requestMaxWindowBits \<noteq> 0 \<and> requestMaxWindowBits \<notin> set WINDOW_SIZE_PERMISSIBLE_VALUES,
             ''invalid value '' @ int_string requestMaxWindowBits @ '' for request_max_window_bits''),
          (requestMaxWindowBits \<noteq> 0 \<and> \<not> of_acceptMaxWindowBits f,
             ''invalid value '' @ int_string requestMaxWindowBits
             @ '' for request_max_window_bits - feature unsupported by client''),
          (noContextTakeover = Some False \<and> of_requestNoContextTakeover f,
             ''invalid value false for no_context_takeover - client requested feature''),
          (case windowBits of None \<Rightarrow> False | Some w \<Rightarrow> w \<notin> set WINDOW_SIZE_PERMISSIBLE_VALUES,
             ''invalid value '' @ int_string (the windowBits) @ '' for window_bits''),
          (case windowBits of None \<Rightarrow> False
             | Some w \<Rightarrow> of_requestMaxWindowBits f \<noteq> 0 \<and> w > of_requestMaxWindowBits f,
             ''invalid value '' @ int_string (the windowBits)
             @ '' for window_bits - client requested lower maximum value''),
          (case memLevel of None \<Rightarrow> False | Some m \<Rightarrow> m \<notin> set MEM_LEVEL_PERMISSIBLE_VALUES,
             ''invalid value '' @ int_string (the memLevel) @ '' for mem_level'')]
          \<lparr> oa_offer = f, oa_requestNoContextTakeover = requestNoContextTakeover,
            oa_requestMaxWindowBits = requestMaxWindowBits, oa_noContextTakeover = noContextTakeover,
            oa_windowBits = windowBits, oa_memLevel = memLevel, oa_maxMessageSize = maxMessageSize \<rparr>)"

definition newResponseAccept ::
  "pmd_response option \<Rightarrow> bool option \<Rightarrow> int option \<Rightarrow> int option \<Rightarrow> nat option
     \<Rightarrow> lib_error + pmd_response_accept" where
  "newResponseAccept response noContextTakeover windowBits memLevel maxMessageSize =
     (case response of
        None \<Rightarrow> Inl (GeneralException ''Invalid type for response'')
      | Some r \<Rightarrow> checks [
          (noContextTakeover = Some False \<and> re_clientNoContextTakeover r,
             ''invalid value false for no_context_takeover - server requested feature''),
          (case windowBits of None \<Rightarrow> False | Some w \<Rightarrow> w \<notin> set WINDOW_SIZE_PERMISSIBLE_VALUES,
             ''invalid value '' @ int_string (the windowBits) @ '' for window_bits''),
          (case windowBits of None \<Rightarrow> False
             | Some w \<Rightarrow> re_clientMaxWindowBits r \<noteq> 0 \<and> w > re_clientMaxWindowBits r,
             ''invalid value '' @ int_string (the windowBits)
             @ '' for window_bits - server requested lower maximum value''),
          (case memLevel of None \<Rightarrow> False | Some m \<Rightarrow> m \<notin> set MEM_LEVEL_PERMISSIBLE_VALUES,
             ''invalid value '' @ int_string (the memLevel) @ '' for mem_level'')]
          \<lparr> ra_response = r, ra_noContextTakeover = noContextTakeover, ra_windowBits = windowBits,
            ra_memLevel = memLevel, ra_maxMessageSize = maxMessageSize \<rparr>)"

section \<open>Reading the parameters\<close>

definition quoted :: "string \<Rightarrow> string" where
  "quoted s = CHR 0x27 # s @ [CHR 0x27]"

definition illegal_value :: "string \<Rightarrow> string \<Rightarrow> lib_error + 'a" where
  "illegal_value v p = Inl (GeneralException (''illegal extension parameter value '' @ quoted v
     @ '' for parameter '' @ quoted p @ '' of extension '' @ quoted EXTENSION_NAME))"

text \<open>A window size that parses and is permissible.\<close>

definition window_bits :: "string \<Rightarrow> string \<Rightarrow> lib_error + int" where
  "window_bits v p =
     (case stoi v of
        None \<Rightarrow> illegal_value v p
      | Some value \<Rightarrow>
          if value \<notin> set WINDOW_SIZE_PERMISSIBLE_VALUES then illegal_value v p else Inr value)"

fun params_loop :: "(string \<times> string option \<Rightarrow> 'a \<Rightarrow> lib_error + 'a) \<Rightarrow> ext_params \<Rightarrow> 'a \<Rightarrow> lib_error + 'a" where
  "params_loop f [] x = Inr x"
| "params_loop f ((p, vs) # ps) x =
     (if length vs > 1
      then Inl (GeneralException (''multiple occurrence of extension parameter '' @ quoted p
                  @ '' for extension '' @ quoted EXTENSION_NAME))
      else (case f (p, hd vs) x of Inl e \<Rightarrow> Inl e | Inr y \<Rightarrow> params_loop f ps y))"

definition offer_param :: "string \<times> string option \<Rightarrow> pmd_offer \<Rightarrow> lib_error + pmd_offer" where
  "offer_param pv f = (case pv of (p, val) \<Rightarrow>
     if p = ''client_max_window_bits'' then
       (case val of
          None \<Rightarrow> Inr (f\<lparr> of_acceptMaxWindowBits := True \<rparr>)
        | Some v \<Rightarrow> (case window_bits v p of
              Inl e \<Rightarrow> Inl e | Inr _ \<Rightarrow> Inr (f\<lparr> of_acceptMaxWindowBits := True \<rparr>)))
     else if p = ''client_no_context_takeover'' then
       (case val of
          None \<Rightarrow> Inr (f\<lparr> of_acceptNoContextTakeover := True \<rparr>) | Some v \<Rightarrow> illegal_value v p)
     else if p = ''server_max_window_bits'' then
       (case val of
          None \<Rightarrow> illegal_value '''' p
        | Some v \<Rightarrow> (case window_bits v p of
              Inl e \<Rightarrow> Inl e | Inr value \<Rightarrow> Inr (f\<lparr> of_requestMaxWindowBits := value \<rparr>)))
     else if p = ''server_no_context_takeover'' then
       (case val of
          None \<Rightarrow> Inr (f\<lparr> of_requestNoContextTakeover := True \<rparr>) | Some v \<Rightarrow> illegal_value v p)
     else Inl (GeneralException (''illegal extension parameter '' @ quoted p
                 @ '' for extension '' @ quoted EXTENSION_NAME)))"

definition createOfferFromParams :: "ext_params \<Rightarrow> lib_error + pmd_offer" where
  "createOfferFromParams params =
     params_loop offer_param params
       \<lparr> of_acceptNoContextTakeover = True, of_acceptMaxWindowBits = False,
         of_requestNoContextTakeover = False, of_requestMaxWindowBits = 0 \<rparr>"

definition response_param :: "string \<times> string option \<Rightarrow> pmd_response \<Rightarrow> lib_error + pmd_response" where
  "response_param pv r = (case pv of (p, val) \<Rightarrow>
     if p = ''client_max_window_bits'' then
       (case val of
          None \<Rightarrow> illegal_value '''' p
        | Some v \<Rightarrow> (case window_bits v p of
              Inl e \<Rightarrow> Inl e | Inr value \<Rightarrow> Inr (r\<lparr> re_clientMaxWindowBits := value \<rparr>)))
     else if p = ''client_no_context_takeover'' then
       (case val of
          None \<Rightarrow> Inr (r\<lparr> re_clientNoContextTakeover := True \<rparr>) | Some v \<Rightarrow> illegal_value v p)
     else if p = ''server_max_window_bits'' then
       (case val of
          None \<Rightarrow> illegal_value '''' p
        | Some v \<Rightarrow> (case window_bits v p of
              Inl e \<Rightarrow> Inl e | Inr value \<Rightarrow> Inr (r\<lparr> re_serverMaxWindowBits := value \<rparr>)))
     else if p = ''server_no_context_takeover'' then
       (case val of
          None \<Rightarrow> Inr (r\<lparr> re_serverNoContextTakeover := True \<rparr>) | Some v \<Rightarrow> illegal_value v p)
     else Inl (GeneralException (''illegal extension parameter '' @ quoted p
                 @ '' for extension '' @ quoted EXTENSION_NAME)))"

definition createResponseFromParams :: "ext_params \<Rightarrow> lib_error + pmd_response" where
  "createResponseFromParams params =
     params_loop response_param params
       \<lparr> re_clientMaxWindowBits = 0, re_clientNoContextTakeover = False,
         re_serverMaxWindowBits = 0, re_serverNoContextTakeover = False \<rparr>"

section \<open>The compressor of a connection\<close>

text \<open>
  A \<open>CompressObj\<close> \<open>'z\<close> is made for a window size and a memory level (the level, the method and
  the sign that asks for raw deflate are fixed), a \<open>DecompressObj\<close> \<open>'d\<close> for a window size;
  an output bound of \<open>0\<close> is none.
\<close>

record ('z, 'd) zlib_ops =
  z_new :: "int \<Rightarrow> int \<Rightarrow> string + 'z"
  z_compress :: "bytes \<Rightarrow> (string, 'z, bytes) prog"
  z_sync_flush :: "(string, 'z, bytes) prog"
  z_new_inflate :: "int \<Rightarrow> string + 'd"
  z_decompress :: "bytes \<Rightarrow> nat \<Rightarrow> (string, 'd, bytes) prog"

record ('z, 'd) pmd =
  pd_isServer :: bool
  pd_serverNoContextTakeover :: bool
  pd_clientNoContextTakeover :: bool
  pd_serverMaxWindowBits :: int
  pd_clientMaxWindowBits :: int
  pd_memLevel :: int
  pd_maxMessageSize :: "nat option"
  pd_compressor :: "'z option"
  pd_decompressor :: "'d option"

definition DEFAULT_WINDOW_BITS :: int where "DEFAULT_WINDOW_BITS = 15"
definition DEFAULT_MEM_LEVEL :: int where "DEFAULT_MEM_LEVEL = 8"

definition newPerMessageDeflate ::
  "bool \<Rightarrow> bool \<Rightarrow> bool \<Rightarrow> int \<Rightarrow> int \<Rightarrow> int option \<Rightarrow> nat option \<Rightarrow> ('z, 'd) pmd" where
  "newPerMessageDeflate isServer sNo cNo sBits cBits memLevel maxMessageSize = \<lparr>
     pd_isServer = isServer, pd_serverNoContextTakeover = sNo, pd_clientNoContextTakeover = cNo,
     pd_serverMaxWindowBits = (if sBits \<noteq> 0 then sBits else DEFAULT_WINDOW_BITS),
     pd_clientMaxWindowBits = (if cBits \<noteq> 0 then cBits else DEFAULT_WINDOW_BITS),
     pd_memLevel = (case memLevel of None \<Rightarrow> DEFAULT_MEM_LEVEL
                      | Some m \<Rightarrow> if m \<noteq> 0 then m else DEFAULT_MEM_LEVEL),
     pd_maxMessageSize = maxMessageSize, pd_compressor = None, pd_decompressor = None \<rparr>"

definition createFromOfferAccept :: "bool \<Rightarrow> pmd_offer_accept \<Rightarrow> ('z, 'd) pmd" where
  "createFromOfferAccept isServer a =
     newPerMessageDeflate isServer
       (case oa_noContextTakeover a of Some b \<Rightarrow> b | None \<Rightarrow> of_requestNoContextTakeover (oa_offer a))
       (oa_requestNoContextTakeover a)
       (case oa_windowBits a of Some w \<Rightarrow> w | None \<Rightarrow> of_requestMaxWindowBits (oa_offer a))
       (oa_requestMaxWindowBits a)
       (oa_memLevel a) (oa_maxMessageSize a)"

definition createFromResponseAccept :: "bool \<Rightarrow> pmd_response_accept \<Rightarrow> ('z, 'd) pmd" where
  "createFromResponseAccept isServer a =
     newPerMessageDeflate isServer
       (re_serverNoContextTakeover (ra_response a))
       (case ra_noContextTakeover a of Some b \<Rightarrow> b | None \<Rightarrow> re_clientNoContextTakeover (ra_response a))
       (re_serverMaxWindowBits (ra_response a))
       (case ra_windowBits a of Some w \<Rightarrow> w | None \<Rightarrow> re_clientMaxWindowBits (ra_response a))
       (ra_memLevel a) (ra_maxMessageSize a)"

text \<open>A call through one of the two owning pointers; a null pointer has no defined behaviour.\<close>

definition null_pointer :: string where
  "null_pointer = ''null pointer''"

definition compressorM :: "(string, 'z, 'a) prog \<Rightarrow> (string, ('z, 'd) pmd, 'a) prog" where
  "compressorM m = (\<lambda>p. case pd_compressor p of
      None \<Rightarrow> (Inl null_pointer, p)
    | Some z \<Rightarrow> (case m z of (r, z') \<Rightarrow> (r, p\<lparr> pd_compressor := Some z' \<rparr>)))"

definition decompressorM :: "(string, 'd, 'a) prog \<Rightarrow> (string, ('z, 'd) pmd, 'a) prog" where
  "decompressorM m = (\<lambda>p. case pd_decompressor p of
      None \<Rightarrow> (Inl null_pointer, p)
    | Some d \<Rightarrow> (case m d of (r, d') \<Rightarrow> (r, p\<lparr> pd_decompressor := Some d' \<rparr>)))"

definition startCompressMessage :: "('z, 'd) zlib_ops \<Rightarrow> (string, ('z, 'd) pmd, unit) prog" where
  "startCompressMessage Z = withM (\<lambda>p.
     let (renew, bits) =
           (if pd_isServer p then (pd_serverNoContextTakeover p, pd_serverMaxWindowBits p)
            else (pd_clientNoContextTakeover p, pd_clientMaxWindowBits p)) in
     whenM (pd_compressor p = None \<or> renew)
       (case z_new Z bits (pd_memLevel p) of
          Inl e \<Rightarrow> throwM e | Inr z \<Rightarrow> modifyM (\<lambda>p. p\<lparr> pd_compressor := Some z \<rparr>)))"

definition compressMessageData :: "('z, 'd) zlib_ops \<Rightarrow> bytes \<Rightarrow> (string, ('z, 'd) pmd, bytes) prog" where
  "compressMessageData Z data = compressorM (z_compress Z data)"

text \<open>
  \<open>data.erase(std::prev(data.end(), std::max(4, data.size())), data.end())\<close>: with fewer than four
  octets the iterator is before the beginning, which has no defined behaviour.
\<close>

definition erase_before_begin :: string where
  "erase_before_begin = ''erase before the beginning''"

definition endCompressMessage :: "('z, 'd) zlib_ops \<Rightarrow> (string, ('z, 'd) pmd, bytes) prog" where
  "endCompressMessage Z =
     bindM (compressorM (z_sync_flush Z)) (\<lambda>data.
       let n = max 4 (length data) in
       if length data < n then throwM erase_before_begin else returnM (take (length data - n) data))"

definition startDecompressMessage :: "('z, 'd) zlib_ops \<Rightarrow> (string, ('z, 'd) pmd, unit) prog" where
  "startDecompressMessage Z = withM (\<lambda>p.
     let (renew, bits) =
           (if pd_isServer p then (pd_clientNoContextTakeover p, pd_clientMaxWindowBits p)
            else (pd_serverNoContextTakeover p, pd_serverMaxWindowBits p)) in
     whenM (pd_decompressor p = None \<or> renew)
       (case z_new_inflate Z bits of
          Inl e \<Rightarrow> throwM e | Inr d \<Rightarrow> modifyM (\<lambda>p. p\<lparr> pd_decompressor := Some d \<rparr>)))"

definition decompressMessageData :: "('z, 'd) zlib_ops \<Rightarrow> bytes \<Rightarrow> (string, ('z, 'd) pmd, bytes) prog" where
  "decompressMessageData Z data = withM (\<lambda>p. case pd_maxMessageSize p of
      Some n \<Rightarrow> decompressorM (z_decompress Z data n)
    | None \<Rightarrow> decompressorM (z_decompress Z data 0))"

definition endDecompressMessage :: "('z, 'd) zlib_ops \<Rightarrow> (string, ('z, 'd) pmd, unit) prog" where
  "endDecompressMessage Z =
     bindM (decompressorM (z_decompress Z [0x00, 0x00, 0xff, 0xff] 0)) (\<lambda>_. returnM ())"

text \<open>The methods as the protocol calls them.\<close>

definition pmd_ops :: "('z, 'd) zlib_ops \<Rightarrow> ('z, 'd) pmd pmce_ops" where
  "pmd_ops Z = \<lparr>
     pm_getExtensionName = EXTENSION_NAME,
     pm_startCompressMessage = startCompressMessage Z,
     pm_compressMessageData = compressMessageData Z,
     pm_endCompressMessage = endCompressMessage Z,
     pm_startDecompressMessage = startDecompressMessage Z,
     pm_decompressMessageData = decompressMessageData Z,
     pm_endDecompressMessage = endDecompressMessage Z \<rparr>"

section \<open>Both ends\<close>

text \<open>
  What two ends of a connection must agree on for each direction: the receiver's window is at
  least the sender's, and the receiver starts afresh for a message only if the sender does.
\<close>

definition stream_compatible :: "bool \<Rightarrow> int \<Rightarrow> bool \<Rightarrow> int \<Rightarrow> bool" where
  "stream_compatible send_renew send_bits recv_renew recv_bits \<longleftrightarrow>
     send_bits \<le> recv_bits \<and> (recv_renew \<longrightarrow> send_renew)"

definition pmd_compatible :: "('z, 'd) pmd \<Rightarrow> ('y, 'e) pmd \<Rightarrow> bool" where
  "pmd_compatible server client \<longleftrightarrow>
     stream_compatible (pd_serverNoContextTakeover server) (pd_serverMaxWindowBits server)
       (pd_serverNoContextTakeover client) (pd_serverMaxWindowBits client) \<and>
     stream_compatible (pd_clientNoContextTakeover client) (pd_clientMaxWindowBits client)
       (pd_clientNoContextTakeover server) (pd_clientMaxWindowBits server)"

end
