(* ===== verification/Ws_Negotiation.thy ===== *)
theory Ws_Negotiation
  imports Ws_Pmce Ws_Send Url_Coding
begin

text \<open>
  The negotiation of \<open>permessage-deflate\<close> from end to end: what one side writes into the
  extensions header is what the other side reads, and the compressor that the server makes
  from the offer it accepts fits the one the client makes from the response.
\<close>

section \<open>Reading a rendered header\<close>

definition render :: "string \<Rightarrow> string list \<Rightarrow> string" where
  "render name toks = name @ concat (map (\<lambda>t. ''; '' @ t) toks)"

text \<open>A token: no separators, no space at either end.\<close>

definition plain_token :: "string \<Rightarrow> bool" where
  "plain_token t \<longleftrightarrow>
     t \<noteq> [] \<and> list_all (\<lambda>c. c \<noteq> CHR '','' \<and> c \<noteq> CHR '';'') t \<and> \<not> is_space (hd t) \<and> \<not> is_space (last t)"

lemma trim_plain:
  assumes "boost_documented B" "t \<noteq> []" "\<not> is_space (hd t)" "\<not> is_space (last t)"
  shows "boost_trim B t = t" "boost_trim B (CHR '' '' # t) = t"
proof -
  have "dropWhile is_space t = t" and "dropWhile is_space (rev t) = rev t"
    using assms(2-4) by (cases t, simp_all add: hd_rev dropWhile_eq_self_iff)
  then show "boost_trim B t = t" "boost_trim B (CHR '' '' # t) = t"
    by (simp_all add: boostD [OF assms(1)] is_space_def)
qed

lemma trim_token:
  "boost_documented B \<Longrightarrow> plain_token t \<Longrightarrow> boost_trim B t = t"
  "boost_documented B \<Longrightarrow> plain_token t \<Longrightarrow> boost_trim B (CHR '' '' # t) = t"
  by (simp_all add: trim_plain plain_token_def)

lemma render_pieces:
  assumes "plain_token name" "list_all plain_token toks"
  shows "pieces (\<lambda>c. c = CHR '';'') (render name toks) = name # map (\<lambda>t. CHR '' '' # t) toks"
  using assms
proof (induction toks arbitrary: name)
  case Nil
  then have "pieces (\<lambda>c. c = CHR '';'') name = [name]"
    by (intro pieces_none) (auto simp: plain_token_def list_all_iff)
  then show ?case by (simp add: render_def)
next
  case (Cons t toks)
  let ?p = "\<lambda>c. c = CHR '';''"
  have "pieces ?p (render name (t # toks)) = pieces ?p (name @ CHR '';'' # (CHR '' '' # render t toks))"
    by (simp add: render_def)
  also have "\<dots> = name # pieces ?p (CHR '' '' # render t toks)"
    using Cons.prems(1) by (subst pieces_append) (auto simp: plain_token_def list_all_iff)
  also have "pieces ?p (CHR '' '' # render t toks) = (CHR '' '' # t) # map (\<lambda>t. CHR '' '' # t) toks"
    using Cons.IH [of t] Cons.prems(2) by (subst pieces_Cons(2)) simp_all
  finally show ?case by simp
qed

lemma render_plain:
  assumes "plain_token name" "list_all plain_token toks"
  shows "list_all (\<lambda>c. c \<noteq> CHR '','') (render name toks)" "render name toks \<noteq> []"
    "\<not> is_space (hd (render name toks))" "\<not> is_space (last (render name toks))"
proof -
  show "list_all (\<lambda>c. c \<noteq> CHR '','') (render name toks)" "render name toks \<noteq> []"
    "\<not> is_space (hd (render name toks))"
    using assms by (auto simp: render_def plain_token_def list_all_iff)
  show "\<not> is_space (last (render name toks))"
    using assms
  proof (induction toks arbitrary: name)
    case (Cons t toks)
    have "last (render name (t # toks)) = last (render t toks)"
      using Cons.prems by (simp add: render_def plain_token_def)
    then show ?case using Cons by simp
  qed (simp add: render_def plain_token_def)
qed

lemma parse_rendered:
  assumes B: "boost_documented B" and r: "plain_token name" "list_all plain_token toks"
  shows "parseExtensionsHeader B (render name toks) q =
     [(map tolower name,
       foldl (\<lambda>params t. case parse_param B q t of (k, v) \<Rightarrow> add_param k v params) [] toks)]"
proof -
  have "foldl (\<lambda>params part. case parse_param B q part of (k, v) \<Rightarrow> add_param k v params) acc
          (map (\<lambda>t. CHR '' '' # t) toks)
      = foldl (\<lambda>params t. case parse_param B q t of (k, v) \<Rightarrow> add_param k v params) acc toks" for acc
    using r(2) by (induction toks arbitrary: acc) (simp_all add: parse_param_def trim_token [OF B])
  then show ?thesis
    using render_plain [OF r]
    by (simp add: parseExtensionsHeader_def boostD(1) [OF B] pieces_none trim_plain [OF B]
        parse_extension_def render_pieces [OF r] trim_token [OF B r(1)] boostD(3) [OF B])
qed

text \<open>The two shapes of a token.\<close>

definition plain_key :: "string \<Rightarrow> bool" where
  "plain_key t \<longleftrightarrow> plain_token t \<and> CHR ''='' \<notin> set t \<and> map tolower t = t"

lemma parse_flag:
  assumes "boost_documented B" "plain_key k"
  shows "parse_param B q k = (k, None)"
proof -
  have "pieces (\<lambda>c. c = CHR ''='') k = [k]"
    using assms(2) by (intro pieces_none) (auto simp: plain_key_def list_all_iff)
  then show ?thesis
    using assms by (simp add: parse_param_def plain_key_def trim_token boostD(1,3) [OF assms(1)])
qed

lemma parse_setting:
  assumes "boost_documented B" "plain_key k" "plain_key v"
  shows "parse_param B q (k @ ''='' @ v) = (k, Some (if q then remove_quotes v else v))"
proof -
  have "pieces (\<lambda>c. c = CHR ''='') (k @ ''='' @ v) = [k, v]"
  proof -
    have "list_all (\<lambda>c. c \<noteq> CHR ''='') k" "list_all (\<lambda>c. c \<noteq> CHR ''='') v"
      using assms(2,3) by (auto simp: plain_key_def list_all_iff)
    then show ?thesis by (simp add: pieces_append pieces_none)
  qed
  moreover have "boost_trim B (k @ ''='' @ v) = k @ ''='' @ v"
    using assms by (intro trim_plain) (auto simp: plain_key_def plain_token_def)
  ultimately show ?thesis
    using assms
    by (simp add: parse_param_def plain_key_def trim_token boostD(1,2,3) [OF assms(1)])
qed

section \<open>The parameters of the two strings\<close>

abbreviation "client_bits \<equiv> ''client_max_window_bits''"
abbreviation "client_fresh \<equiv> ''client_no_context_takeover''"
abbreviation "server_bits \<equiv> ''server_max_window_bits''"
abbreviation "server_fresh \<equiv> ''server_no_context_takeover''"

lemma key_order:
  "client_bits < client_fresh" "client_bits < server_bits" "client_bits < server_fresh"
  "client_fresh < server_bits" "client_fresh < server_fresh" "server_bits < server_fresh"
  "\<not> client_fresh < client_bits" "\<not> server_bits < client_bits" "\<not> server_fresh < client_bits"
  "\<not> server_bits < client_fresh" "\<not> server_fresh < client_fresh" "\<not> server_fresh < server_bits"
  by code_simp+

lemma plain_keys:
  "plain_key client_bits" "plain_key client_fresh" "plain_key server_bits" "plain_key server_fresh"
  by (simp_all add: plain_key_def plain_token_def is_space_def tolower_def)

lemma permissible_cases:
  assumes "w \<in> set WINDOW_SIZE_PERMISSIBLE_VALUES"
  shows "plain_key (int_string w)" "remove_quotes (int_string w) = int_string w" "stoi (int_string w) = Some w"
proof -
  have "\<forall>w\<in>set WINDOW_SIZE_PERMISSIBLE_VALUES. plain_key (int_string w) \<and>
          remove_quotes (int_string w) = int_string w \<and> stoi (int_string w) = Some w"
    by code_simp
  with assms show "plain_key (int_string w)" "remove_quotes (int_string w) = int_string w"
    "stoi (int_string w) = Some w" by blast+
qed

definition setting :: "string \<Rightarrow> int \<Rightarrow> string" where
  "setting k w = k @ ''='' @ int_string w"

lemma parse_window:
  assumes "boost_documented B" "plain_key k" "w \<in> set WINDOW_SIZE_PERMISSIBLE_VALUES"
  shows "parse_param B q (setting k w) = (k, Some (int_string w))"
  using parse_setting [OF assms(1,2) permissible_cases(1) [OF assms(3)], of q]
    permissible_cases(2) [OF assms(3)]
  by (simp add: setting_def)

lemma plain_setting:
  assumes "plain_key k" "w \<in> set WINDOW_SIZE_PERMISSIBLE_VALUES"
  shows "plain_token (setting k w)"
  using assms permissible_cases(1) [OF assms(2)]
  by (auto simp: setting_def plain_key_def plain_token_def)

lemma window_bits_permissible:
  "w \<in> set WINDOW_SIZE_PERMISSIBLE_VALUES \<Longrightarrow> window_bits (int_string w) k = Inr w"
  by (simp add: window_bits_def permissible_cases)

lemma plain_name: "plain_token EXTENSION_NAME" "map tolower EXTENSION_NAME = EXTENSION_NAME"
  by (simp_all add: EXTENSION_NAME_def plain_token_def is_space_def tolower_def)

definition bits_ok :: "int \<Rightarrow> bool" where
  "bits_ok w \<longleftrightarrow> w = 0 \<or> w \<in> set WINDOW_SIZE_PERMISSIBLE_VALUES"

text \<open>The four parameters in key order, each present or not.\<close>

definition shown :: "bool \<Rightarrow> string \<Rightarrow> string option \<Rightarrow> ext_params" where
  "shown b k v = (if b then [(k, [v])] else [])"

lemma offer_params:
  assumes B: "boost_documented B" and w: "bits_ok (of_requestMaxWindowBits f)"
  shows "parseExtensionsHeader B (offer_getExtensionString f) q = [(EXTENSION_NAME,
     shown (of_acceptMaxWindowBits f) client_bits None @
     shown (of_acceptNoContextTakeover f) client_fresh None @
     shown (of_requestMaxWindowBits f \<noteq> 0) server_bits (Some (int_string (of_requestMaxWindowBits f))) @
     shown (of_requestNoContextTakeover f) server_fresh None)]"
proof -
  let ?toks = "(if of_acceptNoContextTakeover f then [client_fresh] else []) @
     (if of_acceptMaxWindowBits f then [client_bits] else []) @
     (if of_requestNoContextTakeover f then [server_fresh] else []) @
     (if of_requestMaxWindowBits f \<noteq> 0 then [setting server_bits (of_requestMaxWindowBits f)] else [])"
  have "offer_getExtensionString f = render EXTENSION_NAME ?toks"
    by (simp add: offer_getExtensionString_def render_def setting_def)
  moreover have "list_all plain_token ?toks"
    using plain_keys w by (auto simp: plain_key_def bits_ok_def plain_setting [OF plain_keys(3)])
  ultimately have "parseExtensionsHeader B (offer_getExtensionString f) q = [(EXTENSION_NAME,
      foldl (\<lambda>params t. case parse_param B q t of (k, v) \<Rightarrow> add_param k v params) [] ?toks)]"
    by (simp add: parse_rendered [OF B plain_name(1)] plain_name(2))
  moreover have "foldl (\<lambda>params t. case parse_param B q t of (k, v) \<Rightarrow> add_param k v params) [] ?toks =
     shown (of_acceptMaxWindowBits f) client_bits None @
     shown (of_acceptNoContextTakeover f) client_fresh None @
     shown (of_requestMaxWindowBits f \<noteq> 0) server_bits (Some (int_string (of_requestMaxWindowBits f))) @
     shown (of_requestNoContextTakeover f) server_fresh None"
    using w unfolding bits_ok_def
    by (auto simp: shown_def key_order parse_flag [OF B plain_keys(1)] parse_flag [OF B plain_keys(2)]
        parse_flag [OF B plain_keys(4)] parse_window [OF B plain_keys(3)])
  ultimately show ?thesis by simp
qed

lemma accept_params:
  assumes B: "boost_documented B" and w: "bits_ok (of_requestMaxWindowBits (oa_offer a))"
    and u: "bits_ok (oa_requestMaxWindowBits a)"
  shows "parseExtensionsHeader B (accept_getExtensionString a) q = [(EXTENSION_NAME,
     shown (oa_requestMaxWindowBits a \<noteq> 0) client_bits (Some (int_string (oa_requestMaxWindowBits a))) @
     shown (oa_requestNoContextTakeover a) client_fresh None @
     shown (of_requestMaxWindowBits (oa_offer a) \<noteq> 0) server_bits
       (Some (int_string (of_requestMaxWindowBits (oa_offer a)))) @
     shown (of_requestNoContextTakeover (oa_offer a)) server_fresh None)]"
proof -
  let ?toks = "(if of_requestNoContextTakeover (oa_offer a) then [server_fresh] else []) @
     (if of_requestMaxWindowBits (oa_offer a) \<noteq> 0
      then [setting server_bits (of_requestMaxWindowBits (oa_offer a))] else []) @
     (if oa_requestNoContextTakeover a then [client_fresh] else []) @
     (if oa_requestMaxWindowBits a \<noteq> 0 then [setting client_bits (oa_requestMaxWindowBits a)] else [])"
  have "accept_getExtensionString a = render EXTENSION_NAME ?toks"
    by (simp add: accept_getExtensionString_def render_def setting_def)
  moreover have "list_all plain_token ?toks"
    using plain_keys w u
    by (auto simp: plain_key_def bits_ok_def plain_setting [OF plain_keys(3)] plain_setting [OF plain_keys(1)])
  ultimately have "parseExtensionsHeader B (accept_getExtensionString a) q = [(EXTENSION_NAME,
      foldl (\<lambda>params t. case parse_param B q t of (k, v) \<Rightarrow> add_param k v params) [] ?toks)]"
    by (simp add: parse_rendered [OF B plain_name(1)] plain_name(2))
  moreover have "foldl (\<lambda>params t. case parse_param B q t of (k, v) \<Rightarrow> add_param k v params) [] ?toks =
     shown (oa_requestMaxWindowBits a \<noteq> 0) client_bits (Some (int_string (oa_requestMaxWindowBits a))) @
     shown (oa_requestNoContextTakeover a) client_fresh None @
     shown (of_requestMaxWindowBits (oa_offer a) \<noteq> 0) server_bits
       (Some (int_string (of_requestMaxWindowBits (oa_offer a)))) @
     shown (of_requestNoContextTakeover (oa_offer a)) server_fresh None"
    using w u unfolding bits_ok_def
    by (auto simp: shown_def key_order parse_flag [OF B plain_keys(2)] parse_flag [OF B plain_keys(4)]
        parse_window [OF B plain_keys(3)] parse_window [OF B plain_keys(1)])
  ultimately show ?thesis by simp
qed

text \<open>What the other side makes of them.\<close>

lemma offer_read:
  assumes "bits_ok (of_requestMaxWindowBits f)"
  shows "createOfferFromParams
     (shown (of_acceptMaxWindowBits f) client_bits None @
      shown (of_acceptNoContextTakeover f) client_fresh None @
      shown (of_requestMaxWindowBits f \<noteq> 0) server_bits (Some (int_string (of_requestMaxWindowBits f))) @
      shown (of_requestNoContextTakeover f) server_fresh None)
   = Inr (f\<lparr> of_acceptNoContextTakeover := True \<rparr>)"
  using assms
  by (cases f) (auto simp: createOfferFromParams_def shown_def offer_param_def bits_ok_def window_bits_permissible)

lemma response_read:
  assumes "bits_ok w" "bits_ok u"
  shows "createResponseFromParams
     (shown (u \<noteq> 0) client_bits (Some (int_string u)) @ shown c client_fresh None @
      shown (w \<noteq> 0) server_bits (Some (int_string w)) @ shown s server_fresh None)
   = Inr \<lparr> re_clientMaxWindowBits = u, re_clientNoContextTakeover = c,
           re_serverMaxWindowBits = w, re_serverNoContextTakeover = s \<rparr>"
  using assms
  by (auto simp: createResponseFromParams_def shown_def response_param_def bits_ok_def window_bits_permissible)

section \<open>Properties\<close>

definition read_offer :: "boost_str \<Rightarrow> string \<Rightarrow> lib_error + pmd_offer" where
  "read_offer B header = createOfferFromParams (snd (hd (parseExtensionsHeader B header True)))"

definition read_response :: "boost_str \<Rightarrow> string \<Rightarrow> lib_error + pmd_response" where
  "read_response B header = createResponseFromParams (snd (hd (parseExtensionsHeader B header True)))"

text \<open>An offer written into the extensions header is the offer the server reads, except that
  the server always takes the client to accept the absence of context takeover.\<close>

lemma offer_roundtrip:
  assumes "boost_documented B" and "bits_ok (of_requestMaxWindowBits f)"
  shows "read_offer B (offer_getExtensionString f) = Inr (f\<lparr> of_acceptNoContextTakeover := True \<rparr>)"
  by (simp add: read_offer_def offer_params [OF assms] offer_read [OF assms(2)])

lemma checks_Inr: "checks cs x = Inr y \<longleftrightarrow> y = x \<and> list_all (\<lambda>c. \<not> fst c) cs"
  by (induction cs) (auto split: prod.splits if_splits)

lemma offer_accept_bounds:
  assumes "newOfferAccept (Some f) rn rb n w m mx = Inr a" "bits_ok (of_requestMaxWindowBits f)"
  shows "oa_offer a = f \<and> bits_ok (oa_requestMaxWindowBits a) \<and>
     (of_requestNoContextTakeover f \<longrightarrow> oa_noContextTakeover a \<noteq> Some False) \<and>
     (case oa_windowBits a of None \<Rightarrow> True
      | Some v \<Rightarrow> v \<in> set WINDOW_SIZE_PERMISSIBLE_VALUES \<and>
          (of_requestMaxWindowBits f = 0 \<or> v \<le> of_requestMaxWindowBits f))"
  using assms unfolding newOfferAccept_def option.case checks_Inr
  by (auto simp: bits_ok_def split: option.splits)

lemma response_accept_bounds:
  assumes "newResponseAccept (Some r) n w m mx = Inr a"
  shows "ra_response a = r \<and>
     (re_clientNoContextTakeover r \<longrightarrow> ra_noContextTakeover a \<noteq> Some False) \<and>
     (case ra_windowBits a of None \<Rightarrow> True
      | Some v \<Rightarrow> v \<in> set WINDOW_SIZE_PERMISSIBLE_VALUES \<and>
          (re_clientMaxWindowBits r = 0 \<or> v \<le> re_clientMaxWindowBits r))"
  using assms unfolding newResponseAccept_def option.case checks_Inr
  by (auto split: option.splits)

lemma permissible_bounds: "v \<in> set WINDOW_SIZE_PERMISSIBLE_VALUES \<Longrightarrow> 8 \<le> v \<and> v \<le> 15 \<and> v \<noteq> 0"
  by (auto simp: WINDOW_SIZE_PERMISSIBLE_VALUES_def)

definition or_default :: "int \<Rightarrow> int" where
  "or_default w = (if w \<noteq> 0 then w else DEFAULT_WINDOW_BITS)"

lemma chosen_window:
  assumes "case v of None \<Rightarrow> True | Some u \<Rightarrow> u \<in> set WINDOW_SIZE_PERMISSIBLE_VALUES \<and> (w = 0 \<or> u \<le> w)"
  shows "or_default (case v of Some u \<Rightarrow> u | None \<Rightarrow> w) \<le> or_default w"
  using assms by (cases v) (auto simp: or_default_def DEFAULT_WINDOW_BITS_def dest: permissible_bounds)

lemma chosen_renewal:
  assumes "b \<longrightarrow> v \<noteq> Some False"
  shows "b \<longrightarrow> (case v of Some c \<Rightarrow> c | None \<Rightarrow> b)"
  using assms by (cases v) auto

text \<open>C8: Whatever offer the client makes and whatever the server accepts of it, the compressor of
  the server and the one the client makes from the server's answer fit: in both directions the
  receiver's window is at least the sender's, and the receiver forgets its context only if
  the sender does.\<close>

theorem negotiation_compatible:
  assumes "boost_documented B" and "bits_ok (of_requestMaxWindowBits offer)"
    and "read_offer B (offer_getExtensionString offer) = Inr offer'"
    and "newOfferAccept (Some offer') rn rb n w m mx = Inr accept"
    and "read_response B (accept_getExtensionString accept) = Inr response"
    and "newResponseAccept (Some response) n' w' m' mx' = Inr accept'"
  shows "pmd_compatible (createFromOfferAccept True accept) (createFromResponseAccept False accept')"
proof -
  have f: "offer' = offer\<lparr> of_acceptNoContextTakeover := True \<rparr>"
    using assms(3) offer_roundtrip [OF assms(1,2)] by simp
  with assms(2) have w: "bits_ok (of_requestMaxWindowBits offer')" by simp
  note a = offer_accept_bounds [OF assms(4) w]
  have r: "response = \<lparr> re_clientMaxWindowBits = oa_requestMaxWindowBits accept,
      re_clientNoContextTakeover = oa_requestNoContextTakeover accept,
      re_serverMaxWindowBits = of_requestMaxWindowBits offer',
      re_serverNoContextTakeover = of_requestNoContextTakeover offer' \<rparr>"
    using assms(5) a w accept_params [OF assms(1), of accept True]
      response_read [OF w, of "oa_requestMaxWindowBits accept"]
    by (simp add: read_response_def)
  note b = response_accept_bounds [OF assms(6)]
  have s: "or_default (case oa_windowBits accept of Some u \<Rightarrow> u | None \<Rightarrow> of_requestMaxWindowBits offer')
      \<le> or_default (of_requestMaxWindowBits offer')"
    using a by (intro chosen_window) blast
  have c: "or_default (case ra_windowBits accept' of Some u \<Rightarrow> u | None \<Rightarrow> oa_requestMaxWindowBits accept)
      \<le> or_default (oa_requestMaxWindowBits accept)"
    using b unfolding r pmd_response.select_convs by (intro chosen_window) blast
  have sn: "of_requestNoContextTakeover offer' \<longrightarrow>
      (case oa_noContextTakeover accept of Some c \<Rightarrow> c | None \<Rightarrow> of_requestNoContextTakeover offer')"
    using a by (intro chosen_renewal) blast
  have cn: "oa_requestNoContextTakeover accept \<longrightarrow>
      (case ra_noContextTakeover accept' of Some c \<Rightarrow> c | None \<Rightarrow> oa_requestNoContextTakeover accept)"
    using b unfolding r pmd_response.select_convs by (intro chosen_renewal) blast
  show ?thesis
    using s c sn cn a b
    by (simp only: pmd_compatible_def stream_compatible_def createFromOfferAccept_def
        createFromResponseAccept_def newPerMessageDeflate_def pmd.select_convs r
        pmd_response.select_convs or_default_def [symmetric] simp_thms)
qed

section \<open>Sending a compressed message\<close>

text \<open>What RFC 7692 asks a sender for: all output of the compressor but the four octets that end a flush.\<close>

definition deflated_payload :: "bytes \<Rightarrow> bytes \<Rightarrow> bytes" where
  "deflated_payload compressed flushed = compressed @ take (length flushed - 4) flushed"

lemma pmceM_runs:
  assumes "ws_pmce s = Some p"
  shows "m p = (Inr r, q) \<Longrightarrow> pmceM m s = (Inr r, s\<lparr> ws_pmce := Some q \<rparr>)"
    and "m p = (Inl e, q) \<Longrightarrow> pmceM m s = (Inl (WsException e), s\<lparr> ws_pmce := Some q \<rparr>)"
  using assms by (simp_all add: pmceM_def prog_simps)

lemma compressor_runs:
  assumes "pd_compressor q = Some z"
  shows "z_compress Z data z = (Inr d, y) \<Longrightarrow> compressMessageData Z data q = (Inr d, q\<lparr> pd_compressor := Some y \<rparr>)"
    and "z_sync_flush Z z = (Inr f, x) \<Longrightarrow> endCompressMessage Z q
      = (if length f < 4 then Inl erase_before_begin else Inr [], q\<lparr> pd_compressor := Some x \<rparr>)"
  using assms by (simp_all add: compressMessageData_def endCompressMessage_def compressorM_def prog_simps Let_def)

lemma compress_message_runs:
  assumes "cf_pmce cf = pmd_ops Z" "ws_pmce s = Some p" "startCompressMessage Z p = (Inr (), q)"
    and "pd_compressor q = Some z" "z_compress Z payload z = (Inr compressed, y)" "z_sync_flush Z y = (Inr flushed, x)"
  shows "fst (compress_message cf payload s)
      = (if length flushed < 4 then Inl (WsException erase_before_begin) else Inr compressed)
    \<and> ws_pmce (snd (compress_message cf payload s)) = Some (q\<lparr> pd_compressor := Some x \<rparr>)"
proof -
  let ?s = "\<lambda>c. s\<lparr> ws_stats := ws_stats s\<lparr> ts_outgoingOctetsAppLevel :=
    ts_outgoingOctetsAppLevel (ws_stats s) + length payload \<rparr>, ws_pmce := Some c \<rparr>"
  let ?q = "q\<lparr> pd_compressor := Some y \<rparr>" and ?x = "q\<lparr> pd_compressor := Some x \<rparr>"
  have start: "pmceM (startCompressMessage Z) s = (Inr (), s\<lparr> ws_pmce := Some q \<rparr>)"
    using assms(2,3) by (rule pmceM_runs)
  have data: "pmceM (compressMessageData Z payload) (s\<lparr> ws_pmce := Some q, ws_stats := ws_stats s\<lparr> ts_outgoingOctetsAppLevel :=
    ts_outgoingOctetsAppLevel (ws_stats s) + length payload \<rparr> \<rparr>) = (Inr compressed, ?s ?q)"
    using compressor_runs(1) [OF assms(4,5)] by (simp add: pmceM_runs(1))
  have flush: "endCompressMessage Z ?q = (if length flushed < 4 then Inl erase_before_begin else Inr [], ?x)"
    using compressor_runs(2) [of ?q y Z flushed x] assms(6) by simp
  have finish: "pmceM (endCompressMessage Z) (?s ?q)
    = (if length flushed < 4 then Inl (WsException erase_before_begin) else Inr [], ?s ?x)"
    using flush by (simp add: pmceM_def prog_simps)
  have ops: "pm_startCompressMessage (cf_pmce cf) = startCompressMessage Z"
    "pm_compressMessageData (cf_pmce cf) = compressMessageData Z" "pm_endCompressMessage (cf_pmce cf) = endCompressMessage Z"
    by (simp_all add: assms(1) pmd_ops_def)
  show ?thesis
  proof (cases "length flushed < 4")
    case True
    then have ends: "pmceM (endCompressMessage Z) (?s ?q)
      = (Inl (WsException erase_before_begin), ?s ?x)"
      using finish by simp
    show ?thesis
      unfolding compress_message_def ops using True
      by (simp add: runs bindM_after [where m = "pmceM (startCompressMessage Z)", OF start] statsM_def
        bindM_after [where m = "pmceM (compressMessageData Z payload)", OF data]
        bindM_fails [where m = "pmceM (endCompressMessage Z)", OF ends])
  next
    case False
    then have ends: "pmceM (endCompressMessage Z) (?s ?q)
      = (Inr [], ?s ?x)"
      using finish by simp
    show ?thesis
      unfolding compress_message_def ops using False
      by (simp add: runs bindM_after [where m = "pmceM (startCompressMessage Z)", OF start] statsM_def
        bindM_after [where m = "pmceM (compressMessageData Z payload)", OF data]
        bindM_after [where m = "pmceM (endCompressMessage Z)", OF ends])
  qed
qed

text \<open>
  C36: a compressed message loses what the compressor held back. If compressing the payload returns
  \<open>compressed\<close> and the flush at its end \<open>flushed\<close>, what is put into the frames is \<open>compressed\<close> alone, and the
  compressor goes on as if \<open>flushed\<close> had been sent; this is not the payload of the message as soon as
  \<open>flushed\<close> is longer than the four octets that end a flush. A \<open>flushed\<close> of fewer than four octets is
  erased from before its beginning.
\<close>

theorem compressed_message_loses_flush:
  assumes "cf_pmce cf = pmd_ops Z" "ws_pmce s = Some p" "startCompressMessage Z p = (Inr (), q)"
    and "pd_compressor q = Some z" "z_compress Z payload z = (Inr compressed, y)" "z_sync_flush Z y = (Inr flushed, x)"
  shows "\<exists>t. compress_message cf payload s
        = (if length flushed < 4 then Inl (WsException erase_before_begin) else Inr compressed, t)
      \<and> ws_pmce t = Some (q\<lparr> pd_compressor := Some x \<rparr>)
      \<and> (4 < length flushed \<longrightarrow> compressed \<noteq> deflated_payload compressed flushed)"
  using compress_message_runs [OF assms]
  by (cases "compress_message cf payload s") (auto simp: deflated_payload_def)

section \<open>Witnesses\<close>

abbreviation sample_offer :: pmd_offer where
  "sample_offer \<equiv> \<lparr> of_acceptNoContextTakeover = True, of_acceptMaxWindowBits = True,
     of_requestNoContextTakeover = True, of_requestMaxWindowBits = 12 \<rparr>"

abbreviation sample_accept :: pmd_offer_accept where
  "sample_accept \<equiv> \<lparr> oa_offer = sample_offer, oa_requestNoContextTakeover = False,
     oa_requestMaxWindowBits = 10, oa_noContextTakeover = None, oa_windowBits = Some 11,
     oa_memLevel = None, oa_maxMessageSize = None \<rparr>"

abbreviation sample_response :: pmd_response where
  "sample_response \<equiv> \<lparr> re_clientMaxWindowBits = 10, re_clientNoContextTakeover = False,
     re_serverMaxWindowBits = 12, re_serverNoContextTakeover = True \<rparr>"

abbreviation sample_response_accept :: pmd_response_accept where
  "sample_response_accept \<equiv> \<lparr> ra_response = sample_response, ra_noContextTakeover = Some True,
     ra_windowBits = Some 9, ra_memLevel = None, ra_maxMessageSize = None \<rparr>"

lemma sample_bits: "bits_ok 12"
  by (simp add: bits_ok_def WINDOW_SIZE_PERMISSIBLE_VALUES_def)

lemma offer_roundtrip_witness:
  "read_offer boost_ref (offer_getExtensionString sample_offer) = Inr sample_offer"
  using offer_roundtrip [OF boost_ref_documented, of sample_offer] sample_bits by simp

lemma negotiation_compatible_witness:
  "pmd_compatible (createFromOfferAccept True sample_accept :: (nat, nat) pmd)
     (createFromResponseAccept False sample_response_accept :: (nat, nat) pmd)"
proof (rule negotiation_compatible [OF boost_ref_documented])
  show "bits_ok (of_requestMaxWindowBits sample_offer)" using sample_bits by simp
  show "read_offer boost_ref (offer_getExtensionString sample_offer) = Inr sample_offer"
    by code_simp
  show "newOfferAccept (Some sample_offer) False 10 None (Some 11) None None = Inr sample_accept"
    by (simp add: newOfferAccept_def WINDOW_SIZE_PERMISSIBLE_VALUES_def)
  show "read_response boost_ref (accept_getExtensionString sample_accept) = Inr sample_response"
    by code_simp
  show "newResponseAccept (Some sample_response) (Some True) (Some 9) None None = Inr sample_response_accept"
    by (simp add: newResponseAccept_def WINDOW_SIZE_PERMISSIBLE_VALUES_def)
qed

text \<open>A compressor that holds back all it is given until it is flushed: the message goes out empty.\<close>

definition holding_zlib :: "(bytes, unit) zlib_ops" where
  "holding_zlib = \<lparr> z_new = (\<lambda>bits level. Inr []), z_compress = (\<lambda>data held. (Inr [], held @ data)),
     z_sync_flush = (\<lambda>held. (Inr (held @ [0x00, 0x00, 0xff, 0xff]), [])),
     z_new_inflate = (\<lambda>bits. Inr ()), z_decompress = (\<lambda>data n u. (Inr data, u)) \<rparr>"

lemma compressed_message_loses_flush_witness:
  "\<exists>t. compress_message (server_options (\<lambda>_. 0) (\<lambda>bs. bs) (pmd_ops holding_zlib)) [1, 2, 3]
      ((ws_fresh OPEN)\<lparr> ws_pmce := Some (createFromOfferAccept True sample_accept) \<rparr>) = (Inr [], t)
    \<and> [] \<noteq> deflated_payload [] [1, 2, 3, 0x00, 0x00, 0xff, 0xff]"
proof -
  let ?p = "createFromOfferAccept True sample_accept :: (bytes, unit) pmd"
  have "startCompressMessage holding_zlib ?p = (Inr (), ?p\<lparr> pd_compressor := Some [] \<rparr>)"
    by (simp add: startCompressMessage_def holding_zlib_def prog_simps createFromOfferAccept_def newPerMessageDeflate_def)
  from compressed_message_loses_flush [OF _ _ this, where cf = "server_options (\<lambda>_. 0) (\<lambda>bs. bs) (pmd_ops holding_zlib)"
      and s = "(ws_fresh OPEN)\<lparr> ws_pmce := Some ?p \<rparr>" and payload = "[1, 2, 3]" and z = "[]" and compressed = "[]"
      and y = "[1, 2, 3]" and flushed = "[1, 2, 3, 0x00, 0x00, 0xff, 0xff]" and x = "[]"]
  show ?thesis by (auto simp: holding_zlib_def server_options_def)
qed

end
