(* ===== verification/Ws_Util.thy ===== *)
theory Ws_Util
  imports Ws_Receive Ws_Pmce Url_Parse
begin

text \<open>
  The helpers of the opening handshake: the URL, header and origin functions of
  \<open>plugins/websocket/util.cpp\<close>, the request and response objects of \<open>types.h\<close>, the refusal
  \<open>ConnectionDeny\<close> of \<open>base.h\<close> and \<open>base.cpp\<close> with the status texts of
  \<open>common/httputils/httplib.cpp\<close>, and \<open>StrNStr\<close> of \<open>common/common.cpp\<close>.

  What is not part of the sources is gathered in \<open>hs_env\<close>: Boost.StringAlgo, the match of a
  Boost.Regex, the text \<open>what()\<close> that an exception carries (type, message, place and stack trace)
  and the SHA-1 digest of OpenSSL. A \<open>std::map\<close> that is only looked up is a HOL map, one that is
  iterated is the list of its entries in key order.
\<close>

record hs_env =
  he_boost :: boost_str
  he_ends_with :: "string \<Rightarrow> string \<Rightarrow> bool"
  he_regex_match :: "string \<Rightarrow> string \<Rightarrow> bool"
  he_what :: "lib_error \<Rightarrow> string"
  he_sha1 :: "bytes \<Rightarrow> bytes"

type_synonym header_map = "string \<rightharpoonup> string"
type_synonym header_count = "string \<rightharpoonup> nat"
type_synonym ws_headers = "(string \<times> string list) list"
type_synonym origin = "string \<times> string \<times> nat option"

definition CRLF :: string where "CRLF = [CHR 0x0D, CHR 0x0A]"

text \<open>\<open>StrNStr\<close>: the offset of the first occurrence.\<close>

definition StrNStr :: "'a list \<Rightarrow> 'a list \<Rightarrow> nat option" where
  "StrNStr s1 s2 = (if length s2 > length s1 then None else search s2 s1)"

section \<open>URLs\<close>

record ws_url =
  wu_isSecure :: bool
  wu_host :: string
  wu_port :: nat
  wu_resource :: string
  wu_path :: string
  wu_params :: "string \<rightharpoonup> string list"

definition HTTP_PORT :: nat where "HTTP_PORT = 80"
definition HTTPS_PORT :: nat where "HTTPS_PORT = 443"

definition createUrl ::
  "boost_str \<Rightarrow> string \<Rightarrow> nat \<Rightarrow> bool \<Rightarrow> string \<Rightarrow> (string \<times> string) list \<Rightarrow> string" where
  "createUrl B hostName port isSecure path params =
     (let netloc = (if port \<noteq> 0 then hostName @ '':'' @ to_string port
                    else if isSecure then hostName @ '':443'' else hostName @ '':80'');
          scheme = (if isSecure then ''wss'' else ''ws'');
          ppath = (if path \<noteq> [] then quote B path ''/'' else ''/'');
          query = (if params \<noteq> [] then urlEncode B params else '''') in
      urlUnparse B \<lparr> up_scheme = scheme, up_netloc = netloc, up_path = ppath, up_params = '''',
        up_query = query, up_fragment = '''' \<rparr>)"

definition parseUrl :: "boost_str \<Rightarrow> string \<Rightarrow> lib_error + ws_url" where
  "parseUrl B url =
     (case urlParse B url '''' True of
        Inl e \<Rightarrow> Inl e
      | Inr p \<Rightarrow>
        if up_scheme p \<noteq> ''ws'' \<and> up_scheme p \<noteq> ''wss'' then
          Inl (GeneralException (''invalid WebSocket URL: protocol scheme '' @ quoted (up_scheme p)
                 @ '' is not for WebSocket''))
        else (case parse_getHostName B p of
          None \<Rightarrow> Inl (GeneralException ''invalid WebSocket URL: missing hostname'')
        | Some hostname \<Rightarrow>
          if hostname = [] then Inl (GeneralException ''invalid WebSocket URL: missing hostname'')
          else let port = (case parse_getPort p of
                   Some n \<Rightarrow> n | None \<Rightarrow> if up_scheme p = ''ws'' then HTTP_PORT else HTTPS_PORT) in
            if up_fragment p \<noteq> [] then
              Inl (GeneralException (''invalid WebSocket URL: non-empty fragment '' @ quoted (up_fragment p)))
            else let ppath = (if up_path p \<noteq> [] then up_path p else ''/'');
                     path = (if up_path p \<noteq> [] then unquote B ppath else ppath);
                     answer = (\<lambda>resource params. \<lparr> wu_isSecure = (up_scheme p = ''wss''),
                        wu_host = hostname, wu_port = port, wu_resource = resource, wu_path = path,
                        wu_params = params \<rparr>) in
              if up_query p \<noteq> [] then
                (case parseQS B (up_query p) False False of
                   Inl e \<Rightarrow> Inl e
                 | Inr params \<Rightarrow> Inr (answer (ppath @ ''?'' @ up_query p) params))
              else Inr (answer ppath Map.empty)))"

section \<open>Headers\<close>

text \<open>One header line: added, appended to the value with the same name, or skipped.\<close>

definition add_header ::
  "boost_str \<Rightarrow> header_map \<times> header_count \<Rightarrow> string \<Rightarrow> header_map \<times> header_count" where
  "add_header B hc h =
     (case find_char h CHR '':'' 0 of
        None \<Rightarrow> hc
      | Some j \<Rightarrow>
          let key = boost_to_lower B (boost_trim B (take j h));
              value = boost_trim B (drop (j + 1) h) in
          (case fst hc key of
             Some old \<Rightarrow> ((fst hc)(key \<mapsto> old @ '', '' @ value),
                          (snd hc)(key \<mapsto> (case snd hc key of None \<Rightarrow> 0 | Some n \<Rightarrow> n) + 1))
           | None \<Rightarrow> ((fst hc)(key \<mapsto> value), (snd hc)(key \<mapsto> 1))))"

text \<open>The data given to it ends with an empty line, so there is a first line.\<close>

definition parseHttpHeader :: "boost_str \<Rightarrow> string \<Rightarrow> string \<times> header_map \<times> header_count" where
  "parseHttpHeader B data =
     (let raw = splitLines data False;
          hc = foldl (add_header B) (Map.empty, Map.empty) (tl raw) in
      (boost_trim B (hd raw), fst hc, snd hc))"

definition header_count_of :: "header_count \<Rightarrow> string \<Rightarrow> nat" where
  "header_count_of cnt key = (case cnt key of None \<Rightarrow> 0 | Some n \<Rightarrow> n)"

section \<open>Origins\<close>

definition urlToOrigin :: "boost_str \<Rightarrow> string \<Rightarrow> lib_error + origin" where
  "urlToOrigin B url =
     (if boost_to_lower B url = ''null'' then Inr (''null'', '''', None)
      else (case urlSplit B url '''' True of
        Inl e \<Rightarrow> Inl e
      | Inr res \<Rightarrow>
        let scheme = boost_to_lower B (us_scheme res) in
        if scheme = ''file'' then Inr (''null'', '''', None)
        else let port = (case split_getPort res of
                 Some n \<Rightarrow> Some n
               | None \<Rightarrow> if scheme = ''http'' then Some 80 else if scheme = ''https'' then Some 443 else None) in
          (case split_getHostName B res of
             None \<Rightarrow> Inl (ValueError (''No host part in Origin '' @ quoted url))
           | Some host \<Rightarrow>
               if host = [] then Inl (ValueError (''No host part in Origin '' @ quoted url))
               else Inr (scheme, host, port))))"

definition origin_header :: "origin \<Rightarrow> string" where
  "origin_header org = (case org of (scheme, host, port) \<Rightarrow>
     scheme @ ''://'' @ host @ (case port of None \<Rightarrow> [] | Some p \<Rightarrow> '':'' @ to_string p))"

text \<open>The scheme and port of the server are parameters of the function that it does not use.\<close>

definition isSameOrigin :: "hs_env \<Rightarrow> origin \<Rightarrow> string \<Rightarrow> nat \<Rightarrow> string list \<Rightarrow> bool" where
  "isSameOrigin E webSocketOrigin hostScheme hostPort hostPolicy =
     (if fst webSocketOrigin = ''null'' then False
      else list_ex (he_regex_match E (origin_header webSocketOrigin)) hostPolicy)"

definition wildcardsToPatterns :: "boost_str \<Rightarrow> string list \<Rightarrow> string list" where
  "wildcardsToPatterns B wildcards =
     map (\<lambda>wc. ''^'' @ boost_replace_all B (boost_replace_all B wc ''.'' [CHR 0x5C, CHR ''.'']) ''*'' ''.*'' @ ''$'')
       wildcards"

section \<open>Requests, responses and refusals\<close>

record connection_request =
  cr_peer :: string
  cr_headers :: header_map
  cr_host :: string
  cr_path :: string
  cr_params :: "string \<rightharpoonup> string list"
  cr_version :: int
  cr_origin :: string
  cr_protocols :: "string list"
  cr_extensions :: ext_list

record connection_response =
  cs_peer :: string
  cs_headers :: header_map
  cs_version :: int
  cs_protocol :: string
  cs_extensions :: "string list"

definition HTTP_STATUS_CODES :: "(int \<times> string) list" where
  "HTTP_STATUS_CODES =
     [(100, ''Continue''), (101, ''Switching Protocols''),
      (200, ''OK''), (201, ''Created''), (202, ''Accepted''), (203, ''Non-Authoritative Information''),
      (204, ''No Content''), (205, ''Reset Content''), (206, ''Partial Content''),
      (300, ''Multiple Choices''), (301, ''Moved Permanently''), (302, ''Found''), (303, ''See Other''),
      (304, ''Not Modified''), (305, ''Use Proxy''), (306, ''(Unused)''), (307, ''Temporary Redirect''),
      (400, ''Bad Request''), (401, ''Unauthorized''), (402, ''Payment Required''), (403, ''Forbidden''),
      (404, ''Not Found''), (405, ''Method Not Allowed''), (406, ''Not Acceptable''),
      (407, ''Proxy Authentication Required''), (408, ''Request Timeout''), (409, ''Conflict''),
      (410, ''Gone''), (411, ''Length Required''), (412, ''Precondition Failed''),
      (413, ''Request Entity Too Large''), (414, ''Request-URI Too Long''),
      (415, ''Unsupported Media Type''), (416, ''Requested Range Not Satisfiable''),
      (417, ''Expectation Failed''),
      (500, ''Internal Server Error''), (501, ''Not Implemented''), (502, ''Bad Gateway''),
      (503, ''Service Unavailable''), (504, ''Gateway Timeout''), (505, ''HTTP Version Not Supported'')]"

text \<open>What a call of \<open>onConnect\<close> may throw: a refusal with a code and perhaps a reason, or another exception.\<close>

datatype connect_error = ConnectionDeny int "string option" | OtherError lib_error

definition deny_getReason :: "int \<Rightarrow> string option \<Rightarrow> string" where
  "deny_getReason code reason =
     (case reason of
        Some r \<Rightarrow> r
      | None \<Rightarrow> (case map_of HTTP_STATUS_CODES code of Some r \<Rightarrow> r | None \<Rightarrow> ''Unknown''))"

end
