(* ===== verification/Ws_Factory.thy ===== *)
theory Ws_Factory
  imports Ws_Util
begin

text \<open>
  \<open>WebSocketServerFactory\<close> and \<open>WebSocketClientFactory\<close> of \<open>plugins/websocket/protocol.h\<close> and
  \<open>protocol.cpp\<close>: their members, the session parameters, the default options, and what
  \<open>connectionMade\<close> copies from them into a protocol object. The setters and getters are the
  record's updates and selectors; only those that check something are definitions. A null
  \<open>std::function\<close> is \<open>None\<close>; the log switches are left out.
\<close>

definition NET4CXX_VER :: string where "NET4CXX_VER = ''net4cxx/3.3.3''"

definition SUPPORTED_SPEC_VERSIONS :: "int list" where
  "SUPPORTED_SPEC_VERSIONS = [10, 11, 12, 13, 14, 15, 16, 17, 18]"

definition SUPPORTED_PROTOCOL_VERSIONS :: "int list" where
  "SUPPORTED_PROTOCOL_VERSIONS = [8, 13]"

definition SPEC_TO_PROTOCOL_VERSION :: "(int \<times> int) list" where
  "SPEC_TO_PROTOCOL_VERSION =
     [(10, 8), (11, 8), (12, 8), (13, 13), (14, 13), (15, 13), (16, 13), (17, 13), (18, 13)]"

definition DEFAULT_SPEC_VERSION :: int where "DEFAULT_SPEC_VERSION = 18"

section \<open>The server's factory\<close>

record server_factory =
  sf_trackTimings :: bool
  sf_url :: string
  sf_isSecure :: bool
  sf_host :: string
  sf_port :: nat
  sf_resource :: string
  sf_path :: string
  sf_params :: "string \<rightharpoonup> string list"
  sf_protocols :: "string list"
  sf_server :: string
  sf_headers :: ws_headers
  sf_externalPort :: nat
  sf_versions :: "int list"
  sf_webStatus :: bool
  sf_utf8validateIncoming :: bool
  sf_requireMaskedClientFrames :: bool
  sf_maskServerFrames :: bool
  sf_applyMask :: bool
  sf_maxFramePayloadSize :: nat
  sf_maxMessagePayloadSize :: nat
  sf_autoFragmentSize :: nat
  sf_failByDrop :: bool
  sf_echoCloseCodeReason :: bool
  sf_openHandshakeTimeout :: real
  sf_closeHandshakeTimeout :: real
  sf_tcpNoDelay :: bool
  sf_serveFlashSocketPolicy :: bool
  sf_flashSocketPolicy :: string
  sf_perMessageCompressionAccept :: "(pmd_offer list \<Rightarrow> pmd_offer_accept option) option"
  sf_autoPingInterval :: real
  sf_autoPingTimeout :: real
  sf_autoPingSize :: nat
  sf_allowedOrigins :: "string list"
  sf_allowedOriginsPatterns :: "string list"
  sf_allowNullOrigin :: bool
  sf_maxConnections :: nat
  sf_trustXForwardedFor :: nat

text \<open>The URL given, or the default one; the server's must have no query.\<close>

definition session_url :: "string \<Rightarrow> string" where
  "session_url url = (if url = [] then ''ws://localhost'' else url)"

definition server_setSessionParameters ::
  "boost_str \<Rightarrow> string \<Rightarrow> string list \<Rightarrow> string \<Rightarrow> ws_headers \<Rightarrow> nat \<Rightarrow> server_factory
     \<Rightarrow> lib_error + server_factory" where
  "server_setSessionParameters B url protocols server headers externalPort F =
     (case parseUrl B (session_url url) of
        Inl e \<Rightarrow> Inl e
      | Inr u \<Rightarrow>
        if wu_params u \<noteq> Map.empty
        then Inl (GeneralException ''query parameters specified for server WebSocket URL'')
        else Inr (F\<lparr>
          sf_url := url, sf_isSecure := wu_isSecure u, sf_host := wu_host u, sf_port := wu_port u,
          sf_resource := wu_resource u, sf_path := wu_path u, sf_params := wu_params u,
          sf_protocols := protocols, sf_server := (if server = [] then NET4CXX_VER else server),
          sf_headers := headers,
          sf_externalPort := (if externalPort \<noteq> 0 then externalPort
                              else if url \<noteq> [] then wu_port u else 0) \<rparr>))"

definition default_flash_policy :: string where
  "default_flash_policy =
     ''<cross-domain-policy>'' @ [CHR 0x0A] @
     ''  <allow-access-from domain='' @ [CHR 0x22] @ ''*'' @ [CHR 0x22] @ '' to-ports='' @ [CHR 0x22] @ ''*''
       @ [CHR 0x22] @ '' />'' @ [CHR 0x0A] @ ''</cross-domain-policy>'' @ [CHR 0x00]"

definition server_resetProtocolOptions :: "boost_str \<Rightarrow> server_factory \<Rightarrow> server_factory" where
  "server_resetProtocolOptions B F = F\<lparr>
     sf_versions := SUPPORTED_PROTOCOL_VERSIONS, sf_webStatus := True, sf_utf8validateIncoming := True,
     sf_requireMaskedClientFrames := True, sf_maskServerFrames := False, sf_applyMask := True,
     sf_maxFramePayloadSize := 0, sf_maxMessagePayloadSize := 0, sf_autoFragmentSize := 0,
     sf_failByDrop := True, sf_echoCloseCodeReason := False, sf_openHandshakeTimeout := 5,
     sf_closeHandshakeTimeout := 1, sf_tcpNoDelay := True, sf_serveFlashSocketPolicy := False,
     sf_flashSocketPolicy := default_flash_policy, sf_perMessageCompressionAccept := None,
     sf_autoPingInterval := 0, sf_autoPingTimeout := 0, sf_autoPingSize := 4,
     sf_allowedOrigins := [''*''], sf_allowedOriginsPatterns := wildcardsToPatterns B [''*''],
     sf_allowNullOrigin := True, sf_maxConnections := 0, sf_trustXForwardedFor := 0 \<rparr>"

definition setVersions :: "int list \<Rightarrow> server_factory \<Rightarrow> lib_error + server_factory" where
  "setVersions versions F =
     (case find (\<lambda>v. v \<notin> set SUPPORTED_PROTOCOL_VERSIONS) versions of
        Some v \<Rightarrow> Inl (GeneralException (''invalid WebSocket protocol version '' @ int_string v))
      | None \<Rightarrow> Inr (F\<lparr> sf_versions := versions \<rparr>))"

definition setAllowedOrigins :: "boost_str \<Rightarrow> string list \<Rightarrow> server_factory \<Rightarrow> server_factory" where
  "setAllowedOrigins B allowedOrigins F = F\<lparr>
     sf_allowedOrigins := allowedOrigins,
     sf_allowedOriginsPatterns := wildcardsToPatterns B allowedOrigins \<rparr>"

text \<open>What the protocol object copies in \<open>connectionMade\<close>: the common options and the server's own.\<close>

definition server_protocol_config ::
  "server_factory \<Rightarrow> (nat \<Rightarrow> byte) \<Rightarrow> (bytes \<Rightarrow> bytes) \<Rightarrow> 'c pmce_ops \<Rightarrow> 'c ws_config" where
  "server_protocol_config F rnd b64 pm = \<lparr>
     cf_isServer = True, cf_utf8validateIncoming = sf_utf8validateIncoming F,
     cf_applyMask = sf_applyMask F, cf_maxFramePayloadSize = sf_maxFramePayloadSize F,
     cf_maxMessagePayloadSize = sf_maxMessagePayloadSize F,
     cf_autoFragmentSize = sf_autoFragmentSize F, cf_failByDrop = sf_failByDrop F,
     cf_echoCloseCodeReason = sf_echoCloseCodeReason F,
     cf_openHandshakeTimeout = sf_openHandshakeTimeout F,
     cf_closeHandshakeTimeout = sf_closeHandshakeTimeout F, cf_tcpNoDelay = sf_tcpNoDelay F,
     cf_trackTimings = sf_trackTimings F, cf_autoPingInterval = sf_autoPingInterval F,
     cf_autoPingTimeout = sf_autoPingTimeout F, cf_autoPingSize = sf_autoPingSize F,
     cf_requireMaskedClientFrames = sf_requireMaskedClientFrames F,
     cf_maskServerFrames = sf_maskServerFrames F, cf_acceptMaskedServerFrames = False,
     cf_maskClientFrames = False, cf_serverConnectionDropTimeout = 0,
     cf_random = rnd, cf_base64 = b64, cf_pmce = pm \<rparr>"

record server_copied =
  so_versions :: "int list"
  so_webStatus :: bool
  so_perMessageCompressionAccept :: "(pmd_offer list \<Rightarrow> pmd_offer_accept option) option"
  so_serverFlashSocketPolicy :: bool
  so_flashSocketPolicy :: string
  so_allowedOrigins :: "string list"
  so_allowedOriginsPatterns :: "string list"
  so_allowNullOrigin :: bool
  so_maxConnections :: nat
  so_trustXForwardedFor :: nat

definition server_protocol_options :: "server_factory \<Rightarrow> server_copied" where
  "server_protocol_options F = \<lparr>
     so_versions = sf_versions F, so_webStatus = sf_webStatus F,
     so_perMessageCompressionAccept = sf_perMessageCompressionAccept F,
     so_serverFlashSocketPolicy = sf_serveFlashSocketPolicy F,
     so_flashSocketPolicy = sf_flashSocketPolicy F, so_allowedOrigins = sf_allowedOrigins F,
     so_allowedOriginsPatterns = sf_allowedOriginsPatterns F,
     so_allowNullOrigin = sf_allowNullOrigin F, so_maxConnections = sf_maxConnections F,
     so_trustXForwardedFor = sf_trustXForwardedFor F \<rparr>"

section \<open>The client's factory\<close>

record client_factory =
  cl_trackTimings :: bool
  cl_url :: string
  cl_isSecure :: bool
  cl_host :: string
  cl_port :: nat
  cl_resource :: string
  cl_path :: string
  cl_params :: "string \<rightharpoonup> string list"
  cl_origin :: string
  cl_protocols :: "string list"
  cl_useragent :: string
  cl_headers :: ws_headers
  cl_proxy :: string
  cl_version :: int
  cl_utf8validateIncoming :: bool
  cl_acceptMaskedServerFrames :: bool
  cl_maskClientFrames :: bool
  cl_applyMask :: bool
  cl_maxFramePayloadSize :: nat
  cl_maxMessagePayloadSize :: nat
  cl_autoFragmentSize :: nat
  cl_failByDrop :: bool
  cl_echoCloseCodeReason :: bool
  cl_serverConnectionDropTimeout :: real
  cl_openHandshakeTimeout :: real
  cl_closeHandshakeTimeout :: real
  cl_tcpNoDelay :: bool
  cl_perMessageCompressionOffers :: "pmd_offer list"
  cl_perMessageCompressionAccept :: "(pmd_response \<Rightarrow> pmd_response_accept option) option"
  cl_autoPingInterval :: real
  cl_autoPingTimeout :: real
  cl_autoPingSize :: nat

definition client_setSessionParameters ::
  "boost_str \<Rightarrow> string \<Rightarrow> string \<Rightarrow> string list \<Rightarrow> string \<Rightarrow> ws_headers \<Rightarrow> string \<Rightarrow> client_factory
     \<Rightarrow> lib_error + client_factory" where
  "client_setSessionParameters B url orig protocols useragent headers proxy F =
     (case parseUrl B (session_url url) of
        Inl e \<Rightarrow> Inl e
      | Inr u \<Rightarrow> Inr (F\<lparr>
          cl_url := url, cl_isSecure := wu_isSecure u, cl_host := wu_host u, cl_port := wu_port u,
          cl_resource := wu_resource u, cl_path := wu_path u, cl_params := wu_params u,
          cl_origin := orig, cl_protocols := protocols,
          cl_useragent := (if useragent = [] then NET4CXX_VER else useragent),
          cl_headers := headers, cl_proxy := proxy \<rparr>))"

definition client_resetProtocolOptions :: "client_factory \<Rightarrow> client_factory" where
  "client_resetProtocolOptions F = F\<lparr>
     cl_version := DEFAULT_SPEC_VERSION, cl_utf8validateIncoming := True,
     cl_acceptMaskedServerFrames := False, cl_maskClientFrames := True, cl_applyMask := True,
     cl_maxFramePayloadSize := 0, cl_maxMessagePayloadSize := 0, cl_autoFragmentSize := 0,
     cl_failByDrop := True, cl_echoCloseCodeReason := False, cl_serverConnectionDropTimeout := 1,
     cl_openHandshakeTimeout := 5, cl_closeHandshakeTimeout := 1, cl_tcpNoDelay := True,
     cl_perMessageCompressionOffers := [], cl_perMessageCompressionAccept := None,
     cl_autoPingInterval := 0, cl_autoPingTimeout := 0, cl_autoPingSize := 4 \<rparr>"

definition setVersion :: "int \<Rightarrow> client_factory \<Rightarrow> lib_error + client_factory" where
  "setVersion version F =
     (if version \<notin> set SUPPORTED_SPEC_VERSIONS
      then Inl (GeneralException (''invalid WebSocket draft version '' @ int_string version))
      else Inr (F\<lparr> cl_version := version \<rparr>))"

definition client_protocol_config ::
  "client_factory \<Rightarrow> (nat \<Rightarrow> byte) \<Rightarrow> (bytes \<Rightarrow> bytes) \<Rightarrow> 'c pmce_ops \<Rightarrow> 'c ws_config" where
  "client_protocol_config F rnd b64 pm = \<lparr>
     cf_isServer = False, cf_utf8validateIncoming = cl_utf8validateIncoming F,
     cf_applyMask = cl_applyMask F, cf_maxFramePayloadSize = cl_maxFramePayloadSize F,
     cf_maxMessagePayloadSize = cl_maxMessagePayloadSize F,
     cf_autoFragmentSize = cl_autoFragmentSize F, cf_failByDrop = cl_failByDrop F,
     cf_echoCloseCodeReason = cl_echoCloseCodeReason F,
     cf_openHandshakeTimeout = cl_openHandshakeTimeout F,
     cf_closeHandshakeTimeout = cl_closeHandshakeTimeout F, cf_tcpNoDelay = cl_tcpNoDelay F,
     cf_trackTimings = cl_trackTimings F, cf_autoPingInterval = cl_autoPingInterval F,
     cf_autoPingTimeout = cl_autoPingTimeout F, cf_autoPingSize = cl_autoPingSize F,
     cf_requireMaskedClientFrames = False, cf_maskServerFrames = False,
     cf_acceptMaskedServerFrames = cl_acceptMaskedServerFrames F,
     cf_maskClientFrames = cl_maskClientFrames F,
     cf_serverConnectionDropTimeout = cl_serverConnectionDropTimeout F,
     cf_random = rnd, cf_base64 = b64, cf_pmce = pm \<rparr>"

end
