(* ===== verification/Ws_Server.thy ===== *)
theory Ws_Server
  imports Ws_Factory
begin

text \<open>
  \<open>WebSocketServerProtocol\<close> of \<open>plugins/websocket/protocol.h\<close> and \<open>protocol.cpp\<close>: the opening
  handshake of the server. A stage of \<open>processHandshake\<close> takes what follows it as a
  continuation, so that an early \<open>return\<close> of the source is a branch that does not call it.

  \<open>server_setup\<close> is what is fixed when \<open>connectionMade\<close> has run: the environment, the factory,
  the copied options and \<open>onConnect\<close>, which the application overrides. The factory's count
  of connections is a field of the state. The base64 text of the digest is computed on octets.
\<close>

record ('z, 'd) server_setup =
  ss_env :: hs_env
  ss_factory :: server_factory
  ss_config :: "('z, 'd) pmd ws_config"
  ss_options :: server_copied
  ss_onConnect :: "connection_request \<Rightarrow> connect_error + string \<times> ws_headers"

record 'c ws_server = "'c ws_conn" +
  sv_peer :: string
  sv_httpRequestData :: string
  sv_httpResponseData :: string
  sv_httpStatusLine :: string
  sv_httpHeaders :: header_map
  sv_httpRequestUri :: string
  sv_httpRequestPath :: string
  sv_httpRequestParams :: "string \<rightharpoonup> string list"
  sv_httpRequestHost :: string
  sv_webSocketProtocols :: "string list"
  sv_webSocketOrigin :: string
  sv_webSocketExtensions :: ext_list
  sv_webSocketKey :: string
  sv_webSocketProtocolInUse :: string
  sv_webSocketExtensionsInUse :: "string list"
  sv_countConnections :: nat

text \<open>The member initialisers.\<close>

definition server_initial :: "'c ws_server" where
  "server_initial = ws_conn.extend (ws_fresh CONNECTING)
     (ws_server.fields [] [] [] [] Map.empty [] [] Map.empty [] [] [] [] [] [] [] 0)"

type_synonym ('z, 'd, 'a) srv_prog = "(ws_exn, ('z, 'd) pmd ws_server, 'a) prog"

definition sv_boost :: "('z, 'd) server_setup \<Rightarrow> boost_str" where
  "sv_boost S = he_boost (ss_env S)"

text \<open>\<open>StrUtil::split\<close> with \<open>boost::is_space\<close>.\<close>

definition split_words :: "boost_str \<Rightarrow> string \<Rightarrow> string list" where
  "split_words B s = split_space B is_space s True"

definition WS_MAGIC :: string where
  "WS_MAGIC = ''258EAFA5-E914-47DA-95CA-C5AB0DC85B11''"

section \<open>Answers\<close>

definition sendText :: "string \<Rightarrow> ('z, 'd, unit) srv_prog" where
  "sendText s = sendData (bytes_of_string s) False 0"

definition header_line :: "string \<Rightarrow> string \<Rightarrow> string" where
  "header_line name value = name @ '': '' @ value @ CRLF"

definition http_error_text :: "int \<Rightarrow> string \<Rightarrow> (string \<times> string) list \<Rightarrow> string" where
  "http_error_text code reason responseHeaders =
     ''HTTP/1.1 '' @ int_string code @ '' '' @ reason @ CRLF
       @ concat (map (\<lambda>(n, v). header_line n v) responseHeaders) @ CRLF"

definition sendHttpErrorResponse ::
  "int \<Rightarrow> string \<Rightarrow> (string \<times> string) list \<Rightarrow> ('z, 'd, unit) srv_prog" where
  "sendHttpErrorResponse code reason responseHeaders =
     sendText (http_error_text code reason responseHeaders)"

definition failHandshake ::
  "string \<Rightarrow> int \<Rightarrow> (string \<times> string) list \<Rightarrow> ('z, 'd, unit) srv_prog" where
  "failHandshake reason code responseHeaders = doM [
     modifyM (\<lambda>s. s\<lparr> ws_wasNotCleanReason := Some reason \<rparr>),
     sendHttpErrorResponse code reason responseHeaders,
     dropConnection False]"

text \<open>The call with the default code and no headers.\<close>

definition badRequest :: "string \<Rightarrow> ('z, 'd, unit) srv_prog" where
  "badRequest reason = failHandshake reason 400 []"

definition server_line :: "('z, 'd) server_setup \<Rightarrow> string" where
  "server_line S = (let server = sf_server (ss_factory S) in
     if server \<noteq> [] then header_line ''Server'' server else [])"

definition sendHtml :: "('z, 'd) server_setup \<Rightarrow> string \<Rightarrow> ('z, 'd, unit) srv_prog" where
  "sendHtml S html = doM [
     sendText (''HTTP/1.1 200 OK'' @ CRLF @ server_line S
       @ ''Content-Type: text/html; charset=UTF-8'' @ CRLF
       @ header_line ''Content-Length'' (to_string (length html)) @ CRLF),
     sendText html]"

definition sendRedirect :: "('z, 'd) server_setup \<Rightarrow> string \<Rightarrow> ('z, 'd, unit) srv_prog" where
  "sendRedirect S url =
     sendText (''HTTP/1.1 303 OK'' @ CRLF @ server_line S @ header_line ''Location'' url @ CRLF)"

definition newline :: string where "newline = [CHR 0x0A]"

definition server_status_page :: "string \<Rightarrow> string" where
  "server_status_page redirect =
     ''<!DOCTYPE html>'' @ newline @ ''<html>'' @ newline @ ''    <head>'' @ newline
     @ ''        '' @ redirect @ newline @ ''    </head>'' @ newline @ ''    <body>'' @ newline
     @ ''        <p>'' @ newline
     @ ''            I am not Web server, but a <b>WebSocket Endpoint</b>.'' @ newline
     @ ''        </p>'' @ newline @ ''    </body>'' @ newline @ ''</html>'' @ newline"

definition sendServerStatus :: "('z, 'd) server_setup \<Rightarrow> string \<Rightarrow> int \<Rightarrow> ('z, 'd, unit) srv_prog" where
  "sendServerStatus S redirectUrl redirectAfter =
     sendHtml S (server_status_page
       (if redirectUrl \<noteq> [] then
          ''<meta http-equiv='' @ [CHR 0x22] @ ''refresh'' @ [CHR 0x22] @ '' content='' @ [CHR 0x22]
          @ int_string redirectAfter @ '';URL='' @ quoted redirectUrl @ [CHR 0x22] @ ''>''
        else []))"

section \<open>Stages of \<open>processHandshake\<close>\<close>

text \<open>The peer's address from the proxies that are trusted.\<close>

definition hs_forwarded :: "('z, 'd) server_setup \<Rightarrow> ('z, 'd, unit) srv_prog" where
  "hs_forwarded S = withM (\<lambda>s.
     case sv_httpHeaders s ''x-forwarded-for'' of
       None \<Rightarrow> doM []
     | Some v \<Rightarrow>
         let trust = so_trustXForwardedFor (ss_options S);
             addresses = split_char (sv_boost S) v CHR '','' True in
         whenM (trust \<noteq> 0)
           (modifyM (\<lambda>s. s\<lparr> sv_peer := boost_trim (sv_boost S)
              (if length addresses > trust then addresses ! (length addresses - trust) else hd addresses) \<rparr>)))"

definition hs_request_line ::
  "('z, 'd) server_setup \<Rightarrow> (string \<Rightarrow> ('z, 'd, unit) srv_prog) \<Rightarrow> ('z, 'd, unit) srv_prog" where
  "hs_request_line S next = withM (\<lambda>s.
     let B = sv_boost S; rl = split_words B (sv_httpStatusLine s) in
     if length rl \<noteq> 3 then
       badRequest (''Bad HTTP request status line '' @ quoted (sv_httpStatusLine s))
     else if boost_trim B (rl ! 0) \<noteq> ''GET'' then
       failHandshake (''HTTP method '' @ quoted (rl ! 0) @ '' not allowed'') 405 []
     else let vs = split_char B (boost_trim B (rl ! 2)) CHR ''/'' True in
       if length vs \<noteq> 2 \<or> vs ! 0 \<noteq> ''HTTP'' \<or> vs ! 1 \<noteq> ''1.1'' then
         failHandshake (''Unsupported HTTP version '' @ quoted (rl ! 2)) 505 []
       else next (boost_trim B (rl ! 1)))"

text \<open>The \<open>catch (...)\<close> of the resource covers the two parsers; the fields are set before what throws.\<close>

definition hs_resource ::
  "('z, 'd) server_setup \<Rightarrow> string \<Rightarrow> ('z, 'd, unit) srv_prog \<Rightarrow> ('z, 'd, unit) srv_prog" where
  "hs_resource S uri next = doM [
     modifyM (\<lambda>s. s\<lparr> sv_httpRequestUri := uri \<rparr>),
     (let bad = badRequest (''Bad HTTP request resource - could not parse '' @ quoted uri) in
      case urlParse (sv_boost S) uri '''' True of
        Inl _ \<Rightarrow> bad
      | Inr p \<Rightarrow>
        if up_fragment p \<noteq> [] then
          badRequest (''HTTP requested resource contains a fragment identifier '' @ quoted (up_fragment p))
        else doM [
          modifyM (\<lambda>s. s\<lparr> sv_httpRequestPath := up_path p \<rparr>),
          (case parseQS (sv_boost S) (up_query p) False False of
             Inl _ \<Rightarrow> bad
           | Inr q \<Rightarrow> doM [modifyM (\<lambda>s. s\<lparr> sv_httpRequestParams := q \<rparr>), next])])]"

text \<open>\<open>(unsigned short) std::stoul(p)\<close>: the value is cut to 16 bits.\<close>

definition port_of :: "boost_str \<Rightarrow> string \<Rightarrow> nat option" where
  "port_of B p = map_option (\<lambda>n. n mod 65536) (stoul (boost_trim B p))"

text \<open>
  The host. In the branch of a missing port, the source fails the handshake without returning:
  what follows runs on the dropped connection.
\<close>

definition hs_host ::
  "('z, 'd) server_setup \<Rightarrow> header_count \<Rightarrow> ('z, 'd, unit) srv_prog \<Rightarrow> ('z, 'd, unit) srv_prog" where
  "hs_host S cnt next = withM (\<lambda>s.
     let B = sv_boost S; F = ss_factory S; externalPort = sf_externalPort F in
     case sv_httpHeaders s ''host'' of
       None \<Rightarrow> badRequest ''HTTP Host header missing in opening handshake request''
     | Some v \<Rightarrow>
       if header_count_of cnt ''host'' > 1 then
         badRequest ''HTTP Host header appears more than once in opening handshake request''
       else let host = boost_trim B v in doM [
         modifyM (\<lambda>s. s\<lparr> sv_httpRequestHost := host \<rparr>),
         (if find_char host CHR '':'' 0 \<noteq> None \<and> \<not> he_ends_with (ss_env S) host '']'' then
            let pos = the (rfind_char host CHR '':''); h = take pos host; p = drop (pos + 1) host in
            (case port_of B p of
               None \<Rightarrow> badRequest (''invalid port '' @ quoted (boost_trim B p)
                          @ '' in HTTP Host header '' @ quoted host)
             | Some port \<Rightarrow>
               if externalPort \<noteq> 0 \<and> port \<noteq> externalPort then
                 badRequest (''port '' @ to_string port @ '' in HTTP Host header '' @ quoted host
                   @ '' does not match server listening port '' @ to_string externalPort)
               else doM [modifyM (\<lambda>s. s\<lparr> sv_httpRequestHost := h \<rparr>), next])
          else doM [
            whenM (externalPort \<noteq> 0 \<and>
                   \<not> (sf_isSecure F \<and> externalPort = 443 \<or> \<not> sf_isSecure F \<and> externalPort = 80))
              (badRequest (''missing port in HTTP Host header '' @ quoted host
                 @ '' and server runs on non-standard port '' @ to_string externalPort
                 @ '' (wss = '' @ bool_string (sf_isSecure F) @ '')'')),
            next])])"

text \<open>A comma-separated header that names a token, in any case.\<close>

definition names_token :: "boost_str \<Rightarrow> string \<Rightarrow> string \<Rightarrow> bool" where
  "names_token B value token =
     list_ex (\<lambda>u. boost_to_lower B (boost_trim B u) = token) (split_char B value CHR '','' True)"

text \<open>
  No \<open>Upgrade\<close>: a page or a redirection, and the connection is closed. \<open>std::stoi\<close> of the
  parameter \<open>after\<close> is not guarded: its exception leaves \<open>processHandshake\<close>.
\<close>

definition hs_no_upgrade :: "('z, 'd) server_setup \<Rightarrow> ('z, 'd, unit) srv_prog" where
  "hs_no_upgrade S =
     (if so_webStatus (ss_options S) then doM [
        withM (\<lambda>s. case sv_httpRequestParams s ''redirect'' of
            Some (url # _) \<Rightarrow>
              (case sv_httpRequestParams s ''after'' of
                 Some (a # _) \<Rightarrow>
                   (case stoi a of
                      None \<Rightarrow> throwM (WsException ''stoi'')
                    | Some after \<Rightarrow> sendServerStatus S url after)
               | _ \<Rightarrow> sendRedirect S url)
          | _ \<Rightarrow> sendServerStatus S [] 0),
        dropConnection False]
      else failHandshake ''HTTP Upgrade header missing'' 426 [])"

definition hs_upgrade ::
  "('z, 'd) server_setup \<Rightarrow> ('z, 'd, unit) srv_prog \<Rightarrow> ('z, 'd, unit) srv_prog" where
  "hs_upgrade S next = withM (\<lambda>s.
     case sv_httpHeaders s ''upgrade'' of
       None \<Rightarrow> hs_no_upgrade S
     | Some upgrade \<Rightarrow>
       if \<not> names_token (sv_boost S) upgrade ''websocket'' then
         badRequest (''HTTP Upgrade headers do not include '' @ quoted ''websocket''
           @ '' value (case-insensitive) : '' @ upgrade)
       else (case sv_httpHeaders s ''connection'' of
         None \<Rightarrow> badRequest ''HTTP Connection header missing''
       | Some connection \<Rightarrow>
         if \<not> names_token (sv_boost S) connection ''upgrade'' then
           badRequest (''HTTP Connection headers do not include '' @ quoted ''upgrade''
             @ '' value (case-insensitive) : '' @ connection)
         else next))"

text \<open>The supported versions, in descending order.\<close>

definition versions_string :: "int list \<Rightarrow> string" where
  "versions_string versions = join_with '','' (map int_string (rev (sort versions)))"

definition hs_version ::
  "('z, 'd) server_setup \<Rightarrow> header_count \<Rightarrow> ('z, 'd, unit) srv_prog \<Rightarrow> ('z, 'd, unit) srv_prog" where
  "hs_version S cnt next = withM (\<lambda>s.
     case sv_httpHeaders s ''sec-websocket-version'' of
       None \<Rightarrow> badRequest ''WebSocket connection denied - Hixie76 protocol not supported.''
     | Some v \<Rightarrow>
       if header_count_of cnt ''sec-websocket-version'' > 1 then
         badRequest ''HTTP Sec-WebSocket-Version header appears more than once in opening handshake request''
       else (case stoi v of
         None \<Rightarrow> badRequest (''could not parse HTTP Sec-WebSocket-Version header '' @ quoted v
                   @ '' in opening handshake request'')
       | Some version \<Rightarrow>
         if version \<notin> set (so_versions (ss_options S)) then
           let svs = versions_string (so_versions (ss_options S)) in
           failHandshake (''WebSocket version '' @ int_string version
             @ '' not supported (supported versions: '' @ svs @ '')'') 400 [(''Sec-WebSocket-Version'', svs)]
         else doM [modifyM (\<lambda>s. s\<lparr> ws_webSocketVersion := version \<rparr>), next]))"

text \<open>The first protocol that occurs again.\<close>

fun first_duplicate :: "string list \<Rightarrow> string list \<Rightarrow> string option" where
  "first_duplicate seen [] = None"
| "first_duplicate seen (p # ps) =
     (if p \<in> set seen then Some p else first_duplicate (p # seen) ps)"

definition hs_protocols ::
  "('z, 'd) server_setup \<Rightarrow> ('z, 'd, unit) srv_prog \<Rightarrow> ('z, 'd, unit) srv_prog" where
  "hs_protocols S next = withM (\<lambda>s.
     case sv_httpHeaders s ''sec-websocket-protocol'' of
       None \<Rightarrow> next
     | Some v \<Rightarrow>
       let protocols = map (boost_trim (sv_boost S)) (split_char (sv_boost S) v CHR '','' True) in
       (case first_duplicate [] protocols of
          Some p \<Rightarrow> badRequest (''duplicate protocol '' @ quoted p
                     @ '' specified in HTTP Sec-WebSocket-Protocol header'')
        | None \<Rightarrow> doM [modifyM (\<lambda>s. s\<lparr> sv_webSocketProtocols := protocols \<rparr>), next]))"

definition origin_allowed :: "('z, 'd) server_setup \<Rightarrow> origin \<Rightarrow> bool" where
  "origin_allowed S org =
     (let F = ss_factory S in
      if fst org = ''null'' \<and> so_allowNullOrigin (ss_options S) then True
      else isSameOrigin (ss_env S) org (if sf_isSecure F then ''https'' else ''http'')
             (if sf_externalPort F \<noteq> 0 then sf_externalPort F else sf_port F)
             (so_allowedOriginsPatterns (ss_options S)))"

text \<open>Only a \<open>ValueError\<close> is caught around \<open>urlToOrigin\<close>, which throws no other.\<close>

definition hs_origin ::
  "('z, 'd) server_setup \<Rightarrow> header_count \<Rightarrow> ('z, 'd, unit) srv_prog \<Rightarrow> ('z, 'd, unit) srv_prog" where
  "hs_origin S cnt next = withM (\<lambda>s.
     let key = (if ws_webSocketVersion s < 13 then ''sec-websocket-origin'' else ''origin'') in
     case sv_httpHeaders s key of
       None \<Rightarrow> next
     | Some v \<Rightarrow>
       if header_count_of cnt key > 1 then
         badRequest ''HTTP Origin header appears more than once in opening handshake request''
       else let orig = boost_trim (sv_boost S) v in doM [
         modifyM (\<lambda>s. s\<lparr> sv_webSocketOrigin := orig \<rparr>),
         (case urlToOrigin (sv_boost S) orig of
            Inl e \<Rightarrow> badRequest (''HTTP Origin header invalid: '' @ he_what (ss_env S) e)
          | Inr org \<Rightarrow>
            if \<not> origin_allowed S org then
              badRequest (''WebSocket connection denied: origin '' @ quoted orig @ '' not allowed'')
            else next)])"

definition char_between :: "char \<Rightarrow> char \<Rightarrow> char \<Rightarrow> bool" where
  [simp]: "char_between lo hi c \<longleftrightarrow> lo \<le> c \<and> c \<le> hi"

definition key_char :: "char \<Rightarrow> bool" where
  "key_char c \<longleftrightarrow>
     char_between (CHR ''a'') (CHR ''z'') c \<or> char_between (CHR ''A'') (CHR ''Z'') c \<or>
     char_between (CHR ''0'') (CHR ''9'') c \<or> c = CHR ''+'' \<or> c = CHR ''/''"

definition hs_key ::
  "('z, 'd) server_setup \<Rightarrow> header_count \<Rightarrow> (string \<Rightarrow> ('z, 'd, unit) srv_prog) \<Rightarrow> ('z, 'd, unit) srv_prog" where
  "hs_key S cnt next = withM (\<lambda>s.
     case sv_httpHeaders s ''sec-websocket-key'' of
       None \<Rightarrow> badRequest ''HTTP Sec-WebSocket-Key header missing''
     | Some v \<Rightarrow>
       if header_count_of cnt ''sec-websocket-key'' > 1 then
         badRequest ''HTTP Sec-WebSocket-Key header appears more than once in opening handshake request''
       else let key = boost_trim (sv_boost S) v in
         if length key \<noteq> 24 then
           badRequest (''bad Sec-WebSocket-Key (length must be 24 ASCII chars) '' @ quoted key)
         else if \<not> he_ends_with (ss_env S) key ''=='' then
           badRequest (''bad Sec-WebSocket-Key (invalid base64 encoding) '' @ quoted key)
         else (case find (\<lambda>c. \<not> key_char c) (take (length key - 2) key) of
           Some c \<Rightarrow> badRequest (''bad character '' @ quoted [c]
                      @ '' in Sec-WebSocket-Key (invalid base64 encoding) '' @ quoted key)
         | None \<Rightarrow> next key))"

definition hs_extensions ::
  "('z, 'd) server_setup \<Rightarrow> header_count \<Rightarrow> ('z, 'd, unit) srv_prog \<Rightarrow> ('z, 'd, unit) srv_prog" where
  "hs_extensions S cnt next = withM (\<lambda>s.
     case sv_httpHeaders s ''sec-websocket-extensions'' of
       None \<Rightarrow> next
     | Some v \<Rightarrow>
       if header_count_of cnt ''sec-websocket-extensions'' > 1 then
         badRequest ''HTTP Sec-WebSocket-Extensions header appears more than once in opening handshake request''
       else doM [
         modifyM (\<lambda>s. s\<lparr> sv_webSocketExtensions := parseExtensionsHeader (sv_boost S) v True \<rparr>),
         next])"

section \<open>The answer to an accepted request\<close>

fun collect_offers :: "ext_list \<Rightarrow> lib_error + pmd_offer list" where
  "collect_offers [] = Inr []"
| "collect_offers ((extension, params) # exts) =
     (if extension = EXTENSION_NAME then
        (case createOfferFromParams params of
           Inl e \<Rightarrow> Inl e
         | Inr offer \<Rightarrow> (case collect_offers exts of Inl e \<Rightarrow> Inl e | Inr os \<Rightarrow> Inr (offer # os)))
      else collect_offers exts)"

definition accept_offers :: "('z, 'd) server_setup \<Rightarrow> pmd_offer list \<Rightarrow> pmd_offer_accept option" where
  "accept_offers S offers =
     (if offers = [] then None
      else (case so_perMessageCompressionAccept (ss_options S) of None \<Rightarrow> None | Some f \<Rightarrow> f offers))"

text \<open>\<open>Base64::b64encode\<close> of the digest of the key and the magic string.\<close>

definition accept_key :: "hs_env \<Rightarrow> (bytes \<Rightarrow> bytes) \<Rightarrow> string \<Rightarrow> string" where
  "accept_key E b64 key = string_of_bytes (b64encode b64 (he_sha1 E (bytes_of_string (key @ WS_MAGIC))))"

definition header_lines :: "ws_headers \<Rightarrow> string" where
  "header_lines headers = concat (map (\<lambda>(n, vs). concat (map (header_line n) vs)) headers)"

definition switching_response ::
  "('z, 'd) server_setup \<Rightarrow> string \<Rightarrow> ws_headers \<Rightarrow> string \<Rightarrow> pmd_offer_accept option \<Rightarrow> string" where
  "switching_response S protocol headers key accept =
     ''HTTP/1.1 101 Switching Protocols'' @ CRLF
     @ server_line S
     @ ''Upgrade: WebSocket'' @ CRLF
     @ ''Connection: Upgrade'' @ CRLF
     @ header_lines (sf_headers (ss_factory S))
     @ header_lines headers
     @ (if protocol \<noteq> [] then header_line ''Sec-WebSocket-Protocol'' protocol else [])
     @ header_line ''Sec-WebSocket-Accept'' (accept_key (ss_env S) (cf_base64 (ss_config S)) key)
     @ (case accept of None \<Rightarrow> []
        | Some a \<Rightarrow> header_line ''Sec-WebSocket-Extensions''
                     (boost_join (sv_boost S) [accept_getExtensionString a] '', ''))
     @ CRLF"

definition use_compression :: "pmd_offer_accept option \<Rightarrow> ('z, 'd, unit) srv_prog" where
  "use_compression accept = (case accept of
      None \<Rightarrow> doM []
    | Some a \<Rightarrow> modifyM (\<lambda>s. s\<lparr> ws_pmce := Some (createFromOfferAccept True a),
                   sv_webSocketExtensionsInUse := sv_webSocketExtensionsInUse s @ [EXTENSION_NAME] \<rparr>))"

text \<open>From \<open>_state = State::OPEN\<close> to \<open>onOpen\<close>.\<close>

definition cancel_openHandshakeTimeout :: "('c, 'm, unit) ws_prog" where
  "cancel_openHandshakeTimeout =
     withM (\<lambda>s. whenM (\<not> call_cancelled (ws_calls s OpenHandshakeTimer)) (cancelM OpenHandshakeTimer))"

definition start_autoPing :: "'c ws_config \<Rightarrow> ('c, 'm, unit) ws_prog" where
  "start_autoPing cf =
     whenM (cf_autoPingInterval cf > 0) (callLaterM AutoPingPendingTimer (cf_autoPingInterval cf))"

definition server_open :: "('z, 'd) server_setup \<Rightarrow> ('z, 'd, unit) srv_prog" where
  "server_open S = doM [
     modifyM (\<lambda>s. s\<lparr> ws_state := OPEN \<rparr>),
     cancel_openHandshakeTimeout,
     modifyM (\<lambda>s. s\<lparr> ws_insideMessage := False, ws_currentFrame := None \<rparr>),
     start_autoPing (ss_config S),
     trackM ''onOpen'',
     emitM OnOpen]"

text \<open>In \<open>consumeData\<close> the state is \<open>OPEN\<close>: the two virtual calls are not reached.\<close>

definition succeedHandshake ::
  "('z, 'd) server_setup \<Rightarrow> string \<times> ws_headers \<Rightarrow> ('z, 'd, unit) srv_prog" where
  "succeedHandshake S res = withM (\<lambda>s. case res of (protocol, headers) \<Rightarrow>
     if protocol \<noteq> [] \<and> protocol \<notin> set (sv_webSocketProtocols s) then
       throwM (WsException ''protocol accepted must be from the list client sent or <empty>'')
     else doM [
       modifyM (\<lambda>s. s\<lparr> sv_webSocketProtocolInUse := protocol \<rparr>),
       (case collect_offers (sv_webSocketExtensions s) of
          Inl e \<Rightarrow> badRequest (he_what (ss_env S) e)
        | Inr offers \<Rightarrow>
          let accept = accept_offers S offers;
              response = switching_response S protocol headers (sv_webSocketKey s) accept in doM [
            use_compression accept,
            sendText response,
            modifyM (\<lambda>s. s\<lparr> sv_httpResponseData := response \<rparr>),
            server_open S,
            withM (\<lambda>s. whenM (ws_data s \<noteq> [])
              (consumeData (ss_config S) (doM []) (doM [])))])])"

text \<open>
  The \<open>try\<close> block around \<open>onConnect\<close> and \<open>succeedHandshake\<close> catches every standard exception, those
  of the frames processed at the end of \<open>succeedHandshake\<close> included; a null pointer is not one.
\<close>

definition internal_error :: "('z, 'd) server_setup \<Rightarrow> lib_error \<Rightarrow> ('z, 'd, unit) srv_prog" where
  "internal_error S e = failHandshake (''Internal server error: '' @ he_what (ss_env S) e) 500 []"

definition hs_connect :: "('z, 'd) server_setup \<Rightarrow> ('z, 'd, unit) srv_prog" where
  "hs_connect S = withM (\<lambda>s.
     if so_maxConnections (ss_options S) > 0 \<and> sv_countConnections s > so_maxConnections (ss_options S) then
       failHandshake ''maximum number of connections reached'' 503 []
     else
       (case ss_onConnect S \<lparr> cr_peer = sv_peer s, cr_headers = sv_httpHeaders s,
               cr_host = sv_httpRequestHost s, cr_path = sv_httpRequestPath s,
               cr_params = sv_httpRequestParams s, cr_version = ws_webSocketVersion s,
               cr_origin = sv_webSocketOrigin s, cr_protocols = sv_webSocketProtocols s,
               cr_extensions = sv_webSocketExtensions s \<rparr> of
          Inl (ConnectionDeny code reason) \<Rightarrow> failHandshake (deny_getReason code reason) code []
        | Inl (OtherError e) \<Rightarrow> internal_error S e
        | Inr res \<Rightarrow> tryM (succeedHandshake S res) (\<lambda>e. case e of
              WsException msg \<Rightarrow> internal_error S (GeneralException msg)
            | AlreadyCancelled \<Rightarrow> internal_error S (GeneralException '''')
            | NullDereference \<Rightarrow> throwM NullDereference)))"

section \<open>The methods of the server\<close>

definition policy_request :: bytes where
  "policy_request = bytes_of_string ''<policy-file-request/>'' @ [0]"

definition header_end :: bytes where "header_end = [13, 10, 13, 10]"

text \<open>The stages after the header has been parsed.\<close>

definition hs_request :: "('z, 'd) server_setup \<Rightarrow> header_count \<Rightarrow> nat \<Rightarrow> ('z, 'd, unit) srv_prog" where
  "hs_request S cnt eoh = doM [
     hs_forwarded S,
     hs_request_line S (\<lambda>uri.
     hs_resource S uri (
     hs_host S cnt (
     hs_upgrade S (
     hs_version S cnt (
     hs_protocols S (
     hs_origin S cnt (
     hs_key S cnt (\<lambda>key.
     hs_extensions S cnt (doM [
       modifyM (\<lambda>s. s\<lparr> ws_data := drop (eoh + 4) (ws_data s), sv_webSocketKey := key \<rparr>),
       hs_connect S])))))))))]"

definition serve_policy :: "('z, 'd) server_setup \<Rightarrow> ('z, 'd, unit) srv_prog" where
  "serve_policy S = withM (\<lambda>s.
     whenM (so_serverFlashSocketPolicy (ss_options S) \<and> StrNStr (ws_data s) policy_request \<noteq> None) (doM [
       sendText (so_flashSocketPolicy (ss_options S)),
       modifyM (\<lambda>s. s\<lparr> ws_wasServingFlashSocketPolicyFile := True \<rparr>),
       dropConnection False]))"

definition processHandshake :: "('z, 'd) server_setup \<Rightarrow> ('z, 'd, unit) srv_prog" where
  "processHandshake S = withM (\<lambda>s.
     case StrNStr (ws_data s) header_end of
       Some eoh \<Rightarrow>
         let request = string_of_bytes (take (eoh + 4) (ws_data s)) in
         (case parseHttpHeader (sv_boost S) request of (status, headers, cnt) \<Rightarrow> doM [
            modifyM (\<lambda>s. s\<lparr> sv_httpRequestData := request, sv_httpStatusLine := status,
                        sv_httpHeaders := headers \<rparr>),
            hs_request S cnt eoh])
     | None \<Rightarrow> serve_policy S)"

definition server_connectionMade :: "('z, 'd) server_setup \<Rightarrow> string \<Rightarrow> ('z, 'd, unit) srv_prog" where
  "server_connectionMade S peerName = doM [
     modifyM (\<lambda>s. s\<lparr> ws_state := CONNECTING, sv_peer := peerName \<rparr>),
     base_connectionMade (ss_config S),
     modifyM (\<lambda>s. s\<lparr> sv_countConnections := sv_countConnections s + 1 \<rparr>)]"

definition server_connectionLost :: "('z, 'd) server_setup \<Rightarrow> ('z, 'd, unit) srv_prog" where
  "server_connectionLost S = doM [
     connectionLost (ss_config S),
     modifyM (\<lambda>s. s\<lparr> sv_countConnections := sv_countConnections s - 1 \<rparr>)]"

definition server_processProxyConnect :: "('z, 'd, unit) srv_prog" where
  "server_processProxyConnect = throwM (WsException ''This isn't a proxy server'')"

definition server_dataReceived :: "('z, 'd) server_setup \<Rightarrow> bytes \<Rightarrow> ('z, 'd, unit) srv_prog" where
  "server_dataReceived S data =
     dataReceived (ss_config S) server_processProxyConnect (processHandshake S) data"

end
