(* ===== verification/Ws_Client.thy ===== *)
theory Ws_Client
  imports Ws_Server
begin

text \<open>
  \<open>WebSocketClientProtocol\<close> of \<open>plugins/websocket/protocol.h\<close> and \<open>protocol.cpp\<close>: the request of the
  client, the connection through a proxy and the check of the answer. The stages are continuations,
  as for the server. \<open>onConnect\<close>, which the application overrides, returns the exception it
  throws, if any; its text is \<open>he_what\<close> of it.
\<close>

record client_protocol =
  co_version :: int
  co_offers :: "pmd_offer list"
  co_accept :: "(pmd_response \<Rightarrow> pmd_response_accept option) option"

definition client_protocol_options :: "client_factory \<Rightarrow> client_protocol" where
  "client_protocol_options F = \<lparr> co_version = cl_version F, co_offers = cl_perMessageCompressionOffers F,
     co_accept = cl_perMessageCompressionAccept F \<rparr>"

record ('z, 'd) client_setup =
  ct_env :: hs_env
  ct_factory :: client_factory
  ct_config :: "('z, 'd) pmd ws_config"
  ct_options :: client_protocol
  ct_onConnect :: "connection_response \<Rightarrow> lib_error option"

record 'c ws_client = "'c ws_conn" +
  cc_peer :: string
  cc_webSocketKey :: string
  cc_httpRequestData :: string
  cc_httpResponseData :: string
  cc_httpStatusLine :: string
  cc_httpHeaders :: header_map
  cc_webSocketProtocolInUse :: string
  cc_webSocketExtensionsInUse :: "string list"

text \<open>The member initialisers.\<close>

definition client_initial :: "'c ws_client" where
  "client_initial = ws_conn.extend (ws_fresh CONNECTING) (ws_client.fields [] [] [] [] [] Map.empty [] [])"

type_synonym ('z, 'd, 'a) cli_prog = "(ws_exn, ('z, 'd) pmd ws_client, 'a) prog"

definition ct_boost :: "('z, 'd) client_setup \<Rightarrow> boost_str" where
  "ct_boost C = he_boost (ct_env C)"

section \<open>Requests\<close>

definition sendText_client :: "string \<Rightarrow> ('z, 'd, unit) cli_prog" where
  "sendText_client s = sendData (bytes_of_string s) False 0"

definition host_port :: "client_factory \<Rightarrow> string" where
  "host_port F = cl_host F @ '':'' @ to_string (cl_port F)"

definition startProxyConnect :: "('z, 'd) client_setup \<Rightarrow> ('z, 'd, unit) cli_prog" where
  "startProxyConnect C = (let F = ct_factory C in
     sendText_client (''CONNECT '' @ host_port F @ '' HTTP/1.1'' @ CRLF @ header_line ''Host'' (host_port F) @ CRLF))"

text \<open>The lines before and after the key. Of a header's values only the first is sent.\<close>

definition request_head :: "client_factory \<Rightarrow> string" where
  "request_head F =
     ''GET '' @ cl_resource F @ '' HTTP/1.1'' @ CRLF
     @ (if cl_useragent F \<noteq> [] then header_line ''User-Agent'' (cl_useragent F) else [])
     @ header_line ''Host'' (host_port F)
     @ ''Upgrade: WebSocket'' @ CRLF @ ''Connection: Upgrade'' @ CRLF
     @ ''Pragma: no-cache'' @ CRLF @ ''Cache-Control: no-cache'' @ CRLF
     @ concat (map (\<lambda>(n, vs). header_line n (hd vs)) (cl_headers F))"

definition request_tail :: "('z, 'd) client_setup \<Rightarrow> int \<Rightarrow> string" where
  "request_tail C protocolVersion = (let F = ct_factory C; V = ct_options C; B = ct_boost C in
     (if cl_origin F \<noteq> [] then
        header_line (if co_version V > 10 then ''Origin'' else ''Sec-WebSocket-Origin'') (cl_origin F) else [])
     @ (if cl_protocols F \<noteq> [] then
          header_line ''Sec-WebSocket-Protocol'' (boost_join B (cl_protocols F) '','') else [])
     @ (if co_offers V \<noteq> [] then header_line ''Sec-WebSocket-Extensions''
          (boost_join B (map offer_getExtensionString (co_offers V)) '', '') else [])
     @ header_line ''Sec-WebSocket-Version'' (int_string protocolVersion)
     @ CRLF)"

definition new_key :: "('z, 'd) client_setup \<Rightarrow> bytes \<Rightarrow> string" where
  "new_key C random = string_of_bytes (b64encode (cf_base64 (ct_config C)) random)"

text \<open>\<open>SPEC_TO_PROTOCOL_VERSION.at\<close> throws for an unknown version, after the key has been set.\<close>

definition startHandshake :: "('z, 'd) client_setup \<Rightarrow> ('z, 'd, unit) cli_prog" where
  "startHandshake C =
     bindM (randBytesM (ct_config C) 16) (\<lambda>random.
       let key = new_key C random in doM [
         modifyM (\<lambda>s. s\<lparr> cc_webSocketKey := key \<rparr>),
         (case map_of SPEC_TO_PROTOCOL_VERSION (co_version (ct_options C)) of
            None \<Rightarrow> throwM (WsException ''map::at'')
          | Some v \<Rightarrow>
            let request = request_head (ct_factory C) @ header_line ''Sec-WebSocket-Key'' key
                  @ request_tail C v in doM [
              modifyM (\<lambda>s. s\<lparr> cc_httpRequestData := request \<rparr>),
              sendText_client request])])"

section \<open>The answer to the request\<close>

text \<open>The two \<open>failHandshake\<close> and \<open>failProxyConnect\<close> of the header drop the connection by an abort.\<close>

definition client_failHandshake :: "string \<Rightarrow> ('z, 'd, unit) cli_prog" where
  "client_failHandshake reason = doM [
     modifyM (\<lambda>s. s\<lparr> ws_wasNotCleanReason := Some reason \<rparr>),
     dropConnection True]"

definition failProxyConnect :: "string \<Rightarrow> ('z, 'd, unit) cli_prog" where
  "failProxyConnect reason = dropConnection True"

definition reason_text :: "boost_str \<Rightarrow> int \<Rightarrow> string list \<Rightarrow> string" where
  "reason_text B statusCode sl =
     int_string statusCode @ (if length sl > 2 then '' - '' @ boost_join B (drop 2 sl) [] else [])"

definition cs_status ::
  "('z, 'd) client_setup \<Rightarrow> ('z, 'd, unit) cli_prog \<Rightarrow> ('z, 'd, unit) cli_prog" where
  "cs_status C next = withM (\<lambda>s.
     let B = ct_boost C; sl = split_words B (cc_httpStatusLine s) in
     if length sl < 2 then
       client_failHandshake (''Bad HTTP request status line '' @ quoted (cc_httpStatusLine s))
     else if boost_trim B (sl ! 0) \<noteq> ''HTTP/1.1'' then
       client_failHandshake (''Unsupported HTTP version ('' @ quoted (boost_trim B (sl ! 0)) @ '')'')
     else (case stoi (boost_trim B (sl ! 1)) of
         None \<Rightarrow> client_failHandshake (''Bad HTTP status code ('' @ quoted (boost_trim B (sl ! 1)) @ '')'')
       | Some statusCode \<Rightarrow>
         if statusCode \<noteq> 101 then
           client_failHandshake (''WebSocket connection upgrade failed ('' @ reason_text B statusCode sl @ '')'')
         else next))"

definition cs_upgrade ::
  "('z, 'd) client_setup \<Rightarrow> ('z, 'd, unit) cli_prog \<Rightarrow> ('z, 'd, unit) cli_prog" where
  "cs_upgrade C next = withM (\<lambda>s. let B = ct_boost C in
     case cc_httpHeaders s ''upgrade'' of
       None \<Rightarrow> client_failHandshake ''HTTP Upgrade header missing''
     | Some upgrade \<Rightarrow>
       if boost_to_lower B (boost_trim B upgrade) \<noteq> ''websocket'' then
         client_failHandshake (''HTTP Upgrade header different from '' @ quoted ''websocket''
           @ '' (case-insensitive) : '' @ upgrade)
       else (case cc_httpHeaders s ''connection'' of
           None \<Rightarrow> client_failHandshake ''HTTP Connection header missing''
         | Some connection \<Rightarrow>
           if \<not> names_token B connection ''upgrade'' then
             client_failHandshake (''HTTP Connection headers do not include '' @ quoted ''upgrade''
               @ '' value (case-insensitive) : '' @ connection)
           else next))"

definition cs_accept ::
  "('z, 'd) client_setup \<Rightarrow> header_count \<Rightarrow> ('z, 'd, unit) cli_prog \<Rightarrow> ('z, 'd, unit) cli_prog" where
  "cs_accept C cnt next = withM (\<lambda>s.
     case cc_httpHeaders s ''sec-websocket-accept'' of
       None \<Rightarrow> client_failHandshake ''HTTP Sec-WebSocket-Accept header missing in opening handshake reply''
     | Some v \<Rightarrow>
       if header_count_of cnt ''sec-websocket-accept'' > 1 then
         client_failHandshake ''HTTP Sec-WebSocket-Accept header appears more than once in opening handshake reply''
       else let got = boost_trim (ct_boost C) v;
                expected = accept_key (ct_env C) (cf_base64 (ct_config C)) (cc_webSocketKey s) in
         if got \<noteq> expected then
           client_failHandshake (''HTTP Sec-WebSocket-Accept bogus value : expected '' @ expected
             @ '' / got '' @ got)
         else next)"

text \<open>The extensions of the answer, one after the other.\<close>

fun cs_each_extension ::
  "('z, 'd) client_setup \<Rightarrow> ext_list \<Rightarrow> ('z, 'd, unit) cli_prog \<Rightarrow> ('z, 'd, unit) cli_prog" where
  "cs_each_extension C [] next = next"
| "cs_each_extension C ((extension, params) # exts) next =
     (if extension = EXTENSION_NAME then withM (\<lambda>s.
        if has_pmce s then client_failHandshake ''multiple occurrence of a permessage-compress extension''
        else (case createResponseFromParams params of
            Inl e \<Rightarrow> client_failHandshake (he_what (ct_env C) e)
          | Inr response \<Rightarrow>
            (case (case co_accept (ct_options C) of None \<Rightarrow> None | Some f \<Rightarrow> f response) of
               None \<Rightarrow> client_failHandshake
                 ''WebSocket permessage-compress extension response from server denied by client''
             | Some accept \<Rightarrow> doM [
                 modifyM (\<lambda>s. s\<lparr> ws_pmce := Some (createFromResponseAccept False accept),
                   cc_webSocketExtensionsInUse := cc_webSocketExtensionsInUse s @ [EXTENSION_NAME] \<rparr>),
                 cs_each_extension C exts next])))
      else client_failHandshake (''server wants to use extension '' @ quoted extension
        @ '' we did not request, haven't implemented or did not enable''))"

definition cs_extensions ::
  "('z, 'd) client_setup \<Rightarrow> header_count \<Rightarrow> ('z, 'd, unit) cli_prog \<Rightarrow> ('z, 'd, unit) cli_prog" where
  "cs_extensions C cnt next = withM (\<lambda>s.
     case cc_httpHeaders s ''sec-websocket-extensions'' of
       None \<Rightarrow> next
     | Some v \<Rightarrow>
       if header_count_of cnt ''sec-websocket-extensions'' > 1 then
         client_failHandshake ''HTTP Sec-WebSocket-Extensions header appears more than once in opening handshake request''
       else cs_each_extension C (parseExtensionsHeader (ct_boost C) v True) next)"

definition cs_protocol ::
  "('z, 'd) client_setup \<Rightarrow> header_count \<Rightarrow> ('z, 'd, unit) cli_prog \<Rightarrow> ('z, 'd, unit) cli_prog" where
  "cs_protocol C cnt next = withM (\<lambda>s.
     case cc_httpHeaders s ''sec-websocket-protocol'' of
       None \<Rightarrow> next
     | Some v \<Rightarrow>
       if header_count_of cnt ''sec-websocket-protocol'' > 1 then
         client_failHandshake ''HTTP Sec-WebSocket-Protocol header appears more than once in opening handshake reply''
       else let sp = boost_trim (ct_boost C) v in
         if sp = [] then next
         else if sp \<notin> set (cl_protocols (ct_factory C)) then
           client_failHandshake (''subprotocol selected by server ('' @ sp
             @ '') not in subprotocol list requested by client'')
         else doM [modifyM (\<lambda>s. s\<lparr> cc_webSocketProtocolInUse := sp \<rparr>), next])"


section \<open>The methods of the client\<close>

text \<open>From the erased header to the frames that follow it; \<open>consumeData\<close> meets no connecting state here.\<close>

definition client_response :: "('c, 'm) ws_client_scheme \<Rightarrow> connection_response" where
  "client_response s = \<lparr> cs_peer = cc_peer s, cs_headers = cc_httpHeaders s,
     cs_version = ws_webSocketVersion s, cs_protocol = cc_webSocketProtocolInUse s,
     cs_extensions = cc_webSocketExtensionsInUse s \<rparr>"

definition client_onConnect :: "('z, 'd) client_setup \<Rightarrow> ('z, 'd, unit) cli_prog" where
  "client_onConnect C = withM (\<lambda>s.
     case ct_onConnect C (client_response s) of
       Some e \<Rightarrow> failConnection (ct_config C) 1000 (he_what (ct_env C) e)
     | None \<Rightarrow> doM [trackM ''onOpen'', emitM OnOpen])"

definition client_succeed :: "('z, 'd) client_setup \<Rightarrow> nat \<Rightarrow> ('z, 'd, unit) cli_prog" where
  "client_succeed C eoh = doM [
     modifyM (\<lambda>s. s\<lparr> ws_data := drop (eoh + 4) (ws_data s), ws_state := OPEN \<rparr>),
     cancel_openHandshakeTimeout,
     modifyM (\<lambda>s. s\<lparr> ws_insideMessage := False, ws_currentFrame := None,
       ws_webSocketVersion := co_version (ct_options C) \<rparr>),
     start_autoPing (ct_config C),
     client_onConnect C,
     withM (\<lambda>s. whenM (ws_data s \<noteq> []) (consumeData (ct_config C) (doM []) (doM [])))]"

definition cs_answer :: "('z, 'd) client_setup \<Rightarrow> header_count \<Rightarrow> nat \<Rightarrow> ('z, 'd, unit) cli_prog" where
  "cs_answer C cnt eoh =
     cs_status C (cs_upgrade C (cs_accept C cnt (cs_extensions C cnt (cs_protocol C cnt (client_succeed C eoh)))))"

definition client_processHandshake :: "('z, 'd) client_setup \<Rightarrow> ('z, 'd, unit) cli_prog" where
  "client_processHandshake C = withM (\<lambda>s.
     case StrNStr (ws_data s) header_end of
       None \<Rightarrow> doM []
     | Some eoh \<Rightarrow>
         let response = string_of_bytes (take (eoh + 4) (ws_data s)) in
         (case parseHttpHeader (ct_boost C) response of (status, headers, cnt) \<Rightarrow> doM [
            modifyM (\<lambda>s. s\<lparr> cc_httpResponseData := response, cc_httpStatusLine := status,
              cc_httpHeaders := headers \<rparr>),
            cs_answer C cnt eoh]))"

text \<open>
  The proxy's answer. The octets behind it are consumed, in the state \<open>CONNECTING\<close>, before the
  request is sent.
\<close>

definition client_processProxyConnect :: "('z, 'd) client_setup \<Rightarrow> ('z, 'd, unit) cli_prog" where
  "client_processProxyConnect C = withM (\<lambda>s.
     case StrNStr (ws_data s) header_end of
       None \<Rightarrow> doM []
     | Some eoh \<Rightarrow>
         (case parseHttpHeader (ct_boost C) (string_of_bytes (take (eoh + 4) (ws_data s))) of
            (status, headers, cnt) \<Rightarrow>
         let B = ct_boost C; sl = split_words B status in
         if length sl < 2 then failProxyConnect (''Bad HTTP response status line '' @ quoted status)
         else if boost_trim B (sl ! 0) \<noteq> ''HTTP/1.1'' \<and> boost_trim B (sl ! 0) \<noteq> ''HTTP/1.0'' then
           failProxyConnect (''Unsupported HTTP version ('' @ quoted (boost_trim B (sl ! 0)) @ '')'')
         else (case stoi (boost_trim B (sl ! 1)) of
             None \<Rightarrow> failProxyConnect (''Bad HTTP status code ('' @ quoted (boost_trim B (sl ! 1)) @ '')'')
           | Some statusCode \<Rightarrow>
             if \<not> (200 \<le> statusCode \<and> statusCode < 300) then
               failProxyConnect (''HTTP proxy connect failed ('' @ reason_text B statusCode sl @ '')'')
             else doM [
               modifyM (\<lambda>s. s\<lparr> ws_data := drop (eoh + 4) (ws_data s), ws_state := CONNECTING \<rparr>),
               withM (\<lambda>s. whenM (ws_data s \<noteq> [])
                 (consumeData (ct_config C) (doM []) (client_processHandshake C))),
               startHandshake C])))"

definition client_connectionMade :: "('z, 'd) client_setup \<Rightarrow> string \<Rightarrow> ('z, 'd, unit) cli_prog" where
  "client_connectionMade C peerName = (let proxied = cl_proxy (ct_factory C) \<noteq> [] in doM [
     modifyM (\<lambda>s. s\<lparr> ws_state := (if proxied then PROXY_CONNECTING else CONNECTING), cc_peer := peerName \<rparr>),
     base_connectionMade (ct_config C),
     (if proxied then startProxyConnect C else startHandshake C)])"

definition client_connectionLost :: "('z, 'd) client_setup \<Rightarrow> ('z, 'd, unit) cli_prog" where
  "client_connectionLost C = connectionLost (ct_config C)"

definition client_dataReceived :: "('z, 'd) client_setup \<Rightarrow> bytes \<Rightarrow> ('z, 'd, unit) cli_prog" where
  "client_dataReceived C data =
     dataReceived (ct_config C) (client_processProxyConnect C) (client_processHandshake C) data"

end
