(* ===== verification/Ws_Server_Props.thy ===== *)
theory Ws_Server_Props
  imports Ws_Server Ws_Stream Url_Coding
begin

text \<open>
  What the opening handshake of the server guarantees: it reports an open connection only
  for an acceptable request, answers such a request with the switching response, and in every
  other case fails with an HTTP error and closes. One lemma per stage says what the
  stage requires; the properties chain them.
\<close>

section \<open>Failing does not open\<close>

definition is_open :: "('c, 'm) ws_conn_scheme \<Rightarrow> bool" where
  "is_open s \<longleftrightarrow> OnOpen \<in> set (ws_out s)"

definition opens :: "('c, 'm, 'a) ws_prog \<Rightarrow> ('c, 'm) ws_conn_scheme \<Rightarrow> bool" where
  "opens m s \<longleftrightarrow> is_open (snd (m s))"

lemma is_open_notable: "is_open s \<longleftrightarrow> OnOpen \<in> set (notable s)"
  by (auto simp: is_open_def notable_def)

lemma send_rel_is_open: "send_rel s t \<Longrightarrow> is_open t = is_open s"
  by (simp add: is_open_notable send_rel_fields)

text \<open>The members of the server protocol are not touched by sending.\<close>

lemma scrub_server:
  "sv_httpHeaders (scrub s) = sv_httpHeaders s" "sv_httpStatusLine (scrub s) = sv_httpStatusLine s"
  "sv_webSocketProtocols (scrub s) = sv_webSocketProtocols s" "sv_webSocketKey (scrub s) = sv_webSocketKey s"
  "sv_webSocketExtensions (scrub s) = sv_webSocketExtensions s" "sv_webSocketOrigin (scrub s) = sv_webSocketOrigin s"
  "sv_countConnections (scrub s) = sv_countConnections s" "sv_httpRequestParams (scrub s) = sv_httpRequestParams s"
  "sv_httpRequestHost (scrub s) = sv_httpRequestHost s" "sv_httpRequestPath (scrub s) = sv_httpRequestPath s"
  "sv_peer (scrub s) = sv_peer s"
  by (simp_all add: scrub_def)

lemma send_rel_server:
  assumes "send_rel s t"
  shows "sv_httpHeaders t = sv_httpHeaders s" "sv_httpStatusLine t = sv_httpStatusLine s"
  "sv_webSocketProtocols t = sv_webSocketProtocols s" "sv_webSocketKey t = sv_webSocketKey s"
  "sv_webSocketExtensions t = sv_webSocketExtensions s" "sv_webSocketOrigin t = sv_webSocketOrigin s"
  "sv_countConnections t = sv_countConnections s" "sv_httpRequestParams t = sv_httpRequestParams s"
  "sv_httpRequestHost t = sv_httpRequestHost s" "sv_httpRequestPath t = sv_httpRequestPath s"
  "sv_peer t = sv_peer s"
  using assms unfolding send_rel_def by (metis scrub_server)+

lemma sendText_run:
  obtains t where "sendText txt s = (Inr (), t)" "send_rel s t"
proof -
  obtain t where "sendText txt s = (Inr (), t)"
    by (rule succeedsE [OF succeeds_sendData, of "bytes_of_string txt" False 0 s])
       (auto simp: sendText_def)
  moreover from this have "send_rel s t"
    using evolvesD [OF send_sendData, of s "bytes_of_string txt" False 0] by (simp add: sendText_def)
  ultimately show thesis by (rule that)
qed

text \<open>A failed handshake: the reason is kept, an error is sent and the connection is closed.\<close>

definition refused :: "string \<Rightarrow> ('c, 'm) ws_conn_scheme \<Rightarrow> ('c, 'm) ws_conn_scheme \<Rightarrow> bool" where
  "refused reason s t \<longleftrightarrow>
     ws_wasNotCleanReason t = Some reason \<and> ws_state t = CLOSED \<and>
     notable t = notable s @ (if ws_state s = CLOSED then [] else [LoseConnection])"

lemma failHandshake_run:
  obtains t where "failHandshake reason code hs s = (Inr (), t)" "refused reason s t"
    "sv_httpHeaders t = sv_httpHeaders s" "sv_webSocketExtensions t = sv_webSocketExtensions s"
    "sv_webSocketProtocols t = sv_webSocketProtocols s" "sv_countConnections t = sv_countConnections s"
    "sv_httpRequestParams t = sv_httpRequestParams s" "ws_data t = ws_data s"
proof -
  let ?s1 = "s\<lparr> ws_wasNotCleanReason := Some reason \<rparr>"
  obtain u where u: "sendHttpErrorResponse code reason hs ?s1 = (Inr (), u)" "send_rel ?s1 u"
    unfolding sendHttpErrorResponse_def by (rule sendText_run)
  have run: "failHandshake reason code hs s = dropConnection False u"
    by (simp add: failHandshake_def runs bindM_unit
        bindM_after [where m = "sendHttpErrorResponse code reason hs" and s = ?s1, OF u(1)])
  note f = send_rel_fields [OF u(2)] send_rel_server [OF u(2)]
  show thesis
  proof (cases "ws_state s = CLOSED")
    case True
    then have "failHandshake reason code hs s = (Inr (), u)"
      by (simp add: run dropConnection_def runs f)
    then show thesis
      by (rule that) (use f True in \<open>simp_all add: refused_def notable_def\<close>)
  next
    case False
    let ?t = "u\<lparr> ws_droppedByMe := True, ws_state := CLOSED, ws_out := ws_out u @ [LoseConnection] \<rparr>"
    have "failHandshake reason code hs s = (Inr (), ?t)"
      using False by (simp add: run dropConnection_def closeConnection_def emitM_def runs f)
    then show thesis
      by (rule that) (use f False in \<open>simp_all add: refused_def notable_def\<close>)
  qed
qed

lemma refused_is_open: "refused reason s t \<Longrightarrow> is_open t = is_open s"
  by (simp add: refused_def is_open_notable)

lemma opens_failHandshake: "opens (failHandshake reason code hs) s \<longleftrightarrow> is_open s"
  by (rule failHandshake_run [of reason code hs s]) (simp add: opens_def refused_is_open)

lemma opens_badRequest: "opens (badRequest reason) s \<longleftrightarrow> is_open s"
  by (simp add: badRequest_def opens_failHandshake)

text \<open>Programs that never report an open connection.\<close>

definition no_open_rel :: "('c, 'm) ws_conn_scheme \<Rightarrow> ('c, 'm) ws_conn_scheme \<Rightarrow> bool" where
  "no_open_rel s t \<longleftrightarrow> (is_open t \<longrightarrow> is_open s)"

interpretation nor: state_rel no_open_rel
  by unfold_locales (auto simp: no_open_rel_def)

lemma no_open_sendText: "evolves no_open_rel (sendText txt)"
  unfolding sendText_def
  by (rule evolves_mono [OF send_sendData]) (simp add: no_open_rel_def send_rel_is_open)

lemma no_open_dropConnection: "evolves no_open_rel (dropConnection b)"
  unfolding dropConnection_def closeConnection_def emitM_def
  by (intro nor.ev_rules evolves_modifyM) (auto simp: no_open_rel_def is_open_def)

lemma no_open_hs_no_upgrade: "evolves no_open_rel (hs_no_upgrade S)"
proof -
  have fail: "evolves no_open_rel (failHandshake r c h)" for r c h
    unfolding failHandshake_def sendHttpErrorResponse_def
    by (intro nor.ev_rules no_open_sendText no_open_dropConnection evolves_modifyM)
       (simp add: no_open_rel_def is_open_def)
  have page: "evolves no_open_rel (sendServerStatus S url n)" for url n
    unfolding sendServerStatus_def sendHtml_def by (intro nor.ev_rules no_open_sendText)
  show ?thesis
    unfolding hs_no_upgrade_def sendRedirect_def
    by (intro nor.ev_rules ev_cases fail page no_open_sendText no_open_dropConnection)
qed

lemma opens_hs_no_upgrade: "opens (hs_no_upgrade S) s \<Longrightarrow> is_open s"
  using evolvesD [OF no_open_hs_no_upgrade, of s S] by (simp add: opens_def no_open_rel_def)

lemma opens_runs:
  "opens (withM f) s \<longleftrightarrow> opens (f s) s"
  "opens (if b then m1 else m2) s \<longleftrightarrow> (if b then opens m1 s else opens m2 s)"
  "opens (returnM x) s \<longleftrightarrow> is_open s"
  "opens (bindM (modifyM h) k) s \<longleftrightarrow> opens (k ()) (h s)"
  by (simp_all add: opens_def runs bindM_unit)

lemmas opens_simps = opens_runs bindM_unit opens_failHandshake opens_badRequest Let_def

section \<open>What the stages ask of a request\<close>

definition standard_port :: "server_factory \<Rightarrow> bool" where
  "standard_port F \<longleftrightarrow> sf_externalPort F = 0 \<or> sf_isSecure F \<and> sf_externalPort F = 443
     \<or> \<not> sf_isSecure F \<and> sf_externalPort F = 80"

definition has_port :: "('z, 'd) server_setup \<Rightarrow> string \<Rightarrow> bool" where
  "has_port S host \<longleftrightarrow> find_char host CHR '':'' 0 \<noteq> None \<and> \<not> he_ends_with (ss_env S) host '']''"

definition host_of :: "('z, 'd) server_setup \<Rightarrow> string \<Rightarrow> string option" where
  "host_of S host =
     (let F = ss_factory S; pos = the (rfind_char host CHR '':'') in
      if has_port S host then
        (case port_of (sv_boost S) (drop (pos + 1) host) of
           None \<Rightarrow> None
         | Some port \<Rightarrow> if sf_externalPort F = 0 \<or> port = sf_externalPort F then Some (take pos host) else None)
      else if standard_port F then Some host else None)"

text \<open>A port that is given is a number and the one of the server; without one nothing is required.\<close>

definition host_checked :: "('z, 'd) server_setup \<Rightarrow> string \<Rightarrow> bool" where
  "host_checked S host \<longleftrightarrow> (has_port S host \<longrightarrow> host_of S host \<noteq> None)"

definition protocols_of :: "('z, 'd) server_setup \<Rightarrow> header_map \<Rightarrow> string list" where
  "protocols_of S headers =
     (case headers ''sec-websocket-protocol'' of None \<Rightarrow> []
      | Some v \<Rightarrow> map (boost_trim (sv_boost S)) (split_char (sv_boost S) v CHR '','' True))"

definition uri_of :: "boost_str \<Rightarrow> string \<Rightarrow> string" where
  "uri_of B status = boost_trim B (split_words B status ! 1)"

text \<open>\<open>resource_of\<close> is what the request line and the resource give.\<close>

definition resource_of :: "('z, 'd) server_setup \<Rightarrow> string \<Rightarrow> (string \<times> (string \<rightharpoonup> string list)) option" where
  "resource_of S status =
     (case urlParse (sv_boost S) (uri_of (sv_boost S) status) '''' True of
        Inl _ \<Rightarrow> None
      | Inr p \<Rightarrow>
        if up_fragment p \<noteq> [] then None
        else (case parseQS (sv_boost S) (up_query p) False False of
            Inl _ \<Rightarrow> None | Inr q \<Rightarrow> Some (up_path p, q)))"

definition below_limit :: "('z, 'd) server_setup \<Rightarrow> nat \<Rightarrow> bool" where
  "below_limit S n \<longleftrightarrow> so_maxConnections (ss_options S) = 0 \<or> n \<le> so_maxConnections (ss_options S)"

lemma first_duplicate_None:
  "first_duplicate seen ps = None \<longleftrightarrow> distinct ps \<and> set ps \<inter> set seen = {}"
  by (induction seen ps rule: first_duplicate.induct) auto

section \<open>What each stage requires\<close>

lemma opens_request_line:
  assumes "opens (hs_request_line S nxt) s" "\<not> is_open s"
  obtains rl where "split_words (sv_boost S) (sv_httpStatusLine s) = rl" "length rl = 3"
    "boost_trim (sv_boost S) (rl ! 0) = ''GET''"
    "split_char (sv_boost S) (boost_trim (sv_boost S) (rl ! 2)) CHR ''/'' True = [''HTTP'', ''1.1'']"
    "opens (nxt (boost_trim (sv_boost S) (rl ! 1))) s"
proof -
  let ?rl = "split_words (sv_boost S) (sv_httpStatusLine s)"
  let ?vs = "split_char (sv_boost S) (boost_trim (sv_boost S) (?rl ! 2)) CHR ''/'' True"
  have *: "length ?rl = 3" "boost_trim (sv_boost S) (?rl ! 0) = ''GET''" "length ?vs = 2"
    "?vs ! 0 = ''HTTP''" "?vs ! 1 = ''1.1''" "opens (nxt (boost_trim (sv_boost S) (?rl ! 1))) s"
    using assms by (auto simp: hs_request_line_def opens_simps split: if_splits)
  then have "?vs = [''HTTP'', ''1.1'']" by (auto simp: list_eq_iff_nth_eq less_Suc_eq numeral_2_eq_2)
  with * show thesis by (intro that [OF refl])
qed

lemma opens_resource:
  assumes "opens (hs_resource S uri nxt) s" "\<not> is_open s"
  obtains s' p where "opens nxt s'" "\<not> is_open s'" "sv_httpHeaders s' = sv_httpHeaders s"
    "sv_countConnections s' = sv_countConnections s" "urlParse (sv_boost S) uri '''' True = Inr p"
    "up_fragment p = []" "\<not> isl (parseQS (sv_boost S) (up_query p) False False)"
  using assms
  by (auto simp: hs_resource_def opens_simps is_open_def split: sum.splits if_splits)

lemma opens_whenM_bad:
  assumes o: "opens (bindM (whenM b (badRequest r)) (\<lambda>_. nxt)) s" and n: "\<not> is_open s"
  shows "\<exists>s'. opens nxt s' \<and> \<not> is_open s' \<and> sv_httpHeaders s' = sv_httpHeaders s \<and>
     sv_countConnections s' = sv_countConnections s"
proof (cases b)
  case True
  obtain t where t: "badRequest r s = (Inr (), t)" "refused r s t" "sv_httpHeaders t = sv_httpHeaders s"
    "sv_countConnections t = sv_countConnections s"
    unfolding badRequest_def by (rule failHandshake_run)
  have "bindM (whenM b (badRequest r)) (\<lambda>_. nxt) s = nxt t"
    using True by (simp add: runs bindM_after [where m = "badRequest r" and s = s, OF t(1)])
  then show ?thesis using o n t refused_is_open [OF t(2)] by (auto simp: opens_def)
next
  case False
  then show ?thesis using o n by (auto simp: opens_def runs)
qed

lemma opens_host:
  assumes "opens (hs_host S cnt nxt) s" "\<not> is_open s"
  obtains v s' where "sv_httpHeaders s ''host'' = Some v" "header_count_of cnt ''host'' \<le> 1"
    "opens nxt s'" "\<not> is_open s'" "sv_httpHeaders s' = sv_httpHeaders s"
    "sv_countConnections s' = sv_countConnections s" "host_checked S (boost_trim (sv_boost S) v)"
proof -
  obtain v where v: "sv_httpHeaders s ''host'' = Some v" "header_count_of cnt ''host'' \<le> 1"
    using assms by (auto simp: hs_host_def opens_simps split: option.splits if_splits)
  have "host_checked S (boost_trim (sv_boost S) v)"
    using assms v
    by (auto simp: hs_host_def opens_simps host_checked_def has_port_def host_of_def
        is_open_def [of "s\<lparr> sv_httpRequestHost := _ \<rparr>"] split: option.splits if_splits)
       (auto simp: is_open_def)
  moreover have "\<exists>s'. opens nxt s' \<and> \<not> is_open s' \<and> sv_httpHeaders s' = sv_httpHeaders s \<and>
     sv_countConnections s' = sv_countConnections s"
    using assms v
    by (auto simp: hs_host_def opens_simps is_open_def [of "s\<lparr> sv_httpRequestHost := _ \<rparr>"]
        split: option.splits if_splits dest!: opens_whenM_bad)
       (auto simp: is_open_def)
  ultimately show thesis using v that by blast
qed

lemma opens_upgrade:
  assumes "opens (hs_upgrade S nxt) s" "\<not> is_open s"
  obtains u c where "sv_httpHeaders s ''upgrade'' = Some u" "names_token (sv_boost S) u ''websocket''"
    "sv_httpHeaders s ''connection'' = Some c" "names_token (sv_boost S) c ''upgrade''" "opens nxt s"
  using assms
  by (auto simp: hs_upgrade_def opens_simps split: option.splits if_splits dest: opens_hs_no_upgrade)

lemma opens_version:
  assumes "opens (hs_version S cnt nxt) s" "\<not> is_open s"
  obtains v n where "sv_httpHeaders s ''sec-websocket-version'' = Some v"
    "header_count_of cnt ''sec-websocket-version'' \<le> 1" "stoi v = Some n"
    "n \<in> set (so_versions (ss_options S))" "opens nxt (s\<lparr> ws_webSocketVersion := n \<rparr>)"
  using assms by (auto simp: hs_version_def opens_simps split: option.splits if_splits)

lemma opens_protocols:
  assumes "opens (hs_protocols S nxt) s" "\<not> is_open s"
  obtains ps where "opens nxt (s\<lparr> sv_webSocketProtocols := ps \<rparr>)" "distinct (protocols_of S (sv_httpHeaders s))"
  using assms
proof (cases "sv_httpHeaders s ''sec-websocket-protocol''")
  case None
  then have "opens nxt (s\<lparr> sv_webSocketProtocols := sv_webSocketProtocols s \<rparr>)"
    using assms by (simp add: hs_protocols_def opens_simps)
  then show ?thesis by (rule that) (simp add: None protocols_of_def)
next
  case (Some v)
  then show ?thesis
    using assms that
    by (auto simp: hs_protocols_def opens_simps protocols_of_def first_duplicate_None split: option.splits)
qed

text \<open>The origin of a request, if it has one, is parsed and allowed.\<close>

definition origin_ok :: "('z, 'd) server_setup \<Rightarrow> header_map \<Rightarrow> header_count \<Rightarrow> int \<Rightarrow> bool" where
  "origin_ok S headers cnt version =
     (let key = (if version < 13 then ''sec-websocket-origin'' else ''origin'') in
      case headers key of
        None \<Rightarrow> True
      | Some v \<Rightarrow> header_count_of cnt key \<le> 1 \<and>
          (case urlToOrigin (sv_boost S) (boost_trim (sv_boost S) v) of
             Inl _ \<Rightarrow> False | Inr org \<Rightarrow> origin_allowed S org))"

lemma opens_origin:
  assumes "opens (hs_origin S cnt nxt) s" "\<not> is_open s"
  obtains orig where "origin_ok S (sv_httpHeaders s) cnt (ws_webSocketVersion s)"
    "opens nxt (s\<lparr> sv_webSocketOrigin := orig \<rparr>)"
proof (cases "sv_httpHeaders s (if ws_webSocketVersion s < 13 then ''sec-websocket-origin'' else ''origin'')")
  case None
  then have "opens nxt (s\<lparr> sv_webSocketOrigin := sv_webSocketOrigin s \<rparr>)"
    using assms by (simp add: hs_origin_def opens_simps)
  with None show ?thesis by (intro that) (simp add: origin_ok_def Let_def)
next
  case (Some v)
  then show ?thesis
    using assms that
    by (simp add: hs_origin_def opens_simps origin_ok_def is_open_def split: sum.splits if_splits)
qed

definition key_ok :: "('z, 'd) server_setup \<Rightarrow> header_count \<Rightarrow> string \<Rightarrow> bool" where
  "key_ok S cnt key \<longleftrightarrow>
     header_count_of cnt ''sec-websocket-key'' \<le> 1 \<and> length key = 24 \<and>
     he_ends_with (ss_env S) key ''=='' \<and> list_all key_char (take 22 key)"

lemma opens_key:
  assumes "opens (hs_key S cnt nxt) s" "\<not> is_open s"
  obtains v where "sv_httpHeaders s ''sec-websocket-key'' = Some v"
    "key_ok S cnt (boost_trim (sv_boost S) v)" "opens (nxt (boost_trim (sv_boost S) v)) s"
  using assms
  by (auto simp: hs_key_def opens_simps key_ok_def find_None_iff list_all_iff split: option.splits if_splits)

lemma opens_extensions:
  assumes "opens (hs_extensions S cnt nxt) s" "\<not> is_open s"
  obtains es where "opens nxt (s\<lparr> sv_webSocketExtensions := es \<rparr>)"
    "sv_httpHeaders s ''sec-websocket-extensions'' \<noteq> None \<longrightarrow> header_count_of cnt ''sec-websocket-extensions'' \<le> 1"
proof (cases "sv_httpHeaders s ''sec-websocket-extensions''")
  case None
  then have "opens nxt (s\<lparr> sv_webSocketExtensions := sv_webSocketExtensions s \<rparr>)"
    using assms by (simp add: hs_extensions_def opens_simps)
  then show ?thesis by (rule that) (simp add: None)
next
  case (Some v)
  then show ?thesis
    using assms that by (auto simp: hs_extensions_def opens_simps split: if_splits)
qed

text \<open>What \<open>onConnect\<close> answered for the request with these headers.\<close>

definition accepted :: "('z, 'd) server_setup \<Rightarrow> header_map \<Rightarrow> bool" where
  "accepted S headers \<longleftrightarrow> (\<exists>req protocol hs. cr_headers req = headers \<and>
     ss_onConnect S req = Inr (protocol, hs) \<and> (protocol = [] \<or> protocol \<in> set (cr_protocols req)))"

lemma opens_connect:
  assumes "opens (hs_connect S) s" "\<not> is_open s"
  shows "below_limit S (sv_countConnections s) \<and> accepted S (sv_httpHeaders s)"
proof -
  have limit: "below_limit S (sv_countConnections s)"
    using assms by (auto simp: hs_connect_def opens_simps below_limit_def split: if_splits)
  let ?req = "\<lparr> cr_peer = sv_peer s, cr_headers = sv_httpHeaders s,
       cr_host = sv_httpRequestHost s, cr_path = sv_httpRequestPath s,
       cr_params = sv_httpRequestParams s, cr_version = ws_webSocketVersion s,
       cr_origin = sv_webSocketOrigin s, cr_protocols = sv_webSocketProtocols s,
       cr_extensions = sv_webSocketExtensions s \<rparr>"
  obtain protocol hs where r: "ss_onConnect S ?req = Inr (protocol, hs)"
    using assms
    by (auto simp: hs_connect_def opens_simps internal_error_def split: if_splits sum.splits connect_error.splits)
  have "protocol = [] \<or> protocol \<in> set (sv_webSocketProtocols s)"
  proof (rule ccontr)
    assume bad: "\<not> ?thesis"
    then have "opens (hs_connect S) s \<longleftrightarrow> is_open s"
      using limit
      by (auto simp: hs_connect_def r succeedHandshake_def below_limit_def tryM_def runs
          internal_error_def opens_def opens_failHandshake [unfolded opens_def])
    with assms show False by simp
  qed
  with limit r show ?thesis unfolding accepted_def by force
qed

section \<open>The server opens for acceptable requests only\<close>

definition request_line_ok :: "boost_str \<Rightarrow> string \<Rightarrow> bool" where
  "request_line_ok B status \<longleftrightarrow>
     (let rl = split_words B status in
      length rl = 3 \<and> boost_trim B (rl ! 0) = ''GET'' \<and>
      split_char B (boost_trim B (rl ! 2)) CHR ''/'' True = [''HTTP'', ''1.1''])"

definition names_header :: "boost_str \<Rightarrow> header_map \<Rightarrow> string \<Rightarrow> string \<Rightarrow> bool" where
  "names_header B headers name token \<longleftrightarrow>
     (case headers name of None \<Rightarrow> False | Some v \<Rightarrow> names_token B v token)"

definition acceptable :: "('z, 'd) server_setup \<Rightarrow> string \<Rightarrow> header_map \<Rightarrow> header_count \<Rightarrow> bool" where
  "acceptable S status headers cnt \<longleftrightarrow>
     request_line_ok (sv_boost S) status \<and>
     headers ''host'' \<noteq> None \<and> header_count_of cnt ''host'' \<le> 1 \<and>
     names_header (sv_boost S) headers ''upgrade'' ''websocket'' \<and>
     names_header (sv_boost S) headers ''connection'' ''upgrade'' \<and>
     header_count_of cnt ''sec-websocket-version'' \<le> 1 \<and>
     (case headers ''sec-websocket-version'' of
        None \<Rightarrow> False
      | Some v \<Rightarrow> (case stoi v of
            None \<Rightarrow> False
          | Some n \<Rightarrow> n \<in> set (so_versions (ss_options S)) \<and> origin_ok S headers cnt n)) \<and>
     (case headers ''sec-websocket-key'' of
        None \<Rightarrow> False | Some v \<Rightarrow> key_ok S cnt (boost_trim (sv_boost S) v))"

text \<open>All that is asked of a request before \<open>onConnect\<close> is called.\<close>

definition passes_checks :: "('z, 'd) server_setup \<Rightarrow> string \<Rightarrow> header_map \<Rightarrow> header_count \<Rightarrow> bool" where
  "passes_checks S status headers cnt \<longleftrightarrow>
     acceptable S status headers cnt \<and> resource_of S status \<noteq> None \<and>
     host_checked S (boost_trim (sv_boost S) (the (headers ''host''))) \<and>
     distinct (protocols_of S headers) \<and>
     (headers ''sec-websocket-extensions'' \<noteq> None \<longrightarrow> header_count_of cnt ''sec-websocket-extensions'' \<le> 1)"

lemma forwarded_run:
  obtains t where "hs_forwarded S s = (Inr (), t)" "sv_httpHeaders t = sv_httpHeaders s"
    "sv_httpStatusLine t = sv_httpStatusLine s" "is_open t = is_open s" "ws_data t = ws_data s"
    "ws_out t = ws_out s" "ws_state t = ws_state s" "ws_sendQueue t = ws_sendQueue s"
    "sv_countConnections t = sv_countConnections s" "ws_calls t = ws_calls s" "ws_tracked t = ws_tracked s"
    "sv_webSocketExtensions t = sv_webSocketExtensions s" "sv_webSocketProtocols t = sv_webSocketProtocols s"
proof (cases "sv_httpHeaders s ''x-forwarded-for''")
  case None
  then have "hs_forwarded S s = (Inr (), s)" by (simp add: hs_forwarded_def runs)
  then show ?thesis by (rule that) simp_all
next
  case (Some v)
  show ?thesis
  proof (cases "so_trustXForwardedFor (ss_options S) = 0")
    case True
    with Some have "hs_forwarded S s = (Inr (), s)" by (simp add: hs_forwarded_def runs Let_def)
    then show ?thesis by (rule that) simp_all
  next
    case False
    with Some obtain p where "hs_forwarded S s = (Inr (), s\<lparr> sv_peer := p \<rparr>)"
      by (simp add: hs_forwarded_def runs Let_def)
    then show ?thesis by (rule that) (simp_all add: is_open_def)
  qed
qed

lemma opens_request:
  assumes "opens (hs_request S cnt eoh) s" "\<not> is_open s"
  shows "passes_checks S (sv_httpStatusLine s) (sv_httpHeaders s) cnt \<and>
     below_limit S (sv_countConnections s) \<and> accepted S (sv_httpHeaders s)"
proof -
  obtain t where t: "hs_forwarded S s = (Inr (), t)" "sv_httpHeaders t = sv_httpHeaders s"
    "sv_httpStatusLine t = sv_httpStatusLine s" "is_open t = is_open s"
    "sv_countConnections t = sv_countConnections s"
    by (rule forwarded_run)
  have n0: "\<not> is_open t" using assms(2) t(4) by simp
  let ?last = "\<lambda>key. doM [
       modifyM (\<lambda>s. s\<lparr> ws_data := drop (eoh + 4) (ws_data s), sv_webSocketKey := key \<rparr>),
       hs_connect S]"
  have open_t: "opens (hs_request_line S (\<lambda>uri. hs_resource S uri (hs_host S cnt (hs_upgrade S (
     hs_version S cnt (hs_protocols S (hs_origin S cnt (hs_key S cnt (\<lambda>key.
     hs_extensions S cnt (?last key)))))))))) t"
    using assms(1) by (simp add: hs_request_def opens_def runs bindM_unit
        bindM_after [where m = "hs_forwarded S" and s = s, OF t(1)] del: doM.simps)
  obtain rl where rl: "split_words (sv_boost S) (sv_httpStatusLine t) = rl" "length rl = 3"
    "boost_trim (sv_boost S) (rl ! 0) = ''GET''"
    "split_char (sv_boost S) (boost_trim (sv_boost S) (rl ! 2)) CHR ''/'' True = [''HTTP'', ''1.1'']"
    and o1: "opens (hs_resource S (boost_trim (sv_boost S) (rl ! 1)) (hs_host S cnt (hs_upgrade S (
     hs_version S cnt (hs_protocols S (hs_origin S cnt (hs_key S cnt (\<lambda>key.
     hs_extensions S cnt (?last key))))))))) t"
    by (rule opens_request_line [OF open_t n0], rule that)
  obtain s1 p where s1: "opens (hs_host S cnt (hs_upgrade S (
     hs_version S cnt (hs_protocols S (hs_origin S cnt (hs_key S cnt (\<lambda>key.
     hs_extensions S cnt (?last key)))))))) s1" "\<not> is_open s1" "sv_httpHeaders s1 = sv_httpHeaders t"
    "sv_countConnections s1 = sv_countConnections t"
    and p: "urlParse (sv_boost S) (boost_trim (sv_boost S) (rl ! 1)) '''' True = Inr p"
    "up_fragment p = []" "\<not> isl (parseQS (sv_boost S) (up_query p) False False)"
    by (rule opens_resource [OF o1 n0], rule that)
  obtain v s2 where s2: "sv_httpHeaders s1 ''host'' = Some v" "header_count_of cnt ''host'' \<le> 1"
    "opens (hs_upgrade S (hs_version S cnt (hs_protocols S (hs_origin S cnt (hs_key S cnt (\<lambda>key.
     hs_extensions S cnt (?last key))))))) s2" "\<not> is_open s2" "sv_httpHeaders s2 = sv_httpHeaders s1"
    "sv_countConnections s2 = sv_countConnections s1" "host_checked S (boost_trim (sv_boost S) v)"
    by (rule opens_host [OF s1(1,2)], rule that)
  obtain u c where uc: "sv_httpHeaders s2 ''upgrade'' = Some u" "names_token (sv_boost S) u ''websocket''"
    "sv_httpHeaders s2 ''connection'' = Some c" "names_token (sv_boost S) c ''upgrade''"
    "opens (hs_version S cnt (hs_protocols S (hs_origin S cnt (hs_key S cnt (\<lambda>key.
     hs_extensions S cnt (?last key)))))) s2"
    by (rule opens_upgrade [OF s2(3,4)], rule that)
  obtain w n where w: "sv_httpHeaders s2 ''sec-websocket-version'' = Some w"
    "header_count_of cnt ''sec-websocket-version'' \<le> 1" "stoi w = Some n"
    "n \<in> set (so_versions (ss_options S))"
    "opens (hs_protocols S (hs_origin S cnt (hs_key S cnt (\<lambda>key.
     hs_extensions S cnt (?last key))))) (s2\<lparr> ws_webSocketVersion := n \<rparr>)"
    by (rule opens_version [OF uc(5) s2(4)], rule that)
  have n3: "\<not> is_open (s2\<lparr> ws_webSocketVersion := n \<rparr>)" using s2(4) by (simp add: is_open_def)
  obtain ps where o4: "opens (hs_origin S cnt (hs_key S cnt (\<lambda>key. hs_extensions S cnt (?last key))))
     (s2\<lparr> ws_webSocketVersion := n, sv_webSocketProtocols := ps \<rparr>)"
    and ps: "distinct (protocols_of S (sv_httpHeaders s2))"
    by (rule opens_protocols [OF w(5) n3], rule that) simp_all
  have n4: "\<not> is_open (s2\<lparr> ws_webSocketVersion := n, sv_webSocketProtocols := ps \<rparr>)"
    using s2(4) by (simp add: is_open_def)
  obtain orig where orig: "origin_ok S (sv_httpHeaders s2) cnt n"
    "opens (hs_key S cnt (\<lambda>key. hs_extensions S cnt (?last key)))
       (s2\<lparr> ws_webSocketVersion := n, sv_webSocketProtocols := ps, sv_webSocketOrigin := orig \<rparr>)"
    by (rule opens_origin [OF o4 n4], rule that) simp_all
  have n5: "\<not> is_open (s2\<lparr> ws_webSocketVersion := n, sv_webSocketProtocols := ps, sv_webSocketOrigin := orig \<rparr>)"
    using s2(4) by (simp add: is_open_def)
  obtain k where k: "sv_httpHeaders s2 ''sec-websocket-key'' = Some k" "key_ok S cnt (boost_trim (sv_boost S) k)"
    and o6: "opens (hs_extensions S cnt (?last (boost_trim (sv_boost S) k)))
       (s2\<lparr> ws_webSocketVersion := n, sv_webSocketProtocols := ps, sv_webSocketOrigin := orig \<rparr>)"
    by (rule opens_key [OF orig(2) n5], rule that) simp_all
  obtain es where es: "opens (?last (boost_trim (sv_boost S) k)) (s2\<lparr> ws_webSocketVersion := n,
       sv_webSocketProtocols := ps, sv_webSocketOrigin := orig, sv_webSocketExtensions := es \<rparr>)"
    "sv_httpHeaders s2 ''sec-websocket-extensions'' \<noteq> None \<longrightarrow>
       header_count_of cnt ''sec-websocket-extensions'' \<le> 1"
    by (rule opens_extensions [OF o6 n5], rule that) simp_all
  have last: "opens (hs_connect S) (s2\<lparr> ws_webSocketVersion := n, sv_webSocketProtocols := ps,
       sv_webSocketOrigin := orig, sv_webSocketExtensions := es, ws_data := drop (eoh + 4) (ws_data s2),
       sv_webSocketKey := boost_trim (sv_boost S) k \<rparr>)"
    using es(1) by (simp add: opens_simps)
  have "below_limit S (sv_countConnections s2) \<and> accepted S (sv_httpHeaders s2)"
    using opens_connect [OF last] s2(4) by (simp add: is_open_def)
  moreover have "resource_of S (sv_httpStatusLine t) \<noteq> None"
    using p rl(1) by (cases "parseQS (sv_boost S) (up_query p) False False") (simp_all add: resource_of_def uri_of_def)
  ultimately show ?thesis
    using rl s2 uc w orig k ps es(2) t(2,3,5) s1(3,4)
    by (simp add: passes_checks_def acceptable_def request_line_ok_def names_header_def Let_def)
qed

lemma is_open_handshake_none:
  assumes "StrNStr (ws_data s) header_end = None" "is_open (snd (processHandshake S s))"
  shows "is_open s"
proof -
  have "evolves no_open_rel (serve_policy S)"
    unfolding serve_policy_def
    by (intro nor.ev_rules no_open_sendText no_open_dropConnection evolves_modifyM)
       (simp add: no_open_rel_def is_open_def)
  from evolvesD [OF this, of s] show ?thesis
    using assms by (simp add: processHandshake_def runs no_open_rel_def)
qed

text \<open>
  C4: Safety of the opening handshake. Whatever octets have arrived, and whatever the application's
  \<open>onConnect\<close> says, \<open>processHandshake\<close> reports an open connection only when the buffer holds
  a complete HTTP header that passes the checks of the handshake: a request line with \<open>GET\<close>, a
  resource without fragment whose query can be read and \<open>HTTP/1.1\<close>; one \<open>Host\<close>, whose port, if it
  has one, is a number and, modulo \<open>2 ^ 16\<close>, the external port of the server if that is set;
  \<open>Upgrade\<close> and \<open>Connection\<close> that name the tokens; a single version among those offered; no protocol
  twice; an origin that is absent or single and allowed; a single well-formed key; at most one header of
  extensions. The factory is within its limit of connections, and \<open>onConnect\<close> has accepted a request
  with these headers, with one of its protocols or none. A missing port on a server with a port of its own
  is the one violation that is answered and not enforced (\<open>missing_port_opens_dropped_connection\<close>).
\<close>

theorem server_opens_only_acceptable:
  assumes "\<not> is_open s" and "is_open (snd (processHandshake S s))"
  shows "\<exists>eoh status headers cnt. StrNStr (ws_data s) header_end = Some eoh \<and>
     parseHttpHeader (sv_boost S) (string_of_bytes (take (eoh + 4) (ws_data s))) = (status, headers, cnt) \<and>
     passes_checks S status headers cnt \<and> below_limit S (sv_countConnections s) \<and> accepted S headers"
proof (cases "StrNStr (ws_data s) header_end")
  case None
  then show ?thesis using is_open_handshake_none assms by blast
next
  case (Some eoh)
  obtain status headers cnt where p:
    "parseHttpHeader (sv_boost S) (string_of_bytes (take (eoh + 4) (ws_data s))) = (status, headers, cnt)"
    by (rule prod_cases3)
  let ?s = "s\<lparr> sv_httpRequestData := string_of_bytes (take (eoh + 4) (ws_data s)),
      sv_httpStatusLine := status, sv_httpHeaders := headers \<rparr>"
  have "opens (hs_request S cnt eoh) ?s"
    using assms(2) Some p by (simp add: processHandshake_def opens_def runs bindM_unit)
  moreover have "\<not> is_open ?s" using assms(1) by (simp add: is_open_def)
  ultimately have "passes_checks S status headers cnt \<and> below_limit S (sv_countConnections s) \<and> accepted S headers"
    using opens_request [of S cnt eoh ?s] by simp
  with Some p show ?thesis by blast
qed

section \<open>What an accepted request gets\<close>

text \<open>\<open>sendData\<close> with nothing queued writes at once.\<close>

lemma sendData_now:
  assumes "ws_sendQueue s = []"
  shows "\<exists>x. sendData data False 0 s = (Inr (), s\<lparr> ws_out := ws_out s @ [Write data], ws_stats := x \<rparr>)"
proof -
  let ?n = "length data" and ?t = "ws_stats s"
  let ?x = "if ws_state s = OPEN then ?t\<lparr> ts_outgoingOctetsWireLevel := ts_outgoingOctetsWireLevel ?t + ?n \<rparr>
     else if ws_state s = CONNECTING \<or> ws_state s = PROXY_CONNECTING
     then ?t\<lparr> ts_preopenOutgoingOctetsWireLevel := ts_preopenOutgoingOctetsWireLevel ?t + ?n \<rparr> else ?t"
  have "sendData data False 0 s = (Inr (), s\<lparr> ws_out := ws_out s @ [Write data], ws_stats := ?x \<rparr>)"
    using assms
    by (simp add: sendData_def runs bindM_unit emitM_def countWire_def statsM_def)
  then show ?thesis by blast
qed

lemma sendText_now:
  "ws_sendQueue s = [] \<Longrightarrow>
   \<exists>x. sendText txt s = (Inr (), s\<lparr> ws_out := ws_out s @ [Write (bytes_of_string txt)], ws_stats := x \<rparr>)"
  unfolding sendText_def by (rule sendData_now)

text \<open>What the server reports and asks of the reactor when it opens.\<close>

definition open_events :: "'c ws_config \<Rightarrow> ('c, 'm) ws_conn_scheme \<Rightarrow> ws_event list" where
  "open_events cf s =
     (if call_cancelled (ws_calls s OpenHandshakeTimer) then [] else [CancelTimer OpenHandshakeTimer])
     @ (if cf_autoPingInterval cf > 0 then [CallLater AutoPingPendingTimer (cf_autoPingInterval cf)] else [])
     @ (if ws_tracked s then [Track ''onOpen''] else []) @ [OnOpen]"

lemma server_open_run:
  "\<exists>c. server_open S s = (Inr (), s\<lparr> ws_state := OPEN, ws_calls := c, ws_insideMessage := False,
     ws_currentFrame := None, ws_out := ws_out s @ open_events (ss_config S) s \<rparr>)"
proof -
  let ?c0 = "if call_cancelled (ws_calls s OpenHandshakeTimer) then ws_calls s
     else (ws_calls s)(OpenHandshakeTimer := Cancelling)"
  let ?c = "if cf_autoPingInterval (ss_config S) > 0 then ?c0(AutoPingPendingTimer := Pending) else ?c0"
  have "server_open S s = (Inr (), s\<lparr> ws_state := OPEN, ws_calls := ?c, ws_insideMessage := False,
     ws_currentFrame := None, ws_out := ws_out s @ open_events (ss_config S) s \<rparr>)"
    by (cases "call_cancelled (ws_calls s OpenHandshakeTimer)"; cases "cf_autoPingInterval (ss_config S) > 0";
        cases "ws_tracked s")
       (simp_all add: server_open_def cancel_openHandshakeTimeout_def start_autoPing_def trackM_def
        cancelM_def callLaterM_def emitM_def runs bindM_unit open_events_def)
  then show ?thesis by blast
qed

lemma succeed_run:
  assumes "ws_sendQueue s = []" "ws_data s = []" "protocol = [] \<or> protocol \<in> set (sv_webSocketProtocols s)"
    "collect_offers (sv_webSocketExtensions s) = Inr offers"
  shows "\<exists>t. succeedHandshake S (protocol, headers) s = (Inr (), t) \<and> ws_state t = OPEN \<and>
     ws_out t = ws_out s @ Write (bytes_of_string (switching_response S protocol headers
       (sv_webSocketKey s) (accept_offers S offers))) # open_events (ss_config S) s \<and>
     sv_webSocketProtocolInUse t = protocol \<and> ws_droppedByMe t = ws_droppedByMe s \<and>
     ws_pmce t = (case accept_offers S offers of None \<Rightarrow> ws_pmce s
       | Some a \<Rightarrow> Some (createFromOfferAccept True a))"
proof -
  let ?a = "accept_offers S offers"
  let ?r = "switching_response S protocol headers (sv_webSocketKey s) ?a"
  let ?s1 = "s\<lparr> sv_webSocketProtocolInUse := protocol \<rparr>"
  obtain s2 where s2: "use_compression ?a ?s1 = (Inr (), s2)" "ws_sendQueue s2 = []" "ws_data s2 = []"
    "ws_out s2 = ws_out s" "sv_webSocketProtocolInUse s2 = protocol" "ws_calls s2 = ws_calls s"
    "ws_tracked s2 = ws_tracked s" "ws_droppedByMe s2 = ws_droppedByMe s"
    "ws_pmce s2 = (case ?a of None \<Rightarrow> ws_pmce s | Some a \<Rightarrow> Some (createFromOfferAccept True a))"
    by (cases ?a) (use assms(1,2) in \<open>simp_all add: use_compression_def runs\<close>)
  obtain x where x: "sendText ?r s2 = (Inr (), s2\<lparr> ws_out := ws_out s2 @ [Write (bytes_of_string ?r)], ws_stats := x \<rparr>)"
    using sendText_now [OF s2(2), of ?r] by blast
  let ?s3 = "s2\<lparr> ws_out := ws_out s2 @ [Write (bytes_of_string ?r)], ws_stats := x, sv_httpResponseData := ?r \<rparr>"
  obtain c where c: "server_open S ?s3 = (Inr (), ?s3\<lparr> ws_state := OPEN, ws_calls := c, ws_insideMessage := False,
     ws_currentFrame := None, ws_out := ws_out ?s3 @ open_events (ss_config S) ?s3 \<rparr>)"
    using server_open_run [of S ?s3] by blast
  let ?t = "?s3\<lparr> ws_state := OPEN, ws_calls := c, ws_insideMessage := False,
     ws_currentFrame := None, ws_out := ws_out ?s3 @ open_events (ss_config S) ?s3 \<rparr>"
  have "ws_data ?t = []" using s2(3) by simp
  then have "succeedHandshake S (protocol, headers) s = (Inr (), ?t)"
    using assms(3,4)
    by (auto simp: succeedHandshake_def runs bindM_unit Let_def
        bindM_after [where m = "use_compression ?a" and s = ?s1, OF s2(1)]
        bindM_after [where m = "sendText ?r" and s = s2, OF x]
        bindM_after [where m = "server_open S" and s = ?s3, OF c] simp del: doM.simps)
  moreover have "open_events (ss_config S) ?s3 = open_events (ss_config S) s"
    using s2(6,7) by (simp add: open_events_def)
  ultimately show ?thesis using s2(4,5,8,9) by simp
qed


section \<open>The request an application sees\<close>

text \<open>
  \<open>request_of\<close> says without any state what \<open>onConnect\<close> is called with, and the key of
  the answer; it is defined for the requests that pass every check.
\<close>

definition peer_of :: "('z, 'd) server_setup \<Rightarrow> header_map \<Rightarrow> string \<Rightarrow> string" where
  "peer_of S headers peer =
     (case headers ''x-forwarded-for'' of
        None \<Rightarrow> peer
      | Some v \<Rightarrow>
        let trust = so_trustXForwardedFor (ss_options S);
            addresses = split_char (sv_boost S) v CHR '','' True in
        if trust = 0 then peer
        else boost_trim (sv_boost S)
          (if length addresses > trust then addresses ! (length addresses - trust) else hd addresses))"

definition origin_of :: "('z, 'd) server_setup \<Rightarrow> header_map \<Rightarrow> int \<Rightarrow> string" where
  "origin_of S headers version =
     (case headers (if version < 13 then ''sec-websocket-origin'' else ''origin'') of
        None \<Rightarrow> '''' | Some v \<Rightarrow> boost_trim (sv_boost S) v)"

definition extensions_of :: "('z, 'd) server_setup \<Rightarrow> header_map \<Rightarrow> ext_list" where
  "extensions_of S headers =
     (case headers ''sec-websocket-extensions'' of None \<Rightarrow> []
      | Some v \<Rightarrow> parseExtensionsHeader (sv_boost S) v True)"

definition request_of :: "('z, 'd) server_setup \<Rightarrow> string \<Rightarrow> string \<Rightarrow> header_map \<Rightarrow> header_count
    \<Rightarrow> (connection_request \<times> string) option" where
  "request_of S peer status headers cnt =
     (let B = sv_boost S; version = the (stoi (the (headers ''sec-websocket-version''))) in
      if \<not> acceptable S status headers cnt \<or> \<not> distinct (protocols_of S headers)
         \<or> header_count_of cnt ''sec-websocket-extensions'' > 1 then None
      else (case (resource_of S status, host_of S (boost_trim B (the (headers ''host'')))) of
          (Some (path, q), Some host) \<Rightarrow>
            Some (\<lparr> cr_peer = peer_of S headers peer, cr_headers = headers, cr_host = host,
                cr_path = path, cr_params = q, cr_version = version,
                cr_origin = origin_of S headers version, cr_protocols = protocols_of S headers,
                cr_extensions = extensions_of S headers \<rparr>,
              boost_trim B (the (headers ''sec-websocket-key'')))
        | _ \<Rightarrow> None))"

text \<open>The stages that let a request pass.\<close>

lemma server_update_same:
  "sv_webSocketProtocols s = [] \<Longrightarrow> s\<lparr> sv_webSocketProtocols := [] \<rparr> = s"
  "sv_webSocketOrigin s = [] \<Longrightarrow> s\<lparr> sv_webSocketOrigin := [] \<rparr> = s"
  "sv_webSocketExtensions s = [] \<Longrightarrow> s\<lparr> sv_webSocketExtensions := [] \<rparr> = s"
  by simp_all

lemma forwarded_ok: "hs_forwarded S s = (Inr (), s\<lparr> sv_peer := peer_of S (sv_httpHeaders s) (sv_peer s) \<rparr>)"
  by (simp add: hs_forwarded_def peer_of_def runs Let_def split: option.split)

lemma request_line_pass:
  "request_line_ok (sv_boost S) (sv_httpStatusLine s) \<Longrightarrow>
   hs_request_line S nxt s = nxt (uri_of (sv_boost S) (sv_httpStatusLine s)) s"
  by (simp add: hs_request_line_def request_line_ok_def uri_of_def runs Let_def)

lemma resource_pass:
  "urlParse (sv_boost S) uri '''' True = Inr p \<Longrightarrow> up_fragment p = [] \<Longrightarrow>
   parseQS (sv_boost S) (up_query p) False False = Inr q \<Longrightarrow>
   hs_resource S uri nxt s = nxt (s\<lparr> sv_httpRequestUri := uri, sv_httpRequestPath := up_path p,
     sv_httpRequestParams := q \<rparr>)"
  by (simp add: hs_resource_def runs bindM_unit)

lemma host_pass:
  "sv_httpHeaders s ''host'' = Some v \<Longrightarrow> header_count_of cnt ''host'' \<le> 1 \<Longrightarrow>
   host_of S (boost_trim (sv_boost S) v) = Some h \<Longrightarrow>
   hs_host S cnt nxt s = nxt (s\<lparr> sv_httpRequestHost := h \<rparr>)"
  by (auto simp: hs_host_def host_of_def has_port_def standard_port_def runs bindM_unit Let_def
      split: option.splits if_splits)

lemma upgrade_pass:
  "names_header (sv_boost S) (sv_httpHeaders s) ''upgrade'' ''websocket'' \<Longrightarrow>
   names_header (sv_boost S) (sv_httpHeaders s) ''connection'' ''upgrade'' \<Longrightarrow>
   hs_upgrade S nxt s = nxt s"
  by (auto simp: hs_upgrade_def names_header_def runs split: option.splits)

lemma version_pass:
  "sv_httpHeaders s ''sec-websocket-version'' = Some v \<Longrightarrow>
   header_count_of cnt ''sec-websocket-version'' \<le> 1 \<Longrightarrow> stoi v = Some n \<Longrightarrow>
   n \<in> set (so_versions (ss_options S)) \<Longrightarrow>
   hs_version S cnt nxt s = nxt (s\<lparr> ws_webSocketVersion := n \<rparr>)"
  by (simp add: hs_version_def runs bindM_unit)

lemma protocols_pass:
  "sv_webSocketProtocols s = [] \<Longrightarrow> distinct (protocols_of S (sv_httpHeaders s)) \<Longrightarrow>
   hs_protocols S nxt s = nxt (s\<lparr> sv_webSocketProtocols := protocols_of S (sv_httpHeaders s) \<rparr>)"
  by (cases "sv_httpHeaders s ''sec-websocket-protocol''")
     (simp_all add: hs_protocols_def protocols_of_def runs bindM_unit Let_def server_update_same
        first_duplicate_None [THEN iffD2])

lemma origin_pass:
  "sv_webSocketOrigin s = [] \<Longrightarrow> origin_ok S (sv_httpHeaders s) cnt (ws_webSocketVersion s) \<Longrightarrow>
   hs_origin S cnt nxt s =
   nxt (s\<lparr> sv_webSocketOrigin := origin_of S (sv_httpHeaders s) (ws_webSocketVersion s) \<rparr>)"
  by (cases "sv_httpHeaders s (if ws_webSocketVersion s < 13 then ''sec-websocket-origin'' else ''origin'')")
     (simp_all add: hs_origin_def origin_ok_def origin_of_def runs bindM_unit Let_def server_update_same
       split: sum.splits, auto)

lemma key_pass:
  "sv_httpHeaders s ''sec-websocket-key'' = Some v \<Longrightarrow> key_ok S cnt (boost_trim (sv_boost S) v) \<Longrightarrow>
   hs_key S cnt nxt s = nxt (boost_trim (sv_boost S) v) s"
  by (simp add: hs_key_def key_ok_def runs Let_def find_None_iff [THEN iffD2] list_all_iff)

lemma extensions_pass:
  "sv_webSocketExtensions s = [] \<Longrightarrow> header_count_of cnt ''sec-websocket-extensions'' \<le> 1 \<Longrightarrow>
   hs_extensions S cnt nxt s = nxt (s\<lparr> sv_webSocketExtensions := extensions_of S (sv_httpHeaders s) \<rparr>)"
  by (auto simp: hs_extensions_def extensions_of_def runs bindM_unit server_update_same split: option.split)


section \<open>The end of a handshake\<close>

text \<open>A connection on which nothing has been sent and the fields of a request are unset.\<close>

definition awaiting :: "('c, 'm) ws_server_scheme \<Rightarrow> bool" where
  "awaiting s \<longleftrightarrow> sv_webSocketProtocols s = [] \<and> sv_webSocketOrigin s = [] \<and>
     sv_webSocketExtensions s = [] \<and> ws_sendQueue s = []"

lemma connect_pass:
  assumes "ws_sendQueue s = []" "ws_data s = []" "below_limit S (sv_countConnections s)"
    "ss_onConnect S \<lparr> cr_peer = sv_peer s, cr_headers = sv_httpHeaders s,
       cr_host = sv_httpRequestHost s, cr_path = sv_httpRequestPath s,
       cr_params = sv_httpRequestParams s, cr_version = ws_webSocketVersion s,
       cr_origin = sv_webSocketOrigin s, cr_protocols = sv_webSocketProtocols s,
       cr_extensions = sv_webSocketExtensions s \<rparr> = Inr (protocol, headers)"
    "protocol = [] \<or> protocol \<in> set (sv_webSocketProtocols s)"
    "collect_offers (sv_webSocketExtensions s) = Inr offers"
  shows "\<exists>t. hs_connect S s = (Inr (), t) \<and> ws_state t = OPEN \<and>
     ws_out t = ws_out s @ Write (bytes_of_string (switching_response S protocol headers
       (sv_webSocketKey s) (accept_offers S offers))) # open_events (ss_config S) s \<and>
     sv_webSocketProtocolInUse t = protocol \<and> ws_droppedByMe t = ws_droppedByMe s \<and>
     ws_pmce t = (case accept_offers S offers of None \<Rightarrow> ws_pmce s
       | Some a \<Rightarrow> Some (createFromOfferAccept True a))"
proof -
  obtain t where t: "succeedHandshake S (protocol, headers) s = (Inr (), t)" "ws_state t = OPEN"
     "ws_out t = ws_out s @ Write (bytes_of_string (switching_response S protocol headers
       (sv_webSocketKey s) (accept_offers S offers))) # open_events (ss_config S) s"
     "sv_webSocketProtocolInUse t = protocol" "ws_droppedByMe t = ws_droppedByMe s"
     "ws_pmce t = (case accept_offers S offers of None \<Rightarrow> ws_pmce s
       | Some a \<Rightarrow> Some (createFromOfferAccept True a))"
    using succeed_run [OF assms(1,2,5,6)] by blast
  have "\<not> (so_maxConnections (ss_options S) > 0 \<and> sv_countConnections s > so_maxConnections (ss_options S))"
    using assms(3) by (auto simp: below_limit_def)
  then have "hs_connect S s = (Inr (), t)"
    unfolding hs_connect_def withM_def by (auto simp: assms(4) tryM_def t(1))
  with t(2-) show ?thesis by blast
qed


text \<open>The stages behind the host.\<close>

definition after_host :: "('z, 'd) server_setup \<Rightarrow> header_count \<Rightarrow> nat \<Rightarrow> ('z, 'd, unit) srv_prog" where
  "after_host S cnt eoh =
     hs_upgrade S (hs_version S cnt (hs_protocols S (hs_origin S cnt (hs_key S cnt (\<lambda>key.
     hs_extensions S cnt (doM [
       modifyM (\<lambda>s. s\<lparr> ws_data := drop (eoh + 4) (ws_data s), sv_webSocketKey := key \<rparr>),
       hs_connect S]))))))"

lemma acceptableD:
  assumes "acceptable S status headers cnt"
  obtains h v n k where "headers ''host'' = Some h" "header_count_of cnt ''host'' \<le> 1"
    "names_header (sv_boost S) headers ''upgrade'' ''websocket''"
    "names_header (sv_boost S) headers ''connection'' ''upgrade''"
    "header_count_of cnt ''sec-websocket-version'' \<le> 1" "headers ''sec-websocket-version'' = Some v"
    "stoi v = Some n" "n \<in> set (so_versions (ss_options S))" "origin_ok S headers cnt n"
    "headers ''sec-websocket-key'' = Some k" "key_ok S cnt (boost_trim (sv_boost S) k)"
    "request_line_ok (sv_boost S) status"
  using assms by (auto simp: acceptable_def split: option.splits)

lemma after_host_run:
  assumes a: "acceptable S status (sv_httpHeaders s) cnt" "awaiting s"
    and d: "distinct (protocols_of S (sv_httpHeaders s))"
    and x: "header_count_of cnt ''sec-websocket-extensions'' \<le> 1"
    and n: "n = the (stoi (the (sv_httpHeaders s ''sec-websocket-version'')))"
  shows "after_host S cnt eoh s = hs_connect S (s\<lparr> ws_webSocketVersion := n,
     sv_webSocketProtocols := protocols_of S (sv_httpHeaders s),
     sv_webSocketOrigin := origin_of S (sv_httpHeaders s) n,
     sv_webSocketExtensions := extensions_of S (sv_httpHeaders s),
     ws_data := drop (eoh + 4) (ws_data s),
     sv_webSocketKey := boost_trim (sv_boost S) (the (sv_httpHeaders s ''sec-websocket-key'')) \<rparr>)"
proof -
  let ?h = "sv_httpHeaders s"
  obtain h v m k where *: "?h ''host'' = Some h" "header_count_of cnt ''host'' \<le> 1"
    "names_header (sv_boost S) ?h ''upgrade'' ''websocket''"
    "names_header (sv_boost S) ?h ''connection'' ''upgrade''"
    "header_count_of cnt ''sec-websocket-version'' \<le> 1" "?h ''sec-websocket-version'' = Some v"
    "stoi v = Some m" "m \<in> set (so_versions (ss_options S))" "origin_ok S ?h cnt m"
    "?h ''sec-websocket-key'' = Some k" "key_ok S cnt (boost_trim (sv_boost S) k)"
    "request_line_ok (sv_boost S) status"
    using a(1) by (rule acceptableD)
  have m: "n = m" using * n by simp
  have f: "sv_webSocketProtocols s = []" "sv_webSocketOrigin s = []" "sv_webSocketExtensions s = []"
    using a(2) by (simp_all add: awaiting_def)
  let ?s1 = "s\<lparr> ws_webSocketVersion := n \<rparr>"
  let ?s2 = "?s1\<lparr> sv_webSocketProtocols := protocols_of S ?h \<rparr>"
  let ?s3 = "?s2\<lparr> sv_webSocketOrigin := origin_of S ?h n \<rparr>"
  let ?s4 = "?s3\<lparr> sv_webSocketExtensions := extensions_of S ?h \<rparr>"
  have p: "distinct (protocols_of S (sv_httpHeaders ?s1))" "sv_webSocketProtocols ?s1 = []"
    using d f by simp_all
  have o: "sv_webSocketOrigin ?s2 = []" "origin_ok S (sv_httpHeaders ?s2) cnt (ws_webSocketVersion ?s2)"
    using * m f by simp_all
  have k: "sv_httpHeaders ?s3 ''sec-websocket-key'' = Some k" and e: "sv_webSocketExtensions ?s3 = []"
    using * f by simp_all
  show ?thesis
    unfolding after_host_def upgrade_pass [OF *(3,4)] version_pass [OF *(6,5,7,8)] m [symmetric]
    using protocols_pass [OF p(2,1)] origin_pass [OF o] key_pass [OF k *(11)] extensions_pass [OF e x] *(10)
    by (simp add: runs bindM_unit)
qed

lemma before_host:
  assumes "StrNStr (ws_data s) header_end = Some eoh"
    and "parseHttpHeader (sv_boost S) (string_of_bytes (take (eoh + 4) (ws_data s))) = (status, headers, cnt)"
    and "request_line_ok (sv_boost S) status" "resource_of S status = Some (path, q)"
  shows "processHandshake S s = hs_host S cnt (after_host S cnt eoh)
    (s\<lparr> sv_httpRequestData := string_of_bytes (take (eoh + 4) (ws_data s)),
       sv_httpStatusLine := status, sv_httpHeaders := headers, sv_peer := peer_of S headers (sv_peer s),
       sv_httpRequestUri := uri_of (sv_boost S) status, sv_httpRequestPath := path, sv_httpRequestParams := q \<rparr>)"
proof -
  obtain p where r: "urlParse (sv_boost S) (uri_of (sv_boost S) status) '''' True = Inr p"
    "up_fragment p = []" "parseQS (sv_boost S) (up_query p) False False = Inr q" "path = up_path p"
    using assms(4) unfolding resource_of_def by (auto split: if_splits sum.splits)
  let ?s1 = "s\<lparr> sv_httpRequestData := string_of_bytes (take (eoh + 4) (ws_data s)),
     sv_httpStatusLine := status, sv_httpHeaders := headers, sv_peer := peer_of S headers (sv_peer s) \<rparr>"
  show ?thesis
    using assms(1-3) request_line_pass [of S ?s1] resource_pass [OF r(1-3)]
    by (simp add: processHandshake_def hs_request_def runs bindM_unit forwarded_ok
        bindM_after [OF forwarded_ok] after_host_def r(4))
qed

lemma accepts_run:
  assumes "StrNStr (ws_data s) header_end = Some eoh" "drop (eoh + 4) (ws_data s) = []"
    and "parseHttpHeader (sv_boost S) (string_of_bytes (take (eoh + 4) (ws_data s))) = (status, headers, cnt)"
    and "request_of S (sv_peer s) status headers cnt = Some (req, key)"
    and "awaiting s" "below_limit S (sv_countConnections s)"
    and "ss_onConnect S req = Inr (protocol, hs)" "protocol = [] \<or> protocol \<in> set (cr_protocols req)"
    and "collect_offers (cr_extensions req) = Inr offers"
  shows "\<exists>t. processHandshake S s = (Inr (), t) \<and> ws_state t = OPEN \<and>
     ws_out t = ws_out s @ Write (bytes_of_string (switching_response S protocol hs key
       (accept_offers S offers))) # open_events (ss_config S) s \<and>
     sv_webSocketProtocolInUse t = protocol \<and> ws_droppedByMe t = ws_droppedByMe s \<and>
     ws_pmce t = (case accept_offers S offers of None \<Rightarrow> ws_pmce s
       | Some a \<Rightarrow> Some (createFromOfferAccept True a))"
proof -
  let ?B = "sv_boost S" and ?n = "the (stoi (the (headers ''sec-websocket-version'')))"
  obtain path q host where r: "acceptable S status headers cnt" "distinct (protocols_of S headers)"
    "header_count_of cnt ''sec-websocket-extensions'' \<le> 1" "resource_of S status = Some (path, q)"
    "host_of S (boost_trim ?B (the (headers ''host''))) = Some host"
    and req: "req = \<lparr> cr_peer = peer_of S headers (sv_peer s), cr_headers = headers, cr_host = host,
       cr_path = path, cr_params = q, cr_version = ?n, cr_origin = origin_of S headers ?n,
       cr_protocols = protocols_of S headers, cr_extensions = extensions_of S headers \<rparr>"
    and key: "key = boost_trim ?B (the (headers ''sec-websocket-key''))"
    using assms(4) unfolding request_of_def Let_def
    by (auto split: if_splits option.splits)
  obtain h where h: "headers ''host'' = Some h" "header_count_of cnt ''host'' \<le> 1"
    "request_line_ok ?B status"
    using r(1) by (rule acceptableD)
  let ?s2 = "s\<lparr> sv_httpRequestData := string_of_bytes (take (eoh + 4) (ws_data s)),
     sv_httpStatusLine := status, sv_httpHeaders := headers, sv_peer := peer_of S headers (sv_peer s),
     sv_httpRequestUri := uri_of ?B status, sv_httpRequestPath := path, sv_httpRequestParams := q \<rparr>"
  let ?s3 = "?s2\<lparr> sv_httpRequestHost := host \<rparr>"
  have "processHandshake S s = after_host S cnt eoh ?s3"
    using before_host [OF assms(1,3) h(3) r(4)] host_pass [of ?s2 h cnt S host] h(1,2) r(5) by simp
  also have "\<dots> = hs_connect S (?s3\<lparr> ws_webSocketVersion := ?n,
     sv_webSocketProtocols := protocols_of S headers, sv_webSocketOrigin := origin_of S headers ?n,
     sv_webSocketExtensions := extensions_of S headers, ws_data := [], sv_webSocketKey := key \<rparr>)"
    (is "_ = hs_connect S ?u")
    using after_host_run [of S status ?s3 cnt ?n eoh] r(1-3) assms(2,5)
    by (simp add: key awaiting_def)
  finally have run: "processHandshake S s = hs_connect S ?u" .
  show ?thesis
    unfolding run
    using connect_pass [of ?u S protocol hs offers] assms(5-9)
    by (simp add: req awaiting_def open_events_def cong: option.case_cong)
qed


text \<open>
  C9: A request that passes every check, on a connection within the limit of connections and whose
  application accepts it with one of the protocols of the client or none, is answered with the
  \<open>101\<close> response for its key and the first acceptable compression offer: the response is written at
  once, the handshake timer is cancelled, the state becomes \<open>OPEN\<close> and \<open>onOpen\<close> is reported last.
\<close>

theorem server_accepts_request:
  assumes "StrNStr (ws_data s) header_end = Some eoh" "drop (eoh + 4) (ws_data s) = []"
    and "parseHttpHeader (sv_boost S) (string_of_bytes (take (eoh + 4) (ws_data s))) = (status, headers, cnt)"
    and "request_of S (sv_peer s) status headers cnt = Some (req, key)"
    and "awaiting s" "below_limit S (sv_countConnections s)"
    and "ss_onConnect S req = Inr (protocol, hs)" "protocol = [] \<or> protocol \<in> set (cr_protocols req)"
    and "collect_offers (cr_extensions req) = Inr offers"
  shows "\<exists>t. processHandshake S s = (Inr (), t) \<and> ws_state t = OPEN \<and>
     ws_out t = ws_out s @ Write (bytes_of_string (switching_response S protocol hs key
       (accept_offers S offers))) # open_events (ss_config S) s \<and>
     sv_webSocketProtocolInUse t = protocol \<and> ws_droppedByMe t = ws_droppedByMe s \<and>
     ws_pmce t = (case accept_offers S offers of None \<Rightarrow> ws_pmce s
       | Some a \<Rightarrow> Some (createFromOfferAccept True a))"
  by (rule accepts_run [OF assms])

text \<open>A failed handshake with nothing queued.\<close>

lemma fail_now:
  assumes "ws_sendQueue s = []" "ws_state s \<noteq> CLOSED"
  shows "\<exists>x. failHandshake reason code hs s = (Inr (), s\<lparr> ws_wasNotCleanReason := Some reason,
     ws_stats := x, ws_droppedByMe := True, ws_state := CLOSED,
     ws_out := ws_out s @ [Write (bytes_of_string (http_error_text code reason hs)), LoseConnection] \<rparr>)"
proof -
  let ?s1 = "s\<lparr> ws_wasNotCleanReason := Some reason \<rparr>" and ?txt = "http_error_text code reason hs"
  obtain x where x: "sendText ?txt ?s1 = (Inr (), ?s1\<lparr> ws_out := ws_out ?s1 @ [Write (bytes_of_string ?txt)], ws_stats := x \<rparr>)"
    using sendText_now [of ?s1 ?txt] assms(1) by auto
  have "failHandshake reason code hs s = (Inr (), s\<lparr> ws_wasNotCleanReason := Some reason,
     ws_stats := x, ws_droppedByMe := True, ws_state := CLOSED,
     ws_out := ws_out s @ [Write (bytes_of_string ?txt), LoseConnection] \<rparr>)"
    using assms(2)
    by (simp add: failHandshake_def sendHttpErrorResponse_def runs bindM_unit dropConnection_def
        closeConnection_def emitM_def bindM_after [where m = "sendText ?txt" and s = ?s1, OF x])
  then show ?thesis by blast
qed

text \<open>The reason given for a missing port.\<close>

definition missing_port :: "('z, 'd) server_setup \<Rightarrow> string \<Rightarrow> string" where
  "missing_port S host = ''missing port in HTTP Host header '' @ quoted host
     @ '' and server runs on non-standard port '' @ to_string (sf_externalPort (ss_factory S))
     @ '' (wss = '' @ bool_string (sf_isSecure (ss_factory S)) @ '')''"

lemma host_missing:
  assumes "sv_httpHeaders s ''host'' = Some v" "header_count_of cnt ''host'' \<le> 1"
    "\<not> has_port S (boost_trim (sv_boost S) v)" "\<not> standard_port (ss_factory S)"
  shows "hs_host S cnt nxt s = bindM (failHandshake (missing_port S (boost_trim (sv_boost S) v)) 400 [])
    (\<lambda>_. nxt) (s\<lparr> sv_httpRequestHost := boost_trim (sv_boost S) v \<rparr>)"
proof -
  let ?h = "boost_trim (sv_boost S) v"
  have no: "(find_char ?h CHR '':'' 0 \<noteq> None \<and> \<not> he_ends_with (ss_env S) ?h '']'') = False"
    and ext: "(sf_externalPort (ss_factory S) \<noteq> 0 \<and> \<not> (sf_isSecure (ss_factory S) \<and>
      sf_externalPort (ss_factory S) = 443 \<or> \<not> sf_isSecure (ss_factory S) \<and>
      sf_externalPort (ss_factory S) = 80)) = True"
    and one: "(header_count_of cnt ''host'' > 1) = False"
    using assms(2-4) by (auto simp: has_port_def standard_port_def)
  show ?thesis
    unfolding hs_host_def withM_def Let_def assms(1) option.case one no ext if_False if_True whenM_def
      missing_port_def badRequest_def
    by (simp add: runs bindM_unit)
qed

text \<open>
  The missing port of a server on a port of its own is an error that does not end the handshake. A
  request whose \<open>Host\<close> has no port and that is acceptable otherwise is answered with the \<open>400\<close>
  error, the connection is closed, and then the switching response is written on it, the state goes
  from \<open>CLOSED\<close> to \<open>OPEN\<close> and \<open>onOpen\<close> is reported.
\<close>

lemma missing_port_opens_dropped_connection:
  assumes "StrNStr (ws_data s) header_end = Some eoh" "drop (eoh + 4) (ws_data s) = []"
    and "parseHttpHeader (sv_boost S) (string_of_bytes (take (eoh + 4) (ws_data s))) = (status, headers, cnt)"
    and "acceptable S status headers cnt" "resource_of S status = Some (path, q)"
    and "distinct (protocols_of S headers)" "header_count_of cnt ''sec-websocket-extensions'' \<le> 1"
    and "headers ''host'' = Some h" "\<not> has_port S (boost_trim (sv_boost S) h)" "\<not> standard_port (ss_factory S)"
    and "awaiting s" "ws_state s = CONNECTING" "below_limit S (sv_countConnections s)"
    and "\<And>req. ss_onConnect S req = Inr ([], hs)" "collect_offers (extensions_of S headers) = Inr offers"
  shows "\<exists>t. processHandshake S s = (Inr (), t) \<and> ws_state t = OPEN \<and> ws_droppedByMe t \<and>
     ws_out t = ws_out s
       @ [Write (bytes_of_string (http_error_text 400 (missing_port S (boost_trim (sv_boost S) h)) [])),
          LoseConnection,
          Write (bytes_of_string (switching_response S [] hs
            (boost_trim (sv_boost S) (the (headers ''sec-websocket-key''))) (accept_offers S offers)))]
       @ open_events (ss_config S) s"
proof -
  let ?B = "sv_boost S" and ?n = "the (stoi (the (headers ''sec-websocket-version'')))"
  let ?host = "boost_trim ?B h"
  have h: "header_count_of cnt ''host'' \<le> 1" "request_line_ok ?B status"
    using assms(4) by (rule acceptableD, blast)+
  let ?s2 = "s\<lparr> sv_httpRequestData := string_of_bytes (take (eoh + 4) (ws_data s)),
     sv_httpStatusLine := status, sv_httpHeaders := headers, sv_peer := peer_of S headers (sv_peer s),
     sv_httpRequestUri := uri_of ?B status, sv_httpRequestPath := path, sv_httpRequestParams := q,
     sv_httpRequestHost := ?host \<rparr>"
  let ?m = "failHandshake (missing_port S ?host) 400 []"
  obtain x where x: "?m ?s2 = (Inr (), ?s2\<lparr> ws_wasNotCleanReason := Some (missing_port S ?host),
     ws_stats := x, ws_droppedByMe := True, ws_state := CLOSED, ws_out := ws_out ?s2
       @ [Write (bytes_of_string (http_error_text 400 (missing_port S ?host) [])), LoseConnection] \<rparr>)"
    (is "_ = (_, ?s3)")
  proof -
    have "ws_sendQueue ?s2 = []" "ws_state ?s2 \<noteq> CLOSED" using assms(11,12) by (simp_all add: awaiting_def)
    from fail_now [OF this, where reason = "missing_port S ?host" and code = 400 and hs = "[]"]
    show thesis by (elim exE) (rule that)
  qed
  have "processHandshake S s = bindM ?m (\<lambda>_. after_host S cnt eoh) ?s2"
    unfolding before_host [OF assms(1,3) h(2) assms(5)]
    by (subst host_missing [OF _ h(1) assms(9,10)]) (use assms(8) in simp_all)
  also have "\<dots> = after_host S cnt eoh ?s3"
    by (simp add: bindM_after [where m = ?m and s = ?s2, OF x])
  also have "\<dots> = hs_connect S (?s3\<lparr> ws_webSocketVersion := ?n,
     sv_webSocketProtocols := protocols_of S headers, sv_webSocketOrigin := origin_of S headers ?n,
     sv_webSocketExtensions := extensions_of S headers, ws_data := [],
     sv_webSocketKey := boost_trim ?B (the (headers ''sec-websocket-key'')) \<rparr>)"
    (is "_ = hs_connect S ?u")
    using after_host_run [of S status ?s3 cnt ?n eoh] assms(2,4,6,7,11)
    by (simp add: awaiting_def)
  finally have run: "processHandshake S s = hs_connect S ?u" .
  have ev: "open_events (ss_config S) ?u = open_events (ss_config S) s" by (simp add: open_events_def)
  have "ws_sendQueue ?u = []" "ws_data ?u = []" "below_limit S (sv_countConnections ?u)"
    "collect_offers (sv_webSocketExtensions ?u) = Inr offers"
    using assms(11,13,15) by (simp_all add: awaiting_def)
  from connect_pass [OF this(1-3) assms(14) _ this(4)] obtain t where "hs_connect S ?u = (Inr (), t)"
    "ws_state t = OPEN" "ws_droppedByMe t"
    "ws_out t = ws_out ?u @ Write (bytes_of_string (switching_response S [] hs
       (sv_webSocketKey ?u) (accept_offers S offers))) # open_events (ss_config S) ?u"
    by auto
  then show ?thesis unfolding run ev by (intro exI [of _ t]) simp
qed

end
