(* ===== verification/Ws_Server_Examples.thy ===== *)
theory Ws_Server_Examples
  imports Ws_Server_Props
begin

text \<open>
  The properties of the server's opening handshake at a concrete request (that of RFC 6455 with an
  origin), for a server with the default options behind no proxy. Boost is \<open>boost_ref\<close>, the pattern
  of the default allowed origins matches everything and the digest is a constant.
\<close>

definition example_env :: hs_env where
  "example_env = \<lparr> he_boost = boost_ref,
     he_ends_with = (\<lambda>s t. length t \<le> length s \<and> drop (length s - length t) s = t),
     he_regex_match = (\<lambda>s p. p = ''^.*$''), he_what = (\<lambda>e. ''error''), he_sha1 = (\<lambda>b. replicate 20 0) \<rparr>"

definition example_factory :: "nat \<Rightarrow> server_factory" where
  "example_factory port = server_resetProtocolOptions boost_ref \<lparr>
     sf_trackTimings = False, sf_url = ''ws://a.b'', sf_isSecure = False, sf_host = ''a.b'', sf_port = 80,
     sf_resource = ''/'', sf_path = ''/'', sf_params = Map.empty, sf_protocols = [], sf_server = NET4CXX_VER,
     sf_headers = [], sf_externalPort = port, sf_versions = [], sf_webStatus = True,
     sf_utf8validateIncoming = True, sf_requireMaskedClientFrames = True, sf_maskServerFrames = False,
     sf_applyMask = True, sf_maxFramePayloadSize = 0, sf_maxMessagePayloadSize = 0,
     sf_autoFragmentSize = 0, sf_failByDrop = True, sf_echoCloseCodeReason = False,
     sf_openHandshakeTimeout = 0, sf_closeHandshakeTimeout = 0, sf_tcpNoDelay = True,
     sf_serveFlashSocketPolicy = False, sf_flashSocketPolicy = '''', sf_perMessageCompressionAccept = None,
     sf_autoPingInterval = 0, sf_autoPingTimeout = 0, sf_autoPingSize = 4, sf_allowedOrigins = [],
     sf_allowedOriginsPatterns = [], sf_allowNullOrigin = True, sf_maxConnections = 0,
     sf_trustXForwardedFor = 0 \<rparr>"

text \<open>Base64 with the letter \<open>A\<close> for every six bits.\<close>

definition example_b64 :: "bytes \<Rightarrow> bytes" where
  "example_b64 bs = replicate ((4 * length bs + 2) div 3) 65"

definition example_setup ::
  "nat \<Rightarrow> ('z, 'd) zlib_ops \<Rightarrow> ('z, 'd) server_setup" where
  "example_setup port Z = \<lparr> ss_env = example_env, ss_factory = example_factory port,
     ss_config = server_protocol_config (example_factory port) (\<lambda>_. 0) example_b64 (pmd_ops Z),
     ss_options = server_protocol_options (example_factory port),
     ss_onConnect = (\<lambda>req. Inr ('''', [])) \<rparr>"

definition example_request :: string where
  "example_request = ''GET /chat?x=1 HTTP/1.1'' @ CRLF @ ''Host: a.b'' @ CRLF @ ''Upgrade: websocket'' @ CRLF
     @ ''Connection: keep-alive, Upgrade'' @ CRLF @ ''Sec-WebSocket-Key: dGhlIHNhbXBsZSBub25jZQ=='' @ CRLF
     @ ''Origin: http://c.d'' @ CRLF @ ''Sec-WebSocket-Version: 13'' @ CRLF @ CRLF"

lemma example_end: "StrNStr (bytes_of_string example_request) header_end = Some (length example_request - 4)"
  by code_simp


lemma example_whole: "length example_request - 4 + 4 = length (bytes_of_string example_request)"
  by code_simp

lemma splitLines_CRLF:
  assumes "list_all not_eol p"
  shows "splitLines (p @ CRLF @ r) False = p # splitLines r False"
proof -
  have p: "takeWhile not_eol (p @ CRLF @ r) = p" "dropWhile not_eol (p @ CRLF @ r) = CRLF @ r"
    using assms by (auto simp: list_all_iff CRLF_def not_eol_def takeWhile_append dropWhile_append)
  show ?thesis
    by (subst splitLines.simps, unfold p) (simp add: CRLF_def)
qed

lemma example_lines: "splitLines example_request False =
  [''GET /chat?x=1 HTTP/1.1'', ''Host: a.b'', ''Upgrade: websocket'', ''Connection: keep-alive, Upgrade'',
   ''Sec-WebSocket-Key: dGhlIHNhbXBsZSBub25jZQ=='', ''Origin: http://c.d'', ''Sec-WebSocket-Version: 13'', []]"
proof -
  have ok: "list_all not_eol ''GET /chat?x=1 HTTP/1.1''" "list_all not_eol ''Host: a.b''"
    "list_all not_eol ''Upgrade: websocket''" "list_all not_eol ''Connection: keep-alive, Upgrade''"
    "list_all not_eol ''Sec-WebSocket-Key: dGhlIHNhbXBsZSBub25jZQ==''"
    "list_all not_eol ''Origin: http://c.d''" "list_all not_eol ''Sec-WebSocket-Version: 13''" "list_all not_eol []"
    by code_simp+
  have last: "splitLines (CRLF) False = [[]]" by code_simp
  show ?thesis
    unfolding example_request_def ok [THEN splitLines_CRLF] last ..
qed

text \<open>A line as a name and a value.\<close>

definition header_parts :: "string \<Rightarrow> (string \<times> string) option" where
  "header_parts h = (case find_char h CHR '':'' 0 of None \<Rightarrow> None
     | Some j \<Rightarrow> Some (boost_to_lower boost_ref (boost_trim boost_ref (take j h)),
                  boost_trim boost_ref (drop (j + 1) h)))"

lemma add_header_new:
  "header_parts h = Some (key, value) \<Longrightarrow> fst hc key = None \<Longrightarrow>
   add_header boost_ref hc h = ((fst hc)(key \<mapsto> value), (snd hc)(key \<mapsto> 1))"
  by (auto simp: header_parts_def add_header_def Let_def split: option.splits)

lemma example_parts:
  "header_parts ''Host: a.b'' = Some (''host'', ''a.b'')"
  "header_parts ''Upgrade: websocket'' = Some (''upgrade'', ''websocket'')"
  "header_parts ''Connection: keep-alive, Upgrade'' = Some (''connection'', ''keep-alive, Upgrade'')"
  "header_parts ''Sec-WebSocket-Key: dGhlIHNhbXBsZSBub25jZQ=='' =
     Some (''sec-websocket-key'', ''dGhlIHNhbXBsZSBub25jZQ=='')"
  "header_parts ''Origin: http://c.d'' = Some (''origin'', ''http://c.d'')"
  "header_parts ''Sec-WebSocket-Version: 13'' = Some (''sec-websocket-version'', ''13'')"
  "header_parts [] = None"
  by code_simp+


definition example_headers :: header_map where
  "example_headers = [''host'' \<mapsto> ''a.b'', ''upgrade'' \<mapsto> ''websocket'',
     ''connection'' \<mapsto> ''keep-alive, Upgrade'', ''sec-websocket-key'' \<mapsto> ''dGhlIHNhbXBsZSBub25jZQ=='',
     ''origin'' \<mapsto> ''http://c.d'', ''sec-websocket-version'' \<mapsto> ''13'']"

definition example_count :: header_count where
  "example_count = [''host'' \<mapsto> 1, ''upgrade'' \<mapsto> 1, ''connection'' \<mapsto> 1, ''sec-websocket-key'' \<mapsto> 1,
     ''origin'' \<mapsto> 1, ''sec-websocket-version'' \<mapsto> 1]"

lemma example_parse:
  "parseHttpHeader boost_ref example_request = (''GET /chat?x=1 HTTP/1.1'', example_headers, example_count)"
proof -
  have skip: "add_header boost_ref hc [] = hc" for hc
    using example_parts(7) by (auto simp: header_parts_def add_header_def split: option.splits)
  have trim: "boost_trim boost_ref ''GET /chat?x=1 HTTP/1.1'' = ''GET /chat?x=1 HTTP/1.1''" by code_simp
  show ?thesis
    unfolding parseHttpHeader_def Let_def example_lines list.sel trim foldl.simps skip
    by (simp add: add_header_new [OF example_parts(1)] add_header_new [OF example_parts(2)]
        add_header_new [OF example_parts(3)] add_header_new [OF example_parts(4)]
        add_header_new [OF example_parts(5)] add_header_new [OF example_parts(6)]
        example_headers_def example_count_def)
qed

lemma example_parts_ok:
  "request_line_ok boost_ref ''GET /chat?x=1 HTTP/1.1''"
  "names_token boost_ref ''websocket'' ''websocket''"
  "names_token boost_ref ''keep-alive, Upgrade'' ''upgrade''"
  "stoi ''13'' = Some 13"
  "boost_trim boost_ref ''dGhlIHNhbXBsZSBub25jZQ=='' = ''dGhlIHNhbXBsZSBub25jZQ==''"
  "boost_trim boost_ref ''http://c.d'' = ''http://c.d''"
  "boost_trim boost_ref ''a.b'' = ''a.b''"
  "urlToOrigin boost_ref ''http://c.d'' = Inr (''http'', ''c.d'', Some 80)"
  "list_all key_char (take 22 ''dGhlIHNhbXBsZSBub25jZQ=='')"
  by code_simp+


lemma example_sets:
  "sv_boost (example_setup port Z) = boost_ref" "ss_env (example_setup port Z) = example_env"
  "so_versions (ss_options (example_setup port Z)) = [8, 13]"
  "so_maxConnections (ss_options (example_setup port Z)) = 0"
  "so_trustXForwardedFor (ss_options (example_setup port Z)) = 0"
  "so_allowNullOrigin (ss_options (example_setup port Z))"
  "ss_onConnect (example_setup port Z) req = Inr ('''', [])"
  "sf_externalPort (ss_factory (example_setup port Z)) = port"
  "\<not> sf_isSecure (ss_factory (example_setup port Z))"
  by (simp_all add: example_setup_def sv_boost_def example_env_def server_protocol_options_def
      example_factory_def server_resetProtocolOptions_def SUPPORTED_PROTOCOL_VERSIONS_def)

lemma example_origin: "origin_allowed (example_setup port Z) (''http'', ''c.d'', Some 80)"
proof -
  have p: "so_allowedOriginsPatterns (ss_options (example_setup port Z)) = [''^.*$'']"
    unfolding example_setup_def server_protocol_options_def example_factory_def
      server_resetProtocolOptions_def wildcardsToPatterns_def
    by simp code_simp
  show ?thesis by (simp add: origin_allowed_def isSameOrigin_def p example_sets example_env_def)
qed

lemma example_lookup:
  "example_headers ''host'' = Some ''a.b''" "example_headers ''upgrade'' = Some ''websocket''"
  "example_headers ''connection'' = Some ''keep-alive, Upgrade''" "example_headers ''origin'' = Some ''http://c.d''"
  "example_headers ''sec-websocket-version'' = Some ''13''" "example_headers ''x-forwarded-for'' = None"
  "example_headers ''sec-websocket-key'' = Some ''dGhlIHNhbXBsZSBub25jZQ==''"
  "example_headers ''sec-websocket-protocol'' = None" "example_headers ''sec-websocket-extensions'' = None"
  "header_count_of example_count ''host'' = 1" "header_count_of example_count ''origin'' = 1"
  "header_count_of example_count ''sec-websocket-version'' = 1"
  "header_count_of example_count ''sec-websocket-key'' = 1"
  "header_count_of example_count ''sec-websocket-extensions'' = 0"
  by (simp_all add: example_headers_def example_count_def header_count_of_def)

lemma example_acceptable:
  "acceptable (example_setup port Z) ''GET /chat?x=1 HTTP/1.1'' example_headers example_count"
proof -
  have e: "he_ends_with example_env ''dGhlIHNhbXBsZSBub25jZQ=='' ''==''" by code_simp
  have k: "key_ok (example_setup port Z) example_count ''dGhlIHNhbXBsZSBub25jZQ==''"
    unfolding key_ok_def example_sets using example_parts_ok(9) e by (simp add: example_lookup)
  show ?thesis
    by (simp add: acceptable_def example_sets names_header_def example_lookup example_parts_ok
        origin_ok_def example_origin k)
qed

definition example_state :: "'c ws_server" where
  "example_state = server_initial\<lparr> ws_data := bytes_of_string example_request \<rparr>"

lemma example_state_simps:
  "ws_data example_state = bytes_of_string example_request" "awaiting example_state"
  "ws_state example_state = CONNECTING" "sv_peer example_state = []" "sv_countConnections example_state = 0"
  "\<not> is_open example_state" "ws_calls example_state t = Expired" "\<not> ws_tracked example_state"
  "ws_out example_state = []" "ws_pmce example_state = None" "\<not> ws_droppedByMe example_state"
  by (simp_all add: example_state_def server_initial_def ws_conn.extend_def ws_fresh_def awaiting_def is_open_def
      ws_server.fields_def)

lemma example_resource: "\<exists>q. resource_of (example_setup port Z) ''GET /chat?x=1 HTTP/1.1'' = Some (''/chat'', q)"
proof -
  have u: "uri_of boost_ref ''GET /chat?x=1 HTTP/1.1'' = ''/chat?x=1''" by code_simp
  have p: "urlParse boost_ref ''/chat?x=1'' '''' True = Inr \<lparr> up_scheme = '''', up_netloc = '''',
     up_path = ''/chat'', up_params = '''', up_query = ''x=1'', up_fragment = '''' \<rparr>" by code_simp
  have "case parseQS boost_ref ''x=1'' False False of Inl _ \<Rightarrow> False | Inr _ \<Rightarrow> True" by code_simp
  then show ?thesis by (auto simp: resource_of_def example_sets u p split: sum.splits)
qed


section \<open>Witnesses\<close>

lemma example_key: "boost_trim boost_ref (the (example_headers ''sec-websocket-key'')) = ''dGhlIHNhbXBsZSBub25jZQ==''"
  by (simp add: example_lookup example_parts_ok)

lemma example_unset:
  "protocols_of (example_setup port Z) example_headers = []" "extensions_of (example_setup port Z) example_headers = []"
  "below_limit (example_setup port Z) n" "boost_trim boost_ref (the (example_headers ''host'')) = ''a.b''"
  "\<not> has_port (example_setup port Z) ''a.b''" "collect_offers [] = Inr []"
  by (simp_all add: protocols_of_def extensions_of_def example_lookup below_limit_def example_sets
      example_parts_ok has_port_def) code_simp

lemma example_request_of:
  "\<exists>req. request_of (example_setup 0 Z) [] ''GET /chat?x=1 HTTP/1.1'' example_headers example_count
     = Some (req, ''dGhlIHNhbXBsZSBub25jZQ=='') \<and> cr_extensions req = []"
proof -
  obtain q where q: "resource_of (example_setup 0 Z) ''GET /chat?x=1 HTTP/1.1'' = Some (''/chat'', q)"
    using example_resource by blast
  have h: "host_of (example_setup 0 Z) ''a.b'' = Some ''a.b''"
    by (simp add: host_of_def example_unset standard_port_def example_sets)
  show ?thesis
    by (simp add: request_of_def example_sets(1) example_acceptable example_unset example_lookup(14) q h
        example_key Let_def)
qed

lemma example_front:
  "StrNStr (ws_data example_state) header_end = Some (length example_request - 4)"
  "drop (length example_request - 4 + 4) (ws_data example_state) = []"
  "parseHttpHeader (sv_boost (example_setup port Z))
     (string_of_bytes (take (length example_request - 4 + 4) (ws_data example_state))) =
   (''GET /chat?x=1 HTTP/1.1'', example_headers, example_count)"
  unfolding example_state_simps example_end example_whole example_sets
  by (simp_all add: example_parse)

lemma server_accepts_request_witness:
  "\<forall>Z :: (unit, unit) zlib_ops. \<exists>t. processHandshake (example_setup 0 Z) example_state = (Inr (), t) \<and>
     ws_state t = OPEN \<and> ws_out t = [Write (bytes_of_string (switching_response (example_setup 0 Z) []
       [] ''dGhlIHNhbXBsZSBub25jZQ=='' None)), OnOpen]"
proof
  fix Z :: "(unit, unit) zlib_ops"
  obtain req where r: "request_of (example_setup 0 Z) (sv_peer (example_state :: (unit, unit) pmd ws_server)) ''GET /chat?x=1 HTTP/1.1''
      example_headers example_count = Some (req, ''dGhlIHNhbXBsZSBub25jZQ=='')" "cr_extensions req = []"
    using example_request_of [of Z] by (auto simp: example_state_simps)
  have none: "accept_offers (example_setup 0 Z) [] = None" by (simp add: accept_offers_def)
  have ev: "open_events (ss_config (example_setup 0 Z)) example_state = [OnOpen]"
    by (simp add: open_events_def example_state_simps call_cancelled_def example_setup_def
        server_protocol_config_def example_factory_def server_resetProtocolOptions_def)
  show "\<exists>t. processHandshake (example_setup 0 Z) example_state = (Inr (), t) \<and> ws_state t = OPEN \<and>
    ws_out t = [Write (bytes_of_string (switching_response (example_setup 0 Z) []
       [] ''dGhlIHNhbXBsZSBub25jZQ=='' None)), OnOpen]"
    using server_accepts_request [OF example_front r(1) example_state_simps(2) example_unset(3)
        example_sets(7), of "[]"]
    by (auto simp: r(2) example_unset none ev example_state_simps)
qed


lemma example_opens: "is_open (snd (processHandshake (example_setup 0 Z) (example_state :: ('z, 'd) pmd ws_server)))"
proof -
  obtain req where r: "request_of (example_setup 0 Z) (sv_peer (example_state :: ('z, 'd) pmd ws_server))
      ''GET /chat?x=1 HTTP/1.1'' example_headers example_count = Some (req, ''dGhlIHNhbXBsZSBub25jZQ=='')"
      "cr_extensions req = []"
    using example_request_of [of Z] by (auto simp: example_state_simps)
  then show ?thesis
    using accepts_run [OF example_front r(1) example_state_simps(2) example_unset(3) example_sets(7), of "[]"]
    by (auto simp: example_unset is_open_def open_events_def)
qed

lemma server_opens_only_acceptable_witness:
  "\<forall>Z :: (unit, unit) zlib_ops. \<exists>eoh status headers cnt.
     StrNStr (bytes_of_string example_request) header_end = Some eoh \<and>
     parseHttpHeader boost_ref (string_of_bytes (take (eoh + 4) (bytes_of_string example_request)))
       = (status, headers, cnt) \<and> passes_checks (example_setup 0 Z) status headers cnt
     \<and> below_limit (example_setup 0 Z) 0 \<and> accepted (example_setup 0 Z) headers"
proof
  fix Z :: "(unit, unit) zlib_ops"
  show "\<exists>eoh status headers cnt. StrNStr (bytes_of_string example_request) header_end = Some eoh \<and>
     parseHttpHeader boost_ref (string_of_bytes (take (eoh + 4) (bytes_of_string example_request)))
       = (status, headers, cnt) \<and> passes_checks (example_setup 0 Z) status headers cnt
     \<and> below_limit (example_setup 0 Z) 0 \<and> accepted (example_setup 0 Z) headers"
    using server_opens_only_acceptable [OF example_state_simps(6) example_opens, of Z]
    unfolding example_state_simps(1,5) example_sets(1) .
qed

lemma missing_port_opens_dropped_connection_witness:
  "\<forall>Z :: (unit, unit) zlib_ops. \<exists>t. processHandshake (example_setup 9000 Z) example_state = (Inr (), t) \<and>
     ws_state t = OPEN \<and> ws_out t =
     [Write (bytes_of_string (http_error_text 400 (missing_port (example_setup 9000 Z) ''a.b'') [])),
      LoseConnection,
      Write (bytes_of_string (switching_response (example_setup 9000 Z) [] [] ''dGhlIHNhbXBsZSBub25jZQ=='' None)),
      OnOpen]"
proof
  fix Z :: "(unit, unit) zlib_ops"
  let ?S = "example_setup 9000 Z"
  obtain q where q: "resource_of ?S ''GET /chat?x=1 HTTP/1.1'' = Some (''/chat'', q)"
    using example_resource by blast
  have d: "distinct (protocols_of ?S example_headers)" "header_count_of example_count ''sec-websocket-extensions'' \<le> 1"
    "\<not> has_port ?S (boost_trim (sv_boost ?S) ''a.b'')" "\<not> standard_port (ss_factory ?S)"
    "collect_offers (extensions_of ?S example_headers) = Inr []"
    by (simp_all add: example_unset example_lookup standard_port_def example_sets example_parts_ok)
  have none: "accept_offers ?S [] = None" by (simp add: accept_offers_def)
  have ev: "open_events (ss_config ?S) example_state = [OnOpen]"
    by (simp add: open_events_def example_state_simps call_cancelled_def example_setup_def
        server_protocol_config_def example_factory_def server_resetProtocolOptions_def)
  show "\<exists>t. processHandshake ?S example_state = (Inr (), t) \<and> ws_state t = OPEN \<and> ws_out t =
     [Write (bytes_of_string (http_error_text 400 (missing_port ?S ''a.b'') [])), LoseConnection,
      Write (bytes_of_string (switching_response ?S [] [] ''dGhlIHNhbXBsZSBub25jZQ=='' None)), OnOpen]"
    using missing_port_opens_dropped_connection [OF example_front example_acceptable q d(1,2)
        example_lookup(1) d(3,4) example_state_simps(2,3) example_unset(3) example_sets(7) d(5)]
    by (auto simp: example_sets(1) example_key none ev example_state_simps example_parts_ok)
qed

end
