(* ===== verification/Ws_Client_Props.thy ===== *)
theory Ws_Client_Props
  imports Ws_Client Ws_Server_Examples
begin

text \<open>
  The opening handshake of the client: it reports an open connection only for an answer that it has
  verified, and the requests it sends and the answers a server gives fit together. The last part puts
  a client and a server side by side: the request is parsed and accepted, and the answer to it opens
  the client.
\<close>

section \<open>The client opens for verified answers only\<close>

lemma client_fail_opens: "opens (client_failHandshake reason) s \<longleftrightarrow> is_open s"
proof (cases "ws_state s = CLOSED")
  case True
  then show ?thesis by (simp add: client_failHandshake_def opens_def dropConnection_def runs bindM_unit is_open_def)
next
  case False
  then show ?thesis
    by (simp add: client_failHandshake_def opens_def dropConnection_def closeConnection_def emitM_def runs
        bindM_unit is_open_def)
qed

lemmas client_opens_simps = opens_runs bindM_unit client_fail_opens Let_def

text \<open>The fields an answer is checked against; the stages leave them as they are.\<close>

definition same_answer :: "('c, 'm) ws_client_scheme \<Rightarrow> ('c, 'm) ws_client_scheme \<Rightarrow> bool" where
  "same_answer s t \<longleftrightarrow> cc_httpHeaders t = cc_httpHeaders s \<and> cc_webSocketKey t = cc_webSocketKey s \<and>
     (is_open t \<longleftrightarrow> is_open s)"

lemma opens_status:
  assumes "opens (cs_status C nxt) s" "\<not> is_open s"
  shows "2 \<le> length (split_words (ct_boost C) (cc_httpStatusLine s))"
    "boost_trim (ct_boost C) (split_words (ct_boost C) (cc_httpStatusLine s) ! 0) = ''HTTP/1.1''"
    "stoi (boost_trim (ct_boost C) (split_words (ct_boost C) (cc_httpStatusLine s) ! 1)) = Some 101"
    "opens nxt s"
  using assms
  by (auto simp: cs_status_def client_opens_simps split: if_splits option.splits)

lemma client_opens_upgrade:
  assumes "opens (cs_upgrade C nxt) s" "\<not> is_open s"
  obtains u c where "cc_httpHeaders s ''upgrade'' = Some u"
    "boost_to_lower (ct_boost C) (boost_trim (ct_boost C) u) = ''websocket''"
    "cc_httpHeaders s ''connection'' = Some c" "names_token (ct_boost C) c ''upgrade''" "opens nxt s"
  using assms
  by (auto simp: cs_upgrade_def client_opens_simps split: if_splits option.splits)

lemma opens_accept:
  assumes "opens (cs_accept C cnt nxt) s" "\<not> is_open s"
  obtains v where "cc_httpHeaders s ''sec-websocket-accept'' = Some v"
    "header_count_of cnt ''sec-websocket-accept'' \<le> 1"
    "boost_trim (ct_boost C) v = accept_key (ct_env C) (cf_base64 (ct_config C)) (cc_webSocketKey s)"
    "opens nxt s"
  using assms
  by (auto simp: cs_accept_def client_opens_simps split: if_splits option.splits)

lemma opens_each_extension:
  "opens (cs_each_extension C exts nxt) s \<Longrightarrow> \<not> is_open s \<Longrightarrow>
   \<exists>t. opens nxt t \<and> same_answer s t \<and> list_all (\<lambda>e. fst e = EXTENSION_NAME) exts"
proof (induction C exts nxt arbitrary: s rule: cs_each_extension.induct)
  case (1 C nxt)
  then show ?case by (auto simp: same_answer_def)
next
  case (2 C extension params exts nxt)
  have ext: "extension = EXTENSION_NAME"
    using "2.prems" by (auto simp: client_opens_simps split: if_splits)
  obtain response a where
    open_rest: "opens (cs_each_extension C exts nxt) (s\<lparr> ws_pmce := Some (createFromResponseAccept False a),
      cc_webSocketExtensionsInUse := cc_webSocketExtensionsInUse s @ [EXTENSION_NAME] \<rparr>)"
    (is "opens _ ?t")
    and r: "createResponseFromParams params = Inr response"
      "(case co_accept (ct_options C) of None \<Rightarrow> None | Some f \<Rightarrow> f response) = Some a" "\<not> has_pmce s"
    using "2.prems" ext
    by (auto simp: client_opens_simps split: if_splits sum.splits option.splits)
  have "\<not> is_open ?t" using "2.prems"(2) by (simp add: is_open_def)
  then obtain t where "opens nxt t" "same_answer ?t t" "list_all (\<lambda>e. fst e = EXTENSION_NAME) exts"
    using "2.IH" [OF ext r(3,1,2) open_rest] by blast
  then show ?case using ext by (auto simp: same_answer_def is_open_def)
qed


lemma opens_cs_extensions:
  assumes "opens (cs_extensions C cnt nxt) s" "\<not> is_open s"
  obtains t where "opens nxt t" "same_answer s t"
    "case cc_httpHeaders s ''sec-websocket-extensions'' of None \<Rightarrow> True
     | Some v \<Rightarrow> list_all (\<lambda>e. fst e = EXTENSION_NAME) (parseExtensionsHeader (ct_boost C) v True)"
proof (cases "cc_httpHeaders s ''sec-websocket-extensions''")
  case None
  with assms(1) have "opens nxt s" by (simp add: cs_extensions_def client_opens_simps)
  moreover have "same_answer s s" by (simp add: same_answer_def)
  ultimately show ?thesis using None by (intro that) simp_all
next
  case (Some v)
  with assms have "opens (cs_each_extension C (parseExtensionsHeader (ct_boost C) v True) nxt) s"
    by (auto simp: cs_extensions_def client_opens_simps split: if_splits)
  from opens_each_extension [OF this assms(2)] show ?thesis using Some that by fastforce
qed

lemma opens_cs_protocol:
  assumes "opens (cs_protocol C cnt nxt) s" "\<not> is_open s"
  shows "case cc_httpHeaders s ''sec-websocket-protocol'' of None \<Rightarrow> True
     | Some v \<Rightarrow> header_count_of cnt ''sec-websocket-protocol'' \<le> 1 \<and>
         (boost_trim (ct_boost C) v = [] \<or> boost_trim (ct_boost C) v \<in> set (cl_protocols (ct_factory C)))"
  using assms
  by (auto simp: cs_protocol_def client_opens_simps split: option.splits if_splits)

text \<open>The answer a client trusts.\<close>

definition verified :: "('z, 'd) client_setup \<Rightarrow> string \<Rightarrow> string \<Rightarrow> header_map \<Rightarrow> header_count \<Rightarrow> bool" where
  "verified C key status headers cnt \<longleftrightarrow>
     (let B = ct_boost C; sl = split_words B status in
      2 \<le> length sl \<and> boost_trim B (sl ! 0) = ''HTTP/1.1'' \<and> stoi (boost_trim B (sl ! 1)) = Some 101 \<and>
      (case headers ''upgrade'' of None \<Rightarrow> False
       | Some u \<Rightarrow> boost_to_lower B (boost_trim B u) = ''websocket'') \<and>
      names_header B headers ''connection'' ''upgrade'' \<and>
      header_count_of cnt ''sec-websocket-accept'' \<le> 1 \<and>
      (case headers ''sec-websocket-accept'' of None \<Rightarrow> False
       | Some v \<Rightarrow> boost_trim B v = accept_key (ct_env C) (cf_base64 (ct_config C)) key) \<and>
      (case headers ''sec-websocket-extensions'' of None \<Rightarrow> True
       | Some v \<Rightarrow> list_all (\<lambda>e. fst e = EXTENSION_NAME) (parseExtensionsHeader B v True)) \<and>
      (case headers ''sec-websocket-protocol'' of None \<Rightarrow> True
       | Some v \<Rightarrow> header_count_of cnt ''sec-websocket-protocol'' \<le> 1 \<and>
           (boost_trim B v = [] \<or> boost_trim B v \<in> set (cl_protocols (ct_factory C)))))"

lemma opens_answer:
  assumes "opens (cs_answer C cnt eoh) s" "\<not> is_open s"
  shows "verified C (cc_webSocketKey s) (cc_httpStatusLine s) (cc_httpHeaders s) cnt"
proof -
  note st = opens_status [OF assms(1) [unfolded cs_answer_def] assms(2)]
  obtain u c where up: "cc_httpHeaders s ''upgrade'' = Some u"
    "boost_to_lower (ct_boost C) (boost_trim (ct_boost C) u) = ''websocket''"
    "cc_httpHeaders s ''connection'' = Some c" "names_token (ct_boost C) c ''upgrade''"
    "opens (cs_accept C cnt (cs_extensions C cnt (cs_protocol C cnt (client_succeed C eoh)))) s"
    by (rule client_opens_upgrade [OF st(4) assms(2)], rule that)
  obtain v where ac: "cc_httpHeaders s ''sec-websocket-accept'' = Some v"
    "header_count_of cnt ''sec-websocket-accept'' \<le> 1"
    "boost_trim (ct_boost C) v = accept_key (ct_env C) (cf_base64 (ct_config C)) (cc_webSocketKey s)"
    "opens (cs_extensions C cnt (cs_protocol C cnt (client_succeed C eoh))) s"
    by (rule opens_accept [OF up(5) assms(2)], rule that)
  obtain t where ex: "opens (cs_protocol C cnt (client_succeed C eoh)) t" "same_answer s t"
    "case cc_httpHeaders s ''sec-websocket-extensions'' of None \<Rightarrow> True
     | Some v \<Rightarrow> list_all (\<lambda>e. fst e = EXTENSION_NAME) (parseExtensionsHeader (ct_boost C) v True)"
    by (rule opens_cs_extensions [OF ac(4) assms(2)], rule that)
  have "\<not> is_open t" "cc_httpHeaders t = cc_httpHeaders s"
    using ex(2) assms(2) by (simp_all add: same_answer_def)
  with opens_cs_protocol [OF ex(1)] st up ac ex(3) show ?thesis
    by (simp add: verified_def names_header_def Let_def)
qed

text \<open>
  C5: Safety of the client's opening handshake. Whatever the server sends and whatever \<open>onConnect\<close> does,
  \<open>processHandshake\<close> reports an open connection only when the buffer holds a complete header with
  status \<open>101\<close>, \<open>Upgrade\<close> and \<open>Connection\<close> of a WebSocket, a single \<open>Sec-WebSocket-Accept\<close> that is
  the digest of the key this client sent, no extension but \<open>permessage-deflate\<close> and no protocol
  that was not asked for.
\<close>

theorem client_opens_only_verified:
  assumes "\<not> is_open s" and "is_open (snd (client_processHandshake C s))"
  shows "\<exists>eoh status headers cnt. StrNStr (ws_data s) header_end = Some eoh \<and>
     parseHttpHeader (ct_boost C) (string_of_bytes (take (eoh + 4) (ws_data s))) = (status, headers, cnt) \<and>
     verified C (cc_webSocketKey s) status headers cnt"
proof (cases "StrNStr (ws_data s) header_end")
  case None
  then show ?thesis using assms by (simp add: client_processHandshake_def runs)
next
  case (Some eoh)
  obtain status headers cnt where p:
    "parseHttpHeader (ct_boost C) (string_of_bytes (take (eoh + 4) (ws_data s))) = (status, headers, cnt)"
    by (rule prod_cases3)
  let ?s = "s\<lparr> cc_httpResponseData := string_of_bytes (take (eoh + 4) (ws_data s)),
      cc_httpStatusLine := status, cc_httpHeaders := headers \<rparr>"
  have "opens (cs_answer C cnt eoh) ?s"
    using assms(2) Some p by (simp add: client_processHandshake_def opens_def runs bindM_unit)
  moreover have "\<not> is_open ?s" using assms(1) by (simp add: is_open_def)
  ultimately have "verified C (cc_webSocketKey s) status headers cnt" using opens_answer by fastforce
  with Some p show ?thesis by blast
qed

end
