(* ===== verification/Ws_Headers.thy ===== *)
theory Ws_Headers
  imports Ws_Client_Props Url_Props
begin

text \<open>
  A header built from fields and the parser of headers. \<open>header_text\<close> is how client and server
  write a message; for fields without line ends and colons in the names, its end is found at its
  end, and \<open>parseHttpHeader\<close> gives back each field that occurs once.
\<close>

type_synonym field = "string \<times> string"

definition header_text :: "string \<Rightarrow> field list \<Rightarrow> string" where
  "header_text status fs = status @ CRLF @ concat (map (\<lambda>(n, v). header_line n v) fs) @ CRLF"

definition field_ok :: "field \<Rightarrow> bool" where
  "field_ok f \<longleftrightarrow> list_all not_eol (fst f) \<and> CHR '':'' \<notin> set (fst f) \<and> list_all not_eol (snd f)"

definition field_text :: "field \<Rightarrow> string" where
  "field_text f = fst f @ '': '' @ snd f"

lemma field_text_eol: "field_ok f \<Longrightarrow> list_all not_eol (field_text f)"
  by (auto simp: field_ok_def field_text_def not_eol_def)

lemma header_text_lines:
  "header_text status fs = concat (map (\<lambda>l. l @ CRLF) (status # map field_text fs)) @ CRLF"
  by (induction fs) (auto simp: header_text_def header_line_def field_text_def)

section \<open>The end of the header\<close>

lemma search_skip:
  "p \<noteq> [] \<Longrightarrow> hd p \<notin> set l \<Longrightarrow> search p (l @ s) = map_option (\<lambda>k. length l + k) (search p s)"
proof (induction l)
  case Nil
  then show ?case by (simp add: option.map_ident)
next
  case (Cons x l)
  then have "take (length p) ((x # l) @ s) \<noteq> p" by (cases p) auto
  with Cons show ?case by (subst search.simps) (cases "search p s"; simp)
qed

lemma search_pair:
  assumes "a \<noteq> b" "r \<noteq> []" "hd r \<noteq> a"
  shows "search [a, b, a, b] (a # b # r) = map_option (\<lambda>k. k + 2) (search [a, b, a, b] r)"
proof -
  obtain c r' where "r = c # r'" "c \<noteq> a" using assms(2,3) by (cases r) auto
  then show ?thesis
    using assms(1) by (subst search.simps, simp, subst search.simps) (simp add: option.map_comp comp_def)
qed

lemma search_header_end:
  assumes "a \<noteq> b" "ls \<noteq> []" "list_all (\<lambda>l. l \<noteq> [] \<and> a \<notin> set l \<and> b \<notin> set l) ls"
  shows "search [a, b, a, b] (concat (map (\<lambda>l. l @ [a, b]) ls) @ [a, b]) =
     Some (length (concat (map (\<lambda>l. l @ [a, b]) ls) @ [a, b]) - 4)"
  using assms(2,3)
proof (induction ls rule: list_nonempty_induct)
  case (single l)
  have "search [a, b, a, b] ([a, b, a, b]) = Some 0" by (simp add: search.simps)
  with single show ?case using search_skip [of "[a, b, a, b]" l "[a, b, a, b]"] by simp
next
  case (cons l ls)
  let ?p = "[a, b, a, b]" and ?r = "concat (map (\<lambda>l. l @ [a, b]) ls) @ [a, b]"
  obtain m ms where ls: "ls = m # ms" using cons.hyps by (cases ls) auto
  have m: "m \<noteq> []" "a \<notin> set m" using cons.prems ls by auto
  then have r: "hd ?r \<noteq> a" by (cases m) (auto simp: ls)
  have r4: "4 \<le> length ?r" by (simp add: ls)
  have "concat (map (\<lambda>l. l @ [a, b]) (l # ls)) @ [a, b] = l @ a # b # ?r" by simp
  moreover have "search ?p (l @ a # b # ?r) = map_option (\<lambda>k. length l + k) (search ?p (a # b # ?r))"
    using cons.prems by (intro search_skip) auto
  moreover have "search ?p (a # b # ?r) = map_option (\<lambda>k. k + 2) (search ?p ?r)"
    using r by (intro search_pair assms(1)) auto
  moreover have "search ?p ?r = Some (length ?r - 4)" using cons.IH cons.prems by simp
  ultimately show ?case using r4 by simp
qed

lemma StrNStr_header:
  assumes "status \<noteq> []" "list_all not_eol status" "list_all field_ok fs"
  shows "StrNStr (bytes_of_string (header_text status fs)) header_end =
     Some (length (header_text status fs) - 4)"
proof -
  let ?ls = "map bytes_of_string (status # map field_text fs)"
  have eol: "bytes_of_string CRLF = [13, 10]" by (simp add: CRLF_def bytes_of_string_def byte_of_char_def)
  have char: "byte_of_char c = 13 \<longleftrightarrow> c = CHR 0x0D" "byte_of_char c = 10 \<longleftrightarrow> c = CHR 0x0A" for c
    using char_of_byte_of_char [of c] char_of_byte_of_char [of "CHR 0x0D"] char_of_byte_of_char [of "CHR 0x0A"]
    by (auto simp: byte_of_char_def)
  have line: "13 \<notin> set (bytes_of_string l) \<and> 10 \<notin> set (bytes_of_string l)" if "list_all not_eol l" for l
    using that by (auto simp: bytes_of_string_def list_all_iff not_eol_def char image_iff)
  have ok: "list_all (\<lambda>l. l \<noteq> [] \<and> 13 \<notin> set l \<and> 10 \<notin> set l) ?ls"
  proof -
    have "l \<noteq> [] \<and> list_all not_eol l" if "l \<in> set (status # map field_text fs)" for l
      using that assms field_text_eol by (auto simp: list_all_iff [of field_ok] field_text_def)
    then have "bytes_of_string l \<noteq> [] \<and> 13 \<notin> set (bytes_of_string l) \<and> 10 \<notin> set (bytes_of_string l)"
      if "l \<in> set (status # map field_text fs)" for l
      using that line by (metis length_bytes_of_string length_0_conv)
    then show ?thesis by (simp add: list_all_iff)
  qed
  let ?b = "concat (map (\<lambda>l. l @ [13, 10]) ?ls) @ [13, 10]"
  have b: "bytes_of_string (header_text status fs) = ?b"
  proof -
    have "bytes_of_string (concat (map (\<lambda>l. l @ CRLF) ls)) =
      concat (map (\<lambda>l. l @ [13, 10]) (map bytes_of_string ls))" for ls
      by (induction ls) (simp_all add: eol, simp add: bytes_of_string_def)
    then show ?thesis unfolding header_text_lines bytes_of_string_append eol by (rule arg_cong)
  qed
  have "search header_end ?b = Some (length ?b - 4)"
    unfolding header_end_def by (rule search_header_end [OF _ _ ok]) simp_all
  moreover have "length ?b = length (header_text status fs)"
    using b by (metis length_bytes_of_string)
  moreover have "4 \<le> length ?b" using assms(1) by (cases status) (auto simp: bytes_of_string_def)
  ultimately show ?thesis unfolding StrNStr_def b by (simp add: header_end_def)
qed


section \<open>The fields of a parsed header\<close>

text \<open>What the parser makes of a field, and its two maps.\<close>

definition key_of :: "string \<Rightarrow> string" where
  "key_of n = map tolower (rev (dropWhile is_space (rev (dropWhile is_space n))))"

definition trimmed :: "string \<Rightarrow> string" where
  "trimmed v = rev (dropWhile is_space (rev (dropWhile is_space v)))"

definition add_field :: "header_map \<times> header_count \<Rightarrow> field \<Rightarrow> header_map \<times> header_count" where
  "add_field hc f = (case fst hc (key_of (fst f)) of
      Some old \<Rightarrow> ((fst hc)(key_of (fst f) \<mapsto> old @ '', '' @ trimmed (snd f)),
        (snd hc)(key_of (fst f) \<mapsto> (case snd hc (key_of (fst f)) of None \<Rightarrow> 0 | Some n \<Rightarrow> n) + 1))
    | None \<Rightarrow> ((fst hc)(key_of (fst f) \<mapsto> trimmed (snd f)), (snd hc)(key_of (fst f) \<mapsto> 1)))"

lemma add_header_field:
  assumes "boost_documented B" "field_ok f"
  shows "add_header B hc (field_text f) = add_field hc f"
proof -
  have f: "find_char (field_text f) CHR '':'' 0 = Some (length (fst f))"
    using assms(2) find_char_first [of "CHR '':''" "fst f" "CHR '' '' # snd f"]
    by (simp add: field_text_def field_ok_def)
  have v: "boost_trim B (CHR '' '' # snd f) = trimmed (snd f)"
    by (simp add: boostD(4) [OF assms(1)] trimmed_def is_space_def)
  have k: "boost_to_lower B (boost_trim B (fst f)) = key_of (fst f)"
    unfolding boostD(3,4) [OF assms(1)] key_of_def ..
  have t: "take (length (fst f)) (field_text f) = fst f"
    "drop (length (fst f) + 1) (field_text f) = CHR '' '' # snd f"
    by (simp_all add: field_text_def)
  show ?thesis
    unfolding add_header_def f option.case Let_def t v k add_field_def ..
qed

lemma add_header_empty: "add_header B hc [] = hc"
proof -
  have "find_char [] CHR '':'' 0 = None" by (rule find_char_none) simp
  then show ?thesis by (simp add: add_header_def)
qed

definition fields_map :: "field list \<Rightarrow> header_map \<times> header_count" where
  "fields_map fs = foldl add_field (Map.empty, Map.empty) fs"

lemma parse_header_text:
  assumes "boost_documented B" "list_all not_eol status" "list_all field_ok fs"
  shows "parseHttpHeader B (header_text status fs) = (trimmed status, fst (fields_map fs), snd (fields_map fs))"
proof -
  have last: "splitLines CRLF False = [[]]" by code_simp
  have split: "splitLines (concat (map (\<lambda>l. l @ CRLF) ls) @ CRLF) False = ls @ [[]]"
    if "list_all (list_all not_eol) ls" for ls
    using that by (induction ls) (simp_all add: last splitLines_CRLF)
  have "list_all (list_all not_eol) (status # map field_text fs)"
    using assms(2,3) field_text_eol by (auto simp: list_all_iff [of _ fs] list_all_iff [of _ "map field_text fs"])
  from split [OF this] have lines: "splitLines (header_text status fs) False = (status # map field_text fs) @ [[]]"
    unfolding header_text_lines .
  have "foldl (add_header B) hc (map field_text fs) = foldl add_field hc fs" for hc
    using assms(3) by (induction fs arbitrary: hc) (simp_all add: add_header_field [OF assms(1)])
  then show ?thesis
    by (simp add: parseHttpHeader_def Let_def lines add_header_empty fields_map_def trimmed_def
        boostD(4) [OF assms(1)])
qed

lemma fields_map_other:
  "k \<notin> key_of ` fst ` set fs \<Longrightarrow>
   fst (foldl add_field hc fs) k = fst hc k \<and> snd (foldl add_field hc fs) k = snd hc k"
  by (induction fs arbitrary: hc) (auto simp: add_field_def split: option.splits)

lemma fields_map_none:
  "k \<notin> key_of ` fst ` set fs \<Longrightarrow> fst (fields_map fs) k = None \<and> header_count_of (snd (fields_map fs)) k = 0"
  using fields_map_other [of k fs "(Map.empty, Map.empty)"] by (simp add: fields_map_def header_count_of_def)

lemma fields_map_once:
  assumes "fs = us @ (n, v) # ws" "key_of n = k" "k \<notin> key_of ` fst ` set us" "k \<notin> key_of ` fst ` set ws"
  shows "fst (fields_map fs) k = Some (trimmed v) \<and> header_count_of (snd (fields_map fs)) k = 1"
proof -
  let ?m = "foldl add_field (Map.empty, Map.empty) us"
  have m: "fst ?m k = None" "snd ?m k = None" using fields_map_other [OF assms(3)] by simp_all
  have "fields_map fs = foldl add_field (add_field ?m (n, v)) ws" by (simp add: fields_map_def assms(1))
  then show ?thesis
    using fields_map_other [OF assms(4), of "add_field ?m (n, v)"] m assms(2)
    by (simp add: add_field_def header_count_of_def)
qed


lemma fields_map_distinct:
  assumes "distinct (map (\<lambda>f. key_of (fst f)) fs)" "(n, v) \<in> set fs"
  shows "fst (fields_map fs) (key_of n) = Some (trimmed v)" "header_count_of (snd (fields_map fs)) (key_of n) = 1"
proof -
  obtain us ws where fs: "fs = us @ (n, v) # ws" using assms(2) by (auto simp: in_set_conv_decomp)
  have "key_of n \<notin> key_of ` fst ` set us" "key_of n \<notin> key_of ` fst ` set ws"
    using assms(1) unfolding fs by (auto simp: image_image)
  from fields_map_once [OF fs refl this]
  show "fst (fields_map fs) (key_of n) = Some (trimmed v)" "header_count_of (snd (fields_map fs)) (key_of n) = 1"
    by simp_all
qed

text \<open>
  C10: Round trip of HTTP headers. A header written line by line from a status line and fields (no line
  ends, no colon in a name, names that differ in more than case) is parsed into exactly these: the
  trimmed status line, and for each name in lower case its trimmed value, counted once.
\<close>

theorem header_roundtrip:
  assumes "boost_documented B" "list_all not_eol status" "list_all field_ok fs"
    and "distinct (map (\<lambda>f. key_of (fst f)) fs)"
  shows "case parseHttpHeader B (header_text status fs) of (st, headers, cnt) \<Rightarrow>
     st = trimmed status \<and> dom headers = key_of ` fst ` set fs \<and>
     list_all (\<lambda>(n, v). headers (key_of n) = Some (trimmed v) \<and> header_count_of cnt (key_of n) = 1) fs"
proof -
  have "dom (fst (fields_map fs)) = key_of ` fst ` set fs"
  proof (rule set_eqI)
    fix k
    show "k \<in> dom (fst (fields_map fs)) \<longleftrightarrow> k \<in> key_of ` fst ` set fs"
    proof (cases "k \<in> key_of ` fst ` set fs")
      case True
      then obtain n v where "k = key_of n" "(n, v) \<in> set fs" by auto
      with True fields_map_distinct(1) [OF assms(4)] show ?thesis by fastforce
    next
      case False
      then show ?thesis using fields_map_none by (auto simp: domIff)
    qed
  qed
  then show ?thesis
    unfolding parse_header_text [OF assms(1-3)] prod.case
    using fields_map_distinct [OF assms(4)] by (auto simp: list_all_iff)
qed

lemma header_roundtrip_witness:
  "case parseHttpHeader boost_ref (header_text ''GET / HTTP/1.1'' [(''Host'', ''a.b''), (''Accept'', '' * '')]) of
     (st, headers, cnt) \<Rightarrow> st = ''GET / HTTP/1.1'' \<and> headers ''accept'' = Some ''*'' \<and>
       header_count_of cnt ''host'' = 1"
proof -
  have "list_all not_eol ''GET / HTTP/1.1''" "list_all field_ok [(''Host'', ''a.b''), (''Accept'', '' * '')]"
    "distinct (map (\<lambda>f. key_of (fst f)) [(''Host'', ''a.b''), (''Accept'', '' * '')])" by code_simp+
  note r = header_roundtrip [OF boost_ref_documented this]
  have "trimmed ''GET / HTTP/1.1'' = ''GET / HTTP/1.1''" "key_of ''Host'' = ''host''"
    "key_of ''Accept'' = ''accept''" "trimmed '' * '' = ''*''" by code_simp+
  with r show ?thesis by (auto split: prod.splits)
qed

end
