(* ===== verification/Ws_Handshake.thy ===== *)
theory Ws_Handshake
  imports Ws_Headers Ws_Negotiation
begin

text \<open>
  A client and a server side by side. The request of the client is parsed into its fields
  and accepted by the server, the answer of the server passes every check of the client: the
  opening handshake completes, with both sides open on the same protocol.
\<close>

section \<open>The request as fields\<close>

definition request_status :: "client_factory \<Rightarrow> string" where
  "request_status F = ''GET '' @ cl_resource F @ '' HTTP/1.1''"

definition request_fields :: "('z, 'd) client_setup \<Rightarrow> string \<Rightarrow> int \<Rightarrow> field list" where
  "request_fields C key version = (let F = ct_factory C; V = ct_options C; B = ct_boost C in
     (if cl_useragent F \<noteq> [] then [(''User-Agent'', cl_useragent F)] else [])
     @ [(''Host'', host_port F), (''Upgrade'', ''WebSocket''), (''Connection'', ''Upgrade''),
        (''Pragma'', ''no-cache''), (''Cache-Control'', ''no-cache'')]
     @ map (\<lambda>(n, vs). (n, hd vs)) (cl_headers F)
     @ [(''Sec-WebSocket-Key'', key)]
     @ (if cl_origin F \<noteq> [] then
          [(if co_version V > 10 then ''Origin'' else ''Sec-WebSocket-Origin'', cl_origin F)] else [])
     @ (if cl_protocols F \<noteq> [] then [(''Sec-WebSocket-Protocol'', boost_join B (cl_protocols F) '','')] else [])
     @ (if co_offers V \<noteq> [] then [(''Sec-WebSocket-Extensions'',
          boost_join B (map offer_getExtensionString (co_offers V)) '', '')] else [])
     @ [(''Sec-WebSocket-Version'', int_string version)])"

lemma request_is_header_text:
  "request_head (ct_factory C) @ header_line ''Sec-WebSocket-Key'' key @ request_tail C v =
   header_text (request_status (ct_factory C)) (request_fields C key v)"
proof -
  have l: "header_line ''Upgrade'' ''WebSocket'' = ''Upgrade: WebSocket'' @ CRLF"
    "header_line ''Connection'' ''Upgrade'' = ''Connection: Upgrade'' @ CRLF"
    "header_line ''Pragma'' ''no-cache'' = ''Pragma: no-cache'' @ CRLF"
    "header_line ''Cache-Control'' ''no-cache'' = ''Cache-Control: no-cache'' @ CRLF"
    by (simp_all add: header_line_def)
  have h: "concat (map (\<lambda>(n, v). header_line n v) (map (\<lambda>(n, vs). (n, hd vs)) hs)) =
     concat (map (\<lambda>(n, vs). header_line n (hd vs)) hs)" for hs :: ws_headers
    by (induction hs) auto
  show ?thesis
    unfolding header_text_def request_head_def request_tail_def request_status_def request_fields_def
      Let_def map_append concat_append h
    by (simp add: l)
qed

text \<open>The answer to a request, without compression.\<close>

definition response_status :: string where
  "response_status = ''HTTP/1.1 101 Switching Protocols''"

definition spread :: "ws_headers \<Rightarrow> field list" where
  "spread hs = concat (map (\<lambda>(n, vs). map (\<lambda>v. (n, v)) vs) hs)"

definition response_fields :: "('z, 'd) server_setup \<Rightarrow> string \<Rightarrow> ws_headers \<Rightarrow> string \<Rightarrow> field list" where
  "response_fields S protocol hs key =
     (if sf_server (ss_factory S) \<noteq> [] then [(''Server'', sf_server (ss_factory S))] else [])
     @ [(''Upgrade'', ''WebSocket''), (''Connection'', ''Upgrade'')]
     @ spread (sf_headers (ss_factory S)) @ spread hs
     @ (if protocol \<noteq> [] then [(''Sec-WebSocket-Protocol'', protocol)] else [])
     @ [(''Sec-WebSocket-Accept'', accept_key (ss_env S) (cf_base64 (ss_config S)) key)]"

lemma response_is_header_text:
  "switching_response S protocol hs key None = header_text response_status (response_fields S protocol hs key)"
proof -
  have l: "header_line ''Upgrade'' ''WebSocket'' = ''Upgrade: WebSocket'' @ CRLF"
    "header_line ''Connection'' ''Upgrade'' = ''Connection: Upgrade'' @ CRLF"
    by (simp_all add: header_line_def)
  have one: "concat (map (\<lambda>(n, v). header_line n v) (map (\<lambda>v. (n, v)) vs)) = concat (map (header_line n) vs)" for n vs
    by (induction vs) auto
  have h: "header_lines hs = concat (map (\<lambda>(n, v). header_line n v) (spread hs))" for hs
    by (induction hs) (auto simp: header_lines_def spread_def one [symmetric])
  show ?thesis
    unfolding switching_response_def header_text_def response_fields_def response_status_def server_line_def
      Let_def map_append concat_append h
    by (simp add: l)
qed


section \<open>Looking up a field\<close>

definition fields_named :: "string \<Rightarrow> field list \<Rightarrow> field list" where
  "fields_named k fs = filter (\<lambda>f. key_of (fst f) = k) fs"

lemma fields_named_simps [simp]:
  "fields_named k [] = []" "fields_named k (us @ vs) = fields_named k us @ fields_named k vs"
  "fields_named k (f # fs) = (if key_of (fst f) = k then f # fields_named k fs else fields_named k fs)"
  by (simp_all add: fields_named_def)

lemma lookup_one:
  assumes "fields_named k fs = [(n, v)]"
  shows "fst (fields_map fs) k = Some (trimmed v)" "header_count_of (snd (fields_map fs)) k = 1"
proof -
  obtain us ws where fs: "fs = us @ (n, v) # ws" and us: "\<forall>u\<in>set us. key_of (fst u) \<noteq> k"
    and n: "key_of n = k" and ws: "[] = filter (\<lambda>f. key_of (fst f) = k) ws"
    using assms by (auto simp: fields_named_def filter_eq_Cons_iff)
  have ws': "\<forall>w\<in>set ws. key_of (fst w) \<noteq> k" using ws [symmetric] by (simp add: filter_empty_conv)
  have "k \<notin> key_of ` fst ` set us" "k \<notin> key_of ` fst ` set ws" using us ws' by auto
  then show "fst (fields_map fs) k = Some (trimmed v)" "header_count_of (snd (fields_map fs)) k = 1"
    using fields_map_once [OF fs n] by simp_all
qed

lemma lookup_none:
  assumes "fields_named k fs = []"
  shows "fst (fields_map fs) k = None" "header_count_of (snd (fields_map fs)) k = 0"
proof -
  have "k \<notin> key_of ` fst ` set fs" using assms by (auto simp: fields_named_def filter_empty_conv)
  then show "fst (fields_map fs) k = None" "header_count_of (snd (fields_map fs)) k = 0"
    using fields_map_none by simp_all
qed

lemma key_of_names:
  "key_of ''User-Agent'' = ''user-agent''" "key_of ''Host'' = ''host''" "key_of ''Upgrade'' = ''upgrade''"
  "key_of ''Connection'' = ''connection''" "key_of ''Pragma'' = ''pragma''"
  "key_of ''Cache-Control'' = ''cache-control''" "key_of ''Sec-WebSocket-Key'' = ''sec-websocket-key''"
  "key_of ''Sec-WebSocket-Protocol'' = ''sec-websocket-protocol''"
  "key_of ''Sec-WebSocket-Version'' = ''sec-websocket-version''" "key_of ''Server'' = ''server''"
  "key_of ''Sec-WebSocket-Accept'' = ''sec-websocket-accept''"
  "key_of ''Sec-WebSocket-Extensions'' = ''sec-websocket-extensions''"
  "key_of ''Origin'' = ''origin''" "key_of ''Sec-WebSocket-Origin'' = ''sec-websocket-origin''"
  by code_simp+

definition reserved :: "string list" where
  "reserved = [''host'', ''upgrade'', ''connection'', ''origin'', ''sec-websocket-origin'',
     ''sec-websocket-key'', ''sec-websocket-protocol'', ''sec-websocket-extensions'',
     ''sec-websocket-version'', ''sec-websocket-accept'']"

definition own_fields :: "field list \<Rightarrow> bool" where
  "own_fields fs \<longleftrightarrow> list_all (\<lambda>f. field_ok f \<and> key_of (fst f) \<notin> set reserved) fs"

lemma own_fields_named: "own_fields fs \<Longrightarrow> k \<in> set reserved \<Longrightarrow> fields_named k fs = []"
  by (auto simp: own_fields_def list_all_iff fields_named_def filter_empty_conv)

section \<open>What is asked of the configuration\<close>

text \<open>A word: no white space, so no line end.\<close>

definition word_ok :: "string \<Rightarrow> bool" where
  "word_ok w \<longleftrightarrow> w \<noteq> [] \<and> list_all (\<lambda>c. \<not> is_space c) w"

lemma word_ok_trimmed: "word_ok w \<Longrightarrow> trimmed w = w"
proof -
  assume w: "word_ok w"
  then have "dropWhile is_space w = w" "dropWhile is_space (rev w) = rev w"
    by (auto simp: word_ok_def list_all_iff dropWhile_eq_self_iff hd_rev)
  then show ?thesis by (simp add: trimmed_def)
qed

lemma word_ok_eol: "word_ok w \<Longrightarrow> list_all not_eol w"
  by (auto simp: word_ok_def list_all_iff not_eol_def is_space_def)

definition env_documented :: "hs_env \<Rightarrow> bool" where
  "env_documented E \<longleftrightarrow> boost_documented (he_boost E) \<and>
     (\<forall>s t. he_ends_with E s t \<longleftrightarrow> length t \<le> length s \<and> drop (length s - length t) s = t) \<and>
     (\<forall>b. length (he_sha1 E b) = 20)"

text \<open>Base64 before the padding: six bits to a character of its alphabet, rounded up.\<close>

definition b64_documented :: "(bytes \<Rightarrow> bytes) \<Rightarrow> bool" where
  "b64_documented b64 \<longleftrightarrow> (\<forall>bs. length (b64 bs) = (4 * length bs + 2) div 3 \<and>
     list_all (\<lambda>b. key_char (char_of_byte b)) (b64 bs))"

definition client_sane :: "('z, 'd) client_setup \<Rightarrow> bool" where
  "client_sane C \<longleftrightarrow> (let F = ct_factory C in
     word_ok (cl_resource F) \<and> word_ok (cl_host F) \<and> list_all not_eol (cl_useragent F) \<and>
     cl_origin F = [] \<and> co_offers (ct_options C) = [] \<and>
     own_fields (map (\<lambda>(n, vs). (n, hd vs)) (cl_headers F)) \<and>
     distinct (cl_protocols F) \<and> list_all (\<lambda>p. word_ok p \<and> CHR '','' \<notin> set p) (cl_protocols F))"

lemma b64_word:
  assumes "b64_documented b64" "bs \<noteq> []"
  shows "word_ok (string_of_bytes (b64encode b64 bs))"
proof -
  have sp: "\<not> is_space c" if "key_char c" for c
    using that by (auto simp: key_char_def is_space_def less_eq_char_def)
  have eq: "char_of_byte 61 = CHR ''=''" "\<not> is_space CHR ''=''" by code_simp+
  have b: "list_all (\<lambda>b. key_char (char_of_byte b)) (b64 bs)" "length (b64 bs) = (4 * length bs + 2) div 3"
    using assms(1) by (auto simp: b64_documented_def)
  have "0 < length bs" using assms(2) by simp
  then have "0 < length (b64 bs)" unfolding b(2) by presburger
  with b(1) show ?thesis
    using sp eq by (auto simp: b64encode_def word_ok_def string_of_bytes_def list_all_iff)
qed

lemma new_key_shape:
  assumes "b64_documented (cf_base64 (ct_config C))" "length random = 16"
  shows "length (new_key C random) = 24" "list_all key_char (take 22 (new_key C random))"
    "drop 22 (new_key C random) = ''==''" "word_ok (new_key C random)"
proof -
  let ?b = "cf_base64 (ct_config C) random"
  have b: "length ?b = 22" "list_all (\<lambda>b. key_char (char_of_byte b)) ?b"
    using assms by (auto simp: b64_documented_def)
  have eq: "char_of_byte 61 = CHR ''=''" by code_simp
  have k: "new_key C random = string_of_bytes ?b @ ''==''"
    by (simp add: new_key_def b64encode_def assms(2) string_of_bytes_def eq numeral_2_eq_2)
  show "length (new_key C random) = 24" "list_all key_char (take 22 (new_key C random))"
    "drop 22 (new_key C random) = ''==''"
    using b by (simp_all add: k string_of_bytes_def list_all_iff)
  show "word_ok (new_key C random)"
    unfolding new_key_def using assms by (intro b64_word) auto
qed

lemma accept_key_word:
  assumes "env_documented E" "b64_documented b64"
  shows "word_ok (accept_key E b64 key)"
proof -
  have "he_sha1 E b \<noteq> []" for b using assms(1) by (auto simp: env_documented_def dest: spec [of _ b])
  then show ?thesis unfolding accept_key_def by (intro b64_word assms(2))
qed

section \<open>The request is acceptable\<close>

lemma digits_ok: "word_ok (to_string n)"
proof -
  have "\<not> is_space c" if "is_digit c" for c using that by (auto simp: is_digit_def is_space_def)
  then show ?thesis using to_string_digits [of n] by (auto simp: word_ok_def list_all_iff)
qed

lemma word_ok_append: "word_ok u \<Longrightarrow> word_ok v \<Longrightarrow> word_ok (u @ v)"
  by (simp add: word_ok_def)

lemma host_port_ok: "word_ok (cl_host F) \<Longrightarrow> word_ok (host_port F)"
proof -
  assume "word_ok (cl_host F)"
  moreover have "word_ok '':''" by code_simp
  ultimately show ?thesis
    unfolding host_port_def by (intro word_ok_append digits_ok) simp_all
qed

lemma join_words_ok:
  "list_all word_ok ws \<Longrightarrow> ws \<noteq> [] \<Longrightarrow> word_ok (join_with '','' ws)"
proof (induction "'',''" ws rule: join_with.induct)
  case (3 p q ps)
  moreover have "word_ok '',''" by code_simp
  ultimately show ?case by (auto simp: word_ok_def)
qed simp_all

lemma version_word: "word_ok (int_string v)" if "0 \<le> v" for v
  using that by (simp add: int_string_def digits_ok)

lemma literal_names:
  "list_all (\<lambda>n. list_all not_eol n \<and> CHR '':'' \<notin> set n)
     [''User-Agent'', ''Host'', ''Upgrade'', ''Connection'', ''Pragma'', ''Cache-Control'', ''Server'',
      ''Sec-WebSocket-Key'', ''Sec-WebSocket-Protocol'', ''Sec-WebSocket-Version'', ''Sec-WebSocket-Accept'']"
  by code_simp

lemma literal_fields:
  "field_ok (''User-Agent'', v) = list_all not_eol v" "field_ok (''Host'', v) = list_all not_eol v"
  "field_ok (''Upgrade'', v) = list_all not_eol v" "field_ok (''Connection'', v) = list_all not_eol v"
  "field_ok (''Pragma'', v) = list_all not_eol v" "field_ok (''Cache-Control'', v) = list_all not_eol v"
  "field_ok (''Server'', v) = list_all not_eol v" "field_ok (''Sec-WebSocket-Key'', v) = list_all not_eol v"
  "field_ok (''Sec-WebSocket-Protocol'', v) = list_all not_eol v"
  "field_ok (''Sec-WebSocket-Version'', v) = list_all not_eol v"
  "field_ok (''Sec-WebSocket-Accept'', v) = list_all not_eol v"
  using literal_names unfolding field_ok_def fst_conv snd_conv list.pred_inject by blast+

lemma literal_values:
  "list_all not_eol ''WebSocket''" "list_all not_eol ''Upgrade''" "list_all not_eol ''no-cache''"
  by code_simp+

lemma client_saneD:
  assumes "client_sane C"
  shows "word_ok (cl_resource (ct_factory C))" "word_ok (cl_host (ct_factory C))"
    "list_all not_eol (cl_useragent (ct_factory C))" "cl_origin (ct_factory C) = []"
    "co_offers (ct_options C) = []" "own_fields (map (\<lambda>(n, vs). (n, hd vs)) (cl_headers (ct_factory C)))"
    "distinct (cl_protocols (ct_factory C))"
    "list_all (\<lambda>p. word_ok p \<and> CHR '','' \<notin> set p) (cl_protocols (ct_factory C))"
  using assms by (simp_all add: client_sane_def Let_def)

lemma request_fields_ok:
  assumes "boost_documented (ct_boost C)" "client_sane C" "word_ok key" "0 \<le> v"
  shows "list_all field_ok (request_fields C key v)"
proof -
  note c = client_saneD [OF assms(2)]
  have "list_all field_ok (map (\<lambda>(n, vs). (n, hd vs)) (cl_headers (ct_factory C)))"
    using c(6) by (auto simp: own_fields_def list_all_iff)
  moreover have "list_all not_eol (join_with '','' (cl_protocols (ct_factory C)))"
    if "cl_protocols (ct_factory C) \<noteq> []"
    using c(8) that by (intro word_ok_eol join_words_ok) (auto simp: list_all_iff)
  moreover note host_port_ok [OF c(2), THEN word_ok_eol] assms(3) [THEN word_ok_eol]
    version_word [OF assms(4), THEN word_ok_eol] c(3)
  ultimately show ?thesis
    unfolding request_fields_def Let_def list_all_append c(4,5) boostD(2) [OF assms(1)]
    by (simp add: literal_fields not_eol_def)
qed


lemma request_lookup:
  assumes "boost_documented (ct_boost C)" "client_sane C"
  shows "fields_named ''host'' (request_fields C key v) = [(''Host'', host_port (ct_factory C))]"
    "fields_named ''upgrade'' (request_fields C key v) = [(''Upgrade'', ''WebSocket'')]"
    "fields_named ''connection'' (request_fields C key v) = [(''Connection'', ''Upgrade'')]"
    "fields_named ''sec-websocket-key'' (request_fields C key v) = [(''Sec-WebSocket-Key'', key)]"
    "fields_named ''sec-websocket-version'' (request_fields C key v) = [(''Sec-WebSocket-Version'', int_string v)]"
    "fields_named ''origin'' (request_fields C key v) = []"
    "fields_named ''sec-websocket-origin'' (request_fields C key v) = []"
    "fields_named ''sec-websocket-extensions'' (request_fields C key v) = []"
    "fields_named ''sec-websocket-protocol'' (request_fields C key v) =
       (if cl_protocols (ct_factory C) = [] then []
        else [(''Sec-WebSocket-Protocol'', join_with '','' (cl_protocols (ct_factory C)))])"
proof -
  note c = client_saneD [OF assms(2)]
  have own: "k \<in> set reserved \<Longrightarrow> fields_named k (map (\<lambda>(n, vs). (n, hd vs)) (cl_headers (ct_factory C))) = []" for k
    by (rule own_fields_named [OF c(6)])
  show "fields_named ''host'' (request_fields C key v) = [(''Host'', host_port (ct_factory C))]"
    "fields_named ''upgrade'' (request_fields C key v) = [(''Upgrade'', ''WebSocket'')]"
    "fields_named ''connection'' (request_fields C key v) = [(''Connection'', ''Upgrade'')]"
    "fields_named ''sec-websocket-key'' (request_fields C key v) = [(''Sec-WebSocket-Key'', key)]"
    "fields_named ''sec-websocket-version'' (request_fields C key v) = [(''Sec-WebSocket-Version'', int_string v)]"
    "fields_named ''origin'' (request_fields C key v) = []"
    "fields_named ''sec-websocket-origin'' (request_fields C key v) = []"
    "fields_named ''sec-websocket-extensions'' (request_fields C key v) = []"
    "fields_named ''sec-websocket-protocol'' (request_fields C key v) =
       (if cl_protocols (ct_factory C) = [] then []
        else [(''Sec-WebSocket-Protocol'', join_with '','' (cl_protocols (ct_factory C)))])"
    by (simp_all add: request_fields_def Let_def c(4,5) boostD(2) [OF assms(1)] key_of_names own reserved_def)
qed

lemma request_status_ok:
  assumes "word_ok (cl_resource F)"
  shows "list_all not_eol (request_status F)" "trimmed (request_status F) = request_status F"
    "request_status F \<noteq> []"
proof -
  have e: "list_all not_eol ''GET ''" "list_all not_eol '' HTTP/1.1''" by code_simp+
  then show "list_all not_eol (request_status F)"
    using word_ok_eol [OF assms] by (simp add: request_status_def)
  have "\<not> is_space CHR ''G''" "\<not> is_space CHR ''1''" by code_simp+
  then show "trimmed (request_status F) = request_status F"
    by (simp add: trimmed_def request_status_def)
qed (simp add: request_status_def)

lemma request_words:
  assumes "boost_documented B" "word_ok (cl_resource F)"
  shows "split_words B (request_status F) = [''GET'', cl_resource F, ''HTTP/1.1'']"
proof -
  have "list_all (\<lambda>c. \<not> is_space c) ''GET''" "list_all (\<lambda>c. \<not> is_space c) ''HTTP/1.1''"
    and sp: "is_space CHR '' ''" by code_simp+
  then have "\<forall>x\<in>set [''GET'', cl_resource F, ''HTTP/1.1'']. list_all (\<lambda>c. \<not> is_space c) x"
    using assms(2) by (simp add: word_ok_def)
  from pieces_join [OF this sp] have
    "pieces is_space (join_with '' '' [''GET'', cl_resource F, ''HTTP/1.1'']) = [''GET'', cl_resource F, ''HTTP/1.1'']"
    by simp
  moreover have "split_words B (request_status F) = pieces is_space (request_status F)"
    using assms(1) by (simp add: split_words_def split_space_def boost_documented_def)
  ultimately show ?thesis by (simp add: request_status_def)
qed

lemma trim_word: "boost_documented B \<Longrightarrow> word_ok w \<Longrightarrow> boost_trim B w = w"
  using word_ok_trimmed [of w] by (simp add: boostD(4) trimmed_def)

lemma request_line_good:
  assumes "boost_documented B" "word_ok (cl_resource F)"
  shows "request_line_ok B (request_status F)" "uri_of B (request_status F) = cl_resource F"
proof -
  have w: "word_ok ''GET''" "word_ok ''HTTP/1.1''" by code_simp+
  have "pieces (\<lambda>c. c = CHR ''/'') ''HTTP/1.1'' = [''HTTP'', ''1.1'']" by code_simp
  then show "request_line_ok B (request_status F)" "uri_of B (request_status F) = cl_resource F"
    by (simp_all add: request_line_ok_def uri_of_def request_words [OF assms] trim_word [OF assms(1)] w assms(2)
        boostD(1) [OF assms(1)] Let_def)
qed


lemma token_words:
  assumes "boost_documented B"
  shows "names_token B ''WebSocket'' ''websocket''" "names_token B ''Upgrade'' ''upgrade''"
    "boost_to_lower B (boost_trim B ''WebSocket'') = ''websocket''"
proof -
  have w: "word_ok ''WebSocket''" "word_ok ''Upgrade''" by code_simp+
  have p: "pieces (\<lambda>c. c = CHR '','') ''WebSocket'' = [''WebSocket'']"
    "pieces (\<lambda>c. c = CHR '','') ''Upgrade'' = [''Upgrade'']"
    "map tolower ''WebSocket'' = ''websocket''" "map tolower ''Upgrade'' = ''upgrade''" by code_simp+
  have ch: "char_of (119 :: nat) = CHR ''w''" "char_of (115 :: nat) = CHR ''s''" "char_of (117 :: nat) = CHR ''u''"
    by code_simp+
  show "names_token B ''WebSocket'' ''websocket''" "names_token B ''Upgrade'' ''upgrade''"
    "boost_to_lower B (boost_trim B ''WebSocket'') = ''websocket''"
    unfolding names_token_def boostD(1) [OF assms] p
    by (simp_all add: trim_word [OF assms w(1)] trim_word [OF assms w(2)] boostD(3) [OF assms] tolower_def ch)
qed

text \<open>The two sides use the same libraries.\<close>

definition same_libraries :: "('z, 'd) client_setup \<Rightarrow> ('y, 'e) server_setup \<Rightarrow> bool" where
  "same_libraries C S \<longleftrightarrow> ss_env S = ct_env C \<and> cf_base64 (ss_config S) = cf_base64 (ct_config C) \<and>
     env_documented (ct_env C) \<and> b64_documented (cf_base64 (ct_config C))"

lemma same_librariesD:
  assumes "same_libraries C S"
  shows "sv_boost S = ct_boost C" "boost_documented (ct_boost C)" "ss_env S = ct_env C"
    "cf_base64 (ss_config S) = cf_base64 (ct_config C)" "b64_documented (cf_base64 (ct_config C))"
    "he_ends_with (ct_env C) s t \<longleftrightarrow> length t \<le> length s \<and> drop (length s - length t) s = t"
  using assms by (simp_all add: same_libraries_def sv_boost_def ct_boost_def env_documented_def)

lemma version_strings: "v \<in> {8, 13} \<Longrightarrow> stoi (trimmed (int_string v)) = Some v"
proof -
  have "stoi (trimmed (int_string 8)) = Some 8" "stoi (trimmed (int_string 13)) = Some 13" by code_simp+
  then show "v \<in> {8, 13} \<Longrightarrow> ?thesis" by auto
qed

lemma request_acceptable:
  assumes lib: "same_libraries C S" and c: "client_sane C" and r: "length random = 16"
    and v: "v \<in> {8, 13}" "v \<in> set (so_versions (ss_options S))"
  shows "acceptable S (request_status (ct_factory C)) (fst (fields_map (request_fields C (new_key C random) v)))
     (snd (fields_map (request_fields C (new_key C random) v)))"
proof -
  let ?key = "new_key C random"
  let ?fs = "request_fields C ?key v"
  note l = same_librariesD [OF lib]
  note f = request_lookup [OF l(2) c, of ?key v]
  note k = new_key_shape [OF l(5) r]
  have key: "key_ok S (snd (fields_map ?fs)) ?key"
    using k(1,2,3) lookup_one(2) [OF f(4)] by (simp add: key_ok_def l(3,6))
  have tw: "trimmed ''WebSocket'' = ''WebSocket''" "trimmed ''Upgrade'' = ''Upgrade''" by code_simp+
  have orig: "origin_ok S (fst (fields_map ?fs)) (snd (fields_map ?fs)) v"
    using lookup_none(1) [OF f(6)] lookup_none(1) [OF f(7)] by (simp add: origin_ok_def Let_def)
  show ?thesis
    unfolding acceptable_def l(1) lookup_one [OF f(1)] lookup_one [OF f(5)] lookup_one [OF f(4)] option.case
      version_strings [OF v(1)] names_header_def lookup_one [OF f(2)] lookup_one [OF f(3)] tw
      word_ok_trimmed [OF k(4)] trim_word [OF l(2) k(4)]
    using request_line_good(1) [OF l(2) client_saneD(1) [OF c]] token_words(1,2) [OF l(2)] key orig v(2)
    by simp
qed

lemma request_protocols:
  assumes lib: "same_libraries C S" and c: "client_sane C"
  shows "protocols_of S (fst (fields_map (request_fields C key v))) = cl_protocols (ct_factory C)"
proof -
  let ?ps = "cl_protocols (ct_factory C)"
  note l = same_librariesD [OF lib]
  note f = request_lookup [OF l(2) c, of key v] and p = client_saneD(8) [OF c]
  show ?thesis
  proof (cases "?ps = []")
    case True
    then show ?thesis using lookup_none(1) f(9) by (simp add: protocols_of_def)
  next
    case False
    have w: "word_ok (join_with '','' ?ps)" using p False by (intro join_words_ok) (auto simp: list_all_iff)
    have "pieces (\<lambda>c. c = CHR '','') (join_with '','' ?ps) = ?ps"
      using p False by (intro pieces_join) (auto simp: list_all_iff)
    moreover have "map (boost_trim (ct_boost C)) ?ps = ?ps"
      using p by (intro map_idI) (auto simp: list_all_iff trim_word [OF l(2)])
    ultimately show ?thesis
      using lookup_one(1) [of _ _ "''Sec-WebSocket-Protocol''"] f(9) False
      by (simp add: protocols_of_def l(1) word_ok_trimmed [OF w] boostD(1) [OF l(2)])
  qed
qed


section \<open>The server's answer\<close>

definition server_sane :: "('z, 'd) server_setup \<Rightarrow> ws_headers \<Rightarrow> bool" where
  "server_sane S hs \<longleftrightarrow> list_all not_eol (sf_server (ss_factory S)) \<and>
     own_fields (spread (sf_headers (ss_factory S))) \<and> own_fields (spread hs)"

text \<open>What \<open>onConnect\<close> of the server is called with for a request of the client.\<close>

definition seen_request ::
  "('z, 'd) client_setup \<Rightarrow> ('y, 'e) server_setup \<Rightarrow> string \<Rightarrow> string \<Rightarrow> int \<Rightarrow> (connection_request \<times> string) option" where
  "seen_request C S peer key version =
     request_of S peer (request_status (ct_factory C)) (fst (fields_map (request_fields C key version)))
       (snd (fields_map (request_fields C key version)))"

lemma seen_request_key:
  assumes lib: "same_libraries C S" and c: "client_sane C" and r: "length random = 16"
    and q: "seen_request C S peer (new_key C random) v = Some (req, k)"
  shows "k = new_key C random" "cr_protocols req = cl_protocols (ct_factory C)" "cr_extensions req = []"
proof -
  let ?fs = "request_fields C (new_key C random) v"
  note l = same_librariesD [OF lib]
  note f = request_lookup [OF l(2) c, of "new_key C random" v]
  have key: "boost_trim (ct_boost C) (trimmed (new_key C random)) = new_key C random"
    using new_key_shape(4) [OF l(5) r] by (simp add: word_ok_trimmed trim_word [OF l(2)])
  have "k = boost_trim (sv_boost S) (the (fst (fields_map ?fs) ''sec-websocket-key''))"
    and "cr_protocols req = protocols_of S (fst (fields_map ?fs))"
    and "cr_extensions req = extensions_of S (fst (fields_map ?fs))"
    using q by (auto simp: seen_request_def request_of_def Let_def split: if_splits option.splits)
  then show "k = new_key C random" "cr_protocols req = cl_protocols (ct_factory C)" "cr_extensions req = []"
    using request_protocols [OF lib c]
    by (simp_all add: l(1) lookup_one(1) [OF f(4)] key extensions_of_def lookup_none(1) [OF f(8)])
qed

lemma seen_request_exists:
  assumes lib: "same_libraries C S" and c: "client_sane C" and r: "length random = 16"
    and v: "v \<in> {8, 13}" "v \<in> set (so_versions (ss_options S))"
    and res: "resource_of S (request_status (ct_factory C)) \<noteq> None"
    and host: "host_of S (host_port (ct_factory C)) \<noteq> None"
  shows "seen_request C S peer (new_key C random) v \<noteq> None"
proof -
  note l = same_librariesD [OF lib]
  note f = request_lookup [OF l(2) c, of "new_key C random" v]
  have h: "boost_trim (sv_boost S) (trimmed (host_port (ct_factory C))) = host_port (ct_factory C)"
    using host_port_ok [OF client_saneD(2) [OF c]] by (simp add: l(1) trim_word [OF l(2)] word_ok_trimmed)
  show ?thesis
    using request_acceptable [OF lib c r v] request_protocols [OF lib c] client_saneD(7) [OF c] res host
    by (auto simp: seen_request_def request_of_def Let_def lookup_none(2) [OF f(8)] lookup_one(1) [OF f(1)] h)
qed

lemma server_answers:
  assumes lib: "same_libraries C S" and c: "client_sane C" and r: "length random = 16"
    and v: "v \<in> {8, 13}"
    and q: "seen_request C S (sv_peer s) (new_key C random) v = Some (req, k)"
    and s: "awaiting s" "below_limit S (sv_countConnections s)"
    and o: "ss_onConnect S req = Inr (protocol, hs)" "protocol = [] \<or> protocol \<in> set (cl_protocols (ct_factory C))"
    and d: "ws_data s = bytes_of_string (header_text (request_status (ct_factory C)) (request_fields C (new_key C random) v))"
  shows "\<exists>t. processHandshake S s = (Inr (), t) \<and> ws_state t = OPEN \<and>
     ws_out t = ws_out s @ Write (bytes_of_string (switching_response S protocol hs (new_key C random) None))
       # open_events (ss_config S) s \<and>
     sv_webSocketProtocolInUse t = protocol"
proof -
  let ?fs = "request_fields C (new_key C random) v" and ?st = "request_status (ct_factory C)"
  let ?t = "header_text ?st ?fs"
  note l = same_librariesD [OF lib]
  note k = seen_request_key [OF lib c r q] and n = new_key_shape [OF l(5) r]
  note st = request_status_ok [OF client_saneD(1) [OF c]]
  have "0 \<le> v" using v by auto
  note ok = request_fields_ok [OF l(2) c n(4) this]
  have len: "length ?t - 4 + 4 = length ?t" by (simp add: header_text_def CRLF_def)
  have front: "StrNStr (ws_data s) header_end = Some (length ?t - 4)" "drop (length ?t - 4 + 4) (ws_data s) = []"
    "parseHttpHeader (sv_boost S) (string_of_bytes (take (length ?t - 4 + 4) (ws_data s))) =
      (?st, fst (fields_map ?fs), snd (fields_map ?fs))"
    unfolding d len using StrNStr_header [OF st(3,1) ok] parse_header_text [OF l(2) st(1) ok] st(2)
    by (simp_all add: l(1))
  have none: "accept_offers S [] = None" "collect_offers [] = Inr []" by (simp_all add: accept_offers_def)
  show ?thesis
    using accepts_run [OF front q [unfolded seen_request_def] s o(1), of "[]"] o(2) none
    by (auto simp: k)
qed


section \<open>The client's verdict\<close>

lemma client_succeed_run:
  assumes "drop (eoh + 4) (ws_data s) = []" "\<And>r. ct_onConnect C r = None"
  shows "\<exists>t. client_succeed C eoh s = (Inr (), t) \<and> ws_state t = OPEN \<and>
     ws_out t = ws_out s @ open_events (ct_config C) s \<and>
     cc_webSocketProtocolInUse t = cc_webSocketProtocolInUse s"
  using assms
  by (cases "call_cancelled (ws_calls s OpenHandshakeTimer)"; cases "cf_autoPingInterval (ct_config C) > 0";
      cases "ws_tracked s")
     (simp_all add: client_succeed_def client_onConnect_def cancel_openHandshakeTimeout_def start_autoPing_def
      trackM_def cancelM_def callLaterM_def emitM_def runs bindM_unit open_events_def)

lemma client_verifies:
  assumes "StrNStr (ws_data s) header_end = Some eoh" "drop (eoh + 4) (ws_data s) = []"
    and "parseHttpHeader (ct_boost C) (string_of_bytes (take (eoh + 4) (ws_data s))) = (status, headers, cnt)"
    and ver: "verified C (cc_webSocketKey s) status headers cnt"
    and ext: "headers ''sec-websocket-extensions'' = None" and con: "\<And>r. ct_onConnect C r = None"
    and "cc_webSocketProtocolInUse s = []"
    and p: "p = (case headers ''sec-websocket-protocol'' of None \<Rightarrow> [] | Some v \<Rightarrow> boost_trim (ct_boost C) v)"
  shows "\<exists>t. client_processHandshake C s = (Inr (), t) \<and> ws_state t = OPEN \<and>
     ws_out t = ws_out s @ open_events (ct_config C) s \<and> cc_webSocketProtocolInUse t = p"
proof -
  let ?s1 = "s\<lparr> cc_httpResponseData := string_of_bytes (take (eoh + 4) (ws_data s)),
      cc_httpStatusLine := status, cc_httpHeaders := headers \<rparr>"
  let ?s2 = "if p = [] then ?s1 else ?s1\<lparr> cc_webSocketProtocolInUse := p \<rparr>"
  have run: "client_processHandshake C s = cs_answer C cnt eoh ?s1"
    using assms(1,3) by (simp add: client_processHandshake_def runs bindM_unit)
  have status: "cs_status C nxt ?s1 = nxt ?s1" for nxt
    using ver by (simp add: verified_def cs_status_def Let_def runs)
  have upgrade: "cs_upgrade C nxt ?s1 = nxt ?s1" for nxt
    using ver by (auto simp: verified_def cs_upgrade_def names_header_def Let_def runs split: option.splits)
  have acc: "cs_accept C cnt nxt ?s1 = nxt ?s1" for nxt
    using ver by (auto simp: verified_def cs_accept_def Let_def runs split: option.splits)
  have exts: "cs_extensions C cnt nxt ?s1 = nxt ?s1" for nxt
    using ext by (simp add: cs_extensions_def runs)
  have protocol: "cs_protocol C cnt nxt ?s1 = nxt ?s2" for nxt
    using ver p by (auto simp: verified_def cs_protocol_def Let_def runs bindM_unit split: option.splits)
  have "drop (eoh + 4) (ws_data ?s2) = []" using assms(2) by simp
  from client_succeed_run [OF this con] obtain t where t: "client_succeed C eoh ?s2 = (Inr (), t)"
    "ws_state t = OPEN" "ws_out t = ws_out ?s2 @ open_events (ct_config C) ?s2"
    "cc_webSocketProtocolInUse t = cc_webSocketProtocolInUse ?s2"
    by blast
  have "open_events (ct_config C) ?s2 = open_events (ct_config C) s" "ws_out ?s2 = ws_out s"
    "cc_webSocketProtocolInUse ?s2 = p"
    using assms(7) by (simp_all add: open_events_def)
  then show ?thesis
    using t unfolding run cs_answer_def status upgrade acc exts protocol by auto
qed


lemma response_lookup:
  assumes "server_sane S hs"
  shows "fields_named ''upgrade'' (response_fields S protocol hs key) = [(''Upgrade'', ''WebSocket'')]"
    "fields_named ''connection'' (response_fields S protocol hs key) = [(''Connection'', ''Upgrade'')]"
    "fields_named ''sec-websocket-accept'' (response_fields S protocol hs key) =
       [(''Sec-WebSocket-Accept'', accept_key (ss_env S) (cf_base64 (ss_config S)) key)]"
    "fields_named ''sec-websocket-extensions'' (response_fields S protocol hs key) = []"
    "fields_named ''sec-websocket-protocol'' (response_fields S protocol hs key) =
       (if protocol = [] then [] else [(''Sec-WebSocket-Protocol'', protocol)])"
proof -
  have own: "k \<in> set reserved \<Longrightarrow> fields_named k (spread (sf_headers (ss_factory S))) = []"
    "k \<in> set reserved \<Longrightarrow> fields_named k (spread hs) = []" for k
    using assms by (auto simp: server_sane_def intro: own_fields_named)
  show "fields_named ''upgrade'' (response_fields S protocol hs key) = [(''Upgrade'', ''WebSocket'')]"
    "fields_named ''connection'' (response_fields S protocol hs key) = [(''Connection'', ''Upgrade'')]"
    "fields_named ''sec-websocket-accept'' (response_fields S protocol hs key) =
       [(''Sec-WebSocket-Accept'', accept_key (ss_env S) (cf_base64 (ss_config S)) key)]"
    "fields_named ''sec-websocket-extensions'' (response_fields S protocol hs key) = []"
    "fields_named ''sec-websocket-protocol'' (response_fields S protocol hs key) =
       (if protocol = [] then [] else [(''Sec-WebSocket-Protocol'', protocol)])"
    by (simp_all add: response_fields_def key_of_names own reserved_def)
qed

lemma response_fields_ok:
  assumes "server_sane S hs" "protocol = [] \<or> word_ok protocol"
    "word_ok (accept_key (ss_env S) (cf_base64 (ss_config S)) key)"
  shows "list_all field_ok (response_fields S protocol hs key)"
proof -
  have "list_all field_ok (spread (sf_headers (ss_factory S)))" "list_all field_ok (spread hs)"
    using assms(1) by (auto simp: server_sane_def own_fields_def list_all_iff)
  moreover have "list_all not_eol (sf_server (ss_factory S))" using assms(1) by (simp add: server_sane_def)
  moreover note assms(3) [THEN word_ok_eol]
  moreover have "list_all not_eol protocol" using assms(2) word_ok_eol by auto
  ultimately show ?thesis
    unfolding response_fields_def list_all_append by (simp add: literal_fields not_eol_def)
qed

lemma response_status_facts:
  assumes "boost_documented B"
  shows "list_all not_eol response_status" "trimmed response_status = response_status" "response_status \<noteq> []"
    "split_words B response_status = [''HTTP/1.1'', ''101'', ''Switching'', ''Protocols'']"
    "boost_trim B ''HTTP/1.1'' = ''HTTP/1.1''" "stoi (boost_trim B ''101'') = Some 101"
proof -
  show "list_all not_eol response_status" "trimmed response_status = response_status" "response_status \<noteq> []"
    by code_simp+
  have w: "word_ok ''HTTP/1.1''" "word_ok ''101''" and n: "stoi ''101'' = Some 101" by code_simp+
  have "pieces is_space response_status = [''HTTP/1.1'', ''101'', ''Switching'', ''Protocols'']" by code_simp
  then show "split_words B response_status = [''HTTP/1.1'', ''101'', ''Switching'', ''Protocols'']"
    using assms by (simp add: split_words_def split_space_def boost_documented_def)
  show "boost_trim B ''HTTP/1.1'' = ''HTTP/1.1''" "stoi (boost_trim B ''101'') = Some 101"
    by (simp_all only: trim_word [OF assms w(1)] trim_word [OF assms w(2)] n)
qed

lemma client_trusts:
  assumes lib: "same_libraries C S" and sane: "server_sane S hs"
    and protocol: "protocol = [] \<or> protocol \<in> set (cl_protocols (ct_factory C)) \<and> word_ok protocol"
    and acc: "word_ok (accept_key (ct_env C) (cf_base64 (ct_config C)) key)"
    and con: "\<And>r. ct_onConnect C r = None" and s: "cc_webSocketKey s = key" "cc_webSocketProtocolInUse s = []"
    and d: "ws_data s = bytes_of_string (switching_response S protocol hs key None)"
  shows "\<exists>t. client_processHandshake C s = (Inr (), t) \<and> ws_state t = OPEN \<and>
     ws_out t = ws_out s @ open_events (ct_config C) s \<and> cc_webSocketProtocolInUse t = protocol"
proof -
  let ?fs = "response_fields S protocol hs key"
  let ?t = "header_text response_status ?fs" and ?h = "fst (fields_map ?fs)" and ?cnt = "snd (fields_map ?fs)"
  note l = same_librariesD [OF lib]
  note f = response_lookup [OF sane, of protocol key] and st = response_status_facts [OF l(2)]
  have ok: "list_all field_ok ?fs"
    using protocol acc by (intro response_fields_ok sane) (auto simp: l(3,4))
  have len: "length ?t - 4 + 4 = length ?t" by (simp add: header_text_def CRLF_def)
  have front: "StrNStr (ws_data s) header_end = Some (length ?t - 4)" "drop (length ?t - 4 + 4) (ws_data s) = []"
    "parseHttpHeader (ct_boost C) (string_of_bytes (take (length ?t - 4 + 4) (ws_data s))) =
      (response_status, ?h, ?cnt)"
    unfolding d response_is_header_text len
    using StrNStr_header [OF st(3,1) ok] parse_header_text [OF l(2) st(1) ok] st(2) by simp_all
  have tw: "trimmed ''WebSocket'' = ''WebSocket''" "trimmed ''Upgrade'' = ''Upgrade''" by code_simp+
  have up: "boost_to_lower (ct_boost C) (boost_trim (ct_boost C) (trimmed ''WebSocket'')) = ''websocket''"
    unfolding tw by (rule token_words(3) [OF l(2)])
  have cn: "names_header (ct_boost C) ?h ''connection'' ''upgrade''"
    using lookup_one(1) [OF f(2)] tw(2) token_words(2) [OF l(2)] by (simp add: names_header_def)
  have proto: "?h ''sec-websocket-protocol'' = (if protocol = [] then None else Some protocol)"
    "header_count_of ?cnt ''sec-websocket-protocol'' \<le> 1"
    using lookup_one [of _ ?fs] lookup_none [of _ ?fs] f(5) protocol word_ok_trimmed by (cases "protocol = []"; fastforce)+
  have "verified C (cc_webSocketKey s) response_status ?h ?cnt"
    unfolding verified_def Let_def st(4)
    using st(5,6) lookup_one [OF f(1)] up cn lookup_one [OF f(3)] lookup_none [OF f(4)] proto protocol acc
    by (auto simp: l(3,4) s(1) word_ok_trimmed trim_word [OF l(2)])
  moreover have "protocol = (case ?h ''sec-websocket-protocol'' of None \<Rightarrow> [] | Some v \<Rightarrow> boost_trim (ct_boost C) v)"
    using proto(1) protocol by (auto simp: trim_word [OF l(2)])
  ultimately show ?thesis
    using client_verifies [OF front _ lookup_none(1) [OF f(4)] con s(2)] by blast
qed


section \<open>The handshake completes\<close>

lemma startHandshake_run:
  assumes "ws_sendQueue s = []" "map_of SPEC_TO_PROTOCOL_VERSION (co_version (ct_options C)) = Some v"
    and r: "random = map (cf_random (ct_config C)) [ws_randomPos s ..< ws_randomPos s + 16]"
  shows "\<exists>t. startHandshake C s = (Inr (), t) \<and> cc_webSocketKey t = new_key C random \<and>
     ws_out t = ws_out s @ [Write (bytes_of_string (header_text (request_status (ct_factory C))
       (request_fields C (new_key C random) v)))] \<and>
     cc_webSocketProtocolInUse t = cc_webSocketProtocolInUse s \<and> ws_calls t = ws_calls s \<and>
     ws_tracked t = ws_tracked s"
proof -
  let ?key = "new_key C random"
  let ?req = "request_head (ct_factory C) @ header_line ''Sec-WebSocket-Key'' ?key @ request_tail C v"
  let ?s1 = "s\<lparr> ws_randomPos := ws_randomPos s + 16, cc_webSocketKey := ?key, cc_httpRequestData := ?req \<rparr>"
  obtain x where x: "sendData (bytes_of_string ?req) False 0 ?s1 =
      (Inr (), ?s1\<lparr> ws_out := ws_out ?s1 @ [Write (bytes_of_string ?req)], ws_stats := x \<rparr>)"
    using sendData_now [of ?s1 "bytes_of_string ?req"] assms(1) by auto
  have "startHandshake C s = (Inr (), ?s1\<lparr> ws_out := ws_out ?s1 @ [Write (bytes_of_string ?req)], ws_stats := x \<rparr>)"
    using x by (simp add: startHandshake_def randBytesM_def runs bindM_unit assms(2) r sendText_client_def Let_def)
  then show ?thesis unfolding request_is_header_text by simp
qed

text \<open>
  C2: A client and a server complete the handshake. The client sends its request; the server, on
  the octets of that request, answers and opens; the client, on the octets of the answer, opens too. Both
  use the protocol the server chose among those of the client. This is for a client without
  origin and compression offers, of a version the server speaks, whose resource and host the server accepts,
  for a server within its limit of connections, and for callbacks \<open>onConnect\<close> that accept.
\<close>

theorem handshake_completes:
  assumes "same_libraries C S" "client_sane C" "server_sane S hs"
    and "map_of SPEC_TO_PROTOCOL_VERSION (co_version (ct_options C)) = Some v"
    and "v \<in> set (so_versions (ss_options S))"
    and "resource_of S (request_status (ct_factory C)) \<noteq> None" "host_of S (host_port (ct_factory C)) \<noteq> None"
    and "\<And>req. ss_onConnect S req = Inr (protocol, hs)" "\<And>r. ct_onConnect C r = None"
    and "protocol = [] \<or> protocol \<in> set (cl_protocols (ct_factory C))"
    and "ws_sendQueue c = []" "cc_webSocketProtocolInUse c = []"
    and "awaiting s" "below_limit S (sv_countConnections s)"
  shows "\<exists>c1 request s1 response c2.
     startHandshake C c = (Inr (), c1) \<and> ws_out c1 = ws_out c @ [Write request] \<and>
     processHandshake S (s\<lparr> ws_data := request \<rparr>) = (Inr (), s1) \<and>
     ws_out s1 = ws_out s @ Write response # open_events (ss_config S) s \<and> ws_state s1 = OPEN \<and>
     client_processHandshake C (c1\<lparr> ws_data := response \<rparr>) = (Inr (), c2) \<and>
     ws_out c2 = ws_out c1 @ open_events (ct_config C) c \<and> ws_state c2 = OPEN \<and>
     sv_webSocketProtocolInUse s1 = protocol \<and> cc_webSocketProtocolInUse c2 = protocol"
proof -
  let ?random = "map (cf_random (ct_config C)) [ws_randomPos c ..< ws_randomPos c + 16]"
  let ?key = "new_key C ?random"
  let ?req = "bytes_of_string (header_text (request_status (ct_factory C)) (request_fields C ?key v))"
  let ?res = "bytes_of_string (switching_response S protocol hs ?key None)"
  let ?s = "s\<lparr> ws_data := ?req \<rparr>"
  note l = same_librariesD [OF assms(1)]
  have r: "length ?random = 16" by simp
  have v: "v \<in> {8, 13}"
    using assms(4) by (auto simp: SPEC_TO_PROTOCOL_VERSION_def split: if_splits)
  obtain c1 where c1: "startHandshake C c = (Inr (), c1)" "cc_webSocketKey c1 = ?key"
    "ws_out c1 = ws_out c @ [Write ?req]" "cc_webSocketProtocolInUse c1 = []" "ws_calls c1 = ws_calls c"
    "ws_tracked c1 = ws_tracked c"
    using startHandshake_run [OF assms(11,4) refl] assms(12) by auto
  obtain req k where q: "seen_request C S (sv_peer ?s) ?key v = Some (req, k)"
    using seen_request_exists [OF assms(1,2) r v assms(5-7), of "sv_peer ?s"] by auto
  have s: "awaiting ?s" "below_limit S (sv_countConnections ?s)" "ws_data ?s = ?req"
    using assms(13,14) by (simp_all add: awaiting_def)
  obtain s1 where s1: "processHandshake S ?s = (Inr (), s1)" "ws_state s1 = OPEN"
    "ws_out s1 = ws_out s @ Write ?res # open_events (ss_config S) s" "sv_webSocketProtocolInUse s1 = protocol"
    using server_answers [OF assms(1,2) r v q s(1,2) assms(8,10) s(3)] by (auto simp: open_events_def)
  have p: "protocol = [] \<or> protocol \<in> set (cl_protocols (ct_factory C)) \<and> word_ok protocol"
    using assms(10) client_saneD(8) [OF assms(2)] by (auto simp: list_all_iff)
  have a: "word_ok (accept_key (ct_env C) (cf_base64 (ct_config C)) ?key)"
    using assms(1) by (intro accept_key_word) (simp_all add: same_libraries_def)
  let ?c = "c1\<lparr> ws_data := ?res \<rparr>"
  obtain c2 where c2: "client_processHandshake C ?c = (Inr (), c2)" "ws_state c2 = OPEN"
    "ws_out c2 = ws_out c1 @ open_events (ct_config C) c" "cc_webSocketProtocolInUse c2 = protocol"
    using client_trusts [OF assms(1,3) p a assms(9), of ?c] c1(2,4,5,6) by (auto simp: open_events_def)
  show ?thesis using c1(1,3) s1 c2 by blast
qed


section \<open>Witnesses\<close>

definition example_client_factory :: client_factory where
  "example_client_factory = client_resetProtocolOptions \<lparr>
     cl_trackTimings = False, cl_url = ''ws://a.b/chat'', cl_isSecure = False, cl_host = ''a.b'', cl_port = 80,
     cl_resource = ''/chat'', cl_path = ''/chat'', cl_params = Map.empty, cl_origin = [],
     cl_protocols = [''mqtt'', ''chat''], cl_useragent = NET4CXX_VER, cl_headers = [], cl_proxy = [],
     cl_version = 0, cl_utf8validateIncoming = True, cl_acceptMaskedServerFrames = False,
     cl_maskClientFrames = True, cl_applyMask = True, cl_maxFramePayloadSize = 0,
     cl_maxMessagePayloadSize = 0, cl_autoFragmentSize = 0, cl_failByDrop = True,
     cl_echoCloseCodeReason = False, cl_serverConnectionDropTimeout = 0, cl_openHandshakeTimeout = 0,
     cl_closeHandshakeTimeout = 0, cl_tcpNoDelay = True, cl_perMessageCompressionOffers = [],
     cl_perMessageCompressionAccept = None, cl_autoPingInterval = 0, cl_autoPingTimeout = 0,
     cl_autoPingSize = 4 \<rparr>"

definition example_client :: "('z, 'd) zlib_ops \<Rightarrow> ('z, 'd) client_setup" where
  "example_client Z = \<lparr> ct_env = example_env, ct_factory = example_client_factory,
     ct_config = client_protocol_config example_client_factory (\<lambda>n. word_of_nat n) example_b64 (pmd_ops Z),
     ct_options = client_protocol_options example_client_factory, ct_onConnect = (\<lambda>_. None) \<rparr>"

definition example_server :: "('z, 'd) zlib_ops \<Rightarrow> ('z, 'd) server_setup" where
  "example_server Z = (example_setup 0 Z)\<lparr> ss_onConnect := (\<lambda>req. Inr (''chat'', [])) \<rparr>"

lemma example_client_simps:
  "ct_env (example_client Z) = example_env" "ct_factory (example_client Z) = example_client_factory"
  "cl_resource example_client_factory = ''/chat''" "cl_host example_client_factory = ''a.b''"
  "cl_port example_client_factory = 80" "cl_useragent example_client_factory = NET4CXX_VER"
  "cl_origin example_client_factory = []" "cl_headers example_client_factory = []"
  "cl_protocols example_client_factory = [''mqtt'', ''chat'']"
  "co_offers (ct_options (example_client Z)) = []" "co_version (ct_options (example_client Z)) = 18"
  "cf_base64 (ct_config (example_client Z)) = example_b64" "ct_onConnect (example_client Z) r = None"
  by (simp_all add: example_client_def example_client_factory_def client_resetProtocolOptions_def
      client_protocol_options_def client_protocol_config_def DEFAULT_SPEC_VERSION_def)

lemma example_server_simps:
  "ss_env (example_server Z) = example_env" "ss_options (example_server Z) = ss_options (example_setup 0 Z)"
  "ss_factory (example_server Z) = ss_factory (example_setup 0 Z)"
  "cf_base64 (ss_config (example_server Z)) = example_b64" "sv_boost (example_server Z) = boost_ref"
  "ss_onConnect (example_server Z) req = Inr (''chat'', [])"
  "sf_server (ss_factory (example_setup 0 Z)) = NET4CXX_VER" "sf_headers (ss_factory (example_setup 0 Z)) = []"
  by (simp_all add: example_server_def example_setup_def server_protocol_config_def sv_boost_def example_env_def
      example_factory_def server_resetProtocolOptions_def)

lemma example_libraries: "same_libraries (example_client Z) (example_server Z)"
proof -
  have "key_char (char_of_byte 65)" by code_simp
  then have "b64_documented example_b64" by (simp add: b64_documented_def example_b64_def list_all_iff)
  moreover have "env_documented example_env"
    by (simp add: env_documented_def example_env_def boost_ref_documented)
  ultimately show ?thesis by (simp add: same_libraries_def example_client_simps example_server_simps)
qed

lemma example_sane: "client_sane (example_client Z)" "server_sane (example_server Z) []"
proof -
  have w: "word_ok ''/chat''" "word_ok ''a.b''" "list_all not_eol NET4CXX_VER"
    "list_all (\<lambda>p. word_ok p \<and> CHR '','' \<notin> set p) [''mqtt'', ''chat'']" by code_simp+
  show "client_sane (example_client Z)"
    unfolding client_sane_def Let_def example_client_simps using w by (simp add: own_fields_def)
  show "server_sane (example_server Z) []"
    using w(3) by (simp add: server_sane_def example_server_simps own_fields_def spread_def)
qed

lemma example_accepted:
  "resource_of (example_server Z) (request_status example_client_factory) \<noteq> None"
  "host_of (example_server Z) (host_port example_client_factory) \<noteq> None"
proof -
  have u: "uri_of boost_ref (request_status example_client_factory) = ''/chat''"
    using request_line_good(2) [OF boost_ref_documented, of example_client_factory] example_sane(1)
    by (simp add: client_sane_def Let_def example_client_simps)
  have p: "urlParse boost_ref ''/chat'' '''' True = Inr \<lparr> up_scheme = '''', up_netloc = '''',
     up_path = ''/chat'', up_params = '''', up_query = '''', up_fragment = '''' \<rparr>" by code_simp
  have "case parseQS boost_ref '''' False False of Inl _ \<Rightarrow> False | Inr _ \<Rightarrow> True" by code_simp
  then show "resource_of (example_server Z) (request_status example_client_factory) \<noteq> None"
    by (auto simp: resource_of_def example_server_simps u p split: sum.splits)
  have h: "host_port example_client_factory = ''a.b:80''"
    unfolding host_port_def example_client_simps by code_simp
  have c: "he_ends_with example_env ''a.b:80'' '']'' = False" "find_char ''a.b:80'' CHR '':'' 0 = Some 3"
    "rfind_char ''a.b:80'' CHR '':'' = Some 3" by code_simp+
  have t: "boost_trim boost_ref ''80'' = ''80''" by code_simp
  have port: "port_of boost_ref ''80'' = Some 80"
    by (simp add: port_of_def t stoul_def is_space_def is_digit_def parse_decimal_def digit_value_def)
  show "host_of (example_server Z) (host_port example_client_factory) \<noteq> None"
    by (simp add: host_of_def h has_port_def c port example_server_simps Let_def example_sets)
qed

lemma handshake_completes_witness:
  "\<forall>Z :: (unit, unit) zlib_ops. \<exists>c1 request s1 response c2.
     startHandshake (example_client Z) client_initial = (Inr (), c1) \<and> ws_out c1 = [Write request] \<and>
     processHandshake (example_server Z) (server_initial\<lparr> ws_data := request \<rparr>) = (Inr (), s1) \<and>
     ws_state s1 = OPEN \<and>
     client_processHandshake (example_client Z) (c1\<lparr> ws_data := response \<rparr>) = (Inr (), c2) \<and>
     ws_state c2 = OPEN \<and> sv_webSocketProtocolInUse s1 = ''chat'' \<and> cc_webSocketProtocolInUse c2 = ''chat''"
proof
  fix Z :: "(unit, unit) zlib_ops"
  have v: "map_of SPEC_TO_PROTOCOL_VERSION (co_version (ct_options (example_client Z))) = Some 13"
    by (simp add: example_client_simps SPEC_TO_PROTOCOL_VERSION_def)
  have m: "13 \<in> set (so_versions (ss_options (example_server Z)))"
    by (simp add: example_server_simps example_sets)
  have p: "''chat'' \<in> set (cl_protocols (ct_factory (example_client Z)))" by (simp add: example_client_simps)
  have c: "ws_sendQueue client_initial = []" "cc_webSocketProtocolInUse client_initial = []" "ws_out client_initial = []"
    by (simp_all add: client_initial_def ws_conn.extend_def ws_fresh_def ws_client.fields_def)
  have s: "awaiting server_initial" "below_limit (example_server Z) (sv_countConnections server_initial)"
    by (simp_all add: server_initial_def ws_conn.extend_def ws_fresh_def ws_server.fields_def awaiting_def
        below_limit_def example_server_simps example_sets)
  have r: "resource_of (example_server Z) (request_status (ct_factory (example_client Z))) \<noteq> None"
    "host_of (example_server Z) (host_port (ct_factory (example_client Z))) \<noteq> None"
    using example_accepted by (simp_all add: example_client_simps)
  show "\<exists>c1 request s1 response c2.
     startHandshake (example_client Z) client_initial = (Inr (), c1) \<and> ws_out c1 = [Write request] \<and>
     processHandshake (example_server Z) (server_initial\<lparr> ws_data := request \<rparr>) = (Inr (), s1) \<and>
     ws_state s1 = OPEN \<and>
     client_processHandshake (example_client Z) (c1\<lparr> ws_data := response \<rparr>) = (Inr (), c2) \<and>
     ws_state c2 = OPEN \<and> sv_webSocketProtocolInUse s1 = ''chat'' \<and> cc_webSocketProtocolInUse c2 = ''chat''"
    using handshake_completes [OF example_libraries example_sane v m r example_server_simps(6)
        example_client_simps(13) disjI2 [OF p] c(1,2) s]
    unfolding c(3) append_Nil by blast
qed


lemma client_opens_only_verified_witness:
  "\<forall>Z :: (unit, unit) zlib_ops. \<exists>c eoh status headers cnt.
     StrNStr (ws_data c) header_end = Some eoh \<and>
     parseHttpHeader boost_ref (string_of_bytes (take (eoh + 4) (ws_data c))) = (status, headers, cnt) \<and>
     verified (example_client Z) (cc_webSocketKey (c :: (unit, unit) pmd ws_client)) status headers cnt"
proof
  fix Z :: "(unit, unit) zlib_ops"
  let ?c = "client_initial\<lparr> cc_webSocketKey := ''key'', ws_data := bytes_of_string
    (switching_response (example_server Z) ''chat'' [] ''key'' None) \<rparr> :: (unit, unit) pmd ws_client"
  have w: "word_ok ''chat''" by code_simp
  have a: "word_ok (accept_key (ct_env (example_client Z)) (cf_base64 (ct_config (example_client Z))) ''key'')"
    using example_libraries [of Z] by (intro accept_key_word) (simp_all add: same_libraries_def)
  have p: "''chat'' \<in> set (cl_protocols (ct_factory (example_client Z))) \<and> word_ok ''chat''"
    using w by (simp add: example_client_simps)
  have no: "\<not> is_open ?c"
    by (simp add: is_open_def client_initial_def ws_conn.extend_def ws_fresh_def)
  have "cc_webSocketProtocolInUse ?c = []"
    by (simp add: client_initial_def ws_conn.extend_def ws_fresh_def ws_client.fields_def)
  from client_trusts [OF example_libraries example_sane(2) disjI2 [OF p] a example_client_simps(13) _ this]
  have "is_open (snd (client_processHandshake (example_client Z) ?c))"
    by (auto simp: is_open_def open_events_def)
  from client_opens_only_verified [OF no this]
  show "\<exists>c eoh status headers cnt. StrNStr (ws_data c) header_end = Some eoh \<and>
     parseHttpHeader boost_ref (string_of_bytes (take (eoh + 4) (ws_data c))) = (status, headers, cnt) \<and>
     verified (example_client Z) (cc_webSocketKey (c :: (unit, unit) pmd ws_client)) status headers cnt"
    using same_librariesD(1) [OF example_libraries [of Z]] example_server_simps(5) [of Z] by metis
qed

end
