(* ===== verification/Message_Buffer.thy ===== *)
theory Message_Buffer
  imports Net_Prelude
begin

text \<open>
  \<open>MessageBuffer\<close> of \<open>common/utilities/messagebuffer.h\<close>: a byte array with a write and a read
  position. \<open>getActiveSize\<close> is the difference of two \<open>size_t\<close> and wraps around when the read
  position has run ahead. A \<open>memcpy\<close> that does not fit the array is undefined; here it is
  \<open>None\<close>.

  The locale \<open>byte_queue\<close> is what the users of such a buffer rely on, first in, first out; the
  message buffer and (in \<open>Tcp_Connection\<close>) the queue of packets are its interpretations.
\<close>

section \<open>The buffer\<close>

record message_buffer =
  mb_wpos :: nat
  mb_rpos :: nat
  mb_storage :: bytes

definition newMessageBuffer :: message_buffer where
  "newMessageBuffer = \<lparr> mb_wpos = 0, mb_rpos = 0, mb_storage = replicate 4096 0 \<rparr>"

definition newMessageBufferSize :: "nat \<Rightarrow> message_buffer" where
  "newMessageBufferSize initialSize = \<lparr> mb_wpos = 0, mb_rpos = 0, mb_storage = replicate initialSize 0 \<rparr>"

definition mb_reset :: "message_buffer \<Rightarrow> message_buffer" where
  "mb_reset b = b\<lparr> mb_wpos := 0, mb_rpos := 0 \<rparr>"

definition resized :: "nat \<Rightarrow> bytes \<Rightarrow> bytes" where
  "resized n bs = take n bs @ replicate (n - length bs) 0"

definition mb_resize :: "nat \<Rightarrow> message_buffer \<Rightarrow> message_buffer" where
  "mb_resize n b = b\<lparr> mb_storage := resized n (mb_storage b) \<rparr>"

text \<open>What a caller sees that is given \<open>getReadPointer()\<close> and a length.\<close>

definition mb_read :: "nat \<Rightarrow> message_buffer \<Rightarrow> bytes" where
  "mb_read n b = take n (drop (mb_rpos b) (mb_storage b))"

definition readCompleted :: "nat \<Rightarrow> message_buffer \<Rightarrow> message_buffer" where
  "readCompleted n b = b\<lparr> mb_rpos := mb_rpos b + n \<rparr>"

definition writeCompleted :: "nat \<Rightarrow> message_buffer \<Rightarrow> message_buffer" where
  "writeCompleted n b = b\<lparr> mb_wpos := mb_wpos b + n \<rparr>"

definition getActiveSize :: "message_buffer \<Rightarrow> nat" where
  "getActiveSize b =
     (if mb_rpos b \<le> mb_wpos b then mb_wpos b - mb_rpos b else 2 ^ 64 + mb_wpos b - mb_rpos b)"

definition getRemainingSpace :: "message_buffer \<Rightarrow> nat" where
  "getRemainingSpace b =
     (if mb_wpos b \<le> length (mb_storage b) then length (mb_storage b) - mb_wpos b
      else 2 ^ 64 + length (mb_storage b) - mb_wpos b)"

definition getBufferSize :: "message_buffer \<Rightarrow> nat" where
  "getBufferSize b = length (mb_storage b)"

definition normalize :: "message_buffer \<Rightarrow> message_buffer" where
  "normalize b =
     (if mb_rpos b = 0 then b
      else let moved = (if mb_rpos b = mb_wpos b then mb_storage b
                        else mb_read (getActiveSize b) b @ drop (getActiveSize b) (mb_storage b))
        in b\<lparr> mb_storage := moved, mb_wpos := mb_wpos b - mb_rpos b, mb_rpos := 0 \<rparr>)"

definition ensureFreeSpace :: "message_buffer \<Rightarrow> message_buffer" where
  "ensureFreeSpace b =
     (if getRemainingSpace b = 0 then mb_resize (getBufferSize b * 3 div 2) b else b)"

definition ensureFreeSpaceFor :: "nat \<Rightarrow> message_buffer \<Rightarrow> message_buffer" where
  "ensureFreeSpaceFor space b =
     (if getRemainingSpace b < space then mb_resize (getBufferSize b + space - getRemainingSpace b) b
      else b)"

definition mb_copy :: "bytes \<Rightarrow> message_buffer \<Rightarrow> message_buffer" where
  "mb_copy data b = writeCompleted (length data)
     (b\<lparr> mb_storage := take (mb_wpos b) (mb_storage b) @ data
                        @ drop (mb_wpos b + length data) (mb_storage b) \<rparr>)"

definition mb_write :: "bytes \<Rightarrow> message_buffer \<Rightarrow> message_buffer option" where
  "mb_write data b =
     (if data = [] then Some b
      else if mb_wpos b + length data \<le> length (mb_storage b) then Some (mb_copy data b)
      else None)"

section \<open>Well-formed buffers and their content\<close>

definition mb_ok :: "message_buffer \<Rightarrow> bool" where
  "mb_ok b \<longleftrightarrow> mb_rpos b \<le> mb_wpos b \<and> mb_wpos b \<le> length (mb_storage b)"

definition mb_content :: "message_buffer \<Rightarrow> bytes" where
  "mb_content b = mb_read (mb_wpos b - mb_rpos b) b"

lemma resized_grow: "length bs \<le> n \<Longrightarrow> resized n bs = bs @ replicate (n - length bs) 0"
  by (simp add: resized_def)

lemma length_resized [simp]: "length (resized n bs) = n"
  by (simp add: resized_def)

lemma mb_sizes:
  assumes "mb_ok b"
  shows "getActiveSize b = length (mb_content b)" "getActiveSize b = mb_wpos b - mb_rpos b"
    "getRemainingSpace b = length (mb_storage b) - mb_wpos b"
  using assms
  by (auto simp: mb_ok_def getActiveSize_def getRemainingSpace_def mb_content_def mb_read_def min_def)

lemma mb_read_content: "mb_ok b \<Longrightarrow> n \<le> length (mb_content b) \<Longrightarrow> mb_read n b = take n (mb_content b)"
  by (auto simp: mb_ok_def mb_content_def mb_read_def min_absorb1)

lemma newMessageBuffer_ok [simp]:
  "mb_ok newMessageBuffer" "mb_content newMessageBuffer = []"
  "mb_ok (newMessageBufferSize n)" "mb_content (newMessageBufferSize n) = []"
  by (simp_all add: newMessageBuffer_def newMessageBufferSize_def mb_ok_def mb_content_def mb_read_def)

lemma mb_reset_ok: "mb_ok (mb_reset b)" "mb_content (mb_reset b) = []"
  by (simp_all add: mb_reset_def mb_ok_def mb_content_def mb_read_def)

lemma resize_ok:
  assumes "mb_ok b" and "length (mb_storage b) \<le> n"
  shows "mb_ok (mb_resize n b)" "mb_content (mb_resize n b) = mb_content b"
  using assms by (auto simp: mb_resize_def mb_ok_def mb_content_def mb_read_def resized_grow)

lemma ensureFreeSpace_ok:
  assumes "mb_ok b"
  shows "mb_ok (ensureFreeSpace b)" "mb_content (ensureFreeSpace b) = mb_content b"
    "mb_wpos (ensureFreeSpace b) = mb_wpos b"
  using assms resize_ok [OF assms] by (auto simp: ensureFreeSpace_def getBufferSize_def mb_resize_def)

lemma ensureFreeSpace_room:
  assumes "mb_ok b" and "2 \<le> getBufferSize b"
  shows "mb_wpos (ensureFreeSpace b) < length (mb_storage (ensureFreeSpace b))"
  using assms by (auto simp: ensureFreeSpace_def getBufferSize_def getRemainingSpace_def mb_ok_def mb_resize_def)

lemma ensureFreeSpaceFor_ok:
  assumes "mb_ok b"
  shows "mb_ok (ensureFreeSpaceFor n b)" "mb_content (ensureFreeSpaceFor n b) = mb_content b"
    "mb_wpos (ensureFreeSpaceFor n b) = mb_wpos b"
    "mb_wpos b + n \<le> length (mb_storage (ensureFreeSpaceFor n b))"
  using assms resize_ok [OF assms]
  by (auto simp: ensureFreeSpaceFor_def getBufferSize_def mb_sizes mb_resize_def mb_ok_def)

lemma normalize_ok:
  assumes "mb_ok b"
  shows "mb_ok (normalize b)" "mb_content (normalize b) = mb_content b" "mb_rpos (normalize b) = 0"
    "getBufferSize (normalize b) = getBufferSize b"
  using assms
  by (auto simp: normalize_def Let_def mb_sizes mb_ok_def mb_content_def mb_read_def getBufferSize_def
      min_absorb1)

lemma mb_copy_ok:
  assumes "mb_ok b" and "mb_wpos b + length data \<le> length (mb_storage b)"
  shows "mb_ok (mb_copy data b)" "mb_content (mb_copy data b) = mb_content b @ data"
    "mb_wpos (mb_copy data b) = mb_wpos b + length data"
  using assms
  by (auto simp: mb_copy_def writeCompleted_def mb_ok_def mb_content_def mb_read_def min_absorb1 drop_take)

lemma readCompleted_ok:
  assumes "mb_ok b" and "n \<le> length (mb_content b)"
  shows "mb_ok (readCompleted n b)" "mb_content (readCompleted n b) = drop n (mb_content b)"
  using assms
  by (auto simp: readCompleted_def mb_ok_def mb_content_def mb_read_def drop_take add.commute)

section \<open>First in, first out\<close>

text \<open>
  What the streams rely on. \<open>given\<close> is what has already been taken; each step keeps
  \<open>given @ content\<close> or extends it by what is put.
\<close>

locale byte_queue =
  fixes ok :: "'q \<Rightarrow> bool" and content :: "'q \<Rightarrow> bytes"
    and put :: "bytes \<Rightarrow> 'q \<Rightarrow> 'q" and consume :: "nat \<Rightarrow> 'q \<Rightarrow> 'q"
  assumes put_ok: "ok q \<Longrightarrow> ok (put xs q)"
    and content_put: "ok q \<Longrightarrow> content (put xs q) = content q @ xs"
    and consume_ok: "ok q \<Longrightarrow> n \<le> length (content q) \<Longrightarrow> ok (consume n q)"
    and content_consume: "ok q \<Longrightarrow> n \<le> length (content q) \<Longrightarrow> content (consume n q) = drop n (content q)"
begin

lemma history_put: "ok q \<Longrightarrow> given @ content (put xs q) = (given @ content q) @ xs"
  by (simp add: content_put)

lemma history_consume:
  "ok q \<Longrightarrow> n \<le> length (content q) \<Longrightarrow>
     (given @ take n (content q)) @ content (consume n q) = given @ content q"
  by (simp add: content_consume)

lemma consume_all: "ok q \<Longrightarrow> content (consume (length (content q)) q) = []"
  by (simp add: content_consume)

lemma consume_twice:
  assumes "ok q" and "m + n \<le> length (content q)"
  shows "content (consume n (consume m q)) = content (consume (m + n) q)"
proof -
  have m: "m \<le> length (content q)" using assms(2) by simp
  then have "n \<le> length (content (consume m q))" using assms by (simp add: content_consume)
  then show ?thesis
    using assms m by (simp add: content_consume consume_ok add.commute)
qed

end

definition mb_append :: "bytes \<Rightarrow> message_buffer \<Rightarrow> message_buffer" where
  "mb_append data b = (case mb_write data (ensureFreeSpaceFor (length data) b) of
     Some b' \<Rightarrow> b' | None \<Rightarrow> b)"

lemma mb_write_fits:
  assumes "mb_ok b"
  shows "mb_write data (ensureFreeSpaceFor (length data) b) = Some (mb_append data b)"
    "mb_wpos (mb_append data b) = mb_wpos b + length data"
  using ensureFreeSpaceFor_ok [OF assms, of "length data"] mb_copy_ok(3)
  by (auto simp: mb_append_def mb_write_def)

interpretation mb: byte_queue mb_ok mb_content mb_append readCompleted
proof
  fix q :: message_buffer and xs :: bytes
  assume ok: "mb_ok q"
  note f = ensureFreeSpaceFor_ok [OF ok, of "length xs"]
  have c: "mb_wpos (ensureFreeSpaceFor (length xs) q) + length xs
      \<le> length (mb_storage (ensureFreeSpaceFor (length xs) q))"
    using f by simp
  show "mb_ok (mb_append xs q)" "mb_content (mb_append xs q) = mb_content q @ xs"
    using f mb_copy_ok [OF f(1) c] by (auto simp: mb_append_def mb_write_def)
qed (use readCompleted_ok in auto)

end
