(* ===== verification/Io_Stream.thy ===== *)
theory Io_Stream
  imports Message_Buffer Ws_Util
begin

text \<open>
  \<open>IOStream\<close> of \<open>core/protocols/iostream.h\<close> and \<open>iostream.cpp\<close>: a protocol that collects what the
  transport delivers and hands it to \<open>onDataRead\<close> in the pieces a subclass asked for, by length,
  up to a delimiter, up to the match of a regular expression or up to the end of the
  connection.

  The subclass is a function from the trace to the calls it makes in the callback that is the
  last event of the trace, so that it may keep any state it can compute. Calls into the
  reactor and the transport are counted and traced. Boost.Regex is a parameter: whether a
  pattern compiles, and the position and length of the first match. A failed \<open>NET4CXX_ASSERT\<close>
  ends the process, which is the error \<open>Aborted\<close>; a read beyond the array is undefined
  behaviour, the error \<open>OutOfBounds\<close>; neither is caught by \<open>catch (...)\<close>. Assertions are those of a build without \<open>NDEBUG\<close>;
  where it is defined, as in the default build type, a failed one is passed over, so what is said here
  holds of the runs in which none fails.
\<close>

section \<open>State\<close>

datatype io_error =
    StreamClosedError
  | UnsatisfiableReadError string nat
  | StreamBufferFullError
  | RegexError
  | OtherError string
  | Aborted string
  | OutOfBounds

datatype io_event =
    Connected
  | DataRead bytes
  | WriteComplete
  | Disconnected "io_error option"
  | Closing "io_error option"
  | LoseTransport
  | Written bytes

datatype io_call =
    CallReadUntilRegex string nat
  | CallReadUntil string nat
  | CallReadBytes nat
  | CallReadUntilClose
  | CallWrite bytes bool
  | CallClose "io_error option"
  | CallThrow string

record io_env =
  ie_regex_ok :: "string \<Rightarrow> bool"
  ie_regex_search :: "string \<Rightarrow> bytes \<Rightarrow> (nat \<times> nat) option"
  ie_client :: "io_event list \<Rightarrow> io_call list"

text \<open>\<open>io_callbacks\<close> is the number of callbacks given to the reactor that have not run.\<close>

record io_stream =
  io_maxBufferSize :: nat
  io_error :: "io_error option"
  io_readBuffer :: message_buffer
  io_readDelimiter :: "string option"
  io_readRegex :: "string option"
  io_readMaxBytes :: "nat option"
  io_readBytes :: "nat option"
  io_readUntilClose :: bool
  io_writeCallback :: bool
  io_closed :: bool
  io_disconnected :: bool
  io_callbacks :: nat
  io_trace :: "io_event list"

type_synonym 'a io_prog = "(io_error, io_stream, 'a) prog"

definition DEFAULT_MAX_BUFFER_SIZE :: nat where "DEFAULT_MAX_BUFFER_SIZE = 104857600"

definition newIOStream :: "nat \<Rightarrow> io_stream" where
  "newIOStream maxBufferSize =
     \<lparr> io_maxBufferSize = (if maxBufferSize \<noteq> 0 then maxBufferSize else DEFAULT_MAX_BUFFER_SIZE),
       io_error = None, io_readBuffer = newMessageBuffer, io_readDelimiter = None,
       io_readRegex = None, io_readMaxBytes = None, io_readBytes = None, io_readUntilClose = False,
       io_writeCallback = False, io_closed = False, io_disconnected = False, io_callbacks = 0,
       io_trace = [] \<rparr>"

definition traceM :: "io_event \<Rightarrow> unit io_prog" where
  "traceM e = modifyM (\<lambda>s. s\<lparr> io_trace := io_trace s @ [e] \<rparr>)"

definition reading :: "io_stream \<Rightarrow> bool" where
  "reading s \<longleftrightarrow> io_readBytes s \<noteq> None \<or> io_readDelimiter s \<noteq> None \<or> io_readRegex s \<noteq> None
     \<or> io_readUntilClose s"

section \<open>Looking for the end of a read\<close>

definition io_window :: "io_stream \<Rightarrow> bytes" where
  "io_window s = mb_read (getActiveSize (io_readBuffer s)) (io_readBuffer s)"

definition c_str :: "string \<Rightarrow> string" where
  "c_str s = takeWhile (\<lambda>c. c \<noteq> CHR 0x00) s"

definition find_delimiter :: "io_stream \<Rightarrow> string \<Rightarrow> nat option" where
  "find_delimiter s d = StrNStr (io_window s) (bytes_of_string (c_str d))"

definition findReadPos :: "io_env \<Rightarrow> io_stream \<Rightarrow> bool" where
  "findReadPos E s =
     (if io_disconnected s \<and> io_readUntilClose s then True
      else case io_readBytes s of
        Some n \<Rightarrow> getActiveSize (io_readBuffer s) \<ge> n
      | None \<Rightarrow> (case io_readDelimiter s of
          Some d \<Rightarrow> find_delimiter s d \<noteq> None
        | None \<Rightarrow> (case io_readRegex s of
            Some r \<Rightarrow> ie_regex_search E r (io_window s) \<noteq> None
          | None \<Rightarrow> False)))"

definition checkMaxBytes :: "string \<Rightarrow> nat \<Rightarrow> unit io_prog" where
  "checkMaxBytes delimiter sz = withM (\<lambda>s. case io_readMaxBytes s of
      Some m \<Rightarrow> if sz > m then throwM (UnsatisfiableReadError delimiter m) else doM []
    | None \<Rightarrow> doM [])"

definition tryInlineRead :: "io_env \<Rightarrow> unit io_prog" where
  "tryInlineRead E = withM (\<lambda>s. whenM (findReadPos E s)
     (modifyM (\<lambda>s. s\<lparr> io_callbacks := io_callbacks s + 1 \<rparr>)))"

section \<open>The calls of a subclass\<close>

definition assert_idle :: "unit io_prog" where
  "assert_idle = withM (\<lambda>s. if reading s then throwM (Aborted ''Already reading'') else doM [])"

definition set_max :: "nat \<Rightarrow> unit io_prog" where
  "set_max maxBytes = whenM (maxBytes \<noteq> 0) (modifyM (\<lambda>s. s\<lparr> io_readMaxBytes := Some maxBytes \<rparr>))"

definition readUntilRegex :: "io_env \<Rightarrow> string \<Rightarrow> nat \<Rightarrow> unit io_prog" where
  "readUntilRegex E regex maxBytes = doM [
     assert_idle,
     (if ie_regex_ok E regex then modifyM (\<lambda>s. s\<lparr> io_readRegex := Some regex \<rparr>)
      else throwM RegexError),
     set_max maxBytes,
     tryInlineRead E]"

definition readUntil :: "io_env \<Rightarrow> string \<Rightarrow> nat \<Rightarrow> unit io_prog" where
  "readUntil E delimiter maxBytes = doM [
     assert_idle,
     modifyM (\<lambda>s. s\<lparr> io_readDelimiter := Some delimiter \<rparr>),
     set_max maxBytes,
     tryInlineRead E]"

definition readBytes :: "io_env \<Rightarrow> nat \<Rightarrow> unit io_prog" where
  "readBytes E numBytes = doM [
     assert_idle,
     modifyM (\<lambda>s. s\<lparr> io_readBytes := Some numBytes \<rparr>),
     tryInlineRead E]"

definition readUntilClose :: "io_env \<Rightarrow> unit io_prog" where
  "readUntilClose E = doM [
     assert_idle,
     modifyM (\<lambda>s. s\<lparr> io_readUntilClose := True \<rparr>),
     tryInlineRead E]"

definition io_write :: "bytes \<Rightarrow> bool \<Rightarrow> unit io_prog" where
  "io_write data writeCallback = withM (\<lambda>s.
     if io_closed s then throwM StreamClosedError
     else doM [modifyM (\<lambda>s. s\<lparr> io_writeCallback := writeCallback \<rparr>), traceM (Written data)])"

text \<open>\<open>loseConnection()\<close> of the transport makes \<open>closed()\<close> true.\<close>

definition io_close :: "io_error option \<Rightarrow> unit io_prog" where
  "io_close error = doM [
     traceM (Closing error),
     withM (\<lambda>s. whenM (\<not> io_closed s) (doM [
       modifyM (\<lambda>s. s\<lparr> io_error := error, io_closed := True \<rparr>),
       traceM LoseTransport]))]"

fun io_run_call :: "io_env \<Rightarrow> io_call \<Rightarrow> unit io_prog" where
  "io_run_call E (CallReadUntilRegex r m) = readUntilRegex E r m"
| "io_run_call E (CallReadUntil d m) = readUntil E d m"
| "io_run_call E (CallReadBytes n) = readBytes E n"
| "io_run_call E CallReadUntilClose = readUntilClose E"
| "io_run_call E (CallWrite data cb) = io_write data cb"
| "io_run_call E (CallClose e) = io_close e"
| "io_run_call E (CallThrow m) = throwM (OtherError m)"

text \<open>A virtual callback: the event, then what the subclass does.\<close>

definition callback :: "io_env \<Rightarrow> io_event \<Rightarrow> unit io_prog" where
  "callback E e = doM [
     traceM e,
     withM (\<lambda>s. doM (List.map (io_run_call E) (ie_client E (io_trace s))))]"

section \<open>Reading from the buffer\<close>

text \<open>\<open>onDataRead(getReadPointer(), n)\<close> and then \<open>readCompleted(n)\<close>.\<close>

definition deliver_data :: "io_env \<Rightarrow> nat \<Rightarrow> unit io_prog" where
  "deliver_data E n = withM (\<lambda>s.
     if length (mb_storage (io_readBuffer s)) < mb_rpos (io_readBuffer s) + n then throwM OutOfBounds
     else doM [
       callback E (DataRead (mb_read n (io_readBuffer s))),
       modifyM (\<lambda>s. s\<lparr> io_readBuffer := readCompleted n (io_readBuffer s) \<rparr>)])"

definition deliver_rest :: "io_env \<Rightarrow> unit io_prog" where
  "deliver_rest E = doM [
     modifyM (\<lambda>s. s\<lparr> io_readUntilClose := False \<rparr>),
     withM (\<lambda>s. deliver_data E (getActiveSize (io_readBuffer s)))]"

definition readFromBuffer :: "io_env \<Rightarrow> unit io_prog" where
  "readFromBuffer E = withM (\<lambda>s.
     if io_disconnected s \<and> io_readUntilClose s then deliver_rest E
     else case io_readBytes s of
       Some n \<Rightarrow> whenM (getActiveSize (io_readBuffer s) \<ge> n) (doM [
         modifyM (\<lambda>s. s\<lparr> io_readBytes := None \<rparr>), deliver_data E n])
     | None \<Rightarrow> (case io_readDelimiter s of
         Some d \<Rightarrow> (case find_delimiter s d of
           Some loc \<Rightarrow> doM [
             checkMaxBytes d (loc + length d),
             modifyM (\<lambda>s. s\<lparr> io_readDelimiter := None \<rparr>),
             deliver_data E (loc + length d)]
         | None \<Rightarrow> checkMaxBytes d (getActiveSize (io_readBuffer s)))
       | None \<Rightarrow> (case io_readRegex s of
           Some r \<Rightarrow> (case ie_regex_search E r (io_window s) of
             Some m \<Rightarrow> doM [
               checkMaxBytes r (fst m + snd m),
               modifyM (\<lambda>s. s\<lparr> io_readRegex := None \<rparr>),
               deliver_data E (fst m + snd m)]
           | None \<Rightarrow> checkMaxBytes r (getActiveSize (io_readBuffer s)))
         | None \<Rightarrow> doM [])))"

definition catch_close :: "io_error \<Rightarrow> unit io_prog" where
  "catch_close e = (case e of
      Aborted m \<Rightarrow> throwM e
    | OutOfBounds \<Rightarrow> throwM e
    | _ \<Rightarrow> io_close (Some e))"

section \<open>What the transport and the reactor call\<close>

definition writeDone :: "io_env \<Rightarrow> unit io_prog" where
  "writeDone E = withM (\<lambda>s. whenM (io_writeCallback s) (doM [
     modifyM (\<lambda>s. s\<lparr> io_writeCallback := False \<rparr>),
     callback E WriteComplete]))"

text \<open>\<open>registerProducer\<close> resumes a producer that does not stream at once.\<close>

definition io_connectionMade :: "io_env \<Rightarrow> unit io_prog" where
  "io_connectionMade E = doM [
     withM (\<lambda>s. whenM (\<not> io_disconnected s) (writeDone E)),
     callback E Connected]"

definition io_dataReceived :: "io_env \<Rightarrow> bytes \<Rightarrow> unit io_prog" where
  "io_dataReceived E data = doM [
     modifyM (\<lambda>s. s\<lparr> io_readBuffer := ensureFreeSpaceFor (length data) (io_readBuffer s) \<rparr>),
     withM (\<lambda>s. case mb_write data (io_readBuffer s) of
         None \<Rightarrow> throwM OutOfBounds
       | Some b \<Rightarrow> modifyM (\<lambda>s. s\<lparr> io_readBuffer := b \<rparr>)),
     tryM (withM (\<lambda>s.
         if getBufferSize (io_readBuffer s) > io_maxBufferSize s then throwM StreamBufferFullError
         else readFromBuffer E))
       catch_close]"

definition io_connectionLost :: "io_env \<Rightarrow> io_error option \<Rightarrow> unit io_prog" where
  "io_connectionLost E reason = doM [
     withM (\<lambda>s. whenM (io_readUntilClose s) (deliver_rest E)),
     withM (\<lambda>s. let error = (if io_error s \<noteq> None then io_error s else reason) in doM [
       modifyM (\<lambda>s. s\<lparr> io_error := None \<rparr>),
       callback E (Disconnected error)])]"

text \<open>The function that \<open>tryInlineRead\<close> gave to the reactor.\<close>

definition io_inlineRead :: "io_env \<Rightarrow> unit io_prog" where
  "io_inlineRead E = withM (\<lambda>s. whenM (io_callbacks s > 0) (doM [
     modifyM (\<lambda>s. s\<lparr> io_callbacks := io_callbacks s - 1 \<rparr>),
     tryM (readFromBuffer E) catch_close]))"

datatype io_input =
    MakeConnection
  | Received bytes
  | RunCallback
  | TransportWriteDone
  | LostConnection "io_error option"
  | UserCall io_call

fun io_step :: "io_env \<Rightarrow> io_input \<Rightarrow> unit io_prog" where
  "io_step E MakeConnection = io_connectionMade E"
| "io_step E (Received data) = io_dataReceived E data"
| "io_step E RunCallback = io_inlineRead E"
| "io_step E TransportWriteDone = writeDone E"
| "io_step E (LostConnection reason) = doM [
     modifyM (\<lambda>s. s\<lparr> io_closed := True, io_disconnected := True \<rparr>),
     io_connectionLost E reason]"
| "io_step E (UserCall c) = io_run_call E c"

end
