(* ===== verification/Io_Stream_Props.thy ===== *)
theory Io_Stream_Props
  imports Io_Stream
begin

text \<open>
  What an \<open>IOStream\<close> promises its subclass: the pieces given to \<open>onDataRead\<close> are the received
  octets, in order and without loss; a read that can be answered never waits for more data;
  and each piece ends where the read asked. Two limits of the code are shown as well: the
  buffer is never moved back, so that a stream ends after \<open>_maxBufferSize\<close> octets whatever has
  been read, and a zero octet in a delimiter cuts the search but not the length.
\<close>

section \<open>Vocabulary\<close>

definition data_of :: "io_event \<Rightarrow> bytes" where
  "data_of e = (case e of DataRead d \<Rightarrow> d | _ \<Rightarrow> [])"

definition delivered :: "io_stream \<Rightarrow> bytes" where
  "delivered s = concat (List.map data_of (io_trace s))"

definition stream_failed :: "io_stream \<Rightarrow> bool" where
  "stream_failed s \<longleftrightarrow> list_ex (\<lambda>e. case e of Closing (Some _) \<Rightarrow> True | _ \<Rightarrow> False) (io_trace s)"

definition plain_delimiter :: "string \<Rightarrow> bool" where
  "plain_delimiter d \<longleftrightarrow> CHR 0x00 \<notin> set d"

definition call_plain :: "io_call \<Rightarrow> bool" where
  "call_plain c = (case c of CallReadUntil d m \<Rightarrow> plain_delimiter d | _ \<Rightarrow> True)"

definition client_plain :: "io_env \<Rightarrow> bool" where
  "client_plain E \<longleftrightarrow> (\<forall>tr. list_all call_plain (ie_client E tr))"

text \<open>
  Boost.Regex: a match lies within the text. A pattern without anchors and lookbehind matches somewhere in
  a text if it matches somewhere in the rest of the text.
\<close>

definition regex_documented :: "io_env \<Rightarrow> bool" where
  "regex_documented E \<longleftrightarrow>
     (\<forall>r w p n. ie_regex_search E r w = Some (p, n) \<longrightarrow> p + n \<le> length w)"

definition anchor_free :: "io_env \<Rightarrow> string \<Rightarrow> bool" where
  "anchor_free E r \<longleftrightarrow>
     (\<forall>w k. ie_regex_search E r (drop k w) \<noteq> None \<longrightarrow> ie_regex_search E r w \<noteq> None)"

definition pending_anchor_free :: "io_env \<Rightarrow> io_stream \<Rightarrow> bool" where
  "pending_anchor_free E s \<longleftrightarrow> (\<forall>r. io_readRegex s = Some r \<longrightarrow> anchor_free E r)"

definition one_pending :: "io_stream \<Rightarrow> bool" where
  "one_pending s \<longleftrightarrow> length (filter id [io_readBytes s \<noteq> None, io_readDelimiter s \<noteq> None,
     io_readRegex s \<noteq> None, io_readUntilClose s]) \<le> 1"

definition reads_ok :: "io_stream \<Rightarrow> bool" where
  "reads_ok s \<longleftrightarrow> one_pending s \<and> (\<forall>d. io_readDelimiter s = Some d \<longrightarrow> plain_delimiter d)"

definition woken :: "io_env \<Rightarrow> io_stream \<Rightarrow> bool" where
  "woken E s \<longleftrightarrow> (findReadPos E s \<longrightarrow> pending_anchor_free E s \<longrightarrow> io_callbacks s > 0)"

definition io_inv :: "io_env \<Rightarrow> io_stream \<Rightarrow> bool" where
  "io_inv E s \<longleftrightarrow> mb_ok (io_readBuffer s) \<and> reads_ok s \<and> woken E s"

definition history :: "io_stream \<Rightarrow> bytes" where
  "history s = delivered s @ mb_content (io_readBuffer s)"

section \<open>The calls of the subclass\<close>

definition call_rel :: "io_env \<Rightarrow> io_stream \<Rightarrow> io_stream \<Rightarrow> bool" where
  "call_rel E s t \<longleftrightarrow> io_readBuffer t = io_readBuffer s \<and> delivered t = delivered s
     \<and> io_disconnected t = io_disconnected s \<and> io_maxBufferSize t = io_maxBufferSize s
     \<and> (stream_failed s \<longrightarrow> stream_failed t)
     \<and> (reads_ok s \<and> woken E s \<longrightarrow> reads_ok t \<and> woken E t)"

interpretation cl: state_rel "call_rel E" for E
  by unfold_locales (auto simp: call_rel_def)

lemmas read_state_defs = reads_ok_def one_pending_def woken_def reading_def findReadPos_def
  find_delimiter_def io_window_def

lemma find_delimiter_buffer: "io_readBuffer t = io_readBuffer s \<Longrightarrow> find_delimiter t = find_delimiter s"
  by (simp add: find_delimiter_def io_window_def fun_eq_iff)

lemma findReadPos_same:
  assumes "io_readBuffer t = io_readBuffer s"
    "io_disconnected t \<and> io_readUntilClose t \<longleftrightarrow> io_disconnected s \<and> io_readUntilClose s"
    "io_readDelimiter t = io_readDelimiter s" "io_readRegex t = io_readRegex s"
    "io_readBytes t = io_readBytes s"
  shows "findReadPos E t = findReadPos E s"
proof -
  have "io_window t = io_window s" using assms(1) by (simp add: io_window_def)
  then show ?thesis
    unfolding findReadPos_def by (simp only: assms find_delimiter_buffer [OF assms(1)])
qed

lemma call_rel_same_reads:
  assumes "io_readBuffer t = io_readBuffer s" "io_disconnected t = io_disconnected s"
    "io_readDelimiter t = io_readDelimiter s" "io_readRegex t = io_readRegex s"
    "io_readBytes t = io_readBytes s" "io_readUntilClose t = io_readUntilClose s"
    "io_callbacks t = io_callbacks s" "io_maxBufferSize t = io_maxBufferSize s"
    "delivered t = delivered s" "stream_failed s \<Longrightarrow> stream_failed t"
  shows "call_rel E s t"
  using assms findReadPos_same [of t s E]
  by (auto simp: call_rel_def reads_ok_def one_pending_def woken_def pending_anchor_free_def)

lemma delivered_snoc: "delivered (s\<lparr> io_trace := io_trace s @ [e] \<rparr>) = delivered s @ data_of e"
  by (simp add: delivered_def)

lemma stream_failed_snoc:
  "stream_failed (s\<lparr> io_trace := io_trace s @ [e] \<rparr>) \<longleftrightarrow>
     stream_failed s \<or> (\<exists>x. e = Closing (Some x))"
  by (auto simp: stream_failed_def split: io_event.splits option.splits)

lemma call_traceM: "data_of e = [] \<Longrightarrow> evolves (call_rel E) (traceM e)"
  unfolding traceM_def
  by (intro cl.ev_modifyM call_rel_same_reads) (simp_all add: delivered_snoc stream_failed_snoc)

lemma call_io_close: "evolves (call_rel E) (io_close e)"
  unfolding io_close_def
  by (intro cl.ev_rules call_traceM cl.ev_modifyM call_rel_same_reads)
     (simp_all add: data_of_def delivered_def stream_failed_def)

lemma call_io_write: "evolves (call_rel E) (io_write data cb)"
  unfolding io_write_def
  by (intro cl.ev_rules call_traceM cl.ev_modifyM call_rel_same_reads)
     (simp_all add: data_of_def delivered_def stream_failed_def)

text \<open>A call that asks for data: nothing was pending, one read is now.\<close>

lemma call_asks:
  assumes "\<And>s. \<not> reading s \<Longrightarrow> call_rel E s (snd (m s))"
  shows "evolves (call_rel E) (bindM assert_idle (\<lambda>_. m))"
  using assms
  by (auto simp: evolves_def assert_idle_def runs cl.rel_refl split: if_splits)

lemmas ask_defs = set_max_def tryInlineRead_def runs call_rel_def delivered_def stream_failed_def

lemma call_reads:
  "plain_delimiter d \<Longrightarrow> evolves (call_rel E) (readUntil E d m)"
  "evolves (call_rel E) (readBytes E n)"
  "evolves (call_rel E) (readUntilClose E)"
  "evolves (call_rel E) (readUntilRegex E r m)"
  unfolding readUntil_def readBytes_def readUntilClose_def readUntilRegex_def doM.simps(2)
  by (rule call_asks; auto simp: ask_defs read_state_defs)+

lemma call_io_run_call: "call_plain c \<Longrightarrow> evolves (call_rel E) (io_run_call E c)"
  by (cases c) (auto simp: call_plain_def call_reads call_io_write call_io_close cl.ev_throwM)

lemma call_callback:
  assumes "client_plain E" and "data_of e = []"
  shows "evolves (call_rel E) (callback E e)"
proof -
  have "list_all (evolves (call_rel E)) (List.map (io_run_call E) (ie_client E tr))" for tr
    using assms(1) by (auto simp: client_plain_def list_all_iff intro: call_io_run_call)
  then show ?thesis
    unfolding callback_def using assms(2) by (intro cl.ev_rules call_traceM cl.ev_doM) auto
qed

section \<open>Delivering a piece\<close>

lemma plain_c_str: "plain_delimiter d \<Longrightarrow> c_str d = d"
  by (auto simp: plain_delimiter_def c_str_def intro: takeWhile_eq_all_conv [THEN iffD2])

lemma io_window_content: "mb_ok (io_readBuffer s) \<Longrightarrow> io_window s = mb_content (io_readBuffer s)"
  by (simp add: io_window_def mb_sizes mb_read_content)

lemma find_delimiter_eq:
  assumes "mb_ok (io_readBuffer s)" and "plain_delimiter d"
  shows "find_delimiter s d = search (bytes_of_string d) (mb_content (io_readBuffer s))"
  using assms search_cut(2) [of "bytes_of_string d" "mb_content (io_readBuffer s)"]
  by (cases "search (bytes_of_string d) (mb_content (io_readBuffer s))")
     (auto simp: find_delimiter_def StrNStr_def io_window_content plain_c_str)

lemma search_drop: "search sub (drop k s) \<noteq> None \<Longrightarrow> search sub s \<noteq> None"
proof -
  assume "search sub (drop k s) \<noteq> None"
  then obtain j where "stands_at sub (drop k s) j" by (auto simp: search_None)
  then have "drop j (drop k s) = sub @ drop (j + length sub) (drop k s)" and "j \<le> length (drop k s)"
    by (metis append_take_drop_id drop_drop stands_at_def add.commute)+
  then have "stands_at sub s (if k \<le> length s then k + j else length s)"
    by (auto simp: stands_at_def add.commute)
  then show ?thesis by (auto simp: search_None)
qed

text \<open>What can be read after some octets were taken could be read before.\<close>

lemma findReadPos_earlier:
  assumes ok: "mb_ok (io_readBuffer s)" and n: "n \<le> length (mb_content (io_readBuffer s))"
    and reads: "reads_ok s" and regex: "pending_anchor_free E s"
    and found: "findReadPos E (s\<lparr> io_readBuffer := readCompleted n (io_readBuffer s) \<rparr>)"
  shows "findReadPos E s"
proof -
  let ?t = "s\<lparr> io_readBuffer := readCompleted n (io_readBuffer s) \<rparr>"
  have t: "mb_ok (io_readBuffer ?t)" "mb_content (io_readBuffer ?t) = drop n (mb_content (io_readBuffer s))"
    using readCompleted_ok [OF ok n] by simp_all
  have size: "getActiveSize (io_readBuffer ?t) \<le> getActiveSize (io_readBuffer s)"
    using mb_sizes(1) [OF ok] mb_sizes(1) [OF t(1)] t(2) by simp
  have window: "io_window ?t = drop n (io_window s)"
    using io_window_content [OF ok] io_window_content [OF t(1)] t(2) by simp
  have delim: "find_delimiter ?t d \<noteq> None \<Longrightarrow> find_delimiter s d \<noteq> None" if "plain_delimiter d" for d
    using find_delimiter_eq [OF ok that] find_delimiter_eq [OF t(1) that] t(2) search_drop by metis
  have match: "ie_regex_search E r (io_window ?t) \<noteq> None \<Longrightarrow> ie_regex_search E r (io_window s) \<noteq> None"
    if "io_readRegex s = Some r" for r
    using regex window that by (metis anchor_free_def pending_anchor_free_def)
  show ?thesis
    using found reads size delim match
    by (auto simp: findReadPos_def reads_ok_def split: if_splits option.splits)
qed

lemma deliver_data_ok:
  assumes ok: "mb_ok (io_readBuffer s)" and n: "n \<le> length (mb_content (io_readBuffer s))"
    and idle: "\<not> reading s" and client: "client_plain E"
    and run: "deliver_data E n s = (Inr (), t)"
  shows "io_inv E t" "history t = history s" "stream_failed s \<Longrightarrow> stream_failed t"
    "io_maxBufferSize t = io_maxBufferSize s" "io_disconnected t = io_disconnected s"
proof -
  let ?chunk = "mb_read n (io_readBuffer s)"
  define e where "e = s\<lparr> io_trace := io_trace s @ [DataRead ?chunk] \<rparr>"
  obtain u where calls: "doM (List.map (io_run_call E) (ie_client E (io_trace e))) e = (Inr (), u)"
    and t: "t = u\<lparr> io_readBuffer := readCompleted n (io_readBuffer u) \<rparr>"
    using run by (auto simp: deliver_data_def callback_def traceM_def runs e_def bindM_unit
        elim!: bindM_okE split: if_splits)
  have "list_all (evolves (call_rel E)) (List.map (io_run_call E) (ie_client E (io_trace e)))"
    using client by (auto simp: client_plain_def list_all_iff intro: call_io_run_call)
  then have rel: "call_rel E e u"
    using evolvesD [OF cl.ev_doM, of E _ e] calls by (metis snd_conv)
  have e: "reads_ok e" "woken E e"
    using idle by (auto simp: e_def read_state_defs)
  have u: "io_readBuffer u = io_readBuffer s" "reads_ok u" "woken E u"
    using rel e by (simp_all add: call_rel_def e_def)
  have "findReadPos E u" if "findReadPos E t" "pending_anchor_free E u"
    using that findReadPos_earlier [of u n E] ok n u by (simp add: t)
  then show "io_inv E t"
    using readCompleted_ok [OF ok n] u by (auto simp: io_inv_def t woken_def reads_ok_def one_pending_def pending_anchor_free_def)
  have chunk: "?chunk = take n (mb_content (io_readBuffer s))"
    by (rule mb_read_content [OF ok n])
  have "delivered t = delivered s @ ?chunk"
    using rel by (simp add: call_rel_def t e_def delivered_def data_of_def)
  then show "history t = history s"
    using mb.history_consume [OF ok n] by (simp add: history_def t u chunk)
  show "stream_failed s \<Longrightarrow> stream_failed t" "io_maxBufferSize t = io_maxBufferSize s"
    "io_disconnected t = io_disconnected s"
    using rel by (auto simp: call_rel_def t e_def stream_failed_def)
qed

section \<open>Reading from the buffer\<close>

definition stream_ready :: "io_env \<Rightarrow> bool" where
  "stream_ready E \<longleftrightarrow> client_plain E \<and> regex_documented E"

lemma checkMaxBytes_ok: "checkMaxBytes d n s = (Inr (), t) \<Longrightarrow> t = s"
  by (auto simp: checkMaxBytes_def runs split: option.splits if_splits)

text \<open>The step of the invariant all readers share: \<open>R\<close> is what has been received.\<close>

definition io_good :: "io_env \<Rightarrow> bytes \<Rightarrow> io_stream \<Rightarrow> bool" where
  "io_good E R s \<longleftrightarrow> io_inv E s \<and> history s = R"

lemma deliver_good:
  assumes "mb_ok (io_readBuffer s)" "n \<le> length (mb_content (io_readBuffer s))" "\<not> reading s"
    and "stream_ready E" and "deliver_data E n s = (Inr (), t)"
  shows "io_good E (history s) t"
  using deliver_data_ok(1,2) [OF assms(1-3) _ assms(5)] assms(4)
  by (simp add: stream_ready_def io_good_def)

text \<open>Once the pending read is taken away, none is left.\<close>

lemma idle_after:
  assumes "reads_ok s"
  shows "io_readUntilClose s \<Longrightarrow> \<not> reading (s\<lparr> io_readUntilClose := False \<rparr>)"
    "io_readBytes s = Some n \<Longrightarrow> \<not> reading (s\<lparr> io_readBytes := None \<rparr>)"
    "io_readDelimiter s = Some d \<Longrightarrow> \<not> reading (s\<lparr> io_readDelimiter := None \<rparr>)"
    "io_readRegex s = Some d \<Longrightarrow> \<not> reading (s\<lparr> io_readRegex := None \<rparr>)"
  using assms by (simp_all add: reads_ok_def one_pending_def reading_def split: if_split_asm)

lemma history_reads [simp]:
  "history (s\<lparr> io_readBytes := x \<rparr>) = history s" "history (s\<lparr> io_readDelimiter := y \<rparr>) = history s"
  "history (s\<lparr> io_readRegex := y \<rparr>) = history s" "history (s\<lparr> io_readUntilClose := b \<rparr>) = history s"
  "history (s\<lparr> io_callbacks := c \<rparr>) = history s" "history (s\<lparr> io_error := e \<rparr>) = history s"
  "history (s\<lparr> io_closed := b \<rparr>) = history s" "history (s\<lparr> io_disconnected := b \<rparr>) = history s"
  "history (s\<lparr> io_writeCallback := b \<rparr>) = history s"
  by (simp_all add: history_def delivered_def)

lemma pending_cases:
  obtains (rest) "io_disconnected s" "io_readUntilClose s"
    | (bytes) n where "\<not> (io_disconnected s \<and> io_readUntilClose s)" "io_readBytes s = Some n"
    | (delimiter) d where "\<not> (io_disconnected s \<and> io_readUntilClose s)" "io_readBytes s = None"
        "io_readDelimiter s = Some d"
    | (regex) r where "\<not> (io_disconnected s \<and> io_readUntilClose s)" "io_readBytes s = None"
        "io_readDelimiter s = None" "io_readRegex s = Some r"
    | (none) "\<not> (io_disconnected s \<and> io_readUntilClose s)" "io_readBytes s = None"
        "io_readDelimiter s = None" "io_readRegex s = None"
  by (cases "io_readBytes s"; cases "io_readDelimiter s"; cases "io_readRegex s") auto

lemma readFromBuffer_good:
  assumes ok: "mb_ok (io_readBuffer s)" and reads: "reads_ok s" and env: "stream_ready E"
    and run: "readFromBuffer E s = (Inr (), t)"
  shows "io_good E (history s) t"
proof -
  note size = mb_sizes(1) [OF ok]
  note idle = idle_after [OF reads]
  show ?thesis
  proof (cases s rule: pending_cases)
    case rest
    then have "deliver_data E (getActiveSize (io_readBuffer s)) (s\<lparr> io_readUntilClose := False \<rparr>) = (Inr (), t)"
      using run by (auto simp: readFromBuffer_def deliver_rest_def runs bindM_unit)
    then show ?thesis
      using deliver_good [of "s\<lparr> io_readUntilClose := False \<rparr>"] ok size env idle rest
      by auto
  next
    case (bytes n)
    then consider (now) "n \<le> length (mb_content (io_readBuffer s))"
        "deliver_data E n (s\<lparr> io_readBytes := None \<rparr>) = (Inr (), t)"
      | (later) "t = s" "\<not> findReadPos E s"
      using run size
      by (auto simp: readFromBuffer_def runs bindM_unit findReadPos_def split: if_splits)
    then show ?thesis
      using deliver_good [of "s\<lparr> io_readBytes := None \<rparr>"] ok env reads bytes idle(2)
      by cases (auto simp: io_good_def io_inv_def woken_def)
  next
    case (delimiter d)
    have plain: "plain_delimiter d" using reads delimiter by (simp add: reads_ok_def)
    show ?thesis
    proof (cases "find_delimiter s d")
      case None
      then have "t = s" using run delimiter
        by (auto simp: readFromBuffer_def runs bindM_unit intro: checkMaxBytes_ok)
      then show ?thesis
        using None delimiter ok reads by (auto simp: io_good_def io_inv_def woken_def findReadPos_def)
    next
      case (Some k)
      then have "deliver_data E (k + length d) (s\<lparr> io_readDelimiter := None \<rparr>) = (Inr (), t)"
        using run delimiter
        by (auto simp: readFromBuffer_def runs bindM_unit elim!: bindM_okE dest: checkMaxBytes_ok)
      moreover have "k + length d \<le> length (mb_content (io_readBuffer s))"
        using search_cut(2) Some unfolding find_delimiter_eq [OF ok plain] by fastforce
      ultimately show ?thesis
        using deliver_good [of "s\<lparr> io_readDelimiter := None \<rparr>"] ok env idle(3) delimiter
        by auto
    qed
  next
    case (regex r)
    show ?thesis
    proof (cases "ie_regex_search E r (io_window s)")
      case None
      then have "t = s" using run regex
        by (auto simp: readFromBuffer_def runs bindM_unit intro: checkMaxBytes_ok)
      then show ?thesis
        using None regex ok reads by (auto simp: io_good_def io_inv_def woken_def findReadPos_def)
    next
      case (Some m)
      then have "deliver_data E (fst m + snd m) (s\<lparr> io_readRegex := None \<rparr>) = (Inr (), t)"
        using run regex
        by (auto simp: readFromBuffer_def runs bindM_unit elim!: bindM_okE dest: checkMaxBytes_ok)
      moreover have "fst m + snd m \<le> length (mb_content (io_readBuffer s))"
        using env Some io_window_content [OF ok]
        by (cases m) (auto simp: stream_ready_def regex_documented_def)
      ultimately show ?thesis
        using deliver_good [of "s\<lparr> io_readRegex := None \<rparr>"] ok env idle(4) regex
        by auto
    qed
  next
    case none
    then show ?thesis
      using run ok reads
      by (auto simp: readFromBuffer_def runs io_good_def io_inv_def woken_def findReadPos_def)
  qed
qed

section \<open>What no operation undoes\<close>

definition grow_rel :: "io_stream \<Rightarrow> io_stream \<Rightarrow> bool" where
  "grow_rel s t \<longleftrightarrow> prefix (io_trace s) (io_trace t) \<and> io_maxBufferSize t = io_maxBufferSize s
     \<and> mb_wpos (io_readBuffer t) = mb_wpos (io_readBuffer s)"

interpretation gr: state_rel grow_rel
  by unfold_locales (auto simp: grow_rel_def)

lemma grow_modifyM:
  "(\<And>s. io_trace (f s) = io_trace s \<and> io_maxBufferSize (f s) = io_maxBufferSize s
      \<and> mb_wpos (io_readBuffer (f s)) = mb_wpos (io_readBuffer s)) \<Longrightarrow> evolves grow_rel (modifyM f)"
  by (rule gr.ev_modifyM) (simp add: grow_rel_def)

lemma grow_traceM: "evolves grow_rel (traceM e)"
  unfolding traceM_def by (rule gr.ev_modifyM) (simp add: grow_rel_def)

lemmas grow_rules = gr.ev_rules grow_traceM grow_modifyM ev_cases

lemma grow_call: "evolves grow_rel (io_run_call E c)"
  by (cases c)
     (simp; (unfold readUntilRegex_def readUntil_def readBytes_def readUntilClose_def io_write_def
       io_close_def assert_idle_def set_max_def tryInlineRead_def)?; intro grow_rules; simp)+

lemma grow_callback: "evolves grow_rel (callback E e)"
  unfolding callback_def
  by (intro grow_rules gr.ev_doM) (simp add: list_all_iff grow_call)

lemma grow_checkMaxBytes: "evolves grow_rel (checkMaxBytes d n)"
  unfolding checkMaxBytes_def by (intro grow_rules)

lemma grow_deliver_data: "evolves grow_rel (deliver_data E n)"
  unfolding deliver_data_def
  by (intro grow_rules grow_callback) (simp add: readCompleted_def)

lemma grow_deliver_rest: "evolves grow_rel (deliver_rest E)"
  unfolding deliver_rest_def by (intro grow_rules grow_deliver_data) simp

lemma grow_readFromBuffer: "evolves grow_rel (readFromBuffer E)"
  unfolding readFromBuffer_def
  by (intro grow_rules grow_deliver_data grow_deliver_rest grow_checkMaxBytes) simp_all

lemma grow_catch_close: "evolves grow_rel (catch_close e)"
  unfolding catch_close_def io_close_def
  by (cases e) (simp_all, (intro grow_rules; simp)+)

lemma grow_guarded: "evolves grow_rel (tryM (readFromBuffer E) catch_close)"
  by (intro grow_rules grow_readFromBuffer grow_catch_close)

lemma grow_writeDone: "evolves grow_rel (writeDone E)"
  unfolding writeDone_def by (intro grow_rules grow_callback) simp

lemma grow_connectionLost: "evolves grow_rel (io_connectionLost E r)"
  unfolding io_connectionLost_def Let_def
  by (intro grow_rules grow_callback grow_deliver_rest) simp

text \<open>\<open>dataReceived\<close> has put the octets into the buffer when it looks at its size.\<close>

definition after_put :: "io_env \<Rightarrow> unit io_prog" where
  "after_put E = tryM (withM (\<lambda>s.
      if getBufferSize (io_readBuffer s) > io_maxBufferSize s then throwM StreamBufferFullError
      else readFromBuffer E)) catch_close"

lemma io_dataReceived_run:
  assumes "mb_ok (io_readBuffer s)"
  shows "io_dataReceived E data s =
    after_put E (s\<lparr> io_readBuffer := mb_append data (io_readBuffer s) \<rparr>)"
  using mb_write_fits(1) [OF assms, of data]
  by (simp add: io_dataReceived_def after_put_def runs bindM_unit)

lemma grow_after_put: "evolves grow_rel (after_put E)"
  unfolding after_put_def by (intro grow_rules grow_readFromBuffer grow_catch_close)

lemma grow_failed: "grow_rel s t \<Longrightarrow> stream_failed s \<Longrightarrow> stream_failed t"
  by (auto simp: grow_rel_def stream_failed_def prefix_def)

section \<open>Every step\<close>

fun arriving :: "io_input \<Rightarrow> bytes" where
  "arriving (Received data) = data"
| "arriving st = []"

fun input_plain :: "io_input \<Rightarrow> bool" where
  "input_plain (UserCall c) = call_plain c"
| "input_plain st = True"

lemma call_good: "evolves (call_rel E) m \<Longrightarrow> m s = (r, t) \<Longrightarrow> io_good E R s \<Longrightarrow> io_good E R t"
  using evolvesD [of "call_rel E" m s]
  by (simp add: call_rel_def io_good_def io_inv_def history_def)

lemma catch_close_fails: "catch_close e s = (Inr (), t) \<Longrightarrow> stream_failed t"
  by (cases e) (auto simp: catch_close_def io_close_def traceM_def runs stream_failed_def split: if_splits)

lemma guarded_good:
  assumes "mb_ok (io_readBuffer s)" "reads_ok s" "stream_ready E"
    and "tryM (readFromBuffer E) catch_close s = (Inr (), t)"
  shows "stream_failed t \<or> io_good E (history s) t"
  using assms readFromBuffer_good [of s E] catch_close_fails
  by (auto simp: tryM_def split: prod.splits sum.splits)

lemma after_put_good:
  assumes "mb_ok (io_readBuffer s)" "reads_ok s" "stream_ready E" and "after_put E s = (Inr (), t)"
  shows "stream_failed t \<or> io_good E (history s) t"
  using assms readFromBuffer_good [of s E] catch_close_fails
  by (auto simp: after_put_def tryM_def runs split: prod.splits sum.splits if_splits)

lemma callback_good:
  assumes "stream_ready E" "data_of e = []" "callback E e s = (r, t)" "io_good E R s"
  shows "io_good E R t"
  using assms call_good [OF call_callback] by (auto simp: stream_ready_def)

lemma io_good_reads:
  assumes "io_good E R s" "io_readBuffer t = io_readBuffer s" "io_disconnected t = io_disconnected s"
    "io_readDelimiter t = io_readDelimiter s" "io_readRegex t = io_readRegex s"
    "io_readBytes t = io_readBytes s" "io_readUntilClose t = io_readUntilClose s"
    "io_callbacks t = io_callbacks s" "io_trace t = io_trace s"
  shows "io_good E R t"
  using assms findReadPos_same [of t s E]
  by (auto simp: io_good_def io_inv_def reads_ok_def one_pending_def woken_def pending_anchor_free_def history_def delivered_def)

lemma writeDone_good: "stream_ready E \<Longrightarrow> writeDone E s = (r, t) \<Longrightarrow> io_good E R s \<Longrightarrow> io_good E R t"
  by (auto simp: writeDone_def runs bindM_unit data_of_def split: if_splits
      elim!: callback_good intro: io_good_reads)

lemma lost_good:
  assumes env: "stream_ready E" and good: "io_good E R s"
    and run: "io_step E (LostConnection reason) s = (Inr (), t)"
  shows "io_good E R t"
proof -
  let ?s = "s\<lparr> io_closed := True, io_disconnected := True \<rparr>"
  have s: "mb_ok (io_readBuffer s)" "reads_ok s" "history s = R" "woken E s"
    using good by (simp_all add: io_good_def io_inv_def)
  have "\<exists>u. io_good E R u \<and> callback E (Disconnected (if io_error u \<noteq> None then io_error u else reason))
      (u\<lparr> io_error := None \<rparr>) = (Inr (), t)"
  proof (cases "io_readUntilClose s")
    case True
    then obtain u where u: "deliver_rest E ?s = (Inr (), u)"
      "callback E (Disconnected (if io_error u \<noteq> None then io_error u else reason))
         (u\<lparr> io_error := None \<rparr>) = (Inr (), t)"
      using run by (auto simp: io_connectionLost_def runs bindM_unit Let_def elim!: bindM_okE)
    have "readFromBuffer E ?s = (Inr (), u)"
      using u(1) True by (simp add: readFromBuffer_def runs)
    then have "io_good E (history ?s) u"
      using readFromBuffer_good [of ?s E u] s env by (simp add: reads_ok_def one_pending_def)
    then show ?thesis using u s by auto
  next
    case False
    have "findReadPos E ?s = findReadPos E s"
      using False by (intro findReadPos_same) simp_all
    then have "io_good E R ?s"
      using s by (simp add: io_good_def io_inv_def reads_ok_def one_pending_def woken_def pending_anchor_free_def)
    moreover have "callback E (Disconnected (if io_error ?s \<noteq> None then io_error ?s else reason))
        (?s\<lparr> io_error := None \<rparr>) = (Inr (), t)"
      using run False by (simp add: io_connectionLost_def runs bindM_unit Let_def)
    ultimately show ?thesis by blast
  qed
  then obtain u where u: "io_good E R u"
    and c: "callback E (Disconnected (if io_error u \<noteq> None then io_error u else reason))
      (u\<lparr> io_error := None \<rparr>) = (Inr (), t)" by blast
  have "io_good E R (u\<lparr> io_error := None \<rparr>)" by (rule io_good_reads [OF u]) simp_all
  then show ?thesis using callback_good [OF env _ c] by (simp add: data_of_def)
qed

lemma step_good:
  assumes env: "stream_ready E" and good: "io_good E R s" and plain: "input_plain i"
    and run: "io_step E i s = (Inr (), t)"
  shows "stream_failed t \<or> io_good E (R @ arriving i) t"
proof (cases i)
  case MakeConnection
  then obtain u r where u: "io_good E R u" "callback E Connected u = (r, t)"
    using run good writeDone_good [OF env _ good]
    by (auto simp: io_connectionMade_def runs bindM_unit elim!: bindM_okE split: if_splits)
  then show ?thesis using callback_good [OF env _ u(2,1)] MakeConnection by (simp add: data_of_def)
next
  case (Received data)
  let ?s = "s\<lparr> io_readBuffer := mb_append data (io_readBuffer s) \<rparr>"
  have s: "mb_ok (io_readBuffer s)" "reads_ok s" "history s = R"
    using good by (simp_all add: io_good_def io_inv_def)
  have "history ?s = R @ data"
    using mb.history_put [OF s(1), of "delivered s" data] s(3) by (simp add: history_def delivered_def)
  then show ?thesis
    using after_put_good [of ?s E t] run Received s env mb.put_ok
    by (simp add: io_dataReceived_run reads_ok_def one_pending_def)
next
  case RunCallback
  let ?s = "s\<lparr> io_callbacks := io_callbacks s - 1 \<rparr>"
  have s: "mb_ok (io_readBuffer s)" "reads_ok s" "history s = R"
    using good by (simp_all add: io_good_def io_inv_def)
  show ?thesis
  proof (cases "io_callbacks s > 0")
    case True
    then have "tryM (readFromBuffer E) catch_close ?s = (Inr (), t)"
      using run RunCallback by (simp add: io_inlineRead_def runs bindM_unit)
    moreover have "reads_ok ?s" using s(2) by (simp add: reads_ok_def one_pending_def)
    ultimately have "stream_failed t \<or> io_good E (history ?s) t"
      using guarded_good [of ?s E t] s(1) env by simp
    then show ?thesis using s(3) RunCallback by simp
  next
    case False
    then show ?thesis using run RunCallback good by (simp add: io_inlineRead_def runs)
  qed
next
  case TransportWriteDone
  then show ?thesis using writeDone_good [OF env _ good] run by simp
next
  case (LostConnection reason)
  then show ?thesis using lost_good [OF env good] run by simp
next
  case (UserCall c)
  then show ?thesis using call_good [OF call_io_run_call, of c E s _ t] plain run good by simp
qed

section \<open>Runs of a stream\<close>

text \<open>Every call, callback and delivery returns; \<open>R\<close> collects what the transport delivered.\<close>

inductive io_reach :: "io_env \<Rightarrow> nat \<Rightarrow> bytes \<Rightarrow> io_stream \<Rightarrow> bool" for E m where
  io_start: "io_reach E m [] (newIOStream m)"
| io_next: "io_reach E m R s \<Longrightarrow> input_plain i \<Longrightarrow> io_step E i s = (Inr (), t) \<Longrightarrow>
    io_reach E m (R @ arriving i) t"

lemma new_good: "io_good E [] (newIOStream m)"
  by (simp add: io_good_def io_inv_def newIOStream_def read_state_defs history_def delivered_def)

lemma io_step_grow: "arriving i = [] \<Longrightarrow> (\<And>d. i \<noteq> Received d) \<Longrightarrow> evolves grow_rel (io_step E i)"
  unfolding io_step.simps
  by (cases i) (auto simp del: doM.simps simp: io_connectionMade_def io_inlineRead_def
      intro!: grow_rules grow_writeDone grow_callback grow_guarded grow_connectionLost grow_call)

definition log_rel :: "io_stream \<Rightarrow> io_stream \<Rightarrow> bool" where
  "log_rel s t \<longleftrightarrow> prefix (io_trace s) (io_trace t) \<and> io_maxBufferSize t = io_maxBufferSize s"

interpretation lr: state_rel log_rel
  by unfold_locales (auto simp: log_rel_def)

lemma step_log: "evolves log_rel (io_step E i)"
proof (cases "\<exists>d. i = Received d")
  case True
  then obtain d where d: "i = Received d" by blast
  have put: "evolves log_rel (after_put E)"
    by (rule evolves_mono [OF grow_after_put]) (simp add: grow_rel_def log_rel_def)
  have "evolves log_rel (io_dataReceived E d)"
    unfolding io_dataReceived_def after_put_def [symmetric]
    by (intro lr.ev_rules lr.ev_modifyM put ev_cases) (simp_all add: log_rel_def)
  then show ?thesis using d by simp
next
  case False
  then have "evolves grow_rel (io_step E i)" by (intro io_step_grow) (cases i, auto)
  then show ?thesis by (rule evolves_mono) (simp add: grow_rel_def log_rel_def)
qed

lemma step_wpos:
  assumes "io_step E i s = (r, t)" and "mb_ok (io_readBuffer s)"
  shows "mb_wpos (io_readBuffer t) = mb_wpos (io_readBuffer s) + length (arriving i)"
proof (cases "\<exists>d. i = Received d")
  case True
  then obtain d where d: "i = Received d" by blast
  let ?s = "s\<lparr> io_readBuffer := mb_append d (io_readBuffer s) \<rparr>"
  have "after_put E ?s = (r, t)" using assms d by (simp add: io_dataReceived_run)
  then have "grow_rel ?s t" using evolvesD [OF grow_after_put, of ?s E] by simp
  then show ?thesis using mb_write_fits(2) [OF assms(2)] d by (simp add: grow_rel_def)
next
  case False
  then have none: "arriving i = []" by (cases i) auto
  then have "evolves grow_rel (io_step E i)" using False by (intro io_step_grow) auto
  then show ?thesis
    using evolvesD [of grow_rel "io_step E i" s] assms(1) none by (simp add: grow_rel_def)
qed

lemma reach_good:
  assumes "io_reach E m R s" and "stream_ready E" and "\<not> stream_failed s"
  shows "io_good E R s \<and> mb_wpos (io_readBuffer s) = length R"
  using assms
proof induction
  case io_start
  then show ?case using new_good by (simp add: newIOStream_def newMessageBuffer_def)
next
  case (io_next R s i t)
  have log: "log_rel s t" using evolvesD [OF step_log, of s E i] io_next.hyps by simp
  have "\<not> stream_failed s"
    using io_next.prems(2) log by (auto simp: log_rel_def stream_failed_def prefix_def)
  then have good: "io_good E R s" "mb_wpos (io_readBuffer s) = length R"
    using io_next.IH io_next.prems(1) by simp_all
  then have ok: "mb_ok (io_readBuffer s)" by (simp add: io_good_def io_inv_def)
  have "stream_failed t \<or> io_good E (R @ arriving i) t"
    using step_good [OF io_next.prems(1) good(1)] io_next.hyps by blast
  then show ?case using step_wpos [OF io_next.hyps(3) ok] good(2) io_next.prems(2) by simp
qed

section \<open>A read that can be answered is answered\<close>

lemma deliver_data_event:
  assumes "mb_ok (io_readBuffer s)" and "n \<le> length (mb_content (io_readBuffer s))"
  shows "prefix (io_trace s @ [DataRead (take n (mb_content (io_readBuffer s)))])
     (io_trace (snd (deliver_data E n s)))"
proof -
  let ?chunk = "take n (mb_content (io_readBuffer s))"
  have fits: "mb_rpos (io_readBuffer s) + n \<le> length (mb_storage (io_readBuffer s))"
    using assms mb_sizes(1,2) [OF assms(1)] by (auto simp: mb_ok_def)
  let ?rest = "doM [withM (\<lambda>s. doM (List.map (io_run_call E) (ie_client E (io_trace s)))),
       modifyM (\<lambda>s. s\<lparr> io_readBuffer := readCompleted n (io_readBuffer s) \<rparr>)]"
  have "deliver_data E n s = ?rest (s\<lparr> io_trace := io_trace s @ [DataRead ?chunk] \<rparr>)"
    using fits mb_read_content [OF assms]
    by (simp add: deliver_data_def callback_def traceM_def runs prog_laws) (simp add: modifyM_def bindM_unit)
  moreover have "evolves grow_rel ?rest"
    by (intro grow_rules gr.ev_doM) (simp_all add: list_all_iff grow_call readCompleted_def)
  ultimately show ?thesis
    using evolvesD [of grow_rel ?rest "s\<lparr> io_trace := io_trace s @ [DataRead ?chunk] \<rparr>"]
    by (simp add: grow_rel_def)
qed

definition answered :: "io_stream \<Rightarrow> io_stream \<Rightarrow> bool" where
  "answered s t \<longleftrightarrow> (\<exists>chunk. prefix (io_trace s @ [DataRead chunk]) (io_trace t))"

lemma answered_reads:
  assumes "mb_ok (io_readBuffer u)" "n \<le> length (mb_content (io_readBuffer u))" "io_trace u = io_trace s"
  shows "answered s (snd (deliver_data E n u))"
  using deliver_data_event [OF assms(1,2), of E] assms(3) unfolding answered_def by auto

lemma readFromBuffer_answers:
  assumes ok: "mb_ok (io_readBuffer s)" "reads_ok s"
    and env: "stream_ready E" and found: "findReadPos E s"
  shows "answered s (snd (readFromBuffer E s)) \<or>
    (\<exists>d m. fst (readFromBuffer E s) = Inl (UnsatisfiableReadError d m))"
proof -
  note size = mb_sizes(1) [OF ok(1)]
  have delim: "k + length d \<le> length (mb_content (io_readBuffer s))"
    if "find_delimiter s d = Some k" "io_readDelimiter s = Some d" for d k
  proof -
    have "plain_delimiter d" using that ok(2) by (simp add: reads_ok_def)
    then show ?thesis using search_cut(2) that(1) find_delimiter_eq [OF ok(1)] by fastforce
  qed
  have match: "fst m + snd m \<le> length (mb_content (io_readBuffer s))"
    if "ie_regex_search E r (io_window s) = Some m" for r m
    using env that io_window_content [OF ok(1)]
    by (cases m) (auto simp: stream_ready_def regex_documented_def)
  have max: "checkMaxBytes d n s = (Inr (), s) \<or> (\<exists>m. checkMaxBytes d n s = (Inl (UnsatisfiableReadError d m), s))"
    for d n
    by (auto simp: checkMaxBytes_def runs split: option.splits)
  show ?thesis
  proof (cases s rule: pending_cases)
    case rest
    have "answered s (snd (deliver_data E (getActiveSize (io_readBuffer s)) (s\<lparr> io_readUntilClose := False \<rparr>)))"
      using ok(1) size by (intro answered_reads) simp_all
    then show ?thesis using rest by (simp add: readFromBuffer_def deliver_rest_def runs bindM_unit)
  next
    case (bytes n)
    have "answered s (snd (deliver_data E n (s\<lparr> io_readBytes := None \<rparr>)))"
      using ok(1) size found bytes by (intro answered_reads) (simp_all add: findReadPos_def)
    then show ?thesis
      using bytes found by (auto simp: readFromBuffer_def findReadPos_def runs bindM_unit)
  next
    case (delimiter d)
    then obtain k where k: "find_delimiter s d = Some k" using found by (auto simp: findReadPos_def)
    have "answered s (snd (deliver_data E (k + length d) (s\<lparr> io_readDelimiter := None \<rparr>)))"
      using ok(1) delim [OF k delimiter(3)] by (intro answered_reads) simp_all
    then show ?thesis
      using delimiter k max [of d "k + length d"]
      by (auto simp: readFromBuffer_def runs bindM_unit bindM_after bindM_fails)
  next
    case (regex r)
    then obtain m where m: "ie_regex_search E r (io_window s) = Some m"
      using found by (auto simp: findReadPos_def)
    have "answered s (snd (deliver_data E (fst m + snd m) (s\<lparr> io_readRegex := None \<rparr>)))"
      using ok(1) match [OF m] by (intro answered_reads) simp_all
    then show ?thesis
      using regex m max [of r "fst m + snd m"]
      by (auto simp: readFromBuffer_def runs bindM_unit bindM_after bindM_fails)
  next
    case none
    then show ?thesis using found by (auto simp: findReadPos_def)
  qed
qed

section \<open>Properties\<close>

text \<open>C14: a subclass may ask for what it likes by length, by regular expression (anchored or not), by
  delimiters without a NUL octet or up to the close, one read at a time, and the callbacks may run at any
  time: as long as no exception closed the stream or left a callback, the pieces given to
  \<open>onDataRead\<close>, in order and followed by what is still in the buffer, are the received octets.
  (\<open>zero_in_delimiter\<close> shows why NUL is excluded.)\<close>

theorem stream_integrity:
  assumes "stream_ready E" and "io_reach E m R s" and "\<not> stream_failed s"
  shows "delivered s @ mb_content (io_readBuffer s) = R"
  using reach_good [OF assms(2,1,3)] by (simp add: io_good_def history_def)

lemma guarded_answers:
  assumes "answered s (snd (readFromBuffer E s)) \<or>
    (\<exists>d m. fst (readFromBuffer E s) = Inl (UnsatisfiableReadError d m))"
  shows "answered s (snd (tryM (readFromBuffer E) catch_close s)) \<or>
    stream_failed (snd (tryM (readFromBuffer E) catch_close s))"
proof (cases "readFromBuffer E s")
  case (Pair r u)
  have "prefix (io_trace u) (io_trace (snd (catch_close e u)))" for e
    using evolvesD [OF grow_catch_close, of u e] by (simp add: grow_rel_def)
  then have "answered s u \<Longrightarrow> answered s (snd (catch_close e u))" for e
    unfolding answered_def by (meson prefix_order.trans)
  moreover have "stream_failed (snd (catch_close (UnsatisfiableReadError d m) u))" for d m
    by (simp add: catch_close_def io_close_def traceM_def runs stream_failed_def)
  ultimately show ?thesis using assms Pair by (auto simp: tryM_def split: sum.split)
qed

text \<open>C15: the wake-up of a read by length, by a delimiter without NUL, up to the close, or by a pattern
  whose matches do not depend on what stands before them is not lost: if the buffer can answer the read, a
  callback was given to the reactor, and when it runs the data is handed to the subclass, or the read is
  refused because it exceeds its limit. (\<open>anchored_wakeup_lost\<close> shows the other patterns.)\<close>

theorem no_lost_wakeup:
  assumes "stream_ready E" and "io_reach E m R s" and "\<not> stream_failed s" and "findReadPos E s"
    and "\<And>r. io_readRegex s = Some r \<Longrightarrow> anchor_free E r"
  shows "0 < io_callbacks s \<and> (answered s (snd (io_step E RunCallback s))
    \<or> stream_failed (snd (io_step E RunCallback s)))"
proof -
  let ?s = "s\<lparr> io_callbacks := io_callbacks s - 1 \<rparr>"
  have good: "mb_ok (io_readBuffer s)" "reads_ok s" "woken E s"
    using reach_good [OF assms(2,1,3)] by (simp_all add: io_good_def io_inv_def)
  then have cb: "0 < io_callbacks s" using assms(4,5) by (simp add: woken_def pending_anchor_free_def)
  have "findReadPos E ?s" using assms(4) findReadPos_same [of ?s s E] by simp
  then have "answered ?s (snd (readFromBuffer E ?s)) \<or>
      (\<exists>d m. fst (readFromBuffer E ?s) = Inl (UnsatisfiableReadError d m))"
    using good assms(1) by (intro readFromBuffer_answers) (simp_all add: reads_ok_def one_pending_def)
  from guarded_answers [OF this] show ?thesis
    using cb by (simp add: io_inlineRead_def runs bindM_unit answered_def)
qed

text \<open>C16: a read up to a delimiter is given the octets up to and including the first occurrence
  of the delimiter, no more and no less, if the delimiter has no NUL octet (part of \<open>reads_ok\<close>) and
  the limit of the read allows it.\<close>

theorem readUntil_exact:
  assumes "mb_ok (io_readBuffer s)" and "reads_ok s" and "io_readDelimiter s = Some d"
    and content: "mb_content (io_readBuffer s) = x @ bytes_of_string d @ y"
    and first: "\<forall>k<length x. take (length d) (drop k (mb_content (io_readBuffer s))) \<noteq> bytes_of_string d"
    and limit: "\<forall>m. io_readMaxBytes s = Some m \<longrightarrow> length x + length d \<le> m"
  shows "prefix (io_trace s @ [DataRead (x @ bytes_of_string d)]) (io_trace (snd (readFromBuffer E s)))"
proof -
  have plain: "plain_delimiter d" and alone: "io_readBytes s = None" "\<not> io_readUntilClose s"
    using assms(2,3) by (simp_all add: reads_ok_def one_pending_def split: if_splits)
  have "search (bytes_of_string d) (mb_content (io_readBuffer s)) = Some (length x)"
    using first by (auto simp: search_Some stands_at_def content)
  then have found: "find_delimiter s d = Some (length x)"
    using find_delimiter_eq [OF assms(1) plain] by simp
  let ?s = "s\<lparr> io_readDelimiter := None \<rparr>"
  have "readFromBuffer E s = deliver_data E (length x + length d) ?s"
    using alone assms(3) found limit
    by (cases "io_readMaxBytes s") (simp_all add: readFromBuffer_def checkMaxBytes_def runs bindM_unit)
  then show ?thesis
    using deliver_data_event [of ?s "length x + length d" E] assms(1) content by simp
qed

text \<open>The buffer of a stream is never moved back to its start, so that its size counts
  everything received: when the octets received since the connection was made exceed
  \<open>_maxBufferSize\<close>, the stream is closed with \<open>StreamBufferFullError\<close>, although the subclass may
  have read all of them.\<close>

lemma stream_ends_at_limit:
  assumes "stream_ready E" and "io_reach E m R s" and "\<not> stream_failed s"
    and "length R + length data > io_maxBufferSize s"
  shows "io_dataReceived E data s = io_close (Some StreamBufferFullError)
    (s\<lparr> io_readBuffer := mb_append data (io_readBuffer s) \<rparr>)"
proof -
  have good: "mb_ok (io_readBuffer s)" "mb_wpos (io_readBuffer s) = length R"
    using reach_good [OF assms(2,1,3)] by (simp_all add: io_good_def io_inv_def)
  let ?s = "s\<lparr> io_readBuffer := mb_append data (io_readBuffer s) \<rparr>"
  have "getBufferSize (io_readBuffer ?s) > io_maxBufferSize ?s"
    using mb_write_fits(2) [OF good(1), of data] mb.put_ok [OF good(1), of data] good(2) assms(4)
    by (simp add: mb_ok_def getBufferSize_def)
  then have "after_put E ?s = io_close (Some StreamBufferFullError) ?s"
    by (simp add: after_put_def tryM_def runs catch_close_def)
  then show ?thesis using io_dataReceived_run [OF good(1)] by simp
qed

text \<open>A zero octet in a delimiter: the search looks for what stands before it, the length that is
  taken counts all of it, and the read position passes the write position.\<close>

lemma zero_in_delimiter:
  fixes s :: io_stream
  assumes "io_readBuffer s = \<lparr> mb_wpos = 1, mb_rpos = 0, mb_storage = [97, 0, 0, 0] \<rparr>"
    and "io_readDelimiter s = Some [CHR ''a'', CHR 0x00, CHR ''b'']"
    and "io_readBytes s = None" "\<not> io_readUntilClose s" "io_readMaxBytes s = None"
    and "\<And>tr. ie_client E tr = []"
  shows "readFromBuffer E s = (Inr (), s\<lparr> io_readDelimiter := None,
      io_readBuffer := \<lparr> mb_wpos = 1, mb_rpos = 3, mb_storage = [97, 0, 0, 0] \<rparr>,
      io_trace := io_trace s @ [DataRead [97, 0, 0]] \<rparr>)"
    and "getActiveSize \<lparr> mb_wpos = 1, mb_rpos = 3, mb_storage = [97, 0, 0, 0] \<rparr> = 2 ^ 64 - 2"
proof -
  have "io_window s = [97]"
    by (simp add: io_window_def assms(1) getActiveSize_def mb_read_def)
  moreover have "StrNStr [97] (bytes_of_string (c_str [CHR ''a'', CHR 0x00, CHR ''b''])) = Some 0"
    by code_simp
  ultimately have "find_delimiter s [CHR ''a'', CHR 0x00, CHR ''b''] = Some 0"
    by (simp add: find_delimiter_def)
  then show "readFromBuffer E s = (Inr (), s\<lparr> io_readDelimiter := None,
      io_readBuffer := \<lparr> mb_wpos = 1, mb_rpos = 3, mb_storage = [97, 0, 0, 0] \<rparr>,
      io_trace := io_trace s @ [DataRead [97, 0, 0]] \<rparr>)"
    using assms
    by (simp add: readFromBuffer_def checkMaxBytes_def deliver_data_def callback_def traceM_def runs
        mb_read_def readCompleted_def)
qed (simp add: getActiveSize_def)

end
