(* ===== verification/Io_Stream_Examples.thy ===== *)
theory Io_Stream_Examples
  imports Io_Stream_Props
begin

text \<open>
  A subclass that reads line by line, run on two lines that arrive together, as the concrete
  case of the theorems of \<open>Io_Stream_Props\<close>.
\<close>

definition newline :: string where "newline = [CHR 0x0A]"

definition line_env :: io_env where
  "line_env = \<lparr> ie_regex_ok = (\<lambda>r. True),
     ie_regex_search = (\<lambda>r w. map_option (\<lambda>k. (k, length r)) (search (bytes_of_string r) w)),
     ie_client = (\<lambda>tr. case rev tr of
         Connected # _ \<Rightarrow> [CallReadUntil newline 0]
       | DataRead _ # _ \<Rightarrow> [CallReadUntil newline 0]
       | _ \<Rightarrow> []) \<rparr>"

lemma line_client [simp]:
  "ie_client line_env (tr @ [Connected]) = [CallReadUntil newline 0]"
  "ie_client line_env (tr @ [DataRead d]) = [CallReadUntil newline 0]"
  "ie_client line_env [Connected] = [CallReadUntil newline 0]"
  "ie_client line_env [e, DataRead d] = [CallReadUntil newline 0]"
  by (simp_all add: line_env_def)

lemma plain_newline [simp]: "plain_delimiter newline"
  by (simp add: plain_delimiter_def newline_def)

lemma line_ready: "stream_ready line_env"
  unfolding stream_ready_def
proof (intro conjI)
  show "client_plain line_env"
    by (simp add: client_plain_def line_env_def call_plain_def split: list.split io_event.split)
  show "regex_documented line_env"
    using search_cut(2) by (fastforce simp: regex_documented_def line_env_def)
qed

definition two_lines :: bytes where "two_lines = [97, 10, 98, 10]"

definition line_buffer :: message_buffer where
  "line_buffer = mb_append two_lines newMessageBuffer"

definition line_waiting :: io_stream where
  "line_waiting = (newIOStream 0)\<lparr> io_readDelimiter := Some newline, io_trace := [Connected] \<rparr>"

definition line_first :: io_stream where
  "line_first = line_waiting\<lparr> io_readBuffer := readCompleted 2 line_buffer, io_callbacks := 1,
     io_trace := [Connected, DataRead [97, 10]] \<rparr>"

lemma line_buffer_facts:
  "mb_ok line_buffer" "mb_content line_buffer = two_lines" "getBufferSize line_buffer = 4096"
  "mb_read 2 line_buffer = [97, 10]" "\<not> length (mb_storage line_buffer) < Suc (Suc (mb_rpos line_buffer))"
proof -
  show ok: "mb_ok line_buffer" "mb_content line_buffer = two_lines"
    using mb.put_ok mb.content_put newMessageBuffer_ok by (simp_all add: line_buffer_def)
  show "mb_read 2 line_buffer = [97, 10]"
    using mb_read_content [OF ok(1)] ok(2) by (simp add: two_lines_def)
  show "getBufferSize line_buffer = 4096" "\<not> length (mb_storage line_buffer) < Suc (Suc (mb_rpos line_buffer))"
    by (simp_all add: line_buffer_def newMessageBuffer_def mb_append_def mb_write_def two_lines_def
        ensureFreeSpaceFor_def getRemainingSpace_def mb_copy_def writeCompleted_def getBufferSize_def)
qed

lemma newline_search:
  "search (bytes_of_string newline) [] = None" "search (bytes_of_string newline) two_lines = Some 1"
  "length newline = 1"
  by code_simp+

lemma line_steps:
  "io_step line_env MakeConnection (newIOStream 0) = (Inr (), line_waiting)"
  "io_step line_env (Received two_lines) line_waiting = (Inr (), line_first)"
proof -
  have none: "find_delimiter s newline = None" if "io_readBuffer s = newMessageBuffer" for s
    using find_delimiter_eq [of s newline] that newline_search(1) by simp
  show "io_step line_env MakeConnection (newIOStream 0) = (Inr (), line_waiting)"
    by (simp add: io_connectionMade_def callback_def traceM_def writeDone_def readUntil_def assert_idle_def
        reading_def set_max_def tryInlineRead_def findReadPos_def runs bindM_unit newIOStream_def
        line_waiting_def none)
  have found: "find_delimiter s newline = Some 1" if "io_readBuffer s = line_buffer" for s
    using find_delimiter_eq [of s newline] that newline_search(2) line_buffer_facts by simp
  have ok: "mb_ok (io_readBuffer line_waiting)" by (simp add: line_waiting_def newIOStream_def)
  show "io_step line_env (Received two_lines) line_waiting = (Inr (), line_first)"
    unfolding io_step.simps io_dataReceived_run [OF ok]
    by (simp add: after_put_def tryM_def readFromBuffer_def runs bindM_unit line_waiting_def newIOStream_def
        line_buffer_def [symmetric] line_buffer_facts [unfolded numeral_2_eq_2] numeral_2_eq_2 DEFAULT_MAX_BUFFER_SIZE_def found newline_search(3)
        checkMaxBytes_def deliver_data_def callback_def traceM_def readUntil_def assert_idle_def
        reading_def set_max_def tryInlineRead_def findReadPos_def line_first_def)
qed

lemma line_reach: "io_reach line_env 0 two_lines line_first"
  using io_next [OF io_next [OF io_start _ line_steps(1)] _ line_steps(2)] by simp

lemma line_not_failed: "\<not> stream_failed line_first"
  by (simp add: line_first_def stream_failed_def)

lemma stream_integrity_witness:
  "delivered line_first @ mb_content (io_readBuffer line_first) = two_lines"
  by (rule stream_integrity [OF line_ready line_reach line_not_failed])

lemma line_second: "find_delimiter line_first newline = Some 1"
proof -
  have "mb_ok (io_readBuffer line_first)" "mb_content (io_readBuffer line_first) = [98, 10]"
    using readCompleted_ok [OF line_buffer_facts(1), of 2] line_buffer_facts(2)
    by (simp_all add: line_first_def two_lines_def)
  moreover have "search (bytes_of_string newline) [98, 10] = Some 1" by code_simp
  ultimately show ?thesis using find_delimiter_eq [of line_first newline] by simp
qed

lemma line_first_fields:
  "io_readRegex line_first = None" "io_readDelimiter line_first = Some newline" "io_readBytes line_first = None"
  "\<not> io_disconnected line_first"
  by (simp_all add: line_first_def line_waiting_def newIOStream_def)

lemma no_lost_wakeup_witness:
  "0 < io_callbacks line_first \<and> (answered line_first (snd (io_step line_env RunCallback line_first))
    \<or> stream_failed (snd (io_step line_env RunCallback line_first)))"
  by (rule no_lost_wakeup [OF line_ready line_reach line_not_failed])
     (simp_all add: findReadPos_def line_second line_first_fields)

lemma readUntil_exact_witness:
  "prefix [Connected, DataRead [97, 10]]
     (io_trace (snd (readFromBuffer line_env (line_waiting\<lparr> io_readBuffer := line_buffer \<rparr>))))"
proof -
  let ?s = "line_waiting\<lparr> io_readBuffer := line_buffer \<rparr>"
  have "prefix (io_trace ?s @ [DataRead ([97] @ bytes_of_string newline)])
      (io_trace (snd (readFromBuffer line_env ?s)))"
  proof (rule readUntil_exact [where y = "[98, 10]"])
    show "mb_content (io_readBuffer ?s) = [97] @ bytes_of_string newline @ [98, 10]"
      using line_buffer_facts(2) by (simp add: two_lines_def newline_def bytes_of_string_def byte_of_char_def)
    show "\<forall>k<length [97 :: byte]. take (length newline) (drop k (mb_content (io_readBuffer ?s)))
        \<noteq> bytes_of_string newline"
      using line_buffer_facts(2)
      by (simp add: two_lines_def newline_def bytes_of_string_def byte_of_char_def)
  qed (use line_buffer_facts(1) in \<open>auto simp: line_waiting_def newIOStream_def reads_ok_def one_pending_def\<close>)
  then show ?thesis
    by (simp add: line_waiting_def newline_def bytes_of_string_def byte_of_char_def)
qed

lemma stream_ends_at_limit_witness:
  "io_dataReceived line_env (replicate 5001 0) (newIOStream 5000) = io_close (Some StreamBufferFullError)
     ((newIOStream 5000)\<lparr> io_readBuffer := mb_append (replicate 5001 0) newMessageBuffer \<rparr>)"
  using stream_ends_at_limit [OF line_ready io_start, of 5000 "replicate 5001 0"]
  by (simp add: newIOStream_def stream_failed_def)

section \<open>A pattern with an anchor\<close>

text \<open>
  The pattern \<open>^a\<close>, asked for in \<open>onDataRead\<close> of the octet before the \<open>a\<close>. \<open>tryInlineRead\<close>
  still sees that octet, which \<open>readCompleted\<close> takes away only afterwards: no callback is given
  to the reactor, and the read waits although the buffer answers it.
\<close>

definition anchored_env :: io_env where
  "anchored_env = \<lparr> ie_regex_ok = (\<lambda>r. True),
     ie_regex_search = (\<lambda>r w. if w \<noteq> [] \<and> hd w = 97 then Some (0, 1) else None),
     ie_client = (\<lambda>tr. case rev tr of
         Connected # _ \<Rightarrow> [CallReadBytes 1]
       | DataRead _ # _ \<Rightarrow> [CallReadUntilRegex ''^a'' 0]
       | _ \<Rightarrow> []) \<rparr>"

lemma anchored_client [simp]:
  "ie_client anchored_env [Connected] = [CallReadBytes 1]"
  "ie_client anchored_env [Connected, DataRead d] = [CallReadUntilRegex ''^a'' 0]"
  "ie_regex_ok anchored_env r"
  "ie_regex_search anchored_env r w = (if w \<noteq> [] \<and> hd w = 97 then Some (0, 1) else None)"
  by (simp_all add: anchored_env_def)

definition anchored_buffer :: message_buffer where
  "anchored_buffer = mb_append [98, 97] newMessageBuffer"

lemma anchored_buffer_facts:
  "mb_ok anchored_buffer" "mb_content anchored_buffer = [98, 97]" "getBufferSize anchored_buffer = 4096"
  "getActiveSize anchored_buffer = 2" "mb_read 2 anchored_buffer = [98, 97]" "mb_read 1 anchored_buffer = [98]"
  "\<not> length (mb_storage anchored_buffer) < Suc (mb_rpos anchored_buffer)"
proof -
  show ok: "mb_ok anchored_buffer" "mb_content anchored_buffer = [98, 97]"
    using mb.put_ok mb.content_put newMessageBuffer_ok by (simp_all add: anchored_buffer_def)
  show "getActiveSize anchored_buffer = 2" using mb_sizes(1) [OF ok(1)] ok(2) by simp
  show "mb_read 2 anchored_buffer = [98, 97]" "mb_read 1 anchored_buffer = [98]"
    using mb_read_content [OF ok(1)] ok(2) by simp_all
  show "getBufferSize anchored_buffer = 4096" "\<not> length (mb_storage anchored_buffer) < Suc (mb_rpos anchored_buffer)"
    by (simp_all add: anchored_buffer_def newMessageBuffer_def mb_append_def mb_write_def
        ensureFreeSpaceFor_def getRemainingSpace_def mb_copy_def writeCompleted_def getBufferSize_def)
qed

definition anchored_waiting :: io_stream where
  "anchored_waiting = (newIOStream 0)\<lparr> io_readBytes := Some 1, io_trace := [Connected] \<rparr>"

definition anchored_lost :: io_stream where
  "anchored_lost = anchored_waiting\<lparr> io_readBytes := None, io_readRegex := Some ''^a'',
     io_readBuffer := readCompleted 1 anchored_buffer, io_trace := [Connected, DataRead [98]] \<rparr>"

lemma anchored_steps:
  "io_step anchored_env MakeConnection (newIOStream 0) = (Inr (), anchored_waiting)"
  "io_step anchored_env (Received [98, 97]) anchored_waiting = (Inr (), anchored_lost)"
proof -
  have empty: "getActiveSize newMessageBuffer = 0" by (simp add: newMessageBuffer_def getActiveSize_def)
  show "io_step anchored_env MakeConnection (newIOStream 0) = (Inr (), anchored_waiting)"
    by (simp add: io_connectionMade_def callback_def traceM_def writeDone_def readBytes_def assert_idle_def
        reading_def tryInlineRead_def findReadPos_def runs bindM_unit newIOStream_def anchored_waiting_def empty)
  have ok: "mb_ok (io_readBuffer anchored_waiting)" by (simp add: anchored_waiting_def newIOStream_def)
  show "io_step anchored_env (Received [98, 97]) anchored_waiting = (Inr (), anchored_lost)"
    unfolding io_step.simps io_dataReceived_run [OF ok]
    by (simp add: after_put_def tryM_def readFromBuffer_def runs bindM_unit anchored_waiting_def newIOStream_def
        anchored_buffer_def [symmetric] anchored_buffer_facts anchored_buffer_facts(6) [unfolded One_nat_def]
        DEFAULT_MAX_BUFFER_SIZE_def deliver_data_def callback_def traceM_def readUntilRegex_def assert_idle_def
        reading_def set_max_def tryInlineRead_def findReadPos_def io_window_def anchored_lost_def)
qed

lemma anchored_wakeup_lost:
  "io_reach anchored_env 0 [98, 97] anchored_lost" "\<not> stream_failed anchored_lost"
  "findReadPos anchored_env anchored_lost" "io_callbacks anchored_lost = 0"
proof -
  show "io_reach anchored_env 0 [98, 97] anchored_lost"
    using io_next [OF io_next [OF io_start _ anchored_steps(1)] _ anchored_steps(2)] by simp
  have "mb_ok (io_readBuffer anchored_lost)" "mb_content (io_readBuffer anchored_lost) = [97]"
    using readCompleted_ok [OF anchored_buffer_facts(1), of 1] anchored_buffer_facts(2)
    by (simp_all add: anchored_lost_def)
  then have "io_window anchored_lost = [97]" by (simp add: io_window_content)
  then show "findReadPos anchored_env anchored_lost"
    by (simp add: findReadPos_def anchored_lost_def anchored_waiting_def newIOStream_def)
qed (simp_all add: anchored_lost_def anchored_waiting_def newIOStream_def stream_failed_def)

end
