(* ===== verification/Tcp_Connection.thy ===== *)
theory Tcp_Connection
  imports Message_Buffer
begin

text \<open>
  \<open>TCPConnection\<close>, \<open>TCPServerConnection\<close> and \<open>TCPClientConnection\<close> of \<open>core/network/tcp.h\<close> and
  \<open>tcp.cpp\<close>, with what they inherit from \<open>Connection\<close> of \<open>core/network/base.h\<close> and \<open>base.cpp\<close>.

  The protocol and its producer are a function from the trace to the calls made in the callback
  that is the last event of the trace. Such calls re-enter the connection: the operations take
  the executor \<open>X\<close> of nested calls, and \<open>tcp_exec n\<close> allows \<open>n\<close> nested calls before the stack is
  exhausted, which is an error. The socket is the outcome of \<open>write_some\<close>, a function of the trace,
  and the completion of the asynchronous operations, which are steps. Functions given to the
  reactor are kept in order. \<open>front()\<close> of an empty queue is undefined. The code is that of a
  system without \<open>BOOST_ASIO_HAS_IOCP\<close>. Assertions are those of a build without \<open>NDEBUG\<close>;
  where it is defined, as in the default build type, a failed one is passed over, so what is said here
  holds of the runs in which none fails.
\<close>

section \<open>State\<close>

datatype conn_error = ConnectionDone | ConnectionAbort | SystemError nat

datatype tcp_exn = UndefinedBehaviour | AssertionFailed | StackExhausted | OutOfFuel | ProtocolError string

datatype socket_error = OperationAborted | EndOfFile | WouldBlock | SocketFailure nat

datatype write_outcome = Sent nat | NotSent socket_error

datatype tcp_event =
    ConnectionMade
  | DataReceived bytes
  | ConnectionLost "conn_error option"
  | ConnectorLost "conn_error option"
  | ResumeProducing
  | PauseProducing
  | StopProducing
  | Accepted bytes
  | SocketWrote bytes
  | WriteFailed socket_error
  | ReadFailed socket_error
  | AbortRequested

datatype tcp_call =
    CallWriteData bytes
  | CallLoseConnection
  | CallAbortConnection
  | CallRegisterProducer bool
  | CallUnregisterProducer
  | CallRaise string

datatype tcp_callback = CloseSocketCallback | ProducingCallback

record tcp_env =
  te_isClient :: bool
  te_client :: "tcp_event list \<Rightarrow> tcp_call list"
  te_write_some :: "tcp_event list \<Rightarrow> bytes \<Rightarrow> write_outcome"

record tcp_conn =
  tc_readBuffer :: message_buffer
  tc_writeQueue :: "message_buffer list"
  tc_writeBufferSize :: nat
  tc_reading :: bool
  tc_writing :: bool
  tc_connected :: bool
  tc_disconnected :: bool
  tc_disconnecting :: bool
  tc_aborting :: bool
  tc_producerPaused :: bool
  tc_streamingProducer :: bool
  tc_producer :: bool
  tc_error :: "conn_error option"
  tc_pendingProducing :: bool
  tc_socketOpen :: bool
  tc_callbacks :: "tcp_callback list"
  tc_trace :: "tcp_event list"

type_synonym 'a tcp_prog = "(tcp_exn, tcp_conn, 'a) prog"

definition newTCPConnection :: tcp_conn where
  "newTCPConnection =
     \<lparr> tc_readBuffer = newMessageBuffer, tc_writeQueue = [], tc_writeBufferSize = 65536,
       tc_reading = False, tc_writing = False, tc_connected = False, tc_disconnected = False,
       tc_disconnecting = False, tc_aborting = False, tc_producerPaused = False,
       tc_streamingProducer = False, tc_producer = False, tc_error = None,
       tc_pendingProducing = False, tc_socketOpen = True, tc_callbacks = [], tc_trace = [] \<rparr>"

definition tcp_closed :: "tcp_conn \<Rightarrow> bool" where
  "tcp_closed s \<longleftrightarrow> tc_disconnecting s \<or> tc_disconnected s \<or> \<not> tc_connected s"

definition tcp_traceM :: "tcp_event \<Rightarrow> unit tcp_prog" where
  "tcp_traceM e = modifyM (\<lambda>s. s\<lparr> tc_trace := tc_trace s @ [e] \<rparr>)"

definition addCallback :: "tcp_callback \<Rightarrow> unit tcp_prog" where
  "addCallback c = modifyM (\<lambda>s. s\<lparr> tc_callbacks := tc_callbacks s @ [c] \<rparr>)"

text \<open>A virtual call of the protocol or of its producer, and the calls made in it.\<close>

definition notify :: "(tcp_call \<Rightarrow> unit tcp_prog) \<Rightarrow> tcp_env \<Rightarrow> tcp_event \<Rightarrow> unit tcp_prog" where
  "notify X E e = doM [tcp_traceM e, withM (\<lambda>s. doM (List.map X (te_client E (tc_trace s))))]"

section \<open>The queue of packets\<close>

definition new_packet :: "bytes \<Rightarrow> message_buffer" where
  "new_packet data = mb_copy data (newMessageBufferSize (length data))"

definition queue_put :: "bytes \<Rightarrow> message_buffer list \<Rightarrow> message_buffer list" where
  "queue_put data q = q @ [new_packet data]"

definition queue_size :: "message_buffer list \<Rightarrow> nat" where
  "queue_size q = sum_list (List.map getActiveSize q)"

section \<open>Closing\<close>

definition doClose :: "unit tcp_prog" where
  "doClose = withM (\<lambda>s.
     if \<not> tc_writing s \<and> \<not> tc_reading s then addCallback CloseSocketCallback
     else if \<not> tc_writing s then modifyM (\<lambda>s. s\<lparr> tc_socketOpen := False \<rparr>)
     else doM [])"

definition doAbort :: "unit tcp_prog" where
  "doAbort = withM (\<lambda>s.
     if \<not> tc_writing s \<and> \<not> tc_reading s then addCallback CloseSocketCallback
     else modifyM (\<lambda>s. s\<lparr> tc_socketOpen := False \<rparr>))"

definition tcp_loseConnection :: "unit tcp_prog" where
  "tcp_loseConnection = withM (\<lambda>s. if tcp_closed s then doM [] else doM [
     modifyM (\<lambda>s. s\<lparr> tc_error := Some ConnectionDone, tc_disconnecting := True \<rparr>),
     doClose])"

definition tcp_abortConnection :: "unit tcp_prog" where
  "tcp_abortConnection = withM (\<lambda>s. if tcp_closed s then doM [] else doM [
     tcp_traceM AbortRequested,
     modifyM (\<lambda>s. s\<lparr> tc_error := Some ConnectionAbort, tc_disconnecting := True, tc_aborting := True \<rparr>),
     doAbort])"

definition stop_producer :: "(tcp_call \<Rightarrow> unit tcp_prog) \<Rightarrow> tcp_env \<Rightarrow> unit tcp_prog" where
  "stop_producer X E = withM (\<lambda>s. whenM (tc_producer s) (doM [
     notify X E StopProducing,
     modifyM (\<lambda>s. s\<lparr> tc_producer := False \<rparr>)]))"

definition connectionLost_base ::
  "(tcp_call \<Rightarrow> unit tcp_prog) \<Rightarrow> tcp_env \<Rightarrow> conn_error option \<Rightarrow> unit tcp_prog" where
  "connectionLost_base X E reason = doM [stop_producer X E, notify X E (ConnectionLost reason)]"

definition tell_connector :: "tcp_env \<Rightarrow> unit tcp_prog" where
  "tell_connector E = whenM (te_isClient E) (withM (\<lambda>s. tcp_traceM (ConnectorLost (tc_error s))))"

definition closeSocket :: "(tcp_call \<Rightarrow> unit tcp_prog) \<Rightarrow> tcp_env \<Rightarrow> unit tcp_prog" where
  "closeSocket X E = doM [
     modifyM (\<lambda>s. s\<lparr> tc_connected := False, tc_disconnected := True, tc_disconnecting := False,
       tc_aborting := False, tc_socketOpen := False \<rparr>),
     withM (\<lambda>s. connectionLost_base X E (tc_error s)),
     tell_connector E]"

section \<open>Writing\<close>

definition producer_waits :: "tcp_conn \<Rightarrow> bool" where
  "producer_waits s \<longleftrightarrow> tc_producer s \<and> (\<not> tc_streamingProducer s \<or> tc_producerPaused s)"

text \<open>
  The loop of \<open>doWrite\<close>; it returns whether the rest is left to an asynchronous write. A
  closed socket is a bad descriptor (number 9).
\<close>

definition socket_write :: "tcp_env \<Rightarrow> tcp_conn \<Rightarrow> bytes \<Rightarrow> write_outcome" where
  "socket_write E s data =
     (if tc_socketOpen s then te_write_some E (tc_trace s) data else NotSent (SocketFailure 9))"

definition queue_emptied :: "unit tcp_prog" where
  "queue_emptied = withM (\<lambda>s. whenM (producer_waits s \<and> \<not> tc_pendingProducing s) (doM [
     modifyM (\<lambda>s. s\<lparr> tc_pendingProducing := True \<rparr>),
     addCallback ProducingCallback]))"

fun write_loop :: "tcp_env \<Rightarrow> nat \<Rightarrow> bool tcp_prog" where
  "write_loop E 0 = throwM OutOfFuel"
| "write_loop E (Suc n) = withM (\<lambda>s. case tc_writeQueue s of
      [] \<Rightarrow> throwM UndefinedBehaviour
    | b # rest \<Rightarrow>
      let bytesToSend = getActiveSize b; data = mb_read bytesToSend b in
      (case socket_write E s data of
         NotSent ec \<Rightarrow>
           if ec = WouldBlock then returnM True
           else retM [
             tcp_traceM (WriteFailed ec),
             modifyM (\<lambda>s. s\<lparr> tc_error := Some (SystemError (case ec of SocketFailure k \<Rightarrow> k | _ \<Rightarrow> 0)),
               tc_disconnecting := True \<rparr>),
             doClose] False
       | Sent bytesSent \<Rightarrow>
           if bytesSent = 0 then retM [
             modifyM (\<lambda>s. s\<lparr> tc_disconnecting := True \<rparr>), doClose] False
           else if bytesSent < bytesToSend then retM [
             tcp_traceM (SocketWrote (take bytesSent data)),
             modifyM (\<lambda>s. s\<lparr> tc_writeQueue := readCompleted bytesSent b # rest \<rparr>)] True
           else thenM [
             tcp_traceM (SocketWrote data),
             modifyM (\<lambda>s. s\<lparr> tc_writeQueue := rest \<rparr>)]
             (if rest = [] then retM [queue_emptied] False else write_loop E n)))"

definition doWrite :: "tcp_env \<Rightarrow> unit tcp_prog" where
  "doWrite E = withM (\<lambda>s. bindM (write_loop E (length (tc_writeQueue s) + 1)) (\<lambda>async.
     whenM async (modifyM (\<lambda>s. s\<lparr> tc_writing := True \<rparr>))))"

definition startWriting :: "tcp_env \<Rightarrow> unit tcp_prog" where
  "startWriting E = withM (\<lambda>s. whenM (\<not> tc_writing s) (doWrite E))"

definition tcp_write :: "(tcp_call \<Rightarrow> unit tcp_prog) \<Rightarrow> tcp_env \<Rightarrow> bytes \<Rightarrow> unit tcp_prog" where
  "tcp_write X E data = withM (\<lambda>s. if tcp_closed s \<or> data = [] then doM [] else doM [
     tcp_traceM (Accepted data),
     modifyM (\<lambda>s. s\<lparr> tc_writeQueue := queue_put data (tc_writeQueue s) \<rparr>),
     withM (\<lambda>s. whenM (tc_producer s \<and> tc_streamingProducer s
         \<and> queue_size (tc_writeQueue s) > tc_writeBufferSize s) (doM [
       modifyM (\<lambda>s. s\<lparr> tc_producerPaused := True \<rparr>),
       notify X E PauseProducing])),
     startWriting E])"

definition tcp_writeDone :: "(tcp_call \<Rightarrow> unit tcp_prog) \<Rightarrow> tcp_env \<Rightarrow> unit tcp_prog" where
  "tcp_writeDone X E = withM (\<lambda>s. whenM (producer_waits s) (doM [
     modifyM (\<lambda>s. s\<lparr> tc_producerPaused := True \<rparr>),
     notify X E ResumeProducing]))"

definition handleWrite ::
  "(tcp_call \<Rightarrow> unit tcp_prog) \<Rightarrow> tcp_env \<Rightarrow> write_outcome \<Rightarrow> unit tcp_prog" where
  "handleWrite X E res = (case res of
      NotSent ec \<Rightarrow> doM [
        tcp_traceM (WriteFailed ec),
        withM (\<lambda>s. whenM (\<not> tc_disconnected s) (doM [
          (if ec = OperationAborted then
             (if tc_error s = None then throwM AssertionFailed else doM [])
           else modifyM (\<lambda>s. s\<lparr> tc_error := Some (SystemError (case ec of SocketFailure k \<Rightarrow> k | _ \<Rightarrow> 0)) \<rparr>)),
          closeSocket X E]))]
    | Sent n \<Rightarrow> doM [
        whenM (n > 0) (withM (\<lambda>s. case tc_writeQueue s of
            [] \<Rightarrow> throwM UndefinedBehaviour
          | b # rest \<Rightarrow> doM [
              tcp_traceM (SocketWrote (mb_read n b)),
              modifyM (\<lambda>s. s\<lparr> tc_writeQueue :=
                (if getActiveSize (readCompleted n b) = 0 then rest else readCompleted n b # rest) \<rparr>)])),
        withM (\<lambda>s. whenM (tc_disconnecting s \<and> tc_writeQueue s = [] \<or> tc_aborting s)
          (closeSocket X E))])"

definition cbWrite ::
  "(tcp_call \<Rightarrow> unit tcp_prog) \<Rightarrow> tcp_env \<Rightarrow> write_outcome \<Rightarrow> unit tcp_prog" where
  "cbWrite X E res = doM [
     modifyM (\<lambda>s. s\<lparr> tc_writing := False \<rparr>),
     handleWrite X E res,
     withM (\<lambda>s. whenM (\<not> tc_aborting s \<and> \<not> tc_disconnected s)
       (if tc_writeQueue s \<noteq> [] then doWrite E else tcp_writeDone X E))]"

section \<open>Reading\<close>

definition doRead :: "unit tcp_prog" where
  "doRead = modifyM (\<lambda>s. s\<lparr> tc_readBuffer := ensureFreeSpace (normalize (tc_readBuffer s)),
     tc_reading := True \<rparr>)"

definition startReading :: "unit tcp_prog" where
  "startReading = withM (\<lambda>s. whenM (\<not> tc_reading s) doRead)"

text \<open>A read that succeeds has put its octets where \<open>getWritePointer()\<close> pointed.\<close>

definition handleRead ::
  "(tcp_call \<Rightarrow> unit tcp_prog) \<Rightarrow> tcp_env \<Rightarrow> socket_error + bytes \<Rightarrow> unit tcp_prog" where
  "handleRead X E res = (case res of
      Inl ec \<Rightarrow> doM [
        tcp_traceM (ReadFailed ec),
        withM (\<lambda>s. whenM (\<not> tc_disconnected s) (doM [
          (if ec = OperationAborted then
             (if tc_error s = None then throwM AssertionFailed else doM [])
           else modifyM (\<lambda>s. s\<lparr> tc_error := Some (case ec of
               EndOfFile \<Rightarrow> ConnectionDone | SocketFailure k \<Rightarrow> SystemError k | _ \<Rightarrow> SystemError 0) \<rparr>)),
          closeSocket X E]))]
    | Inr data \<Rightarrow> doM [
        modifyM (\<lambda>s. s\<lparr> tc_readBuffer := mb_copy data (tc_readBuffer s) \<rparr>),
        withM (\<lambda>s. whenM (\<not> tc_disconnecting s) (doM [
          notify X E (DataReceived (mb_read (getActiveSize (tc_readBuffer s)) (tc_readBuffer s))),
          modifyM (\<lambda>s. s\<lparr> tc_readBuffer :=
            readCompleted (getActiveSize (tc_readBuffer s)) (tc_readBuffer s) \<rparr>)]))])"

definition cbRead ::
  "(tcp_call \<Rightarrow> unit tcp_prog) \<Rightarrow> tcp_env \<Rightarrow> socket_error + bytes \<Rightarrow> unit tcp_prog" where
  "cbRead X E res = doM [
     modifyM (\<lambda>s. s\<lparr> tc_reading := False \<rparr>),
     handleRead X E res,
     withM (\<lambda>s. whenM (\<not> tc_disconnecting s \<and> \<not> tc_disconnected s) doRead)]"

section \<open>Producers, connecting and the reactor\<close>

definition tcp_registerProducer ::
  "(tcp_call \<Rightarrow> unit tcp_prog) \<Rightarrow> tcp_env \<Rightarrow> bool \<Rightarrow> unit tcp_prog" where
  "tcp_registerProducer X E streaming = withM (\<lambda>s.
     if tc_producer s then throwM AssertionFailed
     else if tc_disconnected s then notify X E StopProducing
     else doM [
       modifyM (\<lambda>s. s\<lparr> tc_producer := True, tc_streamingProducer := streaming \<rparr>),
       whenM (\<not> streaming) (notify X E ResumeProducing)])"

definition tcp_unregisterProducer :: "unit tcp_prog" where
  "tcp_unregisterProducer = modifyM (\<lambda>s. s\<lparr> tc_producer := False \<rparr>)"

text \<open>\<open>cbAccept\<close> of the server and \<open>cbConnect\<close> of the client.\<close>

definition cbConnected :: "(tcp_call \<Rightarrow> unit tcp_prog) \<Rightarrow> tcp_env \<Rightarrow> unit tcp_prog" where
  "cbConnected X E = doM [
     modifyM (\<lambda>s. s\<lparr> tc_connected := True \<rparr>),
     notify X E ConnectionMade,
     withM (\<lambda>s. whenM (\<not> tc_disconnecting s) startReading)]"

definition run_callback ::
  "(tcp_call \<Rightarrow> unit tcp_prog) \<Rightarrow> tcp_env \<Rightarrow> tcp_callback \<Rightarrow> unit tcp_prog" where
  "run_callback X E c = (case c of
      CloseSocketCallback \<Rightarrow> withM (\<lambda>s. whenM (\<not> tc_disconnected s) (closeSocket X E))
    | ProducingCallback \<Rightarrow> doM [
        modifyM (\<lambda>s. s\<lparr> tc_pendingProducing := False \<rparr>),
        withM (\<lambda>s. whenM (\<not> tc_aborting s \<and> \<not> tc_disconnected s \<and> tc_writeQueue s = [])
          (tcp_writeDone X E))])"

fun tcp_exec :: "tcp_env \<Rightarrow> nat \<Rightarrow> tcp_call \<Rightarrow> unit tcp_prog" where
  "tcp_exec E 0 c = throwM StackExhausted"
| "tcp_exec E (Suc n) c = (case c of
      CallWriteData data \<Rightarrow> tcp_write (tcp_exec E n) E data
    | CallLoseConnection \<Rightarrow> tcp_loseConnection
    | CallAbortConnection \<Rightarrow> tcp_abortConnection
    | CallRegisterProducer streaming \<Rightarrow> tcp_registerProducer (tcp_exec E n) E streaming
    | CallUnregisterProducer \<Rightarrow> tcp_unregisterProducer
    | CallRaise m \<Rightarrow> throwM (ProtocolError m))"

section \<open>Steps\<close>

datatype tcp_input =
    Connect
  | ReadDone "socket_error + bytes"
  | WriteDone write_outcome
  | RunReactor
  | Call tcp_call

fun tcp_step :: "tcp_env \<Rightarrow> nat \<Rightarrow> tcp_input \<Rightarrow> unit tcp_prog" where
  "tcp_step E n Connect = cbConnected (tcp_exec E n) E"
| "tcp_step E n (ReadDone res) = cbRead (tcp_exec E n) E res"
| "tcp_step E n (WriteDone res) = cbWrite (tcp_exec E n) E res"
| "tcp_step E n RunReactor = withM (\<lambda>s. case tc_callbacks s of
      [] \<Rightarrow> doM []
    | c # cs \<Rightarrow> doM [
        modifyM (\<lambda>s. s\<lparr> tc_callbacks := cs \<rparr>), run_callback (tcp_exec E n) E c])"
| "tcp_step E n (Call c) = tcp_exec E n c"

text \<open>
  When a step can happen: a connection is made once, and the protocol knows it from then on; an operation completes when one was
  started, it transfers no more than the buffer it was given, and it is cancelled only
  when the socket was closed.
\<close>

fun tcp_enabled :: "tcp_input \<Rightarrow> tcp_conn \<Rightarrow> bool" where
  "tcp_enabled Connect s \<longleftrightarrow> ConnectionMade \<notin> set (tc_trace s)"
| "tcp_enabled (ReadDone res) s \<longleftrightarrow> tc_reading s \<and> (case res of
      Inr data \<Rightarrow> length data \<le> getRemainingSpace (tc_readBuffer s)
    | Inl ec \<Rightarrow> ec = OperationAborted \<longrightarrow> \<not> tc_socketOpen s)"
| "tcp_enabled (WriteDone res) s \<longleftrightarrow> tc_writing s \<and> (case res of
      Sent n \<Rightarrow> (case tc_writeQueue s of [] \<Rightarrow> False | b # _ \<Rightarrow> n \<le> getActiveSize b)
    | NotSent ec \<Rightarrow> ec = OperationAborted \<longrightarrow> \<not> tc_socketOpen s)"
| "tcp_enabled RunReactor s \<longleftrightarrow> tc_callbacks s \<noteq> []"
| "tcp_enabled (Call c) s \<longleftrightarrow> ConnectionMade \<in> set (tc_trace s)"

text \<open>
  Runs: steps that return. A run is followed up to a step that an exception leaves, be it one of a
  callback of the protocol, a failed assertion or undefined behaviour. \<open>Reactor::run\<close> logs an exception of
  the protocol and goes on with the same connections; what they do after that is not covered.
\<close>

inductive tcp_reach :: "tcp_env \<Rightarrow> tcp_conn \<Rightarrow> tcp_conn \<Rightarrow> bool" for E s0 where
  tcp_start: "tcp_reach E s0 s0"
| tcp_next: "tcp_reach E s0 s \<Longrightarrow> tcp_enabled i s \<Longrightarrow> tcp_step E n i s = (Inr (), t) \<Longrightarrow>
    tcp_reach E s0 t"

end
