(* ===== verification/Tcp_Props.thy ===== *)
theory Tcp_Props
  imports Tcp_Connection
begin

text \<open>
  What a TCP connection promises: the octets written to the socket are the accepted octets in
  their order, \<open>connectionLost\<close> comes at most once, a read never lacks room, and a close that
  nothing disturbs comes after everything accepted was written.
\<close>

section \<open>The packet queue is a queue of octets\<close>

definition queue_ok :: "message_buffer list \<Rightarrow> bool" where
  "queue_ok q \<longleftrightarrow> list_all mb_ok q"

definition queue_content :: "message_buffer list \<Rightarrow> bytes" where
  "queue_content q = concat (List.map mb_content q)"

fun queue_consume :: "nat \<Rightarrow> message_buffer list \<Rightarrow> message_buffer list" where
  "queue_consume n [] = []"
| "queue_consume n (b # q) =
     (if n < length (mb_content b) then readCompleted n b # q
      else if n = length (mb_content b) then q
      else queue_consume (n - length (mb_content b)) q)"

lemma new_packet_ok: "mb_ok (new_packet data)" "mb_content (new_packet data) = data"
  using mb_copy_ok [OF newMessageBuffer_ok(3), of "length data" data]
  by (simp_all add: new_packet_def newMessageBufferSize_def mb_content_def mb_read_def)

interpretation wq: byte_queue queue_ok queue_content queue_put queue_consume
proof
  fix q :: "message_buffer list" and xs :: bytes and n
  assume ok: "queue_ok q"
  then show "queue_ok (queue_put xs q)" "queue_content (queue_put xs q) = queue_content q @ xs"
    by (simp_all add: queue_ok_def queue_put_def queue_content_def new_packet_ok)
  assume n: "n \<le> length (queue_content q)"
  from ok n show "queue_ok (queue_consume n q)"
    by (induction q arbitrary: n) (auto simp: queue_ok_def queue_content_def readCompleted_ok)
  from ok n show "queue_content (queue_consume n q) = drop n (queue_content q)"
    by (induction q arbitrary: n) (auto simp: queue_ok_def queue_content_def readCompleted_ok)
qed

lemma queue_pop: "queue_consume (length (mb_content b)) (b # q) = q"
  by simp

section \<open>What has been accepted, sent and reported\<close>

definition sent :: "tcp_conn \<Rightarrow> bytes" where
  "sent s = concat (List.map (\<lambda>e. case e of SocketWrote d \<Rightarrow> d | _ \<Rightarrow> []) (tc_trace s))"

definition accepted :: "tcp_conn \<Rightarrow> bytes" where
  "accepted s = concat (List.map (\<lambda>e. case e of Accepted d \<Rightarrow> d | _ \<Rightarrow> []) (tc_trace s))"

definition lost_reports :: "tcp_conn \<Rightarrow> nat" where
  "lost_reports s = length (filter (\<lambda>e. case e of ConnectionLost _ \<Rightarrow> True | _ \<Rightarrow> False) (tc_trace s))"

definition fifo_ok :: "tcp_conn \<Rightarrow> bool" where
  "fifo_ok s \<longleftrightarrow> queue_ok (tc_writeQueue s) \<and> sent s @ queue_content (tc_writeQueue s) = accepted s"

lemma trace_measures [simp]:
  "sent (s\<lparr> tc_trace := tr \<rparr>) = concat (List.map (\<lambda>e. case e of SocketWrote d \<Rightarrow> d | _ \<Rightarrow> []) tr)"
  "accepted (s\<lparr> tc_trace := tr \<rparr>) = concat (List.map (\<lambda>e. case e of Accepted d \<Rightarrow> d | _ \<Rightarrow> []) tr)"
  "lost_reports (s\<lparr> tc_trace := tr \<rparr>) =
     length (filter (\<lambda>e. case e of ConnectionLost _ \<Rightarrow> True | _ \<Rightarrow> False) tr)"
  by (simp_all add: sent_def accepted_def lost_reports_def)

lemmas measure_defs = sent_def accepted_def lost_reports_def fifo_ok_def

section \<open>What calls of the protocol leave alone\<close>

definition frame :: "tcp_conn \<Rightarrow> tcp_conn \<Rightarrow> bool" where
  "frame s t \<longleftrightarrow> tc_readBuffer t = tc_readBuffer s \<and> tc_reading t = tc_reading s
     \<and> tc_disconnected t = tc_disconnected s \<and> tc_connected t = tc_connected s
     \<and> lost_reports t = lost_reports s \<and> prefix (tc_trace s) (tc_trace t)
     \<and> (tc_disconnecting s \<longrightarrow> tc_disconnecting t) \<and> (tc_aborting s \<longrightarrow> tc_aborting t)
     \<and> (fifo_ok s \<longrightarrow> fifo_ok t)"

text \<open>\<open>alive_rel\<close> is for what runs only while the connection is not lost.\<close>

definition alive_rel :: "tcp_conn \<Rightarrow> tcp_conn \<Rightarrow> bool" where
  "alive_rel s t \<longleftrightarrow> (\<not> tc_disconnected s \<longrightarrow> frame s t)"

definition nested_rel :: "tcp_conn \<Rightarrow> tcp_conn \<Rightarrow> bool" where
  "nested_rel s t \<longleftrightarrow> frame s t \<and> (tc_disconnected s \<longrightarrow>
     tc_disconnecting t = tc_disconnecting s \<and> tc_aborting t = tc_aborting s)"

lemma frame_refl: "frame s s"
  by (simp add: frame_def)

lemma frame_trans: "frame s t \<Longrightarrow> frame t u \<Longrightarrow> frame s u"
  unfolding frame_def by (elim conjE, intro conjI) (auto intro: prefix_order.trans)

lemma frame_disconnected: "frame s t \<Longrightarrow> tc_disconnected t = tc_disconnected s"
  by (simp add: frame_def)

interpretation ar: state_rel alive_rel
proof
  fix s t u
  show "alive_rel s s" by (simp add: alive_rel_def frame_refl)
  assume "alive_rel s t" "alive_rel t u"
  then show "alive_rel s u" unfolding alive_rel_def using frame_trans frame_disconnected by blast
qed

interpretation nr: state_rel nested_rel
proof
  fix s t u
  show "nested_rel s s" by (simp add: nested_rel_def frame_refl)
  assume "nested_rel s t" "nested_rel t u"
  then show "nested_rel s u"
    unfolding nested_rel_def using frame_trans [of s t u] frame_disconnected [of s t] by simp
qed

lemma nested_alive: "evolves nested_rel m \<Longrightarrow> evolves alive_rel m"
  by (erule evolves_mono) (simp add: nested_rel_def alive_rel_def)

definition plain_event :: "tcp_event \<Rightarrow> bool" where
  "plain_event e = (case e of ConnectionLost _ \<Rightarrow> False | Accepted _ \<Rightarrow> False | SocketWrote _ \<Rightarrow> False | _ \<Rightarrow> True)"

lemma nested_modifyM:
  assumes "\<And>s. tc_readBuffer (f s) = tc_readBuffer s \<and> tc_reading (f s) = tc_reading s
      \<and> tc_disconnected (f s) = tc_disconnected s \<and> tc_connected (f s) = tc_connected s
      \<and> tc_trace (f s) = tc_trace s \<and> tc_disconnecting (f s) = tc_disconnecting s
      \<and> tc_aborting (f s) = tc_aborting s \<and> tc_writeQueue (f s) = tc_writeQueue s"
  shows "evolves nested_rel (modifyM f)"
  using assms by (intro nr.ev_modifyM) (simp add: nested_rel_def frame_def measure_defs)

lemma nested_traceM: "plain_event e \<Longrightarrow> evolves nested_rel (tcp_traceM e)"
  unfolding tcp_traceM_def
  by (intro nr.ev_modifyM)
     (cases e; simp add: nested_rel_def frame_def measure_defs plain_event_def)

lemma nested_addCallback: "evolves nested_rel (addCallback c)"
  unfolding addCallback_def by (intro nested_modifyM) simp

lemma nested_notify:
  assumes "\<And>c. evolves nested_rel (X c)" and "plain_event e"
  shows "evolves nested_rel (notify X E e)"
  unfolding notify_def using assms
  by (intro nr.ev_rules nested_traceM nr.ev_doM) (simp_all add: list_all_iff)

lemma nested_doClose: "evolves nested_rel doClose"
  unfolding doClose_def by (intro nr.ev_rules nested_addCallback nested_modifyM) simp

lemma nested_doAbort: "evolves nested_rel doAbort"
  unfolding doAbort_def by (intro nr.ev_rules nested_addCallback nested_modifyM) simp

lemma nested_queue_emptied: "evolves nested_rel queue_emptied"
  unfolding queue_emptied_def by (intro nr.ev_rules nested_addCallback nested_modifyM) simp

lemma alive_modifyM:
  "(\<And>s. \<not> tc_disconnected s \<Longrightarrow> frame s (f s)) \<Longrightarrow> evolves alive_rel (modifyM f)"
  by (intro ar.ev_modifyM) (simp add: alive_rel_def)

lemma nested_guarded:
  assumes "evolves alive_rel m"
  shows "evolves nested_rel (withM (\<lambda>s. if tcp_closed s \<or> b then doM [] else m))"
proof (rule nr.ev_withM)
  fix s
  show "nested_rel s (snd ((if tcp_closed s \<or> b then doM [] else m) s))"
    using evolvesD [OF assms, of s]
    by (auto simp: alive_rel_def nested_rel_def tcp_closed_def frame_refl run_simps(1))
qed

lemmas nested_guarded_call = nested_guarded [where b = False, unfolded simp_thms]

lemma nested_lose: "evolves nested_rel tcp_loseConnection"
  unfolding tcp_loseConnection_def
  by (intro nested_guarded_call ar.ev_rules alive_modifyM nested_alive [OF nested_doClose])
     (simp add: frame_def measure_defs)

lemma nested_abort: "evolves nested_rel tcp_abortConnection"
  unfolding tcp_abortConnection_def
  by (intro nested_guarded_call ar.ev_rules alive_modifyM nested_alive [OF nested_doAbort]
      nested_alive [OF nested_traceM])
     (simp_all add: frame_def measure_defs plain_event_def)

section \<open>Writing\<close>

lemma frame_wrote:
  assumes "tc_writeQueue s = b # rest"
    and "mb_ok b \<Longrightarrow> n \<le> length (mb_content b) \<and> d = take n (mb_content b) \<and> q = queue_consume n (b # rest)"
  shows "frame s (s\<lparr> tc_trace := tc_trace s @ [SocketWrote d], tc_writeQueue := q \<rparr>)"
proof -
  have "fifo_ok (s\<lparr> tc_trace := tc_trace s @ [SocketWrote d], tc_writeQueue := q \<rparr>)" if fifo: "fifo_ok s"
  proof -
    have ok: "queue_ok (b # rest)" "mb_ok b" "sent s @ queue_content (b # rest) = accepted s"
      using fifo assms(1) by (simp_all add: fifo_ok_def queue_ok_def)
    have n: "n \<le> length (queue_content (b # rest))" "d = take n (queue_content (b # rest))"
      "q = queue_consume n (b # rest)"
      using assms(2) [OF ok(2)] by (auto simp: queue_content_def)
    then show ?thesis
      using wq.history_consume [OF ok(1) n(1), of "sent s"] wq.consume_ok [OF ok(1) n(1)] ok(3)
      by (simp add: fifo_ok_def sent_def accepted_def)
  qed
  then show ?thesis by (simp add: frame_def measure_defs)
qed

lemma alive_write_loop: "evolves alive_rel (write_loop E n)"
proof (induction n)
  case 0
  then show ?case by (simp add: ar.ev_throwM)
next
  case (Suc n)
  show ?case
    unfolding write_loop.simps
  proof (rule ar.ev_withM, goal_cases)
    case (1 s)
    have close: "evolves alive_rel (retM [tcp_traceM (WriteFailed ec), modifyM (\<lambda>s. s\<lparr> tc_error := x,
          tc_disconnecting := True \<rparr>), doClose] False)"
      "evolves alive_rel (retM [modifyM (\<lambda>s. s\<lparr> tc_disconnecting := True \<rparr>), doClose] False)" for ec x
      by (intro ar.ev_rules alive_modifyM nested_alive [OF nested_doClose] nested_alive [OF nested_traceM];
          simp add: frame_def measure_defs plain_event_def)+
    show ?case
    proof (cases "tc_writeQueue s")
      case Nil
      then show ?thesis by (simp add: run_simps ar.rel_refl)
    next
      case (Cons b rest)
      let ?size = "getActiveSize b" and ?data = "mb_read (getActiveSize b) b"
      have data: "mb_ok b \<Longrightarrow> ?size = length (mb_content b) \<and> ?data = mb_content b"
        by (simp add: mb_sizes(1) mb_read_content)
      show ?thesis
      proof (cases "socket_write E s ?data")
        case (NotSent ec)
        then show ?thesis
          using evolvesD [OF close(1), of s] Cons by (simp add: Let_def run_simps ar.rel_refl)
      next
        case (Sent m)
        let ?t = "\<lambda>q d. s\<lparr> tc_trace := tc_trace s @ [SocketWrote d], tc_writeQueue := q \<rparr>"
        consider "m = 0" | "0 < m" "m < ?size" | "0 < m" "?size \<le> m" by linarith
        then show ?thesis
        proof cases
          case 1
          then show ?thesis using evolvesD [OF close(2), of s] Cons Sent by (simp add: Let_def)
        next
          case 2
          have "frame s (?t (readCompleted m b # rest) (take m ?data))"
            using data 2 by (intro frame_wrote [OF Cons, where n = m]) auto
          then show ?thesis
            using 2 Cons Sent by (simp add: Let_def alive_rel_def tcp_traceM_def runs)
        next
          case 3
          have "frame s (?t rest ?data)"
            using data by (intro frame_wrote [OF Cons, where n = ?size]) auto
          moreover have "evolves alive_rel (if rest = [] then retM [queue_emptied] False else write_loop E n)"
            by (intro ar.ev_rules nested_alive [OF nested_queue_emptied] Suc.IH)
          ultimately have "alive_rel s (snd ((if rest = [] then retM [queue_emptied] False
              else write_loop E n) (?t rest ?data)))"
            using ar.rel_trans evolvesD by (metis alive_rel_def)
          then show ?thesis
            using 3 Cons Sent by (simp add: Let_def tcp_traceM_def runs)
        qed
      qed
    qed
  qed
qed

lemma alive_doWrite: "evolves alive_rel (doWrite E)"
  unfolding doWrite_def
  by (intro ar.ev_rules alive_write_loop nested_alive [OF nested_modifyM]) simp

lemma alive_startWriting: "evolves alive_rel (startWriting E)"
  unfolding startWriting_def by (intro ar.ev_rules alive_doWrite)

text \<open>The packet is accepted and queued in one go.\<close>

lemma frame_accepts:
  "frame s (s\<lparr> tc_trace := tc_trace s @ [Accepted d], tc_writeQueue := queue_put d (tc_writeQueue s) \<rparr>)"
  using wq.put_ok [of "tc_writeQueue s" d] wq.history_put [of "tc_writeQueue s" "sent s" d]
  by (auto simp: frame_def measure_defs)

lemma nested_write:
  assumes X: "\<And>c. evolves nested_rel (X c)"
  shows "evolves nested_rel (tcp_write X E data)"
proof -
  let ?rest = "doM [withM (\<lambda>s. whenM (tc_producer s \<and> tc_streamingProducer s
         \<and> queue_size (tc_writeQueue s) > tc_writeBufferSize s) (doM [
       modifyM (\<lambda>s. s\<lparr> tc_producerPaused := True \<rparr>), notify X E PauseProducing])), startWriting E]"
  have rest: "evolves alive_rel ?rest"
    using X by (intro ar.ev_rules alive_startWriting nested_alive [OF nested_modifyM]
        nested_alive [OF nested_notify]) (simp_all add: plain_event_def)
  have "evolves alive_rel (doM [tcp_traceM (Accepted data),
     modifyM (\<lambda>s. s\<lparr> tc_writeQueue := queue_put data (tc_writeQueue s) \<rparr>), ?rest])"
  proof (rule evolvesI)
    fix s :: tcp_conn
    let ?t = "s\<lparr> tc_trace := tc_trace s @ [Accepted data], tc_writeQueue := queue_put data (tc_writeQueue s) \<rparr>"
    have "alive_rel s (snd (?rest ?t))"
      using ar.rel_trans [OF _ evolvesD [OF rest]] frame_accepts by (simp add: alive_rel_def)
    then show "alive_rel s (snd (doM [tcp_traceM (Accepted data),
     modifyM (\<lambda>s. s\<lparr> tc_writeQueue := queue_put data (tc_writeQueue s) \<rparr>), ?rest] s))"
      by (simp add: tcp_traceM_def run_simps list_run bindM_run bindM_unit del: doM.simps)
  qed
  then have "evolves alive_rel (doM [tcp_traceM (Accepted data),
     modifyM (\<lambda>s. s\<lparr> tc_writeQueue := queue_put data (tc_writeQueue s) \<rparr>),
     withM (\<lambda>s. whenM (tc_producer s \<and> tc_streamingProducer s
         \<and> queue_size (tc_writeQueue s) > tc_writeBufferSize s) (doM [
       modifyM (\<lambda>s. s\<lparr> tc_producerPaused := True \<rparr>), notify X E PauseProducing])), startWriting E])"
    by (simp add: bindM_unit prog_laws)
  then show ?thesis unfolding tcp_write_def by (rule nested_guarded)
qed

lemma nested_writeDone: "(\<And>c. evolves nested_rel (X c)) \<Longrightarrow> evolves nested_rel (tcp_writeDone X E)"
  unfolding tcp_writeDone_def
  by (intro nr.ev_rules nested_modifyM nested_notify) (simp_all add: plain_event_def)

lemma nested_register:
  "(\<And>c. evolves nested_rel (X c)) \<Longrightarrow> evolves nested_rel (tcp_registerProducer X E b)"
  unfolding tcp_registerProducer_def
  by (intro nr.ev_rules nested_modifyM nested_notify) (simp_all add: plain_event_def)

lemma nested_exec: "evolves nested_rel (tcp_exec E n c)"
proof (induction n arbitrary: c)
  case (Suc n)
  show ?case
    using Suc.IH
    by (cases c) (auto simp: tcp_unregisterProducer_def
        intro: nested_write nested_lose nested_abort nested_register nested_modifyM nr.ev_throwM)
qed (simp add: nr.ev_throwM)

section \<open>The invariant of a connection\<close>

definition life_ok :: "nat \<Rightarrow> tcp_conn \<Rightarrow> bool" where
  "life_ok k s \<longleftrightarrow> fifo_ok s \<and> lost_reports s = k
     \<and> (tc_disconnected s \<longrightarrow> \<not> tc_connected s \<and> \<not> tc_disconnecting s \<and> \<not> tc_aborting s)
     \<and> mb_ok (tc_readBuffer s) \<and> getBufferSize (tc_readBuffer s) = 4096
     \<and> (tc_reading s \<longrightarrow> mb_rpos (tc_readBuffer s) = 0 \<and> mb_wpos (tc_readBuffer s) = 0)"

definition drained :: "tcp_conn \<Rightarrow> bool" where
  "drained s \<longleftrightarrow> mb_content (tc_readBuffer s) = [] \<or> tc_disconnecting s \<or> tc_disconnected s"

definition conn_ok :: "tcp_conn \<Rightarrow> bool" where
  "conn_ok s \<longleftrightarrow> life_ok (if tc_disconnected s then 1 else 0) s \<and> drained s"

lemma nestedD: "evolves nested_rel m \<Longrightarrow> m s = (r, t) \<Longrightarrow> nested_rel s t"
  using evolvesD [of nested_rel m s] by simp

lemma aliveD: "evolves alive_rel m \<Longrightarrow> m s = (r, t) \<Longrightarrow> \<not> tc_disconnected s \<Longrightarrow> nested_rel s t"
  using evolvesD [of alive_rel m s] by (simp add: alive_rel_def nested_rel_def)

lemma life_nested: "nested_rel s t \<Longrightarrow> life_ok k s \<Longrightarrow> life_ok k t"
  by (auto simp: nested_rel_def frame_def life_ok_def)

lemma drained_nested: "nested_rel s t \<Longrightarrow> drained s \<Longrightarrow> drained t"
  by (auto simp: nested_rel_def frame_def drained_def)

lemma conn_nested: "nested_rel s t \<Longrightarrow> conn_ok s \<Longrightarrow> conn_ok t"
  using life_nested [of s t] drained_nested [of s t]
  by (simp add: conn_ok_def nested_rel_def frame_def)

lemma nested_alike:
  assumes "nested_rel s t"
  shows "tc_disconnected t = tc_disconnected s" "tc_readBuffer t = tc_readBuffer s"
    "tc_reading t = tc_reading s" "tc_connected t = tc_connected s"
  using assms by (simp_all add: nested_rel_def frame_def)

lemma nested_trace: "nested_rel s t \<Longrightarrow> set (tc_trace s) \<subseteq> set (tc_trace t)"
  by (auto simp: nested_rel_def frame_def prefix_def)

lemma notify_lost:
  assumes X: "\<And>c. evolves nested_rel (X c)" and run: "notify X E (ConnectionLost e) s = (Inr (), t)"
    and life: "life_ok k s"
  shows "life_ok (Suc k) t" "tc_disconnected t = tc_disconnected s" "set (tc_trace s) \<subseteq> set (tc_trace t)"
proof -
  let ?s = "s\<lparr> tc_trace := tc_trace s @ [ConnectionLost e] \<rparr>"
  have "evolves nested_rel (doM (List.map X (te_client E (tc_trace ?s))))"
    using X by (intro nr.ev_doM) (simp add: list_all_iff)
  moreover have "doM (List.map X (te_client E (tc_trace ?s))) ?s = (Inr (), t)"
    using run by (simp add: notify_def tcp_traceM_def runs bindM_unit)
  ultimately have rel: "nested_rel ?s t" by (rule nestedD)
  have "life_ok (Suc k) ?s" using life by (simp add: life_ok_def measure_defs)
  then show "life_ok (Suc k) t" by (rule life_nested [OF rel])
  show "tc_disconnected t = tc_disconnected s" using rel by (simp add: nested_rel_def frame_def)
  show "set (tc_trace s) \<subseteq> set (tc_trace t)" using nested_trace [OF rel] by auto
qed

lemma closeSocket_ok:
  assumes X: "\<And>c. evolves nested_rel (X c)" and ok: "conn_ok s" and alive: "\<not> tc_disconnected s"
    and run: "closeSocket X E s = (Inr (), t)"
  shows "conn_ok t" "tc_disconnected t" "set (tc_trace s) \<subseteq> set (tc_trace t)"
proof -
  let ?s = "s\<lparr> tc_connected := False, tc_disconnected := True, tc_disconnecting := False,
       tc_aborting := False, tc_socketOpen := False \<rparr>"
  obtain u v where u: "stop_producer X E ?s = (Inr (), u)" and v: "notify X E (ConnectionLost (tc_error s)) u = (Inr (), v)"
    and t: "tell_connector E v = (Inr (), t)"
    using run by (auto simp: closeSocket_def connectionLost_base_def runs bindM_unit elim!: bindM_okE)
  have stop: "evolves nested_rel (stop_producer X E)" and last: "evolves nested_rel (tell_connector E)"
    unfolding stop_producer_def tell_connector_def
    using X by (intro nr.ev_rules nested_notify nested_modifyM nested_traceM; simp add: plain_event_def)+
  have "life_ok 0 ?s" using ok alive by (simp add: conn_ok_def life_ok_def measure_defs)
  then have "life_ok 0 u" by (rule life_nested [OF nestedD [OF stop u]])
  have disc_u: "tc_disconnected u" using nested_alike(1) [OF nestedD [OF stop u]] by simp
  have "life_ok 1 v" and disc_v: "tc_disconnected v"
    using notify_lost [OF X v \<open>life_ok 0 u\<close>] disc_u by simp_all
  then have "life_ok 1 t" by (intro life_nested [OF nestedD [OF last t]])
  moreover have "tc_disconnected t" using nested_alike(1) [OF nestedD [OF last t]] disc_v by simp
  ultimately show "conn_ok t" "tc_disconnected t" by (simp_all add: conn_ok_def drained_def)
  show "set (tc_trace s) \<subseteq> set (tc_trace t)"
    using nested_trace [OF nestedD [OF stop u]] notify_lost(3) [OF X v \<open>life_ok 0 u\<close>]
      nested_trace [OF nestedD [OF last t]] by auto
qed

section \<open>Every step keeps the invariant\<close>

definition keeps :: "tcp_conn \<Rightarrow> tcp_conn \<Rightarrow> bool" where
  "keeps s t \<longleftrightarrow> (conn_ok s \<longrightarrow> conn_ok t) \<and> set (tc_trace s) \<subseteq> set (tc_trace t)"

lemma keeps_trans: "keeps s t \<Longrightarrow> keeps t u \<Longrightarrow> keeps s u"
  by (auto simp: keeps_def)

lemma keeps_nested: "nested_rel s t \<Longrightarrow> keeps s t"
  using conn_nested nested_trace by (auto simp: keeps_def)

lemma keeps_close:
  assumes "\<And>c. evolves nested_rel (X c)" "\<not> tc_disconnected s" "closeSocket X E s = (Inr (), t)"
    and "conn_ok s"
  shows "keeps s t"
  using closeSocket_ok [OF assms(1,4,2,3)] by (auto simp: keeps_def)

lemma keeps_run_callback:
  assumes X: "\<And>c. evolves nested_rel (X c)" and run: "run_callback X E c s = (Inr (), t)" and ok: "conn_ok s"
  shows "keeps s t"
proof (cases c)
  case CloseSocketCallback
  then show ?thesis
    using run keeps_close [OF X _ _ ok, where E = E and t = t]
    by (auto simp: run_callback_def runs keeps_def split: if_splits)
next
  case ProducingCallback
  then have "run_callback X E c = doM [
        modifyM (\<lambda>s. s\<lparr> tc_pendingProducing := False \<rparr>),
        withM (\<lambda>s. whenM (\<not> tc_aborting s \<and> \<not> tc_disconnected s \<and> tc_writeQueue s = []) (tcp_writeDone X E))]"
    by (simp add: run_callback_def)
  moreover have "evolves nested_rel (doM [
        modifyM (\<lambda>s. s\<lparr> tc_pendingProducing := False \<rparr>),
        withM (\<lambda>s. whenM (\<not> tc_aborting s \<and> \<not> tc_disconnected s \<and> tc_writeQueue s = []) (tcp_writeDone X E))])"
    using X by (intro nr.ev_rules nested_modifyM nested_writeDone) simp_all
  ultimately have "evolves nested_rel (run_callback X E c)" by (simp only:)
  from nestedD [OF this run] show ?thesis by (rule keeps_nested)
qed

text \<open>The start of a read: the buffer is empty, so that all of it is free.\<close>

lemma doRead_ok:
  assumes ok: "conn_ok s" and open_: "\<not> tc_disconnecting s" "\<not> tc_disconnected s"
    and run: "doRead s = (Inr (), t)"
  shows "keeps s t"
proof -
  let ?b = "normalize (tc_readBuffer s)"
  have b: "mb_ok (tc_readBuffer s)" "getBufferSize (tc_readBuffer s) = 4096" "mb_content (tc_readBuffer s) = []"
    using ok open_ by (simp_all add: conn_ok_def life_ok_def drained_def)
  note n = normalize_ok [OF b(1)]
  have "mb_wpos ?b = 0"
    using n b(3) mb_sizes(1,2) [OF n(1)] by simp
  then have "ensureFreeSpace ?b = ?b"
    using n b(2) mb_sizes(3) [OF n(1)] by (simp add: ensureFreeSpace_def getBufferSize_def)
  then have "t = s\<lparr> tc_readBuffer := ?b, tc_reading := True \<rparr>"
    using run by (simp add: doRead_def runs)
  then show ?thesis
    using ok n b \<open>mb_wpos ?b = 0\<close>
    by (auto simp: keeps_def conn_ok_def life_ok_def drained_def measure_defs)
qed

text \<open>The two outcomes of an operation that failed, and the state a completed write leaves.\<close>

definition after_write :: "nat \<Rightarrow> tcp_conn \<Rightarrow> tcp_conn" where
  "after_write n s = (if n = 0 then s else case tc_writeQueue s of
      [] \<Rightarrow> s
    | b # rest \<Rightarrow> s\<lparr> tc_trace := tc_trace s @ [SocketWrote (mb_read n b)],
        tc_writeQueue := (if getActiveSize (readCompleted n b) = 0 then rest
                          else readCompleted n b # rest) \<rparr>)"

lemma failed_cases:
  assumes "doM [tcp_traceM ev, withM (\<lambda>s. whenM (\<not> tc_disconnected s) (doM [
      (if aborted then (if tc_error s = None then throwM AssertionFailed else doM [])
       else modifyM (\<lambda>s. s\<lparr> tc_error := e \<rparr>)), closeSocket X E]))] s = (Inr (), t)"
  obtains "tc_disconnected s" "t = s\<lparr> tc_trace := tc_trace s @ [ev] \<rparr>"
    | e' where "\<not> tc_disconnected s"
        "closeSocket X E (s\<lparr> tc_trace := tc_trace s @ [ev], tc_error := e' \<rparr>) = (Inr (), t)"
proof (cases "tc_disconnected s")
  case True
  then show ?thesis using assms that(1) by (simp add: tcp_traceM_def runs)
next
  case False
  have "\<exists>e'. closeSocket X E (s\<lparr> tc_trace := tc_trace s @ [ev], tc_error := e' \<rparr>) = (Inr (), t)"
  proof (cases aborted)
    case True
    then have "closeSocket X E (s\<lparr> tc_trace := tc_trace s @ [ev], tc_error := tc_error s \<rparr>) = (Inr (), t)"
      using assms False by (auto simp: tcp_traceM_def runs bindM_unit split: if_splits)
    then show ?thesis by blast
  next
    case other: False
    then show ?thesis using assms False by (auto simp: tcp_traceM_def runs bindM_unit)
  qed
  then show ?thesis using that(2) False by blast
qed

lemma failed_keeps:
  assumes X: "\<And>c. evolves nested_rel (X c)" and s: "\<And>e. conn_ok (s\<lparr> tc_trace := tc_trace s @ [ev], tc_error := e \<rparr>)"
    and run: "doM [tcp_traceM ev, withM (\<lambda>s. whenM (\<not> tc_disconnected s) (doM [
      (if aborted then (if tc_error s = None then throwM AssertionFailed else doM [])
       else modifyM (\<lambda>s. s\<lparr> tc_error := e \<rparr>)), closeSocket X E]))] s = (Inr (), t)"
  shows "conn_ok t \<and> insert ev (set (tc_trace s)) \<subseteq> set (tc_trace t)"
  using run
proof (cases rule: failed_cases)
  case 1
  then show ?thesis using s [of "tc_error s"] by auto
next
  case (2 e')
  then have "keeps (s\<lparr> tc_trace := tc_trace s @ [ev], tc_error := e' \<rparr>) t"
    by (intro keeps_close [OF X _ _ s]) simp_all
  then show ?thesis using s [of e'] by (auto simp: keeps_def)
qed

lemma handleWrite_failed:
  "handleWrite X E (NotSent ec) = doM [tcp_traceM (WriteFailed ec), withM (\<lambda>s. whenM (\<not> tc_disconnected s) (doM [
      (if ec = OperationAborted then (if tc_error s = None then throwM AssertionFailed else doM [])
       else modifyM (\<lambda>s. s\<lparr> tc_error := Some (SystemError (case ec of SocketFailure k \<Rightarrow> k | _ \<Rightarrow> 0)) \<rparr>)),
      closeSocket X E]))]"
  by (simp add: handleWrite_def)

lemma handleWrite_sent:
  "n = 0 \<or> tc_writeQueue s \<noteq> [] \<Longrightarrow> handleWrite X E (Sent n) s =
     whenM (tc_disconnecting (after_write n s) \<and> tc_writeQueue (after_write n s) = []
         \<or> tc_aborting (after_write n s)) (closeSocket X E) (after_write n s)"
  by (cases "tc_writeQueue s")
     (auto simp: handleWrite_def after_write_def tcp_traceM_def runs bindM_unit)

lemma nested_after_write:
  assumes ok: "conn_ok s" and n: "case tc_writeQueue s of [] \<Rightarrow> False | b # _ \<Rightarrow> n \<le> getActiveSize b"
  shows "nested_rel s (after_write n s)"
proof -
  obtain b rest where q: "tc_writeQueue s = b # rest" and n: "n \<le> getActiveSize b"
    using n by (auto split: list.splits)
  have mb: "mb_ok b" using ok q by (simp add: conn_ok_def life_ok_def fifo_ok_def queue_ok_def)
  let ?q = "if getActiveSize (readCompleted n b) = 0 then rest else readCompleted n b # rest"
  have "frame s (s\<lparr> tc_trace := tc_trace s @ [SocketWrote (mb_read n b)], tc_writeQueue := ?q \<rparr>)" if "n > 0"
    using mb n mb_sizes(1) [OF mb] mb_sizes(1) [OF readCompleted_ok(1) [OF mb]] readCompleted_ok(2) [OF mb]
    by (intro frame_wrote [OF q, where n = n]) (auto simp: mb_read_content)
  then show ?thesis
    using q by (auto simp: after_write_def nested_rel_def frame_refl)
qed

lemma handleWrite_ok:
  assumes X: "\<And>c. evolves nested_rel (X c)" and ok: "conn_ok s"
    and fits: "\<And>n. res = Sent n \<Longrightarrow> (case tc_writeQueue s of [] \<Rightarrow> False | b # _ \<Rightarrow> n \<le> getActiveSize b)"
    and run: "handleWrite X E res s = (Inr (), t)"
  shows "keeps s t" and "res = NotSent ec \<Longrightarrow> WriteFailed ec \<in> set (tc_trace t)"
proof -
  have failed: "keeps s t \<and> WriteFailed ec \<in> set (tc_trace t)" if "res = NotSent ec" for ec
  proof -
    have "conn_ok (s\<lparr> tc_trace := tc_trace s @ [WriteFailed ec], tc_error := e \<rparr>)" for e
      using ok by (simp add: conn_ok_def life_ok_def measure_defs drained_def)
    from failed_keeps [OF X this run [unfolded that handleWrite_failed]]
    show ?thesis by (simp add: keeps_def)
  qed
  then show "res = NotSent ec \<Longrightarrow> WriteFailed ec \<in> set (tc_trace t)" by blast
  show "keeps s t"
  proof (cases res)
    case (NotSent ec)
    then show ?thesis using failed by blast
  next
    case (Sent n)
    let ?u = "after_write n s"
    have rel: "nested_rel s ?u" using nested_after_write [OF ok fits [OF Sent]] .
    have ok_u: "conn_ok ?u" by (rule conn_nested [OF rel ok])
    have "tc_writeQueue s \<noteq> []" using fits [OF Sent] by (auto split: list.splits)
    then have "whenM (tc_disconnecting ?u \<and> tc_writeQueue ?u = [] \<or> tc_aborting ?u) (closeSocket X E) ?u = (Inr (), t)"
      using run handleWrite_sent [of n s X E] Sent by simp
    then have "keeps ?u t"
      using keeps_close [OF X _ _ ok_u, where E = E and t = t] ok_u
      by (auto simp: run_simps conn_ok_def life_ok_def keeps_def split: if_splits)
    then show ?thesis using keeps_trans [OF keeps_nested [OF rel]] by simp
  qed
qed

lemma cbWrite_ok:
  assumes X: "\<And>c. evolves nested_rel (X c)" and ok: "conn_ok s"
    and fits: "\<And>n. res = Sent n \<Longrightarrow> (case tc_writeQueue s of [] \<Rightarrow> False | b # _ \<Rightarrow> n \<le> getActiveSize b)"
    and run: "cbWrite X E res s = (Inr (), t)"
  shows "keeps s t"
proof -
  let ?s = "s\<lparr> tc_writing := False \<rparr>"
  let ?then = "\<lambda>u. whenM (\<not> tc_aborting u \<and> \<not> tc_disconnected u)
      (if tc_writeQueue u \<noteq> [] then doWrite E else tcp_writeDone X E)"
  obtain u where u: "handleWrite X E res ?s = (Inr (), u)" and t: "?then u u = (Inr (), t)"
    using run by (auto simp: cbWrite_def runs bindM_unit elim!: bindM_okE)
  have rel: "nested_rel s ?s" by (simp add: nested_rel_def frame_def measure_defs)
  have "keeps ?s u"
    using handleWrite_ok(1) [OF X conn_nested [OF rel ok] _ u] fits by simp
  moreover have "keeps u t"
  proof (cases "tc_disconnected u")
    case True
    then show ?thesis using t by (simp add: run_simps keeps_def)
  next
    case False
    have "evolves alive_rel (?then u)"
      using X by (intro ar.ev_rules alive_doWrite nested_alive [OF nested_writeDone])
    from aliveD [OF this t False] show ?thesis by (rule keeps_nested)
  qed
  ultimately show ?thesis using keeps_trans keeps_nested [OF rel] by blast
qed

lemma handleRead_failed:
  "handleRead X E (Inl ec) = doM [tcp_traceM (ReadFailed ec), withM (\<lambda>s. whenM (\<not> tc_disconnected s) (doM [
      (if ec = OperationAborted then (if tc_error s = None then throwM AssertionFailed else doM [])
       else modifyM (\<lambda>s. s\<lparr> tc_error := Some (case ec of
               EndOfFile \<Rightarrow> ConnectionDone | SocketFailure k \<Rightarrow> SystemError k | _ \<Rightarrow> SystemError 0) \<rparr>)),
      closeSocket X E]))]"
  by (simp add: handleRead_def)

lemma handleRead_ok:
  assumes X: "\<And>c. evolves nested_rel (X c)" and ok: "conn_ok s"
    and room: "\<And>d. res = Inr d \<Longrightarrow> tc_reading s \<and> length d \<le> getRemainingSpace (tc_readBuffer s)"
    and run: "handleRead X E res (s\<lparr> tc_reading := False \<rparr>) = (Inr (), t)"
  shows "keeps s t"
proof (cases res)
  case (Inl ec)
  let ?s = "s\<lparr> tc_reading := False \<rparr>"
  have "conn_ok (?s\<lparr> tc_trace := tc_trace ?s @ [ReadFailed ec], tc_error := e \<rparr>)" for e
    using ok by (simp add: conn_ok_def life_ok_def measure_defs drained_def)
  from failed_keeps [OF X this run [unfolded Inl handleRead_failed]]
  show ?thesis by (simp add: keeps_def)
next
  case (Inr d)
  let ?b = "mb_copy d (tc_readBuffer s)"
  let ?s = "s\<lparr> tc_reading := False, tc_readBuffer := ?b \<rparr>"
  have b: "mb_ok (tc_readBuffer s)" "getBufferSize (tc_readBuffer s) = 4096"
    using ok by (simp_all add: conn_ok_def life_ok_def)
  have fits: "mb_wpos (tc_readBuffer s) + length d \<le> length (mb_storage (tc_readBuffer s))"
    using room [OF Inr] ok mb_sizes(3) [OF b(1)] b(2)
    by (simp add: conn_ok_def life_ok_def getBufferSize_def)
  have nb: "mb_ok ?b" "getBufferSize ?b = 4096"
    using mb_copy_ok(1) [OF b(1) fits] b(2) fits
    by (simp_all add: mb_copy_def writeCompleted_def getBufferSize_def min_absorb1)
  have life: "life_ok (if tc_disconnected s then 1 else 0) ?s"
    using ok nb by (simp add: conn_ok_def life_ok_def measure_defs)
  show ?thesis
  proof (cases "tc_disconnecting s")
    case True
    then have "t = ?s" using run Inr by (simp add: handleRead_def runs)
    then show ?thesis using life True by (simp add: keeps_def conn_ok_def drained_def)
  next
    case False
    let ?note = "notify X E (DataReceived (mb_read (getActiveSize ?b) ?b))"
    obtain u where u: "?note ?s = (Inr (), u)"
      and t: "t = u\<lparr> tc_readBuffer := readCompleted (getActiveSize (tc_readBuffer u)) (tc_readBuffer u) \<rparr>"
      using run Inr False by (auto simp: handleRead_def runs bindM_unit elim!: bindM_okE)
    have rel: "nested_rel ?s u"
      using nestedD [OF nested_notify [OF X] u] by (simp add: plain_event_def)
    have lu: "life_ok (if tc_disconnected s then 1 else 0) u" by (rule life_nested [OF rel life])
    have ub: "tc_readBuffer u = ?b" "tc_disconnected u = tc_disconnected s" "tc_reading u = False"
      using nested_alike [OF rel] by simp_all
    have "mb_ok (readCompleted (getActiveSize ?b) ?b)" "mb_content (readCompleted (getActiveSize ?b) ?b) = []"
      using readCompleted_ok [OF nb(1)] mb_sizes(1) [OF nb(1)] by simp_all
    then have "conn_ok t"
      using lu ub nb by (simp add: t conn_ok_def life_ok_def drained_def measure_defs readCompleted_def getBufferSize_def)
    then show ?thesis using nested_trace [OF rel] by (auto simp: keeps_def t)
  qed
qed

lemma cbRead_ok:
  assumes X: "\<And>c. evolves nested_rel (X c)" and ok: "conn_ok s"
    and room: "\<And>d. res = Inr d \<Longrightarrow> tc_reading s \<and> length d \<le> getRemainingSpace (tc_readBuffer s)"
    and run: "cbRead X E res s = (Inr (), t)"
  shows "keeps s t"
proof -
  obtain u where u: "handleRead X E res (s\<lparr> tc_reading := False \<rparr>) = (Inr (), u)"
    and t: "whenM (\<not> tc_disconnecting u \<and> \<not> tc_disconnected u) doRead u = (Inr (), t)"
    using run by (auto simp: cbRead_def runs bindM_unit elim!: bindM_okE)
  have su: "keeps s u" by (rule handleRead_ok [OF X ok room u])
  then have "conn_ok u" using ok by (simp add: keeps_def)
  then have "keeps u t"
    using t doRead_ok [of u t] by (auto simp: run_simps keeps_def split: if_splits)
  then show ?thesis using keeps_trans [OF su] by simp
qed

lemma connected_ok:
  assumes X: "\<And>c. evolves nested_rel (X c)" and run: "cbConnected X E newTCPConnection = (Inr (), t)"
  shows "conn_ok t \<and> ConnectionMade \<in> set (tc_trace t)"
proof -
  let ?s = "newTCPConnection\<lparr> tc_connected := True \<rparr>"
  obtain u where u: "notify X E ConnectionMade ?s = (Inr (), u)"
    and t: "whenM (\<not> tc_disconnecting u) startReading u = (Inr (), t)"
    using run by (auto simp: cbConnected_def runs bindM_unit elim!: bindM_okE)
  have s: "conn_ok ?s"
    by (simp add: newTCPConnection_def conn_ok_def life_ok_def drained_def measure_defs queue_ok_def
        queue_content_def newMessageBuffer_def getBufferSize_def mb_ok_def)
       (simp add: mb_content_def mb_read_def)
  have rel: "nested_rel ?s u" using nestedD [OF nested_notify [OF X] u] by (simp add: plain_event_def)
  have ok: "conn_ok u" by (rule conn_nested [OF rel s])
  have "prefix [ConnectionMade] (tc_trace u)"
  proof -
    let ?m = "?s\<lparr> tc_trace := [ConnectionMade] \<rparr>"
    have "evolves nested_rel (doM (List.map X (te_client E (tc_trace ?m))))"
      using X by (intro nr.ev_doM) (simp add: list_all_iff)
    moreover have "doM (List.map X (te_client E (tc_trace ?m))) ?m = (Inr (), u)"
      using u by (simp add: notify_def tcp_traceM_def runs bindM_unit newTCPConnection_def)
    ultimately show ?thesis using nestedD by (fastforce simp: nested_rel_def frame_def)
  qed
  then have made: "ConnectionMade \<in> set (tc_trace u)" by (auto simp: prefix_def)
  have "tc_disconnected u = False" using nested_alike(1) [OF rel] by (simp add: newTCPConnection_def)
  then have "keeps u t"
    using t ok doRead_ok [OF ok, of t] by (auto simp: startReading_def run_simps keeps_def split: if_splits)
  then show ?thesis using ok made by (auto simp: keeps_def)
qed

section \<open>Runs\<close>

lemma step_conn:
  assumes ok: "conn_ok s" and made: "ConnectionMade \<in> set (tc_trace s)" and en: "tcp_enabled i s"
    and run: "tcp_step E n i s = (Inr (), t)"
  shows "keeps s t"
proof -
  have X: "\<And>c. evolves nested_rel (tcp_exec E n c)" by (rule nested_exec)
  show ?thesis
  proof (cases i)
    case Connect
    then show ?thesis using en made by simp
  next
    case (ReadDone res)
    then have "cbRead (tcp_exec E n) E res s = (Inr (), t)" using run by simp
    then show ?thesis
      by (rule cbRead_ok [OF X ok, rotated]) (use en ReadDone in \<open>auto split: sum.splits\<close>)
  next
    case (WriteDone res)
    then have "cbWrite (tcp_exec E n) E res s = (Inr (), t)" using run by simp
    then show ?thesis
      by (rule cbWrite_ok [OF X ok, rotated]) (use en WriteDone in auto)
  next
    case RunReactor
    then obtain c cs where c: "tc_callbacks s = c # cs" using en by (cases "tc_callbacks s") auto
    let ?s = "s\<lparr> tc_callbacks := cs \<rparr>"
    have "run_callback (tcp_exec E n) E c ?s = (Inr (), t)"
      using run RunReactor c by (simp add: runs bindM_unit)
    moreover have "conn_ok ?s" using ok by (simp add: conn_ok_def life_ok_def drained_def measure_defs)
    ultimately have "keeps ?s t"
      by (rule keeps_run_callback [where X = "tcp_exec E n", OF nested_exec])
    then show ?thesis using \<open>conn_ok ?s\<close> by (auto simp: keeps_def)
  next
    case (Call c)
    then show ?thesis using keeps_nested [OF nestedD [OF nested_exec]] run by simp
  qed
qed

lemma reach_conn:
  "tcp_reach E newTCPConnection s \<Longrightarrow>
     s = newTCPConnection \<or> ConnectionMade \<in> set (tc_trace s) \<and> conn_ok s"
proof (induction rule: tcp_reach.induct)
  case (tcp_next s i n t)
  show ?case
  proof (cases "ConnectionMade \<in> set (tc_trace s)")
    case True
    then have ok: "conn_ok s" using tcp_next.IH by (auto simp: newTCPConnection_def)
    show ?thesis
      using step_conn [OF ok True tcp_next.hyps(2,3)] ok True by (auto simp: keeps_def)
  next
    case False
    then have s: "s = newTCPConnection" using tcp_next.IH by simp
    then have "i = Connect"
      using tcp_next.hyps(2) by (cases i) (auto simp: newTCPConnection_def)
    then show ?thesis
      using connected_ok [OF nested_exec] tcp_next.hyps(3) s by simp
  qed
qed simp

lemma new_measures:
  "sent newTCPConnection = []" "accepted newTCPConnection = []" "lost_reports newTCPConnection = 0"
  "tc_writeQueue newTCPConnection = []" "\<not> tc_disconnected newTCPConnection" "\<not> tc_reading newTCPConnection"
  by (simp_all add: newTCPConnection_def measure_defs)

text \<open>C11: at any moment of a run the octets given to the socket, followed by those in the queue of packets,
  are the octets the connection accepted, whatever calls the protocol and its producer make in their
  callbacks and however the socket splits and delays the writes. (As for all runs of \<open>tcp_reach\<close>, no
  exception has left a step and no step was undefined.)\<close>

theorem tcp_fifo:
  assumes "tcp_reach E newTCPConnection s"
  shows "sent s @ queue_content (tc_writeQueue s) = accepted s"
  using reach_conn [OF assms]
  by (auto simp: new_measures queue_content_def conn_ok_def life_ok_def fifo_ok_def)

text \<open>C13: \<open>connectionLost\<close> is called once, when the connection is disconnected, and never again, in every run
  in which no exception left a step and no step was undefined.\<close>

theorem tcp_lost_once:
  assumes "tcp_reach E newTCPConnection s"
  shows "lost_reports s = (if tc_disconnected s then 1 else 0)"
  using reach_conn [OF assms] by (auto simp: new_measures conn_ok_def life_ok_def)

text \<open>C17: the read buffer keeps its 4096 octets for the life of the connection, and a read is only
  started when all of them are free, in every run in which no exception left a step.\<close>

theorem tcp_read_room:
  assumes "tcp_reach E newTCPConnection s"
  shows "getBufferSize (tc_readBuffer s) = 4096 \<and>
    (tc_reading s \<longrightarrow> getRemainingSpace (tc_readBuffer s) = 4096)"
proof -
  have "mb_ok (tc_readBuffer s) \<and> getBufferSize (tc_readBuffer s) = 4096
      \<and> (tc_reading s \<longrightarrow> mb_wpos (tc_readBuffer s) = 0)"
    using reach_conn [OF assms]
    by (auto simp: newTCPConnection_def newMessageBuffer_def getBufferSize_def mb_ok_def conn_ok_def life_ok_def)
  then show ?thesis using mb_sizes(3) [of "tc_readBuffer s"] by (simp add: getBufferSize_def)
qed

end
