(* ===== verification/Tcp_Closing.thy ===== *)
theory Tcp_Closing
  imports Tcp_Props
begin

text \<open>
  How a TCP connection ends. \<open>loseConnection\<close> lets the queue drain: as long as the socket reports
  no failure, nobody aborts and the producer makes no call when it is paused, the connection is
  not reported lost before everything it accepted was written. But it may never be reported
  lost at all, and data may be reported after the loss; both are shown on runs.
\<close>

section \<open>A close that nothing disturbs\<close>

definition undisturbed :: "tcp_event list \<Rightarrow> bool" where
  "undisturbed tr \<longleftrightarrow> list_all (\<lambda>e. case e of
      WriteFailed _ \<Rightarrow> False | ReadFailed ec \<Rightarrow> ec = OperationAborted | AbortRequested \<Rightarrow> False
    | _ \<Rightarrow> True) tr"

definition quiet_pause :: "tcp_env \<Rightarrow> bool" where
  "quiet_pause E \<longleftrightarrow> (\<forall>tr. te_client E (tr @ [PauseProducing]) = [])"

text \<open>\<open>write_some\<close> of Boost.Asio writes at least one octet of those it is given, or fails.\<close>

definition socket_documented :: "tcp_env \<Rightarrow> bool" where
  "socket_documented E \<longleftrightarrow> (\<forall>tr d n. d \<noteq> [] \<longrightarrow> te_write_some E tr d = Sent n \<longrightarrow> 0 < n \<and> n \<le> length d)"

definition packet_ok :: "message_buffer \<Rightarrow> bool" where
  "packet_ok b \<longleftrightarrow> mb_ok b \<and> mb_content b \<noteq> []"

definition closing_ok :: "tcp_conn \<Rightarrow> bool" where
  "closing_ok s \<longleftrightarrow> list_all packet_ok (tc_writeQueue s) \<and> \<not> tc_aborting s
     \<and> (tc_disconnected s \<longrightarrow> tc_writeQueue s = [])
     \<and> (\<not> tc_disconnected s \<and> (\<not> tc_socketOpen s \<or> CloseSocketCallback \<in> set (tc_callbacks s))
          \<longrightarrow> tc_disconnecting s \<and> tc_writeQueue s = [])"

definition settled :: "tcp_conn \<Rightarrow> bool" where
  "settled s \<longleftrightarrow> undisturbed (tc_trace s) \<longrightarrow>
     closing_ok s \<and> (\<not> tc_disconnected s \<and> \<not> tc_writing s \<longrightarrow> tc_writeQueue s = [])"

definition settles :: "tcp_conn \<Rightarrow> tcp_conn \<Rightarrow> bool" where
  "settles s t \<longleftrightarrow> (settled s \<longrightarrow> settled t) \<and> tc_disconnected t = tc_disconnected s"

interpretation se: state_rel settles
  by unfold_locales (auto simp: settles_def)

lemmas settle_defs = settles_def settled_def closing_ok_def undisturbed_def

lemma settles_modifyM:
  assumes "\<And>s. tc_writeQueue (f s) = tc_writeQueue s \<and> tc_aborting (f s) = tc_aborting s
      \<and> tc_disconnected (f s) = tc_disconnected s \<and> tc_socketOpen (f s) = tc_socketOpen s
      \<and> tc_callbacks (f s) = tc_callbacks s \<and> tc_disconnecting (f s) = tc_disconnecting s
      \<and> tc_writing (f s) = tc_writing s \<and> tc_trace (f s) = tc_trace s"
  shows "evolves settles (modifyM f)"
  using assms by (intro se.ev_modifyM) (simp add: settle_defs)

lemma settles_traceM: "evolves settles (tcp_traceM e)"
  unfolding tcp_traceM_def by (intro se.ev_modifyM) (auto simp: settle_defs)

lemma settles_notify: "(\<And>c. evolves settles (X c)) \<Longrightarrow> evolves settles (notify X E e)"
  unfolding notify_def by (intro se.ev_rules settles_traceM se.ev_doM) (simp add: list_all_iff)

lemma settles_lose: "evolves settles tcp_loseConnection"
  unfolding tcp_loseConnection_def
  by (intro se.ev_withM)
     (auto simp: doClose_def addCallback_def runs bindM_unit settle_defs tcp_closed_def)

lemma settles_abort: "evolves settles tcp_abortConnection"
  unfolding tcp_abortConnection_def
  by (intro se.ev_withM)
     (auto simp: doAbort_def addCallback_def tcp_traceM_def runs bindM_unit settle_defs tcp_closed_def)

lemma packet_sizes:
  assumes "packet_ok b"
  shows "getActiveSize b = length (mb_content b)" "mb_read (getActiveSize b) b = mb_content b"
    "mb_content b \<noteq> []"
  using assms mb_sizes(1) [of b] mb_read_content [of b] by (simp_all add: packet_ok_def)

lemma packet_partial:
  "packet_ok b \<Longrightarrow> n < length (mb_content b) \<Longrightarrow> packet_ok (readCompleted n b)"
  using readCompleted_ok [of b n] by (simp add: packet_ok_def)

lemma undisturbed_prefix: "prefix tr tr' \<Longrightarrow> undisturbed tr' \<Longrightarrow> undisturbed tr"
  by (auto simp: undisturbed_def prefix_def)

lemma undisturbed_subset: "set tr \<subseteq> set tr' \<Longrightarrow> undisturbed tr' \<Longrightarrow> undisturbed tr"
  by (auto simp: undisturbed_def list_all_iff)

lemma doClose_trace: "tc_trace (snd (doClose s)) = tc_trace s" "fst (doClose s) = Inr ()"
  by (simp_all add: doClose_def addCallback_def runs)

lemma queue_emptied_settles:
  assumes "closing_ok s" "queue_emptied s = (Inr (), t)"
  shows "closing_ok t" "tc_writeQueue t = tc_writeQueue s" "tc_writing t = tc_writing s"
    "tc_trace t = tc_trace s" "tc_disconnected t = tc_disconnected s"
  using assms
  by (auto simp: queue_emptied_def addCallback_def runs closing_ok_def split: if_splits)

lemma write_loop_settles:
  assumes doc: "socket_documented E" and "closing_ok s" "\<not> tc_disconnected s" "\<not> tc_writing s"
    and "write_loop E n s = (Inr async, t)" and "undisturbed (tc_trace t)"
  shows "closing_ok t \<and> \<not> tc_writing t \<and> (async \<or> tc_writeQueue t = [])"
  using assms(2-)
proof (induction n arbitrary: s)
  case 0
  then show ?case by (simp add: run_simps)
next
  case (Suc n)
  obtain b rest where q: "tc_writeQueue s = b # rest"
    using Suc.prems(4) by (auto simp: run_simps split: list.splits)
  have b: "packet_ok b" and rest: "list_all packet_ok rest"
    and open_: "tc_socketOpen s" "CloseSocketCallback \<notin> set (tc_callbacks s)" "\<not> tc_aborting s"
    using Suc.prems(1,2) q by (auto simp: closing_ok_def)
  note size = packet_sizes [OF b]
  let ?data = "mb_content b"
  have wr: "socket_write E s (mb_read (getActiveSize b) b) = te_write_some E (tc_trace s) ?data"
    using open_ size by (simp add: socket_write_def)
  show ?case
  proof (cases "te_write_some E (tc_trace s) ?data")
    case (NotSent ec)
    show ?thesis
    proof (cases "ec = WouldBlock")
      case True
      then show ?thesis
        using Suc.prems q wr NotSent by (auto simp: Let_def run_simps)
    next
      case False
      then have "tc_trace t = tc_trace s @ [WriteFailed ec]"
        using Suc.prems(4) q wr NotSent
        by (auto simp: Let_def runs tcp_traceM_def doClose_def addCallback_def split: if_splits)
      then show ?thesis using Suc.prems(5) by (simp add: undisturbed_def)
    qed
  next
    case (Sent m)
    then have m: "0 < m" "m \<le> length ?data"
      using doc size(3) by (auto simp: socket_documented_def)
    let ?t = "\<lambda>q d. s\<lparr> tc_trace := tc_trace s @ [SocketWrote d], tc_writeQueue := q \<rparr>"
    show ?thesis
    proof (cases "m < length ?data")
      case True
      then have "t = ?t (readCompleted m b # rest) (take m ?data)" "async"
        using Suc.prems(4) q wr Sent m size by (auto simp: Let_def runs tcp_traceM_def)
      then show ?thesis
        using Suc.prems(1-3) open_ packet_partial [OF b True] rest by (simp add: closing_ok_def)
    next
      case False
      have ok: "closing_ok (?t rest ?data)"
        using Suc.prems(1,2) open_ rest by (simp add: closing_ok_def)
      have go: "(if rest = [] then retM [queue_emptied] False else write_loop E n) (?t rest ?data) = (Inr async, t)"
        using Suc.prems(4) q wr Sent m size False by (auto simp: Let_def runs tcp_traceM_def)
      show ?thesis
      proof (cases "rest = []")
        case True
        then have "queue_emptied (?t rest ?data) = (Inr (), t)" "\<not> async"
          using go by (auto simp: runs bindM_unit elim!: bindM_okE)
        then show ?thesis
          using queue_emptied_settles [OF ok] Suc.prems(3) True by simp
      next
        case False
        then show ?thesis
          using Suc.IH [of "?t rest ?data"] ok go Suc.prems(2,3,5) by simp
      qed
    qed
  qed
qed

text \<open>The loop ends: it is given one round more than there are packets.\<close>

lemma write_loop_returns:
  "tc_writeQueue s \<noteq> [] \<Longrightarrow> length (tc_writeQueue s) < n \<Longrightarrow> \<exists>a t. write_loop E n s = (Inr a, t)"
proof (induction n arbitrary: s)
  case (Suc n)
  obtain b rest where q: "tc_writeQueue s = b # rest" using Suc.prems(1) by (cases "tc_writeQueue s") auto
  let ?size = "getActiveSize b"
  let ?t = "s\<lparr> tc_trace := tc_trace s @ [SocketWrote (mb_read ?size b)], tc_writeQueue := rest \<rparr>"
  have close: "\<exists>a t. bindM doClose (\<lambda>_. returnM False) u = (Inr a, t)" for u
    using doClose_trace(2) [of u] by (cases "doClose u") (auto simp: bindM_def returnM_def)
  show ?case
  proof (cases "socket_write E s (mb_read ?size b)")
    case (NotSent ec)
    then show ?thesis using q close [unfolded returnM_def] by (auto simp: Let_def runs tcp_traceM_def prog_laws)
  next
    case (Sent m)
    consider "m = 0" | "0 < m" "m < ?size" | "0 < m" "\<not> m < ?size" by blast
    then show ?thesis
    proof cases
      case 1
      then show ?thesis using q Sent close [unfolded returnM_def] by (auto simp: Let_def runs prog_laws)
    next
      case 2
      then show ?thesis using q Sent by (auto simp: Let_def runs tcp_traceM_def)
    next
      case 3
      have "\<exists>a t. (if rest = [] then retM [queue_emptied] False else write_loop E n) ?t = (Inr a, t)"
      proof (cases "rest = []")
        case True
        then show ?thesis by (auto simp: queue_emptied_def addCallback_def runs)
      next
        case False
        then show ?thesis using Suc.IH [of ?t] Suc.prems(2) q by simp
      qed
      then show ?thesis using 3 q Sent by (auto simp: Let_def runs tcp_traceM_def)
    qed
  qed
qed simp

lemma doWrite_settles:
  assumes doc: "socket_documented E" and s: "\<not> tc_disconnected s" "\<not> tc_writing s"
    and ok: "undisturbed (tc_trace s) \<longrightarrow> closing_ok s"
  shows "settled (snd (doWrite E s)) \<and> tc_disconnected (snd (doWrite E s)) = tc_disconnected s"
proof (cases "tc_writeQueue s = []")
  case True
  then have "snd (doWrite E s) = s" by (simp add: doWrite_def runs)
  then show ?thesis using ok s True by (simp add: settled_def)
next
  case False
  let ?n = "length (tc_writeQueue s) + 1"
  obtain async u where run: "write_loop E ?n s = (Inr async, u)"
    using write_loop_returns [of s ?n E] False by auto
  have rel: "nested_rel s u" by (rule aliveD [OF alive_write_loop run s(1)])
  then have u: "\<not> tc_disconnected u" and calm: "undisturbed (tc_trace u) \<Longrightarrow> undisturbed (tc_trace s)"
    using s(1) undisturbed_prefix by (auto simp: nested_rel_def frame_def)
  have "undisturbed (tc_trace u) \<Longrightarrow> closing_ok u \<and> \<not> tc_writing u \<and> (async \<or> tc_writeQueue u = [])"
    using write_loop_settles [OF doc _ s run] ok calm by blast
  moreover have "doWrite E s = whenM async (modifyM (\<lambda>s. s\<lparr> tc_writing := True \<rparr>)) u"
    using run unfolding doWrite_def run_simps by (rule bindM_after)
  ultimately show ?thesis
    using u s by (auto simp: run_simps settled_def closing_ok_def)
qed

lemma settles_writeDone: "(\<And>c. evolves settles (X c)) \<Longrightarrow> evolves settles (tcp_writeDone X E)"
  unfolding tcp_writeDone_def by (intro se.ev_rules settles_modifyM settles_notify) simp_all

lemma settles_register:
  "(\<And>c. evolves settles (X c)) \<Longrightarrow> evolves settles (tcp_registerProducer X E b)"
  unfolding tcp_registerProducer_def by (intro se.ev_rules settles_modifyM settles_notify) simp_all

text \<open>A packet is queued, and written at once unless a write is under way.\<close>

lemma settles_write:
  assumes quiet: "quiet_pause E" and doc: "socket_documented E"
  shows "evolves settles (tcp_write X E data)"
proof (rule evolvesI)
  fix s
  show "settles s (snd (tcp_write X E data s))"
  proof (cases "tcp_closed s \<or> data = []")
    case True
    then show ?thesis by (simp add: tcp_write_def runs se.rel_refl)
  next
    case False
    then have alive: "\<not> tc_disconnected s" "\<not> tc_disconnecting s" by (simp_all add: tcp_closed_def)
    let ?t = "s\<lparr> tc_trace := tc_trace s @ [Accepted data], tc_writeQueue := queue_put data (tc_writeQueue s) \<rparr>"
    define pause where "pause \<longleftrightarrow> tc_producer s \<and> tc_streamingProducer s
        \<and> queue_size (queue_put data (tc_writeQueue s)) > tc_writeBufferSize s"
    let ?u = "if pause then ?t\<lparr> tc_producerPaused := True,
        tc_trace := tc_trace s @ [Accepted data, PauseProducing] \<rparr> else ?t"
    have none: "te_client E (tc_trace s @ [Accepted data, PauseProducing]) = []"
      using quiet spec [of "\<lambda>tr. te_client E (tr @ [PauseProducing]) = []" "tc_trace s @ [Accepted data]"]
      by (simp add: quiet_pause_def)
    have run: "tcp_write X E data s = startWriting E ?u"
      using False none
      by (simp add: tcp_write_def notify_def tcp_traceM_def runs bindM_unit pause_def)
    have packet: "packet_ok (new_packet data)"
      using False new_packet_ok by (simp add: packet_ok_def)
    have calm: "undisturbed (tc_trace ?u) \<longleftrightarrow> undisturbed (tc_trace s)"
      by (simp add: undisturbed_def)
    have put: "closing_ok s \<Longrightarrow> closing_ok ?u"
      using packet alive by (auto simp: closing_ok_def queue_put_def)
    have same: "tc_disconnected ?u = tc_disconnected s" "tc_writing ?u = tc_writing s" by simp_all
    show ?thesis
    proof (cases "tc_writing s")
      case True
      then have "snd (tcp_write X E data s) = ?u" by (simp add: run startWriting_def run_simps)
      then show ?thesis
        using put calm same True by (auto simp only: settles_def settled_def)
    next
      case w: False
      then have "tcp_write X E data s = doWrite E ?u" by (simp add: run startWriting_def run_simps)
      moreover have "settled s \<Longrightarrow> settled (snd (doWrite E ?u))"
        using doWrite_settles [OF doc, of ?u] put calm same alive w by (simp only: settled_def) blast
      moreover have "tc_disconnected (snd (doWrite E ?u)) = tc_disconnected s"
        using evolvesD [OF alive_doWrite, of ?u E] alive same
        unfolding alive_rel_def frame_def by simp
      ultimately show ?thesis by (auto simp only: settles_def)
    qed
  qed
qed

lemma settles_exec:
  assumes "quiet_pause E" "socket_documented E"
  shows "evolves settles (tcp_exec E n c)"
proof (induction n arbitrary: c)
  case (Suc n)
  show ?case
    using Suc.IH settles_write [OF assms]
    by (cases c) (auto simp: tcp_unregisterProducer_def
        intro: settles_lose settles_abort settles_register settles_modifyM se.ev_throwM)
qed (simp add: se.ev_throwM)

section \<open>Every step\<close>

lemma closeSocket_settles:
  assumes X: "\<And>c. evolves settles (X c)"
    and ok: "undisturbed (tc_trace s) \<longrightarrow> list_all packet_ok (tc_writeQueue s) \<and> tc_writeQueue s = []"
  shows "settled (snd (closeSocket X E s))"
proof -
  let ?s = "s\<lparr> tc_connected := False, tc_disconnected := True, tc_disconnecting := False,
       tc_aborting := False, tc_socketOpen := False \<rparr>"
  have "evolves settles (doM [withM (\<lambda>s. connectionLost_base X E (tc_error s)), tell_connector E])"
    unfolding connectionLost_base_def stop_producer_def tell_connector_def using X
    by (intro se.ev_rules settles_notify settles_traceM settles_modifyM) simp_all
  from evolvesD [OF this, of ?s]
  have "settled ?s \<longrightarrow> settled (snd (closeSocket X E s))"
    by (simp add: settles_def closeSocket_def runs)
  moreover have "settled ?s" using ok by (auto simp: settled_def closing_ok_def)
  ultimately show ?thesis by blast
qed

lemma settled_close:
  assumes X: "\<And>c. evolves settles (X c)" and "\<not> tc_disconnected s" and "closing_ok s"
    and "tc_writeQueue s = []"
  shows "settled (snd (closeSocket X E s))"
  using assms by (intro closeSocket_settles) (auto simp: closing_ok_def)

lemma after_write_closing:
  assumes ok: "closing_ok s" and n: "case tc_writeQueue s of [] \<Rightarrow> False | b # _ \<Rightarrow> n \<le> getActiveSize b"
  shows "closing_ok (after_write n s)"
proof -
  obtain b rest where q: "tc_writeQueue s = b # rest" and n: "n \<le> getActiveSize b"
    using n by (auto split: list.splits)
  have b: "packet_ok b" using ok q by (simp add: closing_ok_def)
  have "packet_ok (readCompleted n b)" if "getActiveSize (readCompleted n b) \<noteq> 0"
    using that b n packet_sizes(1) [OF b] readCompleted_ok [of b n] mb_sizes(1) [of "readCompleted n b"]
    by (auto simp: packet_ok_def)
  then show ?thesis using ok q by (auto simp: after_write_def closing_ok_def)
qed

lemma cbWrite_settled:
  assumes X: "\<And>c. evolves settles (X c)" and XN: "\<And>c. evolves nested_rel (X c)"
    and doc: "socket_documented E" and ok: "conn_ok s" "settled s"
    and fits: "\<And>n. res = Sent n \<Longrightarrow> (case tc_writeQueue s of [] \<Rightarrow> False | b # _ \<Rightarrow> n \<le> getActiveSize b)"
    and run: "cbWrite X E res s = (Inr (), t)"
  shows "settled t"
proof (cases "undisturbed (tc_trace t)")
  case calm: True
  let ?s = "s\<lparr> tc_writing := False \<rparr>"
  let ?then = "\<lambda>u. whenM (\<not> tc_aborting u \<and> \<not> tc_disconnected u)
      (if tc_writeQueue u \<noteq> [] then doWrite E else tcp_writeDone X E)"
  obtain u where u: "handleWrite X E res ?s = (Inr (), u)" and t: "?then u u = (Inr (), t)"
    using run by (auto simp: cbWrite_def runs bindM_unit elim!: bindM_okE)
  have ok_s: "conn_ok ?s" using ok(1) by (simp add: conn_ok_def life_ok_def drained_def measure_defs)
  note hw = handleWrite_ok [OF XN ok_s _ u]
  have th: "evolves alive_rel (?then u)"
    using XN by (intro ar.ev_rules alive_doWrite nested_alive [OF nested_writeDone])
  have ut: "set (tc_trace u) \<subseteq> set (tc_trace t)"
  proof (cases "tc_disconnected u")
    case True
    then show ?thesis using t by (simp add: run_simps)
  next
    case False
    from aliveD [OF th t False] show ?thesis by (rule nested_trace)
  qed
  have calm_u: "undisturbed (tc_trace u)" by (rule undisturbed_subset [OF ut calm])
  obtain n where n: "res = Sent n"
    using hw(2) fits calm_u by (cases res) (auto simp: undisturbed_def list_all_iff)
  have "set (tc_trace s) \<subseteq> set (tc_trace u)" using hw(1) fits by (auto simp: keeps_def)
  then have "closing_ok s" using undisturbed_subset calm_u ok(2) by (auto simp: settled_def)
  then have closing: "closing_ok ?s" by (simp add: closing_ok_def)
  let ?u = "after_write n ?s"
  have fits': "case tc_writeQueue ?s of [] \<Rightarrow> False | b # _ \<Rightarrow> n \<le> getActiveSize b"
    using fits [OF n] by simp
  then have q: "tc_writeQueue ?s \<noteq> []" by (auto split: list.splits)
  have w: "\<not> tc_writing ?u" and alive: "\<not> tc_disconnected ?u"
    using q closing by (auto simp: after_write_def closing_ok_def split: list.splits)
  have cu: "closing_ok ?u" by (rule after_write_closing [OF closing fits'])
  have step: "whenM (tc_disconnecting ?u \<and> tc_writeQueue ?u = [] \<or> tc_aborting ?u) (closeSocket X E) ?u = (Inr (), u)"
    using u handleWrite_sent [of n ?s X E] q n by simp
  show ?thesis
  proof (cases "tc_disconnecting ?u \<and> tc_writeQueue ?u = []")
    case True
    then have close: "closeSocket X E ?u = (Inr (), u)" using step by (simp add: run_simps)
    have ok_u: "conn_ok ?u" by (rule conn_nested [OF nested_after_write [OF ok_s fits'] ok_s])
    have "t = u" using t closeSocket_ok(2) [OF XN ok_u alive close] by (simp add: run_simps)
    then show ?thesis
      using settled_close [where X = X and E = E, OF X alive cu] True close by simp
  next
    case False
    then have "u = ?u" using step cu by (auto simp: run_simps closing_ok_def split: if_splits)
    then show ?thesis
      using t w alive cu doWrite_settles [OF doc, of ?u] evolvesD [OF settles_writeDone [where X = X and E = E, OF X], of ?u]
      by (auto simp: run_simps settles_def settled_def closing_ok_def split: if_splits)
  qed
qed (simp add: settled_def)

lemma failed_settled:
  assumes X: "\<And>c. evolves settles (X c)" and s: "settled s"
    and ev: "undisturbed [ev] \<Longrightarrow> tc_socketOpen s \<Longrightarrow> False"
    and run: "doM [tcp_traceM ev, withM (\<lambda>s. whenM (\<not> tc_disconnected s) (doM [
      (if aborted then (if tc_error s = None then throwM AssertionFailed else doM [])
       else modifyM (\<lambda>s. s\<lparr> tc_error := e \<rparr>)), closeSocket X E]))] s = (Inr (), t)"
  shows "settled t"
  using run
proof (cases rule: failed_cases)
  case 1
  then show ?thesis using s by (simp add: settled_def closing_ok_def undisturbed_def)
next
  case (2 e')
  let ?s = "s\<lparr> tc_trace := tc_trace s @ [ev], tc_error := e' \<rparr>"
  have "settled (snd (closeSocket X E ?s))"
  proof (rule closeSocket_settles [OF X])
    show "undisturbed (tc_trace ?s) \<longrightarrow> list_all packet_ok (tc_writeQueue ?s) \<and> tc_writeQueue ?s = []"
      using s ev 2(1) by (auto simp: settled_def closing_ok_def undisturbed_def)
  qed
  then show ?thesis using 2(2) by simp
qed

lemma settled_parts:
  assumes "settled s" "tc_writeQueue t = tc_writeQueue s" "tc_aborting t = tc_aborting s"
    "tc_disconnected t = tc_disconnected s" "tc_socketOpen t = tc_socketOpen s"
    "set (tc_callbacks t) \<subseteq> set (tc_callbacks s)" "tc_disconnecting t = tc_disconnecting s"
    "tc_writing t = tc_writing s" "tc_trace t = tc_trace s"
  shows "settled t"
  using assms by (auto simp: settled_def closing_ok_def)

lemma cbRead_settled:
  assumes X: "\<And>c. evolves settles (X c)" and ok: "settled s"
    and aborted: "res = Inl OperationAborted \<Longrightarrow> \<not> tc_socketOpen s"
    and run: "cbRead X E res s = (Inr (), t)"
  shows "settled t"
proof -
  obtain u where u: "handleRead X E res (s\<lparr> tc_reading := False \<rparr>) = (Inr (), u)"
    and t: "whenM (\<not> tc_disconnecting u \<and> \<not> tc_disconnected u) doRead u = (Inr (), t)"
    using run by (auto simp: cbRead_def runs bindM_unit elim!: bindM_okE)
  have s: "settled (s\<lparr> tc_reading := False \<rparr>)" by (rule settled_parts [OF ok]) simp_all
  have "settled u"
  proof (cases res)
    case (Inl ec)
    show ?thesis
      by (rule failed_settled [OF X s _ u [unfolded Inl handleRead_failed]])
         (use aborted Inl in \<open>auto simp: undisturbed_def\<close>)
  next
    case (Inr d)
    have "evolves settles (handleRead X E res)"
      unfolding Inr handleRead_def sum.case using X
      by (intro se.ev_rules settles_notify settles_modifyM) simp_all
    then show ?thesis using evolvesD [of settles "handleRead X E res"] u s by (metis settles_def snd_conv)
  qed
  then show ?thesis
    using t by (auto simp: doRead_def run_simps intro: settled_parts split: if_splits)
qed

lemma settles_connected: "(\<And>c. evolves settles (X c)) \<Longrightarrow> evolves settles (cbConnected X E)"
  unfolding cbConnected_def startReading_def doRead_def
  by (intro se.ev_rules settles_notify settles_modifyM) simp_all

lemma reactor_settled:
  assumes X: "\<And>c. evolves settles (X c)" and ok: "settled s" and c: "tc_callbacks s = c # cs"
    and run: "run_callback X E c (s\<lparr> tc_callbacks := cs \<rparr>) = (Inr (), t)"
  shows "settled t"
proof -
  let ?s = "s\<lparr> tc_callbacks := cs \<rparr>"
  have s: "settled ?s" by (rule settled_parts [OF ok]) (auto simp: c)
  show ?thesis
  proof (cases c)
    case CloseSocketCallback
    show ?thesis
    proof (cases "tc_disconnected s")
      case True
      then show ?thesis using run s CloseSocketCallback by (simp add: run_callback_def runs)
    next
      case False
      have "settled (snd (closeSocket X E ?s))"
        using ok c CloseSocketCallback False
        by (intro closeSocket_settles [OF X]) (auto simp: settled_def closing_ok_def)
      then show ?thesis using run False CloseSocketCallback by (simp add: run_callback_def runs)
    qed
  next
    case ProducingCallback
    have "evolves settles (run_callback X E c)"
      unfolding ProducingCallback run_callback_def tcp_callback.case using X
      by (intro se.ev_rules settles_writeDone settles_modifyM) simp_all
    then show ?thesis using evolvesD [of settles "run_callback X E c" ?s] run s by (simp add: settles_def)
  qed
qed

lemma step_settled:
  assumes env: "quiet_pause E" "socket_documented E" and ok: "conn_ok s" "settled s"
    and en: "tcp_enabled i s" and run: "tcp_step E n i s = (Inr (), t)"
  shows "settled t"
proof -
  note X = settles_exec [OF env, where n = n]
  show ?thesis
  proof (cases i)
    case Connect
    have "evolves settles (cbConnected (tcp_exec E n) E)" by (rule settles_connected) (rule X)
    from evolvesD [OF this, of s] show ?thesis using ok(2) run Connect by (simp add: settles_def)
  next
    case (ReadDone res)
    then have "cbRead (tcp_exec E n) E res s = (Inr (), t)" using run by simp
    then show ?thesis
      by (rule cbRead_settled [where X = "tcp_exec E n", OF X ok(2), rotated]) (use en ReadDone in auto)
  next
    case (WriteDone res)
    then have "cbWrite (tcp_exec E n) E res s = (Inr (), t)" using run by simp
    then show ?thesis
      by (rule cbWrite_settled [where X = "tcp_exec E n", OF X nested_exec env(2) ok, rotated])
         (use en WriteDone in auto)
  next
    case RunReactor
    then obtain c cs where c: "tc_callbacks s = c # cs" using en by (cases "tc_callbacks s") auto
    have "run_callback (tcp_exec E n) E c (s\<lparr> tc_callbacks := cs \<rparr>) = (Inr (), t)"
      using run RunReactor c by (simp add: runs bindM_unit)
    then show ?thesis by (rule reactor_settled [where X = "tcp_exec E n", OF X ok(2) c])
  next
    case (Call c)
    then show ?thesis using evolvesD [OF X, of s c] ok(2) run by (simp add: settles_def)
  qed
qed

lemma new_conn_ok: "conn_ok newTCPConnection" "settled newTCPConnection"
  by (simp_all add: newTCPConnection_def conn_ok_def life_ok_def drained_def measure_defs queue_ok_def
      queue_content_def getBufferSize_def settled_def closing_ok_def)
     (simp add: newMessageBuffer_def)

lemma reach_conn_ok: "tcp_reach E newTCPConnection s \<Longrightarrow> conn_ok s"
  using reach_conn new_conn_ok(1) by blast

lemma reach_settled:
  assumes "tcp_reach E newTCPConnection s" "quiet_pause E" "socket_documented E"
  shows "settled s"
  using assms
proof (induction rule: tcp_reach.induct)
  case (tcp_next s i n t)
  then show ?case using step_settled [of E s i n t] reach_conn_ok by blast
qed (rule new_conn_ok(2))

text \<open>C12: unless the socket fails, the peer ends the connection, someone aborts, or a producer makes
  calls when it is paused (\<open>tcp_close_in_pause\<close> shows what it can do), a connection is not reported lost
  before every octet it accepted has been written. Runs go on as long as no exception leaves a step and
  no undefined step is taken; \<open>socket_documented\<close> is what Boost.Asio promises of \<open>write_some\<close>.\<close>

theorem tcp_close_flushes:
  assumes "quiet_pause E" and "socket_documented E" and "tcp_reach E newTCPConnection s"
    and "undisturbed (tc_trace s)" and "tc_disconnected s"
  shows "sent s = accepted s"
proof -
  have "tc_writeQueue s = []"
    using reach_settled [OF assms(3,1,2)] assms(4,5) by (simp add: settled_def closing_ok_def)
  then show ?thesis
    using reach_conn_ok [OF assms(3)] by (simp add: conn_ok_def life_ok_def fifo_ok_def queue_content_def)
qed

section \<open>A close that never comes\<close>

text \<open>Nothing is under way any more that could close the socket.\<close>

definition hung :: "tcp_conn \<Rightarrow> bool" where
  "hung s \<longleftrightarrow> tc_disconnecting s \<and> \<not> tc_disconnected s \<and> \<not> tc_reading s \<and> \<not> tc_writing s
     \<and> tc_callbacks s = [] \<and> ConnectionMade \<in> set (tc_trace s)"

definition hang_rel :: "tcp_conn \<Rightarrow> tcp_conn \<Rightarrow> bool" where
  "hang_rel s t \<longleftrightarrow> (hung s \<longrightarrow> hung t \<and> tc_socketOpen t = tc_socketOpen s)"

interpretation ha: state_rel hang_rel
  by unfold_locales (auto simp: hang_rel_def)

lemma hang_modifyM:
  "(\<And>s. hung s \<Longrightarrow> hung (f s) \<and> tc_socketOpen (f s) = tc_socketOpen s) \<Longrightarrow> evolves hang_rel (modifyM f)"
  by (intro ha.ev_modifyM) (simp add: hang_rel_def)

lemma hang_notify: "(\<And>c. evolves hang_rel (X c)) \<Longrightarrow> evolves hang_rel (notify X E e)"
  unfolding notify_def tcp_traceM_def
  by (intro ha.ev_rules hang_modifyM ha.ev_doM) (auto simp: hung_def list_all_iff)

lemma hang_exec: "evolves hang_rel (tcp_exec E n c)"
proof (induction n arbitrary: c)
  case (Suc n)
  have closed: "evolves hang_rel (withM (\<lambda>s. if tcp_closed s \<or> b then doM [] else m))" for b and m :: "unit tcp_prog"
    by (intro ha.ev_withM) (simp add: hang_rel_def hung_def tcp_closed_def runs)
  show ?case
    using Suc.IH closed [where b = False]
    by (cases c)
       (auto simp: tcp_unregisterProducer_def tcp_registerProducer_def tcp_write_def tcp_loseConnection_def
         tcp_abortConnection_def hung_def simp del: doM.simps
         intro!: ha.ev_rules hang_notify hang_modifyM closed)
qed (simp add: ha.ev_throwM)

text \<open>A connection that is being closed and has nothing under way stays so: whatever is
  called, its socket stays as it is and \<open>connectionLost\<close> is never called.\<close>

lemma tcp_hung_forever:
  assumes "tcp_reach E newTCPConnection s" and "hung s" and "tcp_reach E s t"
  shows "hung t \<and> tc_socketOpen t = tc_socketOpen s \<and> lost_reports t = 0"
proof -
  from assms(3,2) have t: "hung t \<and> tc_socketOpen t = tc_socketOpen s \<and> tcp_reach E newTCPConnection t"
  proof (induction rule: tcp_reach.induct)
    case tcp_start
    then show ?case using assms(1) by simp
  next
    case (tcp_next u i n v)
    then have u: "hung u" "tc_socketOpen u = tc_socketOpen s" "tcp_reach E newTCPConnection u" by simp_all
    obtain c where "i = Call c"
      using tcp_next.hyps(2) u(1) by (cases i) (auto simp: hung_def)
    then have "hang_rel u v" using evolvesD [OF hang_exec, of u E n c] tcp_next.hyps(3) by simp
    then show ?case
      using u tcp_reach.tcp_next [OF u(3) tcp_next.hyps(2,3)] by (simp add: hang_rel_def)
  qed
  then have "conn_ok t" using reach_conn_ok by blast
  then show ?thesis using t by (simp add: conn_ok_def life_ok_def hung_def)
qed

text \<open>C18: a read that completes with data after the connection was lost is still handed to the
  protocol, after its \<open>connectionLost\<close>.\<close>

theorem tcp_data_after_loss:
  assumes "tcp_reach E newTCPConnection s" and "tc_disconnected s" and "tcp_enabled (ReadDone (Inr d)) s"
  shows "lost_reports s = 1 \<and>
    prefix (tc_trace s @ [DataReceived d]) (tc_trace (snd (tcp_step E n (ReadDone (Inr d)) s)))"
proof -
  have ok: "conn_ok s" by (rule reach_conn_ok [OF assms(1)])
  then have s: "lost_reports s = 1" "\<not> tc_disconnecting s" "mb_ok (tc_readBuffer s)"
      "mb_rpos (tc_readBuffer s) = 0" "mb_wpos (tc_readBuffer s) = 0"
    using assms(2,3) by (simp_all add: conn_ok_def life_ok_def)
  have fits: "mb_wpos (tc_readBuffer s) + length d \<le> length (mb_storage (tc_readBuffer s))"
    using assms(3) mb_sizes(3) [OF s(3)] s(5) by simp
  let ?b = "mb_copy d (tc_readBuffer s)"
  let ?s = "s\<lparr> tc_reading := False, tc_readBuffer := ?b, tc_trace := tc_trace s @ [DataReceived d] \<rparr>"
  have "mb_content (tc_readBuffer s) = []" using s by (simp add: mb_content_def mb_read_def)
  then have b: "mb_read (getActiveSize ?b) ?b = d"
    using mb_copy_ok(1,2) [OF s(3) fits] mb_sizes(1) [of ?b] mb_read_content [of ?b] by simp
  let ?calls = "doM (List.map (tcp_exec E n) (te_client E (tc_trace s @ [DataReceived d])))"
  have "evolves nested_rel ?calls" by (intro nr.ev_doM) (simp add: list_all_iff nested_exec)
  then have calls: "prefix (tc_trace ?s) (tc_trace (snd (?calls ?s)))"
    using evolvesD [of nested_rel ?calls ?s] unfolding nested_rel_def frame_def by blast
  obtain r u where c: "?calls ?s = (r, u)" by fastforce
  have "tc_trace (snd (tcp_step E n (ReadDone (Inr d)) s)) = tc_trace u"
  proof (cases r)
    case (Inl e)
    then show ?thesis
      using s(2) b
      by (simp add: bindM_fails [where m = ?calls and s = ?s, OF c [unfolded Inl]]
        cbRead_def handleRead_def notify_def tcp_traceM_def runs)
  next
    case (Inr x)
    then show ?thesis
      using s(2) b
      by (simp add: bindM_after [where m = ?calls and s = ?s, OF c [unfolded Inr]]
        cbRead_def handleRead_def notify_def tcp_traceM_def runs doRead_def)
  qed
  then show ?thesis using calls s(1) c by simp
qed

end
