(* ===== verification/Tcp_Examples.thy ===== *)
theory Tcp_Examples
  imports Tcp_Closing
begin

text \<open>
  Runs of a connection whose protocol writes two octets as soon as it is connected, to a socket
  that takes nothing before the first completion and everything after it. They are the concrete
  cases of the theorems on TCP connections: one is closed while its write is under way, and
  hangs; one fails, and is given data after its loss; one is closed and lost in order.
\<close>

definition example_client :: "tcp_event list \<Rightarrow> tcp_call list" where
  "example_client tr = (if tr \<noteq> [] \<and> last tr = ConnectionMade then [CallWriteData [1, 2]] else [])"

definition example_socket :: "tcp_event list \<Rightarrow> bytes \<Rightarrow> write_outcome" where
  "example_socket tr d = (if list_ex (\<lambda>e. case e of SocketWrote _ \<Rightarrow> True | _ \<Rightarrow> False) tr
     then Sent (length d) else NotSent WouldBlock)"

definition tcp_example :: tcp_env where
  "tcp_example = \<lparr> te_isClient = False, te_client = example_client, te_write_some = example_socket \<rparr>"

lemma tcp_example_simps [simp]:
  "te_isClient tcp_example = False" "te_client tcp_example = example_client"
  "te_write_some tcp_example = example_socket"
  by (simp_all add: tcp_example_def)

lemma tcp_example_env: "quiet_pause tcp_example" "socket_documented tcp_example"
  by (auto simp: quiet_pause_def socket_documented_def example_client_def example_socket_def split: if_splits)

definition two_octets :: message_buffer where
  "two_octets = \<lparr> mb_wpos = 2, mb_rpos = 0, mb_storage = [1, 2] \<rparr>"

text \<open>Connected: the packet could not be written at once, a read is started.\<close>

definition tcp_made :: tcp_conn where
  "tcp_made = newTCPConnection\<lparr> tc_connected := True, tc_reading := True, tc_writing := True,
     tc_writeQueue := [two_octets], tc_trace := [ConnectionMade, Accepted [1, 2]] \<rparr>"

lemma example_packet: "new_packet [1, 2] = two_octets"
  by (simp add: new_packet_def newMessageBufferSize_def mb_copy_def writeCompleted_def two_octets_def)

lemma example_sizes:
  "getActiveSize two_octets = 2" "mb_read 2 two_octets = [1, 2]"
  "getActiveSize (readCompleted 1 two_octets) = 1" "mb_read 1 (readCompleted 1 two_octets) = [2]"
  "mb_read 1 two_octets = [1]" "getActiveSize (readCompleted 2 two_octets) = 0"
  by (simp_all add: two_octets_def getActiveSize_def mb_read_def readCompleted_def)

lemma example_read_buffer:
  "normalize newMessageBuffer = newMessageBuffer" "ensureFreeSpace newMessageBuffer = newMessageBuffer"
  "getRemainingSpace newMessageBuffer = 4096"
  by (simp_all add: newMessageBuffer_def normalize_def ensureFreeSpace_def getRemainingSpace_def)

lemma step_made: "tcp_step tcp_example 2 Connect newTCPConnection = (Inr (), tcp_made)"
  by (simp add: cbConnected_def notify_def tcp_traceM_def runs bindM_unit numeral_2_eq_2 newTCPConnection_def
      example_client_def tcp_write_def tcp_closed_def queue_put_def example_packet startWriting_def
      doWrite_def socket_write_def example_socket_def startReading_def doRead_def example_read_buffer
      tcp_made_def Let_def)

definition tcp_leaving :: tcp_conn where
  "tcp_leaving = tcp_made\<lparr> tc_error := Some ConnectionDone, tc_disconnecting := True \<rparr>"

text \<open>The pending write takes one octet, the loop of \<open>doWrite\<close> the other.\<close>

definition tcp_drained :: tcp_conn where
  "tcp_drained = tcp_leaving\<lparr> tc_writing := False, tc_writeQueue := [],
     tc_trace := [ConnectionMade, Accepted [1, 2], SocketWrote [1], SocketWrote [2]] \<rparr>"

definition tcp_hung :: tcp_conn where
  "tcp_hung = tcp_drained\<lparr> tc_reading := False, tc_readBuffer := mb_copy [5] newMessageBuffer \<rparr>"

text \<open>The pending write takes both octets: the connection is closed in order.\<close>

definition tcp_gone :: tcp_conn where
  "tcp_gone = tcp_leaving\<lparr> tc_writing := False, tc_writeQueue := [], tc_connected := False,
     tc_disconnected := True, tc_disconnecting := False, tc_socketOpen := False,
     tc_trace := [ConnectionMade, Accepted [1, 2], SocketWrote [1, 2], ConnectionLost (Some ConnectionDone)] \<rparr>"

definition tcp_failed :: tcp_conn where
  "tcp_failed = tcp_made\<lparr> tc_writing := False, tc_connected := False, tc_disconnected := True,
     tc_socketOpen := False, tc_error := Some (SystemError 104),
     tc_trace := [ConnectionMade, Accepted [1, 2], WriteFailed (SocketFailure 104),
       ConnectionLost (Some (SystemError 104))] \<rparr>"

lemmas example_states = tcp_made_def tcp_leaving_def tcp_drained_def tcp_hung_def tcp_gone_def tcp_failed_def
  newTCPConnection_def

lemma example_client_none: "last (e # tr) \<noteq> ConnectionMade \<Longrightarrow> example_client (e # tr) = []"
  by (simp add: example_client_def)

lemma step_leaving: "tcp_step tcp_example 1 (Call CallLoseConnection) tcp_made = (Inr (), tcp_leaving)"
  by (simp add: tcp_loseConnection_def tcp_closed_def doClose_def runs bindM_unit example_states)

lemma step_drained: "tcp_step tcp_example 1 (WriteDone (Sent 1)) tcp_leaving = (Inr (), tcp_drained)"
  by (simp add: cbWrite_def handleWrite_def tcp_traceM_def runs bindM_unit example_states example_sizes
      doWrite_def socket_write_def example_socket_def Let_def queue_emptied_def producer_waits_def
      example_sizes [unfolded One_nat_def])

lemma step_hung: "tcp_step tcp_example 1 (ReadDone (Inr [5])) tcp_drained = (Inr (), tcp_hung)"
  by (simp add: cbRead_def handleRead_def runs bindM_unit example_states)

lemma step_gone: "tcp_step tcp_example 1 (WriteDone (Sent 2)) tcp_leaving = (Inr (), tcp_gone)"
  by (simp add: cbWrite_def handleWrite_def tcp_traceM_def runs bindM_unit example_states example_sizes
      closeSocket_def connectionLost_base_def stop_producer_def tell_connector_def notify_def
      example_client_none)

lemma step_failed:
  "tcp_step tcp_example 1 (WriteDone (NotSent (SocketFailure 104))) tcp_made = (Inr (), tcp_failed)"
  by (simp add: cbWrite_def handleWrite_def tcp_traceM_def runs bindM_unit example_states
      closeSocket_def connectionLost_base_def stop_producer_def tell_connector_def notify_def
      example_client_none)

lemma reach_made: "tcp_reach tcp_example newTCPConnection tcp_made"
  by (rule tcp_next [OF tcp_start _ step_made]) (simp add: newTCPConnection_def)

lemma reach_leaving: "tcp_reach tcp_example newTCPConnection tcp_leaving"
  by (rule tcp_next [OF reach_made _ step_leaving]) (simp add: tcp_made_def)

lemma reach_drained: "tcp_reach tcp_example newTCPConnection tcp_drained"
  by (rule tcp_next [OF reach_leaving _ step_drained]) (simp add: tcp_leaving_def tcp_made_def example_sizes)

lemma reach_hung: "tcp_reach tcp_example newTCPConnection tcp_hung"
  by (rule tcp_next [OF reach_drained _ step_hung])
     (simp add: tcp_drained_def tcp_leaving_def tcp_made_def newTCPConnection_def example_read_buffer)

lemma reach_gone: "tcp_reach tcp_example newTCPConnection tcp_gone"
  by (rule tcp_next [OF reach_leaving _ step_gone]) (simp add: tcp_leaving_def tcp_made_def example_sizes)

lemma reach_failed: "tcp_reach tcp_example newTCPConnection tcp_failed"
  by (rule tcp_next [OF reach_made _ step_failed]) (simp add: tcp_made_def)

lemma tcp_fifo_witness:
  "sent tcp_drained @ queue_content (tc_writeQueue tcp_drained) = accepted tcp_drained"
  by (rule tcp_fifo [OF reach_drained])

lemma tcp_lost_once_witness: "lost_reports tcp_gone = 1"
  using tcp_lost_once [OF reach_gone] by (simp add: tcp_gone_def)

lemma tcp_read_room_witness: "getRemainingSpace (tc_readBuffer tcp_made) = 4096"
  using tcp_read_room [OF reach_made] by (simp add: tcp_made_def)

lemma tcp_close_flushes_witness: "sent tcp_gone = accepted tcp_gone"
  by (rule tcp_close_flushes [OF tcp_example_env reach_gone])
     (simp_all add: tcp_gone_def undisturbed_def)

lemma hung_example: "hung tcp_hung"
  by (simp add: hung_def example_states)

lemma tcp_hung_forever_witness: "hung tcp_hung \<and> lost_reports tcp_hung = 0"
  using tcp_hung_forever [OF reach_hung hung_example tcp_start] by simp

lemma tcp_data_after_loss_witness:
  "lost_reports tcp_failed = 1 \<and> prefix (tc_trace tcp_failed @ [DataReceived [5]])
     (tc_trace (snd (tcp_step tcp_example 1 (ReadDone (Inr [5])) tcp_failed)))"
  by (rule tcp_data_after_loss [OF reach_failed])
     (simp_all add: example_states example_read_buffer)

section \<open>A producer that closes when it is paused\<close>

text \<open>
  A streaming producer that calls \<open>loseConnection\<close> in \<open>pauseProducing\<close>. The call finds no read and no
  write under way, although a packet is queued, and gives the close to the reactor; then the write
  is started and would block. The close reports the connection lost with everything unwritten. This is why
  \<open>tcp_close_flushes\<close> asks for a producer that makes no call when it is paused.
\<close>

definition pausing_client :: "bytes \<Rightarrow> tcp_event list \<Rightarrow> tcp_call list" where
  "pausing_client d tr = (if last tr = ConnectionMade then [CallRegisterProducer True, CallWriteData d]
     else if last tr = PauseProducing then [CallLoseConnection] else [])"

definition pausing :: "bytes \<Rightarrow> tcp_env" where
  "pausing d = \<lparr> te_isClient = False, te_client = pausing_client d, te_write_some = (\<lambda>tr e. NotSent WouldBlock) \<rparr>"

lemma pausing_simps [simp]:
  "te_isClient (pausing d) = False" "te_client (pausing d) = pausing_client d"
  "te_write_some (pausing d) = (\<lambda>tr e. NotSent WouldBlock)"
  by (simp_all add: pausing_def)

lemma pausing_client_calls:
  "pausing_client d [ConnectionMade] = [CallRegisterProducer True, CallWriteData d]"
  "pausing_client d [ConnectionMade, Accepted d, PauseProducing] = [CallLoseConnection]"
  "pausing_client d [ConnectionMade, Accepted d, PauseProducing, StopProducing] = []"
  "pausing_client d [ConnectionMade, Accepted d, PauseProducing, StopProducing, ConnectionLost r] = []"
  by (simp_all add: pausing_client_def)

definition paused_made :: "bytes \<Rightarrow> tcp_conn" where
  "paused_made d = newTCPConnection\<lparr> tc_connected := True, tc_writing := True, tc_disconnecting := True,
     tc_error := Some ConnectionDone, tc_producer := True, tc_streamingProducer := True, tc_producerPaused := True,
     tc_writeQueue := [new_packet d], tc_callbacks := [CloseSocketCallback],
     tc_trace := [ConnectionMade, Accepted d, PauseProducing] \<rparr>"

definition paused_lost :: "bytes \<Rightarrow> tcp_conn" where
  "paused_lost d = (paused_made d)\<lparr> tc_connected := False, tc_disconnected := True, tc_disconnecting := False,
     tc_socketOpen := False, tc_producer := False, tc_callbacks := [],
     tc_trace := [ConnectionMade, Accepted d, PauseProducing, StopProducing, ConnectionLost (Some ConnectionDone)] \<rparr>"

lemma step_paused_made:
  assumes "length d > 65536"
  shows "tcp_step (pausing d) 3 Connect newTCPConnection = (Inr (), paused_made d)"
proof -
  have "getActiveSize (new_packet d) = length d"
    using mb_sizes(1) [OF new_packet_ok(1) [of d]] by (simp add: new_packet_ok)
  moreover have "d \<noteq> []" using assms by auto
  ultimately show ?thesis
    using assms
    by (simp add: cbConnected_def notify_def tcp_traceM_def runs bindM_unit numeral_3_eq_3 newTCPConnection_def
        pausing_client_calls tcp_registerProducer_def tcp_write_def tcp_closed_def queue_put_def queue_size_def
        tcp_loseConnection_def doClose_def addCallback_def startWriting_def doWrite_def socket_write_def
        paused_made_def Let_def)
qed

lemma step_paused_lost: "tcp_step (pausing d) 1 RunReactor (paused_made d) = (Inr (), paused_lost d)"
  by (simp add: run_callback_def closeSocket_def connectionLost_base_def stop_producer_def tell_connector_def
      notify_def tcp_traceM_def runs bindM_unit paused_made_def paused_lost_def newTCPConnection_def
      pausing_client_calls)

lemma tcp_close_in_pause:
  assumes "length d > 65536"
  shows "tcp_reach (pausing d) newTCPConnection (paused_lost d)" "undisturbed (tc_trace (paused_lost d))"
    "tc_disconnected (paused_lost d)" "accepted (paused_lost d) = d" "sent (paused_lost d) = []"
proof -
  have "tcp_reach (pausing d) newTCPConnection (paused_made d)"
    by (rule tcp_next [OF tcp_start _ step_paused_made [OF assms]]) (simp add: newTCPConnection_def)
  then show "tcp_reach (pausing d) newTCPConnection (paused_lost d)"
    by (rule tcp_next [OF _ _ step_paused_lost]) (simp add: paused_made_def)
qed (simp_all add: paused_lost_def undisturbed_def measure_defs)

end
