(* ===== verification/Deferred.thy ===== *)
theory Deferred
  imports Net_Prelude
begin

text \<open>
  \<open>Deferred\<close> of \<open>core/network/defer.h\<close> and \<open>defer.cpp\<close>: a value that is not there yet, with the
  callbacks that wait for it. The objects live in a heap, a map from addresses; a shared and a
  weak pointer to an object are told apart, but objects are not freed.

  A callback of the program is a name of type \<open>'f\<close>, and the environment says what it does: the
  calls it makes on deferreds, which re-enter them, and then the value it returns or the
  exception it throws. \<open>def_exec E n\<close> executes a call with \<open>n\<close> nested calls and \<open>n\<close> rounds of each
  loop at most; running out of them is the error \<open>OutOfFuel\<close>. \<open>Fatal\<close> is a failed assertion
  or a dangling address, which no handler catches.
\<close>

section \<open>Values and objects\<close>

text \<open>
  \<open>NullError\<close> is an empty exception pointer and \<open>DGone\<close> an empty shared or weak pointer, both of
  which a move leaves behind. \<open>DBoxed v\<close> is a value whose \<open>boost::any\<close> holds the
  \<open>DeferredValue\<close> \<open>v\<close>: the constructor template \<open>DeferredValue(ValueT &&)\<close> is a better match
  than the copy constructor for a variable that is not constant, so copying one into a parameter
  or a returned value boxes it. \<open>DResults\<close> is the vector of a \<open>DeferredList\<close>.
\<close>

type_synonym addr = nat

datatype def_error =
    AlreadyCalledError
  | CancelledError
  | TimeoutError
  | UserError string
  | NullError
  | Fatal
  | OutOfFuel

datatype 'v dvalue =
    DNull
  | DValue 'v
  | DEmpty
  | DError def_error
  | DShared addr
  | DWeak addr
  | DGone
  | DBoxed "'v dvalue"
  | DResults "'v dvalue list"

text \<open>
  The function objects in a callback list: the identity that \<open>addCallbacks\<close> supplies, a function
  of the program, a \<open>Continuation\<close>, the two lambdas of \<open>chainDeferred\<close>, the two of \<open>addTimeout\<close>
  and those of \<open>DeferredList::wait\<close>.
\<close>

datatype 'f dfun =
    Identity
  | User 'f
  | Continuation addr
  | ChainCallback addr
  | ChainErrback addr
  | TimeoutCheck nat "'f option"
  | TimeoutStop nat
  | ListCallback addr nat bool

record ('v, 'f) deferred =
  df_called :: bool
  df_suppressAlreadyCalled :: bool
  df_runningCallbacks :: bool
  df_paused :: int
  df_chainTo :: "addr option"
  df_callbacks :: "('f dfun \<times> 'f dfun) list"
  df_canceller :: "'f option"
  df_result :: "'v dvalue"

record 'v def_list =
  dl_fireOnOneCallback :: bool
  dl_fireOnOneErrback :: bool
  dl_consumeErrors :: bool
  dl_deferredList :: "addr list"
  dl_resultList :: "'v dvalue list"
  dl_finishedCount :: nat

text \<open>\<open>dh_lists\<close> holds the further members of the objects that are a \<open>DeferredList\<close>; \<open>dh_timers\<close> holds, for each call of \<open>addTimeout\<close>, its flag and whether the call is pending.\<close>

record ('v, 'f) def_heap =
  dh_objects :: "addr \<rightharpoonup> ('v, 'f) deferred"
  dh_lists :: "addr \<rightharpoonup> 'v def_list"
  dh_timers :: "(addr \<times> bool \<times> bool) list"
  dh_trace :: "(addr \<times> 'f dfun \<times> 'v dvalue) list"

type_synonym ('v, 'f, 'a) def_prog = "(def_error, ('v, 'f) def_heap, 'a) prog"

datatype ('v, 'f) def_call =
    CallCallback addr "'v dvalue"
  | CallFire addr "'v dvalue"
  | CallErrback addr "'v dvalue"
  | CallAddCallbacks addr "'f dfun" "'f dfun option"
  | CallChainDeferred addr addr
  | CallAddTimeout addr "'f option"
  | CallPause addr
  | CallUnpause addr
  | CallCancel addr
  | CallSetCanceller addr 'f
  | CallTimer nat
  | CallWait addr "addr list"

text \<open>
  What a function of the program does, given its argument and the trace: calls, and then the
  value it returns or the exception that leaves it. A canceller is given its deferred.
\<close>

record ('v, 'f) def_env =
  de_calls :: "'f \<Rightarrow> 'v dvalue \<Rightarrow> (addr \<times> 'f dfun \<times> 'v dvalue) list \<Rightarrow> ('v, 'f) def_call list"
  de_returns :: "'f \<Rightarrow> 'v dvalue \<Rightarrow> def_error + 'v dvalue"

definition newDeferred :: "'f option \<Rightarrow> ('v, 'f) deferred" where
  "newDeferred canceller =
     \<lparr> df_called = False, df_suppressAlreadyCalled = False, df_runningCallbacks = False, df_paused = 0,
       df_chainTo = None, df_callbacks = [], df_canceller = canceller, df_result = DEmpty \<rparr>"

fun isError :: "'v dvalue \<Rightarrow> bool" where
  "isError (DError e) = True"
| "isError v = False"

fun isDeferred :: "'v dvalue \<Rightarrow> bool" where
  "isDeferred (DShared a) = True"
| "isDeferred (DWeak a) = True"
| "isDeferred DGone = True"
| "isDeferred v = False"

fun asDeferred :: "'v dvalue \<Rightarrow> addr option" where
  "asDeferred (DShared a) = Some a"
| "asDeferred (DWeak a) = Some a"
| "asDeferred v = None"

fun releaseDeferred :: "'v dvalue \<Rightarrow> 'v dvalue" where
  "releaseDeferred (DShared a) = DWeak a"
| "releaseDeferred v = v"

fun restoreDeferred :: "'v dvalue \<Rightarrow> 'v dvalue" where
  "restoreDeferred (DWeak a) = DShared a"
| "restoreDeferred v = v"

text \<open>What a move leaves behind.\<close>

fun moved_from :: "'v dvalue \<Rightarrow> 'v dvalue" where
  "moved_from (DError e) = DError NullError"
| "moved_from (DShared a) = DGone"
| "moved_from (DWeak a) = DGone"
| "moved_from DGone = DGone"
| "moved_from DEmpty = DEmpty"
| "moved_from v = DNull"

definition withD :: "addr \<Rightarrow> (('v, 'f) deferred \<Rightarrow> ('v, 'f, 'a) def_prog) \<Rightarrow> ('v, 'f, 'a) def_prog" where
  "withD a f = withM (\<lambda>s. case dh_objects s a of None \<Rightarrow> throwM Fatal | Some d \<Rightarrow> f d)"

definition updateD ::
  "addr \<Rightarrow> (('v, 'f) deferred \<Rightarrow> ('v, 'f) deferred) \<Rightarrow> ('v, 'f, unit) def_prog" where
  "updateD a f = withD a (\<lambda>d. modifyM (\<lambda>s. s\<lparr> dh_objects := (dh_objects s)(a \<mapsto> f d) \<rparr>))"

definition withL :: "addr \<Rightarrow> ('v def_list \<Rightarrow> ('v, 'f, 'a) def_prog) \<Rightarrow> ('v, 'f, 'a) def_prog" where
  "withL a f = withM (\<lambda>s. case dh_lists s a of None \<Rightarrow> throwM Fatal | Some d \<Rightarrow> f d)"

definition updateL ::
  "addr \<Rightarrow> ('v def_list \<Rightarrow> 'v def_list) \<Rightarrow> ('v, 'f, unit) def_prog" where
  "updateL a f = withL a (\<lambda>d. modifyM (\<lambda>s. s\<lparr> dh_lists := (dh_lists s)(a \<mapsto> f d) \<rparr>))"

section \<open>Running the callbacks\<close>

text \<open>What a callback does with its argument, \<open>X\<close> executing the calls it makes.\<close>

definition run_function ::
  "(('v, 'f) def_call \<Rightarrow> ('v, 'f, unit) def_prog) \<Rightarrow> ('v, 'f) def_env \<Rightarrow> 'f \<Rightarrow> 'v dvalue
     \<Rightarrow> ('v, 'f, 'v dvalue) def_prog" where
  "run_function X E f v = withM (\<lambda>s. thenM (List.map X (de_calls E f v (dh_trace s)))
     (case de_returns E f v of Inl e \<Rightarrow> throwM e | Inr r \<Rightarrow> returnM r))"

text \<open>\<open>DeferredList::cbDeferred\<close>, which returns the element of the vector by value.\<close>

definition cbDeferred ::
  "(('v, 'f) def_call \<Rightarrow> ('v, 'f, unit) def_prog) \<Rightarrow> addr \<Rightarrow> 'v dvalue \<Rightarrow> nat \<Rightarrow> bool
     \<Rightarrow> ('v, 'f, 'v dvalue) def_prog" where
  "cbDeferred X a result index succeeded = thenM [
     updateL a (\<lambda>l. l\<lparr> dl_resultList := (dl_resultList l)[index := result],
       dl_finishedCount := dl_finishedCount l + 1 \<rparr>),
     withD a (\<lambda>d. whenM (\<not> df_called d) (withL a (\<lambda>l.
       if succeeded \<and> dl_fireOnOneCallback l then X (CallFire a (dl_resultList l ! index))
       else if \<not> succeeded \<and> dl_fireOnOneErrback l then X (CallErrback a (dl_resultList l ! index))
       else whenM (dl_finishedCount l = length (dl_resultList l))
         (X (CallFire a (DResults (dl_resultList l))))))),
     withL a (\<lambda>l. whenM (\<not> succeeded \<and> dl_consumeErrors l)
       (updateL a (\<lambda>l. l\<lparr> dl_resultList := (dl_resultList l)[index := DNull] \<rparr>)))]
     (withL a (\<lambda>l. returnM (DBoxed (dl_resultList l ! index))))"

fun run_dfun ::
  "(('v, 'f) def_call \<Rightarrow> ('v, 'f, unit) def_prog) \<Rightarrow> ('v, 'f) def_env \<Rightarrow> 'f dfun \<Rightarrow> 'v dvalue
     \<Rightarrow> ('v, 'f, 'v dvalue) def_prog" where
  "run_dfun X E Identity v = returnM v"
| "run_dfun X E (User f) v = run_function X E f v"
| "run_dfun X E (Continuation a) v = returnM v"
| "run_dfun X E (ChainCallback a) v = retM [X (CallCallback a v)] DNull"
| "run_dfun X E (ChainErrback a) v = retM [X (CallErrback a v)] DNull"
| "run_dfun X E (TimeoutCheck i onTimeoutCancel) v = withM (\<lambda>s.
     if fst (snd (dh_timers s ! i)) then
       (case onTimeoutCancel of
          Some f \<Rightarrow> run_function X E f (DBoxed v)
        | None \<Rightarrow> if isError v then throwM TimeoutError else returnM v)
     else returnM v)"
| "run_dfun X E (TimeoutStop i) v = retM [modifyM (\<lambda>s. s\<lparr> dh_timers := (dh_timers s)[i :=
     (fst (dh_timers s ! i), fst (snd (dh_timers s ! i)), False)] \<rparr>)] v"
| "run_dfun X E (ListCallback a index succeeded) v = cbDeferred X a v index succeeded"

definition fatal :: "def_error \<Rightarrow> bool" where
  "fatal e \<longleftrightarrow> e = Fatal \<or> e = OutOfFuel"

text \<open>
  One callback under its \<open>RunningGuard\<close>: the result is moved out, and what is returned or thrown
  becomes the new result.
\<close>

definition call_back ::
  "(('v, 'f) def_call \<Rightarrow> ('v, 'f, unit) def_prog) \<Rightarrow> ('v, 'f) def_env \<Rightarrow> addr \<Rightarrow> 'f dfun
     \<Rightarrow> ('v, 'f, unit) def_prog" where
  "call_back X E current f = withD current (\<lambda>d. doM [
     modifyM (\<lambda>s. s\<lparr> dh_trace := dh_trace s @ [(current, f, df_result d)] \<rparr>),
     updateD current (\<lambda>d. d\<lparr> df_runningCallbacks := True, df_result := moved_from (df_result d) \<rparr>),
     bindM (tryM (run_dfun X E f (df_result d))
         (\<lambda>e. if fatal e then throwM e else returnM (DError e)))
       (\<lambda>r. if asDeferred r = Some current then throwM Fatal
            else updateD current (\<lambda>d. d\<lparr> df_runningCallbacks := False, df_result := r \<rparr>))])"

text \<open>
  A result that is itself a deferred: wait for it, or take its result. The source holds a
  reference to the inner result, sets the inner result to null and then copies the reference.
\<close>

definition adopt_result :: "addr \<Rightarrow> addr \<Rightarrow> ('v, 'f, bool) def_prog" where
  "adopt_result current inner = withD inner (\<lambda>r.
     if df_result r = DEmpty \<or> isDeferred (df_result r) \<or> df_paused r > 0 then retM [
       updateD current (\<lambda>d. d\<lparr> df_paused := df_paused d + 1, df_chainTo := Some inner,
         df_result := releaseDeferred (df_result d) \<rparr>),
       updateD inner (\<lambda>r. r\<lparr> df_callbacks :=
         df_callbacks r @ [(Continuation current, Continuation current)] \<rparr>)] False
     else retM [
       updateD inner (\<lambda>r. r\<lparr> df_result := DNull \<rparr>),
       withD inner (\<lambda>r. updateD current (\<lambda>d. d\<lparr> df_result := df_result r \<rparr>))] True)"

datatype inner_exit = Finished | Chainee addr

fun inner_loop ::
  "(('v, 'f) def_call \<Rightarrow> ('v, 'f, unit) def_prog) \<Rightarrow> ('v, 'f) def_env \<Rightarrow> nat \<Rightarrow> addr
     \<Rightarrow> ('v, 'f, inner_exit) def_prog" where
  "inner_loop X E 0 current = throwM OutOfFuel"
| "inner_loop X E (Suc n) current = withD current (\<lambda>d. case df_callbacks d of
      [] \<Rightarrow> returnM Finished
    | (cb, eb) # rest \<Rightarrow>
      let f = (if isError (df_result d) then eb else cb) in
      thenM [updateD current (\<lambda>d. d\<lparr> df_callbacks := rest \<rparr>)]
        (case f of
           Continuation chainee \<Rightarrow> retM [
             withD current (\<lambda>d. updateD chainee (\<lambda>c. c\<lparr> df_result := df_result d \<rparr>)),
             updateD current (\<lambda>d. d\<lparr> df_result := DNull \<rparr>),
             updateD chainee (\<lambda>c. c\<lparr> df_paused := df_paused c - 1 \<rparr>)] (Chainee chainee)
         | _ \<Rightarrow> thenM [call_back X E current f] (withD current (\<lambda>d.
             if \<not> isDeferred (df_result d) then inner_loop X E n current
             else case asDeferred (df_result d) of
               None \<Rightarrow> throwM Fatal
             | Some inner \<Rightarrow> bindM (adopt_result current inner) (\<lambda>go.
                 if go then inner_loop X E n current else returnM Finished)))))"

text \<open>The outer loop, with the last element of the vector first.\<close>

fun chain_loop ::
  "(('v, 'f) def_call \<Rightarrow> ('v, 'f, unit) def_prog) \<Rightarrow> ('v, 'f) def_env \<Rightarrow> nat \<Rightarrow> nat \<Rightarrow> addr list
     \<Rightarrow> ('v, 'f, unit) def_prog" where
  "chain_loop X E m 0 chain = throwM OutOfFuel"
| "chain_loop X E m (Suc n) chain = (case chain of
      [] \<Rightarrow> doM []
    | current # rest \<Rightarrow> withD current (\<lambda>d.
        if df_paused d > 0 then doM []
        else thenM [updateD current (\<lambda>d. d\<lparr> df_chainTo := None \<rparr>)]
          (bindM (inner_loop X E m current) (\<lambda>exit. case exit of
             Finished \<Rightarrow> chain_loop X E m n rest
           | Chainee c \<Rightarrow> chain_loop X E m n (c # current # rest)))))"

definition runCallbacks ::
  "(('v, 'f) def_call \<Rightarrow> ('v, 'f, unit) def_prog) \<Rightarrow> ('v, 'f) def_env \<Rightarrow> nat \<Rightarrow> addr
     \<Rightarrow> ('v, 'f, unit) def_prog" where
  "runCallbacks X E n a = withD a (\<lambda>d.
     if df_runningCallbacks d then doM [] else chain_loop X E n n [a])"

section \<open>The operations\<close>

definition startRunCallbacks ::
  "(('v, 'f) def_call \<Rightarrow> ('v, 'f, unit) def_prog) \<Rightarrow> ('v, 'f) def_env \<Rightarrow> nat \<Rightarrow> addr \<Rightarrow> 'v dvalue
     \<Rightarrow> ('v, 'f, unit) def_prog" where
  "startRunCallbacks X E n a result = withD a (\<lambda>d.
     if df_called d then
       (if df_suppressAlreadyCalled d then updateD a (\<lambda>d. d\<lparr> df_suppressAlreadyCalled := False \<rparr>)
        else throwM AlreadyCalledError)
     else doM [
       updateD a (\<lambda>d. d\<lparr> df_called := True, df_result := result \<rparr>),
       runCallbacks X E n a])"

definition def_callback ::
  "(('v, 'f) def_call \<Rightarrow> ('v, 'f, unit) def_prog) \<Rightarrow> ('v, 'f) def_env \<Rightarrow> nat \<Rightarrow> addr \<Rightarrow> 'v dvalue
     \<Rightarrow> ('v, 'f, unit) def_prog" where
  "def_callback X E n a result =
     (if result = DEmpty \<or> isError result \<or> isDeferred result then throwM Fatal
      else startRunCallbacks X E n a result)"

definition def_errback ::
  "(('v, 'f) def_call \<Rightarrow> ('v, 'f, unit) def_prog) \<Rightarrow> ('v, 'f) def_env \<Rightarrow> nat \<Rightarrow> addr \<Rightarrow> 'v dvalue
     \<Rightarrow> ('v, 'f, unit) def_prog" where
  "def_errback X E n a result =
     (if \<not> isError result \<or> result = DError NullError then throwM Fatal else startRunCallbacks X E n a result)"

definition addCallbacks ::
  "(('v, 'f) def_call \<Rightarrow> ('v, 'f, unit) def_prog) \<Rightarrow> ('v, 'f) def_env \<Rightarrow> nat \<Rightarrow> addr \<Rightarrow> 'f dfun
     \<Rightarrow> 'f dfun option \<Rightarrow> ('v, 'f, unit) def_prog" where
  "addCallbacks X E n a cb eb = doM [
     updateD a (\<lambda>d. d\<lparr> df_callbacks := df_callbacks d @
       [(cb, case eb of Some f \<Rightarrow> f | None \<Rightarrow> Identity)] \<rparr>),
     withD a (\<lambda>d. whenM (df_called d) (runCallbacks X E n a))]"

definition addBoth ::
  "(('v, 'f) def_call \<Rightarrow> ('v, 'f, unit) def_prog) \<Rightarrow> ('v, 'f) def_env \<Rightarrow> nat \<Rightarrow> addr \<Rightarrow> 'f dfun
     \<Rightarrow> ('v, 'f, unit) def_prog" where
  "addBoth X E n a f = addCallbacks X E n a f (Some f)"

definition chainDeferred ::
  "(('v, 'f) def_call \<Rightarrow> ('v, 'f, unit) def_prog) \<Rightarrow> ('v, 'f) def_env \<Rightarrow> nat \<Rightarrow> addr \<Rightarrow> addr
     \<Rightarrow> ('v, 'f, unit) def_prog" where
  "chainDeferred X E n a d = doM [
     updateD d (\<lambda>x. x\<lparr> df_chainTo := Some a \<rparr>),
     addCallbacks X E n a (ChainCallback d) (Some (ChainErrback d))]"

definition addTimeout ::
  "(('v, 'f) def_call \<Rightarrow> ('v, 'f, unit) def_prog) \<Rightarrow> ('v, 'f) def_env \<Rightarrow> nat \<Rightarrow> addr \<Rightarrow> 'f option
     \<Rightarrow> ('v, 'f, unit) def_prog" where
  "addTimeout X E n a onTimeoutCancel = withM (\<lambda>s. let i = length (dh_timers s) in doM [
     modifyM (\<lambda>s. s\<lparr> dh_timers := dh_timers s @ [(a, False, True)] \<rparr>),
     addBoth X E n a (TimeoutCheck i onTimeoutCancel),
     addBoth X E n a (TimeoutStop i)])"

definition def_unpause ::
  "(('v, 'f) def_call \<Rightarrow> ('v, 'f, unit) def_prog) \<Rightarrow> ('v, 'f) def_env \<Rightarrow> nat \<Rightarrow> addr
     \<Rightarrow> ('v, 'f, unit) def_prog" where
  "def_unpause X E n a = doM [
     updateD a (\<lambda>d. d\<lparr> df_paused := df_paused d - 1 \<rparr>),
     withD a (\<lambda>d.
       if df_paused d < 0 then throwM Fatal
       else whenM (df_paused d = 0 \<and> df_called d) (runCallbacks X E n a))]"

text \<open>The canceller may call the deferred back; else it fails with \<open>CancelledError\<close>.\<close>

definition def_cancel ::
  "(('v, 'f) def_call \<Rightarrow> ('v, 'f, unit) def_prog) \<Rightarrow> ('v, 'f) def_env \<Rightarrow> nat \<Rightarrow> addr
     \<Rightarrow> ('v, 'f, unit) def_prog" where
  "def_cancel X E n a = withD a (\<lambda>d.
     if \<not> df_called d then doM [
       (case df_canceller d of
          Some f \<Rightarrow> bindM (run_function X E f (DShared a)) (\<lambda>_. doM [])
        | None \<Rightarrow> updateD a (\<lambda>d. d\<lparr> df_suppressAlreadyCalled := True \<rparr>)),
       withD a (\<lambda>d. whenM (\<not> df_called d) (def_errback X E n a (DError CancelledError)))]
     else (case asDeferred (df_result d) of
         Some r \<Rightarrow> X (CallCancel r)
       | None \<Rightarrow> doM []))"

definition wait ::
  "(('v, 'f) def_call \<Rightarrow> ('v, 'f, unit) def_prog) \<Rightarrow> ('v, 'f) def_env \<Rightarrow> nat \<Rightarrow> addr \<Rightarrow> addr list
     \<Rightarrow> ('v, 'f, unit) def_prog" where
  "wait X E n a ds = withL a (\<lambda>l. if dl_deferredList l \<noteq> [] then throwM Fatal else doM [
     updateL a (\<lambda>l. l\<lparr> dl_deferredList := ds, dl_resultList := replicate (length ds) DNull \<rparr>),
     whenM (ds = [] \<and> \<not> dl_fireOnOneCallback l)
       (startRunCallbacks X E n a (DResults (replicate (length ds) DNull))),
     updateL a (\<lambda>l. l\<lparr> dl_finishedCount := 0 \<rparr>),
     doM (map (\<lambda>(i, d). addCallbacks X E n d (ListCallback a i True) (Some (ListCallback a i False)))
       (enumerate 0 ds))])"

definition list_cancel ::
  "(('v, 'f) def_call \<Rightarrow> ('v, 'f, unit) def_prog) \<Rightarrow> addr \<Rightarrow> ('v, 'f, unit) def_prog" where
  "list_cancel X a = withD a (\<lambda>d. whenM (\<not> df_called d) (withL a (\<lambda>l.
     doM (map (\<lambda>d. tryM (X (CallCancel d)) (\<lambda>e. throwM (if e = OutOfFuel then e else Fatal)))
       (dl_deferredList l)))))"

text \<open>The timer of \<open>addTimeout\<close> runs out.\<close>

definition timer_fires ::
  "(('v, 'f) def_call \<Rightarrow> ('v, 'f, unit) def_prog) \<Rightarrow> nat \<Rightarrow> ('v, 'f, unit) def_prog" where
  "timer_fires X i = withM (\<lambda>s.
     if i < length (dh_timers s) \<and> snd (snd (dh_timers s ! i)) then doM [
       modifyM (\<lambda>s. s\<lparr> dh_timers := (dh_timers s)[i := (fst (dh_timers s ! i), True, False)] \<rparr>),
       X (CallCancel (fst (dh_timers s ! i)))]
     else doM [])"

fun def_exec :: "('v, 'f) def_env \<Rightarrow> nat \<Rightarrow> ('v, 'f) def_call \<Rightarrow> ('v, 'f, unit) def_prog" where
  "def_exec E 0 c = throwM OutOfFuel"
| "def_exec E (Suc n) c = (let X = def_exec E n in case c of
      CallCallback a v \<Rightarrow> def_callback X E n a v
    | CallFire a v \<Rightarrow> startRunCallbacks X E n a v
    | CallErrback a v \<Rightarrow> def_errback X E n a v
    | CallAddCallbacks a cb eb \<Rightarrow> addCallbacks X E n a cb eb
    | CallChainDeferred a d \<Rightarrow> chainDeferred X E n a d
    | CallAddTimeout a f \<Rightarrow> addTimeout X E n a f
    | CallPause a \<Rightarrow> updateD a (\<lambda>d. d\<lparr> df_paused := df_paused d + 1 \<rparr>)
    | CallUnpause a \<Rightarrow> def_unpause X E n a
    | CallCancel a \<Rightarrow> withM (\<lambda>s. if dh_lists s a = None then def_cancel X E n a else list_cancel X a)
    | CallSetCanceller a f \<Rightarrow> updateD a (\<lambda>d. d\<lparr> df_canceller := Some f \<rparr>)
    | CallTimer i \<Rightarrow> timer_fires X i
    | CallWait a ds \<Rightarrow> wait X E n a ds)"

section \<open>Making deferreds\<close>

text \<open>The new object is put at an address \<open>a\<close> that is not in use.\<close>

definition makeDeferred :: "addr \<Rightarrow> ('v, 'f, unit) def_prog" where
  "makeDeferred a = withM (\<lambda>s. if dh_objects s a \<noteq> None then throwM Fatal
     else modifyM (\<lambda>s. s\<lparr> dh_objects := (dh_objects s)(a \<mapsto> newDeferred None) \<rparr>))"

definition makeDeferredList :: "addr \<Rightarrow> bool \<Rightarrow> bool \<Rightarrow> bool \<Rightarrow> ('v, 'f, unit) def_prog" where
  "makeDeferredList a fireOnOneCallback fireOnOneErrback consumeErrors = doM [
     makeDeferred a,
     modifyM (\<lambda>s. s\<lparr> dh_lists := (dh_lists s)(a \<mapsto> \<lparr> dl_fireOnOneCallback = fireOnOneCallback,
       dl_fireOnOneErrback = fireOnOneErrback, dl_consumeErrors = consumeErrors,
       dl_deferredList = [], dl_resultList = [], dl_finishedCount = 0 \<rparr>) \<rparr>)]"

definition gatherResults ::
  "('v, 'f) def_env \<Rightarrow> nat \<Rightarrow> addr \<Rightarrow> addr list \<Rightarrow> bool \<Rightarrow> bool \<Rightarrow> bool \<Rightarrow> ('v, 'f, unit) def_prog" where
  "gatherResults E n a ds fireOnOneCallback fireOnOneErrback consumeErrors = doM [
     makeDeferredList a fireOnOneCallback fireOnOneErrback consumeErrors,
     def_exec E n (CallWait a ds)]"

definition succeedDeferred :: "('v, 'f) def_env \<Rightarrow> nat \<Rightarrow> addr \<Rightarrow> 'v dvalue \<Rightarrow> ('v, 'f, unit) def_prog" where
  "succeedDeferred E n a v = doM [makeDeferred a, def_exec E n (CallCallback a v)]"

definition failDeferred :: "('v, 'f) def_env \<Rightarrow> nat \<Rightarrow> addr \<Rightarrow> def_error \<Rightarrow> ('v, 'f, unit) def_prog" where
  "failDeferred E n a e = doM [makeDeferred a, def_exec E n (CallErrback a (DError e))]"

text \<open>
  \<open>executeDeferred\<close> and \<open>maybeDeferred\<close>, on what the callable does: it throws, or returns a plain
  value (\<open>void\<close> is null), a \<open>DeferredPtr\<close> or a \<open>DeferredValue\<close>. They return a pointer to the
  deferred, which is at address \<open>a\<close> where a new one is made.
\<close>

definition executeDeferred ::
  "('v, 'f) def_env \<Rightarrow> nat \<Rightarrow> addr \<Rightarrow> def_error + 'v dvalue \<Rightarrow> ('v, 'f, addr option) def_prog" where
  "executeDeferred E n a outcome = (case outcome of
      Inl e \<Rightarrow> retM [failDeferred E n a e] (Some a)
    | Inr v \<Rightarrow> retM [succeedDeferred E n a v] (Some a))"

definition maybeDeferred_ptr ::
  "('v, 'f) def_env \<Rightarrow> nat \<Rightarrow> addr \<Rightarrow> def_error + addr option \<Rightarrow> ('v, 'f, addr option) def_prog" where
  "maybeDeferred_ptr E n a outcome = (case outcome of
      Inl e \<Rightarrow> retM [failDeferred E n a e] (Some a)
    | Inr d \<Rightarrow> returnM d)"

definition maybeDeferred_value ::
  "('v, 'f) def_env \<Rightarrow> nat \<Rightarrow> addr \<Rightarrow> def_error + 'v dvalue \<Rightarrow> ('v, 'f, addr option) def_prog" where
  "maybeDeferred_value E n a outcome = (case outcome of
      Inl e \<Rightarrow> retM [failDeferred E n a e] (Some a)
    | Inr v \<Rightarrow>
      if isDeferred v then returnM (asDeferred v)
      else (case v of
          DError e \<Rightarrow> retM [failDeferred E n a e] (Some a)
        | _ \<Rightarrow> retM [succeedDeferred E n a v] (Some a)))"

end
