(* ===== verification/Deferred_Props.thy ===== *)
theory Deferred_Props
  imports Deferred
begin

text \<open>
  What a deferred does with its value: the callbacks run once, in order, each on the result of
  the one before, errors going to the errbacks. A callback may return another deferred: one
  that fires later passes its value on, but the value of one that has fired already is lost.
\<close>

section \<open>Runs on known objects\<close>

lemma object_runs:
  "dh_objects s a = Some d \<Longrightarrow> withD a f s = f d s"
  "dh_objects s a = Some d \<Longrightarrow> updateD a g s = (Inr (), s\<lparr> dh_objects := (dh_objects s)(a \<mapsto> g d) \<rparr>)"
  "dh_objects s a = Some d \<Longrightarrow> bindM (withD a f1) k1 s = bindM (f1 d) k1 s"
  "dh_objects s a = Some d \<Longrightarrow> bindM (updateD a g) k2 s = k2 () (s\<lparr> dh_objects := (dh_objects s)(a \<mapsto> g d) \<rparr>)"
  by (simp_all add: withD_def updateD_def runs)

text \<open>Updates of a heap are brought into one order, and \<open>df_runningCallbacks\<close> is set first.\<close>

lemma heap_order [simp]:
  "dh_objects_update f (dh_trace_update g s) = dh_trace_update g (dh_objects_update f s)"
  "dh_lists_update k (dh_trace_update g s) = dh_trace_update g (dh_lists_update k s)"
  "dh_objects_update f (dh_lists_update k s) = dh_lists_update k (dh_objects_update f s)"
  by simp_all

lemma deferred_order:
  "df_result_update f (df_chainTo_update g d) = df_chainTo_update g (df_result_update f d)"
  "df_callbacks_update h (df_chainTo_update g d) = df_chainTo_update g (df_callbacks_update h d)"
  by simp_all

lemma not_running: "\<not> df_runningCallbacks d \<Longrightarrow> d\<lparr> df_runningCallbacks := False \<rparr> = d"
  by (cases d) simp

lemma asDeferred_None: "\<not> isDeferred v \<Longrightarrow> asDeferred v = None"
  by (cases v) simp_all

section \<open>A chain of plain callbacks\<close>

text \<open>A function object that makes no call and returns no deferred.\<close>

fun plain_fun :: "('v, 'f) def_env \<Rightarrow> 'f dfun \<Rightarrow> bool" where
  "plain_fun E Identity = True"
| "plain_fun E (User f) = (\<forall>v. (\<forall>tr. de_calls E f v tr = []) \<and>
     (case de_returns E f v of Inl e \<Rightarrow> \<not> fatal e | Inr r \<Rightarrow> \<not> isDeferred r))"
| "plain_fun E g = False"

definition plain_pairs :: "('v, 'f) def_env \<Rightarrow> ('f dfun \<times> 'f dfun) list \<Rightarrow> bool" where
  "plain_pairs E cs \<longleftrightarrow> list_all (\<lambda>(cb, eb). plain_fun E cb \<and> plain_fun E eb) cs"

text \<open>The reference: what the callbacks compute, and the calls that are made.\<close>

fun apply_fun :: "('v, 'f) def_env \<Rightarrow> 'f dfun \<Rightarrow> 'v dvalue \<Rightarrow> 'v dvalue" where
  "apply_fun E (User f) v = (case de_returns E f v of Inl e \<Rightarrow> DError e | Inr r \<Rightarrow> r)"
| "apply_fun E g v = v"

definition chosen :: "'v dvalue \<Rightarrow> 'f dfun \<times> 'f dfun \<Rightarrow> 'f dfun" where
  "chosen v c = (if isError v then snd c else fst c)"

fun run_pairs :: "('v, 'f) def_env \<Rightarrow> ('f dfun \<times> 'f dfun) list \<Rightarrow> 'v dvalue \<Rightarrow> 'v dvalue" where
  "run_pairs E [] v = v"
| "run_pairs E (c # cs) v = run_pairs E cs (apply_fun E (chosen v c) v)"

fun run_events ::
  "('v, 'f) def_env \<Rightarrow> addr \<Rightarrow> ('f dfun \<times> 'f dfun) list \<Rightarrow> 'v dvalue \<Rightarrow> (addr \<times> 'f dfun \<times> 'v dvalue) list" where
  "run_events E a [] v = []"
| "run_events E a (c # cs) v = (a, chosen v c, v) # run_events E a cs (apply_fun E (chosen v c) v)"

lemma plain_pairs_ConsD:
  assumes "plain_pairs E (c # cs)"
  shows "plain_fun E (chosen v c)" "plain_pairs E cs"
  using assms by (auto simp: plain_pairs_def chosen_def split: prod.splits)

lemma apply_fun_plain:
  "plain_fun E g \<Longrightarrow> \<not> isDeferred v \<Longrightarrow> \<not> isDeferred (apply_fun E g v)"
  by (cases g) (auto split: sum.splits dest!: spec)

lemma run_pairs_plain: "plain_pairs E cs \<Longrightarrow> \<not> isDeferred v \<Longrightarrow> \<not> isDeferred (run_pairs E cs v)"
proof (induction cs arbitrary: v)
  case (Cons c cs)
  show ?case
    using Cons.IH [OF plain_pairs_ConsD(2) [OF Cons.prems(1)]
        apply_fun_plain [OF plain_pairs_ConsD(1) [OF Cons.prems(1)] Cons.prems(2)]] by simp
qed simp

lemma call_back_plain:
  assumes f: "plain_fun E f" and a: "dh_objects s a = Some d" and v: "\<not> isDeferred (df_result d)"
  shows "call_back X E a f s = (Inr (), s\<lparr>
     dh_objects := (dh_objects s)(a \<mapsto> d\<lparr> df_runningCallbacks := False, df_result := apply_fun E f (df_result d) \<rparr>),
     dh_trace := dh_trace s @ [(a, f, df_result d)] \<rparr>)"
proof (cases f)
  case (User g)
  have ret: "case de_returns E g (df_result d) of Inl e \<Rightarrow> \<not> fatal e | Inr r \<Rightarrow> \<not> isDeferred r"
    and calls: "de_calls E g w tr = []" for w tr
    using f User by simp_all
  show ?thesis
    using a ret User calls
    by (cases "de_returns E g (df_result d)"; cases s)
       (simp_all add: call_back_def object_runs runs tryM_def run_function_def bindM_unit
          bindM_def [of "Pair r" for r] asDeferred_None)
qed (use a f v in \<open>cases s, simp_all add: call_back_def object_runs runs tryM_def bindM_unit
       bindM_def [of "Pair r" for r] asDeferred_None\<close>)

text \<open>What follows a callback in the inner loop of \<open>runCallbacks\<close>.\<close>

definition after_callback ::
  "(('v, 'f) def_call \<Rightarrow> ('v, 'f, unit) def_prog) \<Rightarrow> ('v, 'f) def_env \<Rightarrow> nat \<Rightarrow> addr
     \<Rightarrow> ('v, 'f, inner_exit) def_prog" where
  "after_callback X E n a = withD a (\<lambda>d.
     if \<not> isDeferred (df_result d) then inner_loop X E n a
     else case asDeferred (df_result d) of
         None \<Rightarrow> throwM Fatal
       | Some inner \<Rightarrow> bindM (adopt_result a inner) (\<lambda>go. if go then inner_loop X E n a else returnM Finished))"

fun is_continuation :: "'f dfun \<Rightarrow> bool" where
  "is_continuation (Continuation a) = True"
| "is_continuation g = False"

lemma inner_loop_callback:
  assumes "dh_objects s a = Some d" "df_callbacks d = c # rest" "\<not> is_continuation (chosen (df_result d) c)"
  shows "inner_loop X E (Suc n) a s =
    bindM (call_back X E a (chosen (df_result d) c)) (\<lambda>_. after_callback X E n a)
      (s\<lparr> dh_objects := (dh_objects s)(a \<mapsto> d\<lparr> df_callbacks := rest \<rparr>) \<rparr>)"
  using assms
  by (cases c; cases "chosen (df_result d) c")
     (auto simp: object_runs runs prog_laws chosen_def after_callback_def)

lemma plain_no_continuation: "plain_fun E g \<Longrightarrow> \<not> is_continuation g"
  by (cases g) simp_all

text \<open>The inner loop of \<open>runCallbacks\<close> on a list that starts with such callbacks.\<close>

definition ran ::
  "('v, 'f) def_env \<Rightarrow> addr \<Rightarrow> ('v, 'f) deferred \<Rightarrow> ('f dfun \<times> 'f dfun) list \<Rightarrow> ('f dfun \<times> 'f dfun) list
     \<Rightarrow> ('v, 'f) def_heap \<Rightarrow> ('v, 'f) def_heap" where
  "ran E a d cs rest s = s\<lparr>
     dh_objects := (dh_objects s)(a \<mapsto> d\<lparr> df_callbacks := rest, df_result := run_pairs E cs (df_result d) \<rparr>),
     dh_trace := dh_trace s @ run_events E a cs (df_result d) \<rparr>"

lemma inner_loop_plain:
  assumes "dh_objects s a = Some d" "df_callbacks d = cs @ rest" "plain_pairs E cs"
    "\<not> isDeferred (df_result d)" "\<not> df_runningCallbacks d"
  shows "inner_loop X E (length cs + n) a s = inner_loop X E n a (ran E a d cs rest s)"
  using assms
proof (induction cs arbitrary: d s)
  case Nil
  then have "ran E a d [] rest s = s"
    by (cases s; cases d) (auto simp: ran_def fun_eq_iff)
  then show ?case by simp
next
  case (Cons c cs)
  let ?f = "chosen (df_result d) c"
  let ?d = "d\<lparr> df_callbacks := cs @ rest, df_runningCallbacks := False, df_result := apply_fun E ?f (df_result d) \<rparr>"
  let ?s = "s\<lparr> dh_objects := (dh_objects s)(a \<mapsto> ?d), dh_trace := dh_trace s @ [(a, ?f, df_result d)] \<rparr>"
  note f = plain_pairs_ConsD(1) [OF Cons.prems(3), of "df_result d"] and cs = plain_pairs_ConsD(2) [OF Cons.prems(3)]
  have next_value: "\<not> isDeferred (apply_fun E ?f (df_result d))"
    using f Cons.prems(4) by (rule apply_fun_plain)
  have step: "call_back X E a ?f (s\<lparr> dh_objects := (dh_objects s)(a \<mapsto> d\<lparr> df_callbacks := cs @ rest \<rparr>) \<rparr>) = (Inr (), ?s)"
    by (subst call_back_plain [OF f, where d = "d\<lparr> df_callbacks := cs @ rest \<rparr>"])
       (use Cons.prems(4) in simp_all)
  have "inner_loop X E (length (c # cs) + n) a s = after_callback X E (length cs + n) a ?s"
    using inner_loop_callback [OF Cons.prems(1), of c "cs @ rest" X E "length cs + n"]
      Cons.prems(2) plain_no_continuation [OF f] by (simp add: bindM_def step)
  also have "\<dots> = inner_loop X E (length cs + n) a ?s"
    using next_value by (simp add: after_callback_def object_runs)
  also have "\<dots> = inner_loop X E n a (ran E a ?d cs rest ?s)"
    by (rule Cons.IH) (use cs next_value in simp_all)
  also have "ran E a ?d cs rest ?s = ran E a d (c # cs) rest s"
    using Cons.prems(5) by (cases s; cases d) (simp add: ran_def)
  finally show ?case .
qed

lemma inner_loop_Nil:
  "dh_objects s a = Some d \<Longrightarrow> df_callbacks d = [] \<Longrightarrow> inner_loop X E (Suc n) a s = (Inr Finished, s)"
  by (simp add: object_runs runs)

text \<open>Calling a deferred back, from what its inner loop does.\<close>

lemma chain_finished:
  assumes "dh_objects s a = Some d" "df_paused d \<le> 0"
    and "inner_loop X E m a (s\<lparr> dh_objects := (dh_objects s)(a \<mapsto> d\<lparr> df_chainTo := None \<rparr>) \<rparr>) = (Inr Finished, t)"
  shows "chain_loop X E m (Suc n) (a # chain) s = chain_loop X E m n chain t"
  using assms by (simp add: object_runs runs bindM_after)

lemma chain_chainee:
  assumes "dh_objects s a = Some d" "df_paused d \<le> 0"
    and "inner_loop X E m a (s\<lparr> dh_objects := (dh_objects s)(a \<mapsto> d\<lparr> df_chainTo := None \<rparr>) \<rparr>) = (Inr (Chainee c), t)"
  shows "chain_loop X E m (Suc n) (a # chain) s = chain_loop X E m n (c # a # chain) t"
  using assms by (simp add: object_runs runs bindM_after)

lemma startRunCallbacks_chain:
  assumes "dh_objects s a = Some d" "\<not> df_called d" "\<not> df_runningCallbacks d"
  shows "startRunCallbacks X E n a v s = chain_loop X E n n [a]
    (s\<lparr> dh_objects := (dh_objects s)(a \<mapsto> d\<lparr> df_called := True, df_result := v \<rparr>) \<rparr>)"
  using assms by (simp add: startRunCallbacks_def runCallbacks_def object_runs runs bindM_unit)

lemma startRunCallbacks_finished:
  assumes "dh_objects s a = Some d" "\<not> df_called d" "\<not> df_runningCallbacks d" "df_paused d \<le> 0" "2 \<le> n"
    and "inner_loop X E n a (s\<lparr> dh_objects := (dh_objects s)(a \<mapsto>
      d\<lparr> df_called := True, df_result := v, df_chainTo := None \<rparr>) \<rparr>) = (Inr Finished, t)"
  shows "startRunCallbacks X E n a v s = (Inr (), t)"
proof -
  let ?d = "d\<lparr> df_called := True, df_result := v \<rparr>"
  let ?s = "s\<lparr> dh_objects := (dh_objects s)(a \<mapsto> ?d) \<rparr>"
  obtain k where k: "n = Suc (Suc k)" using assms(5) by (cases n; cases "n - 1") auto
  have "chain_loop X E n n [a] ?s = chain_loop X E n (Suc k) [] t"
    unfolding k
    by (rule chain_finished [where d = ?d]) (use assms in \<open>simp_all add: k\<close>)
  then show ?thesis using assms by (simp add: startRunCallbacks_chain runs)
qed

lemma inner_loop_all_plain:
  assumes "dh_objects s a = Some d" "plain_pairs E (df_callbacks d)" "\<not> isDeferred (df_result d)"
    "\<not> df_runningCallbacks d" "length (df_callbacks d) < n"
  shows "inner_loop X E n a s = (Inr Finished, ran E a d (df_callbacks d) [] s)"
proof -
  obtain k where k: "n = length (df_callbacks d) + Suc k"
    using that [of "n - length (df_callbacks d) - 1"] assms(5) by simp
  show ?thesis
    unfolding k by (subst inner_loop_plain [OF assms(1), where rest = "[]"])
      (use assms in \<open>simp_all add: inner_loop_Nil ran_def del: inner_loop.simps\<close>)
qed

lemma startRunCallbacks_plain:
  assumes a: "dh_objects s a = Some d" and cs: "plain_pairs E (df_callbacks d)"
    and v: "\<not> isDeferred v" "\<not> df_called d" "\<not> df_runningCallbacks d" "df_paused d \<le> 0"
    and n: "length (df_callbacks d) + 2 \<le> n"
  shows "startRunCallbacks X E n a v s =
    (Inr (), ran E a (d\<lparr> df_called := True, df_result := v, df_chainTo := None \<rparr>) (df_callbacks d) [] s)"
proof -
  let ?d = "d\<lparr> df_called := True, df_result := v, df_chainTo := None \<rparr>"
  have "inner_loop X E n a (s\<lparr> dh_objects := (dh_objects s)(a \<mapsto> ?d) \<rparr>)
    = (Inr Finished, ran E a ?d (df_callbacks d) [] s)"
    by (subst inner_loop_all_plain [where d = ?d]) (use cs v n in \<open>simp_all add: ran_def\<close>)
  then show ?thesis using startRunCallbacks_finished [of s a d n X E v] a v n by simp
qed

section \<open>Callbacks that return a deferred\<close>

lemma call_back_returns:
  assumes "dh_objects s a = Some d" "\<And>tr. de_calls E f (df_result d) tr = []"
    "de_returns E f (df_result d) = Inr q" "asDeferred q \<noteq> Some a"
  shows "call_back X E a (User f) s = (Inr (), s\<lparr>
     dh_objects := (dh_objects s)(a \<mapsto> d\<lparr> df_runningCallbacks := False, df_result := q \<rparr>),
     dh_trace := dh_trace s @ [(a, User f, df_result d)] \<rparr>)"
  using assms
  by (cases s) (simp add: call_back_def object_runs runs tryM_def run_function_def bindM_unit
          bindM_def [of "Pair r" for r])

lemma isDeferred_asDeferred: "asDeferred q = Some b \<Longrightarrow> isDeferred q"
  by (cases q) simp_all

lemma adopt_fired:
  assumes "dh_objects s a = Some d" "dh_objects s b = Some r" "b \<noteq> a"
    "df_result r \<noteq> DEmpty" "\<not> isDeferred (df_result r)" "df_paused r \<le> 0"
  shows "adopt_result a b s = (Inr True, s\<lparr> dh_objects :=
    (dh_objects s)(a \<mapsto> d\<lparr> df_result := DNull \<rparr>, b \<mapsto> r\<lparr> df_result := DNull \<rparr>) \<rparr>)"
  using assms by (simp add: adopt_result_def object_runs runs fun_upd_twist [OF assms(3)])

text \<open>The deferred that is returned has fired: its result is replaced before it is read.\<close>

lemma inner_loop_fired:
  assumes a: "dh_objects s a = Some d" "df_callbacks d = (User f, eb) # cs" "\<not> isError (df_result d)"
    "\<not> df_runningCallbacks d"
    and f: "\<And>tr. de_calls E f (df_result d) tr = []" "de_returns E f (df_result d) = Inr q"
    and b: "asDeferred q = Some b" "b \<noteq> a" "dh_objects s b = Some r" "df_result r \<noteq> DEmpty"
      "\<not> isDeferred (df_result r)" "df_paused r \<le> 0"
    and cs: "plain_pairs E cs"
  shows "inner_loop X E (Suc (length cs + Suc n)) a s = (Inr Finished, s\<lparr>
    dh_objects := (dh_objects s)(a \<mapsto> d\<lparr> df_callbacks := [], df_result := run_pairs E cs DNull \<rparr>,
      b \<mapsto> r\<lparr> df_result := DNull \<rparr>),
    dh_trace := dh_trace s @ (a, User f, df_result d) # run_events E a cs DNull \<rparr>)"
proof -
  let ?s1 = "s\<lparr> dh_objects := (dh_objects s)(a \<mapsto> d\<lparr> df_callbacks := cs, df_runningCallbacks := False, df_result := q \<rparr>),
     dh_trace := dh_trace s @ [(a, User f, df_result d)] \<rparr>"
  let ?d = "d\<lparr> df_callbacks := cs, df_runningCallbacks := False, df_result := DNull \<rparr>"
  let ?s2 = "s\<lparr> dh_objects := (dh_objects s)(a \<mapsto> ?d, b \<mapsto> r\<lparr> df_result := DNull \<rparr>),
     dh_trace := dh_trace s @ [(a, User f, df_result d)] \<rparr>"
  have chosen: "chosen (df_result d) (User f, eb) = User f" using a by (simp add: chosen_def)
  have call: "call_back X E a (User f) (s\<lparr> dh_objects := (dh_objects s)(a \<mapsto> d\<lparr> df_callbacks := cs \<rparr>) \<rparr>) = (Inr (), ?s1)"
    by (subst call_back_returns [where d = "d\<lparr> df_callbacks := cs \<rparr>" and q = q]) (use f b in simp_all)
  have adopt: "adopt_result a b ?s1 = (Inr True, ?s2)"
    by (subst adopt_fired [where d = "d\<lparr> df_callbacks := cs, df_runningCallbacks := False, df_result := q \<rparr>" and r = r])
       (use b a in simp_all)
  have "inner_loop X E (Suc (length cs + Suc n)) a s = after_callback X E (length cs + Suc n) a ?s1"
    by (subst inner_loop_callback [OF a(1,2)]) (simp_all add: chosen bindM_def call)
  also have "\<dots> = inner_loop X E (length cs + Suc n) a ?s2"
    using b isDeferred_asDeferred [OF b(1)] by (simp add: after_callback_def object_runs bindM_def adopt)
  also have "\<dots> = inner_loop X E (Suc n) a (ran E a ?d cs [] ?s2)"
    by (rule inner_loop_plain) (use cs a b in simp_all)
  also have "\<dots> = (Inr Finished, ran E a ?d cs [] ?s2)"
    by (rule inner_loop_Nil) (simp add: ran_def, cases d, simp)
  finally show ?thesis using a(4) b(2) by (cases d) (simp add: ran_def fun_upd_twist)
qed

text \<open>The deferred that is returned has not fired: the outer one waits for it.\<close>

lemma inner_loop_unfired:
  assumes a: "dh_objects s a = Some d" "df_callbacks d = (User f, eb) # cs" "\<not> isError (df_result d)"
    "\<not> df_runningCallbacks d"
    and f: "\<And>tr. de_calls E f (df_result d) tr = []" "de_returns E f (df_result d) = Inr q"
    and b: "asDeferred q = Some b" "b \<noteq> a" "dh_objects s b = Some r" "df_result r = DEmpty"
  shows "inner_loop X E (Suc n) a s = (Inr Finished, s\<lparr>
    dh_objects := (dh_objects s)(a \<mapsto> d\<lparr> df_callbacks := cs, df_paused := df_paused d + 1, df_chainTo := Some b,
        df_result := releaseDeferred q \<rparr>,
      b \<mapsto> r\<lparr> df_callbacks := df_callbacks r @ [(Continuation a, Continuation a)] \<rparr>),
    dh_trace := dh_trace s @ [(a, User f, df_result d)] \<rparr>)"
proof -
  let ?d = "d\<lparr> df_callbacks := cs, df_runningCallbacks := False, df_result := q \<rparr>"
  let ?s1 = "s\<lparr> dh_objects := (dh_objects s)(a \<mapsto> ?d), dh_trace := dh_trace s @ [(a, User f, df_result d)] \<rparr>"
  have chosen: "chosen (df_result d) (User f, eb) = User f" using a by (simp add: chosen_def)
  have call: "call_back X E a (User f) (s\<lparr> dh_objects := (dh_objects s)(a \<mapsto> d\<lparr> df_callbacks := cs \<rparr>) \<rparr>) = (Inr (), ?s1)"
    by (subst call_back_returns [where d = "d\<lparr> df_callbacks := cs \<rparr>" and q = q]) (use f b in simp_all)
  have adopt: "adopt_result a b ?s1 = (Inr False, s\<lparr>
    dh_objects := (dh_objects s)(a \<mapsto> ?d\<lparr> df_paused := df_paused d + 1, df_chainTo := Some b,
        df_result := releaseDeferred q \<rparr>,
      b \<mapsto> r\<lparr> df_callbacks := df_callbacks r @ [(Continuation a, Continuation a)] \<rparr>),
    dh_trace := dh_trace s @ [(a, User f, df_result d)] \<rparr>)"
    using b by (simp add: adopt_result_def object_runs runs)
  have "inner_loop X E (Suc n) a s = after_callback X E n a ?s1"
    by (subst inner_loop_callback [OF a(1,2)]) (simp_all add: chosen bindM_def call)
  also have "\<dots> = (Inr Finished, snd (adopt_result a b ?s1))"
    unfolding adopt using b isDeferred_asDeferred [OF b(1)]
    by (simp add: after_callback_def object_runs bindM_def adopt run_simps)
  finally show ?thesis unfolding adopt using a(4) by (cases d) simp
qed

text \<open>A deferred with a continuation at the end of its list hands its result on.\<close>

lemma inner_loop_continuation:
  assumes b: "dh_objects s b = Some r" "df_callbacks r = bs @ [(Continuation a, Continuation a)]"
    "plain_pairs E bs" "\<not> isDeferred (df_result r)" "\<not> df_runningCallbacks r"
    and a: "dh_objects s a = Some d" "b \<noteq> a"
  shows "inner_loop X E (length bs + Suc n) b s = (Inr (Chainee a), s\<lparr>
    dh_objects := (dh_objects s)(a \<mapsto> d\<lparr> df_result := run_pairs E bs (df_result r), df_paused := df_paused d - 1 \<rparr>,
      b \<mapsto> r\<lparr> df_callbacks := [], df_result := DNull \<rparr>),
    dh_trace := dh_trace s @ run_events E b bs (df_result r) \<rparr>)"
proof -
  have "inner_loop X E (length bs + Suc n) b s
    = inner_loop X E (Suc n) b (ran E b r bs [(Continuation a, Continuation a)] s)"
    by (rule inner_loop_plain) (use b in simp_all)
  also have "\<dots> = (Inr (Chainee a), s\<lparr>
    dh_objects := (dh_objects s)(a \<mapsto> d\<lparr> df_result := run_pairs E bs (df_result r), df_paused := df_paused d - 1 \<rparr>,
      b \<mapsto> r\<lparr> df_callbacks := [], df_result := DNull \<rparr>),
    dh_trace := dh_trace s @ run_events E b bs (df_result r) \<rparr>)"
    using a by (simp add: ran_def object_runs runs fun_upd_twist [OF a(2)])
  finally show ?thesis .
qed

section \<open>The operations\<close>

definition unfired :: "('v, 'f) deferred \<Rightarrow> bool" where
  "unfired d \<longleftrightarrow> \<not> df_called d \<and> \<not> df_runningCallbacks d \<and> df_paused d \<le> 0"

definition proper :: "'v dvalue \<Rightarrow> bool" where
  "proper v \<longleftrightarrow> v \<noteq> DEmpty \<and> \<not> isError v \<and> \<not> isDeferred v"

text \<open>C37: the callbacks of a deferred run once.\<close>

theorem deferred_runs_callbacks:
  assumes "dh_objects s a = Some d" "unfired d" "plain_pairs E (df_callbacks d)" "proper v"
    "length (df_callbacks d) + 2 \<le> n"
  shows "def_exec E (Suc n) (CallCallback a v) s = (Inr (), s\<lparr>
    dh_objects := (dh_objects s)(a \<mapsto> d\<lparr> df_called := True, df_chainTo := None, df_callbacks := [],
      df_result := run_pairs E (df_callbacks d) v \<rparr>),
    dh_trace := dh_trace s @ run_events E a (df_callbacks d) v \<rparr>)"
  using assms
  by (cases d) (simp add: def_callback_def startRunCallbacks_plain ran_def unfired_def proper_def)

text \<open>The result of a deferred that has fired is lost.\<close>

lemma fired_result_lost:
  assumes "dh_objects s a = Some d" "unfired d" "df_callbacks d = (User f, eb) # cs" "plain_pairs E cs" "proper v"
    and "\<And>tr. de_calls E f v tr = []" "de_returns E f v = Inr q" "asDeferred q = Some b" "b \<noteq> a"
    and "dh_objects s b = Some r" "df_result r \<noteq> DEmpty" "\<not> isDeferred (df_result r)" "df_paused r \<le> 0"
    and "length cs + 2 \<le> n"
  shows "def_exec E (Suc n) (CallCallback a v) s = (Inr (), s\<lparr>
    dh_objects := (dh_objects s)(a \<mapsto> d\<lparr> df_called := True, df_chainTo := None, df_callbacks := [],
        df_result := run_pairs E cs DNull \<rparr>,
      b \<mapsto> r\<lparr> df_result := DNull \<rparr>),
    dh_trace := dh_trace s @ (a, User f, v) # run_events E a cs DNull \<rparr>)"
proof -
  let ?d = "d\<lparr> df_called := True, df_result := v, df_chainTo := None \<rparr>"
  obtain k where k: "n = Suc (length cs + Suc k)"
    using that [of "n - length cs - 2"] assms(14) by simp
  have "inner_loop X E n a (s\<lparr> dh_objects := (dh_objects s)(a \<mapsto> ?d) \<rparr>) = (Inr Finished, s\<lparr>
    dh_objects := (dh_objects s)(a \<mapsto> d\<lparr> df_called := True, df_chainTo := None, df_callbacks := [],
        df_result := run_pairs E cs DNull \<rparr>,
      b \<mapsto> r\<lparr> df_result := DNull \<rparr>),
    dh_trace := dh_trace s @ (a, User f, v) # run_events E a cs DNull \<rparr>)" for X
    unfolding k
    by (subst inner_loop_fired [where d = ?d and f = f and eb = eb and q = q and r = r])
       (use assms in \<open>simp_all add: unfired_def proper_def\<close>)
  then show ?thesis
    using startRunCallbacks_finished [OF assms(1)] assms(2,5,14)
    by (simp add: def_callback_def unfired_def proper_def)
qed

text \<open>C38: a deferred waits for the one that its callback returns.\<close>

theorem unfired_result_awaited:
  assumes "dh_objects s a = Some d" "unfired d" "df_callbacks d = (User f, eb) # cs" "plain_pairs E cs" "proper v"
    and "\<And>tr. de_calls E f v tr = []" "de_returns E f v = Inr q" "asDeferred q = Some b" "b \<noteq> a"
    and "dh_objects s b = Some r" "unfired r" "df_result r = DEmpty" "plain_pairs E (df_callbacks r)" "proper w"
    and "length (df_callbacks r) + length cs + 4 \<le> n"
  shows "doM [def_exec E (Suc n) (CallCallback a v), def_exec E (Suc n) (CallCallback b w)] s = (Inr (), s\<lparr>
    dh_objects := (dh_objects s)(a \<mapsto> d\<lparr> df_called := True, df_chainTo := None, df_callbacks := [],
        df_result := run_pairs E cs (run_pairs E (df_callbacks r) w) \<rparr>,
      b \<mapsto> r\<lparr> df_called := True, df_callbacks := [], df_result := DNull, df_chainTo := None \<rparr>),
    dh_trace := dh_trace s @ (a, User f, v) # run_events E b (df_callbacks r) w
      @ run_events E a cs (run_pairs E (df_callbacks r) w) \<rparr>)" (is "_ = (Inr (), ?t)")
proof -
  let ?bs = "df_callbacks r" and ?X = "def_exec E n"
  let ?v = "run_pairs E ?bs w"
  let ?d0 = "d\<lparr> df_called := True, df_result := v, df_chainTo := None \<rparr>"
  let ?d1 = "d\<lparr> df_called := True, df_callbacks := cs, df_paused := df_paused d + 1, df_chainTo := Some b,
    df_result := releaseDeferred q \<rparr>"
  let ?r1 = "r\<lparr> df_callbacks := ?bs @ [(Continuation a, Continuation a)] \<rparr>"
  let ?s1 = "s\<lparr> dh_objects := (dh_objects s)(a \<mapsto> ?d1, b \<mapsto> ?r1), dh_trace := dh_trace s @ [(a, User f, v)] \<rparr>"
  let ?r2 = "?r1\<lparr> df_called := True, df_result := w \<rparr>"
  let ?s2 = "?s1\<lparr> dh_objects := (dh_objects ?s1)(b \<mapsto> ?r2) \<rparr>"
  let ?r3 = "r\<lparr> df_called := True, df_callbacks := [], df_result := DNull, df_chainTo := None \<rparr>"
  let ?d3 = "?d1\<lparr> df_result := ?v, df_paused := df_paused d \<rparr>"
  let ?s3 = "s\<lparr> dh_objects := (dh_objects s)(a \<mapsto> ?d3, b \<mapsto> ?r3),
    dh_trace := dh_trace s @ (a, User f, v) # run_events E b ?bs w \<rparr>"
  obtain k where k: "n = Suc (Suc (Suc (Suc k)))" "length ?bs + length cs \<le> k"
    using that [of "n - 4"] assms(15) by simp
  have v: "\<not> isDeferred ?v" using assms by (simp add: run_pairs_plain proper_def)
  have "inner_loop ?X E n a (s\<lparr> dh_objects := (dh_objects s)(a \<mapsto> ?d0) \<rparr>) = (Inr Finished, ?s1)"
    unfolding k(1) by (subst inner_loop_unfired [where d = ?d0 and f = f and eb = eb and q = q and r = r])
      (use assms in \<open>simp_all add: unfired_def proper_def\<close>)
  then have fst: "def_exec E (Suc n) (CallCallback a v) s = (Inr (), ?s1)"
    using startRunCallbacks_finished [OF assms(1)] assms(2,5) k
    by (simp add: def_callback_def unfired_def proper_def)
  have inner: "inner_loop ?X E n b (?s2\<lparr> dh_objects := (dh_objects ?s2)(b \<mapsto> ?r2\<lparr> df_chainTo := None \<rparr>) \<rparr>)
    = (Inr (Chainee a), ?s3)"
  proof -
    have n: "n = length ?bs + Suc (n - length ?bs - 1)" using k by simp
    show ?thesis
      by (subst n, subst inner_loop_continuation [where a = a and d = ?d1 and bs = ?bs and r = "?r2\<lparr> df_chainTo := None \<rparr>"])
        (use assms in \<open>simp_all add: unfired_def proper_def deferred_order\<close>)
  qed
  have outer: "inner_loop ?X E n a (?s3\<lparr> dh_objects := (dh_objects ?s3)(a \<mapsto> ?d3\<lparr> df_chainTo := None \<rparr>) \<rparr>)
    = (Inr Finished, ?t)"
    by (subst inner_loop_all_plain [where d = "?d3\<lparr> df_chainTo := None \<rparr>"])
      (use assms v k in \<open>simp_all add: unfired_def ran_def fun_upd_twist [of a b]\<close>)
  have "chain_loop ?X E n n [b] ?s2 = chain_loop ?X E n (Suc (Suc (Suc k))) [a, b] ?s3"
    by (subst (2) k, rule chain_chainee [where s = ?s2 and d = ?r2, OF _ _ inner]) (use assms in \<open>simp_all add: unfired_def\<close>)
  also have "\<dots> = chain_loop ?X E n (Suc (Suc k)) [b] ?t"
    by (rule chain_finished [where s = ?s3 and d = ?d3, OF _ _ outer]) (use assms in \<open>simp_all add: unfired_def\<close>)
  also have "\<dots> = chain_loop ?X E n (Suc k) [] ?t"
    by (rule chain_finished [where s = ?t and d = ?r3]) (use assms in \<open>simp_all add: unfired_def k inner_loop_Nil del: inner_loop.simps\<close>)
  finally have "chain_loop ?X E n n [b] ?s2 = (Inr (), ?t)" by (simp add: runs)
  then have "def_exec E (Suc n) (CallCallback b w) ?s1 = (Inr (), ?t)"
    using assms by (simp add: def_callback_def proper_def startRunCallbacks_chain unfired_def)
  then show ?thesis using fst by (simp add: list_run run_simps bindM_def)
qed

end
