(* ===== verification/Deferred_Once.thy ===== *)
theory Deferred_Once
  imports Deferred_Props
begin

text \<open>
  A deferred is called once: whatever the functions of the program do, one that has been called
  stays called, and calling it again is the error \<open>AlreadyCalledError\<close>.
\<close>

definition once_rel :: "('v, 'f) def_heap \<Rightarrow> ('v, 'f) def_heap \<Rightarrow> bool" where
  "once_rel s t \<longleftrightarrow> prefix (dh_trace s) (dh_trace t)
     \<and> (\<forall>a d. dh_objects s a = Some d \<longrightarrow> (\<exists>d'. dh_objects t a = Some d' \<and> (df_called d \<longrightarrow> df_called d')))"

interpretation once: state_rel once_rel
proof
  show "once_rel s s" for s :: "('v, 'f) def_heap" by (simp add: once_rel_def)
  show "once_rel s t \<Longrightarrow> once_rel t u \<Longrightarrow> once_rel s u" for s t u :: "('v, 'f) def_heap"
    unfolding once_rel_def by (meson prefix_order.trans)
qed

lemma once_withD: "(\<And>d. evolves once_rel (f d)) \<Longrightarrow> evolves once_rel (withD a f)"
  by (auto simp: withD_def intro!: once.ev_withM_all ev_case_option once.ev_throwM)

lemma once_withL: "(\<And>d. evolves once_rel (f d)) \<Longrightarrow> evolves once_rel (withL a f)"
  by (auto simp: withL_def intro!: once.ev_withM_all ev_case_option once.ev_throwM)

lemma once_updateD: "(\<And>d. df_called d \<Longrightarrow> df_called (f d)) \<Longrightarrow> evolves once_rel (updateD a f)"
  by (rule evolvesI)
    (auto simp: updateD_def withD_def run_simps once_rel_def once.rel_refl split: option.split)

lemma once_updateL: "evolves once_rel (updateL a f)"
  by (rule evolvesI)
    (auto simp: updateL_def withL_def run_simps once_rel_def split: option.split)

lemma once_modifyM:
  "(\<And>s. dh_objects (f s) = dh_objects s \<and> prefix (dh_trace s) (dh_trace (f s))) \<Longrightarrow> evolves once_rel (modifyM f)"
  by (rule evolves_modifyM) (simp add: once_rel_def)

lemmas once_rules = once.ev_rules ev_cases once_withD once_withL once_updateD once_updateL

lemma once_run_function:
  assumes "\<And>c. evolves once_rel (X c)"
  shows "evolves once_rel (run_function X E f v)"
  unfolding run_function_def
  by (intro once.ev_withM_all once.ev_thenM once.ev_doM ev_case_sum once.ev_throwM once.ev_returnM)
    (simp add: assms list_all_iff)

lemma once_run_dfun:
  assumes X: "\<And>c. evolves once_rel (X c)"
  shows "evolves once_rel (run_dfun X E f v)"
  by (cases f) (auto simp: cbDeferred_def intro!: once_rules once_run_function X once_modifyM)

lemma once_call_back:
  assumes X: "\<And>c. evolves once_rel (X c)"
  shows "evolves once_rel (call_back X E a f)"
  unfolding call_back_def
  by (intro once_rules once_run_dfun X once_modifyM) simp_all

lemma once_adopt: "evolves once_rel (adopt_result a b)"
  unfolding adopt_result_def by (intro once_rules) simp_all

lemma once_inner_loop:
  assumes X: "\<And>c. evolves once_rel (X c)"
  shows "evolves once_rel (inner_loop X E n a)"
proof (induction n)
  case (Suc n)
  have "evolves once_rel (case f of
           Continuation chainee \<Rightarrow> retM [
             withD a (\<lambda>d. updateD chainee (\<lambda>c. c\<lparr> df_result := df_result d \<rparr>)),
             updateD a (\<lambda>d. d\<lparr> df_result := DNull \<rparr>),
             updateD chainee (\<lambda>c. c\<lparr> df_paused := df_paused c - 1 \<rparr>)] (Chainee chainee)
         | _ \<Rightarrow> thenM [call_back X E a f] (withD a (\<lambda>d.
             if \<not> isDeferred (df_result d) then inner_loop X E n a
             else case asDeferred (df_result d) of
               None \<Rightarrow> throwM Fatal
             | Some inner \<Rightarrow> bindM (adopt_result a inner) (\<lambda>go.
                 if go then inner_loop X E n a else returnM Finished))))" for f
    by (cases f) (auto intro!: once_rules once_call_back X once_adopt Suc.IH)
  then show ?case by (auto intro!: once_rules)
qed (simp add: once.ev_throwM)

lemma once_chain_loop:
  assumes X: "\<And>c. evolves once_rel (X c)"
  shows "evolves once_rel (chain_loop X E m n chain)"
proof (induction n arbitrary: chain)
  case (Suc n)
  have "evolves once_rel (case x of Finished \<Rightarrow> chain_loop X E m n rest
    | Chainee c \<Rightarrow> chain_loop X E m n (c # a # rest))" for x rest a
    by (cases x) (simp_all add: Suc.IH)
  then show ?case by (auto intro!: once_rules once_inner_loop X split: list.split)
qed (simp add: once.ev_throwM)

lemma once_runCallbacks: "(\<And>c. evolves once_rel (X c)) \<Longrightarrow> evolves once_rel (runCallbacks X E n a)"
  unfolding runCallbacks_def by (intro once_rules once_chain_loop)

lemma once_start: "(\<And>c. evolves once_rel (X c)) \<Longrightarrow> evolves once_rel (startRunCallbacks X E n a v)"
  unfolding startRunCallbacks_def by (intro once_rules once_runCallbacks) simp_all

lemma once_addCallbacks: "(\<And>c. evolves once_rel (X c)) \<Longrightarrow> evolves once_rel (addCallbacks X E n a f g)"
  unfolding addCallbacks_def by (intro once_rules once_runCallbacks) simp_all

lemma once_exec: "evolves once_rel (def_exec E n c)"
proof (induction n arbitrary: c)
  case (Suc n)
  note ops = once_start [of "def_exec E n", OF Suc.IH] once_runCallbacks [of "def_exec E n", OF Suc.IH]
    once_addCallbacks [of "def_exec E n", OF Suc.IH] once_run_function [of "def_exec E n", OF Suc.IH]
  show ?case
    by (cases c)
      (auto simp: def_callback_def def_errback_def chainDeferred_def addTimeout_def addBoth_def Let_def
         def_unpause_def def_cancel_def list_cancel_def timer_fires_def wait_def list_all_iff
         intro!: once_rules once.ev_doM ops Suc.IH once_modifyM)
qed (simp add: once.ev_throwM)

text \<open>C39: called once.\<close>

theorem deferred_called_once:
  assumes "dh_objects s a = Some d" "df_called d" "def_exec E n c s = (r, t)"
  shows "\<exists>d'. dh_objects t a = Some d' \<and> df_called d' \<and>
    (\<not> df_suppressAlreadyCalled d' \<longrightarrow> proper v \<longrightarrow>
      def_exec E (Suc m) (CallCallback a v) t = (Inl AlreadyCalledError, t))"
  using assms evolvesD [OF once_exec, of s E n c]
  by (fastforce simp: once_rel_def def_callback_def proper_def startRunCallbacks_def object_runs runs)

end
