(* ===== verification/Deferred_List.thy ===== *)
theory Deferred_List
  imports Deferred_Props
begin

text \<open>
  A \<open>DeferredList\<close> without flags fires when the last of its deferreds has fired, in whatever order
  they do, with their results in the order of the list.
\<close>

lemma list_runs:
  "dh_lists s a = Some l \<Longrightarrow> withL a f s = f l s"
  "dh_lists s a = Some l \<Longrightarrow> updateL a g s = (Inr (), s\<lparr> dh_lists := (dh_lists s)(a \<mapsto> g l) \<rparr>)"
  "dh_lists s a = Some l \<Longrightarrow> bindM (withL a f1) k1 s = bindM (f1 l) k1 s"
  "dh_lists s a = Some l \<Longrightarrow> bindM (updateL a g) k2 s = k2 () (s\<lparr> dh_lists := (dh_lists s)(a \<mapsto> g l) \<rparr>)"
  by (simp_all add: withL_def updateL_def runs)

text \<open>An outcome is delivered with \<open>callback\<close> or with \<open>errback\<close>.\<close>

definition outcome :: "'v dvalue \<Rightarrow> bool" where
  "outcome v \<longleftrightarrow> proper v \<or> (isError v \<and> v \<noteq> DError NullError)"

definition settle :: "addr \<Rightarrow> 'v dvalue \<Rightarrow> ('v, 'f) def_call" where
  "settle d v = (if isError v then CallErrback d v else CallCallback d v)"

lemma settle_exec:
  assumes "outcome v"
  shows "def_exec E (Suc n) (settle d v) = startRunCallbacks (def_exec E n) E n d v"
  using assms by (auto simp: settle_def outcome_def proper_def def_callback_def def_errback_def)

definition so_far :: "(addr \<rightharpoonup> 'v dvalue) \<Rightarrow> addr list \<Rightarrow> 'v dvalue list" where
  "so_far got ds = map (\<lambda>d. case got d of None \<Rightarrow> DNull | Some v \<Rightarrow> v) ds"

definition fired_list :: "'v dvalue list \<Rightarrow> ('v, 'f) deferred" where
  "fired_list vs = (newDeferred None)\<lparr> df_called := True, df_result := DResults vs \<rparr>"

definition waits :: "addr \<Rightarrow> nat \<Rightarrow> ('v, 'f) deferred \<Rightarrow> bool" where
  "waits a i d \<longleftrightarrow> unfired d \<and> df_callbacks d = [(ListCallback a i True, ListCallback a i False)]"

text \<open>The state of the list when the deferreds in \<open>dom got\<close> have fired.\<close>

definition gathering ::
  "addr \<Rightarrow> addr list \<Rightarrow> (addr \<rightharpoonup> 'v dvalue) \<Rightarrow> ('v, 'f) def_heap \<Rightarrow> bool" where
  "gathering a ds got s \<longleftrightarrow> distinct ds \<and> a \<notin> set ds
     \<and> dh_lists s a = Some \<lparr> dl_fireOnOneCallback = False, dl_fireOnOneErrback = False, dl_consumeErrors = False,
         dl_deferredList = ds, dl_resultList = so_far got ds,
         dl_finishedCount = card (dom got \<inter> set ds) \<rparr>
     \<and> dh_objects s a = Some (if set ds \<subseteq> dom got then fired_list (so_far got ds) else newDeferred None)
     \<and> (\<forall>i < length ds. ds ! i \<notin> dom got \<longrightarrow> (\<exists>d. dh_objects s (ds ! i) = Some d \<and> waits a i d))"

lemma length_so_far [simp]: "length (so_far got ds) = length ds"
  by (simp add: so_far_def)

lemma so_far_update:
  "distinct ds \<Longrightarrow> i < length ds \<Longrightarrow> so_far (got(ds ! i \<mapsto> v)) ds = (so_far got ds)[i := v]"
  by (rule nth_equalityI) (auto simp: so_far_def nth_list_update nth_eq_iff_index_eq)

lemma fired_count:
  assumes "distinct ds" "d \<in> set ds" "d \<notin> dom got"
  shows "card (dom (got(d \<mapsto> v)) \<inter> set ds) = Suc (card (dom got \<inter> set ds))"
    and "Suc (card (dom got \<inter> set ds)) = length ds \<longleftrightarrow> set ds \<subseteq> dom (got(d \<mapsto> v))"
proof -
  have "dom (got(d \<mapsto> v)) \<inter> set ds = insert d (dom got \<inter> set ds)" using assms by auto
  then show card: "card (dom (got(d \<mapsto> v)) \<inter> set ds) = Suc (card (dom got \<inter> set ds))"
    using assms by simp
  show "Suc (card (dom got \<inter> set ds)) = length ds \<longleftrightarrow> set ds \<subseteq> dom (got(d \<mapsto> v))"
    unfolding card [symmetric] distinct_card [OF assms(1), symmetric]
    by (metis (no_types) List.finite_set card_subset_eq inf.absorb_iff2 inf_le2)
qed

lemma fire_list:
  assumes "dh_objects s a = Some (newDeferred None)" "2 \<le> m"
  shows "def_exec E (Suc m) (CallFire a (DResults vs)) s
    = (Inr (), s\<lparr> dh_objects := (dh_objects s)(a \<mapsto> fired_list vs) \<rparr>)"
  using startRunCallbacks_plain [OF assms(1), of E "DResults vs" m "def_exec E m"] assms(2)
  by (simp add: newDeferred_def plain_pairs_def fired_list_def ran_def)

lemma cbDeferred_run:
  assumes l: "dh_lists s a = Some l" "\<not> dl_fireOnOneCallback l" "\<not> dl_fireOnOneErrback l" "\<not> dl_consumeErrors l"
    and i: "i < length (dl_resultList l)" and m: "2 \<le> m"
    and a: "dh_objects s a = Some (newDeferred None)"
  shows "cbDeferred (def_exec E (Suc m)) a v i ok s = (Inr (DBoxed v), s\<lparr>
    dh_objects := (if Suc (dl_finishedCount l) = length (dl_resultList l)
      then (dh_objects s)(a \<mapsto> fired_list ((dl_resultList l)[i := v])) else dh_objects s),
    dh_lists := (dh_lists s)(a \<mapsto> l\<lparr> dl_resultList := (dl_resultList l)[i := v],
      dl_finishedCount := Suc (dl_finishedCount l) \<rparr>) \<rparr>)"
proof -
  have fire: "def_exec E (Suc m) (CallFire a (DResults vs)) (s\<lparr> dh_lists := k \<rparr>)
    = (Inr (), s\<lparr> dh_objects := (dh_objects s)(a \<mapsto> fired_list vs), dh_lists := k \<rparr>)" for vs k
    by (subst fire_list) (use a m in simp_all)
  show ?thesis
    using l i a
    by (simp add: cbDeferred_def list_runs object_runs runs newDeferred_def bindM_def [of "def_exec E (Suc m) c" for c] fire
      del: def_exec.simps)
qed

lemma call_back_list:
  assumes l: "dh_lists s a = Some l" "\<not> dl_fireOnOneCallback l" "\<not> dl_fireOnOneErrback l" "\<not> dl_consumeErrors l"
    and i: "i < length (dl_resultList l)" and m: "2 \<le> m"
    and a: "dh_objects s a = Some (newDeferred None)" and x: "dh_objects s x = Some d" "x \<noteq> a"
  shows "call_back (def_exec E (Suc m)) E x (ListCallback a i ok) s = (Inr (), s\<lparr>
    dh_objects := (if Suc (dl_finishedCount l) = length (dl_resultList l)
        then (dh_objects s)(a \<mapsto> fired_list ((dl_resultList l)[i := df_result d])) else dh_objects s)
      (x \<mapsto> d\<lparr> df_runningCallbacks := False, df_result := DBoxed (df_result d) \<rparr>),
    dh_lists := (dh_lists s)(a \<mapsto> l\<lparr> dl_resultList := (dl_resultList l)[i := df_result d],
      dl_finishedCount := Suc (dl_finishedCount l) \<rparr>),
    dh_trace := dh_trace s @ [(x, ListCallback a i ok, df_result d)] \<rparr>)"
proof -
  let ?s = "s\<lparr> dh_objects := (dh_objects s)(x \<mapsto> d\<lparr> df_runningCallbacks := True, df_result := moved_from (df_result d) \<rparr>),
    dh_trace := dh_trace s @ [(x, ListCallback a i ok, df_result d)] \<rparr>"
  have "call_back (def_exec E (Suc m)) E x (ListCallback a i ok) s
    = bindM (tryM (cbDeferred (def_exec E (Suc m)) a (df_result d) i ok)
         (\<lambda>e. if fatal e then throwM e else returnM (DError e)))
       (\<lambda>r. if asDeferred r = Some x then throwM Fatal
            else updateD x (\<lambda>d. d\<lparr> df_runningCallbacks := False, df_result := r \<rparr>)) ?s"
    using x by (simp add: call_back_def object_runs runs bindM_unit)
  also have "cbDeferred (def_exec E (Suc m)) a (df_result d) i ok ?s = (Inr (DBoxed (df_result d)), ?s\<lparr>
    dh_objects := (if Suc (dl_finishedCount l) = length (dl_resultList l)
      then (dh_objects ?s)(a \<mapsto> fired_list ((dl_resultList l)[i := df_result d])) else dh_objects ?s),
    dh_lists := (dh_lists ?s)(a \<mapsto> l\<lparr> dl_resultList := (dl_resultList l)[i := df_result d],
      dl_finishedCount := Suc (dl_finishedCount l) \<rparr>) \<rparr>)"
    by (rule cbDeferred_run) (use assms in simp_all)
  then have "bindM (tryM (cbDeferred (def_exec E (Suc m)) a (df_result d) i ok)
         (\<lambda>e. if fatal e then throwM e else returnM (DError e)))
       (\<lambda>r. if asDeferred r = Some x then throwM Fatal
            else updateD x (\<lambda>d. d\<lparr> df_runningCallbacks := False, df_result := r \<rparr>)) ?s
    = updateD x (\<lambda>d'. d'\<lparr> df_runningCallbacks := False, df_result := DBoxed (df_result d) \<rparr>) (?s\<lparr>
    dh_objects := (if Suc (dl_finishedCount l) = length (dl_resultList l)
      then (dh_objects ?s)(a \<mapsto> fired_list ((dl_resultList l)[i := df_result d])) else dh_objects ?s),
    dh_lists := (dh_lists ?s)(a \<mapsto> l\<lparr> dl_resultList := (dl_resultList l)[i := df_result d],
      dl_finishedCount := Suc (dl_finishedCount l) \<rparr>) \<rparr>)"
    by (simp add: bindM_def tryM_def)
  finally show ?thesis using x by (simp add: object_runs fun_upd_twist [OF x(2)])
qed

text \<open>One deferred of the list fires.\<close>

lemma gathering_step:
  assumes inv: "gathering a ds got s" and i: "i < length ds" "ds ! i \<notin> dom got" and v: "outcome v" and n: "4 \<le> n"
  shows "\<exists>t d. def_exec E (Suc n) (settle (ds ! i) v) s = (Inr (), t) \<and> gathering a ds (got(ds ! i \<mapsto> v)) t
    \<and> dh_objects t (ds ! i) = Some d \<and> df_callbacks d = [] \<and> df_result d = DBoxed v"
proof -
  let ?d = "ds ! i" and ?got = "got(ds ! i \<mapsto> v)"
  obtain m where m: "n = Suc m" "Suc 2 \<le> m" using n by (cases n) auto
  obtain d where d: "dh_objects s ?d = Some d" "waits a i d" using inv i by (auto simp: gathering_def)
  have "\<not> set ds \<subseteq> dom got" using i nth_mem [of i ds] by blast
  then have a: "dh_objects s a = Some (newDeferred None)" "?d \<noteq> a" "distinct ds"
    using inv i nth_mem [of i ds] by (auto simp: gathering_def)
  let ?l = "\<lparr> dl_fireOnOneCallback = False, dl_fireOnOneErrback = False, dl_consumeErrors = False,
         dl_deferredList = ds, dl_resultList = so_far got ds, dl_finishedCount = card (dom got \<inter> set ds) \<rparr>"
  have l: "dh_lists s a = Some ?l" using inv by (simp add: gathering_def)
  let ?d1 = "d\<lparr> df_called := True, df_result := v, df_chainTo := None, df_callbacks := [] \<rparr>"
  let ?s0 = "s\<lparr> dh_objects := (dh_objects s)(?d \<mapsto> d\<lparr> df_called := True, df_result := v, df_chainTo := None \<rparr>) \<rparr>"
  let ?s1 = "s\<lparr> dh_objects := (dh_objects s)(?d \<mapsto> ?d1) \<rparr>"
  let ?f = "ListCallback a i (\<not> isError v)"
  let ?X = "def_exec E (Suc m)"
  let ?t = "s\<lparr>
    dh_objects := (if set ds \<subseteq> dom ?got then (dh_objects s)(a \<mapsto> fired_list (so_far ?got ds)) else dh_objects s)
      (?d \<mapsto> ?d1\<lparr> df_runningCallbacks := False, df_result := DBoxed v \<rparr>),
    dh_lists := (dh_lists s)(a \<mapsto> ?l\<lparr> dl_resultList := so_far ?got ds,
      dl_finishedCount := card (dom ?got \<inter> set ds) \<rparr>),
    dh_trace := dh_trace s @ [(?d, ?f, v)] \<rparr>"
  have waits: "df_callbacks d = [(ListCallback a i True, ListCallback a i False)]" "unfired d"
    using d by (simp_all add: waits_def)
  have chosen: "chosen v (ListCallback a i True, ListCallback a i False) = ?f"
    by (simp add: chosen_def)
  have call: "call_back ?X E ?d ?f ?s1 = (Inr (), ?t)"
    using fired_count [OF a(3) nth_mem [OF i(1)] i(2), of v] a i l m
    by (subst call_back_list [where l = ?l and d = ?d1])
      (simp_all add: so_far_update [OF a(3) i(1)])
  have "inner_loop ?X E (Suc m) ?d ?s0 = after_callback ?X E m ?d ?t"
    by (subst inner_loop_callback [where d = "d\<lparr> df_called := True, df_result := v, df_chainTo := None \<rparr>" and rest = "[]"])
      (simp_all add: waits, simp_all add: chosen bindM_def call)
  also have "\<dots> = (Inr Finished, ?t)"
    using m by (cases m) (simp_all add: after_callback_def object_runs runs)
  finally have "startRunCallbacks ?X E (Suc m) ?d v s = (Inr (), ?t)"
    by (rule startRunCallbacks_finished [OF d(1), rotated -1]) (use waits m in \<open>simp_all add: unfired_def\<close>)
  then have "def_exec E (Suc n) (settle ?d v) s = (Inr (), ?t)"
    unfolding settle_exec [OF v] m(1) .
  moreover have "gathering a ds ?got ?t"
    using inv i a by (auto simp: gathering_def nth_eq_iff_index_eq)
  moreover have "dh_objects ?t ?d = Some (?d1\<lparr> df_runningCallbacks := False, df_result := DBoxed v \<rparr>)"
    by simp
  ultimately show ?thesis
    by (intro exI [of _ ?t] exI [of _ "?d1\<lparr> df_runningCallbacks := False, df_result := DBoxed v \<rparr>"]) simp
qed

section \<open>A whole list\<close>

lemma addCallbacks_uncalled:
  assumes "dh_objects s d = Some x" "\<not> df_called x"
  shows "addCallbacks X E n d f (Some g) s
    = (Inr (), s\<lparr> dh_objects := (dh_objects s)(d \<mapsto> x\<lparr> df_callbacks := df_callbacks x @ [(f, g)] \<rparr>) \<rparr>)"
  using assms by (simp add: addCallbacks_def object_runs runs bindM_unit)

lemma add_list_callbacks:
  assumes "distinct ds" "\<forall>d \<in> set ds. \<exists>x. dh_objects s d = Some x \<and> unfired x \<and> df_callbacks x = []"
  shows "\<exists>f. doM (map (\<lambda>(i, d). addCallbacks X E n d (ListCallback a i True) (Some (ListCallback a i False)))
       (enumerate k ds)) s = (Inr (), s\<lparr> dh_objects := f \<rparr>)
     \<and> (\<forall>d. d \<notin> set ds \<longrightarrow> f d = dh_objects s d)
     \<and> (\<forall>i < length ds. \<exists>x. f (ds ! i) = Some x \<and> waits a (k + i) x)"
  using assms
proof (induction ds arbitrary: k s)
  case Nil
  show ?case by (rule exI [of _ "dh_objects s"]) (simp add: runs)
next
  case (Cons d ds)
  let ?pair = "(ListCallback a k True, ListCallback a k False)"
  obtain x where x: "dh_objects s d = Some x" "unfired x" "df_callbacks x = []" using Cons.prems(2) by auto
  let ?s = "s\<lparr> dh_objects := (dh_objects s)(d \<mapsto> x\<lparr> df_callbacks := [?pair] \<rparr>) \<rparr>"
  obtain f where f: "doM (map (\<lambda>(i, d). addCallbacks X E n d (ListCallback a i True) (Some (ListCallback a i False)))
       (enumerate (Suc k) ds)) ?s = (Inr (), ?s\<lparr> dh_objects := f \<rparr>)"
    "\<forall>y. y \<notin> set ds \<longrightarrow> f y = dh_objects ?s y" "\<forall>i < length ds. \<exists>x. f (ds ! i) = Some x \<and> waits a (Suc k + i) x"
  proof -
    have "\<forall>y \<in> set ds. \<exists>x. dh_objects ?s y = Some x \<and> unfired x \<and> df_callbacks x = []"
      using Cons.prems by auto
    then show ?thesis using that Cons.IH [of ?s "Suc k"] Cons.prems(1) by (auto simp del: fun_upd_apply)
  qed
  have "doM (map (\<lambda>(i, d). addCallbacks X E n d (ListCallback a i True) (Some (ListCallback a i False)))
       (enumerate k (d # ds))) s = (Inr (), s\<lparr> dh_objects := f \<rparr>)"
    using f(1) x by (simp add: bindM_def addCallbacks_uncalled unfired_def)
  moreover have "f d = Some (x\<lparr> df_callbacks := [?pair] \<rparr>)" "waits a k (x\<lparr> df_callbacks := [?pair] \<rparr>)"
    using f(2) Cons.prems(1) x(2) by (auto simp: waits_def unfired_def)
  ultimately show ?case
    using f(2,3) by (intro exI [of _ f]) (auto simp: nth_Cons split: nat.split)
qed

lemma gather_starts:
  assumes "distinct ds" "ds \<noteq> []" "dh_objects s a = None" "a \<notin> set ds"
    and "\<forall>d \<in> set ds. \<exists>x. dh_objects s d = Some x \<and> unfired x \<and> df_callbacks x = []"
  shows "\<exists>t. gatherResults E (Suc n) a ds False False False s = (Inr (), t) \<and> gathering a ds Map.empty t"
proof -
  let ?l = "\<lparr> dl_fireOnOneCallback = False, dl_fireOnOneErrback = False, dl_consumeErrors = False,
         dl_deferredList = ds, dl_resultList = replicate (length ds) DNull, dl_finishedCount = 0 \<rparr>"
  let ?s = "s\<lparr> dh_objects := (dh_objects s)(a \<mapsto> newDeferred None), dh_lists := (dh_lists s)(a \<mapsto> ?l) \<rparr>"
  let ?add = "doM (map (\<lambda>(i, d). addCallbacks (def_exec E n) E n d (ListCallback a i True) (Some (ListCallback a i False)))
       (enumerate 0 ds))"
  obtain f where f: "?add ?s = (Inr (), ?s\<lparr> dh_objects := f \<rparr>)" "f a = Some (newDeferred None)"
    "\<forall>i < length ds. \<exists>x. f (ds ! i) = Some x \<and> waits a i x"
  proof -
    have "\<forall>d \<in> set ds. \<exists>x. dh_objects ?s d = Some x \<and> unfired x \<and> df_callbacks x = []"
      using assms(4,5) by auto
    from add_list_callbacks [OF assms(1) this, of "def_exec E n" E n a 0] assms(4) that
    show ?thesis by (auto simp: newDeferred_def)
  qed
  have "gatherResults E (Suc n) a ds False False False s = ?add ?s"
    using assms by (simp add: gatherResults_def makeDeferredList_def makeDeferred_def wait_def Let_def bindM_unit runs list_runs)
  moreover have "gathering a ds Map.empty (?s\<lparr> dh_objects := f \<rparr>)"
    using assms f by (auto simp: gathering_def so_far_def map_replicate_const)
  ultimately show ?thesis using f(1) by auto
qed

lemma gathering_run:
  assumes "gathering a ds got s" "distinct (map fst outs)" "set (map fst outs) \<subseteq> set ds - dom got"
    "\<forall>(d, v) \<in> set outs. outcome v" "4 \<le> n"
  shows "\<exists>t. doM (map (\<lambda>(d, v). def_exec E (Suc n) (settle d v)) outs) s = (Inr (), t)
    \<and> gathering a ds (got ++ map_of outs) t"
  using assms
proof (induction outs arbitrary: got s)
  case (Cons p outs)
  obtain d v where p: "p = (d, v)" by fastforce
  obtain i where i: "i < length ds" "ds ! i = d" "d \<notin> dom got"
    using Cons.prems(3) by (auto simp: p in_set_conv_nth)
  obtain t where t: "def_exec E (Suc n) (settle d v) s = (Inr (), t)" "gathering a ds (got(d \<mapsto> v)) t"
    using gathering_step [OF Cons.prems(1) i(1), of v n E] i Cons.prems(4,5)
    by (auto simp: p simp del: def_exec.simps fun_upd_apply)
  obtain u where u: "doM (map (\<lambda>(d, v). def_exec E (Suc n) (settle d v)) outs) t = (Inr (), u)"
    "gathering a ds (got(d \<mapsto> v) ++ map_of outs) u"
  proof -
    have outs: "set (map fst outs) \<subseteq> set ds - dom (got(d \<mapsto> v))"
      using Cons.prems(2,3) by (auto simp: p)
    have "\<exists>u. doM (map (\<lambda>(d, v). def_exec E (Suc n) (settle d v)) outs) t = (Inr (), u)
      \<and> gathering a ds (got(d \<mapsto> v) ++ map_of outs) u"
      by (rule Cons.IH [OF t(2) _ outs]) (use Cons.prems(2,4,5) in \<open>simp_all add: p\<close>)
    then show ?thesis using that by blast
  qed
  have "got(d \<mapsto> v) ++ map_of outs = got ++ map_of (p # outs)"
    using Cons.prems(2) by (simp add: p map_add_upd_left dom_map_of_conv_image_fst)
  then show ?case using t u by (auto simp: p bindM_def simp del: def_exec.simps fun_upd_apply)
qed (auto simp: runs)

text \<open>C40: results are gathered.\<close>

theorem list_gathers_results:
  assumes "distinct ds" "ds \<noteq> []" "dh_objects s a = None" "a \<notin> set ds"
    and "\<forall>d \<in> set ds. \<exists>x. dh_objects s d = Some x \<and> unfired x \<and> df_callbacks x = []"
    and "distinct (map fst outs)" "set (map fst outs) = set ds" "\<forall>(d, v) \<in> set outs. outcome v" "4 \<le> n"
  shows "\<exists>t. doM (gatherResults E (Suc n) a ds False False False
        # map (\<lambda>(d, v). def_exec E (Suc n) (settle d v)) outs) s = (Inr (), t)
    \<and> dh_objects t a = Some ((newDeferred None)\<lparr> df_called := True,
        df_result := DResults (map (\<lambda>d. the (map_of outs d)) ds) \<rparr>)"
proof -
  obtain u where u: "gatherResults E (Suc n) a ds False False False s = (Inr (), u)" "gathering a ds Map.empty u"
    using gather_starts assms(1-5) by blast
  obtain t where t: "doM (map (\<lambda>(d, v). def_exec E (Suc n) (settle d v)) outs) u = (Inr (), t)"
    "gathering a ds (map_of outs) t"
    using gathering_run [OF u(2) assms(6) _ assms(8,9), of E] assms(7) by (auto simp del: def_exec.simps)
  have all: "set ds \<subseteq> dom (map_of outs)" using assms(7) by (auto simp: dom_map_of_conv_image_fst)
  then have "so_far (map_of outs) ds = map (\<lambda>d. the (map_of outs d)) ds" by (auto simp: so_far_def)
  then show ?thesis using u(1) t all by (auto simp: bindM_def gathering_def fired_list_def simp del: def_exec.simps)
qed

text \<open>An error that a list has seen is no error any more.\<close>

lemma list_hides_error:
  assumes "distinct ds" "i < length ds" "dh_objects s a = None" "a \<notin> set ds"
    and "\<forall>d \<in> set ds. \<exists>x. dh_objects s d = Some x \<and> unfired x \<and> df_callbacks x = []"
    and "e \<noteq> NullError" "4 \<le> n"
  shows "\<exists>t d. doM [gatherResults E (Suc n) a ds False False False,
        def_exec E (Suc n) (CallErrback (ds ! i) (DError e))] s = (Inr (), t)
    \<and> dh_objects t (ds ! i) = Some d \<and> df_result d = DBoxed (DError e) \<and> \<not> isError (df_result d)"
proof -
  obtain u where u: "gatherResults E (Suc n) a ds False False False s = (Inr (), u)" "gathering a ds Map.empty u"
    using gather_starts [of ds s a E n] assms(1-5) by fastforce
  have call: "settle (ds ! i) (DError e) = CallErrback (ds ! i) (DError e)" by (simp add: settle_def)
  obtain t d where "def_exec E (Suc n) (CallErrback (ds ! i) (DError e)) u = (Inr (), t)"
    "dh_objects t (ds ! i) = Some d" "df_result d = DBoxed (DError e)"
    using gathering_step [OF u(2) assms(2), of "DError e" n E] assms(6,7)
    unfolding call by (auto simp: outcome_def simp del: def_exec.simps)
  then show ?thesis using u(1) by (auto simp: list_run run_simps bindM_def simp del: def_exec.simps)
qed

end
