(* ===== verification/Deferred_Examples.thy ===== *)
theory Deferred_Examples
  imports Deferred_Once Deferred_List
begin

text \<open>
  Small heaps of deferreds. Function 0 adds one to a number, 1 throws, 2 returns the deferred at
  address 1 and every other one returns 7.
\<close>

definition demo_functions :: "(nat, nat) def_env" where
  "demo_functions = \<lparr> de_calls = (\<lambda>f v tr. []),
     de_returns = (\<lambda>f v. if f = 0 then (case v of DValue n \<Rightarrow> Inr (DValue (n + 1)) | _ \<Rightarrow> Inl (UserError ''number''))
       else if f = 1 then Inl (UserError ''thrown'')
       else if f = 2 then Inr (DShared 1)
       else Inr (DValue 7)) \<rparr>"

definition demo_deferred :: "(nat dfun \<times> nat dfun) list \<Rightarrow> (nat, nat) deferred" where
  "demo_deferred cs = (newDeferred None)\<lparr> df_callbacks := cs \<rparr>"

definition demo_heap :: "(nat, nat) deferred list \<Rightarrow> (nat, nat) def_heap" where
  "demo_heap ds = \<lparr> dh_objects = (\<lambda>a. if a < length ds then Some (ds ! a) else None),
     dh_lists = Map.empty, dh_timers = [], dh_trace = [] \<rparr>"

lemmas demo_simps = demo_functions_def demo_deferred_def demo_heap_def newDeferred_def unfired_def proper_def
  plain_pairs_def fatal_def outcome_def chosen_def

lemma deferred_runs_callbacks_witness:
  "def_exec demo_functions 6 (CallCallback 0 (DValue 1))
    (demo_heap [demo_deferred [(User 0, Identity), (User 1, Identity), (Identity, User 3)]])
   = (Inr (), (demo_heap [(demo_deferred [])\<lparr> df_called := True, df_result := DValue 7 \<rparr>])\<lparr>
       dh_trace := [(0, User 0, DValue 1), (0, User 1, DValue 2), (0, User 3, DError (UserError ''thrown''))] \<rparr>)"
  using deferred_runs_callbacks [of "demo_heap [demo_deferred [(User 0, Identity), (User 1, Identity), (Identity, User 3)]]"
      0 "demo_deferred [(User 0, Identity), (User 1, Identity), (Identity, User 3)]" demo_functions "DValue 1" 5]
  by (simp add: demo_simps fun_eq_iff split: dvalue.split del: def_exec.simps)

lemma fired_result_lost_witness:
  "df_result (the (dh_objects (snd (def_exec demo_functions 6 (CallCallback 0 (DValue 1))
    (demo_heap [demo_deferred [(User 2, Identity)], (demo_deferred [])\<lparr> df_called := True, df_result := DValue 5 \<rparr>]))) 0))
   = DNull"
  using fired_result_lost [of "demo_heap [demo_deferred [(User 2, Identity)], (demo_deferred [])\<lparr> df_called := True, df_result := DValue 5 \<rparr>]"
      0 "demo_deferred [(User 2, Identity)]" 2 Identity "[]" demo_functions "DValue 1" "DShared 1" 1
      "(demo_deferred [])\<lparr> df_called := True, df_result := DValue 5 \<rparr>" 5]
  by (simp add: demo_simps del: def_exec.simps)

lemma unfired_result_awaited_witness:
  "df_result (the (dh_objects (snd (doM [def_exec demo_functions 10 (CallCallback 0 (DValue 1)),
      def_exec demo_functions 10 (CallCallback 1 (DValue 5))]
    (demo_heap [demo_deferred [(User 2, Identity), (User 0, Identity)], demo_deferred [(User 0, Identity)]]))) 0))
   = DValue 7"
  using unfired_result_awaited [of
      "demo_heap [demo_deferred [(User 2, Identity), (User 0, Identity)], demo_deferred [(User 0, Identity)]]"
      0 "demo_deferred [(User 2, Identity), (User 0, Identity)]" 2 Identity "[(User 0, Identity)]" demo_functions
      "DValue 1" "DShared 1" 1 "demo_deferred [(User 0, Identity)]" "DValue 5" 9]
  by (simp add: demo_simps split: dvalue.split del: def_exec.simps)

definition demo_called :: "(nat, nat) def_heap" where
  "demo_called = demo_heap [(demo_deferred [])\<lparr> df_called := True, df_result := DValue 5 \<rparr>]"

lemma deferred_called_once_witness:
  "def_exec demo_functions 1 (CallCallback 0 (DValue 6)) demo_called = (Inl AlreadyCalledError, demo_called)"
proof -
  have "\<exists>d'. dh_objects demo_called 0 = Some d' \<and> df_called d' \<and>
    (\<not> df_suppressAlreadyCalled d' \<longrightarrow> proper (DValue 6 :: nat dvalue) \<longrightarrow>
      def_exec demo_functions (Suc 0) (CallCallback 0 (DValue 6)) demo_called = (Inl AlreadyCalledError, demo_called))"
    by (rule deferred_called_once [of demo_called 0 "(demo_deferred [])\<lparr> df_called := True, df_result := DValue 5 \<rparr>"
          demo_functions 1 "CallErrback 0 (DError CancelledError)" "Inl AlreadyCalledError"])
      (simp_all add: demo_called_def demo_simps def_errback_def startRunCallbacks_def object_runs runs)
  then show ?thesis by (simp add: demo_called_def demo_simps del: def_exec.simps)
qed

lemma list_gathers_results_witness:
  "\<exists>t. doM [gatherResults demo_functions 5 2 [0, 1] False False False,
      def_exec demo_functions 5 (settle 1 (DError TimeoutError)), def_exec demo_functions 5 (settle 0 (DValue 4))]
    (demo_heap [demo_deferred [], demo_deferred []]) = (Inr (), t)
    \<and> dh_objects t 2 = Some ((newDeferred None)\<lparr> df_called := True,
        df_result := DResults [DValue 4, DError TimeoutError] \<rparr>)"
  using list_gathers_results [of "[0, 1]" "demo_heap [demo_deferred [], demo_deferred []]" 2
      "[(1, DError TimeoutError), (0, DValue 4)]" 4 demo_functions]
  by (auto simp: demo_simps nth_Cons less_Suc_eq simp del: def_exec.simps doM.simps)

lemma list_hides_error_witness:
  "\<exists>t d. doM [gatherResults demo_functions 5 2 [0, 1] False False False,
        def_exec demo_functions 5 (CallErrback 1 (DError TimeoutError))]
      (demo_heap [demo_deferred [], demo_deferred []]) = (Inr (), t)
    \<and> dh_objects t 1 = Some d \<and> df_result d = DBoxed (DError TimeoutError) \<and> \<not> isError (df_result d)"
  using list_hides_error [of "[0, 1]" 1 "demo_heap [demo_deferred [], demo_deferred []]" 2 TimeoutError 4 demo_functions]
  by (auto simp: demo_simps nth_Cons less_Suc_eq simp del: def_exec.simps doM.simps)

end
