(* ===== verification/Archive.thy ===== *)
theory Archive
  imports UInt_Receiver
begin

text \<open>
  \<open>Archive\<close> of \<open>common/serialization/archive.h\<close>: values of C++ types written into a byte array and
  read back. The overloads of \<open><<\<close> and \<open>>>\<close> are chosen by the static type of the operand, which is a
  value of \<open>ar_type\<close> here; \<open>ar_op\<close> is the operator that the mode asks for. Integers are their bit
  patterns, and so are real numbers. An ordered container is the list of its elements as it
  iterates; its comparator, a template parameter, is part of \<open>ar_host\<close>. The iteration order of the
  unordered containers is not specified by the language; they are left out.
\<close>

section \<open>Types, values and the archive\<close>

datatype ar_type =
    BoolT
  | IntT nat
  | RealT nat
  | StringT
  | BytesT
  | FixedT nat
  | ArrayT nat ar_type
  | SequenceT ar_type
  | SetT bool ar_type
  | MappingT bool ar_type ar_type
  | OptionalT ar_type
  | ClassT "ar_type list"

datatype ar_value =
    BoolV bool
  | IntV nat
  | RealV nat
  | BytesV bytes
  | ListV "ar_value list"
  | PairsV "(ar_value \<times> ar_value) list"
  | NoneV
  | SomeV ar_value

datatype archive_error = ArchiveError | ArchivePositionError

datatype archive_mode = WriteMode | ReadMode

record archive =
  ar_mode :: archive_mode
  ar_pos :: nat
  ar_storage :: bytes

type_synonym 'a ar_prog = "(archive_error, archive, 'a) prog"

text \<open>The host, the byte order of the template and the comparator of the containers.\<close>

record ar_host =
  ah_little :: bool
  ah_order :: byte_order
  ah_less :: "ar_value \<Rightarrow> ar_value \<Rightarrow> bool"

definition newArchive :: archive where
  "newArchive = \<lparr> ar_mode = WriteMode, ar_pos = 0, ar_storage = [] \<rparr>"

definition archiveOf :: "bytes \<Rightarrow> archive" where
  "archiveOf data = \<lparr> ar_mode = ReadMode, ar_pos = 0, ar_storage = data \<rparr>"

definition archive_empty :: "archive \<Rightarrow> bool" where
  "archive_empty s \<longleftrightarrow> ar_pos s = length (ar_storage s)"

text \<open>A difference of \<open>size_t\<close>.\<close>

definition archive_size :: "archive \<Rightarrow> nat" where
  "archive_size s = nat ((int (length (ar_storage s)) - int (ar_pos s)) mod 2 ^ 64)"

definition archive_data :: "bytes ar_prog" where
  "archive_data = withM (\<lambda>s. if archive_empty s then throwM ArchiveError
     else returnM (drop (ar_pos s) (ar_storage s)))"

definition setMode :: "archive_mode \<Rightarrow> unit ar_prog" where
  "setMode m = modifyM (\<lambda>s. s\<lparr> ar_mode := m \<rparr>)"

section \<open>Writing\<close>

definition append_raw :: "bytes \<Rightarrow> unit ar_prog" where
  "append_raw src = modifyM (\<lambda>s. s\<lparr> ar_storage := ar_storage s @ src \<rparr>)"

definition append_int :: "ar_host \<Rightarrow> nat \<Rightarrow> nat \<Rightarrow> unit ar_prog" where
  "append_int E k v = append_raw (mem_store (ah_little E) k (convertTo (ah_little E) (ah_order E) k v))"

text \<open>A real number is not converted to the byte order.\<close>

definition appendReal :: "ar_host \<Rightarrow> nat \<Rightarrow> nat \<Rightarrow> unit ar_prog" where
  "appendReal E k v = append_raw (mem_store (ah_little E) k v)"

definition append_length :: "ar_host \<Rightarrow> nat \<Rightarrow> unit ar_prog" where
  "append_length E len =
     (if len \<ge> 0xff then doM [append_int E 1 0xff, append_int E 4 (len mod 2 ^ 32)]
      else append_int E 1 len)"

definition append_counted :: "ar_host \<Rightarrow> bytes \<Rightarrow> unit ar_prog" where
  "append_counted E value = doM [append_length E (length value), append_raw value]"

section \<open>Reading\<close>

definition checkReadOverflow :: "nat \<Rightarrow> unit ar_prog" where
  "checkReadOverflow len = withM (\<lambda>s.
     if (ar_pos s + len) mod 2 ^ 64 > length (ar_storage s) then throwM ArchivePositionError else doM [])"

definition checkSkipOverflow :: "nat \<Rightarrow> unit ar_prog" where
  "checkSkipOverflow len = withM (\<lambda>s.
     if (ar_pos s + len) mod 2 ^ 64 > length (ar_storage s) then throwM ArchivePositionError else doM [])"

definition ignore :: "nat \<Rightarrow> unit ar_prog" where
  "ignore skip = doM [checkSkipOverflow skip, modifyM (\<lambda>s. s\<lparr> ar_pos := (ar_pos s + skip) mod 2 ^ 64 \<rparr>)]"

definition read_raw :: "nat \<Rightarrow> bytes ar_prog" where
  "read_raw len = thenM [checkReadOverflow len]
     (bindM (getsM (\<lambda>s. take len (drop (ar_pos s) (ar_storage s)))) (\<lambda>bs.
       retM [modifyM (\<lambda>s. s\<lparr> ar_pos := (ar_pos s + len) mod 2 ^ 64 \<rparr>)] bs))"

definition read_int :: "ar_host \<Rightarrow> nat \<Rightarrow> nat ar_prog" where
  "read_int E k = bindM (read_raw k) (\<lambda>bs.
     returnM (convertFrom (ah_little E) (ah_order E) k (mem_load (ah_little E) bs)))"

text \<open>\<open>std::isfinite\<close> on the formats of IEEE 754: the exponent is not all ones.\<close>

definition is_finite :: "nat \<Rightarrow> nat \<Rightarrow> bool" where
  "is_finite k v \<longleftrightarrow> (if k = 4 then v div 2 ^ 23 mod 2 ^ 8 \<noteq> 2 ^ 8 - 1 else v div 2 ^ 52 mod 2 ^ 11 \<noteq> 2 ^ 11 - 1)"

definition readReal :: "ar_host \<Rightarrow> nat \<Rightarrow> nat ar_prog" where
  "readReal E k = bindM (read_raw k) (\<lambda>bs. returnM (mem_load (ah_little E) bs))"

definition read_finite :: "ar_host \<Rightarrow> nat \<Rightarrow> nat ar_prog" where
  "read_finite E k = bindM (readReal E k) (\<lambda>v. if is_finite k v then returnM v else throwM ArchiveError)"

definition read_length :: "ar_host \<Rightarrow> nat ar_prog" where
  "read_length E = bindM (read_int E 1) (\<lambda>len. if len = 0xff then read_int E 4 else returnM len)"

definition read_counted :: "ar_host \<Rightarrow> bytes ar_prog" where
  "read_counted E = bindM (read_length E) (\<lambda>len. if len > 0 then read_raw len else returnM [])"

section \<open>Containers\<close>

text \<open>\<open>emplace\<close> of \<open>std::set\<close> (one element per key) and of \<open>std::multiset\<close> (after its equals).\<close>

fun emplace :: "('a \<Rightarrow> 'a \<Rightarrow> bool) \<Rightarrow> bool \<Rightarrow> 'a \<Rightarrow> 'a list \<Rightarrow> 'a list" where
  "emplace lt multi x [] = [x]"
| "emplace lt multi x (y # ys) =
     (if lt x y then x # y # ys
      else if \<not> multi \<and> \<not> lt y x then y # ys
      else y # emplace lt multi x ys)"

fun repeatM :: "nat \<Rightarrow> 'a ar_prog \<Rightarrow> ('a \<Rightarrow> 'b \<Rightarrow> 'b) \<Rightarrow> 'b \<Rightarrow> 'b ar_prog" where
  "repeatM 0 m f r = returnM r"
| "repeatM (Suc n) m f r = bindM m (\<lambda>x. repeatM n m f (f x r))"

definition readSequence :: "ar_host \<Rightarrow> ar_value ar_prog \<Rightarrow> ar_value ar_prog" where
  "readSequence E elem = bindM (read_length E) (\<lambda>len.
     bindM (repeatM len elem (\<lambda>x xs. xs @ [x]) []) (\<lambda>xs. returnM (ListV xs)))"

definition readSet :: "ar_host \<Rightarrow> bool \<Rightarrow> ar_value ar_prog \<Rightarrow> ar_value ar_prog" where
  "readSet E multi elem = bindM (read_length E) (\<lambda>len.
     bindM (repeatM len elem (emplace (ah_less E) multi) []) (\<lambda>xs. returnM (ListV xs)))"

definition readMapping :: "ar_host \<Rightarrow> bool \<Rightarrow> ar_value ar_prog \<Rightarrow> ar_value ar_prog \<Rightarrow> ar_value ar_prog" where
  "readMapping E multi key val = bindM (read_length E) (\<lambda>len.
     bindM (repeatM len (bindM key (\<lambda>k. bindM val (\<lambda>v. returnM (k, v))))
         (emplace (\<lambda>a b. ah_less E (fst a) (fst b)) multi) [])
       (\<lambda>xs. returnM (PairsV xs)))"

definition readOptional :: "ar_host \<Rightarrow> ar_value ar_prog \<Rightarrow> ar_value ar_prog" where
  "readOptional E val = bindM (read_int E 1) (\<lambda>hasValue.
     if hasValue = 0 then returnM NoneV else bindM val (\<lambda>v. returnM (SomeV v)))"

definition appendSequence :: "ar_host \<Rightarrow> (ar_value \<Rightarrow> unit ar_prog) \<Rightarrow> ar_value list \<Rightarrow> unit ar_prog" where
  "appendSequence E elem xs = doM [append_length E (length xs), doM (map elem xs)]"

definition appendMapping ::
  "ar_host \<Rightarrow> (ar_value \<Rightarrow> unit ar_prog) \<Rightarrow> (ar_value \<Rightarrow> unit ar_prog) \<Rightarrow> (ar_value \<times> ar_value) list
     \<Rightarrow> unit ar_prog" where
  "appendMapping E key val xs = doM [append_length E (length xs),
     doM (map (\<lambda>(k, v). doM [key k, val v]) xs)]"

text \<open>\<open>ArchiveModeGuard\<close>: the mode is set, and set back however the block ends.\<close>

definition mode_guard :: "archive_mode \<Rightarrow> 'a ar_prog \<Rightarrow> 'a ar_prog" where
  "mode_guard m body = withM (\<lambda>s. thenM [setMode m]
     (bindM (tryM body (\<lambda>e. thenM [setMode (ar_mode s)] (throwM e)))
       (\<lambda>x. retM [setMode (ar_mode s)] x)))"

section \<open>The operators\<close>

text \<open>
  \<open>ar_op E WriteMode t v\<close> is \<open>ar << v\<close> and \<open>ar_op E ReadMode t v\<close> is \<open>ar >> v\<close>; both give the value
  that the operand holds then. A member function \<open>serialize\<close> applies \<open>&\<close> to the members of its
  class in order: \<open>ar_members\<close>.
\<close>

definition discard :: "'a ar_prog \<Rightarrow> unit ar_prog" where
  "discard m = bindM m (\<lambda>_. doM [])"

fun list_of :: "ar_value \<Rightarrow> ar_value list" where
  "list_of (ListV xs) = xs"
| "list_of v = []"

fun pairs_of :: "ar_value \<Rightarrow> (ar_value \<times> ar_value) list" where
  "pairs_of (PairsV xs) = xs"
| "pairs_of v = []"

fun bits_of :: "ar_value \<Rightarrow> nat" where
  "bits_of (IntV n) = n"
| "bits_of (RealV n) = n"
| "bits_of (BoolV b) = (if b then 1 else 0)"
| "bits_of v = 0"

fun bytes_of :: "ar_value \<Rightarrow> bytes" where
  "bytes_of (BytesV bs) = bs"
| "bytes_of v = []"

fun ar_op :: "ar_host \<Rightarrow> archive_mode \<Rightarrow> ar_type \<Rightarrow> ar_value \<Rightarrow> ar_value ar_prog"
  and ar_members :: "ar_host \<Rightarrow> ar_type list \<Rightarrow> ar_value list \<Rightarrow> ar_value list ar_prog" where
  "ar_op E m BoolT v = (case m of
      WriteMode \<Rightarrow> retM [append_int E 1 (bits_of v)] v
    | ReadMode \<Rightarrow> bindM (read_int E 1) (\<lambda>n. returnM (BoolV (n > 0))))"
| "ar_op E m (IntT k) v = (case m of
      WriteMode \<Rightarrow> retM [append_int E k (bits_of v)] v
    | ReadMode \<Rightarrow> bindM (read_int E k) (\<lambda>n. returnM (IntV n)))"
| "ar_op E m (RealT k) v = (case m of
      WriteMode \<Rightarrow> retM [appendReal E k (bits_of v)] v
    | ReadMode \<Rightarrow> bindM (read_finite E k) (\<lambda>n. returnM (RealV n)))"
| "ar_op E m StringT v = (case m of
      WriteMode \<Rightarrow> retM [append_counted E (bytes_of v)] v
    | ReadMode \<Rightarrow> bindM (read_counted E) (\<lambda>bs. returnM (BytesV bs)))"
| "ar_op E m BytesT v = (case m of
      WriteMode \<Rightarrow> retM [append_counted E (bytes_of v)] v
    | ReadMode \<Rightarrow> bindM (read_counted E) (\<lambda>bs. returnM (BytesV bs)))"
| "ar_op E m (FixedT n) v = (case m of
      WriteMode \<Rightarrow> retM [append_raw (bytes_of v)] v
    | ReadMode \<Rightarrow> bindM (read_raw n) (\<lambda>bs. returnM (BytesV bs)))"
| "ar_op E m (ArrayT n t) v = (case m of
      WriteMode \<Rightarrow> retM (map (\<lambda>x. discard (ar_op E WriteMode t x)) (list_of v)) v
    | ReadMode \<Rightarrow> bindM (repeatM n (ar_op E ReadMode t NoneV) (\<lambda>x xs. xs @ [x]) [])
        (\<lambda>xs. returnM (ListV xs)))"
| "ar_op E m (SequenceT t) v = (case m of
      WriteMode \<Rightarrow> retM [appendSequence E (\<lambda>x. discard (ar_op E WriteMode t x)) (list_of v)] v
    | ReadMode \<Rightarrow> readSequence E (ar_op E ReadMode t NoneV))"
| "ar_op E m (SetT multi t) v = (case m of
      WriteMode \<Rightarrow> retM [appendSequence E (\<lambda>x. discard (ar_op E WriteMode t x)) (list_of v)] v
    | ReadMode \<Rightarrow> readSet E multi (ar_op E ReadMode t NoneV))"
| "ar_op E m (MappingT multi kt vt) v = (case m of
      WriteMode \<Rightarrow> retM [appendMapping E (\<lambda>x. discard (ar_op E WriteMode kt x))
        (\<lambda>x. discard (ar_op E WriteMode vt x)) (pairs_of v)] v
    | ReadMode \<Rightarrow> readMapping E multi (ar_op E ReadMode kt NoneV) (ar_op E ReadMode vt NoneV))"
| "ar_op E m (OptionalT t) v = (case m of
      WriteMode \<Rightarrow> (case v of
          SomeV x \<Rightarrow> retM [append_int E 1 1, discard (ar_op E WriteMode t x)] v
        | _ \<Rightarrow> retM [append_int E 1 0] v)
    | ReadMode \<Rightarrow> readOptional E (ar_op E ReadMode t NoneV))"
| "ar_op E m (ClassT ts) v = mode_guard m (bindM (ar_members E ts (list_of v)) (\<lambda>xs. returnM (ListV xs)))"
| "ar_members E [] vs = returnM []"
| "ar_members E (t # ts) vs = withM (\<lambda>s.
     bindM (ar_op E (ar_mode s) t (case vs of [] \<Rightarrow> NoneV | v # _ \<Rightarrow> v)) (\<lambda>x.
       bindM (ar_members E ts (drop 1 vs)) (\<lambda>xs. returnM (x # xs))))"

definition archive_write :: "ar_host \<Rightarrow> ar_type \<Rightarrow> ar_value \<Rightarrow> unit ar_prog" where
  "archive_write E t v = discard (ar_op E WriteMode t v)"

definition archive_read :: "ar_host \<Rightarrow> ar_type \<Rightarrow> ar_value ar_prog" where
  "archive_read E t = ar_op E ReadMode t NoneV"

end
