(* ===== verification/Archive_Props.thy ===== *)
theory Archive_Props
  imports Archive
begin

text \<open>
  What is written into an archive is read back, at any place in a longer byte array; a byte array
  that ends too early is noticed; and no input makes a read leave the array.
\<close>

section \<open>The encoding\<close>

definition int_bytes :: "ar_host \<Rightarrow> nat \<Rightarrow> nat \<Rightarrow> bytes" where
  "int_bytes E k v = mem_store (ah_little E) k (convertTo (ah_little E) (ah_order E) k v)"

definition length_bytes :: "ar_host \<Rightarrow> nat \<Rightarrow> bytes" where
  "length_bytes E n = (if n \<ge> 0xff then int_bytes E 1 0xff @ int_bytes E 4 n else int_bytes E 1 n)"

fun encode :: "ar_host \<Rightarrow> ar_type \<Rightarrow> ar_value \<Rightarrow> bytes"
  and encode_members :: "ar_host \<Rightarrow> ar_type list \<Rightarrow> ar_value list \<Rightarrow> bytes" where
  "encode E BoolT v = int_bytes E 1 (bits_of v)"
| "encode E (IntT k) v = int_bytes E k (bits_of v)"
| "encode E (RealT k) v = mem_store (ah_little E) k (bits_of v)"
| "encode E StringT v = length_bytes E (length (bytes_of v)) @ bytes_of v"
| "encode E BytesT v = length_bytes E (length (bytes_of v)) @ bytes_of v"
| "encode E (FixedT n) v = bytes_of v"
| "encode E (ArrayT n t) v = concat (map (encode E t) (list_of v))"
| "encode E (SequenceT t) v = length_bytes E (length (list_of v)) @ concat (map (encode E t) (list_of v))"
| "encode E (SetT multi t) v = length_bytes E (length (list_of v)) @ concat (map (encode E t) (list_of v))"
| "encode E (MappingT multi kt vt) v = length_bytes E (length (pairs_of v))
     @ concat (map (\<lambda>(k, x). encode E kt k @ encode E vt x) (pairs_of v))"
| "encode E (OptionalT t) v = (case v of SomeV x \<Rightarrow> int_bytes E 1 1 @ encode E t x | _ \<Rightarrow> int_bytes E 1 0)"
| "encode E (ClassT ts) v = encode_members E ts (list_of v)"
| "encode_members E [] vs = []"
| "encode_members E (t # ts) vs = encode E t (case vs of [] \<Rightarrow> NoneV | v # _ \<Rightarrow> v) @ encode_members E ts (drop 1 vs)"

text \<open>A value of a type: numbers in range, finite reals, containers as they iterate.\<close>

definition in_order :: "('a \<Rightarrow> 'a \<Rightarrow> bool) \<Rightarrow> bool \<Rightarrow> 'a list \<Rightarrow> bool" where
  "in_order lt multi xs \<longleftrightarrow> sorted_wrt (\<lambda>x y. if multi then \<not> lt y x else lt x y) xs"

fun has_type :: "ar_host \<Rightarrow> ar_type \<Rightarrow> ar_value \<Rightarrow> bool"
  and has_types :: "ar_host \<Rightarrow> ar_type list \<Rightarrow> ar_value list \<Rightarrow> bool" where
  "has_type E BoolT v = (case v of BoolV b \<Rightarrow> True | _ \<Rightarrow> False)"
| "has_type E (IntT k) v = (case v of IntV n \<Rightarrow> n < 256 ^ k | _ \<Rightarrow> False)"
| "has_type E (RealT k) v = (case v of RealV n \<Rightarrow> n < 256 ^ k \<and> is_finite k n | _ \<Rightarrow> False)"
| "has_type E StringT v = (case v of BytesV bs \<Rightarrow> length bs < 2 ^ 32 | _ \<Rightarrow> False)"
| "has_type E BytesT v = (case v of BytesV bs \<Rightarrow> length bs < 2 ^ 32 | _ \<Rightarrow> False)"
| "has_type E (FixedT n) v = (case v of BytesV bs \<Rightarrow> length bs = n | _ \<Rightarrow> False)"
| "has_type E (ArrayT n t) v = (case v of ListV xs \<Rightarrow> length xs = n \<and> list_all (has_type E t) xs | _ \<Rightarrow> False)"
| "has_type E (SequenceT t) v =
     (case v of ListV xs \<Rightarrow> length xs < 2 ^ 32 \<and> list_all (has_type E t) xs | _ \<Rightarrow> False)"
| "has_type E (SetT multi t) v = (case v of
      ListV xs \<Rightarrow> length xs < 2 ^ 32 \<and> list_all (has_type E t) xs \<and> in_order (ah_less E) multi xs
    | _ \<Rightarrow> False)"
| "has_type E (MappingT multi kt vt) v = (case v of
      PairsV xs \<Rightarrow> length xs < 2 ^ 32 \<and> list_all (\<lambda>(k, x). has_type E kt k \<and> has_type E vt x) xs
        \<and> in_order (\<lambda>a b. ah_less E (fst a) (fst b)) multi xs
    | _ \<Rightarrow> False)"
| "has_type E (OptionalT t) v = (case v of NoneV \<Rightarrow> True | SomeV x \<Rightarrow> has_type E t x | _ \<Rightarrow> False)"
| "has_type E (ClassT ts) v = (case v of ListV vs \<Rightarrow> has_types E ts vs | _ \<Rightarrow> False)"
| "has_types E [] vs = (vs = [])"
| "has_types E (t # ts) vs = (case vs of [] \<Rightarrow> False | v # rest \<Rightarrow> has_type E t v \<and> has_types E ts rest)"

definition strict_order :: "ar_host \<Rightarrow> bool" where
  "strict_order E \<longleftrightarrow> (\<forall>x y. ah_less E x y \<longrightarrow> \<not> ah_less E y x)"

section \<open>Writing\<close>

definition writes :: "'a ar_prog \<Rightarrow> 'a \<Rightarrow> bytes \<Rightarrow> bool" where
  "writes m v bs \<longleftrightarrow> (\<forall>s. m s = (Inr v, s\<lparr> ar_storage := ar_storage s @ bs \<rparr>))"

lemma writes_raw: "writes (append_raw bs) () bs"
  by (simp add: writes_def append_raw_def runs)

lemma writes_int: "writes (append_int E k v) () (int_bytes E k v)"
  by (simp add: append_int_def int_bytes_def writes_raw)

lemma writes_real: "writes (appendReal E k v) () (mem_store (ah_little E) k v)"
  by (simp add: appendReal_def writes_raw)

lemma writes_return: "writes (returnM v) v []"
  by (simp add: writes_def runs)

lemma writes_bind:
  assumes "writes m v bs" "writes (k v) w cs"
  shows "writes (bindM m k) w (bs @ cs)"
  using assms by (simp add: writes_def bindM_def)

lemma writes_doM: "list_all2 (\<lambda>m bs. writes m () bs) ms bss \<Longrightarrow> writes (doM ms) () (concat bss)"
  by (induction rule: list_all2_induct) (auto intro: writes_return writes_bind)

lemma writes_doM2: "writes m () bs \<Longrightarrow> writes m' () cs \<Longrightarrow> writes (doM [m, m']) () (bs @ cs)"
  using writes_doM [of "[m, m']" "[bs, cs]"] by simp

lemma writes_doM1: "writes m () bs \<Longrightarrow> writes (doM [m]) () bs"
  using writes_doM [of "[m]" "[bs]"] by simp

lemma writes_retM: "writes (doM ms) () bs \<Longrightarrow> writes (retM ms v) v bs"
  using writes_bind [of "doM ms" "()" bs "\<lambda>_. returnM v" v "[]"] by (simp add: retM_def writes_return)

lemma writes_retM1: "writes m () bs \<Longrightarrow> writes (retM [m] v) v bs"
  using writes_doM [of "[m]" "[bs]"] by (auto intro: writes_retM)

lemma writes_discard: "writes m v bs \<Longrightarrow> writes (discard m) () bs"
  using writes_bind [of m v bs "\<lambda>_. doM []" "()" "[]"] by (simp add: discard_def writes_return)

lemma writes_length: "n < 2 ^ 32 \<Longrightarrow> writes (append_length E n) () (length_bytes E n)"
  by (auto simp: append_length_def length_bytes_def intro: writes_doM2 writes_int simp del: doM.simps)

lemma writes_counted:
  "length bs < 2 ^ 32 \<Longrightarrow> writes (append_counted E bs) () (length_bytes E (length bs) @ bs)"
  unfolding append_counted_def by (intro writes_doM2 writes_length writes_raw)

lemma writes_map:
  "list_all (\<lambda>x. writes (f x) () (g x)) xs \<Longrightarrow> writes (doM (map f xs)) () (concat (map g xs))"
  by (rule writes_doM) (simp add: list_all2_map1 list_all2_map2 list_all2_same list_all_iff)

lemma writes_sequence:
  "length xs < 2 ^ 32 \<Longrightarrow> list_all (\<lambda>x. writes (f x) () (g x)) xs \<Longrightarrow>
     writes (appendSequence E f xs) () (length_bytes E (length xs) @ concat (map g xs))"
  unfolding appendSequence_def by (intro writes_doM2 writes_length writes_map)

text \<open>Within the guard the mode is that of the operator.\<close>

definition writes_in :: "archive_mode \<Rightarrow> 'a ar_prog \<Rightarrow> 'a \<Rightarrow> bytes \<Rightarrow> bool" where
  "writes_in mode m v bs \<longleftrightarrow>
     (\<forall>s. ar_mode s = mode \<longrightarrow> m s = (Inr v, s\<lparr> ar_storage := ar_storage s @ bs \<rparr>))"

lemma writes_in_any: "writes m v bs \<Longrightarrow> writes_in mode m v bs"
  by (simp add: writes_def writes_in_def)

lemma writes_in_bind:
  "writes_in mode m v bs \<Longrightarrow> writes_in mode (k v) w cs \<Longrightarrow> writes_in mode (bindM m k) w (bs @ cs)"
  by (simp add: writes_in_def bindM_def)

lemma writes_in_map: "writes_in mode m v bs \<Longrightarrow> writes_in mode (bindM m (\<lambda>x. returnM (f x))) (f v) bs"
  by (simp add: writes_in_def bindM_def run_simps)

lemma writes_in_withM:
  "(\<And>s. ar_mode s = mode \<Longrightarrow> writes_in mode (f s) v bs) \<Longrightarrow> writes_in mode (withM f) v bs"
  by (simp add: writes_in_def runs)

lemma writes_guard: "writes_in m body v bs \<Longrightarrow> writes (mode_guard m body) v bs"
  unfolding writes_def
proof
  fix s
  assume body: "writes_in m body v bs"
  show "mode_guard m body s = (Inr v, s\<lparr> ar_storage := ar_storage s @ bs \<rparr>)"
    using body by (cases s) (simp add: writes_in_def mode_guard_def setMode_def runs tryM_def bindM_def)
qed

lemma writes_encode:
  "has_type E t v \<Longrightarrow> writes (ar_op E WriteMode t v) v (encode E t v)"
  "has_types E ts vs \<Longrightarrow> writes_in WriteMode (ar_members E ts vs) vs (encode_members E ts vs)"
proof (induction E t v and E ts vs rule: encode_encode_members.induct)
  case (7 E n t v)
  then show ?case
    by (auto simp: list_all_iff split: ar_value.splits intro!: writes_retM writes_map writes_discard)
next
  case (8 E t v)
  then show ?case
    by (auto simp: list_all_iff split: ar_value.splits intro!: writes_retM1 writes_sequence writes_discard)
next
  case (9 E multi t v)
  then show ?case
    by (auto simp: list_all_iff split: ar_value.splits intro!: writes_retM1 writes_sequence writes_discard)
next
  case (10 E multi kt vt v)
  then obtain xs where v: "v = PairsV xs" and len: "length xs < 2 ^ 32"
    and xs: "\<forall>(k, x) \<in> set xs. has_type E kt k \<and> has_type E vt x"
    by (cases v) (auto simp: list_all_iff)
  have "list_all (\<lambda>p. writes ((\<lambda>(k, x). doM [discard (ar_op E WriteMode kt k), discard (ar_op E WriteMode vt x)]) p)
      () ((\<lambda>(k, x). encode E kt k @ encode E vt x) p)) xs"
  proof -
    have kx: "writes (ar_op E WriteMode kt k) k (encode E kt k)" "writes (ar_op E WriteMode vt x) x (encode E vt x)"
      if "(k, x) \<in> set xs" for k x
      using 10(1) [of "(k, x)" k x] 10(2) [of "(k, x)" k x] that xs by (auto simp: v)
    then show ?thesis
      by (auto simp: list_all_iff simp del: doM.simps
          intro!: writes_doM2 intro: writes_discard [OF kx(1)] writes_discard [OF kx(2)])
  qed
  then show ?case
    using len by (auto simp: v appendMapping_def simp del: doM.simps
        intro!: writes_retM1 writes_doM2 writes_length writes_map)
next
  case (11 E t v)
  then show ?case
    by (auto split: ar_value.splits simp del: doM.simps
        intro!: writes_retM writes_doM1 writes_doM2 writes_int writes_discard)
next
  case (12 E ts v)
  then show ?case
    by (auto split: ar_value.splits intro!: writes_guard writes_in_map)
next
  case (14 E t ts vs)
  then obtain v rest where vs: "vs = v # rest" "has_type E t v" "has_types E ts rest" by (cases vs) auto
  have "writes_in WriteMode (bindM (ar_members E ts rest) (\<lambda>xs. returnM (v # xs))) vs (encode_members E ts rest)"
    using 14(2) vs by (auto intro: writes_in_map)
  then have "writes_in WriteMode (bindM (ar_op E WriteMode t v)
      (\<lambda>x. bindM (ar_members E ts rest) (\<lambda>xs. returnM (x # xs)))) vs (encode E t v @ encode_members E ts rest)"
    using 14(1) vs by (intro writes_in_bind [OF writes_in_any]) simp_all
  then show ?case by (auto simp: vs intro: writes_in_withM)
qed (auto split: ar_value.splits intro!: writes_retM1 writes_int writes_real writes_raw writes_counted
   writes_in_any [OF writes_return])

section \<open>Reading\<close>

definition placed :: "archive_mode \<Rightarrow> nat \<Rightarrow> bytes \<Rightarrow> archive" where
  "placed m p data = \<lparr> ar_mode = m, ar_pos = p, ar_storage = data \<rparr>"

text \<open>
  In mode \<open>m\<close>, the program reads \<open>v\<close> from the octets \<open>bs\<close> wherever they stand, and reports a
  position error when only a part of them is there.
\<close>

definition reads :: "archive_mode \<Rightarrow> 'a ar_prog \<Rightarrow> 'a \<Rightarrow> bytes \<Rightarrow> bool" where
  "reads m R v bs \<longleftrightarrow>
     (\<forall>pre rest. length (pre @ bs @ rest) < 2 ^ 64 \<longrightarrow>
       R (placed m (length pre) (pre @ bs @ rest)) = (Inr v, placed m (length (pre @ bs)) (pre @ bs @ rest)))
   \<and> (\<forall>pre n. n < length bs \<longrightarrow> length pre + length bs < 2 ^ 64 \<longrightarrow>
       fst (R (placed m (length pre) (pre @ take n bs))) = Inl ArchivePositionError)"

lemma readsD:
  "reads m R v bs \<Longrightarrow> length (pre @ bs @ rest) < 2 ^ 64 \<Longrightarrow>
     R (placed m (length pre) (pre @ bs @ rest)) = (Inr v, placed m (length (pre @ bs)) (pre @ bs @ rest))"
  by (simp add: reads_def)

lemma reads_shortD:
  "reads m R v bs \<Longrightarrow> n < length bs \<Longrightarrow> length pre + length bs < 2 ^ 64 \<Longrightarrow>
     fst (R (placed m (length pre) (pre @ take n bs))) = Inl ArchivePositionError"
  by (simp add: reads_def)

lemma reads_return: "reads m (returnM v) v []"
  by (simp add: reads_def runs)

lemma reads_bind:
  assumes R: "reads m R v bs" and K: "reads m (K v) w cs"
  shows "reads m (bindM R K) w (bs @ cs)"
  unfolding reads_def
proof (intro conjI allI impI)
  fix pre rest :: bytes
  assume "length (pre @ (bs @ cs) @ rest) < 2 ^ 64"
  then have "R (placed m (length pre) (pre @ bs @ (cs @ rest))) = (Inr v, placed m (length (pre @ bs)) (pre @ bs @ (cs @ rest)))"
    "K v (placed m (length (pre @ bs)) ((pre @ bs) @ cs @ rest)) = (Inr w, placed m (length ((pre @ bs) @ cs)) ((pre @ bs) @ cs @ rest))"
    by (auto intro!: readsD [OF R] readsD [OF K] simp del: length_append append_assoc, simp_all)
  then show "bindM R K (placed m (length pre) (pre @ (bs @ cs) @ rest))
    = (Inr w, placed m (length (pre @ bs @ cs)) (pre @ (bs @ cs) @ rest))"
    by (simp add: bindM_def)
next
  fix pre :: bytes and n
  assume n: "n < length (bs @ cs)" and len: "length pre + length (bs @ cs) < 2 ^ 64"
  show "fst (bindM R K (placed m (length pre) (pre @ take n (bs @ cs)))) = Inl ArchivePositionError"
  proof (cases "n < length bs")
    case True
    then have "fst (R (placed m (length pre) (pre @ take n bs))) = Inl ArchivePositionError"
      using R len by (simp add: reads_def)
    then show ?thesis using True by (auto simp: bindM_def split: prod.split sum.split)
  next
    case False
    let ?cs = "take (n - length bs) cs"
    have "R (placed m (length pre) (pre @ bs @ ?cs)) = (Inr v, placed m (length (pre @ bs)) (pre @ bs @ ?cs))"
      by (rule readsD [OF R]) (use len n in auto)
    moreover have "fst (K v (placed m (length (pre @ bs)) ((pre @ bs) @ ?cs))) = Inl ArchivePositionError"
      by (rule reads_shortD [OF K]) (use len n False in auto)
    ultimately show ?thesis using False by (simp add: bindM_def)
  qed
qed

lemma reads_map: "reads m R v bs \<Longrightarrow> reads m (bindM R (\<lambda>x. returnM (f x))) (f v) bs"
  using reads_bind [of m R v bs "\<lambda>x. returnM (f x)" "f v" "[]"] by (simp add: reads_return)

lemma reads_raw: "length bs = n \<Longrightarrow> reads m (read_raw n) bs bs"
  by (auto simp: reads_def read_raw_def checkReadOverflow_def placed_def runs)

lemma reads_int: "v < 256 ^ k \<Longrightarrow> reads m (read_int E k) v (int_bytes E k v)"
  using reads_map [OF reads_raw [of "int_bytes E k v" k m],
      of "\<lambda>bs. convertFrom (ah_little E) (ah_order E) k (mem_load (ah_little E) bs)"]
  by (simp add: read_int_def int_bytes_def wire_roundtrip)

lemma reads_real:
  assumes "v < 256 ^ k" "is_finite k v"
  shows "reads m (read_finite E k) v (mem_store (ah_little E) k v)"
proof -
  have "reads m (readReal E k) v (mem_store (ah_little E) k v)"
    using reads_map [OF reads_raw [of "mem_store (ah_little E) k v" k m], of "mem_load (ah_little E)"] assms(1)
    by (simp add: readReal_def mem_load_store)
  then show ?thesis
    using reads_bind [of m "readReal E k" v _ "\<lambda>v. if is_finite k v then returnM v else throwM ArchiveError" v "[]"] assms(2)
    by (simp add: read_finite_def reads_return)
qed

lemma reads_length: "n < 2 ^ 32 \<Longrightarrow> reads m (read_length E) n (length_bytes E n)"
  unfolding read_length_def length_bytes_def
  using reads_bind [OF reads_int [of "0xff" 1], of _ "\<lambda>len. if len = 0xff then read_int E 4 else returnM len" n "int_bytes E 4 n" E]
    reads_bind [OF reads_int [of n 1], of _ "\<lambda>len. if len = 0xff then read_int E 4 else returnM len" n "[]" E]
    reads_int [of n 4 m E] reads_return [of m n]
  by simp

lemma reads_counted:
  assumes "length bs < 2 ^ 32"
  shows "reads m (read_counted E) bs (length_bytes E (length bs) @ bs)"
  unfolding read_counted_def
  by (rule reads_bind [OF reads_length]) (use assms in \<open>auto intro: reads_raw reads_return\<close>)

lemma reads_repeat:
  "list_all2 (reads m elem) xs bss \<Longrightarrow> reads m (repeatM (length xs) elem f r) (fold f xs r) (concat bss)"
proof (induction xs bss arbitrary: r rule: list_all2_induct)
  case (Cons x xs bs bss)
  then show ?case by (auto intro: reads_bind)
qed (simp add: reads_return)

lemma reads_repeat_map:
  "list_all (\<lambda>x. reads m elem x (g x)) xs \<Longrightarrow>
     reads m (repeatM (length xs) elem f r) (fold f xs r) (concat (map g xs))"
  by (rule reads_repeat) (simp add: list_all2_map2 list_all2_same list_all_iff)

lemma fold_snoc: "fold (\<lambda>x xs. xs @ [x]) xs ys = ys @ xs"
  by (induction xs arbitrary: ys) simp_all

lemma emplace_last:
  "\<forall>y \<in> set ys. (if multi then \<not> lt x y else lt y x \<and> \<not> lt x y) \<Longrightarrow> emplace lt multi x ys = ys @ [x]"
  by (induction ys) (auto split: if_splits)

lemma fold_emplace:
  assumes "\<forall>x y. lt x y \<longrightarrow> \<not> lt y x" "in_order lt multi (ys @ xs)"
  shows "fold (emplace lt multi) xs ys = ys @ xs"
  using assms(2)
proof (induction xs arbitrary: ys)
  case (Cons x xs)
  have "emplace lt multi x ys = ys @ [x]"
    using Cons.prems assms(1) by (intro emplace_last) (auto simp: in_order_def sorted_wrt_append split: if_splits)
  then show ?case using Cons by simp
qed simp

lemma reads_guard: "reads m body v bs \<Longrightarrow> reads mode (mode_guard m body) v bs"
  unfolding reads_def
proof (intro conjI allI impI; elim conjE)
  fix pre rest :: bytes
  assume "length (pre @ bs @ rest) < 2 ^ 64" and "\<forall>pre rest. length (pre @ bs @ rest) < 2 ^ 64 \<longrightarrow>
    body (placed m (length pre) (pre @ bs @ rest)) = (Inr v, placed m (length (pre @ bs)) (pre @ bs @ rest))"
  then have "body (placed m (length pre) (pre @ bs @ rest)) = (Inr v, placed m (length (pre @ bs)) (pre @ bs @ rest))"
    by blast
  then show "mode_guard m body (placed mode (length pre) (pre @ bs @ rest))
      = (Inr v, placed mode (length (pre @ bs)) (pre @ bs @ rest))"
    by (simp add: mode_guard_def setMode_def placed_def runs tryM_def bindM_def)
next
  fix pre :: bytes and n
  assume "n < length bs" "length pre + length bs < 2 ^ 64" "\<forall>pre n. n < length bs \<longrightarrow> length pre + length bs < 2 ^ 64 \<longrightarrow>
    fst (body (placed m (length pre) (pre @ take n bs))) = Inl ArchivePositionError"
  then have "fst (body (placed m (length pre) (pre @ take n bs))) = Inl ArchivePositionError" by blast
  then show "fst (mode_guard m body (placed mode (length pre) (pre @ take n bs))) = Inl ArchivePositionError"
    by (auto simp: mode_guard_def setMode_def placed_def runs tryM_def bindM_def split: prod.splits)
qed

lemma reads_withM:
  "(\<And>s. ar_mode s = m \<Longrightarrow> reads m (f s) v bs) \<Longrightarrow> reads m (withM f) v bs"
  by (simp add: reads_def placed_def run_simps)

lemma reads_encode:
  assumes "strict_order E"
  shows "has_type E t v \<Longrightarrow> reads m (ar_op E ReadMode t v0) v (encode E t v)"
    and "has_types E ts vs \<Longrightarrow> reads ReadMode (ar_members E ts vs0) vs (encode_members E ts vs)"
  using assms
proof (induction E t v and E ts vs arbitrary: m v0 and vs0 rule: encode_encode_members.induct)
  case (1 E v)
  have "reads m (bindM (read_int E 1) (\<lambda>n. returnM (BoolV (n > 0)))) (BoolV (bits_of v > 0)) (int_bytes E 1 (bits_of v))"
    using 1 by (intro reads_map reads_int) (auto split: ar_value.splits)
  then show ?case using 1 by (auto split: ar_value.splits if_splits)
next
  case (7 E n t v)
  then show ?case
    by (auto simp: list_all_iff fold_snoc split: ar_value.splits
        intro!: reads_map reads_repeat_map [where f = "\<lambda>x xs. xs @ [x]" and r = "[]", unfolded fold_snoc append_Nil])
next
  case (8 E t v)
  then show ?case
    by (auto simp: list_all_iff readSequence_def split: ar_value.splits
        intro!: reads_bind [OF reads_length] reads_map reads_repeat_map [where f = "\<lambda>x xs. xs @ [x]" and r = "[]", unfolded fold_snoc append_Nil])
next
  case (9 E multi t v)
  then obtain xs where v: "v = ListV xs" "length xs < 2 ^ 32" "\<forall>x \<in> set xs. has_type E t x" "in_order (ah_less E) multi xs"
    by (cases v) (auto simp: list_all_iff)
  have "reads m (repeatM (length xs) (ar_op E ReadMode t NoneV) (emplace (ah_less E) multi) [])
      (fold (emplace (ah_less E) multi) xs []) (concat (map (encode E t) xs))"
    using 9 v by (intro reads_repeat_map) (auto simp: list_all_iff)
  moreover have "fold (emplace (ah_less E) multi) xs [] = xs"
    using fold_emplace [of "ah_less E" multi "[]" xs] v 9(3) by (simp add: strict_order_def)
  ultimately show ?case
    using v by (auto simp: readSet_def intro!: reads_bind [OF reads_length] reads_map)
next
  case (10 E multi kt vt v)
  let ?lt = "\<lambda>a b. ah_less E (fst a) (fst b)"
  let ?pair = "bindM (ar_op E ReadMode kt NoneV) (\<lambda>k. bindM (ar_op E ReadMode vt NoneV) (\<lambda>v. returnM (k, v)))"
  obtain xs where v: "v = PairsV xs" "length xs < 2 ^ 32" "\<forall>(k, x) \<in> set xs. has_type E kt k \<and> has_type E vt x"
    "in_order ?lt multi xs"
    using 10(3) by (cases v) (auto simp: list_all_iff)
  have "reads m ?pair (k, x) (encode E kt k @ encode E vt x)" if "(k, x) \<in> set xs" for k x
  proof -
    have "has_type E kt k" "has_type E vt x" using that v(3) by auto
    then have "reads m (ar_op E ReadMode kt NoneV) k (encode E kt k)" "reads m (ar_op E ReadMode vt NoneV) x (encode E vt x)"
      using 10(1) [of "(k, x)" k x] 10(2) [of "(k, x)" k x] 10(4) that v(1) by simp_all
    then show ?thesis by (rule reads_bind [OF _ reads_map])
  qed
  then have "reads m (repeatM (length xs) ?pair (emplace ?lt multi) [])
      (fold (emplace ?lt multi) xs []) (concat (map (\<lambda>(k, x). encode E kt k @ encode E vt x) xs))"
    by (intro reads_repeat_map) (auto simp: list_all_iff)
  moreover have "fold (emplace ?lt multi) xs [] = xs"
    using fold_emplace [of ?lt multi "[]" xs] v(4) 10(4) by (simp add: strict_order_def)
  ultimately show ?case
    using v by (auto simp: readMapping_def intro!: reads_bind [OF reads_length] reads_map)
next
  case (11 E t v)
  have flag: "reads m (readOptional E (ar_op E ReadMode t NoneV)) w (int_bytes E 1 n @ cs)"
    if "n < 256" "reads m (if n = 0 then returnM NoneV else bindM (ar_op E ReadMode t NoneV) (\<lambda>v. returnM (SomeV v))) w cs"
    for w n cs
    unfolding readOptional_def using that by (intro reads_bind [OF reads_int]) simp_all
  show ?case
  proof (cases v)
    case NoneV
    then show ?thesis using flag [of 0 NoneV "[]"] by (simp add: reads_return)
  next
    case (SomeV x)
    then show ?thesis using 11 flag [of 1 v "encode E t x"] by (auto intro!: reads_map)
  qed (use 11 in simp_all)
next
  case (12 E ts v)
  then show ?case by (auto split: ar_value.splits intro!: reads_guard reads_map)
next
  case (14 E t ts vs)
  then obtain v rest where vs: "vs = v # rest" "has_type E t v" "has_types E ts rest" by (cases vs) auto
  then show ?case using 14(1) [of ReadMode] 14(2,4) by (auto intro!: reads_withM reads_bind reads_map)
qed (auto split: ar_value.splits intro!: reads_map reads_int reads_real reads_raw reads_counted reads_return)

section \<open>The properties\<close>

lemma archive_write_encode:
  "has_type E t v \<Longrightarrow> archive_write E t v s = (Inr (), s\<lparr> ar_storage := ar_storage s @ encode E t v \<rparr>)"
  using writes_discard [OF writes_encode(1)] by (simp add: archive_write_def writes_def)

text \<open>
  C29: what \<open>operator<<\<close> appends to an archive, \<open>operator>>\<close> of the same type reads back, exactly up
  to the end of it, whatever stands before and behind. The values are those of \<open>has_type\<close>: numbers within
  their width, reals that are finite, containers of fewer than \<open>2^32\<close> elements, sets and maps in their order.
\<close>

theorem archive_roundtrip:
  assumes "strict_order E" "has_type E t v"
  shows "\<exists>bs. archive_write E t v s = (Inr (), s\<lparr> ar_storage := ar_storage s @ bs \<rparr>) \<and>
    (\<forall>m pre rest. length (pre @ bs @ rest) < 2 ^ 64 \<longrightarrow>
      archive_read E t \<lparr> ar_mode = m, ar_pos = length pre, ar_storage = pre @ bs @ rest \<rparr>
        = (Inr v, \<lparr> ar_mode = m, ar_pos = length (pre @ bs), ar_storage = pre @ bs @ rest \<rparr>))"
  using archive_write_encode [OF assms(2)] readsD [OF reads_encode(1) [OF assms]]
  unfolding archive_read_def placed_def by blast

text \<open>C30: an archive that holds a value as above and was cut off is not taken for a whole one.\<close>

theorem archive_truncation_detected:
  assumes "strict_order E" "has_type E t v" "archive_write E t v newArchive = (Inr (), s)"
    and "n < length (ar_storage s)" "length (ar_storage s) < 2 ^ 64"
  shows "fst (archive_read E t (archiveOf (take n (ar_storage s)))) = Inl ArchivePositionError"
proof -
  have "ar_storage s = encode E t v"
    using assms(3) archive_write_encode [OF assms(2), of newArchive] by (auto simp: newArchive_def)
  then show ?thesis
    using reads_shortD [OF reads_encode(1) [OF assms(1,2), of ReadMode NoneV], of n "[]"] assms(4,5)
    by (simp add: archive_read_def archiveOf_def placed_def)
qed

text \<open>Reading input that nobody has written.\<close>

definition read_rel :: "archive \<Rightarrow> archive \<Rightarrow> bool" where
  "read_rel s t \<longleftrightarrow> ar_storage t = ar_storage s \<and> ar_mode t = ar_mode s
     \<and> (ar_pos s \<le> length (ar_storage s) \<and> length (ar_storage s) < 2 ^ 63 \<longrightarrow>
          ar_pos s \<le> ar_pos t \<and> ar_pos t \<le> length (ar_storage s))"

interpretation rr: state_rel read_rel
  by unfold_locales (auto simp: read_rel_def)

lemma stays_raw: "len < 2 ^ 63 \<Longrightarrow> evolves read_rel (read_raw len)"
  by (rule evolvesI) (simp add: read_raw_def checkReadOverflow_def read_rel_def runs)

lemma stays_int: "k < 2 ^ 63 \<Longrightarrow> evolves read_rel (read_int E k)"
  unfolding read_int_def by (intro rr.ev_rules stays_raw)

lemma stays_length: "evolves read_rel (read_length E)"
  unfolding read_length_def by (intro rr.ev_rules stays_int) simp_all

lemma int_less:
  assumes "read_int E k s = (Inr n, t)"
  shows "n < 256 ^ k"
proof -
  let ?bs = "take k (drop (ar_pos s) (ar_storage s))"
  have "mem_load (ah_little E) ?bs < 256 ^ k"
    by (rule less_le_trans [OF mem_load_less]) (rule power_increasing, simp_all)
  then show ?thesis
    using assms convertFrom_less
    by (auto simp: read_int_def read_raw_def checkReadOverflow_def runs split: if_splits)
qed

lemma length_less: "read_length E s = (Inr n, t) \<Longrightarrow> n < 2 ^ 32"
  using int_less [of E 4] int_less [of E 1]
  by (fastforce simp: read_length_def bindM_def run_simps split: prod.splits sum.splits if_splits)

lemma stays_counted: "evolves read_rel (read_counted E)"
  unfolding read_counted_def
proof (rule evolvesI, rule rr.bindM_at)
  show "read_rel s (snd (read_length E s))" for s by (rule evolvesD [OF stays_length])
  show "read_rel s' (snd ((if x > 0 then read_raw x else returnM []) s'))"
    if "read_length E s = (Inr x, s')" for s x s'
    using evolvesD [OF stays_raw, of x s'] length_less [OF that] rr.rel_refl [of s'] by (simp add: run_simps)
qed

lemma stays_repeat: "evolves read_rel m \<Longrightarrow> evolves read_rel (repeatM n m f r)"
  by (induction n arbitrary: r) (auto intro: rr.ev_returnM rr.ev_bindM)

lemma stays_guard:
  assumes "\<And>s. ar_mode s = m \<Longrightarrow> read_rel s (snd (body s))"
  shows "evolves read_rel (mode_guard m body)"
proof (rule evolvesI)
  fix s :: archive
  obtain r u where u: "body (s\<lparr> ar_mode := m \<rparr>) = (r, u)" by fastforce
  then have "read_rel (s\<lparr> ar_mode := m \<rparr>) u" using assms [of "s\<lparr> ar_mode := m \<rparr>"] by simp
  then show "read_rel s (snd (mode_guard m body s))"
    using u by (auto simp: mode_guard_def setMode_def runs tryM_def bindM_def read_rel_def split: sum.split)
qed

text \<open>No fixed array is larger than the address space.\<close>

fun small_type :: "ar_type \<Rightarrow> bool" where
  "small_type (IntT k) = (k \<le> 8)"
| "small_type (RealT k) = (k \<le> 8)"
| "small_type (FixedT n) = (n < 2 ^ 63)"
| "small_type (ArrayT n t) = small_type t"
| "small_type (SequenceT t) = small_type t"
| "small_type (SetT multi t) = small_type t"
| "small_type (MappingT multi kt vt) = (small_type kt \<and> small_type vt)"
| "small_type (OptionalT t) = small_type t"
| "small_type (ClassT ts) = list_all small_type ts"
| "small_type t = True"

lemma stays_op:
  "m = ReadMode \<Longrightarrow> small_type t \<Longrightarrow> evolves read_rel (ar_op E m t v)"
  "list_all small_type ts \<Longrightarrow> ar_mode s = ReadMode \<Longrightarrow> read_rel s (snd (ar_members E ts vs s))"
proof (induction E m t v and E ts vs arbitrary: and s rule: ar_op_ar_members.induct)
  case (12 E m ts v)
  have "read_rel s (snd (bindM (ar_members E ts (list_of v)) (\<lambda>xs. returnM (ListV xs)) s))"
    if "ar_mode s = ReadMode" for s
    using 12 that by (intro rr.bindM_at) (simp_all add: run_simps rr.rel_refl)
  then show ?case using 12(2) by (auto intro: stays_guard)
next
  case (14 E t ts vs)
  let ?v = "case vs of [] \<Rightarrow> NoneV | v # _ \<Rightarrow> v"
  have first: "evolves read_rel (ar_op E (ar_mode s) t ?v)" using 14 by simp
  show ?case
  proof (simp add: run_simps, rule rr.bindM_at)
    show "read_rel s (snd (ar_op E (ar_mode s) t ?v s))" by (rule evolvesD [OF first])
    fix x s'
    assume "ar_op E (ar_mode s) t ?v s = (Inr x, s')"
    then have "ar_mode s' = ReadMode" using evolvesD [OF first, of s] 14(4) by (simp add: read_rel_def)
    then show "read_rel s' (snd (bindM (ar_members E ts (drop (Suc 0) vs)) (\<lambda>xs. returnM (x # xs)) s'))"
      using 14 by (intro rr.bindM_at) (simp_all add: run_simps rr.rel_refl)
  qed
qed (auto simp: read_finite_def readReal_def readSequence_def readSet_def readMapping_def readOptional_def Let_def run_simps
    rr.rel_refl intro!: rr.ev_rules stays_int stays_raw stays_counted stays_length stays_repeat)

text \<open>
  C31: whatever octets an archive holds, an attempt to read a value of any type leaves them and
  the mode alone, and the position never moves back or past the end, also when it fails.
\<close>

theorem archive_read_stays:
  assumes "small_type t" "ar_pos s \<le> length (ar_storage s)" "length (ar_storage s) < 2 ^ 63"
    and "archive_read E t s = (r, s')"
  shows "ar_storage s' = ar_storage s \<and> ar_mode s' = ar_mode s \<and>
    ar_pos s \<le> ar_pos s' \<and> ar_pos s' \<le> length (ar_storage s')"
  using evolvesD [OF stays_op(1) [OF refl assms(1)], of s E NoneV] assms(2-)
  by (simp add: archive_read_def read_rel_def)

text \<open>\<open>ignore\<close> adds in \<open>size_t\<close> before it compares: a large number of octets to skip moves back.\<close>

lemma ignore_moves_back:
  "ar_pos s = Suc p \<Longrightarrow> Suc p \<le> length (ar_storage s) \<Longrightarrow> length (ar_storage s) < 2 ^ 64 \<Longrightarrow>
     ignore (2 ^ 64 - 1) s = (Inr (), s\<lparr> ar_pos := p \<rparr>)"
  by (simp add: ignore_def checkSkipOverflow_def runs)

text \<open>The octets of a real number do not depend on the byte order that was asked for.\<close>

lemma real_in_host_order: "appendReal (E\<lparr> ah_order := bo \<rparr>) k v = appendReal E k v"
  by (simp add: appendReal_def)

section \<open>An example\<close>

definition example_host :: ar_host where
  "example_host = \<lparr> ah_little = True, ah_order = ByteOrderNetwork, ah_less = (\<lambda>x y. bits_of x < bits_of y) \<rparr>"

definition example_type :: ar_type where
  "example_type = ClassT [IntT 2, StringT, SetT False (IntT 1), OptionalT BoolT]"

definition example_value :: ar_value where
  "example_value = ListV [IntV 258, BytesV [7, 8], ListV [IntV 3, IntV 9], SomeV (BoolV True)]"

lemma example_typed: "strict_order example_host" "has_type example_host example_type example_value"
  by (auto simp: strict_order_def example_host_def example_type_def example_value_def in_order_def)

lemmas example_simps = example_host_def example_type_def example_value_def int_bytes_def length_bytes_def
  mem_store_def convertTo_def native_to_big_def swap_bytes_def le_encode_def be_encode_2

lemma example_octets:
  "encode example_host example_type example_value = [1, 2, 2, 7, 8, 2, 3, 9, 1, 1]"
  by (simp add: example_simps be_decode_def)

lemma archive_roundtrip_witness:
  "\<exists>bs. archive_write example_host example_type example_value newArchive = (Inr (), newArchive\<lparr> ar_storage := bs \<rparr>) \<and>
    archive_read example_host example_type (archiveOf bs) = (Inr example_value, archiveOf bs\<lparr> ar_pos := length bs \<rparr>)"
proof -
  obtain bs where bs: "archive_write example_host example_type example_value newArchive
      = (Inr (), newArchive\<lparr> ar_storage := ar_storage newArchive @ bs \<rparr>)"
    "\<forall>m pre rest. length (pre @ bs @ rest) < 2 ^ 64 \<longrightarrow>
      archive_read example_host example_type \<lparr> ar_mode = m, ar_pos = length pre, ar_storage = pre @ bs @ rest \<rparr>
        = (Inr example_value, \<lparr> ar_mode = m, ar_pos = length (pre @ bs), ar_storage = pre @ bs @ rest \<rparr>)"
    using archive_roundtrip [OF example_typed, of newArchive] by blast
  then have "bs = [1, 2, 2, 7, 8, 2, 3, 9, 1, 1]"
    using archive_write_encode [OF example_typed(2), of newArchive]
    by (simp add: example_octets newArchive_def)
  then show ?thesis
    using bs(1) bs(2) [rule_format, of "[]" "[]" ReadMode] by (simp add: newArchive_def archiveOf_def)
qed

lemma archive_truncation_detected_witness:
  "fst (archive_read example_host example_type (archiveOf [1, 2, 2, 7, 8, 2, 3])) = Inl ArchivePositionError"
  using archive_truncation_detected [OF example_typed archive_write_encode [OF example_typed(2)], of 7]
  by (simp add: example_octets newArchive_def)

lemma archive_read_stays_witness:
  "ar_pos (snd (archive_read example_host (SequenceT StringT) (archiveOf [255, 255, 255, 255, 255, 1]))) \<le> 6"
  using archive_read_stays [of "SequenceT StringT" "archiveOf [255, 255, 255, 255, 255, 1]" example_host
      "fst (archive_read example_host (SequenceT StringT) (archiveOf [255, 255, 255, 255, 255, 1]))"
      "snd (archive_read example_host (SequenceT StringT) (archiveOf [255, 255, 255, 255, 255, 1]))"]
  by (auto simp: archiveOf_def)

end
