(* ===== verification/Std_Map.thy ===== *)
theory Std_Map
  imports Net_Prelude "HOL-Library.List_Lexorder" "HOL-Library.Char_ord"
begin

text \<open>
  A \<open>std::map\<close> with string keys whose entries are also visited in order: the list of its entries,
  by increasing key. \<open>map_insert\<close> is assignment to \<open>m[k]\<close>, lookup is \<open>map_of\<close>.
\<close>

fun map_insert :: "string \<Rightarrow> 'v \<Rightarrow> (string \<times> 'v) list \<Rightarrow> (string \<times> 'v) list" where
  "map_insert k v [] = [(k, v)]"
| "map_insert k v ((k', v') # m) =
     (if k < k' then (k, v) # (k', v') # m else if k = k' then (k, v) # m else (k', v') # map_insert k v m)"

definition map_erase :: "string \<Rightarrow> (string \<times> 'v) list \<Rightarrow> (string \<times> 'v) list" where
  "map_erase k m = filter (\<lambda>(k', v). k' \<noteq> k) m"

lemma map_of_insert: "map_of (map_insert k v m) = (map_of m)(k \<mapsto> v)"
  by (induction k v m rule: map_insert.induct) (auto simp: fun_eq_iff)

lemma map_insert_last: "\<forall>k' \<in> fst ` set m. k' < k \<Longrightarrow> map_insert k v m = m @ [(k, v)]"
  by (induction k v m rule: map_insert.induct) (auto dest: less_asym)

lemma map_insert_at_end:
  "\<forall>k' \<in> fst ` set m. k' < k \<Longrightarrow> map_insert k v (m @ [(k, w)]) = m @ [(k, v)]"
  by (induction k v m rule: map_insert.induct) (auto dest: less_asym)

lemma map_of_last: "\<forall>k' \<in> fst ` set m. k' < k \<Longrightarrow> map_of m (k :: string) = None"
  by (metis less_irrefl map_of_eq_None_iff)

lemma map_of_erase: "map_of (map_erase k m) = (map_of m)(k := None)"
  by (induction m) (auto simp: map_erase_def fun_eq_iff)

definition map_ok :: "(string \<times> 'v) list \<Rightarrow> bool" where
  "map_ok m \<longleftrightarrow> sorted_wrt (<) (List.map fst m)"

lemma map_insert_keys: "fst ` set (map_insert k v m) = insert k (fst ` set m)"
  by (induction k v m rule: map_insert.induct) auto

lemma map_ok_insert: "map_ok m \<Longrightarrow> map_ok (map_insert k v m)"
proof (induction k v m rule: map_insert.induct)
  case (2 k v k' v' m)
  then have m: "\<forall>x \<in> fst ` set m. k' < x" "map_ok m" by (auto simp: map_ok_def)
  consider "k < k'" | "k = k'" | "k' < k" by fastforce
  then show ?case
  proof cases
    case 1
    with m show ?thesis by (auto simp: map_ok_def intro: less_trans 2(2))
  next
    case 2
    with m show ?thesis by (auto simp: map_ok_def)
  next
    case 3
    then have "map_ok (map_insert k v m)" using "2.IH" m by auto
    with 3 m show ?thesis using map_insert_keys [of k v m] by (auto simp: map_ok_def)
  qed
qed (simp add: map_ok_def)

lemma map_ok_erase: "map_ok m \<Longrightarrow> map_ok (map_erase k m)"
  unfolding map_ok_def map_erase_def
  by (induction m) (auto simp: sorted_wrt_map)

lemma map_ok_distinct: "map_ok m \<Longrightarrow> distinct (List.map fst m)"
  unfolding map_ok_def by (simp add: strict_sorted_iff)

end
