(* ===== verification/Json_Value.thy ===== *)
theory Json_Value
  imports Std_Map
begin

text \<open>
  \<open>JsonValue\<close> of \<open>common/configuration/json\<close>: a variant with three comments, its conversions, and its
  use as an array or as an object. The variant is \<open>json_payload\<close>; a \<open>std::map\<close> is the list of its
  entries in the order of their keys. A \<open>double\<close> is a real number or one of the three special
  values, so negative zero is not told from zero; what the library of the platform does to print,
  scan and round doubles is \<open>json_env\<close>. An operator that returns a reference is the value after
  the call together with a way to read and to set the element referred to.
\<close>

section \<open>Values\<close>

datatype json_type =
    NullValue | IntValue | UIntValue | RealValue | StringValue | BoolValue | ArrayValue | ObjectValue

datatype comment_placement = COMMENT_BEFORE | COMMENT_ON_SAME_LINE | COMMENT_AFTER

datatype json_double = Finite real | NotANumber | PosInf | NegInf

datatype 'v json_payload =
    NullP
  | IntP "64 word"
  | UIntP "64 word"
  | RealP json_double
  | StringP string
  | BoolP bool
  | ArrayP "'v list"
  | ObjectP "(string \<times> 'v) list"

datatype json =
  Json (payload: "json json_payload") (commentBefore: string) (commentSameLine: string) (commentAfter: string)

datatype json_exn =
    ValueError string
  | ParsingError string
  | AssertionFailed
  | CastOutOfRange
  | CommentCollected
  | FuelExhausted

definition bindE :: "'e + 'a \<Rightarrow> ('a \<Rightarrow> 'e + 'b) \<Rightarrow> 'e + 'b" where
  [simp]: "bindE r f = (case r of Inl e \<Rightarrow> Inl e | Inr x \<Rightarrow> f x)"

text \<open>
  The platform: \<open>os << std::setprecision(p) << d\<close>, \<open>sscanf\<close> with \<open>%lf\<close>, the decimal point of the locale,
  the conversion of an integer to \<open>double\<close> and of a number to \<open>float\<close>.
\<close>

record json_env =
  je_show :: "nat \<Rightarrow> real \<Rightarrow> string"
  je_scan :: "string \<Rightarrow> json_double option"
  je_decimal_point :: char
  je_double :: "int \<Rightarrow> real"
  je_float :: "json_double \<Rightarrow> json_double"

definition plain :: "json json_payload \<Rightarrow> json" where
  "plain p = Json p [] [] []"

definition setPayload :: "json json_payload \<Rightarrow> json \<Rightarrow> json" where
  "setPayload p v = Json p (commentBefore v) (commentSameLine v) (commentAfter v)"

definition nullSingleton :: json where
  "nullSingleton = plain NullP"

fun jsonOfType :: "json_type \<Rightarrow> json" where
  "jsonOfType NullValue = plain NullP"
| "jsonOfType IntValue = plain (IntP 0)"
| "jsonOfType UIntValue = plain (UIntP 0)"
| "jsonOfType RealValue = plain (RealP (Finite 0))"
| "jsonOfType StringValue = plain (BoolP True)"
| "jsonOfType BoolValue = plain (BoolP False)"
| "jsonOfType ArrayValue = plain (ArrayP [])"
| "jsonOfType ObjectValue = plain (ObjectP [])"

fun payload_type :: "'v json_payload \<Rightarrow> json_type" where
  "payload_type NullP = NullValue"
| "payload_type (IntP n) = IntValue"
| "payload_type (UIntP n) = UIntValue"
| "payload_type (RealP d) = RealValue"
| "payload_type (StringP s) = StringValue"
| "payload_type (BoolP b) = BoolValue"
| "payload_type (ArrayP xs) = ArrayValue"
| "payload_type (ObjectP kvs) = ObjectValue"

definition typeOf :: "json \<Rightarrow> json_type" where
  "typeOf v = payload_type (payload v)"

fun getComment :: "json \<Rightarrow> comment_placement \<Rightarrow> string" where
  "getComment (Json p b s a) COMMENT_BEFORE = b"
| "getComment (Json p b s a) COMMENT_ON_SAME_LINE = s"
| "getComment (Json p b s a) COMMENT_AFTER = a"

fun setComment :: "string \<Rightarrow> comment_placement \<Rightarrow> json \<Rightarrow> json" where
  "setComment c COMMENT_BEFORE (Json p b s a) = Json p c s a"
| "setComment c COMMENT_ON_SAME_LINE (Json p b s a) = Json p b c a"
| "setComment c COMMENT_AFTER (Json p b s a) = Json p b s c"

definition hasComment :: "json \<Rightarrow> comment_placement \<Rightarrow> bool" where
  "hasComment v placement \<longleftrightarrow> getComment v placement \<noteq> []"

section \<open>Numbers\<close>

text \<open>The comparisons of \<open>double\<close>; every comparison with a NaN is false.\<close>

fun double_le :: "json_double \<Rightarrow> json_double \<Rightarrow> bool" where
  "double_le (Finite x) (Finite y) \<longleftrightarrow> x \<le> y"
| "double_le NotANumber y \<longleftrightarrow> False"
| "double_le x NotANumber \<longleftrightarrow> False"
| "double_le NegInf y \<longleftrightarrow> True"
| "double_le x PosInf \<longleftrightarrow> True"
| "double_le x y \<longleftrightarrow> False"

fun double_less :: "json_double \<Rightarrow> json_double \<Rightarrow> bool" where
  "double_less (Finite x) (Finite y) \<longleftrightarrow> x < y"
| "double_less NotANumber y \<longleftrightarrow> False"
| "double_less x NotANumber \<longleftrightarrow> False"
| "double_less NegInf y \<longleftrightarrow> y \<noteq> NegInf"
| "double_less x PosInf \<longleftrightarrow> x \<noteq> PosInf"
| "double_less x y \<longleftrightarrow> False"

definition InRange :: "json_double \<Rightarrow> real \<Rightarrow> real \<Rightarrow> bool" where
  "InRange d mn mx \<longleftrightarrow> double_le (Finite mn) d \<and> double_le d (Finite mx)"

text \<open>\<open>static_cast\<close> of a finite \<open>double\<close> to an integer, and \<open>TypeUtil::isIntegral\<close>.\<close>

fun truncated :: "json_double \<Rightarrow> int" where
  "truncated (Finite r) = (if r < 0 then \<lceil>r\<rceil> else \<lfloor>r\<rfloor>)"
| "truncated d = 0"

fun double_integral :: "json_double \<Rightarrow> bool" where
  "double_integral (Finite r) \<longleftrightarrow> of_int \<lfloor>r\<rfloor> = r"
| "double_integral NotANumber \<longleftrightarrow> False"
| "double_integral d \<longleftrightarrow> True"

fun valueToString :: "json_env \<Rightarrow> json_double \<Rightarrow> bool \<Rightarrow> nat \<Rightarrow> string" where
  "valueToString E (Finite r) useSpecialFloats precision = je_show E precision r"
| "valueToString E NotANumber useSpecialFloats precision = (if useSpecialFloats then ''NaN'' else ''null'')"
| "valueToString E NegInf useSpecialFloats precision = (if useSpecialFloats then ''-Infinity'' else ''-1e+9999'')"
| "valueToString E PosInf useSpecialFloats precision = (if useSpecialFloats then ''Infinity'' else ''1e+9999'')"

section \<open>Conversions\<close>

definition asString :: "json_env \<Rightarrow> json \<Rightarrow> json_exn + string" where
  "asString E v = (case payload v of
     NullP \<Rightarrow> Inr []
   | IntP n \<Rightarrow> Inr (int_string (sint n))
   | UIntP n \<Rightarrow> Inr (int_string (uint n))
   | RealP d \<Rightarrow> Inr (valueToString E d False 17)
   | StringP s \<Rightarrow> Inr s
   | BoolP b \<Rightarrow> Inr (if b then ''true'' else ''false'')
   | ArrayP xs \<Rightarrow> Inl (ValueError ''array is not convertible to string'')
   | ObjectP kvs \<Rightarrow> Inl (ValueError ''object is not convertible to string''))"

text \<open>The conversions of a string, an array or an object to a number fail alike.\<close>

definition not_convertible :: "string \<Rightarrow> 'v json_payload \<Rightarrow> json_exn" where
  "not_convertible to p = ValueError ((case p of StringP s \<Rightarrow> ''string'' | ArrayP xs \<Rightarrow> ''array'' | _ \<Rightarrow> ''object'')
     @ '' is not convertible to '' @ to)"

definition asInt :: "json \<Rightarrow> json_exn + 32 word" where
  "asInt v = (case payload v of
     NullP \<Rightarrow> Inr 0
   | IntP n \<Rightarrow> if sint n < - (2 ^ 31) \<or> sint n > 2 ^ 31 - 1 then Inl (ValueError ''int64 out of int range'')
       else Inr (word_of_int (sint n))
   | UIntP n \<Rightarrow> if uint n > 2 ^ 31 - 1 then Inl (ValueError ''uint64 out of int range'') else Inr (word_of_int (uint n))
   | RealP d \<Rightarrow> if \<not> InRange d (- (2 ^ 31)) (2 ^ 31 - 1) then Inl (ValueError ''double out of int range'')
       else Inr (word_of_int (truncated d))
   | BoolP b \<Rightarrow> Inr (if b then 1 else 0)
   | p \<Rightarrow> Inl (not_convertible ''int'' p))"

definition asUInt :: "json \<Rightarrow> json_exn + 32 word" where
  "asUInt v = (case payload v of
     NullP \<Rightarrow> Inr 0
   | IntP n \<Rightarrow> if sint n < 0 \<or> sint n > 2 ^ 32 - 1 then Inl (ValueError ''int64 out of uint range'')
       else Inr (word_of_int (sint n))
   | UIntP n \<Rightarrow> if uint n > 2 ^ 32 - 1 then Inl (ValueError ''uint64 out of uint range'') else Inr (word_of_int (uint n))
   | RealP d \<Rightarrow> if \<not> InRange d 0 (2 ^ 32 - 1) then Inl (ValueError ''double out of uint range'')
       else Inr (word_of_int (truncated d))
   | BoolP b \<Rightarrow> Inr (if b then 1 else 0)
   | p \<Rightarrow> Inl (not_convertible ''uint'' p))"

text \<open>
  The largest 64-bit integers have no \<open>double\<close>; converted for the comparison they become \<open>2 ^ 63\<close> and
  \<open>2 ^ 64\<close>, which \<open>InRange\<close> lets pass, and whose cast is undefined.
\<close>

definition asInt64 :: "json \<Rightarrow> json_exn + 64 word" where
  "asInt64 v = (case payload v of
     NullP \<Rightarrow> Inr 0
   | IntP n \<Rightarrow> Inr n
   | UIntP n \<Rightarrow> if uint n > 2 ^ 63 - 1 then Inl (ValueError ''uint64 out of int64 range'') else Inr n
   | RealP d \<Rightarrow> if \<not> InRange d (- (2 ^ 63)) (2 ^ 63) then Inl (ValueError ''double out of int64 range'')
       else if truncated d > 2 ^ 63 - 1 then Inl CastOutOfRange else Inr (word_of_int (truncated d))
   | BoolP b \<Rightarrow> Inr (if b then 1 else 0)
   | p \<Rightarrow> Inl (not_convertible ''int64'' p))"

definition asUInt64 :: "json \<Rightarrow> json_exn + 64 word" where
  "asUInt64 v = (case payload v of
     NullP \<Rightarrow> Inr 0
   | IntP n \<Rightarrow> if sint n < 0 then Inl (ValueError ''int64 out of uint64 range'') else Inr n
   | UIntP n \<Rightarrow> Inr n
   | RealP d \<Rightarrow> if \<not> InRange d 0 (2 ^ 64) then Inl (ValueError ''double out of uint64 range'')
       else if truncated d > 2 ^ 64 - 1 then Inl CastOutOfRange else Inr (word_of_int (truncated d))
   | BoolP b \<Rightarrow> Inr (if b then 1 else 0)
   | p \<Rightarrow> Inl (not_convertible ''uint64'' p))"

definition asFloat :: "json_env \<Rightarrow> json \<Rightarrow> json_exn + json_double" where
  "asFloat E v = (case payload v of
     NullP \<Rightarrow> Inr (Finite 0)
   | IntP n \<Rightarrow> Inr (je_float E (Finite (of_int (sint n))))
   | UIntP n \<Rightarrow> Inr (je_float E (Finite (of_int (uint n))))
   | RealP d \<Rightarrow> Inr (je_float E d)
   | BoolP b \<Rightarrow> Inr (Finite (if b then 1 else 0))
   | p \<Rightarrow> Inl (not_convertible ''float'' p))"

definition asDouble :: "json_env \<Rightarrow> json \<Rightarrow> json_exn + json_double" where
  "asDouble E v = (case payload v of
     NullP \<Rightarrow> Inr (Finite 0)
   | IntP n \<Rightarrow> Inr (Finite (je_double E (sint n)))
   | UIntP n \<Rightarrow> Inr (Finite (je_double E (uint n)))
   | RealP d \<Rightarrow> Inr d
   | BoolP b \<Rightarrow> Inr (Finite (if b then 1 else 0))
   | p \<Rightarrow> Inl (not_convertible ''double'' p))"

definition asBool :: "json \<Rightarrow> json_exn + bool" where
  "asBool v = (case payload v of
     NullP \<Rightarrow> Inr False
   | IntP n \<Rightarrow> Inr (n \<noteq> 0)
   | UIntP n \<Rightarrow> Inr (n \<noteq> 0)
   | RealP d \<Rightarrow> Inr (d \<noteq> Finite 0)
   | BoolP b \<Rightarrow> Inr b
   | p \<Rightarrow> Inl (not_convertible ''bool'' p))"

section \<open>Tests\<close>

definition isNull :: "json \<Rightarrow> bool" where
  "isNull v \<longleftrightarrow> typeOf v = NullValue"

definition isNumeric :: "json \<Rightarrow> bool" where
  "isNumeric v \<longleftrightarrow> typeOf v = IntValue \<or> typeOf v = UIntValue \<or> typeOf v = RealValue"

definition isArray :: "json \<Rightarrow> bool" where
  "isArray v \<longleftrightarrow> typeOf v = ArrayValue"

definition isObject :: "json \<Rightarrow> bool" where
  "isObject v \<longleftrightarrow> typeOf v = ObjectValue"

definition isInt :: "json \<Rightarrow> bool" where
  "isInt v \<longleftrightarrow> (case payload v of
     IntP n \<Rightarrow> sint n \<ge> - (2 ^ 31) \<and> sint n \<le> 2 ^ 31 - 1
   | UIntP n \<Rightarrow> uint n \<le> 2 ^ 31 - 1
   | RealP d \<Rightarrow> double_le (Finite (- (2 ^ 31))) d \<and> double_le d (Finite (2 ^ 31 - 1)) \<and> double_integral d
   | _ \<Rightarrow> False)"

definition isUInt :: "json \<Rightarrow> bool" where
  "isUInt v \<longleftrightarrow> (case payload v of
     IntP n \<Rightarrow> sint n \<ge> 0 \<and> sint n \<le> 2 ^ 32 - 1
   | UIntP n \<Rightarrow> uint n \<le> 2 ^ 32 - 1
   | RealP d \<Rightarrow> double_le (Finite 0) d \<and> double_le d (Finite (2 ^ 32 - 1)) \<and> double_integral d
   | _ \<Rightarrow> False)"

definition isInt64 :: "json \<Rightarrow> bool" where
  "isInt64 v \<longleftrightarrow> (case payload v of
     IntP n \<Rightarrow> True
   | UIntP n \<Rightarrow> uint n \<le> 2 ^ 63 - 1
   | RealP d \<Rightarrow> double_le (Finite (- (2 ^ 63))) d \<and> double_less d (Finite (2 ^ 63)) \<and> double_integral d
   | _ \<Rightarrow> False)"

definition isUInt64 :: "json \<Rightarrow> bool" where
  "isUInt64 v \<longleftrightarrow> (case payload v of
     IntP n \<Rightarrow> sint n \<ge> 0
   | UIntP n \<Rightarrow> True
   | RealP d \<Rightarrow> double_le (Finite 0) d \<and> double_less d (Finite (2 ^ 64)) \<and> double_integral d
   | _ \<Rightarrow> False)"

definition isIntegral :: "json \<Rightarrow> bool" where
  "isIntegral v \<longleftrightarrow> (case payload v of
     IntP n \<Rightarrow> True
   | UIntP n \<Rightarrow> True
   | RealP d \<Rightarrow> double_le (Finite (- (2 ^ 63))) d \<and> double_less d (Finite (2 ^ 64)) \<and> double_integral d
   | _ \<Rightarrow> False)"

definition isConvertibleTo :: "json_env \<Rightarrow> json \<Rightarrow> json_type \<Rightarrow> bool" where
  "isConvertibleTo E v other = (case other of
     NullValue \<Rightarrow> (isNumeric v \<and> asDouble E v = Inr (Finite 0)) \<or> payload v = BoolP False
       \<or> payload v = StringP [] \<or> payload v = ArrayP [] \<or> payload v = ObjectP [] \<or> isNull v
   | IntValue \<Rightarrow> isInt v
       \<or> (case payload v of RealP d \<Rightarrow> InRange d (- (2 ^ 31)) (2 ^ 31 - 1) | _ \<Rightarrow> False)
       \<or> typeOf v = BoolValue \<or> isNull v
   | UIntValue \<Rightarrow> isUInt v
       \<or> (case payload v of RealP d \<Rightarrow> InRange d 0 (2 ^ 32 - 1) | _ \<Rightarrow> False)
       \<or> typeOf v = BoolValue \<or> isNull v
   | RealValue \<Rightarrow> isNumeric v \<or> typeOf v = BoolValue \<or> isNull v
   | StringValue \<Rightarrow> isNumeric v \<or> typeOf v = BoolValue \<or> typeOf v = StringValue \<or> isNull v
   | BoolValue \<Rightarrow> isNumeric v \<or> typeOf v = BoolValue \<or> isNull v
   | ArrayValue \<Rightarrow> isArray v \<or> isNull v
   | ObjectValue \<Rightarrow> isObject v \<or> isNull v)"

section \<open>Arrays and objects\<close>

text \<open>A key given as \<open>const char *\<close> ends at its first NUL; every access by \<open>std::string\<close> goes through \<open>c_str\<close>.\<close>

definition c_str :: "string \<Rightarrow> string" where
  "c_str s = takeWhile (\<lambda>c. c \<noteq> CHR 0x00) s"

definition json_size :: "json \<Rightarrow> nat" where
  "json_size v = (case payload v of ArrayP xs \<Rightarrow> length xs | ObjectP kvs \<Rightarrow> length kvs | _ \<Rightarrow> 0)"

definition json_empty :: "json \<Rightarrow> bool" where
  "json_empty v \<longleftrightarrow> (if isNull v \<or> isArray v \<or> isObject v then json_size v = 0 else False)"

definition json_clear :: "json \<Rightarrow> json_exn + json" where
  "json_clear v = (case payload v of
     ArrayP xs \<Rightarrow> Inr (setPayload (ArrayP []) v)
   | ObjectP kvs \<Rightarrow> Inr (setPayload (ObjectP []) v)
   | NullP \<Rightarrow> Inr v
   | _ \<Rightarrow> Inl (ValueError ''clear requires complex value''))"

definition resize_list :: "nat \<Rightarrow> json list \<Rightarrow> json list" where
  "resize_list n xs = take n xs @ replicate (n - length xs) nullSingleton"

definition json_resize :: "nat \<Rightarrow> json \<Rightarrow> json_exn + json" where
  "json_resize n v =
     (let v = (if isNull v then jsonOfType ArrayValue else v)
      in case payload v of
        ArrayP xs \<Rightarrow> Inr (setPayload (ArrayP (resize_list n xs)) v)
      | _ \<Rightarrow> Inl (ValueError ''resize requires array value''))"

text \<open>\<open>operator[](size_t)\<close>: the value in which the element exists; then reading and assigning the element.\<close>

definition index_ref :: "nat \<Rightarrow> json \<Rightarrow> json_exn + json" where
  "index_ref i v =
     (let v = (if isNull v then jsonOfType ArrayValue else v)
      in case payload v of
        ArrayP xs \<Rightarrow> Inr (setPayload (ArrayP (if i \<ge> length xs then resize_list (i + 1) xs else xs)) v)
      | _ \<Rightarrow> Inl (ValueError ''operator[](index) requires array value''))"

definition index_ref_int :: "int \<Rightarrow> json \<Rightarrow> json_exn + json" where
  "index_ref_int i v = (if i < 0 then Inl (ValueError ''index cannot be negative'') else index_ref (nat i) v)"

definition index_const :: "nat \<Rightarrow> json \<Rightarrow> json_exn + json" where
  "index_const i v = (case payload v of
     NullP \<Rightarrow> Inr nullSingleton
   | ArrayP xs \<Rightarrow> Inr (if i < length xs then xs ! i else nullSingleton)
   | _ \<Rightarrow> Inl (ValueError ''operator[](index)const requires array value''))"

definition index_const_int :: "int \<Rightarrow> json \<Rightarrow> json_exn + json" where
  "index_const_int i v = (if i < 0 then Inl (ValueError ''index cannot be negative'') else index_const (nat i) v)"

definition set_index :: "nat \<Rightarrow> json \<Rightarrow> json \<Rightarrow> json" where
  "set_index i x v = (case payload v of ArrayP xs \<Rightarrow> setPayload (ArrayP (xs[i := x])) v | _ \<Rightarrow> v)"

text \<open>\<open>get\<close> recognises a missing element by the address of the null that stands for it.\<close>

definition get_index :: "nat \<Rightarrow> json \<Rightarrow> json \<Rightarrow> json_exn + json" where
  "get_index i defaultValue v = (case payload v of
     NullP \<Rightarrow> Inr defaultValue
   | ArrayP xs \<Rightarrow> Inr (if i < length xs then xs ! i else defaultValue)
   | _ \<Rightarrow> Inl (ValueError ''operator[](index)const requires array value''))"

definition json_append :: "json \<Rightarrow> json \<Rightarrow> json_exn + json" where
  "json_append x v = bindE (index_ref (json_size v) v) (\<lambda>w. Inr (set_index (json_size v) x w))"

definition isValidIndex :: "nat \<Rightarrow> json \<Rightarrow> bool" where
  "isValidIndex i v \<longleftrightarrow> i < json_size v"

text \<open>\<open>operator[](const char *)\<close>.\<close>

definition key_ref :: "string \<Rightarrow> json \<Rightarrow> json_exn + json" where
  "key_ref key v =
     (let v = (if isNull v then jsonOfType ObjectValue else v); k = c_str key
      in case payload v of
        ObjectP kvs \<Rightarrow> Inr (case map_of kvs k of
           None \<Rightarrow> setPayload (ObjectP (map_insert k nullSingleton kvs)) v | Some x \<Rightarrow> v)
      | _ \<Rightarrow> Inl (ValueError ''operator[](key) requires object value''))"

definition set_key :: "string \<Rightarrow> json \<Rightarrow> json \<Rightarrow> json" where
  "set_key key x v = (case payload v of ObjectP kvs \<Rightarrow> setPayload (ObjectP (map_insert (c_str key) x kvs)) v | _ \<Rightarrow> v)"

text \<open>\<open>value[key] = x\<close>.\<close>

definition assign_key :: "string \<Rightarrow> json \<Rightarrow> json \<Rightarrow> json_exn + json" where
  "assign_key key x v = bindE (key_ref key v) (\<lambda>w. Inr (set_key key x w))"

definition json_find :: "string \<Rightarrow> json \<Rightarrow> json_exn + json option" where
  "json_find key v = (case payload v of
     NullP \<Rightarrow> Inr None
   | ObjectP kvs \<Rightarrow> Inr (map_of kvs (c_str key))
   | _ \<Rightarrow> Inl (ValueError ''find requires object value or null value''))"

definition key_const :: "string \<Rightarrow> json \<Rightarrow> json_exn + json" where
  "key_const key v = bindE (json_find key v) (\<lambda>found.
     Inr (case found of Some x \<Rightarrow> x | None \<Rightarrow> nullSingleton))"

definition get_key :: "string \<Rightarrow> json \<Rightarrow> json \<Rightarrow> json_exn + json" where
  "get_key key defaultValue v = bindE (json_find key v) (\<lambda>found.
     Inr (case found of Some x \<Rightarrow> x | None \<Rightarrow> defaultValue))"

definition isMember :: "string \<Rightarrow> json \<Rightarrow> json_exn + bool" where
  "isMember key v = bindE (json_find key v) (\<lambda>found. Inr (found \<noteq> None))"

text \<open>The members returned as removed.\<close>

definition removeMember :: "string \<Rightarrow> json \<Rightarrow> json option \<times> json" where
  "removeMember key v = (case payload v of
     ObjectP kvs \<Rightarrow> (case map_of kvs (c_str key) of
        None \<Rightarrow> (None, v)
      | Some x \<Rightarrow> (Some x, setPayload (ObjectP (map_erase (c_str key) kvs)) v))
   | _ \<Rightarrow> (None, v))"

definition removeIndex :: "nat \<Rightarrow> json \<Rightarrow> json option \<times> json" where
  "removeIndex i v = (case payload v of
     ArrayP xs \<Rightarrow> if i \<ge> length xs then (None, v)
       else (Some (xs ! i), setPayload (ArrayP (take i xs @ drop (i + 1) xs)) v)
   | _ \<Rightarrow> (None, v))"

definition getMemberNames :: "json \<Rightarrow> json_exn + string list" where
  "getMemberNames v = (case payload v of
     NullP \<Rightarrow> Inr []
   | ObjectP kvs \<Rightarrow> Inr (map fst kvs)
   | _ \<Rightarrow> Inl (ValueError ''getMemberNames requires object value''))"

section \<open>Settings\<close>

text \<open>The builders of readers and writers keep their settings in an object.\<close>

definition assign_all :: "(string \<times> json json_payload) list \<Rightarrow> json \<Rightarrow> json_exn + json" where
  "assign_all kps v = foldl (\<lambda>r (k, p). bindE r (assign_key k (plain p))) (Inr v) kps"

definition setting :: "(json \<Rightarrow> json_exn + 'a) \<Rightarrow> string \<Rightarrow> json \<Rightarrow> json_exn + 'a" where
  "setting as key settings = bindE (key_const key settings) as"

text \<open>The loop of \<open>validate\<close>: the settings with unknown names, added to the value \<open>invalid\<close>.\<close>

definition invalid_settings :: "string list \<Rightarrow> json \<Rightarrow> json \<Rightarrow> json_exn + json" where
  "invalid_settings validKeys settings invalid = bindE (getMemberNames settings) (\<lambda>keys.
     foldl (\<lambda>r key. bindE r (\<lambda>inv.
       if key \<in> set validKeys then Inr inv
       else bindE (key_const key settings) (\<lambda>x. assign_key key x inv))) (Inr invalid) keys)"

definition validate_settings :: "string list \<Rightarrow> json \<Rightarrow> json \<Rightarrow> json_exn + bool \<times> json" where
  "validate_settings validKeys settings invalid =
     bindE (invalid_settings validKeys settings invalid) (\<lambda>inv. Inr (json_empty inv, inv))"

end
