(* ===== verification/Json_Writer.thy ===== *)
theory Json_Writer
  imports Json_Value
begin

text \<open>
  \<open>BuiltStyledStreamWriter\<close> of \<open>common/configuration/json\<close>, the quoting of strings it uses, and the
  builder that configures it. The stream written to is the string \<open>jw_out\<close>. A loop over the elements
  of an array or the members of an object is a recursion over the list of them.
\<close>

section \<open>Quoting\<close>

text \<open>
  \<open>char\<close> is signed, so that the test of \<open>isAnyCharRequiredQuoting\<close> holds of every octet: below \<open>0x80\<close> by
  its last disjunct, from there on because the octet is negative and so less than a blank.
\<close>

definition signed_char :: "char \<Rightarrow> int" where
  "signed_char c = (if of_char c < (128 :: int) then of_char c else of_char c - 256)"

definition isAnyCharRequiredQuoting :: "string \<Rightarrow> bool" where
  "isAnyCharRequiredQuoting s \<longleftrightarrow> list_ex (\<lambda>c. c = CHR 0x5C \<or> c = CHR 0x22 \<or> signed_char c < 32
     \<or> of_char c < (0x80 :: nat)) s"

definition low6 :: "char \<Rightarrow> nat" where
  "low6 c = of_char c mod 64"

text \<open>
  The code point at the head of the string and the number of further octets the pointer is moved by.
  The fields of the octets are put side by side, so that the bitwise or is a sum. The first of four
  octets is moved by 24 bits instead of 18.
\<close>

definition REPLACEMENT_CHARACTER :: nat where
  "REPLACEMENT_CHARACTER = 0xFFFD"

definition utf8ToCodePoint :: "string \<Rightarrow> nat \<times> nat" where
  "utf8ToCodePoint s =
     (let firstByte = of_char (hd s) :: nat; left = length s in
      if firstByte < 0x80 then (firstByte, 0)
      else if firstByte < 0xE0 then
        if left < 2 then (REPLACEMENT_CHARACTER, 0)
        else let calculated = firstByte mod 32 * 2 ^ 6 + low6 (s ! 1)
          in (if calculated < 0x80 then REPLACEMENT_CHARACTER else calculated, 1)
      else if firstByte < 0xF0 then
        if left < 3 then (REPLACEMENT_CHARACTER, 0)
        else let calculated = firstByte mod 16 * 2 ^ 12 + low6 (s ! 1) * 2 ^ 6 + low6 (s ! 2)
          in (if calculated \<ge> 0xD800 \<and> calculated \<le> 0xDFFF then REPLACEMENT_CHARACTER
              else if calculated < 0x800 then REPLACEMENT_CHARACTER else calculated, 2)
      else if firstByte < 0xF8 then
        if left < 4 then (REPLACEMENT_CHARACTER, 0)
        else let calculated = firstByte mod 8 * 2 ^ 24 + low6 (s ! 1) * 2 ^ 12 + low6 (s ! 2) * 2 ^ 6 + low6 (s ! 3)
          in (if calculated < 0x10000 then REPLACEMENT_CHARACTER else calculated, 3)
      else (REPLACEMENT_CHARACTER, 0))"

definition hex_digit :: "nat \<Rightarrow> char" where
  "hex_digit n = ''0123456789abcdef'' ! n"

definition toHex16Bit :: "nat \<Rightarrow> string" where
  "toHex16Bit x =
     (let hi = x div 2 ^ 8 mod 256; lo = x mod 256
      in [hex_digit (hi div 16), hex_digit (hi mod 16), hex_digit (lo div 16), hex_digit (lo mod 16)])"

definition quotedCodePoint :: "nat \<Rightarrow> string" where
  "quotedCodePoint cp =
     (if cp < 0x80 \<and> cp \<ge> 0x20 then [char_of cp]
      else if cp < 0x10000 then [CHR 0x5C, CHR ''u''] @ toHex16Bit cp
      else let cp = cp - 0x10000
        in [CHR 0x5C, CHR ''u''] @ toHex16Bit (cp div 2 ^ 10 + 0xD800)
         @ [CHR 0x5C, CHR ''u''] @ toHex16Bit (cp mod 2 ^ 10 + 0xDC00))"

definition simple_escape :: "char \<Rightarrow> char option" where
  "simple_escape c =
     (if c = CHR 0x22 then Some (CHR 0x22) else if c = CHR 0x5C then Some (CHR 0x5C)
      else if c = CHR 0x08 then Some (CHR ''b'') else if c = CHR 0x0C then Some (CHR ''f'')
      else if c = CHR 0x0A then Some (CHR ''n'') else if c = CHR 0x0D then Some (CHR ''r'')
      else if c = CHR 0x09 then Some (CHR ''t'') else None)"

text \<open>The loop of \<open>valueToQuotedString\<close>.\<close>

fun quote_chars :: "string \<Rightarrow> string" where
  "quote_chars [] = []"
| "quote_chars (c # s) = (case simple_escape c of
     Some e \<Rightarrow> [CHR 0x5C, e] @ quote_chars s
   | None \<Rightarrow> (case utf8ToCodePoint (c # s) of (cp, n) \<Rightarrow> quotedCodePoint cp @ quote_chars (drop n s)))"

definition valueToQuotedString :: "string \<Rightarrow> string" where
  "valueToQuotedString s =
     (if \<not> isAnyCharRequiredQuoting s then [CHR 0x22] @ s @ [CHR 0x22]
      else [CHR 0x22] @ quote_chars s @ [CHR 0x22])"

section \<open>The writer\<close>

datatype comment_style = CommentNone | CommentMost | CommentAll

record json_format =
  jf_indentation :: string
  jf_cs :: comment_style
  jf_colonSymbol :: string
  jf_nullSymbol :: string
  jf_endingLineFeedSymbol :: string
  jf_useSpecialFloats :: bool
  jf_precision :: nat
  jf_rightMargin :: nat

record json_writer =
  jw_out :: string
  jw_childValues :: "string list"
  jw_indentString :: string
  jw_addChildValues :: bool
  jw_indented :: bool

type_synonym 'a jw_prog = "(json_exn, json_writer, 'a) prog"

definition newJsonFormat :: "string \<Rightarrow> comment_style \<Rightarrow> string \<Rightarrow> string \<Rightarrow> string \<Rightarrow> bool \<Rightarrow> nat \<Rightarrow> json_format" where
  "newJsonFormat indentation cs colonSymbol nullSymbol endingLineFeedSymbol useSpecialFloats precision =
     \<lparr> jf_indentation = indentation, jf_cs = cs, jf_colonSymbol = colonSymbol, jf_nullSymbol = nullSymbol,
       jf_endingLineFeedSymbol = endingLineFeedSymbol, jf_useSpecialFloats = useSpecialFloats,
       jf_precision = precision, jf_rightMargin = 74 \<rparr>"

definition newJsonWriter :: json_writer where
  "newJsonWriter = \<lparr> jw_out = [], jw_childValues = [], jw_indentString = [], jw_addChildValues = False,
     jw_indented = False \<rparr>"

definition out :: "string \<Rightarrow> unit jw_prog" where
  "out t = modifyM (\<lambda>s. s\<lparr> jw_out := jw_out s @ t \<rparr>)"

definition pushValue :: "string \<Rightarrow> unit jw_prog" where
  "pushValue t = withM (\<lambda>s.
     if jw_addChildValues s then modifyM (\<lambda>s. s\<lparr> jw_childValues := jw_childValues s @ [t] \<rparr>) else out t)"

definition writeIndent :: "unit jw_prog" where
  "writeIndent = withM (\<lambda>s. whenM (jw_indentString s \<noteq> []) (out (CHR 0x0A # jw_indentString s)))"

definition writeWithIndent :: "string \<Rightarrow> unit jw_prog" where
  "writeWithIndent t = doM [
     withM (\<lambda>s. whenM (\<not> jw_indented s) writeIndent),
     out t,
     modifyM (\<lambda>s. s\<lparr> jw_indented := False \<rparr>)]"

definition indent :: "json_format \<Rightarrow> unit jw_prog" where
  "indent F = modifyM (\<lambda>s. s\<lparr> jw_indentString := jw_indentString s @ jf_indentation F \<rparr>)"

definition unindent :: "json_format \<Rightarrow> unit jw_prog" where
  "unindent F = withM (\<lambda>s.
     if length (jw_indentString s) < length (jf_indentation F) then throwM AssertionFailed
     else modifyM (\<lambda>s. s\<lparr> jw_indentString :=
       take (length (jw_indentString s) - length (jf_indentation F)) (jw_indentString s) \<rparr>))"

text \<open>A comment with the indentation after each of its line ends that a slash follows.\<close>

fun indented_comment :: "string \<Rightarrow> string \<Rightarrow> string" where
  "indented_comment ind [] = []"
| "indented_comment ind (c # t) =
     (if c = CHR 0x0A \<and> t \<noteq> [] \<and> hd t = CHR ''/'' then c # ind @ indented_comment ind t
      else c # indented_comment ind t)"

definition writeCommentBeforeValue :: "json_format \<Rightarrow> json \<Rightarrow> unit jw_prog" where
  "writeCommentBeforeValue F v =
     (if jf_cs F = CommentNone \<or> \<not> hasComment v COMMENT_BEFORE then doM []
      else doM [
        withM (\<lambda>s. whenM (\<not> jw_indented s) writeIndent),
        withM (\<lambda>s. out (indented_comment (jw_indentString s) (getComment v COMMENT_BEFORE))),
        modifyM (\<lambda>s. s\<lparr> jw_indented := False \<rparr>)])"

definition writeCommentAfterValueOnSameLine :: "json_format \<Rightarrow> json \<Rightarrow> unit jw_prog" where
  "writeCommentAfterValueOnSameLine F v =
     (if jf_cs F = CommentNone then doM []
      else doM [
        whenM (hasComment v COMMENT_ON_SAME_LINE) (out ('' '' @ getComment v COMMENT_ON_SAME_LINE)),
        whenM (hasComment v COMMENT_AFTER) (doM [writeIndent, out (getComment v COMMENT_AFTER)])])"

definition hasCommentForValue :: "json \<Rightarrow> bool" where
  "hasCommentForValue v \<longleftrightarrow>
     hasComment v COMMENT_BEFORE \<or> hasComment v COMMENT_ON_SAME_LINE \<or> hasComment v COMMENT_AFTER"

text \<open>An access to \<open>_childValues\<close> past its end is undefined; it fails here.\<close>

definition childValue :: "nat \<Rightarrow> string jw_prog" where
  "childValue i = withM (\<lambda>s. if i < length (jw_childValues s) then returnM (jw_childValues s ! i)
     else throwM AssertionFailed)"

text \<open>The branch of \<open>writeArrayValue\<close> that writes on one line, once the children are in \<open>_childValues\<close>.\<close>

fun write_inline :: "json_format \<Rightarrow> nat \<Rightarrow> nat \<Rightarrow> unit jw_prog" where
  "write_inline F n 0 = doM []"
| "write_inline F n (Suc k) = doM [
     whenM (n > 0) (out (if jf_indentation F \<noteq> [] then '', '' else '','')),
     bindM (childValue n) out,
     write_inline F (n + 1) k]"

definition writeOneLine :: "json_format \<Rightarrow> nat \<Rightarrow> unit jw_prog" where
  "writeOneLine F n = withM (\<lambda>s.
     if length (jw_childValues s) \<noteq> n then throwM AssertionFailed
     else doM [
       out ''['',
       whenM (jf_indentation F \<noteq> []) (out '' ''),
       write_inline F 0 n,
       whenM (jf_indentation F \<noteq> []) (out '' ''),
       out '']''])"

text \<open>
  The loops are over the children, each with the program \<open>writeValue\<close> of it, so that the recursion on
  the value is in \<open>writeValue\<close> alone: \<open>write_elements\<close> is the loop of a multi-line array from one
  index on, \<open>write_members\<close> that of an object, \<open>measure_elements\<close> the second loop of
  \<open>isMultilineArray\<close>, which returns whether a child has a comment and the length of the line.
\<close>

type_synonym child = "json \<times> unit jw_prog"

fun write_elements :: "json_format \<Rightarrow> bool \<Rightarrow> nat \<Rightarrow> child list \<Rightarrow> unit jw_prog" where
  "write_elements F hasChildValue i [] = doM []"
| "write_elements F hasChildValue i ((x, writeValue_x) # xs) = doM [
     writeCommentBeforeValue F x,
     if hasChildValue then bindM (childValue i) writeWithIndent
     else doM [
       withM (\<lambda>s. whenM (\<not> jw_indented s) writeIndent),
       modifyM (\<lambda>s. s\<lparr> jw_indented := True \<rparr>),
       writeValue_x,
       modifyM (\<lambda>s. s\<lparr> jw_indented := False \<rparr>)],
     whenM (xs \<noteq> []) (out '',''),
     writeCommentAfterValueOnSameLine F x,
     write_elements F hasChildValue (i + 1) xs]"

text \<open>\<open>value[name]\<close> of the loop over the members, which looks for the name up to its first NUL.\<close>

definition member_child :: "json_format \<Rightarrow> (string \<times> child) list \<Rightarrow> string \<Rightarrow> child" where
  "member_child F kvs name = (case map_of kvs (c_str name) of
     Some c \<Rightarrow> c | None \<Rightarrow> (nullSingleton, pushValue (jf_nullSymbol F)))"

fun write_members :: "json_format \<Rightarrow> (string \<Rightarrow> child) \<Rightarrow> string list \<Rightarrow> unit jw_prog" where
  "write_members F children [] = doM []"
| "write_members F children (name # names) = doM [
     writeCommentBeforeValue F (fst (children name)),
     writeWithIndent (valueToQuotedString name),
     out (jf_colonSymbol F),
     snd (children name),
     whenM (names \<noteq> []) (out '',''),
     writeCommentAfterValueOnSameLine F (fst (children name)),
     write_members F children names]"

fun measure_elements :: "nat \<Rightarrow> bool \<Rightarrow> nat \<Rightarrow> child list \<Rightarrow> (bool \<times> nat) jw_prog" where
  "measure_elements i commented lineLength [] = returnM (commented, lineLength)"
| "measure_elements i commented lineLength ((x, writeValue_x) # xs) =
     thenM [writeValue_x]
       (bindM (childValue i) (\<lambda>t.
         measure_elements (i + 1) (commented \<or> hasCommentForValue x) (lineLength + length t) xs))"

definition isMultilineArray :: "json_format \<Rightarrow> child list \<Rightarrow> bool jw_prog" where
  "isMultilineArray F xs =
     (let wide = length xs * 3 \<ge> jf_rightMargin F
        \<or> list_ex (\<lambda>(x, _). (isArray x \<or> isObject x) \<and> \<not> json_empty x) xs
      in thenM [modifyM (\<lambda>s. s\<lparr> jw_childValues := [] \<rparr>)]
        (if wide then returnM True
         else thenM [modifyM (\<lambda>s. s\<lparr> jw_addChildValues := True \<rparr>)]
           (bindM (measure_elements 0 False (4 + (length xs - 1) * 2) xs) (\<lambda>(commented, lineLength).
             retM [modifyM (\<lambda>s. s\<lparr> jw_addChildValues := False \<rparr>)]
               (commented \<or> lineLength \<ge> jf_rightMargin F)))))"

definition writeArrayValue :: "json_format \<Rightarrow> child list \<Rightarrow> unit jw_prog" where
  "writeArrayValue F xs =
     (if xs = [] then pushValue ''[]''
      else bindM (if jf_cs F = CommentAll then returnM True else isMultilineArray F xs) (\<lambda>isMultiLine.
        if isMultiLine then doM [
          writeWithIndent ''['',
          indent F,
          withM (\<lambda>s. write_elements F (jw_childValues s \<noteq> []) 0 xs),
          unindent F,
          writeWithIndent '']'']
        else writeOneLine F (length xs)))"

definition writeObjectValue :: "json_format \<Rightarrow> (string \<times> child) list \<Rightarrow> unit jw_prog" where
  "writeObjectValue F kvs =
     (if kvs = [] then pushValue ''{}''
      else doM [
        writeWithIndent ''{'',
        indent F,
        write_members F (member_child F kvs) (map fst kvs),
        unindent F,
        writeWithIndent ''}''])"

fun writeValue :: "json_env \<Rightarrow> json_format \<Rightarrow> json \<Rightarrow> unit jw_prog" where
  "writeValue E F (Json NullP b m a) = pushValue (jf_nullSymbol F)"
| "writeValue E F (Json (IntP n) b m a) = pushValue (int_string (sint n))"
| "writeValue E F (Json (UIntP n) b m a) = pushValue (int_string (uint n))"
| "writeValue E F (Json (RealP d) b m a) = pushValue (valueToString E d (jf_useSpecialFloats F) (jf_precision F))"
| "writeValue E F (Json (StringP t) b m a) = pushValue (valueToQuotedString t)"
| "writeValue E F (Json (BoolP t) b m a) = pushValue (if t then ''true'' else ''false'')"
| "writeValue E F (Json (ArrayP xs) b m a) = writeArrayValue F (map (\<lambda>x. (x, writeValue E F x)) xs)"
| "writeValue E F (Json (ObjectP kvs) b m a) =
     writeObjectValue F (map (\<lambda>(name, x). (name, x, writeValue E F x)) kvs)"

definition json_write :: "json_env \<Rightarrow> json_format \<Rightarrow> json \<Rightarrow> unit jw_prog" where
  "json_write E F v = doM [
     modifyM (\<lambda>s. s\<lparr> jw_addChildValues := False, jw_indented := True, jw_indentString := [] \<rparr>),
     writeCommentBeforeValue F v,
     withM (\<lambda>s. whenM (\<not> jw_indented s) writeIndent),
     modifyM (\<lambda>s. s\<lparr> jw_indented := True \<rparr>),
     writeValue E F v,
     writeCommentAfterValueOnSameLine F v,
     out (jf_endingLineFeedSymbol F)]"

section \<open>The builder\<close>

definition writer_setDefaults :: "json \<Rightarrow> json_exn + json" where
  "writer_setDefaults settings = assign_all
     [(''commentStyle'', StringP ''All''), (''indentation'', StringP [CHR 0x09]),
      (''enableYAMLCompatibility'', BoolP False), (''dropNullPlaceholders'', BoolP False),
      (''useSpecialFloats'', BoolP False), (''precision'', IntP 17)] settings"

definition newStreamWriter :: "json_env \<Rightarrow> json \<Rightarrow> json_exn + json_format" where
  "newStreamWriter E settings =
     bindE (setting (asString E) ''indentation'' settings) (\<lambda>indentation.
     bindE (setting (asString E) ''commentStyle'' settings) (\<lambda>cs_str.
     bindE (setting asBool ''enableYAMLCompatibility'' settings) (\<lambda>eyc.
     bindE (setting asBool ''dropNullPlaceholders'' settings) (\<lambda>dnp.
     bindE (setting asBool ''useSpecialFloats'' settings) (\<lambda>usf.
     bindE (setting asUInt ''precision'' settings) (\<lambda>pre.
     if cs_str \<noteq> ''All'' \<and> cs_str \<noteq> ''None''
     then Inl (ValueError (''commentStyle must be 'All' or 'None'' @ [CHR 0x27]))
     else Inr (newJsonFormat indentation (if cs_str = ''All'' then CommentAll else CommentNone)
       (if eyc then '': '' else if indentation = [] then '':'' else '' : '')
       (if dnp then [] else ''null'') [] usf (min (unat pre) 17))))))))"

definition validWriterKeys :: "string list" where
  "validWriterKeys = [''indentation'', ''commentStyle'', ''enableYAMLCompatibility'', ''dropNullPlaceholders'',
     ''useSpecialFloats'', ''precision'']"

definition writer_validate :: "json \<Rightarrow> json \<Rightarrow> json_exn + bool \<times> json" where
  "writer_validate = validate_settings validWriterKeys"

text \<open>A fresh writer writes into a fresh stream; the value returned is the string of the stream.\<close>

definition writeString :: "json_env \<Rightarrow> json \<Rightarrow> json \<Rightarrow> json_exn + string" where
  "writeString E settings v = bindE (newStreamWriter E settings) (\<lambda>F.
     case json_write E F v newJsonWriter of (Inl e, s) \<Rightarrow> Inl e | (Inr _, s) \<Rightarrow> Inr (jw_out s))"

definition toStyledString :: "json_env \<Rightarrow> json \<Rightarrow> json_exn + string" where
  "toStyledString E v = bindE (writer_setDefaults nullSingleton) (\<lambda>settings.
     bindE (writeString E settings v) (\<lambda>t.
       Inr ((if hasComment v COMMENT_BEFORE then [CHR 0x0A] else []) @ t @ [CHR 0x0A])))"

text \<open>\<open>operator<<\<close>: what is appended to the stream.\<close>

definition json_put :: "json_env \<Rightarrow> json \<Rightarrow> json_exn + string" where
  "json_put E v = bindE (writer_setDefaults nullSingleton) (\<lambda>settings. writeString E settings v)"

end
