(* ===== verification/Json_Reader.thy ===== *)
theory Json_Reader
  imports Json_Value
begin

text \<open>
  \<open>BuiltReader\<close> of \<open>common/configuration/json\<close>, its tokens, its errors and the builder that
  configures it. A pointer into the document is the suffix of the document it points to, so that a
  token is a pair of suffixes. The pointer \<open>_current\<close> and the list of errors are the state; the stack
  of nodes is the recursion, its size the argument \<open>depth\<close>, and the value on top of it is passed in
  and returned. Comments are attached to values only if \<open>_collectComments\<close> is asked for and
  \<open>_allowComments\<close> is not set (\<open>collects\<close>). That is done through the pointer \<open>_lastValue\<close>, which dangles once
  the array that holds the last value has grown, so what then happens is left open: a document in which
  a comment may start has the outcome \<open>CommentCollected\<close>.
\<close>

section \<open>Tokens\<close>

record json_features =
  rf_allowComments :: bool
  rf_strictRoot :: bool
  rf_allowDroppedNullPlaceholders :: bool
  rf_allowNumericKeys :: bool
  rf_allowSingleQuotes :: bool
  rf_failIfExtra :: bool
  rf_rejectDupKeys :: bool
  rf_allowSpecialFloats :: bool
  rf_stackLimit :: int

datatype token_type =
    TokenEndOfStream | TokenObjectBegin | TokenObjectEnd | TokenArrayBegin | TokenArrayEnd | TokenString
  | TokenNumber | TokenTrue | TokenFalse | TokenNull | TokenNaN | TokenPosInf | TokenNegInf
  | TokenArraySeparator | TokenMemberSeparator | TokenComment | TokenError

record json_token =
  tk_type :: token_type
  tk_start :: string
  tk_end :: string

definition token_text :: "json_token \<Rightarrow> string" where
  "token_text t = take (length (tk_start t) - length (tk_end t)) (tk_start t)"

definition is_json_space :: "char \<Rightarrow> bool" where
  "is_json_space c \<longleftrightarrow> c = CHR 0x20 \<or> c = CHR 0x09 \<or> c = CHR 0x0D \<or> c = CHR 0x0A"

definition skipSpaces :: "string \<Rightarrow> string" where
  "skipSpaces cs = dropWhile is_json_space cs"

definition json_match :: "string \<Rightarrow> string \<Rightarrow> bool \<times> string" where
  "json_match pattern cs =
     (if length cs < length pattern then (False, cs)
      else if take (length pattern) cs \<noteq> pattern then (False, cs)
      else (True, drop (length pattern) cs))"

text \<open>The loop of \<open>readCStyleComment\<close>, which stops before the last octet of the document.\<close>

fun c_comment :: "string \<Rightarrow> string" where
  "c_comment (c # d # r) = (if c = CHR ''*'' \<and> d = CHR ''/'' then d # r else c_comment (d # r))"
| "c_comment r = r"

definition readCStyleComment :: "string \<Rightarrow> bool \<times> string" where
  "readCStyleComment cs = (case c_comment cs of [] \<Rightarrow> (False, []) | c # r \<Rightarrow> (c = CHR ''/'', r))"

fun readCppStyleComment :: "string \<Rightarrow> string" where
  "readCppStyleComment [] = []"
| "readCppStyleComment (c # r) =
     (if c = CHR 0x0A then r
      else if c = CHR 0x0D then (if r \<noteq> [] \<and> hd r = CHR 0x0A then tl r else r)
      else readCppStyleComment r)"

definition readComment :: "string \<Rightarrow> bool \<times> string" where
  "readComment cs = (case cs of [] \<Rightarrow> (False, [])
     | c # r \<Rightarrow> if c = CHR ''*'' then readCStyleComment r
         else if c = CHR ''/'' then (True, readCppStyleComment r) else (False, r))"

text \<open>The loop of \<open>readString\<close> and \<open>readStringSingleQuote\<close>, behind the opening quote \<open>q\<close>.\<close>

fun readString :: "char \<Rightarrow> string \<Rightarrow> bool \<times> string" where
  "readString q [] = (False, [])"
| "readString q (c # r) =
     (if c = CHR 0x5C then readString q (drop 1 r) else if c = q then (True, r) else readString q r)"

definition skip_digits :: "string \<Rightarrow> string" where
  "skip_digits cs = dropWhile is_digit cs"

definition skip_fraction :: "string \<Rightarrow> string" where
  "skip_fraction cs = (if cs \<noteq> [] \<and> hd cs = CHR ''.'' then skip_digits (tl cs) else cs)"

definition skip_exponent :: "string \<Rightarrow> string" where
  "skip_exponent cs = (if cs \<noteq> [] \<and> hd cs \<in> {CHR ''e'', CHR ''E''} then
     skip_digits (if tl cs \<noteq> [] \<and> hd (tl cs) \<in> {CHR ''+'', CHR ''-''} then tl (tl cs) else tl cs) else cs)"

definition readNumber :: "bool \<Rightarrow> string \<Rightarrow> bool \<times> string" where
  "readNumber checkInf cs =
     (if checkInf \<and> cs \<noteq> [] \<and> hd cs = CHR ''I'' then (False, tl cs)
      else (True, skip_exponent (skip_fraction (skip_digits cs))))"

text \<open>The token that starts with the octet \<open>c\<close> and goes on in \<open>r\<close>: its type, whether it is well-formed, its end.\<close>

definition token_body :: "json_features \<Rightarrow> char \<Rightarrow> string \<Rightarrow> token_type \<times> bool \<times> string" where
  "token_body F c r =
     (if c = CHR ''{'' then (TokenObjectBegin, True, r)
      else if c = CHR ''}'' then (TokenObjectEnd, True, r)
      else if c = CHR ''['' then (TokenArrayBegin, True, r)
      else if c = CHR '']'' then (TokenArrayEnd, True, r)
      else if c = CHR 0x22 then (TokenString, readString (CHR 0x22) r)
      else if c = CHR 0x27 then
        (if rf_allowSingleQuotes F then (TokenString, readString (CHR 0x27) r) else (TokenError, False, r))
      else if c = CHR ''/'' then (TokenComment, readComment r)
      else if is_digit c then (TokenNumber, True, snd (readNumber False r))
      else if c = CHR ''-'' then
        (case readNumber True r of (isNumber, e) \<Rightarrow>
           if isNumber then (TokenNumber, True, e)
           else if rf_allowSpecialFloats F then (TokenNegInf, json_match ''nfinity'' e)
           else (TokenNegInf, False, e))
      else if c = CHR ''t'' then (TokenTrue, json_match ''rue'' r)
      else if c = CHR ''f'' then (TokenFalse, json_match ''alse'' r)
      else if c = CHR ''n'' then (TokenNull, json_match ''ull'' r)
      else if c = CHR ''N'' then
        (if rf_allowSpecialFloats F then (TokenNaN, json_match ''aN'' r) else (TokenError, False, r))
      else if c = CHR ''I'' then
        (if rf_allowSpecialFloats F then (TokenPosInf, json_match ''nfinity'' r) else (TokenError, False, r))
      else if c = CHR '','' then (TokenArraySeparator, True, r)
      else if c = CHR '':'' then (TokenMemberSeparator, True, r)
      else if c = CHR 0x00 then (TokenEndOfStream, True, r)
      else (TokenError, False, r))"

definition readToken :: "json_features \<Rightarrow> string \<Rightarrow> json_token" where
  "readToken F cs =
     (let start = skipSpaces cs in
      case start of
        [] \<Rightarrow> \<lparr> tk_type = TokenEndOfStream, tk_start = start, tk_end = start \<rparr>
      | c # r \<Rightarrow> (case token_body F c r of (ty, ok, e) \<Rightarrow>
          \<lparr> tk_type = (if ok then ty else TokenError), tk_start = start, tk_end = e \<rparr>))"

section \<open>A token is not empty\<close>

lemma suffix_tl: "suffix (tl cs) cs"
  by (cases cs) (simp_all add: suffix_ConsI)

lemma suffix_skips:
  "suffix (skipSpaces cs) cs" "suffix (skip_digits cs) cs"
  "suffix (skip_fraction cs) cs" "suffix (skip_exponent cs) cs"
proof -
  show d: "suffix (skip_digits cs) cs" for cs by (simp add: skip_digits_def suffix_dropWhile)
  show "suffix (skipSpaces cs) cs" by (simp add: skipSpaces_def suffix_dropWhile)
  show "suffix (skip_fraction cs) cs"
    using suffix_order.trans [OF d suffix_tl] by (simp add: skip_fraction_def)
  show "suffix (skip_exponent cs) cs"
    using suffix_order.trans [OF d suffix_order.trans [OF suffix_tl suffix_tl]] suffix_order.trans [OF d suffix_tl]
    by (simp add: skip_exponent_def)
qed

lemma suffix_number: "suffix (snd (readNumber b cs)) cs"
  using suffix_order.trans [OF suffix_skips(4) suffix_order.trans [OF suffix_skips(3) suffix_skips(2)]] suffix_tl
  by (auto simp: readNumber_def)

lemma suffix_match: "suffix (snd (json_match p cs)) cs"
  by (simp add: json_match_def suffix_drop)

lemma suffix_c_comment: "suffix (c_comment cs) cs"
  by (induction cs rule: c_comment.induct) (auto intro: suffix_ConsI)

lemma suffix_comment: "suffix (snd (readComment cs)) cs"
proof -
  have c: "suffix (snd (readCStyleComment r)) r" for r
    using suffix_c_comment [of r] by (auto simp: readCStyleComment_def split: list.split intro: suffix_ConsD)
  have p: "suffix (readCppStyleComment r) r" for r
    by (induction r rule: readCppStyleComment.induct) (auto intro: suffix_ConsI suffix_tl)
  show ?thesis
    using c p by (cases cs) (auto simp: readComment_def intro: suffix_ConsI)
qed

lemma suffix_string: "suffix (snd (readString q cs)) cs"
  by (induction q cs rule: readString.induct)
    (auto intro: suffix_ConsI suffix_order.trans [OF _ suffix_drop])

lemma suffix_token_body: "suffix (snd (snd (token_body F c r))) r"
proof -
  obtain b e where n: "readNumber True r = (b, e)" by fastforce
  then have e: "suffix e r" using suffix_number [of True r] by simp
  then have "suffix (snd (json_match ''nfinity'' e)) r"
    using suffix_match suffix_order.trans by blast
  with e show ?thesis
    by (simp add: token_body_def n suffix_number suffix_match suffix_comment suffix_string)
qed

lemma readToken_cases:
  obtains "skipSpaces cs = []" "readToken F cs = \<lparr> tk_type = TokenEndOfStream, tk_start = [], tk_end = [] \<rparr>"
  | c r ty e where "skipSpaces cs = c # r" "suffix e r"
      "readToken F cs = \<lparr> tk_type = ty, tk_start = c # r, tk_end = e \<rparr>"
proof (cases "skipSpaces cs")
  case Nil
  then show thesis using that(1) by (simp add: readToken_def)
next
  case (Cons c r)
  obtain ty ok e where b: "token_body F c r = (ty, ok, e)" by (cases "token_body F c r")
  then show thesis
    using that(2) [OF Cons] suffix_token_body [of F c r] by (simp add: readToken_def Cons)
qed

lemma suffix_token:
  "suffix (tk_start (readToken F cs)) cs" "suffix (tk_end (readToken F cs)) (tk_start (readToken F cs))"
  using suffix_skips(1) [of cs] by (cases rule: readToken_cases [of cs F]; simp add: suffix_ConsI)+

lemma token_consumes:
  "tk_type (readToken F cs) \<noteq> TokenEndOfStream \<Longrightarrow> length (tk_end (readToken F cs)) < length cs"
  using suffix_length_le [OF suffix_skips(1) [of cs]]
  by (cases rule: readToken_cases [of cs F]) (auto dest: suffix_length_le)

section \<open>Errors\<close>

record error_info =
  ei_token :: json_token
  ei_message :: string
  ei_extra :: "string option"

record json_reader =
  jr_current :: string
  jr_errors :: "error_info list"

definition addError :: "string \<Rightarrow> json_token \<Rightarrow> json_reader \<Rightarrow> json_reader" where
  "addError message t s =
     s\<lparr> jr_errors := jr_errors s @ [\<lparr> ei_token = t, ei_message = message, ei_extra = None \<rparr>] \<rparr>"

definition keepError :: "error_info \<Rightarrow> json_reader \<Rightarrow> json_reader" where
  "keepError e s = s\<lparr> jr_errors := jr_errors s @ [e] \<rparr>"

text \<open>Comments are skipped: the loops that read tokens as long as they are comments.\<close>

function skip_comments :: "json_features \<Rightarrow> string \<Rightarrow> json_token" where
  "skip_comments F cs =
     (let t = readToken F cs in if tk_type t = TokenComment then skip_comments F (tk_end t) else t)"
  by pat_completeness auto
termination
  by (relation "measure (\<lambda>(F, cs). length cs)") (simp_all add: token_consumes)

definition skipCommentTokens :: "json_features \<Rightarrow> string \<Rightarrow> json_token" where
  "skipCommentTokens F cs = (if rf_allowComments F then skip_comments F cs else readToken F cs)"

text \<open>The loop of \<open>recoverFromError\<close>; reading tokens adds no error, so that none is discarded.\<close>

function skip_until :: "json_features \<Rightarrow> token_type \<Rightarrow> string \<Rightarrow> string" where
  "skip_until F skipUntilToken cs =
     (let skip = readToken F cs in
      if tk_type skip = skipUntilToken \<or> tk_type skip = TokenEndOfStream then tk_end skip
      else skip_until F skipUntilToken (tk_end skip))"
  by pat_completeness auto
termination
  by (relation "measure (\<lambda>(F, ty, cs). length cs)") (simp_all add: token_consumes)

declare skip_comments.simps [simp del] skip_until.simps [simp del]

definition recoverFromError :: "json_features \<Rightarrow> token_type \<Rightarrow> json_reader \<Rightarrow> json_reader" where
  "recoverFromError F skipUntilToken s = s\<lparr> jr_current := skip_until F skipUntilToken (jr_current s) \<rparr>"

definition addErrorAndRecover ::
    "json_features \<Rightarrow> string \<Rightarrow> json_token \<Rightarrow> token_type \<Rightarrow> json_reader \<Rightarrow> json_reader" where
  "addErrorAndRecover F message t skipUntilToken s = recoverFromError F skipUntilToken (addError message t s)"

section \<open>Strings\<close>

definition codePointToUTF8 :: "nat \<Rightarrow> string" where
  "codePointToUTF8 cp =
     (if cp \<le> 0x7F then [char_of cp]
      else if cp \<le> 0x7FF then [char_of (0xC0 + cp div 2 ^ 6 mod 32), char_of (0x80 + cp mod 64)]
      else if cp \<le> 0xFFFF then
        [char_of (0xE0 + cp div 2 ^ 12 mod 16), char_of (0x80 + cp div 2 ^ 6 mod 64), char_of (0x80 + cp mod 64)]
      else if cp \<le> 0x10FFFF then
        [char_of (0xF0 + cp div 2 ^ 18 mod 8), char_of (0x80 + cp div 2 ^ 12 mod 64),
         char_of (0x80 + cp div 2 ^ 6 mod 64), char_of (0x80 + cp mod 64)]
      else [])"

definition hex_value :: "char \<Rightarrow> nat option" where
  "hex_value c = (let n = of_char c in
     if 48 \<le> n \<and> n \<le> 57 then Some (n - 48)
     else if 97 \<le> n \<and> n \<le> 102 then Some (n - 97 + 10)
     else if 65 \<le> n \<and> n \<le> 70 then Some (n - 65 + 10) else None)"

text \<open>The loop over the digits; on the left where a character was no digit, behind that character.\<close>

fun read_hex :: "nat \<Rightarrow> nat \<Rightarrow> string \<Rightarrow> string + nat \<times> string" where
  "read_hex 0 result cs = Inr (result, cs)"
| "read_hex (Suc n) result [] = Inl []"
| "read_hex (Suc n) result (c # cs) = (case hex_value c of
     Some d \<Rightarrow> read_hex n (result * 16 + d) cs | None \<Rightarrow> Inl cs)"

definition string_error :: "json_token \<Rightarrow> string \<Rightarrow> string \<Rightarrow> error_info" where
  "string_error t message extra = \<lparr> ei_token = t, ei_message = message, ei_extra = Some extra \<rparr>"

definition second_half_expected :: string where
  "second_half_expected = ''expecting another '' @ [CHR 0x5C]
     @ ''u token to begin the second half of a unicode surrogate pair''"

text \<open>
  \<open>cs\<close> is what is left between \<open>current\<close> and \<open>end\<close>, \<open>tail\<close> the document from \<open>end\<close> on, so that
  \<open>current\<close> is \<open>cs @ tail\<close>.
\<close>

definition decodeUnicodeEscapeSequence ::
    "json_token \<Rightarrow> string \<Rightarrow> string \<Rightarrow> error_info + nat \<times> string" where
  "decodeUnicodeEscapeSequence t tail cs =
     (if length cs < 4 then
        Inl (string_error t ''Bad unicode escape sequence in string: four digits expected.'' (cs @ tail))
      else (case read_hex 4 0 cs of
         Inl rest \<Rightarrow>
           Inl (string_error t ''Bad unicode escape sequence in string: hexadecimal digit expected.'' (rest @ tail))
       | Inr r \<Rightarrow> Inr r))"

definition decodeUnicodeCodePoint :: "json_token \<Rightarrow> string \<Rightarrow> string \<Rightarrow> error_info + nat \<times> string" where
  "decodeUnicodeCodePoint t tail cs =
     bindE (decodeUnicodeEscapeSequence t tail cs) (\<lambda>(unicode, cs).
       if unicode \<ge> 0xD800 \<and> unicode \<le> 0xDBFF then
         if length cs < 6 then
           Inl (string_error t ''additional six characters expected to parse unicode surrogate pair.'' (cs @ tail))
         else if cs ! 0 \<noteq> CHR 0x5C then
           Inl (string_error t second_half_expected
             (drop 1 cs @ tail))
         else if cs ! 1 \<noteq> CHR ''u'' then
           Inl (string_error t second_half_expected
             (drop 2 cs @ tail))
         else bindE (decodeUnicodeEscapeSequence t tail (drop 2 cs)) (\<lambda>(surrogatePair, cs).
           Inr (0x10000 + unicode mod 2 ^ 10 * 2 ^ 10 + surrogatePair mod 2 ^ 10, cs))
       else Inr (unicode, cs))"

definition decode_escape :: "char \<Rightarrow> char option" where
  "decode_escape c =
     (if c \<in> {CHR 0x22, CHR ''/'', CHR 0x5C} then Some c
      else if c = CHR ''b'' then Some (CHR 0x08) else if c = CHR ''f'' then Some (CHR 0x0C)
      else if c = CHR ''n'' then Some (CHR 0x0A) else if c = CHR ''r'' then Some (CHR 0x0D)
      else if c = CHR ''t'' then Some (CHR 0x09) else None)"

lemma read_hex_shortens: "read_hex n a cs = Inr (u, r) \<Longrightarrow> length r \<le> length cs"
  by (induction n a cs rule: read_hex.induct) (auto split: option.splits)

lemma sequence_shortens: "decodeUnicodeEscapeSequence t tail cs = Inr (u, r) \<Longrightarrow> length r \<le> length cs"
  by (auto simp: decodeUnicodeEscapeSequence_def split: if_splits sum.splits dest: read_hex_shortens)

lemma code_point_shortens: "decodeUnicodeCodePoint t tail cs = Inr (u, r) \<Longrightarrow> length r \<le> length cs"
  by (auto simp: decodeUnicodeCodePoint_def split: if_splits sum.splits dest!: sequence_shortens)

text \<open>The loop of \<open>decodeString\<close>.\<close>

function decode_chars :: "json_token \<Rightarrow> string \<Rightarrow> string \<Rightarrow> string \<Rightarrow> error_info + string" where
  "decode_chars t tail decoded [] = Inr decoded"
| "decode_chars t tail decoded (c # cs) =
     (if c = CHR 0x22 then Inr decoded
      else if c = CHR 0x5C then (case cs of
          [] \<Rightarrow> Inl (string_error t ''Empty escape sequence in string'' (cs @ tail))
        | escape # cs' \<Rightarrow> (case decode_escape escape of
            Some d \<Rightarrow> decode_chars t tail (decoded @ [d]) cs'
          | None \<Rightarrow>
              if escape = CHR ''u'' then (case decodeUnicodeCodePoint t tail cs' of
                  Inl e \<Rightarrow> Inl e
                | Inr (unicode, cs'') \<Rightarrow> decode_chars t tail (decoded @ codePointToUTF8 unicode) cs'')
              else Inl (string_error t ''Bad escape sequence in string'' (cs' @ tail))))
      else decode_chars t tail (decoded @ [c]) cs)"
  by pat_completeness auto
termination
  by (relation "measure (\<lambda>(t, tail, decoded, cs). length cs)") (auto dest!: code_point_shortens)

definition decodeString :: "json_token \<Rightarrow> error_info + string" where
  "decodeString t =
     (let n = length (tk_start t) - length (tk_end t) - 2
      in decode_chars t (drop n (tl (tk_start t))) [] (take n (tl (tk_start t))))"

section \<open>Numbers\<close>

definition fixNumericLocaleInput :: "json_env \<Rightarrow> string \<Rightarrow> string" where
  "fixNumericLocaleInput E s =
     (if je_decimal_point E \<noteq> CHR 0x00 \<and> je_decimal_point E \<noteq> CHR ''.'' then
        map (\<lambda>c. if c = CHR ''.'' then je_decimal_point E else c) s
      else s)"

definition decodeDouble :: "json_env \<Rightarrow> json_token \<Rightarrow> error_info + json json_payload" where
  "decodeDouble E t =
     (let s = token_text t in
      case je_scan E (if length s \<le> 32 then fixNumericLocaleInput E s else s) of
        None \<Rightarrow> Inl \<lparr> ei_token = t, ei_message = [CHR 0x27] @ s @ [CHR 0x27] @ '' is not a number.'', ei_extra = None \<rparr>
      | Some d \<Rightarrow> Inr (RealP d))"

text \<open>The loop over the digits; \<open>None\<close> where the text is no integer or too large and is read as a \<open>double\<close>.\<close>

fun decode_digits :: "int \<Rightarrow> int \<Rightarrow> string \<Rightarrow> int option" where
  "decode_digits maxIntegerValue n [] = Some n"
| "decode_digits maxIntegerValue n (c # cs) =
     (if \<not> is_digit c then None
      else let threshold = maxIntegerValue div 10; digit = int (digit_value c) in
        if n \<ge> threshold \<and> (n > threshold \<or> cs \<noteq> [] \<or> digit > maxIntegerValue mod 10) then None
        else decode_digits maxIntegerValue (n * 10 + digit) cs)"

definition decodeNumber :: "json_env \<Rightarrow> json_token \<Rightarrow> error_info + json json_payload" where
  "decodeNumber E t =
     (let s = token_text t;
          isNegative = (tk_start t \<noteq> [] \<and> hd (tk_start t) = CHR ''-'');
          maxIntegerValue = (if isNegative then 2 ^ 63 else 2 ^ 64 - 1) in
      case decode_digits maxIntegerValue 0 (if isNegative then tl s else s) of
        None \<Rightarrow> decodeDouble E t
      | Some n \<Rightarrow> Inr (if isNegative then IntP (- word_of_int n)
          else if n \<le> 2 ^ 63 - 1 then IntP (word_of_int n) else UIntP (word_of_int n)))"

section \<open>Values\<close>

type_synonym 'a jr_result = "json_exn + bool \<times> 'a \<times> json_reader"

text \<open>
  The loops of \<open>readArray\<close> and \<open>readObject\<close>. The call of \<open>readValue\<close> for an element is the argument
  \<open>rv\<close>, which takes the element as it is before the call; \<open>after_element\<close> and \<open>after_member\<close> are the
  rest of a round, with the rounds that follow as \<open>go_on\<close>.
\<close>

definition after_element :: "json_features \<Rightarrow> json list \<Rightarrow> (json list \<Rightarrow> json_reader \<Rightarrow> json list jr_result) \<Rightarrow>
    bool \<times> json \<times> json_reader \<Rightarrow> json list jr_result" where
  "after_element F xs go_on = (\<lambda>(ok, x, s).
     let xs = xs @ [x] in
     if \<not> ok then Inr (False, xs, recoverFromError F TokenArrayEnd s)
     else
       let t = skip_comments F (jr_current s); s = s\<lparr> jr_current := tk_end t \<rparr> in
       if tk_type t \<noteq> TokenArraySeparator \<and> tk_type t \<noteq> TokenArrayEnd then
         Inr (False, xs, addErrorAndRecover F ''Missing ',' or ']' in array declaration'' t TokenArrayEnd s)
       else if tk_type t = TokenArrayEnd then Inr (True, xs, s)
       else go_on xs s)"

fun array_loop :: "(json \<Rightarrow> json_reader \<Rightarrow> json jr_result) \<Rightarrow> json_features \<Rightarrow> nat \<Rightarrow> json list \<Rightarrow> json_reader \<Rightarrow>
    json list jr_result" where
  "array_loop rv F 0 xs s = Inl FuelExhausted"
| "array_loop rv F (Suc n) xs s =
     bindE (rv nullSingleton s) (after_element F xs (\<lambda>xs s. array_loop rv F n xs s))"

definition readArray :: "(json \<Rightarrow> json_reader \<Rightarrow> json jr_result) \<Rightarrow> json_features \<Rightarrow> nat \<Rightarrow> json_reader \<Rightarrow>
    json list jr_result" where
  "readArray rv F n s =
     (let current = skipSpaces (jr_current s); s = s\<lparr> jr_current := current \<rparr> in
      if current \<noteq> [] \<and> hd current = CHR '']'' then
        Inr (True, [], s\<lparr> jr_current := tk_end (readToken F current) \<rparr>)
      else array_loop rv F n [] s)"

text \<open>The name that a token gives a member, if it can be one.\<close>

definition member_name :: "json_env \<Rightarrow> json_features \<Rightarrow> json_token \<Rightarrow> (error_info + string) option" where
  "member_name E F t =
     (if tk_type t = TokenString then Some (decodeString t)
      else if tk_type t = TokenNumber \<and> rf_allowNumericKeys F then
        Some (bindE (decodeNumber E t) (\<lambda>p. case asString E (plain p) of Inr name \<Rightarrow> Inr name | Inl e \<Rightarrow> Inr []))
      else None)"

text \<open>The end of a round: the comma or the closing brace behind a member.\<close>

definition member_end :: "json_features \<Rightarrow> json_reader \<Rightarrow> json_token \<times> json_reader" where
  "member_end F s =
     (let comma = readToken F (jr_current s);
          comma = (if tk_type comma = TokenComment then skip_comments F (tk_end comma) else comma)
      in (comma, s\<lparr> jr_current := tk_end comma \<rparr>))"

definition after_member :: "json_features \<Rightarrow> (string \<times> json) list \<Rightarrow> string \<Rightarrow>
    ((string \<times> json) list \<Rightarrow> string \<Rightarrow> json_reader \<Rightarrow> (string \<times> json) list jr_result) \<Rightarrow>
    bool \<times> json \<times> json_reader \<Rightarrow> (string \<times> json) list jr_result" where
  "after_member F kvs name go_on = (\<lambda>(ok, x, s).
     let kvs = map_insert (c_str name) x kvs in
     if \<not> ok then Inr (False, kvs, recoverFromError F TokenObjectEnd s)
     else
       let first = readToken F (jr_current s) in
       if tk_type first \<noteq> TokenObjectEnd \<and> tk_type first \<noteq> TokenArraySeparator \<and> tk_type first \<noteq> TokenComment
       then Inr (False, kvs, addErrorAndRecover F ''Missing ',' or '}' in object declaration'' first
         TokenObjectEnd (s\<lparr> jr_current := tk_end first \<rparr>))
       else (case member_end F s of (comma, s) \<Rightarrow>
         if tk_type comma = TokenObjectEnd then Inr (True, kvs, s) else go_on kvs name s))"

text \<open>From the name of a member to its value: the colon, the length of the name and duplicate names.\<close>

definition before_value :: "json_features \<Rightarrow> (string \<times> json) list \<Rightarrow> json_token \<Rightarrow> string \<Rightarrow>
    (json \<Rightarrow> json_reader \<Rightarrow> (string \<times> json) list jr_result) \<Rightarrow> json_reader \<Rightarrow> (string \<times> json) list jr_result" where
  "before_value F kvs tokenName name go_on s =
     (let colon = readToken F (jr_current s); s = s\<lparr> jr_current := tk_end colon \<rparr> in
      if tk_type colon \<noteq> TokenMemberSeparator then
        Inr (False, kvs, addErrorAndRecover F ''Missing ':' after object member name'' colon TokenObjectEnd s)
      else if int (length name) \<ge> 2 ^ 30 then Inl (ParsingError ''keylength >= 2^30'')
      else if rf_rejectDupKeys F \<and> map_of kvs (c_str name) \<noteq> None then
        Inr (False, kvs, addErrorAndRecover F (''Duplicate key: '' @ [CHR 0x27] @ name @ [CHR 0x27])
          tokenName TokenObjectEnd s)
      else go_on (case map_of kvs (c_str name) of Some x \<Rightarrow> x | None \<Rightarrow> nullSingleton) s)"

fun object_loop :: "(json \<Rightarrow> json_reader \<Rightarrow> json jr_result) \<Rightarrow> json_env \<Rightarrow> json_features \<Rightarrow> nat \<Rightarrow>
    (string \<times> json) list \<Rightarrow> string \<Rightarrow> json_reader \<Rightarrow> (string \<times> json) list jr_result" where
  "object_loop rv E F 0 kvs name s = Inl FuelExhausted"
| "object_loop rv E F (Suc n) kvs name s =
     (let tokenName = skip_comments F (jr_current s); s = s\<lparr> jr_current := tk_end tokenName \<rparr> in
      if tk_type tokenName = TokenObjectEnd \<and> name = [] then Inr (True, kvs, s)
      else case member_name E F tokenName of
        None \<Rightarrow> Inr (False, kvs,
          addErrorAndRecover F ''Missing '}' or object member name'' tokenName TokenObjectEnd s)
      | Some (Inl e) \<Rightarrow> Inr (False, kvs, recoverFromError F TokenObjectEnd (keepError e s))
      | Some (Inr name) \<Rightarrow> before_value F kvs tokenName name (\<lambda>v s. bindE (rv v s)
          (after_member F kvs name (\<lambda>kvs name s. object_loop rv E F n kvs name s))) s)"

text \<open>The branches of \<open>readValue\<close> for a token that is a value of its own.\<close>

definition constant_value :: "token_type \<Rightarrow> json json_payload option" where
  "constant_value ty =
     (if ty = TokenTrue then Some (BoolP True) else if ty = TokenFalse then Some (BoolP False)
      else if ty = TokenNull then Some NullP else if ty = TokenNaN then Some (RealP NotANumber)
      else if ty = TokenPosInf then Some (RealP PosInf) else if ty = TokenNegInf then Some (RealP NegInf)
      else None)"

definition syntax_error :: "json_token \<Rightarrow> json_reader \<Rightarrow> json_reader" where
  "syntax_error t s = addError ''Syntax error: value, object or array expected.'' t s"

definition set_decoded :: "(json json_payload \<Rightarrow> json) \<Rightarrow> json \<Rightarrow> error_info + json json_payload \<Rightarrow> json_reader \<Rightarrow> json jr_result"
where
  "set_decoded f v r s = (case r of Inl e \<Rightarrow> Inr (False, v, keepError e s) | Inr p \<Rightarrow> Inr (True, f p, s))"

text \<open>
  A dropped null moves \<open>_current\<close> back by one octet, which is to the start of the token of one octet
  that was found in place of a value. \<open>n\<close> bounds the nesting and the rounds of each loop.
\<close>

fun readValue :: "json_env \<Rightarrow> json_features \<Rightarrow> nat \<Rightarrow> nat \<Rightarrow> json \<Rightarrow> json_reader \<Rightarrow> json jr_result" where
  "readValue E F 0 depth v s = Inl FuelExhausted"
| "readValue E F (Suc n) depth v s =
     (if int depth > rf_stackLimit F then Inl (ParsingError ''Exceeded stackLimit in readValue().'')
      else
        let t = skipCommentTokens F (jr_current s); s = s\<lparr> jr_current := tk_end t \<rparr>; ty = tk_type t in
        if ty = TokenObjectBegin then
          bindE (object_loop (readValue E F n (depth + 1)) E F n [] [] s) (\<lambda>(ok, kvs, s).
            Inr (ok, setPayload (ObjectP kvs) v, s))
        else if ty = TokenArrayBegin then
          bindE (readArray (readValue E F n (depth + 1)) F n s) (\<lambda>(ok, xs, s).
            Inr (ok, setPayload (ArrayP xs) v, s))
        else if ty = TokenNumber then set_decoded (\<lambda>p. setPayload p v) v (decodeNumber E t) s
        else if ty = TokenString then
          set_decoded (\<lambda>p. setPayload p v) v (bindE (decodeString t) (\<lambda>text. Inr (StringP text))) s
        else (case constant_value ty of
          Some p \<Rightarrow> Inr (True, setPayload p v, s)
        | None \<Rightarrow>
            if ty \<in> {TokenArraySeparator, TokenObjectEnd, TokenArrayEnd} \<and> rf_allowDroppedNullPlaceholders F then
              Inr (True, setPayload NullP v, s\<lparr> jr_current := tk_start t \<rparr>)
            else Inr (False, v, syntax_error t s)))"

text \<open>\<open>parse\<close>: the value that \<open>root\<close> refers to is passed in and returned.\<close>

definition after_root :: "json_features \<Rightarrow> string \<Rightarrow> bool \<times> json \<times> json_reader \<Rightarrow> json jr_result" where
  "after_root F doc = (\<lambda>(successful, v, s).
     let t = skipCommentTokens F (jr_current s); s = s\<lparr> jr_current := tk_end t \<rparr> in
     if rf_failIfExtra F \<and> (rf_strictRoot F \<or> tk_type t \<noteq> TokenError) \<and> tk_type t \<noteq> TokenEndOfStream then
       Inr (False, v, addError ''Extra non-whitespace after json value.'' t s)
     else if rf_strictRoot F \<and> \<not> isArray v \<and> \<not> isObject v then
       Inr (False, v, addError ''A valid json document must be either an array or an object value.''
         \<lparr> tk_type = TokenError, tk_start = doc, tk_end = [] \<rparr> s)
     else Inr (successful, v, s))"

definition collects :: "bool \<Rightarrow> json_features \<Rightarrow> bool" where
  "collects collectComments F \<longleftrightarrow> collectComments \<and> \<not> rf_allowComments F"

definition json_parse :: "json_env \<Rightarrow> json_features \<Rightarrow> bool \<Rightarrow> string \<Rightarrow> json \<Rightarrow> json jr_result" where
  "json_parse E F collectComments doc v =
     (if collects collectComments F \<and> CHR ''/'' \<in> set doc then Inl CommentCollected else
     bindE (readValue E F (length doc + 1) 1 v \<lparr> jr_current = doc, jr_errors = [] \<rparr>) (after_root F doc))"

section \<open>Messages\<close>

text \<open>
  The line and column of a place that is \<open>k\<close> octets ahead: \<open>line\<close> lines have ended, the last of them
  \<open>col\<close> octets before that place. A carriage return at the very end is taken to stand alone.
\<close>

function line_column :: "int \<Rightarrow> int \<Rightarrow> int \<Rightarrow> string \<Rightarrow> int \<times> int" where
  "line_column k line col cs =
     (if k \<le> 0 \<or> cs = [] then (line + 1, col + 1)
      else if hd cs = CHR 0x0D then
        (if tl cs \<noteq> [] \<and> hd (tl cs) = CHR 0x0A then line_column (k - 2) (line + 1) (k - 2) (tl (tl cs))
         else line_column (k - 1) (line + 1) (k - 1) (tl cs))
      else if hd cs = CHR 0x0A then line_column (k - 1) (line + 1) (k - 1) (tl cs)
      else line_column (k - 1) line col (tl cs))"
  by pat_completeness auto
termination
  by (relation "measure (\<lambda>(k, l, c, cs). length cs)") auto

declare line_column.simps [simp del]

definition getLocationLineAndColumn :: "string \<Rightarrow> string \<Rightarrow> string" where
  "getLocationLineAndColumn doc location =
     (let k = int (length doc) - int (length location) in
      case line_column k 0 k doc of (line, column) \<Rightarrow>
        ''Line '' @ int_string line @ '', Column '' @ int_string column)"

definition formatted_error :: "string \<Rightarrow> error_info \<Rightarrow> string" where
  "formatted_error doc e =
     ''* '' @ getLocationLineAndColumn doc (tk_start (ei_token e)) @ [CHR 0x0A]
     @ ''  '' @ ei_message e @ [CHR 0x0A]
     @ (case ei_extra e of None \<Rightarrow> [] | Some extra \<Rightarrow>
          ''See '' @ getLocationLineAndColumn doc extra @ '' for detail.'' @ [CHR 0x0A])"

definition getFormattedErrorMessages :: "string \<Rightarrow> json_reader \<Rightarrow> string" where
  "getFormattedErrorMessages doc s = concat (map (formatted_error doc) (jr_errors s))"

definition getStructuredErrors :: "string \<Rightarrow> json_reader \<Rightarrow> (int \<times> int \<times> string) list" where
  "getStructuredErrors doc s = map (\<lambda>e.
     (int (length doc) - int (length (tk_start (ei_token e))),
      int (length doc) - int (length (tk_end (ei_token e))), ei_message e)) (jr_errors s)"

section \<open>The builder\<close>

definition reader_setDefaults :: "json \<Rightarrow> json_exn + json" where
  "reader_setDefaults settings = assign_all
     [(''collectComments'', BoolP True), (''allowComments'', BoolP True), (''strictRoot'', BoolP False),
      (''allowDroppedNullPlaceholders'', BoolP False), (''allowNumericKeys'', BoolP False),
      (''allowSingleQuotes'', BoolP False), (''stackLimit'', IntP 1000), (''failIfExtra'', BoolP False),
      (''rejectDupKeys'', BoolP False), (''allowSpecialFloats'', BoolP False)] settings"

definition strictMode :: "json \<Rightarrow> json_exn + json" where
  "strictMode settings = assign_all
     [(''allowComments'', BoolP False), (''strictRoot'', BoolP True),
      (''allowDroppedNullPlaceholders'', BoolP False), (''allowNumericKeys'', BoolP False),
      (''allowSingleQuotes'', BoolP False), (''stackLimit'', IntP 1000), (''failIfExtra'', BoolP True),
      (''rejectDupKeys'', BoolP True), (''allowSpecialFloats'', BoolP False)] settings"

definition newCharReader :: "json \<Rightarrow> json_exn + bool \<times> json_features" where
  "newCharReader settings =
     bindE (setting asBool ''collectComments'' settings) (\<lambda>collectComments.
     bindE (setting asBool ''allowComments'' settings) (\<lambda>allowComments.
     bindE (setting asBool ''strictRoot'' settings) (\<lambda>strictRoot.
     bindE (setting asBool ''allowDroppedNullPlaceholders'' settings) (\<lambda>dropped.
     bindE (setting asBool ''allowNumericKeys'' settings) (\<lambda>numericKeys.
     bindE (setting asBool ''allowSingleQuotes'' settings) (\<lambda>singleQuotes.
     bindE (setting asInt ''stackLimit'' settings) (\<lambda>stackLimit.
     bindE (setting asBool ''failIfExtra'' settings) (\<lambda>failIfExtra.
     bindE (setting asBool ''rejectDupKeys'' settings) (\<lambda>rejectDupKeys.
     bindE (setting asBool ''allowSpecialFloats'' settings) (\<lambda>specialFloats.
       Inr (collectComments,
         \<lparr> rf_allowComments = allowComments, rf_strictRoot = strictRoot,
           rf_allowDroppedNullPlaceholders = dropped, rf_allowNumericKeys = numericKeys,
           rf_allowSingleQuotes = singleQuotes, rf_failIfExtra = failIfExtra, rf_rejectDupKeys = rejectDupKeys,
           rf_allowSpecialFloats = specialFloats, rf_stackLimit = sint stackLimit \<rparr>)))))))))))"

definition validReaderKeys :: "string list" where
  "validReaderKeys = [''collectComments'', ''allowComments'', ''strictRoot'', ''allowDroppedNullPlaceholders'',
     ''allowNumericKeys'', ''allowSingleQuotes'', ''stackLimit'', ''failIfExtra'', ''rejectDupKeys'',
     ''allowSpecialFloats'']"

definition reader_validate :: "json \<Rightarrow> json \<Rightarrow> json_exn + bool \<times> json" where
  "reader_validate = validate_settings validReaderKeys"

text \<open>\<open>parseFromStream\<close> of a stream that holds \<open>doc\<close>: the result, the value and the messages.\<close>

definition parseFromStream :: "json_env \<Rightarrow> json \<Rightarrow> string \<Rightarrow> json \<Rightarrow> json_exn + bool \<times> json \<times> string" where
  "parseFromStream E settings doc v = bindE (newCharReader settings) (\<lambda>(collectComments, F).
     bindE (json_parse E F collectComments doc v) (\<lambda>(ok, v, s). Inr (ok, v, getFormattedErrorMessages doc s)))"

text \<open>\<open>operator>>\<close>.\<close>

definition json_get :: "json_env \<Rightarrow> string \<Rightarrow> json \<Rightarrow> json_exn + json" where
  "json_get E doc v = bindE (reader_setDefaults nullSingleton) (\<lambda>settings.
     bindE (parseFromStream E settings doc v) (\<lambda>(ok, v, errs).
       if ok then Inr v else Inl (ParsingError errs)))"

end
