(* ===== verification/Json_Text.thy ===== *)
theory Json_Text
  imports Json_Reader
begin

text \<open>
  A grammar of JSON texts, with the value that each text stands for, and the theorem that the reader of
  \<open>common/configuration/json\<close> reads every text of the grammar as that value. It is the grammar of RFC 8259
  with a few differences: leading zeros and bare control characters are admitted; names of members are
  distinct, without NUL and shorter than \<open>2^30\<close> octets; the integer \<open>-2^63\<close> is left out; and an escape
  of half a surrogate pair is.
\<close>

section \<open>The grammar\<close>

definition blank :: "string \<Rightarrow> bool" where
  "blank w \<longleftrightarrow> list_all is_json_space w"

definition hex4 :: "string \<Rightarrow> nat \<Rightarrow> bool" where
  "hex4 h u \<longleftrightarrow> (\<exists>a b c d. map hex_value h = [Some a, Some b, Some c, Some d] \<and>
     u = a * 4096 + b * 256 + c * 16 + d)"

definition escapes :: "(char \<times> char) list" where
  "escapes = [(CHR 0x22, CHR 0x22), (CHR 0x5C, CHR 0x5C), (CHR ''/'', CHR ''/''), (CHR ''b'', CHR 0x08),
     (CHR ''f'', CHR 0x0C), (CHR ''n'', CHR 0x0A), (CHR ''r'', CHR 0x0D), (CHR ''t'', CHR 0x09)]"

text \<open>The characters between the quotes, and the octets of the string.\<close>

inductive string_text :: "string \<Rightarrow> string \<Rightarrow> bool" where
  string_end: "string_text [] []"
| string_char: "c \<noteq> CHR 0x22 \<Longrightarrow> c \<noteq> CHR 0x5C \<Longrightarrow> string_text s t \<Longrightarrow> string_text (c # s) (c # t)"
| string_escape: "(e, c) \<in> set escapes \<Longrightarrow> string_text s t \<Longrightarrow> string_text (c # s) (CHR 0x5C # e # t)"
| string_unicode: "hex4 h u \<Longrightarrow> u < 0xD800 \<or> 0xDFFF < u \<Longrightarrow> string_text s t \<Longrightarrow>
    string_text (codePointToUTF8 u @ s) (CHR 0x5C # CHR ''u'' # h @ t)"
| string_pair: "hex4 h u \<Longrightarrow> 0xD800 \<le> u \<Longrightarrow> u \<le> 0xDBFF \<Longrightarrow> hex4 h' u' \<Longrightarrow> 0xDC00 \<le> u' \<Longrightarrow> u' \<le> 0xDFFF \<Longrightarrow>
    string_text s t \<Longrightarrow>
    string_text (codePointToUTF8 (0x10000 + (u - 0xD800) * 1024 + (u' - 0xDC00)) @ s)
      (CHR 0x5C # CHR ''u'' # h @ CHR 0x5C # CHR ''u'' # h' @ t)"

definition quoted :: "string \<Rightarrow> string" where
  "quoted t = CHR 0x22 # t @ [CHR 0x22]"

definition digits :: "string \<Rightarrow> bool" where
  "digits ds \<longleftrightarrow> ds \<noteq> [] \<and> list_all is_digit ds"

definition integer_text :: "int \<Rightarrow> string \<Rightarrow> bool" where
  "integer_text n t \<longleftrightarrow>
     (digits t \<and> n = int (parse_decimal t)) \<or>
     (\<exists>ds. t = CHR ''-'' # ds \<and> digits ds \<and> n = - int (parse_decimal ds))"

definition fraction_text :: "string \<Rightarrow> bool" where
  "fraction_text t \<longleftrightarrow> t = [] \<or> (\<exists>ds. t = CHR ''.'' # ds \<and> digits ds)"

definition exponent_text :: "string \<Rightarrow> bool" where
  "exponent_text t \<longleftrightarrow> t = [] \<or> (\<exists>e sign ds. t = e # sign @ ds \<and> e \<in> {CHR ''e'', CHR ''E''} \<and>
     sign \<in> {[], ''+'', ''-''} \<and> digits ds)"

definition number_text :: "string \<Rightarrow> bool" where
  "number_text t \<longleftrightarrow> (\<exists>sign ds fr ex. t = sign @ ds @ fr @ ex \<and> sign \<in> {[], ''-''} \<and> digits ds \<and>
     fraction_text fr \<and> exponent_text ex)"

text \<open>What \<open>sscanf\<close> makes of the text of a number, with the decimal point of the locale put in.\<close>

definition scanned :: "json_env \<Rightarrow> string \<Rightarrow> json_double option" where
  "scanned E t = je_scan E (if length t \<le> 32 then fixNumericLocaleInput E t else t)"

definition object_of :: "(string \<times> json) list \<Rightarrow> (string \<times> json) list" where
  "object_of kvs = foldl (\<lambda>m (k, x). map_insert k x m) [] kvs"

definition key_ok :: "string \<Rightarrow> bool" where
  "key_ok k \<longleftrightarrow> CHR 0x00 \<notin> set k \<and> int (length k) < 2 ^ 30"

text \<open>
  \<open>json_text E d v t\<close>: the text \<open>t\<close>, nested at most \<open>d\<close> deep, stands for \<open>v\<close>. Integers of 64 bits stand
  for themselves, other numbers for what the platform scans. \<open>- 2 ^ 63\<close> is left out.
\<close>

inductive json_text :: "json_env \<Rightarrow> nat \<Rightarrow> json \<Rightarrow> string \<Rightarrow> bool"
  and elements_text :: "json_env \<Rightarrow> nat \<Rightarrow> json list \<Rightarrow> string \<Rightarrow> bool"
  and members_text :: "json_env \<Rightarrow> nat \<Rightarrow> (string \<times> json) list \<Rightarrow> string \<Rightarrow> bool"
  for E :: json_env
where
  text_null: "json_text E (Suc d) (plain NullP) ''null''"
| text_true: "json_text E (Suc d) (plain (BoolP True)) ''true''"
| text_false: "json_text E (Suc d) (plain (BoolP False)) ''false''"
| text_int: "integer_text n t \<Longrightarrow> - (2 ^ 63) < n \<Longrightarrow> n < 2 ^ 63 \<Longrightarrow> json_text E (Suc d) (plain (IntP (word_of_int n))) t"
| text_uint: "integer_text n t \<Longrightarrow> 2 ^ 63 \<le> n \<Longrightarrow> n < 2 ^ 64 \<Longrightarrow> json_text E (Suc d) (plain (UIntP (word_of_int n))) t"
| text_real: "number_text t \<Longrightarrow> (\<And>n. integer_text n t \<Longrightarrow> n < - (2 ^ 63) \<or> 2 ^ 64 \<le> n) \<Longrightarrow> scanned E t = Some x \<Longrightarrow>
    json_text E (Suc d) (plain (RealP x)) t"
| text_string: "string_text s t \<Longrightarrow> json_text E (Suc d) (plain (StringP s)) (quoted t)"
| text_empty_array: "blank w \<Longrightarrow> json_text E (Suc d) (plain (ArrayP [])) (''['' @ w @ '']'')"
| text_empty_object: "blank w \<Longrightarrow> json_text E (Suc d) (plain (ObjectP [])) (''{'' @ w @ ''}'')"
| text_array: "elements_text E d xs t \<Longrightarrow> json_text E (Suc d) (plain (ArrayP xs)) (''['' @ t @ '']'')"
| text_object: "members_text E d kvs t \<Longrightarrow> distinct (map fst kvs) \<Longrightarrow>
    json_text E (Suc d) (plain (ObjectP (object_of kvs))) (''{'' @ t @ ''}'')"
| last_element: "json_text E d x t \<Longrightarrow> blank w \<Longrightarrow> blank w' \<Longrightarrow> elements_text E d [x] (w @ t @ w')"
| more_elements: "json_text E d x t \<Longrightarrow> blank w \<Longrightarrow> blank w' \<Longrightarrow> elements_text E d xs u \<Longrightarrow>
    elements_text E d (x # xs) (w @ t @ w' @ '','' @ u)"
| last_member: "string_text k s \<Longrightarrow> key_ok k \<Longrightarrow> json_text E d x t \<Longrightarrow> blank w \<Longrightarrow> blank w1 \<Longrightarrow> blank w2 \<Longrightarrow> blank w3 \<Longrightarrow>
    members_text E d [(k, x)] (w @ quoted s @ w1 @ '':'' @ w2 @ t @ w3)"
| more_members: "string_text k s \<Longrightarrow> key_ok k \<Longrightarrow> json_text E d x t \<Longrightarrow> blank w \<Longrightarrow> blank w1 \<Longrightarrow> blank w2 \<Longrightarrow> blank w3 \<Longrightarrow>
    members_text E d kvs u \<Longrightarrow>
    members_text E d ((k, x) # kvs) (w @ quoted s @ w1 @ '':'' @ w2 @ t @ w3 @ '','' @ u)"

section \<open>Tokens of the grammar\<close>

lemma blank_simps [simp]:
  "blank []" "blank (c # w) \<longleftrightarrow> is_json_space c \<and> blank w" "blank (v @ w) \<longleftrightarrow> blank v \<and> blank w"
  by (auto simp: blank_def)

lemma skip_blank: "blank w \<Longrightarrow> skipSpaces (w @ cs) = skipSpaces cs"
  by (induction w) (simp_all add: skipSpaces_def)

lemma readToken_blank: "blank w \<Longrightarrow> readToken F (w @ cs) = readToken F cs"
  by (simp add: readToken_def skip_blank)

lemma skip_comments_blank: "blank w \<Longrightarrow> skip_comments F (w @ cs) = skip_comments F cs"
  by (subst (1 2) skip_comments.simps) (simp add: readToken_blank)

lemma skipCommentTokens_blank: "blank w \<Longrightarrow> skipCommentTokens F (w @ cs) = skipCommentTokens F cs"
  by (simp add: skipCommentTokens_def readToken_blank skip_comments_blank)

lemmas blanks = skip_blank readToken_blank skip_comments_blank skipCommentTokens_blank

lemma skip_spaces_token: "readToken F (skipSpaces cs) = readToken F cs"
  by (simp add: readToken_def skipSpaces_def)

lemma no_comment:
  assumes "readToken F cs = t" "tk_type t \<noteq> TokenComment"
  shows "skip_comments F cs = t" "skipCommentTokens F cs = t"
  using assms by (simp_all add: skip_comments.simps skipCommentTokens_def)

lemma punctuation:
  "readToken F (CHR ''{'' # r) = \<lparr> tk_type = TokenObjectBegin, tk_start = CHR ''{'' # r, tk_end = r \<rparr>"
  "readToken F (CHR ''}'' # r) = \<lparr> tk_type = TokenObjectEnd, tk_start = CHR ''}'' # r, tk_end = r \<rparr>"
  "readToken F (CHR ''['' # r) = \<lparr> tk_type = TokenArrayBegin, tk_start = CHR ''['' # r, tk_end = r \<rparr>"
  "readToken F (CHR '']'' # r) = \<lparr> tk_type = TokenArrayEnd, tk_start = CHR '']'' # r, tk_end = r \<rparr>"
  "readToken F (CHR '','' # r) = \<lparr> tk_type = TokenArraySeparator, tk_start = CHR '','' # r, tk_end = r \<rparr>"
  "readToken F (CHR '':'' # r) = \<lparr> tk_type = TokenMemberSeparator, tk_start = CHR '':'' # r, tk_end = r \<rparr>"
  by (simp_all add: readToken_def skipSpaces_def is_json_space_def token_body_def is_digit_def)

lemma literals:
  "readToken F (''null'' @ r) = \<lparr> tk_type = TokenNull, tk_start = ''null'' @ r, tk_end = r \<rparr>"
  "readToken F (''true'' @ r) = \<lparr> tk_type = TokenTrue, tk_start = ''true'' @ r, tk_end = r \<rparr>"
  "readToken F (''false'' @ r) = \<lparr> tk_type = TokenFalse, tk_start = ''false'' @ r, tk_end = r \<rparr>"
  by (simp_all add: readToken_def skipSpaces_def is_json_space_def token_body_def is_digit_def json_match_def)

subsection \<open>Strings\<close>

lemma hex_no_quote: "hex_value c = Some d \<Longrightarrow> c \<noteq> CHR 0x22 \<and> c \<noteq> CHR 0x5C"
  by (auto simp: hex_value_def)

lemma read_hex_step:
  "read_hex (numeral k) result (c # cs) = (case hex_value c of
     Some d \<Rightarrow> read_hex (pred_numeral k) (result * 16 + d) cs | None \<Rightarrow> Inl cs)"
  by (simp add: numeral_eq_Suc)

lemma hex4D:
  assumes "hex4 h u"
  shows "length h = 4" "list_all (\<lambda>c. c \<noteq> CHR 0x22 \<and> c \<noteq> CHR 0x5C) h" "read_hex 4 0 (h @ r) = Inr (u, r)"
proof -
  obtain a b c d where m: "map hex_value h = [Some a, Some b, Some c, Some d]"
    and u: "u = a * 4096 + b * 256 + c * 16 + d" using assms by (auto simp: hex4_def)
  have "length (map hex_value h) = 4" by (simp only: m) simp
  then obtain w x y z where h: "h = [w, x, y, z]"
    by (auto simp: numeral_eq_Suc length_Suc_conv)
  then have v: "hex_value w = Some a" "hex_value x = Some b" "hex_value y = Some c" "hex_value z = Some d"
    using m by simp_all
  show "length h = 4" by (simp add: h)
  show "list_all (\<lambda>c. c \<noteq> CHR 0x22 \<and> c \<noteq> CHR 0x5C) h"
    using v hex_no_quote by (simp add: h)
  show "read_hex 4 0 (h @ r) = Inr (u, r)"
    by (simp add: h v u read_hex_step)
qed

lemma escapesD:
  assumes "(e, c) \<in> set escapes"
  shows "decode_escape e = Some c"
  using assms by (auto simp: escapes_def decode_escape_def)

lemma readString_plain: "list_all (\<lambda>c. c \<noteq> q \<and> c \<noteq> CHR 0x5C) w \<Longrightarrow> readString q (w @ r) = readString q r"
  by (induction w) auto

lemma readString_text: "string_text s t \<Longrightarrow> readString (CHR 0x22) (t @ CHR 0x22 # r) = (True, r)"
  by (induction rule: string_text.induct) (simp_all add: readString_plain hex4D(2))

lemma sequence_hex4: "hex4 h u \<Longrightarrow> decodeUnicodeEscapeSequence tk tail (h @ t) = Inr (u, t)"
  by (simp add: decodeUnicodeEscapeSequence_def hex4D)

lemma pair_code_point:
  assumes "(0xD800 :: nat) \<le> u" "u \<le> 0xDBFF" "0xDC00 \<le> u'" "u' \<le> (0xDFFF :: nat)"
  shows "u mod 1024 = u - 0xD800" "u' mod 1024 = u' - 0xDC00"
proof -
  obtain k k' where k: "u = 0xD800 + k" "u' = 0xDC00 + k'"
    using le_Suc_ex [OF assms(1)] le_Suc_ex [OF assms(3)] by blast
  have "(k + 54 * 1024) mod 1024 = k" "(k' + 55 * 1024) mod 1024 = k'"
    using assms k by (subst mod_mult_self1, simp)+
  then show "u mod 1024 = u - 0xD800" "u' mod 1024 = u' - 0xDC00"
    by (simp_all add: k add.commute)
qed

lemma decode_text:
  "string_text s t \<Longrightarrow> decode_chars tk tail decoded t = Inr (decoded @ s)"
proof (induction arbitrary: decoded rule: string_text.induct)
  case (string_escape e c s t)
  then show ?case using escapesD [of e c] by simp
next
  case (string_unicode h u s t)
  then have "decodeUnicodeCodePoint tk tail (h @ t) = Inr (u, t)"
    by (auto simp: decodeUnicodeCodePoint_def sequence_hex4)
  then show ?case using string_unicode by (simp add: decode_escape_def)
next
  case (string_pair h u h' u' s t)
  have "length h' = 4" using hex4D(1) [OF string_pair.hyps(4)] .
  then have "decodeUnicodeCodePoint tk tail (h @ CHR 0x5C # CHR ''u'' # h' @ t)
      = Inr (0x10000 + (u - 0xD800) * 1024 + (u' - 0xDC00), t)"
    using string_pair.hyps pair_code_point [of u u']
    by (simp add: decodeUnicodeCodePoint_def sequence_hex4)
  then show ?case using string_pair by (simp add: decode_escape_def)
qed simp_all

lemma quoted_token:
  assumes "string_text s t"
  shows "readToken F (quoted t @ r) = \<lparr> tk_type = TokenString, tk_start = quoted t @ r, tk_end = r \<rparr>"
    and "decodeString \<lparr> tk_type = TokenString, tk_start = quoted t @ r, tk_end = r \<rparr> = Inr s"
  using readString_text [OF assms, of r] decode_text [OF assms]
  by (simp_all add: quoted_def readToken_def skipSpaces_def is_json_space_def token_body_def decodeString_def)

subsection \<open>Numbers\<close>

text \<open>What may stand behind a number: nothing, a blank, a comma or a closing bracket.\<close>

definition delimited :: "string \<Rightarrow> bool" where
  "delimited r \<longleftrightarrow> r = [] \<or> is_json_space (hd r) \<or> hd r \<in> {CHR '','', CHR '']'', CHR ''}''}"

lemma delimited_stops:
  assumes "delimited r"
  shows "skip_digits r = r" "skip_fraction r = r" "skip_exponent r = r"
  using assms by (cases r; auto simp: delimited_def skip_digits_def skip_fraction_def skip_exponent_def
      is_json_space_def is_digit_def)+

lemma skip_digits_append: "list_all is_digit ds \<Longrightarrow> skip_digits (ds @ r) = skip_digits r"
  by (induction ds) (simp_all add: skip_digits_def)

lemma skip_fraction_text:
  assumes "fraction_text fr" "r = [] \<or> hd r \<noteq> CHR ''.''" "skip_digits r = r"
  shows "skip_fraction (fr @ r) = r"
  using assms skip_digits_append [of _ r] by (auto simp: fraction_text_def skip_fraction_def digits_def)

lemma skip_exponent_text:
  assumes "exponent_text ex" "delimited r"
  shows "skip_exponent (ex @ r) = r"
proof (cases "ex = []")
  case False
  then obtain e sign ds where ex: "ex = e # sign @ ds" "e \<in> {CHR ''e'', CHR ''E''}" "sign \<in> {[], ''+'', ''-''}" "digits ds"
    using assms(1) by (auto simp: exponent_text_def)
  obtain d ds' where d: "ds = d # ds'" "is_digit d" using ex(4) by (cases ds) (auto simp: digits_def)
  then have "d \<noteq> CHR ''+''" "d \<noteq> CHR ''-''" by (auto simp: is_digit_def)
  then show ?thesis
    using ex d skip_digits_append [of ds r] delimited_stops [OF assms(2)]
    by (auto simp: skip_exponent_def digits_def)
qed (simp add: delimited_stops [OF assms(2)])

lemma number_end:
  assumes "digits ds" "fraction_text fr" "exponent_text ex" "delimited r"
  shows "skip_exponent (skip_fraction (skip_digits (ds @ fr @ ex @ r))) = r"
proof -
  have a: "skip_digits (ex @ r) = ex @ r \<and> (ex @ r = [] \<or> hd (ex @ r) \<noteq> CHR ''.'')"
    using assms(3) delimited_stops [OF assms(4)] assms(4)
    by (auto simp: exponent_text_def skip_digits_def is_digit_def delimited_def is_json_space_def)
  then have "skip_digits (fr @ ex @ r) = fr @ ex @ r"
    using assms(2) by (auto simp: fraction_text_def skip_digits_def is_digit_def)
  then show ?thesis
    using assms a skip_digits_append [of ds] skip_fraction_text [of fr "ex @ r"] skip_exponent_text [of ex r]
    by (simp add: digits_def)
qed

lemma number_token:
  assumes "number_text t" "delimited r"
  shows "readToken F (t @ r) = \<lparr> tk_type = TokenNumber, tk_start = t @ r, tk_end = r \<rparr>"
proof -
  obtain sign ds fr ex where t: "t = sign @ ds @ fr @ ex" "sign \<in> {[], ''-''}" "digits ds"
    "fraction_text fr" "exponent_text ex" using assms(1) by (auto simp: number_text_def)
  have e: "skip_exponent (skip_fraction (skip_digits (ds @ fr @ ex @ r))) = r"
    using number_end t assms(2) by blast
  obtain d ds' where d: "ds = d # ds'" "is_digit d" using t(3) by (cases ds) (auto simp: digits_def)
  have s: "\<not> is_json_space d" "d \<noteq> CHR ''I''" and n: "d \<notin> {CHR ''{'', CHR ''}'', CHR ''['', CHR '']'', CHR 0x22, CHR 0x27, CHR ''/''}"
    using d(2) by (auto simp: is_digit_def is_json_space_def)
  have dd: "skip_digits (ds @ fr @ ex @ r) = skip_digits (ds' @ fr @ ex @ r)"
    by (simp add: d skip_digits_def)
  show ?thesis
  proof (cases "sign = []")
    case True
    then show ?thesis
      using t d s n e dd by (simp add: readToken_def skipSpaces_def token_body_def readNumber_def)
  next
    case False
    then show ?thesis
      using t d s e by (simp add: readToken_def skipSpaces_def token_body_def readNumber_def is_json_space_def is_digit_def)
  qed
qed

lemma digits_more: "a * 10 ^ length ds \<le> foldl (\<lambda>a c. a * 10 + digit_value c) a ds"
proof (induction ds arbitrary: a)
  case (Cons c ds)
  have "a * 10 ^ length (c # ds) \<le> (a * 10 + digit_value c) * 10 ^ length ds" by simp
  also have "\<dots> \<le> foldl (\<lambda>a c. a * 10 + digit_value c) a (c # ds)"
    using Cons.IH [of "a * 10 + digit_value c"] by simp
  finally show ?case .
qed simp

lemma digit_value_le: "is_digit c \<Longrightarrow> digit_value c \<le> 9"
  by (auto simp: is_digit_def digit_value_def)

text \<open>The loop over the digits is exact: it gives up just when the number is larger than the bound.\<close>

lemma decode_digits_exact:
  assumes "list_all is_digit ds" "10 \<le> M" "int a \<le> M"
  shows "decode_digits M (int a) ds =
    (let v = foldl (\<lambda>a c. a * 10 + digit_value c) a ds in if int v \<le> M then Some (int v) else None)"
  using assms
proof (induction ds arbitrary: a)
  case (Cons c ds)
  let ?T = "M div 10" and ?d = "digit_value c" and ?v = "foldl (\<lambda>a c. a * 10 + digit_value c) a (c # ds)"
  have d: "?d \<le> 9" using Cons.prems(1) digit_value_le by simp
  have T: "1 \<le> ?T" "M = ?T * 10 + M mod 10" "0 \<le> M mod 10" "M mod 10 \<le> 9" using Cons.prems(2) by simp_all
  have "int ((a * 10 + ?d) * 10 ^ length ds) \<le> int ?v"
    using digits_more [of "a * 10 + ?d" ds] by (simp only: of_nat_le_iff foldl_Cons)
  then have more: "int (a * 10 + ?d) * 10 ^ length ds \<le> int ?v" by simp
  show ?case
  proof (cases "int a \<ge> ?T \<and> (int a > ?T \<or> ds \<noteq> [] \<or> int ?d > M mod 10)")
    case True
    have "M < int ?v"
    proof (cases "ds = []")
      case True
      then have "int ?v = int a * 10 + int ?d" by simp
      then show ?thesis using \<open>int a \<ge> ?T \<and> _\<close> True T by linarith
    next
      case False
      then have "(10 :: int) \<le> 10 ^ length ds" by (cases ds) simp_all
      then have "int (a * 10 + ?d) * 10 \<le> int ?v"
        using more by (meson mult_left_mono of_nat_0_le_iff order_trans)
      moreover have "int (a * 10 + ?d) * 10 \<ge> int a * 100" by simp
      moreover have "int a * 100 \<ge> ?T * 100" using True by simp
      ultimately have "?T * 100 \<le> int ?v" by (meson order_trans)
      with T show ?thesis by linarith
    qed
    then show ?thesis using True Cons.prems(1) by (auto simp: Let_def)
  next
    case False
    then have "int (a * 10 + ?d) \<le> M" using d T by linarith
    then show ?thesis
      using False Cons.prems Cons.IH [of "a * 10 + ?d"] by (auto simp: Let_def)
  qed
qed simp

lemma decode_digits_other: "\<not> list_all is_digit cs \<Longrightarrow> decode_digits M n cs = None"
  by (induction cs arbitrary: n) (auto simp: Let_def)

lemma decode_integer:
  assumes "list_all is_digit ds" "10 \<le> M"
  shows "decode_digits M 0 ds = (if int (parse_decimal ds) \<le> M then Some (int (parse_decimal ds)) else None)"
  using decode_digits_exact [of ds M 0] assms by (simp add: parse_decimal_def Let_def)

lemma token_text_append: "token_text \<lparr> tk_type = ty, tk_start = t @ r, tk_end = r \<rparr> = t"
  by (simp add: token_text_def)

lemma digits_head: "digits ds \<Longrightarrow> ds \<noteq> [] \<and> hd ds \<noteq> CHR ''-'' \<and> list_all is_digit ds"
  by (cases ds) (auto simp: digits_def is_digit_def)

lemma decodeNumber_text:
  assumes "t \<noteq> []"
  shows "decodeNumber E \<lparr> tk_type = ty, tk_start = t @ r, tk_end = r \<rparr> =
    (case decode_digits (if hd t = CHR ''-'' then 2 ^ 63 else 2 ^ 64 - 1) 0 (if hd t = CHR ''-'' then tl t else t) of
       None \<Rightarrow> decodeDouble E \<lparr> tk_type = ty, tk_start = t @ r, tk_end = r \<rparr>
     | Some n \<Rightarrow> Inr (if hd t = CHR ''-'' then IntP (- word_of_int n)
         else if n \<le> 2 ^ 63 - 1 then IntP (word_of_int n) else UIntP (word_of_int n)))"
  using assms by (simp add: decodeNumber_def token_text_append Let_def)

definition integer_payload :: "int \<Rightarrow> json json_payload" where
  "integer_payload n = (if n < 2 ^ 63 then IntP (word_of_int n) else UIntP (word_of_int n))"

lemma decode_integer_text:
  assumes "integer_text n t" "- (2 ^ 63) < n" "n < 2 ^ 64"
  shows "decodeNumber E \<lparr> tk_type = ty, tk_start = t @ r, tk_end = r \<rparr> = Inr (integer_payload n)"
proof (cases "digits t")
  case True
  then have n: "n = int (parse_decimal t)"
    using assms(1) digits_head [of t] by (auto simp: integer_text_def)
  show ?thesis
    using assms digits_head [OF True] decode_integer [of t "2 ^ 64 - 1"] unfolding n
    by (auto simp: decodeNumber_text integer_payload_def simp del: of_int_of_nat_eq)
next
  case False
  then obtain ds where t: "t = CHR ''-'' # ds" "digits ds" and n: "n = - int (parse_decimal ds)"
    using assms(1) by (auto simp: integer_text_def)
  show ?thesis
    using assms digits_head [OF t(2)] decode_integer [of ds "2 ^ 63"] decodeNumber_text [of t E ty r] unfolding n t(1)
    by (simp add: integer_payload_def)
qed

lemma decode_real_text:
  assumes "number_text t" "\<And>n. integer_text n t \<Longrightarrow> n < - (2 ^ 63) \<or> 2 ^ 64 \<le> n" "scanned E t = Some x"
  shows "decodeNumber E \<lparr> tk_type = ty, tk_start = t @ r, tk_end = r \<rparr> = Inr (RealP x)"
proof -
  let ?M = "if hd t = CHR ''-'' then 2 ^ 63 else 2 ^ 64 - 1 :: int"
  let ?ds = "if hd t = CHR ''-'' then tl t else t"
  have d: "decodeDouble E \<lparr> tk_type = ty, tk_start = t @ r, tk_end = r \<rparr> = Inr (RealP x)"
    using assms(3) by (simp add: decodeDouble_def token_text_append scanned_def)
  obtain sign ds fr ex where t: "t = sign @ ds @ fr @ ex" "sign \<in> {[], ''-''}" "digits ds"
    using assms(1) by (auto simp: number_text_def)
  then have ne: "t \<noteq> []" "?ds \<noteq> []"
    using digits_head [OF t(3)] by auto
  have "decode_digits ?M 0 ?ds = None"
  proof (cases "list_all is_digit ?ds")
    case True
    define n where "n = (if hd t = CHR ''-'' then - int (parse_decimal ?ds) else int (parse_decimal ?ds))"
    have "integer_text n t"
      using True ne by (cases t) (auto simp: integer_text_def digits_def n_def)
    then have "?M < int (parse_decimal ?ds)"
      using assms(2) by (fastforce simp: n_def)
    then show ?thesis
      using decode_integer [OF True, of ?M] by simp
  qed (rule decode_digits_other)
  then show ?thesis
    using d ne by (simp add: decodeNumber_text)
qed

lemma integer_number: "integer_text n t \<Longrightarrow> number_text t"
  unfolding integer_text_def number_text_def fraction_text_def exponent_text_def
  by (metis append_Nil append_Nil2 append_Cons insertCI)

section \<open>Reading the grammar\<close>

definition reader_at :: "string \<Rightarrow> error_info list \<Rightarrow> json_reader" where
  "reader_at cs errs = \<lparr> jr_current = cs, jr_errors = errs \<rparr>"

lemma reader_at_simps [simp]:
  "jr_current (reader_at cs errs) = cs" "jr_errors (reader_at cs errs) = errs"
  "(reader_at cs errs)\<lparr> jr_current := cs' \<rparr> = reader_at cs' errs"
  by (simp_all add: reader_at_def)

lemma payload_simps [simp]:
  "payload (plain p) = p" "setPayload p (plain q) = plain p" "payload (setPayload p v) = p"
  "setPayload p nullSingleton = plain p"
  by (simp_all add: plain_def setPayload_def nullSingleton_def)

lemma text_plain: "json_text E d x t \<Longrightarrow> plain (payload x) = x"
  by (cases rule: json_text.cases) auto

lemma skipCommentTokens_skip: "skipCommentTokens F (skipSpaces cs) = skipCommentTokens F cs"
  by (simp add: skipCommentTokens_def skip_spaces_token skip_comments.simps)

lemma readValue_skip:
  "readValue E F n depth v (reader_at (skipSpaces cs) errs) = readValue E F n depth v (reader_at cs errs)"
  by (cases n) (simp_all only: readValue.simps reader_at_simps skipCommentTokens_skip)

lemma readValue_blank:
  "blank w \<Longrightarrow> readValue E F n depth v (reader_at (w @ cs) errs) = readValue E F n depth v (reader_at cs errs)"
  by (metis readValue_skip skip_blank)

lemma array_loop_skip:
  "array_loop (readValue E F n depth) F m xs (reader_at (skipSpaces cs) errs) =
   array_loop (readValue E F n depth) F m xs (reader_at cs errs)"
  by (cases m) (simp_all add: readValue_skip)

text \<open>The text of a value does not start with a blank or a closing bracket.\<close>

lemma number_head: "number_text t \<Longrightarrow> t \<noteq> [] \<and> \<not> is_json_space (hd t) \<and> hd t \<noteq> CHR '']''"
proof -
  assume "number_text t"
  then obtain sign ds rest where t: "t = sign @ ds @ rest" "sign \<in> {[], ''-''}" "digits ds"
    by (auto simp: number_text_def)
  then show ?thesis
    by (cases ds) (auto simp: digits_def is_digit_def is_json_space_def)
qed

lemma text_head: "json_text E d x t \<Longrightarrow> t \<noteq> [] \<and> \<not> is_json_space (hd t) \<and> hd t \<noteq> CHR '']''"
  by (cases rule: json_text.cases)
    (auto simp: quoted_def is_json_space_def dest!: integer_number number_head)

lemma skip_head: "t \<noteq> [] \<Longrightarrow> \<not> is_json_space (hd t) \<Longrightarrow> skipSpaces (t @ r) = t @ r"
  by (cases t) (simp_all add: skipSpaces_def)

lemma elements_head:
  assumes "elements_text E d xs t"
  shows "skipSpaces (t @ r) \<noteq> [] \<and> hd (skipSpaces (t @ r)) \<noteq> CHR '']''"
  using assms
proof (cases rule: elements_text.cases)
  case (last_element x u w w')
  then show ?thesis using text_head [of E d x u] skip_head [of u] by (simp add: skip_blank)
next
  case (more_elements x u w w' xs v)
  then show ?thesis using text_head [of E d x u] skip_head [of u] by (simp add: skip_blank)
qed

lemma delimited_blank:
  "blank w \<Longrightarrow> c \<in> {CHR '','', CHR '']'', CHR ''}''} \<Longrightarrow> delimited (w @ c # r)"
  by (cases w) (auto simp: delimited_def)

lemma after_element_text:
  assumes "blank w"
  shows "after_element F xs go_on (True, x, reader_at (w @ CHR '','' # u) errs) = go_on (xs @ [x]) (reader_at u errs)"
    and "after_element F xs go_on (True, x, reader_at (w @ CHR '']'' # u) errs) = Inr (True, xs @ [x], reader_at u errs)"
  using no_comment(1) [OF punctuation(5) [of F u]] no_comment(1) [OF punctuation(4) [of F u]]
  by (simp_all add: after_element_def Let_def skip_comments_blank [OF assms])

lemma after_member_text:
  assumes "blank w" "key_ok k"
  shows "after_member F kvs k go_on (True, x, reader_at (w @ CHR '','' # u) errs)
      = go_on (map_insert k x kvs) k (reader_at u errs)"
    and "after_member F kvs k go_on (True, x, reader_at (w @ CHR ''}'' # u) errs)
      = Inr (True, map_insert k x kvs, reader_at u errs)"
proof -
  have "c_str k = k"
    using assms(2) by (auto simp: c_str_def key_ok_def takeWhile_eq_all_conv)
  then show "after_member F kvs k go_on (True, x, reader_at (w @ CHR '','' # u) errs)
      = go_on (map_insert k x kvs) k (reader_at u errs)"
    "after_member F kvs k go_on (True, x, reader_at (w @ CHR ''}'' # u) errs)
      = Inr (True, map_insert k x kvs, reader_at u errs)"
    by (simp_all add: after_member_def member_end_def Let_def readToken_blank [OF assms(1)] punctuation)
qed

lemma member_text:
  assumes "string_text k s" "key_ok k" "map_of kvs k = None" "blank w" "blank w1"
  shows "object_loop rv E F (Suc m) kvs name (reader_at (w @ quoted s @ w1 @ CHR '':'' # u) errs) =
    bindE (rv nullSingleton (reader_at u errs))
      (after_member F kvs k (\<lambda>kvs name s. object_loop rv E F m kvs name s))"
proof -
  have "c_str k = k"
    using assms(2) by (auto simp: c_str_def key_ok_def takeWhile_eq_all_conv)
  then show ?thesis
    using no_comment(1) [OF quoted_token(1) [OF assms(1), of F "w1 @ CHR '':'' # u"]] quoted_token(2) [OF assms(1)]
      assms(2,3)
    by (simp add: Let_def skip_comments_blank [OF assms(4)] readToken_blank [OF assms(5)] member_name_def
        before_value_def punctuation key_ok_def del: bindE_def)
qed

text \<open>
  The three statements of the induction: a value is read up to its end, the elements of an array and
  the members of an object up to and including the closing bracket.
\<close>

definition value_read :: "json_env \<Rightarrow> json_features \<Rightarrow> nat \<Rightarrow> json \<Rightarrow> string \<Rightarrow> bool" where
  "value_read E F d x t \<longleftrightarrow> (\<forall>n depth v r errs.
     delimited r \<longrightarrow> length (t @ r) < n \<longrightarrow> int depth + int d \<le> rf_stackLimit F + 1 \<longrightarrow>
     readValue E F n depth v (reader_at (t @ r) errs) = Inr (True, setPayload (payload x) v, reader_at r errs))"

definition elements_read :: "json_env \<Rightarrow> json_features \<Rightarrow> nat \<Rightarrow> json list \<Rightarrow> string \<Rightarrow> bool" where
  "elements_read E F d xs t \<longleftrightarrow> (\<forall>n m depth ys r errs.
     length (t @ CHR '']'' # r) < n \<longrightarrow> length (t @ CHR '']'' # r) < m \<longrightarrow> int depth + int d \<le> rf_stackLimit F + 1 \<longrightarrow>
     array_loop (readValue E F n depth) F m ys (reader_at (t @ CHR '']'' # r) errs)
       = Inr (True, ys @ xs, reader_at r errs))"

definition members_read :: "json_env \<Rightarrow> json_features \<Rightarrow> nat \<Rightarrow> (string \<times> json) list \<Rightarrow> string \<Rightarrow> bool" where
  "members_read E F d kvs t \<longleftrightarrow> (\<forall>n m depth acc name r errs.
     length (t @ CHR ''}'' # r) < n \<longrightarrow> length (t @ CHR ''}'' # r) < m \<longrightarrow> int depth + int d \<le> rf_stackLimit F + 1 \<longrightarrow>
     distinct (map fst kvs) \<longrightarrow> (\<forall>k \<in> fst ` set kvs. map_of acc k = None) \<longrightarrow>
     object_loop (readValue E F n depth) E F m acc name (reader_at (t @ CHR ''}'' # r) errs)
       = Inr (True, foldl (\<lambda>m (k, x). map_insert k x m) acc kvs, reader_at r errs))"

lemma leaf_read:
  assumes "\<And>r. delimited r \<Longrightarrow> readToken F (t @ r) = tok r" "\<And>r. tk_end (tok r) = r" "\<And>r. tk_type (tok r) = ty"
    and "constant_value ty = Some p \<or> (ty = TokenNumber \<and> (\<forall>r. decodeNumber E (tok r) = Inr p)) \<or>
      (ty = TokenString \<and> (\<forall>r. decodeString (tok r) = Inr s) \<and> p = StringP s)"
  shows "value_read E F (Suc d) (plain p) t"
  unfolding value_read_def
proof (intro allI impI)
  fix n depth v r errs
  assume r: "delimited r" "length (t @ r) < n" "int depth + int (Suc d) \<le> rf_stackLimit F + 1"
  obtain n' where n: "n = Suc n'" using r(2) by (cases n) auto
  have ty: "ty \<noteq> TokenComment" using assms(4) by (auto simp: constant_value_def)
  have tok: "skipCommentTokens F (t @ r) = tok r"
    using no_comment(2) [OF assms(1) [OF r(1)]] ty by (simp add: assms(3))
  show "readValue E F n depth v (reader_at (t @ r) errs) = Inr (True, setPayload (payload (plain p)) v, reader_at r errs)"
    using assms(4)
  proof (elim disjE conjE)
    assume c: "constant_value ty = Some p"
    then have "ty \<notin> {TokenObjectBegin, TokenArrayBegin, TokenNumber, TokenString}"
      by (auto simp: constant_value_def)
    then show ?thesis using c r(3) by (simp add: n Let_def tok assms(2,3))
  next
    assume c: "ty = TokenNumber" "\<forall>r. decodeNumber E (tok r) = Inr p"
    then show ?thesis using r(3) by (simp add: n Let_def tok assms(2,3) set_decoded_def)
  next
    assume c: "ty = TokenString" "\<forall>r. decodeString (tok r) = Inr s" "p = StringP s"
    then show ?thesis using r(3) by (simp add: n Let_def tok assms(2,3) set_decoded_def)
  qed
qed

lemma constant_read:
  "value_read E F (Suc d) (plain NullP) ''null''"
  "value_read E F (Suc d) (plain (BoolP True)) ''true''"
  "value_read E F (Suc d) (plain (BoolP False)) ''false''"
  using literals [of F] by (auto intro!: leaf_read simp: constant_value_def)

lemma number_read:
  assumes "number_text t" "\<And>r. decodeNumber E \<lparr> tk_type = TokenNumber, tk_start = t @ r, tk_end = r \<rparr> = Inr p"
  shows "value_read E F (Suc d) (plain p) t"
  using number_token [OF assms(1)] assms(2)
  by (intro leaf_read [where tok = "\<lambda>r. \<lparr> tk_type = TokenNumber, tk_start = t @ r, tk_end = r \<rparr>"]) auto

lemma string_read: "string_text s t \<Longrightarrow> value_read E F (Suc d) (plain (StringP s)) (quoted t)"
  using quoted_token [of s t]
  by (intro leaf_read [where tok = "\<lambda>r. \<lparr> tk_type = TokenString, tk_start = quoted t @ r, tk_end = r \<rparr>"]) auto

lemma array_read:
  assumes "elements_read E F d xs t" "\<And>r. skipSpaces (t @ r) \<noteq> [] \<and> hd (skipSpaces (t @ r)) \<noteq> CHR '']''"
  shows "value_read E F (Suc d) (plain (ArrayP xs)) (''['' @ t @ '']'')"
  unfolding value_read_def
proof (intro allI impI)
  fix n depth v r errs
  assume r: "delimited r" "length ((''['' @ t @ '']'') @ r) < n" "int depth + int (Suc d) \<le> rf_stackLimit F + 1"
  obtain n' where n: "n = Suc n'" using r(2) by (cases n) auto
  have "array_loop (readValue E F n' (depth + 1)) F n' [] (reader_at (t @ CHR '']'' # r) errs)
      = Inr (True, xs, reader_at r errs)"
    using assms(1) r n by (simp add: elements_read_def)
  then have "readArray (readValue E F n' (depth + 1)) F n' (reader_at (t @ CHR '']'' # r) errs)
      = Inr (True, xs, reader_at r errs)"
    using assms(2) [of "CHR '']'' # r"] by (simp add: readArray_def Let_def array_loop_skip)
  then show "readValue E F n depth v (reader_at ((''['' @ t @ '']'') @ r) errs)
      = Inr (True, setPayload (payload (plain (ArrayP xs))) v, reader_at r errs)"
    using r no_comment(2) [OF punctuation(3)] by (simp add: n Let_def)
qed

lemma empty_array_read: "blank w \<Longrightarrow> value_read E F (Suc d) (plain (ArrayP [])) (''['' @ w @ '']'')"
  unfolding value_read_def
proof (intro allI impI)
  fix n depth v r errs
  assume r: "blank w" "length ((''['' @ w @ '']'') @ r) < n" "int depth + int (Suc d) \<le> rf_stackLimit F + 1"
  obtain n' where n: "n = Suc n'" using r(2) by (cases n) auto
  have "skipSpaces (CHR '']'' # r) = CHR '']'' # r" by (simp add: skipSpaces_def is_json_space_def)
  then show "readValue E F n depth v (reader_at ((''['' @ w @ '']'') @ r) errs)
      = Inr (True, setPayload (payload (plain (ArrayP []))) v, reader_at r errs)"
    using r no_comment(2) [OF punctuation(3)] by (simp add: n Let_def readArray_def skip_blank punctuation)
qed

lemma object_read:
  assumes "members_read E F d kvs t" "distinct (map fst kvs)"
  shows "value_read E F (Suc d) (plain (ObjectP (object_of kvs))) (''{'' @ t @ ''}'')"
  unfolding value_read_def
proof (intro allI impI)
  fix n depth v r errs
  assume r: "delimited r" "length ((''{'' @ t @ ''}'') @ r) < n" "int depth + int (Suc d) \<le> rf_stackLimit F + 1"
  obtain n' where n: "n = Suc n'" using r(2) by (cases n) auto
  have "object_loop (readValue E F n' (depth + 1)) E F n' [] [] (reader_at (t @ CHR ''}'' # r) errs)
      = Inr (True, object_of kvs, reader_at r errs)"
    using assms r n by (simp add: members_read_def object_of_def list_all_iff)
  then show "readValue E F n depth v (reader_at ((''{'' @ t @ ''}'') @ r) errs)
      = Inr (True, setPayload (payload (plain (ObjectP (object_of kvs)))) v, reader_at r errs)"
    using r no_comment(2) [OF punctuation(1)] by (simp add: n Let_def)
qed

lemma empty_object_read: "blank w \<Longrightarrow> value_read E F (Suc d) (plain (ObjectP [])) (''{'' @ w @ ''}'')"
  unfolding value_read_def
proof (intro allI impI)
  fix n depth v r errs
  assume r: "blank w" "length ((''{'' @ w @ ''}'') @ r) < n" "int depth + int (Suc d) \<le> rf_stackLimit F + 1"
  obtain n' where n: "n = Suc n'" "n' > 0" using r(2) by (cases n) auto
  then obtain n'' where n'': "n' = Suc n''" by (cases n') auto
  show "readValue E F n depth v (reader_at ((''{'' @ w @ ''}'') @ r) errs)
      = Inr (True, setPayload (payload (plain (ObjectP []))) v, reader_at r errs)"
    using r no_comment(2) [OF punctuation(1)] no_comment(1) [OF punctuation(2)]
    by (simp add: n(1) n'' Let_def skip_comments_blank)
qed

lemma element_read:
  assumes "value_read E F d x t" "plain (payload x) = x" "blank w" "delimited q"
    and "length (w @ t @ q) < n" "int depth + int d \<le> rf_stackLimit F + 1"
  shows "readValue E F n depth nullSingleton (reader_at (w @ t @ q) errs) = Inr (True, x, reader_at q errs)"
  using assms by (simp add: readValue_blank value_read_def)

lemma text_read:
  shows "json_text E d x t \<Longrightarrow> value_read E F d x t"
    and "elements_text E d xs t \<Longrightarrow> elements_read E F d xs t"
    and "members_text E d kvs t \<Longrightarrow> members_read E F d kvs t"
proof (induction rule: json_text_elements_text_members_text.inducts)
  case (text_int n t d)
  have "decodeNumber E \<lparr> tk_type = TokenNumber, tk_start = t @ r, tk_end = r \<rparr> = Inr (IntP (word_of_int n))" for r
    using decode_integer_text [OF text_int(1)] text_int by (simp add: integer_payload_def)
  then show ?case using number_read integer_number text_int by blast
next
  case (text_uint n t d)
  have "decodeNumber E \<lparr> tk_type = TokenNumber, tk_start = t @ r, tk_end = r \<rparr> = Inr (UIntP (word_of_int n))" for r
    using decode_integer_text [OF text_uint(1)] text_uint by (simp add: integer_payload_def)
  then show ?case using number_read integer_number text_uint by blast
next
  case (text_real t x d)
  show ?case by (rule number_read [OF text_real(1) decode_real_text [OF text_real(1-3)]])
next
  case (last_element d x t w w')
  show ?case unfolding elements_read_def
  proof (intro allI impI)
    fix n m depth ys r errs
    assume *: "length ((w @ t @ w') @ CHR '']'' # r) < n" "length ((w @ t @ w') @ CHR '']'' # r) < m"
      "int depth + int d \<le> rf_stackLimit F + 1"
    obtain m' where m: "m = Suc m'" using *(2) by (cases m) auto
    show "array_loop (readValue E F n depth) F m ys (reader_at ((w @ t @ w') @ CHR '']'' # r) errs)
        = Inr (True, ys @ [x], reader_at r errs)"
      using last_element * element_read [of E F d x t w "w' @ CHR '']'' # r" n depth errs] delimited_blank [of w' "CHR '']''" r]
      by (simp add: m text_plain after_element_text)
  qed
next
  case (more_elements d x t w w' xs u)
  show ?case unfolding elements_read_def
  proof (intro allI impI)
    fix n m depth ys r errs
    assume *: "length ((w @ t @ w' @ '','' @ u) @ CHR '']'' # r) < n" "length ((w @ t @ w' @ '','' @ u) @ CHR '']'' # r) < m"
      "int depth + int d \<le> rf_stackLimit F + 1"
    obtain m' where m: "m = Suc m'" using *(2) by (cases m) auto
    show "array_loop (readValue E F n depth) F m ys (reader_at ((w @ t @ w' @ '','' @ u) @ CHR '']'' # r) errs)
        = Inr (True, ys @ x # xs, reader_at r errs)"
      using more_elements * element_read [of E F d x t w "w' @ CHR '','' # u @ CHR '']'' # r" n depth errs]
        delimited_blank [of w' "CHR '',''" "u @ CHR '']'' # r"]
      by (simp add: m text_plain after_element_text elements_read_def)
  qed
next
  case (last_member k s d x t w w1 w2 w3)
  show ?case unfolding members_read_def
  proof (intro allI impI)
    fix n m depth name r errs and acc :: "(string \<times> json) list"
    let ?u = "w2 @ t @ w3 @ CHR ''}'' # r"
    assume *: "length ((w @ quoted s @ w1 @ '':'' @ w2 @ t @ w3) @ CHR ''}'' # r) < n"
      "length ((w @ quoted s @ w1 @ '':'' @ w2 @ t @ w3) @ CHR ''}'' # r) < m" "int depth + int d \<le> rf_stackLimit F + 1"
      "\<forall>k \<in> fst ` set [(k, x)]. map_of acc k = None"
    obtain m' where m: "m = Suc m'" using *(2) by (cases m) auto
    show "object_loop (readValue E F n depth) E F m acc name
        (reader_at ((w @ quoted s @ w1 @ '':'' @ w2 @ t @ w3) @ CHR ''}'' # r) errs)
        = Inr (True, foldl (\<lambda>m (k, x). map_insert k x m) acc [(k, x)], reader_at r errs)"
      using last_member * element_read [of E F d x t w2 "w3 @ CHR ''}'' # r" n depth errs]
        delimited_blank [of w3 "CHR ''}''" r] member_text [of k s acc w w1 "readValue E F n depth" E F m' name ?u errs]
      by (simp add: m text_plain after_member_text)
  qed
next
  case (more_members k s d x t w w1 w2 w3 kvs v)
  show ?case unfolding members_read_def
  proof (intro allI impI)
    fix n m depth name r errs and acc :: "(string \<times> json) list"
    let ?q = "v @ CHR ''}'' # r"
    let ?u = "w2 @ t @ w3 @ CHR '','' # ?q"
    assume *: "length ((w @ quoted s @ w1 @ '':'' @ w2 @ t @ w3 @ '','' @ v) @ CHR ''}'' # r) < n"
      "length ((w @ quoted s @ w1 @ '':'' @ w2 @ t @ w3 @ '','' @ v) @ CHR ''}'' # r) < m"
      "int depth + int d \<le> rf_stackLimit F + 1" "distinct (map fst ((k, x) # kvs))"
      "\<forall>k \<in> fst ` set ((k, x) # kvs). map_of acc k = None"
    obtain m' where m: "m = Suc m'" using *(2) by (cases m) auto
    have "distinct (map fst kvs)" "\<forall>k' \<in> fst ` set kvs. map_of (map_insert k x acc) k' = None"
      using *(4,5) by (auto simp: map_of_insert)
    moreover have "members_read E F d kvs v" using more_members by simp
    ultimately have "object_loop (readValue E F n depth) E F m' (map_insert k x acc) k (reader_at ?q errs)
        = Inr (True, foldl (\<lambda>m (k, x). map_insert k x m) (map_insert k x acc) kvs, reader_at r errs)"
      using *(1-3) m by (simp add: members_read_def)
    then show "object_loop (readValue E F n depth) E F m acc name
        (reader_at ((w @ quoted s @ w1 @ '':'' @ w2 @ t @ w3 @ '','' @ v) @ CHR ''}'' # r) errs)
        = Inr (True, foldl (\<lambda>m (k, x). map_insert k x m) acc ((k, x) # kvs), reader_at r errs)"
      using more_members * element_read [of E F d x t w2 "w3 @ CHR '','' # ?q" n depth errs]
        delimited_blank [of w3 "CHR '',''" ?q] member_text [of k s acc w w1 "readValue E F n depth" E F m' name ?u errs]
      by (simp add: m text_plain after_member_text)
  qed
next
  case (text_array d xs t)
  then show ?case using array_read elements_head by blast
qed (simp_all only: constant_read string_read empty_array_read empty_object_read object_read)

text \<open>A document that is such a text with blanks around it, nested no deeper than the stack limit.\<close>

lemma json_text_accepted:
  assumes "json_text E d x t" "blank w" "blank w'" "int d \<le> rf_stackLimit F"
    and "rf_strictRoot F \<Longrightarrow> isArray x \<or> isObject x" "collects c F \<Longrightarrow> CHR ''/'' \<notin> set (w @ t @ w')"
  shows "json_parse E F c (w @ t @ w') v = Inr (True, setPayload (payload x) v, \<lparr> jr_current = [], jr_errors = [] \<rparr>)"
proof -
  have d: "delimited w'" using assms(3) by (cases w') (auto simp: delimited_def)
  have "readValue E F (length (w @ t @ w') + 1) 1 v (reader_at (w @ t @ w') [])
      = Inr (True, setPayload (payload x) v, reader_at w' [])"
    using text_read(1) [OF assms(1), of F] assms(2,4) d
    by (simp add: readValue_blank value_read_def del: readValue.simps)
  moreover have "skipSpaces w' = []" using skip_blank [OF assms(3), of "[]"] by (simp add: skipSpaces_def)
  then have "readToken F w' = \<lparr> tk_type = TokenEndOfStream, tk_start = [], tk_end = [] \<rparr>"
    by (simp add: readToken_def)
  then have "skipCommentTokens F w' = \<lparr> tk_type = TokenEndOfStream, tk_start = [], tk_end = [] \<rparr>"
    using no_comment(2) by fastforce
  ultimately show ?thesis
    using assms(5,6) by (auto simp: json_parse_def after_root_def reader_at_def Let_def isArray_def isObject_def typeOf_def)
qed

end
