(* ===== verification/Json_Quote.thy ===== *)
theory Json_Quote
  imports Json_Writer Json_Text Utf8_Validator
begin

text \<open>
  The quoting of strings: what \<open>valueToQuotedString\<close> makes of UTF-8 is the text of the string in the
  grammar, for code points below \<open>0x40000\<close>; from there on the shift of \<open>utf8ToCodePoint\<close> is wrong.
\<close>

section \<open>Code points\<close>

lemma of_char_char_of [simp]: "n < 256 \<Longrightarrow> of_char (char_of n :: char) = (n :: nat)"
  by simp

lemma low6_char: "low6 (char_of (0x80 + n mod 64)) = n mod 64"
proof -
  have "(0x80 + n mod 64) < (256 :: nat)" using mod_less_divisor [of 64 n] by linarith
  then have "low6 (char_of (0x80 + n mod 64)) = (2 * 64 + n mod 64) mod 64"
    unfolding low6_def by (subst of_char_char_of) simp_all
  then show ?thesis by (simp only: mod_mult_self3 mod_mod_trivial)
qed

lemma char_of_byte_nat: "n < 256 \<Longrightarrow> char_of_byte (word_of_nat n) = char_of n"
  by (simp add: char_of_byte_def unat_of_nat)

text \<open>\<open>codePointToUTF8\<close> is the encoder of the standard.\<close>

lemma codePointToUTF8_utf8:
  assumes "unicode_scalar cp"
  shows "codePointToUTF8 cp = string_of_bytes (utf8_encode cp)"
proof -
  have b: "0x80 + n mod 64 < (256 :: nat)" for n using mod_less_divisor [of 64 n] by linarith
  have "cp < 0x110000" using assms by (auto simp: unicode_scalar_def)
  then consider "cp < 0x80" | "0x80 \<le> cp" "cp < 0x800" | "0x800 \<le> cp" "cp < 0x10000"
    | "0x10000 \<le> cp" "cp < 0x110000" by linarith
  then show ?thesis
  proof cases
    case 1
    then show ?thesis by (simp add: codePointToUTF8_def utf8_encode_def utf8_encode_nat_def string_of_bytes_def char_of_byte_nat)
  next
    case 2
    then have "cp div 64 < 32" by (simp add: div_less_iff_less_mult)
    with 2 b show ?thesis
      by (simp add: codePointToUTF8_def utf8_encode_def utf8_encode_nat_def string_of_bytes_def char_of_byte_nat
          del: of_nat_add)
  next
    case 3
    then have "cp div 4096 < 16" by (simp add: div_less_iff_less_mult)
    with 3 b show ?thesis
      by (simp add: codePointToUTF8_def utf8_encode_def utf8_encode_nat_def string_of_bytes_def char_of_byte_nat
          del: of_nat_add)
  next
    case 4
    then have "cp div 262144 < 8" by (simp add: div_less_iff_less_mult)
    with 4 b show ?thesis
      by (simp add: codePointToUTF8_def utf8_encode_def utf8_encode_nat_def string_of_bytes_def char_of_byte_nat
          del: of_nat_add)
  qed
qed

lemma digits_of_code_point:
  fixes cp :: nat
  shows "cp div 2 ^ 6 * 2 ^ 6 + cp mod 64 = cp"
    and "cp div 2 ^ 12 * 2 ^ 12 + cp div 2 ^ 6 mod 64 * 2 ^ 6 + cp mod 64 = cp"
proof -
  show a: "cp div 2 ^ 6 * 2 ^ 6 + cp mod 64 = cp" by simp
  have "cp div 2 ^ 12 = cp div 2 ^ 6 div 64" by (simp add: div_mult2_eq)
  then have "cp div 2 ^ 12 * 64 + cp div 2 ^ 6 mod 64 = cp div 2 ^ 6" by simp
  then have "(cp div 2 ^ 12 * 64 + cp div 2 ^ 6 mod 64) * 2 ^ 6 = cp div 2 ^ 6 * 2 ^ 6" by simp
  with a show "cp div 2 ^ 12 * 2 ^ 12 + cp div 2 ^ 6 mod 64 * 2 ^ 6 + cp mod 64 = cp"
    by (simp add: algebra_simps)
qed

lemma utf8ToCodePoint_encoded:
  assumes "unicode_scalar cp" "cp < 0x40000"
  shows "utf8ToCodePoint (codePointToUTF8 cp @ s) = (cp, length (codePointToUTF8 cp) - 1)"
proof -
  consider "cp < 0x80" | "0x80 \<le> cp" "cp < 0x800" | "0x800 \<le> cp" "cp < 0x10000"
    | "0x10000 \<le> cp" using assms by linarith
  then show ?thesis
  proof cases
    case 1
    then show ?thesis by (simp add: codePointToUTF8_def utf8ToCodePoint_def)
  next
    case 2
    have q: "cp div 2 ^ 6 < 32" using 2 by (simp add: div_less_iff_less_mult)
    define b where "b = 0xC0 + cp div 2 ^ 6 mod 32"
    have b: "\<not> b < 0x80" "b < 0xE0" "b < 256" "b mod 32 = cp div 2 ^ 6"
      using q mod_mult_self3 [of 6 32 "cp div 2 ^ 6"] by (simp_all add: b_def)
    have "codePointToUTF8 cp = [char_of b, char_of (0x80 + cp mod 64)]"
      using 2 by (simp add: codePointToUTF8_def b_def)
    then show ?thesis
      using b 2 low6_char digits_of_code_point(1) [of cp] by (simp add: utf8ToCodePoint_def)
  next
    case 3
    have q: "cp div 2 ^ 12 < 16" using 3 by (simp add: div_less_iff_less_mult)
    define b where "b = 0xE0 + cp div 2 ^ 12 mod 16"
    have b: "\<not> b < 0x80" "\<not> b < 0xE0" "b < 0xF0" "b < 256" "b mod 16 = cp div 2 ^ 12"
      using q mod_mult_self3 [of 14 16 "cp div 2 ^ 12"] by (simp_all add: b_def)
    have "codePointToUTF8 cp = [char_of b, char_of (0x80 + cp div 2 ^ 6 mod 64), char_of (0x80 + cp mod 64)]"
      using 3 by (simp add: codePointToUTF8_def b_def)
    then show ?thesis
      using b 3 assms low6_char digits_of_code_point(2) [of cp]
      by (auto simp: utf8ToCodePoint_def unicode_scalar_def)
  next
    case 4
    have q: "cp div 2 ^ 12 < 64" "cp div 2 ^ 18 = 0" using assms by (simp_all add: div_less_iff_less_mult)
    have "codePointToUTF8 cp = [char_of (0xF0 :: nat), char_of (0x80 + cp div 2 ^ 12 mod 64),
        char_of (0x80 + cp div 2 ^ 6 mod 64), char_of (0x80 + cp mod 64)]"
      using 4 assms q by (simp add: codePointToUTF8_def)
    moreover have "low6 (char_of (0x80 + cp div 2 ^ 12)) = cp div 2 ^ 12"
      using low6_char [of "cp div 2 ^ 12"] q by simp
    ultimately show ?thesis
      using 4 q low6_char digits_of_code_point(2) [of cp]
      by (simp add: utf8ToCodePoint_def Let_def)
  qed
qed

lemma hex_digits: "n < 16 \<Longrightarrow> hex_value (hex_digit n) = Some n"
proof -
  have "list_all (\<lambda>n. hex_value (hex_digit n) = Some n) [0, 1, 2, 3, 4, 5, 6, 7, 8, 9, 10, 11, 12, 13, 14, 15]"
    by (simp add: hex_value_def hex_digit_def)
  moreover assume "n < 16"
  then have "n \<in> set [0, 1, 2, 3, 4, 5, 6, 7, 8, 9, 10, 11, 12, 13, 14, 15]" by (simp, presburger)
  ultimately show ?thesis unfolding list_all_iff by blast
qed

lemma hex4_toHex16Bit: "x < 0x10000 \<Longrightarrow> hex4 (toHex16Bit x) x"
proof -
  assume "x < 0x10000"
  then have h: "x div 2 ^ 8 mod 256 = x div 256" by (simp add: div_less_iff_less_mult)
  have d: "x div 256 div 16 < 16" using \<open>x < 0x10000\<close> by (simp add: div_less_iff_less_mult div_mult2_eq [symmetric])
  have "x = x div 256 * 256 + x mod 256" "x div 256 = x div 256 div 16 * 16 + x div 256 mod 16"
    "x mod 256 = x mod 256 div 16 * 16 + x mod 256 mod 16" by simp_all
  then have "x = x div 256 div 16 * 4096 + x div 256 mod 16 * 256 + x mod 256 div 16 * 16 + x mod 256 mod 16"
    by linarith
  moreover have "map hex_value (toHex16Bit x) = [Some (x div 256 div 16), Some (x div 256 mod 16),
      Some (x mod 256 div 16), Some (x mod 256 mod 16)]"
    unfolding toHex16Bit_def Let_def h using d by (simp add: hex_digits div_less_iff_less_mult)
  ultimately show ?thesis unfolding hex4_def by (intro exI conjI)
qed

section \<open>Quoted strings\<close>

definition utf8_text :: "nat list \<Rightarrow> string" where
  "utf8_text cps = concat (map (\<lambda>cp. string_of_bytes (utf8_encode cp)) cps)"

text \<open>The strings that the writer can quote: UTF-8 of code points below \<open>0x40000\<close>.\<close>

definition quotable :: "string \<Rightarrow> bool" where
  "quotable s \<longleftrightarrow> (\<exists>cps. list_all (\<lambda>cp. unicode_scalar cp \<and> cp < 0x40000) cps \<and> s = utf8_text cps)"

lemma simple_escapes: "simple_escape c = Some e \<Longrightarrow> (e, c) \<in> set escapes"
  by (auto simp: simple_escape_def escapes_def split: if_splits)

lemma simple_escape_high:
  assumes "0x80 \<le> n" "n < (256 :: nat)"
  shows "simple_escape (char_of n) = None"
proof -
  have "of_char (char_of n :: char) = n" using assms by simp
  then have "char_of n \<noteq> CHR 0x22" "char_of n \<noteq> CHR 0x5C" "char_of n \<noteq> CHR 0x08" "char_of n \<noteq> CHR 0x0C"
    "char_of n \<noteq> CHR 0x0A" "char_of n \<noteq> CHR 0x0D" "char_of n \<noteq> CHR 0x09"
    using assms(1) by (auto simp: of_char_char_of dest: arg_cong [of _ _ "of_char :: char \<Rightarrow> nat"])
  then show ?thesis by (simp add: simple_escape_def)
qed

lemma encoded_head:
  assumes "unicode_scalar cp" "0x80 \<le> cp"
  obtains n bs where "codePointToUTF8 cp = char_of (n :: nat) # bs" "0x80 \<le> n" "n < 256" "bs \<noteq> []"
proof -
  have lt: "cp < 0x110000" using assms(1) by (auto simp: unicode_scalar_def)
  consider "cp \<le> 0x7FF" | "0x7FF < cp" "cp \<le> 0xFFFF" | "0xFFFF < cp" by linarith
  then show thesis
  proof cases
    case 1
    then show thesis using that [of "0xC0 + cp div 2 ^ 6 mod 32"] assms(2) by (simp add: codePointToUTF8_def)
  next
    case 2
    then show thesis using that [of "0xE0 + cp div 2 ^ 12 mod 16"] by (simp add: codePointToUTF8_def)
  next
    case 3
    have "0xF0 + cp div 2 ^ 18 mod 8 < 256" using mod_less_divisor [of 8 "cp div 2 ^ 18"] by linarith
    then show thesis using that [of "0xF0 + cp div 2 ^ 18 mod 8"] 3 lt by (simp add: codePointToUTF8_def)
  qed
qed

text \<open>One round of the loop of \<open>valueToQuotedString\<close>.\<close>

lemma quote_code_point:
  assumes "unicode_scalar cp" "cp < 0x40000"
  shows "quote_chars (codePointToUTF8 cp @ s) =
    (case simple_escape (hd (codePointToUTF8 cp)) of Some e \<Rightarrow> [CHR 0x5C, e] | None \<Rightarrow> quotedCodePoint cp) @ quote_chars s"
proof (cases "cp < 0x80")
  case True
  then have c: "codePointToUTF8 cp = [char_of cp]" by (simp add: codePointToUTF8_def)
  then show ?thesis
    using utf8ToCodePoint_encoded [OF assms, of s] by (simp add: c split: option.split)
next
  case False
  then obtain n bs where c: "codePointToUTF8 cp = char_of (n :: nat) # bs" "0x80 \<le> n" "n < 256"
    using encoded_head [OF assms(1)] by (metis not_le_imp_less)
  then show ?thesis
    using utf8ToCodePoint_encoded [OF assms, of s] simple_escape_high [of n] by simp
qed

lemma quoted_code_point_text:
  assumes "unicode_scalar cp" "string_text s t"
    and "cp < 0x80 \<Longrightarrow> simple_escape (char_of cp) = None"
  shows "string_text (codePointToUTF8 cp @ s) (quotedCodePoint cp @ t)"
proof -
  consider "0x20 \<le> cp" "cp < 0x80" | "\<not> (0x20 \<le> cp \<and> cp < 0x80)" "cp < 0x10000" | "0x10000 \<le> cp" by linarith
  then show ?thesis
  proof cases
    case 1
    then have "char_of cp \<noteq> CHR 0x22" "char_of cp \<noteq> CHR 0x5C"
      using assms(3) by (auto simp: simple_escape_def split: if_splits)
    then show ?thesis
      using 1 assms(2) by (simp add: codePointToUTF8_def quotedCodePoint_def string_text.intros)
  next
    case 2
    then have "quotedCodePoint cp = [CHR 0x5C, CHR ''u''] @ toHex16Bit cp" by (auto simp: quotedCodePoint_def)
    then show ?thesis
      using string_unicode [OF hex4_toHex16Bit [OF 2(2)] _ assms(2)] assms(1) by (auto simp: unicode_scalar_def)
  next
    case 3
    let ?c = "cp - 0x10000"
    have c: "?c div 1024 < 1024" "?c mod 1024 < 1024"
      using assms(1) 3 by (auto simp: unicode_scalar_def div_less_iff_less_mult)
    let ?u = "?c div 1024 + 0xD800" and ?u' = "?c mod 1024 + 0xDC00"
    have "string_text (codePointToUTF8 (0x10000 + (?u - 0xD800) * 1024 + (?u' - 0xDC00)) @ s)
      (CHR 0x5C # CHR ''u'' # toHex16Bit ?u @ CHR 0x5C # CHR ''u'' # toHex16Bit ?u' @ t)"
      using c assms(2) by (intro string_pair hex4_toHex16Bit) auto
    moreover have "0x10000 + (?u - 0xD800) * 1024 + (?u' - 0xDC00) = cp"
      using 3 by simp
    ultimately show ?thesis using 3 by (simp add: quotedCodePoint_def Let_def)
  qed
qed

lemma quote_text: "quotable s \<Longrightarrow> string_text s (quote_chars s)"
proof -
  assume "quotable s"
  then obtain cps where cps: "list_all (\<lambda>cp. unicode_scalar cp \<and> cp < 0x40000) cps" "s = utf8_text cps"
    by (auto simp: quotable_def)
  have "string_text (utf8_text cps) (quote_chars (utf8_text cps))"
    using cps(1)
  proof (induction cps)
    case (Cons cp cps)
    then have cp: "unicode_scalar cp" "cp < 0x40000" by simp_all
    have u: "utf8_text (cp # cps) = codePointToUTF8 cp @ utf8_text cps"
      by (simp add: utf8_text_def codePointToUTF8_utf8 [OF cp(1)])
    show ?case
    proof (cases "simple_escape (hd (codePointToUTF8 cp))")
      case None
      have "cp < 0x80 \<Longrightarrow> simple_escape (char_of cp) = None" using None by (simp add: codePointToUTF8_def)
      then show ?thesis
        using Cons None quoted_code_point_text [OF cp(1)] by (simp add: u quote_code_point [OF cp])
    next
      case (Some e)
      have "cp < 0x80"
        using Some simple_escape_high encoded_head [OF cp(1)] by (metis list.sel(1) not_le_imp_less option.distinct(1))
      then have "codePointToUTF8 cp = [char_of cp]" by (simp add: codePointToUTF8_def)
      then show ?thesis
        using Cons Some string_escape [OF simple_escapes [OF Some]] by (simp add: u quote_code_point [OF cp])
    qed
  qed (simp add: utf8_text_def string_end)
  then show ?thesis using cps(2) by simp
qed

lemma requires_quoting: "isAnyCharRequiredQuoting s \<longleftrightarrow> s \<noteq> []"
proof (cases s)
  case (Cons c t)
  have "signed_char c < 32 \<or> of_char c < (0x80 :: nat)"
    using of_char_mod_256 [of c, where 'a = int] pos_mod_bound [of 256 "of_char c :: int"]
      of_nat_of_char [of c, where 'a = int]
    by (auto simp: signed_char_def)
  then show ?thesis using Cons by (auto simp: isAnyCharRequiredQuoting_def)
qed (simp add: isAnyCharRequiredQuoting_def)

lemma quoted_string_text:
  assumes "quotable s"
  shows "\<exists>t. string_text s t \<and> valueToQuotedString s = quoted t"
  using quote_text [OF assms] by (cases "s = []") (auto simp: valueToQuotedString_def requires_quoting quoted_def)

lemma quotable_ascii:
  assumes "list_all (\<lambda>c. of_char c < (0x80 :: nat)) s"
  shows "quotable s"
  unfolding quotable_def
proof (intro exI conjI)
  show "list_all (\<lambda>cp. unicode_scalar cp \<and> cp < 0x40000) (map of_char s)"
    using assms by (auto simp: list_all_iff unicode_scalar_def)
  show "s = utf8_text (map of_char s)"
    using assms by (induction s) (simp_all add: utf8_text_def utf8_encode_def utf8_encode_nat_def string_of_bytes_def
        char_of_byte_nat)
qed

end
