(* ===== verification/Json_Writer_Props.thy ===== *)
theory Json_Writer_Props
  imports Json_Quote
begin

text \<open>
  What the writer writes for a value without comments is a text of the grammar that stands for this
  value, however the lines are broken: \<open>emits\<close> says of a part of the writer which texts it appends.
\<close>

section \<open>Values that can be written\<close>

definition format_ok :: "json_format \<Rightarrow> bool" where
  "format_ok F \<longleftrightarrow> blank (jf_indentation F) \<and> jf_nullSymbol F = ''null'' \<and> blank (jf_endingLineFeedSymbol F) \<and>
     (\<exists>w w'. blank w \<and> blank w' \<and> jf_colonSymbol F = w @ '':'' @ w')"

text \<open>A real number that is printed with a point or an exponent and scanned back.\<close>

definition real_ok :: "json_env \<Rightarrow> json_format \<Rightarrow> json_double \<Rightarrow> bool" where
  "real_ok E F x = (let t = valueToString E x (jf_useSpecialFloats F) (jf_precision F) in
     number_text t \<and> (\<forall>n. \<not> integer_text n t) \<and> scanned E t = Some x)"

fun writable :: "json_env \<Rightarrow> json_format \<Rightarrow> nat \<Rightarrow> json \<Rightarrow> bool" where
  "writable E F 0 v \<longleftrightarrow> False"
| "writable E F (Suc d) v \<longleftrightarrow> plain (payload v) = v \<and> (case payload v of
     NullP \<Rightarrow> True
   | IntP n \<Rightarrow> sint n \<noteq> - (2 ^ 63)
   | UIntP n \<Rightarrow> 2 ^ 63 \<le> uint n
   | RealP x \<Rightarrow> real_ok E F x
   | StringP s \<Rightarrow> quotable s
   | BoolP b \<Rightarrow> True
   | ArrayP xs \<Rightarrow> list_all (writable E F d) xs
   | ObjectP kvs \<Rightarrow> sorted_wrt (<) (map fst kvs) \<and>
       list_all (\<lambda>(k, x). quotable k \<and> key_ok k \<and> writable E F d x) kvs)"

section \<open>Texts appended\<close>

text \<open>
  \<open>K\<close> is what a part relies on and keeps of \<open>_childValues\<close>. The list stays empty when comments are
  written in full, where \<open>writeArrayValue\<close> does not refill it.
\<close>

definition emits :: "(string list \<Rightarrow> bool) \<Rightarrow> unit jw_prog \<Rightarrow> (string \<Rightarrow> bool) \<Rightarrow> bool" where
  "emits K m T \<longleftrightarrow> (\<forall>s. \<not> jw_addChildValues s \<longrightarrow> blank (jw_indentString s) \<longrightarrow> K (jw_childValues s) \<longrightarrow>
     (\<exists>t s'. m s = (Inr (), s') \<and> T t \<and> jw_out s' = jw_out s @ t \<and> jw_indentString s' = jw_indentString s \<and>
       \<not> jw_addChildValues s' \<and> K (jw_childValues s')))"

definition children_kept :: "json_format \<Rightarrow> string list \<Rightarrow> bool" where
  "children_kept F cvs \<longleftrightarrow> (jf_cs F = CommentAll \<longrightarrow> cvs = [])"

lemma emitsI:
  assumes "\<And>s. \<not> jw_addChildValues s \<Longrightarrow> blank (jw_indentString s) \<Longrightarrow> K (jw_childValues s) \<Longrightarrow>
    \<exists>t s'. m s = (Inr (), s') \<and> T t \<and> jw_out s' = jw_out s @ t \<and> jw_indentString s' = jw_indentString s \<and>
      \<not> jw_addChildValues s' \<and> K (jw_childValues s')"
  shows "emits K m T"
  using assms by (simp add: emits_def)

lemma emitsE:
  assumes "emits K m T" "\<not> jw_addChildValues s" "blank (jw_indentString s)" "K (jw_childValues s)"
  obtains t s' where "m s = (Inr (), s')" "T t" "jw_out s' = jw_out s @ t" "jw_indentString s' = jw_indentString s"
    "\<not> jw_addChildValues s'" "K (jw_childValues s')"
  using assms by (auto simp: emits_def)

lemma emitsD:
  assumes "emits K m T" "\<not> jw_addChildValues s" "blank (jw_indentString s)" "K (jw_childValues s)"
    and "\<And>cvs. K cvs \<Longrightarrow> K' cvs" "r = m s"
  shows "\<exists>t s'. r = (Inr (), s') \<and> T t \<and> jw_out s' = jw_out s @ t \<and> jw_indentString s' = jw_indentString s \<and>
    \<not> jw_addChildValues s' \<and> K' (jw_childValues s')"
  using assms(1-4) by (rule emitsE) (use assms(5,6) in blast)

lemma emits_mono: "emits K m A \<Longrightarrow> (\<And>t. A t \<Longrightarrow> B t) \<Longrightarrow> emits K m B"
  unfolding emits_def by meson

lemma emits_Nil: "emits K (doM []) (\<lambda>t. t = [])"
  by (rule emitsI) (simp add: run_simps)

lemma emits_Cons:
  assumes "emits K m A" "emits K (doM ms) B"
  shows "emits K (doM (m # ms)) (\<lambda>t. \<exists>a b. t = a @ b \<and> A a \<and> B b)"
proof (rule emitsI)
  fix s :: json_writer
  assume s: "\<not> jw_addChildValues s" "blank (jw_indentString s)" "K (jw_childValues s)"
  obtain a s1 where 1: "m s = (Inr (), s1)" "A a" "jw_out s1 = jw_out s @ a" "jw_indentString s1 = jw_indentString s"
    "\<not> jw_addChildValues s1" "K (jw_childValues s1)" using emitsE [OF assms(1) s] by metis
  moreover obtain b s2 where "doM ms s1 = (Inr (), s2)" "B b" "jw_out s2 = jw_out s1 @ b"
    "jw_indentString s2 = jw_indentString s1" "\<not> jw_addChildValues s2" "K (jw_childValues s2)"
    using emitsE [OF assms(2) 1(5)] s(2) 1(4,6) by metis
  ultimately show "\<exists>t s'. doM (m # ms) s = (Inr (), s') \<and> (\<exists>a b. t = a @ b \<and> A a \<and> B b) \<and> jw_out s' = jw_out s @ t \<and>
      jw_indentString s' = jw_indentString s \<and> \<not> jw_addChildValues s' \<and> K (jw_childValues s')"
    by (intro exI [of _ "a @ b"] exI [of _ s2]) (auto simp: list_run bindM_after)
qed

lemma emits_steps:
  "emits K (out u) (\<lambda>t. t = u)"
  "emits K (modifyM (\<lambda>s. s\<lparr> jw_indented := b \<rparr>)) (\<lambda>t. t = [])"
  "emits K (whenM c (out u)) (\<lambda>t. t = (if c then u else []))"
  "emits K writeIndent blank"
  "emits K (withM (\<lambda>s. whenM (\<not> jw_indented s) writeIndent)) blank"
  by (auto intro!: emitsI simp: out_def writeIndent_def run_simps is_json_space_def)

lemma emits_writeWithIndent: "emits K (writeWithIndent u) (\<lambda>t. \<exists>w. blank w \<and> t = w @ u)"
  unfolding writeWithIndent_def
  by (rule emits_mono, (rule emits_Cons emits_steps emits_Nil)+) auto

lemma emits_pushValue: "emits K (pushValue u) (\<lambda>t. t = u)"
  by (rule emitsI) (simp add: pushValue_def out_def run_simps)

lemma uncommented:
  assumes "plain (payload x) = x"
  shows "writeCommentBeforeValue F x = doM []" "emits K (writeCommentAfterValueOnSameLine F x) (\<lambda>t. t = [])"
proof -
  have n: "\<not> hasComment x c" for c
    by (subst assms [symmetric], cases c) (simp_all add: plain_def hasComment_def)
  then show "writeCommentBeforeValue F x = doM []" by (simp add: writeCommentBeforeValue_def)
  show "emits K (writeCommentAfterValueOnSameLine F x) (\<lambda>t. t = [])"
    using n by (intro emitsI) (simp add: writeCommentAfterValueOnSameLine_def runs)
qed

text \<open>A block between two brackets, indented by one step.\<close>

lemma emits_block:
  assumes "emits K m T" "blank (jf_indentation F)"
  shows "emits K (doM [writeWithIndent a, indent F, m, unindent F, writeWithIndent b])
    (\<lambda>u. \<exists>w t w'. blank w \<and> blank w' \<and> T t \<and> u = w @ a @ t @ w' @ b)"
proof (rule emitsI)
  fix s :: json_writer
  assume s: "\<not> jw_addChildValues s" "blank (jw_indentString s)" "K (jw_childValues s)"
  obtain u s1 where 1: "writeWithIndent a s = (Inr (), s1)" "\<exists>w. blank w \<and> u = w @ a" "jw_out s1 = jw_out s @ u"
    "jw_indentString s1 = jw_indentString s" "\<not> jw_addChildValues s1" "K (jw_childValues s1)"
    using emitsE [OF emits_writeWithIndent [of K a] s] by metis
  let ?s2 = "s1\<lparr> jw_indentString := jw_indentString s1 @ jf_indentation F \<rparr>"
  obtain t s3 where 3: "m ?s2 = (Inr (), s3)" "T t" "jw_out s3 = jw_out s1 @ t"
    "jw_indentString s3 = jw_indentString s @ jf_indentation F" "\<not> jw_addChildValues s3" "K (jw_childValues s3)"
    using emitsE [OF assms(1), of ?s2] s(2) 1(4-) assms(2) by (simp del: bindE_def) metis
  let ?s4 = "s3\<lparr> jw_indentString := jw_indentString s \<rparr>"
  have 4: "unindent F s3 = (Inr (), ?s4)" using 3(4) by (simp add: unindent_def run_simps)
  obtain v s5 where 5: "writeWithIndent b ?s4 = (Inr (), s5)" "\<exists>w. blank w \<and> v = w @ b" "jw_out s5 = jw_out ?s4 @ v"
    "jw_indentString s5 = jw_indentString ?s4" "\<not> jw_addChildValues s5" "K (jw_childValues s5)"
    using emitsE [OF emits_writeWithIndent [of K b], of ?s4] s(2) 3(5,6) by simp metis
  have "doM [writeWithIndent a, indent F, m, unindent F, writeWithIndent b] s = (Inr (), s5)"
    by (simp add: indent_def prog_simps 1(1) 3(1) 4 5(1))
  moreover obtain w w' where "blank w" "u = w @ a" "blank w'" "v = w' @ b" using 1(2) 5(2) by blast
  then have "\<exists>w x w'. blank w \<and> blank w' \<and> T x \<and> u @ t @ v = w @ a @ x @ w' @ b"
    using 3(2) by (intro exI [of _ w] exI [of _ t] exI [of _ w']) simp
  ultimately show "\<exists>u s'. doM [writeWithIndent a, indent F, m, unindent F, writeWithIndent b] s = (Inr (), s') \<and>
      (\<exists>w t w'. blank w \<and> blank w' \<and> T t \<and> u = w @ a @ t @ w' @ b) \<and> jw_out s' = jw_out s @ u \<and>
      jw_indentString s' = jw_indentString s \<and> \<not> jw_addChildValues s' \<and> K (jw_childValues s')"
    using 1(3) 3(3) 5(3-) by (intro exI [of _ "u @ t @ v"] exI [of _ s5]) simp
qed

section \<open>Children\<close>

definition leaf :: "json \<Rightarrow> bool" where
  "leaf x \<longleftrightarrow> \<not> ((isArray x \<or> isObject x) \<and> \<not> json_empty x)"

text \<open>A child with the program that writes it: into the stream, or as the next of \<open>_childValues\<close>.\<close>

definition child_ok :: "json_env \<Rightarrow> json_format \<Rightarrow> nat \<Rightarrow> child \<Rightarrow> bool" where
  "child_ok E F d = (\<lambda>(x, m). plain (payload x) = x \<and>
     emits (children_kept F) m (\<lambda>u. \<exists>w t. blank w \<and> u = w @ t \<and> json_text E d x t) \<and>
     (leaf x \<longrightarrow> (\<exists>t. json_text E d x t \<and> (\<forall>s. jw_addChildValues s \<longrightarrow>
        m s = (Inr (), s\<lparr> jw_childValues := jw_childValues s @ [t] \<rparr>)))))"

lemma elements_blank:
  assumes "elements_text E d xs t" "blank w"
  shows "elements_text E d xs (w @ t)"
  using assms(1)
proof (cases rule: elements_text.cases)
  case (last_element x u v w')
  then show ?thesis 
    using json_text_elements_text_members_text.last_element [of E d x u "w @ v" w'] assms(2) by simp
next
  case (more_elements x u v w' ys z)
  then show ?thesis
    using json_text_elements_text_members_text.more_elements [of E d x u "w @ v" w' ys z] assms(2) by simp
qed

text \<open>The sequence of five statements that a round of either loop consists of.\<close>

lemma emits_round:
  assumes "emits K a A" "emits K b B" "emits K c C" "emits K d D" "emits K e G"
    and "\<And>u v w x y. A u \<Longrightarrow> B v \<Longrightarrow> C w \<Longrightarrow> D x \<Longrightarrow> G y \<Longrightarrow> T (u @ v @ w @ x @ y)"
  shows "emits K (doM [a, b, c, d, e]) T"
proof -
  have "emits K (doM [a, b, c, d, e])
    (\<lambda>t. \<exists>u t1. t = u @ t1 \<and> A u \<and> (\<exists>v t2. t1 = v @ t2 \<and> B v \<and> (\<exists>w t3. t2 = w @ t3 \<and> C w \<and>
      (\<exists>x t4. t3 = x @ t4 \<and> D x \<and> (\<exists>y t5. t4 = y @ t5 \<and> G y \<and> t5 = [])))))"
    by (intro emits_Cons emits_Nil assms(1-5))
  then show ?thesis by (rule emits_mono) (use assms(6) in auto)
qed

lemma emits_child_line:
  assumes "emits K m (\<lambda>u. \<exists>w t. blank w \<and> u = w @ t \<and> P t)"
  shows "emits K (doM [withM (\<lambda>s. whenM (\<not> jw_indented s) writeIndent), modifyM (\<lambda>s. s\<lparr> jw_indented := True \<rparr>), m,
    modifyM (\<lambda>s. s\<lparr> jw_indented := False \<rparr>)]) (\<lambda>u. \<exists>w t. blank w \<and> u = w @ t \<and> P t)"
proof -
  have "emits K (doM [withM (\<lambda>s. whenM (\<not> jw_indented s) writeIndent), modifyM (\<lambda>s. s\<lparr> jw_indented := True \<rparr>), m,
    modifyM (\<lambda>s. s\<lparr> jw_indented := False \<rparr>)])
    (\<lambda>t. \<exists>u t1. t = u @ t1 \<and> blank u \<and> (\<exists>v t2. t1 = v @ t2 \<and> v = [] \<and> (\<exists>w t3. t2 = w @ t3 \<and>
      (\<exists>w' t. blank w' \<and> w = w' @ t \<and> P t) \<and> (\<exists>x t4. t3 = x @ t4 \<and> x = [] \<and> t4 = []))))"
    by (intro emits_Cons emits_Nil assms emits_steps)
  then show ?thesis
  proof (rule emits_mono)
    fix t assume "\<exists>u t1. t = u @ t1 \<and> blank u \<and> (\<exists>v t2. t1 = v @ t2 \<and> v = [] \<and> (\<exists>w t3. t2 = w @ t3 \<and>
      (\<exists>w' t. blank w' \<and> w = w' @ t \<and> P t) \<and> (\<exists>x t4. t3 = x @ t4 \<and> x = [] \<and> t4 = [])))"
    then obtain u w' x where "t = u @ w' @ x" "blank u" "blank w'" "P x" by auto
    then show "\<exists>w t'. blank w \<and> t = w @ t' \<and> P t'" by (intro exI [of _ "u @ w'"] exI [of _ x]) simp
  qed
qed

lemma emits_value_line:
  assumes "u' = w' @ t'" "blank w'" "json_text E d x t'"
  shows "xs = [] \<Longrightarrow> elements_text E d [x] u'"
    and "elements_text E d xs y \<Longrightarrow> elements_text E d (x # xs) (u' @ CHR '','' # y)"
  using json_text_elements_text_members_text.last_element [of E d x t' w' "[]"]
    json_text_elements_text_members_text.more_elements [of E d x t' w' "[]" xs y] assms by simp_all

lemma emits_elements:
  assumes "list_all (child_ok E F d) xs" "xs \<noteq> []"
  shows "emits (children_kept F) (write_elements F False i xs) (elements_text E d (map fst xs))"
  using assms
proof (induction xs arbitrary: i)
  case (Cons c xs)
  obtain x m where c: "c = (x, m)" by fastforce
  have x: "plain (payload x) = x" and m: "emits (children_kept F) m (\<lambda>u. \<exists>w t. blank w \<and> u = w @ t \<and> json_text E d x t)"
    using Cons.prems(1) by (auto simp: c child_ok_def)
  have rest: "emits (children_kept F) (write_elements F False (i + 1) xs)
      (\<lambda>u. if xs = [] then u = [] else elements_text E d (map fst xs) u)"
    using Cons emits_Nil [of "children_kept F"] by (cases xs) simp_all
  show ?case
    unfolding c write_elements.simps uncommented(1) [OF x] if_False
    by (rule emits_round [OF emits_Nil emits_child_line [OF m] emits_steps(3) uncommented(2) [OF x] rest])
      (use emits_value_line in \<open>fastforce split: if_splits\<close>)
qed simp

text \<open>The same loop when the texts of the children are already in \<open>_childValues\<close>.\<close>

lemma emits_cong:
  assumes "\<And>s. K (jw_childValues s) \<Longrightarrow> m s = m' s" "emits K m' T"
  shows "emits K m T"
  using assms by (simp add: emits_def)

lemma childValue_runs: "i < length (jw_childValues s) \<Longrightarrow> bindM (childValue i) f s = f (jw_childValues s ! i) s"
  by (simp add: childValue_def runs)

lemma emits_child_value:
  assumes "i < length cvs"
  shows "emits ((=) cvs) (bindM (childValue i) writeWithIndent) (\<lambda>t. \<exists>w. blank w \<and> t = w @ cvs ! i)"
    and "emits ((=) cvs) (bindM (childValue i) out) (\<lambda>t. t = cvs ! i)"
proof -
  show "emits ((=) cvs) (bindM (childValue i) writeWithIndent) (\<lambda>t. \<exists>w. blank w \<and> t = w @ cvs ! i)"
    by (rule emits_cong [OF _ emits_writeWithIndent]) (use assms in \<open>simp add: childValue_runs\<close>)
  show "emits ((=) cvs) (bindM (childValue i) out) (\<lambda>t. t = cvs ! i)"
    by (rule emits_cong [OF _ emits_steps(1)]) (use assms in \<open>simp add: childValue_runs\<close>)
qed

lemma emits_stored_elements:
  assumes "list_all2 (\<lambda>(x, m) t. plain (payload x) = x \<and> json_text E d x t) xs (drop i cvs)" "xs \<noteq> []"
  shows "emits ((=) cvs) (write_elements F True i xs) (elements_text E d (map fst xs))"
  using assms
proof (induction xs arbitrary: i)
  case (Cons c xs)
  obtain x m where c: "c = (x, m)" by fastforce
  have i: "i < length cvs" using Cons.prems(1) by (cases "i < length cvs") simp_all
  then have d: "drop i cvs = cvs ! i # drop (i + 1) cvs" by (simp add: Cons_nth_drop_Suc)
  have x: "plain (payload x) = x" and t: "json_text E d x (cvs ! i)"
    using Cons.prems(1) by (auto simp: c d)
  have rest: "emits ((=) cvs) (write_elements F True (i + 1) xs)
      (\<lambda>u. if xs = [] then u = [] else elements_text E d (map fst xs) u)"
    using Cons.IH [of "i + 1"] Cons.prems(1) emits_Nil [of "(=) cvs"] by (cases xs) (simp_all add: d)
  show ?case
    unfolding c write_elements.simps uncommented(1) [OF x] if_True
    by (rule emits_round [OF emits_Nil emits_child_value(1) [OF i] emits_steps(3) uncommented(2) [OF x] rest])
      (use emits_value_line [OF _ _ t] in \<open>fastforce split: if_splits\<close>)
qed simp

section \<open>Arrays\<close>

lemma emits_seq3:
  assumes "emits K a A" "emits K b B" "emits K c C" "\<And>u v w. A u \<Longrightarrow> B v \<Longrightarrow> C w \<Longrightarrow> T (u @ v @ w)"
  shows "emits K (doM [a, b, c]) T"
proof -
  have "emits K (doM [a, b, c]) (\<lambda>t. \<exists>u t1. t = u @ t1 \<and> A u \<and> (\<exists>v t2. t1 = v @ t2 \<and> B v \<and>
      (\<exists>w t3. t2 = w @ t3 \<and> C w \<and> t3 = [])))"
    by (intro emits_Cons emits_Nil assms(1-3))
  then show ?thesis by (rule emits_mono) (use assms(4) in auto)
qed

lemma emits_inline:
  assumes "list_all2 (\<lambda>x t. json_text E d x t) xs (drop i cvs)" "xs \<noteq> []"
  shows "emits ((=) cvs) (write_inline F i (length xs))
    (\<lambda>u. \<exists>t. elements_text E d xs t \<and> u = (if i = 0 then t else CHR '','' # t))"
  using assms
proof (induction xs arbitrary: i)
  case (Cons x xs)
  have i: "i < length cvs" using Cons.prems(1) by (cases "i < length cvs") simp_all
  then have d: "drop i cvs = cvs ! i # drop (i + 1) cvs" by (simp add: Cons_nth_drop_Suc)
  have t: "json_text E d x (cvs ! i)" using Cons.prems(1) by (simp add: d)
  let ?sep = "if jf_indentation F \<noteq> [] then '', '' else '',''"
  have rest: "emits ((=) cvs) (write_inline F (i + 1) (length xs))
      (\<lambda>u. if xs = [] then u = [] else \<exists>t. elements_text E d xs t \<and> u = CHR '','' # t)"
    using Cons.IH [of "i + 1"] Cons.prems(1) emits_Nil [of "(=) cvs"] by (cases xs) (simp_all add: d)
  have e: "elements_text E d (x # xs) (b @ cvs ! i @ w)"
    if "blank b" "if xs = [] then w = [] else \<exists>t. elements_text E d xs t \<and> w = CHR '','' # t" for b w
    using that emits_value_line(1) [of _ b "cvs ! i" E d x xs] emits_value_line(2) [of _ b "cvs ! i" E d x xs] t
    by (auto split: if_splits)
  show ?case
    unfolding length_Cons write_inline.simps
  proof (rule emits_seq3 [OF emits_steps(3) emits_child_value(2) [OF i] rest])
    fix u v w
    assume "u = (if i > 0 then ?sep else [])" "v = cvs ! i"
      "if xs = [] then w = [] else \<exists>t. elements_text E d xs t \<and> w = CHR '','' # t"
    then show "\<exists>t. elements_text E d (x # xs) t \<and> u @ v @ w = (if i = 0 then t else CHR '','' # t)"
      using e [of "[]" w] e [of "'' ''" w] by (auto simp: is_json_space_def)
  qed
qed simp

text \<open>The children measured by \<open>isMultilineArray\<close> end up in \<open>_childValues\<close>, one text each.\<close>

lemma measure_runs:
  assumes "list_all (\<lambda>(x, m). child_ok E F d (x, m) \<and> leaf x) xs" "jw_addChildValues s" "i = length (jw_childValues s)"
  shows "\<exists>ts r. list_all2 (\<lambda>(x, m) t. plain (payload x) = x \<and> json_text E d x t) xs ts \<and>
    measure_elements i c n xs s = (Inr r, s\<lparr> jw_childValues := jw_childValues s @ ts \<rparr>)"
  using assms
proof (induction xs arbitrary: i c n s)
  case (Cons y xs)
  obtain x m where y: "y = (x, m)" by fastforce
  obtain t where t: "plain (payload x) = x" "json_text E d x t"
    and m: "m s = (Inr (), s\<lparr> jw_childValues := jw_childValues s @ [t] \<rparr>)"
    using Cons.prems(1,2) by (auto simp: y child_ok_def)
  let ?s = "s\<lparr> jw_childValues := jw_childValues s @ [t] \<rparr>"
  obtain ts r where r: "list_all2 (\<lambda>(x, m) t. plain (payload x) = x \<and> json_text E d x t) xs ts"
    "measure_elements (i + 1) (c \<or> hasCommentForValue x) (n + length t) xs ?s
      = (Inr r, ?s\<lparr> jw_childValues := jw_childValues ?s @ ts \<rparr>)"
    using Cons.IH [of ?s "i + 1" "c \<or> hasCommentForValue x" "n + length t"] Cons.prems by auto
  have "measure_elements i c n (y # xs) s = (Inr r, s\<lparr> jw_childValues := jw_childValues s @ t # ts \<rparr>)"
    using r(2) Cons.prems(3) by (simp add: y thenM_def bindM_def m returnM_def childValue_def withM_def)
  then show ?case using t r(1) by (intro exI [of _ "t # ts"] exI [of _ r]) (simp add: y)
qed (simp add: run_simps)

lemma isMultilineArray_runs:
  assumes "list_all (child_ok E F d) xs" "\<not> jw_addChildValues s"
  obtains ml cvs where "isMultilineArray F xs s = (Inr ml, s\<lparr> jw_childValues := cvs \<rparr>)"
    "(ml \<and> cvs = []) \<or> list_all2 (\<lambda>(x, m) t. plain (payload x) = x \<and> json_text E d x t) xs cvs"
proof (cases "length xs * 3 \<ge> jf_rightMargin F \<or> list_ex (\<lambda>(x, _). (isArray x \<or> isObject x) \<and> \<not> json_empty x) xs")
  case True
  then show thesis using that [of True "[]"] by (simp add: isMultilineArray_def runs)
next
  case False
  let ?s = "s\<lparr> jw_childValues := [], jw_addChildValues := True \<rparr>"
  have "list_all (\<lambda>(x, m). child_ok E F d (x, m) \<and> leaf x) xs"
    using assms(1) False by (auto simp: list_all_iff list_ex_iff leaf_def)
  then obtain ts c n where ts: "list_all2 (\<lambda>(x, m) t. plain (payload x) = x \<and> json_text E d x t) xs ts"
    "measure_elements 0 False (4 + (length xs - 1) * 2) xs ?s = (Inr (c, n), ?s\<lparr> jw_childValues := ts \<rparr>)"
    using measure_runs [of E F d xs ?s 0 False "4 + (length xs - 1) * 2"] by auto
  have "isMultilineArray F xs s = (Inr (c \<or> n \<ge> jf_rightMargin F), s\<lparr> jw_childValues := ts \<rparr>)"
    using False ts(2) assms(2) by (cases s) (simp add: isMultilineArray_def runs bindM_def [of "measure_elements _ _ _ _"] Let_def)
  then show thesis using that ts(1) by blast
qed

lemma elements_blank_end:
  assumes "elements_text E d xs t" "blank w"
  shows "elements_text E d xs (t @ w)"
  using assms(1)
proof (induction xs arbitrary: t)
  case (Cons x xs)
  from Cons.prems show ?case
  proof (cases rule: elements_text.cases)
    case (last_element u v w')
    then show ?thesis
      using json_text_elements_text_members_text.last_element [of E d x u v "w' @ w"] assms(2) by simp
  next
    case (more_elements u v w' z)
    then show ?thesis
      using json_text_elements_text_members_text.more_elements [of E d x u v w' xs "z @ w"] Cons.IH [of z] assms(2) by simp
  qed
qed (auto elim: elements_text.cases)

lemma emits_one_line:
  assumes "list_all2 (json_text E d) xs cvs" "xs \<noteq> []"
  shows "emits ((=) cvs) (writeOneLine F (length xs)) (json_text E (Suc d) (plain (ArrayP xs)))"
proof -
  let ?pad = "whenM (jf_indentation F \<noteq> []) (out '' '')"
  let ?b = "if jf_indentation F \<noteq> [] then '' '' else []"
  have inline: "emits ((=) cvs) (write_inline F 0 (length xs)) (elements_text E d xs)"
    using emits_inline [of E d xs 0 cvs F] assms by simp
  have "emits ((=) cvs) (doM [out ''['', ?pad, write_inline F 0 (length xs), ?pad, out '']''])
      (json_text E (Suc d) (plain (ArrayP xs)))"
  proof (rule emits_round [OF emits_steps(1) emits_steps(3) inline emits_steps(3) emits_steps(1)])
    fix u v t x y
    assume *: "u = ''[''" "v = ?b" "elements_text E d xs t" "x = ?b" "y = '']''"
    have "blank ?b" by (simp add: is_json_space_def)
    then have "elements_text E d xs (?b @ t @ ?b)"
      using *(3) elements_blank elements_blank_end by blast
    then have "json_text E (Suc d) (plain (ArrayP xs)) (''['' @ (?b @ t @ ?b) @ '']'')"
      by (rule text_array)
    then show "json_text E (Suc d) (plain (ArrayP xs)) (u @ v @ t @ x @ y)"
      by (simp only: * append_assoc)
  qed
  then show ?thesis
    by (rule emits_cong [rotated]) (simp add: writeOneLine_def run_simps list_all2_lengthD [OF assms(1)])
qed

definition value_text :: "json_env \<Rightarrow> nat \<Rightarrow> json \<Rightarrow> string \<Rightarrow> bool" where
  "value_text E d x u \<longleftrightarrow> (\<exists>w t. blank w \<and> u = w @ t \<and> json_text E d x t)"

lemma block_array:
  assumes "emits K m (elements_text E d xs)" "blank (jf_indentation F)"
  shows "emits K (doM [writeWithIndent ''['', indent F, m, unindent F, writeWithIndent '']''])
    (value_text E (Suc d) (plain (ArrayP xs)))"
proof (rule emits_mono [OF emits_block [OF assms]])
  fix u assume "\<exists>w t w'. blank w \<and> blank w' \<and> elements_text E d xs t \<and> u = w @ ''['' @ t @ w' @ '']''"
  then obtain w t w' where "blank w" "elements_text E d xs (t @ w')" "u = w @ (''['' @ (t @ w') @ '']'')"
    using elements_blank_end by fastforce
  then show "value_text E (Suc d) (plain (ArrayP xs)) u"
    unfolding value_text_def using text_array by blast
qed

text \<open>Writing the opening bracket leaves \<open>_childValues\<close> alone.\<close>

lemma block_start:
  "doM [writeWithIndent a, indent F, withM (\<lambda>s. g (jw_childValues s)), m, n] s =
   doM [writeWithIndent a, indent F, g (jw_childValues s), m, n] s"
  by (simp add: writeWithIndent_def writeIndent_def out_def indent_def runs)

lemma emits_array:
  assumes "list_all (child_ok E F d) xs" "xs \<noteq> []" "blank (jf_indentation F)"
  shows "emits (children_kept F) (writeArrayValue F xs) (value_text E (Suc d) (plain (ArrayP (map fst xs))))"
proof (rule emitsI)
  fix s :: json_writer
  assume s: "\<not> jw_addChildValues s" "blank (jw_indentString s)" "children_kept F (jw_childValues s)"
  let ?v = "plain (ArrayP (map fst xs))"
  let ?block = "\<lambda>m. doM [writeWithIndent ''['', indent F, m, unindent F, writeWithIndent '']'']"
  let ?stored = "\<lambda>cvs. list_all2 (\<lambda>(x, m) t. plain (payload x) = x \<and> json_text E d x t) xs cvs"
  let ?done = "\<lambda>u r. \<exists>t s'. r = (Inr (), s') \<and> value_text E (Suc d) ?v t \<and> jw_out s' = jw_out u @ t \<and>
    jw_indentString s' = jw_indentString u \<and> \<not> jw_addChildValues s' \<and> children_kept F (jw_childValues s')"
  have fresh: "emits (children_kept F) (?block (write_elements F False 0 xs)) (value_text E (Suc d) ?v)"
    using block_array [OF emits_elements] assms by blast
  have stored: "emits ((=) cvs) (?block (write_elements F True 0 xs)) (value_text E (Suc d) ?v)" if "?stored cvs" for cvs
    using block_array [OF emits_stored_elements [where i = 0]] that assms by simp
  have line: "emits ((=) cvs) (writeOneLine F (length xs)) (value_text E (Suc d) ?v)" if "?stored cvs" for cvs
  proof -
    have "list_all2 (json_text E d) (map fst xs) cvs"
      using that by (auto simp: list_all2_conv_all_nth case_prod_unfold)
    then have "emits ((=) cvs) (writeOneLine F (length xs)) (json_text E (Suc d) ?v)"
      using emits_one_line assms(2) by fastforce
    then show ?thesis by (rule emits_mono) (auto simp: value_text_def intro: exI [of _ "[]"])
  qed
  show "?done s (writeArrayValue F xs s)"
  proof (cases "jf_cs F = CommentAll")
    case True
    then have "writeArrayValue F xs s = ?block (write_elements F False 0 xs) s"
      using s(3) assms(2) block_start [of "''[''" F "\<lambda>cvs. write_elements F (cvs \<noteq> []) 0 xs" "unindent F" "writeWithIndent '']''" s]
      by (simp add: writeArrayValue_def children_kept_def bindM_run del: doM.simps)
    then show ?thesis using fresh s by (simp add: emits_def)
  next
    case False
    then have kept: "children_kept F cvs" for cvs by (simp add: children_kept_def)
    obtain ml cvs where r: "isMultilineArray F xs s = (Inr ml, s\<lparr> jw_childValues := cvs \<rparr>)"
      and cvs: "(ml \<and> cvs = []) \<or> ?stored cvs"
      by (rule isMultilineArray_runs [OF assms(1) s(1)])
    let ?u = "s\<lparr> jw_childValues := cvs \<rparr>"
    have w: "writeArrayValue F xs s =
        (if ml then ?block (write_elements F (cvs \<noteq> []) 0 xs) ?u else writeOneLine F (length xs) ?u)"
      using False assms(2) r
        block_start [of "''[''" F "\<lambda>cvs. write_elements F (cvs \<noteq> []) 0 xs" "unindent F" "writeWithIndent '']''" ?u]
      by (simp add: writeArrayValue_def bindM_def [of "isMultilineArray F xs"] del: doM.simps)
    have u: "\<not> jw_addChildValues ?u" "blank (jw_indentString ?u)" "children_kept F (jw_childValues ?u)"
      using s kept by simp_all
    have "?done ?u (writeArrayValue F xs s)"
    proof (cases "ml \<and> cvs = []")
      case True
      then show ?thesis by (intro emitsD [OF fresh u]) (simp_all only: w simp_thms if_True)
    next
      case False
      then have c: "?stored cvs" using cvs by blast
      then have ne: "cvs \<noteq> []" using assms(2) by auto
      have k: "cvs = jw_childValues ?u" by simp
      show ?thesis
      proof (cases ml)
        case True
        then show ?thesis using ne by (intro emitsD [OF stored [OF c] u(1,2) k]) (simp_all only: w kept simp_thms if_True)
      next
        case False
        then show ?thesis by (intro emitsD [OF line [OF c] u(1,2) k]) (simp_all only: w kept simp_thms if_False)
      qed
    qed
    then show ?thesis by simp
  qed
qed

section \<open>Objects\<close>

lemma emits_members:
  assumes "list_all (\<lambda>k. quotable k \<and> key_ok k \<and> child_ok E F d (children k)) ks" "ks \<noteq> []" "format_ok F"
  shows "emits (children_kept F) (write_members F children ks)
    (members_text E d (map (\<lambda>k. (k, fst (children k))) ks))"
  using assms(1,2)
proof (induction ks)
  case (Cons k ks)
  obtain x m where c: "children k = (x, m)" by fastforce
  have k: "quotable k" "key_ok k" and x: "plain (payload x) = x"
    and m: "emits (children_kept F) m (\<lambda>u. \<exists>w t. blank w \<and> u = w @ t \<and> json_text E d x t)"
    using Cons.prems(1) by (auto simp: c child_ok_def)
  obtain q where q: "string_text k q" "valueToQuotedString k = quoted q" using quoted_string_text [OF k(1)] by blast
  obtain w1 w2 where col: "blank w1" "blank w2" "jf_colonSymbol F = w1 @ '':'' @ w2"
    using assms(3) by (auto simp: format_ok_def)
  let ?kvs = "map (\<lambda>k. (k, fst (children k))) ks"
  have rest: "emits (children_kept F) (write_members F children ks)
      (\<lambda>u. if ks = [] then u = [] else members_text E d ?kvs u)"
    using Cons emits_Nil [of "children_kept F"] by (cases ks) simp_all
  have tail: "emits (children_kept F) (doM [m, whenM (ks \<noteq> []) (out '',''),
        writeCommentAfterValueOnSameLine F x, write_members F children ks])
      (\<lambda>u. \<exists>w t. blank w \<and> json_text E d x t \<and>
        (if ks = [] then u = w @ t else \<exists>v. members_text E d ?kvs v \<and> u = w @ t @ '','' @ v))"
    (is "emits ?K ?m ?T")
  proof -
    have "emits ?K ?m (\<lambda>t. \<exists>u t1. t = u @ t1 \<and> (\<exists>w t. blank w \<and> u = w @ t \<and> json_text E d x t) \<and>
        (\<exists>v t2. t1 = v @ t2 \<and> v = (if ks \<noteq> [] then '','' else []) \<and> (\<exists>w t3. t2 = w @ t3 \<and> w = [] \<and>
          (\<exists>y t4. t3 = y @ t4 \<and> (if ks = [] then y = [] else members_text E d ?kvs y) \<and> t4 = []))))"
      by (intro emits_Cons emits_Nil m emits_steps uncommented(2) [OF x] rest)
    then show ?thesis
    proof (rule emits_mono)
      fix t assume "\<exists>u t1. t = u @ t1 \<and> (\<exists>w t. blank w \<and> u = w @ t \<and> json_text E d x t) \<and>
        (\<exists>v t2. t1 = v @ t2 \<and> v = (if ks \<noteq> [] then '','' else []) \<and> (\<exists>w t3. t2 = w @ t3 \<and> w = [] \<and>
          (\<exists>y t4. t3 = y @ t4 \<and> (if ks = [] then y = [] else members_text E d ?kvs y) \<and> t4 = [])))"
      then obtain w t' y where "blank w" "json_text E d x t'" "t = (w @ t') @ (if ks \<noteq> [] then '','' else []) @ y"
        "if ks = [] then y = [] else members_text E d ?kvs y" by auto
      then show "?T t" by (intro exI [of _ w] exI [of _ t']) auto
    qed
  qed
  have "emits (children_kept F) (doM [doM [], writeWithIndent (quoted q), out (jf_colonSymbol F),
      doM [m, whenM (ks \<noteq> []) (out '',''), writeCommentAfterValueOnSameLine F x, write_members F children ks], doM []])
    (members_text E d ((k, x) # ?kvs))"
  proof (rule emits_round [OF emits_Nil emits_writeWithIndent emits_steps(1) tail emits_Nil])
    fix u v w y z :: string
    assume *: "u = []" "\<exists>w. blank w \<and> v = w @ quoted q" "w = jf_colonSymbol F" "z = []"
      "\<exists>w t. blank w \<and> json_text E d x t \<and>
        (if ks = [] then y = w @ t else \<exists>v. members_text E d ?kvs v \<and> y = w @ t @ '','' @ v)"
    then obtain w0 w3 t where w: "blank w0" "v = w0 @ quoted q" "blank w3" "json_text E d x t"
      "if ks = [] then y = w3 @ t else \<exists>v. members_text E d ?kvs v \<and> y = w3 @ t @ '','' @ v" by blast
    show "members_text E d ((k, x) # ?kvs) (u @ v @ w @ y @ z)"
    proof (cases "ks = []")
      case True
      then show ?thesis
        using last_member [OF q(1) k(2) w(4,1) col(1), of "w2 @ w3" "[]"] * w col by simp
    next
      case False
      then show ?thesis
        using more_members [OF q(1) k(2) w(4,1) col(1), of "w2 @ w3" "[]" ?kvs] * w col by auto
    qed
  qed
  then show ?case
    unfolding emits_def by (simp add: c q(2) uncommented(1) [OF x] list_run bindM_unit)
qed simp

lemma members_blank_end:
  assumes "members_text E d kvs t" "blank w"
  shows "members_text E d kvs (t @ w)"
  using assms(1)
proof (induction kvs arbitrary: t)
  case (Cons kv kvs)
  from Cons.prems show ?case
  proof (cases rule: members_text.cases)
    case (last_member k q x u w0 w1 w2 w3)
    then show ?thesis
      using json_text_elements_text_members_text.last_member [of k q E d x u w0 w1 w2 "w3 @ w"] assms(2) by simp
  next
    case (more_members k q x u w0 w1 w2 w3 z)
    then show ?thesis
      using json_text_elements_text_members_text.more_members [of k q E d x u w0 w1 w2 w3 kvs "z @ w"] Cons.IH [of z] assms(2)
      by simp
  qed
qed (auto elim: members_text.cases)

lemma object_of_sorted:
  assumes "sorted_wrt (<) (map fst kvs)"
  shows "object_of kvs = kvs"
proof -
  have insert_last: "map_insert k x m = m @ [(k, x)]" if "\<forall>k' \<in> fst ` set m. k' < k" for k and x :: json and m
    using that by (induction k x m rule: map_insert.induct) (auto dest: less_asym)
  have "foldl (\<lambda>m (k, x). map_insert k x m) m kvs = m @ kvs"
    if "sorted_wrt (<) (map fst kvs)" "\<forall>k' \<in> fst ` set m. \<forall>k \<in> fst ` set kvs. k' < k" for m
    using that
  proof (induction kvs arbitrary: m)
    case (Cons kv kvs)
    then show ?case using insert_last [of m "fst kv" "snd kv"] by (cases kv) auto
  qed simp
  from this [of "[]"] show ?thesis using assms by (simp add: object_of_def)
qed

lemma emits_object:
  assumes "list_all (\<lambda>(k, c). quotable k \<and> key_ok k \<and> child_ok E F d c) kcs" "kcs \<noteq> []" "format_ok F"
    and "sorted_wrt (<) (map fst kcs)"
  shows "emits (children_kept F) (writeObjectValue F kcs)
    (value_text E (Suc d) (plain (ObjectP (map (\<lambda>(k, c). (k, fst c)) kcs))))"
proof -
  have dist: "distinct (map fst kcs)" using assms(4) by (simp add: strict_sorted_iff)
  have c: "member_child F kcs k = c" if "(k, c) \<in> set kcs" for k c
  proof -
    have "key_ok k" using assms(1) that by (auto simp: list_all_iff)
    then have "c_str k = k" by (auto simp: c_str_def key_ok_def takeWhile_eq_all_conv)
    then show ?thesis using that dist by (simp add: member_child_def)
  qed
  let ?kvs = "map (\<lambda>(k, c). (k, fst c)) kcs"
  have kvs: "map (\<lambda>k. (k, fst (member_child F kcs k))) (map fst kcs) = ?kvs"
    using c by auto
  have "emits (children_kept F) (write_members F (member_child F kcs) (map fst kcs)) (members_text E d ?kvs)"
    unfolding kvs [symmetric]
    using assms(1-3) c by (intro emits_members) (auto simp: list_all_iff)
  then have "emits (children_kept F) (doM [writeWithIndent ''{'', indent F,
      write_members F (member_child F kcs) (map fst kcs), unindent F, writeWithIndent ''}''])
    (\<lambda>u. \<exists>w t w'. blank w \<and> blank w' \<and> members_text E d ?kvs t \<and> u = w @ ''{'' @ t @ w' @ ''}'')"
    using assms(3) by (intro emits_block) (simp_all add: format_ok_def)
  then show ?thesis
    unfolding writeObjectValue_def if_not_P [OF assms(2)]
  proof (rule emits_mono)
    fix u assume "\<exists>w t w'. blank w \<and> blank w' \<and> members_text E d ?kvs t \<and> u = w @ ''{'' @ t @ w' @ ''}''"
    then obtain w t w' where "blank w" and t: "members_text E d ?kvs (t @ w')" and u: "u = w @ (''{'' @ (t @ w') @ ''}'')"
      using members_blank_end by fastforce
    have "map fst ?kvs = map fst kcs" by (simp add: case_prod_unfold comp_def)
    then have "json_text E (Suc d) (plain (ObjectP ?kvs)) (''{'' @ (t @ w') @ ''}'')"
      using text_object [OF t] object_of_sorted [of ?kvs] dist assms(4) by (simp del: map_map)
    then show "value_text E (Suc d) (plain (ObjectP ?kvs)) u"
      unfolding value_text_def using u \<open>blank w\<close> by blast
  qed
qed

section \<open>Values\<close>

lemma signed_range: "sint (n :: 64 word) < 2 ^ 63 \<and> - (2 ^ 63) \<le> sint n"
  using sint_lt [of n] sint_ge [of n] by simp

lemma unsigned_range: "uint (n :: 64 word) < 2 ^ 64 \<and> 0 \<le> uint n"
  using uint_bounded [of n] by simp

lemma integer_text_string: "integer_text n (int_string n)"
proof -
  have "digits (to_string k)" for k using to_string_digits [of k] by (simp add: digits_def)
  then show ?thesis by (auto simp: integer_text_def int_string_def)
qed

text \<open>A value that is no array and no object is pushed as one text.\<close>

lemma child_push:
  assumes "writeValue E F (plain p) = pushValue t" "json_text E d (plain p) t"
  shows "child_ok E F d (plain p, writeValue E F (plain p))"
  unfolding child_ok_def assms(1) prod.case
proof (intro conjI impI)
  show "emits (children_kept F) (pushValue t) (\<lambda>u. \<exists>w t. blank w \<and> u = w @ t \<and> json_text E d (plain p) t)"
    using assms(2) by (intro emits_mono [OF emits_pushValue]) (auto intro: exI [of _ "[]"])
  show "\<exists>t'. json_text E d (plain p) t' \<and> (\<forall>s. jw_addChildValues s \<longrightarrow>
      pushValue t s = (Inr (), s\<lparr> jw_childValues := jw_childValues s @ [t'] \<rparr>))"
    using assms(2) by (intro exI [of _ t]) (simp add: pushValue_def runs)
qed simp

lemma value_text_eq: "(\<lambda>u. \<exists>w t. blank w \<and> u = w @ t \<and> json_text E d x t) = value_text E d x"
  by (simp add: fun_eq_iff value_text_def)

lemma child_complex:
  assumes "emits (children_kept F) (writeValue E F (plain p)) (value_text E d (plain p))" "\<not> leaf (plain p)"
  shows "child_ok E F d (plain p, writeValue E F (plain p))"
  using assms unfolding child_ok_def prod.case value_text_eq by simp

lemma leaf_simps:
  "leaf (plain (ArrayP xs)) \<longleftrightarrow> xs = []" "leaf (plain (ObjectP kvs)) \<longleftrightarrow> kvs = []"
  by (simp_all add: leaf_def isArray_def isObject_def typeOf_def json_empty_def json_size_def isNull_def)

lemma writeValue_plain:
  "writeValue E F (plain NullP) = pushValue (jf_nullSymbol F)"
  "writeValue E F (plain (IntP n)) = pushValue (int_string (sint n))"
  "writeValue E F (plain (UIntP n)) = pushValue (int_string (uint n))"
  "writeValue E F (plain (RealP d)) = pushValue (valueToString E d (jf_useSpecialFloats F) (jf_precision F))"
  "writeValue E F (plain (StringP t)) = pushValue (valueToQuotedString t)"
  "writeValue E F (plain (BoolP b)) = pushValue (if b then ''true'' else ''false'')"
  "writeValue E F (plain (ArrayP xs)) = writeArrayValue F (map (\<lambda>x. (x, writeValue E F x)) xs)"
  "writeValue E F (plain (ObjectP kvs)) = writeObjectValue F (map (\<lambda>(name, x). (name, x, writeValue E F x)) kvs)"
  by (simp_all add: plain_def)

lemma writeValue_text:
  assumes "format_ok F"
  shows "writable E F d v \<Longrightarrow> child_ok E F d (v, writeValue E F v)"
proof (induction d arbitrary: v)
  case (Suc d)
  obtain p where v: "v = plain p" using Suc.prems by (metis writable.simps(2))
  note blanks = text_empty_array [of "[]" E d] text_empty_object [of "[]" E d]
  show ?case
  proof (cases p)
    case NullP
    then show ?thesis using assms text_null
      unfolding v by (intro child_push [where t = "''null''"]) (simp_all add: writeValue_plain format_ok_def)
  next
    case (IntP n)
    then have "- (2 ^ 63) < sint n" "sint n < 2 ^ 63" using Suc.prems signed_range [of n] by (auto simp: v)
    then have "json_text E (Suc d) (plain (IntP (word_of_int (sint n)))) (int_string (sint n))"
      by (intro text_int integer_text_string)
    then show ?thesis unfolding v IntP by (intro child_push) (simp_all add: writeValue_plain)
  next
    case (UIntP n)
    then have "2 ^ 63 \<le> uint n" "uint n < 2 ^ 64" using Suc.prems unsigned_range [of n] by (auto simp: v)
    then have "json_text E (Suc d) (plain (UIntP (word_of_int (uint n)))) (int_string (uint n))"
      by (intro text_uint integer_text_string)
    then show ?thesis unfolding v UIntP by (intro child_push) (simp_all add: writeValue_plain)
  next
    case (RealP x)
    let ?t = "valueToString E x (jf_useSpecialFloats F) (jf_precision F)"
    have "json_text E (Suc d) (plain (RealP x)) ?t"
      using Suc.prems by (intro text_real) (auto simp: v RealP real_ok_def Let_def)
    then show ?thesis unfolding v RealP by (intro child_push) (simp_all add: writeValue_plain)
  next
    case (StringP s)
    then have "quotable s" using Suc.prems by (simp add: v)
    then obtain t where "string_text s t" "valueToQuotedString s = quoted t" using quoted_string_text by blast
    then show ?thesis unfolding v StringP
      by (intro child_push [where t = "quoted t"]) (simp_all add: writeValue_plain text_string)
  next
    case (BoolP b)
    then show ?thesis using text_true [of E d] text_false [of E d]
      unfolding v by (intro child_push [where t = "if b then ''true'' else ''false''"]) (simp_all add: writeValue_plain)
  next
    case (ArrayP xs)
    have c: "list_all (child_ok E F d) (map (\<lambda>x. (x, writeValue E F x)) xs)"
      using Suc by (auto simp: v ArrayP list_all_iff)
    show ?thesis
    proof (cases "xs = []")
      case True
      then show ?thesis using blanks unfolding v ArrayP
        by (intro child_push [where t = "''[]''"]) (simp_all add: writeValue_plain writeArrayValue_def)
    next
      case False
      then show ?thesis using emits_array [OF c] assms unfolding v ArrayP
        by (intro child_complex) (simp_all add: writeValue_plain leaf_simps format_ok_def comp_def)
    qed
  next
    case (ObjectP kvs)
    let ?kcs = "map (\<lambda>(k, x). (k, x, writeValue E F x)) kvs"
    have c: "list_all (\<lambda>(k, c). quotable k \<and> key_ok k \<and> child_ok E F d c) ?kcs" "sorted_wrt (<) (map fst ?kcs)"
      using Suc by (auto simp: v ObjectP list_all_iff comp_def case_prod_unfold)
    have kvs: "map (\<lambda>(k, c). (k, fst c)) ?kcs = kvs" by (induction kvs) auto
    show ?thesis
    proof (cases "kvs = []")
      case True
      then show ?thesis using blanks unfolding v ObjectP
        by (intro child_push [where t = "''{}''"]) (simp_all add: writeValue_plain writeObjectValue_def)
    next
      case False
      then show ?thesis using emits_object [OF c(1) _ assms c(2)] unfolding v ObjectP
        by (intro child_complex) (simp_all add: writeValue_plain leaf_simps kvs del: map_map)
    qed
  qed
qed simp

lemma json_writer_ok:
  assumes "format_ok F" "writable E F d v"
  shows "\<exists>s w t w'. json_write E F v newJsonWriter = (Inr (), s) \<and> jw_out s = w @ t @ w' \<and>
    blank w \<and> blank w' \<and> json_text E d v t"
proof -
  have v: "plain (payload v) = v" using assms(2) by (cases d) simp_all
  let ?s = "newJsonWriter\<lparr> jw_addChildValues := False, jw_indented := True, jw_indentString := [] \<rparr>"
  have c: "emits (children_kept F) (writeValue E F v) (value_text E d v)"
    using writeValue_text [OF assms] unfolding child_ok_def prod.case value_text_eq by blast
  have "emits (children_kept F) (doM [withM (\<lambda>s. whenM (\<not> jw_indented s) writeIndent),
      modifyM (\<lambda>s. s\<lparr> jw_indented := True \<rparr>), writeValue E F v, writeCommentAfterValueOnSameLine F v,
      out (jf_endingLineFeedSymbol F)])
    (\<lambda>u. \<exists>w t w'. u = w @ t @ w' \<and> blank w \<and> blank w' \<and> json_text E d v t)"
  proof (rule emits_round [OF emits_steps(5) emits_steps(2) c uncommented(2) [OF v] emits_steps(1)])
    fix u1 u2 u3 u4 u5 :: string
    assume "blank u1" "u2 = []" "value_text E d v u3" "u4 = []" "u5 = jf_endingLineFeedSymbol F"
    then obtain w t where "blank w" "json_text E d v t" "u1 @ u2 @ u3 @ u4 @ u5 = (u1 @ w) @ t @ u5" "blank u5"
      using assms(1) by (auto simp: value_text_def format_ok_def)
    then show "\<exists>w t w'. u1 @ u2 @ u3 @ u4 @ u5 = w @ t @ w' \<and> blank w \<and> blank w' \<and> json_text E d v t"
      using \<open>blank u1\<close> by (intro exI [of _ "u1 @ w"] exI [of _ t] exI [of _ u5]) simp
  qed
  then have "\<exists>t s'. json_write E F v newJsonWriter = (Inr (), s') \<and>
      (\<exists>w t' w'. t = w @ t' @ w' \<and> blank w \<and> blank w' \<and> json_text E d v t') \<and> jw_out s' = jw_out ?s @ t \<and>
      jw_indentString s' = jw_indentString ?s \<and> \<not> jw_addChildValues s' \<and> True"
    by (rule emitsD) (simp_all add: newJsonWriter_def children_kept_def json_write_def uncommented(1) [OF v] list_run bindM_run)
  then show ?thesis by (auto simp: newJsonWriter_def)
qed

end
