(* ===== verification/Json_Reader_Props.thy ===== *)
theory Json_Reader_Props
  imports Json_Reader
begin

text \<open>
  The reader returns on every document: the bound on nested calls and on the rounds of the loops is
  never used up. What \<open>readValue\<close> does is stated once, as the locale \<open>value_reader\<close>; the loops over
  the elements of arrays and the members of objects rely on it alone, and \<open>readValue\<close> meets it by
  induction on the bound.
\<close>

section \<open>Outcomes\<close>

definition token_in :: "string \<Rightarrow> error_info \<Rightarrow> bool" where
  "token_in doc e \<longleftrightarrow> suffix (tk_start (ei_token e)) doc \<and> suffix (tk_end (ei_token e)) (tk_start (ei_token e))"

text \<open>
  A call that starts in \<open>s\<close> ends by one of the two exceptions of the reader, or it moves forward in the
  document and succeeds exactly if it reports no error.
\<close>

definition outcome :: "string \<Rightarrow> json_reader \<Rightarrow> 'a jr_result \<Rightarrow> bool" where
  "outcome doc s r \<longleftrightarrow> (case r of
     Inl e \<Rightarrow> e \<in> {ParsingError ''Exceeded stackLimit in readValue().'', ParsingError ''keylength >= 2^30''}
   | Inr (ok, x, s') \<Rightarrow> suffix (jr_current s') (jr_current s) \<and>
       (\<exists>es. jr_errors s' = jr_errors s @ es \<and> (ok \<longleftrightarrow> es = []) \<and> list_all (token_in doc) es))"

lemma outcome_simps:
  "outcome doc s (Inl e) \<longleftrightarrow>
     e \<in> {ParsingError ''Exceeded stackLimit in readValue().'', ParsingError ''keylength >= 2^30''}"
  "outcome doc s (Inr (True, x, s')) \<longleftrightarrow> suffix (jr_current s') (jr_current s) \<and> jr_errors s' = jr_errors s"
  "outcome doc s (Inr (False, x, s')) \<longleftrightarrow> suffix (jr_current s') (jr_current s) \<and>
     (\<exists>es. jr_errors s' = jr_errors s @ es \<and> es \<noteq> [] \<and> list_all (token_in doc) es)"
  by (auto simp: outcome_def)

lemma outcome_after:
  assumes "outcome doc t r" "suffix (jr_current t) (jr_current s)" "jr_errors t = jr_errors s"
  shows "outcome doc s r"
  using assms by (auto simp: outcome_def split: sum.splits intro: suffix_order.trans)

lemma outcome_bind:
  assumes "outcome doc s r"
    and "\<And>ok x t. r = Inr (ok, x, t) \<Longrightarrow> outcome doc s (Inr (ok, x, t)) \<Longrightarrow> outcome doc s (f (ok, x, t))"
  shows "outcome doc s (case r of Inl e \<Rightarrow> Inl e | Inr x \<Rightarrow> f x)"
  using assms by (cases r) (auto simp: outcome_simps)

section \<open>Steps\<close>

lemma suffix_skip_comments: "suffix (tk_start (skip_comments F cs)) cs \<and> suffix (tk_end (skip_comments F cs)) (tk_start (skip_comments F cs))"
proof (induction F cs rule: skip_comments.induct)
  case (1 F cs)
  then show ?case
    using suffix_token [of F cs]
    by (subst (1 2 3) skip_comments.simps) (auto simp: Let_def intro: suffix_order.trans)
qed

lemma skip_comments_consumes:
  "tk_type (skip_comments F cs) \<noteq> TokenEndOfStream \<Longrightarrow> length (tk_end (skip_comments F cs)) < length cs"
proof (induction F cs rule: skip_comments.induct)
  case (1 F cs)
  then show ?case
    using token_consumes [of F cs] by (subst skip_comments.simps, subst (asm) (2) skip_comments.simps)
      (auto simp: Let_def split: if_splits)
qed

lemma suffix_skip_until: "suffix (skip_until F ty cs) cs"
proof (induction F ty cs rule: skip_until.induct)
  case (1 F ty cs)
  have "suffix (tk_end (readToken F cs)) cs"
    using suffix_token [of F cs] suffix_order.trans by blast
  with 1 show ?case
    by (subst skip_until.simps) (auto simp: Let_def intro: suffix_order.trans)
qed

lemma suffix_skipCommentTokens:
  "suffix (tk_start (skipCommentTokens F cs)) cs"
  "suffix (tk_end (skipCommentTokens F cs)) (tk_start (skipCommentTokens F cs))"
  using suffix_skip_comments [of F cs] suffix_token [of F cs] by (simp_all add: skipCommentTokens_def)

lemma skipCommentTokens_consumes:
  "tk_type (skipCommentTokens F cs) \<noteq> TokenEndOfStream \<Longrightarrow> length (tk_end (skipCommentTokens F cs)) < length cs"
  using skip_comments_consumes [of F cs] token_consumes [of F cs] by (auto simp: skipCommentTokens_def)

lemmas suffix_tokens = suffix_token suffix_skipCommentTokens conjunct1 [OF suffix_skip_comments]
  conjunct2 [OF suffix_skip_comments]

lemma suffix_token_ends:
  "suffix (tk_end (readToken F cs)) cs" "suffix (tk_end (skip_comments F cs)) cs"
  "suffix (tk_end (skipCommentTokens F cs)) cs"
  using suffix_tokens suffix_order.trans by blast+

lemma outcome_recover:
  "outcome doc s (Inr (False, x, t)) \<Longrightarrow> outcome doc s (Inr (False, y, recoverFromError F ty t))"
  using suffix_order.trans [OF suffix_skip_until] by (auto simp: outcome_simps recoverFromError_def)

lemma outcome_keep:
  assumes "token_in doc e" "suffix (jr_current u) (jr_current s)" "jr_errors u = jr_errors s"
  shows "outcome doc s (Inr (False, x, keepError e u))"
  using assms by (auto simp: outcome_simps keepError_def)

lemma addError_keep: "addError m t u = keepError \<lparr> ei_token = t, ei_message = m, ei_extra = None \<rparr> u"
  by (simp add: addError_def keepError_def)

lemma outcome_error:
  assumes "token_in doc \<lparr> ei_token = t, ei_message = m, ei_extra = None \<rparr>"
    and "suffix (jr_current u) (jr_current s)" "jr_errors u = jr_errors s"
  shows "outcome doc s (Inr (False, x, addErrorAndRecover F m t ty u))"
  unfolding addErrorAndRecover_def addError_keep by (rule outcome_recover [OF outcome_keep [OF assms]])

lemma decode_error_token:
  "decodeString t = Inl e \<Longrightarrow> ei_token e = t" "decodeNumber E t = Inl e \<Longrightarrow> ei_token e = t"
proof -
  have seq: "decodeUnicodeEscapeSequence t tail cs = Inl e \<Longrightarrow> ei_token e = t" for t tail cs e
    by (auto simp: decodeUnicodeEscapeSequence_def string_error_def split: if_splits sum.splits)
  have cp: "decodeUnicodeCodePoint t tail cs = Inl e \<Longrightarrow> ei_token e = t" for t tail cs e
    using seq by (auto simp: decodeUnicodeCodePoint_def string_error_def split: if_splits sum.splits)
  have "decode_chars t tail decoded cs = Inl e \<Longrightarrow> ei_token e = t" for tail decoded cs
  proof (induction t tail decoded cs rule: decode_chars.induct)
    case (2 t tail decoded c cs)
    show ?case
    proof (cases "c = CHR 0x5C \<and> cs \<noteq> []")
      case True
      then obtain r d where cs: "c = CHR 0x5C" "cs = d # r" by (cases cs) auto
      show ?thesis
      proof (cases "decode_escape d")
        case None
        show ?thesis
        proof (cases "decodeUnicodeCodePoint t tail r")
          case (Inl e')
          with 2 cs None show ?thesis using cp [OF Inl] by (auto simp: string_error_def split: if_splits)
        next
          case (Inr p)
          with 2 cs None show ?thesis by (cases p) (auto simp: string_error_def split: if_splits)
        qed
      next
        case (Some x)
        with 2 cs show ?thesis by simp
      qed
    next
      case False
      then show ?thesis using 2 by (cases cs) (auto simp: string_error_def split: if_splits)
    qed
  qed simp
  then show "decodeString t = Inl e \<Longrightarrow> ei_token e = t" by (auto simp: decodeString_def Let_def)
  show "decodeNumber E t = Inl e \<Longrightarrow> ei_token e = t"
    by (auto simp: decodeNumber_def decodeDouble_def Let_def split: option.splits if_splits)
qed

section \<open>The contract of reading a value\<close>

text \<open>What the loops rely on: every call on less than \<open>n\<close> octets of the document has an outcome.\<close>

locale value_reader =
  fixes rv :: "json \<Rightarrow> json_reader \<Rightarrow> json jr_result" and n :: nat and doc :: string
  assumes reads: "length (jr_current s) < n \<Longrightarrow> suffix (jr_current s) doc \<Longrightarrow> outcome doc s (rv v s)"
begin

lemma element_round:
  assumes "length (jr_current s) < n" "suffix (jr_current s) doc" "rv v s = Inr (ok, x, t)"
  shows "suffix (jr_current t) (jr_current s)" "suffix (jr_current t) doc"
    and "length (jr_current t) \<le> length (jr_current s)"
    and "ok \<Longrightarrow> jr_errors t = jr_errors s"
    and "\<not> ok \<Longrightarrow> outcome doc s (Inr (False, y, recoverFromError F ty t))"
proof -
  have o: "outcome doc s (Inr (ok, x, t))" using reads [OF assms(1,2), of v] assms(3) by simp
  then show s: "suffix (jr_current t) (jr_current s)" by (simp add: outcome_def)
  then show "suffix (jr_current t) doc" "length (jr_current t) \<le> length (jr_current s)"
    using assms(2) suffix_order.trans suffix_length_le by blast+
  show "ok \<Longrightarrow> jr_errors t = jr_errors s" using o by (simp add: outcome_def)
  show "\<not> ok \<Longrightarrow> outcome doc s (Inr (False, y, recoverFromError F ty t))"
    using o by (auto intro: outcome_recover)
qed

lemma after_element_reads:
  assumes "length (jr_current s) < n" "suffix (jr_current s) doc" "rv v s = Inr (ok, x, u)"
    and "\<And>ys w. length (jr_current w) < length (jr_current s) \<Longrightarrow> suffix (jr_current w) doc \<Longrightarrow> outcome doc w (go_on ys w)"
  shows "outcome doc s (after_element F xs go_on (ok, x, u))"
proof -
  note e = element_round [OF assms(1-3)]
  let ?t = "skip_comments F (jr_current u)"
  have t: "token_in doc \<lparr> ei_token = ?t, ei_message = m, ei_extra = None \<rparr>"
    "suffix (tk_end ?t) (jr_current s)" "suffix (tk_end ?t) doc" for m
    using suffix_skip_comments [of F "jr_current u"] e(1,2) assms(2)
    by (auto simp: token_in_def intro: suffix_order.trans)
  show ?thesis
  proof (cases "ok \<and> tk_type ?t = TokenArraySeparator")
    case True
    then have "length (tk_end ?t) < length (jr_current u)" by (intro skip_comments_consumes) simp
    then have "outcome doc (u\<lparr> jr_current := tk_end ?t \<rparr>) (go_on (xs @ [x]) (u\<lparr> jr_current := tk_end ?t \<rparr>))"
      using e(3) t(3) by (intro assms(4)) simp_all
    then show ?thesis
      using True t(2) e(4) by (auto simp: after_element_def Let_def intro: outcome_after)
  next
    case False
    then show ?thesis
      using e t by (auto simp: after_element_def Let_def outcome_simps(2) intro!: outcome_error)
  qed
qed

lemma array_round:
  assumes "length (jr_current s) < n" "length (jr_current s) < m" "suffix (jr_current s) doc"
  shows "outcome doc s (array_loop rv F m xs s)"
  using assms
proof (induction m arbitrary: xs s)
  case (Suc m)
  have "outcome doc s (case rv nullSingleton s of Inl e \<Rightarrow> Inl e
    | Inr x \<Rightarrow> after_element F xs (\<lambda>xs s. array_loop rv F m xs s) x)"
    using Suc by (intro outcome_bind [OF reads] after_element_reads) auto
  then show ?case by simp
qed simp

lemma array_reads:
  assumes "length (jr_current s) < n" "length (jr_current s) < m" "suffix (jr_current s) doc"
  shows "outcome doc s (readArray rv F m s)"
proof -
  let ?c = "skipSpaces (jr_current s)"
  have c: "suffix ?c (jr_current s)" "suffix ?c doc"
    using suffix_skips(1) suffix_order.trans [OF _ assms(3)] by blast+
  have "outcome doc s (array_loop rv F m [] (s\<lparr> jr_current := ?c \<rparr>))"
    using c suffix_length_le [OF c(1)] assms
    by (intro outcome_after [OF array_round]) simp_all
  then show ?thesis
    using suffix_order.trans [OF suffix_token_ends(1) c(1)]
    by (simp add: readArray_def Let_def outcome_simps)
qed

end

text \<open>The loop of \<open>readObject\<close>, cut into what stands before and behind the call for the member's value.\<close>

lemma member_end_moves:
  assumes "member_end F u = (comma, w)"
  shows "suffix (jr_current w) (jr_current u)" "jr_errors w = jr_errors u"
proof -
  let ?t = "readToken F (jr_current u)"
  have w: "w = u\<lparr> jr_current := tk_end (if tk_type ?t = TokenComment then skip_comments F (tk_end ?t) else ?t) \<rparr>"
    using assms by (auto simp: member_end_def Let_def)
  have s: "suffix (jr_current w) (tk_end ?t)" using suffix_token_ends(2) by (simp add: w)
  then show "suffix (jr_current w) (jr_current u)" using suffix_token_ends(1) suffix_order.trans by blast
  show "jr_errors w = jr_errors u" by (simp add: w)
qed

context value_reader
begin

lemma after_member_reads:
  assumes "length (jr_current s) < n" "suffix (jr_current s) doc" "rv v s = Inr (ok, x, u)"
    and "\<And>kvs name w. length (jr_current w) \<le> length (jr_current s) \<Longrightarrow> suffix (jr_current w) doc \<Longrightarrow>
      outcome doc w (go_on kvs name w)"
  shows "outcome doc s (after_member F kvs name go_on (ok, x, u))"
proof -
  note e = element_round [OF assms(1-3)]
  let ?first = "readToken F (jr_current u)"
  have f: "token_in doc \<lparr> ei_token = ?first, ei_message = m, ei_extra = None \<rparr>"
    "suffix (tk_end ?first) (jr_current s)" for m
    using suffix_token [of F "jr_current u"] e(1,2) by (auto simp: token_in_def intro: suffix_order.trans)
  obtain comma w where w: "member_end F u = (comma, w)" by fastforce
  have sw: "suffix (jr_current w) (jr_current s)" "suffix (jr_current w) doc" "jr_errors w = jr_errors u"
    using member_end_moves [OF w] e(1,2) suffix_order.trans by blast+
  have "outcome doc w (go_on kvs name w)" for kvs name
    using sw suffix_length_le by (intro assms(4)) auto
  then have "outcome doc s (go_on kvs name w)" if ok for kvs name
    using e(4) [OF that] sw by (metis outcome_after)
  then show ?thesis
    using e(4,5) f sw by (auto simp: after_member_def Let_def w outcome_simps(2) intro!: outcome_error)
qed

lemma before_value_reads:
  assumes "suffix (jr_current s) doc" and "\<And>e. ei_token e = tokenName \<Longrightarrow> token_in doc e"
    and "\<And>v w. length (jr_current w) \<le> length (jr_current s) \<Longrightarrow> suffix (jr_current w) doc \<Longrightarrow>
      outcome doc w (go_on v w)"
  shows "outcome doc s (before_value F kvs tokenName name go_on s)"
proof -
  let ?colon = "readToken F (jr_current s)" and ?w = "s\<lparr> jr_current := tk_end (readToken F (jr_current s)) \<rparr>"
  have c: "suffix (tk_end ?colon) (jr_current s)" "suffix (tk_end ?colon) doc"
    using suffix_token_ends(1) suffix_order.trans [OF _ assms(1)] by blast+
  have "token_in doc e" if "ei_token e = ?colon" for e
    using suffix_token [of F "jr_current s"] assms(1) that by (auto simp: token_in_def intro: suffix_order.trans)
  moreover have "outcome doc s (go_on v ?w)" for v
    using c suffix_length_le [OF c(1)] by (intro outcome_after [OF assms(3)]) simp_all
  ultimately show ?thesis
    using assms(2) c by (auto simp: before_value_def Let_def outcome_simps(1) intro!: outcome_error)
qed

lemma object_round:
  assumes "length (jr_current s) < n" "length (jr_current s) < m" "suffix (jr_current s) doc"
  shows "outcome doc s (object_loop rv E F m kvs name s)"
  using assms
proof (induction m arbitrary: kvs name s)
  case (Suc m)
  let ?t = "skip_comments F (jr_current s)"
  let ?s = "s\<lparr> jr_current := tk_end ?t \<rparr>"
  have t: "token_in doc e" if "ei_token e = ?t" for e
    using suffix_skip_comments [of F "jr_current s"] Suc.prems(3) that
    by (auto simp: token_in_def intro: suffix_order.trans)
  have st: "suffix (tk_end ?t) (jr_current s)" by (rule suffix_token_ends)
  have "outcome doc s (case member_name E F ?t of
        None \<Rightarrow> Inr (False, kvs,
          addErrorAndRecover F ''Missing '}' or object member name'' ?t TokenObjectEnd ?s)
      | Some (Inl e) \<Rightarrow> Inr (False, kvs, recoverFromError F TokenObjectEnd (keepError e ?s))
      | Some (Inr name) \<Rightarrow> before_value F kvs ?t name (\<lambda>v s. bindE (rv v s)
          (after_member F kvs name (\<lambda>kvs name s. object_loop rv E F m kvs name s))) ?s)"
  proof (cases "member_name E F ?t")
    case None
    then show ?thesis using t st by (auto intro!: outcome_error)
  next
    case (Some r)
    have consumed: "length (tk_end ?t) < length (jr_current s)"
      using Some by (intro skip_comments_consumes) (auto simp: member_name_def split: if_splits)
    show ?thesis
    proof (cases r)
      case (Inl e)
      have "ei_token e = ?t"
        using Some Inl decode_error_token by (auto simp: member_name_def split: if_splits sum.splits)
      then show ?thesis
        using t st Some Inl by (auto intro!: outcome_recover outcome_keep)
    next
      case (Inr name')
      have "outcome doc ?s (before_value F kvs ?t name' (\<lambda>v s. bindE (rv v s)
          (after_member F kvs name' (\<lambda>kvs name s. object_loop rv E F m kvs name s))) ?s)"
        using Suc.prems consumed suffix_order.trans [OF st Suc.prems(3)] t unfolding bindE_def
        by (intro before_value_reads outcome_bind [OF reads] after_member_reads Suc.IH) auto
      then show ?thesis using Some Inr st by (auto intro: outcome_after)
    qed
  qed
  then show ?case using st by (simp add: Let_def outcome_simps(2))
qed simp

end

lemma outcome_set_decoded:
  assumes "\<And>e. r = Inl e \<Longrightarrow> token_in doc e" "suffix (jr_current u) (jr_current s)" "jr_errors u = jr_errors s"
  shows "outcome doc s (set_decoded f v r u)"
  using assms by (auto simp: set_decoded_def outcome_simps(2) intro: outcome_keep split: sum.split)

lemma outcome_payload:
  assumes "outcome doc t r" "suffix (jr_current t) (jr_current s)" "jr_errors t = jr_errors s"
  shows "outcome doc s (case r of Inl e \<Rightarrow> Inl e | Inr x \<Rightarrow> (case x of (ok, p, u) \<Rightarrow> Inr (ok, f p, u)))"
  using outcome_after [OF assms] by (auto simp: outcome_def split: sum.split)

lemma readValue_reads:
  assumes "\<And>depth. value_reader (readValue E F n depth) n doc"
    and "length (jr_current s) \<le> n" "suffix (jr_current s) doc"
  shows "outcome doc s (readValue E F (Suc n) depth v s)"
proof -
  let ?t = "skipCommentTokens F (jr_current s)"
  let ?s = "s\<lparr> jr_current := tk_end ?t \<rparr>"
  have t: "token_in doc e" if "ei_token e = ?t" for e
    using suffix_skipCommentTokens [of F "jr_current s"] assms(3) that
    by (auto simp: token_in_def intro: suffix_order.trans)
  have st: "suffix (tk_end ?t) (jr_current s)" "suffix (tk_start ?t) (jr_current s)" "suffix (tk_end ?t) doc"
    using suffix_token_ends(3) suffix_skipCommentTokens(1) suffix_order.trans [OF _ assms(3)] by blast+
  have short: "length (tk_end ?t) < n" if "tk_type ?t \<noteq> TokenEndOfStream"
    using skipCommentTokens_consumes [OF that] assms(2) by simp
  have array: "outcome doc ?s (readArray (readValue E F n (depth + 1)) F n ?s)"
    and object: "outcome doc ?s (object_loop (readValue E F n (depth + 1)) E F n [] [] ?s)"
    if "tk_type ?t \<noteq> TokenEndOfStream"
    using value_reader.array_reads [OF assms(1)] value_reader.object_round [OF assms(1)] short [OF that] st(3)
    by simp_all
  show ?thesis
  proof (cases "int depth > rf_stackLimit F")
    case False
    have "outcome doc s (set_decoded (\<lambda>p. setPayload p v) v (decodeNumber E ?t) ?s)"
      "outcome doc s (set_decoded (\<lambda>p. setPayload p v) v (bindE (decodeString ?t) (\<lambda>text. Inr (StringP text))) ?s)"
      "outcome doc s (Inr (False, v, syntax_error ?t ?s))"
      using st t decode_error_token unfolding syntax_error_def addError_keep
      by (auto intro!: outcome_set_decoded outcome_keep split: sum.splits)
    then show ?thesis
      using False st outcome_payload [OF array, of s] outcome_payload [OF object, of s]
      by (cases "tk_type ?t") (simp_all add: Let_def constant_value_def outcome_simps(2))
  qed (simp add: outcome_simps)
qed

lemma value_reader_readValue: "value_reader (readValue E F n depth) n doc"
proof (induction n arbitrary: depth)
  case 0
  show ?case by unfold_locales simp
next
  case (Suc n)
  then show ?case by unfold_locales (simp only: readValue_reads less_Suc_eq_le)
qed

interpretation reader: value_reader "readValue E F n depth" n doc for E F n depth doc
  by (rule value_reader_readValue)

section \<open>Every document\<close>

text \<open>
  C26: reading ends on every document, whatever the features: with one of the two exceptions of the
  reader, or with a result that is a success exactly if no error was reported, each error lying at a
  token of the document. One case is left open: comments are to be collected, \<open>allowComments\<close> is off,
  and there is a slash in the document.
\<close>

theorem json_parse_returns:
  "case json_parse E F c doc v of
     Inl e \<Rightarrow> e = ParsingError ''Exceeded stackLimit in readValue().'' \<or> e = ParsingError ''keylength >= 2^30''
         \<or> e = CommentCollected \<and> collects c F \<and> CHR ''/'' \<in> set doc
   | Inr (ok, w, s) \<Rightarrow> (ok \<longleftrightarrow> jr_errors s = []) \<and>
       list_all (\<lambda>(a, b, m). 0 \<le> a \<and> a \<le> b \<and> b \<le> int (length doc)) (getStructuredErrors doc s)"
proof -
  let ?s0 = "\<lparr> jr_current = doc, jr_errors = [] \<rparr>"
  have fine: "case r of
     Inl e \<Rightarrow> e = ParsingError ''Exceeded stackLimit in readValue().'' \<or> e = ParsingError ''keylength >= 2^30''
   | Inr (ok, w, s) \<Rightarrow> (ok \<longleftrightarrow> jr_errors s = []) \<and>
       list_all (\<lambda>(a, b, m). 0 \<le> a \<and> a \<le> b \<and> b \<le> int (length doc)) (getStructuredErrors doc s)"
    if "outcome doc ?s0 r" for r :: "json jr_result"
  proof (cases r)
    case (Inr x)
    obtain ok w s where x: "x = (ok, w, s)" by (cases x)
    have "ok \<longleftrightarrow> jr_errors s = []" "list_all (token_in doc) (jr_errors s)"
      using that Inr x by (auto simp: outcome_def)
    then show ?thesis
      using Inr x suffix_length_le
      by (fastforce simp: getStructuredErrors_def list_all_iff token_in_def)
  qed (use that in \<open>simp add: outcome_simps\<close>)
  have read: "outcome doc ?s0 (bindE (readValue E F (length doc + 1) 1 v ?s0) (after_root F doc))"
    unfolding bindE_def
  proof (rule outcome_bind [OF reader.reads])
    fix ok u and x :: json
    assume o: "outcome doc ?s0 (Inr (ok, x, u))"
    let ?t = "skipCommentTokens F (jr_current u)"
    have u: "suffix (jr_current u) doc" using o by (simp add: outcome_def)
    then have t: "suffix (tk_start ?t) doc" "suffix (tk_end ?t) (tk_start ?t)"
      using suffix_skipCommentTokens [of F "jr_current u"] suffix_order.trans by blast+
    have "suffix (tk_end ?t) doc" using suffix_token_ends(3) u suffix_order.trans by blast
    moreover obtain es where "jr_errors u = es" "ok \<longleftrightarrow> es = []" "list_all (token_in doc) es"
      using o by (auto simp: outcome_def)
    ultimately show "outcome doc ?s0 (after_root F doc (ok, x, u))"
      using t by (auto simp: after_root_def Let_def outcome_def addError_def token_in_def)
  qed simp_all
  show ?thesis
  proof (cases "collects c F \<and> CHR ''/'' \<in> set doc")
    case False
    then have "json_parse E F c doc v = bindE (readValue E F (length doc + 1) 1 v ?s0) (after_root F doc)"
      by (auto simp: json_parse_def simp del: readValue.simps)
    then show ?thesis using fine [OF read] by (auto split: sum.splits)
  qed (simp add: json_parse_def)
qed

end
