(* ===== verification/Json_Roundtrip.thy ===== *)
theory Json_Roundtrip
  imports Json_Writer_Props Json_Reader_Props
begin

text \<open>
  JSON values, their texts and their conversions together: what is written is read back, and a value
  says that it is convertible exactly if its conversion does not throw.
\<close>

section \<open>The default settings\<close>

definition default_format :: json_format where
  "default_format = newJsonFormat [CHR 0x09] CommentAll '' : '' ''null'' [] False 17"

definition default_features :: json_features where
  "default_features = \<lparr> rf_allowComments = True, rf_strictRoot = False, rf_allowDroppedNullPlaceholders = False,
     rf_allowNumericKeys = False, rf_allowSingleQuotes = False, rf_failIfExtra = False, rf_rejectDupKeys = False,
     rf_allowSpecialFloats = False, rf_stackLimit = 1000 \<rparr>"

lemmas settings_simps = assign_all_def assign_key_def key_ref_def set_key_def nullSingleton_def isNull_def typeOf_def
  plain_def setPayload_def c_str_def setting_def key_const_def json_find_def asBool_def asString_def asInt_def asUInt_def

lemma default_writer:
  "bindE (writer_setDefaults nullSingleton) (newStreamWriter E) = Inr default_format"
  by (simp add: writer_setDefaults_def newStreamWriter_def settings_simps default_format_def)

lemma default_reader:
  "bindE (reader_setDefaults nullSingleton) newCharReader = Inr (True, default_features)"
  by (simp add: reader_setDefaults_def newCharReader_def settings_simps default_features_def)

lemma default_format_ok: "format_ok default_format"
  by (auto simp: format_ok_def default_format_def newJsonFormat_def is_json_space_def
      intro!: exI [of _ "'' ''"] exI [of _ "'' ''"])

section \<open>Texts\<close>

text \<open>
  C25: a document that is a JSON text with blanks around it is read as the value it stands for, without an
  error message. The texts are those of the grammar \<open>json_text\<close>: the member names of an object are distinct, without
  NUL and shorter than \<open>2^30\<close> octets, integers lie from \<open>1 - 2^63\<close> to \<open>2^64 - 1\<close>, and a real is as the platform scans its text. The text is nested no
  deeper than the stack limit; if \<open>strictRoot\<close> is set the value is an array or an object; and if comments are
  collected, with \<open>allowComments\<close> off, there is no slash in the document. The other settings do not matter.
\<close>

theorem json_reader_accepts:
  assumes "json_text E d x t" "blank w" "blank w'"
    and "newCharReader rs = Inr (c, R)" "int d \<le> rf_stackLimit R" "rf_strictRoot R \<Longrightarrow> isArray x \<or> isObject x"
    and "collects c R \<Longrightarrow> CHR ''/'' \<notin> set (w @ t @ w')"
  shows "parseFromStream E rs (w @ t @ w') v = Inr (True, setPayload (payload x) v, [])"
  using json_text_accepted [OF assms(1-3,5-7)] assms(4)
  by (simp add: parseFromStream_def getFormattedErrorMessages_def)

text \<open>
  C28: a value is written as a JSON text that stands for it, between blanks. The layout is one that
  \<open>format_ok\<close> admits: the indentation and the ending line feed are blank, the colon is one with blanks around
  it, and null is written as \<open>null\<close> (with \<open>dropNullPlaceholders\<close> nothing is written). The value is
  \<open>writable\<close>: no comments; strings and names of code points below \<open>U+40000\<close> in UTF-8, names without NUL;
  a signed integer is not \<open>-2^63\<close>, an unsigned one is at least \<open>2^63\<close> (a smaller one is read back as a
  signed one); and a real is one that the writer prints as a number that is no integer and that the platform
  scans back, so no NaN and no \<open>1.0\<close>.
\<close>

theorem json_writer_text:
  assumes "newStreamWriter E ws = Inr F" "format_ok F" "writable E F d v"
  shows "\<exists>w t w'. writeString E ws v = Inr (w @ t @ w') \<and> blank w \<and> blank w' \<and> json_text E d v t"
proof -
  obtain s w t w' where "json_write E F v newJsonWriter = (Inr (), s)" "jw_out s = w @ t @ w'"
    "blank w" "blank w'" "json_text E d v t" using json_writer_ok [OF assms(2,3)] by blast
  then show ?thesis
    using assms(1) by (intro exI [of _ w] exI [of _ t] exI [of _ w']) (simp add: writeString_def)
qed

section \<open>Round trip\<close>

text \<open>
  C24: what \<open>writeString\<close> writes for a value, \<open>parseFromStream\<close> reads back as this value without an
  error, into any value. The layout and the value are those of the claim above (\<open>format_ok\<close>, \<open>writable\<close>), the
  nesting is within the stack limit of the reader, the value is an array or an object if \<open>strictRoot\<close> is
  set, and if comments are collected, with \<open>allowComments\<close> off, there is no slash in what was written.
\<close>

theorem json_roundtrip:
  assumes "newStreamWriter E ws = Inr F" "format_ok F" "writable E F d v"
    and "newCharReader rs = Inr (c, R)" "int d \<le> rf_stackLimit R" "rf_strictRoot R \<Longrightarrow> isArray v \<or> isObject v"
  shows "\<exists>t. writeString E ws v = Inr t \<and> (\<not> collects c R \<or> CHR ''/'' \<notin> set t \<longrightarrow>
    parseFromStream E rs t w = Inr (True, setPayload (payload v) w, []))"
proof -
  obtain s b t b' where w: "json_write E F v newJsonWriter = (Inr (), s)" "jw_out s = b @ t @ b'"
    "blank b" "blank b'" "json_text E d v t" using json_writer_ok [OF assms(2,3)] by blast
  have "writeString E ws v = Inr (b @ t @ b')" using assms(1) w(1,2) by (simp add: writeString_def)
  moreover have "parseFromStream E rs (b @ t @ b') w = Inr (True, setPayload (payload v) w, [])"
    if "\<not> collects c R \<or> CHR ''/'' \<notin> set (b @ t @ b')"
    using json_text_accepted [OF w(5,3,4) assms(5,6), of c w] assms(4) that
    by (auto simp: parseFromStream_def getFormattedErrorMessages_def)
  ultimately show ?thesis by blast
qed

section \<open>Conversions\<close>

lemmas conversion_simps = isNumeric_def isNull_def isArray_def isObject_def typeOf_def InRange_def
  not_convertible_def

text \<open>
  C27: \<open>isConvertibleTo\<close> is true exactly if the conversion to the type returns a value instead of
  throwing; for arrays and objects, if the value can be indexed and have members assigned.
\<close>

theorem convertible_iff:
  "(isConvertibleTo E v IntValue \<longleftrightarrow> (\<exists>n. asInt v = Inr n)) \<and>
   (isConvertibleTo E v UIntValue \<longleftrightarrow> (\<exists>n. asUInt v = Inr n)) \<and>
   (isConvertibleTo E v RealValue \<longleftrightarrow> (\<exists>x. asDouble E v = Inr x)) \<and>
   (isConvertibleTo E v StringValue \<longleftrightarrow> (\<exists>s. asString E v = Inr s)) \<and>
   (isConvertibleTo E v BoolValue \<longleftrightarrow> (\<exists>b. asBool v = Inr b)) \<and>
   (isConvertibleTo E v ArrayValue \<longleftrightarrow> (\<exists>w. json_append x v = Inr w)) \<and>
   (isConvertibleTo E v ObjectValue \<longleftrightarrow> (\<exists>w. assign_key k x v = Inr w))"
proof -
  have "isConvertibleTo E v IntValue \<longleftrightarrow> (\<exists>n. asInt v = Inr n)"
    by (cases "payload v") (auto simp: isConvertibleTo_def isInt_def asInt_def conversion_simps)
  moreover have "isConvertibleTo E v UIntValue \<longleftrightarrow> (\<exists>n. asUInt v = Inr n)"
    by (cases "payload v") (auto simp: isConvertibleTo_def isUInt_def asUInt_def conversion_simps)
  moreover have "isConvertibleTo E v RealValue \<longleftrightarrow> (\<exists>x. asDouble E v = Inr x)"
    by (cases "payload v") (simp_all add: isConvertibleTo_def asDouble_def conversion_simps)
  moreover have "isConvertibleTo E v StringValue \<longleftrightarrow> (\<exists>s. asString E v = Inr s)"
    by (cases "payload v") (simp_all add: isConvertibleTo_def asString_def conversion_simps)
  moreover have "isConvertibleTo E v BoolValue \<longleftrightarrow> (\<exists>b. asBool v = Inr b)"
    by (cases "payload v") (auto simp: isConvertibleTo_def asBool_def conversion_simps intro: exI [of _ False])
  moreover have "isConvertibleTo E v ArrayValue \<longleftrightarrow> (\<exists>w. json_append x v = Inr w)"
    by (cases "payload v") (simp_all add: isConvertibleTo_def json_append_def index_ref_def conversion_simps)
  moreover have "isConvertibleTo E v ObjectValue \<longleftrightarrow> (\<exists>w. assign_key k x v = Inr w)"
    by (cases "payload v") (simp_all add: isConvertibleTo_def assign_key_def key_ref_def conversion_simps Let_def)
  ultimately show ?thesis by blast
qed

section \<open>Concrete cases\<close>

definition demo_env :: json_env where
  "demo_env = \<lparr> je_show = (\<lambda>p x. ''1.5''), je_scan = (\<lambda>s. Some (Finite (3 / 2))), je_decimal_point = CHR ''.'',
     je_double = real_of_int, je_float = (\<lambda>x. x) \<rparr>"

definition demo_value :: json where
  "demo_value = plain (ObjectP
     [(''a'', plain (ArrayP [plain (IntP 1), plain (IntP (- 2)), plain NullP, plain (RealP (Finite (3 / 2)))])),
      (''b'', plain (StringP (utf8_text [120, 10, 0x20AC])))])"

lemma demo_writable: "writable demo_env default_format 3 demo_value"
proof -
  have "quotable ''a''" "quotable ''b''" by (simp_all add: quotable_ascii)
  moreover have "quotable (utf8_text [120, 10, 0x20AC])"
    unfolding quotable_def by (intro exI [of _ "[120, 10, 0x20AC]"]) (simp add: unicode_scalar_def)
  moreover have "real_ok demo_env default_format (Finite (3 / 2))"
  proof -
    have "number_text ''1.5''"
      unfolding number_text_def fraction_text_def exponent_text_def digits_def
      by (intro exI [of _ "[]"] exI [of _ "''1''"] exI [of _ "''.5''"]) (simp add: is_digit_def)
    moreover have "\<not> integer_text n ''1.5''" for n
      by (simp add: integer_text_def digits_def is_digit_def)
    ultimately show ?thesis
      by (simp add: real_ok_def demo_env_def scanned_def fixNumericLocaleInput_def)
  qed
  ultimately show ?thesis
    by (simp add: demo_value_def numeral_3_eq_3 key_ok_def less_char_def)
qed

lemma default_settings:
  obtains ws rs where "writer_setDefaults nullSingleton = Inr ws" "newStreamWriter E ws = Inr default_format"
    "reader_setDefaults nullSingleton = Inr rs" "newCharReader rs = Inr (True, default_features)"
  using default_writer [of E] default_reader by (auto split: sum.splits)

lemma json_roundtrip_witness:
  "\<exists>t. json_put demo_env demo_value = Inr t \<and> json_get demo_env t nullSingleton = Inr demo_value"
proof -
  obtain ws rs where s: "writer_setDefaults nullSingleton = Inr ws" "newStreamWriter demo_env ws = Inr default_format"
    "reader_setDefaults nullSingleton = Inr rs" "newCharReader rs = Inr (True, default_features)"
    by (rule default_settings)
  have "rf_strictRoot default_features \<Longrightarrow> isArray demo_value \<or> isObject demo_value"
    "int 3 \<le> rf_stackLimit default_features" by (simp_all add: default_features_def)
  from json_roundtrip [OF s(2) default_format_ok demo_writable s(4) this(2,1), of nullSingleton]
  obtain t where "writeString demo_env ws demo_value = Inr t"
    "parseFromStream demo_env rs t nullSingleton = Inr (True, setPayload (payload demo_value) nullSingleton, [])"
    by (auto simp: collects_def default_features_def)
  then show ?thesis
    using s by (simp add: json_put_def json_get_def demo_value_def)
qed

lemma json_writer_text_witness:
  "\<exists>w t w'. json_put demo_env demo_value = Inr (w @ t @ w') \<and> json_text demo_env 3 demo_value t"
proof -
  obtain ws where s: "writer_setDefaults nullSingleton = Inr ws" "newStreamWriter demo_env ws = Inr default_format"
    by (rule default_settings)
  show ?thesis
    using json_writer_text [OF s(2) default_format_ok demo_writable] s(1) by (auto simp: json_put_def)
qed

lemma json_reader_accepts_witness:
  "json_get demo_env '' [1, true] '' nullSingleton = Inr (plain (ArrayP [plain (IntP 1), plain (BoolP True)]))"
proof -
  obtain rs where s: "reader_setDefaults nullSingleton = Inr rs" "newCharReader rs = Inr (True, default_features)"
    by (rule default_settings)
  have "integer_text 1 ''1''" by (simp add: integer_text_def digits_def is_digit_def parse_decimal_def digit_value_def)
  then have "json_text demo_env 1 (plain (IntP 1)) ''1''"
    using text_int [of 1 "''1''" demo_env 0] by simp
  then have e: "elements_text demo_env 1 [plain (IntP 1), plain (BoolP True)] ''1, true''"
    using more_elements [of demo_env 1 "plain (IntP 1)" "''1''" "[]" "[]" "[plain (BoolP True)]" "'' true''"]
      last_element [of demo_env 1 "plain (BoolP True)" "''true''" "'' ''" "[]"] text_true [of demo_env 0]
    by (simp add: is_json_space_def)
  have t: "json_text demo_env 2 (plain (ArrayP [plain (IntP 1), plain (BoolP True)])) ''[1, true]''"
    using text_array [OF e] by (simp add: numeral_2_eq_2)
  have "parseFromStream demo_env rs ('' '' @ ''[1, true]'' @ '' '') nullSingleton
      = Inr (True, setPayload (payload (plain (ArrayP [plain (IntP 1), plain (BoolP True)]))) nullSingleton, [])"
    by (rule json_reader_accepts [OF t _ _ s(2)]) (simp_all add: is_json_space_def default_features_def collects_def)
  then show ?thesis using s(1) by (simp add: json_get_def)
qed

end
