(* ===== verification/Json_Cases.thy ===== *)
theory Json_Cases
  imports Json_Roundtrip
begin

text \<open>Single inputs on which the JSON code does what it should not, each proved of the model.\<close>

definition read_with :: "json_env \<Rightarrow> json_features \<Rightarrow> string \<Rightarrow> (bool \<times> json) option" where
  "read_with E F doc = (case json_parse E F False doc nullSingleton of Inl e \<Rightarrow> None | Inr (ok, v, s) \<Rightarrow> Some (ok, v))"

text \<open>A minus sign alone is the integer zero.\<close>

lemma minus_is_zero: "read_with E default_features ''-'' = Some (True, plain (IntP 0))"
  by code_simp

text \<open>A comment at the end of the document may end with a slash alone.\<close>

lemma open_comment_accepted: "read_with E (default_features\<lparr> rf_failIfExtra := True \<rparr>) ''1/*c/'' = Some (True, plain (IntP 1))"
  by code_simp

text \<open>Without \<open>allowComments\<close>, comments are still skipped behind the elements of arrays and around names.\<close>

lemma comment_not_refused:
  "read_with E (default_features\<lparr> rf_allowComments := False \<rparr>) ''[1/*c*/]'' = Some (True, plain (ArrayP [plain (IntP 1)]))"
  by code_simp

text \<open>After a comment behind a member, any token stands for the comma.\<close>

lemma token_for_comma:
  "read_with E default_features (''{'' @ [CHR 0x22, CHR ''a'', CHR 0x22] @ '':1/**/5'' @ [CHR 0x22, CHR ''b'', CHR 0x22] @ '':2}'')
    = Some (True, plain (ObjectP [(''a'', plain (IntP 1)), (''b'', plain (IntP 2))]))"
  by code_simp

text \<open>A comma before the closing brace is an error, but not after an empty name.\<close>

lemma trailing_comma_accepted:
  "read_with E default_features (''{'' @ [CHR 0x22, CHR 0x22] @ '':1,}'') = Some (True, plain (ObjectP [([], plain (IntP 1))]))"
  by code_simp

text \<open>A string in single quotes ends at a double quote inside it.\<close>

lemma single_quotes_cut:
  "read_with E (default_features\<lparr> rf_allowSingleQuotes := True \<rparr>) [CHR 0x27, CHR ''a'', CHR 0x22, CHR ''b'', CHR 0x27]
    = Some (True, plain (StringP ''a''))"
  by code_simp

text \<open>The document ends at a NUL, even if nothing may follow the value.\<close>

lemma document_ends_at_nul:
  "read_with E (default_features\<lparr> rf_failIfExtra := True \<rparr>) [CHR ''1'', CHR 0x00, CHR ''x''] = Some (True, plain (IntP 1))"
  by code_simp

text \<open>The second half of a surrogate pair may be any escape: \<open>d800\<close> followed by \<open>0041\<close> is \<open>U+10041\<close>.\<close>

lemma second_half_unchecked:
  "decodeUnicodeCodePoint t tail (''d800'' @ [CHR 0x5C] @ ''u0041'') = Inr (0x10041, [])"
  by (simp add: decodeUnicodeCodePoint_def decodeUnicodeEscapeSequence_def read_hex_step hex_value_def)

text \<open>\<open>U+40000\<close> is written as the two escapes \<open>17c0\<close> and \<open>dc00\<close>, which are not read back as it.\<close>

lemma code_point_mangled:
  "valueToQuotedString (codePointToUTF8 0x40000) = quoted ([CHR 0x5C] @ ''u17c0'' @ [CHR 0x5C] @ ''udc00'')"
  by (simp add: valueToQuotedString_def requires_quoting codePointToUTF8_def quoted_def simple_escape_high
      utf8ToCodePoint_def low6_def quotedCodePoint_def toHex16Bit_def hex_digit_def)

text \<open>The member of a name with a NUL is written as null, because it is looked up by the part before the NUL.\<close>

lemma nul_name_lost:
  "member_child F [([CHR ''a'', CHR 0x00], c)] [CHR ''a'', CHR 0x00] = (nullSingleton, pushValue (jf_nullSymbol F))"
  by (simp add: member_child_def c_str_def)

text \<open>The range checks let the first \<open>double\<close> pass that is too large, and its cast is undefined.\<close>

lemma casts_undefined:
  "asInt64 (plain (RealP (Finite (2 ^ 63)))) = Inl CastOutOfRange"
  "asUInt64 (plain (RealP (Finite (2 ^ 64)))) = Inl CastOutOfRange"
  by (simp_all add: asInt64_def asUInt64_def InRange_def)

end
