(* ===== verification/Http_Util.thy ===== *)
theory Http_Util
  imports Ws_Util Std_Map
begin

text \<open>
  \<open>plugins/web/httputil.h\<close> and \<open>httputil.cpp\<close>: the header collection \<open>HTTPHeaders\<close>, start lines,
  header parameters, form bodies and cookies headers.

  A header collection is a record of its two maps, whose order is the order in which headers are written,
  and of the key that a continuation line continues. Boost.StringAlgo and Boost.Regex are
  parameters; \<open>http_documented\<close> states what is used of their documentation. A thrown exception is
  \<open>Inl\<close>; logging is left out.
\<close>

datatype http_exn =
    HTTPInputError string
  | HTTPOutputError string
  | KeyError string
  | HttpValueError string
  | StdOutOfRange
  | StdInvalidArgument
  | DecompressError
  | HTTPError int "string option"
  | NotImplementedError string
  | UrlError lib_error
  | StreamClosed
  | TimeoutError string
  | AssertionError string
  | AppError string
  | Aborted string
  | RuntimeError string
  | FuelExhausted

record http_lib =
  hl_boost :: boost_str
  hl_trim_left :: "string \<Rightarrow> string"
  hl_ends_with :: "string \<Rightarrow> string \<Rightarrow> bool"
  hl_version_match :: "string \<Rightarrow> bool"
  hl_response_match :: "string \<Rightarrow> (string \<times> string \<times> string) option"
  hl_host_port_match :: "string \<Rightarrow> (string \<times> string) option"
  hl_bracketed :: "string \<Rightarrow> bool"
  hl_header_end :: "string \<Rightarrow> nat option"

text \<open>The end of a header, \<open>\r?\n\r?\n\<close>: the rest behind an empty line at the front, and the end of the first match.\<close>

definition skip_cr :: "string \<Rightarrow> string" where
  "skip_cr s = (case s of c # t \<Rightarrow> if c = CHR 0x0D then t else s | [] \<Rightarrow> [])"

definition skip_lf :: "string \<Rightarrow> string option" where
  "skip_lf s = (case s of c # t \<Rightarrow> if c = CHR 0x0A then Some t else None | [] \<Rightarrow> None)"

definition empty_line :: "string \<Rightarrow> string option" where
  "empty_line s = (case skip_lf (skip_cr s) of None \<Rightarrow> None | Some t \<Rightarrow> skip_lf (skip_cr t))"

fun search_header_block :: "string \<Rightarrow> nat option" where
  "search_header_block [] = None"
| "search_header_block (c # s) =
     (case empty_line (c # s) of
        Some t \<Rightarrow> Some (Suc (length s) - length t)
      | None \<Rightarrow> map_option Suc (search_header_block s))"

text \<open>
  Documented: white space removed at the front, a suffix test, and the expressions
  \<open>HTTP/1\.[0-9]\<close>, \<open>(HTTP/1.[0-9]) ([0-9]+) ([^\r]*).*\<close>, \<open>^(.+):(\d+)$\<close>, \<open>^\[.*\]$\<close> and \<open>\r?\n\r?\n\<close>.
\<close>

definition http_documented :: "http_lib \<Rightarrow> bool" where
  "http_documented L \<longleftrightarrow>
     boost_documented (hl_boost L) \<and>
     (\<forall>s. hl_trim_left L s = dropWhile is_space s) \<and>
     (\<forall>s t. hl_ends_with L s t \<longleftrightarrow> suffix t s) \<and>
     (\<forall>s. hl_version_match L s \<longleftrightarrow> (\<exists>d. is_digit d \<and> s = ''HTTP/1.'' @ [d])) \<and>
     (\<forall>d code reason. is_digit d \<longrightarrow> code \<noteq> [] \<longrightarrow> list_all is_digit code \<longrightarrow> list_all not_eol reason \<longrightarrow>
        hl_response_match L (''HTTP/1.'' @ [d] @ '' '' @ code @ '' '' @ reason)
          = Some (''HTTP/1.'' @ [d], code, reason)) \<and>
     (\<forall>host port. host \<noteq> [] \<longrightarrow> list_all not_eol host \<longrightarrow> port \<noteq> [] \<longrightarrow> list_all is_digit port \<longrightarrow>
        hl_host_port_match L (host @ '':'' @ port) = Some (host, port)) \<and>
     (\<forall>s. CHR '':'' \<notin> set s \<longrightarrow> hl_host_port_match L s = None) \<and>
     (\<forall>s. list_all not_eol s \<longrightarrow> (hl_bracketed L s \<longleftrightarrow> (\<exists>t. s = ''['' @ t @ '']''))) \<and>
     (\<forall>s. hl_header_end L s = search_header_block s)"

section \<open>Headers\<close>

record http_headers =
  hh_items :: "(string \<times> string) list"
  hh_asList :: "(string \<times> string list) list"
  hh_lastKey :: string

definition newHTTPHeaders :: http_headers where
  "newHTTPHeaders = \<lparr> hh_items = [], hh_asList = [], hh_lastKey = [] \<rparr>"

text \<open>\<open>StrUtil::capitalize\<close> returns the capitalized part, which the loop over the parts drops.\<close>

definition normalizeName :: "http_lib \<Rightarrow> string \<Rightarrow> string" where
  "normalizeName L name =
     (let nameParts = split_char (hl_boost L) name CHR ''-'' True;
          nameParts = List.map (\<lambda>namePart. snd (capitalize namePart, namePart)) nameParts
      in boost_join (hl_boost L) nameParts ''-'')"

text \<open>\<open>headers[name] = value\<close>. The test \<open>has\<close> computes the normal form and looks the name up as given.\<close>

definition header_set :: "http_lib \<Rightarrow> string \<Rightarrow> string \<Rightarrow> http_headers \<Rightarrow> http_headers" where
  "header_set L name value h =
     (let normName = normalizeName L name
      in h\<lparr> hh_items := map_insert normName value (hh_items h),
            hh_asList := map_insert normName [value] (hh_asList h) \<rparr>)"

definition header_has :: "http_lib \<Rightarrow> string \<Rightarrow> http_headers \<Rightarrow> bool" where
  "header_has L name h \<longleftrightarrow> map_of (hh_items h) name \<noteq> None"

definition values_of :: "string \<Rightarrow> http_headers \<Rightarrow> string list" where
  "values_of normName h = (case map_of (hh_asList h) normName of None \<Rightarrow> [] | Some vs \<Rightarrow> vs)"

definition value_of :: "string \<Rightarrow> http_headers \<Rightarrow> string" where
  "value_of normName h = (case map_of (hh_items h) normName of None \<Rightarrow> [] | Some v \<Rightarrow> v)"

definition header_add :: "http_lib \<Rightarrow> string \<Rightarrow> string \<Rightarrow> http_headers \<Rightarrow> http_headers" where
  "header_add L name value h =
     (let normName = normalizeName L name; h = h\<lparr> hh_lastKey := normName \<rparr>
      in if header_has L normName h
         then h\<lparr> hh_items := map_insert normName (value_of normName h @ '','' @ value) (hh_items h),
                 hh_asList := map_insert normName (values_of normName h @ [value]) (hh_asList h) \<rparr>
         else header_set L normName value h)"

definition header_getList :: "http_lib \<Rightarrow> string \<Rightarrow> http_headers \<Rightarrow> string list" where
  "header_getList L name h = values_of (normalizeName L name) h"

text \<open>The calls that \<open>getAll\<close> makes.\<close>

definition header_getAll :: "http_headers \<Rightarrow> (string \<times> string) list" where
  "header_getAll h = concat (List.map (\<lambda>(name, values). List.map (Pair name) values) (hh_asList h))"

definition header_get :: "http_lib \<Rightarrow> string \<Rightarrow> string \<Rightarrow> http_headers \<Rightarrow> string" where
  "header_get L name defaultValue h =
     (case map_of (hh_items h) (normalizeName L name) of Some v \<Rightarrow> v | None \<Rightarrow> defaultValue)"

definition header_at :: "http_lib \<Rightarrow> string \<Rightarrow> http_headers \<Rightarrow> http_exn + string" where
  "header_at L name h =
     (case map_of (hh_items h) (normalizeName L name) of Some v \<Rightarrow> Inr v | None \<Rightarrow> Inl StdOutOfRange)"

definition header_erase :: "http_lib \<Rightarrow> string \<Rightarrow> http_headers \<Rightarrow> http_exn + http_headers" where
  "header_erase L name h =
     (let normName = normalizeName L name
      in if \<not> header_has L normName h then Inl (KeyError normName)
         else Inr (h\<lparr> hh_items := map_erase normName (hh_items h), hh_asList := map_erase normName (hh_asList h) \<rparr>))"

definition header_update :: "http_lib \<Rightarrow> (string \<times> string) list \<Rightarrow> http_headers \<Rightarrow> http_headers" where
  "header_update L nameValues h = foldl (\<lambda>h (name, value). header_set L name value h) h nameValues"

text \<open>\<open>clear\<close> leaves the last key.\<close>

definition header_clear :: "http_headers \<Rightarrow> http_headers" where
  "header_clear h = h\<lparr> hh_items := [], hh_asList := [] \<rparr>"

definition header_parseLine :: "http_lib \<Rightarrow> string \<Rightarrow> http_headers \<Rightarrow> http_exn + http_headers" where
  "header_parseLine L line h =
     (if line = [] then Inl (Aborted ''!line.empty()'')
      else if is_space (hd line) then
        if hh_lastKey h = [] then Inl (HTTPInputError ''first header line cannot start with whitespace'')
        else let newPart = '' '' @ hl_trim_left L line in
          (case map_of (hh_asList h) (hh_lastKey h) of
             None \<Rightarrow> Inl StdOutOfRange
           | Some vs \<Rightarrow>
               if vs = [] then Inl (Aborted ''!asList.empty()'')
               else (case map_of (hh_items h) (hh_lastKey h) of
                 None \<Rightarrow> Inl StdOutOfRange
               | Some v \<Rightarrow> Inr (h\<lparr>
                   hh_asList := map_insert (hh_lastKey h) (butlast vs @ [last vs @ newPart]) (hh_asList h),
                   hh_items := map_insert (hh_lastKey h) (v @ newPart) (hh_items h) \<rparr>)))
      else (case find_char line CHR '':'' 0 of
          None \<Rightarrow> Inl (HTTPInputError ''no colon in header line'')
        | Some pos \<Rightarrow>
            if pos = 0 then Inl (HTTPInputError ''no colon in header line'')
            else Inr (header_add L (take pos line) (boost_trim (hl_boost L) (drop (pos + 1) line)) h)))"

fun parse_header_lines :: "http_lib \<Rightarrow> string list \<Rightarrow> http_headers \<Rightarrow> http_exn + http_headers" where
  "parse_header_lines L [] h = Inr h"
| "parse_header_lines L (line # lines) h =
     (if line = [] then parse_header_lines L lines h
      else (case header_parseLine L line h of
          Inl e \<Rightarrow> Inl e | Inr h \<Rightarrow> parse_header_lines L lines h))"

definition header_parseLines :: "http_lib \<Rightarrow> string \<Rightarrow> http_headers \<Rightarrow> http_exn + http_headers" where
  "header_parseLines L headers h = parse_header_lines L (splitLines headers False) h"

definition header_parse :: "http_lib \<Rightarrow> string \<Rightarrow> http_exn + http_headers" where
  "header_parse L headers = header_parseLines L headers newHTTPHeaders"

definition header_print :: "http_lib \<Rightarrow> http_headers \<Rightarrow> string" where
  "header_print L h =
     boost_join (hl_boost L) (List.map (\<lambda>(name, value). name @ '': '' @ value @ [CHR 0x0A]) (header_getAll h)) []"

section \<open>Start lines and header blocks\<close>

record request_start_line =
  rq_method :: string
  rq_path :: string
  rq_version :: string

record response_start_line =
  rp_version :: string
  rp_code :: int
  rp_reason :: string

definition parseRequestStartLine :: "http_lib \<Rightarrow> string \<Rightarrow> http_exn + request_start_line" where
  "parseRequestStartLine L line =
     (case split_space (hl_boost L) is_space line True of
        [method, path, version] \<Rightarrow>
          if \<not> hl_version_match L version
          then Inl (HTTPInputError (''Malformed HTTP version in HTTP Request-Line: '' @ version))
          else Inr \<lparr> rq_method = method, rq_path = path, rq_version = version \<rparr>
      | _ \<Rightarrow> Inl (HTTPInputError ''Malformed HTTP request line''))"

definition parseResponseStartLine :: "http_lib \<Rightarrow> string \<Rightarrow> http_exn + response_start_line" where
  "parseResponseStartLine L line =
     (case hl_response_match L line of
        None \<Rightarrow> Inl (HTTPInputError ''Error parsing response start line'')
      | Some (version, code, reason) \<Rightarrow>
          (case stoi code of
             None \<Rightarrow> Inl StdOutOfRange
           | Some n \<Rightarrow> Inr \<lparr> rp_version = version, rp_code = n, rp_reason = reason \<rparr>))"

definition splitHostAndPort :: "http_lib \<Rightarrow> string \<Rightarrow> http_exn + string \<times> nat option" where
  "splitHostAndPort L netloc =
     (case hl_host_port_match L netloc of
        Some (host, port) \<Rightarrow>
          (case stoul port of None \<Rightarrow> Inl StdOutOfRange | Some n \<Rightarrow> Inr (host, Some (n mod 65536)))
      | None \<Rightarrow> Inr (netloc, None))"

text \<open>The rest begins with the line feed that ends the start line.\<close>

definition parseHeaders :: "http_lib \<Rightarrow> string \<Rightarrow> http_exn + string \<times> http_headers" where
  "parseHeaders L data =
     (let dv = dropWhile (\<lambda>c. \<not> not_eol c) data;
          (startLine, rest) = (case find_char dv CHR 0x0A 0 of
              Some eol \<Rightarrow> (boost_trim_right_any_of (hl_boost L) (take eol dv) [CHR 0x0D], drop eol dv)
            | None \<Rightarrow> (dv, []))
      in (case header_parse L rest of Inl e \<Rightarrow> Inl e | Inr h \<Rightarrow> Inr (startLine, h)))"

definition getHTTPReason :: "int \<Rightarrow> string" where
  "getHTTPReason statusCode = (case map_of HTTP_STATUS_CODES statusCode of Some r \<Rightarrow> r | None \<Rightarrow> ''Unknown'')"

definition encodeUsernamePassword :: "string \<Rightarrow> string \<Rightarrow> string" where
  "encodeUsernamePassword username password = username @ '':'' @ password"

text \<open>An \<open>HTTPError\<close> carries a code and perhaps a reason.\<close>

definition error_getReason :: "int \<Rightarrow> string option \<Rightarrow> string" where
  "error_getReason code reason =
     (case reason of
        Some r \<Rightarrow> r
      | None \<Rightarrow> (case map_of HTTP_STATUS_CODES code of Some r \<Rightarrow> r | None \<Rightarrow> ''Unknown''))"

definition error_hasReason :: "int \<Rightarrow> string option \<Rightarrow> bool" where
  "error_hasReason code reason \<longleftrightarrow> reason \<noteq> None \<or> map_of HTTP_STATUS_CODES code \<noteq> None"

definition error_getCustomErrorInfo :: "int \<Rightarrow> string option \<Rightarrow> string list" where
  "error_getCustomErrorInfo code reason = [''HTTP '' @ int_string code @ '': '' @ error_getReason code reason]"

end
