(* ===== verification/Http_Stream.thy ===== *)
theory Http_Stream
  imports Http_Util
begin

text \<open>
  What the server and the client connection share: how they ask \<open>IOStream\<close> for the next piece, in
  which pieces \<open>IOStream\<close> answers when octets arrive, and the numbers and chunks of the transfer coding.

  A connection has at most one read under way. \<open>serve_read\<close> is \<open>readFromBuffer\<close> of
  \<open>core/protocols/iostream.cpp\<close> on the octets that are buffered, and \<open>feed\<close> runs a connection on all of
  them. The search for the expression of a read, which is always that for the end of a header, is a parameter.
\<close>

section \<open>Reads\<close>

datatype stream_read =
    UntilRegex string nat
  | Until string nat
  | Bytes nat
  | UntilClose

definition HEADER_END :: string where
  "HEADER_END = [CHR 0x5C, CHR ''r'', CHR ''?'', CHR 0x5C, CHR ''n'', CHR 0x5C, CHR ''r'', CHR ''?'', CHR 0x5C, CHR ''n'']"

datatype served = Piece string string | NotYet | Unsatisfiable

definition limited :: "nat \<Rightarrow> nat option \<Rightarrow> string \<Rightarrow> served" where
  "limited maxBytes found s = (case found of
     Some n \<Rightarrow> if n > maxBytes then Unsatisfiable else Piece (take n s) (drop n s)
   | None \<Rightarrow> if length s > maxBytes then Unsatisfiable else NotYet)"

fun serve_read :: "bool \<Rightarrow> stream_read \<Rightarrow> string \<Rightarrow> (string \<Rightarrow> nat option) \<Rightarrow> served" where
  "serve_read disconnected (UntilRegex r maxBytes) s match_end = limited maxBytes (match_end s) s"
| "serve_read disconnected (Until d maxBytes) s match_end =
     limited maxBytes (map_option (\<lambda>k. k + length d) (StrNStr s d)) s"
| "serve_read disconnected (Bytes n) s match_end = (if length s \<ge> n then Piece (take n s) (drop n s) else NotYet)"
| "serve_read disconnected UntilClose s match_end = (if disconnected then Piece s [] else NotYet)"

text \<open>
  A connection on buffered octets: the search for the end of a header, the read under way, what it does with a piece (which may start the
  next read) and with a read that cannot be satisfied. An empty piece ends the run.
\<close>

record 's reader =
  rd_search :: "string \<Rightarrow> nat option"
  rd_pending :: "'s \<Rightarrow> stream_read option"
  rd_data :: "string \<Rightarrow> 's \<Rightarrow> 's"
  rd_fail :: "'s \<Rightarrow> 's"

function feed :: "'s reader \<Rightarrow> 's \<Rightarrow> string \<Rightarrow> 's \<times> string" where
  "feed R s input = (case rd_pending R s of
      None \<Rightarrow> (s, input)
    | Some r \<Rightarrow> (case serve_read False r input (rd_search R) of
          NotYet \<Rightarrow> (s, input)
        | Unsatisfiable \<Rightarrow> (rd_fail R s, input)
        | Piece p rest \<Rightarrow>
            if length rest < length input then feed R (rd_data R p s) rest else (rd_data R p s, rest)))"
  by auto
termination
  by (relation "measure (\<lambda>(R, s, input). length input)") auto

declare feed.simps [simp del]

lemma feed_piece:
  "rd_pending R s = Some r \<Longrightarrow> serve_read False r (p @ rest) (rd_search R) = Piece p rest \<Longrightarrow> p \<noteq> [] \<Longrightarrow>
     feed R s (p @ rest) = feed R (rd_data R p s) rest"
  by (subst feed.simps) simp

lemma feed_idle: "rd_pending R s = None \<Longrightarrow> feed R s input = (s, input)"
  by (subst feed.simps) simp

section \<open>Numbers\<close>

definition low_hex_digit :: "nat \<Rightarrow> char" where
  "low_hex_digit n = ''0123456789abcdef'' ! n"

text \<open>The format \<open>%x\<close>.\<close>

fun hex_string :: "nat \<Rightarrow> string" where
  "hex_string n = (if n < 16 then [low_hex_digit n] else hex_string (n div 16) @ [low_hex_digit (n mod 16)])"

declare hex_string.simps [simp del]

definition hex_digit_value :: "char \<Rightarrow> nat option" where
  "hex_digit_value c =
     (let n = of_char c :: nat
      in if 48 \<le> n \<and> n \<le> 57 then Some (n - 48)
         else if 97 \<le> n \<and> n \<le> 102 then Some (n - 87)
         else if 65 \<le> n \<and> n \<le> 70 then Some (n - 55) else None)"

definition is_hex_digit :: "char \<Rightarrow> bool" where
  "is_hex_digit c \<longleftrightarrow> hex_digit_value c \<noteq> None"

definition parse_hex :: "string \<Rightarrow> nat" where
  "parse_hex s = foldl (\<lambda>a c. a * 16 + the (hex_digit_value c)) 0 s"

definition skip_0x :: "string \<Rightarrow> string" where
  "skip_0x s = (case s of a # b # c # t \<Rightarrow>
     if a = CHR ''0'' \<and> (b = CHR ''x'' \<or> b = CHR ''X'') \<and> is_hex_digit c then c # t else s | _ \<Rightarrow> s)"

text \<open>\<open>std::stoul(s, nullptr, 16)\<close>: space, a sign, a prefix, digits; what follows is ignored.\<close>

definition stoul16 :: "string \<Rightarrow> nat option" where
  "stoul16 s =
     (let t = dropWhile is_space s;
          (neg, u) = (case t of c # t' \<Rightarrow> if c = CHR ''-'' then (True, t')
                                         else if c = CHR ''+'' then (False, t') else (False, t)
                      | [] \<Rightarrow> (False, []));
          ds = takeWhile is_hex_digit (skip_0x u);
          v = parse_hex ds in
      if ds = [] \<or> 2 ^ 64 \<le> v then None
      else Some (if neg then nat ((- int v) mod 2 ^ 64) else v))"

text \<open>One chunk of the transfer coding, and the last one.\<close>

definition chunk_text :: "string \<Rightarrow> string" where
  "chunk_text data = hex_string (length data) @ CRLF @ data @ CRLF"

definition last_chunk :: string where
  "last_chunk = ''0'' @ CRLF @ CRLF"

text \<open>Repeated values of \<open>Content-Length\<close>, joined by commas, have to be equal.\<close>

definition single_length :: "http_lib \<Rightarrow> string \<Rightarrow> http_exn + string" where
  "single_length L v =
     (if CHR '','' \<notin> set v then Inr v
      else let pieces = List.map (boost_trim (hl_boost L)) (split_char (hl_boost L) v CHR '','' True) in
        if list_ex (\<lambda>piece. piece \<noteq> hd pieces) pieces
        then Inl (HTTPInputError (''Multiple unequal Content-Lengths: '' @ v))
        else Inr (hd pieces))"

end
