(* ===== verification/Http_Headers.thy ===== *)
theory Http_Headers
  imports Http_Stream Ws_Headers
begin

text \<open>
  Headers that can be written and read back: \<open>headers_ok\<close>. What \<open>getAll\<close> lists, written line by line
  behind a start line, ends where the stream looks for the end of the header, and is parsed into the
  same headers. The round trips of numbers in base 16.
\<close>

section \<open>Documented behaviour\<close>

lemma httpD:
  assumes "http_documented L"
  shows "boost_documented (hl_boost L)"
    and "hl_trim_left L u = dropWhile is_space u"
    and "hl_ends_with L x y \<longleftrightarrow> suffix y x"
    and "hl_version_match L v \<longleftrightarrow> (\<exists>d. is_digit d \<and> v = ''HTTP/1.'' @ [d])"
    and "is_digit d \<Longrightarrow> code \<noteq> [] \<Longrightarrow> list_all is_digit code \<Longrightarrow> list_all not_eol reason \<Longrightarrow>
        hl_response_match L (''HTTP/1.'' @ [d] @ '' '' @ code @ '' '' @ reason)
          = Some (''HTTP/1.'' @ [d], code, reason)"
    and "host \<noteq> [] \<Longrightarrow> list_all not_eol host \<Longrightarrow> port \<noteq> [] \<Longrightarrow> list_all is_digit port \<Longrightarrow>
        hl_host_port_match L (host @ '':'' @ port) = Some (host, port)"
    and "CHR '':'' \<notin> set netloc \<Longrightarrow> hl_host_port_match L netloc = None"
    and "hl_header_end L y = search_header_block y"
  using assms by (simp_all add: http_documented_def)

text \<open>The parts of a name are joined again as they were.\<close>

lemma replace_char_self: "replace_char a a s = s"
  by (induction s) (simp_all add: replace_char_def)

lemma normalizeName_id:
  assumes "http_documented L"
  shows "normalizeName L name = name"
proof -
  note B = httpD(1) [OF assms]
  have "map (\<lambda>p. snd (capitalize p, p)) (pieces (\<lambda>c. c = CHR ''-'') name) = pieces (\<lambda>c. c = CHR ''-'') name"
    by simp
  then show ?thesis
    using join_pieces [of "CHR ''-''" "CHR ''-''" name]
    by (simp add: normalizeName_def boostD(1,2) [OF B] replace_char_self)
qed

section \<open>Headers\<close>

definition name_ok :: "string \<Rightarrow> bool" where
  "name_ok n \<longleftrightarrow> n \<noteq> [] \<and> list_all not_eol n \<and> CHR '':'' \<notin> set n \<and> \<not> is_space (hd n)"

definition value_ok :: "string \<Rightarrow> bool" where
  "value_ok v \<longleftrightarrow> list_all not_eol v \<and> trimmed v = v"

definition headers_ok :: "http_headers \<Rightarrow> bool" where
  "headers_ok h \<longleftrightarrow> map_ok (hh_asList h) \<and>
     list_all (\<lambda>(n, vs). name_ok n \<and> vs \<noteq> [] \<and> list_all value_ok vs) (hh_asList h) \<and>
     hh_items h = map (\<lambda>(n, vs). (n, join_with '','' vs)) (hh_asList h)"

definition same_headers :: "http_headers \<Rightarrow> http_headers \<Rightarrow> bool" where
  "same_headers g h \<longleftrightarrow> hh_items g = hh_items h \<and> hh_asList g = hh_asList h"

definition header_field :: "string \<times> string \<Rightarrow> string" where
  "header_field f = fst f @ '': '' @ snd f"

lemma join_with_snoc: "vs \<noteq> [] \<Longrightarrow> join_with d (vs @ [v]) = join_with d vs @ d @ v"
  by (induction vs rule: list_nonempty_induct) (auto simp: join_with_Cons)

lemma parse_field_line:
  assumes "http_documented L" "name_ok n" "value_ok v"
  shows "header_parseLine L (header_field (n, v)) h = Inr (header_add L n v h)"
proof -
  have f: "find_char (header_field (n, v)) CHR '':'' 0 = Some (length n)"
    using assms(2) find_char_first [of "CHR '':''" n "CHR '' '' # v"] by (simp add: header_field_def name_ok_def)
  have t: "boost_trim (hl_boost L) (CHR '' '' # v) = v"
    using assms(3) by (simp add: boostD(4) [OF httpD(1) [OF assms(1)]] value_ok_def trimmed_def is_space_def)
  have n: "n \<noteq> []" "\<not> is_space (hd n)" using assms(2) by (simp_all add: name_ok_def)
  then show ?thesis
    unfolding header_parseLine_def f option.case
    by (cases n) (simp_all add: header_field_def t)
qed

lemma add_new_field:
  assumes "http_documented L" "\<forall>k \<in> fst ` set (hh_items h). k < n" "\<forall>k \<in> fst ` set (hh_asList h). k < n"
  shows "header_add L n v h = \<lparr> hh_items = hh_items h @ [(n, v)], hh_asList = hh_asList h @ [(n, [v])], hh_lastKey = n \<rparr>"
  using assms by (simp add: header_add_def header_set_def normalizeName_id header_has_def map_of_last map_insert_last)

lemma add_next_value:
  assumes "http_documented L" "\<forall>k \<in> fst ` set is. k < n" "\<forall>k \<in> fst ` set as. k < n"
  shows "header_add L n v \<lparr> hh_items = is @ [(n, w)], hh_asList = as @ [(n, vs)], hh_lastKey = k \<rparr>
     = \<lparr> hh_items = is @ [(n, w @ '','' @ v)], hh_asList = as @ [(n, vs @ [v])], hh_lastKey = n \<rparr>"
  using assms by (simp add: header_add_def normalizeName_id header_has_def value_of_def values_of_def
      map_of_last map_insert_at_end map_add_def split: option.splits)

lemma parse_values:
  assumes "http_documented L" "\<forall>k \<in> fst ` set is. k < n" "\<forall>k \<in> fst ` set as. k < n" "name_ok n"
    and "list_all value_ok us" "vs \<noteq> []"
  shows "parse_header_lines L (map (\<lambda>v. header_field (n, v)) us @ ls)
       \<lparr> hh_items = is @ [(n, join_with '','' vs)], hh_asList = as @ [(n, vs)], hh_lastKey = n \<rparr>
     = parse_header_lines L ls
       \<lparr> hh_items = is @ [(n, join_with '','' (vs @ us))], hh_asList = as @ [(n, vs @ us)], hh_lastKey = n \<rparr>"
  using assms(5,6)
proof (induction us arbitrary: vs)
  case (Cons v us)
  have "header_field (n, v) \<noteq> []" by (simp add: header_field_def)
  then show ?case
    using Cons.prems Cons.IH [of "vs @ [v]"] parse_field_line [OF assms(1,4)] add_next_value [OF assms(1-3)]
      join_with_snoc [of vs "'',''" v]
    by simp
qed simp

lemma parse_fields:
  assumes "http_documented L"
  shows "sorted_wrt (<) (map fst as) \<Longrightarrow>
    list_all (\<lambda>(n, vs). name_ok n \<and> vs \<noteq> [] \<and> list_all value_ok vs) as \<Longrightarrow>
    \<forall>k \<in> fst ` set (hh_asList h). \<forall>k' \<in> fst ` set as. k < k' \<Longrightarrow>
    hh_items h = map (\<lambda>(n, vs). (n, join_with '','' vs)) (hh_asList h) \<Longrightarrow>
    \<exists>g. parse_header_lines L (map header_field (concat (map (\<lambda>(n, vs). map (Pair n) vs) as)) @ ls) h
        = parse_header_lines L ls g
      \<and> hh_asList g = hh_asList h @ as \<and> hh_items g = map (\<lambda>(n, vs). (n, join_with '','' vs)) (hh_asList h @ as)"
proof (induction as arbitrary: h)
  case Nil
  then show ?case by auto
next
  case (Cons a as)
  obtain n v vs where a: "a = (n, v # vs)" using Cons.prems(2) by (cases a; cases "snd a") auto
  have ok: "name_ok n" "value_ok v" "list_all value_ok vs" using Cons.prems(2) by (auto simp: a)
  have less: "\<forall>k \<in> fst ` set (hh_asList h). k < n" using Cons.prems(3) by (auto simp: a)
  then have less': "\<forall>k \<in> fst ` set (hh_items h). k < n" using Cons.prems(4) by force
  let ?g = "\<lparr> hh_items = hh_items h @ [(n, join_with '','' (v # vs))], hh_asList = hh_asList h @ [(n, v # vs)],
    hh_lastKey = n \<rparr>"
  have "header_field (n, v) \<noteq> []" by (simp add: header_field_def)
  then have step: "parse_header_lines L (map header_field (concat (map (\<lambda>(n, vs). map (Pair n) vs) (a # as))) @ ls) h
    = parse_header_lines L (map header_field (concat (map (\<lambda>(n, vs). map (Pair n) vs) as)) @ ls) ?g"
    using parse_field_line [OF assms ok(1,2), of h] add_new_field [OF assms less' less, of v]
      parse_values [OF assms less' less ok(1,3), of "[v]"]
    by (simp add: a comp_def)
  have "\<exists>g. parse_header_lines L (map header_field (concat (map (\<lambda>(n, vs). map (Pair n) vs) as)) @ ls) ?g
        = parse_header_lines L ls g
      \<and> hh_asList g = hh_asList ?g @ as \<and> hh_items g = map (\<lambda>(n, vs). (n, join_with '','' vs)) (hh_asList ?g @ as)"
    using Cons.prems by (intro Cons.IH) (auto simp: a)
  with step show ?case by (auto simp: a)
qed

section \<open>The header as text\<close>

definition header_block :: "string \<Rightarrow> http_headers \<Rightarrow> string" where
  "header_block startLine h = join_with CRLF (startLine # map header_field (header_getAll h)) @ CRLF @ CRLF"

lemma join_lines: "ls \<noteq> [] \<Longrightarrow> join_with CRLF ls @ CRLF = concat (map (\<lambda>l. l @ CRLF) ls)"
  by (induction ls rule: list_nonempty_induct) (auto simp: join_with_Cons)

lemma header_block_lines:
  "header_block startLine h = concat (map (\<lambda>l. l @ CRLF) (startLine # map header_field (header_getAll h))) @ CRLF"
  using join_lines [of "startLine # map header_field (header_getAll h)"] by (simp add: header_block_def)

lemma header_fields_ok:
  assumes "headers_ok h"
  shows "list_all (\<lambda>l. l \<noteq> [] \<and> list_all not_eol l) (map header_field (header_getAll h))"
proof -
  have "name_ok n \<and> value_ok v" if "(n, v) \<in> set (header_getAll h)" for n v
    using that assms by (auto simp: headers_ok_def header_getAll_def list_all_iff)
  then show ?thesis
    by (fastforce simp: list_all_iff header_field_def name_ok_def value_ok_def not_eol_def)
qed

lemma splitLines_lines:
  "list_all (list_all not_eol) ls \<Longrightarrow> splitLines (concat (map (\<lambda>l. l @ CRLF) ls) @ r) False = ls @ splitLines r False"
  by (induction ls) (simp_all add: splitLines_CRLF)

lemma splitLines_LF: "splitLines (CHR 0x0A # r) False = [] # splitLines r False"
  by (subst splitLines.simps) (simp add: not_eol_def split: list.splits)

lemma parse_header_lines_skip: "parse_header_lines L (ls @ [[]]) h = parse_header_lines L ls h"
  by (induction ls arbitrary: h) (auto split: sum.split)

text \<open>A header written line by line is parsed into its start line and the same headers.\<close>

lemma parse_header_block:
  assumes "http_documented L" "startLine \<noteq> []" "list_all not_eol startLine" "headers_ok h"
  shows "\<exists>g. parseHeaders L (header_block startLine h) = Inr (startLine, g) \<and> same_headers g h"
proof -
  let ?fs = "map header_field (header_getAll h)"
  let ?rest = "concat (map (\<lambda>l. l @ CRLF) ?fs) @ CRLF"
  have dv: "dropWhile (\<lambda>c. \<not> not_eol c) (header_block startLine h) = startLine @ CRLF @ ?rest"
    using assms(2,3) by (cases startLine) (auto simp: header_block_lines)
  have lf: "CHR 0x0A \<notin> set (startLine @ [CHR 0x0D])" using assms(3) by (auto simp: list_all_iff not_eol_def)
  have pos: "find_char (startLine @ CRLF @ ?rest) CHR 0x0A 0 = Some (length startLine + 1)"
    using find_char_first [OF lf, of ?rest] by (simp add: CRLF_def)
  have trim: "boost_trim_right_any_of (hl_boost L) (startLine @ [CHR 0x0D]) [CHR 0x0D] = startLine"
  proof -
    have "last startLine \<noteq> CHR 0x0D"
      using assms(2,3) last_in_set [of startLine] by (auto simp: list_all_iff not_eol_def)
    then have "dropWhile (\<lambda>c. c \<in> set [CHR 0x0D]) (rev startLine) = rev startLine"
      using assms(2) by (cases startLine rule: rev_cases) auto
    then show ?thesis by (simp add: boostD(5) [OF httpD(1) [OF assms(1)]])
  qed
  have cut: "take (length startLine + 1) (startLine @ CRLF @ ?rest) = startLine @ [CHR 0x0D]"
    "drop (length startLine + 1) (startLine @ CRLF @ ?rest) = CHR 0x0A # ?rest"
    by (simp_all add: CRLF_def)
  have "splitLines CRLF False = [[]]" by code_simp
  then have lines: "splitLines (CHR 0x0A # ?rest) False = [] # ?fs @ [[]]"
    using header_fields_ok [OF assms(4)]
    by (subst splitLines_LF, subst splitLines_lines) (auto simp: list_all_iff)
  obtain g where "parse_header_lines L (?fs @ []) newHTTPHeaders = parse_header_lines L [] g"
    "hh_asList g = hh_asList newHTTPHeaders @ hh_asList h"
    "hh_items g = map (\<lambda>(n, vs). (n, join_with '','' vs)) (hh_asList newHTTPHeaders @ hh_asList h)"
    using parse_fields [OF assms(1), of "hh_asList h" newHTTPHeaders "[]"] assms(4)
    by (auto simp: headers_ok_def map_ok_def newHTTPHeaders_def header_getAll_def)
  then have "header_parse L (CHR 0x0A # ?rest) = Inr g" "same_headers g h"
    using assms(4) parse_header_lines_skip [of L ?fs]
    unfolding header_parse_def header_parseLines_def lines by (simp_all add: same_headers_def headers_ok_def newHTTPHeaders_def)
  then show ?thesis
    unfolding parseHeaders_def dv Let_def pos option.case prod.case cut trim by simp
qed

section \<open>The end of the header\<close>

lemma not_eol_empty_line: "not_eol c \<Longrightarrow> empty_line (c # s) = None"
  by (simp add: empty_line_def skip_cr_def skip_lf_def not_eol_def)

lemma search_plain_line:
  "list_all not_eol l \<Longrightarrow> search_header_block (l @ s) = map_option (\<lambda>k. length l + k) (search_header_block s)"
proof (induction l)
  case Nil
  then show ?case by (cases "search_header_block s") simp_all
next
  case (Cons a l)
  then show ?case by (cases "search_header_block s") (simp_all add: not_eol_empty_line)
qed

lemma search_line_end:
  assumes "r \<noteq> []" "not_eol (hd r)"
  shows "search_header_block (CRLF @ r) = map_option (\<lambda>k. 2 + k) (search_header_block r)"
proof -
  obtain c r' where "r = c # r'" "not_eol c" using assms by (cases r) auto
  then show ?thesis
    by (auto simp: CRLF_def empty_line_def skip_cr_def skip_lf_def not_eol_def option.map_comp comp_def)
qed

lemma search_block_end: "search_header_block (CRLF @ CRLF @ r) = Some 4"
  by (simp add: CRLF_def empty_line_def skip_cr_def skip_lf_def)

lemma search_lines:
  assumes "ls \<noteq> []" "list_all (\<lambda>l. l \<noteq> [] \<and> list_all not_eol l) ls"
  shows "search_header_block (concat (map (\<lambda>l. l @ CRLF) ls) @ CRLF @ r)
    = Some (length (concat (map (\<lambda>l. l @ CRLF) ls) @ CRLF))"
  using assms
proof (induction ls rule: list_nonempty_induct)
  case (single l)
  then show ?case by (simp add: search_plain_line search_block_end) (simp add: CRLF_def)
next
  case (cons l ls)
  let ?r = "concat (map (\<lambda>l. l @ CRLF) ls) @ CRLF @ r"
  obtain m ms where ls: "ls = m # ms" using cons.hyps by (cases ls) auto
  have m: "m \<noteq> []" "not_eol (hd m)" using cons.prems by (auto simp: ls list_all_iff)
  have r: "?r \<noteq> []" "not_eol (hd ?r)" using m by (cases m; simp add: ls)+
  have "search_header_block (l @ CRLF @ ?r) = map_option (\<lambda>k. length l + k) (search_header_block (CRLF @ ?r))"
    using cons.prems by (simp add: search_plain_line)
  also have "\<dots> = map_option (\<lambda>k. length l + k) (map_option (\<lambda>k. 2 + k) (search_header_block ?r))"
    by (simp only: search_line_end [OF r])
  finally show ?case using cons.IH cons.prems by (simp add: CRLF_def)
qed

lemma header_block_ends:
  assumes "startLine \<noteq> []" "list_all not_eol startLine" "headers_ok h"
  shows "search_header_block (header_block startLine h @ r) = Some (length (header_block startLine h))"
proof -
  let ?ls = "startLine # map header_field (header_getAll h)"
  have "header_block startLine h @ r = concat (map (\<lambda>l. l @ CRLF) ?ls) @ CRLF @ r"
    "length (header_block startLine h) = length (concat (map (\<lambda>l. l @ CRLF) ?ls) @ CRLF)"
    by (simp_all only: header_block_lines append_assoc)
  then show ?thesis
    using search_lines [of ?ls r] header_fields_ok [OF assms(3)] assms(1,2) by simp
qed

lemma serve_header:
  assumes "http_documented L" "startLine \<noteq> []" "list_all not_eol startLine" "headers_ok h"
    and "length (header_block startLine h) \<le> maxBytes"
  shows "serve_read d (UntilRegex p maxBytes) (header_block startLine h @ r) (hl_header_end L) = Piece (header_block startLine h) r"
  using assms(5) by (simp add: httpD(8) [OF assms(1)] header_block_ends [OF assms(2-4)] limited_def)

section \<open>Numbers\<close>

lemma low_hex_value: "n < 16 \<Longrightarrow> hex_digit_value (low_hex_digit n) = Some n"
proof -
  have "list_all (\<lambda>n. hex_digit_value (low_hex_digit n) = Some n) [0..<16]" by code_simp
  then show "n < 16 \<Longrightarrow> hex_digit_value (low_hex_digit n) = Some n" by (simp add: list_all_iff)
qed

lemma hex_string_digits: "list_all is_hex_digit (hex_string n) \<and> hex_string n \<noteq> []"
proof (induction n rule: hex_string.induct)
  case (1 n)
  have "is_hex_digit (low_hex_digit m)" if "m < 16" for m using that by (simp add: is_hex_digit_def low_hex_value)
  with 1 show ?case by (subst (1 2) hex_string.simps) simp
qed

lemma parse_hex_string: "parse_hex (hex_string n) = n"
proof (induction n rule: hex_string.induct)
  case (1 n)
  then show ?case by (subst hex_string.simps) (simp add: parse_hex_def low_hex_value)
qed

lemma hex_digit_plain:
  assumes "is_hex_digit c"
  shows "\<not> is_space c" "c \<noteq> CHR ''-''" "c \<noteq> CHR ''+''" "c \<noteq> CHR ''x''" "c \<noteq> CHR ''X''" "not_eol c"
proof -
  have "48 \<le> (of_char c :: nat)" "(of_char c :: nat) \<le> 57 \<or> 97 \<le> (of_char c :: nat) \<and> (of_char c :: nat) \<le> 102
      \<or> 65 \<le> (of_char c :: nat) \<and> (of_char c :: nat) \<le> 70"
    using assms by (auto simp: is_hex_digit_def hex_digit_value_def Let_def split: if_splits)
  then show "\<not> is_space c" "c \<noteq> CHR ''-''" "c \<noteq> CHR ''+''" "c \<noteq> CHR ''x''" "c \<noteq> CHR ''X''" "not_eol c"
    by (auto simp: is_space_def not_eol_def)
qed

lemma stoul16_hex_string: "n < 2 ^ 64 \<Longrightarrow> stoul16 (hex_string n) = Some n"
proof -
  assume n: "n < 2 ^ 64"
  obtain c s where h: "hex_string n = c # s" using hex_string_digits [of n] by (cases "hex_string n") auto
  have ds: "list_all is_hex_digit (c # s)" using hex_string_digits [of n] h by simp
  then have c: "\<not> is_space c" "c \<noteq> CHR ''-''" "c \<noteq> CHR ''+''" by (simp_all add: hex_digit_plain)
  have x: "skip_0x (c # s) = c # s"
    using ds hex_digit_plain(4,5) by (fastforce simp: skip_0x_def split: list.splits)
  have tw: "takeWhile is_hex_digit (c # s) = c # s"
    using ds by (simp only: takeWhile_eq_all_conv list_all_iff)
  show "stoul16 (hex_string n) = Some n"
    using parse_hex_string [of n] n c by (simp add: stoul16_def Let_def h x tw del: takeWhile.simps)
qed

lemma trim_hex_line:
  assumes "http_documented L"
  shows "boost_trim (hl_boost L) (hex_string n @ CRLF) = hex_string n"
proof -
  have ds: "list_all is_hex_digit (hex_string n)" "hex_string n \<noteq> []" using hex_string_digits [of n] by auto
  have "\<not> is_space (hd (hex_string n))" "\<not> is_space (last (hex_string n))"
    using ds by (auto simp: list_all_iff hex_digit_plain)
  moreover have "rev (hex_string n @ CRLF) = [CHR 0x0A, CHR 0x0D] @ rev (hex_string n)" by (simp add: CRLF_def)
  moreover have "dropWhile is_space (hex_string n @ CRLF) = hex_string n @ CRLF"
    using ds(2) calculation(1) by (cases "hex_string n") auto
  moreover have "dropWhile is_space (rev (hex_string n)) = rev (hex_string n)"
    using ds(2) calculation(2) by (cases "hex_string n" rule: rev_cases) auto
  moreover have "dropWhile is_space ([CHR 0x0A, CHR 0x0D] @ rev (hex_string n)) = dropWhile is_space (rev (hex_string n))"
    by (simp add: is_space_def)
  ultimately show ?thesis by (simp only: boostD(4) [OF httpD(1) [OF assms]] rev_rev_ident)
qed

text \<open>A line up to its end.\<close>

lemma find_line_end:
  assumes "list_all not_eol l"
  shows "StrNStr (l @ CRLF @ r) CRLF = Some (length l)"
proof -
  have "CHR 0x0D \<notin> set l" using assms by (auto simp: list_all_iff not_eol_def)
  moreover have "search CRLF (CRLF @ r) = Some 0" by (subst search.simps) simp
  ultimately show ?thesis
    using search_skip [of CRLF l "CRLF @ r"] by (simp add: StrNStr_def CRLF_def)
qed

lemma serve_line:
  assumes "list_all not_eol l" "length l + 2 \<le> maxBytes"
  shows "serve_read d (Until CRLF maxBytes) (l @ CRLF @ r) f = Piece (l @ CRLF) r"
proof -
  have "take (length l + 2) (l @ CRLF @ r) = l @ CRLF" "drop (length l + 2) (l @ CRLF @ r) = r" "length CRLF = 2"
    by (simp_all add: CRLF_def)
  then show ?thesis
    using assms(2) unfolding serve_read.simps find_line_end [OF assms(1)] by (simp add: limited_def)
qed

lemma serve_bytes: "serve_read d (Bytes (length p)) (p @ r) f = Piece p r"
  by simp

lemma hex_string_length: "n < 16 ^ k \<Longrightarrow> 0 < k \<Longrightarrow> length (hex_string n) \<le> k"
proof (induction n arbitrary: k rule: hex_string.induct)
  case (1 n)
  show ?case
  proof (cases "n < 16")
    case False
    then obtain j where k: "k = Suc j" "0 < j" using 1(2) by (cases k; cases "k - 1") auto
    have "n div 16 < 16 ^ j" using 1(2) k by (simp add: div_less_iff_less_mult mult.commute)
    from 1(1) [OF False this k(2)] show ?thesis using False k by (subst hex_string.simps) simp
  qed (use 1(3) in \<open>subst hex_string.simps, simp\<close>)
qed

lemma hex_line_served:
  "n < 2 ^ 64 \<Longrightarrow> serve_read False (Until CRLF 64) (hex_string n @ CRLF @ r) f = Piece (hex_string n @ CRLF) r"
proof -
  assume "n < 2 ^ 64"
  then have "length (hex_string n) \<le> 16" using hex_string_length [of n 16] by simp
  moreover have "list_all not_eol (hex_string n)"
    using hex_string_digits [of n] by (auto simp: list_all_iff hex_digit_plain)
  ultimately show ?thesis by (intro serve_line) simp_all
qed

lemma digit_plain:
  assumes "is_digit c"
  shows "\<not> is_space c" "c \<noteq> CHR ''-''" "c \<noteq> CHR ''+''" "not_eol c"
  using assms by (auto simp: is_digit_def is_space_def not_eol_def)

lemma stoi_int_string: "0 \<le> n \<Longrightarrow> n < 2 ^ 31 \<Longrightarrow> stoi (int_string n) = Some n"
proof -
  assume n: "0 \<le> n" "n < 2 ^ 31"
  obtain c s where h: "to_string (nat n) = c # s" using to_string_digits [of "nat n"] by (cases "to_string (nat n)") auto
  have ds: "list_all is_digit (c # s)" using to_string_digits [of "nat n"] h by simp
  then have c: "\<not> is_space c" "c \<noteq> CHR ''-''" "c \<noteq> CHR ''+''" by (simp_all add: digit_plain)
  have tw: "takeWhile is_digit (c # s) = c # s" using ds by (simp only: takeWhile_eq_all_conv list_all_iff)
  show ?thesis
    using parse_to_string [of "nat n"] n c
    by (simp add: stoi_def Let_def int_string_def h tw del: takeWhile.simps parse_to_string)
qed

lemma no_newline: "list_all (\<lambda>l. list_all not_eol l) ls \<Longrightarrow> List.find (\<lambda>line. CHR 0x0A \<in> set line) ls = None"
  by (induction ls) (auto simp: list_all_iff not_eol_def)

section \<open>Status lines\<close>

definition status_line :: "response_start_line \<Rightarrow> string" where
  "status_line rp = ''HTTP/1.1 '' @ int_string (rp_code rp) @ '' '' @ rp_reason rp"

lemma int_string_plain: "list_all not_eol (int_string n)"
proof -
  have "list_all not_eol s" if "list_all is_digit s" for s using that digit_plain(4) by (auto simp: list_all_iff)
  then show ?thesis using to_string_digits by (simp add: int_string_def) (simp add: not_eol_def)
qed

lemma status_line_plain: "list_all not_eol (rp_reason rp) \<Longrightarrow> list_all not_eol (status_line rp)"
  by (simp add: status_line_def int_string_plain) (simp add: not_eol_def)

lemma parse_status_line:
  assumes "http_documented L" "0 \<le> rp_code rp" "rp_code rp < 2 ^ 31" "list_all not_eol (rp_reason rp)"
  shows "parseResponseStartLine L (status_line rp)
    = Inr \<lparr> rp_version = ''HTTP/1.1'', rp_code = rp_code rp, rp_reason = rp_reason rp \<rparr>"
proof -
  have "list_all is_digit (int_string (rp_code rp))" "int_string (rp_code rp) \<noteq> []"
    using assms(2) to_string_digits by (simp_all add: int_string_def)
  moreover have "is_digit CHR ''1''" by code_simp
  ultimately show ?thesis
    using httpD(5) [OF assms(1), of "CHR ''1''" "int_string (rp_code rp)" "rp_reason rp"] assms
    by (simp add: parseResponseStartLine_def status_line_def stoi_int_string)
qed

section \<open>Start lines of requests\<close>

definition request_line :: "request_start_line \<Rightarrow> string" where
  "request_line rq = rq_method rq @ '' '' @ rq_path rq @ '' HTTP/1.1''"

definition request_ok :: "request_start_line \<Rightarrow> bool" where
  "request_ok rq \<longleftrightarrow> rq_version rq = ''HTTP/1.1'' \<and> rq_method rq \<noteq> [] \<and> list_all (\<lambda>c. \<not> is_space c) (rq_method rq)
     \<and> list_all (\<lambda>c. \<not> is_space c) (rq_path rq)"

lemma no_space_eol: "list_all (\<lambda>c. \<not> is_space c) w \<Longrightarrow> list_all not_eol w"
  by (auto simp: list_all_iff not_eol_def is_space_def)

lemma request_line_plain: "request_ok rq \<Longrightarrow> request_line rq \<noteq> [] \<and> list_all not_eol (request_line rq)"
  by (simp add: request_ok_def request_line_def no_space_eol) (simp add: not_eol_def)

lemma parse_request_line:
  assumes "http_documented L" "request_ok rq"
  shows "parseRequestStartLine L (request_line rq) = Inr rq"
proof -
  have sp: "is_space CHR '' ''" "list_all (\<lambda>c. \<not> is_space c) ''HTTP/1.1''" "is_digit CHR ''1''" by code_simp+
  then have "\<forall>x\<in>set [rq_method rq, rq_path rq, ''HTTP/1.1'']. list_all (\<lambda>c. \<not> is_space c) x"
    using assms(2) by (simp add: request_ok_def)
  from pieces_join [OF this sp(1)]
  have "pieces is_space (request_line rq) = [rq_method rq, rq_path rq, ''HTTP/1.1'']" by (simp add: request_line_def)
  moreover have "split_space (hl_boost L) is_space (request_line rq) True = pieces is_space (request_line rq)"
    using httpD(1) [OF assms(1)] by (simp add: split_space_def boost_documented_def)
  ultimately show ?thesis
    using assms(2) httpD(4) [OF assms(1), of "''HTTP/1.1''"] sp(3) by (simp add: parseRequestStartLine_def request_ok_def)
qed

lemma stoul_to_string: "n < 2 ^ 64 \<Longrightarrow> stoul (to_string n) = Some n"
proof -
  assume n: "n < 2 ^ 64"
  obtain c s where h: "to_string n = c # s" using to_string_digits [of n] by (cases "to_string n") auto
  have ds: "list_all is_digit (c # s)" using to_string_digits [of n] h by simp
  then have c: "\<not> is_space c" "c \<noteq> CHR ''-''" "c \<noteq> CHR ''+''" by (simp_all add: digit_plain)
  have tw: "takeWhile is_digit (c # s) = c # s" using ds by (simp only: takeWhile_eq_all_conv list_all_iff)
  show ?thesis
    using parse_to_string [of n] n c by (simp add: stoul_def Let_def h tw del: takeWhile.simps parse_to_string)
qed

lemma to_string_no_comma: "CHR '','' \<notin> set (to_string n)"
proof -
  have "\<not> is_digit CHR '',''" by code_simp
  then show ?thesis using to_string_digits [of n] by (auto simp: list_all_iff)
qed

section \<open>Setting and looking up a field\<close>

lemma header_set_eq:
  assumes "http_documented L"
  shows "hh_items (header_set L n v h) = map_insert n v (hh_items h)"
    and "hh_asList (header_set L n v h) = map_insert n [v] (hh_asList h)"
  by (simp_all add: header_set_def normalizeName_id [OF assms])

lemma header_has_set:
  "http_documented L \<Longrightarrow> header_has L x (header_set L n v h) \<longleftrightarrow> x = n \<or> header_has L x h"
  by (auto simp: header_has_def header_set_eq map_of_insert)

lemma header_get_set:
  "http_documented L \<Longrightarrow> header_get L x d (header_set L n v h) = (if x = n then v else header_get L x d h)"
  by (simp add: header_get_def header_set_eq map_of_insert normalizeName_id)

lemma header_at_set:
  "http_documented L \<Longrightarrow> header_at L x (header_set L n v h) = (if x = n then Inr v else header_at L x h)"
  by (simp add: header_at_def header_set_eq map_of_insert normalizeName_id)

lemmas header_sets = header_has_set header_get_set header_at_set

lemma same_headersD:
  assumes "same_headers g h"
  shows "header_has L x g = header_has L x h" "header_get L x d g = header_get L x d h"
    "header_at L x g = header_at L x h"
  using assms by (simp_all add: same_headers_def header_has_def header_get_def header_at_def)

lemma header_get_missing: "http_documented L \<Longrightarrow> \<not> header_has L x h \<Longrightarrow> header_get L x d h = d"
  by (simp add: header_get_def header_has_def normalizeName_id split: option.splits)

lemma map_insert_map: "map_insert k (f k v) (map (\<lambda>(n, w). (n, f n w)) m) = map (\<lambda>(n, w). (n, f n w)) (map_insert k v m)"
  by (induction k v m rule: map_insert.induct) auto

lemma list_all_insert: "P (k, v) \<Longrightarrow> list_all P m \<Longrightarrow> list_all P (map_insert k v m)"
  by (induction k v m rule: map_insert.induct) auto

lemma headers_ok_set:
  assumes "http_documented L" "headers_ok h" "name_ok n" "value_ok v"
  shows "headers_ok (header_set L n v h)"
  using assms map_insert_map [of n "\<lambda>n vs. join_with '','' vs" "[v]" "hh_asList h"]
  by (auto simp: headers_ok_def header_set_eq map_ok_insert intro!: list_all_insert)

end
