(* ===== verification/Http_Server.thy ===== *)
theory Http_Server
  imports Http_Stream
begin

text \<open>
  \<open>HTTPConnection\<close> of \<open>plugins/web/httpserver.h\<close> and \<open>httpserver.cpp\<close>: a stream that reads requests,
  hands them to a dispatcher and writes the responses.

  The record has the members of the class, the read that was asked of \<open>IOStream\<close> with its flags
  \<open>closed()\<close> and \<open>_writeCallback\<close>, the timers of the reactor that are still to run, and the trace of
  what the connection does to the outside. The application behind the dispatcher is a function
  from the trace to the calls it makes in the callback that is the last event; a function
  given as a write or close callback is a number, and running it is an event, too. A failed
  \<open>NET4CXX_ASSERT\<close> ends the process: it is the error \<open>Aborted\<close>, which nothing catches. With \<open>NDEBUG\<close>, which
  the default build type defines, it is passed over instead; \<open>read_piece\<close>, where it does fail, has both
  (\<open>he_asserts\<close>), elsewhere the model covers the runs in which none fails.
  zlib is a parameter, on the calls made to the decompressor so far.
\<close>

section \<open>State\<close>

datatype http_event =
    RequestStarted
  | GotHeaders request_start_line http_headers
  | GotBody string
  | GotEnd
  | GotClose
  | RunWriteCallback nat
  | RunCloseCallback nat
  | Wrote string bool
  | Closing "http_exn option"
  | NoDelay bool
  | ProcessEnded http_exn

datatype http_call =
    CallWriteHeaders response_start_line http_headers string "nat option"
  | CallWriteChunk string "nat option"
  | CallFinish
  | CallSetCloseCallback "nat option"
  | CallClose "http_exn option"
  | CallThrow string
  | CallTry http_call

text \<open>The settings of the \<open>WebApp\<close>; a time of zero is no timeout.\<close>

record web_app =
  wa_protocol :: string
  wa_noKeepAlive :: bool
  wa_xheaders :: bool
  wa_decompress :: bool
  wa_chunkSize :: nat
  wa_maxHeaderSize :: nat
  wa_maxBodySize :: nat
  wa_headerTimeout :: real
  wa_bodyTimeout :: real
  wa_trustedDownstream :: "string list"

type_synonym gz_calls = "(string \<times> nat) list"

record http_env =
  he_lib :: http_lib
  he_webApp :: web_app
  he_client :: "http_event list \<Rightarrow> http_call list"
  he_remoteAddress :: string
  he_isSSL :: bool
  he_validIP :: "string \<Rightarrow> bool"
  he_gz_output :: "gz_calls \<Rightarrow> string option"
  he_gz_tail :: "gz_calls \<Rightarrow> string"
  he_gz_flush :: "gz_calls \<Rightarrow> string option"
  he_fuel :: nat
  he_asserts :: bool

datatype conn_state =
    READ_NONE
  | READ_HEADER
  | READ_FIXED_BODY
  | READ_CHUNK_LENGTH
  | READ_CHUNK_DATA
  | READ_CHUNK_ENDS
  | READ_LAST_CHUNK_ENDS

record http_conn =
  hc_maxBufferSize :: nat
  hc_read :: "stream_read option"
  hc_closed :: bool
  hc_writeFlag :: bool
  hc_timers :: "(nat \<times> string) list"
  hc_nextTimer :: nat
  hc_state :: conn_state
  hc_noKeepAlive :: bool
  hc_xheaders :: bool
  hc_decompress :: bool
  hc_disconnectOnFinish :: bool
  hc_chunkSize :: nat
  hc_maxHeaderSize :: nat
  hc_maxBodySize :: nat
  hc_totalSize :: "64 word"
  hc_bytesToRead :: nat
  hc_bytesRead :: nat
  hc_headerTimeout :: real
  hc_bodyTimeout :: real
  hc_remoteIp :: string
  hc_protocol :: string
  hc_origRemoteIp :: string
  hc_origProtocol :: string
  hc_trustedDownstream :: "string list"
  hc_headerTimeoutCall :: "nat option"
  hc_bodyTimeoutCall :: "nat option"
  hc_requestHeaders :: http_headers
  hc_requestStartLine :: request_start_line
  hc_responseStartLine :: response_start_line
  hc_chunkingOutput :: bool
  hc_pendingWrite :: bool
  hc_readFinished :: bool
  hc_writeFinished :: bool
  hc_writeCallback :: "nat option"
  hc_closeCallback :: "nat option"
  hc_decompressor :: "gz_calls option"
  hc_expectedContentRemaining :: "int option"
  hc_trace :: "http_event list"

type_synonym 'a hc_prog = "(http_exn, http_conn, 'a) prog"

definition defaultMaxBufferSize :: nat where "defaultMaxBufferSize = 104857600"

definition noRequestLine :: request_start_line where
  "noRequestLine = \<lparr> rq_method = [], rq_path = [], rq_version = [] \<rparr>"

definition noResponseLine :: response_start_line where
  "noResponseLine = \<lparr> rp_version = [], rp_code = 0, rp_reason = [] \<rparr>"

definition newHTTPConnection :: "nat \<Rightarrow> http_conn" where
  "newHTTPConnection maxBufferSize = \<lparr>
     hc_maxBufferSize = (if maxBufferSize \<noteq> 0 then maxBufferSize else defaultMaxBufferSize),
     hc_read = None, hc_closed = False, hc_writeFlag = False, hc_timers = [], hc_nextTimer = 0,
     hc_state = READ_NONE, hc_noKeepAlive = False, hc_xheaders = False, hc_decompress = False,
     hc_disconnectOnFinish = False, hc_chunkSize = 0, hc_maxHeaderSize = 0, hc_maxBodySize = 0,
     hc_totalSize = 0, hc_bytesToRead = 0, hc_bytesRead = 0, hc_headerTimeout = 0, hc_bodyTimeout = 0,
     hc_remoteIp = [], hc_protocol = [], hc_origRemoteIp = [], hc_origProtocol = [],
     hc_trustedDownstream = [], hc_headerTimeoutCall = None, hc_bodyTimeoutCall = None,
     hc_requestHeaders = newHTTPHeaders, hc_requestStartLine = noRequestLine,
     hc_responseStartLine = noResponseLine, hc_chunkingOutput = False, hc_pendingWrite = False,
     hc_readFinished = False, hc_writeFinished = False, hc_writeCallback = None,
     hc_closeCallback = None, hc_decompressor = None, hc_expectedContentRemaining = None,
     hc_trace = [] \<rparr>"

definition hc_traceM :: "http_event \<Rightarrow> unit hc_prog" where
  "hc_traceM e = modifyM (\<lambda>s. s\<lparr> hc_trace := hc_trace s @ [e] \<rparr>)"

section \<open>Stream and timers\<close>

definition hc_ask :: "stream_read \<Rightarrow> unit hc_prog" where
  "hc_ask r = withM (\<lambda>s. if hc_read s \<noteq> None then throwM (Aborted ''Already reading'')
     else modifyM (\<lambda>s. s\<lparr> hc_read := Some r \<rparr>))"

definition stream_write :: "string \<Rightarrow> bool \<Rightarrow> unit hc_prog" where
  "stream_write data writeCallback = withM (\<lambda>s. if hc_closed s then throwM StreamClosed
     else doM [modifyM (\<lambda>s. s\<lparr> hc_writeFlag := writeCallback \<rparr>), hc_traceM (Wrote data writeCallback)])"

definition stream_close :: "http_exn option \<Rightarrow> unit hc_prog" where
  "stream_close reason = withM (\<lambda>s. whenM (\<not> hc_closed s) (doM [
     modifyM (\<lambda>s. s\<lparr> hc_closed := True \<rparr>), hc_traceM (Closing reason)]))"

text \<open>\<open>callLater\<close>: the number of the timer, whose run closes the connection with this message.\<close>

definition call_later :: "string \<Rightarrow> nat hc_prog" where
  "call_later message = withM (\<lambda>s. retM [modifyM (\<lambda>s. s\<lparr>
     hc_timers := hc_timers s @ [(hc_nextTimer s, message)], hc_nextTimer := hc_nextTimer s + 1 \<rparr>)] (hc_nextTimer s))"

definition timer_active :: "http_conn \<Rightarrow> nat option \<Rightarrow> bool" where
  "timer_active s call = (case call of None \<Rightarrow> False | Some n \<Rightarrow> n \<in> fst ` set (hc_timers s))"

definition cancel_active :: "(http_conn \<Rightarrow> nat option) \<Rightarrow> unit hc_prog" where
  "cancel_active call = withM (\<lambda>s. whenM (timer_active s (call s))
     (modifyM (\<lambda>s. s\<lparr> hc_timers := filter (\<lambda>(n, m). Some n \<noteq> call s) (hc_timers s) \<rparr>)))"

definition clearCallbacks :: "unit hc_prog" where
  "clearCallbacks = modifyM (\<lambda>s. s\<lparr> hc_writeCallback := None, hc_closeCallback := None \<rparr>)"

definition hc_close :: "http_exn option \<Rightarrow> unit hc_prog" where
  "hc_close reason = doM [
     stream_close reason,
     clearCallbacks,
     cancel_active hc_headerTimeoutCall,
     cancel_active hc_bodyTimeoutCall]"

section \<open>Asking for the next piece\<close>

definition hc_readHeaders :: "unit hc_prog" where
  "hc_readHeaders = doM [
     modifyM (\<lambda>s. s\<lparr> hc_state := READ_HEADER \<rparr>),
     withM (\<lambda>s. hc_ask (UntilRegex HEADER_END (hc_maxHeaderSize s))),
     withM (\<lambda>s. whenM (hc_headerTimeout s \<noteq> 0) (bindM (call_later ''Read header timeout'')
       (\<lambda>n. modifyM (\<lambda>s. s\<lparr> hc_headerTimeoutCall := Some n \<rparr>))))]"

definition readFixedBodyBlock :: "unit hc_prog" where
  "readFixedBodyBlock = doM [
     modifyM (\<lambda>s. s\<lparr> hc_state := READ_FIXED_BODY \<rparr>),
     withM (\<lambda>s. hc_ask (Bytes (min (hc_chunkSize s) (hc_bytesToRead s))))]"

definition readChunkLength :: "unit hc_prog" where
  "readChunkLength = doM [
     modifyM (\<lambda>s. s\<lparr> hc_state := READ_CHUNK_LENGTH \<rparr>),
     hc_ask (Until CRLF 64)]"

definition readChunkDataBlock :: "unit hc_prog" where
  "readChunkDataBlock = doM [
     modifyM (\<lambda>s. s\<lparr> hc_state := READ_CHUNK_DATA \<rparr>),
     withM (\<lambda>s. hc_ask (Bytes (min (hc_chunkSize s) (hc_bytesToRead s))))]"

definition readChunkData :: "nat \<Rightarrow> unit hc_prog" where
  "readChunkData chunkLen = doM [
     modifyM (\<lambda>s. s\<lparr> hc_bytesRead := 0, hc_bytesToRead := chunkLen \<rparr>),
     readChunkDataBlock]"

definition readChunkEnds :: "unit hc_prog" where
  "readChunkEnds = doM [
     modifyM (\<lambda>s. s\<lparr> hc_state := READ_CHUNK_ENDS \<rparr>),
     hc_ask (Bytes 2)]"

definition readLastChunkEnds :: "unit hc_prog" where
  "readLastChunkEnds = doM [
     modifyM (\<lambda>s. s\<lparr> hc_state := READ_LAST_CHUNK_ENDS \<rparr>),
     hc_ask (Bytes 2)]"

section \<open>Requests\<close>

definition hc_startRequest :: "unit hc_prog" where
  "hc_startRequest = doM [
     modifyM (\<lambda>s. s\<lparr> hc_totalSize := 0, hc_disconnectOnFinish := False \<rparr>),
     clearCallbacks,
     modifyM (\<lambda>s. s\<lparr> hc_chunkingOutput := False, hc_pendingWrite := False, hc_readFinished := False,
       hc_writeFinished := False, hc_expectedContentRemaining := None, hc_decompressor := None \<rparr>),
     hc_traceM RequestStarted,
     hc_readHeaders]"

definition unapplyXheaders :: "unit hc_prog" where
  "unapplyXheaders = modifyM (\<lambda>s. s\<lparr> hc_remoteIp := hc_origRemoteIp s, hc_protocol := hc_origProtocol s \<rparr>)"

definition finishRequest :: "unit hc_prog" where
  "finishRequest = doM [
     withM (\<lambda>s. whenM (hc_xheaders s) unapplyXheaders),
     clearCallbacks,
     withM (\<lambda>s. if hc_disconnectOnFinish s then hc_close None
       else doM [hc_traceM (NoDelay False), hc_startRequest])]"

text \<open>\<open>getTrustedDownstream\<close> and the other settings; \<open>TypeError\<close>s of the cast to \<open>WebApp\<close> do not occur.\<close>

definition hc_onConnected :: "http_env \<Rightarrow> unit hc_prog" where
  "hc_onConnected E = (let A = he_webApp E in doM [
     modifyM (\<lambda>s. s\<lparr> hc_remoteIp := (if he_validIP E (he_remoteAddress E) then he_remoteAddress E else ''0.0.0.0''),
       hc_protocol := (if wa_protocol A \<noteq> [] then wa_protocol A else if he_isSSL E then ''https'' else ''http'') \<rparr>),
     modifyM (\<lambda>s. s\<lparr> hc_origRemoteIp := hc_remoteIp s, hc_origProtocol := hc_protocol s,
       hc_noKeepAlive := wa_noKeepAlive A, hc_xheaders := wa_xheaders A, hc_decompress := wa_decompress A,
       hc_chunkSize := (if wa_chunkSize A \<noteq> 0 then wa_chunkSize A else 65536),
       hc_maxHeaderSize := (if wa_maxHeaderSize A \<noteq> 0 then wa_maxHeaderSize A else 65536),
       hc_maxBodySize := (if wa_maxBodySize A \<noteq> 0 then wa_maxBodySize A else hc_maxBufferSize s),
       hc_headerTimeout := wa_headerTimeout A, hc_bodyTimeout := wa_bodyTimeout A,
       hc_trustedDownstream := wa_trustedDownstream A \<rparr>),
     hc_startRequest])"

section \<open>Writing the response\<close>

text \<open>A response longer than announced closes the connection and throws.\<close>

definition hc_formatChunk :: "string \<Rightarrow> string hc_prog" where
  "hc_formatChunk data = bindM
     (withM (\<lambda>s. case hc_expectedContentRemaining s of
        None \<Rightarrow> returnM ()
      | Some n \<Rightarrow>
          let left = n - int (length data); tooMuch = HTTPOutputError ''Tried to write more data than Content-Length''
          in doM [
            modifyM (\<lambda>s. s\<lparr> hc_expectedContentRemaining := Some left \<rparr>),
            whenM (left < 0) (doM [hc_close (Some tooMuch), throwM tooMuch])]))
     (\<lambda>_. getsM (\<lambda>s. if hc_chunkingOutput s \<and> data \<noteq> [] then chunk_text data else data))"

definition set_writeCallback :: "nat option \<Rightarrow> unit hc_prog" where
  "set_writeCallback callback =
     whenM (callback \<noteq> None) (modifyM (\<lambda>s. s\<lparr> hc_writeCallback := callback \<rparr>))"

definition chunks_output :: "http_lib \<Rightarrow> request_start_line \<Rightarrow> response_start_line \<Rightarrow> http_headers \<Rightarrow> bool" where
  "chunks_output L rq rp headers \<longleftrightarrow>
     rq_version rq = ''HTTP/1.1'' \<and> rp_code rp \<noteq> 204 \<and> rp_code rp \<noteq> 304 \<and> (rp_code rp < 100 \<or> rp_code rp \<ge> 200)
     \<and> \<not> header_has L ''Content-Length'' headers \<and> \<not> header_has L ''Transfer-Encoding'' headers"

text \<open>The headers that the connection adds to those of the application.\<close>

definition response_headers :: "http_lib \<Rightarrow> http_conn \<Rightarrow> http_headers \<Rightarrow> http_headers" where
  "response_headers L s headers =
     (let h = (if rq_version (hc_requestStartLine s) = ''HTTP/1.1'' \<and> hc_disconnectOnFinish s
               then header_set L ''Connection'' ''close'' headers else headers);
          h = (if rq_version (hc_requestStartLine s) = ''HTTP/1.0''
                 \<and> boost_to_lower (hl_boost L) (header_get L ''Connection'' [] (hc_requestHeaders s)) = ''keep-alive''
               then header_set L ''Connection'' ''Keep-Alive'' h else h)
      in if hc_chunkingOutput s then header_set L ''Transfer-Encoding'' ''chunked'' h else h)"

definition set_expected :: "http_lib \<Rightarrow> http_headers \<Rightarrow> unit hc_prog" where
  "set_expected L headers = withM (\<lambda>s.
     if rq_method (hc_requestStartLine s) = ''HEAD'' \<or> rp_code (hc_responseStartLine s) = 304
     then modifyM (\<lambda>s. s\<lparr> hc_expectedContentRemaining := Some 0 \<rparr>)
     else if header_has L ''Content-Length'' headers
     then (case header_at L ''Content-Length'' headers of
         Inl e \<Rightarrow> throwM e
       | Inr v \<Rightarrow> (case stoi v of
             None \<Rightarrow> throwM StdInvalidArgument
           | Some n \<Rightarrow> modifyM (\<lambda>s. s\<lparr> hc_expectedContentRemaining := Some n \<rparr>)))
     else modifyM (\<lambda>s. s\<lparr> hc_expectedContentRemaining := None \<rparr>))"

definition response_lines :: "response_start_line \<Rightarrow> http_headers \<Rightarrow> string list" where
  "response_lines startLine headers =
     (''HTTP/1.1 '' @ int_string (rp_code startLine) @ '' '' @ rp_reason startLine)
     # List.map (\<lambda>(name, value). name @ '': '' @ value) (header_getAll headers)"

definition hc_writeHeaders ::
  "http_env \<Rightarrow> response_start_line \<Rightarrow> http_headers \<Rightarrow> string \<Rightarrow> nat option \<Rightarrow> unit hc_prog" where
  "hc_writeHeaders E startLine headers chunk callback = (let L = he_lib E in doM [
     modifyM (\<lambda>s. s\<lparr> hc_responseStartLine := startLine,
       hc_chunkingOutput := chunks_output L (hc_requestStartLine s) startLine headers \<rparr>),
     withM (\<lambda>s. let headers = response_headers L s headers; lines = response_lines startLine headers in doM [
       set_expected L headers,
       (case List.find (\<lambda>line. CHR 0x0A \<in> set line) lines of
          Some line \<Rightarrow> throwM (HttpValueError (''Newline in header: '' @ line))
        | None \<Rightarrow> bindM (if chunk \<noteq> [] then hc_formatChunk chunk else returnM []) (\<lambda>body. doM [
            set_writeCallback callback,
            modifyM (\<lambda>s. s\<lparr> hc_pendingWrite := True \<rparr>),
            stream_write (boost_join (hl_boost L) lines CRLF @ CRLF @ CRLF @ body) True]))])])"

definition hc_writeChunk :: "string \<Rightarrow> nat option \<Rightarrow> unit hc_prog" where
  "hc_writeChunk chunk callback = doM [
     set_writeCallback callback,
     modifyM (\<lambda>s. s\<lparr> hc_pendingWrite := True \<rparr>),
     bindM (hc_formatChunk chunk) (\<lambda>data. stream_write data True)]"

definition hc_finish :: "unit hc_prog" where
  "hc_finish = doM [
     withM (\<lambda>s. case hc_expectedContentRemaining s of
        None \<Rightarrow> doM []
      | Some n \<Rightarrow> let tooLittle = HTTPOutputError (''Tried to write '' @ int_string n @ '' bytes less than Content-Length'')
          in whenM (n \<noteq> 0) (doM [hc_close (Some tooLittle), throwM tooLittle])),
     withM (\<lambda>s. whenM (hc_chunkingOutput s) (doM [
       modifyM (\<lambda>s. s\<lparr> hc_pendingWrite := True \<rparr>),
       stream_write last_chunk True])),
     modifyM (\<lambda>s. s\<lparr> hc_writeFinished := True \<rparr>),
     withM (\<lambda>s. whenM (\<not> hc_readFinished s) (modifyM (\<lambda>s. s\<lparr> hc_disconnectOnFinish := True \<rparr>))),
     hc_traceM (NoDelay True),
     withM (\<lambda>s. whenM (\<not> hc_pendingWrite s) finishRequest)]"

section \<open>The application\<close>

definition uncaught :: "http_exn \<Rightarrow> bool" where
  "uncaught e \<longleftrightarrow> (case e of Aborted m \<Rightarrow> True | FuelExhausted \<Rightarrow> True | _ \<Rightarrow> False)"

definition catchM :: "unit hc_prog \<Rightarrow> (http_exn \<Rightarrow> unit hc_prog) \<Rightarrow> unit hc_prog" where
  "catchM m h = tryM m (\<lambda>e. if uncaught e then throwM e else h e)"

fun hc_call :: "http_env \<Rightarrow> http_call \<Rightarrow> unit hc_prog" where
  "hc_call E (CallWriteHeaders startLine headers chunk callback) = hc_writeHeaders E startLine headers chunk callback"
| "hc_call E (CallWriteChunk chunk callback) = hc_writeChunk chunk callback"
| "hc_call E CallFinish = hc_finish"
| "hc_call E (CallSetCloseCallback callback) = modifyM (\<lambda>s. s\<lparr> hc_closeCallback := callback \<rparr>)"
| "hc_call E (CallClose reason) = hc_close reason"
| "hc_call E (CallThrow m) = throwM (AppError m)"
| "hc_call E (CallTry c) = catchM (hc_call E c) (\<lambda>e. doM [])"

definition hc_callback :: "http_env \<Rightarrow> http_event \<Rightarrow> unit hc_prog" where
  "hc_callback E e = doM [
     hc_traceM e,
     withM (\<lambda>s. doM (List.map (hc_call E) (he_client E (hc_trace s))))]"

definition hc_onWriteComplete :: "http_env \<Rightarrow> unit hc_prog" where
  "hc_onWriteComplete E = doM [
     modifyM (\<lambda>s. s\<lparr> hc_pendingWrite := False \<rparr>),
     withM (\<lambda>s. case hc_writeCallback s of
        None \<Rightarrow> doM []
      | Some callback \<Rightarrow> doM [
          modifyM (\<lambda>s. s\<lparr> hc_writeCallback := None \<rparr>),
          catchM (hc_callback E (RunWriteCallback callback)) (\<lambda>e. doM [])]),
     withM (\<lambda>s. whenM (hc_writeFinished s) finishRequest)]"

definition hc_onDisconnected :: "http_env \<Rightarrow> unit hc_prog" where
  "hc_onDisconnected E = doM [
     withM (\<lambda>s. case hc_closeCallback s of
        None \<Rightarrow> doM []
      | Some callback \<Rightarrow> doM [
          modifyM (\<lambda>s. s\<lparr> hc_closeCallback := None \<rparr>),
          catchM (hc_callback E (RunCloseCallback callback)) (\<lambda>e. doM [])]),
     hc_callback E GotClose,
     withM (\<lambda>s. whenM (hc_xheaders s) unapplyXheaders),
     clearCallbacks]"

section \<open>Reading the request\<close>

definition canKeepAlive :: "http_lib \<Rightarrow> http_conn \<Rightarrow> bool" where
  "canKeepAlive L s =
     (if hc_noKeepAlive s then False
      else let headers = hc_requestHeaders s; startLine = hc_requestStartLine s;
               connectionHeader = boost_to_lower (hl_boost L) (header_get L ''Connection'' [] headers)
        in if rq_version startLine = ''HTTP/1.1'' then connectionHeader \<noteq> ''close''
           else if header_has L ''Content-Length'' headers
             \<or> boost_to_lower (hl_boost L) (header_get L ''Transfer-Encoding'' [] headers) = ''chunked''
             \<or> rq_method startLine = ''HEAD'' \<or> rq_method startLine = ''GET''
           then connectionHeader = ''keep-alive'' else False)"

fun last_untrusted :: "http_lib \<Rightarrow> string list \<Rightarrow> string list \<Rightarrow> string \<Rightarrow> string" where
  "last_untrusted L trusted [] ip = ip"
| "last_untrusted L trusted (cand # cands) ip =
     (let ip = boost_trim (hl_boost L) cand
      in if ip \<notin> set trusted then ip else last_untrusted L trusted cands ip)"

definition applyXheaders :: "http_env \<Rightarrow> http_headers \<Rightarrow> unit hc_prog" where
  "applyXheaders E headers = withM (\<lambda>s.
     let L = he_lib E;
         ip = header_get L ''X-Forwarded-For'' (hc_remoteIp s) headers;
         ip = last_untrusted L (hc_trustedDownstream s) (rev (split_char (hl_boost L) ip CHR '','' True)) ip;
         ip = header_get L ''X-Real-Ip'' ip headers;
         proto = header_get L ''X-Forwarded-Proto'' (hc_protocol s) headers;
         proto = header_get L ''X-Scheme'' proto headers;
         proto = (if proto \<noteq> [] then boost_trim (hl_boost L) (last (split_char (hl_boost L) proto CHR '','' True)) else proto)
     in doM [
       whenM (he_validIP E ip) (modifyM (\<lambda>s. s\<lparr> hc_remoteIp := ip \<rparr>)),
       whenM (proto = ''http'' \<or> proto = ''https'') (modifyM (\<lambda>s. s\<lparr> hc_protocol := proto \<rparr>))])"

definition use_decompressor :: "http_env \<Rightarrow> unit hc_prog" where
  "use_decompressor E = withM (\<lambda>s. let L = he_lib E; headers = hc_requestHeaders s in
     whenM (header_get L ''Content-Encoding'' [] headers = ''gzip'') (doM [
       modifyM (\<lambda>s. s\<lparr> hc_decompressor := Some [] \<rparr>),
       (case header_at L ''Content-Encoding'' headers of
          Inl e \<Rightarrow> throwM e
        | Inr v \<Rightarrow>
            let headers = header_add L ''X-Consumed-Content-Encoding'' v headers in doM [
              modifyM (\<lambda>s. s\<lparr> hc_requestHeaders := headers \<rparr>),
              (case header_erase L ''Content-Encoding'' headers of
                 Inl e \<Rightarrow> throwM e
               | Inr headers \<Rightarrow> modifyM (\<lambda>s. s\<lparr> hc_requestHeaders := headers \<rparr>))])]))"

definition onHeadersReceived :: "http_env \<Rightarrow> unit hc_prog" where
  "onHeadersReceived E = doM [
     withM (\<lambda>s. whenM (hc_decompress s) (use_decompressor E)),
     withM (\<lambda>s. whenM (hc_xheaders s) (applyXheaders E (hc_requestHeaders s))),
     withM (\<lambda>s. hc_callback E (GotHeaders (hc_requestStartLine s) (hc_requestHeaders s)))]"

definition give_body :: "http_env \<Rightarrow> string \<Rightarrow> unit hc_prog" where
  "give_body E data = withM (\<lambda>s. whenM (\<not> hc_writeFinished s) (hc_callback E (GotBody data)))"

definition decompressToString :: "http_env \<Rightarrow> string \<Rightarrow> string hc_prog" where
  "decompressToString E data = withM (\<lambda>s. case hc_decompressor s of
      None \<Rightarrow> throwM (Aborted ''no decompressor'')
    | Some calls \<Rightarrow>
        let calls = calls @ [(data, hc_chunkSize s)]
        in (case he_gz_output E calls of
              None \<Rightarrow> throwM DecompressError
            | Some output \<Rightarrow> retM [modifyM (\<lambda>s. s\<lparr> hc_decompressor := Some calls \<rparr>)] output))"

definition unconsumedTail :: "http_env \<Rightarrow> http_conn \<Rightarrow> string" where
  "unconsumedTail E s = (case hc_decompressor s of None \<Rightarrow> [] | Some calls \<Rightarrow> he_gz_tail E calls)"

definition decompress_round :: "http_env \<Rightarrow> bool hc_prog" where
  "decompress_round E = withM (\<lambda>s. if unconsumedTail E s = [] then returnM False
     else bindM (decompressToString E (unconsumedTail E s)) (\<lambda>output. retM [give_body E output] True))"

text \<open>Whether the loop over the unconsumed tail ends is up to zlib, so its rounds are bounded.\<close>

definition hc_onDataReceived :: "http_env \<Rightarrow> string \<Rightarrow> unit hc_prog" where
  "hc_onDataReceived E data = doM [
     modifyM (\<lambda>s. s\<lparr> hc_bytesRead := hc_bytesRead s + length data,
       hc_totalSize := hc_totalSize s + word_of_nat (length data) \<rparr>),
     withM (\<lambda>s. if hc_decompressor s \<noteq> None
       then bindM (decompressToString E data) (\<lambda>output. doM [
         give_body E output,
         bindM (loopM (he_fuel E) (decompress_round E)) (\<lambda>ended. if ended then doM [] else throwM FuelExhausted)])
       else give_body E data)]"

definition readFinished :: "http_env \<Rightarrow> unit hc_prog" where
  "readFinished E = doM [
     modifyM (\<lambda>s. s\<lparr> hc_readFinished := True \<rparr>),
     cancel_active hc_bodyTimeoutCall,
     withM (\<lambda>s. case hc_decompressor s of
        None \<Rightarrow> doM []
      | Some calls \<Rightarrow> (case he_gz_flush E calls of
            None \<Rightarrow> throwM DecompressError
          | Some tail \<Rightarrow> whenM (tail \<noteq> []) (give_body E tail))),
     modifyM (\<lambda>s. s\<lparr> hc_state := READ_NONE \<rparr>),
     withM (\<lambda>s. whenM (\<not> hc_writeFinished s) (hc_callback E GotEnd))]"

definition readFixedBody :: "http_env \<Rightarrow> nat \<Rightarrow> unit hc_prog" where
  "readFixedBody E contentLength = (if contentLength \<noteq> 0 then doM [
       modifyM (\<lambda>s. s\<lparr> hc_bytesRead := 0, hc_bytesToRead := contentLength \<rparr>),
       readFixedBodyBlock]
     else readFinished E)"

definition start_bodyTimeout :: "unit hc_prog" where
  "start_bodyTimeout = withM (\<lambda>s. whenM (hc_bodyTimeout s \<noteq> 0) (bindM (call_later ''Read body timeout'')
     (\<lambda>n. modifyM (\<lambda>s. s\<lparr> hc_bodyTimeoutCall := Some n \<rparr>))))"

definition contentLength_of :: "http_lib \<Rightarrow> http_headers \<Rightarrow> http_exn + string" where
  "contentLength_of L headers =
     (if header_has L ''Transfer-Encoding'' headers
      then Inl (HTTPInputError ''Response with both Transfer-Encoding and Content-Length'')
      else (case header_at L ''Content-Length'' headers of Inl e \<Rightarrow> Inl e | Inr v \<Rightarrow> single_length L v))"

definition hc_readBody :: "http_env \<Rightarrow> unit hc_prog" where
  "hc_readBody E = withM (\<lambda>s. let L = he_lib E; headers = hc_requestHeaders s in
     if header_has L ''Content-Length'' headers then
       (case contentLength_of L headers of
          Inl e \<Rightarrow> throwM e
        | Inr v \<Rightarrow> doM [
            modifyM (\<lambda>s. s\<lparr> hc_requestHeaders :=
              (if CHR '','' \<in> set (header_get L ''Content-Length'' [] headers)
               then header_set L ''Content-Length'' v headers else headers) \<rparr>),
            (case stoul v of
               None \<Rightarrow> throwM (HTTPInputError (''Only integer Content-Length is allowed: '' @ v))
             | Some contentLength \<Rightarrow>
                 if contentLength > hc_maxBodySize s then throwM (HTTPInputError ''Content-Length too long'')
                 else doM [readFixedBody E contentLength, start_bodyTimeout])])
     else if boost_to_lower (hl_boost L) (header_get L ''Transfer-Encoding'' [] headers) = ''chunked''
     then doM [readChunkLength, start_bodyTimeout]
     else readFinished E)"

definition hc_onHeaders :: "http_env \<Rightarrow> string \<Rightarrow> unit hc_prog" where
  "hc_onHeaders E data = (let L = he_lib E in doM [
     cancel_active hc_headerTimeoutCall,
     (case parseHeaders L data of
        Inl e \<Rightarrow> throwM e
      | Inr (startLine, headers) \<Rightarrow> doM [
          modifyM (\<lambda>s. s\<lparr> hc_requestHeaders := headers \<rparr>),
          (case parseRequestStartLine L startLine of
             Inl e \<Rightarrow> throwM e
           | Inr rq \<Rightarrow> modifyM (\<lambda>s. s\<lparr> hc_requestStartLine := rq \<rparr>))]),
     modifyM (\<lambda>s. s\<lparr> hc_disconnectOnFinish := \<not> canKeepAlive L s \<rparr>),
     onHeadersReceived E,
     withM (\<lambda>s. whenM (header_get L ''Expect'' [] (hc_requestHeaders s) = ''100-continue'' \<and> \<not> hc_writeFinished s)
       (stream_write (''HTTP/1.1 100 (Continue)'' @ CRLF @ CRLF) False)),
     hc_readBody E])"

definition hc_onFixedBody :: "http_env \<Rightarrow> string \<Rightarrow> unit hc_prog" where
  "hc_onFixedBody E data = doM [
     hc_onDataReceived E data,
     withM (\<lambda>s. if hc_bytesRead s < hc_bytesToRead s then readFixedBodyBlock else readFinished E)]"

definition hc_onChunkLength :: "http_env \<Rightarrow> string \<Rightarrow> unit hc_prog" where
  "hc_onChunkLength E data = withM (\<lambda>s. case stoul16 (boost_trim (hl_boost (he_lib E)) data) of
      None \<Rightarrow> throwM StdInvalidArgument
    | Some chunkLen \<Rightarrow>
        if chunkLen = 0 then readLastChunkEnds
        else if unat (word_of_nat chunkLen + hc_totalSize s) > hc_maxBodySize s
        then throwM (HTTPInputError ''chunked body too large'')
        else readChunkData chunkLen)"

definition hc_onChunkData :: "http_env \<Rightarrow> string \<Rightarrow> unit hc_prog" where
  "hc_onChunkData E data = doM [
     hc_onDataReceived E data,
     withM (\<lambda>s. if hc_bytesRead s < hc_bytesToRead s then readChunkDataBlock else readChunkEnds)]"

definition hc_onChunkEnds :: "string \<Rightarrow> unit hc_prog" where
  "hc_onChunkEnds data = (if data \<noteq> CRLF then throwM (AssertionError []) else readChunkLength)"

definition hc_onLastChunkEnds :: "http_env \<Rightarrow> string \<Rightarrow> unit hc_prog" where
  "hc_onLastChunkEnds E data =
     (if data \<noteq> CRLF then throwM (HTTPInputError ''improperly terminated chunked request'') else readFinished E)"

text \<open>
  The last state has no case. The assertion of the default case ends the process where assertions are compiled
  (\<open>he_asserts\<close>); with \<open>NDEBUG\<close>, which the default build type defines, nothing happens.
\<close>

definition read_piece :: "http_env \<Rightarrow> conn_state \<Rightarrow> string \<Rightarrow> unit hc_prog" where
  "read_piece E state data = (case state of
      READ_HEADER \<Rightarrow> hc_onHeaders E data
    | READ_FIXED_BODY \<Rightarrow> hc_onFixedBody E data
    | READ_CHUNK_LENGTH \<Rightarrow> hc_onChunkLength E data
    | READ_CHUNK_DATA \<Rightarrow> hc_onChunkData E data
    | READ_CHUNK_ENDS \<Rightarrow> hc_onChunkEnds data
    | _ \<Rightarrow> if he_asserts E then throwM (Aborted ''Unreachable'') else doM [])"

definition hc_onDataRead :: "http_env \<Rightarrow> string \<Rightarrow> unit hc_prog" where
  "hc_onDataRead E data =
     catchM (withM (\<lambda>s. read_piece E (hc_state s) data)) (\<lambda>e. hc_close (Some e))"

section \<open>What the reactor and the transport call\<close>

text \<open>
  \<open>IOStream\<close> ends the read before it hands out the piece. The run of a timer of this connection, the
  completion of a write that asked for it, and calls that the application makes of its own.
\<close>

datatype http_input =
    Connect
  | Data string
  | ReadFailed
  | WriteDone
  | Disconnect
  | Timer nat
  | UserCall http_call

fun hc_step :: "http_env \<Rightarrow> http_input \<Rightarrow> unit hc_prog" where
  "hc_step E Connect = hc_onConnected E"
| "hc_step E (Data p) = withM (\<lambda>s. whenM (hc_read s \<noteq> None) (doM [
     modifyM (\<lambda>s. s\<lparr> hc_read := None \<rparr>), hc_onDataRead E p]))"
| "hc_step E ReadFailed = hc_close (Some (AppError ''UnsatisfiableReadError''))"
| "hc_step E WriteDone = withM (\<lambda>s. whenM (hc_writeFlag s) (doM [
     modifyM (\<lambda>s. s\<lparr> hc_writeFlag := False \<rparr>), hc_onWriteComplete E]))"
| "hc_step E Disconnect = doM [modifyM (\<lambda>s. s\<lparr> hc_closed := True \<rparr>), hc_onDisconnected E]"
| "hc_step E (Timer n) = withM (\<lambda>s. case map_of (hc_timers s) n of
      None \<Rightarrow> doM []
    | Some m \<Rightarrow> doM [
        modifyM (\<lambda>s. s\<lparr> hc_timers := filter (\<lambda>(k, m). k \<noteq> n) (hc_timers s) \<rparr>),
        hc_close (Some (TimeoutError m))])"
| "hc_step E (UserCall c) = hc_call E c"

text \<open>The connection fed with octets. An exception that nothing catches ends the process: no read is left.\<close>

definition server_reader :: "http_env \<Rightarrow> http_conn reader" where
  "server_reader E = \<lparr> rd_search = hl_header_end (he_lib E), rd_pending = hc_read,
     rd_data = (\<lambda>p s. case hc_step E (Data p) s of
         (Inl e, t) \<Rightarrow> t\<lparr> hc_read := None, hc_trace := hc_trace t @ [ProcessEnded e] \<rparr>
       | (Inr x, t) \<Rightarrow> t),
     rd_fail = (\<lambda>s. snd (hc_step E ReadFailed s)) \<rparr>"

end
