(* ===== verification/Http_Server_Props.thy ===== *)
theory Http_Server_Props
  imports Http_Headers Http_Server
begin

text \<open>
  What the server connection writes for the calls of an application, and how it reads a chunked body.
\<close>

section \<open>Output\<close>

definition server_output :: "http_event list \<Rightarrow> string" where
  "server_output tr = concat (map (\<lambda>e. case e of Wrote d b \<Rightarrow> d | _ \<Rightarrow> []) tr)"

lemma server_output_simps [simp]:
  "server_output [] = []" "server_output (xs @ ys) = server_output xs @ server_output ys"
  "server_output (Wrote d b # tr) = d @ server_output tr"
  "server_output (NoDelay c # tr) = server_output tr"
  by (simp_all add: server_output_def)

text \<open>The headers that are sent for a response that is written in chunks.\<close>

definition chunked_headers :: "http_lib \<Rightarrow> http_conn \<Rightarrow> http_headers \<Rightarrow> http_headers" where
  "chunked_headers L s h = response_headers L (s\<lparr> hc_chunkingOutput := True \<rparr>) h"

lemma response_lines_eq: "response_lines rp h = status_line rp # map header_field (header_getAll h)"
  by (simp add: response_lines_def status_line_def header_field_def split_beta)

lemma sent_names: "name_ok ''Connection''" "name_ok ''Transfer-Encoding''" "name_ok ''Content-Length''"
  "value_ok ''close''" "value_ok ''Keep-Alive''" "value_ok ''chunked''"
  by code_simp+

lemma response_headers_ok:
  "http_documented L \<Longrightarrow> headers_ok h \<Longrightarrow> headers_ok (response_headers L s h)"
  by (auto simp: response_headers_def Let_def intro!: headers_ok_set sent_names)

lemma chunked_headers_has:
  assumes "http_documented L" "x \<noteq> ''Connection''"
  shows "header_has L x (chunked_headers L s h) \<longleftrightarrow> x = ''Transfer-Encoding'' \<or> header_has L x h"
    and "header_get L ''Transfer-Encoding'' d (chunked_headers L s h) = ''chunked''"
    and "x \<noteq> ''Transfer-Encoding'' \<Longrightarrow> header_get L x d (chunked_headers L s h) = header_get L x d h"
  using assms by (auto simp: chunked_headers_def response_headers_def Let_def header_sets)

lemma writes_headers:
  assumes L: "http_documented (he_lib E)" and up: "\<not> hc_closed s"
    and chunks: "chunks_output (he_lib E) (hc_requestStartLine s) rp h"
    and "rq_method (hc_requestStartLine s) \<noteq> ''HEAD''"
    and ok: "headers_ok h" "list_all not_eol (rp_reason rp)"
  shows "hc_call E (CallWriteHeaders rp h [] None) s = (Inr (), s\<lparr> hc_responseStartLine := rp,
    hc_chunkingOutput := True, hc_expectedContentRemaining := None, hc_pendingWrite := True, hc_writeFlag := True,
    hc_trace := hc_trace s @ [Wrote (header_block (status_line rp) (chunked_headers (he_lib E) s h)) True] \<rparr>)"
proof -
  let ?t = "s\<lparr> hc_responseStartLine := rp, hc_chunkingOutput := True \<rparr>"
  have H: "response_headers (he_lib E) ?t h = chunked_headers (he_lib E) s h"
    by (simp add: chunked_headers_def response_headers_def)
  have len: "\<not> header_has (he_lib E) ''Content-Length'' (chunked_headers (he_lib E) s h)"
    using chunks by (simp add: chunked_headers_has [OF L] chunks_output_def)
  have code: "rp_code rp \<noteq> 304" using chunks by (simp add: chunks_output_def)
  have "headers_ok (chunked_headers (he_lib E) s h)" by (simp add: chunked_headers_def response_headers_ok L ok)
  from header_fields_ok [OF this]
  have "list_all (\<lambda>l. list_all not_eol l) (response_lines rp (chunked_headers (he_lib E) s h))"
    using status_line_plain [OF ok(2)] by (auto simp: response_lines_eq elim: list.pred_mono_strong)
  note plain = no_newline [OF this]
  have block: "boost_join (hl_boost (he_lib E)) (response_lines rp g) CRLF @ CRLF @ CRLF = header_block (status_line rp) g" for g
    by (simp add: boostD(2) [OF httpD(1) [OF L]] header_block_def response_lines_eq)
  have expect: "set_expected (he_lib E) (chunked_headers (he_lib E) s h) ?t = (Inr (), ?t\<lparr> hc_expectedContentRemaining := None \<rparr>)"
    using assms(4) len code by (simp add: set_expected_def runs)
  show ?thesis
    using assms(2) chunks
    by (simp add: hc_writeHeaders_def Let_def runs H bindM_after [where m = "set_expected (he_lib E) (chunked_headers (he_lib E) s h)" and s = ?t, OF expect] plain set_writeCallback_def stream_write_def
        hc_traceM_def block)
qed

text \<open>What is written for a chunk: nothing for an empty one, which would end the body.\<close>

definition wire_chunk :: "string \<Rightarrow> string" where
  "wire_chunk d = (if d = [] then [] else chunk_text d)"

lemma wire_chunks: "concat (map wire_chunk ds) = concat (map chunk_text (filter (\<lambda>d. d \<noteq> []) ds))"
  by (induction ds) (simp_all add: wire_chunk_def)

lemma concat_nonempty: "concat (filter (\<lambda>d. d \<noteq> []) ds) = concat ds"
  by (induction ds) simp_all

lemma writes_chunk:
  assumes "\<not> hc_closed s" "hc_chunkingOutput s" "hc_expectedContentRemaining s = None"
  shows "hc_call E (CallWriteChunk d None) s = (Inr (), s\<lparr> hc_pendingWrite := True, hc_writeFlag := True,
    hc_trace := hc_trace s @ [Wrote (wire_chunk d) True] \<rparr>)"
  using assms
  by (simp add: wire_chunk_def hc_writeChunk_def runs set_writeCallback_def hc_formatChunk_def stream_write_def hc_traceM_def)

lemma writes_chunks:
  assumes "\<not> hc_closed s" "hc_chunkingOutput s" "hc_expectedContentRemaining s = None"
    "hc_pendingWrite s" "hc_writeFlag s"
  shows "doM (map (\<lambda>d. hc_call E (CallWriteChunk d None)) ds) s
    = (Inr (), s\<lparr> hc_trace := hc_trace s @ map (\<lambda>d. Wrote (wire_chunk d) True) ds \<rparr>)"
  using assms
proof (induction ds arbitrary: s)
  case (Cons d ds)
  let ?t = "s\<lparr> hc_trace := hc_trace s @ [Wrote (wire_chunk d) True] \<rparr>"
  have e: "s\<lparr> hc_pendingWrite := True, hc_writeFlag := True, hc_trace := hc_trace s @ [Wrote (wire_chunk d) True] \<rparr> = ?t"
    using Cons.prems by (cases s) simp
  have "hc_call E (CallWriteChunk d None) s = (Inr (), ?t)"
    using Cons.prems writes_chunk [of s E d, unfolded e] by simp
  then show ?case
    using Cons.IH [of ?t] Cons.prems by (simp add: bindM_after runs del: hc_call.simps)
qed (simp add: runs)

lemma writes_end:
  assumes "\<not> hc_closed s" "hc_chunkingOutput s" "hc_expectedContentRemaining s = None" "hc_pendingWrite s"
  shows "\<exists>t. hc_call E CallFinish s = (Inr (), t) \<and> hc_writeFinished t
    \<and> hc_trace t = hc_trace s @ [Wrote last_chunk True, NoDelay True]"
  using assms by (simp add: hc_finish_def runs stream_write_def hc_traceM_def)

text \<open>A response of an application that writes headers, pieces and the end.\<close>

definition response_calls :: "response_start_line \<Rightarrow> http_headers \<Rightarrow> string list \<Rightarrow> http_call list" where
  "response_calls rp h ds = CallWriteHeaders rp h [] None # map (\<lambda>d. CallWriteChunk d None) ds @ [CallFinish]"

definition chunked_response :: "http_lib \<Rightarrow> http_conn \<Rightarrow> response_start_line \<Rightarrow> http_headers \<Rightarrow> string list \<Rightarrow> string" where
  "chunked_response L s rp h ds =
     header_block (status_line rp) (chunked_headers L s h) @ concat (map wire_chunk ds) @ last_chunk"

lemma doM_append: "doM (ms @ ns) s = bindM (doM ms) (\<lambda>_. doM ns) s"
  by (induction ms arbitrary: s) (simp_all add: runs bindM_def returnM_def split: prod.split sum.split)

lemma writes_response:
  assumes "http_documented (he_lib E)" "\<not> hc_closed s" "chunks_output (he_lib E) (hc_requestStartLine s) rp h"
    and "rq_method (hc_requestStartLine s) \<noteq> ''HEAD''"
    and "headers_ok h" "list_all not_eol (rp_reason rp)"
  shows "\<exists>t. doM (map (hc_call E) (response_calls rp h ds)) s = (Inr (), t) \<and> hc_writeFinished t
    \<and> server_output (hc_trace t) = server_output (hc_trace s) @ chunked_response (he_lib E) s rp h ds"
proof -
  let ?w = "Wrote (header_block (status_line rp) (chunked_headers (he_lib E) s h)) True"
  let ?s = "s\<lparr> hc_responseStartLine := rp, hc_chunkingOutput := True, hc_expectedContentRemaining := None,
    hc_pendingWrite := True, hc_writeFlag := True, hc_trace := hc_trace s @ [?w] \<rparr>"
  let ?u = "?s\<lparr> hc_trace := hc_trace ?s @ map (\<lambda>d. Wrote (wire_chunk d) True) ds \<rparr>"
  have chunks: "doM (map (\<lambda>d. hc_call E (CallWriteChunk d None)) ds) ?s = (Inr (), ?u)"
    using assms(2) by (intro writes_chunks) simp_all
  obtain t where t: "hc_call E CallFinish ?u = (Inr (), t)" "hc_writeFinished t"
    "hc_trace t = hc_trace ?u @ [Wrote last_chunk True, NoDelay True]"
    using writes_end [of ?u E] assms(2) by auto
  have "doM (map (hc_call E) (response_calls rp h ds)) s = (Inr (), t)"
    using writes_headers [OF assms(1-6)] chunks t(1)
    by (simp add: response_calls_def runs bindM_after doM_append comp_def del: hc_call.simps)
  moreover have "server_output (map (\<lambda>d. Wrote (wire_chunk d) True) ds) = concat (map wire_chunk ds)"
    by (induction ds) simp_all
  ultimately show ?thesis using t(2,3) by (simp add: chunked_response_def)
qed

end
