(* ===== verification/Http_Requests.thy ===== *)
theory Http_Requests
  imports Http_Server_Props
begin

text \<open>
  How the server connection reads requests while the application only listens (\<open>silent\<close>): the header,
  a body of a given length in blocks, and a body in chunks, whose end the connection has no case for.
\<close>

section \<open>A listening application\<close>

definition silent :: "http_env \<Rightarrow> bool" where
  "silent E \<longleftrightarrow> (\<forall>tr. he_client E tr = [])"

lemma silent_callback: "silent E \<Longrightarrow> hc_callback E e s = (Inr (), s\<lparr> hc_trace := hc_trace s @ [e] \<rparr>)"
  by (simp add: hc_callback_def hc_traceM_def silent_def runs)

lemma silent_then:
  "silent E \<Longrightarrow> bindM (hc_callback E e) k s = k () (s\<lparr> hc_trace := hc_trace s @ [e] \<rparr>)"
  by (rule bindM_after) (rule silent_callback)

lemma server_pending: "rd_pending (server_reader E) = hc_read" "rd_search (server_reader E) = hl_header_end (he_lib E)"
  by (simp_all add: server_reader_def)

lemma server_data:
  assumes "hc_read s \<noteq> None" "read_piece E (hc_state s) p (s\<lparr> hc_read := None \<rparr>) = (Inr (), t)"
  shows "rd_data (server_reader E) p s = t"
  using assms by (simp add: server_reader_def runs hc_onDataRead_def catchM_def tryM_def bindM_unit(2))

lemma server_aborts:
  assumes "hc_read s \<noteq> None" "read_piece E (hc_state s) p (s\<lparr> hc_read := None \<rparr>) = (Inl (Aborted m), t)"
  shows "rd_data (server_reader E) p s = t\<lparr> hc_read := None, hc_trace := hc_trace t @ [ProcessEnded (Aborted m)] \<rparr>"
  using assms
  by (simp add: server_reader_def runs hc_onDataRead_def catchM_def tryM_def bindM_unit(2) uncaught_def)

definition listening :: "http_conn \<Rightarrow> bool" where
  "listening s \<longleftrightarrow> hc_decompressor s = None \<and> \<not> hc_writeFinished s"

definition body_taken :: "string \<Rightarrow> http_conn \<Rightarrow> http_conn" where
  "body_taken d s = s\<lparr> hc_bytesRead := hc_bytesRead s + length d,
     hc_totalSize := hc_totalSize s + word_of_nat (length d), hc_trace := hc_trace s @ [GotBody d] \<rparr>"

lemma body_received: "silent E \<Longrightarrow> listening s \<Longrightarrow> hc_onDataReceived E d s = (Inr (), body_taken d s)"
  by (simp add: hc_onDataReceived_def runs give_body_def silent_then listening_def body_taken_def)

lemma cancel_active_run: "\<exists>ts. cancel_active call s = (Inr (), s\<lparr> hc_timers := ts \<rparr>)"
proof (cases "timer_active s (call s)")
  case False
  then have "cancel_active call s = (Inr (), s\<lparr> hc_timers := hc_timers s \<rparr>)" by (simp add: cancel_active_def runs)
  then show ?thesis by blast
qed (auto simp: cancel_active_def runs)

lemma start_bodyTimeout_run:
  "\<exists>ts n c. start_bodyTimeout s = (Inr (), s\<lparr> hc_timers := ts, hc_nextTimer := n, hc_bodyTimeoutCall := c \<rparr>)"
proof (cases "hc_bodyTimeout s = 0")
  case True
  then have "start_bodyTimeout s = (Inr (), s\<lparr> hc_timers := hc_timers s, hc_nextTimer := hc_nextTimer s,
      hc_bodyTimeoutCall := hc_bodyTimeoutCall s \<rparr>)" by (simp add: start_bodyTimeout_def runs)
  then show ?thesis by blast
next
  case False
  then have "start_bodyTimeout s = (Inr (), s\<lparr> hc_timers := hc_timers s @ [(hc_nextTimer s, ''Read body timeout'')],
      hc_nextTimer := hc_nextTimer s + 1, hc_bodyTimeoutCall := Some (hc_nextTimer s) \<rparr>)"
    by (simp add: start_bodyTimeout_def call_later_def runs)
  then show ?thesis by blast
qed

lemma request_finished:
  assumes "silent E" "listening s"
  shows "\<exists>t. readFinished E s = (Inr (), t) \<and> hc_trace t = hc_trace s @ [GotEnd] \<and> hc_read t = hc_read s
    \<and> hc_readFinished t"
proof -
  obtain ts where "cancel_active hc_bodyTimeoutCall (s\<lparr> hc_readFinished := True \<rparr>)
      = (Inr (), s\<lparr> hc_readFinished := True, hc_timers := ts \<rparr>)"
    using cancel_active_run [of hc_bodyTimeoutCall "s\<lparr> hc_readFinished := True \<rparr>"] by auto
  then show ?thesis
    using assms by (simp add: readFinished_def runs bindM_after [where m = "cancel_active hc_bodyTimeoutCall"]
        listening_def silent_then)
qed

section \<open>A body of a given length\<close>

text \<open>A block of the body is awaited.\<close>

definition reads_fixed :: "http_conn \<Rightarrow> bool" where
  "reads_fixed s \<longleftrightarrow> hc_state s = READ_FIXED_BODY \<and> hc_read s = Some (Bytes (min (hc_chunkSize s) (hc_bytesToRead s)))
     \<and> listening s"

lemma reads_fixed_taken [simp]: "reads_fixed (body_taken d s) = reads_fixed s"
  by (simp add: reads_fixed_def body_taken_def listening_def)

lemma fixed_block:
  assumes "silent E" "reads_fixed s" "hc_bytesRead s + length p < hc_bytesToRead s"
  shows "rd_data (server_reader E) p s = body_taken p s"
proof (rule server_data)
  let ?s = "s\<lparr> hc_read := None \<rparr>"
  have l: "listening ?s" using assms(2) by (simp add: reads_fixed_def listening_def)
  have e: "(body_taken p ?s)\<lparr> hc_state := READ_FIXED_BODY, hc_read := Some (Bytes (min (hc_chunkSize s) (hc_bytesToRead s))) \<rparr>
      = body_taken p s"
    using assms(2) by (cases s) (simp add: reads_fixed_def body_taken_def)
  show "read_piece E (hc_state s) p ?s = (Inr (), body_taken p s)"
    unfolding e [symmetric] using assms(2,3)
    by (simp add: read_piece_def hc_onFixedBody_def runs bindM_after [where m = "hc_onDataReceived E p", OF body_received [OF assms(1) l]]
        reads_fixed_def readFixedBodyBlock_def hc_ask_def) (simp add: body_taken_def)
qed (use assms(2) in \<open>simp add: reads_fixed_def\<close>)

lemma fixed_last:
  assumes "silent E" "reads_fixed s" "hc_bytesToRead s \<le> hc_bytesRead s + length p"
  shows "\<exists>t. rd_data (server_reader E) p s = t \<and> hc_trace t = hc_trace s @ [GotBody p, GotEnd] \<and> hc_read t = None
    \<and> hc_readFinished t"
proof -
  let ?s = "s\<lparr> hc_read := None \<rparr>"
  have l: "listening ?s" "listening (body_taken p ?s)"
    using assms(2) by (simp_all add: reads_fixed_def listening_def body_taken_def)
  obtain t where t: "readFinished E (body_taken p ?s) = (Inr (), t)" "hc_trace t = hc_trace s @ [GotBody p, GotEnd]"
    "hc_read t = None" "hc_readFinished t"
    using request_finished [OF assms(1) l(2)] by (auto simp: body_taken_def)
  have "read_piece E (hc_state s) p ?s = (Inr (), t)"
    using assms(2,3) t(1)
    by (simp add: read_piece_def hc_onFixedBody_def runs bindM_after [where m = "hc_onDataReceived E p", OF body_received [OF assms(1) l(1)]]
        reads_fixed_def bindM_unit(2)) (simp add: body_taken_def)
  from server_data [OF _ this] assms(2) t show ?thesis by (auto simp: reads_fixed_def)
qed

fun blocks :: "nat \<Rightarrow> nat \<Rightarrow> string \<Rightarrow> string list" where
  "blocks c 0 s = []"
| "blocks c (Suc k) s = take c s # blocks c k (drop c s)"

lemma fixed_blocks:
  assumes "silent E" "0 < c"
  shows "reads_fixed s \<Longrightarrow> hc_chunkSize s = c \<Longrightarrow> c \<le> hc_bytesToRead s \<Longrightarrow>
    hc_bytesRead s + k * c < hc_bytesToRead s \<Longrightarrow> k * c \<le> length body \<Longrightarrow>
    feed (server_reader E) s body = feed (server_reader E) (fold body_taken (blocks c k body) s) (drop (k * c) body)"
proof (induction k arbitrary: s body)
  case (Suc k)
  let ?p = "take c body" and ?r = "drop c body"
  have c: "c \<le> length body" "length ?p = c" using Suc.prems(5) by auto
  have "feed (server_reader E) s (?p @ ?r) = feed (server_reader E) (rd_data (server_reader E) ?p s) ?r"
    using Suc.prems(1-3) serve_bytes [of False ?p ?r] assms(2) c
    by (intro feed_piece) (auto simp: server_pending reads_fixed_def)
  also have "rd_data (server_reader E) ?p s = body_taken ?p s"
    using Suc.prems c by (intro fixed_block assms(1)) auto
  also have "feed (server_reader E) (body_taken ?p s) ?r
      = feed (server_reader E) (fold body_taken (blocks c k ?r) (body_taken ?p s)) (drop (k * c) ?r)"
    using Suc.prems c by (intro Suc.IH) (simp_all add: body_taken_def [of ?p] reads_fixed_def listening_def)
  finally show ?case by (simp add: add.commute)
qed simp

lemma blocks_trace: "hc_trace (fold body_taken ds s) = hc_trace s @ map GotBody ds"
  "hc_bytesToRead (fold body_taken ds s) = hc_bytesToRead s" "hc_chunkSize (fold body_taken ds s) = hc_chunkSize s"
  "hc_bytesRead (fold body_taken ds s) = hc_bytesRead s + length (concat ds)"
  by (induction ds arbitrary: s) (simp_all add: body_taken_def)

lemma blocks_reads: "reads_fixed (fold body_taken ds s) = reads_fixed s"
  by (induction ds arbitrary: s) simp_all

lemma blocks_append: "k * c \<le> length s \<Longrightarrow> blocks c k (s @ t) = blocks c k s"
  by (induction k arbitrary: s) simp_all

lemma blocks_length: "k * c \<le> length s \<Longrightarrow> length (concat (blocks c k s)) = k * c"
  by (induction k arbitrary: s) simp_all

section \<open>A body in chunks\<close>

definition reads_length :: "http_conn \<Rightarrow> bool" where
  "reads_length s \<longleftrightarrow> hc_state s = READ_CHUNK_LENGTH \<and> hc_read s = Some (Until CRLF 64) \<and> listening s"

definition chunk_given :: "string \<Rightarrow> http_conn \<Rightarrow> http_conn" where
  "chunk_given d s = body_taken d (s\<lparr> hc_bytesRead := 0, hc_bytesToRead := length d \<rparr>)"

lemma chunk_length_read:
  assumes "http_documented (he_lib E)" "reads_length s" "0 < n" "n \<le> hc_chunkSize s"
    and "unat (hc_totalSize s) + n \<le> hc_maxBodySize s" "hc_maxBodySize s < 2 ^ 64"
  shows "rd_data (server_reader E) (hex_string n @ CRLF) s
    = s\<lparr> hc_read := Some (Bytes n), hc_state := READ_CHUNK_DATA, hc_bytesRead := 0, hc_bytesToRead := n \<rparr>"
proof -
  have n: "n < 2 ^ 64" using assms(5,6) by simp
  have "unat (word_of_nat n + hc_totalSize s) \<le> hc_maxBodySize s"
    using assms(5,6) by (simp add: unat_word_ariths unat_of_nat take_bit_eq_mod)
  then show ?thesis
    using assms(2,3,4)
    by (intro server_data) (auto simp: reads_length_def read_piece_def hc_onChunkLength_def runs
        trim_hex_line [OF assms(1)] stoul16_hex_string [OF n] readChunkData_def readChunkDataBlock_def hc_ask_def)
qed

lemma chunk_piece_read:
  assumes "silent E" "listening s" "hc_state s = READ_CHUNK_DATA" "hc_read s \<noteq> None" "hc_bytesRead s = 0"
    "hc_bytesToRead s = length d"
  shows "rd_data (server_reader E) d s = (chunk_given d s)\<lparr> hc_read := Some (Bytes 2), hc_state := READ_CHUNK_ENDS \<rparr>"
proof (rule server_data [OF assms(4)])
  let ?s = "s\<lparr> hc_read := None \<rparr>"
  have l: "listening ?s" using assms(2) by (simp add: listening_def)
  show "read_piece E (hc_state s) d ?s = (Inr (), (chunk_given d s)\<lparr> hc_read := Some (Bytes 2), hc_state := READ_CHUNK_ENDS \<rparr>)"
    using assms(3,5,6)
    by (simp add: read_piece_def hc_onChunkData_def runs bindM_after [where m = "hc_onDataReceived E d", OF body_received [OF assms(1) l]]
        readChunkEnds_def hc_ask_def) (simp add: body_taken_def chunk_given_def runs hc_ask_def)
qed

lemma chunk_end_taken:
  assumes "hc_state s = READ_CHUNK_ENDS" "hc_read s \<noteq> None"
  shows "rd_data (server_reader E) CRLF s = s\<lparr> hc_read := Some (Until CRLF 64), hc_state := READ_CHUNK_LENGTH \<rparr>"
  using assms
  by (intro server_data) (auto simp: read_piece_def hc_onChunkEnds_def runs readChunkLength_def hc_ask_def)

lemma request_chunk:
  assumes E: "http_documented (he_lib E)" "silent E" and s: "reads_length s" "d \<noteq> []" "length d \<le> hc_chunkSize s"
    and size: "unat (hc_totalSize s) + length d \<le> hc_maxBodySize s" "hc_maxBodySize s < 2 ^ 64"
  shows "feed (server_reader E) s (chunk_text d @ r) = feed (server_reader E) (chunk_given d s) r"
proof -
  let ?R = "server_reader E"
  let ?t = "s\<lparr> hc_read := Some (Bytes (length d)), hc_state := READ_CHUNK_DATA, hc_bytesRead := 0, hc_bytesToRead := length d \<rparr>"
  let ?u = "(chunk_given d ?t)\<lparr> hc_read := Some (Bytes 2), hc_state := READ_CHUNK_ENDS \<rparr>"
  have d: "0 < length d" "length d < 2 ^ 64" using s size by simp_all
  have l: "listening ?t" using s(1) by (simp add: reads_length_def listening_def)
  have "feed ?R s ((hex_string (length d) @ CRLF) @ d @ CRLF @ r) = feed ?R ?t (d @ CRLF @ r)"
    using s(1) hex_line_served [OF d(2), of "d @ CRLF @ r"] chunk_length_read [OF E(1) s(1) d(1) s(3) size]
    by (subst feed_piece) (auto simp: server_pending reads_length_def CRLF_def)
  also have "\<dots> = feed ?R ?u (CRLF @ r)"
    using d chunk_piece_read [OF E(2) l, of d] by (subst feed_piece) (auto simp: server_pending)
  also have "\<dots> = feed ?R (?u\<lparr> hc_read := Some (Until CRLF 64), hc_state := READ_CHUNK_LENGTH \<rparr>) r"
    using chunk_end_taken [of ?u E] serve_bytes [of False CRLF r]
    by (subst feed_piece) (auto simp: server_pending CRLF_def)
  also have "?u\<lparr> hc_read := Some (Until CRLF 64), hc_state := READ_CHUNK_LENGTH \<rparr> = chunk_given d s"
    using s(1) by (cases s) (simp add: chunk_given_def body_taken_def reads_length_def)
  finally show ?thesis by (simp add: chunk_text_def)
qed

lemma chunk_given_simps:
  "hc_chunkSize (chunk_given d s) = hc_chunkSize s" "hc_maxBodySize (chunk_given d s) = hc_maxBodySize s"
  "hc_trace (chunk_given d s) = hc_trace s @ [GotBody d]"
  "hc_totalSize (chunk_given d s) = hc_totalSize s + word_of_nat (length d)" "reads_length (chunk_given d s) = reads_length s"
  by (simp_all add: chunk_given_def body_taken_def reads_length_def listening_def)

lemma request_chunks:
  assumes "http_documented (he_lib E)" "silent E"
  shows "reads_length s \<Longrightarrow> list_all (\<lambda>d. d \<noteq> [] \<and> length d \<le> hc_chunkSize s) ds \<Longrightarrow>
    unat (hc_totalSize s) + length (concat ds) \<le> hc_maxBodySize s \<Longrightarrow> hc_maxBodySize s < 2 ^ 64 \<Longrightarrow>
    \<exists>t. feed (server_reader E) s (concat (map chunk_text ds) @ r) = feed (server_reader E) t r
      \<and> reads_length t \<and> hc_trace t = hc_trace s @ map GotBody ds"
proof (induction ds arbitrary: s)
  case (Cons d ds)
  let ?t = "chunk_given d s"
  have "unat (hc_totalSize ?t) = unat (hc_totalSize s) + length d"
    using Cons.prems(3,4) by (simp add: chunk_given_simps unat_word_ariths unat_of_nat take_bit_eq_mod)
  then have "\<exists>t. feed (server_reader E) ?t (concat (map chunk_text ds) @ r) = feed (server_reader E) t r
      \<and> reads_length t \<and> hc_trace t = hc_trace ?t @ map GotBody ds"
    using Cons.prems by (intro Cons.IH) (simp_all add: chunk_given_simps)
  then show ?case using Cons.prems by (simp add: request_chunk [OF assms] chunk_given_simps)
qed auto

text \<open>The end of a chunked body: the connection asks for the last line end and then has no case for it.\<close>

lemma last_chunk_ignored:
  assumes "http_documented (he_lib E)" "reads_length s"
  shows "\<exists>t. feed (server_reader E) s (last_chunk @ rest) = (t, rest) \<and> hc_read t = None \<and> hc_state t = READ_LAST_CHUNK_ENDS
    \<and> hc_trace t = hc_trace s @ (if he_asserts E then [ProcessEnded (Aborted ''Unreachable'')] else [])"
proof -
  let ?R = "server_reader E" and ?t = "s\<lparr> hc_read := Some (Bytes 2), hc_state := READ_LAST_CHUNK_ENDS \<rparr>"
  have zero: "hex_string 0 = ''0''" by (simp add: hex_string.simps low_hex_digit_def)
  have "rd_data ?R (hex_string 0 @ CRLF) s = ?t"
    using assms(2) by (intro server_data) (auto simp: reads_length_def read_piece_def hc_onChunkLength_def runs
        trim_hex_line [OF assms(1)] stoul16_hex_string readLastChunkEnds_def hc_ask_def)
  then have "feed ?R s ((hex_string 0 @ CRLF) @ CRLF @ rest) = feed ?R ?t (CRLF @ rest)"
    using assms(2) hex_line_served [of 0 "CRLF @ rest"] by (subst feed_piece) (auto simp: server_pending reads_length_def CRLF_def)
  also have "\<dots> = feed ?R (rd_data ?R CRLF ?t) rest"
    using serve_bytes [of False CRLF rest] by (subst feed_piece) (auto simp: server_pending CRLF_def)
  also have "rd_data ?R CRLF ?t = ?t\<lparr> hc_read := None,
      hc_trace := hc_trace s @ (if he_asserts E then [ProcessEnded (Aborted ''Unreachable'')] else []) \<rparr>"
    using server_aborts [of ?t E CRLF "''Unreachable''" "?t\<lparr> hc_read := None \<rparr>"]
      server_data [of ?t E CRLF "?t\<lparr> hc_read := None \<rparr>"] by (simp add: read_piece_def runs)
  finally show ?thesis by (simp add: last_chunk_def zero feed_idle server_pending)
qed

section \<open>The header\<close>

definition awaits_request :: "http_conn \<Rightarrow> bool" where
  "awaits_request s \<longleftrightarrow> hc_state s = READ_HEADER \<and> hc_read s = Some (UntilRegex HEADER_END (hc_maxHeaderSize s))
     \<and> listening s \<and> \<not> hc_decompress s \<and> \<not> hc_xheaders s \<and> hc_totalSize s = 0"

definition plain_request :: "http_lib \<Rightarrow> http_headers \<Rightarrow> bool" where
  "plain_request L h \<longleftrightarrow> header_get L ''Expect'' [] h \<noteq> ''100-continue''"

text \<open>After the header: the state in which the body is asked for.\<close>

definition header_given :: "http_env \<Rightarrow> (nat \<times> string) list \<Rightarrow> request_start_line \<Rightarrow> http_headers \<Rightarrow> http_conn \<Rightarrow> http_conn" where
  "header_given E ts rq g s = (let t = s\<lparr> hc_read := None, hc_timers := ts, hc_requestHeaders := g, hc_requestStartLine := rq \<rparr>
     in t\<lparr> hc_disconnectOnFinish := \<not> canKeepAlive (he_lib E) t, hc_trace := hc_trace s @ [GotHeaders rq g] \<rparr>)"

lemma header_given_simps [simp]:
  "hc_read (header_given E ts rq g s) = None" "hc_requestHeaders (header_given E ts rq g s) = g"
  "hc_trace (header_given E ts rq g s) = hc_trace s @ [GotHeaders rq g]"
  "hc_chunkSize (header_given E ts rq g s) = hc_chunkSize s" "hc_maxBodySize (header_given E ts rq g s) = hc_maxBodySize s"
  "hc_totalSize (header_given E ts rq g s) = hc_totalSize s" "listening (header_given E ts rq g s) = listening s"
  "hc_decompressor (header_given E ts rq g s) = hc_decompressor s" "hc_writeFinished (header_given E ts rq g s) = hc_writeFinished s"
  by (simp_all add: header_given_def Let_def listening_def)

lemma header_given_run:
  assumes "silent E" "awaits_request s" "plain_request (he_lib E) g"
    and "parseHeaders (he_lib E) p = Inr (l, g)" "parseRequestStartLine (he_lib E) l = Inr rq"
  shows "\<exists>ts. hc_onHeaders E p (s\<lparr> hc_read := None \<rparr>) = hc_readBody E (header_given E ts rq g s)"
proof -
  let ?s = "s\<lparr> hc_read := None \<rparr>"
  obtain ts where ts: "cancel_active hc_headerTimeoutCall ?s = (Inr (), ?s\<lparr> hc_timers := ts \<rparr>)"
    using cancel_active_run [of hc_headerTimeoutCall ?s] by auto
  have "hc_onHeaders E p ?s = hc_readBody E (header_given E ts rq g s)"
    using assms(2,3)
    by (simp add: hc_onHeaders_def Let_def runs bindM_after [where m = "cancel_active hc_headerTimeoutCall", OF ts] assms(4,5)
        onHeadersReceived_def silent_then [OF assms(1)] awaits_request_def plain_request_def header_given_def bindM_unit(2))
  then show ?thesis by blast
qed

lemma request_chunked:
  assumes "http_documented (he_lib E)" "silent E" "awaits_request s" "plain_request (he_lib E) g"
    and "parseHeaders (he_lib E) p = Inr (l, g)" "parseRequestStartLine (he_lib E) l = Inr rq"
    and "\<not> header_has (he_lib E) ''Content-Length'' g" "header_get (he_lib E) ''Transfer-Encoding'' [] g = ''chunked''"
  shows "\<exists>t. rd_data (server_reader E) p s = t \<and> reads_length t \<and> hc_trace t = hc_trace s @ [GotHeaders rq g]
    \<and> hc_totalSize t = 0 \<and> hc_chunkSize t = hc_chunkSize s \<and> hc_maxBodySize t = hc_maxBodySize s"
proof -
  obtain ts where ts: "hc_onHeaders E p (s\<lparr> hc_read := None \<rparr>) = hc_readBody E (header_given E ts rq g s)"
    using header_given_run [OF assms(2-6)] by auto
  let ?u = "(header_given E ts rq g s)\<lparr> hc_state := READ_CHUNK_LENGTH, hc_read := Some (Until CRLF 64) \<rparr>"
  obtain ts' n c where b: "start_bodyTimeout ?u = (Inr (), ?u\<lparr> hc_timers := ts', hc_nextTimer := n, hc_bodyTimeoutCall := c \<rparr>)"
    using start_bodyTimeout_run [of ?u] by auto
  have lower: "boost_to_lower (hl_boost (he_lib E)) ''chunked'' = ''chunked''"
    unfolding boostD(3) [OF httpD(1) [OF assms(1)]] by code_simp
  have "hc_readBody E (header_given E ts rq g s) = (Inr (), ?u\<lparr> hc_timers := ts', hc_nextTimer := n, hc_bodyTimeoutCall := c \<rparr>)"
    using assms(7,8) b by (simp add: hc_readBody_def Let_def runs lower readChunkLength_def hc_ask_def bindM_unit(2))
  with ts have "rd_data (server_reader E) p s = ?u\<lparr> hc_timers := ts', hc_nextTimer := n, hc_bodyTimeoutCall := c \<rparr>"
    using assms(3) by (intro server_data) (auto simp: awaits_request_def read_piece_def)
  then show ?thesis using assms(3) by (auto simp: awaits_request_def reads_length_def listening_def)
qed

lemma request_fixed:
  assumes "http_documented (he_lib E)" "silent E" "awaits_request s" "plain_request (he_lib E) g"
    and "parseHeaders (he_lib E) p = Inr (l, g)" "parseRequestStartLine (he_lib E) l = Inr rq"
    and "header_at (he_lib E) ''Content-Length'' g = Inr v" "\<not> header_has (he_lib E) ''Transfer-Encoding'' g"
    and "stoul v = Some n" "CHR '','' \<notin> set v" "0 < n" "n \<le> hc_maxBodySize s"
  shows "\<exists>t. rd_data (server_reader E) p s = t \<and> reads_fixed t \<and> hc_trace t = hc_trace s @ [GotHeaders rq g]
    \<and> hc_bytesRead t = 0 \<and> hc_bytesToRead t = n \<and> hc_chunkSize t = hc_chunkSize s"
proof -
  obtain ts where ts: "hc_onHeaders E p (s\<lparr> hc_read := None \<rparr>) = hc_readBody E (header_given E ts rq g s)"
    using header_given_run [OF assms(2-6)] by auto
  let ?u = "(header_given E ts rq g s)\<lparr> hc_bytesRead := 0, hc_bytesToRead := n, hc_state := READ_FIXED_BODY,
    hc_read := Some (Bytes (min (hc_chunkSize s) n)) \<rparr>"
  obtain ts' k c where b: "start_bodyTimeout ?u = (Inr (), ?u\<lparr> hc_timers := ts', hc_nextTimer := k, hc_bodyTimeoutCall := c \<rparr>)"
    using start_bodyTimeout_run [of ?u] by auto
  have has: "header_has (he_lib E) ''Content-Length'' g" "header_get (he_lib E) ''Content-Length'' [] g = v"
    using assms(7) by (auto simp: header_at_def header_has_def header_get_def normalizeName_id [OF assms(1)] split: option.splits)
  have len: "contentLength_of (he_lib E) g = Inr v"
    using assms(7,8,10) by (simp add: contentLength_of_def single_length_def)
  have same: "(header_given E ts rq g s)\<lparr> hc_requestHeaders := g \<rparr> = header_given E ts rq g s"
    by (simp add: header_given_def Let_def)
  have "hc_readBody E (header_given E ts rq g s) = (Inr (), ?u\<lparr> hc_timers := ts', hc_nextTimer := k, hc_bodyTimeoutCall := c \<rparr>)"
    using assms(9-12) b
    by (simp add: hc_readBody_def Let_def runs has len same readFixedBody_def readFixedBodyBlock_def hc_ask_def bindM_unit(2))
  with ts have "rd_data (server_reader E) p s = ?u\<lparr> hc_timers := ts', hc_nextTimer := k, hc_bodyTimeoutCall := c \<rparr>"
    using assms(3) by (intro server_data) (auto simp: awaits_request_def read_piece_def)
  then show ?thesis using assms(3) by (auto simp: awaits_request_def reads_fixed_def listening_def)
qed

section \<open>Whole requests\<close>

lemma request_header:
  assumes "http_documented (he_lib E)" "awaits_request s" "request_ok rq" "headers_ok h"
    and "length (header_block (request_line rq) h) \<le> hc_maxHeaderSize s"
  shows "\<exists>g. parseHeaders (he_lib E) (header_block (request_line rq) h) = Inr (request_line rq, g) \<and> same_headers g h
    \<and> feed (server_reader E) s (header_block (request_line rq) h @ r)
      = feed (server_reader E) (rd_data (server_reader E) (header_block (request_line rq) h) s) r"
proof -
  have line: "request_line rq \<noteq> []" "list_all not_eol (request_line rq)" using request_line_plain [OF assms(3)] by simp_all
  obtain g where g: "parseHeaders (he_lib E) (header_block (request_line rq) h) = Inr (request_line rq, g)" "same_headers g h"
    using parse_header_block [OF assms(1) line assms(4)] by auto
  moreover have "feed (server_reader E) s (header_block (request_line rq) h @ r)
      = feed (server_reader E) (rd_data (server_reader E) (header_block (request_line rq) h) s) r"
    using assms(2) serve_header [OF assms(1) line assms(4,5)]
    by (intro feed_piece) (auto simp: server_pending awaits_request_def header_block_def CRLF_def)
  ultimately show ?thesis by blast
qed

text \<open>A body of at most one block is given to the application as a whole, and the request ends.\<close>

lemma request_read:
  assumes E: "http_documented (he_lib E)" "silent E" and s: "awaits_request s" "request_ok rq" "headers_ok h" "plain_request (he_lib E) h"
    and len: "header_at (he_lib E) ''Content-Length'' h = Inr v" "\<not> header_has (he_lib E) ''Transfer-Encoding'' h"
      "stoul v = Some (length body)" "CHR '','' \<notin> set v"
    and size: "length (header_block (request_line rq) h) \<le> hc_maxHeaderSize s" "body \<noteq> []"
      "length body \<le> hc_chunkSize s" "length body \<le> hc_maxBodySize s"
  shows "\<exists>t g. feed (server_reader E) s (header_block (request_line rq) h @ body) = (t, []) \<and> same_headers g h
    \<and> hc_readFinished t \<and> hc_trace t = hc_trace s @ [GotHeaders rq g, GotBody body, GotEnd]"
proof -
  let ?R = "server_reader E" and ?b = "header_block (request_line rq) h"
  obtain g where g: "parseHeaders (he_lib E) ?b = Inr (request_line rq, g)" "same_headers g h"
    "feed ?R s (?b @ body) = feed ?R (rd_data ?R ?b s) body"
    using request_header [OF E(1) s(1-3) size(1), of body] by auto
  obtain t where t: "rd_data ?R ?b s = t" "reads_fixed t" "hc_trace t = hc_trace s @ [GotHeaders rq g]"
    "hc_bytesRead t = 0" "hc_bytesToRead t = length body" "hc_chunkSize t = hc_chunkSize s"
    using request_fixed [OF E s(1) _ g(1) parse_request_line [OF E(1) s(2)], of v "length body"] s(4) len size
    by (auto simp: plain_request_def same_headersD [OF g(2)])
  obtain u where u: "rd_data ?R body t = u" "hc_trace u = hc_trace t @ [GotBody body, GotEnd]" "hc_read u = None" "hc_readFinished u"
    using fixed_last [OF E(2) t(2), of body] t by auto
  have "feed ?R t (body @ []) = feed ?R u []"
    using t size serve_bytes [of False body "[]"] u(1) by (subst feed_piece) (auto simp: server_pending reads_fixed_def)
  with g t u show ?thesis by (auto simp: feed_idle server_pending)
qed

lemma bodiless_read:
  assumes E: "http_documented (he_lib E)" "silent E" and s: "awaits_request s" "request_ok rq" "headers_ok h" "plain_request (he_lib E) h"
    and len: "\<not> header_has (he_lib E) ''Content-Length'' h" "\<not> header_has (he_lib E) ''Transfer-Encoding'' h"
    and size: "length (header_block (request_line rq) h) \<le> hc_maxHeaderSize s"
  shows "\<exists>t g. feed (server_reader E) s (header_block (request_line rq) h) = (t, []) \<and> same_headers g h
    \<and> hc_readFinished t \<and> hc_trace t = hc_trace s @ [GotHeaders rq g, GotEnd]"
proof -
  let ?R = "server_reader E" and ?b = "header_block (request_line rq) h"
  obtain g where g: "parseHeaders (he_lib E) ?b = Inr (request_line rq, g)" "same_headers g h"
    "feed ?R s (?b @ []) = feed ?R (rd_data ?R ?b s) []"
    using request_header [OF E(1) s(1-3) size(1), of "[]"] by auto
  obtain ts where ts: "hc_onHeaders E ?b (s\<lparr> hc_read := None \<rparr>) = hc_readBody E (header_given E ts rq g s)"
    using header_given_run [OF E(2) s(1) _ g(1) parse_request_line [OF E(1) s(2)]] s(4)
    by (auto simp: plain_request_def same_headersD [OF g(2)])
  have l: "listening (header_given E ts rq g s)" using s(1) by (simp add: awaits_request_def)
  obtain t where t: "readFinished E (header_given E ts rq g s) = (Inr (), t)" "hc_read t = None" "hc_readFinished t"
    "hc_trace t = hc_trace s @ [GotHeaders rq g, GotEnd]"
    using request_finished [OF E(2) l] by auto
  have lower: "boost_to_lower (hl_boost (he_lib E)) [] \<noteq> ''chunked''"
    by (simp add: boostD(3) [OF httpD(1) [OF E(1)]])
  have none: "\<not> header_has (he_lib E) ''Content-Length'' g" "header_get (he_lib E) ''Transfer-Encoding'' [] g = []"
    using len header_get_missing [OF E(1)] by (simp_all add: same_headersD [OF g(2)])
  have "hc_readBody E (header_given E ts rq g s) = (Inr (), t)"
    using none lower t(1) by (simp add: hc_readBody_def Let_def runs)
  with ts have "rd_data ?R ?b s = t"
    using s(1) by (intro server_data) (auto simp: awaits_request_def read_piece_def)
  with g t show ?thesis by (auto simp: feed_idle server_pending)
qed

text \<open>
  C22: the end of a request with a chunked body is never reported. To an application that only listens,
  and for chunks of at least one octet that fit into a block, the header and the chunks are handed out; then
  the connection has no case for the last line end. Where assertions are compiled, the process ends;
  otherwise nothing is reported and no read is left, so that whatever follows is left in the buffer.
\<close>

theorem chunked_request_never_ends:
  assumes "http_documented (he_lib E)" "silent E" "awaits_request s" "request_ok rq" "headers_ok h"
    and "plain_request (he_lib E) h" "\<not> header_has (he_lib E) ''Content-Length'' h"
    and "header_get (he_lib E) ''Transfer-Encoding'' [] h = ''chunked''"
    and "length (header_block (request_line rq) h) \<le> hc_maxHeaderSize s"
    and "list_all (\<lambda>d. d \<noteq> [] \<and> length d \<le> hc_chunkSize s) ds"
    and "length (concat ds) \<le> hc_maxBodySize s" "hc_maxBodySize s < 2 ^ 64"
  shows "\<exists>t g. feed (server_reader E) s (header_block (request_line rq) h @ concat (map chunk_text ds) @ last_chunk @ rest) = (t, rest)
    \<and> same_headers g h \<and> hc_read t = None \<and> hc_state t = READ_LAST_CHUNK_ENDS
    \<and> hc_trace t = hc_trace s @ [GotHeaders rq g] @ map GotBody ds
        @ (if he_asserts E then [ProcessEnded (Aborted ''Unreachable'')] else [])"
proof -
  let ?R = "server_reader E" and ?b = "header_block (request_line rq) h" and ?tail = "last_chunk @ rest"
  obtain g where g: "parseHeaders (he_lib E) ?b = Inr (request_line rq, g)" "same_headers g h"
    "feed ?R s (?b @ concat (map chunk_text ds) @ ?tail) = feed ?R (rd_data ?R ?b s) (concat (map chunk_text ds) @ ?tail)"
    using request_header [OF assms(1,3-5,9)] by blast
  obtain t where t: "rd_data ?R ?b s = t" "reads_length t" "hc_trace t = hc_trace s @ [GotHeaders rq g]"
    "hc_totalSize t = 0" "hc_chunkSize t = hc_chunkSize s" "hc_maxBodySize t = hc_maxBodySize s"
    using request_chunked [OF assms(1-3) _ g(1) parse_request_line [OF assms(1,4)]] assms(6-8)
    by (auto simp: plain_request_def same_headersD [OF g(2)])
  obtain u where u: "feed ?R t (concat (map chunk_text ds) @ ?tail) = feed ?R u ?tail" "reads_length u"
    "hc_trace u = hc_trace t @ map GotBody ds"
    using request_chunks [OF assms(1,2) t(2), of ds ?tail] assms(10-12) t by auto
  obtain v where v: "feed ?R u ?tail = (v, rest)" "hc_read v = None" "hc_state v = READ_LAST_CHUNK_ENDS"
    "hc_trace v = hc_trace u @ (if he_asserts E then [ProcessEnded (Aborted ''Unreachable'')] else [])"
    using last_chunk_ignored [OF assms(1) u(2), of rest] by blast
  show ?thesis
    using g t(1,3) u(1,3) v by (intro exI [of _ v] exI [of _ g]) simp
qed

text \<open>
  C23: a long request ends too late. For each block of a body the connection asks again for
  as many octets as for the first one, instead of those that are left. Where the announced length is
  more than the block size \<open>c\<close> and no multiple of it, the \<open>r\<close> octets behind the last whole block stay in
  the buffer and the end is not reported as long as fewer than \<open>c - r\<close> octets follow the request;
  once they do, the first \<open>c - r\<close> octets of what follows are handed out as part of the body. (The
  application only listens.)
\<close>

theorem long_request_overreads:
  assumes "http_documented (he_lib E)" "silent E" "awaits_request s" "request_ok rq" "headers_ok h"
    and "plain_request (he_lib E) h" "header_at (he_lib E) ''Content-Length'' h = Inr v"
    and "\<not> header_has (he_lib E) ''Transfer-Encoding'' h" "stoul v = Some (length body)" "CHR '','' \<notin> set v"
    and "length (header_block (request_line rq) h) \<le> hc_maxHeaderSize s" "length body \<le> hc_maxBodySize s"
    and "0 < c" "hc_chunkSize s = c" "c < length body" "length body = q * c + r" "0 < r" "r < c"
  shows "\<exists>t g. feed (server_reader E) s (header_block (request_line rq) h @ body @ following)
      = (t, if length following < c - r then drop (q * c) body @ following else drop (c - r) following)
    \<and> same_headers g h
    \<and> hc_trace t = hc_trace s @ [GotHeaders rq g] @ map GotBody (blocks c q body)
        @ (if length following < c - r then [] else [GotBody (drop (q * c) body @ take (c - r) following), GotEnd])"
proof -
  let ?R = "server_reader E" and ?b = "header_block (request_line rq) h"
    and ?rest = "drop (q * c) body @ following"
  have long: "body \<noteq> []" using assms(15) by auto
  obtain g where g: "parseHeaders (he_lib E) ?b = Inr (request_line rq, g)" "same_headers g h"
    "feed ?R s (?b @ body @ following) = feed ?R (rd_data ?R ?b s) (body @ following)"
    using request_header [OF assms(1,3-5,11), of "body @ following"] by auto
  obtain t where t: "rd_data ?R ?b s = t" "reads_fixed t" "hc_trace t = hc_trace s @ [GotHeaders rq g]"
    "hc_bytesRead t = 0" "hc_bytesToRead t = length body" "hc_chunkSize t = c"
    using request_fixed [OF assms(1-3) _ g(1) parse_request_line [OF assms(1,4)], of v "length body"] assms(6-15) long
    by (auto simp: plain_request_def same_headersD [OF g(2)])
  let ?u = "fold body_taken (blocks c q body) t"
  have "blocks c q (body @ following) = blocks c q body"
    using assms(16) by (intro blocks_append) simp
  then have fed: "feed ?R t (body @ following) = feed ?R ?u ?rest"
    using fixed_blocks [OF assms(2,13), of t q "body @ following"] t assms(14-17) by simp
  have u: "reads_fixed ?u" "hc_read ?u = Some (Bytes c)" "hc_bytesRead ?u = q * c" "hc_bytesToRead ?u = length body"
    using t assms(15,16) blocks_reads [of "blocks c q body" t]
    by (simp_all add: reads_fixed_def blocks_trace blocks_length)
  show ?thesis
  proof (cases "length following < c - r")
    case True
    have "\<not> c \<le> r + length following" using True by simp
    then have "feed ?R ?u ?rest = (?u, ?rest)"
      using assms(16,18) by (subst feed.simps) (simp add: server_pending u(2))
    then show ?thesis using g t fed True by (auto simp: blocks_trace)
  next
    case False
    obtain p where p: "p = drop (q * c) body @ take (c - r) following" by blast
    then have whole: "length p = c" "?rest = p @ drop (c - r) following" using False assms(16,18) by simp_all
    obtain w where w: "rd_data ?R p ?u = w" "hc_trace w = hc_trace ?u @ [GotBody p, GotEnd]" "hc_read w = None"
      using fixed_last [OF assms(2) u(1), of p] u(3,4) whole(1) assms(16,18) by auto
    have "feed ?R ?u (p @ drop (c - r) following) = feed ?R (rd_data ?R p ?u) (drop (c - r) following)"
      using serve_bytes [of False p "drop (c - r) following"] assms(13) whole(1) u(2)
      by (intro feed_piece [where r = "Bytes c"]) (auto simp: server_pending)
    then have "feed ?R ?u ?rest = (w, drop (c - r) following)"
      unfolding whole(2) using w by (simp add: feed_idle server_pending)
    then show ?thesis using g t fed False w(2) by (auto simp: blocks_trace p)
  qed
qed

end
