(* ===== verification/Http_Client.thy ===== *)
theory Http_Client
  imports Http_Stream
begin

text \<open>
  \<open>HTTPClientConnection\<close> of \<open>plugins/web/httpclient.h\<close> and \<open>httpclient.cpp\<close>: one request over one
  stream, and the response, with redirects.

  The functions of the program (the callback for the response, the callbacks for headers and pieces of
  the body, the producer of a request body) are events of the trace; the calls on the connection
  that a producer makes, or an exception, are given by a function from the trace. Times and the
  TLS options are left out. A failed assertion ends the process (\<open>Aborted\<close>); with \<open>NDEBUG\<close>, which the default
  build type defines, it is passed over, and the model covers the runs in which none fails. \<open>startConnecting\<close> is the event \<open>Connecting\<close>, and its outcome an
  input.
\<close>

section \<open>Requests and responses\<close>

record request_data =
  hq_url :: string
  hq_method :: string
  hq_headers :: http_headers
  hq_body :: string
  hq_bodyProducer :: bool
  hq_authUserName :: string
  hq_authPassword :: string
  hq_authMode :: string
  hq_requestTimeout :: real
  hq_followRedirects :: bool
  hq_maxRedirects :: int
  hq_userAgent :: string
  hq_expect100Continue :: bool
  hq_decompressResponse :: bool
  hq_networkInterface :: string
  hq_streamingCallback :: bool
  hq_headerCallback :: bool
  hq_proxyHost :: string
  hq_proxyPort :: nat
  hq_proxyUserName :: string
  hq_proxyPassword :: string
  hq_proxyAuthMode :: string
  hq_allowNonstandardMethods :: bool

datatype http_request = HTTPRequest (request_of: request_data) (originalRequest: "http_request option")

definition newHTTPRequest :: "string \<Rightarrow> string \<Rightarrow> http_headers \<Rightarrow> http_request" where
  "newHTTPRequest url method headers = HTTPRequest \<lparr> hq_url = url, hq_method = method, hq_headers = headers,
     hq_body = [], hq_bodyProducer = False, hq_authUserName = [], hq_authPassword = [], hq_authMode = [],
     hq_requestTimeout = 20, hq_followRedirects = True, hq_maxRedirects = 5, hq_userAgent = [],
     hq_expect100Continue = False, hq_decompressResponse = True, hq_networkInterface = [],
     hq_streamingCallback = False, hq_headerCallback = False, hq_proxyHost = [], hq_proxyPort = 0,
     hq_proxyUserName = [], hq_proxyPassword = [], hq_proxyAuthMode = [],
     hq_allowNonstandardMethods = False \<rparr> None"

record http_response =
  rs_request :: http_request
  rs_code :: int
  rs_reason :: string
  rs_headers :: "http_headers option"
  rs_body :: string
  rs_effectiveUrl :: string
  rs_errorIsResponseCode :: bool
  rs_error :: "http_exn option"

definition bad_code :: "int \<Rightarrow> bool" where
  "bad_code code \<longleftrightarrow> code < 200 \<or> code \<ge> 300"

definition newHTTPResponse ::
  "http_request \<Rightarrow> int \<Rightarrow> string \<Rightarrow> http_headers \<Rightarrow> string \<Rightarrow> string \<Rightarrow> http_response" where
  "newHTTPResponse request code reason headers body effectiveUrl =
     (let reason = (if reason = [] then getHTTPReason code else reason)
      in \<lparr> rs_request = request, rs_code = code, rs_reason = reason, rs_headers = Some headers, rs_body = body,
           rs_effectiveUrl = effectiveUrl, rs_errorIsResponseCode = bad_code code,
           rs_error = (if bad_code code then Some (HTTPError code (Some reason)) else None) \<rparr>)"

definition errorHTTPResponse :: "http_request \<Rightarrow> int \<Rightarrow> http_exn option \<Rightarrow> http_response" where
  "errorHTTPResponse request code error =
     \<lparr> rs_request = request, rs_code = code, rs_reason = getHTTPReason code, rs_headers = None, rs_body = [],
       rs_effectiveUrl = [], rs_errorIsResponseCode = (error = None \<and> bad_code code),
       rs_error = (if error = None \<and> bad_code code then Some (HTTPError code (Some (getHTTPReason code))) else error) \<rparr>"

text \<open>
  \<open>HTTPClient::fetch\<close>: the outcome of the deferred for a response, and what a callback gets from
  this outcome.
\<close>

definition fetch_outcome :: "bool \<Rightarrow> http_response \<Rightarrow> http_exn + http_response" where
  "fetch_outcome raiseError response = (case rs_error response of
      Some e \<Rightarrow> if raiseError then Inl e else Inr response
    | None \<Rightarrow> Inr response)"

definition callback_response :: "http_request \<Rightarrow> http_exn + http_response \<Rightarrow> http_response" where
  "callback_response request value = (case value of
      Inl e \<Rightarrow> errorHTTPResponse request 599 (Some e) | Inr response \<Rightarrow> response)"

section \<open>State\<close>

datatype client_event =
    Connecting string nat bool
  | Wrote string bool
  | Closing "http_exn option"
  | NoDelay bool
  | HeaderCallback string
  | StreamingCallback string
  | ProducerActive
  | Respond http_response
  | Refetch http_request
  | ProcessEnded http_exn

datatype client_call =
    CallWriteChunk string
  | CallWriteFinished
  | CallThrow string

record client_env =
  ce_lib :: http_lib
  ce_calls :: "client_event list \<Rightarrow> client_call list"
  ce_hostnameMapping :: "string \<rightharpoonup> string"
  ce_maxBufferSize :: nat
  ce_maxHeaderSize :: nat
  ce_base64 :: "string \<Rightarrow> string"
  ce_what :: "http_exn \<Rightarrow> string"
  ce_gz_output :: "(string \<times> nat) list \<Rightarrow> string option"
  ce_gz_tail :: "(string \<times> nat) list \<Rightarrow> string"
  ce_gz_flush :: "(string \<times> nat) list \<Rightarrow> string option"
  ce_fuel :: nat

datatype client_state =
    READ_NONE
  | READ_HEADER
  | READ_FIXED_BODY
  | READ_CHUNK_LENGTH
  | READ_CHUNK_DATA
  | READ_CHUNK_ENDS
  | READ_LAST_CHUNK_ENDS
  | READ_UNTIL_CLOSE

record client_conn =
  cc_read :: "stream_read option"
  cc_connected :: bool
  cc_closed :: bool
  cc_writeFlag :: bool
  cc_state :: client_state
  cc_request :: http_request
  cc_callback :: bool
  cc_clientClosed :: bool
  cc_code :: "int option"
  cc_headers :: http_headers
  cc_chunks :: "string list"
  cc_decompressor :: "(string \<times> nat) list option"
  cc_parsed :: url_split_result
  cc_parsedHostname :: string
  cc_timeout :: bool
  cc_reason :: string
  cc_maxHeaderSize :: nat
  cc_maxBodySize :: nat
  cc_chunkSize :: nat
  cc_totalSize :: "64 word"
  cc_bytesToRead :: nat
  cc_bytesRead :: nat
  cc_requestStartLine :: request_start_line
  cc_responseStartLine :: response_start_line
  cc_chunkingOutput :: bool
  cc_writeFinished :: bool
  cc_expectedContentRemaining :: "int option"
  cc_trace :: "client_event list"

type_synonym 'a cc_prog = "(http_exn, client_conn, 'a) prog"

definition newClientConnection :: "http_request \<Rightarrow> nat \<Rightarrow> nat \<Rightarrow> nat \<Rightarrow> client_conn" where
  "newClientConnection request maxBufferSize maxHeaderSize maxBodySize = \<lparr>
     cc_read = None, cc_connected = False, cc_closed = False, cc_writeFlag = False, cc_state = READ_NONE,
     cc_request = request, cc_callback = True, cc_clientClosed = False, cc_code = None, cc_headers = newHTTPHeaders, cc_chunks = [],
     cc_decompressor = None,
     cc_parsed = \<lparr> us_scheme = [], us_netloc = [], us_path = [], us_query = [], us_fragment = [] \<rparr>,
     cc_parsedHostname = [], cc_timeout = False, cc_reason = [],
     cc_maxHeaderSize = (if maxHeaderSize \<noteq> 0 then maxHeaderSize else 65536),
     cc_maxBodySize = (if maxBodySize \<noteq> 0 then maxBodySize else maxBufferSize), cc_chunkSize = 65535,
     cc_totalSize = 0, cc_bytesToRead = 0, cc_bytesRead = 0,
     cc_requestStartLine = \<lparr> rq_method = [], rq_path = [], rq_version = [] \<rparr>,
     cc_responseStartLine = \<lparr> rp_version = [], rp_code = 0, rp_reason = [] \<rparr>,
     cc_chunkingOutput = False, cc_writeFinished = False, cc_expectedContentRemaining = None,
     cc_trace = [] \<rparr>"

text \<open>\<open>fetchImpl\<close> passes the sizes of buffer and header, but not that of the body.\<close>

definition fetchImpl :: "client_env \<Rightarrow> http_request \<Rightarrow> client_conn" where
  "fetchImpl E request = newClientConnection request (ce_maxBufferSize E) (ce_maxHeaderSize E) 0"

definition cc_traceM :: "client_event \<Rightarrow> unit cc_prog" where
  "cc_traceM e = modifyM (\<lambda>s. s\<lparr> cc_trace := cc_trace s @ [e] \<rparr>)"

definition cc_req :: "client_conn \<Rightarrow> request_data" where
  "cc_req s = request_of (cc_request s)"

definition cc_ask :: "stream_read \<Rightarrow> unit cc_prog" where
  "cc_ask r = withM (\<lambda>s. if cc_read s \<noteq> None then throwM (Aborted ''Already reading'')
     else modifyM (\<lambda>s. s\<lparr> cc_read := Some r \<rparr>))"

definition cc_write :: "string \<Rightarrow> bool \<Rightarrow> unit cc_prog" where
  "cc_write data writeCallback = withM (\<lambda>s. if cc_closed s then throwM StreamClosed
     else doM [modifyM (\<lambda>s. s\<lparr> cc_writeFlag := writeCallback \<rparr>), cc_traceM (Wrote data writeCallback)])"

definition cc_close :: "http_exn option \<Rightarrow> unit cc_prog" where
  "cc_close reason = withM (\<lambda>s. whenM (\<not> cc_closed s) (doM [
     modifyM (\<lambda>s. s\<lparr> cc_closed := True \<rparr>), cc_traceM (Closing reason)]))"

section \<open>Failing\<close>

definition removeTimeout :: "unit cc_prog" where
  "removeTimeout = modifyM (\<lambda>s. s\<lparr> cc_timeout := False \<rparr>)"

definition runCallback :: "http_response \<Rightarrow> unit cc_prog" where
  "runCallback response = withM (\<lambda>s. whenM (cc_callback s) (doM [
     modifyM (\<lambda>s. s\<lparr> cc_callback := False \<rparr>),
     cc_traceM (Respond response)]))"

definition handleException :: "http_exn \<Rightarrow> unit cc_prog" where
  "handleException error = withM (\<lambda>s. whenM (cc_callback s) (doM [
     removeTimeout,
     (let error = (if error = StreamClosed then HTTPError 599 (Some ''Stream closed'') else error)
      in runCallback (errorHTTPResponse (cc_request s) 599 (Some error))),
     withM (\<lambda>s. whenM (cc_connected s) (cc_close None))]))"

definition cc_uncaught :: "http_exn \<Rightarrow> bool" where
  "cc_uncaught e \<longleftrightarrow> (case e of Aborted m \<Rightarrow> True | FuelExhausted \<Rightarrow> True | _ \<Rightarrow> False)"

definition handled :: "unit cc_prog \<Rightarrow> unit cc_prog" where
  "handled m = tryM m (\<lambda>e. if cc_uncaught e then throwM e else handleException e)"

definition onTimeout :: "string \<Rightarrow> unit cc_prog" where
  "onTimeout info = doM [
     modifyM (\<lambda>s. s\<lparr> cc_timeout := False \<rparr>),
     withM (\<lambda>s. whenM (cc_callback s)
       (throwM (HTTPError 599 (Some (if info = [] then ''Timeout'' else ''Timeout '' @ info)))))]"

section \<open>Starting\<close>

definition cc_startRequest :: "client_env \<Rightarrow> unit cc_prog" where
  "cc_startRequest E = handled (withM (\<lambda>s. let L = ce_lib E; url = hq_url (cc_req s) in
     case urlSplit (hl_boost L) url [] True of
       Inl e \<Rightarrow> throwM (UrlError e)
     | Inr parsed \<Rightarrow> doM [
         modifyM (\<lambda>s. s\<lparr> cc_parsed := parsed \<rparr>),
         (if us_scheme parsed \<noteq> ''http'' \<and> us_scheme parsed \<noteq> ''https''
          then throwM (HttpValueError (''Unsupported url scheme: '' @ url))
          else let netloc = us_netloc parsed;
                   netloc = (if CHR ''@'' \<in> set netloc then snd (snd (rpartition_str netloc ''@'')) else netloc)
            in (case splitHostAndPort L netloc of
                  Inl e \<Rightarrow> throwM e
                | Inr (host, port) \<Rightarrow>
                    let port = (case port of Some p \<Rightarrow> p | None \<Rightarrow> if us_scheme parsed = ''https'' then 443 else 80);
                        host = (if hl_bracketed L host then take (length host - 2) (drop 1 host) else host)
                    in doM [
                      modifyM (\<lambda>s. s\<lparr> cc_parsedHostname := host \<rparr>),
                      cc_traceM (Connecting (case ce_hostnameMapping E host of Some h \<Rightarrow> h | None \<Rightarrow> host)
                        port (us_scheme parsed = ''https''))]))]))"

text \<open>The two errbacks of \<open>startConnecting\<close>.\<close>

definition connectFailed :: "http_exn \<Rightarrow> unit cc_prog" where
  "connectFailed e = tryM (case e of TimeoutError m \<Rightarrow> doM [onTimeout ''while connecting'', throwM e] | _ \<Rightarrow> throwM e)
     handleException"

section \<open>Writing the request\<close>

definition cc_formatChunk :: "string \<Rightarrow> string cc_prog" where
  "cc_formatChunk data = bindM
     (withM (\<lambda>s. case cc_expectedContentRemaining s of
        None \<Rightarrow> returnM ()
      | Some n \<Rightarrow>
          let left = n - int (length data); tooMuch = HTTPOutputError ''Tried to write more data than Content-Length''
          in doM [
            modifyM (\<lambda>s. s\<lparr> cc_expectedContentRemaining := Some left \<rparr>),
            whenM (left < 0) (doM [cc_close (Some tooMuch), throwM tooMuch])]))
     (\<lambda>_. getsM (\<lambda>s. if cc_chunkingOutput s \<and> data \<noteq> [] then chunk_text data else data))"

definition cc_writeChunk :: "string \<Rightarrow> unit cc_prog" where
  "cc_writeChunk chunk = bindM (cc_formatChunk chunk) (\<lambda>data. cc_write data True)"

definition writeFinished :: "unit cc_prog" where
  "writeFinished = doM [
     withM (\<lambda>s. case cc_expectedContentRemaining s of
        None \<Rightarrow> doM []
      | Some n \<Rightarrow> let tooLittle = HTTPOutputError (''Tried to write '' @ int_string n @ '' bytes less than Content-Length'')
          in whenM (n \<noteq> 0) (doM [cc_close (Some tooLittle), throwM tooLittle])),
     withM (\<lambda>s. whenM (cc_chunkingOutput s) (cc_write last_chunk True)),
     modifyM (\<lambda>s. s\<lparr> cc_writeFinished := True \<rparr>),
     withM (\<lambda>s. whenM (\<not> cc_writeFlag s) (cc_traceM (NoDelay False)))]"

text \<open>The functions of the program: an event, then the calls on the connection.\<close>

fun cc_call :: "client_call \<Rightarrow> unit cc_prog" where
  "cc_call (CallWriteChunk chunk) = cc_writeChunk chunk"
| "cc_call CallWriteFinished = writeFinished"
| "cc_call (CallThrow m) = throwM (AppError m)"

definition cc_callbackM :: "client_env \<Rightarrow> client_event \<Rightarrow> unit cc_prog" where
  "cc_callbackM E e = doM [
     cc_traceM e,
     withM (\<lambda>s. doM (List.map cc_call (ce_calls E (cc_trace s))))]"

definition SUPPORTED_METHODS :: "string list" where
  "SUPPORTED_METHODS = [''GET'', ''HEAD'', ''POST'', ''PUT'', ''DELETE'', ''PATCH'', ''OPTIONS'']"

definition request_lines :: "request_start_line \<Rightarrow> http_headers \<Rightarrow> string list" where
  "request_lines startLine headers =
     (rq_method startLine @ '' '' @ rq_path startLine @ '' HTTP/1.1'')
     # List.map (\<lambda>(name, value). name @ '': '' @ value) (header_getAll headers)"

text \<open>The headers are those of the request object, which other connections may share.\<close>

definition set_headers :: "http_headers \<Rightarrow> client_conn \<Rightarrow> client_conn" where
  "set_headers h s = s\<lparr> cc_request :=
     HTTPRequest (request_of (cc_request s)\<lparr> hq_headers := h \<rparr>) (originalRequest (cc_request s)) \<rparr>"

definition start_line :: "http_lib \<Rightarrow> request_start_line \<Rightarrow> unit cc_prog" where
  "start_line L startLine = withM (\<lambda>s. let headers = hq_headers (cc_req s);
       chunking = rq_method startLine \<in> {''POST'', ''PUT'', ''PATCH''}
         \<and> \<not> header_has L ''Content-Length'' headers \<and> \<not> header_has L ''Transfer-Encoding'' headers
     in modifyM (\<lambda>s. set_headers
          (if chunking then header_set L ''Transfer-Encoding'' ''chunked'' headers else headers)
          (s\<lparr> cc_requestStartLine := startLine, cc_chunkingOutput := chunking \<rparr>)))"

definition expect_content :: "http_lib \<Rightarrow> unit cc_prog" where
  "expect_content L = withM (\<lambda>s. let headers = hq_headers (cc_req s) in
     if header_has L ''Content-Length'' headers
     then (case header_at L ''Content-Length'' headers of
         Inl e \<Rightarrow> throwM e
       | Inr v \<Rightarrow> (case stoi v of
             None \<Rightarrow> throwM StdInvalidArgument
           | Some n \<Rightarrow> modifyM (\<lambda>s. s\<lparr> cc_expectedContentRemaining := Some n \<rparr>)))
     else modifyM (\<lambda>s. s\<lparr> cc_expectedContentRemaining := None \<rparr>))"

definition write_lines :: "http_lib \<Rightarrow> request_start_line \<Rightarrow> unit cc_prog" where
  "write_lines L startLine = withM (\<lambda>s. let lines = request_lines startLine (hq_headers (cc_req s)) in
     case List.find (\<lambda>line. CHR 0x0A \<in> set line) lines of
       Some line \<Rightarrow> throwM (HttpValueError (''Newline in header: '' @ line))
     | None \<Rightarrow> cc_write (boost_join (hl_boost L) lines CRLF @ CRLF @ CRLF) True)"

definition cc_writeHeaders :: "client_env \<Rightarrow> request_start_line \<Rightarrow> unit cc_prog" where
  "cc_writeHeaders E startLine = (let L = ce_lib E in
     doM [start_line L startLine, expect_content L, write_lines L startLine])"

definition readResponse :: "unit cc_prog" where
  "readResponse = doM [
     modifyM (\<lambda>s. s\<lparr> cc_state := READ_HEADER \<rparr>),
     withM (\<lambda>s. cc_ask (UntilRegex HEADER_END (cc_maxHeaderSize s)))]"

definition writeBody :: "client_env \<Rightarrow> bool \<Rightarrow> unit cc_prog" where
  "writeBody E startRead = doM [
     withM (\<lambda>s. if hq_body (cc_req s) \<noteq> [] then doM [cc_writeChunk (hq_body (cc_req s)), writeFinished]
       else whenM (hq_bodyProducer (cc_req s)) (cc_callbackM E ProducerActive)),
     whenM startRead readResponse]"

text \<open>What the library does not support is unsupported.\<close>

definition unsupported :: "request_data \<Rightarrow> http_exn option" where
  "unsupported r =
     (if hq_method r \<notin> set SUPPORTED_METHODS \<and> \<not> hq_allowNonstandardMethods r
      then Some (KeyError (''unknown method '' @ hq_method r))
      else if hq_networkInterface r \<noteq> [] then Some (NotImplementedError ''NetworkInterface not supported'')
      else if hq_proxyHost r \<noteq> [] then Some (NotImplementedError ''ProxyHost not supported'')
      else if hq_proxyPort r \<noteq> 0 then Some (NotImplementedError ''ProxyPort not supported'')
      else if hq_proxyUserName r \<noteq> [] then Some (NotImplementedError ''ProxyUser not supported'')
      else if hq_proxyPassword r \<noteq> [] then Some (NotImplementedError ''ProxyPassword not supported'')
      else if hq_proxyAuthMode r \<noteq> [] then Some (NotImplementedError ''ProxyAuthMode not supported'')
      else None)"

definition connection_headers :: "http_lib \<Rightarrow> string \<Rightarrow> http_headers \<Rightarrow> http_headers" where
  "connection_headers L netloc headers =
     (let h = (if \<not> header_has L ''Connection'' headers then header_set L ''Connection'' ''close'' headers else headers)
      in if \<not> header_has L ''Host'' h
         then header_set L ''Host'' (if CHR ''@'' \<in> set netloc then snd (snd (rpartition_str netloc ''@'')) else netloc) h
         else h)"

text \<open>Name and password of the URL come first; \<open>None\<close> is a password that is not there.\<close>

definition credentials :: "url_split_result \<Rightarrow> request_data \<Rightarrow> (string \<times> string) option" where
  "credentials parsed r = (case split_getUserName parsed of
      Some name \<Rightarrow> map_option (Pair name) (split_getPassword parsed)
    | None \<Rightarrow> if hq_authUserName r \<noteq> [] then Some (hq_authUserName r, hq_authPassword r) else Some ([], []))"

definition set_authorization :: "client_env \<Rightarrow> string \<times> string \<Rightarrow> request_data \<Rightarrow> http_headers \<Rightarrow> http_exn + http_headers" where
  "set_authorization E c r headers = (case c of (userName, password) \<Rightarrow>
     if userName = [] then Inr headers
     else if hq_authMode r \<noteq> [] \<and> hq_authMode r \<noteq> ''basic''
     then Inl (HttpValueError (''unsupported auth mode '' @ hq_authMode r))
     else Inr (header_set (ce_lib E) ''Authorization''
       (''Basic '' @ ce_base64 E (encodeUsernamePassword userName password)) headers))"

definition body_error :: "request_data \<Rightarrow> http_exn option" where
  "body_error r =
     (let bodyExpected = hq_method r \<in> {''POST'', ''PATCH'', ''PUT''};
          bodyPresent = (hq_body r \<noteq> [] \<or> hq_bodyProducer r)
      in if \<not> hq_allowNonstandardMethods r \<and> bodyExpected \<noteq> bodyPresent
         then Some (HttpValueError (''Body must '' @ (if bodyExpected then ''not '' else [])
                @ ''be empty for method '' @ hq_method r))
         else None)"

definition content_headers :: "http_lib \<Rightarrow> request_data \<Rightarrow> http_headers \<Rightarrow> http_headers" where
  "content_headers L r headers =
     (let h = (if hq_expect100Continue r then header_set L ''Expect'' ''100-continue'' headers else headers);
          h = (if hq_body r \<noteq> [] then header_set L ''Content-Length'' (to_string (length (hq_body r))) h else h);
          h = (if hq_method r = ''POST'' \<and> \<not> header_has L ''Content-Type'' h
               then header_set L ''Content-Type'' ''application/x-www-form-urlencoded'' h else h)
      in if hq_decompressResponse r then header_set L ''Accept-Encoding'' ''gzip'' h else h)"

definition raise :: "http_exn option \<Rightarrow> unit cc_prog" where
  "raise e = (case e of Some e \<Rightarrow> throwM e | None \<Rightarrow> doM [])"

definition add_authorization :: "client_env \<Rightarrow> unit cc_prog" where
  "add_authorization E = withM (\<lambda>s. case credentials (cc_parsed s) (cc_req s) of
      None \<Rightarrow> throwM (Aborted ''no password'')
    | Some c \<Rightarrow> (case set_authorization E c (cc_req s) (hq_headers (cc_req s)) of
          Inl e \<Rightarrow> throwM e
        | Inr h \<Rightarrow> modifyM (set_headers h)))"

definition request_path :: "url_split_result \<Rightarrow> string" where
  "request_path parsed = (if us_path parsed = [] then ''/'' else us_path parsed)
     @ (if us_query parsed \<noteq> [] then ''?'' @ us_query parsed else [])"

definition cc_onConnected :: "client_env \<Rightarrow> unit cc_prog" where
  "cc_onConnected E = handled (let L = ce_lib E in withM (\<lambda>s.
     if \<not> cc_callback s then cc_close None
     else doM [
       modifyM (\<lambda>s. s\<lparr> cc_timeout := hq_requestTimeout (cc_req s) \<noteq> 0 \<or> cc_timeout s \<rparr>),
       raise (unsupported (cc_req s)),
       modifyM (\<lambda>s. set_headers (connection_headers L (us_netloc (cc_parsed s)) (hq_headers (cc_req s))) s),
       add_authorization E,
       modifyM (\<lambda>s. if hq_userAgent (cc_req s) \<noteq> []
         then set_headers (header_set L ''User-Agent'' (hq_userAgent (cc_req s)) (hq_headers (cc_req s))) s else s),
       withM (\<lambda>s. raise (body_error (cc_req s))),
       modifyM (\<lambda>s. set_headers (content_headers L (cc_req s) (hq_headers (cc_req s))) s),
       cc_traceM (NoDelay True),
       withM (\<lambda>s. cc_writeHeaders E
         \<lparr> rq_method = hq_method (cc_req s), rq_path = request_path (cc_parsed s), rq_version = [] \<rparr>),
       withM (\<lambda>s. if hq_expect100Continue (cc_req s) then readResponse else writeBody E True)]))"

definition cc_onWriteComplete :: "unit cc_prog" where
  "cc_onWriteComplete = withM (\<lambda>s. whenM (cc_writeFinished s) (cc_traceM (NoDelay False)))"

section \<open>Reading the response\<close>

definition shouldFollowRedirect :: "client_conn \<Rightarrow> bool" where
  "shouldFollowRedirect s \<longleftrightarrow> hq_followRedirects (cc_req s) \<and> hq_maxRedirects (cc_req s) > 0
     \<and> (case cc_code s of None \<Rightarrow> False | Some c \<Rightarrow> c \<in> {301, 302, 303, 307, 308})"

definition cc_readFixedBodyBlock :: "unit cc_prog" where
  "cc_readFixedBodyBlock = doM [
     modifyM (\<lambda>s. s\<lparr> cc_state := READ_FIXED_BODY \<rparr>),
     withM (\<lambda>s. cc_ask (Bytes (min (cc_chunkSize s) (cc_bytesToRead s))))]"

definition cc_readChunkLength :: "unit cc_prog" where
  "cc_readChunkLength = doM [
     modifyM (\<lambda>s. s\<lparr> cc_state := READ_CHUNK_LENGTH \<rparr>),
     cc_ask (Until CRLF 64)]"

definition cc_readChunkDataBlock :: "unit cc_prog" where
  "cc_readChunkDataBlock = doM [
     modifyM (\<lambda>s. s\<lparr> cc_state := READ_CHUNK_DATA \<rparr>),
     withM (\<lambda>s. cc_ask (Bytes (min (cc_chunkSize s) (cc_bytesToRead s))))]"

definition cc_readChunkData :: "nat \<Rightarrow> unit cc_prog" where
  "cc_readChunkData chunkLen = doM [
     modifyM (\<lambda>s. s\<lparr> cc_bytesRead := 0, cc_bytesToRead := chunkLen \<rparr>),
     cc_readChunkDataBlock]"

definition cc_readChunkEnds :: "unit cc_prog" where
  "cc_readChunkEnds = doM [
     modifyM (\<lambda>s. s\<lparr> cc_state := READ_CHUNK_ENDS \<rparr>),
     cc_ask (Bytes 2)]"

definition cc_readLastChunkEnds :: "unit cc_prog" where
  "cc_readLastChunkEnds = doM [
     modifyM (\<lambda>s. s\<lparr> cc_state := READ_LAST_CHUNK_ENDS \<rparr>),
     cc_ask (Bytes 2)]"

text \<open>A piece of the body: dropped before a redirect, handed out, or kept.\<close>

definition onChunkReceived :: "client_env \<Rightarrow> string \<Rightarrow> unit cc_prog" where
  "onChunkReceived E chunk = withM (\<lambda>s. whenM (\<not> shouldFollowRedirect s)
     (if hq_streamingCallback (cc_req s) then cc_callbackM E (StreamingCallback chunk)
      else modifyM (\<lambda>s. s\<lparr> cc_chunks := cc_chunks s @ [chunk] \<rparr>)))"

definition cc_decompressToString :: "client_env \<Rightarrow> string \<Rightarrow> string cc_prog" where
  "cc_decompressToString E data = withM (\<lambda>s. case cc_decompressor s of
      None \<Rightarrow> throwM (Aborted ''no decompressor'')
    | Some calls \<Rightarrow>
        let calls = calls @ [(data, cc_chunkSize s)]
        in (case ce_gz_output E calls of
              None \<Rightarrow> throwM DecompressError
            | Some output \<Rightarrow> retM [modifyM (\<lambda>s. s\<lparr> cc_decompressor := Some calls \<rparr>)] output))"

definition cc_unconsumedTail :: "client_env \<Rightarrow> client_conn \<Rightarrow> string" where
  "cc_unconsumedTail E s = (case cc_decompressor s of None \<Rightarrow> [] | Some calls \<Rightarrow> ce_gz_tail E calls)"

definition cc_decompress_round :: "client_env \<Rightarrow> bool cc_prog" where
  "cc_decompress_round E = withM (\<lambda>s. if cc_unconsumedTail E s = [] then returnM False
     else bindM (cc_decompressToString E (cc_unconsumedTail E s)) (\<lambda>output. retM [onChunkReceived E output] True))"

definition cc_onDataReceived :: "client_env \<Rightarrow> string \<Rightarrow> unit cc_prog" where
  "cc_onDataReceived E data = doM [
     modifyM (\<lambda>s. s\<lparr> cc_bytesRead := cc_bytesRead s + length data,
       cc_totalSize := cc_totalSize s + word_of_nat (length data) \<rparr>),
     withM (\<lambda>s. if cc_decompressor s \<noteq> None
       then bindM (cc_decompressToString E data) (\<lambda>output. doM [
         onChunkReceived E output,
         bindM (loopM (ce_fuel E) (cc_decompress_round E)) (\<lambda>ended. if ended then doM [] else throwM FuelExhausted)])
       else onChunkReceived E data)]"

text \<open>The request that follows a redirect; removing a header that is not there is no error.\<close>

definition erase_if_there :: "http_lib \<Rightarrow> string \<Rightarrow> http_headers \<Rightarrow> http_headers" where
  "erase_if_there L name h = (case header_erase L name h of Inl e \<Rightarrow> h | Inr h' \<Rightarrow> h')"

definition redirected :: "http_lib \<Rightarrow> client_conn \<Rightarrow> http_request \<Rightarrow> http_exn + http_request" where
  "redirected L s original = (let r = cc_req s in
     case header_at L ''Location'' (cc_headers s) of
       Inl e \<Rightarrow> Inl e
     | Inr location \<Rightarrow> (case urlJoin (hl_boost L) (hq_url r) location True of
         Inl e \<Rightarrow> Inl (UrlError e)
       | Inr url \<Rightarrow> (case header_erase L ''Host'' (hq_headers r) of
           Inl e \<Rightarrow> Inl e
         | Inr h \<Rightarrow>
             let r = r\<lparr> hq_url := url, hq_maxRedirects := hq_maxRedirects r - 1, hq_headers := h \<rparr>;
                 fields = [''Content-Length'', ''Content-Type'', ''Content-Encoding'', ''Transfer-Encoding''];
                 r = (if cc_code s = Some 302 \<or> cc_code s = Some 303
                      then r\<lparr> hq_method := ''GET'', hq_body := [], hq_headers := foldl (\<lambda>h f. erase_if_there L f h) h fields \<rparr>
                      else r)
             in Inr (HTTPRequest r (Some original)))))"

definition cc_flush :: "client_env \<Rightarrow> unit cc_prog" where
  "cc_flush E = withM (\<lambda>s. case cc_decompressor s of
      None \<Rightarrow> doM []
    | Some calls \<Rightarrow> (case ce_gz_flush E calls of
          None \<Rightarrow> throwM DecompressError
        | Some tail \<Rightarrow> whenM (tail \<noteq> []) (onChunkReceived E tail)))"

text \<open>
  \<open>HTTPClient::fetch\<close> as a redirect calls it, with the callback that the connection has given up
  before: a closed client throws.
\<close>

definition client_fetch :: "http_request \<Rightarrow> unit cc_prog" where
  "client_fetch request = withM (\<lambda>s. if cc_clientClosed s then throwM (RuntimeError ''client already closed'')
     else cc_traceM (Refetch request))"

definition client_close :: "unit cc_prog" where
  "client_close = modifyM (\<lambda>s. s\<lparr> cc_clientClosed := True \<rparr>)"

definition cc_finish :: "client_env \<Rightarrow> unit cc_prog" where
  "cc_finish E = (let L = ce_lib E in doM [
     cc_flush E,
     modifyM (\<lambda>s. s\<lparr> cc_state := READ_NONE \<rparr>),
     removeTimeout,
     withM (\<lambda>s. let original = (case originalRequest (cc_request s) of Some r \<Rightarrow> r | None \<Rightarrow> cc_request s) in
       if shouldFollowRedirect s then (case redirected L s original of
           Inl e \<Rightarrow> throwM e
         | Inr request \<Rightarrow> doM [
             modifyM (\<lambda>s. s\<lparr> cc_callback := False \<rparr>),
             client_fetch request,
             cc_close None])
       else (case cc_code s of
           None \<Rightarrow> throwM (Aborted ''no code'')
         | Some code \<Rightarrow> doM [
             runCallback (newHTTPResponse original code (cc_reason s) (cc_headers s)
               (if hq_streamingCallback (cc_req s) then [] else boost_join (hl_boost L) (cc_chunks s) [])
               (hq_url (cc_req s))),
             cc_close None]))])"

definition header_callbacks :: "client_env \<Rightarrow> response_start_line \<Rightarrow> http_headers \<Rightarrow> unit cc_prog" where
  "header_callbacks E firstLine headers = doM (
     cc_callbackM E (HeaderCallback (rp_version firstLine @ '' '' @ int_string (rp_code firstLine) @ '' ''
       @ rp_reason firstLine @ CRLF))
     # List.map (\<lambda>(k, v). cc_callbackM E (HeaderCallback (k @ '': '' @ v @ CRLF))) (header_getAll headers)
     @ [cc_callbackM E (HeaderCallback CRLF)])"

definition cc_onHeadersReceived :: "client_env \<Rightarrow> response_start_line \<Rightarrow> http_headers \<Rightarrow> unit cc_prog" where
  "cc_onHeadersReceived E firstLine headers = withM (\<lambda>s.
     if hq_expect100Continue (cc_req s) \<and> rp_code firstLine = 100 then writeBody E False
     else doM [
       modifyM (\<lambda>s. s\<lparr> cc_code := Some (rp_code firstLine), cc_reason := rp_reason firstLine, cc_headers := headers \<rparr>),
       withM (\<lambda>s. whenM (\<not> shouldFollowRedirect s \<and> hq_headerCallback (cc_req s))
         (header_callbacks E firstLine headers))])"

definition cc_readFixedBody :: "client_env \<Rightarrow> nat \<Rightarrow> unit cc_prog" where
  "cc_readFixedBody E contentLength = (if contentLength \<noteq> 0 then doM [
       modifyM (\<lambda>s. s\<lparr> cc_bytesRead := 0, cc_bytesToRead := contentLength \<rparr>),
       cc_readFixedBodyBlock]
     else cc_finish E)"

definition response_length :: "http_lib \<Rightarrow> http_headers \<Rightarrow> http_exn + nat option \<times> http_headers" where
  "response_length L headers =
     (if \<not> header_has L ''Content-Length'' headers then Inr (None, headers)
      else if header_has L ''Transfer-Encoding'' headers
      then Inl (HTTPInputError ''Response with both Transfer-Encoding and Content-Length'')
      else (case header_at L ''Content-Length'' headers of
          Inl e \<Rightarrow> Inl e
        | Inr v \<Rightarrow> (case single_length L v of
              Inl e \<Rightarrow> Inl e
            | Inr w \<Rightarrow> (case stoul w of
                  None \<Rightarrow> Inl (HTTPInputError (''Only integer Content-Length is allowed: '' @ w))
                | Some n \<Rightarrow> Inr (Some n, if CHR '','' \<in> set v then header_set L ''Content-Length'' w headers else headers)))))"

definition cc_readBody :: "client_env \<Rightarrow> unit cc_prog" where
  "cc_readBody E = withM (\<lambda>s. let L = ce_lib E in
     case response_length L (cc_headers s) of
       Inl e \<Rightarrow> throwM e
     | Inr (contentLength, headers) \<Rightarrow> doM [
         modifyM (\<lambda>s. s\<lparr> cc_headers := headers \<rparr>),
         (if rp_code (cc_responseStartLine s) = 204
              \<and> (header_has L ''Transfer-Encoding'' headers \<or> contentLength \<notin> {None, Some 0})
          then throwM (HTTPInputError ''Response with code 204 should not have body'')
          else (case contentLength of
              Some n \<Rightarrow> cc_readFixedBody E n
            | None \<Rightarrow>
                if boost_to_lower (hl_boost L) (header_get L ''Transfer-Encoding'' [] headers) = ''chunked''
                then cc_readChunkLength
                else doM [modifyM (\<lambda>s. s\<lparr> cc_state := READ_UNTIL_CLOSE \<rparr>), cc_ask UntilClose]))])"

definition cc_use_decompressor :: "client_env \<Rightarrow> unit cc_prog" where
  "cc_use_decompressor E = withM (\<lambda>s. let L = ce_lib E; headers = cc_headers s in
     whenM (hq_decompressResponse (cc_req s) \<and> header_get L ''Content-Encoding'' [] headers = ''gzip'') (doM [
       modifyM (\<lambda>s. s\<lparr> cc_decompressor := Some [] \<rparr>),
       (case header_at L ''Content-Encoding'' headers of
          Inl e \<Rightarrow> throwM e
        | Inr v \<Rightarrow>
            let headers = header_add L ''X-Consumed-Content-Encoding'' v headers in doM [
              modifyM (\<lambda>s. s\<lparr> cc_headers := headers \<rparr>),
              (case header_erase L ''Content-Encoding'' headers of
                 Inl e \<Rightarrow> throwM e
               | Inr headers \<Rightarrow> modifyM (\<lambda>s. s\<lparr> cc_headers := headers \<rparr>))])]))"

definition cc_onHeaders :: "client_env \<Rightarrow> string \<Rightarrow> unit cc_prog" where
  "cc_onHeaders E data = (let L = ce_lib E in
     case parseHeaders L data of
       Inl e \<Rightarrow> throwM e
     | Inr (startLine, headers) \<Rightarrow> (case parseResponseStartLine L startLine of
         Inl e \<Rightarrow> throwM e
       | Inr rp \<Rightarrow> doM [
           modifyM (\<lambda>s. s\<lparr> cc_responseStartLine := rp \<rparr>),
           cc_onHeadersReceived E rp headers,
           (if rp_code rp \<ge> 100 \<and> rp_code rp < 200 then
              if header_has L ''Content-Length'' headers \<or> header_has L ''Transfer-Encoding'' headers
              then throwM (HTTPInputError (''Response code '' @ int_string (rp_code rp) @ '' cannot have body''))
              else readResponse
            else doM [
              cc_use_decompressor E,
              withM (\<lambda>s. if rq_method (cc_requestStartLine s) = ''HEAD'' \<or> rp_code rp = 304
                then cc_finish E else cc_readBody E)])]))"

definition cc_onFixedBody :: "client_env \<Rightarrow> string \<Rightarrow> unit cc_prog" where
  "cc_onFixedBody E data = doM [
     cc_onDataReceived E data,
     withM (\<lambda>s. if cc_bytesRead s < cc_bytesToRead s then cc_readFixedBodyBlock else cc_finish E)]"

definition cc_onChunkLength :: "client_env \<Rightarrow> string \<Rightarrow> unit cc_prog" where
  "cc_onChunkLength E data = withM (\<lambda>s. case stoul16 (boost_trim (hl_boost (ce_lib E)) data) of
      None \<Rightarrow> throwM StdInvalidArgument
    | Some chunkLen \<Rightarrow>
        if chunkLen = 0 then cc_readLastChunkEnds
        else if unat (word_of_nat chunkLen + cc_totalSize s) > cc_maxBodySize s
        then throwM (HTTPInputError ''chunked body too large'')
        else cc_readChunkData chunkLen)"

definition cc_onChunkData :: "client_env \<Rightarrow> string \<Rightarrow> unit cc_prog" where
  "cc_onChunkData E data = doM [
     cc_onDataReceived E data,
     withM (\<lambda>s. if cc_bytesRead s < cc_bytesToRead s then cc_readChunkDataBlock else cc_readChunkEnds)]"

definition cc_onChunkEnds :: "string \<Rightarrow> unit cc_prog" where
  "cc_onChunkEnds data = (if data \<noteq> CRLF then throwM (AssertionError []) else cc_readChunkLength)"

definition cc_onLastChunkEnds :: "client_env \<Rightarrow> string \<Rightarrow> unit cc_prog" where
  "cc_onLastChunkEnds E data =
     (if data \<noteq> CRLF then throwM (HTTPInputError ''improperly terminated chunked request'') else cc_finish E)"

definition onReadUntilClose :: "client_env \<Rightarrow> string \<Rightarrow> unit cc_prog" where
  "onReadUntilClose E data = doM [cc_onDataReceived E data, cc_finish E]"

definition cc_read_piece :: "client_env \<Rightarrow> client_state \<Rightarrow> string \<Rightarrow> unit cc_prog" where
  "cc_read_piece E state data = (case state of
      READ_HEADER \<Rightarrow> cc_onHeaders E data
    | READ_FIXED_BODY \<Rightarrow> cc_onFixedBody E data
    | READ_CHUNK_LENGTH \<Rightarrow> cc_onChunkLength E data
    | READ_CHUNK_DATA \<Rightarrow> cc_onChunkData E data
    | READ_CHUNK_ENDS \<Rightarrow> cc_onChunkEnds data
    | READ_LAST_CHUNK_ENDS \<Rightarrow> cc_onLastChunkEnds E data
    | READ_UNTIL_CLOSE \<Rightarrow> onReadUntilClose E data
    | READ_NONE \<Rightarrow> throwM (Aborted ''Unreachable''))"

definition cc_onDataRead :: "client_env \<Rightarrow> string \<Rightarrow> unit cc_prog" where
  "cc_onDataRead E data = handled (withM (\<lambda>s. cc_read_piece E (cc_state s) data))"

definition cc_onDisconnected :: "client_env \<Rightarrow> http_exn option \<Rightarrow> unit cc_prog" where
  "cc_onDisconnected E reason = handled (withM (\<lambda>s. whenM (cc_callback s) (throwM (HTTPError 599
     (Some (case reason of None \<Rightarrow> ''Connection closed'' | Some e \<Rightarrow> ce_what E e))))))"

section \<open>What the reactor and the transport call\<close>

datatype client_input =
    Connect
  | ConnectFailed http_exn
  | Data string
  | ReadFailed
  | WriteDone
  | Disconnect "http_exn option"
  | Timeout
  | ProducerCall client_call
  | CloseClient

text \<open>
  \<open>CloseClient\<close> is \<open>HTTPClient::close\<close>, which only sets the flag that \<open>fetch\<close> looks at. \<open>IOStream\<close> ends a
  read before it hands out the piece; a lost connection ends a read up to the
  close first.
\<close>

fun cc_step :: "client_env \<Rightarrow> client_input \<Rightarrow> unit cc_prog" where
  "cc_step E Connect = doM [modifyM (\<lambda>s. s\<lparr> cc_connected := True \<rparr>), cc_onConnected E]"
| "cc_step E (ConnectFailed e) = connectFailed e"
| "cc_step E (Data p) = withM (\<lambda>s. whenM (cc_read s \<noteq> None) (doM [
     modifyM (\<lambda>s. s\<lparr> cc_read := None \<rparr>), cc_onDataRead E p]))"
| "cc_step E ReadFailed = cc_close (Some (AppError ''UnsatisfiableReadError''))"
| "cc_step E WriteDone = withM (\<lambda>s. whenM (cc_writeFlag s) (doM [
     modifyM (\<lambda>s. s\<lparr> cc_writeFlag := False \<rparr>), cc_onWriteComplete]))"
| "cc_step E (Disconnect reason) = doM [modifyM (\<lambda>s. s\<lparr> cc_closed := True \<rparr>), cc_onDisconnected E reason]"
| "cc_step E Timeout = withM (\<lambda>s. whenM (cc_timeout s) (handled (onTimeout ''during request'')))"
| "cc_step E (ProducerCall c) = cc_call c"
| "cc_step E CloseClient = client_close"

definition client_reader :: "client_env \<Rightarrow> client_conn reader" where
  "client_reader E = \<lparr> rd_search = hl_header_end (ce_lib E), rd_pending = cc_read,
     rd_data = (\<lambda>p s. case cc_step E (Data p) s of
         (Inl e, t) \<Rightarrow> t\<lparr> cc_read := None, cc_trace := cc_trace t @ [ProcessEnded e] \<rparr>
       | (Inr x, t) \<Rightarrow> t),
     rd_fail = (\<lambda>s. snd (cc_step E ReadFailed s)) \<rparr>"

end
