(* ===== verification/Http_Client_Props.thy ===== *)
theory Http_Client_Props
  imports Http_Headers Http_Client
begin

text \<open>
  How the client connection reads a response: each piece of a chunked body, the header and the end. And
  the invariant of its callback: it is run at most once, and not forgotten.
\<close>

section \<open>A chunk\<close>

lemma handled_ok: "m s = (Inr x, t) \<Longrightarrow> handled m s = (Inr x, t)"
  by (simp add: handled_def tryM_def)

text \<open>What a piece does to a connection that waits for one.\<close>

lemma client_data:
  assumes "cc_read s \<noteq> None" "cc_read_piece E (cc_state s) p (s\<lparr> cc_read := None \<rparr>) = (Inr (), t)"
  shows "rd_data (client_reader E) p s = t"
  using assms handled_ok [of "withM (\<lambda>s. cc_read_piece E (cc_state s) p)" "s\<lparr> cc_read := None \<rparr>"]
  by (simp add: client_reader_def runs cc_onDataRead_def bindM_unit(2))

lemma redirect_update [simp]:
  "shouldFollowRedirect (s\<lparr> cc_read := r \<rparr>) = shouldFollowRedirect s"
  "shouldFollowRedirect (s\<lparr> cc_state := st \<rparr>) = shouldFollowRedirect s"
  "shouldFollowRedirect (s\<lparr> cc_timeout := b \<rparr>) = shouldFollowRedirect s"
  "shouldFollowRedirect (s\<lparr> cc_bytesRead := n \<rparr>) = shouldFollowRedirect s"
  "shouldFollowRedirect (s\<lparr> cc_bytesToRead := n \<rparr>) = shouldFollowRedirect s"
  "shouldFollowRedirect (s\<lparr> cc_totalSize := w \<rparr>) = shouldFollowRedirect s"
  "shouldFollowRedirect (s\<lparr> cc_chunks := cs \<rparr>) = shouldFollowRedirect s"
  by (simp_all add: shouldFollowRedirect_def cc_req_def)

definition plain_body :: "client_conn \<Rightarrow> bool" where
  "plain_body s \<longleftrightarrow> \<not> shouldFollowRedirect s \<and> cc_decompressor s = None \<and> \<not> hq_streamingCallback (cc_req s)"

lemma plain_body_update [simp]:
  "plain_body (s\<lparr> cc_read := r \<rparr>) = plain_body s" "plain_body (s\<lparr> cc_state := st \<rparr>) = plain_body s"
  "plain_body (s\<lparr> cc_bytesRead := n \<rparr>) = plain_body s" "plain_body (s\<lparr> cc_bytesToRead := n \<rparr>) = plain_body s"
  "plain_body (s\<lparr> cc_totalSize := w \<rparr>) = plain_body s" "plain_body (s\<lparr> cc_chunks := cs \<rparr>) = plain_body s"
  by (simp_all add: plain_body_def cc_req_def)

definition chunk_taken :: "string \<Rightarrow> client_conn \<Rightarrow> client_conn" where
  "chunk_taken d s = s\<lparr> cc_chunks := cc_chunks s @ [d], cc_totalSize := cc_totalSize s + word_of_nat (length d),
     cc_bytesRead := length d, cc_bytesToRead := length d \<rparr>"

definition at_chunk_length :: "client_conn \<Rightarrow> bool" where
  "at_chunk_length s \<longleftrightarrow> cc_state s = READ_CHUNK_LENGTH \<and> cc_read s = Some (Until CRLF 64) \<and> plain_body s"

lemma plain_onDataReceived:
  assumes "plain_body s"
  shows "cc_onDataReceived E d s = (Inr (), s\<lparr> cc_chunks := cc_chunks s @ [d],
    cc_totalSize := cc_totalSize s + word_of_nat (length d), cc_bytesRead := cc_bytesRead s + length d \<rparr>)"
  using assms by (simp add: cc_onDataReceived_def onChunkReceived_def runs plain_body_def cc_req_def)

lemma length_line_read:
  assumes "http_documented (ce_lib E)" "at_chunk_length s" "0 < n" "n \<le> cc_chunkSize s"
    and "unat (cc_totalSize s) + n \<le> cc_maxBodySize s" "cc_maxBodySize s < 2 ^ 64"
  shows "rd_data (client_reader E) (hex_string n @ CRLF) s
    = s\<lparr> cc_read := Some (Bytes n), cc_state := READ_CHUNK_DATA, cc_bytesRead := 0, cc_bytesToRead := n \<rparr>"
proof -
  have n: "n < 2 ^ 64" using assms(5,6) by simp
  have "unat (word_of_nat n + cc_totalSize s) \<le> cc_maxBodySize s"
    using assms(5,6) by (simp add: unat_word_ariths unat_of_nat take_bit_eq_mod)
  then show ?thesis
    using assms(2,3,4)
    by (intro client_data) (auto simp: at_chunk_length_def cc_read_piece_def cc_onChunkLength_def runs
        trim_hex_line [OF assms(1)] stoul16_hex_string [OF n] cc_readChunkData_def cc_readChunkDataBlock_def cc_ask_def)
qed

lemma chunk_data_read:
  assumes "plain_body s" "cc_state s = READ_CHUNK_DATA" "cc_read s \<noteq> None" "cc_bytesRead s = 0"
    "cc_bytesToRead s = length d"
  shows "rd_data (client_reader E) d s = (chunk_taken d s)\<lparr> cc_read := Some (Bytes 2), cc_state := READ_CHUNK_ENDS \<rparr>"
  using assms
  by (intro client_data) (auto simp: cc_read_piece_def cc_onChunkData_def runs bindM_after [OF plain_onDataReceived]
      cc_readChunkEnds_def cc_ask_def chunk_taken_def)

lemma chunk_end_read:
  assumes "cc_state s = READ_CHUNK_ENDS" "cc_read s \<noteq> None"
  shows "rd_data (client_reader E) CRLF s = s\<lparr> cc_read := Some (Until CRLF 64), cc_state := READ_CHUNK_LENGTH \<rparr>"
  using assms
  by (intro client_data) (auto simp: cc_read_piece_def cc_onChunkEnds_def runs cc_readChunkLength_def cc_ask_def)

lemma chunk_read:
  assumes "http_documented (ce_lib E)" "at_chunk_length s" "d \<noteq> []" "length d \<le> cc_chunkSize s"
    and "unat (cc_totalSize s) + length d \<le> cc_maxBodySize s" "cc_maxBodySize s < 2 ^ 64"
  shows "feed (client_reader E) s (chunk_text d @ r) = feed (client_reader E) (chunk_taken d s) r"
proof -
  let ?R = "client_reader E"
  let ?t = "s\<lparr> cc_read := Some (Bytes (length d)), cc_state := READ_CHUNK_DATA, cc_bytesRead := 0, cc_bytesToRead := length d \<rparr>"
  let ?u = "(chunk_taken d ?t)\<lparr> cc_read := Some (Bytes 2), cc_state := READ_CHUNK_ENDS \<rparr>"
  have pending: "rd_pending ?R = cc_read" "rd_search ?R = hl_header_end (ce_lib E)" by (simp_all add: client_reader_def)
  have d: "0 < length d" "length d < 2 ^ 64" using assms(3,5,6) by simp_all
  have plain: "plain_body s" using assms(2) by (simp add: at_chunk_length_def)
  have "feed ?R s ((hex_string (length d) @ CRLF) @ d @ CRLF @ r) = feed ?R ?t (d @ CRLF @ r)"
    using assms(2) hex_line_served [OF d(2), of "d @ CRLF @ r"] length_line_read [OF assms(1,2) d(1) assms(4-6)]
    by (subst feed_piece) (auto simp: pending at_chunk_length_def CRLF_def)
  also have "\<dots> = feed ?R ?u (CRLF @ r)"
    using d chunk_data_read [of ?t d E] plain
    by (subst feed_piece) (auto simp: pending)
  also have "\<dots> = feed ?R (?u\<lparr> cc_read := Some (Until CRLF 64), cc_state := READ_CHUNK_LENGTH \<rparr>) r"
    using chunk_end_read [of ?u E] serve_bytes [of False CRLF r]
    by (subst feed_piece) (auto simp: pending CRLF_def)
  also have "?u\<lparr> cc_read := Some (Until CRLF 64), cc_state := READ_CHUNK_LENGTH \<rparr> = chunk_taken d s"
    using assms(2) by (cases s) (simp add: chunk_taken_def at_chunk_length_def)
  finally show ?thesis by (simp add: chunk_text_def)
qed

lemma at_chunk_taken: "at_chunk_length s \<Longrightarrow> at_chunk_length (chunk_taken d s)"
  by (simp add: at_chunk_length_def chunk_taken_def)

lemma chunks_read:
  assumes "http_documented (ce_lib E)"
  shows "at_chunk_length s \<Longrightarrow> list_all (\<lambda>d. d \<noteq> [] \<and> length d \<le> cc_chunkSize s) ds \<Longrightarrow>
    unat (cc_totalSize s) + length (concat ds) \<le> cc_maxBodySize s \<Longrightarrow> cc_maxBodySize s < 2 ^ 64 \<Longrightarrow>
    feed (client_reader E) s (concat (map chunk_text ds) @ r) = feed (client_reader E) (fold chunk_taken ds s) r"
proof (induction ds arbitrary: s)
  case (Cons d ds)
  let ?t = "chunk_taken d s"
  have t: "cc_chunkSize ?t = cc_chunkSize s" "cc_maxBodySize ?t = cc_maxBodySize s"
    by (simp_all add: chunk_taken_def)
  have "unat (cc_totalSize ?t) = unat (cc_totalSize s) + length d"
    using Cons.prems(3,4) by (simp add: chunk_taken_def unat_word_ariths unat_of_nat take_bit_eq_mod)
  then have "feed (client_reader E) ?t (concat (map chunk_text ds) @ r) = feed (client_reader E) (fold chunk_taken ds ?t) r"
    using Cons.prems by (intro Cons.IH) (simp_all add: t at_chunk_taken)
  then show ?case using Cons.prems by (simp add: chunk_read [OF assms])
qed simp

section \<open>The end of the body\<close>

definition original_of :: "client_conn \<Rightarrow> http_request" where
  "original_of s = (case originalRequest (cc_request s) of Some r \<Rightarrow> r | None \<Rightarrow> cc_request s)"

definition whole_response :: "client_conn \<Rightarrow> int \<Rightarrow> string \<Rightarrow> http_headers \<Rightarrow> string \<Rightarrow> http_response" where
  "whole_response s code reason headers body =
     newHTTPResponse (original_of s) code reason headers body (hq_url (cc_req s))"

lemma whole_response_request: "cc_request t = cc_request s \<Longrightarrow> whole_response t = whole_response s"
  by (simp add: whole_response_def original_of_def cc_req_def fun_eq_iff cong: option.case_cong)

lemma last_read:
  assumes L: "http_documented (ce_lib E)" and s: "at_chunk_length s" "cc_callback s" "\<not> cc_closed s" "cc_code s = Some c"
  shows "\<exists>t. feed (client_reader E) s last_chunk = (t, []) \<and> \<not> cc_callback t \<and> cc_trace t = cc_trace s @
    [Respond (whole_response s c (cc_reason s) (cc_headers s) (concat (cc_chunks s))), Closing None]"
proof -
  let ?R = "client_reader E"
  let ?t = "s\<lparr> cc_read := Some (Bytes 2), cc_state := READ_LAST_CHUNK_ENDS \<rparr>"
  have pending: "rd_pending ?R = cc_read" "rd_search ?R = hl_header_end (ce_lib E)" by (simp_all add: client_reader_def)
  have zero: "hex_string 0 = ''0''" by (simp add: hex_string.simps low_hex_digit_def)
  have "rd_data ?R (hex_string 0 @ CRLF) s = ?t"
    using s(1) by (intro client_data) (auto simp: at_chunk_length_def cc_read_piece_def cc_onChunkLength_def runs
        trim_hex_line [OF L] stoul16_hex_string cc_readLastChunkEnds_def cc_ask_def)
  then have "feed ?R s ((hex_string 0 @ CRLF) @ CRLF) = feed ?R ?t (CRLF @ [])"
    using s(1) hex_line_served [of 0 CRLF] by (subst feed_piece) (auto simp: pending at_chunk_length_def CRLF_def)
  also have "\<dots> = feed ?R (rd_data ?R CRLF ?t) []"
    using serve_bytes [of False CRLF "[]"] by (subst feed_piece) (auto simp: pending CRLF_def)
  finally have fed: "feed ?R s last_chunk = feed ?R (rd_data ?R CRLF ?t) []" by (simp add: last_chunk_def zero)
  have plain: "\<not> shouldFollowRedirect s" "cc_decompressor s = None" "\<not> hq_streamingCallback (cc_req s)"
    using s(1) by (simp_all add: at_chunk_length_def plain_body_def)
  obtain u where u: "cc_finish E (?t\<lparr> cc_read := None \<rparr>) = (Inr (), u)" "cc_read u = None" "\<not> cc_callback u"
    "cc_trace u = cc_trace s @ [Respond (whole_response s c (cc_reason s) (cc_headers s) (concat (cc_chunks s))), Closing None]"
    using s plain
    by (simp add: cc_finish_def Let_def runs cc_flush_def removeTimeout_def runCallback_def cc_traceM_def cc_close_def
        cc_req_def whole_response_def original_of_def boostD(2) [OF httpD(1) [OF L]] join_with_Nil
        cong: option.case_cong)
  have "rd_data ?R CRLF ?t = u"
    using u(1) by (intro client_data) (auto simp: cc_read_piece_def cc_onLastChunkEnds_def)
  with fed u show ?thesis by (simp add: feed_idle pending)
qed

section \<open>The header\<close>

text \<open>The connection waits for the header of the response to a plain request.\<close>

definition awaits_response :: "client_conn \<Rightarrow> bool" where
  "awaits_response s \<longleftrightarrow> cc_state s = READ_HEADER \<and> cc_read s = Some (UntilRegex HEADER_END (cc_maxHeaderSize s))
     \<and> cc_callback s \<and> \<not> cc_closed s \<and> cc_chunks s = [] \<and> cc_totalSize s = 0 \<and> cc_decompressor s = None
     \<and> \<not> hq_streamingCallback (cc_req s) \<and> \<not> hq_headerCallback (cc_req s)
     \<and> rq_method (cc_requestStartLine s) \<noteq> ''HEAD''"

definition follows :: "client_conn \<Rightarrow> int \<Rightarrow> bool" where
  "follows s code \<longleftrightarrow> shouldFollowRedirect (s\<lparr> cc_code := Some code \<rparr>)"

text \<open>A chunked body can follow these headers.\<close>

definition chunked_body :: "http_lib \<Rightarrow> http_headers \<Rightarrow> bool" where
  "chunked_body L h \<longleftrightarrow> \<not> header_has L ''Content-Length'' h \<and> header_get L ''Transfer-Encoding'' [] h = ''chunked''
     \<and> header_get L ''Content-Encoding'' [] h \<noteq> ''gzip''"

definition header_taken :: "response_start_line \<Rightarrow> http_headers \<Rightarrow> client_conn \<Rightarrow> client_conn" where
  "header_taken rp g s = s\<lparr> cc_responseStartLine := rp, cc_code := Some (rp_code rp), cc_reason := rp_reason rp,
     cc_headers := g, cc_read := Some (Until CRLF 64), cc_state := READ_CHUNK_LENGTH \<rparr>"

lemma header_read:
  assumes L: "http_documented (ce_lib E)" and s: "awaits_response s"
    and code: "200 \<le> rp_code rp" "rp_code rp \<noteq> 204" "rp_code rp \<noteq> 304" "\<not> follows s (rp_code rp)"
    and parsed: "parseHeaders (ce_lib E) p = Inr (l, g)" "parseResponseStartLine (ce_lib E) l = Inr rp"
    and g: "chunked_body (ce_lib E) g"
  shows "rd_data (client_reader E) p s = header_taken rp g s \<and> at_chunk_length (header_taken rp g s)"
proof -
  let ?L = "ce_lib E" and ?s = "s\<lparr> cc_read := None \<rparr>"
  let ?t = "?s\<lparr> cc_responseStartLine := rp, cc_code := Some (rp_code rp), cc_reason := rp_reason rp, cc_headers := g \<rparr>"
  have lower: "boost_to_lower (hl_boost ?L) ''chunked'' = ''chunked''"
    unfolding boostD(3) [OF httpD(1) [OF L]] by code_simp
  have received: "cc_onHeadersReceived E rp g (?s\<lparr> cc_responseStartLine := rp \<rparr>) = (Inr (), ?t)"
    using s code by (simp add: cc_onHeadersReceived_def runs awaits_response_def cc_req_def)
  have body: "cc_readBody E ?t = (Inr (), header_taken rp g s)"
    using g code by (simp add: cc_readBody_def Let_def runs response_length_def chunked_body_def lower
        cc_readChunkLength_def cc_ask_def header_taken_def)
  have "cc_read_piece E (cc_state s) p ?s = (Inr (), header_taken rp g s)"
    using s g code
    by (simp add: cc_read_piece_def awaits_response_def cc_onHeaders_def Let_def runs parsed
        bindM_after [where m = "cc_onHeadersReceived E rp g", OF received]
        bindM_after [where m = "cc_readBody E", OF body] cc_use_decompressor_def chunked_body_def)
  then have "rd_data (client_reader E) p s = header_taken rp g s"
    using s by (intro client_data) (auto simp: awaits_response_def)
  moreover have "at_chunk_length (header_taken rp g s)"
    using s code(4) by (simp add: at_chunk_length_def header_taken_def plain_body_def awaits_response_def follows_def
        shouldFollowRedirect_def cc_req_def)
  ultimately show ?thesis by simp
qed

lemma chunk_taken_keeps:
  "cc_callback (fold chunk_taken ds s) = cc_callback s" "cc_closed (fold chunk_taken ds s) = cc_closed s"
  "cc_code (fold chunk_taken ds s) = cc_code s" "cc_reason (fold chunk_taken ds s) = cc_reason s"
  "cc_headers (fold chunk_taken ds s) = cc_headers s" "cc_trace (fold chunk_taken ds s) = cc_trace s"
  "cc_request (fold chunk_taken ds s) = cc_request s" "cc_chunks (fold chunk_taken ds s) = cc_chunks s @ ds"
  by (induction ds arbitrary: s) (simp_all add: chunk_taken_def)

lemma at_chunks_taken: "at_chunk_length s \<Longrightarrow> at_chunk_length (fold chunk_taken ds s)"
  by (induction ds arbitrary: s) (simp_all add: at_chunk_taken)

text \<open>A whole response in chunks.\<close>

lemma chunked_response_read:
  assumes L: "http_documented (ce_lib E)" and s: "awaits_response s"
    and code: "200 \<le> rp_code rp" "rp_code rp < 2 ^ 31" "rp_code rp \<noteq> 204" "rp_code rp \<noteq> 304" "\<not> follows s (rp_code rp)"
    and ok: "list_all not_eol (rp_reason rp)" "headers_ok h" "chunked_body (ce_lib E) h"
    and len: "length (header_block (status_line rp) h) \<le> cc_maxHeaderSize s"
    and ds: "list_all (\<lambda>d. d \<noteq> [] \<and> length d \<le> cc_chunkSize s) ds"
      "length (concat ds) \<le> cc_maxBodySize s" "cc_maxBodySize s < 2 ^ 64"
  shows "\<exists>t g. feed (client_reader E) s (header_block (status_line rp) h @ concat (map chunk_text ds) @ last_chunk) = (t, [])
    \<and> same_headers g h \<and> \<not> cc_callback t
    \<and> cc_trace t = cc_trace s @ [Respond (whole_response s (rp_code rp) (rp_reason rp) g (concat ds)), Closing None]"
proof -
  let ?R = "client_reader E" and ?b = "header_block (status_line rp) h"
  let ?rp = "\<lparr> rp_version = ''HTTP/1.1'', rp_code = rp_code rp, rp_reason = rp_reason rp \<rparr>"
  have pending: "rd_pending ?R = cc_read" "rd_search ?R = hl_header_end (ce_lib E)" by (simp_all add: client_reader_def)
  have line: "status_line rp \<noteq> []" "list_all not_eol (status_line rp)"
    using status_line_plain [OF ok(1)] by (simp_all add: status_line_def)
  obtain g where g: "parseHeaders (ce_lib E) ?b = Inr (status_line rp, g)" "same_headers g h"
    using parse_header_block [OF L line ok(2)] by auto
  then have body: "chunked_body (ce_lib E) g" using ok(3) by (simp add: chunked_body_def same_headersD)
  have start: "parseResponseStartLine (ce_lib E) (status_line rp) = Inr ?rp"
    using parse_status_line [OF L] code ok(1) by simp
  let ?t = "header_taken ?rp g s"
  have t: "rd_data ?R ?b s = ?t" "at_chunk_length ?t"
    using header_read [OF L s _ _ _ _ g(1) start body] code by simp_all
  have t': "cc_totalSize ?t = 0" "cc_chunkSize ?t = cc_chunkSize s" "cc_maxBodySize ?t = cc_maxBodySize s"
    "cc_callback ?t" "\<not> cc_closed ?t" "cc_code ?t = Some (rp_code rp)" "cc_chunks ?t = []"
    "cc_request ?t = cc_request s" "cc_headers ?t = g" "cc_reason ?t = rp_reason rp" "cc_trace ?t = cc_trace s"
    using s by (simp_all add: header_taken_def awaits_response_def)
  have "feed ?R s (?b @ concat (map chunk_text ds) @ last_chunk) = feed ?R ?t (concat (map chunk_text ds) @ last_chunk)"
    using s serve_header [OF L line ok(2) len] t(1) by (subst feed_piece) (auto simp: pending awaits_response_def header_block_def CRLF_def)
  also have "\<dots> = feed ?R (fold chunk_taken ds ?t) last_chunk"
    using ds by (intro chunks_read [OF L t(2)]) (simp_all add: t')
  finally show ?thesis
    using last_read [OF L at_chunks_taken [OF t(2)], of ds "rp_code rp"] g(2)
      whole_response_request [of "fold chunk_taken ds ?t" s]
    by (auto simp: chunk_taken_keeps t')
qed

section \<open>Writing a request\<close>

definition client_output :: "client_event list \<Rightarrow> string" where
  "client_output tr = concat (map (\<lambda>e. case e of Wrote d b \<Rightarrow> d | _ \<Rightarrow> []) tr)"

lemma client_output_simps [simp]:
  "client_output [] = []" "client_output (xs @ ys) = client_output xs @ client_output ys"
  "client_output (Wrote d b # tr) = d @ client_output tr" "client_output (NoDelay c # tr) = client_output tr"
  by (simp_all add: client_output_def)

text \<open>The headers that a request is sent with, if its name and password can be.\<close>

definition request_headers :: "client_env \<Rightarrow> client_conn \<Rightarrow> http_headers option" where
  "request_headers E s = (let L = ce_lib E; r = cc_req s in
     case credentials (cc_parsed s) r of
       None \<Rightarrow> None
     | Some c \<Rightarrow> (case set_authorization E c r (connection_headers L (us_netloc (cc_parsed s)) (hq_headers r)) of
           Inl e \<Rightarrow> None
         | Inr h \<Rightarrow> Some (content_headers L r
             (if hq_userAgent r \<noteq> [] then header_set L ''User-Agent'' (hq_userAgent r) h else h))))"

text \<open>A request that waits for its connection and has its body, if any, at hand.\<close>

definition connecting :: "client_env \<Rightarrow> client_conn \<Rightarrow> bool" where
  "connecting E s \<longleftrightarrow> cc_callback s \<and> \<not> cc_closed s \<and> cc_read s = None \<and> unsupported (cc_req s) = None
     \<and> body_error (cc_req s) = None \<and> \<not> hq_bodyProducer (cc_req s) \<and> \<not> hq_allowNonstandardMethods (cc_req s)
     \<and> \<not> hq_expect100Continue (cc_req s) \<and> length (hq_body (cc_req s)) < 2 ^ 31
     \<and> \<not> header_has (ce_lib E) ''Content-Length'' (hq_headers (cc_req s))
     \<and> \<not> header_has (ce_lib E) ''Transfer-Encoding'' (hq_headers (cc_req s))"

definition sent_line :: "client_conn \<Rightarrow> request_start_line" where
  "sent_line s = \<lparr> rq_method = hq_method (cc_req s), rq_path = request_path (cc_parsed s), rq_version = ''HTTP/1.1'' \<rparr>"

lemma content_headers_have:
  assumes "http_documented L" "x = ''Content-Length'' \<or> x = ''Transfer-Encoding''"
  shows "header_has L x (content_headers L r h) \<longleftrightarrow> x = ''Content-Length'' \<and> hq_body r \<noteq> [] \<or> header_has L x h"
  using assms(2) by (auto simp: content_headers_def Let_def header_has_set [OF assms(1)])

lemma content_length_sent:
  "http_documented L \<Longrightarrow> hq_body r \<noteq> [] \<Longrightarrow>
     header_at L ''Content-Length'' (content_headers L r h) = Inr (to_string (length (hq_body r)))"
  by (simp add: content_headers_def Let_def header_at_set)

lemma connection_headers_have:
  assumes "http_documented L" "x = ''Content-Length'' \<or> x = ''Transfer-Encoding''"
  shows "header_has L x (connection_headers L netloc h) \<longleftrightarrow> header_has L x h"
  using assms(2) by (auto simp: connection_headers_def Let_def header_has_set [OF assms(1)])

lemma authorization_have:
  assumes "http_documented (ce_lib E)" "x = ''Content-Length'' \<or> x = ''Transfer-Encoding''" "set_authorization E c r h = Inr g"
  shows "header_has (ce_lib E) x g \<longleftrightarrow> header_has (ce_lib E) x h"
  using assms(2,3) by (auto simp: set_authorization_def header_has_set [OF assms(1)] split: prod.splits if_splits)

lemma request_headers_have:
  assumes L: "http_documented (ce_lib E)" and "connecting E s" "request_headers E s = Some h"
  shows "header_has (ce_lib E) ''Content-Length'' h \<longleftrightarrow> hq_body (cc_req s) \<noteq> []"
    and "hq_body (cc_req s) \<noteq> [] \<Longrightarrow> header_at (ce_lib E) ''Content-Length'' h = Inr (to_string (length (hq_body (cc_req s))))"
    and "\<not> header_has (ce_lib E) ''Transfer-Encoding'' h"
proof -
  obtain c g where c: "set_authorization E c (cc_req s)
      (connection_headers (ce_lib E) (us_netloc (cc_parsed s)) (hq_headers (cc_req s))) = Inr g"
    and h: "h = content_headers (ce_lib E) (cc_req s) (if hq_userAgent (cc_req s) \<noteq> []
      then header_set (ce_lib E) ''User-Agent'' (hq_userAgent (cc_req s)) g else g)"
    using assms(3) by (auto simp: request_headers_def Let_def split: option.splits sum.splits)
  have "\<not> header_has (ce_lib E) ''Content-Length'' g" "\<not> header_has (ce_lib E) ''Transfer-Encoding'' g"
    using authorization_have [OF L _ c] connection_headers_have [OF L] assms(2) by (simp_all add: connecting_def)
  then show "header_has (ce_lib E) ''Content-Length'' h \<longleftrightarrow> hq_body (cc_req s) \<noteq> []"
    "hq_body (cc_req s) \<noteq> [] \<Longrightarrow> header_at (ce_lib E) ''Content-Length'' h = Inr (to_string (length (hq_body (cc_req s))))"
    "\<not> header_has (ce_lib E) ''Transfer-Encoding'' h"
    by (auto simp: h content_headers_have [OF L] content_length_sent [OF L] header_has_set [OF L])
qed

lemma set_headers_simps [simp]:
  "cc_req (set_headers h s) = (cc_req s)\<lparr> hq_headers := h \<rparr>" "cc_parsed (set_headers h s) = cc_parsed s"
  "cc_trace (set_headers h s) = cc_trace s" "cc_closed (set_headers h s) = cc_closed s" "cc_read (set_headers h s) = cc_read s"
  "set_headers h (set_headers g s) = set_headers h s" "cc_callback (set_headers h s) = cc_callback s"
  by (simp_all add: set_headers_def cc_req_def)

lemma cc_req_update [simp]:
  "cc_req (s\<lparr> cc_trace := tr \<rparr>) = cc_req s" "cc_req (s\<lparr> cc_timeout := b \<rparr>) = cc_req s"
  "cc_req (s\<lparr> cc_connected := b \<rparr>) = cc_req s" "cc_req (s\<lparr> cc_requestStartLine := l \<rparr>) = cc_req s"
  "cc_req (s\<lparr> cc_chunkingOutput := b \<rparr>) = cc_req s" "cc_req (s\<lparr> cc_expectedContentRemaining := e \<rparr>) = cc_req s"
  "cc_req (s\<lparr> cc_writeFlag := b \<rparr>) = cc_req s" "cc_req (s\<lparr> cc_writeFinished := b \<rparr>) = cc_req s"
  "cc_req (s\<lparr> cc_read := r \<rparr>) = cc_req s" "cc_req (s\<lparr> cc_state := st \<rparr>) = cc_req s"
  by (simp_all add: cc_req_def)

text \<open>The checks and the headers do not depend on the headers that the request has so far.\<close>

lemma request_updates [simp]:
  "unsupported (r\<lparr> hq_headers := h \<rparr>) = unsupported r"
  "credentials p (r\<lparr> hq_headers := h \<rparr>) = credentials p r"
  "set_authorization E c (r\<lparr> hq_headers := h \<rparr>) g = set_authorization E c r g"
  "content_headers L (r\<lparr> hq_headers := h \<rparr>) g = content_headers L r g"
  by (simp_all add: unsupported_def body_error_def credentials_def set_authorization_def content_headers_def Let_def
      split: option.splits prod.splits)

lemma body_error_update [simp]: "body_error (r\<lparr> hq_headers := h \<rparr>) = body_error r"
  by (simp add: body_error_def Let_def cong: if_cong)

definition request_ready :: "http_headers \<Rightarrow> client_conn \<Rightarrow> client_conn" where
  "request_ready h s = set_headers h (s\<lparr> cc_connected := True, cc_timeout := hq_requestTimeout (cc_req s) \<noteq> 0 \<or> cc_timeout s,
     cc_trace := cc_trace s @ [NoDelay True] \<rparr>)"

lemma set_headers_update:
  "set_headers h (s\<lparr> cc_trace := tr \<rparr>) = (set_headers h s)\<lparr> cc_trace := tr \<rparr>"
  "(set_headers h s)\<lparr> cc_timeout := b \<rparr> = set_headers h (s\<lparr> cc_timeout := b \<rparr>)"
  by (simp_all add: set_headers_def)

lemma request_prepared:
  assumes "connecting E s" "request_headers E s = Some h"
  shows "cc_step E Connect s = handled (doM [
     cc_writeHeaders E \<lparr> rq_method = hq_method (cc_req s), rq_path = request_path (cc_parsed s), rq_version = [] \<rparr>,
     withM (\<lambda>s. if hq_expect100Continue (cc_req s) then readResponse else writeBody E True)]) (request_ready h s)"
proof -
  obtain c g where c: "credentials (cc_parsed s) (cc_req s) = Some c"
    "set_authorization E c (cc_req s) (connection_headers (ce_lib E) (us_netloc (cc_parsed s)) (hq_headers (cc_req s))) = Inr g"
    and h: "content_headers (ce_lib E) (cc_req s) (if hq_userAgent (cc_req s) \<noteq> []
      then header_set (ce_lib E) ''User-Agent'' (hq_userAgent (cc_req s)) g else g) = h"
    using assms(2) by (auto simp: request_headers_def Let_def split: option.splits sum.splits)
  show ?thesis
    using assms(1) c h
    by (auto simp: runs cc_onConnected_def Let_def handled_def tryM_def connecting_def raise_def add_authorization_def
        cc_traceM_def request_ready_def set_headers_update bindM_unit(2))
qed

definition first_line :: "client_conn \<Rightarrow> request_start_line" where
  "first_line s = \<lparr> rq_method = hq_method (cc_req s), rq_path = request_path (cc_parsed s), rq_version = [] \<rparr>"

definition header_written :: "http_headers \<Rightarrow> client_conn \<Rightarrow> client_conn" where
  "header_written h s = (request_ready h s)\<lparr> cc_requestStartLine := first_line s, cc_chunkingOutput := False,
     cc_expectedContentRemaining := (if hq_body (cc_req s) = [] then None else Some (int (length (hq_body (cc_req s))))),
     cc_writeFlag := True,
     cc_trace := cc_trace s @ [NoDelay True, Wrote (header_block (request_line (sent_line s)) h) True] \<rparr>"

lemma header_written_run:
  assumes L: "http_documented (ce_lib E)" and s: "connecting E s" "request_headers E s = Some h"
    and ok: "headers_ok h" "request_ok (sent_line s)"
  shows "cc_writeHeaders E (first_line s) (request_ready h s) = (Inr (), header_written h s)"
proof -
  let ?L = "ce_lib E" and ?b = "hq_body (cc_req s)" and ?u = "request_ready h s"
  let ?v = "?u\<lparr> cc_requestStartLine := first_line s, cc_chunkingOutput := False \<rparr>"
  let ?w = "?v\<lparr> cc_expectedContentRemaining := (if ?b = [] then None else Some (int (length ?b))) \<rparr>"
  have req: "cc_req ?u = (cc_req s)\<lparr> hq_headers := h \<rparr>" by (simp add: request_ready_def)
  note have_h = request_headers_have [OF L s]
  have plain: "\<not> (hq_method (cc_req s) \<in> {''POST'', ''PUT'', ''PATCH''} \<and> ?b = [])"
    using s(1) by (auto simp: connecting_def body_error_def Let_def split: if_splits)
  have "set_headers h ?v = ?v"
    by (simp add: request_ready_def set_headers_def)
  then have start: "start_line ?L (first_line s) ?u = (Inr (), ?v)"
    using have_h plain by (auto simp: start_line_def Let_def runs req first_line_def)
  have number: "?b \<noteq> [] \<Longrightarrow> stoi (to_string (length ?b)) = Some (int (length ?b))"
    using s(1) stoi_int_string [of "int (length ?b)"] by (simp add: connecting_def int_string_def)
  have expect: "expect_content ?L ?v = (Inr (), ?w)"
    using have_h number by (auto simp: expect_content_def Let_def runs req)
  have lines: "request_lines (first_line s) h = request_line (sent_line s) # map header_field (header_getAll h)"
    by (simp add: request_lines_def request_line_def sent_line_def first_line_def header_field_def split_beta)
  have "list_all (\<lambda>l. list_all not_eol l) (request_lines (first_line s) h)"
    using header_fields_ok [OF ok(1)] request_line_plain [OF ok(2)] by (auto simp: lines elim: list.pred_mono_strong)
  note newline = no_newline [OF this]
  have block: "boost_join (hl_boost ?L) (request_lines (first_line s) h) CRLF @ CRLF @ CRLF
      = header_block (request_line (sent_line s)) h"
    by (simp add: boostD(2) [OF httpD(1) [OF L]] header_block_def lines)
  have w: "cc_trace ?w = cc_trace s @ [NoDelay True]" "\<not> cc_closed ?w"
    using s(1) by (simp_all add: request_ready_def connecting_def)
  have "write_lines ?L (first_line s) ?w = (Inr (), ?w\<lparr> cc_writeFlag := True,
      cc_trace := cc_trace ?w @ [Wrote (header_block (request_line (sent_line s)) h) True] \<rparr>)"
    using w(2) by (simp add: write_lines_def Let_def runs req newline block cc_write_def cc_traceM_def)
  then have "write_lines ?L (first_line s) ?w = (Inr (), header_written h s)"
    unfolding w(1) header_written_def by simp
  with start expect show ?thesis
    by (simp add: cc_writeHeaders_def Let_def runs bindM_after [where m = "start_line ?L (first_line s)"]
        bindM_after [where m = "expect_content ?L"] bindM_unit(2))
qed

text \<open>Nothing of a response has been received, and only the callback waits for it.\<close>

definition unanswered :: "client_conn \<Rightarrow> bool" where
  "unanswered s \<longleftrightarrow> cc_chunks s = [] \<and> cc_totalSize s = 0 \<and> cc_decompressor s = None
     \<and> \<not> hq_streamingCallback (cc_req s) \<and> \<not> hq_headerCallback (cc_req s) \<and> hq_method (cc_req s) \<noteq> ''HEAD''"

lemma header_written_simps:
  "cc_callback (header_written h s) = cc_callback s" "cc_closed (header_written h s) = cc_closed s"
  "cc_read (header_written h s) = cc_read s" "cc_chunkingOutput (header_written h s) = False"
  "cc_req (header_written h s) = (cc_req s)\<lparr> hq_headers := h \<rparr>" "cc_maxHeaderSize (header_written h s) = cc_maxHeaderSize s"
  "cc_maxBodySize (header_written h s) = cc_maxBodySize s" "cc_chunkSize (header_written h s) = cc_chunkSize s"
  "cc_requestStartLine (header_written h s) = first_line s" "cc_writeFlag (header_written h s)"
  "cc_expectedContentRemaining (header_written h s)
     = (if hq_body (cc_req s) = [] then None else Some (int (length (hq_body (cc_req s)))))"
  "cc_trace (header_written h s) = cc_trace s @ [NoDelay True, Wrote (header_block (request_line (sent_line s)) h) True]"
  "cc_chunks (header_written h s) = cc_chunks s" "cc_totalSize (header_written h s) = cc_totalSize s"
  "cc_decompressor (header_written h s) = cc_decompressor s"
  by (simp_all add: header_written_def request_ready_def set_headers_def cc_req_def)

lemma body_written:
  assumes "connecting E s"
  shows "\<exists>t. writeBody E True (header_written h s) = (Inr (), t)
    \<and> client_output (cc_trace t) = client_output (cc_trace s) @ header_block (request_line (sent_line s)) h @ hq_body (cc_req s)
    \<and> cc_maxHeaderSize t = cc_maxHeaderSize s \<and> cc_maxBodySize t = cc_maxBodySize s \<and> cc_chunkSize t = cc_chunkSize s
    \<and> (unanswered s \<longrightarrow> awaits_response t)"
  using assms
  by (cases "hq_body (cc_req s) = []") (auto simp: writeBody_def runs header_written_simps connecting_def cc_writeChunk_def
      cc_formatChunk_def Let_def cc_write_def cc_traceM_def writeFinished_def readResponse_def cc_ask_def awaits_response_def
      unanswered_def first_line_def bindM_unit(2))

lemma request_written:
  assumes "http_documented (ce_lib E)" "connecting E s" "request_headers E s = Some h" "headers_ok h" "request_ok (sent_line s)"
  shows "\<exists>t. cc_step E Connect s = (Inr (), t)
    \<and> client_output (cc_trace t) = client_output (cc_trace s) @ header_block (request_line (sent_line s)) h @ hq_body (cc_req s)
    \<and> cc_maxHeaderSize t = cc_maxHeaderSize s \<and> cc_maxBodySize t = cc_maxBodySize s \<and> cc_chunkSize t = cc_chunkSize s
    \<and> (unanswered s \<longrightarrow> awaits_response t)"
proof -
  obtain t where t: "writeBody E True (header_written h s) = (Inr (), t)"
    "client_output (cc_trace t) = client_output (cc_trace s) @ header_block (request_line (sent_line s)) h @ hq_body (cc_req s)"
    "cc_maxHeaderSize t = cc_maxHeaderSize s" "cc_maxBodySize t = cc_maxBodySize s" "cc_chunkSize t = cc_chunkSize s"
    "unanswered s \<longrightarrow> awaits_response t"
    using body_written [OF assms(2), of h] by auto
  have "\<not> hq_expect100Continue (cc_req (header_written h s))"
    using assms(2) by (simp add: header_written_simps connecting_def)
  then have "cc_step E Connect s = (Inr (), t)"
    using t(1) unfolding request_prepared [OF assms(2,3)] first_line_def [symmetric]
    by (intro handled_ok) (simp add: runs bindM_after [where m = "cc_writeHeaders E (first_line s)", OF header_written_run [OF assms]] bindM_unit(2))
  with t show ?thesis by blast
qed

end
