(* ===== verification/Http_Exchange.thy ===== *)
theory Http_Exchange
  imports Http_Requests Http_Client_Props
begin

text \<open>
  Server and client together: the response that the calls of an application put on the wire is the
  response that the other end hands to the callback of its request.
\<close>

section \<open>The round trip of a response\<close>

lemma header_get_lib: "http_documented L \<Longrightarrow> http_documented K \<Longrightarrow> header_get L n d h = header_get K n d h"
  by (simp add: header_get_def normalizeName_id)

lemma chunked_body_headers:
  assumes "http_documented L" "http_documented K" "chunks_output L rq rp h" "header_get L ''Content-Encoding'' [] h \<noteq> ''gzip''"
  shows "chunked_body K (chunked_headers L s h)"
proof -
  have "\<not> header_has K ''Content-Length'' (chunked_headers L s h)"
    using assms(3) chunked_headers_has(1) [OF assms(1), of "''Content-Length''" s h]
    by (simp add: chunks_output_def header_has_def)
  then show ?thesis
    using assms(4) chunked_headers_has(2,3) [OF assms(1), of "''Content-Encoding''"] header_get_lib [OF assms(2,1)] by (simp add: chunked_body_def)
qed

text \<open>
  C19: the response of a server, written in chunks that the client reads in one block, is what the
  client hands to the callback. An application answers a request of version 1.1 that is not \<open>HEAD\<close> by
  \<open>writeHeaders\<close> without a \<open>Content-Length\<close> or a \<open>Transfer-Encoding\<close> and with a status from 200 on other than 204 and 304, by
  any \<open>writeChunk\<close>s that are no longer than the chunk size of the client, and by \<open>finish\<close>; the
  connection adds its own headers. The octets that it writes, fed to a client that waits for a response of
  at least this size and does not follow it as a redirect, give one response with the status, these headers
  and the pieces put together, and nothing is left over. (A longer chunk
  that is no multiple of the chunk size is read past its end and is outside the claim; so are a body
  that is compressed and an application that makes other calls in between.)
\<close>

theorem response_roundtrip:
  assumes "http_documented (he_lib S)" "http_documented (ce_lib C)"
    and "\<not> hc_closed s" "chunks_output (he_lib S) (hc_requestStartLine s) rp h"
    and "rq_method (hc_requestStartLine s) \<noteq> ''HEAD''" "200 \<le> rp_code rp" "rp_code rp < 2 ^ 31"
    and "list_all not_eol (rp_reason rp)" "headers_ok h" "header_get (he_lib S) ''Content-Encoding'' [] h \<noteq> ''gzip''"
    and "awaits_response c" "\<not> follows c (rp_code rp)"
    and "length (header_block (status_line rp) (chunked_headers (he_lib S) s h)) \<le> cc_maxHeaderSize c"
    and "list_all (\<lambda>d. length d \<le> cc_chunkSize c) ds"
    and "length (concat ds) \<le> cc_maxBodySize c" "cc_maxBodySize c < 2 ^ 64"
  shows "\<exists>s' c' g out. doM (map (hc_call S) (response_calls rp h ds)) s = (Inr (), s')
    \<and> server_output (hc_trace s') = server_output (hc_trace s) @ out
    \<and> feed (client_reader C) c out = (c', [])
    \<and> same_headers g (chunked_headers (he_lib S) s h)
    \<and> cc_trace c' = cc_trace c @ [Respond (whole_response c (rp_code rp) (rp_reason rp) g (concat ds)), Closing None]"
proof -
  let ?ds = "filter (\<lambda>d. d \<noteq> []) ds"
  have ds: "list_all (\<lambda>d. d \<noteq> [] \<and> length d \<le> cc_chunkSize c) ?ds" using assms(14) by (auto simp: list_all_iff)
  have len: "length (concat ?ds) \<le> cc_maxBodySize c" using assms(15) by (simp add: concat_nonempty)
  have ok: "headers_ok (chunked_headers (he_lib S) s h)"
    using assms(1,9) by (simp add: chunked_headers_def response_headers_ok)
  have code: "rp_code rp \<noteq> 204" "rp_code rp \<noteq> 304" using assms(4) by (simp_all add: chunks_output_def)
  note body = chunked_body_headers [OF assms(1,2,4,10), of s]
  obtain s' where "doM (map (hc_call S) (response_calls rp h ds)) s = (Inr (), s')"
    "server_output (hc_trace s') = server_output (hc_trace s) @ chunked_response (he_lib S) s rp h ds"
    using writes_response [OF assms(1,3,4,5,9,8)] by auto
  moreover obtain c' g where "feed (client_reader C) c (chunked_response (he_lib S) s rp h ds) = (c', [])"
    "same_headers g (chunked_headers (he_lib S) s h)"
    "cc_trace c' = cc_trace c @ [Respond (whole_response c (rp_code rp) (rp_reason rp) g (concat ds)), Closing None]"
    using chunked_response_read [OF assms(2,11,6,7) code assms(12,8) ok body assms(13) ds len assms(16)]
    unfolding chunked_response_def wire_chunks concat_nonempty by auto
  ultimately show ?thesis by blast
qed

section \<open>The round trip of a request\<close>

lemma header_at_lib: "http_documented L \<Longrightarrow> http_documented K \<Longrightarrow> header_at L n h = header_at K n h"
  by (simp add: header_at_def normalizeName_id)

lemma header_has_lib: "header_has L n h = header_has K n h"
  by (simp add: header_has_def)

text \<open>
  C20: the request of a client, with a body of at most one block of the server, is what the server hands
  to its application. When the connection of a request has come up, the client writes the request line,
  the headers that the program gave with those that the library adds, and the body. A server that waits
  for a request, whose application only listens, fed with these octets, hands out the request line, the
  same headers, the body in one piece and the end, and the client waits for the response. (What a longer
  body does is in \<open>Http_Requests\<close>: it is handed out whole only if its length is a multiple of the block.)
\<close>

theorem request_roundtrip:
  assumes "http_documented (ce_lib C)" "http_documented (he_lib S)"
    and "connecting C c" "request_headers C c = Some h" "headers_ok h" "request_ok (sent_line c)" "unanswered c"
    and "silent S" "awaits_request s" "plain_request (he_lib S) h"
    and "length (header_block (request_line (sent_line c)) h) \<le> hc_maxHeaderSize s"
    and "length (hq_body (cc_req c)) \<le> hc_chunkSize s" "length (hq_body (cc_req c)) \<le> hc_maxBodySize s"
  shows "\<exists>c' s' g out. cc_step C Connect c = (Inr (), c') \<and> awaits_response c'
    \<and> client_output (cc_trace c') = client_output (cc_trace c) @ out
    \<and> feed (server_reader S) s out = (s', []) \<and> hc_readFinished s' \<and> same_headers g h
    \<and> hc_trace s' = hc_trace s @ GotHeaders (sent_line c) g
        # (if hq_body (cc_req c) = [] then [] else [GotBody (hq_body (cc_req c))]) @ [GotEnd]"
proof -
  let ?b = "hq_body (cc_req c)" and ?out = "header_block (request_line (sent_line c)) h @ hq_body (cc_req c)"
  obtain c' where c': "cc_step C Connect c = (Inr (), c')" "awaits_response c'"
    "client_output (cc_trace c') = client_output (cc_trace c) @ ?out"
    using request_written [OF assms(1,3-6)] assms(7) by auto
  note sent = request_headers_have [OF assms(1,3,4)]
  have te: "\<not> header_has (he_lib S) ''Transfer-Encoding'' h" using sent(3) by (simp add: header_has_def)
  have n: "length ?b < 2 ^ 64" using assms(3) by (simp add: connecting_def)
  have "\<exists>s' g. feed (server_reader S) s ?out = (s', []) \<and> same_headers g h \<and> hc_readFinished s'
    \<and> hc_trace s' = hc_trace s @ GotHeaders (sent_line c) g # (if ?b = [] then [] else [GotBody ?b]) @ [GotEnd]"
  proof (cases "?b = []")
    case True
    have "\<not> header_has (he_lib S) ''Content-Length'' h" using sent(1) True by (simp add: header_has_def)
    from bodiless_read [OF assms(2,8,9,6,5,10) this te assms(11)] True show ?thesis by auto
  next
    case False
    have "header_at (he_lib S) ''Content-Length'' h = Inr (to_string (length ?b))"
      using sent(2) False header_at_lib [OF assms(1,2)] by simp
    from request_read [OF assms(2,8,9,6,5,10) this te stoul_to_string [OF n] to_string_no_comma assms(11) False assms(12,13)]
    show ?thesis using False by auto
  qed
  with c' show ?thesis by blast
qed

end
