(* ===== verification/Http_Client_Once.thy ===== *)
theory Http_Client_Once
  imports Http_Client
begin

text \<open>
  The callback of a request: whatever is received, timed out, lost or produced, and in any order, it is
  given at most one response by its connection, and it is not forgotten as long as the client is open.
\<close>

definition answers :: "client_event \<Rightarrow> bool" where
  "answers e \<longleftrightarrow> (case e of Respond r \<Rightarrow> True | _ \<Rightarrow> False)"

definition hands_on :: "client_event \<Rightarrow> bool" where
  "hands_on e \<longleftrightarrow> (case e of Refetch r \<Rightarrow> True | _ \<Rightarrow> False)"

definition responses :: "client_event list \<Rightarrow> nat" where
  "responses tr = length (filter answers tr)"

definition unsettled :: "client_event list \<Rightarrow> bool" where
  "unsettled tr \<longleftrightarrow> list_all (\<lambda>e. \<not> answers e \<and> \<not> hands_on e) tr"

lemma responses_simps [simp]:
  "responses [] = 0" "responses (xs @ ys) = responses xs + responses ys" "unsettled []"
  "unsettled (xs @ ys) \<longleftrightarrow> unsettled xs \<and> unsettled ys"
  by (simp_all add: responses_def unsettled_def)

lemma unsettled_none: "unsettled tr \<Longrightarrow> responses tr = 0"
  by (induction tr) (auto simp: responses_def unsettled_def)

text \<open>How the callback and the trace may change while the client is neither opened nor closed.\<close>

definition owes :: "bool \<Rightarrow> bool \<Rightarrow> bool \<Rightarrow> client_event list \<Rightarrow> bool" where
  "owes shut before after es \<longleftrightarrow>
     (if \<not> before then \<not> after \<and> responses es = 0
      else if after then unsettled es
      else responses es \<le> 1 \<and> (shut \<or> \<not> unsettled es))"

definition owed :: "client_conn \<Rightarrow> client_conn \<Rightarrow> bool" where
  "owed s t \<longleftrightarrow> cc_clientClosed t = cc_clientClosed s \<and>
     (\<exists>es. cc_trace t = cc_trace s @ es \<and> owes (cc_clientClosed s) (cc_callback s) (cc_callback t) es)"

lemma owes_append: "owes shut x y es \<Longrightarrow> owes shut y z fs \<Longrightarrow> owes shut x z (es @ fs)"
  by (auto simp: owes_def unsettled_none split: if_splits)

lemma owes_Nil [simp]: "owes shut x x []"
  by (simp add: owes_def responses_def)

interpretation ow: state_rel owed
proof
  show "owed s s" for s by (simp add: owed_def)
next
  fix s t u
  assume "owed s t" "owed t u"
  then show "owed s u" by (auto simp: owed_def intro: owes_append)
qed

lemma owed_same: "(\<And>s. cc_trace (f s) = cc_trace s \<and> cc_callback (f s) = cc_callback s \<and> cc_clientClosed (f s) = cc_clientClosed s) \<Longrightarrow> evolves owed (modifyM f)"
  by (rule evolves_modifyM) (simp add: owed_def)

lemma owed_trace: "\<not> answers e \<Longrightarrow> \<not> hands_on e \<Longrightarrow> evolves owed (cc_traceM e)"
  unfolding cc_traceM_def by (rule evolves_modifyM) (simp add: owed_def owes_def responses_def unsettled_def)

lemma plain_events [simp]:
  "\<not> answers (Connecting a p c)" "\<not> answers (Wrote d b)" "\<not> answers (Closing r)" "\<not> answers (NoDelay b)"
  "\<not> answers (HeaderCallback d)" "\<not> answers (StreamingCallback d)" "\<not> answers ProducerActive"
  "\<not> hands_on (Connecting a p c)" "\<not> hands_on (Wrote d b)" "\<not> hands_on (Closing r)" "\<not> hands_on (NoDelay b)"
  "\<not> hands_on (HeaderCallback d)" "\<not> hands_on (StreamingCallback d)" "\<not> hands_on ProducerActive"
  by (simp_all add: answers_def hands_on_def)

lemma owed_runCallback: "evolves owed (runCallback r)"
  by (rule evolvesI) (simp add: runCallback_def runs cc_traceM_def owed_def owes_def responses_def unsettled_def answers_def)

lemmas owed_rules = ow.ev_rules ev_cases owed_runCallback

lemma owed_stream:
  "evolves owed (cc_ask r)" "evolves owed (cc_write d b)" "evolves owed (cc_close c)" "evolves owed removeTimeout"
  unfolding cc_ask_def cc_write_def cc_close_def removeTimeout_def
  by (intro owed_rules owed_trace owed_same plain_events; simp)+

lemma owed_handle: "evolves owed (handleException e)"
  unfolding handleException_def by (intro owed_rules owed_stream)

lemma owed_handled: "evolves owed m \<Longrightarrow> evolves owed (handled m)"
  unfolding handled_def by (intro owed_rules owed_handle)

lemma owed_formatChunk: "evolves owed (cc_formatChunk d)"
  unfolding cc_formatChunk_def by (intro owed_rules owed_stream owed_same; simp)

lemma owed_writes: "evolves owed (cc_writeChunk d)" "evolves owed writeFinished"
  unfolding cc_writeChunk_def writeFinished_def
  by (intro owed_rules owed_stream owed_formatChunk owed_trace plain_events owed_same; simp)+

lemma owed_call: "evolves owed (cc_call c)"
  by (cases c) (simp_all add: owed_writes ow.ev_throwM)

lemma owed_callback: "\<not> answers e \<Longrightarrow> \<not> hands_on e \<Longrightarrow> evolves owed (cc_callbackM E e)"
  unfolding cc_callbackM_def
  by (intro owed_rules owed_trace ow.ev_doM) (simp_all add: list_all_iff owed_call)

lemma owed_reads:
  "evolves owed readResponse" "evolves owed cc_readFixedBodyBlock" "evolves owed cc_readChunkLength"
  "evolves owed cc_readChunkDataBlock" "evolves owed (cc_readChunkData n)" "evolves owed cc_readChunkEnds"
  "evolves owed cc_readLastChunkEnds"
  unfolding readResponse_def cc_readFixedBodyBlock_def cc_readChunkLength_def cc_readChunkDataBlock_def cc_readChunkData_def
    cc_readChunkEnds_def cc_readLastChunkEnds_def
  by (intro owed_rules owed_stream owed_same; simp)+

lemma set_headers_callback: "cc_trace (set_headers h s) = cc_trace s" "cc_callback (set_headers h s) = cc_callback s"
  "cc_clientClosed (set_headers h s) = cc_clientClosed s"
  by (simp_all add: set_headers_def)

lemma owed_headers: "evolves owed (cc_writeHeaders E l)"
  unfolding cc_writeHeaders_def start_line_def expect_content_def write_lines_def
  by (intro owed_rules owed_stream owed_same; simp add: Let_def set_headers_callback)

lemma owed_writeBody: "evolves owed (writeBody E b)"
  unfolding writeBody_def by (intro owed_rules owed_writes owed_reads owed_callback plain_events)

lemma owed_authorization: "evolves owed (add_authorization E)"
  unfolding add_authorization_def by (intro owed_rules owed_same; simp add: set_headers_callback)

lemma owed_raise: "evolves owed (raise e)"
  unfolding raise_def by (intro owed_rules)

lemma owed_onConnected: "evolves owed (cc_onConnected E)"
  unfolding cc_onConnected_def Let_def
  by (intro owed_handled owed_rules owed_stream owed_raise owed_authorization owed_headers owed_writeBody owed_reads
      owed_trace plain_events owed_same; simp add: set_headers_callback)

lemma owed_body: "evolves owed (onChunkReceived E d)" "evolves owed (cc_decompressToString E d)" "evolves owed (cc_flush E)"
  unfolding onChunkReceived_def cc_decompressToString_def cc_flush_def onChunkReceived_def Let_def
  by (intro owed_rules owed_callback plain_events owed_same; simp)+

lemma owed_round: "evolves owed (cc_decompress_round E)"
  unfolding cc_decompress_round_def by (intro owed_rules owed_body)

lemma owed_data: "evolves owed (cc_onDataReceived E d)"
  unfolding cc_onDataReceived_def
  by (intro owed_rules owed_body owed_round ow.ev_loopM owed_same; simp)

text \<open>A redirect gives the callback to the next request, or loses it where the client is closed.\<close>

lemma owed_redirect: "evolves owed (doM [modifyM (\<lambda>s. s\<lparr> cc_callback := False \<rparr>), client_fetch q, cc_close c])"
  by (rule evolvesI)
    (auto simp: runs client_fetch_def cc_traceM_def cc_close_def owed_def owes_def responses_def unsettled_def answers_def hands_on_def)

lemma owed_finish: "evolves owed (cc_finish E)"
  unfolding cc_finish_def Let_def
  by (intro owed_redirect owed_rules owed_body owed_stream owed_same; simp)

lemma owed_header_callbacks: "evolves owed (header_callbacks E l h)"
  unfolding header_callbacks_def by (rule ow.ev_doM) (auto simp: list_all_iff owed_callback)

lemma owed_headersReceived: "evolves owed (cc_onHeadersReceived E l h)"
  unfolding cc_onHeadersReceived_def by (intro owed_rules owed_writeBody owed_header_callbacks owed_same; simp)

lemma owed_readBody: "evolves owed (cc_readBody E)" "evolves owed (cc_use_decompressor E)"
  unfolding cc_readBody_def cc_use_decompressor_def cc_readFixedBody_def Let_def
  by (intro owed_rules owed_reads owed_finish owed_stream owed_same; simp)+

lemma owed_pieces:
  "evolves owed (cc_onHeaders E d)" "evolves owed (cc_onFixedBody E d)" "evolves owed (cc_onChunkLength E d)"
  "evolves owed (cc_onChunkData E d)" "evolves owed (cc_onChunkEnds d)" "evolves owed (cc_onLastChunkEnds E d)"
  "evolves owed (onReadUntilClose E d)"
  unfolding cc_onHeaders_def cc_onFixedBody_def cc_onChunkLength_def cc_onChunkData_def cc_onChunkEnds_def
    cc_onLastChunkEnds_def onReadUntilClose_def Let_def
  by (intro owed_rules owed_headersReceived owed_readBody owed_reads owed_finish owed_data owed_same; simp)+

lemma owed_step: "i \<noteq> CloseClient \<Longrightarrow> evolves owed (cc_step E i)"
proof (cases i)
  case (Data p)
  have "evolves owed (cc_read_piece E st d)" for st d
    by (cases st) (simp_all add: cc_read_piece_def owed_pieces ow.ev_throwM)
  then show ?thesis
    unfolding Data cc_step.simps cc_onDataRead_def by (intro owed_rules owed_handled owed_same; simp)
next
  case (ConnectFailed e)
  have "evolves owed (onTimeout m)" for m unfolding onTimeout_def by (intro owed_rules owed_same; simp)
  then show ?thesis
    unfolding ConnectFailed cc_step.simps connectFailed_def
    by (cases e) (auto intro!: owed_rules owed_handle)
next
  case Timeout
  have "evolves owed (onTimeout m)" for m unfolding onTimeout_def by (intro owed_rules owed_same; simp)
  then show ?thesis unfolding Timeout cc_step.simps by (intro owed_rules owed_handled)
next
  case Connect
  show ?thesis unfolding Connect cc_step.simps by (intro owed_rules owed_onConnected owed_same; simp)
next
  case WriteDone
  show ?thesis unfolding WriteDone cc_step.simps cc_onWriteComplete_def
    by (intro owed_rules owed_trace plain_events owed_same; simp)
next
  case (Disconnect r)
  show ?thesis unfolding Disconnect cc_step.simps cc_onDisconnected_def
    by (intro owed_rules owed_handled owed_same; simp)
qed (simp_all add: owed_stream owed_call)

text \<open>A run: any inputs, in any order.\<close>

definition cc_run :: "client_env \<Rightarrow> client_input list \<Rightarrow> client_conn \<Rightarrow> client_conn" where
  "cc_run E is s = foldl (\<lambda>s i. snd (cc_step E i s)) s is"

lemma cc_run_Nil: "cc_run E [] s = s"
  by (simp add: cc_run_def)

lemma cc_run_snoc: "cc_run E (is @ [i]) s = snd (cc_step E i (cc_run E is s))"
  by (simp add: cc_run_def)

text \<open>What holds in every state of a run: at most one response, and no callback lost while the client is open.\<close>

definition settled_once :: "client_conn \<Rightarrow> bool" where
  "settled_once s \<longleftrightarrow> responses (cc_trace s) \<le> 1 \<and> (cc_callback s \<longrightarrow> unsettled (cc_trace s))
     \<and> (cc_callback s \<or> cc_clientClosed s \<or> \<not> unsettled (cc_trace s))"

lemma settled_owed: "settled_once s \<Longrightarrow> owed s t \<Longrightarrow> settled_once t"
  by (auto simp: settled_once_def owed_def owes_def unsettled_none split: if_splits)

lemma settled_run:
  "settled_once (cc_run E is (fetchImpl E q)) \<and> (cc_clientClosed (cc_run E is (fetchImpl E q)) \<longleftrightarrow> CloseClient \<in> set is)"
proof (induction "is" rule: rev_induct)
  case Nil
  show ?case by (simp add: cc_run_Nil settled_once_def fetchImpl_def newClientConnection_def)
next
  case (snoc i js)
  let ?s = "cc_run E js (fetchImpl E q)"
  show ?case
  proof (cases "i = CloseClient")
    case True
    then show ?thesis using snoc by (auto simp: cc_run_snoc client_close_def runs settled_once_def)
  next
    case False
    then have "owed ?s (cc_run E (js @ [i]) (fetchImpl E q))"
      unfolding cc_run_snoc by (rule evolvesD [OF owed_step])
    then show ?thesis using snoc settled_owed False by (auto simp: owed_def)
  qed
qed

lemma disconnect_settles: "\<not> cc_callback (snd (cc_step E (Disconnect r) s))"
  by (cases "cc_callback s") (simp_all add: runs cc_onDisconnected_def handled_def tryM_def cc_uncaught_def handleException_def
      removeTimeout_def runCallback_def cc_traceM_def cc_close_def bindM_unit(2))

text \<open>
  C21: the callback of a request gets at most one response, and with an open client it is not forgotten.
  Over every sequence of connection attempts, received pieces, completed writes, timeouts, calls of a
  producer, lost connections and calls of \<open>HTTPClient::close\<close>, a client connection answers at most once,
  and never while it still has the callback. As long as the client is not closed, the callback is given
  up only to answer or to hand the request on to a redirect, and after a lost connection one of the two
  has happened. (Where the client is closed the last part fails: \<open>closed_redirect_loses_callback\<close>.)
\<close>

theorem client_responds_once:
  "responses (cc_trace (cc_run E is (fetchImpl E q))) \<le> 1
   \<and> (cc_callback (cc_run E is (fetchImpl E q)) \<longrightarrow> unsettled (cc_trace (cc_run E is (fetchImpl E q))))
   \<and> (CloseClient \<notin> set is \<longrightarrow>
        (unsettled (cc_trace (cc_run E is (fetchImpl E q))) \<longrightarrow> cc_callback (cc_run E is (fetchImpl E q)))
        \<and> \<not> unsettled (cc_trace (cc_run E (is @ [Disconnect r]) (fetchImpl E q))))"
proof -
  have "\<not> cc_callback (cc_run E (is @ [Disconnect r]) (fetchImpl E q))"
    using disconnect_settles by (simp add: cc_run_snoc)
  then show ?thesis
    using settled_run [of E "is" q] settled_run [of E "is @ [Disconnect r]" q] by (auto simp: settled_once_def)
qed

text \<open>
  A redirect of a closed client: \<open>finish\<close> takes the callback before it calls \<open>fetch\<close>, which throws, and
  the handler has no callback left to tell. The request is never answered, whatever happens then.
\<close>

lemma closed_redirect_loses_callback:
  assumes "cc_clientClosed s" "shouldFollowRedirect s" "cc_decompressor s = None"
    and "redirected (ce_lib E) s (case originalRequest (cc_request s) of Some r \<Rightarrow> r | None \<Rightarrow> cc_request s) = Inr q"
  shows "snd (handled (cc_finish E) s) = s\<lparr> cc_state := READ_NONE, cc_timeout := False, cc_callback := False \<rparr>"
proof -
  let ?s = "s\<lparr> cc_state := READ_NONE, cc_timeout := False \<rparr>"
  have "shouldFollowRedirect ?s" "cc_request ?s = cc_request s" "cc_clientClosed ?s"
    using assms(1,2) by (simp_all add: shouldFollowRedirect_def cc_req_def)
  moreover have "redirected L ?s p = redirected L s p" for L p
    by (simp add: redirected_def cc_req_def Let_def cong: sum.case_cong)
  ultimately have "cc_finish E s = (Inl (RuntimeError ''client already closed''), ?s\<lparr> cc_callback := False \<rparr>)"
    using assms(3,4) by (simp add: cc_finish_def Let_def cc_flush_def runs removeTimeout_def client_fetch_def cong: option.case_cong)
  then show ?thesis by (simp add: handled_def tryM_def cc_uncaught_def handleException_def runs)
qed

lemma callback_stays_lost:
  assumes "\<not> cc_callback s"
  shows "responses (cc_trace (cc_run E is s)) = responses (cc_trace s)"
proof -
  have "\<not> cc_callback (cc_run E is s) \<and> responses (cc_trace (cc_run E is s)) = responses (cc_trace s)"
  proof (induction "is" rule: rev_induct)
    case (snoc i js)
    show ?case
    proof (cases "i = CloseClient")
      case False
      then have "owed (cc_run E js s) (cc_run E (js @ [i]) s)"
        unfolding cc_run_snoc by (rule evolvesD [OF owed_step])
      then show ?thesis using snoc by (auto simp: owed_def owes_def)
    qed (use snoc in \<open>simp add: cc_run_snoc client_close_def runs\<close>)
  qed (simp add: cc_run_Nil assms)
  then show ?thesis by simp
qed

text \<open>
  With \<open>raiseError\<close>, which is the default, and which every request after a redirect is sent with, a
  status outside 200 to 299 does not reach the callback: it gets code 599 and no body.
\<close>

lemma fetch_hides_status:
  "bad_code code \<Longrightarrow> let r = callback_response q (fetch_outcome True (newHTTPResponse p code reason h body url))
     in rs_code r = 599 \<and> rs_body r = [] \<and> rs_headers r = None"
  by (simp add: Let_def fetch_outcome_def newHTTPResponse_def callback_response_def errorHTTPResponse_def)

end
