(* ===== verification/Http_Examples.thy ===== *)
theory Http_Examples
  imports Http_Exchange Http_Client_Once
begin

text \<open>
  A library that behaves as documented, and an exchange of a request and a response on which the
  properties of the HTTP connections apply: the blocks of the server are two octets long.
\<close>

section \<open>Libraries with the documented behaviour\<close>

definition http_ref :: http_lib where
  "http_ref = \<lparr> hl_boost = boost_ref, hl_trim_left = dropWhile is_space,
     hl_ends_with = (\<lambda>s t. length t \<le> length s \<and> drop (length s - length t) s = t),
     hl_version_match = (\<lambda>s. length s = 8 \<and> take 7 s = ''HTTP/1.'' \<and> is_digit (s ! 7)),
     hl_response_match = (\<lambda>s. let code = takeWhile is_digit (drop 9 s); t = drop (length code) (drop 9 s) in
       if take 7 s = ''HTTP/1.'' \<and> is_digit (s ! 7) \<and> s ! 8 = CHR '' '' \<and> code \<noteq> [] \<and> take 1 t = '' ''
       then Some (take 8 s, code, takeWhile (\<lambda>c. c \<noteq> CHR 0x0D) (drop 1 t)) else None),
     hl_host_port_match = (\<lambda>s. let port = rev (takeWhile is_digit (rev s)); rest = rev (dropWhile is_digit (rev s)) in
       if port \<noteq> [] \<and> 2 \<le> length rest \<and> last rest = CHR '':'' then Some (butlast rest, port) else None),
     hl_bracketed = (\<lambda>s. 2 \<le> length s \<and> hd s = CHR ''['' \<and> last s = CHR '']''),
     hl_header_end = search_header_block \<rparr>"

lemma takeWhile_whole:
  "list_all P s \<Longrightarrow> \<not> P c \<Longrightarrow> takeWhile P (s @ c # t) = s"
  "list_all P s \<Longrightarrow> \<not> P c \<Longrightarrow> dropWhile P (s @ c # t) = c # t"
  by (induction s) simp_all

lemma ref_response:
  assumes "is_digit d" "code \<noteq> []" "list_all is_digit code" "list_all not_eol reason"
  shows "hl_response_match http_ref (''HTTP/1.'' @ [d] @ '' '' @ code @ '' '' @ reason) = Some (''HTTP/1.'' @ [d], code, reason)"
proof -
  have "\<not> is_digit CHR '' ''" by code_simp
  then have "takeWhile is_digit (code @ CHR '' '' # reason) = code" by (rule takeWhile_whole(1) [OF assms(3)])
  moreover have "takeWhile (\<lambda>c. c \<noteq> CHR 0x0D) reason = reason"
    using assms(4) by (induction reason) (auto simp: not_eol_def)
  ultimately show ?thesis using assms(1,2) by (simp add: http_ref_def Let_def del: drop_drop)
qed

lemma ref_host_port:
  assumes "host \<noteq> []" "port \<noteq> []" "list_all is_digit port"
  shows "hl_host_port_match http_ref (host @ '':'' @ port) = Some (host, port)"
proof -
  have "\<not> is_digit CHR '':''" by code_simp
  then have "takeWhile is_digit (rev port @ CHR '':'' # rev host) = rev port"
    "dropWhile is_digit (rev port @ CHR '':'' # rev host) = CHR '':'' # rev host"
    using assms(3) takeWhile_whole [of is_digit "rev port" "CHR '':''" "rev host"] by simp_all
  moreover have "2 \<le> length (rev (CHR '':'' # rev host))" using assms(1) by (cases host) auto
  ultimately show ?thesis using assms(1,2) by (simp add: http_ref_def Let_def)
qed

lemma ref_no_port: "CHR '':'' \<notin> set s \<Longrightarrow> hl_host_port_match http_ref s = None"
proof -
  assume "CHR '':'' \<notin> set s"
  moreover have "set (dropWhile is_digit (rev s)) \<subseteq> set s" using set_dropWhileD by fastforce
  moreover have "last (rev t) \<in> set t" if "t \<noteq> []" for t :: string using that by (simp add: last_rev)
  ultimately show ?thesis
    by (auto simp: http_ref_def Let_def) (metis list.size(3) not_numeral_le_zero subsetD)
qed

lemma ref_documented: "http_documented http_ref"
proof -
  have "hl_bracketed http_ref s \<longleftrightarrow> (\<exists>t. s = ''['' @ t @ '']'')" for s
  proof (cases s)
    case (Cons c r)
    then show ?thesis by (cases r rule: rev_cases) (auto simp: http_ref_def)
  qed (simp add: http_ref_def)
  moreover have "hl_version_match http_ref s \<longleftrightarrow> (\<exists>d. is_digit d \<and> s = ''HTTP/1.'' @ [d])" for s
  proof -
    have "s = take 7 s @ [s ! 7]" if "length s = 8"
      using that take_Suc_conv_app_nth [of 7 s] by simp
    then show ?thesis by (auto simp: http_ref_def)
  qed
  moreover have "hl_ends_with http_ref s t \<longleftrightarrow> suffix t s" for s t
    by (auto simp: http_ref_def suffix_def) (metis append_take_drop_id)
  ultimately show ?thesis
    using ref_response ref_host_port ref_no_port boost_ref_documented
    unfolding http_documented_def by (simp add: http_ref_def)
qed

section \<open>A response\<close>

definition example_app :: web_app where
  "example_app = \<lparr> wa_protocol = [], wa_noKeepAlive = False, wa_xheaders = False, wa_decompress = False, wa_chunkSize = 2,
     wa_maxHeaderSize = 0, wa_maxBodySize = 0, wa_headerTimeout = 0, wa_bodyTimeout = 0, wa_trustedDownstream = [] \<rparr>"

definition example_server :: http_env where
  "example_server = \<lparr> he_lib = http_ref, he_webApp = example_app, he_client = (\<lambda>tr. []), he_remoteAddress = ''127.0.0.1'',
     he_isSSL = False, he_validIP = (\<lambda>s. True), he_gz_output = (\<lambda>cs. None), he_gz_tail = (\<lambda>cs. []),
     he_gz_flush = (\<lambda>cs. None), he_fuel = 0, he_asserts = True \<rparr>"

definition example_client :: client_env where
  "example_client = \<lparr> ce_lib = http_ref, ce_calls = (\<lambda>tr. []), ce_hostnameMapping = (\<lambda>h. None), ce_maxBufferSize = 104857600,
     ce_maxHeaderSize = 65536, ce_base64 = (\<lambda>s. s), ce_what = (\<lambda>e. []), ce_gz_output = (\<lambda>cs. None),
     ce_gz_tail = (\<lambda>cs. []), ce_gz_flush = (\<lambda>cs. None), ce_fuel = 0 \<rparr>"

definition example_request :: http_request where
  "example_request = newHTTPRequest ''http://a/b'' ''GET'' newHTTPHeaders"

definition example_awaiting :: client_conn where
  "example_awaiting = snd (readResponse (fetchImpl example_client example_request))"

definition example_requested :: http_conn where
  "example_requested = (newHTTPConnection 0)\<lparr> hc_requestStartLine :=
     \<lparr> rq_method = ''GET'', rq_path = ''/b'', rq_version = ''HTTP/1.1'' \<rparr> \<rparr>"

definition example_headers :: http_headers where
  "example_headers = \<lparr> hh_items = [(''Server'', ''n,m'')], hh_asList = [(''Server'', [''n'', ''m''])], hh_lastKey = [] \<rparr>"

definition example_status :: response_start_line where
  "example_status = \<lparr> rp_version = [], rp_code = 200, rp_reason = ''OK'' \<rparr>"

lemma example_line:
  "hc_requestStartLine example_requested = \<lparr> rq_method = ''GET'', rq_path = ''/b'', rq_version = ''HTTP/1.1'' \<rparr>"
  by (simp add: example_requested_def)

lemma example_chunked: "chunked_headers http_ref example_requested example_headers
    = header_set http_ref ''Transfer-Encoding'' ''chunked'' example_headers"
  by (simp add: chunked_headers_def response_headers_def Let_def example_requested_def newHTTPConnection_def)

lemma example_names: "\<not> ''Transfer-Encoding'' < ''Server''" "\<not> ''Server'' < (''Server'' :: string)"
  by code_simp+

lemma example_fields:
  "hh_asList (header_set http_ref ''Transfer-Encoding'' ''chunked'' example_headers)
    = [(''Server'', [''n'', ''m'']), (''Transfer-Encoding'', [''chunked''])]"
  by (simp add: header_set_eq [OF ref_documented] example_headers_def example_names)

lemma example_headers_ok: "headers_ok example_headers"
  by code_simp

lemma example_response:
  "chunks_output http_ref (hc_requestStartLine example_requested) example_status example_headers"
  "header_get http_ref ''Content-Encoding'' [] example_headers \<noteq> ''gzip''"
  unfolding example_line
  by (simp_all add: chunks_output_def header_has_def header_get_def normalizeName_id [OF ref_documented] example_status_def
      example_headers_def)

lemma example_length: "length (header_block (status_line example_status)
     (chunked_headers http_ref example_requested example_headers)) \<le> 65536"
proof -
  have "length (header_block (status_line example_status)
     (chunked_headers http_ref example_requested example_headers)) \<le> 100"
    unfolding example_chunked header_block_def header_getAll_def example_fields by code_simp
  then show ?thesis by simp
qed

lemma example_awaits:
  "awaits_response example_awaiting" "\<not> follows example_awaiting 200" "cc_maxHeaderSize example_awaiting = 65536"
  "cc_chunkSize example_awaiting = 65535" "cc_maxBodySize example_awaiting = 104857600"
  by (simp_all add: example_awaiting_def fetchImpl_def newClientConnection_def readResponse_def runs cc_ask_def
      awaits_response_def example_client_def example_request_def newHTTPRequest_def cc_req_def follows_def
      shouldFollowRedirect_def)

theorem response_roundtrip_witness:
  "\<exists>s' c' g out. doM (map (hc_call example_server) (response_calls example_status example_headers [''ab'', [], ''c'']))
      example_requested = (Inr (), s')
    \<and> server_output (hc_trace s') = server_output (hc_trace example_requested) @ out
    \<and> feed (client_reader example_client) example_awaiting out = (c', [])
    \<and> same_headers g (chunked_headers http_ref example_requested example_headers)
    \<and> cc_trace c' = cc_trace example_awaiting
        @ [Respond (whole_response example_awaiting 200 ''OK'' g ''abc''), Closing None]"
  using response_roundtrip [of example_server example_client example_requested example_status example_headers example_awaiting
      "[''ab'', [], ''c'']"] ref_documented example_response example_headers_ok example_length example_awaits
  by (simp add: example_server_def example_client_def example_status_def example_requested_def newHTTPConnection_def not_eol_def)

section \<open>A request\<close>

definition example_waiting :: http_conn where
  "example_waiting = snd (hc_step example_server Http_Server.Connect (newHTTPConnection 0))"

lemma example_silent: "silent example_server" "he_lib example_server = http_ref"
  by (simp_all add: silent_def example_server_def)

lemma example_waits:
  "awaits_request example_waiting" "hc_maxHeaderSize example_waiting = 65536" "hc_chunkSize example_waiting = 2"
  "hc_maxBodySize example_waiting = 104857600"
  by (simp_all add: example_waiting_def runs hc_onConnected_def Let_def example_server_def example_app_def
      newHTTPConnection_def hc_startRequest_def clearCallbacks_def hc_traceM_def hc_readHeaders_def hc_ask_def
      awaits_request_def listening_def defaultMaxBufferSize_def bindM_unit(2))

definition example_post :: http_request where
  "example_post = HTTPRequest (request_of (newHTTPRequest ''http://a/b'' ''POST'' newHTTPHeaders)\<lparr> hq_body := ''ab'' \<rparr>) None"

definition example_connecting :: client_conn where
  "example_connecting = (fetchImpl example_client example_post)\<lparr> cc_parsed :=
     \<lparr> us_scheme = ''http'', us_netloc = ''a'', us_path = ''/b'', us_query = [], us_fragment = [] \<rparr> \<rparr>"

definition example_sent :: http_headers where
  "example_sent = header_set http_ref ''Accept-Encoding'' ''gzip''
     (header_set http_ref ''Content-Type'' ''application/x-www-form-urlencoded'' (header_set http_ref ''Content-Length'' ''2''
     (header_set http_ref ''Host'' ''a'' (header_set http_ref ''Connection'' ''close'' newHTTPHeaders))))"

definition example_post_line :: request_start_line where
  "example_post_line = \<lparr> rq_method = ''POST'', rq_path = ''/b'', rq_version = ''HTTP/1.1'' \<rparr>"

lemma example_sent_ok: "headers_ok example_sent" "request_ok example_post_line" "length (header_block (request_line example_post_line) example_sent) \<le> 200"
  "plain_request http_ref example_sent"
  by code_simp+

lemma example_connects:
  "connecting example_client example_connecting" "unanswered example_connecting" "sent_line example_connecting = example_post_line"
  "cc_req example_connecting = request_of example_post" "cc_parsed example_connecting
     = \<lparr> us_scheme = ''http'', us_netloc = ''a'', us_path = ''/b'', us_query = [], us_fragment = [] \<rparr>"
  by (simp_all add: example_connecting_def fetchImpl_def newClientConnection_def connecting_def unanswered_def sent_line_def
      example_post_line_def cc_req_def example_post_def newHTTPRequest_def unsupported_def body_error_def SUPPORTED_METHODS_def
      header_has_def newHTTPHeaders_def request_path_def)

lemma example_user: "split_getUserName \<lparr> us_scheme = ''http'', us_netloc = ''a'', us_path = ''/b'', us_query = [], us_fragment = [] \<rparr> = None"
  by code_simp

lemma example_request_headers: "request_headers example_client example_connecting = Some example_sent"
proof -
  have two: "to_string (Suc (Suc 0)) = ''2''" by code_simp
  have none: "\<not> header_has L x newHTTPHeaders" for L x by (simp add: header_has_def newHTTPHeaders_def)
  show ?thesis
    unfolding request_headers_def Let_def example_connects credentials_def example_user
    by (simp add: example_post_def newHTTPRequest_def set_authorization_def connection_headers_def content_headers_def Let_def
        example_client_def header_sets [OF ref_documented] example_sent_def two none)
qed

theorem request_roundtrip_witness:
  "\<exists>c' s' g out. cc_step example_client Connect example_connecting = (Inr (), c') \<and> awaits_response c'
    \<and> client_output (cc_trace c') = client_output (cc_trace example_connecting) @ out
    \<and> feed (server_reader example_server) example_waiting out = (s', []) \<and> hc_readFinished s' \<and> same_headers g example_sent
    \<and> hc_trace s' = hc_trace example_waiting @ [GotHeaders example_post_line g, GotBody ''ab'', GotEnd]"
proof -
  have "http_documented (ce_lib example_client)" by (simp add: example_client_def ref_documented)
  moreover have "hq_body (cc_req example_connecting) = ''ab''" by (simp add: example_connects(4) example_post_def)
  moreover have "length (header_block (request_line example_post_line) example_sent) \<le> 65536" using example_sent_ok(3) by simp
  ultimately show ?thesis
    using request_roundtrip [of example_client example_server example_connecting example_sent example_waiting]
      example_connects(1-3) example_request_headers example_sent_ok example_silent example_waits ref_documented by simp
qed

theorem long_request_overreads_witness:
  "\<exists>t g. feed (server_reader example_server) example_waiting (header_block (request_line example_post_line)
      (header_set http_ref ''Content-Length'' ''3'' example_sent) @ ''abc'' @ ''GET'') = (t, ''ET'')
    \<and> same_headers g (header_set http_ref ''Content-Length'' ''3'' example_sent)
    \<and> hc_trace t = hc_trace example_waiting @ [GotHeaders example_post_line g, GotBody ''ab'', GotBody ''cG'', GotEnd]"
proof -
  let ?h = "header_set http_ref ''Content-Length'' ''3'' example_sent"
  have "headers_ok ?h" "length (header_block (request_line example_post_line) ?h) \<le> 200" "plain_request http_ref ?h"
    "\<not> header_has http_ref ''Transfer-Encoding'' ?h" "to_string 3 = ''3''" "blocks 2 1 ''abc'' = [''ab'']" by code_simp+
  moreover from this have "stoul ''3'' = Some 3" using stoul_to_string [of 3] by simp
  ultimately show ?thesis
    using long_request_overreads [of example_server example_waiting example_post_line ?h "''3''" "''abc''" 2 1 1 "''GET''"]
      example_sent_ok(2) example_silent example_waits ref_documented
    by (simp add: header_at_set [OF ref_documented])
qed

theorem chunked_request_never_ends_witness:
  "\<exists>t g. feed (server_reader example_server) example_waiting (header_block (request_line example_post_line)
      (header_set http_ref ''Transfer-Encoding'' ''chunked'' newHTTPHeaders)
      @ concat (map chunk_text [''a'', ''bc'']) @ last_chunk @ ''more'') = (t, ''more'')
    \<and> same_headers g (header_set http_ref ''Transfer-Encoding'' ''chunked'' newHTTPHeaders)
    \<and> hc_read t = None \<and> hc_state t = conn_state.READ_LAST_CHUNK_ENDS
    \<and> hc_trace t = hc_trace example_waiting @ [GotHeaders example_post_line g, GotBody ''a'', GotBody ''bc'',
        http_event.ProcessEnded (Aborted ''Unreachable'')]"
proof -
  let ?h = "header_set http_ref ''Transfer-Encoding'' ''chunked'' newHTTPHeaders"
  have "headers_ok ?h" "length (header_block (request_line example_post_line) ?h) \<le> 200" "plain_request http_ref ?h"
    "\<not> header_has http_ref ''Content-Length'' ?h" "he_asserts example_server" by code_simp+
  then show ?thesis
    using chunked_request_never_ends [of example_server example_waiting example_post_line ?h "[''a'', ''bc'']" "''more''"]
      example_sent_ok(2) example_silent example_waits ref_documented
    by (simp add: header_get_set [OF ref_documented])
qed

section \<open>The callback\<close>

theorem client_responds_once_witness:
  "CloseClient \<notin> set [Connect, Timeout]
   \<and> responses (cc_trace (cc_run example_client [Connect, Timeout] (fetchImpl example_client example_request))) \<le> 1
   \<and> \<not> unsettled (cc_trace (cc_run example_client ([Connect, Timeout] @ [Disconnect None]) (fetchImpl example_client example_request)))"
  using client_responds_once [of example_client "[Connect, Timeout]" example_request None] by simp

end
