(* ===== verification/Cookie.thy ===== *)
theory Cookie
  imports Url_Coding Std_Map
begin

text \<open>
  \<open>common/httputils/cookie.h\<close> and \<open>cookie.cpp\<close>: quoting of values, \<open>Morsel\<close> and the two cookie
  classes, which differ in the virtual functions \<open>valueEncode\<close> and \<open>valueDecode\<close> (\<open>simple\<close>).

  Reading a table with an octet from 128 on as index is undefined (\<open>StrUtil::translate\<close>), here an
  error. The three regular expressions are parameters that give the first match; \<open>cookie_documented\<close>
  states what the first two mean.
\<close>

datatype cookie_error = CookieError string | CookieOutOfRange | Undefined | FuelExhausted

text \<open>The match of \<open>CookiePattern\<close>: its position, its length, key and value.\<close>

record cookie_lib =
  ck_boost :: boost_str
  ck_octal :: "string \<Rightarrow> nat option"
  ck_quote :: "string \<Rightarrow> nat option"
  ck_pattern :: "string \<Rightarrow> (nat \<times> nat \<times> string \<times> string) option"

definition octal_digit :: "nat \<Rightarrow> char \<Rightarrow> bool" where
  "octal_digit m c \<longleftrightarrow> (48 :: nat) \<le> of_char c \<and> of_char c \<le> 48 + m"

fun find_octal :: "string \<Rightarrow> nat option" where
  "find_octal (a # b # c # d # s) =
     (if a = CHR 0x5C \<and> octal_digit 3 b \<and> octal_digit 7 c \<and> octal_digit 7 d then Some 0
      else map_option Suc (find_octal (b # c # d # s)))"
| "find_octal s = None"

fun find_quoted :: "string \<Rightarrow> nat option" where
  "find_quoted (a # b # s) = (if a = CHR 0x5C then Some 0 else map_option Suc (find_quoted (b # s)))"
| "find_quoted s = None"

definition no_line_end :: "char \<Rightarrow> bool" where
  "no_line_end c \<longleftrightarrow> c \<noteq> CHR 0x0D \<and> c \<noteq> CHR 0x0A"

definition cookie_documented :: "cookie_lib \<Rightarrow> bool" where
  "cookie_documented K \<longleftrightarrow> boost_documented (ck_boost K) \<and> (\<forall>s. ck_octal K s = find_octal s) \<and>
     (\<forall>s. list_all no_line_end s \<longrightarrow> ck_quote K s = find_quoted s)"

section \<open>Quoting\<close>

definition LegalChars :: string where
  "LegalChars = ''abcdefghijklmnopqrstuvwxyzABCDEFGHIJKLMNOPQRSTUVWXYZ0123456789!#$%&'' @ [CHR 0x27] @ ''*+-.^_`|~''"

definition Idmap :: "char list" where
  "Idmap = map char_of [0 ..< (256 :: nat)]"

definition octal_escape :: "nat \<Rightarrow> string" where
  "octal_escape n = [CHR 0x5C, char_of (48 + n div 64), char_of (48 + n div 8 mod 8), char_of (48 + n mod 8)]"

text \<open>The table of escapes, by ranges.\<close>

definition Translator :: "char \<Rightarrow> string option" where
  "Translator c =
     (let n = of_char c :: nat
      in if n < 32 \<or> n = 44 \<or> n = 59 \<or> 127 \<le> n then Some (octal_escape n)
         else if n = 34 \<or> n = 92 then Some [CHR 0x5C, c] else None)"

definition translated :: "char \<Rightarrow> string" where
  "translated c = (case Translator c of Some t \<Rightarrow> t | None \<Rightarrow> [c])"

definition cookie_quote :: "cookie_lib \<Rightarrow> string \<Rightarrow> cookie_error + string" where
  "cookie_quote K s =
     (case translate_str s Idmap LegalChars of
        None \<Rightarrow> Inl Undefined
      | Some rest \<Rightarrow>
          if rest = [] then Inr s
          else Inr (boost_join (ck_boost K) ([[CHR 0x22]] @ map translated s @ [[CHR 0x22]]) []))"

definition octal_value :: "string \<Rightarrow> nat" where
  "octal_value ds = foldl (\<lambda>a d. a * 8 + (of_char d - 48)) 0 ds"

text \<open>The loop of \<open>unquote\<close> on what is left of the text; \<open>std::stoi\<close> reads the digits that were matched.\<close>

function unquote_loop :: "cookie_lib \<Rightarrow> string \<Rightarrow> string list" where
  "unquote_loop K s = (if s = [] then [] else
     case (ck_octal K s, ck_quote K s) of
       (None, None) \<Rightarrow> [s]
     | (Some j, None) \<Rightarrow> [take j s, [char_of (octal_value (take 3 (drop (j + 1) s)))]] @ unquote_loop K (drop (j + 4) s)
     | (None, Some k) \<Rightarrow> [take k s, take 1 (drop (k + 1) s)] @ unquote_loop K (drop (k + 2) s)
     | (Some j, Some k) \<Rightarrow>
         if k < j then [take k s, take 1 (drop (k + 1) s)] @ unquote_loop K (drop (k + 2) s)
         else [take j s, [char_of (octal_value (take 3 (drop (j + 1) s)))]] @ unquote_loop K (drop (j + 4) s))"
  by auto
termination
  by (relation "measure (\<lambda>(K, s). length s)") auto

declare unquote_loop.simps [simp del]

definition cookie_unquote :: "cookie_lib \<Rightarrow> string \<Rightarrow> string" where
  "cookie_unquote K s =
     (if length s < 2 then s
      else if hd s \<noteq> CHR 0x22 \<or> last s \<noteq> CHR 0x22 then s
      else boost_join (ck_boost K) (unquote_loop K (butlast (tl s))) [])"

section \<open>Morsels\<close>

record morsel =
  mo_items :: "(string \<times> string) list"
  mo_key :: string
  mo_value :: string
  mo_codedValue :: string

definition reserved_keys :: "(string \<times> string) list" where
  "reserved_keys = [(''comment'', ''Comment''), (''domain'', ''Domain''), (''expires'', ''expires''),
     (''httponly'', ''httponly''), (''max-age'', ''Max-Age''), (''path'', ''Path''), (''secure'', ''secure''),
     (''version'', ''Version'')]"

definition newMorsel :: morsel where
  "newMorsel = \<lparr> mo_items = map (\<lambda>(k, v). (k, [])) reserved_keys, mo_key = [], mo_value = [], mo_codedValue = [] \<rparr>"

definition isReservedKey :: "cookie_lib \<Rightarrow> string \<Rightarrow> bool" where
  "isReservedKey K key \<longleftrightarrow> map_of reserved_keys (boost_to_lower (ck_boost K) key) \<noteq> None"

text \<open>\<open>morsel[key] = value\<close>\<close>

definition morsel_assign :: "cookie_lib \<Rightarrow> string \<Rightarrow> string \<Rightarrow> morsel \<Rightarrow> cookie_error + morsel" where
  "morsel_assign K key value m =
     (let tempKey = boost_to_lower (ck_boost K) key
      in if map_of reserved_keys tempKey = None then Inl (CookieError (''Invalid Attribute '' @ tempKey))
         else Inr (m\<lparr> mo_items := map_insert tempKey value (mo_items m) \<rparr>))"

definition morsel_set :: "cookie_lib \<Rightarrow> string \<Rightarrow> string \<Rightarrow> string \<Rightarrow> morsel \<Rightarrow> cookie_error + morsel" where
  "morsel_set K key value codedVal m =
     (if isReservedKey K key then Inl (CookieError (''Attempt to set a reserved key: '' @ key))
      else (case translate_str key Idmap LegalChars of
          None \<Rightarrow> Inl Undefined
        | Some rest \<Rightarrow>
            if rest \<noteq> [] then Inl (CookieError (''Illegal key value: '' @ key))
            else Inr (m\<lparr> mo_key := key, mo_value := value, mo_codedValue := codedVal \<rparr>)))"

text \<open>\<open>format\<close> is given C strings, which end at a NUL. Of the attributes to be shown only the keys matter.\<close>

definition c_text :: "string \<Rightarrow> string" where
  "c_text s = takeWhile (\<lambda>c. c \<noteq> CHR 0x00) s"

definition shown_attribute :: "string list \<Rightarrow> string \<times> string \<Rightarrow> string list" where
  "shown_attribute attrs kv = (case kv of (k, v) \<Rightarrow>
     if v = [] \<or> k \<notin> set attrs then []
     else (let name = (case map_of reserved_keys k of None \<Rightarrow> [] | Some n \<Rightarrow> n)
           in if k = ''secure'' \<or> k = ''httponly'' then [name] else [c_text name @ ''='' @ c_text v]))"

definition outputString :: "cookie_lib \<Rightarrow> string list option \<Rightarrow> morsel \<Rightarrow> string" where
  "outputString K attrs m =
     (let attrs = (case attrs of None \<Rightarrow> map fst reserved_keys | Some as \<Rightarrow> as)
      in boost_join (ck_boost K) ((c_text (mo_key m) @ ''='' @ c_text (mo_codedValue m)) # concat (map (shown_attribute attrs) (mo_items m))) ''; '')"

definition morsel_output :: "cookie_lib \<Rightarrow> string list option \<Rightarrow> string \<Rightarrow> morsel \<Rightarrow> string" where
  "morsel_output K attrs header m = header @ '' '' @ outputString K attrs m"

section \<open>Cookies\<close>

text \<open>The methods are programs on the map of morsels, which keeps what was set before an exception.\<close>

type_synonym cookies = "(string \<times> morsel) list"

type_synonym 'a cookie_prog = "(cookie_error, cookies, 'a) prog"

definition valueDecode :: "cookie_lib \<Rightarrow> bool \<Rightarrow> string \<Rightarrow> string \<times> string" where
  "valueDecode K simple val = (if simple then (cookie_unquote K val, val) else (val, val))"

definition valueEncode :: "cookie_lib \<Rightarrow> bool \<Rightarrow> string \<Rightarrow> cookie_error + string \<times> string" where
  "valueEncode K simple val = (if simple
     then (case cookie_quote K val of Inl e \<Rightarrow> Inl e | Inr q \<Rightarrow> Inr (val, q)) else Inr (val, val))"

definition keep_morsel :: "string \<Rightarrow> cookie_error + morsel \<Rightarrow> unit cookie_prog" where
  "keep_morsel key r = (case r of Inl e \<Rightarrow> throwM e | Inr m \<Rightarrow> modifyM (map_insert key m))"

definition cookie_set :: "cookie_lib \<Rightarrow> string \<Rightarrow> string \<Rightarrow> string \<Rightarrow> unit cookie_prog" where
  "cookie_set K key realValue codedValue = withM (\<lambda>items.
     keep_morsel key (morsel_set K key realValue codedValue
       (case map_of items key of None \<Rightarrow> newMorsel | Some m \<Rightarrow> m)))"

text \<open>\<open>cookie[key] = value\<close>\<close>

definition cookie_assign :: "cookie_lib \<Rightarrow> bool \<Rightarrow> string \<Rightarrow> string \<Rightarrow> unit cookie_prog" where
  "cookie_assign K simple key value = (case valueEncode K simple value of
     Inl e \<Rightarrow> throwM e | Inr (rval, cval) \<Rightarrow> cookie_set K key rval cval)"

definition cookie_at :: "string \<Rightarrow> cookies \<Rightarrow> cookie_error + morsel" where
  "cookie_at key items = (case map_of items key of None \<Rightarrow> Inl CookieOutOfRange | Some m \<Rightarrow> Inr m)"

definition cookie_has :: "string \<Rightarrow> cookies \<Rightarrow> bool" where
  "cookie_has key items \<longleftrightarrow> map_of items key \<noteq> None"

definition cookie_erase :: "string \<Rightarrow> unit cookie_prog" where
  "cookie_erase key = modifyM (map_erase key)"

definition cookie_output :: "cookie_lib \<Rightarrow> string list option \<Rightarrow> string \<Rightarrow> string \<Rightarrow> cookies \<Rightarrow> string" where
  "cookie_output K attrs header sep items =
     boost_join (ck_boost K) (map (\<lambda>(k, m). morsel_output K attrs header m) items) sep"

definition cookie_load_map :: "cookie_lib \<Rightarrow> bool \<Rightarrow> (string \<times> string) list \<Rightarrow> unit cookie_prog" where
  "cookie_load_map K simple rawdata = doM (map (\<lambda>(k, v). cookie_assign K simple k v) rawdata)"

text \<open>An attribute of the cookie read before, if there is one.\<close>

definition attribute_to :: "cookie_lib \<Rightarrow> string option \<Rightarrow> string \<Rightarrow> string \<Rightarrow> unit cookie_prog" where
  "attribute_to K current key value = withM (\<lambda>items. case current of
      None \<Rightarrow> doM []
    | Some c \<Rightarrow> (case map_of items c of
          None \<Rightarrow> doM [] | Some m \<Rightarrow> keep_morsel c (morsel_assign K key value m)))"

definition parse_match :: "cookie_lib \<Rightarrow> bool \<Rightarrow> string \<Rightarrow> string \<Rightarrow> string option \<Rightarrow> string option cookie_prog" where
  "parse_match K simple k v current =
     (if k \<noteq> [] \<and> hd k = CHR ''$'' then retM [attribute_to K current (tl k) v] current
      else if map_of reserved_keys (boost_to_lower (ck_boost K) k) \<noteq> None
      then retM [attribute_to K current k (cookie_unquote K v)] current
      else (case valueDecode K simple v of (rval, cval) \<Rightarrow> retM [cookie_set K k rval cval] (Some k)))"

text \<open>As many rounds as the text has octets are enough when no match is empty.\<close>

fun parse_cookies :: "cookie_lib \<Rightarrow> bool \<Rightarrow> nat \<Rightarrow> string \<Rightarrow> string option \<Rightarrow> unit cookie_prog" where
  "parse_cookies K simple 0 s current = (if s = [] then doM [] else throwM FuelExhausted)"
| "parse_cookies K simple (Suc n) s current = (if s = [] then doM [] else
     case ck_pattern K s of
       None \<Rightarrow> doM []
     | Some (pos, len, k, v) \<Rightarrow>
         bindM (parse_match K simple k v current) (parse_cookies K simple n (drop (pos + len) s)))"

definition parseString :: "cookie_lib \<Rightarrow> bool \<Rightarrow> string \<Rightarrow> unit cookie_prog" where
  "parseString K simple str = parse_cookies K simple (length str) str None"

section \<open>Lemmas: translation\<close>

lemma idmap_table: "n < 128 \<Longrightarrow> map table_entry Idmap ! n = Some (char_of n)" "length (map table_entry Idmap) = 256"
  by (simp_all add: Idmap_def table_entry_def)

lemma delete_chars_table:
  "list_all (\<lambda>c. (of_char c :: nat) < 128) cs \<Longrightarrow> length tab = 256 \<Longrightarrow>
     \<exists>tab'. delete_chars tab cs = Some tab' \<and> length tab' = 256
       \<and> (\<forall>c. (of_char c :: nat) < 128 \<longrightarrow> tab' ! of_char c = (if c \<in> set cs then None else tab ! of_char c))"
proof (induction cs arbitrary: tab)
  case (Cons d cs)
  let ?n = "of_char d :: nat"
  have d: "char_index d = Some ?n" "?n < 256" using Cons.prems by (auto simp: char_index_def Let_def)
  obtain tab' where t: "delete_chars (tab[?n := None]) cs = Some tab'" "length tab' = 256"
    "\<forall>c. (of_char c :: nat) < 128 \<longrightarrow> tab' ! of_char c = (if c \<in> set cs then None else tab[?n := None] ! of_char c)"
    using Cons.IH [of "tab[?n := None]"] Cons.prems by auto
  have "tab[?n := None] ! of_char c = (if c = d then None else tab ! of_char c)" for c
    using d(2) Cons.prems(2) by (auto simp: nth_list_update)
  with t d show ?case by auto
qed simp

lemma legal_ascii: "list_all (\<lambda>c. (of_char c :: nat) < 128) LegalChars"
  by code_simp

lemma translate_rest:
  assumes "list_all (\<lambda>c. (of_char c :: nat) < 128) s"
  shows "translate_str s Idmap LegalChars = Some (filter (\<lambda>c. c \<notin> set LegalChars) s)"
proof -
  obtain tab where t: "delete_chars (map table_entry Idmap) LegalChars = Some tab"
    "\<forall>c. (of_char c :: nat) < 128 \<longrightarrow> tab ! of_char c = (if c \<in> set LegalChars then None else map table_entry Idmap ! of_char c)"
    using delete_chars_table [OF legal_ascii idmap_table(2)] by auto
  have "translate_chars tab s = Some (filter (\<lambda>c. c \<notin> set LegalChars) s)"
    using assms
  proof (induction s)
    case (Cons c s)
    then have "char_index c = Some (of_char c)" by (simp add: char_index_def Let_def)
    with Cons t(2) idmap_table(1) [of "of_char c"] show ?case by auto
  qed simp
  with t(1) show ?thesis by (simp add: translate_str_def)
qed

lemma translate_undefined: "\<not> list_all (\<lambda>c. (of_char c :: nat) < 128) s \<Longrightarrow> translate_str s Idmap LegalChars = None"
proof -
  assume *: "\<not> list_all (\<lambda>c. (of_char c :: nat) < 128) s"
  have "translate_chars tab s = None" for tab
    using * by (induction s) (auto simp: char_index_def Let_def split: option.splits)
  then show ?thesis by (simp add: translate_str_def split: option.splits)
qed

end
