(* ===== verification/Cookie_Props.thy ===== *)
theory Cookie_Props
  imports Cookie
begin

text \<open>
  Values of cookies: what is quoted is unquoted again, and a quoted value cannot break out of its place
  in a header line; attributes can.
\<close>

section \<open>Escapes\<close>

definition unescaped :: "char \<Rightarrow> bool" where
  "unescaped c \<longleftrightarrow> Translator c = None"

lemma translated_unescaped: "unescaped c \<Longrightarrow> translated c = [c]"
  by (simp add: unescaped_def translated_def)

lemma unescaped_range:
  assumes "unescaped c"
  shows "32 \<le> (of_char c :: nat)" "(of_char c :: nat) < 127" "c \<noteq> CHR 0x5C" "c \<noteq> CHR '',''" "c \<noteq> CHR '';''" "c \<noteq> CHR 0x22"
proof -
  have "32 \<le> (of_char c :: nat) \<and> (of_char c :: nat) < 127 \<and> (of_char c :: nat) \<notin> {34, 44, 59, 92}"
    using assms by (auto simp: unescaped_def Translator_def Let_def split: if_splits)
  then show "32 \<le> (of_char c :: nat)" "(of_char c :: nat) < 127" "c \<noteq> CHR 0x5C" "c \<noteq> CHR '',''" "c \<noteq> CHR '';''" "c \<noteq> CHR 0x22"
    by auto
qed

lemma escape_cases:
  assumes "\<not> unescaped c"
  obtains "translated c = octal_escape (of_char c)" | "translated c = [CHR 0x5C, c]" "c = CHR 0x22 \<or> c = CHR 0x5C"
proof -
  have "(of_char c :: nat) = of_char CHR 0x22 \<longleftrightarrow> c = CHR 0x22" "(of_char c :: nat) = of_char CHR 0x5C \<longleftrightarrow> c = CHR 0x5C"
    by (simp_all only: of_char_eq_iff)
  then have "(of_char c :: nat) = 34 \<longleftrightarrow> c = CHR 0x22" "(of_char c :: nat) = 92 \<longleftrightarrow> c = CHR 0x5C"
    by simp_all
  then show thesis
    using assms that by (auto simp: unescaped_def translated_def Translator_def Let_def split: if_splits)
qed

lemma octal_escape_digits:
  assumes "n < 256"
  shows "octal_digit 3 (char_of (48 + n div 64))" "octal_digit 7 (char_of (48 + n div 8 mod 8))" "octal_digit 7 (char_of (48 + n mod 8))"
    and "octal_value [char_of (48 + n div 64), char_of (48 + n div 8 mod 8), char_of (48 + n mod 8)] = n"
proof -
  have d: "n div 64 \<le> 3" "n div 8 mod 8 \<le> 7" "n mod 8 \<le> 7" using assms by auto
  have v: "of_char (char_of (48 + k)) = (48 + k :: nat)" if "k \<le> 7" for k using that by simp
  show "octal_digit 3 (char_of (48 + n div 64))" "octal_digit 7 (char_of (48 + n div 8 mod 8))" "octal_digit 7 (char_of (48 + n mod 8))"
    using d v [of "n div 64"] v [of "n div 8 mod 8"] v [of "n mod 8"] by (simp_all add: octal_digit_def)
  have "(n div 64 * 8 + n div 8 mod 8) * 8 + n mod 8 = n"
    using div_mult2_eq [of n 8 8] by (simp add: mult.commute)
  then show "octal_value [char_of (48 + n div 64), char_of (48 + n div 8 mod 8), char_of (48 + n mod 8)] = n"
    using d v [of "n div 64"] v [of "n div 8 mod 8"] v [of "n mod 8"] by (simp add: octal_value_def)
qed

section \<open>Searching\<close>

definition octal_start :: "string \<Rightarrow> bool" where
  "octal_start s \<longleftrightarrow> (case s of b # c # d # r \<Rightarrow> octal_digit 3 b \<and> octal_digit 7 c \<and> octal_digit 7 d | _ \<Rightarrow> False)"

lemma find_octal_step:
  "find_octal (a # s) = (if a = CHR 0x5C \<and> octal_start s then Some 0 else map_option Suc (find_octal s))"
  by (cases "(a # s)" rule: find_octal.cases) (auto simp: octal_start_def split: list.splits)

lemma find_skip:
  assumes "CHR 0x5C \<notin> set p"
  shows "find_octal (p @ s) = map_option (\<lambda>k. length p + k) (find_octal s)"
    and "s \<noteq> [] \<Longrightarrow> find_quoted (p @ s) = map_option (\<lambda>k. length p + k) (find_quoted s)"
  using assms
proof (induction p)
  case (Cons a p)
  { case 1 then show ?case using Cons.IH(1) by (auto simp: find_octal_step option.map_comp comp_def simp del: find_octal.simps)
  next
    case 2
    then obtain b r where "p @ s = b # r" by (cases "p @ s") auto
    with 2 show ?case using Cons.IH(2) by (auto simp: option.map_comp comp_def) }
next
  case Nil
  { case 1 show ?case by (cases "find_octal s") simp_all
  next
    case 2 show ?case by (cases "find_quoted s") simp_all }
qed

lemma find_none: "CHR 0x5C \<notin> set s \<Longrightarrow> find_octal s = None \<and> find_quoted s = None"
proof (induction s)
  case (Cons a s)
  then show ?case by (cases s) (auto simp: find_octal_step simp del: find_octal.simps)
qed simp

section \<open>Unquoting what was quoted\<close>

lemma translated_printable: "c \<in> set (translated d) \<Longrightarrow> 32 \<le> (of_char c :: nat) \<and> (of_char c :: nat) < 127 \<and> c \<noteq> CHR '','' \<and> c \<noteq> CHR '';''"
proof (cases "unescaped d")
  case False
  assume "c \<in> set (translated d)"
  from False show ?thesis
  proof (cases rule: escape_cases)
    case 1
    have "(of_char d :: nat) < 256" by (rule nat_of_char_less_256)
    then have "c = CHR 0x5C \<or> octal_digit 7 c"
      using \<open>c \<in> set (translated d)\<close> 1 octal_escape_digits [of "of_char d"]
      by (auto simp: octal_escape_def octal_digit_def)
    then show ?thesis by (auto simp: octal_digit_def)
  next
    case 2
    then show ?thesis using \<open>c \<in> set (translated d)\<close> by auto
  qed
qed (use unescaped_range in \<open>auto simp: translated_unescaped\<close>)

lemma printable_no_line_end: "list_all no_line_end (concat (map translated s))"
  using translated_printable by (fastforce simp: list_all_iff no_line_end_def)

lemma unquote_loop_unescaped:
  assumes "cookie_documented K" "list_all unescaped p"
  shows "concat (unquote_loop K p) = p"
proof -
  have "CHR 0x5C \<notin> set p" "list_all no_line_end p"
    using assms(2) unescaped_range by (fastforce simp: list_all_iff no_line_end_def)+
  then show ?thesis
    using assms(1) find_none [of p] by (subst unquote_loop.simps) (simp add: cookie_documented_def)
qed

lemma unquote_loop_escape:
  assumes "cookie_documented K" "list_all unescaped p" "\<not> unescaped c" "list_all no_line_end r"
  shows "concat (unquote_loop K (p @ translated c @ r)) = p @ c # concat (unquote_loop K r)"
proof -
  let ?s = "p @ translated c @ r"
  have p: "CHR 0x5C \<notin> set p" "list_all no_line_end p"
    using assms(2) unescaped_range by (fastforce simp: list_all_iff no_line_end_def)+
  have "list_all no_line_end (translated c)" using printable_no_line_end [of "[c]"] by simp
  with p(2) assms(4) have lib: "ck_octal K ?s = find_octal ?s" "ck_quote K ?s = find_quoted ?s"
    using assms(1) by (simp_all add: cookie_documented_def)
  from assms(3) show ?thesis
  proof (cases rule: escape_cases)
    case 1
    let ?n = "of_char c :: nat"
    have n: "?n < 256" by (rule nat_of_char_less_256)
    have "find_octal ?s = Some (length p)" "find_quoted ?s = Some (length p)"
      using octal_escape_digits(1-3) [OF n] by (simp_all add: 1 octal_escape_def find_skip [OF p(1)])
    with 1 octal_escape_digits(4) [OF n] show ?thesis
      unfolding unquote_loop.simps [of K ?s] lib by (simp add: octal_escape_def)
  next
    case 2
    have "\<not> octal_start (c # r)" using 2(2) by (auto simp: octal_start_def octal_digit_def split: list.splits)
    then have "find_octal ?s = map_option (\<lambda>k. length p + Suc k) (find_octal (c # r))"
      by (simp add: 2(1) find_skip(1) [OF p(1)] find_octal_step [of "CHR 0x5C" "c # r"] option.map_comp comp_def
          del: find_octal.simps)
    moreover have "find_quoted ?s = Some (length p)" by (simp add: 2(1) find_skip [OF p(1)])
    ultimately show ?thesis
      unfolding unquote_loop.simps [of K ?s] lib by (cases "find_octal (c # r)") (simp_all add: 2(1))
  qed
qed

lemma unquote_translated:
  assumes "cookie_documented K"
  shows "concat (unquote_loop K (concat (map translated s))) = s"
proof (induction "length s" arbitrary: s rule: less_induct)
  case less
  show ?case
  proof (cases "list_all unescaped s")
    case True
    then have "concat (map translated s) = s" by (induction s) (auto simp: translated_unescaped)
    with True assms show ?thesis by (simp add: unquote_loop_unescaped)
  next
    case False
    then obtain p c t where s: "s = p @ c # t" "list_all unescaped p" "\<not> unescaped c"
      using split_list_first_prop [of s "\<lambda>c. \<not> unescaped c"] by (auto simp: list_all_iff)
    have "concat (map translated p) = p" using s(2) by (induction p) (auto simp: translated_unescaped)
    with s unquote_loop_escape [OF assms s(2,3) printable_no_line_end [of t]] less [of t] show ?thesis by simp
  qed
qed

lemma quote_ascii:
  assumes "list_all (\<lambda>c. (of_char c :: nat) < 128) s" "cookie_documented K"
  shows "cookie_quote K s = Inr (if list_all (\<lambda>c. c \<in> set LegalChars) s then s
    else CHR 0x22 # concat (map translated s) @ [CHR 0x22])"
proof -
  have "filter (\<lambda>c. c \<notin> set LegalChars) s = [] \<longleftrightarrow> list_all (\<lambda>c. c \<in> set LegalChars) s"
    by (simp only: filter_empty_conv list_all_iff) simp
  then show ?thesis
    using assms(2) by (auto simp: cookie_quote_def translate_rest [OF assms(1)] cookie_documented_def boostD(2) join_with_Nil)
qed

text \<open>
  The value of a cookie survives quoting. For every value of octets below 128, \<open>quote\<close> gives a text that
  \<open>unquote\<close> turns into the value again, whatever quotes, backslashes, control characters and texts that
  look like escapes it contains.
\<close>

theorem cookie_unquote_quote:
  assumes "cookie_documented K" "list_all (\<lambda>c. (of_char c :: nat) < 128) s"
  shows "\<exists>q. cookie_quote K s = Inr q \<and> cookie_unquote K q = s"
proof (cases "list_all (\<lambda>c. c \<in> set LegalChars) s")
  case True
  have "CHR 0x22 \<notin> set LegalChars" by code_simp
  with True have "s \<noteq> [] \<Longrightarrow> hd s \<noteq> CHR 0x22" by (cases s) auto
  with True show ?thesis
    by (simp add: quote_ascii [OF assms(2,1)] cookie_unquote_def) fastforce
next
  case False
  with assms(1) show ?thesis
    by (simp add: quote_ascii [OF assms(2,1)] cookie_unquote_def boostD(2) cookie_documented_def join_with_Nil
        unquote_translated [OF assms(1)])
qed

lemma list_all_subset: "list_all P xs \<Longrightarrow> list_all (\<lambda>c. c \<in> set xs) ys \<Longrightarrow> list_all P ys"
  by (auto simp: list_all_iff)

text \<open>
  The value of a cookie stays in its place. Whatever value is assigned to a key of a new \<open>SimpleCookie\<close>,
  the assignment fails or the header line that is put out consists of printable characters without a
  comma or semicolon: the value can neither end its line nor add an attribute or another cookie.
\<close>

theorem set_cookie_safe:
  assumes "cookie_documented K" "cookie_assign K True key value [] = (Inr (), items)"
  shows "\<exists>line. cookie_output K None ''Set-Cookie:'' [CHR 0x0D, CHR 0x0A] items = ''Set-Cookie: '' @ line
    \<and> list_all (\<lambda>c. 32 \<le> (of_char c :: nat) \<and> (of_char c :: nat) < 127 \<and> c \<noteq> CHR '','' \<and> c \<noteq> CHR '';'') line"
proof -
  let ?safe = "\<lambda>c. 32 \<le> (of_char c :: nat) \<and> (of_char c :: nat) < 127 \<and> c \<noteq> CHR '','' \<and> c \<noteq> CHR '';''"
  have legal: "list_all ?safe LegalChars" by code_simp
  obtain q where q: "cookie_quote K value = Inr q" "morsel_set K key value q newMorsel = Inr (snd (hd items))"
    "items = [(key, snd (hd items))]"
    using assms(2) by (auto simp: cookie_assign_def valueEncode_def cookie_set_def keep_morsel_def runs split: sum.splits)
  have m: "snd (hd items) = newMorsel\<lparr> mo_key := key, mo_value := value, mo_codedValue := q \<rparr>"
    and "translate_str key Idmap LegalChars = Some []"
    using q(2) by (auto simp: morsel_set_def split: if_splits option.splits)
  then have "list_all (\<lambda>c. (of_char c :: nat) < 128) key" using translate_undefined [of key] by fastforce
  from translate_rest [OF this] \<open>translate_str key Idmap LegalChars = Some []\<close>
  have "list_all (\<lambda>c. c \<in> set LegalChars) key" by (simp add: empty_filter_conv filter_empty_conv list_all_iff)
  with legal have key: "list_all ?safe key" by (rule list_all_subset)
  have ascii: "list_all (\<lambda>c. (of_char c :: nat) < 128) value"
    using q(1) translate_undefined [of "value"] by (cases "translate_str value Idmap LegalChars") (auto simp: cookie_quote_def)
  have ctext: "c_text x = x" if "list_all ?safe x" for x
  proof -
    have "c \<noteq> CHR 0x00" if "c \<in> set x" for c
    proof -
      have "32 \<le> (of_char c :: nat)" using \<open>list_all ?safe x\<close> that by (simp add: list_all_iff)
      then show ?thesis by auto
    qed
    then show ?thesis by (simp add: c_text_def takeWhile_eq_all_conv)
  qed
  have "list_all ?safe (concat (map translated value))"
    unfolding list_all_iff using translated_printable by auto
  moreover have "q = (if list_all (\<lambda>c. c \<in> set LegalChars) value then value
      else CHR 0x22 # concat (map translated value) @ [CHR 0x22])"
    using q(1) quote_ascii [OF ascii assms(1)] by simp
  ultimately have safe: "list_all ?safe q"
    using list_all_subset [OF legal, of "value"] by (cases "list_all (\<lambda>c. c \<in> set LegalChars) value") simp_all
  have none: "concat (map (shown_attribute (map fst reserved_keys)) (mo_items newMorsel)) = []"
    by (simp add: newMorsel_def shown_attribute_def reserved_keys_def)
  have "cookie_output K None ''Set-Cookie:'' [CHR 0x0D, CHR 0x0A] items = ''Set-Cookie: '' @ key @ ''='' @ q"
    using assms(1) by (subst q(3)) (simp add: cookie_output_def morsel_output_def outputString_def m cookie_documented_def
        boostD(2) ctext [OF key] ctext [OF safe] none)
  then show ?thesis using key safe by (intro exI [of _ "key @ ''='' @ q"]) simp
qed

section \<open>Cases\<close>

text \<open>Octets from 128 on, as of any text in UTF-8, index a table out of bounds.\<close>

lemma quote_undefined:
  assumes "\<not> list_all (\<lambda>c. (of_char c :: nat) < 128) s"
  shows "cookie_quote K s = Inl Undefined"
  by (simp add: cookie_quote_def translate_undefined [OF assms])

text \<open>Attributes are written as they are given, line ends included.\<close>

lemma attribute_as_given:
  "shown_attribute (map fst reserved_keys) (''path'', ''/'' @ [CHR 0x0D, CHR 0x0A] @ ''Set-Cookie: a=b'')
     = [''Path=/'' @ [CHR 0x0D, CHR 0x0A] @ ''Set-Cookie: a=b'']"
  by (simp add: shown_attribute_def reserved_keys_def c_text_def)

section \<open>Concrete cases\<close>

definition cookie_ref :: cookie_lib where
  "cookie_ref = \<lparr> ck_boost = boost_ref, ck_octal = find_octal, ck_quote = find_quoted, ck_pattern = (\<lambda>s. None) \<rparr>"

lemma cookie_ref_documented: "cookie_documented cookie_ref"
  by (simp add: cookie_documented_def cookie_ref_def boost_ref_documented)

theorem cookie_unquote_quote_witness:
  "\<exists>q. cookie_quote cookie_ref ''a;\"101'' = Inr q \<and> cookie_unquote cookie_ref q = ''a;\"101''"
  by (rule cookie_unquote_quote [OF cookie_ref_documented]) code_simp

theorem set_cookie_safe_witness:
  "\<exists>items line. cookie_assign cookie_ref True ''k'' ''a; b'' [] = (Inr (), items)
    \<and> cookie_output cookie_ref None ''Set-Cookie:'' [CHR 0x0D, CHR 0x0A] items = ''Set-Cookie: '' @ line
    \<and> list_all (\<lambda>c. 32 \<le> (of_char c :: nat) \<and> (of_char c :: nat) < 127 \<and> c \<noteq> CHR '','' \<and> c \<noteq> CHR '';'') line"
proof -
  have "translate_str ''k'' Idmap LegalChars = Some (filter (\<lambda>c. c \<notin> set LegalChars) ''k'')"
    by (rule translate_rest) code_simp
  moreover have "filter (\<lambda>c. c \<notin> set LegalChars) ''k'' = []" "\<not> isReservedKey cookie_ref ''k''"
    "list_all (\<lambda>c. (of_char c :: nat) < 128) ''a; b''" by code_simp+
  ultimately have "\<exists>items. cookie_assign cookie_ref True ''k'' ''a; b'' [] = (Inr (), items)"
    by (simp add: cookie_assign_def valueEncode_def quote_ascii [OF _ cookie_ref_documented] cookie_set_def morsel_set_def keep_morsel_def
        runs)
  then obtain items where "cookie_assign cookie_ref True ''k'' ''a; b'' [] = (Inr (), items)" by blast
  then show ?thesis using set_cookie_safe [OF cookie_ref_documented] by blast
qed

end
