(* ===== verification/Spec2Isabelle.thy ===== *)
theory Spec2Isabelle
  imports UInt_Receiver Ws_Delivery Url_Props Ws_Negotiation Ws_Handshake Io_Stream_Examples Tcp_Examples
    Deferred_Examples Archive_Props Json_Cases Http_Examples Http_Client_Once Cookie_Props
begin

text \<open>
  A verification library for net4cxx, an asynchronous network library in C++ (all paths are below
  \<open>src/net4cxx\<close>).

  \<^bold>\<open>The program.\<close> A reactor over Boost.Asio runs completion handlers. A transport
  (\<open>core/network/tcp\<close>) owns a socket, queues what is written, reads into a buffer and calls a
  protocol; the protocol writes and closes through the transport. Protocols are the
  length-prefixed receivers (\<open>core/protocols/uintnreceiver\<close>), the stream with pending reads
  (\<open>core/protocols/iostream\<close>), on which the HTTP server and client stand (\<open>plugins/web\<close>), and the WebSocket
  protocol (\<open>plugins/websocket\<close>) with its opening handshake, its frames, its masking and its
  compression. Beside them stand \<open>Deferred\<close> (\<open>core/network/defer\<close>), a result with callbacks, and
  helpers for buffers, strings and URLs (\<open>common/utilities\<close>, \<open>common/httputils\<close>).

  \<^bold>\<open>Conventions.\<close> \<open>Net_Prelude\<close> defines the programs that the methods become, functions from a
  state to an error or a value and a state, with \<open>doM\<close> for a block of statements, and three
  ways to reason on them: symbolic runs (\<open>runs\<close>), state predicates that a method keeps and
  relations between the state before and after it (\<open>evolves\<close>, locale \<open>state_rel\<close>). A class is
  a record, an enumeration or a variant a datatype. Integers the wire fixes are words (bytes,
  16-bit close codes, 64-bit frame lengths and pointers); lengths of containers, \<open>size_t\<close>, are
  natural numbers, and where the source subtracts them past zero (\<open>MessageBuffer\<close>) the
  wrap-around is written out. Exceptions are \<open>Inl\<close>. What a method does to the outside (written
  octets, calls of virtual methods, closes) is appended to a trace or list in the state.

  Code that is not in the repository is a parameter with documented laws as named hypotheses:
  Boost.StringAlgo, Boost.Regex, printing and scanning of \<open>double\<close>, the sockets and timers of Boost.Asio, zlib, SHA-1 and Base64,
  random numbers and the endianness of the host. A subclass that the user writes is a parameter
  too: a function from the trace so far to the calls it makes next. Where those calls re-enter the
  object, \<open>tcp_exec\<close> and \<open>def_exec\<close> take a bound on their nesting, and exhausting it is an error
  value of its own. Logging is left out throughout.

  \<^bold>\<open>The theories.\<close>

  \<^item> \<open>Xor_Masker\<close>, \<open>Utf8_Validator\<close>: \<open>xormasker\<close> and \<open>utf8validator\<close> of \<open>plugins/websocket\<close>. The
    three maskers are one cycle of exclusive ors whatever the chunks, behind an interface that
    the frame theories use; the table automaton is UTF-8, chunk by chunk.
  \<^item> \<open>UInt_Receiver\<close>: the five receivers and \<open>ByteConvert\<close>. Sent messages are received, in any
    chunks; the loop ends on less than 4 GiB; one byte order is broken, and so is a length near 4 GiB.
  \<^item> \<open>Ws_State\<close>, \<open>Ws_Send\<close>, \<open>Ws_Receive\<close>: \<open>WebSocketProtocol\<close> of \<open>protocol.h\<close> and
    \<open>protocol.cpp\<close>. The record has the members of the class; one definition per method.
    \<open>Ws_Lifecycle\<close>: frame conditions of sending and receiving, the states of a connection.
    \<open>Ws_Frame\<close>, \<open>Ws_Parser\<close>, \<open>Ws_Stream\<close>, \<open>Ws_Delivery\<close>: the wire format, the parser and its
    end, and the refinement of an abstract stream of frames to the calls of the application.
  \<^item> \<open>Ws_Pmce\<close>, \<open>Ws_Negotiation\<close>: \<open>compress\<close> and \<open>parseExtensionsHeader\<close>; both sides agree on
    parameters that fit; what a compressed message loses.
  \<^item> \<open>Ws_Util\<close>, \<open>Ws_Factory\<close>, \<open>Ws_Server\<close>, \<open>Ws_Client\<close>: \<open>util\<close>, \<open>types\<close>, the factories and the
    opening handshake of both sides in \<open>protocol.cpp\<close>, a function per stage. \<open>Ws_Headers\<close>,
    \<open>Ws_Server_Props\<close>, \<open>Ws_Client_Props\<close>, \<open>Ws_Handshake\<close>, \<open>Ws_Server_Examples\<close>: headers are read
    back, each side opens only after its checks, an acceptable request is accepted, and the two
    sides together complete the handshake.
  \<^item> \<open>Str_Util\<close>, \<open>Url_Parse\<close>, \<open>Url_Coding\<close>, \<open>Url_Props\<close>: \<open>strutil\<close> and \<open>urlparse\<close>; round trips of
    splitting, percent encoding and query strings.
  \<^item> \<open>Cookie\<close>, \<open>Cookie_Props\<close>: \<open>cookie\<close>; a quoted value is unquoted again, and the value of a cookie does
    not leave its place in a header line.
  \<^item> \<open>Message_Buffer\<close>: \<open>messagebuffer\<close>, behind the interface of a byte queue.
    \<open>Io_Stream\<close>, \<open>Io_Stream_Props\<close>, \<open>Io_Stream_Examples\<close>: \<open>iostream\<close> on that buffer; the pieces
    delivered are the octets received, and no read that could be served is forgotten.
    \<open>Tcp_Connection\<close>, \<open>Tcp_Props\<close>, \<open>Tcp_Closing\<close>, \<open>Tcp_Examples\<close>: \<open>TCPConnection\<close> and its two
    subclasses; the octets on the socket are the octets accepted, in order, the loss is
    reported once, and what happens when a close meets a pending write.
  \<^item> \<open>Deferred\<close>, \<open>Deferred_Props\<close>, \<open>Deferred_Once\<close>, \<open>Deferred_List\<close>, \<open>Deferred_Examples\<close>: \<open>defer\<close>;
    the callbacks fold over the value, a deferred is called once, lists gather the results.

  \<^item> \<open>Archive\<close>, \<open>Archive_Props\<close>: \<open>common/serialization/archive\<close>; what is written is read back, a cut
    archive is noticed, and reading stays inside the storage.
  \<^item> \<open>Json_Value\<close>, \<open>Json_Writer\<close>, \<open>Json_Reader\<close>: \<open>common/configuration/json\<close>, values, styled writer
    and reader. \<open>Json_Reader_Props\<close>: reading ends, with an error exactly if it reports one.
    \<open>Json_Text\<close>: the grammar, and every text of it is read. \<open>Json_Quote\<close>, \<open>Json_Writer_Props\<close>: what is
    written is a text of the grammar. \<open>Json_Roundtrip\<close>: both together. \<open>Json_Cases\<close>: inputs that
    are accepted although they are no JSON, and the like.

  \<^item> \<open>Http_Util\<close>, \<open>Http_Server\<close>, \<open>Http_Client\<close>: \<open>HTTPHeaders\<close> and start lines (\<open>httputil\<close>),
    \<open>HTTPConnection\<close> (\<open>httpserver\<close>) and \<open>HTTPClientConnection\<close> (\<open>httpclient\<close>) of \<open>plugins/web\<close>.
    \<open>Http_Stream\<close> has what both share: the read that is asked of \<open>IOStream\<close>, \<open>feed\<close>, which runs a
    connection on octets at hand, and chunks. \<open>Http_Headers\<close>: a header that is written is read
    back. \<open>Http_Server_Props\<close>, \<open>Http_Requests\<close>, \<open>Http_Client_Props\<close>: what each end writes and how it
    reads. \<open>Http_Exchange\<close>: both ends together. \<open>Http_Client_Once\<close>: the callback of a request.
    \<open>Http_Examples\<close>: a documented library and an exchange.
  \<^item> \<open>Std_Map\<close>: a \<open>std::map\<close> that is visited in order, under headers and JSON objects.

  Theorems marked \<open>C1\<close> to \<open>C40\<close> are the properties; their concrete cases end in \<open>_witness\<close>.

  \<^bold>\<open>Interfaces.\<close> Locales state what one part relies on in another: a masker (\<open>masker\<close>,
  interpreted for the classes of \<open>xormasker\<close>), a framing by length (\<open>framing\<close>, interpreted for the
  five receivers), a byte queue (\<open>byte_queue\<close>, interpreted for \<open>MessageBuffer\<close> and for the write
  queue of the transport), the reader of a nested JSON value in the loops over arrays and objects
  (\<open>value_reader\<close>, interpreted for \<open>readValue\<close>), and a relation between the state before and after a method
  (\<open>state_rel\<close>, with extensions for the methods of a WebSocket connection, interpreted for every
  relation that the invariants use).

  \<^bold>\<open>Bounds and fuel.\<close> The frame parser runs at most twice the length of its buffer plus two
  rounds, and \<open>consumeFrames_terminates\<close> shows that this is enough: each round shortens the buffer
  or finishes the current frame. The receivers take any number of rounds above the number of
  octets at hand, and \<open>receiver_terminates\<close> shows that they return. The write loop of the transport
  takes one round per queued packet and one more; \<open>write_loop_returns\<close> shows that it returns
  whatever the socket does. The JSON
  reader descends at most as deep as its document is long, and \<open>json_parse_returns\<close> shows that it
  always returns, but for the documents with comments that are collected. \<open>feed\<close> ends because every piece shortens the input; the loops of the HTTP connections over what zlib has
  left take a bound (\<open>he_fuel\<close>, \<open>ce_fuel\<close>), as it is up to zlib whether they end, and running out is an
  error of its own. The loops of \<open>Deferred\<close> take the bound on nested
  calls; the theorems that state a result ask for a constant and one round per callback. A bound on
  nested calls is no assumption on the program: the invariants hold for every bound.

  \<^bold>\<open>Assertions and exceptions.\<close> \<open>NET4CXX_ASSERT\<close> and the checks of \<open>boost::optional\<close> end the process where
  they fail, as in a build without \<open>NDEBUG\<close>. The default build type (\<open>RelWithDebInfo\<close>) defines \<open>NDEBUG\<close>, and a
  failed assertion is passed over there: for such a build the theorems speak of the runs in which no
  assertion fails. The one assertion that well-formed input makes fail, in \<open>HTTPConnection::onDataRead\<close>, is
  modelled for both builds (\<open>he_asserts\<close>). The runs of \<open>TCPConnection\<close> (\<open>tcp_reach\<close>) end where an exception
  leaves a step; the reactor would log it and go on. Undefined behaviour is an error value where the
  definitions can reach it, and no theorem says what the program does after it.

  \<^bold>\<open>Not modelled.\<close> What only calls a library: the event loop, the resolver, sinks and logging,
  options, hashing, the zlib wrappers, random numbers and start-up. The SSL, Unix and datagram
  transports, which repeat the state machine of TCP on other sockets, and IOCP. Listener and
  connectors, the form bodies and header parameters of the HTTP helpers, the web framework, the thread queue
  and CSV files are not done, nor the attachment of comments to JSON values while they are read (\<open>CommentCollected\<close> stands for it). Memory and lifetime: objects are values or
  addresses in a map that is never freed, so a leak or a dangling pointer does not show.
\<close>

end
